(* ===== verification/Prelude.thy ===== *)
theory Prelude
  imports Main "HOL-Library.Char_ord" "HOL-Library.List_Lexorder"
begin

text \<open>
  The vocabulary every component shares: Go's \<open>error\<close> values with \<open>errors.Is\<close>, the
  functions of Go's \<open>strings\<close> and \<open>strconv\<close> packages the sources call, and the named
  collections of simplification rules that carry the component proofs.

  Strings are byte strings (\<open>char list\<close>), as Go's are. \<open>strings.TrimSpace\<close> and
  \<open>strings.ToLower\<close> are modelled on ASCII text.
\<close>

named_theorems go_simps \<open>unfolding rules of the Go library model\<close>
named_theorems cvr_simps \<open>unfolding rules of the checkpoint-verify-recover layer\<close>
named_theorems store_simps \<open>projection and update rules of the store operations\<close>
named_theorems engine_simps \<open>unfolding rules of the orchestrator engine\<close>

section \<open>Go errors\<close>

text \<open>
  Every \<open>error\<close> value the modelled packages create or test: \<open>errors.New\<close> and a
  \<open>fmt.Errorf\<close> without \<open>%w\<close> (\<open>GoErr\<close>), \<open>fmt.Errorf("prefix: %w", err)\<close>
  (\<open>GoWrap\<close>), the wrapper type \<open>cvr.LayerAErr\<close>, the structured
  \<open>primitive.PrimitiveError\<close> (its code and message; the details it may carry for display are
  left out) and the sentinel values compared by identity.
\<close>

datatype go_error =
    GoErr string
  | GoWrap string go_error
  | LayerAErr go_error
  | PrimitiveError string string
  | DeadlineExceeded
  | ErrCVRDepthExceeded
  | ErrReviewConflict
  | ErrGoalPaused
  | ErrPrimitiveNotFound

primrec error_text :: "go_error \<Rightarrow> string" where
  "error_text (GoErr s) = s"
| "error_text (GoWrap s e) = s @ '': '' @ error_text e"
| "error_text (LayerAErr e) = ''layer_a_failed: '' @ error_text e"
| "error_text (PrimitiveError c m) = m"
| "error_text DeadlineExceeded = ''context deadline exceeded''"
| "error_text ErrCVRDepthExceeded =
     ''cvr_depth_exceeded: max recursion depth reached, no further recovery attempted''"
| "error_text ErrReviewConflict = ''conflicting review decision''"
| "error_text ErrGoalPaused = ''goal paused for review''"
| "error_text ErrPrimitiveNotFound = ''primitive not found''"

text \<open>\<open>errors.Is err target\<close> for a sentinel \<open>target\<close>: walk the \<open>Unwrap\<close> chain.\<close>

primrec errors_is :: "go_error \<Rightarrow> go_error \<Rightarrow> bool" where
  "errors_is (GoErr s) t = (GoErr s = t)"
| "errors_is (GoWrap s e) t = (GoWrap s e = t \<or> errors_is e t)"
| "errors_is (LayerAErr e) t = (LayerAErr e = t \<or> errors_is e t)"
| "errors_is (PrimitiveError c m) t = (PrimitiveError c m = t)"
| "errors_is DeadlineExceeded t = (DeadlineExceeded = t)"
| "errors_is ErrCVRDepthExceeded t = (ErrCVRDepthExceeded = t)"
| "errors_is ErrReviewConflict t = (ErrReviewConflict = t)"
| "errors_is ErrGoalPaused t = (ErrGoalPaused = t)"
| "errors_is ErrPrimitiveNotFound t = (ErrPrimitiveNotFound = t)"

definition err_is :: "go_error option \<Rightarrow> go_error \<Rightarrow> bool" where
  [go_simps]: "err_is eo t = (case eo of None \<Rightarrow> False | Some e \<Rightarrow> errors_is e t)"

lemma err_is_simps [simp]:
  "\<not> err_is None t"
  "err_is (Some e) t = errors_is e t"
  by (simp_all add: err_is_def)

lemma errors_is_refl [simp]: "errors_is e e"
  by (cases e) simp_all

section \<open>Strings\<close>

definition has_prefix :: "string \<Rightarrow> string \<Rightarrow> bool" where
  "has_prefix s p = (take (length p) s = p)"

text \<open>\<open>strings.TrimPrefix\<close>\<close>

definition trim_prefix :: "string \<Rightarrow> string \<Rightarrow> string" where
  "trim_prefix s p = (if has_prefix s p then drop (length p) s else s)"

lemma has_prefix_append [simp]: "has_prefix (p @ s) p"
  by (simp add: has_prefix_def)

lemma has_prefix_refl [simp]: "has_prefix s s"
  by (simp add: has_prefix_def)

lemma has_prefix_trans: "has_prefix s p \<Longrightarrow> has_prefix p q \<Longrightarrow> has_prefix s q"
  by (metis has_prefix_def min.absorb1 take_take append_take_drop_id length_append
      length_take linorder_le_cases min.absorb2 le_add1)

fun contains_str :: "string \<Rightarrow> string \<Rightarrow> bool" where
  "contains_str s sub =
     (has_prefix s sub \<or> (case s of [] \<Rightarrow> False | _ # t \<Rightarrow> contains_str t sub))"

declare contains_str.simps [simp del]

lemma contains_str_iff: "contains_str s sub \<longleftrightarrow> (\<exists>u v. s = u @ sub @ v)"
proof (induction s)
  case Nil
  show ?case by (auto simp: contains_str.simps has_prefix_def)
next
  case (Cons c s)
  show ?case
  proof
    assume "contains_str (c # s) sub"
    then consider "has_prefix (c # s) sub" | "contains_str s sub"
      by (auto simp: contains_str.simps)
    then show "\<exists>u v. c # s = u @ sub @ v"
    proof cases
      case 1
      then have "c # s = [] @ sub @ drop (length sub) (c # s)"
        by (metis append_Nil append_take_drop_id has_prefix_def)
      then show ?thesis by blast
    next
      case 2
      with Cons.IH obtain u v where "s = u @ sub @ v" by blast
      then have "c # s = (c # u) @ sub @ v" by simp
      then show ?thesis by blast
    qed
  next
    assume "\<exists>u v. c # s = u @ sub @ v"
    then obtain u v where eq: "c # s = u @ sub @ v" by blast
    show "contains_str (c # s) sub"
    proof (cases u)
      case Nil
      with eq have "has_prefix (c # s) sub" by (simp add: has_prefix_def)
      then show ?thesis by (simp add: contains_str.simps)
    next
      case (Cons d u')
      with eq have "s = u' @ sub @ v" by simp
      with Cons.IH have "contains_str s sub" by blast
      then show ?thesis by (simp add: contains_str.simps)
    qed
  qed
qed

definition is_space :: "char \<Rightarrow> bool" where
  "is_space c = (c = CHR '' '' \<or> (9 \<le> (of_char c :: nat) \<and> (of_char c :: nat) \<le> 13))"

definition trim_left :: "string \<Rightarrow> string" where
  "trim_left s = dropWhile is_space s"

definition trim_space :: "string \<Rightarrow> string" where
  "trim_space s = rev (trim_left (rev (trim_left s)))"

lemma trim_space_Nil [simp]: "trim_space [] = []"
  by (simp add: trim_space_def trim_left_def)

lemma dropWhile_rev_hd:
  "s = [] \<or> \<not> P (hd s) \<Longrightarrow>
   rev (dropWhile P (rev s)) = [] \<or> \<not> P (hd (rev (dropWhile P (rev s))))"
proof (induction s rule: rev_induct)
  case Nil
  then show ?case by simp
next
  case (snoc x s)
  then show ?case by (cases s) auto
qed

lemma trim_space_idem [simp]: "trim_space (trim_space s) = trim_space s"
proof -
  let ?t = "dropWhile is_space s"
  let ?u = "rev (dropWhile is_space (rev ?t))"
  have "?t = [] \<or> \<not> is_space (hd ?t)" by (metis hd_dropWhile)
  then have hd_u: "?u = [] \<or> \<not> is_space (hd ?u)" by (rule dropWhile_rev_hd)
  then have "dropWhile is_space ?u = ?u"
    by (metis dropWhile.simps(1) dropWhile_eq_self_iff)
  then show ?thesis
    by (simp add: trim_space_def trim_left_def dropWhile_idem)
qed

definition lower_char :: "char \<Rightarrow> char" where
  "lower_char c = (let n = (of_char c :: nat) in if 65 \<le> n \<and> n \<le> 90 then char_of (n + 32) else c)"

definition to_lower :: "string \<Rightarrow> string" where
  "to_lower s = map lower_char s"

lemma lower_char_idem [simp]: "lower_char (lower_char c) = lower_char c"
  by (auto simp: lower_char_def Let_def)

lemma to_lower_idem [simp]: "to_lower (to_lower s) = to_lower s"
  by (simp add: to_lower_def)

lemma is_space_code: "is_space c \<longleftrightarrow> (of_char c :: nat) = 32 \<or> 9 \<le> (of_char c :: nat) \<and> (of_char c :: nat) \<le> 13"
proof -
  have "c = CHR '' '' \<longleftrightarrow> (of_char c :: nat) = of_char CHR '' ''"
    by (simp only: of_char_eq_iff)
  then show ?thesis by (simp add: is_space_def)
qed

lemma is_space_lower [simp]: "is_space (lower_char c) = is_space c"
  by (auto simp: is_space_code lower_char_def Let_def)

lemma trim_space_to_lower [simp]: "trim_space (to_lower s) = to_lower (trim_space s)"
  by (simp add: trim_space_def trim_left_def to_lower_def dropWhile_map rev_map comp_def)

text \<open>\<open>strings.ReplaceAll\<close> for a non-empty text\<close>

function replace_all :: "string \<Rightarrow> string \<Rightarrow> string \<Rightarrow> string" where
  "replace_all s old new =
     (if old \<noteq> [] \<and> has_prefix s old then new @ replace_all (drop (length old) s) old new
      else case s of [] \<Rightarrow> [] | c # t \<Rightarrow> c # replace_all t old new)"
  by pat_completeness auto

termination
proof (relation "measure (\<lambda>(s, _, _). length s)", goal_cases)
  case (2 s old new)
  then have "s \<noteq> []" by (auto simp: has_prefix_def)
  with 2 show ?case by simp
qed auto

declare replace_all.simps [simp del]

definition replace_char :: "char \<Rightarrow> string \<Rightarrow> string \<Rightarrow> string" where
  "replace_char c new s = concat (map (\<lambda>d. if d = c then new else [d]) s)"

fun split_on :: "char \<Rightarrow> string \<Rightarrow> string list" where
  "split_on c [] = [[]]"
| "split_on c (d # s) =
     (if d = c then [] # split_on c s
      else (case split_on c s of [] \<Rightarrow> [[d]] | p # ps \<Rightarrow> (d # p) # ps))"

lemma split_on_not_Nil [simp]: "split_on c s \<noteq> []"
  by (cases s) (auto split: list.splits)

lemma split_on_no_sep: "p \<in> set (split_on c s) \<Longrightarrow> c \<notin> set p"
  by (induction s arbitrary: p) (auto split: if_splits list.splits)

lemma split_on_none: "c \<notin> set s \<Longrightarrow> split_on c s = [s]"
  by (induction s) auto

lemma split_on_cut: "c \<notin> set a \<Longrightarrow> split_on c (a @ c # b) = a # split_on c b"
  by (induction a) auto

text \<open>\<open>strings.IndexByte\<close>: the first position of a byte, \<open>None\<close> for Go's \<open>-1\<close>.\<close>

fun index_byte :: "string \<Rightarrow> char \<Rightarrow> nat option" where
  "index_byte [] c = None"
| "index_byte (d # s) c = (if d = c then Some 0 else map_option Suc (index_byte s c))"

section \<open>Decimal numbers\<close>

fun nat_digits :: "nat \<Rightarrow> string" where
  "nat_digits n =
     (if n < 10 then [char_of (48 + n)] else nat_digits (n div 10) @ [char_of (48 + n mod 10)])"

declare nat_digits.simps [simp del]

definition itoa :: "int \<Rightarrow> string" where
  "itoa i = (if i < 0 then CHR ''-'' # nat_digits (nat (- i)) else nat_digits (nat i))"

definition digit_val :: "char \<Rightarrow> nat option" where
  "digit_val c = (let n = (of_char c :: nat) in if 48 \<le> n \<and> n \<le> 57 then Some (n - 48) else None)"

fun digits_val :: "string \<Rightarrow> nat \<Rightarrow> nat option" where
  "digits_val [] acc = Some acc"
| "digits_val (c # s) acc =
     (case digit_val c of None \<Rightarrow> None | Some d \<Rightarrow> digits_val s (10 * acc + d))"

definition int64_range :: "int \<Rightarrow> bool" where
  "int64_range i = (- (2 ^ 63) \<le> i \<and> i < 2 ^ 63)"

text \<open>\<open>strconv.Atoi\<close>: an optional sign and at least one digit, in the range of a 64-bit int.\<close>

definition atoi :: "string \<Rightarrow> int option" where
  "atoi s =
     (let (neg, ds) = (case s of [] \<Rightarrow> (False, [])
                       | c # r \<Rightarrow> if c = CHR ''-'' then (True, r)
                                  else if c = CHR ''+'' then (False, r) else (False, s))
      in if ds = [] then None
         else (case digits_val ds 0 of
                 None \<Rightarrow> None
               | Some n \<Rightarrow> (let i = (if neg then - int n else int n)
                            in if int64_range i then Some i else None)))"

lemma digit_val_char [simp]: "d < 10 \<Longrightarrow> digit_val (char_of (48 + d)) = Some d"
  by (simp add: digit_val_def Let_def)

lemma digits_val_append:
  "digits_val (s @ t) acc =
     (case digits_val s acc of None \<Rightarrow> None | Some a \<Rightarrow> digits_val t a)"
  by (induction s arbitrary: acc) (auto split: option.splits)

lemma digits_val_nat_digits: "digits_val (nat_digits n) 0 = Some n"
proof (induction n rule: nat_digits.induct)
  case (1 n)
  show ?case
  proof (cases "n < 10")
    case True
    then show ?thesis by (subst nat_digits.simps) simp
  next
    case False
    with 1 have "digits_val (nat_digits (n div 10)) 0 = Some (n div 10)" by simp
    with False show ?thesis
      by (subst nat_digits.simps) (simp add: digits_val_append)
  qed
qed

lemma nat_digits_not_Nil [simp]: "nat_digits n \<noteq> []"
  by (subst nat_digits.simps) simp

lemma nat_digits_hd: "\<exists>d < 10. hd (nat_digits n) = char_of (48 + d :: nat)"
proof (induction n rule: nat_digits.induct)
  case (1 n)
  show ?case
  proof (cases "n < 10")
    case True
    then show ?thesis by (subst nat_digits.simps) auto
  next
    case False
    with 1 show ?thesis by (subst nat_digits.simps) simp
  qed
qed

lemma atoi_sign_codes:
  "of_char CHR ''-'' \<noteq> 48 + (d :: nat)" "of_char CHR ''+'' \<noteq> 48 + (d :: nat)"
  by simp_all

lemma atoi_unsigned_hd:
  "d < 10 \<Longrightarrow> char_of (48 + d :: nat) \<noteq> CHR ''-'' \<and> char_of (48 + d :: nat) \<noteq> CHR ''+''"
proof -
  assume d: "d < 10"
  have "of_char (char_of (48 + d :: nat)) = 48 + d" using d by simp
  then show ?thesis by (metis atoi_sign_codes)
qed

text \<open>Printing a 64-bit integer and parsing it again gives the integer back.\<close>

lemma atoi_itoa: "int64_range i \<Longrightarrow> atoi (itoa i) = Some i"
proof -
  assume r: "int64_range i"
  obtain c ds where nd: "nat_digits (nat i) = c # ds"
    by (meson nat_digits_not_Nil neq_Nil_conv)
  with nat_digits_hd [of "nat i"] atoi_unsigned_hd
  have "c \<noteq> CHR ''-''" "c \<noteq> CHR ''+''" by auto
  with nd r show ?thesis
    using digits_val_nat_digits [of "nat i"] digits_val_nat_digits [of "nat (- i)"]
    by (auto simp: atoi_def itoa_def Let_def split: list.splits)
qed

text \<open>An association list without duplicates, read from its end.\<close>

lemma map_of_rev_distinct: "distinct (map fst xs) \<Longrightarrow> map_of (rev xs) = map_of xs"
proof (induction xs)
  case (Cons x xs)
  then have "map_of (rev xs @ [x]) = map_of (x # xs)"
    by (cases x) (auto simp: map_add_def fun_eq_iff split: option.split dest: map_of_SomeD intro: rev_image_eqI)
  then show ?case by simp
qed simp

end
