(* ===== verification/Json.thy ===== *)
theory Json
  imports Prelude
begin

text \<open>
  The part of Go's \<open>encoding/json\<close> and \<open>fmt\<close> the sources use.

  A \<open>json.RawMessage\<close> is represented by what decoding it gives: no bytes
  (\<open>RawNil\<close>, Go's nil slice), the JSON value it spells (\<open>Raw j\<close>), or bytes that are not
  JSON (\<open>RawText s\<close>). Insignificant whitespace and the order in which an encoder writes
  the keys of a map are therefore not represented. Numbers are integers: fractional JSON
  numbers and the rounding of integers beyond \<open>2 ^ 53\<close> in a \<open>float64\<close> are outside the
  model. Struct keys are matched exactly. The wording of the package's own diagnostics is one
  fixed text, \<open>json_error\<close>.
\<close>

datatype json =
    JNull
  | JBool bool
  | JNum int
  | JStr string
  | JArr "json list"
  | JObj "(string \<times> json) list"

datatype raw = RawNil | Raw json | RawText string

type_synonym jmap = "(string \<times> json) list"

definition json_error :: go_error where
  "json_error = GoErr ''invalid JSON''"

text \<open>\<open>len(raw) == 0\<close>\<close>

definition raw_len0 :: "raw \<Rightarrow> bool" where
  [go_simps]: "raw_len0 r = (r = RawNil \<or> r = RawText [])"

lemma raw_len0_simps [simp]: "raw_len0 RawNil" "\<not> raw_len0 (Raw j)"
  by (simp_all add: raw_len0_def)

section \<open>Text as UTF-8\<close>

text \<open>
  Go strings are bytes. \<open>encoding/json\<close> writes and reads text as UTF-8 and puts U+FFFD in the place of
  every byte that begins no valid sequence, when it encodes and when it decodes. \<open>utf8_tail\<close> is the table
  of \<open>unicode/utf8\<close>: the ranges of the bytes that may follow a leading byte, \<open>None\<close> for a byte that can
  lead none.
\<close>

definition utf8_tail :: "nat \<Rightarrow> (nat \<times> nat) list option" where
  "utf8_tail n =
     (if n < 128 then Some []
      else if n < 194 then None
      else if n < 224 then Some [(128, 191)]
      else if n = 224 then Some [(160, 191), (128, 191)]
      else if n = 237 then Some [(128, 159), (128, 191)]
      else if n < 240 then Some [(128, 191), (128, 191)]
      else if n = 240 then Some [(144, 191), (128, 191), (128, 191)]
      else if n < 244 then Some [(128, 191), (128, 191), (128, 191)]
      else if n = 244 then Some [(128, 143), (128, 191), (128, 191)]
      else None)"

fun in_ranges :: "(nat \<times> nat) list \<Rightarrow> string \<Rightarrow> bool" where
  "in_ranges [] s = True"
| "in_ranges (r # rs) [] = False"
| "in_ranges (r # rs) (c # s) = (fst r \<le> of_char c \<and> of_char c \<le> snd r \<and> in_ranges rs s)"

text \<open>The number of bytes of the valid sequence a text begins with, 0 if it begins with none.\<close>

definition utf8_seq :: "string \<Rightarrow> nat" where
  "utf8_seq s =
     (case s of
        [] \<Rightarrow> 0
      | c # r \<Rightarrow> (case utf8_tail (of_char c) of
                     None \<Rightarrow> 0
                   | Some rs \<Rightarrow> (if in_ranges rs r then Suc (length rs) else 0)))"

definition rune_error :: string where
  "rune_error = [char_of (239::nat), char_of (191::nat), char_of (189::nat)]"

function go_utf8 :: "string \<Rightarrow> string" where
  "go_utf8 s =
     (if s = [] then []
      else if utf8_seq s = 0 then rune_error @ go_utf8 (tl s)
      else take (utf8_seq s) s @ go_utf8 (drop (utf8_seq s) s))"
  by pat_completeness auto
termination
  by (relation "measure length") auto

declare go_utf8.simps [simp del]

abbreviation utf8_valid :: "string \<Rightarrow> bool" where
  "utf8_valid s \<equiv> go_utf8 s = s"

abbreviation ascii :: "char \<Rightarrow> bool" where
  "ascii c \<equiv> (of_char c :: nat) < 128"

lemma go_utf8_Nil [simp]: "go_utf8 [] = []"
  by (simp add: go_utf8.simps)

lemma utf8_tail_high: "utf8_tail n = Some rs \<Longrightarrow> r \<in> set rs \<Longrightarrow> 128 \<le> fst r"
  by (auto simp: utf8_tail_def split: if_splits)

lemma utf8_seq_ascii [simp]: "ascii c \<Longrightarrow> utf8_seq (c # s) = 1"
  by (simp add: utf8_seq_def utf8_tail_def)

lemma go_utf8_ascii [simp]: "ascii c \<Longrightarrow> go_utf8 (c # s) = c # go_utf8 s"
  by (simp add: go_utf8.simps [of "c # s"])

lemma ascii_valid: "list_all ascii s \<Longrightarrow> utf8_valid s"
  by (induction s) simp_all

lemma in_ranges_prefix: "in_ranges rs s \<Longrightarrow> in_ranges rs (take (length rs) s @ t)"
  by (induction rs s rule: in_ranges.induct) auto

lemmas in_ranges_take = in_ranges_prefix [of rs s "[]" for rs s, simplified]

lemma in_ranges_length: "in_ranges rs s \<Longrightarrow> length rs \<le> length s"
  by (induction rs s rule: in_ranges.induct) auto

lemma utf8_seq_prefix: "utf8_seq s \<noteq> 0 \<Longrightarrow> utf8_seq (take (utf8_seq s) s @ t) = utf8_seq s"
  by (auto simp: utf8_seq_def in_ranges_prefix in_ranges_take split: list.splits option.splits if_splits)

lemma utf8_seq_length: "utf8_seq s \<le> length s"
  by (auto simp: utf8_seq_def dest: in_ranges_length split: list.splits option.splits)

text \<open>A valid sequence and a replacement character stand for themselves whatever follows.\<close>

lemma go_utf8_seq: "utf8_seq s \<noteq> 0 \<Longrightarrow> go_utf8 (take (utf8_seq s) s @ t) = take (utf8_seq s) s @ go_utf8 t"
proof -
  assume n: "utf8_seq s \<noteq> 0"
  note utf8_seq_prefix [OF n, of t] utf8_seq_length [of s]
  moreover from this n have "take (utf8_seq s) s @ t \<noteq> []" by auto
  ultimately show ?thesis using n by (simp add: go_utf8.simps [of "take (utf8_seq s) s @ t"])
qed

lemma go_utf8_rune_error: "go_utf8 (rune_error @ t) = rune_error @ go_utf8 t"
proof -
  have "utf8_seq (rune_error @ t) = 3" by (simp add: utf8_seq_def rune_error_def utf8_tail_def)
  then show ?thesis by (subst go_utf8.simps) (simp add: rune_error_def)
qed

lemma go_utf8_idem [simp]: "go_utf8 (go_utf8 s) = go_utf8 s"
proof (induction s rule: go_utf8.induct)
  case (1 s)
  then show ?case
    by (cases "s = []"; cases "utf8_seq s = 0") (simp_all add: go_utf8.simps [of s] go_utf8_rune_error go_utf8_seq)
qed

text \<open>An ASCII byte, such as a newline, is never part of a longer sequence.\<close>

lemma in_ranges_stop:
  "\<forall>r \<in> set rs. 128 \<le> fst r \<Longrightarrow> ascii c \<Longrightarrow> in_ranges rs (a @ c # b) = in_ranges rs a"
  by (induction rs a rule: in_ranges.induct) auto

lemma utf8_seq_stop: "a \<noteq> [] \<Longrightarrow> ascii c \<Longrightarrow> utf8_seq (a @ c # b) = utf8_seq a"
  by (cases a) (auto simp: utf8_seq_def in_ranges_stop utf8_tail_high split: option.splits)

lemma go_utf8_stop: "ascii c \<Longrightarrow> go_utf8 (a @ c # b) = go_utf8 a @ c # go_utf8 b"
proof (induction a rule: go_utf8.induct)
  case (1 a)
  show ?case
  proof (cases "a = []")
    case False
    with 1 show ?thesis
      using utf8_seq_length [of a]
      by (cases "utf8_seq a = 0") (simp_all add: go_utf8.simps [of "a @ c # b"] go_utf8.simps [of a] utf8_seq_stop)
  qed (use 1(3) in simp)
qed

lemma go_utf8_length: "go_utf8 s = [] \<longleftrightarrow> s = []"
  by (subst go_utf8.simps) (auto simp: rune_error_def)

lemma go_utf8_set:
  assumes "ascii c"
  shows "c \<in> set (go_utf8 s) \<longleftrightarrow> c \<in> set s"
proof (induction s rule: go_utf8.induct)
  case (1 s)
  have c: "c \<notin> set rune_error" using assms by (auto simp: rune_error_def)
  show ?case
  proof (cases "s = []")
    case False
    then obtain d r where s: "s = d # r" by (cases s) auto
    show ?thesis
    proof (cases "utf8_seq s = 0")
      case True
      then have "d \<noteq> c" using assms s by auto
      with 1(1) [OF False True] True s c show ?thesis by (simp add: go_utf8.simps [of "d # r"])
    next
      case False
      then have "set s = set (take (utf8_seq s) s) \<union> set (drop (utf8_seq s) s)"
        by (metis append_take_drop_id set_append)
      with 1(2) [OF \<open>s \<noteq> []\<close> False] False \<open>s \<noteq> []\<close> show ?thesis by (simp add: go_utf8.simps [of s])
    qed
  qed simp
qed

lemma split_on_utf8:
  assumes "ascii sep"
  shows "split_on sep (go_utf8 s) = map go_utf8 (split_on sep s)"
proof (induction s rule: length_induct)
  case (1 s)
  show ?case
  proof (cases "sep \<in> set s")
    case False
    with assms have "sep \<notin> set (go_utf8 s)" by (simp add: go_utf8_set)
    with False show ?thesis by (simp add: split_on_none)
  next
    case True
    then obtain a b where "s = a @ sep # b" "sep \<notin> set a" by (metis split_list_first)
    moreover from assms this have "sep \<notin> set (go_utf8 a)" by (simp add: go_utf8_set)
    ultimately show ?thesis using 1 assms by (simp add: go_utf8_stop split_on_cut)
  qed
qed

primrec json_utf8 :: "json \<Rightarrow> json" where
  "json_utf8 JNull = JNull"
| "json_utf8 (JBool b) = JBool b"
| "json_utf8 (JNum n) = JNum n"
| "json_utf8 (JStr s) = JStr (go_utf8 s)"
| "json_utf8 (JArr xs) = JArr (map json_utf8 xs)"
| "json_utf8 (JObj m) = JObj (map (map_prod go_utf8 id) (map (map_prod id json_utf8) m))"

lemma json_utf8_obj: "json_utf8 (JObj m) = JObj (map (map_prod go_utf8 json_utf8) m)"
  by (simp add: map_prod_def comp_def case_prod_beta)

lemma json_utf8_idem [simp]: "json_utf8 (json_utf8 j) = json_utf8 j"
proof (induction j)
  case (JObj m)
  then show ?case by (auto simp: json_utf8_obj simp del: json_utf8.simps(6) intro: snds.intros)
qed simp_all

text \<open>
  \<open>json.Marshal\<close> of a value whose encoding cannot fail. \<open>json_encode\<close> is used for values that may hold
  bytes from outside: file contents, output of programs, rows of a driver. \<open>json_marshal\<close> is the same
  function on values whose text is valid UTF-8 (\<open>json_encode_valid\<close>), as is all text that was decoded from
  JSON before and every literal of the program; it is used for those.
\<close>

definition json_encode :: "json \<Rightarrow> raw" where
  "json_encode j = Raw (json_utf8 j)"

definition json_marshal :: "json \<Rightarrow> raw" where
  [go_simps]: "json_marshal j = Raw j"

lemma json_encode_valid: "json_utf8 j = j \<Longrightarrow> json_encode j = json_marshal j"
  by (simp add: json_encode_def json_marshal_def)

lemma json_encode_idem: "json_encode (json_utf8 j) = json_encode j"
  by (simp add: json_encode_def)

section \<open>Objects as Go maps\<close>

text \<open>Decoding keeps the last of several equal keys.\<close>

definition jget :: "jmap \<Rightarrow> string \<Rightarrow> json option" where
  "jget m k = map_of (rev m) k"

lemma jget_Nil [simp]: "jget [] k = None"
  by (simp add: jget_def)

lemma jget_snoc: "jget (m @ [(k', v)]) k = (if k = k' then Some v else jget m k)"
  by (simp add: jget_def)

lemma jget_map: "jget (map (map_prod id f) m) k = map_option f (jget m k)"
proof -
  have "map_of (map (map_prod id f) l) k = map_option f (map_of l k)" for l
    by (induction l) auto
  then show ?thesis by (simp add: jget_def rev_map)
qed

lemma jget_utf8:
  assumes "list_all (\<lambda>(k, v). utf8_valid k) m"
  shows "jget (map (map_prod go_utf8 f) m) k = map_option f (jget m k)"
proof -
  from assms have "map (map_prod go_utf8 f) m = map (map_prod id f) m" by (auto simp: list_all_iff)
  then show ?thesis by (simp only: jget_map)
qed

lemma jget_distinct: "distinct (map fst m) \<Longrightarrow> jget m k = map_of m k"
proof -
  assume d: "distinct (map fst m)"
  show ?thesis
  proof (cases "map_of m k")
    case None
    then have "k \<notin> fst ` set (rev m)" by (simp add: map_of_eq_None_iff)
    then have "map_of (rev m) k = None" by (rule map_of_eq_None_iff [THEN iffD2])
    with None show ?thesis by (simp add: jget_def)
  next
    case (Some v)
    then have "(k, v) \<in> set (rev m)" by (simp add: map_of_SomeD)
    then have "map_of (rev m) k = Some v"
      using d by (intro map_of_is_SomeI) (simp_all add: rev_map [symmetric])
    with Some show ?thesis by (simp add: jget_def)
  qed
qed

text \<open>
  \<open>json.Unmarshal\<close> into \<open>any\<close> builds maps, in which the last duplicate wins and order is
  lost: the canonical form sorts the keys, so that \<open>reflect.DeepEqual\<close> on decoded values is
  equality of canonical forms.
\<close>

fun insert_key :: "string \<Rightarrow> json \<Rightarrow> jmap \<Rightarrow> jmap" where
  "insert_key k v [] = [(k, v)]"
| "insert_key k v ((k', v') # m) =
     (if k < k' then (k, v) # (k', v') # m
      else if k = k' then (k, v) # m
      else (k', v') # insert_key k v m)"

definition sort_keys :: "jmap \<Rightarrow> jmap" where
  "sort_keys m = fold (\<lambda>(k, v). insert_key k v) m []"

primrec json_canon :: "json \<Rightarrow> json" where
  "json_canon JNull = JNull"
| "json_canon (JBool b) = JBool b"
| "json_canon (JNum n) = JNum n"
| "json_canon (JStr s) = JStr s"
| "json_canon (JArr xs) = JArr (map json_canon xs)"
| "json_canon (JObj m) = JObj (sort_keys (map (map_prod id json_canon) m))"

definition deep_equal :: "json \<Rightarrow> json \<Rightarrow> bool" where
  "deep_equal a b = (json_canon a = json_canon b)"

lemma deep_equal_refl [simp]: "deep_equal a a"
  by (simp add: deep_equal_def)

lemma deep_equal_sym: "deep_equal a b = deep_equal b a"
  by (auto simp: deep_equal_def)

lemma map_of_insert_key: "map_of (insert_key k v m) = (map_of m)(k \<mapsto> v)"
  by (induction m) auto

lemma map_of_fold_insert_key:
  "map_of (fold (\<lambda>(k, v). insert_key k v) m acc) = map_of acc ++ map_of (rev m)"
  by (induction m arbitrary: acc) (auto simp: map_of_insert_key map_add_def split: option.splits)

lemma map_of_sort_keys: "map_of (sort_keys m) = jget m"
  by (rule ext) (simp add: sort_keys_def map_of_fold_insert_key jget_def)

lemma insert_key_keys: "fst ` set (insert_key k v m) = insert k (fst ` set m)"
  by (induction k v m rule: insert_key.induct) auto

lemma insert_key_sorted:
  "sorted_wrt (<) (map fst m) \<Longrightarrow> sorted_wrt (<) (map fst (insert_key k v m))"
proof (induction k v m rule: insert_key.induct)
  case (1 k v)
  then show ?case by simp
next
  case (2 k v k' v' m)
  have "\<forall>x \<in> fst ` set (insert_key k v m). x = k \<or> x \<in> fst ` set m"
    by (simp add: insert_key_keys)
  with 2 show ?case by (force simp del: image_iff)
qed

lemma sort_keys_sorted: "sorted_wrt (<) (map fst (sort_keys m))"
proof -
  have "sorted_wrt (<) (map fst acc) \<Longrightarrow>
        sorted_wrt (<) (map fst (fold (\<lambda>(k, v). insert_key k v) m acc))" for acc
    by (induction m arbitrary: acc) (auto simp: insert_key_sorted)
  then show ?thesis by (simp add: sort_keys_def)
qed

lemma insert_key_snoc:
  "\<forall>x \<in> set m. fst x < k \<Longrightarrow> insert_key k v m = m @ [(k, v)]"
  by (induction m) auto

lemma sort_keys_id: "sorted_wrt (<) (map fst m) \<Longrightarrow> sort_keys m = m"
proof -
  have "sorted_wrt (<) (map fst (acc @ m)) \<Longrightarrow> fold (\<lambda>(k, v). insert_key k v) m acc = acc @ m" for acc
  proof (induction m arbitrary: acc)
    case Nil
    then show ?case by simp
  next
    case (Cons x m)
    obtain k v where x: "x = (k, v)" by fastforce
    from Cons.prems x have "insert_key k v acc = acc @ [(k, v)]"
      by (intro insert_key_snoc) (simp add: sorted_wrt_append)
    with Cons.IH [of "acc @ [(k, v)]"] Cons.prems x show ?case by simp
  qed
  then show "sorted_wrt (<) (map fst m) \<Longrightarrow> ?thesis" by (simp add: sort_keys_def)
qed

lemma sort_keys_idem [simp]: "sort_keys (sort_keys m) = sort_keys m"
  by (rule sort_keys_id) (rule sort_keys_sorted)

lemma map_insert_key:
  "map (map_prod id f) (insert_key k v m) = insert_key k (f v) (map (map_prod id f) m)"
  by (induction m) auto

lemma map_sort_keys:
  "map (map_prod id f) (sort_keys m) = sort_keys (map (map_prod id f) m)"
proof -
  have "map (map_prod id f) (fold (\<lambda>(k, v). insert_key k v) m acc) =
        fold (\<lambda>(k, v). insert_key k v) (map (map_prod id f) m) (map (map_prod id f) acc)" for acc
    by (induction m arbitrary: acc) (auto simp: map_insert_key)
  then show ?thesis by (simp add: sort_keys_def)
qed

lemma json_canon_idem: "json_canon (json_canon j) = json_canon j"
proof (induction j)
  case (JObj m)
  have "map (map_prod id json_canon \<circ> map_prod id json_canon) m = map (map_prod id json_canon) m"
    using JObj by (auto simp: map_prod_def snds.simps)
  then show ?case by (simp add: map_sort_keys del: map_eq_conv)
qed simp_all

lemma strict_sorted_imp_distinct_keys: "sorted_wrt (<) (xs :: string list) \<Longrightarrow> distinct xs"
  by (simp add: strict_sorted_iff)

lemma jget_sort_keys_canon:
  "jget (sort_keys (map (map_prod id json_canon) m)) k = map_option json_canon (jget m k)"
proof -
  have "distinct (map fst (sort_keys (map (map_prod id json_canon) m)))"
    using sort_keys_sorted strict_sorted_imp_distinct_keys by blast
  then have "jget (sort_keys (map (map_prod id json_canon) m)) k = jget (map (map_prod id json_canon) m) k"
    by (simp add: jget_distinct map_of_sort_keys)
  also have "\<dots> = map_option json_canon (jget m k)"
    using map_of_map [of json_canon "rev m"]
    by (simp add: jget_def rev_map map_prod_def id_def fun_eq_iff)
  finally show ?thesis .
qed

section \<open>Decoding into typed targets\<close>

text \<open>
  A decoder returns \<open>Inl json_error\<close> or the decoded value. JSON \<open>null\<close> leaves the target
  at its zero value and is no error.
\<close>

type_synonym 'a decoded = "go_error + 'a"

fun dec_bool :: "raw \<Rightarrow> bool decoded" where
  "dec_bool (Raw (JBool b)) = Inr b"
| "dec_bool (Raw JNull) = Inr False"
| "dec_bool _ = Inl json_error"

fun dec_int :: "raw \<Rightarrow> int decoded" where
  "dec_int (Raw (JNum n)) = (if int64_range n then Inr n else Inl json_error)"
| "dec_int (Raw JNull) = Inr 0"
| "dec_int _ = Inl json_error"

fun dec_string :: "raw \<Rightarrow> string decoded" where
  "dec_string (Raw (JStr s)) = Inr s"
| "dec_string (Raw JNull) = Inr []"
| "dec_string _ = Inl json_error"

text \<open>Into \<open>map[string]json.RawMessage\<close>; \<open>null\<close> decodes to the nil map.\<close>

fun dec_map :: "raw \<Rightarrow> jmap decoded" where
  "dec_map (Raw (JObj m)) = Inr m"
| "dec_map (Raw JNull) = Inr []"
| "dec_map _ = Inl json_error"

text \<open>
  Into \<open>[]string\<close>. A wrong element type is reported after the whole array has been decoded:
  the slice keeps its length with empty strings in those places.
\<close>

fun elem_string :: "json \<Rightarrow> string" where
  "elem_string (JStr s) = s"
| "elem_string _ = []"

fun is_string_or_null :: "json \<Rightarrow> bool" where
  "is_string_or_null (JStr s) = True"
| "is_string_or_null JNull = True"
| "is_string_or_null _ = False"

fun dec_strings :: "raw \<Rightarrow> string list \<times> go_error option" where
  "dec_strings (Raw (JArr xs)) =
     (map elem_string xs, if list_all is_string_or_null xs then None else Some json_error)"
| "dec_strings (Raw JNull) = ([], None)"
| "dec_strings _ = ([], Some json_error)"

text \<open>Into \<open>any\<close>: \<open>nil\<close> is \<open>JNull\<close>.\<close>

fun dec_any :: "raw \<Rightarrow> json decoded" where
  "dec_any (Raw j) = Inr (json_canon j)"
| "dec_any _ = Inl json_error"

text \<open>The fields of a struct target: a missing key leaves the zero value.\<close>

definition field_string :: "jmap \<Rightarrow> string \<Rightarrow> string decoded" where
  "field_string m k = (case jget m k of None \<Rightarrow> Inr [] | Some j \<Rightarrow> dec_string (Raw j))"

definition field_int :: "jmap \<Rightarrow> string \<Rightarrow> int decoded" where
  "field_int m k = (case jget m k of None \<Rightarrow> Inr 0 | Some j \<Rightarrow> dec_int (Raw j))"

definition field_bool :: "jmap \<Rightarrow> string \<Rightarrow> bool decoded" where
  "field_bool m k = (case jget m k of None \<Rightarrow> Inr False | Some j \<Rightarrow> dec_bool (Raw j))"

definition field_strings :: "jmap \<Rightarrow> string \<Rightarrow> string list decoded" where
  "field_strings m k =
     (case jget m k of
        None \<Rightarrow> Inr []
      | Some j \<Rightarrow> (case dec_strings (Raw j) of (xs, None) \<Rightarrow> Inr xs | (_, Some e) \<Rightarrow> Inl e))"

definition field_raw :: "jmap \<Rightarrow> string \<Rightarrow> raw" where
  "field_raw m k = (case jget m k of None \<Rightarrow> RawNil | Some j \<Rightarrow> Raw j)"

definition field_any :: "jmap \<Rightarrow> string \<Rightarrow> json" where
  "field_any m k = (case jget m k of None \<Rightarrow> JNull | Some j \<Rightarrow> json_canon j)"

text \<open>Decoders in sequence: the first error wins.\<close>

definition dec_bind :: "'a decoded \<Rightarrow> ('a \<Rightarrow> 'b decoded) \<Rightarrow> 'b decoded" where
  "dec_bind x f = (case x of Inl e \<Rightarrow> Inl e | Inr a \<Rightarrow> f a)"

fun dec_list :: "(json \<Rightarrow> 'a decoded) \<Rightarrow> json list \<Rightarrow> 'a list decoded" where
  "dec_list f [] = Inr []"
| "dec_list f (j # js) = dec_bind (f j) (\<lambda>x. dec_bind (dec_list f js) (\<lambda>xs. Inr (x # xs)))"

definition field_list :: "(json \<Rightarrow> 'a decoded) \<Rightarrow> jmap \<Rightarrow> string \<Rightarrow> 'a list decoded" where
  "field_list f m k =
     (case jget m k of
        None \<Rightarrow> Inr []
      | Some JNull \<Rightarrow> Inr []
      | Some (JArr js) \<Rightarrow> dec_list f js
      | Some _ \<Rightarrow> Inl json_error)"

section \<open>Printing values\<close>

text \<open>
  \<open>%v\<close> of a \<open>float64\<close> that is an integer: from seven digits on in scientific notation, without
  trailing zeros in the mantissa and with at least two digits of exponent.
\<close>

definition go_float :: "int \<Rightarrow> string" where
  "go_float n =
     (let ds = nat_digits (nat \<bar>n\<bar>);
          frac = rev (dropWhile (\<lambda>c. c = CHR ''0'') (rev (tl ds)));
          ex = nat_digits (length ds - 1)
      in if length ds \<le> 6 then itoa n
         else (if n < 0 then ''-'' else []) @ [hd ds] @ (if frac = [] then [] else CHR ''.'' # frac) @
              ''e+'' @ (if length ex < 2 then CHR ''0'' # ex else ex))"

text \<open>\<open>fmt.Sprint\<close> of a decoded value.\<close>

definition join_with :: "string \<Rightarrow> string list \<Rightarrow> string" where
  "join_with sep ss = (case ss of [] \<Rightarrow> [] | s # rest \<Rightarrow> s @ concat (map (\<lambda>t. sep @ t) rest))"

primrec go_sprint :: "json \<Rightarrow> string" where
  "go_sprint JNull = ''<nil>''"
| "go_sprint (JBool b) = (if b then ''true'' else ''false'')"
| "go_sprint (JNum n) = go_float n"
| "go_sprint (JStr s) = s"
| "go_sprint (JArr xs) = ''['' @ join_with '' '' (map go_sprint xs) @ '']''"
| "go_sprint (JObj m) =
     ''map['' @ join_with '' '' (map (\<lambda>(k, v). k @ '':'' @ v) (map (map_prod id go_sprint) m)) @ '']''"

text \<open>\<open>%q\<close>, for printable text.\<close>

definition go_quote :: "string \<Rightarrow> string" where
  "go_quote s =
     CHR 0x22 # concat (map (\<lambda>c. if c = CHR 0x22 \<or> c = CHR 0x5C then [CHR 0x5C, c] else [c]) s)
     @ [CHR 0x22]"

text \<open>\<open>%#v\<close> of a decoded value.\<close>

primrec go_sharp :: "json \<Rightarrow> string" where
  "go_sharp JNull = ''<nil>''"
| "go_sharp (JBool b) = (if b then ''true'' else ''false'')"
| "go_sharp (JNum n) = go_float n"
| "go_sharp (JStr s) = go_quote s"
| "go_sharp (JArr xs) = ''[]interface {}{'' @ join_with '', '' (map go_sharp xs) @ ''}''"
| "go_sharp (JObj m) =
     ''map[string]interface {}{'' @
     join_with '', '' (map (\<lambda>(k, v). go_quote k @ '':'' @ v) (map (map_prod id go_sharp) m)) @ ''}''"

section \<open>Parsing text\<close>

text \<open>
  \<open>json.Unmarshal\<close> on text the program has extracted from a JSON string. The recursion is
  bounded by fuel; \<open>json_parse\<close> gives twice the length of the text, and every nested call
  has consumed at least one byte or passes from a list to its first element, so the fuel
  does not run out before the text does. More fuel never changes a result
  (\<open>pj_fuel_mono\<close>).
\<close>

definition json_space :: "char \<Rightarrow> bool" where
  "json_space c = (c = CHR '' '' \<or> c = CHR 0x09 \<or> c = CHR 0x0A \<or> c = CHR 0x0D)"

definition skip_ws :: "string \<Rightarrow> string" where
  "skip_ws s = dropWhile json_space s"

definition hex_val :: "char \<Rightarrow> nat option" where
  "hex_val c = (let n = (of_char c :: nat) in
     if 48 \<le> n \<and> n \<le> 57 then Some (n - 48)
     else if 97 \<le> n \<and> n \<le> 102 then Some (n - 87)
     else if 65 \<le> n \<and> n \<le> 70 then Some (n - 55) else None)"

text \<open>UTF-8 of a code point below \<open>2 ^ 16\<close>; a lone surrogate becomes U+FFFD.\<close>

definition utf8 :: "nat \<Rightarrow> string" where
  "utf8 n0 = (let n = (if 55296 \<le> n0 \<and> n0 \<le> 57343 then 65533 else n0) in
     if n < 128 then [char_of n]
     else if n < 2048 then [char_of (192 + n div 64), char_of (128 + n mod 64)]
     else [char_of (224 + n div 4096), char_of (128 + (n div 64) mod 64), char_of (128 + n mod 64)])"

definition simple_escape :: "char \<Rightarrow> char option" where
  "simple_escape e = map_of [(CHR 0x22, CHR 0x22), (CHR 0x5C, CHR 0x5C), (CHR ''/'', CHR ''/''),
     (CHR ''b'', CHR 0x08), (CHR ''f'', CHR 0x0C), (CHR ''n'', CHR 0x0A),
     (CHR ''r'', CHR 0x0D), (CHR ''t'', CHR 0x09)] e"

text \<open>The body of a string literal after its opening quote, with the rest of the input.\<close>

fun pj_string :: "string \<Rightarrow> (string \<times> string) option" where
  "pj_string [] = None"
| "pj_string (c # s) =
     (if c = CHR 0x22 then Some ([], s)
      else if c = CHR 0x5C then
        (case s of
           [] \<Rightarrow> None
         | e # s1 \<Rightarrow>
             (if e = CHR ''u'' then
                (case s1 of
                   a # b # x # d # s2 \<Rightarrow>
                     (case (hex_val a, hex_val b, hex_val x, hex_val d) of
                        (Some na, Some nb, Some nx, Some nd) \<Rightarrow>
                          map_option (\<lambda>(v, r). (utf8 (4096 * na + 256 * nb + 16 * nx + nd) @ v, r))
                            (pj_string s2)
                      | _ \<Rightarrow> None)
                 | _ \<Rightarrow> None)
              else (case simple_escape e of
                      None \<Rightarrow> None
                    | Some c' \<Rightarrow> map_option (\<lambda>(v, r). (c' # v, r)) (pj_string s1))))
      else if (of_char c :: nat) < 32 then None
      else map_option (\<lambda>(v, r). (c # v, r)) (pj_string s))"

definition is_digit :: "char \<Rightarrow> bool" where
  "is_digit c = (digit_val c \<noteq> None)"

text \<open>An integer literal: no leading zero, at least one digit.\<close>

definition pj_number :: "string \<Rightarrow> (int \<times> string) option" where
  "pj_number s =
     (let (neg, s1) = (case s of c # r \<Rightarrow> if c = CHR ''-'' then (True, r) else (False, s) | [] \<Rightarrow> (False, []));
          ds = takeWhile is_digit s1; rest = dropWhile is_digit s1
      in if ds = [] \<or> (hd ds = CHR ''0'' \<and> length ds > 1) then None
         else map_option (\<lambda>n. (if neg then - int n else int n, rest)) (digits_val ds 0))"

definition pj_literal :: "string \<Rightarrow> json \<Rightarrow> string \<Rightarrow> (json \<times> string) option" where
  "pj_literal lit v s = (if has_prefix s lit then Some (v, drop (length lit) s) else None)"

fun pj_value :: "nat \<Rightarrow> string \<Rightarrow> (json \<times> string) option"
and pj_elems :: "nat \<Rightarrow> string \<Rightarrow> (json list \<times> string) option"
and pj_members :: "nat \<Rightarrow> string \<Rightarrow> (jmap \<times> string) option" where
  "pj_value 0 s = None"
| "pj_value (Suc n) s =
     (case skip_ws s of
        [] \<Rightarrow> None
      | c # r \<Rightarrow>
          (if c = CHR 0x22 then map_option (\<lambda>(v, rest). (JStr (go_utf8 v), rest)) (pj_string r)
           else if c = CHR ''['' then
             (case skip_ws r of
                d # r' \<Rightarrow> (if d = CHR '']'' then Some (JArr [], r')
                            else map_option (\<lambda>(v, rest). (JArr v, rest)) (pj_elems n r))
              | [] \<Rightarrow> None)
           else if c = CHR ''{'' then
             (case skip_ws r of
                d # r' \<Rightarrow> (if d = CHR ''}'' then Some (JObj [], r')
                            else map_option (\<lambda>(v, rest). (JObj v, rest)) (pj_members n r))
              | [] \<Rightarrow> None)
           else if c = CHR ''t'' then pj_literal ''true'' (JBool True) (c # r)
           else if c = CHR ''f'' then pj_literal ''false'' (JBool False) (c # r)
           else if c = CHR ''n'' then pj_literal ''null'' JNull (c # r)
           else map_option (\<lambda>(v, rest). (JNum v, rest)) (pj_number (c # r))))"
| "pj_elems 0 s = None"
| "pj_elems (Suc n) s =
     (case pj_value n s of
        None \<Rightarrow> None
      | Some (v, r) \<Rightarrow>
          (case skip_ws r of
             d # r' \<Rightarrow>
               (if d = CHR '']'' then Some ([v], r')
                else if d = CHR '','' then map_option (\<lambda>(vs, rest). (v # vs, rest)) (pj_elems n r')
                else None)
           | [] \<Rightarrow> None))"
| "pj_members 0 s = None"
| "pj_members (Suc n) s =
     (case skip_ws s of
        [] \<Rightarrow> None
      | q # s1 \<Rightarrow>
          (if q \<noteq> CHR 0x22 then None
           else case pj_string s1 of
             None \<Rightarrow> None
           | Some (k, s2) \<Rightarrow>
               (case skip_ws s2 of
                  [] \<Rightarrow> None
                | c # s3 \<Rightarrow>
                    (if c \<noteq> CHR '':'' then None
                     else case pj_value n s3 of
                       None \<Rightarrow> None
                     | Some (v, r) \<Rightarrow>
                         (case skip_ws r of
                            d # r' \<Rightarrow>
                              (if d = CHR ''}'' then Some ([(go_utf8 k, v)], r')
                               else if d = CHR '','' then
                                 map_option (\<lambda>(vs, rest). ((go_utf8 k, v) # vs, rest)) (pj_members n r')
                               else None)
                          | [] \<Rightarrow> None)))))"

definition json_parse :: "string \<Rightarrow> json option" where
  "json_parse s =
     (case pj_value (2 * length s + 2) s of
        None \<Rightarrow> None
      | Some (v, r) \<Rightarrow> (if skip_ws r = [] then Some v else None))"

text \<open>Bytes received from elsewhere.\<close>

definition parse_raw :: "string \<Rightarrow> raw" where
  "parse_raw s = (case json_parse s of None \<Rightarrow> RawText s | Some j \<Rightarrow> Raw j)"

lemma pj_fuel_step:
  "(\<forall>s v. pj_value n s = Some v \<longrightarrow> pj_value (Suc n) s = Some v) \<and>
   (\<forall>s v. pj_elems n s = Some v \<longrightarrow> pj_elems (Suc n) s = Some v) \<and>
   (\<forall>s v. pj_members n s = Some v \<longrightarrow> pj_members (Suc n) s = Some v)"
proof (induction n)
  case 0
  show ?case by simp
next
  case (Suc n)
  have v: "pj_value n s = None \<or> pj_value (Suc n) s = pj_value n s" for s
    using Suc by (metis option.exhaust)
  have e: "pj_elems n s = None \<or> pj_elems (Suc n) s = pj_elems n s" for s
    using Suc by (metis option.exhaust)
  have m: "pj_members n s = None \<or> pj_members (Suc n) s = pj_members n s" for s
    using Suc by (metis option.exhaust)
  have v2: "pj_value n s = Some x \<Longrightarrow> pj_value (Suc n) s = Some x"
    and e2: "pj_elems n s = Some y \<Longrightarrow> pj_elems (Suc n) s = Some y"
    and m2: "pj_members n s = Some z \<Longrightarrow> pj_members (Suc n) s = Some z" for s x y z
    using v [of s] e [of s] m [of s] by simp_all
  have "pj_value (Suc (Suc n)) s = Some x" if "pj_value (Suc n) s = Some x" for s x
  proof (cases "skip_ws s")
    case Nil
    with that show ?thesis by (simp only: pj_value.simps list.case)
  next
    case (Cons c r)
    from that e [of r] m [of r] show ?thesis
      unfolding pj_value.simps(2) [of "Suc n" s] pj_value.simps(2) [of n s] Cons
      by (cases "skip_ws r"; cases "c = CHR ''[''"; cases "c = CHR ''{''")
        (simp_all del: pj_elems.simps pj_members.simps split: if_split_asm,
         (elim disjE, simp_all del: pj_elems.simps pj_members.simps)+)
  qed
  moreover have "pj_elems (Suc (Suc n)) s = Some x" if "pj_elems (Suc n) s = Some x" for s x
    using that v [of s] unfolding pj_elems.simps(2) [of "Suc n" s] pj_elems.simps(2) [of n s]
    by (auto simp del: pj_elems.simps pj_value.simps
        split: option.splits list.splits if_splits) (rule e2)
  moreover have "pj_members (Suc (Suc n)) s = Some x" if "pj_members (Suc n) s = Some x" for s x
    using that unfolding pj_members.simps(2) [of "Suc n" s] pj_members.simps(2) [of n s]
    by (auto simp del: pj_members.simps pj_value.simps dest!: v2
        split: option.splits list.splits if_splits) (rule m2)
  ultimately show ?case by blast
qed

lemma pj_fuel_mono: "pj_value n s = Some v \<Longrightarrow> pj_value (n + k) s = Some v"
  by (induction k) (simp_all only: add_0_right add_Suc_right pj_fuel_step)

end
