(* ===== verification/Sql.thy ===== *)
theory Sql
  imports Json
begin

text \<open>
  The database under the stores of \<open>internal/control\<close>. The stores talk to SQLite through
  \<open>database/sql\<close>; their own logic is the statements they issue and what they do with the
  answers. A database is the content of its tables, each a list of rows in insertion order,
  with the number of statements run so far. The driver is a parameter: \<open>sq_fault n\<close> is the
  error it raises for the n-th statement, if any, and \<open>sq_now n\<close> the clock (in milliseconds)
  read before that statement. A statement that fails changes no table. Rows that tie in an
  \<open>ORDER BY\<close> keep their insertion order.
\<close>

record sql_env =
  sq_fault :: "nat \<Rightarrow> go_error option"
  sq_now :: "nat \<Rightarrow> int"

record 't sql_db =
  db_tables :: 't
  db_stmts :: nat

definition sql_time :: "sql_env \<Rightarrow> 't sql_db \<Rightarrow> int" where
  "sql_time env d = sq_now env (db_stmts d)"

text \<open>A statement: the driver may fail, the statement may (a constraint), or it changes the tables.\<close>

definition sql_exec ::
  "sql_env \<Rightarrow> 't sql_db \<Rightarrow> ('t \<Rightarrow> go_error + 't) \<Rightarrow> 't sql_db \<times> go_error option" where
  "sql_exec env d f =
     (let d' = d\<lparr>db_stmts := Suc (db_stmts d)\<rparr> in
      case sq_fault env (db_stmts d) of
        Some e \<Rightarrow> (d', Some e)
      | None \<Rightarrow> (case f (db_tables d) of
                   Inl e \<Rightarrow> (d', Some e)
                 | Inr t \<Rightarrow> (d'\<lparr>db_tables := t\<rparr>, None)))"

definition sql_query :: "sql_env \<Rightarrow> 't sql_db \<Rightarrow> ('t \<Rightarrow> 'a) \<Rightarrow> 't sql_db \<times> (go_error + 'a)" where
  "sql_query env d f =
     (d\<lparr>db_stmts := Suc (db_stmts d)\<rparr>,
      case sq_fault env (db_stmts d) of Some e \<Rightarrow> Inl e | None \<Rightarrow> Inr (f (db_tables d)))"

text \<open>\<open>INSERT\<close> into a table with a primary key.\<close>

definition unique_violation :: "string \<Rightarrow> go_error" where
  "unique_violation column = GoErr (''constraint failed: UNIQUE constraint failed: '' @ column)"

definition insert_row :: "string \<Rightarrow> ('r \<Rightarrow> string) \<Rightarrow> 'r \<Rightarrow> 'r list \<Rightarrow> go_error + 'r list" where
  "insert_row column key r rows =
     (if key r \<in> key ` set rows then Inl (unique_violation column) else Inr (rows @ [r]))"

text \<open>\<open>UPDATE ... WHERE key = k\<close>.\<close>

definition update_rows :: "('r \<Rightarrow> string) \<Rightarrow> string \<Rightarrow> ('r \<Rightarrow> 'r) \<Rightarrow> 'r list \<Rightarrow> 'r list" where
  "update_rows key k f = map (\<lambda>r. if key r = k then f r else r)"

text \<open>\<open>SELECT ... WHERE key = k\<close> of a single row.\<close>

definition select_row :: "('r \<Rightarrow> string) \<Rightarrow> string \<Rightarrow> 'r list \<Rightarrow> 'r option" where
  "select_row key k rows = find (\<lambda>r. key r = k) rows"

text \<open>Columns that hold JSON text: \<open>NULL\<close> and the empty text read back as the nil message.\<close>

definition scan_raw :: "raw \<Rightarrow> raw" where
  "scan_raw r = (if raw_len0 r then RawNil else r)"

definition raw_or_empty :: "raw \<Rightarrow> raw" where
  "raw_or_empty r = (if r = RawNil then Raw (JObj []) else r)"

section \<open>Laws of the statements\<close>

lemma sql_exec_cases:
  assumes "sql_exec env d f = (d', err)"
  obtains (failed) e where "err = Some e" "db_tables d' = db_tables d"
  | (ok) t where "err = None" "sq_fault env (db_stmts d) = None" "f (db_tables d) = Inr t"
      "db_tables d' = t"
proof (cases err)
  case (Some e)
  with assms show ?thesis
    by (intro failed) (auto simp: sql_exec_def Let_def split: option.splits sum.splits)
next
  case None
  with assms show ?thesis
    by (intro ok) (auto simp: sql_exec_def Let_def split: option.splits sum.splits)
qed

lemma sql_query_tables [simp]: "db_tables (fst (sql_query env d f)) = db_tables d"
  by (simp add: sql_query_def)

lemma sql_query_Inr: "snd (sql_query env d f) = Inr x \<longleftrightarrow> sq_fault env (db_stmts d) = None \<and> x = f (db_tables d)"
  by (auto simp: sql_query_def split: option.splits)

lemma insert_row_Inr:
  "insert_row c key r rows = Inr rows' \<longleftrightarrow> key r \<notin> key ` set rows \<and> rows' = rows @ [r]"
  by (auto simp: insert_row_def)

lemma insert_row_distinct:
  "insert_row c key r rows = Inr rows' \<Longrightarrow> distinct (map key rows) \<Longrightarrow> distinct (map key rows')"
  by (auto simp: insert_row_Inr)

lemma update_rows_keys:
  "(\<And>r. key (f r) = key r) \<Longrightarrow> map key (update_rows key k f rows) = map key rows"
  by (induction rows) (simp_all add: update_rows_def)

lemma select_row_eq_map_of: "select_row key k rows = map_of (map (\<lambda>r. (key r, r)) rows) k"
  by (induction rows) (simp_all add: select_row_def)

lemma select_insert:
  "insert_row c key r rows = Inr rows' \<Longrightarrow>
   select_row key k rows' = (if k = key r then Some r else select_row key k rows)"
  unfolding insert_row_Inr by (induction rows arbitrary: rows') (auto simp: select_row_def)

lemma select_update:
  "(\<And>r. key (f r) = key r) \<Longrightarrow>
   select_row key j (update_rows key k f rows) =
     (if j = k then map_option f (select_row key j rows) else select_row key j rows)"
  by (induction rows) (auto simp: select_row_def update_rows_def)

lemma select_row_Some: "select_row key k rows = Some r \<Longrightarrow> r \<in> set rows \<and> key r = k"
  by (auto simp: select_row_def find_Some_iff)

lemma select_row_unique:
  "distinct (map key rows) \<Longrightarrow> r \<in> set rows \<Longrightarrow> select_row key (key r) rows = Some r"
  by (induction rows) (auto simp: select_row_def)

end
