(* ===== verification/Eventing.thy ===== *)
theory Eventing
  imports Json "HOL-Library.Sublist"
begin

text \<open>
  The event bus, \<open>internal/eventing\<close>: events, sinks, and the bus that persists an event and
  hands it to its subscribers through bounded channels. A channel is known by the number of its
  subscription. Sending on a closed channel and closing a closed channel are panics, modelled as
  \<open>None\<close>. Contexts and mutexes are not modelled; each operation is one atomic step, as the bus's
  lock makes it.
\<close>

record event =
  ev_ID :: int
  ev_Timestamp :: string
  ev_Type :: string
  ev_Source :: string
  ev_SandboxID :: string
  ev_Method :: string
  ev_Stream :: string
  ev_Message :: string
  ev_Data :: raw
  ev_Sequence :: int

definition zero_event :: event where
  "zero_event = \<lparr>ev_ID = 0, ev_Timestamp = [], ev_Type = [], ev_Source = [], ev_SandboxID = [],
     ev_Method = [], ev_Stream = [], ev_Message = [], ev_Data = RawNil, ev_Sequence = 0\<rparr>"

record list_filter =
  lf_SandboxID :: string
  lf_Method :: string
  lf_Type :: string
  lf_Limit :: int

section \<open>Sinks\<close>

type_synonym 'w sink = "'w \<Rightarrow> event \<Rightarrow> 'w"

definition multi_emit :: "'w sink list \<Rightarrow> 'w sink" where
  "multi_emit sinks w evt = fold (\<lambda>s w. s w evt) sinks w"

definition NewMultiSink :: "'w sink option list \<Rightarrow> 'w sink option" where
  "NewMultiSink sinks =
     (case List.map_filter id sinks of
        [] \<Rightarrow> None
      | [s] \<Rightarrow> Some s
      | ss \<Rightarrow> Some (multi_emit ss))"

text \<open>\<open>Emit\<close> through the sink of the context, if it has one.\<close>

definition Emit :: "'w sink option \<Rightarrow> 'w sink" where
  "Emit s w evt = (case s of None \<Rightarrow> w | Some f \<Rightarrow> f w evt)"

section \<open>The bus\<close>

record channel =
  ch_cap :: nat
  ch_buf :: "event list"
  ch_closed :: bool

record 's bus =
  bus_store :: "'s option"
  bus_chans :: "nat \<Rightarrow> channel"
  bus_subs :: "nat list"
  bus_nextID :: nat

type_synonym 's event_append = "'s \<Rightarrow> event \<Rightarrow> 's \<times> event \<times> go_error option"

definition NewBus :: "'s option \<Rightarrow> 's bus" where
  "NewBus store = \<lparr>bus_store = store, bus_chans = (\<lambda>_. \<lparr>ch_cap = 0, ch_buf = [], ch_closed = False\<rparr>),
     bus_subs = [], bus_nextID = 0\<rparr>"

text \<open>\<open>select { case ch <- evt: default: }\<close>: a full buffer drops the event.\<close>

definition try_send :: "channel \<Rightarrow> event \<Rightarrow> channel option" where
  "try_send c evt =
     (if ch_closed c then None
      else if length (ch_buf c) < ch_cap c then Some (c\<lparr>ch_buf := ch_buf c @ [evt]\<rparr>)
      else Some c)"

fun broadcast :: "(nat \<Rightarrow> channel) \<Rightarrow> nat list \<Rightarrow> event \<Rightarrow> (nat \<Rightarrow> channel) option" where
  "broadcast chans [] evt = Some chans"
| "broadcast chans (i # is) evt =
     (case try_send (chans i) evt of
        None \<Rightarrow> None
      | Some c \<Rightarrow> broadcast (chans(i := c)) is evt)"

text \<open>The event that reaches the subscribers: time-stamped, and as persisted where that worked.\<close>

definition stamp :: "string \<Rightarrow> event \<Rightarrow> event" where
  "stamp now evt = (if ev_Timestamp evt = [] then evt\<lparr>ev_Timestamp := now\<rparr> else evt)"

definition persist :: "'s event_append \<Rightarrow> 's option \<Rightarrow> event \<Rightarrow> 's option \<times> event" where
  "persist app store evt =
     (case store of
        None \<Rightarrow> (None, evt)
      | Some s \<Rightarrow> (case app s evt of
                     (s', persisted, None) \<Rightarrow> (Some s', persisted)
                   | (s', _, Some _) \<Rightarrow> (Some s', evt)))"

definition Publish :: "'s event_append \<Rightarrow> string \<Rightarrow> 's bus \<Rightarrow> event \<Rightarrow> 's bus option" where
  "Publish app now b evt =
     (let (store, e) = persist app (bus_store b) (stamp now evt) in
      case broadcast (bus_chans b) (bus_subs b) e of
        None \<Rightarrow> None
      | Some chans \<Rightarrow> Some (b\<lparr>bus_store := store, bus_chans := chans\<rparr>))"

text \<open>\<open>Subscribe\<close> returns the number of the new channel; \<open>cancel\<close> is the returned function.\<close>

definition Subscribe :: "int \<Rightarrow> 's bus \<Rightarrow> 's bus \<times> nat" where
  "Subscribe buffer b =
     (let cap = (if buffer \<le> 0 then 32 else nat buffer);
          i = bus_nextID b
      in (b\<lparr>bus_nextID := Suc i, bus_subs := bus_subs b @ [i],
            bus_chans := (bus_chans b)(i := \<lparr>ch_cap = cap, ch_buf = [], ch_closed = False\<rparr>)\<rparr>, i))"

definition close_chan :: "channel \<Rightarrow> channel option" where
  "close_chan c = (if ch_closed c then None else Some (c\<lparr>ch_closed := True\<rparr>))"

definition cancel :: "nat \<Rightarrow> 's bus \<Rightarrow> 's bus option" where
  "cancel i b =
     (if i \<in> set (bus_subs b) then
        (case close_chan (bus_chans b i) of
           None \<Rightarrow> None
         | Some c \<Rightarrow> Some (b\<lparr>bus_subs := removeAll i (bus_subs b), bus_chans := (bus_chans b)(i := c)\<rparr>))
      else Some b)"

text \<open>The receiving side: the oldest buffered event.\<close>

definition receive :: "nat \<Rightarrow> 's bus \<Rightarrow> 's bus \<times> event option" where
  "receive i b =
     (case ch_buf (bus_chans b i) of
        [] \<Rightarrow> (b, None)
      | e # es \<Rightarrow> (b\<lparr>bus_chans := (bus_chans b)(i := (bus_chans b i)\<lparr>ch_buf := es\<rparr>)\<rparr>, Some e))"

datatype bus_op = BPublish string event | BSubscribe int | BCancel nat | BReceive nat

fun bus_step :: "'s event_append \<Rightarrow> bus_op \<Rightarrow> 's bus \<Rightarrow> 's bus option" where
  "bus_step app (BPublish now evt) b = Publish app now b evt"
| "bus_step app (BSubscribe n) b = Some (fst (Subscribe n b))"
| "bus_step app (BCancel i) b = cancel i b"
| "bus_step app (BReceive i) b = Some (fst (receive i b))"

fun bus_run :: "'s event_append \<Rightarrow> bus_op list \<Rightarrow> 's bus \<Rightarrow> 's bus option" where
  "bus_run app [] b = Some b"
| "bus_run app (op # ops) b = Option.bind (bus_step app op b) (bus_run app ops)"

section \<open>The invariant of the bus\<close>

definition bus_inv :: "'s bus \<Rightarrow> bool" where
  "bus_inv b \<longleftrightarrow> distinct (bus_subs b) \<and>
     (\<forall>i \<in> set (bus_subs b). i < bus_nextID b \<and> \<not> ch_closed (bus_chans b i)) \<and>
     (\<forall>i. length (ch_buf (bus_chans b i)) \<le> ch_cap (bus_chans b i))"

definition delivered :: "event \<Rightarrow> channel \<Rightarrow> channel" where
  "delivered e c = (if length (ch_buf c) < ch_cap c then c\<lparr>ch_buf := ch_buf c @ [e]\<rparr> else c)"

lemma delivered_sel [simp]: "ch_closed (delivered e c) = ch_closed c" "ch_cap (delivered e c) = ch_cap c"
  by (simp_all add: delivered_def)

lemma broadcast_open:
  "distinct is \<Longrightarrow> \<forall>i \<in> set is. \<not> ch_closed (chans i) \<Longrightarrow>
   broadcast chans is e = Some (\<lambda>i. if i \<in> set is then delivered e (chans i) else chans i)"
proof (induction "is" arbitrary: chans)
  case Nil
  then show ?case by simp
next
  case (Cons i "is")
  from Cons.prems have "try_send (chans i) e = Some (delivered e (chans i))"
    by (simp add: try_send_def delivered_def)
  with Cons show ?case by (auto simp: fun_eq_iff)
qed

lemma Publish_eq:
  assumes "bus_inv b"
  shows "Publish app now b evt =
    (let (store, e) = persist app (bus_store b) (stamp now evt)
     in Some (b\<lparr>bus_store := store,
        bus_chans := (\<lambda>i. if i \<in> set (bus_subs b) then delivered e (bus_chans b i) else bus_chans b i)\<rparr>))"
  using assms by (simp add: Publish_def bus_inv_def broadcast_open case_prod_beta)

lemma bus_inv_New: "bus_inv (NewBus s)"
  by (simp add: bus_inv_def NewBus_def)

lemma bus_inv_step: "bus_inv b \<Longrightarrow> \<exists>b'. bus_step app op b = Some b' \<and> bus_inv b'"
proof (cases op)
  case (BPublish now evt)
  assume "bus_inv b"
  with BPublish show ?thesis
    by (auto simp: Publish_eq case_prod_beta bus_inv_def) (auto simp: delivered_def)
next
  case (BSubscribe n)
  assume "bus_inv b"
  with BSubscribe show ?thesis
    by (auto simp: Subscribe_def Let_def bus_inv_def)
next
  case (BCancel i)
  assume "bus_inv b"
  with BCancel show ?thesis
    by (auto simp: cancel_def close_chan_def bus_inv_def distinct_removeAll)
next
  case (BReceive i)
  assume inv: "bus_inv b"
  then have "length (ch_buf (bus_chans b i)) \<le> ch_cap (bus_chans b i)" by (simp add: bus_inv_def)
  with BReceive inv show ?thesis
    by (auto simp: receive_def bus_inv_def split: list.splits) (metis Suc_leD length_Cons)
qed

lemma bus_inv_run: "bus_inv b \<Longrightarrow> \<exists>b'. bus_run app ops b = Some b' \<and> bus_inv b'"
proof (induction ops arbitrary: b)
  case Nil
  then show ?case by simp
next
  case (Cons op ops)
  with bus_inv_step [OF Cons.prems, of app op] show ?case by auto
qed

section \<open>Properties of the bus\<close>

text \<open>
  The bus never panics. From a new bus, whatever the order of publications, subscriptions,
  cancellations (of any number, also repeated) and receptions, no operation sends on or closes a
  closed channel; the subscriptions stay distinct and open, and no buffer exceeds its capacity.
\<close>

theorem bus_never_panics: "\<exists>b. bus_run app ops (NewBus s) = Some b \<and> bus_inv b"
  using bus_inv_run [OF bus_inv_New] .

text \<open>The events that reach subscribers when a list of time-stamped events is published.\<close>

fun persist_all :: "'s event_append \<Rightarrow> 's option \<Rightarrow> (string \<times> event) list \<Rightarrow> 's option \<times> event list" where
  "persist_all app store [] = (store, [])"
| "persist_all app store ((now, evt) # es) =
     (let (store1, e) = persist app store (stamp now evt);
          (store2, rest) = persist_all app store1 es
      in (store2, e # rest))"

lemma publish_run:
  assumes "bus_inv b" and "i \<in> set (bus_subs b)"
    and "bus_run app (map (\<lambda>(t, e). BPublish t e) pes) b = Some b'"
  shows "bus_store b' = fst (persist_all app (bus_store b) pes) \<and>
     ch_buf (bus_chans b' i) = take (ch_cap (bus_chans b i))
       (ch_buf (bus_chans b i) @ snd (persist_all app (bus_store b) pes))"
  using assms
proof (induction pes arbitrary: b)
  case Nil
  then show ?case by (simp add: bus_inv_def)
next
  case (Cons p pes)
  obtain now evt where p: "p = (now, evt)" by fastforce
  obtain store e where pe: "persist app (bus_store b) (stamp now evt) = (store, e)" by fastforce
  define b1 where "b1 = b\<lparr>bus_store := store,
      bus_chans := (\<lambda>i. if i \<in> set (bus_subs b) then delivered e (bus_chans b i) else bus_chans b i)\<rparr>"
  have step: "bus_step app (BPublish now evt) b = Some b1"
    using Cons.prems(1) pe by (simp add: Publish_eq b1_def)
  with bus_inv_step [OF Cons.prems(1), of app "BPublish now evt"] have inv1: "bus_inv b1" by simp
  have "bus_run app (map (\<lambda>(t, e). BPublish t e) pes) b1 = Some b'"
    using Cons.prems(3) step p by simp
  note IH = Cons.IH [OF inv1 _ this]
  have len: "length (ch_buf (bus_chans b i)) \<le> ch_cap (bus_chans b i)"
    using Cons.prems(1) by (simp add: bus_inv_def)
  from IH Cons.prems(2) len p pe show ?case
    by (auto simp: b1_def delivered_def case_prod_beta take_Cons')
qed

text \<open>
  What a slow subscriber sees. A subscriber that joins with a buffer of \<open>n\<close> (32 where that is
  not positive) and does not read finds in its channel exactly the first \<open>n\<close> of the events
  published since, in order and as persisted; later ones are dropped, and the publisher never
  waits. The store receives all of them.
\<close>

theorem bus_delivery:
  assumes "bus_inv b" and "Subscribe n b = (b1, i)"
    and "bus_run app (map (\<lambda>(t, e). BPublish t e) pes) b1 = Some b2"
  shows "ch_buf (bus_chans b2 i) =
       take (if n \<le> 0 then 32 else nat n) (snd (persist_all app (bus_store b) pes)) \<and>
     bus_store b2 = fst (persist_all app (bus_store b) pes)"
proof -
  have inv1: "bus_inv b1" using bus_inv_step [OF assms(1), of app "BSubscribe n"] assms(2) by simp
  from assms(2) have "i \<in> set (bus_subs b1)" "bus_store b1 = bus_store b"
    "bus_chans b1 i = \<lparr>ch_cap = (if n \<le> 0 then 32 else nat n), ch_buf = [], ch_closed = False\<rparr>"
    by (auto simp: Subscribe_def Let_def)
  with publish_run [OF inv1 _ assms(3), of i] show ?thesis by simp
qed

theorem bus_delivery_witness:
  "map (\<lambda>b. map ev_Type (ch_buf (bus_chans b 0)))
     (case bus_run (\<lambda>s e. (s, e, None)) (map (\<lambda>(t, e). BPublish t e)
        [(''t1'', zero_event\<lparr>ev_Type := ''a''\<rparr>), (''t2'', zero_event\<lparr>ev_Type := ''b''\<rparr>),
         (''t3'', zero_event\<lparr>ev_Type := ''c''\<rparr>)]) (fst (Subscribe 2 (NewBus (Some ())))) of
        None \<Rightarrow> [] | Some b \<Rightarrow> [b]) = [[''a'', ''b'']]"
proof -
  let ?app = "\<lambda>(s :: unit) (e :: event). (s, e, None :: go_error option)"
  let ?pes = "[(''t1'', zero_event\<lparr>ev_Type := ''a''\<rparr>), (''t2'', zero_event\<lparr>ev_Type := ''b''\<rparr>),
         (''t3'', zero_event\<lparr>ev_Type := ''c''\<rparr>)]"
  have sub: "Subscribe 2 (NewBus (Some ())) = (fst (Subscribe 2 (NewBus (Some ()))), 0)"
    by (simp add: Subscribe_def NewBus_def Let_def)
  have "bus_inv (fst (Subscribe 2 (NewBus (Some ()))))"
    using bus_inv_step [OF bus_inv_New, of ?app "BSubscribe 2" "Some ()"] by simp
  from bus_inv_run [OF this, of ?app "map (\<lambda>(t, e). BPublish t e) ?pes"] obtain b2 where
    b2: "bus_run ?app (map (\<lambda>(t, e). BPublish t e) ?pes) (fst (Subscribe 2 (NewBus (Some ())))) = Some b2" by blast
  from bus_delivery [OF bus_inv_New sub b2]
  have "ch_buf (bus_chans b2 0) = take 2 (snd (persist_all ?app (Some ()) ?pes))"
    by (simp add: NewBus_def)
  moreover have "map ev_Type (take 2 (snd (persist_all ?app (Some ()) ?pes))) = [''a'', ''b'']"
    by (simp add: persist_def stamp_def zero_event_def)
  ultimately have "map ev_Type (ch_buf (bus_chans b2 0)) = [''a'', ''b'']" by simp
  then show ?thesis using b2 by simp
qed

lemma cancelled_step:
  assumes "i < bus_nextID b" and "i \<notin> set (bus_subs b)" and "bus_inv b" and "op \<noteq> BReceive i"
    and "bus_step app op b = Some b'"
  shows "bus_chans b' i = bus_chans b i \<and> i < bus_nextID b' \<and> i \<notin> set (bus_subs b') \<and> bus_inv b'"
proof -
  from bus_inv_step [OF assms(3), of app op] assms(5) have inv: "bus_inv b'" by simp
  show ?thesis
  proof (cases op)
    case (BPublish now evt)
    with assms inv show ?thesis by (auto simp: Publish_eq case_prod_beta)
  next
    case (BSubscribe n)
    with assms inv show ?thesis by (auto simp: Subscribe_def Let_def)
  next
    case (BCancel j)
    with assms inv show ?thesis by (auto simp: cancel_def split: if_splits option.splits)
  next
    case (BReceive j)
    with assms inv show ?thesis by (auto simp: receive_def split: list.splits)
  qed
qed

text \<open>
  A cancelled subscription stays quiet. After \<open>cancel\<close> the channel of a subscription is closed,
  and nothing that happens on the bus later, further cancellations included, changes what is left
  in its buffer or opens it again; only its reader can.
\<close>

theorem bus_cancelled_quiet:
  assumes "bus_inv b" and "i \<in> set (bus_subs b)" and "cancel i b = Some b1"
    and "bus_run app ops b1 = Some b2" and "BReceive i \<notin> set ops"
  shows "bus_chans b2 i = (bus_chans b i)\<lparr>ch_closed := True\<rparr> \<and> i \<notin> set (bus_subs b2)"
proof -
  have inv1: "bus_inv b1" using bus_inv_step [OF assms(1), of app "BCancel i"] assms(3) by simp
  from assms(1-3) have 1: "bus_chans b1 i = (bus_chans b i)\<lparr>ch_closed := True\<rparr>" "i < bus_nextID b1"
    "i \<notin> set (bus_subs b1)"
    by (auto simp: cancel_def close_chan_def bus_inv_def split: if_splits option.splits)
  have "bus_chans b2 i = bus_chans b1 i \<and> i \<notin> set (bus_subs b2)"
    using inv1 1(2,3) assms(4,5)
  proof (induction ops arbitrary: b1)
    case Nil
    then show ?case by simp
  next
    case (Cons op ops)
    from Cons.prems(4) obtain c where c: "bus_step app op b1 = Some c" "bus_run app ops c = Some b2"
      by (auto simp: Option.bind_eq_Some_conv)
    from Cons.prems(5) have "op \<noteq> BReceive i" "BReceive i \<notin> set ops" by auto
    with cancelled_step [OF Cons.prems(2,3,1) _ c(1)] Cons.IH [of c] c(2) show ?case by auto
  qed
  with 1 show ?thesis by simp
qed

theorem bus_cancelled_quiet_witness:
  "\<exists>b1 b2. cancel 0 (fst (Subscribe 1 (NewBus (None :: unit option)))) = Some b1 \<and>
     bus_run (\<lambda>s e. (s, e, None)) [BPublish ''t'' zero_event, BCancel 0, BSubscribe 3] b1 = Some b2 \<and>
     ch_closed (bus_chans b2 0) \<and> ch_buf (bus_chans b2 0) = []"
proof -
  let ?app = "\<lambda>(s :: unit) (e :: event). (s, e, None :: go_error option)"
  let ?b = "fst (Subscribe 1 (NewBus (None :: unit option)))"
  let ?ops = "[BPublish ''t'' zero_event, BCancel 0, BSubscribe 3]"
  have inv: "bus_inv ?b" using bus_inv_step [OF bus_inv_New, of ?app "BSubscribe 1" None] by simp
  from bus_inv_step [OF inv, of ?app "BCancel 0"] obtain b1 where b1: "cancel 0 ?b = Some b1" "bus_inv b1" by auto
  from bus_inv_run [OF b1(2), of ?app ?ops] obtain b2 where b2: "bus_run ?app ?ops b1 = Some b2" by blast
  have "0 \<in> set (bus_subs ?b)" "ch_buf (bus_chans ?b 0) = []" by (simp_all add: Subscribe_def NewBus_def Let_def)
  with bus_cancelled_quiet [OF inv _ b1(1) b2] b1(1) b2 show ?thesis by auto
qed

section \<open>What is published reaches the store\<close>

fun published :: "bus_op list \<Rightarrow> (string \<times> event) list" where
  "published [] = []"
| "published (BPublish now evt # ops) = (now, evt) # published ops"
| "published (_ # ops) = published ops"

text \<open>The events a store accepts, of those offered to it in turn.\<close>

fun accepted :: "'s event_append \<Rightarrow> 's \<Rightarrow> (string \<times> event) list \<Rightarrow> event list" where
  "accepted app s [] = []"
| "accepted app s ((now, evt) # es) =
     (let (s', _, err) = app s (stamp now evt)
      in (if err = None then [stamp now evt] else []) @ accepted app s' es)"

lemma bus_run_store:
  "bus_inv b \<Longrightarrow> \<exists>b'. bus_run app ops b = Some b' \<and> bus_store b' = fst (persist_all app (bus_store b) (published ops))"
proof (induction ops arbitrary: b)
  case (Cons op ops)
  from bus_inv_step [OF Cons.prems, of app op] obtain b1 where b1: "bus_step app op b = Some b1" "bus_inv b1" by blast
  from Cons.IH [OF b1(2)] obtain b' where b': "bus_run app ops b1 = Some b'"
    "bus_store b' = fst (persist_all app (bus_store b1) (published ops))" by blast
  show ?case
  proof (cases op)
    case (BPublish now evt)
    with b1(1) Cons.prems have "bus_store b1 = fst (persist app (bus_store b) (stamp now evt))" by (auto simp: Publish_eq case_prod_beta)
    with b1(1) b' BPublish show ?thesis by (simp add: case_prod_beta)
  next
    case (BSubscribe n)
    with b1(1) have "bus_store b1 = bus_store b" by (auto simp: Subscribe_def Let_def)
    with b1(1) b' BSubscribe show ?thesis by simp
  next
    case (BCancel i)
    with b1(1) have "bus_store b1 = bus_store b" by (auto simp: cancel_def split: if_splits option.splits)
    with b1(1) b' BCancel show ?thesis by simp
  next
    case (BReceive i)
    with b1(1) have "bus_store b1 = bus_store b" by (auto simp: receive_def split: list.splits)
    with b1(1) b' BReceive show ?thesis by simp
  qed
qed simp

section \<open>The contract of an event store\<close>

text \<open>
  What the bus relies on from \<open>eventing.Store\<close>: an accepted event is kept as it was given, with a
  number above all the numbers given before; a refused one leaves the store as it was.
\<close>

locale event_store =
  fixes st_append :: "'s event_append"
    and st_rows :: "'s \<Rightarrow> event list"
    and st_inv :: "'s \<Rightarrow> bool"
  assumes append_ok: "st_inv s \<Longrightarrow> st_append s e = (s', e', None) \<Longrightarrow>
      st_rows s' = st_rows s @ [e'] \<and> e' = e\<lparr>ev_ID := ev_ID e'\<rparr> \<and> (\<forall>x \<in> set (st_rows s). ev_ID x < ev_ID e')"
    and append_failed: "st_inv s \<Longrightarrow> st_append s e = (s', e', Some er) \<Longrightarrow> st_rows s' = st_rows s"
    and append_inv: "st_inv s \<Longrightarrow> st_inv (fst (st_append s e))"
begin

lemma persist_cases:
  assumes "st_inv s" and "persist st_append (Some s) e = (store, e')"
  obtains s' where "store = Some s'" "st_inv s'" "st_rows s' = st_rows s" "e' = e"
  | s' where "store = Some s'" "st_inv s'" "st_rows s' = st_rows s @ [e']" "e' = e\<lparr>ev_ID := ev_ID e'\<rparr>"
      "\<forall>x \<in> set (st_rows s). ev_ID x < ev_ID e'"
proof -
  obtain s' p er where a: "st_append s e = (s', p, er)" by (metis prod_cases3)
  have inv: "st_inv s'" using append_inv [OF assms(1), of e] a by simp
  show ?thesis
  proof (cases er)
    case None
    with append_ok [OF assms(1)] a inv assms(2) that(2) show ?thesis by (auto simp: persist_def)
  next
    case (Some x)
    with append_failed [OF assms(1)] a inv assms(2) that(1) show ?thesis by (auto simp: persist_def)
  qed
qed

text \<open>
  Publishing any number of events, whatever else happens on the bus, only adds rows: the accepted events, each once, in
  the order of publication, with increasing numbers.
\<close>

lemma persist_all_rows:
  assumes "st_inv s" and "sorted_wrt (<) (map ev_ID (st_rows s))"
    and "persist_all st_append (Some s) pes = (store, es)"
  shows "\<exists>s' new. store = Some s' \<and> st_inv s' \<and> st_rows s' = st_rows s @ new \<and>
     map (\<lambda>e. e\<lparr>ev_ID := 0\<rparr>) new = map (\<lambda>e. e\<lparr>ev_ID := 0\<rparr>) (accepted st_append s pes) \<and>
     sorted_wrt (<) (map ev_ID (st_rows s'))"
  using assms
proof (induction pes arbitrary: s es store)
  case (Cons p pes)
  obtain now evt where p: "p = (now, evt)" by fastforce
  let ?e = "stamp now evt"
  obtain s1 e' er where a: "st_append s ?e = (s1, e', er)" by (metis prod_cases3)
  have inv: "st_inv s1" using append_inv [OF Cons.prems(1), of ?e] a by simp
  obtain st2 rest where pr: "persist_all st_append (Some s1) pes = (st2, rest)" by fastforce
  with Cons.prems(3) p a have eq: "store = st2" by (cases er) (simp_all add: persist_def)
  show ?case
  proof (cases er)
    case None
    from append_ok [OF Cons.prems(1) a [unfolded None]] have ok: "st_rows s1 = st_rows s @ [e']" "e' = ?e\<lparr>ev_ID := ev_ID e'\<rparr>"
      "\<forall>x \<in> set (st_rows s). ev_ID x < ev_ID e'" by simp_all
    with Cons.prems(2) have "sorted_wrt (<) (map ev_ID (st_rows s1))" by (auto simp: sorted_wrt_append)
    from Cons.IH [OF inv this pr] obtain s' new where s': "st2 = Some s'" "st_inv s'" "st_rows s' = st_rows s1 @ new"
      "map (\<lambda>e. e\<lparr>ev_ID := 0\<rparr>) new = map (\<lambda>e. e\<lparr>ev_ID := 0\<rparr>) (accepted st_append s1 pes)"
      "sorted_wrt (<) (map ev_ID (st_rows s'))" by blast
    from ok(2) have "e'\<lparr>ev_ID := 0\<rparr> = ?e\<lparr>ev_ID := 0\<rparr>" by (metis event.surjective event.update_convs(1))
    with s' ok(1) eq p a None show ?thesis by (intro exI [of _ s'] exI [of _ "e' # new"]) simp
  next
    case (Some x)
    with append_failed [OF Cons.prems(1)] a have keep: "st_rows s1 = st_rows s" by blast
    with Cons.prems(2) have "sorted_wrt (<) (map ev_ID (st_rows s1))" by simp
    from Cons.IH [OF inv this pr] keep eq p a Some show ?thesis by auto
  qed
qed simp

lemma run_rows:
  assumes "bus_inv b" and "bus_store b = Some s" and "st_inv s" and "sorted_wrt (<) (map ev_ID (st_rows s))"
  shows "\<exists>b' s' new. bus_run st_append ops b = Some b' \<and> bus_store b' = Some s' \<and> st_rows s' = st_rows s @ new \<and>
     map (\<lambda>e. e\<lparr>ev_ID := 0\<rparr>) new = map (\<lambda>e. e\<lparr>ev_ID := 0\<rparr>) (accepted st_append s (published ops)) \<and>
     sorted_wrt (<) (map ev_ID (st_rows s'))"
proof -
  obtain store es where p: "persist_all st_append (Some s) (published ops) = (store, es)" by fastforce
  from bus_run_store [OF assms(1), of st_append ops] assms(2) p obtain b' where
    "bus_run st_append ops b = Some b'" "bus_store b' = store" by auto
  with persist_all_rows [OF assms(3,4) p] show ?thesis by auto
qed

end

end
