(* ===== verification/Sandbox.thy ===== *)
theory Sandbox
  imports Eventing "HOL-Library.AList"
begin

text \<open>
  The sandbox manager, \<open>internal/sandbox\<close>: the sandbox types (\<open>runtime.go\<close>), the in-memory store
  (\<open>store.go\<close>) and the manager (\<open>manager.go\<close>), with the store interface as a locale. The runtime
  driver (Docker, Kubernetes), the health probe over HTTP, the package hydrator and the event bus
  act on a world \<open>'w\<close> and are parameters. Times are nanoseconds; CPU limits are thousandths of a
  core; Go maps are association lists, a nil map being the empty one. A copy (\<open>cloneSandbox\<close>) is
  the same value.
\<close>

section \<open>runtime.go\<close>

datatype sandbox_status =
  StatusCreating | StatusRunning | StatusStopped | StatusError | StatusDestroyed | StatusOther string

datatype network_mode = NetworkModeUnset | NetworkModeNone | NetworkModeFull | NetworkModePolicy
  | NetworkModeOther string

record network_policy =
  np_Mode :: network_mode
  np_AllowHosts :: "string list"
  np_AllowCIDRs :: "string list"
  np_AllowPorts :: "int list"

record lifecycle_policy =
  lp_TTLSeconds :: int
  lp_IdleTTLSeconds :: int

record sandbox_config =
  cf_Driver :: string
  cf_Image :: string
  cf_MountSource :: string
  cf_MountTarget :: string
  cf_CPULimit :: int
  cf_MemoryLimit :: int
  cf_DiskLimit :: int
  cf_NetworkEnabled :: bool
  cf_AllowedHosts :: "string list"
  cf_NetworkPolicy :: network_policy
  cf_Namespace :: string
  cf_Lifecycle :: lifecycle_policy
  cf_User :: string
  cf_Env :: "(string \<times> string) list"
  cf_Labels :: "(string \<times> string) list"
  cf_Packages :: "string list"

record runtime_capability =
  rc_Name :: string
  rc_Supported :: bool
  rc_Notes :: string

text \<open>\<open>sb_Capabilities\<close> is \<open>None\<close> for the nil slice, which the manager tells from the empty one.\<close>

record sandbox =
  sb_ID :: string
  sb_ContainerID :: string
  sb_Driver :: string
  sb_Namespace :: string
  sb_Config :: sandbox_config
  sb_Status :: sandbox_status
  sb_HealthStatus :: string
  sb_RPCEndpoint :: string
  sb_RPCPort :: int
  sb_CreatedAt :: int
  sb_UpdatedAt :: int
  sb_LastAccessedAt :: int
  sb_ExpiresAt :: int
  sb_Labels :: "(string \<times> string) list"
  sb_Capabilities :: "runtime_capability list option"
  sb_Metadata :: "(string \<times> string) list"

record exec_command =
  ec_Command :: string
  ec_Args :: "string list"
  ec_Env :: "(string \<times> string) list"
  ec_WorkingDir :: string
  ec_Timeout :: int
  ec_User :: string

record exec_result =
  xr_ExitCode :: int
  xr_Stdout :: string
  xr_Stderr :: string
  xr_DurationMs :: int
  xr_TimedOut :: bool

record 'w driver =
  dr_Create :: "'w \<Rightarrow> sandbox_config \<Rightarrow> 'w \<times> (go_error + sandbox)"
  dr_Start :: "'w \<Rightarrow> string \<Rightarrow> 'w \<times> go_error option"
  dr_Stop :: "'w \<Rightarrow> string \<Rightarrow> 'w \<times> go_error option"
  dr_Destroy :: "'w \<Rightarrow> string \<Rightarrow> 'w \<times> go_error option"
  dr_Exec :: "'w \<Rightarrow> string \<Rightarrow> exec_command \<Rightarrow> 'w \<times> (go_error + exec_result)"
  dr_Inspect :: "'w \<Rightarrow> string \<Rightarrow> 'w \<times> (go_error + sandbox option)"
  dr_Status :: "'w \<Rightarrow> string \<Rightarrow> 'w \<times> (go_error + sandbox_status)"
  dr_Capabilities :: "runtime_capability list option"

text \<open>\<open>sandbox.Store\<close>: every operation may fail and may change the state of the store.\<close>

record 's sandbox_ops =
  ss_Upsert :: "'s \<Rightarrow> sandbox \<Rightarrow> 's \<times> go_error option"
  ss_Get :: "'s \<Rightarrow> string \<Rightarrow> 's \<times> (go_error + sandbox option)"
  ss_List :: "'s \<Rightarrow> 's \<times> (go_error + sandbox list)"
  ss_Delete :: "'s \<Rightarrow> string \<Rightarrow> 's \<times> go_error option"
  ss_ListExpired :: "'s \<Rightarrow> int \<Rightarrow> int \<Rightarrow> 's \<times> (go_error + sandbox list)"

definition unix :: "int \<Rightarrow> int" where
  "unix t = t div 1000000000"

section \<open>store.go\<close>

type_synonym memory_store = "(string \<times> sandbox) list"

definition NewMemoryStore :: memory_store where
  "NewMemoryStore = []"

definition mem_Upsert :: "memory_store \<Rightarrow> sandbox \<Rightarrow> memory_store \<times> go_error option" where
  "mem_Upsert s sb = (AList.update (sb_ID sb) sb s, None)"

definition mem_Get :: "memory_store \<Rightarrow> string \<Rightarrow> memory_store \<times> (go_error + sandbox option)" where
  "mem_Get s k = (s, Inr (map_of s k))"

definition mem_List :: "memory_store \<Rightarrow> memory_store \<times> (go_error + sandbox list)" where
  "mem_List s = (s, Inr (sort_key sb_ID (map snd s)))"

definition mem_Delete :: "memory_store \<Rightarrow> string \<Rightarrow> memory_store \<times> go_error option" where
  "mem_Delete s k = (AList.delete k s, None)"

definition mem_ListExpired :: "memory_store \<Rightarrow> int \<Rightarrow> int \<Rightarrow> memory_store \<times> (go_error + sandbox list)" where
  "mem_ListExpired s before limit =
     (let out = sort_key sb_ExpiresAt
            (filter (\<lambda>sb. \<not> (sb_ExpiresAt sb = 0 \<or> sb_ExpiresAt sb * 1000000000 > before) \<and>
                          sb_Status sb \<noteq> StatusDestroyed) (map snd s))
      in (s, Inr (if limit > 0 \<and> int (length out) > limit then take (nat limit) out else out)))"

definition memory_ops :: "memory_store sandbox_ops" where
  "memory_ops = \<lparr>ss_Upsert = mem_Upsert, ss_Get = mem_Get, ss_List = mem_List, ss_Delete = mem_Delete,
     ss_ListExpired = mem_ListExpired\<rparr>"

section \<open>manager.go: lifecycle and defaults\<close>

text \<open>\<open>time.Duration(s) * time.Second\<close>: 64-bit signed arithmetic, which wraps around.\<close>

definition duration_of_seconds :: "int \<Rightarrow> int" where
  "duration_of_seconds s = signed_take_bit 63 (s * 1000000000)"

definition computeExpiry :: "int \<Rightarrow> int \<Rightarrow> int \<Rightarrow> lifecycle_policy \<Rightarrow> int" where
  "computeExpiry now createdAt lastAccessedAt p =
     (if lp_TTLSeconds p \<le> 0 \<and> lp_IdleTTLSeconds p \<le> 0 then 0
      else
        (let candidates =
               (if lp_TTLSeconds p > 0
                then [createdAt * 1000000000 + duration_of_seconds (lp_TTLSeconds p)] else []) @
               (if lp_IdleTTLSeconds p > 0
                then [(if lastAccessedAt > 0 then lastAccessedAt * 1000000000 else now) +
                      duration_of_seconds (lp_IdleTTLSeconds p)] else [])
         in case candidates of
              [] \<Rightarrow> 0
            | c # cs \<Rightarrow> unix (fold (\<lambda>x m. if x < m then x else m) cs c)))"

definition touchLifecycle :: "sandbox \<Rightarrow> int \<Rightarrow> sandbox" where
  "touchLifecycle sb now =
     sb\<lparr>sb_LastAccessedAt := unix now, sb_UpdatedAt := unix now,
        sb_ExpiresAt := computeExpiry now (sb_CreatedAt sb) (unix now) (cf_Lifecycle (sb_Config sb))\<rparr>"

definition default_str :: "string \<Rightarrow> string \<Rightarrow> string" where
  "default_str d s = (if s = [] then d else s)"

definition default_mode :: "bool \<Rightarrow> network_policy \<Rightarrow> network_mode" where
  "default_mode enabled p =
     (if np_Mode p \<noteq> NetworkModeUnset then np_Mode p
      else if \<not> enabled \<and> np_AllowHosts p = [] \<and> np_AllowCIDRs p = [] then NetworkModeNone
      else if np_AllowHosts p \<noteq> [] \<or> np_AllowCIDRs p \<noteq> [] \<or> np_AllowPorts p \<noteq> [] then NetworkModePolicy
      else NetworkModeFull)"

text \<open>\<open>abs_path\<close> is \<open>filepath.Abs\<close> in the working directory of the process.\<close>

definition applySandboxDefaults :: "(string \<Rightarrow> string option) \<Rightarrow> sandbox_config \<Rightarrow> sandbox_config" where
  "applySandboxDefaults abs_path c =
     (let hosts = (if cf_AllowedHosts c \<noteq> [] \<and> np_AllowHosts (cf_NetworkPolicy c) = []
                   then cf_AllowedHosts c else np_AllowHosts (cf_NetworkPolicy c));
          p = (cf_NetworkPolicy c)\<lparr>np_AllowHosts := hosts\<rparr>
      in c\<lparr>cf_Driver := default_str ''docker'' (cf_Driver c),
           cf_MountTarget := default_str ''/workspace'' (cf_MountTarget c),
           cf_User := default_str ''1000:1000'' (cf_User c),
           cf_CPULimit := (if cf_CPULimit c = 0 then 1000 else cf_CPULimit c),
           cf_MemoryLimit := (if cf_MemoryLimit c = 0 then 512 else cf_MemoryLimit c),
           cf_Namespace := default_str ''default'' (cf_Namespace c),
           cf_MountSource := (if cf_MountSource c = [] then []
                              else case abs_path (cf_MountSource c) of
                                     Some a \<Rightarrow> a | None \<Rightarrow> cf_MountSource c),
           cf_NetworkPolicy := p\<lparr>np_Mode := default_mode (cf_NetworkEnabled c) p\<rparr>,
           cf_Labels := AList.update ''managed-by'' ''primitivebox'' (cf_Labels c)\<rparr>)"

definition mergeSandboxState :: "sandbox \<Rightarrow> sandbox option \<Rightarrow> sandbox" where
  "mergeSandboxState dst src =
     (case src of
        None \<Rightarrow> dst
      | Some s \<Rightarrow>
          dst\<lparr>sb_ContainerID := (if sb_ContainerID s \<noteq> [] then sb_ContainerID s else sb_ContainerID dst),
              sb_Driver := (if sb_Driver s \<noteq> [] then sb_Driver s else sb_Driver dst),
              sb_Namespace := (if sb_Namespace s \<noteq> [] then sb_Namespace s else sb_Namespace dst),
              sb_Config := (if cf_Image (sb_Config s) \<noteq> [] \<or> cf_MountSource (sb_Config s) \<noteq> []
                            then sb_Config s else sb_Config dst),
              sb_Status := (if sb_Status s \<noteq> StatusOther [] then sb_Status s else sb_Status dst),
              sb_RPCEndpoint := (if sb_RPCEndpoint s \<noteq> [] then sb_RPCEndpoint s else sb_RPCEndpoint dst),
              sb_RPCPort := (if sb_RPCPort s \<noteq> 0 then sb_RPCPort s else sb_RPCPort dst),
              sb_CreatedAt := (if sb_CreatedAt s \<noteq> 0 then sb_CreatedAt s else sb_CreatedAt dst),
              sb_UpdatedAt := (if sb_UpdatedAt s \<noteq> 0 then sb_UpdatedAt s else sb_UpdatedAt dst),
              sb_LastAccessedAt := (if sb_LastAccessedAt s \<noteq> 0 then sb_LastAccessedAt s
                                    else sb_LastAccessedAt dst),
              sb_ExpiresAt := (if sb_ExpiresAt s \<noteq> 0 then sb_ExpiresAt s else sb_ExpiresAt dst),
              sb_Labels := (if sb_Labels s \<noteq> [] then sb_Labels s else sb_Labels dst),
              sb_Capabilities := (case sb_Capabilities s of
                                    Some (c # cs) \<Rightarrow> Some (c # cs) | _ \<Rightarrow> sb_Capabilities dst),
              sb_Metadata := (if sb_Metadata s \<noteq> [] then sb_Metadata s else sb_Metadata dst)\<rparr>)"

section \<open>manager.go: the manager\<close>

record ('s, 'w) manager =
  mg_driver :: "'w driver"
  mg_store :: "'s sandbox_ops"
  mg_publish :: "('w \<Rightarrow> event \<Rightarrow> 'w) option"
  mg_probe :: "'w \<Rightarrow> string \<Rightarrow> bool"
  mg_hydrator :: "('w \<Rightarrow> string \<Rightarrow> 'w \<times> go_error option) option"
  mg_now :: "'w \<Rightarrow> int"
  mg_abs :: "string \<Rightarrow> string option"

record ('s, 'w) mgr_state =
  ms_store :: 's
  ms_world :: 'w
  ms_snapshots :: "string list"

text \<open>The optional hydration of packages; its failures are only logged.\<close>

definition hydrate :: "('s, 'w) manager \<Rightarrow> string list \<Rightarrow> 'w \<Rightarrow> 'w" where
  "hydrate m pkgs w =
     (case mg_hydrator m of
        None \<Rightarrow> w
      | Some install \<Rightarrow> fold (\<lambda>p w. fst (install w p)) pkgs w)"

definition mgr_publish :: "('s, 'w) manager \<Rightarrow> event \<Rightarrow> 'w \<Rightarrow> 'w" where
  "mgr_publish m e w = (case mg_publish m of None \<Rightarrow> w | Some f \<Rightarrow> f w e)"

definition manager_event :: "string \<Rightarrow> string \<Rightarrow> string \<Rightarrow> string \<Rightarrow> event" where
  "manager_event typ source i msg =
     zero_event\<lparr>ev_Type := typ, ev_Source := source, ev_SandboxID := i, ev_Message := msg\<rparr>"

text \<open>\<open>eventing.MustJSON(sandbox)\<close>; fields tagged \<open>omitempty\<close> are left out when they are zero.\<close>

definition opt_field :: "bool \<Rightarrow> string \<Rightarrow> json \<Rightarrow> jmap" where
  "opt_field present k v = (if present then [(k, v)] else [])"

definition json_map :: "(string \<times> string) list \<Rightarrow> json" where
  "json_map m = JObj (map (\<lambda>(k, v). (k, JStr v)) m)"

fun mode_string :: "network_mode \<Rightarrow> string" where
  "mode_string NetworkModeUnset = []"
| "mode_string NetworkModeNone = ''none''"
| "mode_string NetworkModeFull = ''full''"
| "mode_string NetworkModePolicy = ''policy''"
| "mode_string (NetworkModeOther s) = s"

fun sandbox_status_string :: "sandbox_status \<Rightarrow> string" where
  "sandbox_status_string StatusCreating = ''creating''"
| "sandbox_status_string StatusRunning = ''running''"
| "sandbox_status_string StatusStopped = ''stopped''"
| "sandbox_status_string StatusError = ''error''"
| "sandbox_status_string StatusDestroyed = ''destroyed''"
| "sandbox_status_string (StatusOther s) = s"

definition policy_json :: "network_policy \<Rightarrow> json" where
  "policy_json p = JObj (
     opt_field (np_Mode p \<noteq> NetworkModeUnset) ''mode'' (JStr (mode_string (np_Mode p))) @
     opt_field (np_AllowHosts p \<noteq> []) ''allow_hosts'' (JArr (map JStr (np_AllowHosts p))) @
     opt_field (np_AllowCIDRs p \<noteq> []) ''allow_cidrs'' (JArr (map JStr (np_AllowCIDRs p))) @
     opt_field (np_AllowPorts p \<noteq> []) ''allow_ports'' (JArr (map JNum (np_AllowPorts p))))"

definition config_json :: "sandbox_config \<Rightarrow> json" where
  "config_json c = JObj (
     opt_field (cf_Driver c \<noteq> []) ''driver'' (JStr (cf_Driver c)) @
     [(''image'', JStr (cf_Image c)), (''mount_source'', JStr (cf_MountSource c)),
      (''mount_target'', JStr (cf_MountTarget c)), (''cpu_limit'', JNum (cf_CPULimit c)),
      (''memory_limit'', JNum (cf_MemoryLimit c)), (''disk_limit'', JNum (cf_DiskLimit c)),
      (''network_enabled'', JBool (cf_NetworkEnabled c)),
      (''allowed_hosts'', JArr (map JStr (cf_AllowedHosts c))),
      (''network_policy'', policy_json (cf_NetworkPolicy c))] @
     opt_field (cf_Namespace c \<noteq> []) ''namespace'' (JStr (cf_Namespace c)) @
     [(''lifecycle'', JObj (
         opt_field (lp_TTLSeconds (cf_Lifecycle c) \<noteq> 0) ''ttl_seconds'' (JNum (lp_TTLSeconds (cf_Lifecycle c))) @
         opt_field (lp_IdleTTLSeconds (cf_Lifecycle c) \<noteq> 0) ''idle_ttl_seconds''
           (JNum (lp_IdleTTLSeconds (cf_Lifecycle c))))),
      (''user'', JStr (cf_User c)), (''env'', json_map (cf_Env c)), (''labels'', json_map (cf_Labels c))] @
     opt_field (cf_Packages c \<noteq> []) ''packages'' (JArr (map JStr (cf_Packages c))))"

definition capability_json :: "runtime_capability \<Rightarrow> json" where
  "capability_json c = JObj ([(''name'', JStr (rc_Name c)), (''supported'', JBool (rc_Supported c))] @
     opt_field (rc_Notes c \<noteq> []) ''notes'' (JStr (rc_Notes c)))"

definition sandbox_json :: "sandbox \<Rightarrow> raw" where
  "sandbox_json sb = json_marshal (JObj (
     [(''id'', JStr (sb_ID sb))] @
     opt_field (sb_ContainerID sb \<noteq> []) ''container_id'' (JStr (sb_ContainerID sb)) @
     opt_field (sb_Driver sb \<noteq> []) ''driver'' (JStr (sb_Driver sb)) @
     opt_field (sb_Namespace sb \<noteq> []) ''namespace'' (JStr (sb_Namespace sb)) @
     [(''config'', config_json (sb_Config sb)), (''status'', JStr (sandbox_status_string (sb_Status sb)))] @
     opt_field (sb_HealthStatus sb \<noteq> []) ''health_status'' (JStr (sb_HealthStatus sb)) @
     [(''rpc_endpoint'', JStr (sb_RPCEndpoint sb))] @
     opt_field (sb_RPCPort sb \<noteq> 0) ''rpc_port'' (JNum (sb_RPCPort sb)) @
     [(''created_at'', JNum (sb_CreatedAt sb))] @
     opt_field (sb_UpdatedAt sb \<noteq> 0) ''updated_at'' (JNum (sb_UpdatedAt sb)) @
     opt_field (sb_LastAccessedAt sb \<noteq> 0) ''last_accessed_at'' (JNum (sb_LastAccessedAt sb)) @
     opt_field (sb_ExpiresAt sb \<noteq> 0) ''expires_at'' (JNum (sb_ExpiresAt sb)) @
     [(''labels'', json_map (sb_Labels sb))] @
     opt_field (sb_Capabilities sb \<notin> {None, Some []}) ''capabilities''
       (JArr (map capability_json (case sb_Capabilities sb of None \<Rightarrow> [] | Some cs \<Rightarrow> cs))) @
     opt_field (sb_Metadata sb \<noteq> []) ''metadata'' (json_map (sb_Metadata sb))))"

definition isHealthy :: "('s, 'w) manager \<Rightarrow> 'w \<Rightarrow> sandbox \<Rightarrow> bool" where
  "isHealthy m w sb =
     (if sb_RPCEndpoint sb = [] then False else mg_probe m w (sb_RPCEndpoint sb @ ''/health''))"

definition upsertSandbox ::
  "('s, 'w) manager \<Rightarrow> ('s, 'w) mgr_state \<Rightarrow> sandbox \<Rightarrow> ('s, 'w) mgr_state \<times> sandbox \<times> go_error option" where
  "upsertSandbox m st sb =
     (let sb' = sb\<lparr>sb_Driver := default_str (cf_Driver (sb_Config sb)) (sb_Driver sb),
                   sb_Capabilities := (case sb_Capabilities sb of
                                         None \<Rightarrow> dr_Capabilities (mg_driver m) | Some c \<Rightarrow> Some c),
                   sb_UpdatedAt := (if sb_UpdatedAt sb = 0 then unix (mg_now m (ms_world st))
                                    else sb_UpdatedAt sb)\<rparr>;
          (s', err) = ss_Upsert (mg_store m) (ms_store st) sb'
      in (st\<lparr>ms_store := s'\<rparr>, sb', err))"

definition mgr_Get ::
  "('s, 'w) manager \<Rightarrow> ('s, 'w) mgr_state \<Rightarrow> string \<Rightarrow> ('s, 'w) mgr_state \<times> sandbox option" where
  "mgr_Get m st k =
     (let (s', r) = ss_Get (mg_store m) (ms_store st) k
      in (st\<lparr>ms_store := s'\<rparr>, case r of Inl _ \<Rightarrow> None | Inr x \<Rightarrow> x))"

definition created_sandbox :: "('s, 'w) manager \<Rightarrow> 'w \<Rightarrow> sandbox_config \<Rightarrow> sandbox \<Rightarrow> sandbox" where
  "created_sandbox m w config sb =
     (let now = mg_now m w;
          created = (if sb_CreatedAt sb = 0 then unix now else sb_CreatedAt sb)
      in sb\<lparr>sb_Config := config,
            sb_Driver := default_str (cf_Driver config) (sb_Driver sb),
            sb_Namespace := cf_Namespace config,
            sb_Capabilities := (case sb_Capabilities sb of
                                  None \<Rightarrow> dr_Capabilities (mg_driver m) | Some c \<Rightarrow> Some c),
            sb_CreatedAt := created, sb_UpdatedAt := unix now, sb_LastAccessedAt := unix now,
            sb_ExpiresAt := computeExpiry now created (unix now) (cf_Lifecycle config)\<rparr>)"

definition mgr_Create ::
  "('s, 'w) manager \<Rightarrow> ('s, 'w) mgr_state \<Rightarrow> sandbox_config \<Rightarrow> ('s, 'w) mgr_state \<times> (go_error + sandbox)" where
  "mgr_Create m st config0 =
     (let config = applySandboxDefaults (mg_abs m) config0;
          (w1, r) = dr_Create (mg_driver m) (ms_world st) config
      in case r of
           Inl e \<Rightarrow> (st\<lparr>ms_world := w1\<rparr>, Inl (GoWrap ''failed to create sandbox'' e))
         | Inr sb0 \<Rightarrow>
             (let (st2, sb, err) = upsertSandbox m (st\<lparr>ms_world := w1\<rparr>) (created_sandbox m w1 config sb0)
              in case err of
                   Some e \<Rightarrow> (st2, Inl e)
                 | None \<Rightarrow>
                     (let evt = (manager_event ''sandbox.created'' ''manager'' (sb_ID sb)
                                   ''sandbox metadata created'')\<lparr>ev_Data := sandbox_json sb\<rparr>
                      in (st2\<lparr>ms_world := hydrate m (cf_Packages config)
                                (mgr_publish m evt (ms_world st2))\<rparr>, Inr sb))))"

definition refresh_health :: "('s, 'w) manager \<Rightarrow> 'w \<Rightarrow> sandbox \<Rightarrow> string" where
  "refresh_health m w sb =
     (if sb_Status sb = StatusRunning \<and> isHealthy m w sb then ''healthy''
      else if sb_Status sb = StatusRunning then ''starting''
      else if sb_Status sb = StatusStopped then ''stopped''
      else if sb_Status sb = StatusDestroyed then ''destroyed''
      else ''error'')"

definition refreshSandboxStatus ::
  "('s, 'w) manager \<Rightarrow> ('s, 'w) mgr_state \<Rightarrow> sandbox \<Rightarrow> ('s, 'w) mgr_state \<times> (go_error + sandbox)" where
  "refreshSandboxStatus m st sb =
     (let updated = sb\<lparr>sb_Driver := default_str (cf_Driver (sb_Config sb)) (sb_Driver sb),
                       sb_Capabilities := (case sb_Capabilities sb of
                                             None \<Rightarrow> dr_Capabilities (mg_driver m) | Some c \<Rightarrow> Some c),
                       sb_UpdatedAt := unix (mg_now m (ms_world st))\<rparr>;
          (w1, r) = dr_Inspect (mg_driver m) (ms_world st) (sb_ID sb)
      in case r of
           Inr inspected \<Rightarrow>
             (let u = mergeSandboxState updated inspected
              in (st\<lparr>ms_world := w1\<rparr>, Inr (u\<lparr>sb_HealthStatus := refresh_health m w1 u\<rparr>)))
         | Inl _ \<Rightarrow>
             (let (w2, s) = dr_Status (mg_driver m) w1 (sb_ID sb)
              in case s of
                   Inl e \<Rightarrow> (st\<lparr>ms_world := w2\<rparr>, Inl e)
                 | Inr status \<Rightarrow>
                     (let u = updated\<lparr>sb_Status := status\<rparr>
                      in (st\<lparr>ms_world := w2\<rparr>, Inr (u\<lparr>sb_HealthStatus := refresh_health m w2 u\<rparr>)))))"

definition not_found :: "string \<Rightarrow> go_error" where
  "not_found k = GoErr (''sandbox not found: '' @ k)"

definition mgr_Start ::
  "('s, 'w) manager \<Rightarrow> ('s, 'w) mgr_state \<Rightarrow> string \<Rightarrow> ('s, 'w) mgr_state \<times> go_error option" where
  "mgr_Start m st k =
     (let (st1, g) = mgr_Get m st k
      in case g of
           None \<Rightarrow> (st1, Some (not_found k))
         | Some sb \<Rightarrow>
             (let (w2, e) = dr_Start (mg_driver m) (ms_world st1) k
              in case e of
                   Some er \<Rightarrow> (st1\<lparr>ms_world := w2\<rparr>, Some (GoWrap ''failed to start sandbox'' er))
                 | None \<Rightarrow>
                     (let (st3, r) = refreshSandboxStatus m (st1\<lparr>ms_world := w2\<rparr>) sb
                      in case r of
                           Inl er \<Rightarrow> (st3, Some er)
                         | Inr f \<Rightarrow>
                             (let f1 = (if sb_Status f = StatusRunning \<and> isHealthy m (ms_world st3) f
                                        then f\<lparr>sb_HealthStatus := ''healthy''\<rparr>
                                        else if sb_Status f = StatusRunning
                                        then f\<lparr>sb_HealthStatus := ''starting''\<rparr> else f);
                                  (st4, _, er) = upsertSandbox m st3
                                     (touchLifecycle f1 (mg_now m (ms_world st3)))
                              in case er of
                                   Some x \<Rightarrow> (st4, Some x)
                                 | None \<Rightarrow> (st4\<lparr>ms_world := mgr_publish m
                                      (manager_event ''sandbox.started'' ''manager'' k ''sandbox started'')
                                      (ms_world st4)\<rparr>, None)))))"

definition mgr_Stop ::
  "('s, 'w) manager \<Rightarrow> ('s, 'w) mgr_state \<Rightarrow> string \<Rightarrow> ('s, 'w) mgr_state \<times> go_error option" where
  "mgr_Stop m st k =
     (let (st1, g) = mgr_Get m st k
      in case g of
           None \<Rightarrow> (st1, Some (not_found k))
         | Some sb \<Rightarrow>
             (let (w2, e) = dr_Stop (mg_driver m) (ms_world st1) k
              in case e of
                   Some er \<Rightarrow> (st1\<lparr>ms_world := w2\<rparr>, Some (GoWrap ''failed to stop sandbox'' er))
                 | None \<Rightarrow>
                     (let (st3, _, er) = upsertSandbox m (st1\<lparr>ms_world := w2\<rparr>)
                            (sb\<lparr>sb_Status := StatusStopped, sb_HealthStatus := ''stopped'',
                                sb_UpdatedAt := unix (mg_now m w2)\<rparr>)
                      in case er of
                           Some x \<Rightarrow> (st3, Some x)
                         | None \<Rightarrow> (st3\<lparr>ms_world := mgr_publish m
                              (manager_event ''sandbox.stopped'' ''manager'' k ''sandbox stopped'')
                              (ms_world st3)\<rparr>, None))))"

definition mgr_Destroy ::
  "('s, 'w) manager \<Rightarrow> ('s, 'w) mgr_state \<Rightarrow> string \<Rightarrow> ('s, 'w) mgr_state \<times> go_error option" where
  "mgr_Destroy m st k =
     (let (w1, e) = dr_Destroy (mg_driver m) (ms_world st) k
      in case e of
           Some er \<Rightarrow> (st\<lparr>ms_world := w1\<rparr>, Some (GoWrap ''failed to destroy sandbox'' er))
         | None \<Rightarrow>
             (let (s', er) = ss_Delete (mg_store m) (ms_store st) k;
                  st2 = st\<lparr>ms_world := w1, ms_snapshots := removeAll k (ms_snapshots st), ms_store := s'\<rparr>
              in case er of
                   Some x \<Rightarrow> (st2, Some (GoWrap ''failed to delete sandbox metadata'' x))
                 | None \<Rightarrow> (st2\<lparr>ms_world := mgr_publish m
                      (manager_event ''sandbox.destroyed'' ''manager'' k ''sandbox destroyed'') w1\<rparr>, None)))"

text \<open>Refresh one sandbox and store what was learnt; a failed refresh or write keeps the old view.\<close>

definition refresh_stored ::
  "('s, 'w) manager \<Rightarrow> ('s, 'w) mgr_state \<Rightarrow> sandbox \<Rightarrow> ('s, 'w) mgr_state \<times> sandbox" where
  "refresh_stored m st sb =
     (let (st1, r) = refreshSandboxStatus m st sb
      in case r of
           Inl _ \<Rightarrow> (st1, sb)
         | Inr f \<Rightarrow> (let (st2, f', _) = upsertSandbox m st1 f in (st2, f')))"

fun refresh_all ::
  "('s, 'w) manager \<Rightarrow> ('s, 'w) mgr_state \<Rightarrow> sandbox list \<Rightarrow> ('s, 'w) mgr_state \<times> sandbox list" where
  "refresh_all m st [] = (st, [])"
| "refresh_all m st (sb # sbs) =
     (let (st1, sb') = refresh_stored m st sb;
          (st2, out) = refresh_all m st1 sbs
      in (st2, sb' # out))"

definition mgr_List ::
  "('s, 'w) manager \<Rightarrow> ('s, 'w) mgr_state \<Rightarrow> ('s, 'w) mgr_state \<times> (go_error + sandbox list)" where
  "mgr_List m st =
     (let (s1, r) = ss_List (mg_store m) (ms_store st);
          st1 = st\<lparr>ms_store := s1\<rparr>
      in case r of
           Inl e \<Rightarrow> (st1, Inl e)
         | Inr items \<Rightarrow> (let (st2, out) = refresh_all m st1 items in (st2, Inr out)))"

definition mgr_Inspect ::
  "('s, 'w) manager \<Rightarrow> ('s, 'w) mgr_state \<Rightarrow> string \<Rightarrow> ('s, 'w) mgr_state \<times> (go_error + sandbox)" where
  "mgr_Inspect m st k =
     (let (st1, g) = mgr_Get m st k
      in case g of
           None \<Rightarrow> (st1, Inl (not_found k))
         | Some sb \<Rightarrow> (let (st2, sb') = refresh_stored m st1 sb in (st2, Inr sb')))"

definition mgr_Touch ::
  "('s, 'w) manager \<Rightarrow> ('s, 'w) mgr_state \<Rightarrow> string \<Rightarrow> ('s, 'w) mgr_state \<times> go_error option" where
  "mgr_Touch m st k =
     (let (st1, g) = mgr_Get m st k
      in case g of
           None \<Rightarrow> (st1, Some (not_found k))
         | Some sb \<Rightarrow>
             (let (st2, _, er) = upsertSandbox m st1 (touchLifecycle sb (mg_now m (ms_world st1)))
              in (st2, er)))"

definition mgr_Exec ::
  "('s, 'w) manager \<Rightarrow> ('s, 'w) mgr_state \<Rightarrow> string \<Rightarrow> exec_command
   \<Rightarrow> ('s, 'w) mgr_state \<times> (go_error + exec_result)" where
  "mgr_Exec m st k cmd =
     (let (w1, r) = dr_Exec (mg_driver m) (ms_world st) k cmd;
          st1 = st\<lparr>ms_world := w1\<rparr>
      in case r of
           Inl e \<Rightarrow> (st1, Inl e)
         | Inr x \<Rightarrow> (fst (mgr_Touch m st1 k), Inr x))"

definition CreatePlaceholder ::
  "('s, 'w) manager \<Rightarrow> ('s, 'w) mgr_state \<Rightarrow> sandbox \<Rightarrow> ('s, 'w) mgr_state \<times> go_error option" where
  "CreatePlaceholder m st sb = (let (st', _, e) = upsertSandbox m st sb in (st', e))"

fun reap ::
  "('s, 'w) manager \<Rightarrow> ('s, 'w) mgr_state \<Rightarrow> sandbox list \<Rightarrow> int
   \<Rightarrow> ('s, 'w) mgr_state \<times> int \<times> go_error option" where
  "reap m st [] reaped = (st, reaped, None)"
| "reap m st (sb # sbs) reaped =
     (let (st1, e) = mgr_Destroy m st (sb_ID sb)
      in case e of
           Some er \<Rightarrow> (st1, reaped, Some er)
         | None \<Rightarrow>
             reap m (st1\<lparr>ms_world := mgr_publish m
                 (manager_event ''sandbox.reaped'' ''reaper'' (sb_ID sb) ''sandbox destroyed by TTL reaper'')
                 (ms_world st1)\<rparr>) sbs (reaped + 1))"

definition ReapExpired ::
  "('s, 'w) manager \<Rightarrow> ('s, 'w) mgr_state \<Rightarrow> int \<Rightarrow> ('s, 'w) mgr_state \<times> int \<times> go_error option" where
  "ReapExpired m st limit =
     (let (s1, r) = ss_ListExpired (mg_store m) (ms_store st) (mg_now m (ms_world st)) limit;
          st1 = st\<lparr>ms_store := s1\<rparr>
      in case r of
           Inl e \<Rightarrow> (st1, 0, Some e)
         | Inr items \<Rightarrow> reap m st1 items 0)"

section \<open>The contract of a sandbox store\<close>

text \<open>
  What the manager relies on: \<open>view\<close> is the map from ids to sandboxes a store holds. An operation
  that reports an error has not changed it, reads never change it, and a listing of expired
  sandboxes holds only stored sandboxes that have expired and are not destroyed.
\<close>

definition expired :: "int \<Rightarrow> sandbox \<Rightarrow> bool" where
  "expired before sb \<longleftrightarrow> sb_ExpiresAt sb \<noteq> 0 \<and> sb_ExpiresAt sb \<le> unix before \<and> sb_Status sb \<noteq> StatusDestroyed"

locale sandbox_store =
  fixes ops :: "'s sandbox_ops"
    and view :: "'s \<Rightarrow> string \<Rightarrow> sandbox option"
    and s_inv :: "'s \<Rightarrow> bool"
  assumes view_id: "s_inv s \<Longrightarrow> view s k = Some sb \<Longrightarrow> sb_ID sb = k"
    and upsert_ok: "s_inv s \<Longrightarrow> ss_Upsert ops s sb = (s', None) \<Longrightarrow> view s' = (view s)(sb_ID sb \<mapsto> sb)"
    and upsert_failed: "s_inv s \<Longrightarrow> ss_Upsert ops s sb = (s', Some e) \<Longrightarrow> view s' = view s"
    and upsert_inv: "s_inv s \<Longrightarrow> s_inv (fst (ss_Upsert ops s sb))"
    and get_view: "s_inv s \<Longrightarrow> view (fst (ss_Get ops s k)) = view s \<and> s_inv (fst (ss_Get ops s k))"
    and get_ok: "s_inv s \<Longrightarrow> snd (ss_Get ops s k) = Inr r \<Longrightarrow> r = view s k"
    and delete_ok: "s_inv s \<Longrightarrow> ss_Delete ops s k = (s', None) \<Longrightarrow> view s' = (view s)(k := None)"
    and delete_failed: "s_inv s \<Longrightarrow> ss_Delete ops s k = (s', Some e) \<Longrightarrow> view s' = view s"
    and delete_inv: "s_inv s \<Longrightarrow> s_inv (fst (ss_Delete ops s k))"
    and list_view: "s_inv s \<Longrightarrow> view (fst (ss_List ops s)) = view s \<and> s_inv (fst (ss_List ops s))"
    and list_ok: "s_inv s \<Longrightarrow> snd (ss_List ops s) = Inr xs \<Longrightarrow>
          set xs = ran (view s) \<and> sorted_wrt (<) (map sb_ID xs)"
    and expired_view: "s_inv s \<Longrightarrow>
          view (fst (ss_ListExpired ops s t n)) = view s \<and> s_inv (fst (ss_ListExpired ops s t n))"
    and expired_ok: "s_inv s \<Longrightarrow> snd (ss_ListExpired ops s t n) = Inr xs \<Longrightarrow>
          (\<forall>sb \<in> set xs. view s (sb_ID sb) = Some sb \<and> expired t sb) \<and> distinct (map sb_ID xs) \<and>
          (0 < n \<longrightarrow> int (length xs) \<le> n) \<and>
          (n \<le> 0 \<longrightarrow> (\<forall>k sb. view s k = Some sb \<longrightarrow> 0 < sb_ExpiresAt sb \<longrightarrow> expired t sb \<longrightarrow> sb \<in> set xs))"
begin

lemma destroy_view:
  assumes "s_inv (ms_store st)" and "mg_store m = ops" and "mgr_Destroy m st k = (st', err)"
  shows "s_inv (ms_store st')"
    and "view (ms_store st') = (if err = None then (view (ms_store st))(k := None) else view (ms_store st))"
proof -
  obtain w1 e where d: "dr_Destroy (mg_driver m) (ms_world st) k = (w1, e)" by fastforce
  obtain s' er where x: "ss_Delete ops (ms_store st) k = (s', er)" by fastforce
  have inv: "s_inv s'" using delete_inv [OF assms(1), of k] x by simp
  have v: "view s' = (if er = None then (view (ms_store st))(k := None) else view (ms_store st))"
    using delete_ok [OF assms(1), of k s'] delete_failed [OF assms(1), of k s'] x by (cases er) auto
  show "s_inv (ms_store st')" using assms d x inv
    by (auto simp: mgr_Destroy_def Let_def split: option.splits)
  show "view (ms_store st') = (if err = None then (view (ms_store st))(k := None) else view (ms_store st))"
    using assms d x v by (auto simp: mgr_Destroy_def Let_def split: option.splits)
qed

text \<open>
  The reaping loop destroys the listed sandboxes in order and stops at the first error: the first
  \<open>n\<close> of them are gone, where \<open>n\<close> is the number it returns, and nothing else has changed.
\<close>

lemma reap_view:
  assumes "s_inv (ms_store st)" and "mg_store m = ops" and "reap m st xs r = (st', n, err)"
  shows "s_inv (ms_store st') \<and> r \<le> n \<and> n \<le> r + int (length xs) \<and>
     view (ms_store st') = view (ms_store st) |` (- sb_ID ` set (take (nat (n - r)) xs)) \<and>
     (err = None \<longrightarrow> n = r + int (length xs))"
  using assms
proof (induction xs arbitrary: st r)
  case Nil
  then show ?case by simp
next
  case (Cons sb xs)
  obtain st1 e where d: "mgr_Destroy m st (sb_ID sb) = (st1, e)" by fastforce
  note dv = destroy_view [OF Cons.prems(1,2) d]
  show ?case
  proof (cases e)
    case (Some er)
    with Cons.prems d dv show ?thesis by auto
  next
    case None
    let ?st2 = "st1\<lparr>ms_world := mgr_publish m
        (manager_event ''sandbox.reaped'' ''reaper'' (sb_ID sb) ''sandbox destroyed by TTL reaper'') (ms_world st1)\<rparr>"
    have "reap m ?st2 xs (r + 1) = (st', n, err)" using Cons.prems(3) d None by simp
    note IH0 = Cons.IH [OF _ Cons.prems(2) this]
    have inv2: "s_inv (ms_store ?st2)" and view2: "view (ms_store ?st2) = (view (ms_store st))(sb_ID sb := None)"
      using dv None by simp_all
    from IH0 [OF inv2, unfolded view2]
    have IH: "s_inv (ms_store st')" "r + 1 \<le> n" "n \<le> r + 1 + int (length xs)"
      "view (ms_store st') = (view (ms_store st))(sb_ID sb := None) |` (- sb_ID ` set (take (nat (n - (r + 1))) xs))"
      "err = None \<longrightarrow> n = r + 1 + int (length xs)" by blast+
    have "nat (n - r) = Suc (nat (n - (r + 1)))" using IH(2) by simp
    with IH show ?thesis by (auto simp: restrict_map_def fun_eq_iff)
  qed
qed

lemma reap_expired_view:
  assumes "s_inv (ms_store st)" and "mg_store m = ops" and "ReapExpired m st limit = (st', n, err)"
  shows "s_inv (ms_store st') \<and> 0 \<le> n \<and> (0 < limit \<longrightarrow> n \<le> limit) \<and>
    (\<forall>k. view (ms_store st') k = view (ms_store st) k \<or>
         view (ms_store st') k = None \<and> (\<exists>sb. view (ms_store st) k = Some sb \<and> expired (mg_now m (ms_world st)) sb)) \<and>
    (err = None \<and> limit \<le> 0 \<longrightarrow>
       (\<forall>k sb. view (ms_store st') k = Some sb \<longrightarrow> 0 < sb_ExpiresAt sb \<longrightarrow> \<not> expired (mg_now m (ms_world st)) sb))"
proof -
  obtain s1 r where l: "ss_ListExpired ops (ms_store st) (mg_now m (ms_world st)) limit = (s1, r)" by fastforce
  have s1: "view s1 = view (ms_store st)" "s_inv s1"
    using expired_view [OF assms(1), of "mg_now m (ms_world st)" limit] l by simp_all
  show ?thesis
  proof (cases r)
    case (Inl e)
    with assms l s1 show ?thesis by (auto simp: ReapExpired_def)
  next
    case (Inr xs)
    with assms l have rp: "reap m (st\<lparr>ms_store := s1\<rparr>) xs 0 = (st', n, err)" by (simp add: ReapExpired_def)
    from reap_view [OF _ assms(2) rp] s1 have v: "s_inv (ms_store st')" "0 \<le> n" "n \<le> int (length xs)"
      "view (ms_store st') = view (ms_store st) |` (- sb_ID ` set (take (nat n) xs))"
      "err = None \<longrightarrow> n = int (length xs)" by simp_all
    from expired_ok [OF assms(1), of "mg_now m (ms_world st)" limit xs] l Inr have
      x: "\<forall>sb \<in> set xs. view (ms_store st) (sb_ID sb) = Some sb \<and> expired (mg_now m (ms_world st)) sb"
      "0 < limit \<longrightarrow> int (length xs) \<le> limit"
      "limit \<le> 0 \<longrightarrow> (\<forall>k sb. view (ms_store st) k = Some sb \<longrightarrow> 0 < sb_ExpiresAt sb \<longrightarrow>
         expired (mg_now m (ms_world st)) sb \<longrightarrow> sb \<in> set xs)" by auto
    have gone: "view (ms_store st') k = None" if "k \<in> sb_ID ` set (take (nat n) xs)" for k
      using v(4) that by simp
    have kept: "view (ms_store st') k = view (ms_store st) k" if "k \<notin> sb_ID ` set (take (nat n) xs)" for k
      using v(4) that by simp
    have "\<exists>sb. view (ms_store st) k = Some sb \<and> expired (mg_now m (ms_world st)) sb"
      if "k \<in> sb_ID ` set (take (nat n) xs)" for k
      using that x(1) by (auto dest: in_set_takeD)
    with gone kept have c1: "view (ms_store st') k = view (ms_store st) k \<or>
         view (ms_store st') k = None \<and> (\<exists>sb. view (ms_store st) k = Some sb \<and> expired (mg_now m (ms_world st)) sb)" for k
      by blast
    have c2: "\<not> expired (mg_now m (ms_world st)) sb"
      if "err = None" "limit \<le> 0" "view (ms_store st') k = Some sb" "0 < sb_ExpiresAt sb" for k sb
    proof
      assume ex: "expired (mg_now m (ms_world st)) sb"
      from that(1) v(5) have all: "take (nat n) xs = xs" by simp
      from that(3) c1 [of k] have k: "view (ms_store st) k = Some sb" by auto
      with x(3) that(2,4) ex have "sb \<in> set xs" by blast
      with gone [of k] view_id [OF assms(1) k] all that(3) show False by force
    qed
    have "0 < limit \<longrightarrow> n \<le> limit" using v(3) x(2) by linarith
    with v(1,2) c1 c2 show ?thesis by blast
  qed
qed

end

text \<open>The operations of the manager on one sandbox.\<close>

datatype mgr_op = OpStart string | OpStop string | OpTouch string | OpInspect string | OpDestroy string
  | OpExec string exec_command

fun op_target :: "mgr_op \<Rightarrow> string" where
  "op_target (OpStart k) = k"
| "op_target (OpStop k) = k"
| "op_target (OpTouch k) = k"
| "op_target (OpInspect k) = k"
| "op_target (OpDestroy k) = k"
| "op_target (OpExec k c) = k"

fun mgr_step :: "('s, 'w) manager \<Rightarrow> ('s, 'w) mgr_state \<Rightarrow> mgr_op \<Rightarrow> ('s, 'w) mgr_state" where
  "mgr_step m st (OpStart k) = fst (mgr_Start m st k)"
| "mgr_step m st (OpStop k) = fst (mgr_Stop m st k)"
| "mgr_step m st (OpTouch k) = fst (mgr_Touch m st k)"
| "mgr_step m st (OpInspect k) = fst (mgr_Inspect m st k)"
| "mgr_step m st (OpDestroy k) = fst (mgr_Destroy m st k)"
| "mgr_step m st (OpExec k c) = fst (mgr_Exec m st k c)"

lemma touchLifecycle_ID [simp]: "sb_ID (touchLifecycle sb now) = sb_ID sb"
  by (simp add: touchLifecycle_def)

lemma mergeSandboxState_ID [simp]: "sb_ID (mergeSandboxState sb src) = sb_ID sb"
  by (simp add: mergeSandboxState_def split: option.splits)

lemma created_sandbox_ID [simp]: "sb_ID (created_sandbox m w c sb) = sb_ID sb"
  by (simp add: created_sandbox_def Let_def)

lemma refreshSandboxStatus_store:
  assumes "refreshSandboxStatus m st sb = (st', r)"
  shows "ms_store st' = ms_store st" and "r = Inr f \<Longrightarrow> sb_ID f = sb_ID sb"
  using assms
  by (auto simp: refreshSandboxStatus_def Let_def split: prod.splits sum.splits)

context sandbox_store
begin

definition changes_only :: "string \<Rightarrow> ('s, 'w) mgr_state \<Rightarrow> ('s, 'w) mgr_state \<Rightarrow> bool" where
  "changes_only k st st' \<longleftrightarrow> s_inv (ms_store st') \<and> (\<forall>j. j \<noteq> k \<longrightarrow> view (ms_store st') j = view (ms_store st) j)"

lemma changes_only_world [simp]:
  "changes_only k (st\<lparr>ms_world := w\<rparr>) st' = changes_only k st st'"
  "changes_only k st (st'\<lparr>ms_world := w\<rparr>) = changes_only k st st'"
  by (simp_all add: changes_only_def)

lemma changes_only_trans: "changes_only k a b \<Longrightarrow> changes_only k b c \<Longrightarrow> changes_only k a c"
  by (simp add: changes_only_def)

lemma upsert_view:
  assumes "s_inv (ms_store st)" and "mg_store m = ops" and "upsertSandbox m st sb = (st', sb', e)"
  shows "s_inv (ms_store st')" and "sb_ID sb' = sb_ID sb" and "ms_world st' = ms_world st"
    and "view (ms_store st') = (if e = None then (view (ms_store st))(sb_ID sb \<mapsto> sb') else view (ms_store st))"
proof -
  obtain s1 er where u: "ss_Upsert ops (ms_store st) sb' = (s1, er)" by fastforce
  from assms u have eq: "st' = st\<lparr>ms_store := s1\<rparr>" "e = er" and i: "sb_ID sb' = sb_ID sb"
    by (auto simp: upsertSandbox_def Let_def split: prod.splits)
  show "sb_ID sb' = sb_ID sb" by (rule i)
  show "ms_world st' = ms_world st" using eq by simp
  show "s_inv (ms_store st')" using upsert_inv [OF assms(1), of sb'] u eq by simp
  show "view (ms_store st') = (if e = None then (view (ms_store st))(sb_ID sb \<mapsto> sb') else view (ms_store st))"
    using upsert_ok [OF assms(1), of sb' s1] upsert_failed [OF assms(1), of sb' s1] u eq i by (cases er) auto
qed

lemma upsert_only:
  assumes "s_inv (ms_store st)" and "mg_store m = ops" and "upsertSandbox m st sb = (st', sb', e)"
    and "sb_ID sb = k"
  shows "changes_only k st st'"
  using upsert_view [OF assms(1-3)] assms(4) by (simp add: changes_only_def)

lemma Get_view:
  assumes "s_inv (ms_store st)" and "mg_store m = ops" and "mgr_Get m st k = (st', g)"
  shows "s_inv (ms_store st')" and "view (ms_store st') = view (ms_store st)" and "ms_world st' = ms_world st"
    and "g = Some sb \<Longrightarrow> view (ms_store st) k = Some sb \<and> sb_ID sb = k"
proof -
  obtain s1 r where u: "ss_Get ops (ms_store st) k = (s1, r)" by fastforce
  with assms have eq: "st' = st\<lparr>ms_store := s1\<rparr>" "g = (case r of Inl _ \<Rightarrow> None | Inr x \<Rightarrow> x)"
    by (simp_all add: mgr_Get_def)
  from get_view [OF assms(1), of k] u eq show "s_inv (ms_store st')"
    "view (ms_store st') = view (ms_store st)" "ms_world st' = ms_world st" by simp_all
  assume "g = Some sb"
  with eq have "r = Inr (Some sb)" by (auto split: sum.splits)
  with get_ok [OF assms(1), of k] u have "view (ms_store st) k = Some sb" by force
  with view_id [OF assms(1)] show "view (ms_store st) k = Some sb \<and> sb_ID sb = k" by blast
qed

lemma Get_only:
  assumes "s_inv (ms_store st)" and "mg_store m = ops" and "mgr_Get m st k = (st', g)"
  shows "changes_only k st st'"
  using Get_view(1,2) [OF assms] by (simp add: changes_only_def)

lemma Touch_only:
  assumes "s_inv (ms_store st)" and "mg_store m = ops"
  shows "changes_only k st (fst (mgr_Touch m st k))"
proof -
  obtain st1 g where g: "mgr_Get m st k = (st1, g)" by fastforce
  note G = Get_view [OF assms g]
  have 0: "changes_only k st st1" by (rule Get_only [OF assms g])
  show ?thesis
  proof (cases g)
    case None
    with g 0 show ?thesis by (simp add: mgr_Touch_def)
  next
    case (Some sb)
    obtain st2 sb' e where u: "upsertSandbox m st1 (touchLifecycle sb (mg_now m (ms_world st1))) = (st2, sb', e)"
      by (metis prod_cases3)
    from upsert_only [OF G(1) assms(2) u, of k] G(4) Some have "changes_only k st1 st2" by simp
    with 0 Some g u show ?thesis by (auto simp: mgr_Touch_def intro: changes_only_trans)
  qed
qed

lemma refresh_stored_only:
  assumes "s_inv (ms_store st)" and "mg_store m = ops" and "sb_ID sb = k"
  shows "changes_only k st (fst (refresh_stored m st sb))"
proof -
  obtain st1 r where r: "refreshSandboxStatus m st sb = (st1, r)" by fastforce
  note R = refreshSandboxStatus_store [OF r]
  have inv1: "s_inv (ms_store st1)" and 0: "changes_only k st st1"
    using R(1) assms(1) by (simp_all add: changes_only_def)
  show ?thesis
  proof (cases r)
    case (Inl e)
    with r 0 show ?thesis by (simp add: refresh_stored_def)
  next
    case (Inr f)
    obtain st2 f' e where u: "upsertSandbox m st1 f = (st2, f', e)" by (metis prod_cases3)
    from upsert_only [OF inv1 assms(2) u, of k] R(2) [OF Inr] assms(3) have "changes_only k st1 st2" by simp
    with 0 Inr r u show ?thesis by (auto simp: refresh_stored_def intro: changes_only_trans)
  qed
qed

lemma Inspect_only:
  assumes "s_inv (ms_store st)" and "mg_store m = ops"
  shows "changes_only k st (fst (mgr_Inspect m st k))"
proof -
  obtain st1 g where g: "mgr_Get m st k = (st1, g)" by fastforce
  note G = Get_view [OF assms g] and 0 = Get_only [OF assms g]
  show ?thesis
  proof (cases g)
    case None
    with g 0 show ?thesis by (simp add: mgr_Inspect_def)
  next
    case (Some sb)
    with refresh_stored_only [OF G(1) assms(2), of sb k] G(4) 0 g show ?thesis
      by (auto simp: mgr_Inspect_def Let_def case_prod_beta intro: changes_only_trans)
  qed
qed

lemma Stop_only:
  assumes "s_inv (ms_store st)" and "mg_store m = ops"
  shows "changes_only k st (fst (mgr_Stop m st k))"
proof -
  obtain st1 g where g: "mgr_Get m st k = (st1, g)" by fastforce
  note G = Get_view [OF assms g] and 0 = Get_only [OF assms g]
  show ?thesis
  proof (cases g)
    case None
    with g 0 show ?thesis by (simp add: mgr_Stop_def)
  next
    case (Some sb)
    obtain w2 e where d: "dr_Stop (mg_driver m) (ms_world st1) k = (w2, e)" by fastforce
    let ?sb = "sb\<lparr>sb_Status := StatusStopped, sb_HealthStatus := ''stopped'', sb_UpdatedAt := unix (mg_now m w2)\<rparr>"
    obtain st3 sb' er where u: "upsertSandbox m (st1\<lparr>ms_world := w2\<rparr>) ?sb = (st3, sb', er)" by (metis prod_cases3)
    from upsert_only [OF _ assms(2) u, of k] G(1,4) Some have "changes_only k st1 st3" by simp
    with 0 Some g d u show ?thesis
      by (auto simp: mgr_Stop_def Let_def intro: changes_only_trans split: option.splits)
  qed
qed

lemma Start_only:
  assumes "s_inv (ms_store st)" and "mg_store m = ops"
  shows "changes_only k st (fst (mgr_Start m st k))"
proof -
  obtain st1 g where g: "mgr_Get m st k = (st1, g)" by fastforce
  note G = Get_view [OF assms g] and 0 = Get_only [OF assms g]
  show ?thesis
  proof (cases g)
    case None
    with g 0 show ?thesis by (simp add: mgr_Start_def)
  next
    case (Some sb)
    obtain w2 e where d: "dr_Start (mg_driver m) (ms_world st1) k = (w2, e)" by fastforce
    obtain st3 r where r: "refreshSandboxStatus m (st1\<lparr>ms_world := w2\<rparr>) sb = (st3, r)" by fastforce
    note R = refreshSandboxStatus_store [OF r]
    from R(1) G(1) have inv3: "s_inv (ms_store st3)" and 1: "changes_only k st1 st3"
      by (simp_all add: changes_only_def)
    have 2: "changes_only k st1 (fst (upsertSandbox m st3 (touchLifecycle x (mg_now m (ms_world st3)))))"
      if "sb_ID x = k" for x
      using upsert_only [OF inv3 assms(2), of "touchLifecycle x (mg_now m (ms_world st3))" _ _ _ k] that 1
      by (metis changes_only_trans fst_conv prod_cases3 touchLifecycle_ID)
    show ?thesis
    proof (cases "e = None \<and> (\<exists>f. r = Inr f)")
      case False
      with 0 1 Some g d r show ?thesis
        by (auto simp: mgr_Start_def intro: changes_only_trans split: option.splits sum.splits)
    next
      case True
      then obtain f where f: "e = None" "r = Inr f" by blast
      then have "sb_ID f = k" using R(2) G(4) Some by simp
      with 0 2 [of f] 2 [of "f\<lparr>sb_HealthStatus := ''healthy''\<rparr>"] 2 [of "f\<lparr>sb_HealthStatus := ''starting''\<rparr>"] f Some g d r
      show ?thesis
        by (auto simp: mgr_Start_def Let_def case_prod_beta intro: changes_only_trans split: option.splits)
    qed
  qed
qed

lemma step_only:
  assumes "s_inv (ms_store st)" and "mg_store m = ops"
  shows "changes_only (op_target op) st (mgr_step m st op)"
proof (cases op)
  case (OpDestroy k)
  obtain st' e where "mgr_Destroy m st k = (st', e)" by fastforce
  with destroy_view [OF assms this] OpDestroy show ?thesis by (simp add: changes_only_def)
next
  case (OpExec k c)
  obtain w1 r where d: "dr_Exec (mg_driver m) (ms_world st) k c = (w1, r)" by fastforce
  have "changes_only k st (fst (mgr_Touch m (st\<lparr>ms_world := w1\<rparr>) k))"
    using Touch_only [of "st\<lparr>ms_world := w1\<rparr>" m k] assms by simp
  moreover have "changes_only k st st" using assms by (simp add: changes_only_def)
  ultimately show ?thesis using OpExec d by (auto simp: mgr_Exec_def Let_def split: sum.splits)
qed (simp_all add: assms Touch_only Inspect_only Stop_only Start_only)

lemma create_view:
  assumes "s_inv (ms_store st)" and "mg_store m = ops" and "mgr_Create m st c = (st', r)"
  shows "s_inv (ms_store st')"
    and "r = Inl e \<Longrightarrow> view (ms_store st') = view (ms_store st)"
    and "r = Inr sb \<Longrightarrow> view (ms_store st') = (view (ms_store st))(sb_ID sb \<mapsto> sb)"
proof -
  let ?c = "applySandboxDefaults (mg_abs m) c"
  obtain w1 d where d: "dr_Create (mg_driver m) (ms_world st) ?c = (w1, d)" by fastforce
  have "s_inv (ms_store st') \<and> (case r of Inl e \<Rightarrow> view (ms_store st') = view (ms_store st)
      | Inr sb \<Rightarrow> view (ms_store st') = (view (ms_store st))(sb_ID sb \<mapsto> sb))"
  proof (cases d)
    case (Inl e)
    with assms d show ?thesis by (auto simp: mgr_Create_def)
  next
    case (Inr sb0)
    obtain st2 sb1 er where u: "upsertSandbox m (st\<lparr>ms_world := w1\<rparr>) (created_sandbox m w1 ?c sb0) = (st2, sb1, er)"
      by (metis prod_cases3)
    note U = upsert_view [OF _ assms(2) u]
    from assms(1) U(1,2,4) have "s_inv (ms_store st2)" "sb_ID sb1 = sb_ID sb0"
      "view (ms_store st2) = (if er = None then (view (ms_store st))(sb_ID sb0 \<mapsto> sb1) else view (ms_store st))"
      by simp_all
    with assms d Inr u show ?thesis
      by (auto simp: mgr_Create_def Let_def split: option.splits if_splits)
  qed
  then show "s_inv (ms_store st')" "r = Inl e \<Longrightarrow> view (ms_store st') = view (ms_store st)"
    "r = Inr sb \<Longrightarrow> view (ms_store st') = (view (ms_store st))(sb_ID sb \<mapsto> sb)" by (auto split: sum.splits)
qed

end


section \<open>The in-memory store keeps the contract\<close>

definition mem_store_inv :: "memory_store \<Rightarrow> bool" where
  "mem_store_inv s \<longleftrightarrow> distinct (map fst s) \<and> (\<forall>(k, sb) \<in> set s. sb_ID sb = k)"

lemma mem_store_ids: "mem_store_inv s \<Longrightarrow> map sb_ID (map snd s) = map fst s"
  by (auto simp: mem_store_inv_def)

lemma mem_store_get: "mem_store_inv s \<Longrightarrow> sb \<in> snd ` set s \<Longrightarrow> map_of s (sb_ID sb) = Some sb"
  by (auto simp: mem_store_inv_def)

lemma mem_store_inv_map_of: "mem_store_inv s \<longleftrightarrow> distinct (map fst s) \<and> (\<forall>k sb. map_of s k = Some sb \<longrightarrow> sb_ID sb = k)"
  by (auto simp: mem_store_inv_def dest: map_of_SomeD)

lemma mem_store_inv_update: "mem_store_inv s \<Longrightarrow> mem_store_inv (AList.update (sb_ID sb) sb s)"
  by (auto simp: mem_store_inv_map_of distinct_update AList.update_conv split: if_splits)

lemma unix_le: "x \<le> unix t \<longleftrightarrow> x * 1000000000 \<le> t"
proof -
  have "t = 1000000000 * (t div 1000000000) + t mod 1000000000" by simp
  moreover have "0 \<le> t mod 1000000000" "t mod 1000000000 < 1000000000" by simp_all
  ultimately show ?thesis unfolding unix_def by linarith
qed

lemma sorted_distinct_lt: "sorted xs \<Longrightarrow> distinct xs \<Longrightarrow> sorted_wrt (<) (xs :: string list)"
  by (simp add: strict_sorted_iff)

lemma distinct_map_sort_key: "distinct (map f (sort_key g xs)) = distinct (map f xs)"
  by (simp add: distinct_map)

lemma mem_ListExpired_facts:
  assumes "mem_store_inv s" and "snd (mem_ListExpired s t n) = Inr xs"
  shows "(\<forall>sb \<in> set xs. map_of s (sb_ID sb) = Some sb \<and> expired t sb) \<and> distinct (map sb_ID xs) \<and>
     (0 < n \<longrightarrow> int (length xs) \<le> n) \<and>
     (n \<le> 0 \<longrightarrow> (\<forall>k sb. map_of s k = Some sb \<longrightarrow> 0 < sb_ExpiresAt sb \<longrightarrow> expired t sb \<longrightarrow> sb \<in> set xs))"
proof -
  define all where "all = sort_key sb_ExpiresAt
      (filter (\<lambda>sb. \<not> (sb_ExpiresAt sb = 0 \<or> sb_ExpiresAt sb * 1000000000 > t) \<and> sb_Status sb \<noteq> StatusDestroyed) (map snd s))"
  have xs: "xs = (if n > 0 \<and> int (length all) > n then take (nat n) all else all)"
    using assms(2) unfolding mem_ListExpired_def Let_def all_def [symmetric] by (simp only: snd_conv sum.inject)
  have mem: "map_of s (sb_ID sb) = Some sb \<and> expired t sb" if "sb \<in> set all" for sb
    using that mem_store_get [OF assms(1), of sb] by (auto simp: all_def expired_def unix_le not_less)
  have "distinct (map sb_ID (map snd s))" using assms(1) unfolding mem_store_ids [OF assms(1)] by (simp add: mem_store_inv_def)
  then have "distinct (map sb_ID all)"
    unfolding all_def distinct_map_sort_key by (rule distinct_map_filter)
  then have d: "distinct (map sb_ID xs)" using xs by (auto simp: take_map [symmetric] distinct_take)
  have compl: "sb \<in> set all" if "map_of s k = Some sb" "expired t sb" for k sb
    using map_of_SomeD [OF that(1)] that(2) by (force simp: all_def expired_def unix_le)
  from xs have sub: "set xs \<subseteq> set all" by (auto dest: in_set_takeD)
  show ?thesis using mem d compl sub xs by auto
qed

interpretation mem_store: sandbox_store memory_ops map_of mem_store_inv
proof (unfold_locales, goal_cases)
  case (1 s k sb)
  then show ?case by (auto simp: mem_store_inv_def dest: map_of_SomeD)
next
  case (2 s sb s')
  then show ?case by (auto simp: memory_ops_def mem_Upsert_def AList.update_conv)
next
  case (3 s sb s' e)
  then show ?case by (simp add: memory_ops_def mem_Upsert_def)
next
  case (4 s sb)
  then show ?case
    using mem_store_inv_update by (simp add: memory_ops_def mem_Upsert_def)
next
  case (5 s k)
  then show ?case by (simp add: memory_ops_def mem_Get_def)
next
  case (6 s k r)
  then show ?case by (simp add: memory_ops_def mem_Get_def)
next
  case (7 s k s')
  then show ?case by (auto simp: memory_ops_def mem_Delete_def AList.delete_conv)
next
  case (8 s k s' e)
  then show ?case by (simp add: memory_ops_def mem_Delete_def)
next
  case (9 s k)
  then show ?case
    by (auto simp: memory_ops_def mem_Delete_def mem_store_inv_map_of distinct_delete AList.delete_conv split: if_splits)
next
  case (10 s)
  then show ?case by (simp add: memory_ops_def mem_List_def)
next
  case (11 s xs)
  then have xs: "xs = sort_key sb_ID (map snd s)" by (simp add: memory_ops_def mem_List_def)
  have "distinct (map sb_ID (map snd s))"
    using 11(1) unfolding mem_store_ids [OF 11(1)] by (simp add: mem_store_inv_def)
  then have "distinct (map sb_ID xs)"
    unfolding xs distinct_map_sort_key .
  moreover have "sorted (map sb_ID xs)" unfolding xs by simp
  moreover have "set xs = ran (map_of s)"
    unfolding xs using 11 by (simp add: mem_store_inv_def ran_distinct)
  ultimately show ?case using sorted_distinct_lt by simp
next
  case (12 s t n)
  then show ?case by (simp add: memory_ops_def mem_ListExpired_def Let_def)
next
  case (13 s t n xs)
  then show ?case using mem_ListExpired_facts by (simp add: memory_ops_def)
qed

section \<open>Properties of the manager\<close>

text \<open>A driver and a manager over the in-memory store for the witnesses; the world is a clock.\<close>

definition demo_driver :: "int driver" where
  "demo_driver = \<lparr>dr_Create = (\<lambda>w c. (w, Inr \<lparr>sb_ID = ''sb-'' @ cf_Image c, sb_ContainerID = ''c'', sb_Driver = [],
       sb_Namespace = [], sb_Config = c, sb_Status = StatusCreating, sb_HealthStatus = [], sb_RPCEndpoint = [],
       sb_RPCPort = 0, sb_CreatedAt = 0, sb_UpdatedAt = 0, sb_LastAccessedAt = 0, sb_ExpiresAt = 0, sb_Labels = [],
       sb_Capabilities = None, sb_Metadata = []\<rparr>)),
     dr_Start = (\<lambda>w k. (w, None)), dr_Stop = (\<lambda>w k. (w, None)), dr_Destroy = (\<lambda>w k. (w, None)),
     dr_Exec = (\<lambda>w k c. (w, Inr \<lparr>xr_ExitCode = 0, xr_Stdout = [], xr_Stderr = [], xr_DurationMs = 0, xr_TimedOut = False\<rparr>)),
     dr_Inspect = (\<lambda>w k. (w, Inl (GoErr ''no inspect''))), dr_Status = (\<lambda>w k. (w, Inr StatusRunning)),
     dr_Capabilities = Some []\<rparr>"

definition demo_manager :: "(memory_store, int) manager" where
  "demo_manager = \<lparr>mg_driver = demo_driver, mg_store = memory_ops, mg_publish = Some (\<lambda>w e. w + 1000000000),
     mg_probe = (\<lambda>w s. False), mg_hydrator = None, mg_now = (\<lambda>w. w), mg_abs = (\<lambda>p. Some (''/abs/'' @ p))\<rparr>"

definition demo_config :: "string \<Rightarrow> int \<Rightarrow> sandbox_config" where
  "demo_config img ttl = \<lparr>cf_Driver = [], cf_Image = img, cf_MountSource = [], cf_MountTarget = [], cf_CPULimit = 0,
     cf_MemoryLimit = 0, cf_DiskLimit = 0, cf_NetworkEnabled = False, cf_AllowedHosts = [],
     cf_NetworkPolicy = \<lparr>np_Mode = NetworkModeUnset, np_AllowHosts = [], np_AllowCIDRs = [], np_AllowPorts = []\<rparr>,
     cf_Namespace = [], cf_Lifecycle = \<lparr>lp_TTLSeconds = ttl, lp_IdleTTLSeconds = 0\<rparr>, cf_User = [], cf_Env = [],
     cf_Labels = [], cf_Packages = []\<rparr>"

definition demo_mgr_state :: "(memory_store, int) mgr_state" where
  "demo_mgr_state = \<lparr>ms_store = NewMemoryStore, ms_world = 7000000000, ms_snapshots = []\<rparr>"

lemma demo_mgr_inv: "mem_store_inv (ms_store demo_mgr_state)" "mg_store demo_manager = memory_ops"
  by (simp_all add: demo_mgr_state_def NewMemoryStore_def mem_store_inv_def demo_manager_def)

text \<open>Two sandboxes, the first of which expires a second after its creation.\<close>

definition demo_two :: "(memory_store, int) mgr_state" where
  "demo_two = fst (mgr_Create demo_manager (fst (mgr_Create demo_manager demo_mgr_state (demo_config ''a'' 1))) (demo_config ''b'' 500))"

lemma demo_two_inv: "mem_store_inv (ms_store demo_two)"
  unfolding demo_two_def
  by (metis demo_mgr_inv mem_store.create_view(1) prod.collapse)

text \<open>
  The reaper destroys only what has expired. \<open>ReapExpired\<close> on the in-memory store leaves
  every sandbox as it was, except that it may remove sandboxes that had a deadline, whose
  deadline has passed and that were not already destroyed; it returns at most the limit, and with
  no limit and no error no expired sandbox with a positive deadline is left.
\<close>

theorem reaper_safe:
  assumes "mem_store_inv (ms_store st)" and "mg_store m = memory_ops" and "ReapExpired m st limit = (st', n, err)"
  shows "0 \<le> n \<and> (0 < limit \<longrightarrow> n \<le> limit) \<and>
    (\<forall>k. map_of (ms_store st') k = map_of (ms_store st) k \<or>
         map_of (ms_store st') k = None \<and>
         (\<exists>sb. map_of (ms_store st) k = Some sb \<and> sb_ExpiresAt sb \<noteq> 0 \<and>
               sb_ExpiresAt sb \<le> unix (mg_now m (ms_world st)) \<and> sb_Status sb \<noteq> StatusDestroyed)) \<and>
    (err = None \<and> limit \<le> 0 \<longrightarrow>
       (\<forall>k sb. map_of (ms_store st') k = Some sb \<longrightarrow> 0 < sb_ExpiresAt sb \<longrightarrow> sb_Status sb \<noteq> StatusDestroyed \<longrightarrow>
          unix (mg_now m (ms_world st)) < sb_ExpiresAt sb))"
proof -
  note v = mem_store.reap_expired_view [OF assms, unfolded expired_def]
  from v have "unix (mg_now m (ms_world st)) < sb_ExpiresAt sb"
    if "err = None" "limit \<le> 0" "map_of (ms_store st') k = Some sb" "0 < sb_ExpiresAt sb"
      "sb_Status sb \<noteq> StatusDestroyed" for k sb
    using that by (metis less_irrefl not_le)
  with v show ?thesis by blast
qed

theorem reaper_safe_witness:
  "map_of (ms_store (fst (ReapExpired demo_manager demo_two 0))) ''sb-a'' = None \<and>
   map_of (ms_store (fst (ReapExpired demo_manager demo_two 0))) ''sb-b'' \<noteq> None"
proof -
  obtain st' n err where run: "ReapExpired demo_manager demo_two 0 = (st', n, err)" by (metis prod_cases3)
  have "snd (snd (ReapExpired demo_manager demo_two 0)) = None" by code_simp
  with run have err: "err = None" by simp
  have a: "map_option sb_ExpiresAt (map_of (ms_store demo_two) ''sb-a'') = Some 8"
    "map_option sb_Status (map_of (ms_store demo_two) ''sb-a'') = Some StatusCreating"
    "map_option sb_ExpiresAt (map_of (ms_store demo_two) ''sb-b'') = Some 508"
    "unix (mg_now demo_manager (ms_world demo_two)) = 9" by code_simp+
  note safe = reaper_safe [OF demo_two_inv demo_mgr_inv(2) run, unfolded a(4)]
  from a(3) obtain sbb where sbb: "map_of (ms_store demo_two) ''sb-b'' = Some sbb" "sb_ExpiresAt sbb = 508" by auto
  have "map_of (ms_store st') ''sb-b'' = Some sbb"
    using conjunct1 [OF conjunct2 [OF conjunct2 [OF safe]], rule_format, of "''sb-b''"] sbb by auto
  moreover have "map_of (ms_store st') ''sb-a'' = None"
  proof (rule ccontr)
    assume "map_of (ms_store st') ''sb-a'' \<noteq> None"
    then obtain sb where sb: "map_of (ms_store st') ''sb-a'' = Some sb" by blast
    then have "map_of (ms_store demo_two) ''sb-a'' = Some sb"
      using conjunct1 [OF conjunct2 [OF conjunct2 [OF safe]], rule_format, of "''sb-a''"] by auto
    with a(1,2) have "sb_ExpiresAt sb = 8" "sb_Status sb = StatusCreating" by auto
    with conjunct2 [OF conjunct2 [OF conjunct2 [OF safe]], rule_format, of "''sb-a''" sb] err sb show False by simp
  qed
  ultimately show ?thesis using run by simp
qed

text \<open>
  Operations on one sandbox do not touch another. Starting, stopping, touching, inspecting,
  destroying or executing in a sandbox, whatever the driver answers, leaves the stored record of
  every other sandbox as it was.
\<close>

theorem manager_isolation:
  assumes "mem_store_inv (ms_store st)" and "mg_store m = memory_ops" and "k \<noteq> op_target op"
  shows "map_of (ms_store (mgr_step m st op)) k = map_of (ms_store st) k"
  using mem_store.step_only [OF assms(1,2), of op] assms(3) by (simp add: mem_store.changes_only_def)

theorem manager_isolation_witness:
  "map_of (ms_store (mgr_step demo_manager demo_two (OpStart ''sb-a''))) ''sb-b'' = map_of (ms_store demo_two) ''sb-b''"
  using manager_isolation [OF demo_two_inv demo_mgr_inv(2), of "''sb-b''" "OpStart ''sb-a''"] by simp

text \<open>
  A created sandbox can be looked up. When \<open>Create\<close> succeeds, the manager's lookup of the
  returned id gives the returned sandbox and every other lookup is as before; when it fails, no
  lookup changes.
\<close>

theorem manager_create_get:
  assumes "mem_store_inv (ms_store st)" and "mg_store m = memory_ops" and "mgr_Create m st c = (st', r)"
  shows "snd (mgr_Get m st' k) =
    (case r of Inl e \<Rightarrow> snd (mgr_Get m st k)
     | Inr sb \<Rightarrow> if k = sb_ID sb then Some sb else snd (mgr_Get m st k))"
proof -
  have g: "snd (mgr_Get m x k) = map_of (ms_store x) k" for x
    by (simp add: mgr_Get_def assms(2) memory_ops_def mem_Get_def)
  show ?thesis using mem_store.create_view(2,3) [OF assms] by (auto simp: g split: sum.splits)
qed

theorem manager_create_get_witness:
  "\<exists>sb. snd (mgr_Create demo_manager demo_mgr_state (demo_config ''a'' 1)) = Inr sb \<and>
     snd (mgr_Get demo_manager (fst (mgr_Create demo_manager demo_mgr_state (demo_config ''a'' 1))) ''sb-a'') = Some sb"
proof -
  obtain st' r where run: "mgr_Create demo_manager demo_mgr_state (demo_config ''a'' 1) = (st', r)" by fastforce
  have "(case snd (mgr_Create demo_manager demo_mgr_state (demo_config ''a'' 1)) of Inl e \<Rightarrow> [] | Inr sb \<Rightarrow> sb_ID sb) = ''sb-a''"
    by code_simp
  with run obtain sb where "r = Inr sb" "sb_ID sb = ''sb-a''" by (auto split: sum.splits)
  with manager_create_get [OF demo_mgr_inv run, of "''sb-a''"] run show ?thesis by simp
qed

section \<open>Deadlines\<close>

lemma duration_of_seconds_exact: "0 \<le> s \<Longrightarrow> s \<le> 9223372036 \<Longrightarrow> duration_of_seconds s = s * 1000000000"
  unfolding duration_of_seconds_def by (rule signed_take_bit_int_eq_self) simp_all

lemma unix_add: "unix (a * 1000000000 + b * 1000000000) = a + b"
proof -
  have "a * 1000000000 + b * 1000000000 = (a + b) * 1000000000" by (simp add: algebra_simps)
  then show ?thesis by (simp only: unix_def nonzero_mult_div_cancel_right)
qed

text \<open>
  The deadline of a sandbox. With time-to-live values up to 9223372036 seconds and a recorded
  last access, the deadline is absent exactly when neither limit is set, and otherwise the earlier
  of creation plus total time-to-live and last access plus idle time-to-live, among those set.
\<close>

theorem expiry_deadline:
  assumes "lp_TTLSeconds p \<le> 9223372036" and "lp_IdleTTLSeconds p \<le> 9223372036" and "0 < accessed"
  shows "computeExpiry now created accessed p =
    (if 0 < lp_TTLSeconds p \<and> 0 < lp_IdleTTLSeconds p
       then min (created + lp_TTLSeconds p) (accessed + lp_IdleTTLSeconds p)
     else if 0 < lp_TTLSeconds p then created + lp_TTLSeconds p
     else if 0 < lp_IdleTTLSeconds p then accessed + lp_IdleTTLSeconds p
     else 0)"
proof -
  have d: "0 < lp_TTLSeconds p \<Longrightarrow> duration_of_seconds (lp_TTLSeconds p) = lp_TTLSeconds p * 1000000000"
    "0 < lp_IdleTTLSeconds p \<Longrightarrow> duration_of_seconds (lp_IdleTTLSeconds p) = lp_IdleTTLSeconds p * 1000000000"
    using assms by (simp_all add: duration_of_seconds_exact)
  show ?thesis using assms(3)
    by (auto simp: computeExpiry_def d unix_add min_def)
qed

theorem expiry_deadline_witness:
  "computeExpiry 0 100 150 \<lparr>lp_TTLSeconds = 60, lp_IdleTTLSeconds = 20\<rparr> = 160"
  using expiry_deadline [of "\<lparr>lp_TTLSeconds = 60, lp_IdleTTLSeconds = 20\<rparr>" 150 0 100] by simp

text \<open>
  The deadline wraps around. One second beyond that range the conversion to a duration overflows
  its 64 bits: a sandbox with a total time-to-live of 9223372037 seconds gets a deadline of that
  many seconds before its creation.
\<close>

theorem expiry_overflow:
  "computeExpiry now created accessed \<lparr>lp_TTLSeconds = 9223372037, lp_IdleTTLSeconds = 0\<rparr> = created - 9223372037"
proof -
  have d: "duration_of_seconds 9223372037 = -9223372036709551616" by code_simp
  show ?thesis by (simp add: computeExpiry_def d unix_def) 
qed

section \<open>Defaults\<close>

text \<open>
  Defaults close the network. After \<open>applySandboxDefaults\<close> the network mode is set; it is full
  only where the configuration enables the network or already says so, and a configuration that
  neither enables the network nor names a mode, host or address range gets none. Applying the
  defaults again changes nothing, provided making a path absolute twice is making it absolute once.
\<close>

theorem defaults_network:
  assumes "\<And>p a. abs_path p = Some a \<Longrightarrow> a \<noteq> [] \<and> abs_path a = Some a"
  shows "np_Mode (cf_NetworkPolicy (applySandboxDefaults abs_path c)) \<noteq> NetworkModeUnset \<and>
    (np_Mode (cf_NetworkPolicy (applySandboxDefaults abs_path c)) = NetworkModeFull \<longrightarrow>
       cf_NetworkEnabled c \<or> np_Mode (cf_NetworkPolicy c) = NetworkModeFull) \<and>
    (\<not> cf_NetworkEnabled c \<and> np_Mode (cf_NetworkPolicy c) = NetworkModeUnset \<and> cf_AllowedHosts c = [] \<and>
     np_AllowHosts (cf_NetworkPolicy c) = [] \<and> np_AllowCIDRs (cf_NetworkPolicy c) = [] \<longrightarrow>
       np_Mode (cf_NetworkPolicy (applySandboxDefaults abs_path c)) = NetworkModeNone) \<and>
    applySandboxDefaults abs_path (applySandboxDefaults abs_path c) = applySandboxDefaults abs_path c"
proof (intro conjI)
  let ?d = "applySandboxDefaults abs_path c"
  show u: "np_Mode (cf_NetworkPolicy ?d) \<noteq> NetworkModeUnset"
    by (simp add: applySandboxDefaults_def default_mode_def Let_def)
  show "np_Mode (cf_NetworkPolicy ?d) = NetworkModeFull \<longrightarrow>
       cf_NetworkEnabled c \<or> np_Mode (cf_NetworkPolicy c) = NetworkModeFull"
    by (auto simp: applySandboxDefaults_def default_mode_def Let_def)
  show "\<not> cf_NetworkEnabled c \<and> np_Mode (cf_NetworkPolicy c) = NetworkModeUnset \<and> cf_AllowedHosts c = [] \<and>
     np_AllowHosts (cf_NetworkPolicy c) = [] \<and> np_AllowCIDRs (cf_NetworkPolicy c) = [] \<longrightarrow>
       np_Mode (cf_NetworkPolicy ?d) = NetworkModeNone"
    by (simp add: applySandboxDefaults_def default_mode_def Let_def)
  have labels: "AList.update ''managed-by'' ''primitivebox'' (cf_Labels ?d) = cf_Labels ?d"
    by (simp add: applySandboxDefaults_def Let_def AList.update_triv)
  have strs: "default_str ''docker'' (cf_Driver ?d) = cf_Driver ?d"
    "default_str ''/workspace'' (cf_MountTarget ?d) = cf_MountTarget ?d"
    "default_str ''1000:1000'' (cf_User ?d) = cf_User ?d"
    "default_str ''default'' (cf_Namespace ?d) = cf_Namespace ?d"
    "cf_CPULimit ?d \<noteq> 0" "cf_MemoryLimit ?d \<noteq> 0"
    by (simp_all add: applySandboxDefaults_def Let_def default_str_def)
  have hosts: "(if cf_AllowedHosts ?d \<noteq> [] \<and> np_AllowHosts (cf_NetworkPolicy ?d) = []
      then cf_AllowedHosts ?d else np_AllowHosts (cf_NetworkPolicy ?d)) = np_AllowHosts (cf_NetworkPolicy ?d)"
    by (simp add: applySandboxDefaults_def Let_def)
  have path: "(if cf_MountSource ?d = [] then [] else case abs_path (cf_MountSource ?d) of
      Some a \<Rightarrow> a | None \<Rightarrow> cf_MountSource ?d) = cf_MountSource ?d"
    using assms by (auto simp: applySandboxDefaults_def Let_def split: option.splits)
  have "applySandboxDefaults abs_path d = d"
    if "AList.update ''managed-by'' ''primitivebox'' (cf_Labels d) = cf_Labels d"
      "default_str ''docker'' (cf_Driver d) = cf_Driver d" "default_str ''/workspace'' (cf_MountTarget d) = cf_MountTarget d"
      "default_str ''1000:1000'' (cf_User d) = cf_User d" "default_str ''default'' (cf_Namespace d) = cf_Namespace d"
      "cf_CPULimit d \<noteq> 0" "cf_MemoryLimit d \<noteq> 0" "np_Mode (cf_NetworkPolicy d) \<noteq> NetworkModeUnset"
      "(if cf_AllowedHosts d \<noteq> [] \<and> np_AllowHosts (cf_NetworkPolicy d) = []
        then cf_AllowedHosts d else np_AllowHosts (cf_NetworkPolicy d)) = np_AllowHosts (cf_NetworkPolicy d)"
      "(if cf_MountSource d = [] then [] else case abs_path (cf_MountSource d) of
        Some a \<Rightarrow> a | None \<Rightarrow> cf_MountSource d) = cf_MountSource d" for d
    using that unfolding applySandboxDefaults_def Let_def by (simp add: default_mode_def)
  from this [OF labels strs u hosts path] show "applySandboxDefaults abs_path ?d = ?d" .
qed

theorem defaults_network_witness:
  "np_Mode (cf_NetworkPolicy (applySandboxDefaults (\<lambda>p. Some ''/w'') (demo_config ''img'' 0))) = NetworkModeNone"
  using defaults_network [of "\<lambda>p. Some ''/w''" "demo_config ''img'' 0"] by (simp add: demo_config_def)

end
