(* ===== verification/Cvr.thy ===== *)
theory Cvr
  imports Json
begin

text \<open>
  The checkpoint-verify-recover layer, \<open>internal/cvr\<close>: intents and checkpoint manifests
  (\<open>manifest.go\<close>), the recovery decision tree (\<open>recovery_tree.go\<close>), the test suite strategy
  (\<open>strategy_test_suite.go\<close>) and the coordinator (\<open>coordinator.go\<close>).

  The code calls an executor, a manifest store and the clock. They act on a world of type
  \<open>'w\<close>, which every operation takes and returns; \<open>cvr_env\<close> packs them. The clock is read
  from the world, so that time passes through the executor's steps.
\<close>

section \<open>manifest.go\<close>

text \<open>Go's string types keep any string: a constant not among the declared ones is \<open>*Other\<close>.\<close>

datatype intent_category =
  IntentMutation | IntentQuery | IntentVerification | IntentRollback | IntentOther string

datatype risk_level = RiskLow | RiskMedium | RiskHigh | RiskOther string

record primitive_intent =
  Category :: intent_category
  Reversible :: bool
  RiskLevel :: risk_level
  AffectedScopes :: "string list"

datatype checkpoint_trigger = TriggerManual | TriggerIntentPolicy | TriggerStrategyForce

datatype checkpoint_reason =
    CheckpointReasonPreEdit | CheckpointReasonPreRefactor | CheckpointReasonPreExec
  | CheckpointReasonPreRestore | CheckpointReasonManual | CheckpointReasonTaskBoundary
  | CheckpointReasonNone

record call_frame =
  cf_PrimitiveID :: string
  cf_Depth :: int
  cf_CalledAtMs :: int

record effect_entry =
  ee_Kind :: string
  ee_Target :: string
  ee_AffectedSymbols :: "string list"
  ee_ReversibleBy :: string

record app_state_snapshot =
  as_AppID :: string
  as_StateKey :: string
  as_StateJSON :: raw
  as_CapturedAtMs :: int

record checkpoint_manifest =
  cm_ID :: string
  cm_CheckpointID :: string
  cm_SandboxID :: string
  cm_PrimitiveID :: string
  cm_Intent :: primitive_intent
  cm_Trigger :: "checkpoint_trigger option"
  cm_CreatedAt :: int
  cm_StateRef :: string
  cm_CommitHash :: string
  cm_Label :: string
  cm_TriggerPrimitive :: string
  cm_TriggerReason :: checkpoint_reason
  cm_TaskID :: string
  cm_TraceID :: string
  cm_StepID :: string
  cm_Attempt :: int
  cm_CallStack :: "call_frame list"
  cm_EffectLog :: "effect_entry list"
  cm_AppStates :: "app_state_snapshot list"
  cm_WorkspaceRoot :: string
  cm_FilesModifiedSincePrev :: "string list"
  cm_PrevCheckpointID :: string
  cm_Corrupted :: bool
  cm_CorruptReason :: string

definition MaxCVRDepth :: int where
  "MaxCVRDepth = 5"

text \<open>The zero values of Go's \<open>PrimitiveIntent\<close> and \<open>CheckpointManifest\<close>.\<close>

definition zero_intent :: primitive_intent where
  "zero_intent =
     \<lparr>Category = IntentOther [], Reversible = False, RiskLevel = RiskOther [], AffectedScopes = []\<rparr>"

definition zero_manifest :: checkpoint_manifest where
  "zero_manifest = \<lparr>
     cm_ID = [], cm_CheckpointID = [], cm_SandboxID = [], cm_PrimitiveID = [],
     cm_Intent = zero_intent, cm_Trigger = None, cm_CreatedAt = 0, cm_StateRef = [],
     cm_CommitHash = [], cm_Label = [], cm_TriggerPrimitive = [],
     cm_TriggerReason = CheckpointReasonNone, cm_TaskID = [], cm_TraceID = [], cm_StepID = [],
     cm_Attempt = 0, cm_CallStack = [], cm_EffectLog = [], cm_AppStates = [],
     cm_WorkspaceRoot = [], cm_FilesModifiedSincePrev = [], cm_PrevCheckpointID = [],
     cm_Corrupted = False, cm_CorruptReason = []\<rparr>"

datatype verify_outcome =
    VerifyOutcomePassed | VerifyOutcomeFailed | VerifyOutcomeSkipped | VerifyOutcomeTimeout
  | VerifyOutcomeError | VerifyOutcomeNone

datatype recover_hint =
    RecoverHintRollback | RecoverHintRetry | RecoverHintEscalate | RecoverHintAbort
  | RecoverHintRewrite | RecoverHintSkip | RecoverHintNone

record strategy_result =
  Outcome :: verify_outcome
  Message :: string
  Details :: raw
  RecoverHint :: recover_hint
  DurationMs :: int

definition zero_strategy_result :: strategy_result where
  "zero_strategy_result =
     \<lparr>Outcome = VerifyOutcomeNone, Message = [], Details = RawNil,
      RecoverHint = RecoverHintNone, DurationMs = 0\<rparr>"

record execute_result =
  er_Data :: jmap
  er_Success :: bool
  er_ErrMsg :: string

definition zero_execute_result :: execute_result where
  "zero_execute_result = \<lparr>er_Data = [], er_Success = False, er_ErrMsg = []\<rparr>"

text \<open>
  Parameters are of type \<open>any\<close> in the interface: a raw message, or a value the executor
  still has to encode.
\<close>

datatype go_params = ParamRaw raw | ParamVal json

record 'w cvr_env =
  sx_execute :: "'w \<Rightarrow> string \<Rightarrow> go_params \<Rightarrow> 'w \<times> execute_result \<times> go_error option"
  sx_now :: "'w \<Rightarrow> int"
  sx_ctx_err :: "'w \<Rightarrow> go_error option"

record 'w verify_strategy =
  vs_name :: string
  vs_run :: "'w cvr_env \<Rightarrow> 'w \<Rightarrow> execute_result \<Rightarrow> checkpoint_manifest option
             \<Rightarrow> 'w \<times> (go_error + strategy_result)"

type_synonym 'w save_manifest = "'w \<Rightarrow> checkpoint_manifest \<Rightarrow> 'w \<times> go_error option"

section \<open>recovery\_tree.go\<close>

datatype recovery_action =
    RecoveryActionRetry | RecoveryActionRollback | RecoveryActionRewrite | RecoveryActionSkip
  | RecoveryActionEscalate | RecoveryActionAbort | RecoveryActionNone

datatype failure_kind =
  FailureKindExecError | FailureKindVerifyFail | FailureKindDuplicate | FailureKindTimeout

record recovery_ctx =
  rc_FailureKind :: failure_kind
  rc_Attempt :: int
  rc_Intent :: primitive_intent
  rc_StrategyResult :: strategy_result
  rc_MaxRetries :: int

datatype decision_node =
    IrreversibleMutationNode | MaxAttemptsNode | DuplicateNode | TimeoutNode | DefaultRetryNode

fun node_match :: "decision_node \<Rightarrow> recovery_ctx \<Rightarrow> bool" where
  "node_match IrreversibleMutationNode c =
     (\<not> Reversible (rc_Intent c) \<and> Outcome (rc_StrategyResult c) = VerifyOutcomeFailed)"
| "node_match MaxAttemptsNode c = (rc_Attempt c \<ge> rc_MaxRetries c)"
| "node_match DuplicateNode c = (rc_FailureKind c = FailureKindDuplicate)"
| "node_match TimeoutNode c = (rc_FailureKind c = FailureKindTimeout)"
| "node_match DefaultRetryNode c = True"

fun node_action :: "decision_node \<Rightarrow> recovery_action" where
  "node_action IrreversibleMutationNode = RecoveryActionRollback"
| "node_action MaxAttemptsNode = RecoveryActionEscalate"
| "node_action DuplicateNode = RecoveryActionAbort"
| "node_action TimeoutNode = RecoveryActionRetry"
| "node_action DefaultRetryNode = RecoveryActionRetry"

type_synonym decision_tree = "decision_node list"

fun decide_nodes :: "decision_node list \<Rightarrow> recovery_ctx \<Rightarrow> recovery_action" where
  "decide_nodes [] c = RecoveryActionAbort"
| "decide_nodes (n # ns) c = (if node_match n c then node_action n else decide_nodes ns c)"

text \<open>\<open>Decide\<close> on a tree that may be the nil pointer.\<close>

definition Decide :: "decision_tree option \<Rightarrow> recovery_ctx \<Rightarrow> recovery_action" where
  "Decide t c = (case t of None \<Rightarrow> RecoveryActionAbort | Some ns \<Rightarrow> decide_nodes ns c)"

definition NewDefaultDecisionTree :: decision_tree where
  "NewDefaultDecisionTree =
     [IrreversibleMutationNode, MaxAttemptsNode, DuplicateNode, TimeoutNode, DefaultRetryNode]"

section \<open>strategy\_test\_suite.go\<close>

record test_suite_strategy =
  ts_MinTests :: int
  ts_Command :: string
  ts_Filter :: string
  ts_TimeoutSec :: int

definition unwrapExecuteData :: "jmap \<Rightarrow> jmap" where
  "unwrapExecuteData data =
     (if data = [] then []
      else case jget data ''result'' of
             None \<Rightarrow> data
           | Some nested \<Rightarrow> (case dec_map (Raw nested) of Inl _ \<Rightarrow> data | Inr m \<Rightarrow> m))"

text \<open>A missing key reads as the nil message.\<close>

definition rawBool :: "raw \<Rightarrow> bool" where
  "rawBool r = (case dec_bool r of Inl _ \<Rightarrow> False | Inr b \<Rightarrow> b)"

definition rawInt :: "raw \<Rightarrow> int" where
  "rawInt r = (case dec_int r of Inl _ \<Rightarrow> 0 | Inr n \<Rightarrow> n)"

definition rawStringSlice :: "raw \<Rightarrow> string list" where
  "rawStringSlice r = (if raw_len0 r then [] else fst (dec_strings r))"

text \<open>\<open>manifest != nil && manifest.Intent.Reversible\<close>: the hint of a failed verification.\<close>

definition failed_hint :: "checkpoint_manifest option \<Rightarrow> recover_hint" where
  "failed_hint m =
     (case m of Some cm \<Rightarrow> (if Reversible (cm_Intent cm) then RecoverHintRollback else RecoverHintEscalate)
      | None \<Rightarrow> RecoverHintEscalate)"

definition test_suite_run ::
  "test_suite_strategy \<Rightarrow> 'w cvr_env \<Rightarrow> 'w \<Rightarrow> execute_result \<Rightarrow> checkpoint_manifest option
   \<Rightarrow> 'w \<times> (go_error + strategy_result)" where
  "test_suite_run s env w result manifest =
     (let start = sx_now env w;
          timeoutSec = (if ts_TimeoutSec s \<le> 0 then 60 else ts_TimeoutSec s);
          params = JObj [(''command'', JStr (ts_Command s)), (''filter'', JStr (ts_Filter s)),
                         (''timeout_s'', JNum timeoutSec)];
          (w', verifyResult, err) = sx_execute env w ''verify.test'' (ParamVal params)
      in case err of
           Some e \<Rightarrow> (w', Inl e)
         | None \<Rightarrow>
             (let data = unwrapExecuteData (er_Data verifyResult);
                  passed = rawBool (field_raw data ''passed'');
                  total = rawInt (field_raw data ''total'');
                  failures = rawStringSlice (field_raw data ''failures'');
                  outcome = zero_strategy_result\<lparr>DurationMs := sx_now env w' - start\<rparr>
              in (w', Inr
                   (if ts_MinTests s > 0 \<and> total < ts_MinTests s
                    then outcome\<lparr>Outcome := VerifyOutcomeFailed, Message := ''test suite too small'',
                                 RecoverHint := RecoverHintEscalate\<rparr>
                    else if \<not> passed
                    then outcome\<lparr>Outcome := VerifyOutcomeFailed, Message := ''test suite failed'',
                                 Details := json_marshal (JObj [(''failures'', JArr (map JStr failures))]),
                                 RecoverHint := failed_hint manifest\<rparr>
                    else outcome\<lparr>Outcome := VerifyOutcomePassed, Message := ''test suite passed''\<rparr>))))"

definition TestSuiteStrategy :: "test_suite_strategy \<Rightarrow> 'w verify_strategy" where
  "TestSuiteStrategy s = \<lparr>vs_name = ''test_suite'', vs_run = test_suite_run s\<rparr>"

section \<open>coordinator.go\<close>

record cvr_result =
  CheckpointID :: string
  Passed :: bool
  StrategyResult :: strategy_result
  AppliedAction :: recovery_action
  TraceRef :: string
  LayerAOutcome :: string

definition zero_cvr_result :: cvr_result where
  "zero_cvr_result =
     \<lparr>CheckpointID = [], Passed = False, StrategyResult = zero_strategy_result,
      AppliedAction = RecoveryActionNone, TraceRef = [], LayerAOutcome = []\<rparr>"

record 'w cvr_request =
  rq_PrimitiveID :: string
  rq_SandboxID :: string
  rq_Intent :: primitive_intent
  rq_Params :: go_params
  rq_Exec :: "'w cvr_env option"
  rq_TraceID :: string
  rq_StepID :: string
  rq_Attempt :: int
  rq_CVRDepth :: int
  rq_VerifyStrategy :: "'w verify_strategy option"
  rq_DisableVerifyStrategy :: bool

record 'w cvr_coordinator =
  co_store :: "'w save_manifest option"
  co_strategy :: "'w verify_strategy option"
  co_tree :: "decision_tree option"

definition NewCVRCoordinator ::
  "'w save_manifest option \<Rightarrow> 'w verify_strategy option \<Rightarrow> decision_tree option \<Rightarrow> 'w cvr_coordinator"
where
  "NewCVRCoordinator store strategy tree =
     \<lparr>co_store = store, co_strategy = strategy,
      co_tree = (case tree of None \<Rightarrow> Some NewDefaultDecisionTree | Some t \<Rightarrow> Some t)\<rparr>"

definition shouldCheckpoint :: "primitive_intent \<Rightarrow> bool" where
  "shouldCheckpoint i =
     (if Category i \<noteq> IntentMutation then False
      else if \<not> Reversible i then True
      else RiskLevel i = RiskHigh)"

definition checkpointReasonForIntent :: "primitive_intent \<Rightarrow> checkpoint_reason" where
  "checkpointReasonForIntent i =
     (if Category i = IntentMutation then CheckpointReasonPreEdit else CheckpointReasonPreExec)"

definition strategyResultFromExecution :: "execute_result \<Rightarrow> go_error option \<Rightarrow> strategy_result" where
  "strategyResultFromExecution r err =
     (case err of
        Some e \<Rightarrow>
          (if errors_is e DeadlineExceeded
           then zero_strategy_result\<lparr>Outcome := VerifyOutcomeTimeout, Message := error_text e,
                                     RecoverHint := RecoverHintRetry\<rparr>
           else zero_strategy_result\<lparr>Outcome := VerifyOutcomeError, Message := error_text e,
                                     RecoverHint := RecoverHintRetry\<rparr>)
      | None \<Rightarrow>
          (if er_Success r
           then zero_strategy_result\<lparr>Outcome := VerifyOutcomePassed, Message := ''execution passed'',
                                     RecoverHint := RecoverHintSkip\<rparr>
           else zero_strategy_result\<lparr>Outcome := VerifyOutcomeFailed,
                  Message := (if er_ErrMsg r = [] then ''execution reported failure'' else er_ErrMsg r),
                  RecoverHint := RecoverHintRetry\<rparr>))"

definition failureKindFromExecution ::
  "go_error option \<Rightarrow> execute_result \<Rightarrow> strategy_result \<Rightarrow> failure_kind" where
  "failureKindFromExecution err r sr =
     (if Outcome sr = VerifyOutcomeTimeout then FailureKindTimeout
      else if Outcome sr = VerifyOutcomeFailed then FailureKindVerifyFail
      else if err_is err DeadlineExceeded then FailureKindTimeout
      else if err \<noteq> None \<or> \<not> er_Success r then FailureKindExecError
      else FailureKindVerifyFail)"

definition extractCheckpointID :: "execute_result \<Rightarrow> go_error + string" where
  "extractCheckpointID r =
     (if er_Data r = [] then Inl (GoErr ''checkpoint result missing data'')
      else case jget (er_Data r) ''checkpoint_id'' of
             None \<Rightarrow> Inl (GoErr ''checkpoint result missing checkpoint_id'')
           | Some j \<Rightarrow>
               (case dec_string (Raw j) of
                  Inl e \<Rightarrow> Inl (GoWrap ''decode checkpoint_id'' e)
                | Inr cid \<Rightarrow> (if cid = [] then Inl (GoErr ''checkpoint result has empty checkpoint_id'')
                               else Inr cid)))"

definition request_manifest :: "'w cvr_request \<Rightarrow> string \<Rightarrow> int \<Rightarrow> checkpoint_manifest" where
  "request_manifest req cid now = zero_manifest\<lparr>
     cm_ID := cid, cm_CheckpointID := cid, cm_SandboxID := rq_SandboxID req,
     cm_PrimitiveID := rq_PrimitiveID req, cm_Intent := rq_Intent req,
     cm_Trigger := Some TriggerIntentPolicy, cm_CreatedAt := now,
     cm_TriggerPrimitive := rq_PrimitiveID req,
     cm_TriggerReason := checkpointReasonForIntent (rq_Intent req),
     cm_TraceID := rq_TraceID req, cm_StepID := rq_StepID req, cm_Attempt := rq_Attempt req\<rparr>"

text \<open>
  Layer A: the checkpoint before the primitive. \<open>Inl\<close> is the early return with a
  \<open>LayerAErr\<close>; \<open>Inr\<close> carries the manifest (the zero one when none was made) and the
  result so far.
\<close>

definition layer_a ::
  "'w cvr_coordinator \<Rightarrow> 'w cvr_env \<Rightarrow> 'w \<Rightarrow> 'w cvr_request
   \<Rightarrow> 'w \<times> (go_error + (checkpoint_manifest \<times> cvr_result))" where
  "layer_a c env w req =
     (if shouldCheckpoint (rq_Intent req) then
        case co_store c of
          None \<Rightarrow> (w, Inl (LayerAErr (GoErr ''checkpoint manifest store is nil'')))
        | Some save \<Rightarrow>
            (let label = rq_PrimitiveID req @ ''-'' @ rq_StepID req;
                 (w1, cp, cpErr) =
                   sx_execute env w ''state.checkpoint'' (ParamVal (JObj [(''label'', JStr label)]))
             in case cpErr of
                  Some e \<Rightarrow> (w1, Inl (LayerAErr e))
                | None \<Rightarrow>
                    (case extractCheckpointID cp of
                       Inl e \<Rightarrow> (w1, Inl (LayerAErr e))
                     | Inr cid \<Rightarrow>
                         (let m = request_manifest req cid (sx_now env w1);
                              (w2, saveErr) = save w1 m
                          in case saveErr of
                               Some e \<Rightarrow> (w2, Inl (LayerAErr e))
                             | None \<Rightarrow>
                                 (w2, Inr (m, zero_cvr_result\<lparr>CheckpointID := cm_CheckpointID m,
                                                LayerAOutcome := ''checkpoint_created''\<rparr>)))))
      else (w, Inr (zero_manifest, zero_cvr_result\<lparr>LayerAOutcome := ''skipped''\<rparr>)))"

text \<open>The strategy of a request: its own, else the coordinator's unless it is disabled.\<close>

definition chosen_strategy :: "'w cvr_coordinator \<Rightarrow> 'w cvr_request \<Rightarrow> 'w verify_strategy option" where
  "chosen_strategy c req =
     (case rq_VerifyStrategy req of
        Some s \<Rightarrow> Some s
      | None \<Rightarrow> (if rq_DisableVerifyStrategy req then None else co_strategy c))"

text \<open>Layer B: execute the primitive, then verify it.\<close>

definition layer_b ::
  "'w cvr_coordinator \<Rightarrow> 'w cvr_env \<Rightarrow> 'w \<Rightarrow> 'w cvr_request \<Rightarrow> checkpoint_manifest
   \<Rightarrow> 'w \<times> execute_result \<times> go_error option \<times> strategy_result" where
  "layer_b c env w req manifest =
     (let (w1, execResult, execErr) = sx_execute env w (rq_PrimitiveID req) (rq_Params req);
          strategyResult = strategyResultFromExecution execResult execErr
      in case chosen_strategy c req of
           Some strategy \<Rightarrow>
             (if execErr = None \<and> er_Success execResult then
                (let (w2, run) = vs_run strategy env w1 execResult (Some manifest)
                 in (w2, execResult, execErr,
                     case run of
                       Inr r \<Rightarrow> r
                     | Inl e \<Rightarrow> zero_strategy_result\<lparr>Outcome := VerifyOutcomeError,
                                 Message := error_text e, RecoverHint := RecoverHintRetry\<rparr>))
              else (w1, execResult, execErr, strategyResult))
         | None \<Rightarrow> (w1, execResult, execErr, strategyResult))"

definition finish_cvr ::
  "'w cvr_coordinator \<Rightarrow> 'w cvr_request \<Rightarrow> cvr_result \<Rightarrow> execute_result \<Rightarrow> go_error option
   \<Rightarrow> strategy_result \<Rightarrow> cvr_result" where
  "finish_cvr c req result execResult execErr sr =
     result\<lparr>StrategyResult := sr,
            AppliedAction :=
              (if Outcome sr \<noteq> VerifyOutcomePassed
               then Decide (co_tree c)
                      \<lparr>rc_FailureKind = failureKindFromExecution execErr execResult sr,
                       rc_Attempt = rq_Attempt req, rc_Intent = rq_Intent req,
                       rc_StrategyResult = sr, rc_MaxRetries = 3\<rparr>
               else AppliedAction result),
            Passed := (Outcome sr = VerifyOutcomePassed)\<rparr>"

definition cvr_execute ::
  "'w cvr_coordinator \<Rightarrow> 'w \<Rightarrow> 'w cvr_request \<Rightarrow> 'w \<times> cvr_result \<times> go_error option" where
  "cvr_execute c w req =
     (if rq_CVRDepth req \<ge> MaxCVRDepth then (w, zero_cvr_result, Some ErrCVRDepthExceeded)
      else case rq_Exec req of
        None \<Rightarrow> (w, zero_cvr_result, Some (GoErr ''cvr coordinator requires executor''))
      | Some env \<Rightarrow>
          (let (w1, a) = layer_a c env w req
           in case a of
                Inl e \<Rightarrow> (w1, zero_cvr_result\<lparr>LayerAOutcome := ''failed''\<rparr>, Some e)
              | Inr (manifest, result) \<Rightarrow>
                  (let (w2, execResult, execErr, sr) = layer_b c env w1 req manifest
                   in (w2, finish_cvr c req result execResult execErr sr, execErr))))"

section \<open>The decision tree\<close>

lemma Decide_default:
  "Decide (Some NewDefaultDecisionTree) c =
     (if \<not> Reversible (rc_Intent c) \<and> Outcome (rc_StrategyResult c) = VerifyOutcomeFailed
      then RecoveryActionRollback
      else if rc_Attempt c \<ge> rc_MaxRetries c then RecoveryActionEscalate
      else if rc_FailureKind c = FailureKindDuplicate then RecoveryActionAbort
      else RecoveryActionRetry)"
  by (simp add: Decide_def NewDefaultDecisionTree_def)

lemma Decide_prefix_wins:
  "node_match n c \<Longrightarrow> \<forall>m \<in> set ns. \<not> node_match m c \<Longrightarrow>
   Decide (Some (ns @ n # ms)) c = node_action n"
  by (induction ns) (simp_all add: Decide_def)

lemma failureKind_not_duplicate: "failureKindFromExecution err r sr \<noteq> FailureKindDuplicate"
  by (simp add: failureKindFromExecution_def)

section \<open>The coordinator: shape of a run\<close>

lemma co_tree_New [simp]:
  "co_tree (NewCVRCoordinator st s t) = Some (case t of None \<Rightarrow> NewDefaultDecisionTree | Some x \<Rightarrow> x)"
  "co_store (NewCVRCoordinator st s t) = st"
  "co_strategy (NewCVRCoordinator st s t) = s"
  by (simp_all add: NewCVRCoordinator_def split: option.splits)

lemma finish_cvr_simps [simp]:
  "Passed (finish_cvr c req r er ee sr) = (Outcome sr = VerifyOutcomePassed)"
  "StrategyResult (finish_cvr c req r er ee sr) = sr"
  "CheckpointID (finish_cvr c req r er ee sr) = CheckpointID r"
  "LayerAOutcome (finish_cvr c req r er ee sr) = LayerAOutcome r"
  by (simp_all add: finish_cvr_def)

text \<open>Layer A either fails, or skips without touching the world, or has made a checkpoint.\<close>

lemma layer_a_cases:
  assumes "layer_a c env w req = (w', a)"
  obtains (failed) e where "shouldCheckpoint (rq_Intent req)" "a = Inl (LayerAErr e)"
  | (skipped) "\<not> shouldCheckpoint (rq_Intent req)" "w' = w"
      "a = Inr (zero_manifest, zero_cvr_result\<lparr>LayerAOutcome := ''skipped''\<rparr>)"
  | (created) cp cid m w1 save where "shouldCheckpoint (rq_Intent req)" "co_store c = Some save"
      "sx_execute env w ''state.checkpoint''
         (ParamVal (JObj [(''label'', JStr (rq_PrimitiveID req @ ''-'' @ rq_StepID req))])) = (w1, cp, None)"
      "extractCheckpointID cp = Inr cid" "m = request_manifest req cid (sx_now env w1)"
      "save w1 m = (w', None)"
      "a = Inr (m, zero_cvr_result\<lparr>CheckpointID := cid, LayerAOutcome := ''checkpoint_created''\<rparr>)"
proof (cases "shouldCheckpoint (rq_Intent req)")
  case False
  with assms have "w' = w" "a = Inr (zero_manifest, zero_cvr_result\<lparr>LayerAOutcome := ''skipped''\<rparr>)"
    by (simp_all add: layer_a_def)
  with False show ?thesis by (rule skipped)
next
  case True
  show ?thesis
  proof (cases a)
    case (Inl e)
    with assms True have "\<exists>e'. e = LayerAErr e'"
      by (auto simp: layer_a_def Let_def split: option.splits prod.splits sum.splits)
    with True Inl show ?thesis using failed by blast
  next
    case (Inr mr)
    with assms True show ?thesis
      by (auto simp: layer_a_def Let_def request_manifest_def
          split: option.splits prod.splits sum.splits intro: created)
  qed
qed

lemma extractCheckpointID_nonempty: "extractCheckpointID r = Inr cid \<Longrightarrow> cid \<noteq> []"
  by (auto simp: extractCheckpointID_def split: if_splits option.splits sum.splits)

text \<open>
  A run of the coordinator stops before the primitive (with an error and no recovery action),
  or it went through both layers.
\<close>

lemma cvr_execute_cases:
  assumes "cvr_execute c w req = (w', res, err)"
  obtains (stopped) e where "err = Some e" "AppliedAction res = RecoveryActionNone" "\<not> Passed res"
      "StrategyResult res = zero_strategy_result" "LayerAOutcome res \<in> {[], ''failed''}"
      "CheckpointID res = []"
  | (ran) env w1 m r er sr where "rq_CVRDepth req < MaxCVRDepth" "rq_Exec req = Some env"
      "layer_a c env w req = (w1, Inr (m, r))" "layer_b c env w1 req m = (w', er, err, sr)"
      "res = finish_cvr c req r er err sr"
proof (cases "rq_CVRDepth req \<ge> MaxCVRDepth \<or> rq_Exec req = None")
  case True
  with assms show ?thesis
    by (intro stopped [of "the err"]) (auto simp: cvr_execute_def zero_cvr_result_def split: if_splits)
next
  case False
  then obtain env where env: "rq_Exec req = Some env" by blast
  obtain w1 a where la: "layer_a c env w req = (w1, a)" by fastforce
  show ?thesis
  proof (cases a)
    case (Inl e)
    with assms False env la show ?thesis
      by (intro stopped) (auto simp: cvr_execute_def zero_cvr_result_def split: if_splits)
  next
    case (Inr mr)
    with assms False env la show ?thesis
      by (auto simp: cvr_execute_def Let_def split: if_splits prod.splits intro: ran)
  qed
qed

lemma layer_a_action: "layer_a c env w req = (w1, Inr (m, r)) \<Longrightarrow> AppliedAction r = RecoveryActionNone"
  by (erule layer_a_cases) (simp_all add: zero_cvr_result_def)

text \<open>What a passing layer B says of the execution and of the strategy that was run.\<close>

lemma layer_b_passed:
  assumes "layer_b c env w req m = (w', er, err, sr)" and "Outcome sr = VerifyOutcomePassed"
  shows "err = None" and "er_Success er"
    and "\<exists>w1. sx_execute env w (rq_PrimitiveID req) (rq_Params req) = (w1, er, None) \<and>
           (case chosen_strategy c req of
              None \<Rightarrow> w' = w1
            | Some s \<Rightarrow> vs_run s env w1 er (Some m) = (w', Inr sr))"
  using assms
  by (auto simp: layer_b_def Let_def strategyResultFromExecution_def
      split: option.splits prod.splits if_splits sum.splits)

lemma cvr_passed_outcome:
  assumes "cvr_execute c w req = (w', res, err)" and "Passed res"
  shows "Outcome (StrategyResult res) = VerifyOutcomePassed"
  using assms by (cases rule: cvr_execute_cases) auto

lemma layer_a_inv:
  assumes "layer_a c env w req = (w', a)" and "I w"
    and "\<And>w m p. I w \<Longrightarrow> I (fst (sx_execute env w m p))"
    and "\<And>save w m. co_store c = Some save \<Longrightarrow> I w \<Longrightarrow> I (fst (save w m))"
  shows "I w'"
proof -
  let ?p = "ParamVal (JObj [(''label'', JStr (rq_PrimitiveID req @ ''-'' @ rq_StepID req))])"
  obtain w1 cp e1 where ex: "sx_execute env w ''state.checkpoint'' ?p = (w1, cp, e1)" by (metis prod_cases3)
  with assms(3) [OF assms(2), of "''state.checkpoint''" ?p] have I1: "I w1" by simp
  have I2: "I (fst (save w1 m))" if "co_store c = Some save" for save m
    using assms(4) [OF that I1] .
  show ?thesis
  proof (cases "co_store c")
    case None
    with assms(1,2) show ?thesis by (auto simp: layer_a_def split: if_splits)
  next
    case (Some save)
    have "w' \<in> {w, w1} \<or> (\<exists>m. w' = fst (save w1 m))"
      using assms(1) ex Some
      by (auto simp: layer_a_def Let_def split: if_splits option.splits prod.splits sum.splits)
         (metis fst_conv)+
    with I1 I2 [OF Some] assms(2) show ?thesis by auto
  qed
qed

lemma layer_b_inv:
  assumes "layer_b c env w req m = (w', er, ee, sr)" and "I w"
    and "\<And>w m p. I w \<Longrightarrow> I (fst (sx_execute env w m p))"
    and "\<And>s w r m. chosen_strategy c req = Some s \<Longrightarrow> I w \<Longrightarrow> I (fst (vs_run s env w r m))"
  shows "I w'"
proof -
  obtain w1 er1 e1 where ex: "sx_execute env w (rq_PrimitiveID req) (rq_Params req) = (w1, er1, e1)"
    by (metis prod_cases3)
  with assms(3) [OF assms(2)] have I1: "I w1" by (metis fst_conv)
  from assms(1) ex consider "w' = w1"
    | s where "chosen_strategy c req = Some s" "w' = fst (vs_run s env w1 er1 (Some m))"
    by (auto simp: layer_b_def Let_def split: option.splits if_splits prod.splits)
  then show ?thesis using I1 assms(4) by cases auto
qed

text \<open>What the executor, the store and the strategy keep of the world, a run keeps.\<close>

lemma cvr_execute_inv:
  assumes "cvr_execute c w req = (w', res, err)" and "rq_Exec req = Some env" and "I w"
    and "\<And>w m p. I w \<Longrightarrow> I (fst (sx_execute env w m p))"
    and "\<And>save w m. co_store c = Some save \<Longrightarrow> I w \<Longrightarrow> I (fst (save w m))"
    and "\<And>s w r m. chosen_strategy c req = Some s \<Longrightarrow> I w \<Longrightarrow> I (fst (vs_run s env w r m))"
  shows "I w'"
proof -
  obtain w1 a where la: "layer_a c env w req = (w1, a)" by fastforce
  have I1: "I w1" using layer_a_inv [OF la, of I] assms(3-5) by blast
  show ?thesis
  proof (cases a)
    case (Inl e)
    with assms(1-3) la I1 show ?thesis by (auto simp: cvr_execute_def split: if_splits)
  next
    case (Inr mr)
    obtain m r where mr: "mr = (m, r)" by fastforce
    obtain w2 er ee sr where lb: "layer_b c env w1 req m = (w2, er, ee, sr)" by (metis prod_cases4)
    have "I w2" using layer_b_inv [OF lb, of I] I1 assms(4,6) by blast
    with assms(1-3) la Inr mr lb show ?thesis by (auto simp: cvr_execute_def split: if_splits)
  qed
qed

section \<open>Call logs\<close>

text \<open>
  To state in which order the coordinator calls its collaborators, run it on a world that also
  records the calls: \<open>logged_env\<close> and \<open>logged_save\<close> behave as the wrapped executor and
  store do and append each call to the log.
\<close>

datatype call = CallExec string go_params | CallSave checkpoint_manifest

definition logged_env :: "'w cvr_env \<Rightarrow> ('w \<times> call list) cvr_env" where
  "logged_env env = \<lparr>
     sx_execute = (\<lambda>(w, l) m p. let (w', r, e) = sx_execute env w m p in ((w', l @ [CallExec m p]), r, e)),
     sx_now = (\<lambda>(w, l). sx_now env w),
     sx_ctx_err = (\<lambda>(w, l). sx_ctx_err env w)\<rparr>"

definition logged_save :: "'w save_manifest \<Rightarrow> ('w \<times> call list) save_manifest" where
  "logged_save save = (\<lambda>(w, l) m. let (w', e) = save w m in ((w', l @ [CallSave m]), e))"

lemma logged_env_execute:
  "sx_execute (logged_env env) wl m p = (wl', r, e) \<longleftrightarrow>
     (\<exists>w'. sx_execute env (fst wl) m p = (w', r, e) \<and> wl' = (w', snd wl @ [CallExec m p]))"
  by (auto simp: logged_env_def Let_def split: prod.splits)

lemma logged_save_eq:
  "logged_save save wl m = (wl', e) \<longleftrightarrow>
     (\<exists>w'. save (fst wl) m = (w', e) \<and> wl' = (w', snd wl @ [CallSave m]))"
  by (auto simp: logged_save_def Let_def split: prod.splits)

text \<open>A strategy that works through the executor it is given only adds to the log.\<close>

definition log_extending :: "('w \<times> call list) verify_strategy \<Rightarrow> bool" where
  "log_extending s \<longleftrightarrow>
     (\<forall>env wl r m. \<exists>l. snd (fst (vs_run s (logged_env env) wl r m)) = snd wl @ l)"

lemma test_suite_log_extending: "log_extending (TestSuiteStrategy s)"
  unfolding log_extending_def
proof (intro allI)
  fix env and wl :: "'w \<times> call list" and r m
  obtain wl' vr e where
    "sx_execute (logged_env env) wl ''verify.test'' (ParamVal (JObj [(''command'', JStr (ts_Command s)),
       (''filter'', JStr (ts_Filter s)),
       (''timeout_s'', JNum (if ts_TimeoutSec s \<le> 0 then 60 else ts_TimeoutSec s))])) = (wl', vr, e)"
    by (metis prod_cases3)
  moreover from this have "\<exists>l. snd wl' = snd wl @ l"
    by (auto simp: logged_env_execute)
  ultimately show "\<exists>l. snd (fst (vs_run (TestSuiteStrategy s) (logged_env env) wl r m)) = snd wl @ l"
    by (simp add: TestSuiteStrategy_def test_suite_run_def Let_def split: option.splits)
qed

definition checkpoint_call :: "'w cvr_request \<Rightarrow> call" where
  "checkpoint_call req = CallExec ''state.checkpoint''
     (ParamVal (JObj [(''label'', JStr (rq_PrimitiveID req @ ''-'' @ rq_StepID req))]))"

lemma layer_a_failed_log:
  assumes "layer_a c (logged_env env) (w, []) req = ((w', log), Inl e)"
    and "co_store c = map_option logged_save save"
  shows "log \<in> {[], [checkpoint_call req]} \<or> (\<exists>m. log = [checkpoint_call req, CallSave m])"
  using assms
  by (auto simp: layer_a_def Let_def logged_env_execute logged_save_eq checkpoint_call_def
      split: if_splits option.splits prod.splits sum.splits)

lemma layer_b_log:
  assumes "layer_b c (logged_env env) wl req m = (wl', er, err, sr)"
    and "\<And>s. chosen_strategy c req = Some s \<Longrightarrow> log_extending s"
  shows "\<exists>l. snd wl' = snd wl @ CallExec (rq_PrimitiveID req) (rq_Params req) # l"
proof -
  obtain w1 er1 err1 where ex:
    "sx_execute (logged_env env) wl (rq_PrimitiveID req) (rq_Params req) = (w1, er1, err1)"
    by (metis prod_cases3)
  then have l1: "snd w1 = snd wl @ [CallExec (rq_PrimitiveID req) (rq_Params req)]"
    by (auto simp: logged_env_execute)
  from assms(1) ex consider "wl' = w1"
    | s where "chosen_strategy c req = Some s" "fst (vs_run s (logged_env env) w1 er1 (Some m)) = wl'"
    by (auto simp: layer_b_def Let_def split: option.splits if_splits prod.splits)
  then show ?thesis
  proof cases
    case 1
    with l1 show ?thesis by simp
  next
    case 2
    with assms(2) obtain l where "snd wl' = snd w1 @ l"
      unfolding log_extending_def by metis
    with l1 show ?thesis by simp
  qed
qed

section \<open>Properties of the coordinator\<close>

text \<open>
  C1. No mutation without its checkpoint. For an intent that requires a checkpoint (a mutation
  that is irreversible or of high risk), the coordinator either stops in layer A with a
  \<open>LayerAErr\<close> without ever calling the primitive, or its calls are, in this order: the
  \<open>state.checkpoint\<close> primitive, the save of a manifest for the returned non-empty checkpoint
  id, and only then the primitive; the result carries that checkpoint id.
\<close>

theorem cvr_checkpoint_before_mutation:
  assumes "rq_CVRDepth req < MaxCVRDepth" and "rq_Exec req = Some (logged_env env)"
    and "co_store c = map_option logged_save save"
    and "\<And>s. chosen_strategy c req = Some s \<Longrightarrow> log_extending s"
    and "shouldCheckpoint (rq_Intent req)"
    and "cvr_execute c (w, []) req = ((w', log), res, err)"
  shows "(\<exists>e. err = Some (LayerAErr e) \<and> LayerAOutcome res = ''failed'' \<and> \<not> Passed res \<and>
            (log \<in> {[], [checkpoint_call req]} \<or> (\<exists>m. log = [checkpoint_call req, CallSave m])))
       \<or> (\<exists>m verify. log = checkpoint_call req # CallSave m
                       # CallExec (rq_PrimitiveID req) (rq_Params req) # verify \<and>
            cm_CheckpointID m = CheckpointID res \<and> CheckpointID res \<noteq> [] \<and>
            cm_PrimitiveID m = rq_PrimitiveID req \<and> cm_Intent m = rq_Intent req \<and>
            LayerAOutcome res = ''checkpoint_created'')"
proof -
  obtain w1 log1 a where la: "layer_a c (logged_env env) (w, []) req = ((w1, log1), a)"
    by (metis prod.exhaust)
  from la show ?thesis
  proof (cases rule: layer_a_cases)
    case (failed e)
    with layer_a_failed_log [OF la [unfolded failed(2)] assms(3)] assms(1,2,6) la show ?thesis
      by (auto simp: cvr_execute_def zero_cvr_result_def)
  next
    case skipped
    with assms(5) show ?thesis by blast
  next
    case (created cp cid m w2 sv)
    from created(2) assms(3) obtain sv' where "sv = logged_save sv'" by (cases save) auto
    with created have log1: "log1 = [checkpoint_call req, CallSave m]"
      by (auto simp: logged_env_execute logged_save_eq checkpoint_call_def)
    let ?r = "zero_cvr_result\<lparr>CheckpointID := cid, LayerAOutcome := ''checkpoint_created''\<rparr>"
    obtain wl2 er ee sr where lb: "layer_b c (logged_env env) (w1, log1) req m = (wl2, er, ee, sr)"
      by (metis prod_cases4)
    with assms(1,2,6) la created(7) have "wl2 = (w', log)" "res = finish_cvr c req ?r er ee sr"
      by (auto simp: cvr_execute_def)
    with layer_b_log [OF lb assms(4)] log1 extractCheckpointID_nonempty [OF created(4)] created(5)
    show ?thesis by (auto simp: request_manifest_def)
  qed
qed

text \<open>A small executor and request on which the theorems of this theory are exercised.\<close>

definition demo_execute ::
  "nat \<Rightarrow> string \<Rightarrow> go_params \<Rightarrow> nat \<times> execute_result \<times> go_error option" where
  "demo_execute w m p =
     (Suc w,
      (if m = ''state.checkpoint''
       then \<lparr>er_Data = [(''checkpoint_id'', JStr ''c1'')], er_Success = True, er_ErrMsg = []\<rparr>
       else if m = ''verify.test''
       then \<lparr>er_Data = [(''passed'', JBool True), (''total'', JNum 7)], er_Success = True, er_ErrMsg = []\<rparr>
       else if m = ''fs.fail''
       then \<lparr>er_Data = [], er_Success = False, er_ErrMsg = ''disk full''\<rparr>
       else \<lparr>er_Data = [], er_Success = True, er_ErrMsg = []\<rparr>), None)"

definition demo_env :: "nat cvr_env" where
  "demo_env = \<lparr>sx_execute = demo_execute, sx_now = int, sx_ctx_err = (\<lambda>_. None)\<rparr>"

definition demo_intent :: primitive_intent where
  "demo_intent = \<lparr>Category = IntentMutation, Reversible = False, RiskLevel = RiskHigh, AffectedScopes = []\<rparr>"

definition demo_request :: "'w cvr_env \<Rightarrow> string \<Rightarrow> 'w cvr_request" where
  "demo_request env m = \<lparr>rq_PrimitiveID = m, rq_SandboxID = ''sb'', rq_Intent = demo_intent,
     rq_Params = ParamRaw RawNil, rq_Exec = Some env, rq_TraceID = ''t'', rq_StepID = ''s'',
     rq_Attempt = 0, rq_CVRDepth = 0, rq_VerifyStrategy = None, rq_DisableVerifyStrategy = False\<rparr>"

definition demo_save :: "nat save_manifest" where
  "demo_save w m = (Suc w, None)"

lemmas demo_defs = demo_execute_def demo_env_def demo_intent_def demo_request_def demo_save_def

theorem cvr_checkpoint_before_mutation_witness:
  "\<exists>log res err w'. cvr_execute (NewCVRCoordinator (Some (logged_save demo_save)) None None) (0, [])
       (demo_request (logged_env demo_env) ''fs.write'') = ((w', log), res, err) \<and>
     err = None \<and> CheckpointID res = ''c1'' \<and> log ! 0 = checkpoint_call (demo_request demo_env ''fs.write'') \<and>
     log ! 2 = CallExec ''fs.write'' (ParamRaw RawNil)"
proof -
  let ?c = "NewCVRCoordinator (Some (logged_save demo_save)) None None"
  let ?req = "demo_request (logged_env demo_env) ''fs.write''"
  obtain w' log res err where run: "cvr_execute ?c (0, []) ?req = ((w', log), res, err)"
    by (metis prod.exhaust)
  have err: "err = None" using run
    by (simp add: cvr_execute_def layer_a_def layer_b_def demo_defs shouldCheckpoint_def MaxCVRDepth_def
        chosen_strategy_def extractCheckpointID_def jget_def logged_env_def logged_save_def Let_def)
  have "CheckpointID res = ''c1''" using run
    by (auto simp: cvr_execute_def layer_a_def layer_b_def demo_defs shouldCheckpoint_def MaxCVRDepth_def
        chosen_strategy_def extractCheckpointID_def jget_def logged_env_def logged_save_def Let_def
        request_manifest_def)
  moreover have "\<exists>m verify. log = checkpoint_call ?req # CallSave m # CallExec ''fs.write'' (ParamRaw RawNil) # verify"
    using cvr_checkpoint_before_mutation [OF _ _ _ _ _ run, of demo_env "Some demo_save"] err
    by (auto simp: demo_request_def demo_intent_def shouldCheckpoint_def MaxCVRDepth_def chosen_strategy_def)
  ultimately show ?thesis using run err
    by (fastforce simp: checkpoint_call_def demo_request_def)
qed

text \<open>
  The recovery action of the default tree. Once both layers have run, the coordinator with
  the default decision tree asks for no action when the step passed; otherwise it asks for a
  rollback exactly for a failed verification of an irreversible intent, for an escalation from
  the third retry on, and for a retry in every other case. It never asks for an abort, a
  rewrite or a skip.
\<close>

theorem cvr_default_action:
  assumes "cvr_execute (NewCVRCoordinator store strategy None) w req = (w', res, err)"
    and "LayerAOutcome res \<in> {''checkpoint_created'', ''skipped''}"
  shows "AppliedAction res =
    (if Passed res then RecoveryActionNone
     else if \<not> Reversible (rq_Intent req) \<and> Outcome (StrategyResult res) = VerifyOutcomeFailed
       then RecoveryActionRollback
     else if rq_Attempt req \<ge> 3 then RecoveryActionEscalate
     else RecoveryActionRetry)"
  using assms(1)
proof (cases rule: cvr_execute_cases)
  case stopped
  with assms(2) show ?thesis by auto
next
  case (ran env w1 m r er sr)
  then show ?thesis
    using failureKind_not_duplicate [of err er sr] layer_a_action [OF ran(3)]
    by (simp add: finish_cvr_def Decide_default)
qed

theorem cvr_default_action_witness:
  "AppliedAction (fst (snd (cvr_execute (NewCVRCoordinator (Some demo_save) None None) 0
     (demo_request demo_env ''fs.fail'')))) = RecoveryActionRollback"
proof -
  let ?req = "demo_request demo_env ''fs.fail''"
  obtain w' res err where run:
    "cvr_execute (NewCVRCoordinator (Some demo_save) None None) 0 ?req = (w', res, err)"
    by (metis prod.exhaust)
  then have "LayerAOutcome res = ''checkpoint_created''" "\<not> Passed res"
    "Outcome (StrategyResult res) = VerifyOutcomeFailed"
    by (auto simp: cvr_execute_def layer_a_def layer_b_def demo_defs shouldCheckpoint_def MaxCVRDepth_def
        chosen_strategy_def extractCheckpointID_def jget_def Let_def strategyResultFromExecution_def)
  with cvr_default_action [OF run] run show ?thesis
    by (simp add: demo_request_def demo_intent_def)
qed

text \<open>
  C10. A pass is earned. When the coordinator reports a pass, layer A succeeded and the
  primitive was then executed with
  its own parameters, without error and with success, and, where a strategy applies, that
  strategy ran on the execution's result and itself reported the passed outcome; the error
  returned is nil.
\<close>

theorem cvr_passed_sound:
  assumes "cvr_execute c w req = (w', res, err)" and "Passed res"
  shows "err = None \<and>
    (\<exists>env w1 m r er w2. rq_Exec req = Some env \<and>
       layer_a c env w req = (w1, Inr (m, r)) \<and>
       sx_execute env w1 (rq_PrimitiveID req) (rq_Params req) = (w2, er, None) \<and> er_Success er \<and>
       (case chosen_strategy c req of
          None \<Rightarrow> w' = w2
        | Some s \<Rightarrow> vs_run s env w2 er (Some m) = (w', Inr (StrategyResult res))) \<and>
       Outcome (StrategyResult res) = VerifyOutcomePassed)"
  using assms(1)
proof (cases rule: cvr_execute_cases)
  case stopped
  with assms(2) show ?thesis by blast
next
  case (ran env w1 m r er sr)
  with assms(2) have pass: "Outcome sr = VerifyOutcomePassed" by simp
  from layer_b_passed(3) [OF ran(4) pass] obtain w2 where
    "sx_execute env w1 (rq_PrimitiveID req) (rq_Params req) = (w2, er, None)"
    "case chosen_strategy c req of None \<Rightarrow> w' = w2 | Some s \<Rightarrow> vs_run s env w2 er (Some m) = (w', Inr sr)"
    by blast
  with layer_b_passed(1,2) [OF ran(4) pass] ran pass show ?thesis
    by (auto split: option.splits)
qed

theorem cvr_passed_sound_witness:
  "Passed (fst (snd (cvr_execute (NewCVRCoordinator (Some demo_save)
      (Some (TestSuiteStrategy \<lparr>ts_MinTests = 5, ts_Command = ''go test'', ts_Filter = [], ts_TimeoutSec = 0\<rparr>)) None) 0
      (demo_request demo_env ''fs.write'')))) \<and>
   snd (snd (cvr_execute (NewCVRCoordinator (Some demo_save)
      (Some (TestSuiteStrategy \<lparr>ts_MinTests = 5, ts_Command = ''go test'', ts_Filter = [], ts_TimeoutSec = 0\<rparr>)) None) 0
      (demo_request demo_env ''fs.write''))) = None"
  (is "?P \<and> ?Q")
proof -
  have P: ?P
    by (simp add: cvr_execute_def layer_a_def layer_b_def demo_defs shouldCheckpoint_def MaxCVRDepth_def
        chosen_strategy_def extractCheckpointID_def jget_def Let_def TestSuiteStrategy_def test_suite_run_def
        unwrapExecuteData_def rawBool_def rawInt_def field_raw_def int64_range_def)
  moreover have ?Q
    using cvr_passed_sound [OF _ P] by (metis prod.collapse)
  ultimately show ?thesis by blast
qed

text \<open>
  The verdict of the test suite strategy. When \<open>verify.test\<close> answers without error, the
  strategy never errs, and it passes exactly when the answer says that the tests passed and,
  where a minimum is configured, reports at least that many tests. A suite that is too small
  or that failed on an irreversible checkpoint escalates.
\<close>

theorem test_suite_verdict:
  assumes "sx_execute env w ''verify.test'' (ParamVal (JObj [(''command'', JStr (ts_Command s)),
      (''filter'', JStr (ts_Filter s)),
      (''timeout_s'', JNum (if ts_TimeoutSec s \<le> 0 then 60 else ts_TimeoutSec s))])) = (w1, vr, None)"
    and "data = unwrapExecuteData (er_Data vr)"
  shows "\<exists>r. test_suite_run s env w res m = (w1, Inr r) \<and>
     (Outcome r = VerifyOutcomePassed \<longleftrightarrow>
        rawBool (field_raw data ''passed'') \<and>
        (ts_MinTests s \<le> 0 \<or> ts_MinTests s \<le> rawInt (field_raw data ''total''))) \<and>
     Outcome r \<in> {VerifyOutcomePassed, VerifyOutcomeFailed} \<and>
     (Outcome r = VerifyOutcomeFailed \<longrightarrow>
        RecoverHint r = (if 0 < ts_MinTests s \<and> rawInt (field_raw data ''total'') < ts_MinTests s
                         then RecoverHintEscalate else failed_hint m))"
  using assms by (auto simp: test_suite_run_def Let_def)

theorem test_suite_verdict_witness:
  "\<exists>r. test_suite_run \<lparr>ts_MinTests = 9, ts_Command = ''go test'', ts_Filter = [], ts_TimeoutSec = 5\<rparr>
      demo_env 0 zero_execute_result None = (1, Inr r) \<and>
    Outcome r = VerifyOutcomeFailed \<and> RecoverHint r = RecoverHintEscalate"
  using test_suite_verdict [of demo_env 0 "\<lparr>ts_MinTests = 9, ts_Command = ''go test'', ts_Filter = [], ts_TimeoutSec = 5\<rparr>"
      1 "\<lparr>er_Data = [(''passed'', JBool True), (''total'', JNum 7)], er_Success = True, er_ErrMsg = []\<rparr>"
      "[(''passed'', JBool True), (''total'', JNum 7)]" zero_execute_result None]
  by (auto simp: demo_defs unwrapExecuteData_def jget_def field_raw_def rawInt_def int64_range_def)

end
