(* ===== verification/AppManifest.thy ===== *)
theory AppManifest
  imports Cvr "HOL-Library.AList"
begin

text \<open>
  Application primitive manifests and their in-memory registry,
  \<open>internal/primitive/app_manifest.go\<close>. Maps keyed by name are association lists with one
  entry per key; the registry loops over them in an order Go leaves open, and no result of the
  modelled operations depends on it.
\<close>

section \<open>Manifests\<close>

datatype availability =
  AppPrimitiveActive | AppPrimitiveUnavailable | AppPrimitiveReactivating | AvailabilityOther string

record app_verify =
  av_Strategy :: string
  av_Primitive :: string
  av_Command :: string

record app_rollback =
  ar_Strategy :: string
  ar_Primitive :: string

record app_manifest =
  mf_AppID :: string
  mf_Name :: string
  mf_Description :: string
  mf_InputSchema :: raw
  mf_OutputSchema :: raw
  mf_UILayoutHint :: string
  mf_SocketPath :: string
  mf_Availability :: availability
  mf_VerifyEndpoint :: string
  mf_Verify :: "app_verify option"
  mf_RollbackEndpoint :: string
  mf_Rollback :: "app_rollback option"
  mf_Intent :: primitive_intent

text \<open>\<open>cloneJSON\<close> turns an empty slice into nil and copies the rest.\<close>

definition cloneJSON :: "raw \<Rightarrow> raw" where
  "cloneJSON r = (if raw_len0 r then RawNil else r)"

text \<open>A deep copy: on values, only the two schemas can change (an empty slice becomes nil).\<close>

definition cloneAppPrimitiveManifest :: "app_manifest \<Rightarrow> app_manifest" where
  "cloneAppPrimitiveManifest m =
     m\<lparr>mf_InputSchema := cloneJSON (mf_InputSchema m), mf_OutputSchema := cloneJSON (mf_OutputSchema m)\<rparr>"

definition reservedSystemPrimitiveNamespaces :: "string list" where
  "reservedSystemPrimitiveNamespaces =
     [''fs.'', ''state.'', ''shell.'', ''verify.'', ''macro.'', ''code.'', ''test.'']"

definition validateAppPrimitiveName :: "string \<Rightarrow> go_error option" where
  "validateAppPrimitiveName name =
     (case filter (has_prefix name) reservedSystemPrimitiveNamespaces of
        [] \<Rightarrow> None
      | prefix # _ \<Rightarrow> Some (GoErr (''app_primitive_reserved_namespace: '' @ go_quote name @
                        '' uses reserved system namespace '' @ go_quote prefix)))"

definition normalizeUILayoutHint :: "string \<Rightarrow> string" where
  "normalizeUILayoutHint hint = to_lower (trim_space hint)"

fun normalizeAppPrimitiveAvailability :: "availability \<Rightarrow> availability" where
  "normalizeAppPrimitiveAvailability (AvailabilityOther s) = AppPrimitiveActive"
| "normalizeAppPrimitiveAvailability a = a"

text \<open>Both branches of the Go switch send the empty and every unknown string to \<open>active\<close>.\<close>

definition check_verify :: "app_verify \<Rightarrow> go_error + app_verify option" where
  "check_verify n =
     (if av_Strategy n = [] then Inl (GoErr ''verify.strategy is required when verify is provided'')
      else if av_Strategy n = ''primitive'' then
        (if av_Primitive n = [] then Inl (GoErr (''verify.strategy '' @ go_quote ''primitive'' @ '' requires verify.primitive''))
         else if av_Command n \<noteq> [] then Inl (GoErr (''verify.strategy '' @ go_quote ''primitive'' @ '' cannot include verify.command''))
         else Inr (Some n))
      else if av_Strategy n = ''command'' then
        (if av_Command n = [] then Inl (GoErr (''verify.strategy '' @ go_quote ''command'' @ '' requires verify.command''))
         else if av_Primitive n \<noteq> [] then Inl (GoErr (''verify.strategy '' @ go_quote ''command'' @ '' cannot include verify.primitive''))
         else Inr (Some n))
      else if av_Strategy n = ''none'' then
        (if av_Primitive n \<noteq> [] \<or> av_Command n \<noteq> []
         then Inl (GoErr (''verify.strategy '' @ go_quote ''none'' @ '' cannot include verify.primitive or verify.command''))
         else Inr (Some n))
      else Inl (GoErr (''unsupported verify.strategy '' @ go_quote (av_Strategy n))))"

definition normalizeAppPrimitiveVerify ::
  "string \<Rightarrow> app_verify option \<Rightarrow> go_error + app_verify option" where
  "normalizeAppPrimitiveVerify legacy0 verify =
     (let legacy = trim_space legacy0 in
      case verify of
        None \<Rightarrow>
          (if legacy = [] then Inr None
           else Inr (Some \<lparr>av_Strategy = ''primitive'', av_Primitive = legacy, av_Command = []\<rparr>))
      | Some v \<Rightarrow>
          (let n = \<lparr>av_Strategy = trim_space (av_Strategy v), av_Primitive = trim_space (av_Primitive v),
                    av_Command = trim_space (av_Command v)\<rparr>
           in if legacy \<noteq> [] then
                (if av_Strategy n = [] \<or> av_Strategy n = ''primitive'' then
                   (if av_Primitive n = []
                    then check_verify (n\<lparr>av_Primitive := legacy, av_Strategy := ''primitive''\<rparr>)
                    else if av_Primitive n \<noteq> legacy
                    then Inl (GoErr (''verify_endpoint '' @ go_quote legacy @
                               '' conflicts with verify.primitive '' @ go_quote (av_Primitive n)))
                    else check_verify (n\<lparr>av_Strategy := ''primitive''\<rparr>))
                 else Inl (GoErr (''verify_endpoint cannot be combined with verify.strategy='' @
                             go_quote (av_Strategy n))))
              else check_verify n))"

definition check_rollback :: "app_rollback \<Rightarrow> go_error + app_rollback option" where
  "check_rollback n =
     (if ar_Strategy n = [] then Inl (GoErr ''rollback.strategy is required when rollback is provided'')
      else if ar_Strategy n = ''primitive'' then
        (if ar_Primitive n = [] then Inl (GoErr (''rollback.strategy '' @ go_quote ''primitive'' @ '' requires rollback.primitive''))
         else Inr (Some n))
      else if ar_Strategy n = ''none'' then
        (if ar_Primitive n \<noteq> [] then Inl (GoErr (''rollback.strategy '' @ go_quote ''none'' @ '' cannot include rollback.primitive''))
         else Inr (Some n))
      else Inl (GoErr (''unsupported rollback.strategy '' @ go_quote (ar_Strategy n))))"

definition normalizeAppPrimitiveRollback ::
  "string \<Rightarrow> app_rollback option \<Rightarrow> go_error + app_rollback option" where
  "normalizeAppPrimitiveRollback legacy0 rollback =
     (let legacy = trim_space legacy0 in
      case rollback of
        None \<Rightarrow>
          (if legacy = [] then Inr None
           else Inr (Some \<lparr>ar_Strategy = ''primitive'', ar_Primitive = legacy\<rparr>))
      | Some v \<Rightarrow>
          (let n = \<lparr>ar_Strategy = trim_space (ar_Strategy v), ar_Primitive = trim_space (ar_Primitive v)\<rparr>
           in if legacy \<noteq> [] then
                (if ar_Strategy n = [] \<or> ar_Strategy n = ''primitive'' then
                   (if ar_Primitive n = []
                    then check_rollback (n\<lparr>ar_Primitive := legacy, ar_Strategy := ''primitive''\<rparr>)
                    else if ar_Primitive n \<noteq> legacy
                    then Inl (GoErr (''rollback_endpoint '' @ go_quote legacy @
                               '' conflicts with rollback.primitive '' @ go_quote (ar_Primitive n)))
                    else check_rollback (n\<lparr>ar_Strategy := ''primitive''\<rparr>))
                 else Inl (GoErr (''rollback_endpoint cannot be combined with rollback.strategy='' @
                             go_quote (ar_Strategy n))))
              else check_rollback n))"

fun is_nonempty_string :: "json \<Rightarrow> bool" where
  "is_nonempty_string (JStr s) = (s \<noteq> [])"
| "is_nonempty_string _ = False"

definition validateManifestSchemaObject :: "jmap \<Rightarrow> go_error option" where
  "validateManifestSchemaObject schema =
     (let type_err = (case jget schema ''type'' of
            None \<Rightarrow> None
          | Some j \<Rightarrow> (if \<not> is_nonempty_string j
                       then Some (GoErr (go_quote ''type'' @ '' must be a non-empty string when present''))
                       else if j \<noteq> JStr ''object'' then Some (GoErr (''top-level '' @ go_quote ''type'' @ '' must be '' @ go_quote ''object''))
                       else None));
          props_err = (case jget schema ''properties'' of
            None \<Rightarrow> None
          | Some (JObj _) \<Rightarrow> None
          | Some _ \<Rightarrow> Some (GoErr (go_quote ''properties'' @ '' must be an object'')));
          req_err = (case jget schema ''required'' of
            None \<Rightarrow> None
          | Some (JArr items) \<Rightarrow>
              (if list_all is_nonempty_string items then None
               else Some (GoErr (go_quote ''required'' @ '' must be an array of strings'')))
          | Some _ \<Rightarrow> Some (GoErr (go_quote ''required'' @ '' must be an array of strings'')))
      in case type_err of Some e \<Rightarrow> Some e
         | None \<Rightarrow> (case props_err of Some e \<Rightarrow> Some e | None \<Rightarrow> req_err))"

definition schema_document :: "json option \<Rightarrow> go_error + raw" where
  "schema_document doc =
     (case doc of
        None \<Rightarrow> Inl (GoErr ''must be valid JSON'')
      | Some (JObj m) \<Rightarrow>
          (case validateManifestSchemaObject m of
             Some e \<Rightarrow> Inl e
           | None \<Rightarrow> Inr (json_marshal (json_canon (JObj m))))
      | Some _ \<Rightarrow> Inl (GoErr ''must be a JSON object''))"

fun NormalizeAppManifestSchema :: "raw \<Rightarrow> go_error + raw" where
  "NormalizeAppManifestSchema RawNil = Inr (Raw (JObj []))"
| "NormalizeAppManifestSchema (RawText s) =
     (case trim_space s of
        [] \<Rightarrow> Inr (Raw (JObj []))
      | c # _ \<Rightarrow> if c = CHR 0x22 then Inl json_error else Inl (GoErr ''must be valid JSON''))"
| "NormalizeAppManifestSchema (Raw JNull) = Inr (Raw (JObj []))"
| "NormalizeAppManifestSchema (Raw (JStr encoded)) =
     (let t = trim_space encoded in
      if t = [] then Inr (Raw (JObj [])) else schema_document (json_parse t))"
| "NormalizeAppManifestSchema (Raw j) = schema_document (Some j)"

definition NormalizeAppPrimitiveManifest :: "app_manifest \<Rightarrow> go_error + app_manifest" where
  "NormalizeAppPrimitiveManifest manifest =
     (let n0 = cloneAppPrimitiveManifest manifest;
          n = n0\<lparr>mf_Availability := normalizeAppPrimitiveAvailability (mf_Availability n0),
                 mf_UILayoutHint := normalizeUILayoutHint (mf_UILayoutHint n0),
                 mf_VerifyEndpoint := trim_space (mf_VerifyEndpoint n0),
                 mf_RollbackEndpoint := trim_space (mf_RollbackEndpoint n0)\<rparr>
      in case validateAppPrimitiveName (mf_Name n) of
           Some e \<Rightarrow> Inl e
         | None \<Rightarrow>
        (case NormalizeAppManifestSchema (mf_InputSchema n) of
           Inl e \<Rightarrow> Inl (GoWrap ''invalid input_schema'' e)
         | Inr inputSchema \<Rightarrow>
        (case NormalizeAppManifestSchema (mf_OutputSchema n) of
           Inl e \<Rightarrow> Inl (GoWrap ''invalid output_schema'' e)
         | Inr outputSchema \<Rightarrow>
        (case normalizeAppPrimitiveVerify (mf_VerifyEndpoint n) (mf_Verify n) of
           Inl e \<Rightarrow> Inl (GoWrap ''invalid verify declaration'' e)
         | Inr verify \<Rightarrow>
        (case normalizeAppPrimitiveRollback (mf_RollbackEndpoint n) (mf_Rollback n) of
           Inl e \<Rightarrow> Inl (GoWrap ''invalid rollback declaration'' e)
         | Inr rollback \<Rightarrow>
             Inr (n\<lparr>mf_InputSchema := inputSchema, mf_OutputSchema := outputSchema,
                    mf_Verify := verify,
                    mf_VerifyEndpoint :=
                      (case verify of
                         Some v \<Rightarrow> if av_Strategy v = ''primitive'' then av_Primitive v else mf_VerifyEndpoint n
                       | None \<Rightarrow> mf_VerifyEndpoint n),
                    mf_Rollback := rollback,
                    mf_RollbackEndpoint :=
                      (case rollback of
                         Some r \<Rightarrow> if ar_Strategy r = ''primitive'' then ar_Primitive r else mf_RollbackEndpoint n
                       | None \<Rightarrow> mf_RollbackEndpoint n)\<rparr>))))))"

section \<open>The in-memory registry\<close>

type_synonym app_registry_state = "(string \<times> app_manifest) list"

definition NewInMemoryAppRegistry :: app_registry_state where
  "NewInMemoryAppRegistry = []"

definition app_conflict :: "string \<Rightarrow> string \<Rightarrow> go_error" where
  "app_conflict name owner = GoErr (''app_primitive_conflict: '' @ go_quote name @
     '' is already registered by app '' @ go_quote owner)"

definition set_availability :: "string \<Rightarrow> availability \<Rightarrow> app_manifest \<Rightarrow> app_manifest" where
  "set_availability app a m = (if mf_AppID m = app then m\<lparr>mf_Availability := a\<rparr> else m)"

definition mem_register ::
  "app_registry_state \<Rightarrow> app_manifest \<Rightarrow> app_registry_state \<times> go_error option" where
  "mem_register r manifest =
     (case NormalizeAppPrimitiveManifest manifest of
        Inl e \<Rightarrow> (r, Some e)
      | Inr normalized \<Rightarrow>
          (let reactivating = list_ex (\<lambda>(_, existing). mf_AppID existing = mf_AppID normalized \<and>
                                 mf_Availability existing = AppPrimitiveUnavailable) r
           in case map_of r (mf_Name normalized) of
                Some existing \<Rightarrow>
                  if mf_AppID existing \<noteq> mf_AppID normalized
                  then (r, Some (app_conflict (mf_Name normalized) (mf_AppID existing)))
                  else (AList.update (mf_Name normalized)
                          (cloneAppPrimitiveManifest (if reactivating
                             then normalized\<lparr>mf_Availability := AppPrimitiveActive\<rparr> else normalized))
                          (map (\<lambda>(k, m). (k, set_availability (mf_AppID normalized) AppPrimitiveActive m)) r), None)
              | None \<Rightarrow>
                  (AList.update (mf_Name normalized)
                     (cloneAppPrimitiveManifest (if reactivating
                        then normalized\<lparr>mf_Availability := AppPrimitiveActive\<rparr> else normalized))
                     (map (\<lambda>(k, m). (k, set_availability (mf_AppID normalized) AppPrimitiveActive m)) r), None)))"

text \<open>The in-memory \<open>Unregister\<close> ignores the application id.\<close>

definition mem_unregister :: "app_registry_state \<Rightarrow> string \<Rightarrow> string \<Rightarrow> app_registry_state \<times> go_error option" where
  "mem_unregister r appID name = (AList.delete name r, None)"

definition mem_get :: "app_registry_state \<Rightarrow> string \<Rightarrow> app_manifest option" where
  "mem_get r name = map_option cloneAppPrimitiveManifest (map_of r name)"

text \<open>\<open>sort.Slice\<close> by name; names are unique, so the result does not depend on the sort used.\<close>

definition mem_list :: "app_registry_state \<Rightarrow> app_manifest list" where
  "mem_list r = sort_key mf_Name (map (cloneAppPrimitiveManifest \<circ> snd) r)"

definition mem_mark_unavailable :: "app_registry_state \<Rightarrow> string \<Rightarrow> app_registry_state \<times> go_error option" where
  "mem_mark_unavailable r appID =
     (map (\<lambda>(k, m). (k, set_availability appID AppPrimitiveUnavailable m)) r, None)"

section \<open>Normalisation\<close>

lemma cloneJSON_idem [simp]: "cloneJSON (cloneJSON r) = cloneJSON r"
  by (auto simp: cloneJSON_def)

lemma clone_manifest_sel [simp]:
  "mf_AppID (cloneAppPrimitiveManifest m) = mf_AppID m"
  "mf_Name (cloneAppPrimitiveManifest m) = mf_Name m"
  "mf_Intent (cloneAppPrimitiveManifest m) = mf_Intent m"
  "mf_Verify (cloneAppPrimitiveManifest m) = mf_Verify m"
  "mf_Rollback (cloneAppPrimitiveManifest m) = mf_Rollback m"
  "mf_Availability (cloneAppPrimitiveManifest m) = mf_Availability m"
  by (simp_all add: cloneAppPrimitiveManifest_def)

lemma validateManifestSchemaObject_canon:
  "validateManifestSchemaObject m = None \<Longrightarrow>
   validateManifestSchemaObject (sort_keys (map (map_prod id json_canon) m)) = None"
proof -
  have str: "is_nonempty_string (json_canon j) = is_nonempty_string j"
    and obj: "json_canon j = JStr s \<longleftrightarrow> j = JStr s" for j s
    by (cases j; simp)+
  have all: "list_all is_nonempty_string (map json_canon xs) = list_all is_nonempty_string xs" for xs
    by (induction xs) (simp_all add: str)
  assume "validateManifestSchemaObject m = None"
  then show ?thesis
    by (auto simp: validateManifestSchemaObject_def jget_sort_keys_canon Let_def str obj all
        split: option.splits if_splits json.splits)
qed

lemma schema_document_idem:
  "schema_document doc = Inr r \<Longrightarrow> NormalizeAppManifestSchema r = Inr r"
  by (auto simp: schema_document_def json_marshal_def validateManifestSchemaObject_canon
      json_canon_idem [of "JObj m" for m, simplified]
      split: option.splits json.splits)

lemma schema_result_object: "NormalizeAppManifestSchema r = Inr r' \<Longrightarrow> \<exists>m. r' = Raw (JObj m)"
  by (cases r rule: NormalizeAppManifestSchema.cases)
    (auto simp: schema_document_def json_marshal_def Let_def
      split: list.splits if_splits option.splits json.splits)

lemma schema_document_empty [simp]: "schema_document (Some (JObj [])) = Inr (Raw (JObj []))"
  by (simp add: schema_document_def validateManifestSchemaObject_def json_marshal_def sort_keys_def)

lemma NormalizeAppManifestSchema_idem:
  "NormalizeAppManifestSchema r = Inr r' \<Longrightarrow> NormalizeAppManifestSchema r' = Inr r'"
  by (cases r rule: NormalizeAppManifestSchema.cases)
    (auto simp: Let_def schema_document_idem split: list.splits if_splits)

definition wf_verify :: "app_verify \<Rightarrow> bool" where
  "wf_verify v =
     (trim_space (av_Strategy v) = av_Strategy v \<and> trim_space (av_Primitive v) = av_Primitive v \<and>
      trim_space (av_Command v) = av_Command v \<and>
      (av_Strategy v = ''primitive'' \<and> av_Primitive v \<noteq> [] \<and> av_Command v = [] \<or>
       av_Strategy v = ''command'' \<and> av_Command v \<noteq> [] \<and> av_Primitive v = [] \<or>
       av_Strategy v = ''none'' \<and> av_Primitive v = [] \<and> av_Command v = []))"

definition wf_rollback :: "app_rollback \<Rightarrow> bool" where
  "wf_rollback r =
     (trim_space (ar_Strategy r) = ar_Strategy r \<and> trim_space (ar_Primitive r) = ar_Primitive r \<and>
      (ar_Strategy r = ''primitive'' \<and> ar_Primitive r \<noteq> [] \<or>
       ar_Strategy r = ''none'' \<and> ar_Primitive r = []))"

lemma trim_space_primitive [simp]: "trim_space ''primitive'' = ''primitive''"
  by (simp add: trim_space_def trim_left_def is_space_def)

lemma check_verify_Inr:
  "check_verify n = Inr r \<Longrightarrow> trim_space (av_Strategy n) = av_Strategy n \<Longrightarrow>
   trim_space (av_Primitive n) = av_Primitive n \<Longrightarrow> trim_space (av_Command n) = av_Command n \<Longrightarrow>
   r = Some n \<and> wf_verify n"
  by (auto simp: check_verify_def wf_verify_def split: if_splits)

lemma wf_verify_check: "wf_verify n \<Longrightarrow> check_verify n = Inr (Some n)"
  by (auto simp: check_verify_def wf_verify_def)

lemma check_rollback_Inr:
  "check_rollback n = Inr r \<Longrightarrow> trim_space (ar_Strategy n) = ar_Strategy n \<Longrightarrow>
   trim_space (ar_Primitive n) = ar_Primitive n \<Longrightarrow> r = Some n \<and> wf_rollback n"
  by (auto simp: check_rollback_def wf_rollback_def split: if_splits)

lemma wf_rollback_check: "wf_rollback n \<Longrightarrow> check_rollback n = Inr (Some n)"
  by (auto simp: check_rollback_def wf_rollback_def)

text \<open>
  The endpoint the normalised manifest carries: the declared primitive for the strategy
  \<open>primitive\<close>, else the legacy endpoint, which an accepted declaration of another strategy
  leaves empty.
\<close>

lemma normalize_verify_Inr:
  assumes "normalizeAppPrimitiveVerify legacy v = Inr r"
  shows "(r = None \<and> trim_space legacy = []) \<or>
         (\<exists>n. r = Some n \<and> wf_verify n \<and> (av_Strategy n \<noteq> ''primitive'' \<longrightarrow> trim_space legacy = []))"
proof (cases v)
  case None
  with assms show ?thesis
    by (auto simp: normalizeAppPrimitiveVerify_def Let_def wf_verify_def split: if_splits)
next
  case (Some v')
  with assms show ?thesis
    by (auto simp: normalizeAppPrimitiveVerify_def Let_def split: if_splits dest!: check_verify_Inr)
qed

lemma normalize_rollback_Inr:
  assumes "normalizeAppPrimitiveRollback legacy v = Inr r"
  shows "(r = None \<and> trim_space legacy = []) \<or>
         (\<exists>n. r = Some n \<and> wf_rollback n \<and> (ar_Strategy n \<noteq> ''primitive'' \<longrightarrow> trim_space legacy = []))"
proof (cases v)
  case None
  with assms show ?thesis
    by (auto simp: normalizeAppPrimitiveRollback_def Let_def wf_rollback_def split: if_splits)
next
  case (Some v')
  with assms show ?thesis
    by (auto simp: normalizeAppPrimitiveRollback_def Let_def split: if_splits dest!: check_rollback_Inr)
qed

lemma normalize_verify_wf:
  "wf_verify n \<Longrightarrow> av_Strategy n = ''primitive'' \<Longrightarrow>
     normalizeAppPrimitiveVerify (av_Primitive n) (Some n) = Inr (Some n)"
  "wf_verify n \<Longrightarrow> av_Strategy n \<noteq> ''primitive'' \<Longrightarrow> normalizeAppPrimitiveVerify [] (Some n) = Inr (Some n)"
  by (auto simp: normalizeAppPrimitiveVerify_def wf_verify_def check_verify_def)

lemma normalize_rollback_wf:
  "wf_rollback n \<Longrightarrow> ar_Strategy n = ''primitive'' \<Longrightarrow>
     normalizeAppPrimitiveRollback (ar_Primitive n) (Some n) = Inr (Some n)"
  "wf_rollback n \<Longrightarrow> ar_Strategy n \<noteq> ''primitive'' \<Longrightarrow> normalizeAppPrimitiveRollback [] (Some n) = Inr (Some n)"
  by (auto simp: normalizeAppPrimitiveRollback_def wf_rollback_def check_rollback_def)

text \<open>Normalised manifests, independently of how they were obtained.\<close>

definition normal_manifest :: "app_manifest \<Rightarrow> bool" where
  "normal_manifest m =
     (validateAppPrimitiveName (mf_Name m) = None \<and>
      normalizeAppPrimitiveAvailability (mf_Availability m) = mf_Availability m \<and>
      normalizeUILayoutHint (mf_UILayoutHint m) = mf_UILayoutHint m \<and>
      NormalizeAppManifestSchema (mf_InputSchema m) = Inr (mf_InputSchema m) \<and>
      NormalizeAppManifestSchema (mf_OutputSchema m) = Inr (mf_OutputSchema m) \<and>
      (case mf_Verify m of
         None \<Rightarrow> mf_VerifyEndpoint m = []
       | Some v \<Rightarrow> wf_verify v \<and>
           mf_VerifyEndpoint m = (if av_Strategy v = ''primitive'' then av_Primitive v else [])) \<and>
      (case mf_Rollback m of
         None \<Rightarrow> mf_RollbackEndpoint m = []
       | Some r \<Rightarrow> wf_rollback r \<and>
           mf_RollbackEndpoint m = (if ar_Strategy r = ''primitive'' then ar_Primitive r else [])))"

lemma UILayoutHint_idem [simp]:
  "normalizeUILayoutHint (normalizeUILayoutHint s) = normalizeUILayoutHint s"
  by (simp add: normalizeUILayoutHint_def)

lemma availability_idem [simp]:
  "normalizeAppPrimitiveAvailability (normalizeAppPrimitiveAvailability a) =
   normalizeAppPrimitiveAvailability a"
  by (cases a) simp_all

lemma Normalize_InrE:
  assumes "NormalizeAppPrimitiveManifest m = Inr n"
  obtains inS outS v r where "validateAppPrimitiveName (mf_Name m) = None"
    "NormalizeAppManifestSchema (cloneJSON (mf_InputSchema m)) = Inr inS"
    "NormalizeAppManifestSchema (cloneJSON (mf_OutputSchema m)) = Inr outS"
    "normalizeAppPrimitiveVerify (trim_space (mf_VerifyEndpoint m)) (mf_Verify m) = Inr v"
    "normalizeAppPrimitiveRollback (trim_space (mf_RollbackEndpoint m)) (mf_Rollback m) = Inr r"
    "n = m\<lparr>mf_Availability := normalizeAppPrimitiveAvailability (mf_Availability m),
            mf_UILayoutHint := normalizeUILayoutHint (mf_UILayoutHint m),
            mf_InputSchema := inS, mf_OutputSchema := outS, mf_Verify := v,
            mf_VerifyEndpoint := (case v of
               Some v' \<Rightarrow> if av_Strategy v' = ''primitive'' then av_Primitive v' else trim_space (mf_VerifyEndpoint m)
             | None \<Rightarrow> trim_space (mf_VerifyEndpoint m)),
            mf_Rollback := r,
            mf_RollbackEndpoint := (case r of
               Some r' \<Rightarrow> if ar_Strategy r' = ''primitive'' then ar_Primitive r' else trim_space (mf_RollbackEndpoint m)
             | None \<Rightarrow> trim_space (mf_RollbackEndpoint m))\<rparr>"
proof -
  from assms obtain inS outS v r where f: "validateAppPrimitiveName (mf_Name m) = None"
    "NormalizeAppManifestSchema (cloneJSON (mf_InputSchema m)) = Inr inS"
    "NormalizeAppManifestSchema (cloneJSON (mf_OutputSchema m)) = Inr outS"
    "normalizeAppPrimitiveVerify (trim_space (mf_VerifyEndpoint m)) (mf_Verify m) = Inr v"
    "normalizeAppPrimitiveRollback (trim_space (mf_RollbackEndpoint m)) (mf_Rollback m) = Inr r"
    by (simp add: NormalizeAppPrimitiveManifest_def cloneAppPrimitiveManifest_def Let_def
        split: option.split_asm(1) sum.split_asm)
  from assms f show thesis
    by (intro that [OF f])
      (simp add: NormalizeAppPrimitiveManifest_def cloneAppPrimitiveManifest_def Let_def
        cong: if_cong option.case_cong)
qed

lemma Normalize_normal:
  assumes "NormalizeAppPrimitiveManifest m = Inr n"
  shows "normal_manifest n" "mf_Name n = mf_Name m" "mf_AppID n = mf_AppID m" "mf_Intent n = mf_Intent m"
    "mf_Availability n = normalizeAppPrimitiveAvailability (mf_Availability m)"
proof -
  from assms obtain inS outS v r where
    name: "validateAppPrimitiveName (mf_Name m) = None" and
    schemas: "NormalizeAppManifestSchema inS = Inr inS" "NormalizeAppManifestSchema outS = Inr outS" and
    v: "normalizeAppPrimitiveVerify (trim_space (mf_VerifyEndpoint m)) (mf_Verify m) = Inr v" and
    r: "normalizeAppPrimitiveRollback (trim_space (mf_RollbackEndpoint m)) (mf_Rollback m) = Inr r" and
    n: "n = m\<lparr>mf_Availability := normalizeAppPrimitiveAvailability (mf_Availability m),
            mf_UILayoutHint := normalizeUILayoutHint (mf_UILayoutHint m),
            mf_InputSchema := inS, mf_OutputSchema := outS, mf_Verify := v,
            mf_VerifyEndpoint := (case v of
               Some v' \<Rightarrow> if av_Strategy v' = ''primitive'' then av_Primitive v' else trim_space (mf_VerifyEndpoint m)
             | None \<Rightarrow> trim_space (mf_VerifyEndpoint m)),
            mf_Rollback := r,
            mf_RollbackEndpoint := (case r of
               Some r' \<Rightarrow> if ar_Strategy r' = ''primitive'' then ar_Primitive r' else trim_space (mf_RollbackEndpoint m)
             | None \<Rightarrow> trim_space (mf_RollbackEndpoint m))\<rparr>"
    by (elim Normalize_InrE) (blast intro: NormalizeAppManifestSchema_idem)
  have "case v of None \<Rightarrow> mf_VerifyEndpoint n = []
        | Some v' \<Rightarrow> wf_verify v' \<and>
            mf_VerifyEndpoint n = (if av_Strategy v' = ''primitive'' then av_Primitive v' else [])"
    using normalize_verify_Inr [OF v] by (auto simp: n)
  moreover have "case r of None \<Rightarrow> mf_RollbackEndpoint n = []
        | Some r' \<Rightarrow> wf_rollback r' \<and>
            mf_RollbackEndpoint n = (if ar_Strategy r' = ''primitive'' then ar_Primitive r' else [])"
    using normalize_rollback_Inr [OF r] by (auto simp: n)
  moreover have "mf_Verify n = v" "mf_Rollback n = r" "mf_InputSchema n = inS" "mf_OutputSchema n = outS"
    "mf_Name n = mf_Name m" "mf_UILayoutHint n = normalizeUILayoutHint (mf_UILayoutHint m)"
    "mf_Availability n = normalizeAppPrimitiveAvailability (mf_Availability m)"
    by (simp_all add: n)
  ultimately show "normal_manifest n" using name schemas by (simp add: normal_manifest_def)
  show "mf_Name n = mf_Name m" "mf_AppID n = mf_AppID m" "mf_Intent n = mf_Intent m"
    "mf_Availability n = normalizeAppPrimitiveAvailability (mf_Availability m)"
    by (simp_all add: n)
qed

lemma normal_clone: "normal_manifest m \<Longrightarrow> cloneAppPrimitiveManifest m = m"
proof -
  assume "normal_manifest m"
  then obtain a b where "mf_InputSchema m = Raw (JObj a)" "mf_OutputSchema m = Raw (JObj b)"
    unfolding normal_manifest_def by (metis schema_result_object)
  then show ?thesis by (simp add: cloneAppPrimitiveManifest_def cloneJSON_def)
qed

lemma Normalize_fixed: "normal_manifest m \<Longrightarrow> NormalizeAppPrimitiveManifest m = Inr m"
proof -
  assume n: "normal_manifest m"
  then have "trim_space (mf_VerifyEndpoint m) = mf_VerifyEndpoint m"
    and "trim_space (mf_RollbackEndpoint m) = mf_RollbackEndpoint m"
    and "normalizeAppPrimitiveVerify (mf_VerifyEndpoint m) (mf_Verify m) = Inr (mf_Verify m)"
    and "normalizeAppPrimitiveRollback (mf_RollbackEndpoint m) (mf_Rollback m) = Inr (mf_Rollback m)"
    by (auto simp: normal_manifest_def normalize_verify_wf normalize_rollback_wf wf_verify_def wf_rollback_def
        normalizeAppPrimitiveVerify_def [of "[]" None] normalizeAppPrimitiveRollback_def [of "[]" None]
        split: option.splits if_splits)
  with n normal_clone [OF n] show ?thesis
    by (auto simp: NormalizeAppPrimitiveManifest_def normal_manifest_def Let_def split: option.splits)
qed

text \<open>
  Normalisation reaches a fixed point in one pass. Whatever manifest is accepted, the
  normalised manifest keeps its name, application and intent, satisfies every rule of the
  declaration language (reserved namespaces, object schemas, well-formed verify and rollback
  declarations, endpoints that agree with them), and normalising it again changes nothing.
\<close>

theorem Normalize_idempotent:
  assumes "NormalizeAppPrimitiveManifest m = Inr n"
  shows "NormalizeAppPrimitiveManifest n = Inr n \<and> normal_manifest n \<and>
         mf_Name n = mf_Name m \<and> mf_AppID n = mf_AppID m \<and> mf_Intent n = mf_Intent m"
  using Normalize_normal [OF assms] Normalize_fixed by blast

definition demo_manifest :: app_manifest where
  "demo_manifest = \<lparr>mf_AppID = ''kv'', mf_Name = ''kv.set'', mf_Description = [], mf_InputSchema = RawNil,
     mf_OutputSchema = Raw JNull, mf_UILayoutHint = '' Form'', mf_SocketPath = ''/s'',
     mf_Availability = AvailabilityOther [], mf_VerifyEndpoint = ''kv.check '', mf_Verify = None,
     mf_RollbackEndpoint = [], mf_Rollback = Some \<lparr>ar_Strategy = ''primitive'', ar_Primitive = ''kv.undo''\<rparr>,
     mf_Intent = demo_intent\<rparr>"

definition demo_normal :: app_manifest where
  "demo_normal = demo_manifest\<lparr>mf_InputSchema := Raw (JObj []), mf_OutputSchema := Raw (JObj []),
     mf_UILayoutHint := ''form'', mf_Availability := AppPrimitiveActive, mf_VerifyEndpoint := ''kv.check'',
     mf_Verify := Some \<lparr>av_Strategy = ''primitive'', av_Primitive = ''kv.check'', av_Command = []\<rparr>,
     mf_RollbackEndpoint := ''kv.undo''\<rparr>"

lemma demo_normalize: "NormalizeAppPrimitiveManifest demo_manifest = Inr demo_normal"
  by code_simp

theorem Normalize_idempotent_witness:
  "NormalizeAppPrimitiveManifest demo_manifest = Inr demo_normal \<and>
   NormalizeAppPrimitiveManifest demo_normal = Inr demo_normal"
  using demo_normalize Normalize_idempotent [OF demo_normalize] by blast

section \<open>Histories of a registry\<close>

datatype reg_op = OpRegister app_manifest | OpUnregister string string | OpMarkUnavailable string

fun reg_step ::
  "('s \<Rightarrow> app_manifest \<Rightarrow> 's \<times> go_error option) \<Rightarrow> ('s \<Rightarrow> string \<Rightarrow> string \<Rightarrow> 's \<times> go_error option)
   \<Rightarrow> ('s \<Rightarrow> string \<Rightarrow> 's \<times> go_error option) \<Rightarrow> reg_op \<Rightarrow> 's \<Rightarrow> 's" where
  "reg_step register unregister mark (OpRegister m) s = fst (register s m)"
| "reg_step register unregister mark (OpUnregister a k) s = fst (unregister s a k)"
| "reg_step register unregister mark (OpMarkUnavailable a) s = fst (mark s a)"

definition mem_run :: "reg_op list \<Rightarrow> app_registry_state \<Rightarrow> app_registry_state" where
  "mem_run ops r = fold (reg_step mem_register mem_unregister mem_mark_unavailable) ops r"

section \<open>The registry contract\<close>

text \<open>
  What a client of \<open>AppPrimitiveRegistry\<close> may rely on, whichever registry it talks to. The
  operations are those of the Go interface, \<open>reg_get\<close> the manifest a working lookup finds, and
  \<open>reg_inv\<close> the implementation's invariant. An operation that returns an error leaves every lookup as it was.
  The availability a registration ends with is left open: the two implementations differ.
\<close>

locale app_registry =
  fixes reg_register :: "'s \<Rightarrow> app_manifest \<Rightarrow> 's \<times> go_error option"
    and reg_unregister :: "'s \<Rightarrow> string \<Rightarrow> string \<Rightarrow> 's \<times> go_error option"
    and reg_get :: "'s \<Rightarrow> string \<Rightarrow> app_manifest option"
    and reg_mark :: "'s \<Rightarrow> string \<Rightarrow> 's \<times> go_error option"
    and reg_inv :: "'s \<Rightarrow> bool"
  assumes register_failed: "reg_inv s \<Longrightarrow> reg_register s m = (s', Some e) \<Longrightarrow> reg_get s' = reg_get s"
    and register_inv: "reg_inv s \<Longrightarrow> reg_inv (fst (reg_register s m))"
    and register_get: "reg_inv s \<Longrightarrow> reg_register s m = (s', None) \<Longrightarrow>
          \<exists>n a. NormalizeAppPrimitiveManifest m = Inr n \<and> reg_get s' (mf_Name m) = Some (n\<lparr>mf_Availability := a\<rparr>)"
    and register_other: "reg_inv s \<Longrightarrow> reg_register s m = (s', None) \<Longrightarrow> k \<noteq> mf_Name m \<Longrightarrow>
          reg_get s' k = map_option (set_availability (mf_AppID m) AppPrimitiveActive) (reg_get s k)"
    and register_conflict: "reg_inv s \<Longrightarrow> reg_get s (mf_Name m) = Some m' \<Longrightarrow> mf_AppID m' \<noteq> mf_AppID m \<Longrightarrow>
          snd (reg_register s m) \<noteq> None"
    and unregister_inv: "reg_inv s \<Longrightarrow> reg_inv (fst (reg_unregister s a k))"
    and unregister_own: "reg_inv s \<Longrightarrow> reg_unregister s a k = (s', None) \<Longrightarrow> reg_get s k = Some m \<Longrightarrow> mf_AppID m = a \<Longrightarrow>
          reg_get s' = (reg_get s)(k := None)"
    and unregister_other: "reg_inv s \<Longrightarrow> k' \<noteq> k \<Longrightarrow> reg_get (fst (reg_unregister s a k)) k' = reg_get s k'"
    and unregister_failed: "reg_inv s \<Longrightarrow> reg_unregister s a k = (s', Some e) \<Longrightarrow> reg_get s' = reg_get s"
    and mark_inv: "reg_inv s \<Longrightarrow> reg_inv (fst (reg_mark s a))"
    and mark_get: "reg_inv s \<Longrightarrow> reg_mark s a = (s', None) \<Longrightarrow>
          reg_get s' k = map_option (set_availability a AppPrimitiveUnavailable) (reg_get s k)"
    and mark_failed: "reg_inv s \<Longrightarrow> reg_mark s a = (s', Some e) \<Longrightarrow> reg_get s' = reg_get s"
    and get_normal: "reg_inv s \<Longrightarrow> reg_get s k = Some m \<Longrightarrow> mf_Name m = k \<and> normal_manifest m"
begin

text \<open>An accepted registration is looked up with the declared intent and checks.\<close>

lemma registered_intent:
  assumes "reg_inv s" and "reg_register s m = (s', None)"
  shows "\<exists>m'. reg_get s' (mf_Name m) = Some m' \<and> mf_Intent m' = mf_Intent m \<and> mf_AppID m' = mf_AppID m"
proof -
  from register_get [OF assms] obtain n a where n: "NormalizeAppPrimitiveManifest m = Inr n"
    "reg_get s' (mf_Name m) = Some (n\<lparr>mf_Availability := a\<rparr>)" by blast
  with Normalize_normal(3,4) [OF n(1)] show ?thesis by simp
qed

text \<open>No lookup ever returns a primitive in a reserved system namespace.\<close>

lemma reserved_absent:
  assumes "reg_inv s" and "p \<in> set reservedSystemPrimitiveNamespaces" and "has_prefix k p"
  shows "reg_get s k = None"
proof (rule ccontr)
  assume "reg_get s k \<noteq> None"
  then obtain m where "reg_get s k = Some m" by blast
  with get_normal [OF assms(1)] have "validateAppPrimitiveName k = None"
    by (auto simp: normal_manifest_def)
  with assms(2,3) show False
    by (auto simp: validateAppPrimitiveName_def filter_empty_conv split: list.splits)
qed

text \<open>A registered name keeps its owner under every operation but \<open>Unregister\<close> of that name.\<close>

lemma register_keeps_owner:
  assumes "reg_inv s" and "reg_get s k = Some m"
  shows "\<exists>m'. reg_get (fst (reg_register s n)) k = Some m' \<and> mf_AppID m' = mf_AppID m"
proof (cases "snd (reg_register s n)")
  case (Some e)
  then have "reg_register s n = (fst (reg_register s n), Some e)" by (metis prod.collapse)
  from register_failed [OF assms(1) this] assms(2) show ?thesis by simp
next
  case None
  then have r: "reg_register s n = (fst (reg_register s n), None)" by (metis prod.collapse)
  show ?thesis
  proof (cases "k = mf_Name n")
    case False
    with register_other [OF assms(1) r] assms(2) show ?thesis
      by (simp add: set_availability_def)
  next
    case True
    with None register_conflict [OF assms(1), of n m] assms(2) have "mf_AppID m = mf_AppID n" by auto
    with registered_intent [OF assms(1) r] True show ?thesis by auto
  qed
qed

lemma mark_keeps_owner:
  assumes "reg_inv s" and "reg_get s k = Some m"
  shows "\<exists>m'. reg_get (fst (reg_mark s a)) k = Some m' \<and> mf_AppID m' = mf_AppID m"
proof -
  obtain s' eo where r: "reg_mark s a = (s', eo)" by fastforce
  show ?thesis
  proof (cases eo)
    case None
    with mark_get [OF assms(1)] r assms(2) show ?thesis by (simp add: set_availability_def)
  next
    case (Some e)
    with mark_failed [OF assms(1)] r assms(2) show ?thesis by simp
  qed
qed

lemma step_inv: "reg_inv s \<Longrightarrow> reg_inv (reg_step reg_register reg_unregister reg_mark op s)"
  by (cases op) (simp_all add: register_inv unregister_inv mark_inv)

lemma run_inv: "reg_inv s \<Longrightarrow> reg_inv (fold (reg_step reg_register reg_unregister reg_mark) ops s)"
  by (induction ops arbitrary: s) (simp_all add: step_inv)

lemma run_keeps_owner:
  "reg_inv s \<Longrightarrow> reg_get s k = Some m \<Longrightarrow> \<forall>a. OpUnregister a k \<notin> set ops \<Longrightarrow>
   \<exists>m'. reg_get (fold (reg_step reg_register reg_unregister reg_mark) ops s) k = Some m' \<and>
        mf_AppID m' = mf_AppID m"
proof (induction ops arbitrary: s m)
  case Nil
  then show ?case by simp
next
  case (Cons op ops)
  have "\<exists>m'. reg_get (reg_step reg_register reg_unregister reg_mark op s) k = Some m' \<and> mf_AppID m' = mf_AppID m"
    using Cons.prems by (cases op) (auto simp: register_keeps_owner unregister_other mark_keeps_owner)
  then obtain m1 where m1: "reg_get (reg_step reg_register reg_unregister reg_mark op s) k = Some m1"
    "mf_AppID m1 = mf_AppID m" by blast
  from Cons.prems(3) have "\<forall>a. OpUnregister a k \<notin> set ops" by simp
  from Cons.IH [OF step_inv [OF Cons.prems(1)] m1(1) this] m1(2) show ?case by simp
qed

end

section \<open>The in-memory registry fulfils the contract\<close>

definition mem_inv :: "app_registry_state \<Rightarrow> bool" where
  "mem_inv r = (distinct (map fst r) \<and>
     (\<forall>k m. map_of r k = Some m \<longrightarrow> mf_Name m = k \<and> normal_manifest m))"

lemma map_of_map_snd: "map_of (map (\<lambda>(k, m). (k, f m)) r) k = map_option f (map_of r k)"
  by (induction r) auto

lemma set_availability_sel [simp]:
  "mf_Name (set_availability app a m) = mf_Name m"
  "mf_AppID (set_availability app a m) = mf_AppID m"
  "mf_Intent (set_availability app a m) = mf_Intent m"
  by (simp_all add: set_availability_def)

lemma normal_set_availability:
  "normal_manifest m \<Longrightarrow> normalizeAppPrimitiveAvailability a = a \<Longrightarrow> normal_manifest (set_availability app a m)"
  by (simp add: set_availability_def normal_manifest_def split: option.splits)

lemma normal_availability_update:
  "normal_manifest m \<Longrightarrow> normal_manifest (m\<lparr>mf_Availability := AppPrimitiveActive\<rparr>)"
  by (simp add: normal_manifest_def split: option.splits)

lemma mem_get_eq: "mem_inv r \<Longrightarrow> mem_get r k = map_of r k"
  by (cases "map_of r k") (auto simp: mem_get_def mem_inv_def normal_clone)

lemma mem_inv_map:
  "mem_inv r \<Longrightarrow> normalizeAppPrimitiveAvailability a = a \<Longrightarrow>
   mem_inv (map (\<lambda>(k, m). (k, set_availability app a m)) r)"
  by (auto simp: mem_inv_def comp_def case_prod_unfold map_of_map_snd [unfolded case_prod_unfold]
      normal_set_availability)

lemma mem_inv_update: "mem_inv r \<Longrightarrow> normal_manifest m \<Longrightarrow> mf_Name m = k \<Longrightarrow> mem_inv (AList.update k m r)"
  by (auto simp: mem_inv_def AList.distinct_update AList.update_conv split: if_splits)

lemma mem_inv_delete: "mem_inv r \<Longrightarrow> mem_inv (AList.delete k r)"
  by (auto simp: mem_inv_def AList.distinct_delete AList.delete_conv split: if_splits)

text \<open>The two outcomes of \<open>Register\<close>.\<close>

lemma mem_register_cases:
  assumes "mem_register r m = (r', eo)"
  obtains (rejected) e where "eo = Some e" "r' = r"
  | (accepted) n a where "eo = None" "NormalizeAppPrimitiveManifest m = Inr n"
      "\<And>m'. map_of r (mf_Name m) = Some m' \<Longrightarrow> mf_AppID m' = mf_AppID m"
      "a \<in> {mf_Availability n, AppPrimitiveActive}"
      "r' = AList.update (mf_Name m) (n\<lparr>mf_Availability := a\<rparr>)
              (map (\<lambda>(k, x). (k, set_availability (mf_AppID m) AppPrimitiveActive x)) r)"
proof (cases eo)
  case (Some e)
  with assms have "r' = r"
    by (auto simp: mem_register_def Let_def split: sum.splits option.splits if_splits)
  with Some show ?thesis by (rule rejected)
next
  case None
  with assms obtain n where n: "NormalizeAppPrimitiveManifest m = Inr n"
    by (auto simp: mem_register_def split: sum.splits)
  note nn = Normalize_normal [OF n]
  let ?re = "list_ex (\<lambda>(_, x). mf_AppID x = mf_AppID n \<and> mf_Availability x = AppPrimitiveUnavailable) r"
  let ?a = "if ?re then AppPrimitiveActive else mf_Availability n"
  have "cloneAppPrimitiveManifest (if ?re then n\<lparr>mf_Availability := AppPrimitiveActive\<rparr> else n) =
        n\<lparr>mf_Availability := ?a\<rparr>"
    using normal_clone [OF nn(1)] normal_clone [OF normal_availability_update [OF nn(1)]] by simp
  with assms None n nn(2,3) show ?thesis
    by (intro accepted [OF None n, of ?a])
      (auto simp: mem_register_def Let_def split: option.splits if_splits)
qed

lemma mem_register_inv: "mem_inv r \<Longrightarrow> mem_inv (fst (mem_register r m))"
proof -
  assume inv: "mem_inv r"
  obtain r' eo where reg: "mem_register r m = (r', eo)" by fastforce
  then show ?thesis
  proof (cases rule: mem_register_cases)
    case rejected
    with inv reg show ?thesis by simp
  next
    case (accepted n a)
    note nn = Normalize_normal [OF accepted(2)]
    from accepted(4) nn(1) have "normal_manifest (n\<lparr>mf_Availability := a\<rparr>)"
      by (auto simp: normal_manifest_def split: option.splits)
    with accepted(5) nn(2) reg inv show ?thesis
      by (simp add: mem_inv_update mem_inv_map)
  qed
qed

interpretation mem_reg: app_registry mem_register mem_unregister mem_get mem_mark_unavailable mem_inv
proof (unfold_locales, goal_cases)
  case (1 s m s' e)
  from 1(2) show ?case by (cases rule: mem_register_cases) simp_all
next
  case (2 s m)
  then show ?case by (rule mem_register_inv)
next
  case (3 s m s')
  then have "mem_inv s'" using mem_register_inv [of s m] by simp
  with 3(2) show ?case by (cases rule: mem_register_cases) (auto simp: mem_get_eq AList.update_conv)
next
  case (4 s m s' k)
  then have "mem_inv s'" using mem_register_inv [of s m] by simp
  with 4(2) 4 show ?case
    by (cases rule: mem_register_cases) (auto simp: mem_get_eq AList.update_conv map_of_map_snd)
next
  case (5 s m m')
  obtain s' eo where r: "mem_register s m = (s', eo)" by fastforce
  then show ?case
  proof (cases rule: mem_register_cases)
    case rejected
    with r show ?thesis by simp
  next
    case (accepted n a)
    from 5 have "map_of s (mf_Name m) = Some m'" by (simp add: mem_get_eq)
    with accepted(3) 5(3) show ?thesis by blast
  qed
next
  case (6 s a k)
  then show ?case by (simp add: mem_unregister_def mem_inv_delete)
next
  case (7 s a k s' m)
  then have "s' = AList.delete k s" by (simp add: mem_unregister_def)
  with 7 show ?case by (intro ext) (simp add: mem_get_eq mem_inv_delete AList.delete_conv)
next
  case (8 s k' k a)
  then show ?case by (simp add: mem_unregister_def mem_get_eq mem_inv_delete AList.delete_conv)
next
  case (9 s a k s' e)
  then show ?case by (simp add: mem_unregister_def)
next
  case (10 s a)
  then show ?case by (simp add: mem_mark_unavailable_def mem_inv_map)
next
  case (11 s a s' k)
  then have "s' = map (\<lambda>(k, m). (k, set_availability a AppPrimitiveUnavailable m)) s" by (simp add: mem_mark_unavailable_def)
  with 11 show ?case by (simp add: mem_get_eq mem_inv_map map_of_map_snd)
next
  case (12 s a s' e)
  then show ?case by (simp add: mem_mark_unavailable_def)
next
  case (13 s k m)
  then show ?case by (simp add: mem_get_eq mem_inv_def)
qed

section \<open>Properties of the in-memory registry\<close>

lemma mem_inv_empty: "mem_inv NewInMemoryAppRegistry"
  by (simp add: mem_inv_def NewInMemoryAppRegistry_def)

text \<open>
  The reserved system namespaces stay the system's. After any history of registrations,
  unregistrations and availability changes on a new in-memory registry, looking up a name in a
  reserved namespace finds nothing, and every manifest that is found is in normal form and
  carries the name it was looked up by.
\<close>

theorem mem_registry_namespace_safe:
  "(\<forall>p \<in> set reservedSystemPrimitiveNamespaces. has_prefix k p \<longrightarrow>
      mem_get (mem_run ops NewInMemoryAppRegistry) k = None) \<and>
   (\<forall>m. mem_get (mem_run ops NewInMemoryAppRegistry) k = Some m \<longrightarrow>
      mf_Name m = k \<and> NormalizeAppPrimitiveManifest m = Inr m)"
proof -
  have "mem_inv (mem_run ops NewInMemoryAppRegistry)"
    unfolding mem_run_def by (rule mem_reg.run_inv [OF mem_inv_empty])
  then show ?thesis
    using mem_reg.reserved_absent mem_reg.get_normal Normalize_fixed by blast
qed

theorem mem_registry_namespace_safe_witness:
  "mem_get (mem_run [OpRegister (demo_manifest\<lparr>mf_Name := ''fs.write''\<rparr>), OpRegister demo_manifest]
      NewInMemoryAppRegistry) ''fs.write'' = None \<and>
   (\<exists>m. mem_get (mem_run [OpRegister (demo_manifest\<lparr>mf_Name := ''fs.write''\<rparr>), OpRegister demo_manifest]
      NewInMemoryAppRegistry) ''kv.set'' = Some m \<and> NormalizeAppPrimitiveManifest m = Inr m)"
proof -
  let ?ops = "[OpRegister (demo_manifest\<lparr>mf_Name := ''fs.write''\<rparr>), OpRegister demo_manifest]"
  have "has_prefix ''fs.write'' ''fs.''" "''fs.'' \<in> set reservedSystemPrimitiveNamespaces"
    by (simp_all add: has_prefix_def reservedSystemPrimitiveNamespaces_def)
  then have none: "mem_get (mem_run ?ops NewInMemoryAppRegistry) ''fs.write'' = None"
    using mem_registry_namespace_safe by blast
  have "mem_get (mem_run ?ops NewInMemoryAppRegistry) ''kv.set'' \<noteq> None" by code_simp
  then obtain m where "mem_get (mem_run ?ops NewInMemoryAppRegistry) ''kv.set'' = Some m" by blast
  with none mem_registry_namespace_safe [of "''kv.set''" ?ops] show ?thesis by blast
qed

text \<open>
  A name keeps its owner. Once a name is registered in an in-memory registry, no history
  without an unregistration of that very name makes a lookup of it fail or return a manifest
  of another application: a second application's registration of the name is refused.
\<close>

theorem mem_registry_owner_stable:
  assumes "mem_get (mem_run ops NewInMemoryAppRegistry) k = Some m"
    and "\<forall>a. OpUnregister a k \<notin> set later"
  shows "\<exists>m'. mem_get (mem_run (ops @ later) NewInMemoryAppRegistry) k = Some m' \<and> mf_AppID m' = mf_AppID m"
proof -
  have "mem_inv (mem_run ops NewInMemoryAppRegistry)"
    unfolding mem_run_def by (rule mem_reg.run_inv [OF mem_inv_empty])
  from mem_reg.run_keeps_owner [OF this assms] show ?thesis by (simp add: mem_run_def)
qed

theorem mem_registry_owner_stable_witness:
  "\<exists>m'. mem_get (mem_run ([OpRegister demo_manifest] @ [OpRegister (demo_manifest\<lparr>mf_AppID := ''evil''\<rparr>),
       OpMarkUnavailable ''kv'']) NewInMemoryAppRegistry) ''kv.set'' = Some m' \<and> mf_AppID m' = ''kv''"
proof -
  have "map_option mf_AppID (mem_get (mem_run [OpRegister demo_manifest] NewInMemoryAppRegistry) ''kv.set'') = Some ''kv''"
    by code_simp
  then obtain m where m: "mem_get (mem_run [OpRegister demo_manifest] NewInMemoryAppRegistry) ''kv.set'' = Some m"
    "mf_AppID m = ''kv''" by blast
  show ?thesis
    using mem_registry_owner_stable [OF m(1), of "[OpRegister (demo_manifest\<lparr>mf_AppID := ''evil''\<rparr>), OpMarkUnavailable ''kv'']"]
      m(2) by simp
qed

end
