(* ===== verification/Orchestrator.thy ===== *)
theory Orchestrator
  imports AppManifest
begin

text \<open>
  The task engine, \<open>internal/orchestrator\<close>: task and step types (\<open>executor.go\<close>), the
  recovery policy (\<open>recovery.go\<close>), app-declared verification (\<open>app_verify.go\<close>), the
  attempt loop with rollback (\<open>engine.go\<close>), the state tracker (\<open>state.go\<close>) and replay
  (\<open>replay.go\<close>). The primitive executor, the stores and the app registry act on a world
  \<open>'w\<close>. Log output is not modelled.
\<close>

section \<open>executor.go\<close>

datatype task_status =
    TaskPlanning | TaskExecuting | TaskVerifying | TaskRecovering | TaskCompleted | TaskFailed
  | TaskPaused | TaskOther string

datatype step_status =
  StepPending | StepRunning | StepPassed | StepFailed | StepSkipped | StepRolledBack

fun step_status_string :: "step_status \<Rightarrow> string" where
  "step_status_string StepPending = ''PENDING''"
| "step_status_string StepRunning = ''RUNNING''"
| "step_status_string StepPassed = ''PASSED''"
| "step_status_string StepFailed = ''FAILED''"
| "step_status_string StepSkipped = ''SKIPPED''"
| "step_status_string StepRolledBack = ''ROLLED_BACK''"

datatype step_failure =
    FailureEnvironment | FailureTestFail | FailureSyntax | FailureTimeout | FailureDuplicate
  | FailureUnknown

fun failure_string :: "step_failure \<Rightarrow> string" where
  "failure_string FailureEnvironment = ''ENVIRONMENT''"
| "failure_string FailureTestFail = ''TEST_FAILURE''"
| "failure_string FailureSyntax = ''SYNTAX_ERROR''"
| "failure_string FailureTimeout = ''TIMEOUT''"
| "failure_string FailureDuplicate = ''DUPLICATE_RETRY''"
| "failure_string FailureUnknown = ''UNKNOWN''"

record step_error =
  se_Kind :: step_failure
  se_Code :: string
  se_Message :: string
  se_Summary :: string

record step_result =
  sr_Success :: bool
  sr_Data :: raw
  sr_Error :: "step_error option"
  sr_Duration :: int

record step =
  st_ID :: string
  st_Primitive :: string
  st_Input :: raw
  st_Output :: raw
  st_Result :: "step_result option"
  st_CheckpointID :: string
  st_Status :: step_status
  st_Duration :: int
  st_StartedAt :: int
  st_CompletedAt :: int
  st_Error :: string
  st_Escalated :: bool

record task =
  tk_ID :: string
  tk_Description :: string
  tk_SandboxID :: string
  tk_Status :: task_status
  tk_Steps :: "step list"
  tk_RetryCount :: int
  tk_MaxRetries :: int
  tk_CreatedAt :: int
  tk_UpdatedAt :: int

section \<open>recovery.go\<close>

datatype action = ActionRetry | ActionPause | ActionFail | ActionContinue

definition policy_decide :: "step_failure \<Rightarrow> int \<Rightarrow> int \<Rightarrow> action" where
  "policy_decide kind attempt maxRetries =
     (if kind = FailureDuplicate then ActionPause
      else if attempt \<ge> maxRetries then ActionPause
      else ActionRetry)"

definition truncation_notice :: string where
  "truncation_notice =
     CHR 0x0A # ''... [error truncated to prevent context overflow] ...'' @ [CHR 0x0A]"

text \<open>\<open>None\<close> is the slice-bounds panic of a negative length; \<open>/\<close> truncates towards zero.\<close>

definition TruncateErrorForLLM :: "string \<Rightarrow> int \<Rightarrow> string option" where
  "TruncateErrorForLLM msg maxLen =
     (if int (length msg) \<le> maxLen then Some msg
      else let keepLen = sgn maxLen * (\<bar>maxLen\<bar> div 2)
           in if keepLen < 0 then None
              else Some (take (nat keepLen) msg @ truncation_notice @
                         drop (length msg - nat keepLen) msg))"

section \<open>runtrace.StepRecord\<close>

record trace_record =
  tr_TaskID :: string
  tr_TraceID :: string
  tr_SessionID :: string
  tr_AttemptID :: string
  tr_SandboxID :: string
  tr_StepID :: string
  tr_Primitive :: string
  tr_CheckpointID :: string
  tr_IntentSnapshot :: raw
  tr_LayerAOutcome :: string
  tr_StrategyName :: string
  tr_StrategyOutcome :: string
  tr_RecoveryPath :: string
  tr_AffectedScopes :: "string list"
  tr_CVRDepthExceeded :: bool
  tr_VerifyResult :: string
  tr_DurationMs :: int
  tr_FailureKind :: string
  tr_Timestamp :: int

section \<open>Encodings used by the engine\<close>

fun category_string :: "intent_category \<Rightarrow> string" where
  "category_string IntentMutation = ''mutation''"
| "category_string IntentQuery = ''query''"
| "category_string IntentVerification = ''verification''"
| "category_string IntentRollback = ''rollback''"
| "category_string (IntentOther s) = s"

fun risk_string :: "risk_level \<Rightarrow> string" where
  "risk_string RiskLow = ''low''"
| "risk_string RiskMedium = ''medium''"
| "risk_string RiskHigh = ''high''"
| "risk_string (RiskOther s) = s"

fun category_of :: "string \<Rightarrow> intent_category" where
  "category_of s =
     (if s = ''mutation'' then IntentMutation else if s = ''query'' then IntentQuery
      else if s = ''verification'' then IntentVerification else if s = ''rollback'' then IntentRollback else IntentOther s)"

fun risk_of :: "string \<Rightarrow> risk_level" where
  "risk_of s = (if s = ''low'' then RiskLow else if s = ''medium'' then RiskMedium else if s = ''high'' then RiskHigh else RiskOther s)"

text \<open>\<open>json.Marshal\<close> of an intent; an empty scope list is omitted.\<close>

definition intent_json :: "primitive_intent \<Rightarrow> json" where
  "intent_json i = JObj (
     [(''category'', JStr (category_string (Category i))), (''reversible'', JBool (Reversible i)),
      (''risk_level'', JStr (risk_string (RiskLevel i)))] @
     (if AffectedScopes i = [] then [] else [(''affected_scopes'', JArr (map JStr (AffectedScopes i)))]))"

fun outcome_string :: "verify_outcome \<Rightarrow> string" where
  "outcome_string VerifyOutcomePassed = ''passed''"
| "outcome_string VerifyOutcomeFailed = ''failed''"
| "outcome_string VerifyOutcomeSkipped = ''skipped''"
| "outcome_string VerifyOutcomeTimeout = ''timeout''"
| "outcome_string VerifyOutcomeError = ''error''"
| "outcome_string VerifyOutcomeNone = []"

fun hint_string :: "recover_hint \<Rightarrow> string" where
  "hint_string RecoverHintRollback = ''rollback''"
| "hint_string RecoverHintRetry = ''retry''"
| "hint_string RecoverHintEscalate = ''escalate''"
| "hint_string RecoverHintAbort = ''abort''"
| "hint_string RecoverHintRewrite = ''rewrite''"
| "hint_string RecoverHintSkip = ''skip''"
| "hint_string RecoverHintNone = []"

fun recovery_string :: "recovery_action \<Rightarrow> string" where
  "recovery_string RecoveryActionRetry = ''retry''"
| "recovery_string RecoveryActionRollback = ''rollback''"
| "recovery_string RecoveryActionRewrite = ''rewrite''"
| "recovery_string RecoveryActionSkip = ''skip''"
| "recovery_string RecoveryActionEscalate = ''escalate''"
| "recovery_string RecoveryActionAbort = ''abort''"
| "recovery_string RecoveryActionNone = []"

section \<open>app\_verify.go\<close>

definition unwrapVerifyPayload :: "jmap \<Rightarrow> jmap" where
  "unwrapVerifyPayload data =
     (if data = [] then []
      else case jget data ''result'' of
             None \<Rightarrow> data
           | Some nested \<Rightarrow> (case dec_map (Raw nested) of Inl _ \<Rightarrow> data | Inr m \<Rightarrow> m))"

text \<open>The first of the keys that is present and decodes as a boolean: \<open>(passed, explicit)\<close>.\<close>

fun payload_passed :: "string list \<Rightarrow> jmap \<Rightarrow> bool \<times> bool" where
  "payload_passed [] p = (False, False)"
| "payload_passed (k # ks) p =
     (case jget p k of
        None \<Rightarrow> payload_passed ks p
      | Some j \<Rightarrow> (case dec_bool (Raw j) of Inr b \<Rightarrow> (b, True) | Inl _ \<Rightarrow> payload_passed ks p))"

definition verifyPayloadPassed :: "jmap \<Rightarrow> bool \<times> bool" where
  "verifyPayloadPassed p = payload_passed [''passed'', ''ok'', ''consistent''] p"

fun payload_message :: "string list \<Rightarrow> jmap \<Rightarrow> string option" where
  "payload_message [] p = None"
| "payload_message (k # ks) p =
     (case jget p k of
        None \<Rightarrow> payload_message ks p
      | Some j \<Rightarrow> (case dec_string (Raw j) of
                     Inr s \<Rightarrow> if s \<noteq> [] then Some s else payload_message ks p
                   | Inl _ \<Rightarrow> payload_message ks p))"

definition verifyPayloadMessage :: "jmap \<Rightarrow> string \<Rightarrow> string" where
  "verifyPayloadMessage p fallback =
     (case payload_message [''summary'', ''message''] p of
        Some s \<Rightarrow> s
      | None \<Rightarrow>
          (case jget p ''problems'' of
             None \<Rightarrow> fallback
           | Some j \<Rightarrow> (case dec_strings (Raw j) of
                          (x # _, None) \<Rightarrow> x
                        | _ \<Rightarrow> fallback)))"

definition app_verify_run ::
  "app_verify \<Rightarrow> raw \<Rightarrow> 'a cvr_env \<Rightarrow> 'a \<Rightarrow> execute_result \<Rightarrow> checkpoint_manifest option
   \<Rightarrow> 'a \<times> (go_error + strategy_result)" where
  "app_verify_run verify params env w result manifest =
     (let start = sx_now env w in
      if av_Strategy verify \<noteq> ''primitive'' \<and> av_Strategy verify \<noteq> ''command'' then
        (w, Inr (zero_strategy_result\<lparr>Outcome := VerifyOutcomeError,
              Message := ''unsupported app verify strategy: '' @ av_Strategy verify,
              RecoverHint := RecoverHintRetry, DurationMs := sx_now env w - start\<rparr>))
      else
        (let (w', verifyResult, err) =
               (if av_Strategy verify = ''primitive''
                then sx_execute env w (av_Primitive verify) (ParamRaw params)
                else sx_execute env w ''verify.command''
                       (ParamVal (JObj [(''command'', JStr (av_Command verify))])));
             outcome = zero_strategy_result\<lparr>DurationMs := sx_now env w' - start\<rparr>
         in case err of
              Some e \<Rightarrow>
                (w', Inr (if e = DeadlineExceeded \<or> sx_ctx_err env w' = Some DeadlineExceeded
                   then outcome\<lparr>Outcome := VerifyOutcomeTimeout, RecoverHint := RecoverHintRetry,
                                Message := error_text e\<rparr>
                   else outcome\<lparr>Outcome := VerifyOutcomeFailed, RecoverHint := failed_hint manifest,
                                Message := error_text e\<rparr>))
            | None \<Rightarrow>
                (let payload = unwrapVerifyPayload (er_Data verifyResult);
                     (passed0, explicit0) = verifyPayloadPassed payload;
                     (passed, explicit) = (if \<not> er_Success verifyResult then (False, True)
                                           else (passed0, explicit0))
                 in (w', Inr
                   (if \<not> explicit
                    then outcome\<lparr>Outcome := VerifyOutcomePassed, Message := ''app verification passed''\<rparr>
                    else if passed
                    then outcome\<lparr>Outcome := VerifyOutcomePassed,
                           Message := verifyPayloadMessage payload ''app verification passed''\<rparr>
                    else outcome\<lparr>Outcome := VerifyOutcomeFailed,
                           Message := verifyPayloadMessage payload ''app verification failed'',
                           RecoverHint := failed_hint manifest,
                           Details := json_marshal (JObj [(''verify_method'', JStr (av_Primitive verify)),
                                        (''verify_strategy'', JStr (av_Strategy verify))])\<rparr>)))))"

definition newAppDeclaredVerifyStrategy :: "app_verify \<Rightarrow> raw \<Rightarrow> 'a verify_strategy" where
  "newAppDeclaredVerifyStrategy verify params =
     \<lparr>vs_name = ''app_declared:'' @ av_Strategy verify, vs_run = app_verify_run verify params\<rparr>"

section \<open>engine.go: the engine and its executor adapter\<close>

text \<open>\<open>cvrExecutorAdapter\<close>: the executor with the results it has seen.\<close>

record 'w adapter =
  ad_world :: 'w
  ad_main :: "step_result option"
  ad_last :: "step_result option"

record 'w engine =
  en_execute :: "'w \<Rightarrow> primitive_intent option \<Rightarrow> string \<Rightarrow> raw
                 \<Rightarrow> 'w \<times> step_result option \<times> go_error option"
  en_now :: "'w \<Rightarrow> int"
  en_ctx_err :: "'w \<Rightarrow> go_error option"
  en_trace :: "('w \<Rightarrow> trace_record \<Rightarrow> 'w) option"
  en_save :: "'w save_manifest option"
  en_strategy :: "'w adapter verify_strategy option"
  en_tree :: "decision_tree option"
  en_app_get :: "('w \<Rightarrow> string \<Rightarrow> go_error + app_manifest option) option"

definition result_execute_result :: "step_result \<Rightarrow> execute_result" where
  "result_execute_result r =
     \<lparr>er_Data = (if raw_len0 (sr_Data r) then []
                 else case dec_map (sr_Data r) of Inl _ \<Rightarrow> [] | Inr m \<Rightarrow> m),
      er_Success = sr_Success r,
      er_ErrMsg = (case sr_Error r of None \<Rightarrow> [] | Some e \<Rightarrow> se_Message e)\<rparr>"

definition adapter_execute ::
  "'w engine \<Rightarrow> primitive_intent option \<Rightarrow> string \<Rightarrow> 'w adapter \<Rightarrow> string \<Rightarrow> go_params
   \<Rightarrow> 'w adapter \<times> execute_result \<times> go_error option" where
  "adapter_execute e intent root a m p =
     (let rawParams = (case p of ParamRaw r \<Rightarrow> r | ParamVal j \<Rightarrow> json_marshal j);
          (w', result, err) = en_execute e (ad_world a) intent m rawParams;
          a' = a\<lparr>ad_world := w', ad_last := result, ad_main := (if m = root then result else ad_main a)\<rparr>
      in case result of
           None \<Rightarrow> (a', \<lparr>er_Data = [], er_Success = (err = None), er_ErrMsg = []\<rparr>, err)
         | Some r \<Rightarrow> (a', result_execute_result r, err))"

definition adapter_env :: "'w engine \<Rightarrow> primitive_intent option \<Rightarrow> string \<Rightarrow> 'w adapter cvr_env" where
  "adapter_env e intent root =
     \<lparr>sx_execute = adapter_execute e intent root,
      sx_now = (\<lambda>a. en_now e (ad_world a)),
      sx_ctx_err = (\<lambda>a. en_ctx_err e (ad_world a))\<rparr>"

text \<open>\<open>checkpointManifestStore\<close>: the configured store, else the one that drops manifests.\<close>

definition checkpointManifestStore :: "'w engine \<Rightarrow> 'w adapter save_manifest" where
  "checkpointManifestStore e =
     (case en_save e of
        None \<Rightarrow> (\<lambda>a m. (a, None))
      | Some save \<Rightarrow> (\<lambda>a m. let (w', err) = save (ad_world a) m in (a\<lparr>ad_world := w'\<rparr>, err)))"

definition cvrDecisionTree :: "'w engine \<Rightarrow> decision_tree" where
  "cvrDecisionTree e = (case en_tree e of Some t \<Rightarrow> t | None \<Rightarrow> NewDefaultDecisionTree)"

definition persistTraceRecord :: "'w engine \<Rightarrow> 'w \<Rightarrow> trace_record \<Rightarrow> 'w" where
  "persistTraceRecord e w r = (case en_trace e of None \<Rightarrow> w | Some f \<Rightarrow> f w r)"

definition lookupAppManifest :: "'w engine \<Rightarrow> 'w \<Rightarrow> string \<Rightarrow> app_manifest option" where
  "lookupAppManifest e w p =
     (case en_app_get e of
        None \<Rightarrow> None
      | Some get \<Rightarrow> (case get w p of Inl _ \<Rightarrow> None | Inr m \<Rightarrow> m))"

definition query_intent :: primitive_intent where
  "query_intent = \<lparr>Category = IntentQuery, Reversible = True, RiskLevel = RiskLow, AffectedScopes = []\<rparr>"

definition verification_intent :: primitive_intent where
  "verification_intent =
     \<lparr>Category = IntentVerification, Reversible = True, RiskLevel = RiskMedium, AffectedScopes = []\<rparr>"

definition rollback_intent :: primitive_intent where
  "rollback_intent = \<lparr>Category = IntentRollback, Reversible = True, RiskLevel = RiskHigh, AffectedScopes = []\<rparr>"

definition mutation_intent :: primitive_intent where
  "mutation_intent = \<lparr>Category = IntentMutation, Reversible = False, RiskLevel = RiskHigh, AffectedScopes = []\<rparr>"

definition query_prefixes :: "string list" where
  "query_prefixes = [''fs.read'', ''fs.list'', ''fs.diff'', ''code.search'', ''code.symbols'',
     ''db.query'', ''browser.goto'', ''browser.read'']"

definition verification_prefixes :: "string list" where
  "verification_prefixes = [''verify.'', ''test.'', ''repo.run_tests'']"

definition mutation_prefixes :: "string list" where
  "mutation_prefixes = [''fs.write'', ''macro.safe_edit'', ''repo.patch'', ''db.execute'', ''shell.exec'']"

definition inferPrimitiveIntent :: "'w engine \<Rightarrow> 'w \<Rightarrow> string \<Rightarrow> primitive_intent" where
  "inferPrimitiveIntent e w p =
     (if list_ex (has_prefix p) query_prefixes then query_intent
      else if list_ex (has_prefix p) verification_prefixes then verification_intent
      else if p = ''state.restore'' then rollback_intent
      else if list_ex (has_prefix p) mutation_prefixes then mutation_intent
      else case lookupAppManifest e w p of
             Some m \<Rightarrow> mf_Intent m
           | None \<Rightarrow> mutation_intent)"

definition resolveVerifyStrategy ::
  "'w engine \<Rightarrow> 'w \<Rightarrow> string \<Rightarrow> raw \<Rightarrow> 'a verify_strategy option \<times> bool" where
  "resolveVerifyStrategy e w p params =
     (case lookupAppManifest e w p of
        None \<Rightarrow> (None, False)
      | Some m \<Rightarrow>
          (case mf_Verify m of
             None \<Rightarrow> (None, False)
           | Some v \<Rightarrow>
               (if av_Strategy v = ''none'' then (None, True)
                else if av_Strategy v = ''primitive'' \<or> av_Strategy v = ''command''
                then (Some (newAppDeclaredVerifyStrategy v params), True)
                else (None, False))))"

section \<open>engine.go: rollback\<close>

definition shouldFailClosedWithoutRollback :: "app_manifest \<Rightarrow> bool" where
  "shouldFailClosedWithoutRollback m =
     (if mf_Rollback m \<noteq> None then False
      else if Category (mf_Intent m) \<noteq> IntentMutation then False
      else \<not> Reversible (mf_Intent m) \<or> RiskLevel (mf_Intent m) = RiskHigh)"

definition shouldPreferDeclaredRollback :: "app_manifest option \<Rightarrow> cvr_result \<Rightarrow> bool" where
  "shouldPreferDeclaredRollback manifest result =
     (case manifest of
        None \<Rightarrow> False
      | Some m \<Rightarrow>
          (if mf_Rollback m = None then False
           else if Category (mf_Intent m) \<noteq> IntentMutation then False
           else Outcome (StrategyResult result) \<in>
                  {VerifyOutcomeFailed, VerifyOutcomeError, VerifyOutcomeTimeout}))"

definition executeWorkspaceRestore ::
  "'w engine \<Rightarrow> 'w \<Rightarrow> string \<Rightarrow> string \<Rightarrow> 'w \<times> go_error option" where
  "executeWorkspaceRestore e w checkpointID primitive =
     (if checkpointID = [] then
        (w, Some (GoErr (''rollback requested but no checkpoint_id available for '' @ primitive)))
      else
        (let (w', _, err) = en_execute e w None ''state.restore''
               (json_marshal (JObj [(''checkpoint_id'', JStr checkpointID)]))
         in (w', map_option (GoWrap (''rollback failed for checkpoint '' @ checkpointID)) err)))"

text \<open>\<open>var original map[string]any\<close>: an object or null, the nil map printing as null.\<close>

fun dec_params_map :: "raw \<Rightarrow> json decoded" where
  "dec_params_map (Raw (JObj m)) = Inr (json_canon (JObj m))"
| "dec_params_map (Raw JNull) = Inr JNull"
| "dec_params_map _ = Inl json_error"

definition buildAppRollbackParams ::
  "string \<Rightarrow> raw \<Rightarrow> step_result option \<Rightarrow> cvr_result \<Rightarrow> go_error + raw" where
  "buildAppRollbackParams primitiveID originalParams execResult cvrResult =
     (let original = (if raw_len0 originalParams then Inr JNull else dec_params_map originalParams);
          resultData = (case execResult of
                          Some r \<Rightarrow> if raw_len0 (sr_Data r) then Inr JNull else dec_any (sr_Data r)
                        | None \<Rightarrow> Inr JNull);
          sr = StrategyResult cvrResult
      in case original of
           Inl err \<Rightarrow> Inl (GoWrap ''decode original params'' err)
         | Inr orig \<Rightarrow>
             (case resultData of
                Inl err \<Rightarrow> Inl (GoWrap ''decode execution result'' err)
              | Inr rd \<Rightarrow> Inr (json_marshal (JObj (
                  [(''primitive'', JStr primitiveID), (''checkpoint_id'', JStr (CheckpointID cvrResult)),
                   (''params'', orig), (''execution_error'', JStr (Message sr))] @
                  (if rd \<noteq> JNull then [(''result'', rd)] else []) @
                  (if Outcome sr \<noteq> VerifyOutcomeNone
                   then [(''verify'', JObj [(''outcome'', JStr (outcome_string (Outcome sr))),
                           (''message'', JStr (Message sr)),
                           (''recover_hint'', JStr (hint_string (RecoverHint sr)))])]
                   else []))))))"

definition executeAppRollback ::
  "'w engine \<Rightarrow> 'w \<Rightarrow> string \<Rightarrow> raw \<Rightarrow> step_result option \<Rightarrow> cvr_result \<Rightarrow> app_manifest
   \<Rightarrow> 'w \<times> go_error option" where
  "executeAppRollback e w stepPrimitive originalParams execResult cvrResult manifest =
     (case mf_Rollback manifest of
        None \<Rightarrow> (w, None)
      | Some rb \<Rightarrow>
          (if ar_Strategy rb \<noteq> ''primitive'' then (w, None)
           else if ar_Primitive rb = [] then
             (w, Some (GoErr (''rollback declaration for '' @ stepPrimitive @
                        '' resolved to an empty primitive'')))
           else if ar_Primitive rb = ''state.restore''
             then executeWorkspaceRestore e w (CheckpointID cvrResult) stepPrimitive
           else case buildAppRollbackParams stepPrimitive originalParams execResult cvrResult of
                  Inl err \<Rightarrow> (w, Some (GoWrap (''rollback payload for '' @ stepPrimitive) err))
                | Inr params \<Rightarrow>
                    (let (w', _, err) = en_execute e w None (ar_Primitive rb) params
                     in (w', map_option (GoWrap (''app rollback failed for '' @ stepPrimitive @
                                '' via '' @ ar_Primitive rb)) err))))"

definition executeDeclaredRollback ::
  "'w engine \<Rightarrow> 'w \<Rightarrow> string \<Rightarrow> raw \<Rightarrow> step_result option \<Rightarrow> cvr_result \<Rightarrow> app_manifest option
   \<Rightarrow> 'w \<times> go_error option" where
  "executeDeclaredRollback e w stepPrimitive originalParams execResult cvrResult manifest =
     (let workspace = (\<lambda>w'. executeWorkspaceRestore e w' (CheckpointID cvrResult) stepPrimitive) in
      case manifest of
        None \<Rightarrow>
          (if CheckpointID cvrResult = []
           then (w, Some (GoErr (''rollback requested but no checkpoint_id available for '' @ stepPrimitive)))
           else workspace w)
      | Some m \<Rightarrow>
          (if shouldFailClosedWithoutRollback m then
             (w, Some (GoErr (''app rollback required for '' @ stepPrimitive @
                '': primitive mutates app-owned state and has no rollback declaration; '' @
                ''state.restore alone does not recover app state'')))
           else case mf_Rollback m of
             Some rb \<Rightarrow>
               (let (w', err) = executeAppRollback e w stepPrimitive originalParams execResult cvrResult m
                in case err of
                     Some er \<Rightarrow> (w', Some er)
                   | None \<Rightarrow>
                       (if ar_Strategy rb = ''primitive'' \<and> ar_Primitive rb = ''state.restore'' then (w', None)
                        else if CheckpointID cvrResult = [] then (w', None)
                        else workspace w'))
           | None \<Rightarrow>
               (if CheckpointID cvrResult = []
                then (w, Some (GoErr (''rollback requested but no checkpoint_id available for '' @ stepPrimitive)))
                else workspace w)))"

section \<open>engine.go: one attempt of a step\<close>

definition attempt_intent :: "'w engine \<Rightarrow> 'w \<Rightarrow> step \<Rightarrow> primitive_intent" where
  "attempt_intent e w s = inferPrimitiveIntent e w (st_Primitive s)"

definition attempt_request :: "'w engine \<Rightarrow> task \<Rightarrow> int \<Rightarrow> 'w \<Rightarrow> step \<Rightarrow> 'w adapter cvr_request" where
  "attempt_request e t attempt w s =
     (let intent = attempt_intent e w s;
          (strategy, disable) = resolveVerifyStrategy e w (st_Primitive s) (st_Input s)
      in \<lparr>rq_PrimitiveID = st_Primitive s, rq_SandboxID = tk_SandboxID t, rq_Intent = intent,
          rq_Params = ParamRaw (st_Input s),
          rq_Exec = Some (adapter_env e (Some intent) (st_Primitive s)),
          rq_TraceID = tk_ID t @ '':'' @ st_ID s, rq_StepID = st_ID s, rq_Attempt = attempt,
          rq_CVRDepth = 0, rq_VerifyStrategy = strategy, rq_DisableVerifyStrategy = disable\<rparr>)"

definition attempt_coordinator :: "'w engine \<Rightarrow> 'w adapter cvr_coordinator" where
  "attempt_coordinator e =
     NewCVRCoordinator (Some (checkpointManifestStore e)) (en_strategy e) (Some (cvrDecisionTree e))"

text \<open>The CVR call of an attempt, on a fresh adapter.\<close>

definition attempt_cvr ::
  "'w engine \<Rightarrow> task \<Rightarrow> int \<Rightarrow> 'w \<Rightarrow> step \<Rightarrow> 'w adapter \<times> cvr_result \<times> go_error option" where
  "attempt_cvr e t attempt w s =
     cvr_execute (attempt_coordinator e) \<lparr>ad_world = w, ad_main = None, ad_last = None\<rparr>
       (attempt_request e t attempt w s)"

definition attempt_result :: "'w adapter \<Rightarrow> step_result option" where
  "attempt_result a = (case ad_main a of Some r \<Rightarrow> Some r | None \<Rightarrow> ad_last a)"

definition attempt_record ::
  "'w engine \<Rightarrow> task \<Rightarrow> int \<Rightarrow> 'w \<Rightarrow> step \<Rightarrow> int \<Rightarrow> step_result option \<Rightarrow> cvr_result
   \<Rightarrow> go_error option \<Rightarrow> trace_record" where
  "attempt_record e t attempt w s duration result cvrResult err =
     (let intent = attempt_intent e w s;
          req = attempt_request e t attempt w s;
          kind = (case result of
                    Some r \<Rightarrow> (case sr_Error r of
                                 Some er \<Rightarrow> to_lower (failure_string (se_Kind er))
                               | None \<Rightarrow> [])
                  | None \<Rightarrow> [])
      in \<lparr>tr_TaskID = tk_ID t, tr_TraceID = tk_ID t @ '':'' @ st_ID s, tr_SessionID = tk_ID t,
          tr_AttemptID = ''attempt-'' @ itoa (attempt + 1), tr_SandboxID = tk_SandboxID t,
          tr_StepID = st_ID s, tr_Primitive = st_Primitive s,
          tr_CheckpointID = CheckpointID cvrResult, tr_IntentSnapshot = json_marshal (intent_json intent),
          tr_LayerAOutcome = LayerAOutcome cvrResult,
          tr_StrategyName =
            (case rq_VerifyStrategy req of
               Some st \<Rightarrow> vs_name st
             | None \<Rightarrow> (case en_strategy e of
                          Some st \<Rightarrow> if rq_DisableVerifyStrategy req then [] else vs_name st
                        | None \<Rightarrow> [])),
          tr_StrategyOutcome = outcome_string (Outcome (StrategyResult cvrResult)),
          tr_RecoveryPath = recovery_string (AppliedAction cvrResult),
          tr_AffectedScopes = AffectedScopes intent,
          tr_CVRDepthExceeded = err_is err ErrCVRDepthExceeded,
          tr_VerifyResult = outcome_string (Outcome (StrategyResult cvrResult)),
          tr_DurationMs = duration,
          tr_FailureKind = (if err \<noteq> None \<and> kind = [] then ''exec_error'' else kind),
          tr_Timestamp = en_now e w\<rparr>)"

definition result_error :: "step_result option \<Rightarrow> step_error option" where
  "result_error result = (case result of None \<Rightarrow> None | Some r \<Rightarrow> sr_Error r)"

text \<open>\<open>lastErr\<close>: the error of an attempt that did not pass.\<close>

definition attempt_error :: "go_error option \<Rightarrow> step_result option \<Rightarrow> cvr_result \<Rightarrow> go_error" where
  "attempt_error err result cvrResult =
     (case err of
        Some e \<Rightarrow> e
      | None \<Rightarrow>
          (case result_error result of
             Some se \<Rightarrow> GoErr (se_Message se)
           | None \<Rightarrow> (if Message (StrategyResult cvrResult) \<noteq> []
                      then GoErr (Message (StrategyResult cvrResult))
                      else GoErr ''cvr execution failed'')))"

definition attempt_kind :: "step_result option \<Rightarrow> step_failure" where
  "attempt_kind result = (case result_error result of Some se \<Rightarrow> se_Kind se | None \<Rightarrow> FailureUnknown)"

definition attempt_recovery :: "app_manifest option \<Rightarrow> cvr_result \<Rightarrow> recovery_action" where
  "attempt_recovery manifest cvrResult =
     (if shouldPreferDeclaredRollback manifest cvrResult then RecoveryActionRollback
      else AppliedAction cvrResult)"

text \<open>The first switch: what the recovery action does and which legacy action it becomes.\<close>

definition apply_recovery ::
  "'w engine \<Rightarrow> 'w \<Rightarrow> step \<Rightarrow> int \<Rightarrow> int \<Rightarrow> step_result option \<Rightarrow> cvr_result \<Rightarrow> app_manifest option
   \<Rightarrow> go_error \<Rightarrow> 'w \<times> step \<times> go_error \<times> action" where
  "apply_recovery e w s attempt maxRetries result cvrResult manifest lastErr =
     (case attempt_recovery manifest cvrResult of
        RecoveryActionRetry \<Rightarrow>
          (w, s, lastErr, if attempt \<ge> maxRetries
                          then policy_decide (attempt_kind result) attempt maxRetries else ActionRetry)
      | RecoveryActionRollback \<Rightarrow>
          (let (w', rerr) = executeDeclaredRollback e w (st_Primitive s) (st_Input s) result cvrResult manifest
           in case rerr of
                Some er \<Rightarrow> (w', s, er, ActionFail)
              | None \<Rightarrow> (w', s\<lparr>st_Status := StepRolledBack\<rparr>, lastErr, ActionPause))
      | RecoveryActionEscalate \<Rightarrow> (w, s\<lparr>st_Escalated := True\<rparr>, lastErr, ActionPause)
      | RecoveryActionRewrite \<Rightarrow> (w, s\<lparr>st_Escalated := True\<rparr>, lastErr, ActionPause)
      | RecoveryActionAbort \<Rightarrow> (w, s, lastErr, ActionFail)
      | RecoveryActionSkip \<Rightarrow> (w, s, lastErr, ActionContinue)
      | RecoveryActionNone \<Rightarrow>
          (w, s, lastErr, policy_decide (attempt_kind result) attempt maxRetries))"

datatype attempt_outcome =
    AttemptReturn "step_result option" "go_error option"
  | AttemptAgain go_error

text \<open>The second switch: how the attempt ends. The \<open>%v\<close> verbs flatten the error to its text.\<close>

definition finish_attempt :: "step \<Rightarrow> go_error \<Rightarrow> action \<Rightarrow> step \<times> attempt_outcome" where
  "finish_attempt s lastErr act =
     (case act of
        ActionRetry \<Rightarrow> (s, AttemptAgain lastErr)
      | ActionPause \<Rightarrow>
          (if st_Status s \<noteq> StepRolledBack then s\<lparr>st_Status := StepFailed\<rparr> else s,
           AttemptReturn None (Some (GoErr (''step '' @ st_Primitive s @ '' paused: '' @ error_text lastErr))))
      | ActionFail \<Rightarrow>
          (s\<lparr>st_Status := StepFailed\<rparr>,
           AttemptReturn None (Some (GoErr (''terminal failure for '' @ st_Primitive s @ '': '' @
                                            error_text lastErr))))
      | ActionContinue \<Rightarrow>
          (s\<lparr>st_Status := StepSkipped\<rparr>,
           AttemptReturn (Some \<lparr>sr_Success = True, sr_Data = RawNil, sr_Error = None, sr_Duration = 0\<rparr>) None))"

definition passed_attempt :: "go_error option \<Rightarrow> cvr_result \<Rightarrow> step_result option \<Rightarrow> bool" where
  "passed_attempt err cvrResult result =
     (err = None \<and> Passed cvrResult \<and> (case result of Some r \<Rightarrow> sr_Success r | None \<Rightarrow> False))"

definition run_attempt ::
  "'w engine \<Rightarrow> task \<Rightarrow> int \<Rightarrow> int \<Rightarrow> 'w \<Rightarrow> step \<Rightarrow> 'w \<times> step \<times> attempt_outcome" where
  "run_attempt e t maxRetries attempt w s =
     (let manifest = lookupAppManifest e w (st_Primitive s);
          (a, cvrResult, err) = attempt_cvr e t attempt w s;
          w1 = ad_world a;
          duration = en_now e w1 - en_now e w;
          result = attempt_result a;
          s1 = s\<lparr>st_Status := StepRunning, st_StartedAt := en_now e w, st_Duration := duration,
                 st_CheckpointID := CheckpointID cvrResult\<rparr>;
          w2 = persistTraceRecord e w1 (attempt_record e t attempt w s duration result cvrResult err)
      in if err_is err ErrCVRDepthExceeded
         then (w2, s1\<lparr>st_Status := StepFailed\<rparr>, AttemptReturn None err)
         else if passed_attempt err cvrResult result then (w2, s1, AttemptReturn result None)
         else
           (let (w3, s2, lastErr, act) =
                  apply_recovery e w2 s1 attempt maxRetries result cvrResult manifest
                    (attempt_error err result cvrResult);
                (s3, out) = finish_attempt s2 lastErr act
            in (w3, s3, out)))"

section \<open>engine.go: the attempt loop and the task\<close>

text \<open>
  \<open>for attempt := 0; attempt <= maxRetries; attempt++\<close>: the natural number is the number of
  iterations left.
\<close>

fun attempt_loop ::
  "'w engine \<Rightarrow> task \<Rightarrow> int \<Rightarrow> nat \<Rightarrow> int \<Rightarrow> 'w \<Rightarrow> step \<Rightarrow> go_error option
   \<Rightarrow> 'w \<times> step \<times> step_result option \<times> go_error option" where
  "attempt_loop e t maxRetries 0 attempt w s lastErr =
     (w, s, None, Some (GoErr (''step '' @ st_Primitive s @ '' failed after '' @ itoa maxRetries @
        '' attempts: '' @ (case lastErr of None \<Rightarrow> ''<nil>'' | Some er \<Rightarrow> error_text er))))"
| "attempt_loop e t maxRetries (Suc n) attempt w s lastErr =
     (case run_attempt e t maxRetries attempt w s of
        (w', s', AttemptReturn r err) \<Rightarrow> (w', s', r, err)
      | (w', s', AttemptAgain er) \<Rightarrow> attempt_loop e t maxRetries n (attempt + 1) w' s' (Some er))"

definition max_retries :: "task \<Rightarrow> int" where
  "max_retries t = (if tk_MaxRetries t > 0 then tk_MaxRetries t else 3)"

definition executeStepWithRecovery ::
  "'w engine \<Rightarrow> 'w \<Rightarrow> task \<Rightarrow> step \<Rightarrow> 'w \<times> step \<times> step_result option \<times> go_error option" where
  "executeStepWithRecovery e w t s =
     attempt_loop e t (max_retries t) (nat (max_retries t + 1)) 0 w s None"

definition zero_task :: task where
  "zero_task = \<lparr>tk_ID = [], tk_Description = [], tk_SandboxID = [], tk_Status = TaskOther [],
     tk_Steps = [], tk_RetryCount = 0, tk_MaxRetries = 0, tk_CreatedAt = 0, tk_UpdatedAt = 0\<rparr>"

definition new_step :: "string \<Rightarrow> string \<Rightarrow> raw \<Rightarrow> step" where
  "new_step i p params = \<lparr>st_ID = i, st_Primitive = p, st_Input = params, st_Output = RawNil,
     st_Result = None, st_CheckpointID = [], st_Status = StepPending, st_Duration = 0,
     st_StartedAt = 0, st_CompletedAt = 0, st_Error = [], st_Escalated = False\<rparr>"

definition ExecuteStepViaCVR ::
  "'w engine \<Rightarrow> 'w \<Rightarrow> string \<Rightarrow> string \<Rightarrow> string \<Rightarrow> string \<Rightarrow> raw
   \<Rightarrow> 'w \<times> step_result option \<times> go_error option" where
  "ExecuteStepViaCVR e w taskID sandboxID stepID p input =
     (let st = new_step stepID p input;
          t = zero_task\<lparr>tk_ID := taskID, tk_SandboxID := sandboxID, tk_Status := TaskExecuting,
                        tk_MaxRetries := 1, tk_Steps := [st]\<rparr>;
          (w', _, r, err) = executeStepWithRecovery e w t st
      in (w', r, err))"

definition ExecutorExecute ::
  "'w engine \<Rightarrow> 'w \<Rightarrow> string \<Rightarrow> raw \<Rightarrow> 'w \<times> step_result option \<times> go_error option" where
  "ExecutorExecute e w m params = en_execute e w None m params"

text \<open>The loop over the steps; only identifiers and limits of the task are read in it.\<close>

fun run_steps ::
  "'w engine \<Rightarrow> task \<Rightarrow> nat \<Rightarrow> 'w \<Rightarrow> step list \<Rightarrow> 'w \<times> step list \<times> go_error option" where
  "run_steps e t i w [] = (w, [], None)"
| "run_steps e t i w (s # ss) =
     (let (w1, s1, result, err) = executeStepWithRecovery e w t s
      in case err of
           Some er \<Rightarrow> (w1, s1 # ss, Some (GoWrap (''task paused at step '' @ itoa (int (Suc i))) er))
         | None \<Rightarrow>
             (let s2 = s1\<lparr>st_Result := result, st_Status := StepPassed, st_CompletedAt := en_now e w1\<rparr>;
                  (w2, rest, err2) = run_steps e t (Suc i) w1 ss
              in (w2, s2 # rest, err2)))"

text \<open>
  \<open>StateTracker\<close> holds pointers to tasks: \<open>es_heap\<close> is the memory the pointers refer to, so
  that a tracked task is seen with the updates made through the engine's pointer.
\<close>

record 'w engine_state =
  es_world :: 'w
  es_heap :: "nat \<Rightarrow> task"
  es_tasks :: "string \<rightharpoonup> nat"

definition TrackTask :: "'w engine_state \<Rightarrow> nat \<Rightarrow> 'w engine_state" where
  "TrackTask s p = s\<lparr>es_tasks := (es_tasks s)(tk_ID (es_heap s p) \<mapsto> p)\<rparr>"

definition GetTask :: "'w engine_state \<Rightarrow> string \<Rightarrow> nat option" where
  "GetTask s i = es_tasks s i"

record step_record =
  sd_StepID :: string
  sd_Primitive :: string
  sd_Status :: string
  sd_DurationMs :: int
  sd_CheckpointID :: string
  sd_Error :: string

definition GetTaskHistory :: "'w engine_state \<Rightarrow> string \<Rightarrow> step_record list" where
  "GetTaskHistory s i =
     (case es_tasks s i of
        None \<Rightarrow> []
      | Some p \<Rightarrow> map (\<lambda>st. \<lparr>sd_StepID = st_ID st, sd_Primitive = st_Primitive st,
                     sd_Status = step_status_string (st_Status st), sd_DurationMs = st_Duration st,
                     sd_CheckpointID = st_CheckpointID st, sd_Error = st_Error st\<rparr>)
                   (tk_Steps (es_heap s p)))"

definition RunTask :: "'w engine \<Rightarrow> 'w engine_state \<Rightarrow> nat \<Rightarrow> 'w engine_state \<times> go_error option" where
  "RunTask e s p =
     (let t0 = (es_heap s p)\<lparr>tk_Status := TaskExecuting, tk_UpdatedAt := en_now e (es_world s)\<rparr>;
          s1 = TrackTask (s\<lparr>es_heap := (es_heap s)(p := t0)\<rparr>) p;
          (w', steps, err) = run_steps e t0 0 (es_world s) (tk_Steps t0);
          t1 = t0\<lparr>tk_Steps := steps,
                  tk_Status := (if err = None then TaskCompleted else TaskPaused),
                  tk_UpdatedAt := en_now e w'\<rparr>
      in (s1\<lparr>es_world := w', es_heap := (es_heap s1)(p := t1)\<rparr>, err))"

text \<open>\<open>uuid k\<close> is the k-th identifier drawn in the call.\<close>

definition CreateTask ::
  "(nat \<Rightarrow> string) \<Rightarrow> int \<Rightarrow> string \<Rightarrow> string \<Rightarrow> (string \<times> json) list \<Rightarrow> task" where
  "CreateTask uuid now description sandboxID steps =
     zero_task\<lparr>tk_ID := ''task-'' @ take 8 (uuid 0), tk_Description := description,
       tk_SandboxID := sandboxID, tk_Status := TaskPlanning, tk_MaxRetries := 3,
       tk_CreatedAt := now, tk_UpdatedAt := now,
       tk_Steps := map (\<lambda>(i, p, params). new_step (''step-'' @ take 8 (uuid (Suc i))) p (json_marshal params))
                     (enumerate 0 steps)\<rparr>"

section \<open>replay.go\<close>

datatype replay_mode = ReplayStepByStep | ReplaySkipPassed | ReplayFull | ReplayOther string

record replay_entry =
  re_StepIndex :: int
  re_Primitive :: string
  re_Input :: raw
  re_Output :: raw
  re_Status :: string
  re_DurationMs :: int
  re_CheckpointID :: string
  re_Error :: string
  re_Skipped :: bool

text \<open>\<open>json.Marshal\<close> of a raw message: nil prints as null, text that is no JSON is an error (nil).\<close>

fun marshal_raw :: "raw \<Rightarrow> raw" where
  "marshal_raw RawNil = Raw JNull"
| "marshal_raw (Raw j) = Raw j"
| "marshal_raw (RawText s) = RawNil"

definition replay_entry_of :: "replay_mode \<Rightarrow> nat \<times> step \<Rightarrow> replay_entry" where
  "replay_entry_of mode = (\<lambda>(i, s).
     \<lparr>re_StepIndex = int i + 1, re_Primitive = st_Primitive s, re_Input = st_Input s,
      re_Output = (case st_Result s of None \<Rightarrow> RawNil | Some r \<Rightarrow> marshal_raw (sr_Data r)),
      re_Status = step_status_string (st_Status s), re_DurationMs = st_Duration s,
      re_CheckpointID = st_CheckpointID s, re_Error = st_Error s,
      re_Skipped = (mode = ReplaySkipPassed \<and> st_Status s = StepPassed)\<rparr>)"

definition Replay :: "task option \<Rightarrow> replay_mode \<Rightarrow> replay_entry list" where
  "Replay t mode =
     (case t of None \<Rightarrow> [] | Some tk \<Rightarrow> map (replay_entry_of mode) (enumerate 0 (tk_Steps tk)))"

definition truncateJSON :: "string \<Rightarrow> nat \<Rightarrow> string" where
  "truncateJSON s maxLen = (if length s \<le> maxLen then s else take maxLen s @ ''...'')"

section \<open>Truncation\<close>

lemma length_truncation_notice: "length truncation_notice = 55"
  by (simp add: truncation_notice_def)

text \<open>
  Error summaries are bounded. For a non-negative limit \<open>TruncateErrorForLLM\<close> never panics; a
  message within the limit is returned as it is, and a longer one becomes its first and last
  half-limit bytes around the notice, at most the limit plus the 55 bytes of the notice.
\<close>

theorem truncate_bounds:
  assumes "0 \<le> maxLen"
  shows "\<exists>s. TruncateErrorForLLM msg maxLen = Some s \<and>
     (if int (length msg) \<le> maxLen then s = msg
      else int (length s) \<le> maxLen + 55 \<and>
           take (nat (maxLen div 2)) s = take (nat (maxLen div 2)) msg \<and>
           drop (length s - nat (maxLen div 2)) s = drop (length msg - nat (maxLen div 2)) msg)"
proof (cases "int (length msg) \<le> maxLen")
  case True
  then show ?thesis by (simp add: TruncateErrorForLLM_def)
next
  case False
  define k where "k = nat (maxLen div 2)"
  have kk: "sgn maxLen * (\<bar>maxLen\<bar> div 2) = int k"
    using assms by (auto simp: k_def sgn_if)
  have kl: "k \<le> length msg" using False assms unfolding k_def by linarith
  let ?s = "take k msg @ truncation_notice @ drop (length msg - k) msg"
  have "TruncateErrorForLLM msg maxLen = Some ?s"
    using False kk by (simp add: TruncateErrorForLLM_def Let_def)
  moreover have "length ?s = 2 * k + 55"
    using kl by (simp add: length_truncation_notice)
  moreover from this have "int (length ?s) \<le> maxLen + 55"
    using assms unfolding k_def by linarith
  ultimately show ?thesis using False kl unfolding k_def [symmetric]
    by (auto simp: length_truncation_notice)
qed

theorem truncate_bounds_witness:
  "\<exists>s. TruncateErrorForLLM ''0123456789'' 4 = Some s \<and> length s \<le> 59 \<and> take 2 s = ''01'' "
  using truncate_bounds [of 4 "''0123456789''"] by auto

section \<open>Shape of an attempt\<close>

text \<open>What a step keeps through any number of attempts.\<close>

definition same_step :: "step \<Rightarrow> step \<Rightarrow> bool" where
  "same_step s s' \<longleftrightarrow> st_ID s' = st_ID s \<and> st_Primitive s' = st_Primitive s \<and> st_Input s' = st_Input s \<and>
     st_Output s' = st_Output s \<and> st_Result s' = st_Result s \<and> st_CompletedAt s' = st_CompletedAt s \<and>
     st_Error s' = st_Error s"

lemma same_step_trans [trans]: "same_step a b \<Longrightarrow> same_step b c \<Longrightarrow> same_step a c"
  by (simp add: same_step_def)

lemma apply_recovery_step:
  assumes "apply_recovery e w s attempt maxRetries result cvrResult manifest er = (w', s', er', act)"
    and "st_Status s = StepRunning"
  shows "same_step s s'" and "st_Status s' \<in> {StepRunning, StepRolledBack}"
    and "act = ActionRetry \<Longrightarrow> attempt < maxRetries"
    and "act = ActionContinue \<Longrightarrow> AppliedAction cvrResult = RecoveryActionSkip"
    and "st_Status s' = StepRolledBack \<longleftrightarrow> attempt_recovery manifest cvrResult = RecoveryActionRollback \<and> act = ActionPause"
  using assms
  by (auto simp: apply_recovery_def same_step_def policy_decide_def attempt_recovery_def
      split: recovery_action.splits prod.splits option.splits if_splits)

lemma finish_attempt_step:
  assumes "finish_attempt s er act = (s', out)" and "st_Status s \<in> {StepRunning, StepRolledBack}"
  shows "same_step s s'"
    and "out = AttemptReturn r (Some er') \<Longrightarrow> r = None \<and> st_Status s' \<in> {StepFailed, StepRolledBack}"
    and "out = AttemptReturn r None \<Longrightarrow>
           act = ActionContinue \<and> st_Status s' = StepSkipped \<and> (\<exists>x. r = Some x \<and> sr_Success x)"
    and "out = AttemptAgain er' \<Longrightarrow> act = ActionRetry"
  using assms by (auto simp: finish_attempt_def same_step_def split: action.splits if_splits)

lemma run_attempt_cases:
  assumes "run_attempt e t maxRetries attempt w s = (w', s', out)"
  obtains (passed) a res r where "attempt_cvr e t attempt w s = (a, res, None)" "Passed res"
      "out = AttemptReturn (Some r) None" "sr_Success r" "attempt_result a = Some r"
      "same_step s s'" "st_Status s' = StepRunning"
  | (skipped) a res err r where "attempt_cvr e t attempt w s = (a, res, err)"
      "AppliedAction res = RecoveryActionSkip"
      "out = AttemptReturn (Some r) None" "sr_Success r" "same_step s s'" "st_Status s' = StepSkipped"
  | (failed) er where "out = AttemptReturn None (Some er)" "same_step s s'"
      "st_Status s' \<in> {StepFailed, StepRolledBack}"
  | (again) er where "out = AttemptAgain er" "attempt < maxRetries" "same_step s s'"
proof -
  obtain a res err where cvr: "attempt_cvr e t attempt w s = (a, res, err)" by (metis prod_cases3)
  define s1 where "s1 = s\<lparr>st_Status := StepRunning, st_StartedAt := en_now e w,
      st_Duration := en_now e (ad_world a) - en_now e w, st_CheckpointID := CheckpointID res\<rparr>"
  have s1: "same_step s s1" "st_Status s1 = StepRunning" by (simp_all add: s1_def same_step_def)
  define w2 where "w2 = persistTraceRecord e (ad_world a) (attempt_record e t attempt w s
      (en_now e (ad_world a) - en_now e w) (attempt_result a) res err)"
  consider (depth) "err_is err ErrCVRDepthExceeded"
    | (pass) "\<not> err_is err ErrCVRDepthExceeded" "passed_attempt err res (attempt_result a)"
    | (recover) "\<not> err_is err ErrCVRDepthExceeded" "\<not> passed_attempt err res (attempt_result a)" by blast
  then show ?thesis
  proof cases
    case depth
    then obtain er where "err = Some er" by (auto simp: err_is_def split: option.splits)
    with assms cvr depth have "out = AttemptReturn None (Some er)" "s' = s1\<lparr>st_Status := StepFailed\<rparr>"
      by (auto simp: run_attempt_def Let_def s1_def)
    with s1 show ?thesis by (intro failed) (auto simp: same_step_def)
  next
    case pass
    with assms cvr have "out = AttemptReturn (attempt_result a) None" "s' = s1"
      by (auto simp: run_attempt_def Let_def s1_def)
    with pass s1 cvr show ?thesis
      by (auto simp: passed_attempt_def split: option.splits intro: passed)
  next
    case recover
    obtain w3 s2 er act where ar: "apply_recovery e w2 s1 attempt maxRetries (attempt_result a) res
        (lookupAppManifest e w (st_Primitive s)) (attempt_error err (attempt_result a) res) = (w3, s2, er, act)"
      by (metis prod_cases4)
    note step = apply_recovery_step [OF ar s1(2)]
    obtain s3 o3 where fa: "finish_attempt s2 er act = (s3, o3)" by fastforce
    with assms cvr recover ar have eq: "w' = w3" "s' = s3" "out = o3"
      by (auto simp: run_attempt_def Let_def s1_def w2_def)
    note fin = finish_attempt_step [OF fa step(2)]
    have keep: "same_step s s'" using s1(1) step(1) fin(1) eq(2) same_step_trans by metis
    show ?thesis
    proof (cases out)
      case (AttemptReturn r eo)
      show ?thesis
      proof (cases eo)
        case None
        with AttemptReturn eq fin(3) have *: "act = ActionContinue" "st_Status s' = StepSkipped"
          "\<exists>x. r = Some x \<and> sr_Success x" by auto
        with step(4) AttemptReturn None cvr keep show ?thesis by (auto intro: skipped)
      next
        case (Some er')
        with AttemptReturn eq fin(2) keep show ?thesis by (intro failed) auto
      qed
    next
      case (AttemptAgain er')
      with eq fin(4) step(3) keep show ?thesis by (auto intro: again)
    qed
  qed
qed

section \<open>The attempt loop\<close>

text \<open>Rule induction in disguise: what holds at the end of the last attempt holds of the loop.\<close>

lemma attempt_loop_returns:
  assumes "attempt_loop e t M n attempt w s le = (w', s', r, err)" and "0 < n"
    and "attempt + int n = M + 1"
  obtains attempt' w0 s0 where "attempt \<le> attempt'" "attempt' \<le> M" "same_step s s0"
    "run_attempt e t M attempt' w0 s0 = (w', s', AttemptReturn r err)"
  using assms
proof (induction n arbitrary: attempt w s le thesis)
  case 0
  then show ?case by simp
next
  case (Suc n)
  obtain w1 s1 out where ra: "run_attempt e t M attempt w s = (w1, s1, out)" by (metis prod_cases3)
  show ?case
  proof (cases out)
    case (AttemptReturn r0 err0)
    with Suc.prems(2) ra have "run_attempt e t M attempt w s = (w', s', AttemptReturn r err)" by auto
    then show ?thesis using Suc.prems(1) [of attempt s w] Suc.prems(4) by (simp add: same_step_def)
  next
    case (AttemptAgain er)
    with ra have *: "attempt < M" "same_step s s1" by (auto elim: run_attempt_cases)
    from Suc.prems(2) ra AttemptAgain have
      loop: "attempt_loop e t M n (attempt + 1) w1 s1 (Some er) = (w', s', r, err)" by simp
    have n: "0 < n" "attempt + 1 + int n = M + 1" using * Suc.prems(4) by auto
    show ?thesis
    proof (rule Suc.IH [OF _ loop n])
      fix attempt' w0 s0
      assume "attempt + 1 \<le> attempt'" "attempt' \<le> M" "same_step s1 s0"
        "run_attempt e t M attempt' w0 s0 = (w', s', AttemptReturn r err)"
      then show thesis using Suc.prems(1) [of attempt' s0 w0] *(2) same_step_trans by auto
    qed
  qed
qed

lemma attempt_loop_extra:
  assumes "0 < n" and "attempt + int n = M + 1"
  shows "attempt_loop e t M (n + k) attempt w s le = attempt_loop e t M n attempt w s le"
  using assms
proof (induction n arbitrary: attempt w s le)
  case 0
  then show ?case by simp
next
  case (Suc n)
  obtain w1 s1 out where ra: "run_attempt e t M attempt w s = (w1, s1, out)" by (metis prod_cases3)
  show ?case
  proof (cases out)
    case (AttemptReturn r0 err0)
    with ra show ?thesis by simp
  next
    case (AttemptAgain er)
    with ra have "attempt < M" by (auto elim: run_attempt_cases)
    with Suc.prems Suc.IH [of "attempt + 1"] ra AttemptAgain show ?thesis by simp
  qed
qed

lemma max_retries_pos: "0 < max_retries t"
  by (simp add: max_retries_def)

lemma executeStepWithRecovery_returns:
  assumes "executeStepWithRecovery e w t s = (w', s', r, err)"
  obtains attempt w0 s0 where "0 \<le> attempt" "attempt \<le> max_retries t" "same_step s s0"
    "run_attempt e t (max_retries t) attempt w0 s0 = (w', s', AttemptReturn r err)"
  using assms max_retries_pos [of t] unfolding executeStepWithRecovery_def
  by (elim attempt_loop_returns) auto

text \<open>
  C25. A step ends by itself, with a result or an error. \<open>executeStepWithRecovery\<close> returns
  either a successful result and no error, with the step left running or skipped, or an error
  and no result, with the step failed or rolled back. The bound of its loop never fires: with
  any number of further iterations allowed it returns the same, so the message that follows the
  loop is never produced. The identity, input and recorded result of the step are not touched.
\<close>

theorem step_ends:
  assumes "executeStepWithRecovery e w t s = (w', s', r, err)"
  shows "((\<exists>x. r = Some x \<and> sr_Success x) \<and> err = None \<and> st_Status s' \<in> {StepRunning, StepSkipped} \<or>
          r = None \<and> err \<noteq> None \<and> st_Status s' \<in> {StepFailed, StepRolledBack}) \<and>
     attempt_loop e t (max_retries t) (nat (max_retries t + 1) + k) 0 w s None = (w', s', r, err) \<and>
     same_step s s'"
proof (intro conjI)
  from assms obtain attempt w0 s0 where same: "same_step s s0"
    and ra: "run_attempt e t (max_retries t) attempt w0 s0 = (w', s', AttemptReturn r err)"
    by (rule executeStepWithRecovery_returns)
  from ra show "(\<exists>x. r = Some x \<and> sr_Success x) \<and> err = None \<and> st_Status s' \<in> {StepRunning, StepSkipped} \<or>
          r = None \<and> err \<noteq> None \<and> st_Status s' \<in> {StepFailed, StepRolledBack}"
    by (cases rule: run_attempt_cases) auto
  from ra have "same_step s0 s'" by (cases rule: run_attempt_cases) auto
  with same show "same_step s s'" by (rule same_step_trans)
  from assms max_retries_pos [of t]
  show "attempt_loop e t (max_retries t) (nat (max_retries t + 1) + k) 0 w s None = (w', s', r, err)"
    by (simp add: attempt_loop_extra executeStepWithRecovery_def)
qed

text \<open>The engines of the witnesses: one run of a primitive that succeeds, fails, or is rolled back.\<close>

definition demo_step_result :: "string \<Rightarrow> step_result" where
  "demo_step_result m =
     (if m = ''state.checkpoint''
      then \<lparr>sr_Success = True, sr_Data = Raw (JObj [(''checkpoint_id'', JStr ''c1'')]), sr_Error = None, sr_Duration = 0\<rparr>
      else if has_prefix m ''bad.'' \<or> m = ''shell.exec''
      then \<lparr>sr_Success = False, sr_Data = RawNil,
            sr_Error = Some \<lparr>se_Kind = FailureTestFail, se_Code = ''E'', se_Message = ''boom'', se_Summary = []\<rparr>,
            sr_Duration = 0\<rparr>
      else \<lparr>sr_Success = True, sr_Data = RawNil, sr_Error = None, sr_Duration = 0\<rparr>)"

text \<open>The world of the demonstration engine: the calls made and the trace.\<close>

type_synonym demo_world = "string list \<times> trace_record list"

definition demo_engine :: "(string \<Rightarrow> app_manifest option) \<Rightarrow> demo_world engine" where
  "demo_engine apps =
     \<lparr>en_execute = (\<lambda>(calls, l) intent m p. ((calls @ [m], l), Some (demo_step_result m), None)),
      en_now = (\<lambda>(calls, l). int (length calls)), en_ctx_err = (\<lambda>_. None),
      en_trace = Some (\<lambda>(calls, l) r. (calls, l @ [r])), en_save = None, en_strategy = None,
      en_tree = Some NewDefaultDecisionTree, en_app_get = Some (\<lambda>w p. Inr (apps p))\<rparr>"

definition demo_task :: task where
  "demo_task = CreateTask (\<lambda>i. ''0123456789'') 0 ''demo'' ''sb'' [(''fs.read'', JNull), (''shell.exec'', JNull)]"

lemmas demo_engine_defs = demo_engine_def demo_step_result_def demo_task_def

theorem step_ends_witness:
  "snd (snd (snd (executeStepWithRecovery (demo_engine (\<lambda>_. None)) ([], []) demo_task
      (new_step ''s1'' ''shell.exec'' RawNil)))) \<noteq> None \<and>
   attempt_loop (demo_engine (\<lambda>_. None)) demo_task 3 (4 + 7) 0 ([], []) (new_step ''s1'' ''shell.exec'' RawNil) None =
     executeStepWithRecovery (demo_engine (\<lambda>_. None)) ([], []) demo_task (new_step ''s1'' ''shell.exec'' RawNil)"
  (is "snd (snd (snd ?run)) \<noteq> None \<and> _")
proof -
  obtain w' s' r err where run: "?run = (w', s', r, err)" by (metis prod_cases4)
  have "st_Status (fst (snd ?run)) = StepRolledBack" by code_simp
  with run have "st_Status s' = StepRolledBack" by simp
  moreover have "max_retries demo_task = 3" by code_simp
  ultimately show ?thesis using step_ends [OF run, of 7] run by auto
qed

section \<open>The trace\<close>

text \<open>
  An engine whose world carries the trace: the trace store appends, and no other collaborator
  touches it (a strategy only if the executor it is given does).
\<close>

definition keeps_trace :: "('w \<times> trace_record list) adapter cvr_env \<Rightarrow> bool" where
  "keeps_trace env \<longleftrightarrow>
     (\<forall>a m p. snd (ad_world (fst (sx_execute env a m p))) = snd (ad_world a))"

definition trace_strategy :: "('w \<times> trace_record list) adapter verify_strategy \<Rightarrow> bool" where
  "trace_strategy s \<longleftrightarrow>
     (\<forall>env a r m. keeps_trace env \<longrightarrow> snd (ad_world (fst (vs_run s env a r m))) = snd (ad_world a))"

definition trace_engine :: "('w \<times> trace_record list) engine \<Rightarrow> bool" where
  "trace_engine e \<longleftrightarrow>
     en_trace e = Some (\<lambda>(w, l) r. (w, l @ [r])) \<and>
     (\<forall>w i m p. snd (fst (en_execute e w i m p)) = snd w) \<and>
     (\<forall>save w m. en_save e = Some save \<longrightarrow> snd (fst (save w m)) = snd w) \<and>
     (\<forall>s. en_strategy e = Some s \<longrightarrow> trace_strategy s)"

lemma trace_engineD:
  assumes "trace_engine e"
  shows "snd (fst (en_execute e w i m p)) = snd w"
    and "en_save e = Some save \<Longrightarrow> snd (fst (save w c)) = snd w"
    and "en_strategy e = Some s \<Longrightarrow> trace_strategy s"
    and "snd (persistTraceRecord e w r) = snd w @ [r]"
  using assms by (simp_all only: trace_engine_def persistTraceRecord_def option.case case_prod_beta snd_conv)

lemma adapter_execute_world:
  "ad_world (fst (adapter_execute e i root a m p)) =
     fst (en_execute e (ad_world a) i m (case p of ParamRaw r \<Rightarrow> r | ParamVal j \<Rightarrow> json_marshal j))"
  by (simp add: adapter_execute_def Let_def split: prod.splits option.splits)

lemma adapter_env_keeps_trace: "trace_engine e \<Longrightarrow> keeps_trace (adapter_env e i root)"
  by (simp add: keeps_trace_def adapter_env_def adapter_execute_world trace_engineD(1))

text \<open>The app-declared strategy changes the world only through its one call.\<close>

lemma app_verify_run_world:
  "fst (app_verify_run v params env w r m) = w \<or>
   (\<exists>q p. fst (app_verify_run v params env w r m) = fst (sx_execute env w q p))"
proof (cases "av_Strategy v = ''primitive'' \<or> av_Strategy v = ''command''")
  case False
  then show ?thesis by (simp add: app_verify_run_def Let_def)
next
  case True
  define q where "q = (if av_Strategy v = ''primitive'' then av_Primitive v else ''verify.command'')"
  define p where "p = (if av_Strategy v = ''primitive'' then ParamRaw params
      else ParamVal (JObj [(''command'', JStr (av_Command v))]))"
  obtain w1 vr e1 where ex: "sx_execute env w q p = (w1, vr, e1)" by (metis prod_cases3)
  with True have "fst (app_verify_run v params env w r m) = w1"
    unfolding q_def p_def
    by (auto simp: app_verify_run_def Let_def split: option.splits prod.splits)
  with ex show ?thesis by (metis fst_conv)
qed

lemma app_strategy_trace: "trace_strategy (newAppDeclaredVerifyStrategy v params)"
  unfolding trace_strategy_def newAppDeclaredVerifyStrategy_def keeps_trace_def
  by simp (metis app_verify_run_world)

lemma resolved_strategy_trace:
  "fst (resolveVerifyStrategy e w p params) = Some s \<Longrightarrow> trace_strategy s"
  by (auto simp: resolveVerifyStrategy_def app_strategy_trace split: option.splits if_splits)

lemma attempt_request_sel [simp]:
  fixes e :: "'w engine"
  shows
  "rq_Exec (attempt_request e t k w s) = Some (adapter_env e (Some (attempt_intent e w s)) (st_Primitive s))"
  "rq_VerifyStrategy (attempt_request e t k w s) = fst (resolveVerifyStrategy e w (st_Primitive s) (st_Input s))"
  "rq_DisableVerifyStrategy (attempt_request e t k w s) =
     snd (resolveVerifyStrategy e w (st_Primitive s) (st_Input s) :: 'w adapter verify_strategy option \<times> bool)"
  "rq_Intent (attempt_request e t k w s) = attempt_intent e w s"
  "rq_Attempt (attempt_request e t k w s) = k"
  "rq_PrimitiveID (attempt_request e t k w s) = st_Primitive s"
  "rq_Params (attempt_request e t k w s) = ParamRaw (st_Input s)"
  "rq_CVRDepth (attempt_request e t k w s) = 0"
  by (simp_all add: attempt_request_def Let_def case_prod_beta)

lemma attempt_coordinator_sel [simp]:
  "co_store (attempt_coordinator e) = Some (checkpointManifestStore e)"
  "co_strategy (attempt_coordinator e) = en_strategy e"
  "co_tree (attempt_coordinator e) = Some (cvrDecisionTree e)"
  by (simp_all add: attempt_coordinator_def)

lemma attempt_cvr_trace:
  assumes "trace_engine e" and "attempt_cvr e t k w s = (a, res, err)"
  shows "snd (ad_world a) = snd w"
proof (rule cvr_execute_inv [where I = "\<lambda>a. snd (ad_world a) = snd w"])
  let ?req = "attempt_request e t k w s"
  let ?env = "adapter_env e (Some (attempt_intent e w s)) (st_Primitive s)"
  show "cvr_execute (attempt_coordinator e) \<lparr>ad_world = w, ad_main = None, ad_last = None\<rparr> ?req = (a, res, err)"
    using assms(2) by (simp add: attempt_cvr_def)
  show "rq_Exec ?req = Some ?env" by simp
  show "snd (ad_world (fst (sx_execute ?env b m p))) = snd w" if "snd (ad_world b) = snd w" for b m p
    using adapter_env_keeps_trace [OF assms(1)] that by (simp add: keeps_trace_def)
  show "snd (ad_world (fst (save b m))) = snd w"
    if "co_store (attempt_coordinator e) = Some save" "snd (ad_world b) = snd w" for save b m
    using that
    by (auto simp: checkpointManifestStore_def Let_def case_prod_beta trace_engineD(2) [OF assms(1)]
        split: option.splits)
  show "snd (ad_world (fst (vs_run st ?env b r m))) = snd w"
    if "chosen_strategy (attempt_coordinator e) ?req = Some st" "snd (ad_world b) = snd w" for st b r m
  proof -
    from that(1) assms(1) have "trace_strategy st"
      by (auto simp: chosen_strategy_def trace_engineD(3) resolved_strategy_trace
          split: option.splits if_splits)
    then show ?thesis using adapter_env_keeps_trace [OF assms(1)] that(2)
      by (simp add: trace_strategy_def)
  qed
qed simp

lemma rollback_trace:
  assumes "trace_engine e"
  shows "snd (fst (executeDeclaredRollback e w p input r res m)) = snd w"
proof -
  note ex = trace_engineD(1) [OF assms]
  have ws: "snd (fst (executeWorkspaceRestore e w c p)) = snd w" for w c p
    by (simp add: executeWorkspaceRestore_def Let_def case_prod_beta ex)
  have ap: "snd (fst (executeAppRollback e w p input r res m)) = snd w" for w m
    by (simp add: executeAppRollback_def Let_def case_prod_beta ex ws split: option.splits sum.splits)
  show ?thesis
    by (simp add: executeDeclaredRollback_def Let_def case_prod_beta ws ap split: option.splits)
qed

lemma run_attempt_trace:
  assumes "trace_engine e" and "run_attempt e t M k w s = (w', s', out)"
  shows "\<exists>r. snd w' = snd w @ [r] \<and> tr_AttemptID r = ''attempt-'' @ itoa (k + 1) \<and>
     tr_TaskID r = tk_ID t \<and> tr_StepID r = st_ID s \<and> tr_Primitive r = st_Primitive s"
proof -
  obtain a res err where cvr: "attempt_cvr e t k w s = (a, res, err)" by (metis prod_cases3)
  define rec where "rec = attempt_record e t k w s (en_now e (ad_world a) - en_now e w) (attempt_result a) res err"
  define w2 where "w2 = persistTraceRecord e (ad_world a) rec"
  have w2: "snd w2 = snd w @ [rec]"
    using attempt_cvr_trace [OF assms(1) cvr] by (simp add: w2_def trace_engineD(4) [OF assms(1)])
  have ar: "snd (fst (apply_recovery e w2 x k M (attempt_result a) res m er)) = snd w2" for x m er
    by (simp add: apply_recovery_def Let_def case_prod_beta rollback_trace [OF assms(1)]
        split: recovery_action.splits option.splits)
  have "w' = fst (run_attempt e t M k w s)" using assms(2) by simp
  then have "snd w' = snd w2"
    by (simp add: run_attempt_def cvr Let_def case_prod_beta rec_def [symmetric] w2_def [symmetric] ar)
  with w2 show ?thesis by (auto simp: rec_def attempt_record_def Let_def)
qed

lemma attempt_loop_trace:
  assumes "trace_engine e" and "attempt_loop e t M n k w s le = (w', s', r, err)"
  shows "\<exists>recs. snd w' = snd w @ recs \<and> length recs \<le> n \<and> (0 < n \<longrightarrow> recs \<noteq> []) \<and>
     map tr_AttemptID recs = map (\<lambda>i. ''attempt-'' @ itoa (k + int i + 1)) [0..<length recs] \<and>
     (\<forall>x \<in> set recs. tr_TaskID x = tk_ID t \<and> tr_StepID x = st_ID s \<and> tr_Primitive x = st_Primitive s)"
  using assms(2)
proof (induction n arbitrary: k w s le)
  case 0
  then show ?case by auto
next
  case (Suc n)
  obtain w1 s1 out where ra: "run_attempt e t M k w s = (w1, s1, out)" by (metis prod_cases3)
  from run_attempt_trace [OF assms(1) ra] obtain x where x: "snd w1 = snd w @ [x]"
    "tr_AttemptID x = ''attempt-'' @ itoa (k + 1)" "tr_TaskID x = tk_ID t" "tr_StepID x = st_ID s"
    "tr_Primitive x = st_Primitive s" by blast
  show ?case
  proof (cases out)
    case (AttemptReturn r0 err0)
    with Suc.prems ra x show ?thesis by (intro exI [of _ "[x]"]) auto
  next
    case (AttemptAgain er)
    with ra have same: "same_step s s1" by (auto elim: run_attempt_cases)
    from Suc.prems ra AttemptAgain have "attempt_loop e t M n (k + 1) w1 s1 (Some er) = (w', s', r, err)" by simp
    from Suc.IH [OF this] obtain recs where recs: "snd w' = snd w1 @ recs" "length recs \<le> n"
      "map tr_AttemptID recs = map (\<lambda>i. ''attempt-'' @ itoa (k + 1 + int i + 1)) [0..<length recs]"
      "\<forall>x \<in> set recs. tr_TaskID x = tk_ID t \<and> tr_StepID x = st_ID s1 \<and> tr_Primitive x = st_Primitive s1"
      by blast
    have "map (\<lambda>i. ''attempt-'' @ itoa (k + int i + 1)) [0..<Suc (length recs)] =
      (''attempt-'' @ itoa (k + 1)) # map (\<lambda>i. ''attempt-'' @ itoa (k + 1 + int i + 1)) [0..<length recs]"
      by (subst upt_conv_Cons) (simp_all add: map_Suc_upt [symmetric] algebra_simps del: upt_Suc)
    with recs x same show ?thesis
      by (intro exI [of _ "x # recs"]) (auto simp: same_step_def simp del: upt_Suc)
  qed
qed

text \<open>
  Every attempt is traced and their number is bounded. With an appending trace store, a
  step adds at least one and at most \<open>maxRetries + 1\<close> records (the default of 3 standing in
  for an unset limit), all carrying the task, step and primitive, numbered from attempt 1 in
  order without gaps.
\<close>

theorem step_attempts_traced:
  assumes "trace_engine e" and "executeStepWithRecovery e w t s = (w', s', r, err)"
  shows "\<exists>recs. snd w' = snd w @ recs \<and> recs \<noteq> [] \<and> int (length recs) \<le> max_retries t + 1 \<and>
     map tr_AttemptID recs = map (\<lambda>i. ''attempt-'' @ itoa (int i + 1)) [0..<length recs] \<and>
     (\<forall>x \<in> set recs. tr_TaskID x = tk_ID t \<and> tr_StepID x = st_ID s \<and> tr_Primitive x = st_Primitive s)"
proof -
  have M: "0 < nat (max_retries t + 1)" using max_retries_pos [of t] by simp
  from attempt_loop_trace [OF assms(1) assms(2) [unfolded executeStepWithRecovery_def]] M
  obtain recs where "snd w' = snd w @ recs" "length recs \<le> nat (max_retries t + 1)" "recs \<noteq> []"
    "map tr_AttemptID recs = map (\<lambda>i. ''attempt-'' @ itoa (0 + int i + 1)) [0..<length recs]"
    "\<forall>x \<in> set recs. tr_TaskID x = tk_ID t \<and> tr_StepID x = st_ID s \<and> tr_Primitive x = st_Primitive s"
    by blast
  with M show ?thesis by (intro exI [of _ recs]) auto
qed

lemma demo_trace_engine: "trace_engine (demo_engine apps)"
  by (auto simp: trace_engine_def demo_engine_def split: prod.splits)

lemma itoa_1: "itoa 1 = ''1''"
  by code_simp

theorem step_attempts_traced_witness:
  "\<exists>recs. snd (fst (executeStepWithRecovery (demo_engine (\<lambda>_. None)) ([], []) demo_task
      (new_step ''s1'' ''fs.read'' RawNil))) = recs \<and> length recs = 1 \<and> tr_AttemptID (hd recs) = ''attempt-1''"
  (is "\<exists>recs. snd (fst ?run) = recs \<and> _")
proof -
  obtain w' s' r err where run: "?run = (w', s', r, err)" by (metis prod_cases4)
  have "length (snd (fst ?run)) = 1" by code_simp
  with run have "length (snd w') = 1" by simp
  with step_attempts_traced [OF demo_trace_engine run] run show ?thesis
    by (auto simp: length_Suc_conv itoa_1)
qed

section \<open>Recovery under the default tree\<close>

definition default_tree :: "'w engine \<Rightarrow> bool" where
  "default_tree e \<longleftrightarrow> cvrDecisionTree e = NewDefaultDecisionTree"

text \<open>What an attempt's CVR run says under the default tree, once it reached the primitive.\<close>

lemma attempt_cvr_ran:
  assumes "attempt_cvr e t k w s = (a, res, err)" and "StrategyResult res \<noteq> zero_strategy_result"
  shows "shouldCheckpoint (attempt_intent e w s) \<Longrightarrow> CheckpointID res \<noteq> []"
    and "default_tree e \<Longrightarrow> AppliedAction res =
      (if Passed res then RecoveryActionNone
       else if \<not> Reversible (attempt_intent e w s) \<and> Outcome (StrategyResult res) = VerifyOutcomeFailed
         then RecoveryActionRollback
       else if k \<ge> 3 then RecoveryActionEscalate else RecoveryActionRetry)"
    and "Passed res \<longleftrightarrow> Outcome (StrategyResult res) = VerifyOutcomePassed"
proof -
  let ?c = "attempt_coordinator e" and ?req = "attempt_request e t k w s"
  from assms(1) have run: "cvr_execute ?c \<lparr>ad_world = w, ad_main = None, ad_last = None\<rparr> ?req = (a, res, err)"
    by (simp add: attempt_cvr_def)
  from run show "shouldCheckpoint (attempt_intent e w s) \<Longrightarrow> CheckpointID res \<noteq> []"
  proof (cases rule: cvr_execute_cases)
    case stopped
    with assms(2) show ?thesis by simp
  next
    case (ran env w1 m r er sr)
    assume "shouldCheckpoint (attempt_intent e w s)"
    with ran(3) have "CheckpointID r \<noteq> []"
      by (cases rule: layer_a_cases) (auto dest: extractCheckpointID_nonempty)
    with ran(5) show ?thesis by simp
  qed
  from run show "Passed res \<longleftrightarrow> Outcome (StrategyResult res) = VerifyOutcomePassed"
    by (cases rule: cvr_execute_cases) (simp_all add: zero_strategy_result_def)
  from run show "default_tree e \<Longrightarrow> AppliedAction res =
      (if Passed res then RecoveryActionNone
       else if \<not> Reversible (attempt_intent e w s) \<and> Outcome (StrategyResult res) = VerifyOutcomeFailed
         then RecoveryActionRollback
       else if k \<ge> 3 then RecoveryActionEscalate else RecoveryActionRetry)"
  proof (cases rule: cvr_execute_cases)
    case stopped
    with assms(2) show ?thesis by simp
  next
    case (ran env w1 m r er sr)
    assume "default_tree e"
    with ran layer_a_action [OF ran(3)] failureKind_not_duplicate [of err er sr] show ?thesis
      by (simp add: finish_cvr_def default_tree_def Decide_default)
  qed
qed

lemma default_never_skips:
  assumes "attempt_cvr e t k w s = (a, res, err)" and "default_tree e"
  shows "AppliedAction res \<noteq> RecoveryActionSkip"
proof (cases "StrategyResult res = zero_strategy_result")
  case False
  with attempt_cvr_ran(2) [OF assms(1)] assms(2) show ?thesis by simp
next
  case True
  from assms(1) have "cvr_execute (attempt_coordinator e) \<lparr>ad_world = w, ad_main = None, ad_last = None\<rparr>
      (attempt_request e t k w s) = (a, res, err)" by (simp add: attempt_cvr_def)
  then show ?thesis
  proof (cases rule: cvr_execute_cases)
    case stopped
    then show ?thesis by simp
  next
    case (ran env w1 m r er sr)
    with layer_a_action [OF ran(3)] assms(2) show ?thesis
      by (simp add: finish_cvr_def default_tree_def Decide_default)
  qed
qed


text \<open>
  C6. A returned result is a verified one. Under the default decision tree a step that returns
  a result has an attempt whose CVR run passed without error, whose result is the one returned,
  and which took a checkpoint when the intent of the primitive requires one; the step is not
  marked skipped.
\<close>

theorem step_success_verified:
  assumes "default_tree e" and "executeStepWithRecovery e w t s = (w', s', Some r, err)"
  shows "\<exists>k w0 s0 a res. 0 \<le> k \<and> k \<le> max_retries t \<and> same_step s s0 \<and>
     attempt_cvr e t k w0 s0 = (a, res, None) \<and> Passed res \<and> attempt_result a = Some r \<and> sr_Success r \<and>
     (shouldCheckpoint (attempt_intent e w0 s0) \<longrightarrow> CheckpointID res \<noteq> []) \<and>
     err = None \<and> st_Status s' = StepRunning"
proof -
  from assms(2) obtain k w0 s0 where k: "0 \<le> k" "k \<le> max_retries t" "same_step s s0"
    and ra: "run_attempt e t (max_retries t) k w0 s0 = (w', s', AttemptReturn (Some r) err)"
    by (rule executeStepWithRecovery_returns)
  from ra show ?thesis
  proof (cases rule: run_attempt_cases)
    case (passed a res x)
    have "Outcome (StrategyResult res) = VerifyOutcomePassed"
      by (rule cvr_passed_outcome [OF passed(1) [unfolded attempt_cvr_def] passed(2)])
    then have "StrategyResult res \<noteq> zero_strategy_result" by (auto simp: zero_strategy_result_def)
    with passed attempt_cvr_ran(1) [OF passed(1)] k show ?thesis by blast
  next
    case skipped
    with default_never_skips [OF _ assms(1)] show ?thesis by blast
  qed auto
qed


theorem step_success_verified_witness:
  "\<exists>k w0 s0 a res. attempt_cvr (demo_engine (\<lambda>_. None)) demo_task k w0 s0 = (a, res, None) \<and>
     Passed res \<and> CheckpointID res \<noteq> [] \<and>
     fst (snd (snd (executeStepWithRecovery (demo_engine (\<lambda>_. None)) ([], []) demo_task
       (new_step ''s1'' ''fs.write'' RawNil)))) = Some (demo_step_result ''fs.write'')"
  (is "\<exists>k w0 s0 a res. _ \<and> _ \<and> _ \<and> fst (snd (snd ?run)) = _")
proof -
  obtain w' s' r err where run: "?run = (w', s', r, err)" by (metis prod_cases4)
  have ret: "fst (snd (snd ?run)) = Some (demo_step_result ''fs.write'')" by code_simp
  with run have r: "r = Some (demo_step_result ''fs.write'')" by simp
  have "default_tree (demo_engine (\<lambda>_. None))"
    by (simp add: default_tree_def cvrDecisionTree_def demo_engine_def)
  from step_success_verified [OF this run [unfolded r]] obtain k w0 s0 a and res :: cvr_result where
    "attempt_cvr (demo_engine (\<lambda>_. None)) demo_task k w0 s0 = (a, res, None)"
    "same_step (new_step ''s1'' ''fs.write'' RawNil) s0" "Passed res"
    "shouldCheckpoint (attempt_intent (demo_engine (\<lambda>_. None)) w0 s0) \<longrightarrow> CheckpointID res \<noteq> []" by blast
  moreover from this(2) have "attempt_intent (demo_engine (\<lambda>_. None)) w0 s0 = mutation_intent"
    by (simp add: same_step_def new_step_def attempt_intent_def inferPrimitiveIntent_def query_prefixes_def
        verification_prefixes_def mutation_prefixes_def has_prefix_def)
  moreover have "shouldCheckpoint mutation_intent" by code_simp
  ultimately show ?thesis using ret by metis
qed

section \<open>Rollback\<close>











section \<open>Tasks\<close>

definition done_step :: "step \<Rightarrow> bool" where
  "done_step s \<longleftrightarrow> st_Status s = StepPassed \<and> (\<exists>x. st_Result s = Some x \<and> sr_Success x)"

definition stopped_at :: "nat \<Rightarrow> nat \<Rightarrow> step list \<Rightarrow> step list \<Rightarrow> go_error \<Rightarrow> bool" where
  "stopped_at i k ss ss' er \<longleftrightarrow>
     k < length ss \<and> (\<exists>er0. er = GoWrap (''task paused at step '' @ itoa (int (i + k + 1))) er0) \<and>
     (\<forall>j < k. done_step (ss' ! j)) \<and> st_Status (ss' ! k) \<in> {StepFailed, StepRolledBack} \<and>
     drop (Suc k) ss' = drop (Suc k) ss"

lemma executeStepWithRecovery_cases:
  assumes "executeStepWithRecovery e w t s = (w', s', r, err)"
  obtains (ok) x where "r = Some x" "sr_Success x" "err = None" "same_step s s'"
  | (error) er where "err = Some er" "r = None" "st_Status s' \<in> {StepFailed, StepRolledBack}" "same_step s s'"
proof -
  from assms obtain k w0 s0 where "same_step s s0"
    "run_attempt e t (max_retries t) k w0 s0 = (w', s', AttemptReturn r err)"
    by (rule executeStepWithRecovery_returns)
  from this(2) this(1) show ?thesis
    by (cases rule: run_attempt_cases) (auto intro: ok error dest: same_step_trans)
qed

lemma run_steps_spec:
  assumes "run_steps e t i w ss = (w', ss', err)"
  shows "map st_ID ss' = map st_ID ss \<and> map st_Primitive ss' = map st_Primitive ss \<and>
     map st_Input ss' = map st_Input ss \<and>
     (case err of None \<Rightarrow> list_all done_step ss' | Some er \<Rightarrow> \<exists>k. stopped_at i k ss ss' er)"
  using assms
proof (induction ss arbitrary: i w w' ss' err)
  case Nil
  then show ?case by simp
next
  case (Cons s ss)
  obtain w1 s1 r e1 where ex: "executeStepWithRecovery e w t s = (w1, s1, r, e1)" by (metis prod_cases4)
  then show ?case
  proof (cases rule: executeStepWithRecovery_cases)
    case (error er)
    with Cons.prems ex show ?thesis
      by (auto simp: same_step_def stopped_at_def intro!: exI [of _ 0])
  next
    case (ok x)
    obtain w2 rest e2 where rs: "run_steps e t (Suc i) w1 ss = (w2, rest, e2)" by (metis prod_cases3)
    with Cons.prems ex ok have eq: "err = e2"
      "ss' = s1\<lparr>st_Result := r, st_Status := StepPassed, st_CompletedAt := en_now e w1\<rparr> # rest" by auto
    have d: "done_step (s1\<lparr>st_Result := r, st_Status := StepPassed, st_CompletedAt := en_now e w1\<rparr>)"
      using ok by (simp add: done_step_def)
    show ?thesis
    proof (cases err)
      case None
      with Cons.IH [OF rs] eq d ok show ?thesis by (auto simp: same_step_def)
    next
      case (Some er)
      with Cons.IH [OF rs] eq obtain k where "stopped_at (Suc i) k ss rest er" by auto
      with eq d have "stopped_at i (Suc k) (s # ss) ss' er"
        by (auto simp: stopped_at_def nth_Cons split: nat.splits)
      with Cons.IH [OF rs] eq Some ok show ?thesis by (auto simp: same_step_def)
    qed
  qed
qed

text \<open>
  The outcome of a task. \<open>RunTask\<close> returns no error exactly when the task is completed,
  and then every step has passed with a successful result; otherwise the task is paused, the
  error names the first step that did not pass, the steps before it have passed, that step is
  failed or rolled back, and the steps after it are as they were before the run. In both cases
  the identifiers, primitives and inputs of the steps are kept, no other task is touched, and
  the tracker, which holds the task itself, reports the final statuses in its history.
\<close>

theorem run_task_outcome:
  assumes "RunTask e st p = (st', err)"
  shows "(case err of
       None \<Rightarrow> tk_Status (es_heap st' p) = TaskCompleted \<and> list_all done_step (tk_Steps (es_heap st' p))
     | Some er \<Rightarrow> tk_Status (es_heap st' p) = TaskPaused \<and>
         (\<exists>k. stopped_at 0 k (tk_Steps (es_heap st p)) (tk_Steps (es_heap st' p)) er)) \<and>
     map st_ID (tk_Steps (es_heap st' p)) = map st_ID (tk_Steps (es_heap st p)) \<and>
     map st_Primitive (tk_Steps (es_heap st' p)) = map st_Primitive (tk_Steps (es_heap st p)) \<and>
     map st_Input (tk_Steps (es_heap st' p)) = map st_Input (tk_Steps (es_heap st p)) \<and>
     (\<forall>q. q \<noteq> p \<longrightarrow> es_heap st' q = es_heap st q) \<and>
     GetTask st' (tk_ID (es_heap st p)) = Some p \<and>
     map sd_Status (GetTaskHistory st' (tk_ID (es_heap st p))) =
       map (\<lambda>s. step_status_string (st_Status s)) (tk_Steps (es_heap st' p))"
proof -
  define t0 where "t0 = (es_heap st p)\<lparr>tk_Status := TaskExecuting, tk_UpdatedAt := en_now e (es_world st)\<rparr>"
  obtain w' ss' er where rs: "run_steps e t0 0 (es_world st) (tk_Steps t0) = (w', ss', er)" by (metis prod_cases3)
  define t1 where "t1 = t0\<lparr>tk_Steps := ss', tk_Status := (if er = None then TaskCompleted else TaskPaused),
      tk_UpdatedAt := en_now e w'\<rparr>"
  from assms rs have st': "err = er" "es_heap st' = (es_heap st)(p := t1)"
    "es_tasks st' = (es_tasks st)(tk_ID t0 \<mapsto> p)"
    by (auto simp: RunTask_def Let_def TrackTask_def t0_def [symmetric] t1_def)
  have t: "tk_Steps t0 = tk_Steps (es_heap st p)" "tk_ID t0 = tk_ID (es_heap st p)" "tk_Steps t1 = ss'"
    "tk_Status t1 = (if er = None then TaskCompleted else TaskPaused)" by (simp_all add: t0_def t1_def)
  from run_steps_spec [OF rs] show ?thesis
    by (auto simp: st' t GetTask_def GetTaskHistory_def split: option.splits)
qed

theorem run_task_outcome_witness:
  "\<exists>st' er. RunTask (demo_engine (\<lambda>_. None)) \<lparr>es_world = ([], []), es_heap = (\<lambda>_. demo_task), es_tasks = Map.empty\<rparr> 0
      = (st', Some er) \<and> tk_Status (es_heap st' 0) = TaskPaused \<and> done_step (tk_Steps (es_heap st' 0) ! 0)"
proof -
  let ?st = "\<lparr>es_world = ([], []), es_heap = (\<lambda>_. demo_task), es_tasks = Map.empty\<rparr>"
  obtain st' err where run: "RunTask (demo_engine (\<lambda>_. None)) ?st 0 = (st', err)" by fastforce
  have "st_Status (tk_Steps (es_heap (fst (RunTask (demo_engine (\<lambda>_. None)) ?st 0)) 0) ! 0) = StepPassed"
    "snd (RunTask (demo_engine (\<lambda>_. None)) ?st 0) \<noteq> None" by code_simp+
  with run have *: "st_Status (tk_Steps (es_heap st' 0) ! 0) = StepPassed" "err \<noteq> None" by simp_all
  then obtain er where er: "err = Some er" by blast
  with run_task_outcome [OF run] obtain k where
    k: "stopped_at 0 k (tk_Steps (es_heap ?st 0)) (tk_Steps (es_heap st' 0)) er"
    "tk_Status (es_heap st' 0) = TaskPaused" by auto
  have "k \<noteq> 0"
  proof
    assume "k = 0"
    with k(1) *(1) show False by (simp add: stopped_at_def)
  qed
  with k er run show ?thesis by (auto simp: stopped_at_def)
qed

section \<open>Intents of app primitives\<close>

text \<open>
  The intent the engine acts on for a registered app primitive. With the in-memory registry
  in any reachable state, a primitive whose registration has just been accepted is run under the
  intent of its manifest, unless its name starts with one of the static names of the engine that
  lie outside the reserved namespaces: such a primitive is run under the engine's static intent
  whatever its manifest declares.
\<close>

theorem app_intent:
  assumes "en_app_get e = Some (\<lambda>w k. Inr (mem_get (reg w) k))"
    and "mem_register (mem_run ops NewInMemoryAppRegistry) m = (reg w, None)"
  shows "inferPrimitiveIntent e w (mf_Name m) =
     (if list_ex (has_prefix (mf_Name m)) [''db.query'', ''browser.goto'', ''browser.read''] then query_intent
      else if has_prefix (mf_Name m) ''repo.run_tests'' then verification_intent
      else if list_ex (has_prefix (mf_Name m)) [''repo.patch'', ''db.execute''] then mutation_intent
      else mf_Intent m)"
proof -
  let ?r = "mem_run ops NewInMemoryAppRegistry"
  have inv: "mem_inv ?r" unfolding mem_run_def by (rule mem_reg.run_inv [OF mem_inv_empty])
  then have inv': "mem_inv (reg w)" using mem_reg.register_inv [of ?r m] assms(2) by simp
  from mem_reg.registered_intent [OF inv assms(2)] obtain m' where
    m': "mem_get (reg w) (mf_Name m) = Some m'" "mf_Intent m' = mf_Intent m" by blast
  then have no: "\<not> has_prefix (mf_Name m) p" if "p \<in> set reservedSystemPrimitiveNamespaces" for p
    using mem_reg.reserved_absent [OF inv' that] by auto
  have res: "\<not> has_prefix (mf_Name m) (ns @ x)"
    if "ns \<in> set reservedSystemPrimitiveNamespaces" for ns x
    using has_prefix_trans [OF _ has_prefix_append] no [OF that] by blast
  have "\<not> has_prefix (mf_Name m) ''fs.read''" "\<not> has_prefix (mf_Name m) ''fs.list''"
    "\<not> has_prefix (mf_Name m) ''fs.diff''" "\<not> has_prefix (mf_Name m) ''fs.write''"
    using res [of "''fs.''" "''read''"] res [of "''fs.''" "''list''"] res [of "''fs.''" "''diff''"]
      res [of "''fs.''" "''write''"] by (simp_all add: reservedSystemPrimitiveNamespaces_def)
  moreover have "\<not> has_prefix (mf_Name m) ''code.search''" "\<not> has_prefix (mf_Name m) ''code.symbols''"
    "\<not> has_prefix (mf_Name m) ''verify.''" "\<not> has_prefix (mf_Name m) ''test.''"
    "\<not> has_prefix (mf_Name m) ''macro.safe_edit''" "\<not> has_prefix (mf_Name m) ''shell.exec''"
    "mf_Name m \<noteq> ''state.restore''"
    using res [of "''code.''" "''search''"] res [of "''code.''" "''symbols''"] res [of "''verify.''" "[]"]
      res [of "''test.''" "[]"] res [of "''macro.''" "''safe_edit''"] res [of "''shell.''" "''exec''"]
      res [of "''state.''" "[]"]
    by (auto simp: reservedSystemPrimitiveNamespaces_def has_prefix_def)
  ultimately show ?thesis using m' assms(1)
    by (simp add: inferPrimitiveIntent_def query_prefixes_def verification_prefixes_def mutation_prefixes_def
        lookupAppManifest_def)
qed

text \<open>An engine over the in-memory registry, and an app that registers a mutating \<open>db.query\<close> name.\<close>

definition reg_engine :: "app_registry_state engine" where
  "reg_engine = \<lparr>en_execute = (\<lambda>w i m p. (w, None, None)), en_now = (\<lambda>_. 0), en_ctx_err = (\<lambda>_. None),
     en_trace = None, en_save = None, en_strategy = None, en_tree = None,
     en_app_get = Some (\<lambda>w k. Inr (mem_get w k))\<rparr>"

theorem app_intent_witness:
  "inferPrimitiveIntent reg_engine (fst (mem_register NewInMemoryAppRegistry demo_manifest)) ''kv.set'' = demo_intent \<and>
   inferPrimitiveIntent reg_engine
     (fst (mem_register NewInMemoryAppRegistry (demo_manifest\<lparr>mf_Name := ''db.query_drop''\<rparr>))) ''db.query_drop''
     = query_intent"
proof -
  have 0: "NewInMemoryAppRegistry = mem_run [] NewInMemoryAppRegistry" by (simp add: mem_run_def)
  have 1: "snd (mem_register NewInMemoryAppRegistry demo_manifest) = None"
    "snd (mem_register NewInMemoryAppRegistry (demo_manifest\<lparr>mf_Name := ''db.query_drop''\<rparr>)) = None"
    by code_simp+
  have e: "en_app_get reg_engine = Some (\<lambda>w k. Inr (mem_get (id w) k))" by (simp add: reg_engine_def)
  have r: "mem_register (mem_run [] NewInMemoryAppRegistry) m = (id (fst (mem_register NewInMemoryAppRegistry m)), None)"
    if "snd (mem_register NewInMemoryAppRegistry m) = None" for m
    using that 0 by (metis id_apply prod.collapse)
  have n: "mf_Name demo_manifest = ''kv.set''" "mf_Intent demo_manifest = demo_intent"
    by (simp_all add: demo_manifest_def)
  show ?thesis
    using app_intent [of reg_engine id "[]" demo_manifest "fst (mem_register NewInMemoryAppRegistry demo_manifest)"]
      app_intent [of reg_engine id "[]" "demo_manifest\<lparr>mf_Name := ''db.query_drop''\<rparr>"
        "fst (mem_register NewInMemoryAppRegistry (demo_manifest\<lparr>mf_Name := ''db.query_drop''\<rparr>))"]
      e r [OF 1(1)] r [OF 1(2)] n by (simp add: has_prefix_def)
qed

section \<open>Replay\<close>

text \<open>
  Replay covers the task. The replay of a task has one entry per step, in order and
  numbered from one, with the primitive, input and status of the step; an entry is marked
  skipped exactly in the skip-passed mode and for a passed step.
\<close>

theorem replay_entries:
  "length (Replay (Some t) mode) = length (tk_Steps t) \<and>
   (\<forall>i < length (tk_Steps t).
      re_StepIndex (Replay (Some t) mode ! i) = int i + 1 \<and>
      re_Primitive (Replay (Some t) mode ! i) = st_Primitive (tk_Steps t ! i) \<and>
      re_Input (Replay (Some t) mode ! i) = st_Input (tk_Steps t ! i) \<and>
      re_Status (Replay (Some t) mode ! i) = step_status_string (st_Status (tk_Steps t ! i)) \<and>
      (re_Skipped (Replay (Some t) mode ! i) \<longleftrightarrow>
         mode = ReplaySkipPassed \<and> st_Status (tk_Steps t ! i) = StepPassed))"
  by (simp add: Replay_def replay_entry_of_def nth_enumerate_eq)

theorem replay_entries_witness:
  "re_Primitive (Replay (Some demo_task) ReplayFull ! 1) = ''shell.exec''"
proof -
  have "Suc 0 < length (tk_Steps demo_task)" "st_Primitive (tk_Steps demo_task ! 1) = ''shell.exec''" by code_simp+
  then show ?thesis using replay_entries [of demo_task ReplayFull] by auto
qed

end
