(* ===== verification/SqliteStore.thy ===== *)
theory SqliteStore
  imports Sql Sandbox Orchestrator
begin

text \<open>
  The control-plane store, \<open>internal/control/sqlite_store.go\<close>: sandboxes, events, trace records
  and checkpoint manifests in SQLite tables. JSON columns hold the encoded Go values and are
  modelled by the values themselves. The store provides the sandbox store of the manager and the
  event store of the bus: both contracts are interpreted here.
\<close>

record manifest_row =
  mr_checkpoint_id :: string
  mr_corrupted :: bool
  mr_corrupt_reason :: string
  mr_manifest :: checkpoint_manifest

record control_tables =
  tb_sandboxes :: "sandbox list"
  tb_events :: "event list"
  tb_event_seq :: int
  tb_traces :: "trace_record list"
  tb_manifests :: "manifest_row list"

type_synonym control_db = "control_tables sql_db"

definition empty_control :: control_db where
  "empty_control = \<lparr>db_tables = \<lparr>tb_sandboxes = [], tb_events = [], tb_event_seq = 0, tb_traces = [],
     tb_manifests = []\<rparr>, db_stmts = 0\<rparr>"

section \<open>Sandboxes\<close>

text \<open>\<open>INSERT ... ON CONFLICT(id) DO UPDATE\<close> of every column.\<close>

definition upsert_row :: "('r \<Rightarrow> string) \<Rightarrow> 'r \<Rightarrow> 'r list \<Rightarrow> 'r list" where
  "upsert_row key r rows =
     (if key r \<in> key ` set rows then update_rows key (key r) (\<lambda>_. r) rows else rows @ [r])"

definition sql_Upsert :: "sql_env \<Rightarrow> control_db \<Rightarrow> sandbox \<Rightarrow> control_db \<times> go_error option" where
  "sql_Upsert env d sb =
     sql_exec env d (\<lambda>t. Inr (t\<lparr>tb_sandboxes := upsert_row sb_ID sb (tb_sandboxes t)\<rparr>))"

definition sql_Get :: "sql_env \<Rightarrow> control_db \<Rightarrow> string \<Rightarrow> control_db \<times> (go_error + sandbox option)" where
  "sql_Get env d k = sql_query env d (\<lambda>t. select_row sb_ID k (tb_sandboxes t))"

definition sql_List :: "sql_env \<Rightarrow> control_db \<Rightarrow> control_db \<times> (go_error + sandbox list)" where
  "sql_List env d = sql_query env d (\<lambda>t. sort_key sb_ID (tb_sandboxes t))"

definition sql_Delete :: "sql_env \<Rightarrow> control_db \<Rightarrow> string \<Rightarrow> control_db \<times> go_error option" where
  "sql_Delete env d k =
     sql_exec env d (\<lambda>t. Inr (t\<lparr>tb_sandboxes := filter (\<lambda>sb. sb_ID sb \<noteq> k) (tb_sandboxes t)\<rparr>))"

definition sql_limit :: "int \<Rightarrow> 'a list \<Rightarrow> 'a list" where
  "sql_limit n xs = (if n > 0 then take (nat n) xs else xs)"

definition sql_ListExpired ::
  "sql_env \<Rightarrow> control_db \<Rightarrow> int \<Rightarrow> int \<Rightarrow> control_db \<times> (go_error + sandbox list)" where
  "sql_ListExpired env d before limit =
     sql_query env d (\<lambda>t. sql_limit limit (sort_key sb_ExpiresAt
       (filter (\<lambda>sb. sb_ExpiresAt sb > 0 \<and> sb_ExpiresAt sb \<le> unix before \<and> sb_Status sb \<noteq> StatusDestroyed)
          (tb_sandboxes t))))"

definition sqlite_ops :: "sql_env \<Rightarrow> control_db sandbox_ops" where
  "sqlite_ops env = \<lparr>ss_Upsert = sql_Upsert env, ss_Get = sql_Get env, ss_List = sql_List env,
     ss_Delete = sql_Delete env, ss_ListExpired = sql_ListExpired env\<rparr>"

text \<open>
  \<open>ImportLegacyRegistryDir\<close>: the directory entries with the extension \<open>.json\<close>, each an error (reading or
  decoding) or a sandbox, \<open>None\<close> for a directory that cannot be read.
\<close>

fun import_entries ::
  "sql_env \<Rightarrow> control_db \<Rightarrow> (go_error + sandbox) list \<Rightarrow> int \<Rightarrow> control_db \<times> int \<times> go_error option" where
  "import_entries env d [] imported = (d, imported, None)"
| "import_entries env d (Inl e # es) imported = (d, imported, Some e)"
| "import_entries env d (Inr sb # es) imported =
     (let (d1, r) = sql_Get env d (sb_ID sb)
      in case r of
           Inl e \<Rightarrow> (d1, imported, Some e)
         | Inr (Some _) \<Rightarrow> import_entries env d1 es imported
         | Inr None \<Rightarrow>
             (let (d2, u) = sql_Upsert env d1 sb
              in case u of
                   Some e \<Rightarrow> (d2, imported, Some e)
                 | None \<Rightarrow> import_entries env d2 es (imported + 1)))"

definition ImportLegacyRegistryDir ::
  "sql_env \<Rightarrow> control_db \<Rightarrow> (go_error + (go_error + sandbox) list) option
   \<Rightarrow> control_db \<times> int \<times> go_error option" where
  "ImportLegacyRegistryDir env d dir =
     (case dir of
        None \<Rightarrow> (d, 0, None)
      | Some (Inl e) \<Rightarrow> (d, 0, Some e)
      | Some (Inr entries) \<Rightarrow> import_entries env d entries 0)"

section \<open>Events\<close>

definition sql_Append :: "sql_env \<Rightarrow> control_db event_append" where
  "sql_Append env d evt =
     (let i = tb_event_seq (db_tables d) + 1;
          (d', err) = sql_exec env d (\<lambda>t. Inr (t\<lparr>tb_event_seq := i, tb_events := tb_events t @ [evt\<lparr>ev_ID := i\<rparr>]\<rparr>))
      in case err of
           Some e \<Rightarrow> (d', evt, Some e)
         | None \<Rightarrow> (d', evt\<lparr>ev_ID := i\<rparr>, None))"

definition event_matches :: "list_filter \<Rightarrow> event \<Rightarrow> bool" where
  "event_matches f e =
     ((lf_SandboxID f = [] \<or> ev_SandboxID e = lf_SandboxID f) \<and>
      (lf_Method f = [] \<or> ev_Method e = lf_Method f) \<and>
      (lf_Type f = [] \<or> ev_Type e = lf_Type f))"

definition scan_event :: "event \<Rightarrow> event" where
  "scan_event e = e\<lparr>ev_Data := scan_raw (ev_Data e)\<rparr>"

definition ListEvents :: "sql_env \<Rightarrow> control_db \<Rightarrow> list_filter \<Rightarrow> control_db \<times> (go_error + event list)" where
  "ListEvents env d f =
     sql_query env d (\<lambda>t. sql_limit (lf_Limit f) (map scan_event
       (sort_key (\<lambda>e. - ev_ID e) (filter (event_matches f) (tb_events t)))))"

section \<open>Trace records\<close>

definition RecordTraceStep :: "sql_env \<Rightarrow> control_db \<Rightarrow> trace_record \<Rightarrow> control_db \<times> go_error option" where
  "RecordTraceStep env d r = sql_exec env d (\<lambda>t. Inr (t\<lparr>tb_traces := tb_traces t @ [r]\<rparr>))"

definition ListTraceSteps ::
  "sql_env \<Rightarrow> control_db \<Rightarrow> string \<Rightarrow> int \<Rightarrow> control_db \<times> (go_error + trace_record list)" where
  "ListTraceSteps env d sandboxID limit =
     sql_query env d (\<lambda>t. sql_limit limit
       (rev (filter (\<lambda>r. sandboxID = [] \<or> tr_SandboxID r = sandboxID) (tb_traces t))))"

definition GetTraceStep ::
  "sql_env \<Rightarrow> control_db \<Rightarrow> string \<Rightarrow> string \<Rightarrow> control_db \<times> (go_error + trace_record option)" where
  "GetTraceStep env d sandboxID stepID =
     sql_query env d (\<lambda>t. case rev (filter (\<lambda>r. tr_StepID r = stepID \<and> (sandboxID = [] \<or> tr_SandboxID r = sandboxID))
                              (tb_traces t)) of
                            [] \<Rightarrow> None | r # _ \<Rightarrow> Some r)"

section \<open>Checkpoint manifests\<close>

definition SaveManifest :: "sql_env \<Rightarrow> control_db \<Rightarrow> checkpoint_manifest \<Rightarrow> control_db \<times> go_error option" where
  "SaveManifest env d m =
     (let cid = (if cm_CheckpointID m = [] then cm_ID m else cm_CheckpointID m);
          row = \<lparr>mr_checkpoint_id = cid, mr_corrupted = cm_Corrupted m, mr_corrupt_reason = cm_CorruptReason m,
                 mr_manifest = m\<rparr>
      in sql_exec env d (\<lambda>t. Inr (t\<lparr>tb_manifests :=
           filter (\<lambda>r. mr_checkpoint_id r \<noteq> cid) (tb_manifests t) @ [row]\<rparr>)))"

definition GetManifest ::
  "sql_env \<Rightarrow> control_db \<Rightarrow> string \<Rightarrow> control_db \<times> (go_error + checkpoint_manifest option)" where
  "GetManifest env d cid =
     sql_query env d (\<lambda>t. map_option mr_manifest (select_row mr_checkpoint_id cid (tb_manifests t)))"

text \<open>
  The chain loop ends only when the chain does (\<open>maxDepth\<close> zero means no limit), so it has fuel:
  \<open>None\<close> is a chain that was not walked to its end.
\<close>

fun chain_loop ::
  "sql_env \<Rightarrow> int \<Rightarrow> nat \<Rightarrow> control_db \<Rightarrow> string \<Rightarrow> int \<Rightarrow> checkpoint_manifest list
   \<Rightarrow> (control_db \<times> (go_error + checkpoint_manifest list)) option" where
  "chain_loop env maxDepth 0 d cur depth acc = None"
| "chain_loop env maxDepth (Suc n) d cur depth acc =
     (if cur \<noteq> [] \<and> (maxDepth = 0 \<or> depth < maxDepth) then
        (let (d1, r) = GetManifest env d cur
         in case r of
              Inl e \<Rightarrow> Some (d1, Inl e)
            | Inr None \<Rightarrow> Some (d1, Inr acc)
            | Inr (Some m) \<Rightarrow> chain_loop env maxDepth n d1 (cm_PrevCheckpointID m) (depth + 1) (acc @ [m]))
      else Some (d, Inr acc))"

definition GetManifestChain ::
  "nat \<Rightarrow> sql_env \<Rightarrow> control_db \<Rightarrow> string \<Rightarrow> int
   \<Rightarrow> (control_db \<times> (go_error + checkpoint_manifest list)) option" where
  "GetManifestChain fuel env d cid maxDepth = chain_loop env maxDepth fuel d cid 0 []"

definition MarkCorrupted :: "sql_env \<Rightarrow> control_db \<Rightarrow> string \<Rightarrow> string \<Rightarrow> control_db \<times> go_error option" where
  "MarkCorrupted env d cid reason =
     (let (d1, r) = GetManifest env d cid
      in case r of
           Inl e \<Rightarrow> (d1, Some e)
         | Inr None \<Rightarrow> (d1, None)
         | Inr (Some m) \<Rightarrow>
             sql_exec env d1 (\<lambda>t. Inr (t\<lparr>tb_manifests := update_rows mr_checkpoint_id cid
               (\<lambda>row. row\<lparr>mr_corrupted := True, mr_corrupt_reason := reason,
                          mr_manifest := m\<lparr>cm_Corrupted := True, cm_CorruptReason := reason\<rparr>\<rparr>) (tb_manifests t)\<rparr>)))"

section \<open>The sandbox store contract\<close>

definition sandboxes_inv :: "control_db \<Rightarrow> bool" where
  "sandboxes_inv d = distinct (map sb_ID (tb_sandboxes (db_tables d)))"

definition sandbox_view :: "control_db \<Rightarrow> string \<Rightarrow> sandbox option" where
  "sandbox_view d k = select_row sb_ID k (tb_sandboxes (db_tables d))"

lemma replace_row_other: "k \<noteq> key r \<Longrightarrow> select_row key k (update_rows key (key r) (\<lambda>_. r) rows) = select_row key k rows"
  by (induction rows) (auto simp: select_row_def update_rows_def)

lemma replace_row_same:
  "key r \<in> key ` set rows \<Longrightarrow> select_row key (key r) (update_rows key (key r) (\<lambda>_. r) rows) = Some r"
  by (induction rows) (auto simp: select_row_def update_rows_def)

lemma upsert_row_select:
  "select_row key k (upsert_row key r rows) = (if k = key r then Some r else select_row key k rows)"
  using select_insert [of "[]" key r rows "rows @ [r]" k]
  by (auto simp: upsert_row_def replace_row_other replace_row_same insert_row_def)

lemma upsert_row_distinct: "distinct (map key rows) \<Longrightarrow> distinct (map key (upsert_row key r rows))"
proof (cases "key r \<in> key ` set rows")
  case True
  have "map key (update_rows key (key r) (\<lambda>_. r) rows) = map key rows"
    by (induction rows) (auto simp: update_rows_def)
  with True show "distinct (map key rows) \<Longrightarrow> ?thesis" by (simp add: upsert_row_def)
next
  case False
  then show "distinct (map key rows) \<Longrightarrow> ?thesis" by (simp add: upsert_row_def)
qed

lemma delete_rows_select:
  "select_row key j (filter (\<lambda>r. key r \<noteq> k) rows) = (if j = k then None else select_row key j rows)"
  by (induction rows) (auto simp: select_row_def)

lemma ran_select_row: "distinct (map key rows) \<Longrightarrow> ran (\<lambda>k. select_row key k rows) = set rows"
  by (auto simp: ran_def dest: select_row_Some intro: select_row_unique)

lemma sql_limit_subset: "set (sql_limit n xs) \<subseteq> set xs"
  by (auto simp: sql_limit_def dest: in_set_takeD)

lemma sql_limit_distinct: "distinct (map f xs) \<Longrightarrow> distinct (map f (sql_limit n xs))"
  by (simp add: sql_limit_def take_map [symmetric])

lemma sql_ListExpired_facts:
  assumes "sandboxes_inv d" and "snd (sql_ListExpired env d t n) = Inr xs"
  shows "(\<forall>sb \<in> set xs. sandbox_view d (sb_ID sb) = Some sb \<and> expired t sb) \<and> distinct (map sb_ID xs) \<and>
     (0 < n \<longrightarrow> int (length xs) \<le> n) \<and>
     (n \<le> 0 \<longrightarrow> (\<forall>k sb. sandbox_view d k = Some sb \<longrightarrow> 0 < sb_ExpiresAt sb \<longrightarrow> expired t sb \<longrightarrow> sb \<in> set xs))"
proof -
  let ?rows = "tb_sandboxes (db_tables d)"
  define all where "all = sort_key sb_ExpiresAt (filter (\<lambda>sb. sb_ExpiresAt sb > 0 \<and>
      sb_ExpiresAt sb \<le> unix t \<and> sb_Status sb \<noteq> StatusDestroyed) ?rows)"
  have xs: "xs = sql_limit n all"
    using assms(2) by (simp add: sql_ListExpired_def sql_query_Inr all_def)
  have inv: "distinct (map sb_ID ?rows)" using assms(1) by (simp add: sandboxes_inv_def)
  have mem: "sandbox_view d (sb_ID sb) = Some sb \<and> expired t sb" if "sb \<in> set all" for sb
    using that select_row_unique [OF inv] by (auto simp: all_def expired_def sandbox_view_def)
  have "distinct (map sb_ID all)"
    unfolding all_def distinct_map_sort_key using inv by (rule distinct_map_filter)
  then have d: "distinct (map sb_ID xs)" unfolding xs by (rule sql_limit_distinct)
  have compl: "sb \<in> set all" if "sandbox_view d k = Some sb" "0 < sb_ExpiresAt sb" "expired t sb" for k sb
    using select_row_Some [OF that(1) [unfolded sandbox_view_def]] that(2,3) by (simp add: all_def expired_def)
  have "0 < n \<longrightarrow> int (length xs) \<le> n" "n \<le> 0 \<longrightarrow> xs = all" by (auto simp: xs sql_limit_def)
  moreover have "set xs \<subseteq> set all" unfolding xs by (rule sql_limit_subset)
  ultimately show ?thesis using mem d compl by blast
qed

lemma sql_exec_view:
  assumes "sql_exec env d (\<lambda>t. Inr (t\<lparr>tb_sandboxes := f (tb_sandboxes t)\<rparr>)) = (d', e)"
  shows "tb_sandboxes (db_tables d') = (if e = None then f (tb_sandboxes (db_tables d)) else tb_sandboxes (db_tables d))"
  using assms by (cases rule: sql_exec_cases) auto

interpretation sql_store: sandbox_store "sqlite_ops env" sandbox_view sandboxes_inv for env
proof (unfold_locales, goal_cases)
  case (1 s k sb)
  then show ?case by (auto simp: sandbox_view_def dest: select_row_Some)
next
  case (2 s sb s')
  then show ?case
    by (auto simp: sqlite_ops_def sql_Upsert_def sandbox_view_def fun_eq_iff upsert_row_select dest!: sql_exec_view)
next
  case (3 s sb s' e)
  then show ?case
    by (auto simp: sqlite_ops_def sql_Upsert_def sandbox_view_def fun_eq_iff dest!: sql_exec_view)
next
  case (4 s sb)
  obtain s' e where "sql_Upsert env s sb = (s', e)" by fastforce
  with 4 show ?case
    by (auto simp: sqlite_ops_def sql_Upsert_def sandboxes_inv_def upsert_row_distinct dest!: sql_exec_view)
next
  case (5 s k)
  then show ?case by (simp add: sqlite_ops_def sql_Get_def sandbox_view_def fun_eq_iff sandboxes_inv_def)
next
  case (6 s k r)
  then show ?case by (simp add: sqlite_ops_def sql_Get_def sql_query_Inr sandbox_view_def)
next
  case (7 s k s')
  then show ?case
    by (auto simp: sqlite_ops_def sql_Delete_def sandbox_view_def fun_eq_iff delete_rows_select dest!: sql_exec_view)
next
  case (8 s k s' e)
  then show ?case
    by (auto simp: sqlite_ops_def sql_Delete_def sandbox_view_def fun_eq_iff dest!: sql_exec_view)
next
  case (9 s k)
  obtain s' e where "sql_Delete env s k = (s', e)" by fastforce
  with 9 show ?case
    by (auto simp: sqlite_ops_def sql_Delete_def sandboxes_inv_def distinct_map_filter dest!: sql_exec_view)
next
  case (10 s)
  then show ?case by (simp add: sqlite_ops_def sql_List_def sandbox_view_def fun_eq_iff sandboxes_inv_def)
next
  case (11 s xs)
  then have xs: "xs = sort_key sb_ID (tb_sandboxes (db_tables s))"
    by (simp add: sqlite_ops_def sql_List_def sql_query_Inr)
  have d: "distinct (map sb_ID (tb_sandboxes (db_tables s)))" using 11 by (simp add: sandboxes_inv_def)
  then have "distinct (map sb_ID xs)" unfolding xs distinct_map_sort_key .
  moreover have "sorted (map sb_ID xs)" unfolding xs by simp
  moreover have "set xs = ran (sandbox_view s)"
    unfolding xs sandbox_view_def using ran_select_row [OF d] by simp
  ultimately show ?case using sorted_distinct_lt by simp
next
  case (12 s t n)
  then show ?case by (simp add: sqlite_ops_def sql_ListExpired_def sandbox_view_def fun_eq_iff sandboxes_inv_def)
next
  case (13 s t n xs)
  then show ?case using sql_ListExpired_facts by (simp add: sqlite_ops_def)
qed

section \<open>The event store contract\<close>

definition events_inv :: "control_db \<Rightarrow> bool" where
  "events_inv d \<longleftrightarrow> (\<forall>e \<in> set (tb_events (db_tables d)). ev_ID e \<le> tb_event_seq (db_tables d))"

lemma sql_Append_cases:
  assumes "sql_Append env d evt = (d', e', err)"
  obtains (refused) e where "err = Some e" "db_tables d' = db_tables d" "e' = evt"
  | (stored) "err = None" "e' = evt\<lparr>ev_ID := tb_event_seq (db_tables d) + 1\<rparr>"
      "tb_events (db_tables d') = tb_events (db_tables d) @ [e']"
      "tb_event_seq (db_tables d') = tb_event_seq (db_tables d) + 1"
proof -
  let ?f = "\<lambda>t. Inr (t\<lparr>tb_event_seq := tb_event_seq (db_tables d) + 1,
      tb_events := tb_events t @ [evt\<lparr>ev_ID := tb_event_seq (db_tables d) + 1\<rparr>]\<rparr>) :: go_error + control_tables"
  obtain d1 er where x: "sql_exec env d ?f = (d1, er)" by fastforce
  then show ?thesis
  proof (cases rule: sql_exec_cases)
    case (failed e)
    with assms x show ?thesis by (intro refused) (auto simp: sql_Append_def Let_def)
  next
    case (ok t)
    with assms x show ?thesis by (intro stored) (auto simp: sql_Append_def Let_def)
  qed
qed

interpretation sql_events: event_store "sql_Append env" "\<lambda>d. tb_events (db_tables d)" events_inv for env
proof (unfold_locales, goal_cases)
  case (1 s e s' e')
  from 1(2) show ?case
  proof (cases rule: sql_Append_cases)
    case refused
    then show ?thesis by simp
  next
    case stored
    with 1(1) show ?thesis by (auto simp: events_inv_def)
  qed
next
  case (2 s e s' e' er)
  from 2(2) show ?case by (cases rule: sql_Append_cases) auto
next
  case (3 s e)
  obtain s' e' er where a: "sql_Append env s e = (s', e', er)" by (metis prod_cases3)
  from a have "events_inv s'" using 3 by (cases rule: sql_Append_cases) (auto simp: events_inv_def)
  with a show ?case by simp
qed

section \<open>Properties of the store\<close>

definition no_faults :: sql_env where
  "no_faults = \<lparr>sq_fault = (\<lambda>_. None), sq_now = (\<lambda>n. int n)\<rparr>"

text \<open>
  C31. The reaper on SQLite. With any pattern of database failures, \<open>ReapExpired\<close> over the SQLite
  store removes no sandbox but those whose deadline was set and had passed and that were not
  already destroyed, never more than the limit, and every other record is kept as it was.
\<close>

theorem reaper_safe_sqlite:
  assumes "sandboxes_inv (ms_store st)" and "mg_store m = sqlite_ops env" and "ReapExpired m st limit = (st', n, err)"
  shows "sandboxes_inv (ms_store st') \<and> 0 \<le> n \<and> (0 < limit \<longrightarrow> n \<le> limit) \<and>
    (\<forall>k. sandbox_view (ms_store st') k = sandbox_view (ms_store st) k \<or>
         sandbox_view (ms_store st') k = None \<and>
         (\<exists>sb. sandbox_view (ms_store st) k = Some sb \<and> sb_ExpiresAt sb \<noteq> 0 \<and>
               sb_ExpiresAt sb \<le> unix (mg_now m (ms_world st)) \<and> sb_Status sb \<noteq> StatusDestroyed))"
  using sql_store.reap_expired_view [OF assms, unfolded expired_def] by blast

definition demo_sql_manager :: "(control_db, int) manager" where
  "demo_sql_manager = \<lparr>mg_driver = demo_driver, mg_store = sqlite_ops no_faults, mg_publish = Some (\<lambda>w e. w + 1000000000),
     mg_probe = (\<lambda>w s. False), mg_hydrator = None, mg_now = (\<lambda>w. w), mg_abs = (\<lambda>p. None)\<rparr>"

theorem reaper_safe_sqlite_witness:
  "sandbox_view (ms_store (fst (ReapExpired demo_sql_manager
      (fst (mgr_Create demo_sql_manager \<lparr>ms_store = empty_control, ms_world = 7000000000, ms_snapshots = []\<rparr>
         (demo_config ''b'' 500))) 32))) ''sb-b'' \<noteq> None"
proof -
  let ?init = "\<lparr>ms_store = empty_control, ms_world = 7000000000, ms_snapshots = []\<rparr>"
  let ?st = "fst (mgr_Create demo_sql_manager ?init (demo_config ''b'' 500))"
  obtain st' n err where run: "ReapExpired demo_sql_manager ?st 32 = (st', n, err)" by (metis prod_cases3)
  have m: "mg_store demo_sql_manager = sqlite_ops no_faults" by (simp add: demo_sql_manager_def)
  have inv0: "sandboxes_inv empty_control" by (simp add: sandboxes_inv_def empty_control_def)
  have inv: "sandboxes_inv (ms_store ?st)"
  proof (rule sql_store.create_view(1) [OF _ m])
    show "mgr_Create demo_sql_manager ?init (demo_config ''b'' 500) =
        (?st, snd (mgr_Create demo_sql_manager ?init (demo_config ''b'' 500)))" by simp
  qed (simp add: inv0)
  have e: "map_option sb_ExpiresAt (sandbox_view (ms_store ?st) ''sb-b'') = Some 507"
    "unix (mg_now demo_sql_manager (ms_world ?st)) = 8" by code_simp+
  from reaper_safe_sqlite [OF inv m run] e have "sandbox_view (ms_store st') ''sb-b'' = sandbox_view (ms_store ?st) ''sb-b''"
    by auto
  with e run show ?thesis by auto
qed

lemma insort_key_last: "\<forall>y \<in> set ys. f y < f x \<Longrightarrow> insort_key f x ys = ys @ [x]"
  by (induction ys) (auto simp: not_le)

lemma rev_sorted_ids: "sorted_wrt (<) (map ev_ID es) \<Longrightarrow> sort_key (\<lambda>e. - ev_ID e) es = rev es"
  by (induction es) (simp_all add: insort_key_last)

text \<open>On SQLite the accepted events are those whose statement does not fail; each takes one statement.\<close>

lemma sql_accepted:
  "accepted (sql_Append env) d pes =
     map (\<lambda>(k, t, e). stamp t e) (filter (\<lambda>(k, p). sq_fault env k = None) (enumerate (db_stmts d) pes))"
proof (induction pes arbitrary: d)
  case (Cons p pes)
  obtain t e where p: "p = (t, e)" by fastforce
  obtain d' e' er where a: "sql_Append env d (stamp t e) = (d', e', er)" by (metis prod_cases3)
  then have "db_stmts d' = Suc (db_stmts d)" "er = None \<longleftrightarrow> sq_fault env (db_stmts d) = None"
    by (auto simp: sql_Append_def sql_exec_def Let_def split: option.splits)
  with Cons.IH [of d'] p a show ?case by simp
qed simp

text \<open>
  C39. Published events are kept. Whatever is published on a bus over the SQLite store, between any subscriptions,
  cancellations and receptions and with any failing statements, nothing panics, and the table then holds its
  old rows followed by exactly the events whose insertion did not fail, each once, as published and in the order of
  publication, under strictly increasing numbers: when no statement fails, every published event. A later
  unfiltered, unlimited query that succeeds returns exactly the table from the newest to the oldest.
\<close>

theorem published_events_kept:
  assumes "events_inv d" and "sorted_wrt (<) (map ev_ID (tb_events (db_tables d)))"
  shows "\<exists>b' d' new. bus_run (sql_Append env) ops (NewBus (Some d)) = Some b' \<and> bus_store b' = Some d' \<and>
     tb_events (db_tables d') = tb_events (db_tables d) @ new \<and>
     map (\<lambda>e. e\<lparr>ev_ID := 0\<rparr>) new =
       map (\<lambda>(k, t, e). (if ev_Timestamp e = [] then e\<lparr>ev_Timestamp := t\<rparr> else e)\<lparr>ev_ID := 0\<rparr>)
         (filter (\<lambda>(k, p). sq_fault env k = None) (enumerate (db_stmts d) (published ops))) \<and>
     sorted_wrt (<) (map ev_ID (tb_events (db_tables d'))) \<and>
     (sq_fault env (db_stmts d') = None \<longrightarrow>
        snd (ListEvents env d' \<lparr>lf_SandboxID = [], lf_Method = [], lf_Type = [], lf_Limit = 0\<rparr>) =
          Inr (map scan_event (rev (tb_events (db_tables d) @ new))))"
proof -
  from sql_events.run_rows [where env = env and ops = ops, OF bus_inv_New [of "Some d"] _ assms] obtain b' d' new where
    b': "bus_run (sql_Append env) ops (NewBus (Some d)) = Some b'" and
    d': "bus_store b' = Some d'" "tb_events (db_tables d') = tb_events (db_tables d) @ new"
      "map (\<lambda>e. e\<lparr>ev_ID := 0\<rparr>) new = map (\<lambda>e. e\<lparr>ev_ID := 0\<rparr>) (accepted (sql_Append env) d (published ops))"
      "sorted_wrt (<) (map ev_ID (tb_events (db_tables d')))" by (auto simp: NewBus_def)
  have "filter (event_matches \<lparr>lf_SandboxID = [], lf_Method = [], lf_Type = [], lf_Limit = 0\<rparr>) xs = xs" for xs
    by (induction xs) (simp_all add: event_matches_def)
  then have "sq_fault env (db_stmts d') = None \<Longrightarrow>
      snd (ListEvents env d' \<lparr>lf_SandboxID = [], lf_Method = [], lf_Type = [], lf_Limit = 0\<rparr>) =
        Inr (map scan_event (rev (tb_events (db_tables d'))))"
    by (simp add: ListEvents_def sql_query_Inr sql_limit_def rev_sorted_ids [OF d'(4)])
  moreover have "map (\<lambda>e. e\<lparr>ev_ID := 0\<rparr>) new =
       map (\<lambda>(k, t, e). (if ev_Timestamp e = [] then e\<lparr>ev_Timestamp := t\<rparr> else e)\<lparr>ev_ID := 0\<rparr>)
         (filter (\<lambda>(k, p). sq_fault env k = None) (enumerate (db_stmts d) (published ops)))"
    unfolding d'(3) sql_accepted by (simp add: stamp_def comp_def case_prod_beta')
  ultimately show ?thesis using b' d' by (intro exI [of _ b'] exI [of _ d'] exI [of _ new]) auto
qed

theorem published_events_kept_witness:
  "\<exists>b' d' new. bus_run (sql_Append no_faults) [BPublish ''t1'' (zero_event\<lparr>ev_Type := ''a''\<rparr>), BSubscribe 1, BPublish ''t2'' (zero_event\<lparr>ev_Type := ''b''\<rparr>)]
       (NewBus (Some empty_control)) = Some b' \<and> bus_store b' = Some d' \<and> tb_events (db_tables d') = new \<and>
     map (\<lambda>e. e\<lparr>ev_ID := 0\<rparr>) new = [zero_event\<lparr>ev_Type := ''a'', ev_Timestamp := ''t1''\<rparr>, zero_event\<lparr>ev_Type := ''b'', ev_Timestamp := ''t2''\<rparr>]"
proof -
  have "events_inv empty_control" "sorted_wrt (<) (map ev_ID (tb_events (db_tables empty_control)))"
    by (simp_all add: events_inv_def empty_control_def)
  from published_events_kept [OF this, of no_faults "[BPublish ''t1'' (zero_event\<lparr>ev_Type := ''a''\<rparr>), BSubscribe 1, BPublish ''t2'' (zero_event\<lparr>ev_Type := ''b''\<rparr>)]"]
  show ?thesis by (auto simp: no_faults_def empty_control_def zero_event_def)
qed

section \<open>Checkpoint manifests\<close>

definition manifest_of :: "control_db \<Rightarrow> string \<Rightarrow> checkpoint_manifest option" where
  "manifest_of d cid = map_option mr_manifest (select_row mr_checkpoint_id cid (tb_manifests (db_tables d)))"

lemma GetManifest_eq:
  "GetManifest env d cid =
     (d\<lparr>db_stmts := Suc (db_stmts d)\<rparr>,
      case sq_fault env (db_stmts d) of Some e \<Rightarrow> Inl e | None \<Rightarrow> Inr (manifest_of d cid))"
  by (simp add: GetManifest_def sql_query_def manifest_of_def split: option.splits)

lemma manifest_of_stmts [simp]: "manifest_of (d\<lparr>db_stmts := n\<rparr>) cid = manifest_of d cid"
  by (simp add: manifest_of_def)

lemma select_filter_append:
  "select_row key j (filter (\<lambda>r. key r \<noteq> key x) rows @ [x]) = (if j = key x then Some x else select_row key j rows)"
  by (induction rows) (auto simp: select_row_def)

text \<open>
  Manifests are kept. A manifest saved without error is what \<open>GetManifest\<close> finds under its
  checkpoint id (its id, where the former is empty), in place of an earlier one, and
  the manifests of other checkpoints are as before; marking a checkpoint corrupted changes only its
  flag and reason; a failed write changes nothing.
\<close>

theorem manifest_round_trip:
  assumes "cid = (if cm_CheckpointID m = [] then cm_ID m else cm_CheckpointID m)"
  shows "(\<forall>d'. SaveManifest env d m = (d', None) \<longrightarrow> manifest_of d' = (manifest_of d)(cid \<mapsto> m)) \<and>
    (\<forall>d' e. SaveManifest env d m = (d', Some e) \<longrightarrow> manifest_of d' = manifest_of d) \<and>
    (\<forall>d' c reason. MarkCorrupted env d c reason = (d', None) \<longrightarrow>
       manifest_of d' = (manifest_of d)(c := map_option (\<lambda>x. x\<lparr>cm_Corrupted := True, cm_CorruptReason := reason\<rparr>) (manifest_of d c))) \<and>
    (\<forall>d' c reason e. MarkCorrupted env d c reason = (d', Some e) \<longrightarrow> manifest_of d' = manifest_of d)"
proof (intro conjI allI impI)
  fix d' e
  assume "SaveManifest env d m = (d', None)"
  then show "manifest_of d' = (manifest_of d)(cid \<mapsto> m)"
    unfolding SaveManifest_def Let_def assms [symmetric]
    by (cases rule: sql_exec_cases)
       (use select_filter_append [of mr_checkpoint_id _ "\<lparr>mr_checkpoint_id = cid, mr_corrupted = cm_Corrupted m,
          mr_corrupt_reason = cm_CorruptReason m, mr_manifest = m\<rparr>"] in \<open>auto simp: manifest_of_def fun_eq_iff\<close>)
next
  fix d' e
  assume "SaveManifest env d m = (d', Some e)"
  then show "manifest_of d' = manifest_of d"
    unfolding SaveManifest_def Let_def by (cases rule: sql_exec_cases) (auto simp: manifest_of_def fun_eq_iff)
next
  fix d' c reason
  assume m: "MarkCorrupted env d c reason = (d', None)"
  show "manifest_of d' = (manifest_of d)(c := map_option (\<lambda>x. x\<lparr>cm_Corrupted := True, cm_CorruptReason := reason\<rparr>) (manifest_of d c))"
  proof (cases "manifest_of d c")
    case None
    with m show ?thesis by (auto simp: MarkCorrupted_def GetManifest_eq fun_eq_iff split: option.splits)
  next
    case (Some x)
    let ?d1 = "d\<lparr>db_stmts := Suc (db_stmts d)\<rparr>"
    let ?f = "\<lambda>row. row\<lparr>mr_corrupted := True, mr_corrupt_reason := reason, mr_manifest := x\<lparr>cm_Corrupted := True, cm_CorruptReason := reason\<rparr>\<rparr>"
    from m Some have "sql_exec env ?d1 (\<lambda>t. Inr (t\<lparr>tb_manifests := update_rows mr_checkpoint_id c ?f (tb_manifests t)\<rparr>)) = (d', None)"
      by (auto simp: MarkCorrupted_def GetManifest_eq split: option.splits)
    then show ?thesis
    proof (cases rule: sql_exec_cases)
      case (ok t)
      have sel: "select_row mr_checkpoint_id j (update_rows mr_checkpoint_id c ?f rows) =
          (if j = c then map_option ?f (select_row mr_checkpoint_id j rows) else select_row mr_checkpoint_id j rows)"
        for j rows by (rule select_update) simp
      from Some obtain row where "select_row mr_checkpoint_id c (tb_manifests (db_tables d)) = Some row"
        by (auto simp: manifest_of_def)
      moreover from ok have "tb_manifests (db_tables d') = update_rows mr_checkpoint_id c ?f (tb_manifests (db_tables d))"
        by auto
      ultimately show ?thesis unfolding Some by (simp add: manifest_of_def fun_eq_iff sel)
    qed simp
  qed
next
  fix d' c reason e
  assume "MarkCorrupted env d c reason = (d', Some e)"
  then show "manifest_of d' = manifest_of d"
    by (auto simp: MarkCorrupted_def GetManifest_eq split: option.splits elim!: sql_exec_cases)
       (simp add: manifest_of_def fun_eq_iff)
qed

theorem manifest_round_trip_witness:
  "manifest_of (fst (SaveManifest no_faults empty_control (zero_manifest\<lparr>cm_ID := ''c1''\<rparr>))) ''c1'' \<noteq> None"
proof -
  obtain d' e where s: "SaveManifest no_faults empty_control (zero_manifest\<lparr>cm_ID := ''c1''\<rparr>) = (d', e)" by fastforce
  then have "e = None" by (auto simp: SaveManifest_def sql_exec_def no_faults_def Let_def)
  with manifest_round_trip [of "''c1''" "zero_manifest\<lparr>cm_ID := ''c1''\<rparr>" no_faults empty_control] s show ?thesis
    by (auto simp: zero_manifest_def)
qed


section \<open>Manifest chains\<close>

text \<open>A list of manifests that follows the links from a checkpoint.\<close>

fun linked :: "control_db \<Rightarrow> string \<Rightarrow> checkpoint_manifest list \<Rightarrow> bool" where
  "linked d cur [] = True"
| "linked d cur (m # ms) = (cur \<noteq> [] \<and> manifest_of d cur = Some m \<and> linked d (cm_PrevCheckpointID m) ms)"

lemma linked_stmts [simp]: "linked (d\<lparr>db_stmts := n\<rparr>) cur ms = linked d cur ms"
  by (induction ms arbitrary: cur) simp_all

lemma chain_loop_result:
  assumes "chain_loop env M n d cur depth acc = Some (d', Inr ms)"
  shows "\<exists>new. ms = acc @ new \<and> linked d cur new \<and> (M \<noteq> 0 \<longrightarrow> int (length new) \<le> max 0 (M - depth))"
  using assms
proof (induction n arbitrary: d cur depth acc)
  case 0
  then show ?case by simp
next
  case (Suc n)
  show ?case
  proof (cases "cur \<noteq> [] \<and> (M = 0 \<or> depth < M) \<and> sq_fault env (db_stmts d) = None \<and> manifest_of d cur \<noteq> None")
    case False
    with Suc.prems show ?thesis
      by (intro exI [of _ "[]"]) (auto simp: GetManifest_eq split: if_splits option.splits)
  next
    case True
    then obtain m where m: "manifest_of d cur = Some m" by blast
    with True Suc.prems have "chain_loop env M n (d\<lparr>db_stmts := Suc (db_stmts d)\<rparr>) (cm_PrevCheckpointID m) (depth + 1)
        (acc @ [m]) = Some (d', Inr ms)" by (auto simp: GetManifest_eq)
    from Suc.IH [OF this] obtain new where "ms = (acc @ [m]) @ new" "linked d (cm_PrevCheckpointID m) new"
      "M \<noteq> 0 \<longrightarrow> int (length new) \<le> max 0 (M - (depth + 1))" by auto
    with True m show ?thesis by (intro exI [of _ "m # new"]) auto
  qed
qed

lemma chain_loop_depth:
  assumes "M \<noteq> 0" and "max 0 (M - depth) < int n"
  shows "\<exists>x. chain_loop env M n d cur depth acc = Some x"
  using assms
proof (induction n arbitrary: d cur depth acc)
  case 0
  then show ?case by simp
next
  case (Suc n)
  show ?case
  proof (cases "cur \<noteq> [] \<and> depth < M")
    case False
    with Suc.prems show ?thesis by auto
  next
    case True
    with Suc.prems have "max 0 (M - (depth + 1)) < int n" by linarith
    from Suc.IH [OF Suc.prems(1) this] True show ?thesis
      by (auto simp: GetManifest_eq split: option.splits)
  qed
qed

lemma chain_loop_ranked:
  assumes "\<And>c m. manifest_of d c = Some m \<Longrightarrow> c \<noteq> [] \<Longrightarrow> rank (cm_PrevCheckpointID m) < rank c" and "rank cur < n"
  shows "\<exists>x. chain_loop env M n d cur depth acc = Some x"
  using assms
proof (induction n arbitrary: d cur depth acc)
  case 0
  then show ?case by simp
next
  case (Suc n)
  have "\<exists>x. chain_loop env M n (d\<lparr>db_stmts := Suc (db_stmts d)\<rparr>) (cm_PrevCheckpointID m) (depth + 1) (acc @ [m]) = Some x"
    if "manifest_of d cur = Some m" "cur \<noteq> []" for m
    using Suc.IH [of "d\<lparr>db_stmts := Suc (db_stmts d)\<rparr>" "cm_PrevCheckpointID m"] Suc.prems(1) Suc.prems(1) [OF that] Suc.prems(2)
    by simp
  then show ?case by (auto simp: GetManifest_eq split: option.splits)
qed

text \<open>
  Manifest chains. \<open>GetManifestChain\<close> ends after at most \<open>maxDepth\<close> lookups where a limit
  is given, and without one whenever following the links cannot go on for ever (some measure
  decreases along them); what it returns is a chain of stored manifests linked from the given
  checkpoint, of at most the given length.
\<close>

theorem manifest_chain:
  assumes "0 < maxDepth \<and> nat maxDepth < fuel \<or>
     (\<forall>c m. manifest_of d c = Some m \<longrightarrow> c \<noteq> [] \<longrightarrow> rank (cm_PrevCheckpointID m) < rank c) \<and> rank cid < fuel"
  shows "\<exists>d' r. GetManifestChain fuel env d cid maxDepth = Some (d', r) \<and>
     (\<forall>ms. r = Inr ms \<longrightarrow> linked d cid ms \<and> (0 < maxDepth \<longrightarrow> int (length ms) \<le> maxDepth))"
proof -
  from assms have "\<exists>x. chain_loop env maxDepth fuel d cid 0 [] = Some x"
  proof
    assume "0 < maxDepth \<and> nat maxDepth < fuel"
    then show ?thesis by (intro chain_loop_depth) auto
  next
    assume "(\<forall>c m. manifest_of d c = Some m \<longrightarrow> c \<noteq> [] \<longrightarrow> rank (cm_PrevCheckpointID m) < rank c) \<and> rank cid < fuel"
    then show ?thesis by (intro chain_loop_ranked [of d rank]) auto
  qed
  then obtain d' r where "chain_loop env maxDepth fuel d cid 0 [] = Some (d', r)" by auto
  with chain_loop_result [of env maxDepth fuel d cid 0 "[]" d'] show ?thesis
    by (auto simp: GetManifestChain_def)
qed

definition demo_chain :: control_db where
  "demo_chain = fst (SaveManifest no_faults (fst (SaveManifest no_faults empty_control (zero_manifest\<lparr>cm_ID := ''c1''\<rparr>)))
     (zero_manifest\<lparr>cm_ID := ''c2'', cm_PrevCheckpointID := ''c1''\<rparr>))"

theorem manifest_chain_witness:
  "\<exists>d' ms. GetManifestChain 3 no_faults demo_chain ''c2'' 2 = Some (d', Inr ms) \<and> linked demo_chain ''c2'' ms \<and> length ms = 2"
proof -
  from manifest_chain [of 2 3 demo_chain "\<lambda>_. 0" "''c2''" no_faults] obtain d' r where
    r: "GetManifestChain 3 no_faults demo_chain ''c2'' 2 = Some (d', r)"
    "\<forall>ms. r = Inr ms \<longrightarrow> linked demo_chain ''c2'' ms" by auto
  have "(case GetManifestChain 3 no_faults demo_chain ''c2'' 2 of Some (_, Inr ms) \<Rightarrow> length ms | _ \<Rightarrow> 0) = 2" by code_simp
  with r obtain ms where "r = Inr ms" "length ms = 2" by (cases r) auto
  with r show ?thesis by auto
qed

lemma chain_loop_cycle:
  assumes "\<forall>c \<in> S. c \<noteq> [] \<and> (\<exists>m. manifest_of d c = Some m \<and> cm_PrevCheckpointID m \<in> S)" and "cid \<in> S"
  shows "if \<forall>j < n. sq_fault env (k + j) = None then chain_loop env 0 n (d\<lparr>db_stmts := k\<rparr>) cid depth acc = None
    else \<exists>d' e. chain_loop env 0 n (d\<lparr>db_stmts := k\<rparr>) cid depth acc = Some (d', Inl e)"
  using assms(2)
proof (induction n arbitrary: k cid depth acc)
  case (Suc n)
  from assms(1) Suc.prems obtain m where m: "cid \<noteq> []" "manifest_of d cid = Some m" "cm_PrevCheckpointID m \<in> S" by blast
  show ?case
  proof (cases "sq_fault env k")
    case None
    with m have "chain_loop env 0 (Suc n) (d\<lparr>db_stmts := k\<rparr>) cid depth acc =
        chain_loop env 0 n (d\<lparr>db_stmts := Suc k\<rparr>) (cm_PrevCheckpointID m) (depth + 1) (acc @ [m])"
      by (simp add: GetManifest_eq)
    moreover have "(\<forall>j < Suc n. sq_fault env (k + j) = None) \<longleftrightarrow> (\<forall>j < n. sq_fault env (Suc k + j) = None)"
      using None by (auto simp: less_Suc_eq_0_disj)
    ultimately show ?thesis using Suc.IH [OF m(3), of "Suc k"] by simp
  next
    case (Some e)
    with m have "chain_loop env 0 (Suc n) (d\<lparr>db_stmts := k\<rparr>) cid depth acc = Some (d\<lparr>db_stmts := Suc k\<rparr>, Inl e)"
      by (simp add: GetManifest_eq)
    moreover have "\<not> (\<forall>j < Suc n. sq_fault env (k + j) = None)" using Some by (metis add_0_right option.distinct(1) zero_less_Suc)
    ultimately show ?thesis by (simp only: if_False) blast
  qed
qed simp

text \<open>
  C40. A cyclic chain is walked until a statement fails. When the links of the stored manifests never leave a set
  of checkpoints, as on a cycle of any length, \<open>GetManifestChain\<close> without a depth limit never returns a chain: as long as
  every statement succeeds no number of iterations ends the loop, and when one fails (a cancelled context is such
  a failure) the call ends with its error.
\<close>

theorem manifest_chain_cycle:
  assumes "\<forall>c \<in> S. c \<noteq> [] \<and> (\<exists>m. manifest_of d c = Some m \<and> cm_PrevCheckpointID m \<in> S)" and "cid \<in> S"
  shows "if \<forall>j < fuel. sq_fault env (db_stmts d + j) = None then GetManifestChain fuel env d cid 0 = None
    else \<exists>d' e. GetManifestChain fuel env d cid 0 = Some (d', Inl e)"
proof -
  have "d\<lparr>db_stmts := db_stmts d\<rparr> = d" by simp
  with chain_loop_cycle [OF assms, of fuel env "db_stmts d" 0 "[]"] show ?thesis unfolding GetManifestChain_def by (simp only:)
qed

definition demo_cycle :: control_db where
  "demo_cycle = fst (SaveManifest no_faults (fst (SaveManifest no_faults empty_control (zero_manifest\<lparr>cm_ID := ''c1'', cm_PrevCheckpointID := ''c2''\<rparr>)))
     (zero_manifest\<lparr>cm_ID := ''c2'', cm_PrevCheckpointID := ''c1''\<rparr>))"

theorem manifest_chain_cycle_witness:
  "GetManifestChain 1000 no_faults demo_cycle ''c1'' 0 = None"
proof -
  have "manifest_of demo_cycle ''c1'' = Some (zero_manifest\<lparr>cm_ID := ''c1'', cm_PrevCheckpointID := ''c2''\<rparr>)"
    "manifest_of demo_cycle ''c2'' = Some (zero_manifest\<lparr>cm_ID := ''c2'', cm_PrevCheckpointID := ''c1''\<rparr>)"
    by (simp_all add: demo_cycle_def SaveManifest_def sql_exec_def no_faults_def empty_control_def manifest_of_def select_row_def zero_manifest_def Let_def)
  then have "\<forall>c \<in> {''c1'', ''c2''}. c \<noteq> [] \<and> (\<exists>m. manifest_of demo_cycle c = Some m \<and> cm_PrevCheckpointID m \<in> {''c1'', ''c2''})" by simp
  from manifest_chain_cycle [OF this, of "''c1''" 1000 no_faults] show ?thesis by (simp add: no_faults_def)
qed

end
