(* ===== verification/FileSystem.thy ===== *)
theory FileSystem
  imports Json "HOL-Library.AList" "HOL-Library.Sublist"
begin

text \<open>
  The POSIX file system as the primitives use it through Go's \<open>os\<close> and \<open>path/filepath\<close>: a finite map from
  absolute paths (lists of names) to files, directories and symbolic links, the kernel's walk along a
  path with its limit on links, \<open>Lstat\<close>, \<open>ReadFile\<close>, \<open>WriteFile\<close>, \<open>MkdirAll\<close> and \<open>ReadDir\<close> on top of it,
  and the lexical functions \<open>Clean\<close>, \<open>Join\<close>, \<open>Rel\<close> and \<open>EvalSymlinks\<close>. Failures of the device or of
  permissions are parameters by path; a failing write leaves the file as it was.
\<close>

datatype fnode = FFile string | FDir | FLink string

type_synonym fpath = "string list"
type_synonym fsys = "(fpath \<times> fnode) list"

datatype os_error = ENOENT | ENOTDIR | ELOOP | EISDIR | EEXIST | EOTHER string

fun os_text :: "os_error \<Rightarrow> string" where
  "os_text ENOENT = ''no such file or directory''"
| "os_text ENOTDIR = ''not a directory''"
| "os_text ELOOP = ''too many levels of symbolic links''"
| "os_text EISDIR = ''is a directory''"
| "os_text EEXIST = ''file exists''"
| "os_text (EOTHER s) = s"

definition fs_at :: "fsys \<Rightarrow> fpath \<Rightarrow> fnode option" where
  "fs_at fs p = (if p = [] then Some FDir else map_of fs p)"

definition fs_put :: "fpath \<Rightarrow> fnode \<Rightarrow> fsys \<Rightarrow> fsys" where
  "fs_put p n fs = AList.update p n fs"

lemma fs_at_Nil [simp]: "fs_at fs [] = Some FDir"
  by (simp add: fs_at_def)

lemma fs_at_put: "p \<noteq> [] \<Longrightarrow> fs_at (fs_put p n fs) q = (if q = p then Some n else fs_at fs q)"
  by (simp add: fs_at_def fs_put_def update_conv')

text \<open>Every entry stands in a directory.\<close>

definition wf_fs :: "fsys \<Rightarrow> bool" where
  "wf_fs fs \<longleftrightarrow> (\<forall>p c. fs_at fs (p @ [c]) \<noteq> None \<longrightarrow> fs_at fs p = Some FDir)"

section \<open>Walking a path\<close>

text \<open>
  The walk from the directory \<open>pre\<close> along the names still pending, with the number of links it may still
  follow: it ends at an entry, at a missing last name, or with an error. Only a walk with \<open>fl\<close> follows a
  link in the last place.
\<close>

datatype kres = KAt fpath nat | KMissing fpath | KErr os_error

function kresolve :: "fsys \<Rightarrow> bool \<Rightarrow> nat \<Rightarrow> fpath \<Rightarrow> string list \<Rightarrow> kres" where
  "kresolve fs fl n pre [] = KAt pre n"
| "kresolve fs fl n pre (c # cs) =
     (if c = [] \<or> c = ''.'' then kresolve fs fl n pre cs
      else if c = ''..'' then kresolve fs fl n (butlast pre) cs
      else case fs_at fs (pre @ [c]) of
             None \<Rightarrow> if cs = [] then KMissing (pre @ [c]) else KErr ENOENT
           | Some FDir \<Rightarrow> kresolve fs fl n (pre @ [c]) cs
           | Some (FFile _) \<Rightarrow> if cs = [] then KAt (pre @ [c]) n else KErr ENOTDIR
           | Some (FLink t) \<Rightarrow>
               if cs = [] \<and> \<not> fl then KAt (pre @ [c]) n
               else case n of
                      0 \<Rightarrow> KErr ELOOP
                    | Suc n' \<Rightarrow> kresolve fs fl n' (if has_prefix t ''/'' then [] else pre) (split_on (CHR ''/'') t @ cs))"
  by pat_completeness auto
termination
  by (relation "measures [\<lambda>(fs, fl, n, pre, cs). n, \<lambda>(fs, fl, n, pre, cs). length cs]") auto

definition kernel_links :: nat where
  "kernel_links = 40"

definition os_Lstat :: "fsys \<Rightarrow> fpath \<Rightarrow> os_error + fnode" where
  "os_Lstat fs p =
     (case kresolve fs False kernel_links [] p of
        KAt q _ \<Rightarrow> (case fs_at fs q of Some n \<Rightarrow> Inr n | None \<Rightarrow> Inl ENOENT)
      | KMissing _ \<Rightarrow> Inl ENOENT
      | KErr e \<Rightarrow> Inl e)"

definition os_Stat :: "fsys \<Rightarrow> fpath \<Rightarrow> os_error + fnode" where
  "os_Stat fs p =
     (case kresolve fs True kernel_links [] p of
        KAt q _ \<Rightarrow> (case fs_at fs q of Some n \<Rightarrow> Inr n | None \<Rightarrow> Inl ENOENT)
      | KMissing _ \<Rightarrow> Inl ENOENT
      | KErr e \<Rightarrow> Inl e)"

record os_env =
  oe_cwd :: fpath
  oe_read_err :: "fpath \<Rightarrow> os_error option"
  oe_write_err :: "fpath \<Rightarrow> os_error option"
  oe_partial :: "fpath \<Rightarrow> nat option"

definition os_ReadFile :: "os_env \<Rightarrow> fsys \<Rightarrow> fpath \<Rightarrow> os_error + string" where
  "os_ReadFile e fs p =
     (case kresolve fs True kernel_links [] p of
        KAt q _ \<Rightarrow>
          (case oe_read_err e q of
             Some er \<Rightarrow> Inl er
           | None \<Rightarrow> (case fs_at fs q of Some (FFile c) \<Rightarrow> Inr c | _ \<Rightarrow> Inl EISDIR))
      | KMissing _ \<Rightarrow> Inl ENOENT
      | KErr er \<Rightarrow> Inl er)"

text \<open>
  \<open>os.WriteFile\<close> opens the file with \<open>O_CREATE\<close> and \<open>O_TRUNC\<close> and then writes. A write that fails at
  the open leaves the file as it was (\<open>oe_partial\<close> is \<open>None\<close>); one that fails later leaves a file that
  holds a first part of the new content (\<open>oe_partial\<close> is \<open>Some n\<close>, 0 for the file just truncated).
\<close>

definition os_WriteFile :: "os_env \<Rightarrow> fsys \<Rightarrow> fpath \<Rightarrow> string \<Rightarrow> fsys \<times> os_error option" where
  "os_WriteFile e fs p c =
     (let put = (\<lambda>q. case oe_write_err e q of
                         Some er \<Rightarrow> (case oe_partial e q of
                                       None \<Rightarrow> (fs, Some er)
                                     | Some n \<Rightarrow> (fs_put q (FFile (take n c)) fs, Some er))
                       | None \<Rightarrow> (fs_put q (FFile c) fs, None))
      in case kresolve fs True kernel_links [] p of
           KAt q _ \<Rightarrow> (case fs_at fs q of Some (FFile _) \<Rightarrow> put q | _ \<Rightarrow> (fs, Some EISDIR))
         | KMissing q \<Rightarrow> put q
         | KErr er \<Rightarrow> (fs, Some er))"

definition os_Mkdir :: "os_env \<Rightarrow> fsys \<Rightarrow> fpath \<Rightarrow> fsys \<times> os_error option" where
  "os_Mkdir e fs p =
     (case kresolve fs False kernel_links [] p of
        KAt _ _ \<Rightarrow> (fs, Some EEXIST)
      | KMissing q \<Rightarrow> (case oe_write_err e q of Some er \<Rightarrow> (fs, Some er) | None \<Rightarrow> (fs_put q FDir fs, None))
      | KErr er \<Rightarrow> (fs, Some er))"

text \<open>\<open>os.MkdirAll\<close>: the path if it is a directory, else its parent first.\<close>

function os_MkdirAll :: "os_env \<Rightarrow> fsys \<Rightarrow> fpath \<Rightarrow> fsys \<times> os_error option" where
  "os_MkdirAll e fs p =
     (case os_Stat fs p of
        Inr FDir \<Rightarrow> (fs, None)
      | Inr _ \<Rightarrow> (fs, Some ENOTDIR)
      | Inl _ \<Rightarrow>
          (let (fs1, err) = (if p = [] then (fs, None) else os_MkdirAll e fs (butlast p))
           in case err of
                Some er \<Rightarrow> (fs1, Some er)
              | None \<Rightarrow>
                  (case os_Mkdir e fs1 p of
                     (fs2, None) \<Rightarrow> (fs2, None)
                   | (fs2, Some er) \<Rightarrow> (if os_Lstat fs2 p = Inr FDir then (fs2, None) else (fs2, Some er)))))"
  by pat_completeness auto
termination
  by (relation "measure (\<lambda>(e, fs, p). length p)") auto

declare os_MkdirAll.simps [simp del]

section \<open>Lexical paths\<close>

definition clean_step :: "string \<Rightarrow> fpath \<Rightarrow> fpath" where
  "clean_step c p = (if c = [] \<or> c = ''.'' then p else if c = ''..'' then butlast p else p @ [c])"

text \<open>\<open>filepath.Clean\<close> of an absolute path, and \<open>Join\<close> of a cleaned one with a further element.\<close>

definition path_clean :: "string \<Rightarrow> fpath" where
  "path_clean s = fold clean_step (split_on (CHR ''/'') s) []"

definition path_join :: "fpath \<Rightarrow> string \<Rightarrow> fpath" where
  "path_join p s = fold clean_step (split_on (CHR ''/'') s) p"

definition path_string :: "fpath \<Rightarrow> string" where
  "path_string p = CHR ''/'' # join_with ''/'' p"

definition is_abs :: "string \<Rightarrow> bool" where
  "is_abs s = has_prefix s ''/''"

text \<open>\<open>filepath.EvalSymlinks\<close> follows at most 255 links.\<close>

definition EvalSymlinks :: "fsys \<Rightarrow> fpath \<Rightarrow> os_error + fpath" where
  "EvalSymlinks fs p =
     (case kresolve fs True 255 [] p of KAt q _ \<Rightarrow> Inr q | KMissing _ \<Rightarrow> Inl ENOENT | KErr e \<Rightarrow> Inl e)"

fun common_prefix :: "fpath \<Rightarrow> fpath \<Rightarrow> nat" where
  "common_prefix (a # as) (b # bs) = (if a = b then Suc (common_prefix as bs) else 0)"
| "common_prefix _ _ = 0"

text \<open>\<open>filepath.Rel\<close> of two cleaned absolute paths.\<close>

definition path_rel :: "fpath \<Rightarrow> fpath \<Rightarrow> string" where
  "path_rel base targ =
     (let k = common_prefix base targ; parts = replicate (length base - k) ''..'' @ drop k targ
      in if parts = [] then ''.'' else join_with ''/'' parts)"

section \<open>Facts about the walk\<close>

text \<open>A name as it stands in a cleaned path.\<close>

definition name_ok :: "string \<Rightarrow> bool" where
  "name_ok c \<longleftrightarrow> c \<noteq> [] \<and> c \<noteq> ''.'' \<and> c \<noteq> ''..'' \<and> CHR ''/'' \<notin> set c"

abbreviation path_ok :: "fpath \<Rightarrow> bool" where
  "path_ok p \<equiv> list_all name_ok p"

abbreviation no_slash :: "string list \<Rightarrow> bool" where
  "no_slash cs \<equiv> list_all (\<lambda>c. CHR ''/'' \<notin> set c) cs"

definition nolink :: "fsys \<Rightarrow> fpath \<Rightarrow> bool" where
  "nolink fs p \<longleftrightarrow> (\<forall>k t. fs_at fs (take k p) \<noteq> Some (FLink t))"

lemma nolinkD: "nolink fs (p @ q) \<Longrightarrow> fs_at fs p \<noteq> Some (FLink t)"
  unfolding nolink_def by (metis append_eq_conv_conj)

lemma nolink_snoc: "nolink fs p \<Longrightarrow> (\<And>t. fs_at fs (p @ [c]) \<noteq> Some (FLink t)) \<Longrightarrow> nolink fs (p @ [c])"
  by (auto simp: nolink_def take_Cons' le_Suc_eq not_le)

lemma nolink_Nil [simp]: "nolink fs []"
  by (simp add: nolink_def)

lemma nolink_prefix: "nolink fs (p @ q) \<Longrightarrow> nolink fs p"
  unfolding nolink_def by (metis append_eq_conv_conj min_def take_append take_take)

lemma path_ok_butlast: "path_ok p \<Longrightarrow> path_ok (butlast p)"
  by (induction p) auto

lemma no_slash_split: "no_slash (split_on (CHR ''/'') t)"
  by (auto simp: list_all_iff dest: split_on_no_sep)

text \<open>The steps of the walk, one rule per kind of entry.\<close>

definition plain_name :: "string \<Rightarrow> bool" where
  "plain_name c \<longleftrightarrow> c \<noteq> [] \<and> c \<noteq> ''.'' \<and> c \<noteq> ''..''"

lemma kresolve_skip: "c = [] \<or> c = ''.'' \<Longrightarrow> kresolve fs fl n pre (c # cs) = kresolve fs fl n pre cs"
  by simp

lemma kresolve_up: "kresolve fs fl n pre (''..'' # cs) = kresolve fs fl n (butlast pre) cs"
  by simp

lemma kresolve_none: "plain_name c \<Longrightarrow> fs_at fs (pre @ [c]) = None \<Longrightarrow>
    kresolve fs fl n pre (c # cs) = (if cs = [] then KMissing (pre @ [c]) else KErr ENOENT)"
  by (simp add: plain_name_def)

lemma kresolve_dir: "plain_name c \<Longrightarrow> fs_at fs (pre @ [c]) = Some FDir \<Longrightarrow>
    kresolve fs fl n pre (c # cs) = kresolve fs fl n (pre @ [c]) cs"
  by (simp add: plain_name_def)

lemma kresolve_file: "plain_name c \<Longrightarrow> fs_at fs (pre @ [c]) = Some (FFile s) \<Longrightarrow>
    kresolve fs fl n pre (c # cs) = (if cs = [] then KAt (pre @ [c]) n else KErr ENOTDIR)"
  by (simp add: plain_name_def)

lemma kresolve_last_link: "plain_name c \<Longrightarrow> fs_at fs (pre @ [c]) = Some (FLink t) \<Longrightarrow>
    kresolve fs False n pre [c] = KAt (pre @ [c]) n"
  by (simp add: plain_name_def)

lemma kresolve_link: "plain_name c \<Longrightarrow> fs_at fs (pre @ [c]) = Some (FLink t) \<Longrightarrow> fl \<or> cs \<noteq> [] \<Longrightarrow>
    kresolve fs fl n pre (c # cs) = (case n of 0 \<Rightarrow> KErr ELOOP
      | Suc n' \<Rightarrow> kresolve fs fl n' (if has_prefix t ''/'' then [] else pre) (split_on (CHR ''/'') t @ cs))"
  by (auto simp: plain_name_def)

lemmas kresolve_steps = kresolve_skip kresolve_up kresolve_none kresolve_dir kresolve_file kresolve_last_link kresolve_link

lemma kresolve_induct [case_names nil skip up none dir regular last_link loop link]:
  assumes "\<And>n pre. P n pre []"
    and "\<And>n pre c cs. c = [] \<or> c = ''.'' \<Longrightarrow> P n pre cs \<Longrightarrow> P n pre (c # cs)"
    and "\<And>n pre cs. P n (butlast pre) cs \<Longrightarrow> P n pre (''..'' # cs)"
    and "\<And>n pre c cs. plain_name c \<Longrightarrow> fs_at fs (pre @ [c]) = None \<Longrightarrow> P n pre (c # cs)"
    and "\<And>n pre c cs. plain_name c \<Longrightarrow> fs_at fs (pre @ [c]) = Some FDir \<Longrightarrow> P n (pre @ [c]) cs \<Longrightarrow> P n pre (c # cs)"
    and "\<And>n pre c cs s. plain_name c \<Longrightarrow> fs_at fs (pre @ [c]) = Some (FFile s) \<Longrightarrow> P n pre (c # cs)"
    and "\<And>n pre c t. plain_name c \<Longrightarrow> fs_at fs (pre @ [c]) = Some (FLink t) \<Longrightarrow> \<not> fl \<Longrightarrow> P n pre [c]"
    and "\<And>pre c cs t. plain_name c \<Longrightarrow> fs_at fs (pre @ [c]) = Some (FLink t) \<Longrightarrow> fl \<or> cs \<noteq> [] \<Longrightarrow> P 0 pre (c # cs)"
    and "\<And>n pre c cs t. plain_name c \<Longrightarrow> fs_at fs (pre @ [c]) = Some (FLink t) \<Longrightarrow> fl \<or> cs \<noteq> [] \<Longrightarrow>
      P n (if has_prefix t ''/'' then [] else pre) (split_on (CHR ''/'') t @ cs) \<Longrightarrow> P (Suc n) pre (c # cs)"
  shows "P n pre cs"
proof -
  have "fs' = fs \<longrightarrow> fl' = fl \<longrightarrow> P n pre cs" for fs' fl'
  proof (induction fs' fl' n pre cs rule: kresolve.induct)
    case (1 fs' fl' n pre)
    show ?case by (simp add: assms(1))
  next
    case (2 fs' fl' n pre c cs)
    show ?case
    proof (intro impI)
      assume eq: "fs' = fs" "fl' = fl"
      consider "c = [] \<or> c = ''.''" | "c = ''..''" | "plain_name c" by (auto simp: plain_name_def)
      then show "P n pre (c # cs)"
      proof cases
        case 1
        with 2(1) eq show ?thesis by (intro assms(2)) simp_all
      next
        case up: 2
        with 2(2) eq show ?thesis by (auto intro: assms(3))
      next
        case 3
        then have c: "\<not> (c = [] \<or> c = ''.'')" "c \<noteq> ''..''" by (simp_all add: plain_name_def)
        note IH = 2(3,4) [OF c, unfolded eq, simplified]
        show ?thesis
        proof (cases "fs_at fs (pre @ [c])")
          case None
          with 3 show ?thesis by (rule assms(4))
        next
          case (Some nd)
          show ?thesis
          proof (cases nd)
            case (FFile s)
            with 3 Some show ?thesis by (intro assms(6)) simp_all
          next
            case FDir
            with 3 Some IH(1) show ?thesis by (intro assms(5)) simp_all
          next
            case (FLink t)
            show ?thesis
            proof (cases "cs = [] \<and> \<not> fl")
              case True
              with 3 Some FLink assms(7) show ?thesis by simp
            next
              case False
              with 3 Some FLink IH(2) show ?thesis by (cases n) (auto intro: assms(8,9))
            qed
          qed
        qed
      qed
    qed
  qed
  then show ?thesis by simp
qed

declare kresolve.simps(2) [simp del]

lemma nolink_butlast: "nolink fs p \<Longrightarrow> nolink fs (butlast p)"
  using nolink_prefix [of fs "butlast p" "[last p]"] by (cases "p = []") auto

lemma name_ok_plain: "name_ok c \<longleftrightarrow> plain_name c \<and> CHR ''/'' \<notin> set c"
  by (auto simp: name_ok_def plain_name_def)

text \<open>A walk from a link-free directory ends on a link-free path of proper names.\<close>

lemma kresolve_at:
  "kresolve fs fl n pre cs = KAt q m \<Longrightarrow> nolink fs pre \<Longrightarrow> path_ok pre \<Longrightarrow> no_slash cs \<Longrightarrow>
   path_ok q \<and> nolink fs (butlast q) \<and> (fl \<longrightarrow> nolink fs q)"
proof (induction n pre cs rule: kresolve_induct [of _ fs fl])
  case (regular n pre c cs s)
  then have "nolink fs (pre @ [c])" by (intro nolink_snoc) simp_all
  with regular show ?case by (auto simp: kresolve_file name_ok_plain split: if_splits)
next
  case (dir n pre c cs)
  then have "nolink fs (pre @ [c])" by (intro nolink_snoc) simp_all
  with dir show ?case by (simp add: kresolve_dir name_ok_plain)
next
  case (link n pre c cs t)
  with no_slash_split [of t] show ?case by (simp add: kresolve_link split: if_splits)
qed (auto simp: kresolve_steps path_ok_butlast nolink_butlast name_ok_plain split: if_splits)

lemma kresolve_missing:
  "kresolve fs fl n pre cs = KMissing q \<Longrightarrow> path_ok pre \<Longrightarrow> no_slash cs \<Longrightarrow>
   q \<noteq> [] \<and> path_ok q \<and> fs_at fs q = None"
proof (induction n pre cs rule: kresolve_induct [of _ fs fl])
  case (link n pre c cs t)
  with no_slash_split [of t] show ?case by (simp add: kresolve_link split: if_splits)
qed (auto simp: kresolve_steps path_ok_butlast name_ok_plain split: if_splits)

text \<open>More links allowed give the same walk, unless it was the limit that ended it.\<close>

lemma kresolve_fuel:
  "kresolve fs fl n pre cs \<noteq> KErr ELOOP \<Longrightarrow>
   kresolve fs fl (n + d) pre cs = (case kresolve fs fl n pre cs of KAt q m \<Rightarrow> KAt q (m + d) | r \<Rightarrow> r)"
  by (induction n pre cs rule: kresolve_induct [of _ fs fl]) (auto simp: kresolve_steps)

text \<open>A walk along \<open>xs\<close> and then \<open>ys\<close>: the links of the first part are followed.\<close>

lemma wf_parent: "wf_fs fs \<Longrightarrow> fs_at fs p \<noteq> None \<Longrightarrow> fs_at fs (butlast p) = Some FDir"
  unfolding wf_fs_def by (cases p rule: rev_cases) auto

lemma kresolve_append:
  "wf_fs fs \<Longrightarrow> ys \<noteq> [] \<Longrightarrow> fs_at fs pre = Some FDir \<Longrightarrow> kresolve fs fl n pre (xs @ ys) =
     (case kresolve fs True n pre xs of
        KAt q m \<Rightarrow> (if fs_at fs q = Some FDir then kresolve fs fl m q ys else KErr ENOTDIR)
      | KMissing q \<Rightarrow> KErr ENOENT
      | KErr e \<Rightarrow> KErr e)"
proof (induction n pre xs rule: kresolve_induct [of _ fs True])
  case (up n pre cs)
  then have "fs_at fs (butlast pre) = Some FDir" by (simp add: wf_parent)
  with up show ?case by (simp add: kresolve_up)
qed (auto simp: kresolve_steps)

text \<open>A walk along a path without links stays on it.\<close>

lemma kresolve_straight:
  "nolink fs (pre @ cs) \<Longrightarrow> path_ok cs \<Longrightarrow>
   (kresolve fs fl n pre cs = KAt q m \<longrightarrow> q = pre @ cs \<and> m = n) \<and> (kresolve fs fl n pre cs = KMissing q \<longrightarrow> q = pre @ cs)"
proof (induction n pre cs rule: kresolve_induct [of _ fs fl])
  case (dir n pre c cs)
  then show ?case by (simp add: kresolve_dir)
next
  case (loop pre c cs t)
  with nolinkD [of fs "pre @ [c]" cs t] show ?case by simp
next
  case (link n pre c cs t)
  with nolinkD [of fs "pre @ [c]" cs t] show ?case by simp
next
  case (last_link n pre c t)
  then show ?case by (simp add: kresolve_steps)
qed (auto simp: kresolve_steps name_ok_plain plain_name_def)

lemma kresolve_plain:
  assumes "wf_fs fs" and "nolink fs p" and "path_ok p" and "fs_at fs p = Some nd"
  shows "kresolve fs fl n [] p = KAt p n"
  using assms
proof (induction p arbitrary: nd fl rule: rev_induct)
  case Nil
  then show ?case by simp
next
  case (snoc c p)
  from snoc.prems have d: "fs_at fs p = Some FDir" using wf_parent [of fs "p @ [c]"] by simp
  with snoc have "kresolve fs True n [] p = KAt p n" by (intro snoc.IH) (auto dest: nolink_prefix)
  moreover have "kresolve fs fl n p [c] = KAt (p @ [c]) n"
    using snoc.prems nolinkD [of fs "p @ [c]" "[]"] by (cases nd) (auto simp: kresolve_steps name_ok_plain)
  ultimately show ?case using snoc.prems(1) d by (simp add: kresolve_append)
qed

text \<open>A file system with more entries, and other contents of its files, is walked in the same way.\<close>

definition fs_extends :: "fsys \<Rightarrow> fsys \<Rightarrow> bool" where
  "fs_extends fs fs' \<longleftrightarrow> (\<forall>p. case fs_at fs p of
       None \<Rightarrow> True
     | Some (FFile _) \<Rightarrow> (\<exists>c. fs_at fs' p = Some (FFile c))
     | Some nd \<Rightarrow> fs_at fs' p = Some nd)"

lemma fs_extendsD:
  assumes "fs_extends fs fs'"
  shows "fs_at fs p = Some FDir \<Longrightarrow> fs_at fs' p = Some FDir" "fs_at fs p = Some (FLink t) \<Longrightarrow> fs_at fs' p = Some (FLink t)"
    "fs_at fs p = Some (FFile s) \<Longrightarrow> \<exists>c. fs_at fs' p = Some (FFile c)"
  using assms [unfolded fs_extends_def, rule_format, of p] by simp_all

lemma kresolve_extends:
  "fs_extends fs fs' \<Longrightarrow> kresolve fs fl n pre cs = KAt q m \<Longrightarrow> kresolve fs' fl n pre cs = KAt q m"
proof (induction n pre cs rule: kresolve_induct [of _ fs fl])
  case (regular n pre c cs s)
  then obtain s' where "fs_at fs' (pre @ [c]) = Some (FFile s')" using fs_extendsD(3) by blast
  with regular show ?case by (simp add: kresolve_file split: if_splits)
qed (auto simp: kresolve_steps fs_extendsD split: if_splits)

section \<open>Facts about lexical paths\<close>

lemma clean_step_ok: "path_ok p \<Longrightarrow> CHR ''/'' \<notin> set c \<Longrightarrow> path_ok (clean_step c p)"
  by (simp add: clean_step_def path_ok_butlast name_ok_def)

lemma fold_clean_ok: "no_slash cs \<Longrightarrow> path_ok p \<Longrightarrow> path_ok (fold clean_step cs p)"
  by (induction cs arbitrary: p) (simp_all add: clean_step_ok)

lemma path_clean_ok [simp]: "path_ok (path_clean s)"
  unfolding path_clean_def by (rule fold_clean_ok [OF no_slash_split]) simp

lemma path_join_ok: "path_ok p \<Longrightarrow> path_ok (path_join p s)"
  unfolding path_join_def by (rule fold_clean_ok [OF no_slash_split])

lemma common_prefix_all: "common_prefix base targ = length base \<longleftrightarrow> prefix base targ"
  by (induction base targ rule: common_prefix.induct) auto

lemma common_prefix_le: "common_prefix base targ \<le> length base"
  by (induction base targ rule: common_prefix.induct) auto

lemma join_with_Cons: "join_with sep (x # xs) = x @ (if xs = [] then [] else sep @ join_with sep xs)"
  by (cases xs) (simp_all add: join_with_def)

lemma name_ok_not_up:
  assumes "name_ok c" and "rest = [] \<or> hd rest = CHR ''/''"
  shows "\<not> has_prefix (c @ rest) ''../'' \<and> c @ rest \<noteq> ''..''"
proof -
  obtain x xs where c: "c = x # xs" using assms(1) by (cases c) (auto simp: name_ok_def)
  show ?thesis
  proof (cases xs)
    case Nil
    with assms c show ?thesis by (cases rest) (auto simp: has_prefix_def name_ok_def)
  next
    case (Cons y ys)
    with assms c show ?thesis by (cases ys) (auto simp: has_prefix_def name_ok_def)
  qed
qed

text \<open>The test on the text of the relative path is the test on the names.\<close>

lemma rel_within:
  assumes "path_ok targ"
  shows "path_rel base targ = ''.'' \<or> (path_rel base targ \<noteq> ''..'' \<and> \<not> has_prefix (path_rel base targ) ''../'') \<longleftrightarrow> prefix base targ"
proof (cases "prefix base targ")
  case True
  then have k: "common_prefix base targ = length base" by (simp add: common_prefix_all)
  show ?thesis
  proof (cases "drop (length base) targ")
    case Nil
    with k True show ?thesis by (simp add: path_rel_def)
  next
    case (Cons c cs)
    then have "c \<in> set targ" by (metis in_set_dropD list.set_intros(1))
    with assms have c: "name_ok c" by (auto simp: list_all_iff)
    have "path_rel base targ = c @ (if cs = [] then [] else ''/'' @ join_with ''/'' cs)"
      using k Cons by (auto simp: path_rel_def Let_def join_with_Cons)
    with name_ok_not_up [OF c, of "if cs = [] then [] else ''/'' @ join_with ''/'' cs"] True show ?thesis by simp
  qed
next
  case False
  then have k: "common_prefix base targ < length base"
    using common_prefix_le [of base targ] common_prefix_all [of base targ] by linarith
  then obtain m where m: "length base - common_prefix base targ = Suc m" by (metis Suc_diff_Suc)
  let ?rest = "replicate m ''..'' @ drop (common_prefix base targ) targ"
  have "path_rel base targ = join_with ''/'' (''..'' # ?rest)"
    unfolding path_rel_def Let_def m by simp
  then have "path_rel base targ = ''..'' @ (if ?rest = [] then [] else ''/'' @ join_with ''/'' ?rest)"
    by (simp only: join_with_Cons)
  then have "path_rel base targ = ''..'' \<or> has_prefix (path_rel base targ) ''../''" "path_rel base targ \<noteq> ''.''"
    by (simp_all add: has_prefix_def)
  then show ?thesis using False by blast
qed

end
