(* ===== verification/Workspace.thy ===== *)
theory Workspace
  imports FileSystem
begin

text \<open>
  The workspace path resolver, \<open>internal/primitive/workspace.go\<close>: the function every file primitive calls
  before it touches a path. A resolver is its root, a cleaned absolute path. The main fact is
  \<open>Resolve_confined\<close>: a path it returns lies under the root by its names, and no symbolic link stands on
  it, so the kernel's walk along it ends under the root too.
\<close>

definition path_error :: "string \<Rightarrow> fpath \<Rightarrow> os_error \<Rightarrow> go_error" where
  "path_error op p e = GoErr (op @ '' '' @ path_string p @ '': '' @ os_text e)"

definition newWorkspacePathResolver :: "os_env \<Rightarrow> fsys \<Rightarrow> string \<Rightarrow> fpath" where
  "newWorkspacePathResolver e fs root =
     (let absRoot = (if is_abs root then path_clean root else path_join (oe_cwd e) root)
      in case EvalSymlinks fs absRoot of Inr r \<Rightarrow> r | Inl _ \<Rightarrow> absRoot)"

definition containsParentTraversal :: "string \<Rightarrow> bool" where
  "containsParentTraversal path =
     list_ex (\<lambda>part. part = ''..'') (concat (map (split_on (CHR 0x5C)) (split_on (CHR ''/'') path)))"

definition IsWithinRoot :: "fpath \<Rightarrow> fpath \<Rightarrow> bool" where
  "IsWithinRoot root path =
     (let rel = path_rel root path in rel = ''.'' \<or> (rel \<noteq> ''..'' \<and> \<not> has_prefix rel ''../''))"

text \<open>Climb to the nearest ancestor that exists, keeping the names left behind.\<close>

function existing_prefix :: "fsys \<Rightarrow> fpath \<Rightarrow> fpath \<Rightarrow> string list \<Rightarrow> go_error + fpath \<times> string list" where
  "existing_prefix fs clean existing remainder =
     (case os_Lstat fs existing of
        Inr _ \<Rightarrow> Inr (existing, remainder)
      | Inl e \<Rightarrow>
          (if e \<noteq> ENOENT then Inl (GoWrap (''cannot inspect path '' @ path_string existing) (path_error ''lstat'' existing e))
           else if existing = [] then Inl (GoErr (''workspace root does not exist: '' @ path_string clean))
           else existing_prefix fs clean (butlast existing) (last existing # remainder)))"
  by pat_completeness auto
termination
  by (relation "measure (\<lambda>(fs, clean, existing, remainder). length existing)") auto

declare existing_prefix.simps [simp del]

definition resolveWithSymlinkCheck :: "fsys \<Rightarrow> fpath \<Rightarrow> go_error + fpath" where
  "resolveWithSymlinkCheck fs path =
     (case existing_prefix fs path path [] of
        Inl e \<Rightarrow> Inl e
      | Inr (existing, remainder) \<Rightarrow>
          (case EvalSymlinks fs existing of
             Inl e \<Rightarrow> Inl (GoWrap (''cannot resolve symlinks for '' @ path_string existing) (path_error ''lstat'' existing e))
           | Inr resolved \<Rightarrow> Inr (resolved @ remainder)))"

definition outside_error :: "fpath \<Rightarrow> string \<Rightarrow> go_error" where
  "outside_error root path = PrimitiveError ''PERMISSION_DENIED'' (''path '' @ path @ '' is outside workspace '' @ path_string root)"

definition Resolve :: "fsys \<Rightarrow> fpath \<Rightarrow> string \<Rightarrow> go_error + fpath" where
  "Resolve fs root path =
     (if path = [] then Inl (PrimitiveError ''VALIDATION_ERROR'' ''path is required'')
      else if containsParentTraversal path then Inl (outside_error root path)
      else
        (let candidate = (if is_abs path then path_clean path else path_join root path)
         in case resolveWithSymlinkCheck fs candidate of
              Inl e \<Rightarrow> Inl (PrimitiveError ''EXECUTION_ERROR'' (error_text e))
            | Inr resolved \<Rightarrow> (if IsWithinRoot root resolved then Inr resolved else Inl (outside_error root path))))"

section \<open>Confinement\<close>

lemma IsWithinRoot_prefix: "path_ok path \<Longrightarrow> IsWithinRoot root path \<longleftrightarrow> prefix root path"
  unfolding IsWithinRoot_def Let_def by (rule rel_within)

lemma wf_below_None: "wf_fs fs \<Longrightarrow> fs_at fs p = None \<Longrightarrow> fs_at fs (p @ q) = None"
proof (induction q rule: rev_induct)
  case Nil
  then show ?case by simp
next
  case (snoc c q)
  then show ?case unfolding wf_fs_def by (metis append_assoc option.distinct(1))
qed

lemma existing_prefix_sound:
  "existing_prefix fs clean p rest = Inr (ex, rem) \<Longrightarrow>
   ex @ rem = p @ rest \<and> (\<exists>nd. os_Lstat fs ex = Inr nd) \<and> length ex \<le> length p \<and>
   (length ex < length p \<longrightarrow> rem \<noteq> [] \<and> os_Lstat fs (ex @ [hd rem]) = Inl ENOENT)"
proof (induction fs clean p rest rule: existing_prefix.induct)
  case (1 fs clean p rest)
  show ?case
  proof (cases "os_Lstat fs p")
    case (Inr nd)
    with 1(2) show ?thesis by (simp add: existing_prefix.simps)
  next
    case (Inl e)
    with 1(2) have e: "e = ENOENT" "p \<noteq> []" "existing_prefix fs clean (butlast p) (last p # rest) = Inr (ex, rem)"
      by (auto simp: existing_prefix.simps split: if_splits)
    note IH = 1(1) [OF Inl _ e(2,3)]
    with e have "ex @ rem = p @ rest" "\<exists>nd. os_Lstat fs ex = Inr nd" "length ex \<le> length p - 1" by auto
    moreover have "rem \<noteq> [] \<and> os_Lstat fs (ex @ [hd rem]) = Inl ENOENT"
    proof (cases "length ex < length (butlast p)")
      case True
      with IH e(1) show ?thesis by simp
    next
      case False
      with IH e(1) have "ex = butlast p" "rem = last p # rest" by (auto simp: append_eq_append_conv)
      with Inl e show ?thesis by simp
    qed
    ultimately show ?thesis using e(2) by simp
  qed
qed

lemma Lstat_ENOENT_walk:
  assumes wf: "wf_fs fs" and "path_ok (ex @ [r])" and ev: "EvalSymlinks fs ex = Inr R" and "os_Lstat fs (ex @ [r]) = Inl ENOENT"
  shows "\<exists>m. kresolve fs True kernel_links [] ex = KAt R m \<and> fs_at fs R = Some FDir \<and> fs_at fs (R @ [r]) = None"
proof -
  from ev obtain m where R: "kresolve fs True 255 [] ex = KAt R m" by (auto simp: EvalSymlinks_def split: kres.splits)
  have fuel: "kresolve fs True 40 [] ex \<noteq> KErr ELOOP \<Longrightarrow>
      kresolve fs True 255 [] ex = (case kresolve fs True 40 [] ex of KAt q m \<Rightarrow> KAt q (m + 215) | r \<Rightarrow> r)"
    using kresolve_fuel [of fs True 40 "[]" ex 215] by simp
  have walk: "kresolve fs False 40 [] (ex @ [r]) = (case kresolve fs True 40 [] ex of
        KAt q m \<Rightarrow> (if fs_at fs q = Some FDir then kresolve fs False m q [r] else KErr ENOTDIR)
      | KMissing q \<Rightarrow> KErr ENOENT | KErr e \<Rightarrow> KErr e)"
    by (rule kresolve_append [OF wf]) simp_all
  show ?thesis
  proof (cases "kresolve fs True 40 [] ex")
    case (KAt q m')
    with fuel R have q: "q = R" by simp
    with walk KAt assms(4) have dir: "fs_at fs R = Some FDir"
      by (auto simp: os_Lstat_def kernel_links_def split: if_splits)
    moreover have "fs_at fs (R @ [r]) = None"
    proof (rule ccontr)
      assume "fs_at fs (R @ [r]) \<noteq> None"
      then obtain nd where nd: "fs_at fs (R @ [r]) = Some nd" by blast
      then have "kresolve fs False m' R [r] = KAt (R @ [r]) m'"
        using assms(2) by (cases nd) (simp_all add: kresolve_steps name_ok_plain)
      with walk KAt q dir assms(4) nd show False by (simp add: os_Lstat_def kernel_links_def)
    qed
    ultimately show ?thesis using KAt q by (simp add: kernel_links_def)
  next
    case (KMissing q)
    with fuel R show ?thesis by simp
  next
    case (KErr e)
    with walk assms(4) have "e = ENOENT" by (simp add: os_Lstat_def kernel_links_def)
    with KErr fuel R show ?thesis by simp
  qed
qed

lemma EvalSymlinks_plain:
  assumes "path_ok p" and "EvalSymlinks fs p = Inr q"
  shows "path_ok q \<and> nolink fs q"
proof -
  from assms(2) obtain m where "kresolve fs True 255 [] p = KAt q m" by (auto simp: EvalSymlinks_def split: kres.splits)
  moreover from assms(1) have "no_slash p" by (auto simp: list_all_iff name_ok_def)
  ultimately show ?thesis using kresolve_at [of fs True 255 "[]" p q m] by simp
qed

lemma resolveWithSymlinkCheck_plain:
  assumes "wf_fs fs" and "path_ok p" and "resolveWithSymlinkCheck fs p = Inr q"
  shows "path_ok q \<and> nolink fs q"
proof -
  from assms(3) obtain ex rem R where ex: "existing_prefix fs p p [] = Inr (ex, rem)" "EvalSymlinks fs ex = Inr R" "q = R @ rem"
    by (auto simp: resolveWithSymlinkCheck_def split: sum.splits)
  from existing_prefix_sound [OF ex(1)] have p: "ex @ rem = p" "length ex < length p \<longrightarrow> os_Lstat fs (ex @ [hd rem]) = Inl ENOENT"
    by auto
  with assms(2) have ok: "path_ok ex" "path_ok rem" by (metis list_all_append)+
  from EvalSymlinks_plain [OF ok(1) ex(2)] have R: "path_ok R" "nolink fs R" by auto
  show ?thesis
  proof (cases rem)
    case Nil
    with R ex(3) show ?thesis by simp
  next
    case (Cons r rs)
    with p have "os_Lstat fs (ex @ [r]) = Inl ENOENT" by (metis length_append_singleton length_append length_Cons
          less_add_same_cancel1 list.sel(1) zero_less_Suc)
    then have none: "fs_at fs (R @ [r]) = None"
      using Lstat_ENOENT_walk [OF assms(1) _ ex(2)] ok Cons by auto
    have "nolink fs (R @ rem)"
      unfolding nolink_def
    proof (intro allI)
      fix k t
      show "fs_at fs (take k (R @ rem)) \<noteq> Some (FLink t)"
      proof (cases "k \<le> length R")
        case True
        with R(2) show ?thesis by (simp add: nolink_def)
      next
        case False
        then have "take k (R @ rem) = (R @ [r]) @ take (k - length R - 1) rs" using Cons by (cases "k - length R") simp_all
        with wf_below_None [OF assms(1) none] show ?thesis by simp
      qed
    qed
    with R ok ex(3) show ?thesis by simp
  qed
qed

lemma Resolve_confined:
  assumes "wf_fs fs" and "path_ok root" and "Resolve fs root path = Inr q"
  shows "prefix root q \<and> path_ok q \<and> nolink fs q"
proof -
  let ?c = "if is_abs path then path_clean path else path_join root path"
  have c: "path_ok ?c" using path_join_ok [OF assms(2)] by simp
  from assms(3) have q: "resolveWithSymlinkCheck fs ?c = Inr q" "IsWithinRoot root q"
    by (auto simp: Resolve_def Let_def split: if_splits sum.splits)
  with resolveWithSymlinkCheck_plain [OF assms(1) c q(1)] IsWithinRoot_prefix show ?thesis by blast
qed

lemma newWorkspacePathResolver_ok: "path_ok (oe_cwd e) \<Longrightarrow> path_ok (newWorkspacePathResolver e fs root)"
proof -
  let ?a = "if is_abs root then path_clean root else path_join (oe_cwd e) root"
  assume "path_ok (oe_cwd e)"
  then have "path_ok ?a" by (simp add: path_join_ok)
  then show ?thesis using EvalSymlinks_plain [of ?a fs] unfolding newWorkspacePathResolver_def Let_def
    by (cases "EvalSymlinks fs ?a") simp_all
qed

text \<open>Once the resolved path exists, resolving the same text again gives the same path.\<close>

lemma resolve_again:
  assumes wf: "wf_fs fs" and "path_ok p" and "resolveWithSymlinkCheck fs p = Inr q"
    and ext: "fs_extends fs fs'" and wf': "wf_fs fs'" and "nolink fs' q" and "fs_at fs' q = Some nd"
  shows "resolveWithSymlinkCheck fs' p = Inr q"
proof -
  from assms(3) obtain ex rem R where ex: "existing_prefix fs p p [] = Inr (ex, rem)" "EvalSymlinks fs ex = Inr R" "q = R @ rem"
    by (auto simp: resolveWithSymlinkCheck_def split: sum.splits)
  note pre = existing_prefix_sound [OF ex(1)]
  then have p: "ex @ rem = p" by simp
  with assms(2) have ok: "path_ok ex" "path_ok rem" by (metis list_all_append)+
  from EvalSymlinks_plain [OF ok(1) ex(2)] ok ex(3) have okq: "path_ok q" by simp
  have "\<exists>x m n. kresolve fs' False kernel_links [] p = KAt x m \<and> fs_at fs' x \<noteq> None \<and> kresolve fs' True 255 [] p = KAt q n"
  proof (cases rem)
    case Nil
    with p ex(3) have "ex = p" "q = R" by simp_all
    with pre obtain x m where x: "kresolve fs False kernel_links [] p = KAt x m" "fs_at fs x \<noteq> None"
      by (auto simp: os_Lstat_def split: kres.splits option.splits)
    moreover have "fs_at fs' x \<noteq> None"
      using ext [unfolded fs_extends_def, rule_format, of x] x(2) by (auto split: fnode.splits)
    moreover obtain n where "kresolve fs True 255 [] p = KAt q n"
      using ex(2) \<open>ex = p\<close> \<open>q = R\<close> by (auto simp: EvalSymlinks_def split: kres.splits)
    ultimately show ?thesis using kresolve_extends [OF ext] by blast
  next
    case (Cons r rs)
    with pre have "os_Lstat fs (ex @ [r]) = Inl ENOENT" by auto
    with Lstat_ENOENT_walk [OF wf _ ex(2), of r] ok Cons obtain m
      where m: "kresolve fs True kernel_links [] ex = KAt R m" "fs_at fs R = Some FDir" by auto
    note m' = kresolve_extends [OF ext m(1)] fs_extendsD(1) [OF ext m(2)]
    have R: "nolink fs' R" "path_ok R" using assms(6) ex(3) okq nolink_prefix by auto
    have "kresolve fs' fl k [] p = kresolve fs' fl j R rem" if "kresolve fs' True k [] ex = KAt R j" for fl k j
      using kresolve_append [OF wf', of rem "[]" fl k ex] Cons m'(2) that p by simp
    moreover have "kresolve fs' fl j R rem = KAt q j" for fl j
      using kresolve_append [OF wf', of rem "[]" fl j R] kresolve_plain [OF wf' R m'(2), of True j]
        kresolve_plain [OF wf' assms(6) okq assms(7), of fl j] Cons m'(2) ex(3) by simp
    moreover have "kresolve fs' True 255 [] ex = KAt R (m + 215)"
      using kresolve_fuel [of fs' True 40 "[]" ex 215] m'(1) by (simp add: kernel_links_def)
    ultimately show ?thesis using m'(1) assms(7) by (metis option.distinct(1))
  qed
  then show ?thesis
    by (auto simp: resolveWithSymlinkCheck_def existing_prefix.simps [of fs' p p] os_Lstat_def EvalSymlinks_def)
qed

lemma Resolve_again:
  assumes "wf_fs fs" and "path_ok root" and "Resolve fs root path = Inr q"
    and "fs_extends fs fs'" and "wf_fs fs'" and "nolink fs' q" and "fs_at fs' q = Some nd"
  shows "Resolve fs' root path = Inr q"
proof -
  let ?c = "if is_abs path then path_clean path else path_join root path"
  have c: "path_ok ?c" using path_join_ok [OF assms(2)] by simp
  from assms(3) have q: "resolveWithSymlinkCheck fs ?c = Inr q" "IsWithinRoot root q" "path \<noteq> []" "\<not> containsParentTraversal path"
    by (auto simp: Resolve_def Let_def split: if_splits sum.splits)
  from resolve_again [OF assms(1) c q(1) assms(4-7)] have "resolveWithSymlinkCheck fs' ?c = Inr q" .
  then show ?thesis using q(2-4) unfolding Resolve_def Let_def by simp
qed

end
