(* ===== verification/PrimitiveMeta.thy ===== *)
theory PrimitiveMeta
  imports Orchestrator
begin

text \<open>
  The registry of built-in primitives and the metadata it reports, \<open>internal/primitive/registry.go\<close>,
  \<open>metadata.go\<close> and the types of \<open>primitive.go\<close>. A registry is an association list of primitives by
  name; where Go iterates over the map, the order is open and the model takes the order of
  registration. \<open>MustRegister\<close> panics on a duplicate name, which is \<open>None\<close> here.
\<close>

record prim_result =
  pr_Data :: json
  pr_Duration :: int
  pr_Diff :: string
  pr_Warning :: string

definition zero_prim_result :: prim_result where
  "zero_prim_result = \<lparr>pr_Data = JNull, pr_Duration = 0, pr_Diff = [], pr_Warning = []\<rparr>"

record intent_metadata =
  im_Category :: intent_category
  im_SideEffect :: string
  im_Reversible :: bool
  im_RiskLevel :: risk_level

definition zero_intent_metadata :: intent_metadata where
  "zero_intent_metadata = \<lparr>im_Category = IntentOther [], im_SideEffect = [], im_Reversible = False, im_RiskLevel = RiskOther []\<rparr>"

record prim_schema =
  ps_Name :: string
  ps_Namespace :: string
  ps_Description :: string
  ps_Input :: raw
  ps_Output :: raw
  ps_InputSchema :: raw
  ps_OutputSchema :: raw
  ps_SideEffect :: string
  ps_CheckpointRequired :: bool
  ps_TimeoutMs :: int
  ps_Scope :: string
  ps_VerifierHint :: string
  ps_UILayoutHint :: string
  ps_Source :: string
  ps_Adapter :: string
  ps_Status :: string
  ps_Intent :: intent_metadata

record 'w prim =
  pm_Name :: string
  pm_Category :: string
  pm_Schema :: prim_schema
  pm_Execute :: "'w \<Rightarrow> raw \<Rightarrow> 'w \<times> (go_error + prim_result)"

section \<open>Metadata\<close>

definition defaultSideEffect :: "string \<Rightarrow> string" where
  "defaultSideEffect name =
     (if name \<in> {''fs.read'', ''fs.list'', ''fs.diff'', ''code.search'', ''code.symbols'', ''state.list'', ''db.schema'',
                 ''db.query'', ''db.query_readonly'', ''browser.goto'', ''browser.read'', ''browser.extract''} then ''read''
      else if name \<in> {''fs.write'', ''state.restore'', ''repo.patch_symbol''} then ''write''
      else if name \<in> {''shell.exec'', ''verify.test'', ''verify.command'', ''test.run'', ''repo.run_tests'', ''browser.click'',
                 ''db.execute''} then ''exec''
      else if name = ''state.checkpoint'' then ''write''
      else ''none'')"

definition defaultCheckpointRequirement :: "string \<Rightarrow> string \<Rightarrow> bool" where
  "defaultCheckpointRequirement name sideEffect =
     (if name \<in> {''state.checkpoint'', ''state.restore'', ''state.list'', ''verify.test'', ''verify.command'', ''test.run''}
      then False else sideEffect = ''write'')"

definition defaultTimeoutMs :: "string \<Rightarrow> int" where
  "defaultTimeoutMs name =
     (if name \<in> {''shell.exec'', ''verify.test'', ''verify.command'', ''test.run'', ''repo.run_tests''} then 120000
      else if name = ''repo.patch_symbol'' then 30000 else 15000)"

definition defaultVerifierHint :: "string \<Rightarrow> string" where
  "defaultVerifierHint name = (if name = ''repo.patch_symbol'' then ''repo.run_tests'' else [])"

definition metadata_query :: "string \<Rightarrow> bool" where
  "metadata_query name \<longleftrightarrow>
     list_ex (has_prefix name) [''fs.read'', ''fs.list'', ''fs.diff'', ''code.search'', ''code.symbols''] \<or>
     name \<in> {''state.list'', ''db.schema'', ''db.query'', ''db.query_readonly'', ''browser.goto'', ''browser.read'', ''browser.extract''}"

definition defaultIntentMetadata :: "string \<Rightarrow> string \<Rightarrow> intent_metadata" where
  "defaultIntentMetadata name sideEffect =
     (let meta = (\<lambda>c rev risk. \<lparr>im_Category = c, im_SideEffect = sideEffect, im_Reversible = rev, im_RiskLevel = risk\<rparr>)
      in if metadata_query name then meta IntentQuery True RiskLow
         else if list_ex (has_prefix name) [''verify.'', ''test.'', ''repo.run_tests''] then meta IntentVerification True RiskMedium
         else if name = ''state.checkpoint'' then meta IntentMutation True RiskLow
         else if name = ''state.restore'' then meta IntentRollback True RiskHigh
         else if list_ex (has_prefix name) [''fs.write'', ''macro.safe_edit'', ''repo.patch'', ''db.execute'', ''shell.exec'']
         then meta IntentMutation False RiskHigh
         else meta IntentMutation False RiskHigh)"

definition schema_namespace :: "string \<Rightarrow> string" where
  "schema_namespace name =
     (case index_byte name (CHR ''.'') of
        Some i \<Rightarrow> (if 0 < i then take i name else name)
      | None \<Rightarrow> name)"

definition EnrichSchema :: "prim_schema \<Rightarrow> prim_schema" where
  "EnrichSchema s0 =
     (let s1 = s0\<lparr>ps_Namespace := (if ps_Namespace s0 = [] \<and> ps_Name s0 \<noteq> [] then schema_namespace (ps_Name s0) else ps_Namespace s0)\<rparr>;
          s2 = s1\<lparr>ps_InputSchema := (if raw_len0 (ps_InputSchema s1) then cloneJSON (ps_Input s1) else ps_InputSchema s1),
                  ps_OutputSchema := (if raw_len0 (ps_OutputSchema s1) then cloneJSON (ps_Output s1) else ps_OutputSchema s1)\<rparr>;
          s3 = s2\<lparr>ps_Input := (if raw_len0 (ps_Input s2) then cloneJSON (ps_InputSchema s2) else ps_Input s2),
                  ps_Output := (if raw_len0 (ps_Output s2) then cloneJSON (ps_OutputSchema s2) else ps_Output s2),
                  ps_Source := (if ps_Source s2 = [] then ''system'' else ps_Source s2),
                  ps_Scope := (if ps_Scope s2 = [] then ''workspace'' else ps_Scope s2),
                  ps_SideEffect := (if ps_SideEffect s2 = [] then defaultSideEffect (ps_Name s2) else ps_SideEffect s2)\<rparr>
      in s3\<lparr>ps_CheckpointRequired := (ps_CheckpointRequired s3 \<or> defaultCheckpointRequirement (ps_Name s3) (ps_SideEffect s3)),
            ps_TimeoutMs := (if ps_TimeoutMs s3 = 0 then defaultTimeoutMs (ps_Name s3) else ps_TimeoutMs s3),
            ps_VerifierHint := (if ps_VerifierHint s3 = [] then defaultVerifierHint (ps_Name s3) else ps_VerifierHint s3),
            ps_Intent := (if ps_Intent s3 = zero_intent_metadata then defaultIntentMetadata (ps_Name s3) (ps_SideEffect s3)
                          else ps_Intent s3)\<rparr>)"

section \<open>The registry\<close>

type_synonym 'w registry = "(string \<times> 'w prim) list"

definition NewRegistry :: "'w registry" where
  "NewRegistry = []"

definition reg_Register :: "'w registry \<Rightarrow> 'w prim \<Rightarrow> 'w registry \<times> go_error option" where
  "reg_Register r p =
     (if map_of r (pm_Name p) \<noteq> None then (r, Some (GoErr (''primitive already registered: '' @ pm_Name p)))
      else (r @ [(pm_Name p, p)], None))"

definition MustRegister :: "'w registry \<Rightarrow> 'w prim \<Rightarrow> 'w registry option" where
  "MustRegister r p = (case reg_Register r p of (r', None) \<Rightarrow> Some r' | (r', Some e) \<Rightarrow> None)"

definition reg_Get :: "'w registry \<Rightarrow> string \<Rightarrow> 'w prim option" where
  "reg_Get r name = map_of r name"

definition reg_List :: "'w registry \<Rightarrow> string list" where
  "reg_List r = map fst r"

definition Registered :: "'w registry \<Rightarrow> 'w prim list" where
  "Registered r = map snd r"

definition Schemas :: "'w registry \<Rightarrow> prim_schema list" where
  "Schemas r = map (\<lambda>x. EnrichSchema (pm_Schema (snd x))) r"

definition reg_Schema :: "'w registry \<Rightarrow> string \<Rightarrow> prim_schema option" where
  "reg_Schema r name = map_option (\<lambda>p. EnrichSchema (pm_Schema p)) (map_of r name)"

fun must_all :: "'w registry \<Rightarrow> 'w prim list \<Rightarrow> 'w registry option" where
  "must_all r [] = Some r"
| "must_all r (p # ps) = (case MustRegister r p of None \<Rightarrow> None | Some r' \<Rightarrow> must_all r' ps)"

text \<open>The names of the built-in primitives, in the order of registration; \<open>mk\<close> builds the primitive of a name.\<close>

definition default_names :: "string list" where
  "default_names = [''fs.read'', ''fs.write'', ''fs.list'', ''shell.exec'', ''state.checkpoint'', ''state.restore'', ''state.list'',
     ''code.search'', ''code.symbols'', ''verify.test'', ''test.run'', ''verify.command'', ''macro.safe_edit'', ''fs.diff'']"

definition sandbox_extra_names :: "string list" where
  "sandbox_extra_names = [''db.schema'', ''db.query'', ''db.execute'', ''db.query_readonly'', ''browser.goto'', ''browser.read'',
     ''browser.extract'', ''browser.click'', ''browser.screenshot'']"

definition RegisterDefaults :: "(string \<Rightarrow> 'w prim) \<Rightarrow> 'w registry \<Rightarrow> 'w registry option" where
  "RegisterDefaults mk r = must_all r (map mk default_names)"

definition RegisterSandboxExtras :: "(string \<Rightarrow> 'w prim) \<Rightarrow> 'w registry \<Rightarrow> 'w registry option" where
  "RegisterSandboxExtras mk r = must_all r (map mk sandbox_extra_names)"

section \<open>Properties\<close>

lemma must_all_fresh:
  assumes "distinct (map pm_Name ps)" and "fst ` set r \<inter> pm_Name ` set ps = {}"
  shows "must_all r ps = Some (r @ map (\<lambda>p. (pm_Name p, p)) ps)"
  using assms
proof (induction ps arbitrary: r)
  case Nil
  then show ?case by simp
next
  case (Cons p ps)
  then have "map_of r (pm_Name p) = None" by (auto simp: map_of_eq_None_iff)
  then have "MustRegister r p = Some (r @ [(pm_Name p, p)])" by (simp add: MustRegister_def reg_Register_def)
  moreover have "must_all (r @ [(pm_Name p, p)]) ps = Some ((r @ [(pm_Name p, p)]) @ map (\<lambda>p. (pm_Name p, p)) ps)"
    using Cons.prems by (intro Cons.IH) auto
  ultimately show ?case by simp
qed

lemma distinct_builtin_names: "distinct (default_names @ sandbox_extra_names)"
  by (simp add: default_names_def sandbox_extra_names_def)

text \<open>
  The sandbox registry. Registering the built-in primitives of a sandbox on a new registry never
  panics, whatever the primitives are, provided each carries the name it is listed under; every
  one of them is then found under its name, and a further registration of any of these names is
  refused without changing the registry.
\<close>

theorem builtin_registry:
  assumes "\<And>n. pm_Name (mk n) = n"
  shows "\<exists>r. Option.bind (RegisterDefaults mk NewRegistry) (RegisterSandboxExtras mk) = Some r \<and>
    reg_List r = default_names @ sandbox_extra_names \<and>
    (\<forall>n \<in> set (default_names @ sandbox_extra_names). reg_Get r n = Some (mk n) \<and>
       (\<forall>p. pm_Name p = n \<longrightarrow> (\<exists>e. reg_Register r p = (r, Some e))))"
proof -
  let ?r = "\<lambda>ns. map (\<lambda>n. (n, mk n)) ns"
  have names: "map pm_Name (map mk ns) = ns" "map (\<lambda>p. (pm_Name p, p)) (map mk ns) = ?r ns" for ns
    by (simp_all add: assms comp_def)
  have d: "distinct default_names" "distinct sandbox_extra_names" "set default_names \<inter> set sandbox_extra_names = {}"
    using distinct_builtin_names by auto
  have 1: "RegisterDefaults mk NewRegistry = Some (?r default_names)"
    unfolding RegisterDefaults_def NewRegistry_def using must_all_fresh [of "map mk default_names" "[]"] d(1) names by simp
  have "fst ` set (?r default_names) \<inter> pm_Name ` set (map mk sandbox_extra_names) = {}"
    using d(3) by (auto simp: assms)
  with d(2) names have 2: "RegisterSandboxExtras mk (?r default_names) = Some (?r default_names @ ?r sandbox_extra_names)"
    unfolding RegisterSandboxExtras_def using must_all_fresh [of "map mk sandbox_extra_names" "?r default_names"] by simp
  have get: "map_of (?r ns) n = (if n \<in> set ns then Some (mk n) else None)" for ns n by (induction ns) auto
  have "reg_Get (?r default_names @ ?r sandbox_extra_names) n = Some (mk n)" if "n \<in> set (default_names @ sandbox_extra_names)" for n
    unfolding reg_Get_def map_append [symmetric] get using that by simp
  moreover from this have "\<exists>e. reg_Register (?r default_names @ ?r sandbox_extra_names) p = (?r default_names @ ?r sandbox_extra_names, Some e)"
    if "n \<in> set (default_names @ sandbox_extra_names)" "pm_Name p = n" for n p
    using that by (simp add: reg_Register_def reg_Get_def)
  ultimately show ?thesis using 1 2 by (intro exI [of _ "?r default_names @ ?r sandbox_extra_names"]) (simp add: reg_List_def comp_def)
qed

definition demo_schema :: "string \<Rightarrow> prim_schema" where
  "demo_schema n = \<lparr>ps_Name = n, ps_Namespace = [], ps_Description = [], ps_Input = Raw (JObj []), ps_Output = RawNil,
     ps_InputSchema = RawNil, ps_OutputSchema = Raw (JObj []), ps_SideEffect = [], ps_CheckpointRequired = False, ps_TimeoutMs = 0,
     ps_Scope = [], ps_VerifierHint = [], ps_UILayoutHint = [], ps_Source = [], ps_Adapter = [], ps_Status = [],
     ps_Intent = zero_intent_metadata\<rparr>"

definition demo_prim :: "string \<Rightarrow> nat prim" where
  "demo_prim n = \<lparr>pm_Name = n, pm_Category = [], pm_Schema = demo_schema n, pm_Execute = (\<lambda>w _. (Suc w, Inr zero_prim_result))\<rparr>"

theorem builtin_registry_witness:
  "\<exists>r. Option.bind (RegisterDefaults demo_prim NewRegistry) (RegisterSandboxExtras demo_prim) = Some r \<and>
    reg_Get r ''db.query'' = Some (demo_prim ''db.query'') \<and> (\<exists>e. reg_Register r (demo_prim ''fs.read'') = (r, Some e))"
proof -
  have name: "pm_Name (demo_prim n) = n" for n by (simp add: demo_prim_def)
  obtain r where "Option.bind (RegisterDefaults demo_prim NewRegistry) (RegisterSandboxExtras demo_prim) = Some r"
    and "\<forall>n \<in> set (default_names @ sandbox_extra_names). reg_Get r n = Some (demo_prim n) \<and>
       (\<forall>p. pm_Name p = n \<longrightarrow> (\<exists>e. reg_Register r p = (r, Some e)))"
    using builtin_registry [of demo_prim, OF name] by blast
  moreover have "''db.query'' \<in> set (default_names @ sandbox_extra_names)" "''fs.read'' \<in> set (default_names @ sandbox_extra_names)"
    by (simp_all add: default_names_def sandbox_extra_names_def)
  ultimately show ?thesis using name by blast
qed

lemma enrich_fields:
  "ps_Namespace (EnrichSchema s) = (if ps_Namespace s = [] \<and> ps_Name s \<noteq> [] then schema_namespace (ps_Name s) else ps_Namespace s)"
  "ps_InputSchema (EnrichSchema s) = (if raw_len0 (ps_InputSchema s) then cloneJSON (ps_Input s) else ps_InputSchema s)"
  "ps_OutputSchema (EnrichSchema s) = (if raw_len0 (ps_OutputSchema s) then cloneJSON (ps_Output s) else ps_OutputSchema s)"
  "ps_Input (EnrichSchema s) = (if raw_len0 (ps_Input s) then cloneJSON (ps_InputSchema (EnrichSchema s)) else ps_Input s)"
  "ps_Output (EnrichSchema s) = (if raw_len0 (ps_Output s) then cloneJSON (ps_OutputSchema (EnrichSchema s)) else ps_Output s)"
  "ps_Source (EnrichSchema s) = (if ps_Source s = [] then ''system'' else ps_Source s)"
  "ps_Scope (EnrichSchema s) = (if ps_Scope s = [] then ''workspace'' else ps_Scope s)"
  "ps_SideEffect (EnrichSchema s) = (if ps_SideEffect s = [] then defaultSideEffect (ps_Name s) else ps_SideEffect s)"
  "ps_CheckpointRequired (EnrichSchema s) =
     (ps_CheckpointRequired s \<or> defaultCheckpointRequirement (ps_Name s) (ps_SideEffect (EnrichSchema s)))"
  "ps_TimeoutMs (EnrichSchema s) = (if ps_TimeoutMs s = 0 then defaultTimeoutMs (ps_Name s) else ps_TimeoutMs s)"
  "ps_VerifierHint (EnrichSchema s) = (if ps_VerifierHint s = [] then defaultVerifierHint (ps_Name s) else ps_VerifierHint s)"
  "ps_Intent (EnrichSchema s) =
     (if ps_Intent s = zero_intent_metadata then defaultIntentMetadata (ps_Name s) (ps_SideEffect (EnrichSchema s)) else ps_Intent s)"
  "ps_UILayoutHint (EnrichSchema s) = ps_UILayoutHint s" "ps_Name (EnrichSchema s) = ps_Name s"
  "ps_Description (EnrichSchema s) = ps_Description s" "ps_Status (EnrichSchema s) = ps_Status s"
  "ps_Adapter (EnrichSchema s) = ps_Adapter s"
  by (simp_all add: EnrichSchema_def Let_def)

lemma default_not_empty: "defaultSideEffect n \<noteq> []" "defaultTimeoutMs n \<noteq> 0" "defaultIntentMetadata n se \<noteq> zero_intent_metadata"
  by (simp_all add: defaultSideEffect_def defaultTimeoutMs_def defaultIntentMetadata_def zero_intent_metadata_def Let_def)

lemma schema_namespace_not_empty: "n \<noteq> [] \<Longrightarrow> schema_namespace n \<noteq> []"
  by (simp add: schema_namespace_def split: option.split)

lemma raw_len0_clone [simp]: "raw_len0 (cloneJSON r) = raw_len0 r"
  by (simp add: cloneJSON_def)

lemma EnrichSchema_idem: "EnrichSchema (EnrichSchema s) = EnrichSchema s"
  by (rule prim_schema.equality) (simp_all add: enrich_fields default_not_empty schema_namespace_not_empty)

text \<open>
  Enriched schemas are complete and stable. What \<open>Schemas\<close> reports of a primitive with a name
  always has a namespace, a source, a scope, a side effect, a timeout and an intent; the two spellings of
  the input and output schema are present together; and enriching an enriched schema again changes
  nothing, so a proxy that enriches what a sandbox sent does not alter it.
\<close>

theorem enrich_complete:
  "EnrichSchema (EnrichSchema s) = EnrichSchema s \<and>
   (ps_Name s = [] \<or> ps_Namespace (EnrichSchema s) \<noteq> []) \<and> ps_Source (EnrichSchema s) \<noteq> [] \<and> ps_Scope (EnrichSchema s) \<noteq> [] \<and>
   ps_SideEffect (EnrichSchema s) \<noteq> [] \<and> ps_TimeoutMs (EnrichSchema s) \<noteq> 0 \<and> ps_Intent (EnrichSchema s) \<noteq> zero_intent_metadata \<and>
   raw_len0 (ps_Input (EnrichSchema s)) = raw_len0 (ps_InputSchema (EnrichSchema s)) \<and>
   raw_len0 (ps_Output (EnrichSchema s)) = raw_len0 (ps_OutputSchema (EnrichSchema s))"
  by (auto simp: EnrichSchema_idem enrich_fields default_not_empty schema_namespace_not_empty)

theorem enrich_complete_witness:
  "ps_Namespace (EnrichSchema (demo_schema ''fs.read'')) \<noteq> [] \<and> ps_TimeoutMs (EnrichSchema (demo_schema ''fs.read'')) \<noteq> 0"
  using enrich_complete [of "demo_schema ''fs.read''"] by (simp add: demo_schema_def)

lemma has_prefix_hd: "has_prefix s (c # p) \<Longrightarrow> hd s = c"
  by (cases s) (auto simp: has_prefix_def)

definition same_class :: "primitive_intent \<Rightarrow> intent_metadata \<Rightarrow> bool" where
  "same_class i d \<longleftrightarrow> Category i = im_Category d \<and> Reversible i = im_Reversible d \<and> RiskLevel i = im_RiskLevel d"

definition loose_query :: "string \<Rightarrow> bool" where
  "loose_query p \<longleftrightarrow> list_ex (has_prefix p) [''db.query'', ''browser.goto'', ''browser.read''] \<and>
     p \<notin> {''db.query'', ''db.query_readonly'', ''browser.goto'', ''browser.read''}"

lemma loose_not_verification: "loose_query p \<Longrightarrow> \<not> list_ex (has_prefix p) [''verify.'', ''test.'', ''repo.run_tests'']"
  by (auto simp: loose_query_def dest!: has_prefix_hd)

lemma loose_not_listed:
  "p \<notin> {''state.list'', ''state.checkpoint'', ''db.schema'', ''browser.extract''} \<Longrightarrow> \<not> (metadata_query p \<and> loose_query p)"
  by (auto simp: metadata_query_def loose_query_def dest!: has_prefix_hd)

lemmas intent_agreement_defs = same_class_def inferPrimitiveIntent_def defaultIntentMetadata_def metadata_query_def loose_query_def
  query_prefixes_def verification_prefixes_def mutation_prefixes_def query_intent_def mutation_intent_def Let_def

text \<open>
  The advertised and the enforced intent. For a name without an app manifest, the intent the schema
  listing reports and the intent the engine acts on have the same category, reversibility and risk exactly
  when the name is none of \<open>state.list\<close>, \<open>state.checkpoint\<close>, \<open>db.schema\<close>, \<open>browser.extract\<close> (the engine treats
  these as high-risk mutations) and no proper extension of \<open>db.query\<close>, \<open>browser.goto\<close> or \<open>browser.read\<close>, which
  the engine matches by prefix and the listing by equality.
\<close>

theorem intent_agreement:
  assumes "lookupAppManifest e w p = None"
  shows "same_class (inferPrimitiveIntent e w p) (defaultIntentMetadata p se) \<longleftrightarrow>
    p \<notin> {''state.list'', ''state.checkpoint'', ''db.schema'', ''browser.extract''} \<and> \<not> loose_query p"
proof (cases "p \<in> {''state.list'', ''state.checkpoint'', ''db.schema'', ''browser.extract''}")
  case True
  with assms show ?thesis
    by (elim insertE emptyE) (simp_all add: intent_agreement_defs has_prefix_def)
next
  case False
  let ?S = "{''db.query'', ''db.query_readonly'', ''browser.goto'', ''browser.read''}"
  let ?A = "list_ex (has_prefix p) [''fs.read'', ''fs.list'', ''fs.diff'', ''code.search'', ''code.symbols'']"
  let ?B = "list_ex (has_prefix p) [''db.query'', ''browser.goto'', ''browser.read'']"
  have "p \<in> ?S \<Longrightarrow> ?B" by (elim insertE emptyE) (simp_all add: has_prefix_def)
  moreover have "list_ex (has_prefix p) query_prefixes \<longleftrightarrow> ?A \<or> ?B" by (simp add: query_prefixes_def)
  moreover from False have "metadata_query p \<longleftrightarrow> ?A \<or> p \<in> ?S" by (simp add: metadata_query_def)
  moreover have "loose_query p \<longleftrightarrow> ?B \<and> p \<notin> ?S" by (simp add: loose_query_def)
  ultimately have q: "list_ex (has_prefix p) query_prefixes \<longleftrightarrow> metadata_query p \<or> loose_query p" by argo
  have v: "list_ex (has_prefix p) verification_prefixes = list_ex (has_prefix p) [''verify.'', ''test.'', ''repo.run_tests'']"
    by (simp add: verification_prefixes_def)
  have "same_class (inferPrimitiveIntent e w p) (defaultIntentMetadata p se) \<longleftrightarrow> metadata_query p \<or> \<not> loose_query p"
    using loose_not_verification [of p] False unfolding inferPrimitiveIntent_def defaultIntentMetadata_def q v Let_def
    by (simp add: same_class_def query_intent_def verification_intent_def mutation_intent_def rollback_intent_def assms)
  moreover have "\<not> (metadata_query p \<and> loose_query p)"
    using False by (rule loose_not_listed)
  ultimately show ?thesis using False by blast
qed

theorem intent_agreement_witness:
  "same_class (inferPrimitiveIntent (demo_engine (\<lambda>_. None)) ([], []) ''shell.exec'') (defaultIntentMetadata ''shell.exec'' ''exec'') \<and>
   \<not> same_class (inferPrimitiveIntent (demo_engine (\<lambda>_. None)) ([], []) ''db.query_drop'') (defaultIntentMetadata ''db.query_drop'' ''none'')"
  using intent_agreement [of "demo_engine (\<lambda>_. None)" "([], [])" "''shell.exec''" "''exec''"]
    intent_agreement [of "demo_engine (\<lambda>_. None)" "([], [])" "''db.query_drop''" "''none''"]
  by (simp add: lookupAppManifest_def demo_engine_def loose_query_def has_prefix_def)

end
