(* ===== verification/FsPrims.thy ===== *)
theory FsPrims
  imports Workspace PrimitiveMeta Eventing
begin

text \<open>
  The file primitives \<open>fs.read\<close>, \<open>fs.write\<close>, \<open>fs.list\<close> and \<open>fs.diff\<close>, \<open>internal/primitive/fs.go\<close>. They act on
  a host: a file system, the intent the context may carry, and a rest \<open>'x\<close> on which other programs (such
  as \<open>git\<close>) and the event sink act. The semantic diff of Go sources (package \<open>astdiff\<close>, on top of
  \<open>go/parser\<close>) is a parameter.
\<close>

record symbol_change =
  sc_Kind :: string
  sc_Symbol :: string
  sc_CallSites :: int
  sc_Summary :: string

record 'x host_world =
  hw_fs :: fsys
  hw_intent :: "primitive_intent option"
  hw_ext :: 'x

text \<open>What running a program gives: the error of \<open>Run\<close>, if any, and its two outputs.\<close>

record proc_result =
  pc_err :: "go_error option"
  pc_out :: string
  pc_errout :: string

record 'x host =
  ho_os :: os_env
  ho_dir_size :: "fpath \<Rightarrow> int"
  ho_sink :: "'x sink option"
  ho_astdiff :: "string \<Rightarrow> string \<Rightarrow> go_error + symbol_change list"
  ho_exec :: "'x host_world \<Rightarrow> fpath \<Rightarrow> string \<Rightarrow> string list \<Rightarrow> 'x host_world \<times> proc_result"

definition host_emit :: "'x host \<Rightarrow> 'x host_world \<Rightarrow> event \<Rightarrow> 'x host_world" where
  "host_emit h w evt = w\<lparr>hw_ext := Emit (ho_sink h) (hw_ext w) evt\<rparr>"

definition invalid_params :: "go_error \<Rightarrow> go_error" where
  "invalid_params e = PrimitiveError ''VALIDATION_ERROR'' (''invalid params: '' @ error_text e)"

definition newline :: char where
  "newline = CHR 0x0A"

definition ok_result :: "json \<Rightarrow> prim_result" where
  "ok_result j = zero_prim_result\<lparr>pr_Data := j\<rparr>"

text \<open>The JSON of a slice that is nil when nothing was appended.\<close>

definition slice_json :: "json list \<Rightarrow> json" where
  "slice_json xs = (if xs = [] then JNull else JArr xs)"

section \<open>fs.read\<close>

record fs_read_params =
  frp_Path :: string
  frp_StartLine :: int
  frp_EndLine :: int

definition dec_fs_read :: "raw \<Rightarrow> fs_read_params decoded" where
  "dec_fs_read r =
     dec_bind (dec_map r) (\<lambda>m.
     dec_bind (field_string m ''path'') (\<lambda>p.
     dec_bind (field_int m ''start_line'') (\<lambda>s.
     dec_bind (field_int m ''end_line'') (\<lambda>e. Inr \<lparr>frp_Path = p, frp_StartLine = s, frp_EndLine = e\<rparr>))))"

definition line_range :: "string list \<Rightarrow> int \<Rightarrow> int \<Rightarrow> go_error + string" where
  "line_range lines startLine endLine =
     (let total = int (length lines);
          start = (if startLine < 1 then 1 else startLine);
          stop = (if endLine < 1 \<or> endLine > total then total else endLine)
      in if total = 0 then Inr []
         else
           (let start' = (if start > total then total else start)
            in if start' > stop
               then Inl (PrimitiveError ''VALIDATION_ERROR'' (''invalid line range: start_line '' @ itoa startLine @
                           '' is greater than end_line '' @ itoa endLine))
               else Inr (join_with [newline] (take (nat (stop - (start' - 1))) (drop (nat (start' - 1)) lines)))))"

definition FSRead_Execute :: "'x host \<Rightarrow> fpath \<Rightarrow> 'x host_world \<Rightarrow> raw \<Rightarrow> 'x host_world \<times> (go_error + prim_result)" where
  "FSRead_Execute h root w params =
     (w, case dec_fs_read params of
           Inl e \<Rightarrow> Inl (invalid_params e)
         | Inr p \<Rightarrow>
             (case Resolve (hw_fs w) root (frp_Path p) of
                Inl e \<Rightarrow> Inl e
              | Inr absPath \<Rightarrow>
                  (case os_ReadFile (ho_os h) (hw_fs w) absPath of
                     Inl ENOENT \<Rightarrow> Inl (PrimitiveError ''NOT_FOUND'' (''file not found: '' @ frp_Path p))
                   | Inl e \<Rightarrow> Inl (PrimitiveError ''EXECUTION_ERROR'' (error_text (path_error ''open'' absPath e)))
                   | Inr content \<Rightarrow>
                       (let lines = (if content = [] then [] else split_on newline content);
                            shown = (if frp_StartLine p > 0 \<or> frp_EndLine p > 0
                                     then line_range lines (frp_StartLine p) (frp_EndLine p) else Inr content)
                        in case shown of
                             Inl e \<Rightarrow> Inl e
                           | Inr c \<Rightarrow> Inr (ok_result (JObj [(''content'', JStr c), (''total_lines'', JNum (int (length lines))),
                                                            (''encoding'', JStr ''utf-8'')]))))))"

section \<open>fs.write\<close>

record fs_write_params =
  fwp_Path :: string
  fwp_Content :: string
  fwp_Mode :: string
  fwp_Search :: string
  fwp_Replace :: string
  fwp_CreateDirs :: bool

definition dec_fs_write :: "raw \<Rightarrow> fs_write_params decoded" where
  "dec_fs_write r =
     dec_bind (dec_map r) (\<lambda>m.
     dec_bind (field_string m ''path'') (\<lambda>p.
     dec_bind (field_string m ''content'') (\<lambda>c.
     dec_bind (field_string m ''mode'') (\<lambda>md.
     dec_bind (field_string m ''search'') (\<lambda>s.
     dec_bind (field_string m ''replace'') (\<lambda>rp.
     dec_bind (case jget m ''create_dirs'' of None \<Rightarrow> Inr False | Some j \<Rightarrow> dec_bool (Raw j)) (\<lambda>cd.
       Inr \<lparr>fwp_Path = p, fwp_Content = c, fwp_Mode = md, fwp_Search = s, fwp_Replace = rp, fwp_CreateDirs = cd\<rparr>)))))))"

text \<open>\<open>strings.Count\<close> (without overlaps) and \<open>strings.Replace\<close> of the first occurrence, for non-empty text.\<close>

function count_str :: "string \<Rightarrow> string \<Rightarrow> nat" where
  "count_str s sub =
     (if s = [] \<or> sub = [] then 0
      else if has_prefix s sub then Suc (count_str (drop (length sub) s) sub)
      else count_str (tl s) sub)"
  by pat_completeness auto
termination
  by (relation "measure (\<lambda>(s, sub). length s)") auto

declare count_str.simps [simp del]

fun replace_first :: "string \<Rightarrow> string \<Rightarrow> string \<Rightarrow> string" where
  "replace_first s sub new =
     (if has_prefix s sub then new @ drop (length sub) s
      else case s of [] \<Rightarrow> [] | c # t \<Rightarrow> c # replace_first t sub new)"

declare replace_first.simps [simp del]

definition new_content :: "fs_write_params \<Rightarrow> string \<Rightarrow> go_error + string" where
  "new_content p oldContent =
     (if fwp_Mode p = ''search_replace'' then
        (if fwp_Search p = [] then Inl (PrimitiveError ''VALIDATION_ERROR'' ''search text is required for search_replace mode'')
         else if \<not> contains_str oldContent (fwp_Search p) then Inl (PrimitiveError ''NOT_FOUND'' ''search text not found in file'')
         else if count_str oldContent (fwp_Search p) > 1
         then Inl (PrimitiveError ''VALIDATION_ERROR'' (''search text found '' @ itoa (int (count_str oldContent (fwp_Search p))) @
                     '' times, must be unique (provide more context)''))
         else Inr (replace_first oldContent (fwp_Search p) (fwp_Replace p)))
      else Inr (fwp_Content p))"

text \<open>The changed lines in order, with their number; a line past the end of a file counts as empty.\<close>

fun diff_lines :: "string list \<Rightarrow> string list \<Rightarrow> string \<times> nat" where
  "diff_lines [] [] = ([], 0)"
| "diff_lines (o1 # os) [] =
     (let (d, n) = diff_lines os [] in if o1 \<noteq> [] then (CHR ''-'' # o1 @ newline # d, Suc n) else (d, n))"
| "diff_lines [] (n1 # ns) =
     (let (d, n) = diff_lines [] ns in if n1 \<noteq> [] then (CHR ''+'' # n1 @ newline # d, Suc n) else (d, n))"
| "diff_lines (o1 # os) (n1 # ns) =
     (let (d, n) = diff_lines os ns
      in if o1 \<noteq> n1 then (CHR ''-'' # o1 @ newline # CHR ''+'' # n1 @ newline # d, Suc n) else (d, n))"

definition generateSimpleDiff :: "string \<Rightarrow> string \<Rightarrow> string" where
  "generateSimpleDiff old new =
     (if old = [] then ''+++ (new file)''
      else
        (let oldLines = split_on newline old; newLines = split_on newline new; (d, changed) = diff_lines oldLines newLines
         in if changed = 0 then ''(no changes)''
            else ''--- old ('' @ itoa (int (length oldLines)) @ '' lines)'' @ newline #
                 ''+++ new ('' @ itoa (int (length newLines)) @ '' lines)'' @ newline # d))"

definition add_unique :: "string list \<Rightarrow> string list \<Rightarrow> string list" where
  "add_unique items acc = fold (\<lambda>x acc. if x = [] \<or> x \<in> set acc then acc else acc @ [x]) items acc"

definition collectSymbols :: "symbol_change list \<Rightarrow> string list" where
  "collectSymbols changes = add_unique (map sc_Symbol changes) []"

definition mergeUniqueStrings :: "string list \<Rightarrow> string list \<Rightarrow> string list" where
  "mergeUniqueStrings existing items = (if items = [] then existing else add_unique items (add_unique existing []))"

definition change_json :: "symbol_change \<Rightarrow> json" where
  "change_json c = JObj [(''kind'', JStr (sc_Kind c)), (''symbol'', JStr (sc_Symbol c)), (''call_sites'', JNum (sc_CallSites c)),
     (''summary'', JStr (sc_Summary c))]"

definition effect_json :: "string \<Rightarrow> string list \<Rightarrow> json" where
  "effect_json target symbols = JObj ([(''kind'', JStr ''file_write''), (''target'', JStr target)] @
     (if symbols = [] then [] else [(''affected_symbols'', JArr (map JStr symbols))]) @ [(''reversible_by'', JStr ''state.restore'')])"

definition has_suffix :: "string \<Rightarrow> string \<Rightarrow> bool" where
  "has_suffix s x = has_prefix (rev s) (rev x)"

text \<open>The report on a finished write: payload, warning, and the scopes added to the intent of the context.\<close>

definition write_report :: "'x host \<Rightarrow> string \<Rightarrow> string \<Rightarrow> string \<Rightarrow> primitive_intent option \<Rightarrow> primitive_intent option \<times> prim_result" where
  "write_report h path old new intent =
     (let diff = generateSimpleDiff old new;
          head = [(''bytes_written'', JNum (int (length new))), (''diff'', JStr diff)];
          res = (\<lambda>extra symbols warning. zero_prim_result\<lparr>pr_Data := JObj (head @ extra @ [(''effect_log'', JArr [effect_json path symbols])]),
                   pr_Diff := diff, pr_Warning := warning\<rparr>)
      in if has_suffix path ''.go'' then
           (case ho_astdiff h old new of
              Inl e \<Rightarrow> (intent, res [] [] (''ast diff failed: '' @ error_text e))
            | Inr changes \<Rightarrow>
                (let symbols = collectSymbols changes
                 in (if symbols = [] then intent
                     else map_option (\<lambda>i. i\<lparr>AffectedScopes := mergeUniqueStrings (AffectedScopes i) symbols\<rparr>) intent,
                     res [(''symbol_changes'', JArr (map change_json changes))] symbols [])))
         else (intent, res [] [] []))"

definition FSWrite_Execute :: "'x host \<Rightarrow> fpath \<Rightarrow> 'x host_world \<Rightarrow> raw \<Rightarrow> 'x host_world \<times> (go_error + prim_result)" where
  "FSWrite_Execute h root w params =
     (case dec_fs_write params of
        Inl e \<Rightarrow> (w, Inl (invalid_params e))
      | Inr p \<Rightarrow>
          (case Resolve (hw_fs w) root (fwp_Path p) of
             Inl e \<Rightarrow> (w, Inl e)
           | Inr absPath \<Rightarrow>
               (let (fs1, mkErr) = (if fwp_CreateDirs p then os_MkdirAll (ho_os h) (hw_fs w) (butlast absPath) else (hw_fs w, None));
                    w1 = w\<lparr>hw_fs := fs1\<rparr>
                in case mkErr of
                     Some e \<Rightarrow> (w1, Inl (PrimitiveError ''EXECUTION_ERROR''
                                 (''cannot create directories: '' @ error_text (path_error ''mkdir'' (butlast absPath) e))))
                   | None \<Rightarrow>
                       (let oldContent = (case os_ReadFile (ho_os h) fs1 absPath of Inr c \<Rightarrow> c | Inl _ \<Rightarrow> [])
                        in case new_content p oldContent of
                             Inl e \<Rightarrow> (w1, Inl e)
                           | Inr newContent \<Rightarrow>
                               (case os_WriteFile (ho_os h) fs1 absPath newContent of
                                  (fs2, Some e) \<Rightarrow> (w\<lparr>hw_fs := fs2\<rparr>, Inl (PrimitiveError ''EXECUTION_ERROR'' (error_text (path_error ''open'' absPath e))))
                                | (fs2, None) \<Rightarrow>
                                    (let (intent, res) = write_report h (fwp_Path p) oldContent newContent (hw_intent w)
                                     in (w\<lparr>hw_fs := fs2, hw_intent := intent\<rparr>, Inr res)))))))"

section \<open>fs.list\<close>

text \<open>\<open>filepath.Match\<close>; a malformed pattern matches nothing.\<close>

definition class_char :: "string \<Rightarrow> (char \<times> string) option" where
  "class_char p =
     (case p of
        [] \<Rightarrow> None
      | c # p1 \<Rightarrow>
          (if c = CHR ''-'' \<or> c = CHR '']'' then None
           else
             (let (r, rest) = (if c = CHR 0x5C then (case p1 of [] \<Rightarrow> (c, []) | d # p2 \<Rightarrow> (d, p2)) else (c, p1))
              in if rest = [] then None else Some (r, rest))))"

lemma class_char_shorter: "class_char p = Some (r, rest) \<Longrightarrow> length rest < length p"
  by (auto simp: class_char_def Let_def split: list.splits if_splits prod.splits)

function match_ranges :: "string \<Rightarrow> char \<Rightarrow> bool \<Rightarrow> nat \<Rightarrow> (bool \<times> string) option" where
  "match_ranges p r found n =
     (if 0 < n \<and> p \<noteq> [] \<and> hd p = CHR '']'' then Some (found, tl p)
      else
        (case class_char p of
           None \<Rightarrow> None
         | Some (lo, p1) \<Rightarrow>
             (if hd p1 = CHR ''-'' then
                (case class_char (tl p1) of
                   None \<Rightarrow> None
                 | Some (hi, p2) \<Rightarrow> match_ranges p2 r (found \<or> (lo \<le> r \<and> r \<le> hi)) (Suc n))
              else match_ranges p1 r (found \<or> r = lo) (Suc n))))"
  by pat_completeness auto
termination
proof (relation "measure (\<lambda>(p, r, found, n). length p)", goal_cases)
  case 1
  show ?case by simp
next
  case (2 p r found n x lo p1 x' hi p2)
  then show ?case using class_char_shorter [of p lo p1] class_char_shorter [of "tl p1" hi p2] by auto
next
  case (3 p r found n x lo p1)
  then show ?case using class_char_shorter [of p lo p1] by auto
qed

declare match_ranges.simps [simp del]

lemma match_ranges_shorter: "match_ranges p r found n = Some (ok, rest) \<Longrightarrow> length rest < length p"
proof (induction p r found n rule: match_ranges.induct)
  case (1 p r found n)
  show ?case
  proof (cases "0 < n \<and> p \<noteq> [] \<and> hd p = CHR '']''")
    case True
    with 1(3) show ?thesis by (cases p) (auto simp: match_ranges.simps)
  next
    case False
    with 1(3) obtain lo p1 where c: "class_char p = Some (lo, p1)"
      by (auto simp: match_ranges.simps [of p] split: option.splits)
    show ?thesis
    proof (cases "hd p1 = CHR ''-''")
      case True
      with 1(3) False c obtain hi p2 where "class_char (tl p1) = Some (hi, p2)"
        "match_ranges p2 r (found \<or> (lo \<le> r \<and> r \<le> hi)) (Suc n) = Some (ok, rest)"
        by (auto simp: match_ranges.simps [of p] split: option.splits)
      with 1(1) [OF False c refl True, of "(hi, p2)" hi p2] class_char_shorter [OF c] class_char_shorter [of "tl p1" hi p2] show ?thesis by simp
    next
      case no: False
      with 1(3) False c have "match_ranges p1 r (found \<or> r = lo) (Suc n) = Some (ok, rest)"
        by (auto simp: match_ranges.simps [of p])
      with 1(2) [OF False c refl no] class_char_shorter [OF c] show ?thesis by simp
    qed
  qed
qed

definition match_class :: "string \<Rightarrow> char \<Rightarrow> (bool \<times> string) option" where
  "match_class p r =
     (if p \<noteq> [] \<and> hd p = CHR ''^'' then map_option (map_prod Not id) (match_ranges (tl p) r False 0)
      else match_ranges p r False 0)"

lemma match_class_shorter: "match_class p r = Some (ok, rest) \<Longrightarrow> length rest < length p"
  by (cases p) (auto simp: match_class_def split: if_splits dest!: match_ranges_shorter)

function go_match :: "string \<Rightarrow> string \<Rightarrow> bool" where
  "go_match p s =
     (case p of
        [] \<Rightarrow> s = []
      | c # p' \<Rightarrow>
          (if c = CHR ''*'' then go_match p' s \<or> (if s = [] \<or> hd s = CHR ''/'' then False else go_match p (tl s))
           else if s = [] then False
           else if c = CHR ''?'' then hd s \<noteq> CHR ''/'' \<and> go_match p' (tl s)
           else if c = CHR ''['' then
             (case match_class p' (hd s) of None \<Rightarrow> False | Some (ok, rest) \<Rightarrow> ok \<and> go_match rest (tl s))
           else if c = CHR 0x5C then p' \<noteq> [] \<and> hd p' = hd s \<and> go_match (tl p') (tl s)
           else c = hd s \<and> go_match p' (tl s)))"
  by pat_completeness auto
termination
proof (relation "measure (\<lambda>(p, s). length p + length s)", goal_cases)
  case (5 p s c p' x ok rest)
  then show ?case using match_class_shorter [of p' "hd s" ok rest] by (cases s) auto
next
  case (6 p s c p')
  then show ?case by (cases s; cases p') auto
qed (auto simp: neq_Nil_conv)

declare go_match.simps [simp del]

record fs_list_params =
  flp_Path :: string
  flp_Recursive :: bool
  flp_Pattern :: string

definition dec_fs_list :: "raw \<Rightarrow> fs_list_params decoded" where
  "dec_fs_list r =
     dec_bind (dec_map r) (\<lambda>m.
     dec_bind (field_string m ''path'') (\<lambda>p.
     dec_bind (case jget m ''recursive'' of None \<Rightarrow> Inr False | Some j \<Rightarrow> dec_bool (Raw j)) (\<lambda>rc.
     dec_bind (field_string m ''pattern'') (\<lambda>pt. Inr \<lparr>flp_Path = p, flp_Recursive = rc, flp_Pattern = pt\<rparr>))))"

text \<open>The names in a directory, sorted, as \<open>os.ReadDir\<close> returns them.\<close>

definition dir_names :: "fsys \<Rightarrow> fpath \<Rightarrow> string list" where
  "dir_names fs p = sort (remdups (map last (filter (\<lambda>q. q \<noteq> [] \<and> butlast q = p) (map fst fs))))"

lemma set_dir_names: "c \<in> set (dir_names fs p) \<longleftrightarrow> fs_at fs (p @ [c]) \<noteq> None"
proof -
  have "c \<in> set (dir_names fs p) \<longleftrightarrow> (\<exists>q \<in> fst ` set fs. q \<noteq> [] \<and> butlast q = p \<and> last q = c)"
    by (auto simp: dir_names_def image_iff)
  also have "\<dots> \<longleftrightarrow> p @ [c] \<in> fst ` set fs" by (metis append_butlast_last_id butlast_snoc last_snoc snoc_eq_iff_butlast)
  also have "\<dots> \<longleftrightarrow> fs_at fs (p @ [c]) \<noteq> None" by (simp add: fs_at_def map_of_eq_None_iff)
  finally show ?thesis .
qed

text \<open>
  \<open>filepath.Walk\<close> from a path without links: the entry, then what stands below it, in lexical order; a
  directory that cannot be read is left out. Below such a path a lookup is the \<open>Lstat\<close> of the code.
\<close>

function fs_walk :: "os_env \<Rightarrow> fsys \<Rightarrow> fpath \<Rightarrow> (fpath \<times> fnode) list" where
  "fs_walk e fs p =
     (case fs_at fs p of
        None \<Rightarrow> []
      | Some FDir \<Rightarrow>
          (if oe_read_err e p \<noteq> None then []
           else (p, FDir) # concat (map (\<lambda>c. fs_walk e fs (p @ [c])) (dir_names fs p)))
      | Some nd \<Rightarrow> [(p, nd)])"
  by pat_completeness auto
termination
proof (relation "measure (\<lambda>(e, fs, p). length (filter (strict_prefix p) (map fst fs)))", goal_cases)
  case 1
  show ?case by simp
next
  case (2 e fs p nd c)
  then have "fs_at fs (p @ [c]) \<noteq> None" by (simp add: set_dir_names)
  then have "p @ [c] \<in> set (map fst fs)" by (simp add: fs_at_def map_of_eq_None_iff)
  then obtain xs ys where xy: "map fst fs = xs @ (p @ [c]) # ys" by (meson split_list)
  have "length (filter (strict_prefix (p @ [c])) zs) \<le> length (filter (strict_prefix p) zs)" for zs
    by (induction zs) (auto simp: strict_prefix_def prefix_def)
  from add_mono [OF this [of xs] this [of ys]]
  have "length (filter (strict_prefix (p @ [c])) (map fst fs)) < length (filter (strict_prefix p) (map fst fs))"
    unfolding xy by (simp add: strict_prefix_def)
  then show ?case by simp
qed

declare fs_walk.simps [simp del]

definition node_size :: "'x host \<Rightarrow> fpath \<Rightarrow> fnode \<Rightarrow> int" where
  "node_size h p nd = (case nd of FFile c \<Rightarrow> int (length c) | FDir \<Rightarrow> ho_dir_size h p | FLink t \<Rightarrow> int (length t))"

definition base_name :: "fpath \<Rightarrow> string" where
  "base_name p = (if p = [] then ''/'' else last p)"

definition list_entry :: "'x host \<Rightarrow> fpath \<Rightarrow> fpath \<times> fnode \<Rightarrow> json" where
  "list_entry h root x = JObj [(''name'', JStr (base_name (fst x))), (''path'', JStr (path_rel root (fst x))),
     (''is_dir'', JBool (snd x = FDir)), (''size'', JNum (node_size h (fst x) (snd x)))]"

definition listed :: "fpath \<Rightarrow> string \<Rightarrow> fpath \<times> fnode \<Rightarrow> bool" where
  "listed root pattern x \<longleftrightarrow> IsWithinRoot root (fst x) \<and> (pattern = [] \<or> go_match pattern (base_name (fst x)))"

definition dir_entries :: "fsys \<Rightarrow> fpath \<Rightarrow> (fpath \<times> fnode) list" where
  "dir_entries fs p = List.map_filter (\<lambda>c. map_option (Pair (p @ [c])) (fs_at fs (p @ [c]))) (dir_names fs p)"

definition os_ReadDir :: "os_env \<Rightarrow> fsys \<Rightarrow> fpath \<Rightarrow> os_error + (fpath \<times> fnode) list" where
  "os_ReadDir e fs p =
     (case kresolve fs True kernel_links [] p of
        KAt q _ \<Rightarrow>
          (case oe_read_err e q of
             Some er \<Rightarrow> Inl er
           | None \<Rightarrow> (if fs_at fs q = Some FDir then Inr (dir_entries fs q) else Inl ENOTDIR))
      | KMissing _ \<Rightarrow> Inl ENOENT
      | KErr er \<Rightarrow> Inl er)"

definition FSList_Execute :: "'x host \<Rightarrow> fpath \<Rightarrow> 'x host_world \<Rightarrow> raw \<Rightarrow> 'x host_world \<times> (go_error + prim_result)" where
  "FSList_Execute h root w params =
     (w, case dec_fs_list params of
           Inl e \<Rightarrow> Inl (invalid_params e)
         | Inr p \<Rightarrow>
             (case Resolve (hw_fs w) root (flp_Path p) of
                Inl e \<Rightarrow> Inl e
              | Inr absPath \<Rightarrow>
                  (let report = (\<lambda>xs. Inr (ok_result (JObj [(''entries'', slice_json (map (list_entry h root) (filter (listed root (flp_Pattern p)) xs)))])))
                   in if flp_Recursive p then report (fs_walk (ho_os h) (hw_fs w) absPath)
                      else case os_ReadDir (ho_os h) (hw_fs w) absPath of
                             Inl e \<Rightarrow> Inl (PrimitiveError ''EXECUTION_ERROR'' (error_text (path_error ''open'' absPath e)))
                           | Inr xs \<Rightarrow> report xs)))"

section \<open>fs.diff\<close>

record fs_diff_params =
  fdp_Path :: string
  fdp_Staged :: bool

definition dec_fs_diff :: "raw \<Rightarrow> fs_diff_params decoded" where
  "dec_fs_diff r =
     dec_bind (dec_map r) (\<lambda>m.
     dec_bind (field_string m ''path'') (\<lambda>p.
     dec_bind (case jget m ''staged'' of None \<Rightarrow> Inr False | Some j \<Rightarrow> dec_bool (Raw j)) (\<lambda>s.
       Inr \<lparr>fdp_Path = p, fdp_Staged = s\<rparr>)))"

definition nonblank_lines :: "string \<Rightarrow> string list" where
  "nonblank_lines out = filter (\<lambda>l. l \<noteq> []) (map trim_space (split_on newline out))"

definition run_diff :: "'x host \<Rightarrow> fpath \<Rightarrow> 'x host_world \<Rightarrow> bool \<Rightarrow> string list \<Rightarrow> 'x host_world \<times> (go_error + prim_result)" where
  "run_diff h root w staged target =
     (let base = (if staged then [''diff'', ''--cached''] else [''diff'', ''HEAD'']);
          (w1, d) = ho_exec h w root ''git'' (base @ [''--unified=3''] @ target)
      in if pc_err d \<noteq> None \<and> pc_errout d \<noteq> []
         then (w1, Inl (PrimitiveError ''EXECUTION_ERROR'' (''git diff failed: '' @ pc_errout d)))
         else
           (let (w2, names) = ho_exec h w1 root ''git'' (base @ [''--name-only'']);
                changed = nonblank_lines (pc_out names);
                diffStr = (if length (pc_out d) > 32000 then take 32000 (pc_out d) @ newline # ''... (truncated)'' else pc_out d);
                payload = JObj [(''diff'', JStr diffStr), (''changed_files'', JArr (map JStr changed)), (''has_changes'', JBool (changed \<noteq> []))]
            in (host_emit h w2 (zero_event\<lparr>ev_Type := ''fs.diff'', ev_Source := ''primitive'', ev_Method := ''fs.diff'',
                  ev_Message := itoa (int (length changed)) @ '' changed files'', ev_Data := json_marshal payload\<rparr>), Inr (ok_result payload))))"

definition FSDiff_Execute :: "'x host \<Rightarrow> fpath \<Rightarrow> 'x host_world \<Rightarrow> raw \<Rightarrow> 'x host_world \<times> (go_error + prim_result)" where
  "FSDiff_Execute h root w params =
     (case dec_fs_diff params of
        Inl e \<Rightarrow> (w, Inl (invalid_params e))
      | Inr p \<Rightarrow>
          (if fdp_Path p = [] then run_diff h root w (fdp_Staged p) []
           else case Resolve (hw_fs w) root (fdp_Path p) of
                  Inl e \<Rightarrow> (w, Inl e)
                | Inr absPath \<Rightarrow> run_diff h root w (fdp_Staged p) [''--'', path_string absPath]))"

section \<open>File operations on confined paths\<close>

lemma kresolve_missing_parent:
  "kresolve fs fl n pre cs = KMissing q \<Longrightarrow> wf_fs fs \<Longrightarrow> fs_at fs pre = Some FDir \<Longrightarrow> fs_at fs (butlast q) = Some FDir"
proof (induction n pre cs rule: kresolve_induct [of _ fs fl])
  case (up n pre cs)
  then show ?case using wf_parent [of fs pre] by (simp add: kresolve_up)
qed (auto simp: kresolve_steps split: if_splits)

lemma kresolve_confined:
  assumes "nolink fs q" and "path_ok q"
  shows "kresolve fs fl n [] q = KAt q n \<or> kresolve fs fl n [] q = KMissing q \<or> (\<exists>e. kresolve fs fl n [] q = KErr e)"
proof (cases "kresolve fs fl n [] q")
  case (KAt x m)
  with kresolve_straight [of fs "[]" q fl n x m] assms show ?thesis by simp
next
  case (KMissing x)
  with kresolve_straight [of fs "[]" q fl n x n] assms show ?thesis by simp
qed simp

lemma wf_fs_put:
  assumes "wf_fs fs" and "q \<noteq> []" and "fs_at fs (butlast q) = Some FDir" and "fs_at fs q \<noteq> Some FDir"
  shows "wf_fs (fs_put q nd fs)"
  unfolding wf_fs_def
proof (intro allI impI)
  fix p c
  assume "fs_at (fs_put q nd fs) (p @ [c]) \<noteq> None"
  then consider "p @ [c] = q" | "fs_at fs (p @ [c]) \<noteq> None" using assms(2) by (auto simp: fs_at_put split: if_splits)
  then have "fs_at fs p = Some FDir"
    using assms(1,3) unfolding wf_fs_def by cases auto
  with assms(2,4) show "fs_at (fs_put q nd fs) p = Some FDir" by (auto simp: fs_at_put)
qed

lemma ReadFile_confined:
  assumes "nolink fs q" and "path_ok q" and "os_ReadFile e fs q = Inr c"
  shows "fs_at fs q = Some (FFile c)"
  using assms(3) kresolve_confined [OF assms(1,2), of True kernel_links]
  by (auto simp: os_ReadFile_def split: option.splits fnode.splits)

lemma WriteFile_confined:
  assumes "wf_fs fs" and "nolink fs q" and "path_ok q" and "os_WriteFile e fs q c = (fs', err)"
  shows "err \<noteq> None \<and> fs' = fs \<or>
    (\<exists>c'. fs' = fs_put q (FFile c') fs \<and> q \<noteq> [] \<and> wf_fs fs' \<and> (fs_at fs q = None \<or> (\<exists>s. fs_at fs q = Some (FFile s))) \<and>
      (err = None \<and> c' = c \<or> err \<noteq> None \<and> (\<exists>n. oe_write_err e q \<noteq> None \<and> oe_partial e q = Some n \<and> c' = take n c)))"
  using kresolve_confined [OF assms(2,3), of True kernel_links]
proof (elim disjE exE)
  assume at: "kresolve fs True kernel_links [] q = KAt q kernel_links"
  show ?thesis
  proof (cases "\<exists>s. fs_at fs q = Some (FFile s)")
    case True
    then have "q \<noteq> []" "fs_at fs (butlast q) = Some FDir" "fs_at fs q \<noteq> Some FDir"
      using wf_parent [OF assms(1)] by auto
    with wf_fs_put [OF assms(1)] True at assms(4) show ?thesis
      by (cases err; cases "oe_write_err e q"; cases "oe_partial e q") (auto simp: os_WriteFile_def)
  next
    case False
    with at assms(4) show ?thesis by (auto simp: os_WriteFile_def split: option.splits fnode.splits)
  qed
next
  assume miss: "kresolve fs True kernel_links [] q = KMissing q"
  then have "q \<noteq> []" "fs_at fs q = None"
    using kresolve_missing [OF miss] assms(3) by (auto simp: list_all_iff name_ok_def)
  moreover from kresolve_missing_parent [OF miss assms(1)] have "fs_at fs (butlast q) = Some FDir" by simp
  ultimately show ?thesis using wf_fs_put [OF assms(1)] miss assms(4)
    by (cases err; cases "oe_write_err e q"; cases "oe_partial e q") (auto simp: os_WriteFile_def)
next
  fix er
  assume "kresolve fs True kernel_links [] q = KErr er"
  with assms(4) show ?thesis by (auto simp: os_WriteFile_def)
qed

text \<open>A change that only adds directories on the way to \<open>p\<close>.\<close>

definition adds_dirs :: "fsys \<Rightarrow> fpath \<Rightarrow> fsys \<Rightarrow> bool" where
  "adds_dirs fs p fs' \<longleftrightarrow>
     (\<forall>q. fs_at fs' q = fs_at fs q \<or> (fs_at fs q = None \<and> fs_at fs' q = Some FDir \<and> prefix q p))"

lemma adds_dirs_refl [simp]: "adds_dirs fs p fs"
  by (simp add: adds_dirs_def)

lemma adds_dirs_trans:
  assumes "adds_dirs fs p fs1" and "adds_dirs fs1 p' fs2" and "prefix p p'"
  shows "adds_dirs fs p' fs2"
  unfolding adds_dirs_def
proof
  fix q
  show "fs_at fs2 q = fs_at fs q \<or> (fs_at fs q = None \<and> fs_at fs2 q = Some FDir \<and> prefix q p')"
    using assms(1) [unfolded adds_dirs_def, rule_format, of q] assms(2) [unfolded adds_dirs_def, rule_format, of q] assms(3)
    by (metis option.distinct(1) prefix_order.trans)
qed

lemma adds_dirs_nolink: "adds_dirs fs p fs' \<Longrightarrow> nolink fs r \<Longrightarrow> nolink fs' r"
  unfolding adds_dirs_def nolink_def by (metis fnode.distinct(5) option.inject)

lemma Mkdir_confined:
  assumes "wf_fs fs" and "nolink fs q" and "path_ok q" and "os_Mkdir e fs q = (fs', err)"
  shows "wf_fs fs' \<and> adds_dirs fs q fs'"
  using kresolve_confined [OF assms(2,3), of False kernel_links]
proof (elim disjE exE)
  assume miss: "kresolve fs False kernel_links [] q = KMissing q"
  then have q: "q \<noteq> []" "fs_at fs q = None"
    using kresolve_missing [OF miss] assms(3) by (auto simp: list_all_iff name_ok_def)
  moreover from kresolve_missing_parent [OF miss assms(1)] have "fs_at fs (butlast q) = Some FDir" by simp
  ultimately show ?thesis using wf_fs_put [OF assms(1)] miss assms(1,4)
    by (auto simp: os_Mkdir_def adds_dirs_def fs_at_put split: option.splits if_splits)
qed (use assms in \<open>auto simp: os_Mkdir_def\<close>)

lemma MkdirAll_confined:
  "os_MkdirAll e fs p = (fs', err) \<Longrightarrow> wf_fs fs \<Longrightarrow> nolink fs p \<Longrightarrow> path_ok p \<Longrightarrow> wf_fs fs' \<and> adds_dirs fs p fs'"
proof (induction e fs p arbitrary: fs' err rule: os_MkdirAll.induct)
  case (1 e fs p)
  show ?case
  proof (cases "os_Stat fs p")
    case (Inr nd)
    with 1(2,3) show ?thesis by (cases nd) (auto simp: os_MkdirAll.simps [of e fs p])
  next
    case (Inl er)
    let ?r = "if p = [] then (fs, None) else os_MkdirAll e fs (butlast p)"
    obtain fs1 err1 where r: "?r = (fs1, err1)" by fastforce
    have fs1: "wf_fs fs1 \<and> adds_dirs fs (butlast p) fs1"
    proof (cases "p = []")
      case True
      with r 1(3) show ?thesis by simp
    next
      case False
      with 1(1) [OF Inl False, of fs1 err1] r 1(3-5) show ?thesis by (simp add: nolink_butlast path_ok_butlast)
    qed
    have pre: "prefix (butlast p) p" by (simp add: prefixeq_butlast)
    obtain fs2 err2 where m: "os_Mkdir e fs1 p = (fs2, err2)" by fastforce
    from fs1 1(4) have "nolink fs1 p" by (blast intro: adds_dirs_nolink)
    from Mkdir_confined [OF conjunct1 [OF fs1] this 1(5) m] have fs2: "wf_fs fs2 \<and> adds_dirs fs1 p fs2" .
    from 1(2) Inl r m have "fs' = fs1 \<or> fs' = fs2"
      by (auto simp: os_MkdirAll.simps [of e fs p] split: option.splits if_splits)
    then show ?thesis
    proof
      assume "fs' = fs1"
      with fs1 pre show ?thesis using adds_dirs_trans [of fs "butlast p" fs1 p fs1] by simp
    next
      assume "fs' = fs2"
      with fs1 fs2 pre show ?thesis using adds_dirs_trans [of fs "butlast p" fs1 p fs2] by blast
    qed
  qed
qed

text \<open>Every way \<open>fs.write\<close> can leave the file system.\<close>

lemma FSWrite_cases:
  assumes "wf_fs (hw_fs w)" and "path_ok root" and "FSWrite_Execute h root w params = (w', res)"
  obtains (unchanged) e where "w' = w" "res = Inl e"
  | (stopped) p q e where "dec_fs_write params = Inr p" "Resolve (hw_fs w) root (fwp_Path p) = Inr q" "res = Inl e"
      "wf_fs (hw_fs w')" "adds_dirs (hw_fs w) (butlast q) (hw_fs w')" "hw_ext w' = hw_ext w"
  | (written) p q old fs1 new x where "dec_fs_write params = Inr p" "Resolve (hw_fs w) root (fwp_Path p) = Inr q" "res = Inr x"
      "wf_fs fs1" "adds_dirs (hw_fs w) (butlast q) fs1" "hw_ext w' = hw_ext w"
      "new_content p old = Inr new" "old = (case os_ReadFile (ho_os h) fs1 q of Inr c \<Rightarrow> c | Inl _ \<Rightarrow> [])"
      "hw_fs w' = fs_put q (FFile new) fs1" "q \<noteq> []" "wf_fs (hw_fs w')" "fs_at fs1 q = None \<or> (\<exists>s. fs_at fs1 q = Some (FFile s))"
  | (broken) p q old fs1 new n e where "dec_fs_write params = Inr p" "Resolve (hw_fs w) root (fwp_Path p) = Inr q" "res = Inl e"
      "wf_fs fs1" "adds_dirs (hw_fs w) (butlast q) fs1" "hw_ext w' = hw_ext w"
      "new_content p old = Inr new" "old = (case os_ReadFile (ho_os h) fs1 q of Inr c \<Rightarrow> c | Inl _ \<Rightarrow> [])"
      "oe_write_err (ho_os h) q \<noteq> None" "oe_partial (ho_os h) q = Some n"
      "hw_fs w' = fs_put q (FFile (take n new)) fs1" "q \<noteq> []" "wf_fs (hw_fs w')" "fs_at fs1 q = None \<or> (\<exists>s. fs_at fs1 q = Some (FFile s))"
proof (cases "dec_fs_write params")
  case (Inl e)
  with assms(3) show ?thesis by (intro unchanged) (auto simp: FSWrite_Execute_def)
next
  case p: (Inr p)
  show ?thesis
  proof (cases "Resolve (hw_fs w) root (fwp_Path p)")
    case (Inl e)
    with p assms(3) show ?thesis by (intro unchanged) (auto simp: FSWrite_Execute_def)
  next
    case q: (Inr q)
    note conf = Resolve_confined [OF assms(1,2) q]
    let ?m = "if fwp_CreateDirs p then os_MkdirAll (ho_os h) (hw_fs w) (butlast q) else (hw_fs w, None)"
    obtain fs1 mk where m: "?m = (fs1, mk)" by fastforce
    have fs1: "wf_fs fs1" "adds_dirs (hw_fs w) (butlast q) fs1"
      using m MkdirAll_confined [of "ho_os h" "hw_fs w" "butlast q" fs1 mk] assms(1) conf
      by (auto simp: nolink_butlast path_ok_butlast split: if_splits)
    then have nl: "nolink fs1 q" using conf by (blast intro: adds_dirs_nolink)
    define old where "old = (case os_ReadFile (ho_os h) fs1 q of Inr c \<Rightarrow> c | Inl _ \<Rightarrow> [])"
    show ?thesis
    proof (cases mk)
      case (Some e)
      with p q m fs1 assms(3) show ?thesis by (intro stopped) (auto simp: FSWrite_Execute_def Let_def)
    next
      case mk: None
      show ?thesis
      proof (cases "new_content p old")
        case (Inl e)
        with p q m mk fs1 assms(3) show ?thesis by (intro stopped) (auto simp: FSWrite_Execute_def Let_def old_def)
      next
        case new: (Inr new)
        obtain fs2 err where wr: "os_WriteFile (ho_os h) fs1 q new = (fs2, err)" by fastforce
        obtain intent x where rep: "write_report h (fwp_Path p) old new (hw_intent w) = (intent, x)" by fastforce
        note W = WriteFile_confined [OF fs1(1) nl _ wr]
        show ?thesis
        proof (cases err)
          case (Some e)
          with W conf consider "fs2 = fs1"
            | n where "fs2 = fs_put q (FFile (take n new)) fs1" "q \<noteq> []" "wf_fs fs2" "oe_write_err (ho_os h) q \<noteq> None"
              "oe_partial (ho_os h) q = Some n" "fs_at fs1 q = None \<or> (\<exists>s. fs_at fs1 q = Some (FFile s))" by auto
          then show ?thesis
          proof cases
            case 1
            with p q m mk new wr Some fs1 assms(3) show ?thesis
              by (intro stopped) (auto simp: FSWrite_Execute_def Let_def old_def)
          next
            case (2 n)
            with p q m mk new wr Some fs1 assms(3) show ?thesis
              by (intro broken [of p q _ fs1 old new n]) (auto simp: FSWrite_Execute_def Let_def old_def)
          qed
        next
          case None
          with W conf have "fs2 = fs_put q (FFile new) fs1" "q \<noteq> []" "wf_fs fs2"
            "fs_at fs1 q = None \<or> (\<exists>s. fs_at fs1 q = Some (FFile s))" by auto
          with p q m mk new wr None fs1 rep assms(3) show ?thesis
            by (intro written [of p q x fs1 old new]) (auto simp: FSWrite_Execute_def Let_def old_def)
        qed
      qed
    qed
  qed
qed

lemma prefix_comparable: "prefix p r \<Longrightarrow> prefix q r \<Longrightarrow> prefix p q \<or> prefix q p"
  using prefix_same_cases by blast

lemma wf_ancestor: "wf_fs fs \<Longrightarrow> fs_at fs (p @ q) \<noteq> None \<Longrightarrow> fs_at fs p \<noteq> None"
  by (meson wf_below_None)

lemma adds_dirs_outside:
  assumes "wf_fs fs" and "fs_at fs root = Some FDir" and "adds_dirs fs q fs'" and "prefix root r" and "prefix q r" and "\<not> prefix root p"
  shows "fs_at fs' p = fs_at fs p"
proof (rule ccontr)
  assume "fs_at fs' p \<noteq> fs_at fs p"
  with assms(3) have p: "fs_at fs p = None" "prefix p q" by (auto simp: adds_dirs_def)
  then have "prefix p r" using assms(5) by (simp add: prefix_order.trans)
  with assms(4,6) prefix_comparable have "prefix p root" by blast
  then obtain z where "root = p @ z" by (auto simp: prefix_def)
  with wf_ancestor [OF assms(1), of p z] assms(2) p(1) show False by simp
qed

text \<open>
  C3. Writes stay in the workspace. Whatever symbolic links the file system holds and whatever the
  request says, \<open>fs.write\<close> leaves every path outside the workspace as it was, keeps every link, and
  leaves a well-formed file system. A failed call changes no file, with one exception: when the device
  fails after the file was opened and truncated, the one file the request names is left with a first part
  of the content that was to be written.
\<close>

theorem fs_write_confined:
  assumes "wf_fs (hw_fs w)" and "path_ok root" and "fs_at (hw_fs w) root = Some FDir"
    and "FSWrite_Execute h root w params = (w', res)"
  shows "wf_fs (hw_fs w') \<and> hw_ext w' = hw_ext w \<and>
    (\<forall>p. \<not> prefix root p \<longrightarrow> fs_at (hw_fs w') p = fs_at (hw_fs w) p) \<and>
    (\<forall>p t. fs_at (hw_fs w) p = Some (FLink t) \<longrightarrow> fs_at (hw_fs w') p = Some (FLink t)) \<and>
    (\<forall>e r c. res = Inl e \<and> (fs_at (hw_fs w') r = Some (FFile c)) \<noteq> (fs_at (hw_fs w) r = Some (FFile c)) \<longrightarrow>
      (\<exists>p n old new. dec_fs_write params = Inr p \<and> Resolve (hw_fs w) root (fwp_Path p) = Inr r \<and> new_content p old = Inr new \<and>
        oe_write_err (ho_os h) r \<noteq> None \<and> oe_partial (ho_os h) r = Some n \<and> fs_at (hw_fs w') r = Some (FFile (take n new))))"
  using assms(1,2,4)
proof (cases rule: FSWrite_cases)
  case (unchanged e)
  with assms(1) show ?thesis by simp
next
  case (stopped p q e)
  note q = Resolve_confined [OF assms(1,2) stopped(2)]
  have "prefix (butlast q) q" by (simp add: prefixeq_butlast)
  from adds_dirs_outside [OF assms(1,3) stopped(5) _ this] q stopped(4,6)
  have "wf_fs (hw_fs w')" "hw_ext w' = hw_ext w" "\<forall>p. \<not> prefix root p \<longrightarrow> fs_at (hw_fs w') p = fs_at (hw_fs w) p" by auto
  moreover have "fs_at (hw_fs w') p = fs_at (hw_fs w) p \<or> (fs_at (hw_fs w) p = None \<and> fs_at (hw_fs w') p = Some FDir)" for p
    using stopped(5) by (auto simp: adds_dirs_def)
  ultimately show ?thesis by (metis fnode.distinct(1) option.discI option.inject)
next
  case (written p q old fs1 new x)
  note q = Resolve_confined [OF assms(1,2) written(2)]
  have "prefix (butlast q) q" by (simp add: prefixeq_butlast)
  from adds_dirs_outside [OF assms(1,3) written(5) _ this] q
  have out: "fs_at fs1 p = fs_at (hw_fs w) p" if "\<not> prefix root p" for p using that by blast
  have links: "fs_at fs1 p = Some (FLink t)" if "fs_at (hw_fs w) p = Some (FLink t)" for p t
    using written(5) that unfolding adds_dirs_def by (metis option.distinct(1))
  have "fs_at (hw_fs w') p = (if p = q then Some (FFile new) else fs_at fs1 p)" for p
    using written(9,10) by (simp add: fs_at_put)
  moreover have "fs_at (hw_fs w) q \<noteq> Some (FLink t)" for t using q nolinkD [of "hw_fs w" q "[]" t] by simp
  ultimately show ?thesis using written(3,6,11) out links q by auto
next
  case (broken p q old fs1 new n e)
  note q = Resolve_confined [OF assms(1,2) broken(2)]
  have "prefix (butlast q) q" by (simp add: prefixeq_butlast)
  from adds_dirs_outside [OF assms(1,3) broken(5) _ this] q
  have out: "fs_at fs1 p = fs_at (hw_fs w) p" if "\<not> prefix root p" for p using that by blast
  have fs1: "fs_at fs1 p = fs_at (hw_fs w) p \<or> (fs_at (hw_fs w) p = None \<and> fs_at fs1 p = Some FDir)" for p
    using broken(5) by (auto simp: adds_dirs_def)
  have links: "fs_at fs1 p = Some (FLink t)" if "fs_at (hw_fs w) p = Some (FLink t)" for p t
    using fs1 [of p] that by simp
  have files: "(fs_at fs1 p = Some (FFile c)) = (fs_at (hw_fs w) p = Some (FFile c))" for p c
    using fs1 [of p] by auto
  have put: "fs_at (hw_fs w') p = (if p = q then Some (FFile (take n new)) else fs_at fs1 p)" for p
    using broken(11,12) by (simp add: fs_at_put)
  moreover have "fs_at (hw_fs w) q \<noteq> Some (FLink t)" for t using q nolinkD [of "hw_fs w" q "[]" t] by simp
  ultimately have "\<forall>p t. fs_at (hw_fs w) p = Some (FLink t) \<longrightarrow> fs_at (hw_fs w') p = Some (FLink t)"
    and "\<forall>p. \<not> prefix root p \<longrightarrow> fs_at (hw_fs w') p = fs_at (hw_fs w) p"
    using links out q by auto
  moreover have "\<forall>r c. (fs_at (hw_fs w') r = Some (FFile c)) \<noteq> (fs_at (hw_fs w) r = Some (FFile c)) \<longrightarrow> r = q"
    using put files by auto
  moreover have "fs_at (hw_fs w') q = Some (FFile (take n new))" by (simp add: put)
  ultimately show ?thesis using broken(1,2,6,7,9,10,13) by blast
qed

text \<open>
  C37. Reads stay in the workspace. A successful \<open>fs.read\<close> returns text of one regular file that lies
  under the workspace root with no symbolic link on its path, and the number of its lines; without a line
  range it is the whole content. The call changes nothing.
\<close>

theorem fs_read_confined:
  assumes "wf_fs (hw_fs w)" and "path_ok root" and "FSRead_Execute h root w params = (w', Inr x)"
  shows "w' = w \<and> (\<exists>p q c shown. dec_fs_read params = Inr p \<and> prefix root q \<and> nolink (hw_fs w) q \<and>
    fs_at (hw_fs w) q = Some (FFile c) \<and>
    pr_Data x = JObj [(''content'', JStr shown), (''total_lines'', JNum (int (length (if c = [] then [] else split_on newline c)))),
                      (''encoding'', JStr ''utf-8'')] \<and>
    (if frp_StartLine p > 0 \<or> frp_EndLine p > 0
     then line_range (if c = [] then [] else split_on newline c) (frp_StartLine p) (frp_EndLine p) = Inr shown else shown = c))"
proof -
  from assms(3) obtain p where p: "dec_fs_read params = Inr p" by (auto simp: FSRead_Execute_def split: sum.splits)
  with assms(3) obtain q where q: "Resolve (hw_fs w) root (frp_Path p) = Inr q" by (auto simp: FSRead_Execute_def split: sum.splits)
  with p assms(3) obtain c where c: "os_ReadFile (ho_os h) (hw_fs w) q = Inr c"
    by (auto simp: FSRead_Execute_def split: sum.splits os_error.splits)
  note conf = Resolve_confined [OF assms(1,2) q]
  with ReadFile_confined [OF _ _ c] have "fs_at (hw_fs w) q = Some (FFile c)" by blast
  moreover let ?lines = "if c = [] then [] else split_on newline c"
  let ?shown = "if frp_StartLine p > 0 \<or> frp_EndLine p > 0 then line_range ?lines (frp_StartLine p) (frp_EndLine p) else Inr c"
  obtain shown where "?shown = Inr shown" "x = ok_result (JObj [(''content'', JStr shown),
      (''total_lines'', JNum (int (length ?lines))), (''encoding'', JStr ''utf-8'')])" "w' = w"
    using p q c assms(3) by (cases ?shown) (simp_all add: FSRead_Execute_def Let_def)
  ultimately show ?thesis using conf p
    by (intro conjI exI [of _ p] exI [of _ q] exI [of _ c] exI [of _ shown]) (auto simp: ok_result_def split: if_splits)
qed

lemma written_extends:
  assumes "adds_dirs fs p fs1" and "q \<noteq> []" and "fs_at fs1 q = None \<or> (\<exists>s. fs_at fs1 q = Some (FFile s))"
  shows "fs_extends fs (fs_put q (FFile c) fs1)"
  unfolding fs_extends_def
proof
  fix r
  show "case fs_at fs r of None \<Rightarrow> True | Some (FFile _) \<Rightarrow> \<exists>c'. fs_at (fs_put q (FFile c) fs1) r = Some (FFile c')
     | Some nd \<Rightarrow> fs_at (fs_put q (FFile c) fs1) r = Some nd"
    using assms(1) [unfolded adds_dirs_def, rule_format, of r] assms(2,3)
    by (auto simp: fs_at_put split: option.splits fnode.splits)
qed

text \<open>
  C38. Write, then read. After a successful overwriting \<open>fs.write\<close>, whatever links and directories lay on
  the way and were created, an \<open>fs.read\<close> of the same path text (without a line range, on a device that
  can be read) returns exactly the content written.
\<close>

theorem fs_write_read:
  assumes "wf_fs (hw_fs w)" and "path_ok root" and "FSWrite_Execute h root w params = (w', Inr x)"
    and "dec_fs_write params = Inr p" and "fwp_Mode p \<noteq> ''search_replace''" and "\<And>q. oe_read_err (ho_os h) q = None"
    and "dec_fs_read rparams = Inr \<lparr>frp_Path = fwp_Path p, frp_StartLine = 0, frp_EndLine = 0\<rparr>"
  shows "\<exists>y n. FSRead_Execute h root w' rparams = (w', Inr y) \<and>
    pr_Data y = JObj [(''content'', JStr (fwp_Content p)), (''total_lines'', JNum n), (''encoding'', JStr ''utf-8'')]"
  using assms(1-3)
proof (cases rule: FSWrite_cases)
  case (written p' q old fs1 new x')
  then have p: "p' = p" using assms(4) by simp
  have new: "new = fwp_Content p" using written(7) assms(5) p by (simp add: new_content_def)
  note conf = Resolve_confined [OF assms(1,2) written(2)]
  have at: "fs_at (hw_fs w') r = (if r = q then Some (FFile new) else fs_at fs1 r)" for r
    using written(9,10) by (simp add: fs_at_put)
  have nl: "nolink (hw_fs w') q"
    using adds_dirs_nolink [OF written(5)] conf at unfolding nolink_def by (metis fnode.distinct(3) option.inject)
  have "Resolve (hw_fs w') root (fwp_Path p) = Inr q"
    using Resolve_again [OF assms(1,2) written(2) _ written(11) nl] written_extends [OF written(5,10,12)] written(9) at p by simp
  moreover have "os_ReadFile (ho_os h) (hw_fs w') q = Inr new"
    using kresolve_plain [OF written(11) nl _ , of "FFile new" True kernel_links] conf at assms(6) by (simp add: os_ReadFile_def)
  ultimately show ?thesis using assms(7) new by (simp add: FSRead_Execute_def Let_def ok_result_def)
qed simp_all

section \<open>Search and replace\<close>

lemma contains_str_Cons: "contains_str (c # s) sub \<longleftrightarrow> has_prefix (c # s) sub \<or> contains_str s sub"
  by (simp add: contains_str.simps [of "c # s"])

lemma contains_str_Nil: "sub \<noteq> [] \<Longrightarrow> \<not> contains_str [] sub"
  by (simp add: contains_str.simps has_prefix_def)

lemma has_prefix_iff: "has_prefix s p \<longleftrightarrow> (\<exists>v. s = p @ v)"
  by (metis append_eq_conv_conj append_take_drop_id has_prefix_def)

text \<open>The first occurrence is the one replaced.\<close>

lemma replace_first_leftmost:
  assumes "contains_str s sub"
  shows "\<exists>u v. s = u @ sub @ v \<and> replace_first s sub new = u @ new @ v \<and> (\<forall>u' v'. s = u' @ sub @ v' \<longrightarrow> length u \<le> length u')"
  using assms
proof (induction s)
  case Nil
  then have "sub = []" using contains_str_Nil by blast
  then show ?case by (auto simp: replace_first.simps has_prefix_def intro!: exI [of _ "[]"])
next
  case (Cons c s)
  show ?case
  proof (cases "has_prefix (c # s) sub")
    case True
    then obtain v where v: "c # s = sub @ v" by (auto simp: has_prefix_iff)
    have "replace_first (c # s) sub new = new @ v" unfolding v by (simp add: replace_first.simps [of "sub @ v"])
    with v show ?thesis by (metis append_Nil le0 list.size(3))
  next
    case False
    with Cons.prems have "contains_str s sub" by (simp add: contains_str_Cons)
    from Cons.IH [OF this] obtain u v where uv: "s = u @ sub @ v" "replace_first s sub new = u @ new @ v"
      "\<forall>u' v'. s = u' @ sub @ v' \<longrightarrow> length u \<le> length u'" by blast
    have "length (c # u) \<le> length u'" if eq: "c # s = u' @ sub @ v'" for u' v'
    proof (cases u')
      case Nil
      with eq False show ?thesis by (simp add: has_prefix_iff)
    next
      case (Cons d t)
      with eq uv(3) show ?thesis by simp
    qed
    moreover have "replace_first (c # s) sub new = (c # u) @ new @ v"
      using uv(2) False by (simp add: replace_first.simps [of "c # s"])
    moreover have "c # s = (c # u) @ sub @ v" using uv(1) by simp
    ultimately show ?thesis by blast
  qed
qed

lemma count_str_zero: "sub \<noteq> [] \<Longrightarrow> count_str s sub = 0 \<longleftrightarrow> \<not> contains_str s sub"
proof (induction s sub rule: count_str.induct)
  case (1 s sub)
  show ?case
  proof (cases s)
    case Nil
    with 1(3) show ?thesis by (simp add: count_str.simps [of "[]"] contains_str_Nil)
  next
    case (Cons c t)
    with 1 show ?thesis by (cases "has_prefix s sub") (simp_all add: count_str.simps [of "c # t"] contains_str_Cons)
  qed
qed

lemma count_str_leftmost:
  assumes "sub \<noteq> []" and "\<forall>u' v'. u @ sub @ v = u' @ sub @ v' \<longrightarrow> length u \<le> length u'"
  shows "count_str (u @ sub @ v) sub = Suc (count_str v sub)"
  using assms(2)
proof (induction u)
  case Nil
  with assms(1) show ?case by (simp add: count_str.simps [of "sub @ v"])
next
  case (Cons c u)
  have "\<not> has_prefix (c # u @ sub @ v) sub"
  proof
    assume "has_prefix (c # u @ sub @ v) sub"
    then obtain v' where "(c # u) @ sub @ v = [] @ sub @ v'" by (auto simp: has_prefix_iff)
    with Cons.prems have "length (c # u) \<le> length ([] :: string)" by blast
    then show False by simp
  qed
  moreover have "\<forall>u' v'. u @ sub @ v = u' @ sub @ v' \<longrightarrow> length u \<le> length u'"
  proof (intro allI impI)
    fix u' v'
    assume "u @ sub @ v = u' @ sub @ v'"
    then have "(c # u) @ sub @ v = (c # u') @ sub @ v'" by simp
    with Cons.prems have "length (c # u) \<le> length (c # u')" by blast
    then show "length u \<le> length u'" by simp
  qed
  ultimately show ?case using Cons.IH assms(1) by (simp add: count_str.simps [of "c # u @ sub @ v"])
qed

text \<open>
  Search and replace. When a \<open>search_replace\<close> edit is accepted, the new content is the old one with the
  first occurrence of the search text replaced, and every other occurrence overlaps that one. (An
  overlapping second occurrence is not refused: the count leaves overlaps out.)
\<close>

theorem search_replace_unique:
  assumes "fwp_Mode p = ''search_replace''" and "new_content p old = Inr new"
  shows "\<exists>u v. old = u @ fwp_Search p @ v \<and> new = u @ fwp_Replace p @ v \<and>
    (\<forall>u' v'. old = u' @ fwp_Search p @ v' \<longrightarrow> length u \<le> length u' \<and> length u' < length u + length (fwp_Search p))"
proof -
  let ?s = "fwp_Search p"
  from assms have s: "?s \<noteq> []" "contains_str old ?s" "count_str old ?s \<le> 1" "new = replace_first old ?s (fwp_Replace p)"
    by (auto simp: new_content_def split: if_splits)
  from replace_first_leftmost [OF s(2)] obtain u v where uv: "old = u @ ?s @ v" "new = u @ fwp_Replace p @ v"
    "\<forall>u' v'. old = u' @ ?s @ v' \<longrightarrow> length u \<le> length u'" using s(4) by blast
  have "count_str old ?s = Suc (count_str v ?s)"
    unfolding uv(1) using count_str_leftmost [OF s(1), of u v] uv(1,3) by simp
  with s(1,3) have v: "\<not> contains_str v ?s" by (simp add: count_str_zero [symmetric])
  have "length u' < length u + length ?s" if eq: "old = u' @ ?s @ v'" for u' v'
  proof (rule ccontr)
    assume "\<not> ?thesis"
    then have "length (u @ ?s) \<le> length u'" by simp
    moreover have "(u @ ?s) @ v = u' @ (?s @ v')" using eq uv(1) by simp
    then have "drop (length (u @ ?s)) ((u @ ?s) @ v) = drop (length (u @ ?s)) (u' @ ?s @ v')" by (rule arg_cong)
    ultimately have "v = drop (length (u @ ?s)) u' @ ?s @ v'" by simp
    with v contains_str_iff show False by blast
  qed
  with uv show ?thesis by blast
qed

section \<open>Listing\<close>

lemma distinct_dir_names: "distinct (dir_names fs p)"
  by (simp add: dir_names_def)

lemma distinct_concat_map:
  "distinct xs \<Longrightarrow> (\<And>x. x \<in> set xs \<Longrightarrow> distinct (f x)) \<Longrightarrow> (\<And>x y. x \<noteq> y \<Longrightarrow> x \<in> set xs \<Longrightarrow> y \<in> set xs \<Longrightarrow> set (f x) \<inter> set (f y) = {}) \<Longrightarrow>
   distinct (concat (map f xs))"
proof (induction xs)
  case Nil
  then show ?case by simp
next
  case (Cons x xs)
  have "set (f x) \<inter> set (f y) = {}" if "y \<in> set xs" for y using Cons.prems(1) that by (intro Cons.prems(3)) auto
  then have "set (f x) \<inter> set (concat (map f xs)) = {}" by auto
  moreover have "distinct (concat (map f xs))" using Cons.prems by (intro Cons.IH) auto
  ultimately show ?case using Cons.prems(2) [of x] by simp
qed

lemma wf_below_prefix: "wf_fs fs \<Longrightarrow> fs_at fs p = None \<Longrightarrow> prefix p q \<Longrightarrow> fs_at fs q = None"
  by (elim prefixE) (simp add: wf_below_None)

lemma below_dir:
  assumes "wf_fs fs"
  shows "{(q, nd). prefix p q \<and> fs_at fs q = Some nd} =
    (case fs_at fs p of None \<Rightarrow> {} | Some nd \<Rightarrow> {(p, nd)}) \<union> (\<Union>c. {(q, nd). prefix (p @ [c]) q \<and> fs_at fs q = Some nd})"
    (is "?L = ?R")
proof (intro equalityI subsetI)
  fix x
  assume "x \<in> ?L"
  then obtain z nd where x: "x = (p @ z, nd)" "fs_at fs (p @ z) = Some nd" by (auto simp: prefix_def)
  then show "x \<in> ?R" by (cases z) (auto simp: prefix_def)
next
  fix x
  assume "x \<in> ?R"
  then show "x \<in> ?L" by (auto simp: prefix_def split: option.splits)
qed

lemma fs_walk_sound:
  "wf_fs fs \<Longrightarrow> (\<And>q. oe_read_err e q = None) \<Longrightarrow>
   set (fs_walk e fs p) = {(q, nd). prefix p q \<and> fs_at fs q = Some nd} \<and> distinct (fs_walk e fs p)"
proof (induction e fs p rule: fs_walk.induct)
  case (1 e fs p)
  let ?B = "\<lambda>p. {(q, nd). prefix p q \<and> fs_at fs q = Some nd}"
  have leaf: "?B p = (case fs_at fs p of None \<Rightarrow> {} | Some nd \<Rightarrow> {(p, nd)})" if "fs_at fs p \<noteq> Some FDir"
  proof -
    have "fs_at fs q = None" if q: "prefix (p @ [c]) q" for c q
    proof -
      have "fs_at fs (p @ [c]) = None" using \<open>fs_at fs p \<noteq> Some FDir\<close> 1(2) unfolding wf_fs_def by blast
      then show ?thesis using q by (rule wf_below_prefix [OF 1(2)])
    qed
    then show ?thesis unfolding below_dir [OF 1(2), of p] by auto
  qed
  show ?case
  proof (cases "fs_at fs p = Some FDir")
    case False
    with leaf show ?thesis by (auto simp: fs_walk.simps [of e fs p] split: option.splits fnode.splits)
  next
    case True
    have IH: "set (fs_walk e fs (p @ [c])) = ?B (p @ [c])" "distinct (fs_walk e fs (p @ [c]))" if "c \<in> set (dir_names fs p)" for c
      using 1(1) [OF True refl _ that] 1(2,3) by auto
    have walk: "fs_walk e fs p = (p, FDir) # concat (map (\<lambda>c. fs_walk e fs (p @ [c])) (dir_names fs p))"
      using True 1(3) by (simp add: fs_walk.simps [of e fs p])
    have none: "?B (p @ [c]) = {}" if "c \<notin> set (dir_names fs p)" for c
      using that wf_below_prefix [OF 1(2), of "p @ [c]"] by (auto simp: set_dir_names)
    have "(\<Union>c. ?B (p @ [c])) = (\<Union>c \<in> set (dir_names fs p). ?B (p @ [c]))"
    proof (intro equalityI UN_least)
      fix c
      show "?B (p @ [c]) \<subseteq> (\<Union>c \<in> set (dir_names fs p). ?B (p @ [c]))"
        using none [of c] by (cases "c \<in> set (dir_names fs p)") (simp only: empty_subsetI, blast | blast)+
    next
      fix c
      show "?B (p @ [c]) \<subseteq> (\<Union>c. ?B (p @ [c]))" by blast
    qed
    moreover have "set (fs_walk e fs p) = {(p, FDir)} \<union> (\<Union>c \<in> set (dir_names fs p). ?B (p @ [c]))"
      unfolding walk using IH(1) by simp
    ultimately have "set (fs_walk e fs p) = ?B p"
      unfolding below_dir [OF 1(2), of p] using True by simp
    moreover have "distinct (fs_walk e fs p)"
    proof -
      have "(p, FDir) \<notin> ?B (p @ [c])" for c by (auto simp: prefix_def)
      moreover have "?B (p @ [c]) \<inter> ?B (p @ [d]) = {}" if "c \<noteq> d" for c d using that by (auto simp: prefix_def)
      ultimately have "(p, FDir) \<notin> set (concat (map (\<lambda>c. fs_walk e fs (p @ [c])) (dir_names fs p)))"
        "distinct (concat (map (\<lambda>c. fs_walk e fs (p @ [c])) (dir_names fs p)))"
        using IH distinct_dir_names [of fs p] by (simp, intro distinct_concat_map) simp_all
      then show ?thesis unfolding walk by simp
    qed
    ultimately show ?thesis by blast
  qed
qed

text \<open>
  Listings are complete. A recursive \<open>fs.list\<close> on a readable device reports every file, directory and
  link at and below the resolved path whose name matches the pattern, each exactly once, and nothing
  else; links are reported and not followed.
\<close>

theorem fs_list_complete:
  assumes "wf_fs (hw_fs w)" and "path_ok root" and "\<And>q. fs_at (hw_fs w) q \<noteq> None \<Longrightarrow> path_ok q" and "\<And>q. oe_read_err (ho_os h) q = None"
    and "dec_fs_list params = Inr \<lparr>flp_Path = path, flp_Recursive = True, flp_Pattern = pat\<rparr>" and "Resolve (hw_fs w) root path = Inr q"
  shows "\<exists>xs. FSList_Execute h root w params =
      (w, Inr (ok_result (JObj [(''entries'', slice_json (map (list_entry h root) xs))]))) \<and> distinct xs \<and>
    set xs = {(r, nd). prefix q r \<and> fs_at (hw_fs w) r = Some nd \<and> (pat = [] \<or> go_match pat (base_name r))}"
proof -
  let ?xs = "filter (listed root pat) (fs_walk (ho_os h) (hw_fs w) q)"
  note W = fs_walk_sound [OF assms(1), of "ho_os h" q, OF assms(4)]
  have q: "prefix root q" using Resolve_confined [OF assms(1,2,6)] by blast
  have "IsWithinRoot root r" if "prefix q r" "fs_at (hw_fs w) r = Some nd" for r nd
    using that assms(3) [of r] q IsWithinRoot_prefix [of r root] by (simp add: prefix_order.trans [OF q])
  then have "set ?xs = {(r, nd). prefix q r \<and> fs_at (hw_fs w) r = Some nd \<and> (pat = [] \<or> go_match pat (base_name r))}"
    using W by (auto simp: listed_def)
  moreover have "distinct ?xs" using W by simp
  moreover have "FSList_Execute h root w params = (w, Inr (ok_result (JObj [(''entries'', slice_json (map (list_entry h root) ?xs))])))"
    using assms(5,6) by (simp add: FSList_Execute_def)
  ultimately show ?thesis by blast
qed

section \<open>Examples\<close>

lemma wf_fs_code: "list_all (\<lambda>x. fst x = [] \<or> fs_at fs (butlast (fst x)) = Some FDir) fs \<Longrightarrow> wf_fs fs"
  unfolding wf_fs_def
proof (intro allI impI)
  fix p c
  assume l: "list_all (\<lambda>x. fst x = [] \<or> fs_at fs (butlast (fst x)) = Some FDir) fs" and "fs_at fs (p @ [c]) \<noteq> None"
  then have "p @ [c] \<in> fst ` set fs" by (simp add: fs_at_def map_of_eq_None_iff)
  with l show "fs_at fs p = Some FDir" by (force simp: list_all_iff)
qed

definition demo_fs :: fsys where
  "demo_fs = [([''w''], FDir), ([''w'', ''out''], FLink ''/etc''), ([''etc''], FDir), ([''etc'', ''p''], FFile ''secret''),
     ([''w'', ''in''], FLink ''sub''), ([''w'', ''sub''], FDir), ([''w'', ''sub'', ''a''], FFile ''x = 1; y = 1'')]"

definition demo_host :: "unit host" where
  "demo_host = \<lparr>ho_os = \<lparr>oe_cwd = [], oe_read_err = (\<lambda>_. None), oe_write_err = (\<lambda>_. None), oe_partial = (\<lambda>_. None)\<rparr>, ho_dir_size = (\<lambda>_. 4096), ho_sink = None,
     ho_astdiff = (\<lambda>_ _. Inr []), ho_exec = (\<lambda>w _ _ _. (w, \<lparr>pc_err = None, pc_out = [], pc_errout = []\<rparr>))\<rparr>"

definition demo_host_world :: "unit host_world" where
  "demo_host_world = \<lparr>hw_fs = demo_fs, hw_intent = None, hw_ext = ()\<rparr>"

definition demo_write :: "string \<Rightarrow> string \<Rightarrow> raw" where
  "demo_write path content = Raw (JObj [(''path'', JStr path), (''content'', JStr content), (''create_dirs'', JBool True)])"

lemma demo_host_wf: "wf_fs (hw_fs demo_host_world)" "path_ok [''w'']" "fs_at (hw_fs demo_host_world) [''w''] = Some FDir"
proof -
  have "list_all (\<lambda>x. fst x = [] \<or> fs_at demo_fs (butlast (fst x)) = Some FDir) demo_fs" by code_simp
  then show "wf_fs (hw_fs demo_host_world)" unfolding demo_host_world_def by (simp add: wf_fs_code)
qed (code_simp, code_simp)

theorem fs_write_confined_witness:
  "let w' = fst (FSWrite_Execute demo_host [''w''] demo_host_world (demo_write ''in/d/x'' ''hi''))
   in fs_at (hw_fs w') [''etc'', ''p''] = Some (FFile ''secret'') \<and> fs_at (hw_fs w') [''w'', ''out''] = Some (FLink ''/etc'') \<and>
      (\<exists>e. snd (FSWrite_Execute demo_host [''w''] demo_host_world (demo_write ''out/x'' ''hi'')) = Inl e)"
proof -
  obtain w' res where r: "FSWrite_Execute demo_host [''w''] demo_host_world (demo_write ''in/d/x'' ''hi'') = (w', res)" by fastforce
  note C = fs_write_confined [OF demo_host_wf r]
  have "fs_at (hw_fs demo_host_world) [''etc'', ''p''] = Some (FFile ''secret'')"
    "fs_at (hw_fs demo_host_world) [''w'', ''out''] = Some (FLink ''/etc'')" by code_simp+
  moreover have "case snd (FSWrite_Execute demo_host [''w''] demo_host_world (demo_write ''out/x'' ''hi'')) of Inl _ \<Rightarrow> True | Inr _ \<Rightarrow> False"
    by code_simp
  ultimately show ?thesis using C r by (auto split: sum.splits)
qed

theorem fs_read_confined_witness:
  "\<exists>q c x. prefix [''w''] q \<and> fs_at demo_fs q = Some (FFile c) \<and>
     snd (FSRead_Execute demo_host [''w''] demo_host_world (Raw (JObj [(''path'', JStr ''in/a'')]))) = Inr x"
proof -
  let ?p = "Raw (JObj [(''path'', JStr ''in/a'')])"
  have "case snd (FSRead_Execute demo_host [''w''] demo_host_world ?p) of Inl _ \<Rightarrow> False | Inr _ \<Rightarrow> True" by code_simp
  then obtain w' x where r: "FSRead_Execute demo_host [''w''] demo_host_world ?p = (w', Inr x)"
    by (cases "FSRead_Execute demo_host [''w''] demo_host_world ?p") (auto split: sum.splits)
  from fs_read_confined [OF demo_host_wf(1,2) r] r show ?thesis by (auto simp: demo_host_world_def)
qed

theorem fs_write_read_witness:
  "\<exists>y n. snd (FSRead_Execute demo_host [''w''] (fst (FSWrite_Execute demo_host [''w''] demo_host_world (demo_write ''in/d/x'' ''hi'')))
      (Raw (JObj [(''path'', JStr ''in/d/x'')]))) = Inr y \<and>
     pr_Data y = JObj [(''content'', JStr ''hi''), (''total_lines'', JNum n), (''encoding'', JStr ''utf-8'')]"
proof -
  have "case snd (FSWrite_Execute demo_host [''w''] demo_host_world (demo_write ''in/d/x'' ''hi'')) of Inl _ \<Rightarrow> False | Inr _ \<Rightarrow> True"
    by code_simp
  then obtain w' x where r: "FSWrite_Execute demo_host [''w''] demo_host_world (demo_write ''in/d/x'' ''hi'') = (w', Inr x)"
    by (cases "FSWrite_Execute demo_host [''w''] demo_host_world (demo_write ''in/d/x'' ''hi'')") (auto split: sum.splits)
  have d: "dec_fs_write (demo_write ''in/d/x'' ''hi'') = Inr \<lparr>fwp_Path = ''in/d/x'', fwp_Content = ''hi'', fwp_Mode = [], fwp_Search = [],
      fwp_Replace = [], fwp_CreateDirs = True\<rparr>" by code_simp
  have e: "dec_fs_read (Raw (JObj [(''path'', JStr ''in/d/x'')])) = Inr \<lparr>frp_Path = ''in/d/x'', frp_StartLine = 0, frp_EndLine = 0\<rparr>"
    by code_simp
  have n: "oe_read_err (ho_os demo_host) q = None" for q by (simp add: demo_host_def)
  from fs_write_read [OF demo_host_wf(1,2) r d _ n, of "Raw (JObj [(''path'', JStr ''in/d/x'')])"] e r show ?thesis by auto
qed

theorem search_replace_unique_witness:
  "\<exists>u v. ''x = 1; y = 1'' = u @ ''x = 1'' @ v \<and> ''z; y = 1'' = u @ ''z'' @ v"
proof -
  let ?p = "\<lparr>fwp_Path = ''a'', fwp_Content = [], fwp_Mode = ''search_replace'', fwp_Search = ''x = 1'', fwp_Replace = ''z'', fwp_CreateDirs = False\<rparr>"
  have "new_content ?p ''x = 1; y = 1'' = Inr ''z; y = 1''" by code_simp
  from search_replace_unique [OF _ this] show ?thesis by auto
qed

theorem fs_list_complete_witness:
  "\<exists>xs. snd (FSList_Execute demo_host [''w''] demo_host_world (Raw (JObj [(''path'', JStr ''in''), (''recursive'', JBool True), (''pattern'', JStr ''[a-c]*'')]))) =
     Inr (ok_result (JObj [(''entries'', slice_json (map (list_entry demo_host [''w'']) xs))])) \<and>
     ([''w'', ''sub'', ''a''], FFile ''x = 1; y = 1'') \<in> set xs"
proof -
  let ?p = "Raw (JObj [(''path'', JStr ''in''), (''recursive'', JBool True), (''pattern'', JStr ''[a-c]*'')])"
  have n: "oe_read_err (ho_os demo_host) q = None" for q by (simp add: demo_host_def)
  have d: "dec_fs_list ?p = Inr \<lparr>flp_Path = ''in'', flp_Recursive = True, flp_Pattern = ''[a-c]*''\<rparr>" by code_simp
  have r: "Resolve (hw_fs demo_host_world) [''w''] ''in'' = Inr [''w'', ''sub'']" by code_simp
  have "list_all path_ok (map fst demo_fs)" by code_simp
  then have "\<forall>q \<in> set (map fst demo_fs). path_ok q" by (simp only: list_all_iff)
  then have ok: "fs_at (hw_fs demo_host_world) q \<noteq> None \<Longrightarrow> path_ok q" for q
    by (cases "q = []") (auto simp: demo_host_world_def fs_at_def map_of_eq_None_iff)
  have "fs_at (hw_fs demo_host_world) [''w'', ''sub'', ''a''] = Some (FFile ''x = 1; y = 1'')" "go_match ''[a-c]*'' ''a''" by code_simp+
  with fs_list_complete [OF demo_host_wf(1,2) ok n d r] show ?thesis by (auto simp: base_name_def)
qed

end
