(* ===== verification/HostPrims.thy ===== *)
theory HostPrims
  imports FsPrims
begin

text \<open>
  The primitives that run programs: \<open>shell.exec\<close> (\<open>shell.go\<close>), \<open>verify.test\<close>, \<open>test.run\<close> and \<open>verify.command\<close>
  (\<open>verify.go\<close>, \<open>verify_command.go\<close>), the git checkpoints \<open>state.checkpoint\<close>, \<open>state.restore\<close> and
  \<open>state.list\<close> (\<open>state.go\<close>) and the compound \<open>macro.safe_edit\<close> (\<open>macro.go\<close>), all of \<open>internal/primitive\<close>. The
  shell and git are parameters acting on the host. \<open>None\<close> is the panic of an index out of range. The
  lines of the two output streams of a shell command are reported stdout first; in the code the two
  streams interleave.
\<close>

datatype wait_result = WaitOK | WaitTimeout | WaitExit int | WaitErr go_error

record shell_run =
  sh_start_err :: "go_error option"
  sh_out :: string
  sh_err :: string
  sh_wait :: wait_result
  sh_ms :: int

record 'x host_env =
  he_host :: "'x host"
  he_shell :: "'x host_world \<Rightarrow> fpath \<Rightarrow> string \<Rightarrow> int \<Rightarrow> (string \<times> string) list \<Rightarrow> 'x host_world \<times> shell_run"
  he_lookpath :: "string \<Rightarrow> bool"
  he_now_ms :: "'x host_world \<Rightarrow> int"
  he_rfc3339 :: "'x host_world \<Rightarrow> string"

record prim_options =
  op_AllowedCommands :: "string list"
  op_DefaultTimeout :: int

type_synonym 'x outcome = "('x host_world \<times> (go_error + prim_result)) option"

section \<open>shell.exec\<close>

record shell_exec =
  se_dir :: fpath
  se_defaultTimeout :: int
  se_allowedCommands :: "string list"

definition NewShellExec :: "fpath \<Rightarrow> prim_options \<Rightarrow> shell_exec" where
  "NewShellExec root opts =
     \<lparr>se_dir = root, se_defaultTimeout = (if op_DefaultTimeout opts \<le> 0 then 30 else op_DefaultTimeout opts),
      se_allowedCommands = op_AllowedCommands opts\<rparr>"

record shell_params =
  sp_Command :: string
  sp_Timeout :: int
  sp_Env :: "(string \<times> string) list"

text \<open>A \<open>map[string]string\<close> field: a value that is neither a string nor null is an error.\<close>

definition dec_string_map :: "jmap \<Rightarrow> string \<Rightarrow> (string \<times> string) list decoded" where
  "dec_string_map m k =
     dec_bind (case jget m k of None \<Rightarrow> Inr [] | Some j \<Rightarrow> dec_map (Raw j)) (\<lambda>o1.
       if list_all (\<lambda>x. is_string_or_null (snd x)) o1 then Inr (map (\<lambda>x. (fst x, elem_string (snd x))) o1) else Inl json_error)"

definition dec_shell :: "raw \<Rightarrow> shell_params decoded" where
  "dec_shell r =
     dec_bind (dec_map r) (\<lambda>m.
     dec_bind (field_string m ''command'') (\<lambda>c.
     dec_bind (field_int m ''timeout_s'') (\<lambda>t.
     dec_bind (dec_string_map m ''env'') (\<lambda>e. Inr \<lparr>sp_Command = c, sp_Timeout = t, sp_Env = e\<rparr>))))"

definition shell_json :: "string \<Rightarrow> int \<Rightarrow> json" where
  "shell_json command timeout = JObj ((''command'', JStr command) # (if timeout = 0 then [] else [(''timeout_s'', JNum timeout)]))"

text \<open>\<open>strings.Fields\<close>\<close>

fun fields_aux :: "string \<Rightarrow> string \<Rightarrow> string list" where
  "fields_aux acc [] = (if acc = [] then [] else [acc])"
| "fields_aux acc (c # s) =
     (if is_space c then (if acc = [] then fields_aux [] s else acc # fields_aux [] s) else fields_aux (acc @ [c]) s)"

definition go_fields :: "string \<Rightarrow> string list" where
  "go_fields s = fields_aux [] s"

text \<open>\<open>bufio.ScanLines\<close>: the lines without their line ends; the text after the last one counts when non-empty.\<close>

definition drop_cr :: "string \<Rightarrow> string" where
  "drop_cr l = (if l \<noteq> [] \<and> last l = CHR 0x0D then butlast l else l)"

definition scan_lines :: "string \<Rightarrow> string list" where
  "scan_lines s =
     (let ls = split_on newline s in map drop_cr (if last ls = [] then butlast ls else ls))"

definition max_line :: int where
  "max_line = 1024 * 1024"

text \<open>The lines before the first that is too long, and whether there is one.\<close>

definition scanned :: "string \<Rightarrow> string list \<times> bool" where
  "scanned s =
     (let ls = split_on newline s; good = takeWhile (\<lambda>l. int (length l) < max_line) ls
      in if length good < length ls then (map drop_cr good, True) else (scan_lines s, False))"

definition append_line :: "string \<Rightarrow> string \<Rightarrow> string" where
  "append_line l dest = (if dest = [] then l else dest @ newline # l)"

definition streamPipe :: "'x host \<Rightarrow> string \<Rightarrow> string \<Rightarrow> 'x host_world \<Rightarrow> 'x host_world \<times> string \<times> bool" where
  "streamPipe h stream text w =
     (let (ls, bad) = scanned text;
          w' = fold (\<lambda>l w. host_emit h w (zero_event\<lparr>ev_Type := ''shell.output'', ev_Source := ''primitive'', ev_Method := ''shell.exec'',
                 ev_Stream := stream, ev_Message := l, ev_Data := json_encode (JObj [(''chunk'', JStr l)])\<rparr>)) ls w
      in (w', fold append_line ls [], bad))"

definition truncateOutput :: "string \<Rightarrow> int \<Rightarrow> string" where
  "truncateOutput s maxLen =
     (if int (length s) \<le> maxLen then s
      else let half = nat (maxLen div 2)
           in take half s @ newline # ''... [truncated] ...'' @ newline # drop (length s - half) s)"

record shell_exec_result =
  xs_Stdout :: string
  xs_Stderr :: string
  xs_ExitCode :: int
  xs_DurationMs :: int
  xs_TimedOut :: bool

definition shell_result_json :: "shell_exec_result \<Rightarrow> json" where
  "shell_result_json r = JObj [(''stdout'', JStr (xs_Stdout r)), (''stderr'', JStr (xs_Stderr r)), (''exit_code'', JNum (xs_ExitCode r)),
     (''duration_ms'', JNum (xs_DurationMs r)), (''timed_out'', JBool (xs_TimedOut r))]"

definition exec_error :: "go_error \<Rightarrow> go_error" where
  "exec_error e = PrimitiveError ''EXECUTION_ERROR'' (error_text e)"

definition finish_shell :: "'x host \<Rightarrow> 'x host_world \<Rightarrow> string \<Rightarrow> string \<Rightarrow> shell_run \<Rightarrow> 'x host_world \<times> (go_error + prim_result)" where
  "finish_shell h w out err run =
     (let done = (\<lambda>code timedOut.
            let r = \<lparr>xs_Stdout = truncateOutput out 10000, xs_Stderr = truncateOutput err 5000, xs_ExitCode = code,
                     xs_DurationMs = sh_ms run, xs_TimedOut = timedOut\<rparr>
            in (host_emit h w (zero_event\<lparr>ev_Type := ''shell.completed'', ev_Source := ''primitive'', ev_Method := ''shell.exec'',
                  ev_Message := ''exit='' @ itoa code, ev_Data := json_encode (shell_result_json r)\<rparr>),
                Inr (zero_prim_result\<lparr>pr_Data := shell_result_json r, pr_Duration := sh_ms run\<rparr>)))
      in case sh_wait run of
           WaitOK \<Rightarrow> done 0 False
         | WaitTimeout \<Rightarrow> done (-1) True
         | WaitExit c \<Rightarrow> done c False
         | WaitErr e \<Rightarrow> (w, Inl (exec_error e)))"

definition shell_timeout :: "shell_exec \<Rightarrow> int \<Rightarrow> int" where
  "shell_timeout s t = signed_take_bit 63 ((if t > 0 then t else se_defaultTimeout s) * 1000000000)"

definition run_shell :: "'x host_env \<Rightarrow> shell_exec \<Rightarrow> 'x host_world \<Rightarrow> shell_params \<Rightarrow> 'x host_world \<times> (go_error + prim_result)" where
  "run_shell e s w p =
     (let h = he_host e;
          (w1, run) = he_shell e w (se_dir s) (sp_Command p) (shell_timeout s (sp_Timeout p)) (sp_Env p)
      in case sh_start_err run of
           Some er \<Rightarrow> (w1, Inl (exec_error er))
         | None \<Rightarrow>
             (let w2 = host_emit h w1 (zero_event\<lparr>ev_Type := ''shell.started'', ev_Source := ''primitive'', ev_Method := ''shell.exec'',
                         ev_Message := sp_Command p, ev_Data := json_marshal (JObj [(''command'', JStr (sp_Command p))])\<rparr>);
                  (w3, out, bad1) = streamPipe h ''stdout'' (sh_out run) w2;
                  (w4, err, bad2) = streamPipe h ''stderr'' (sh_err run) w3
              in if bad1 \<or> bad2 then (w4, Inl (PrimitiveError ''EXECUTION_ERROR'' ''bufio.Scanner: token too long''))
                 else finish_shell h w4 out err run))"

definition ShellExec_Execute :: "'x host_env \<Rightarrow> shell_exec \<Rightarrow> 'x host_world \<Rightarrow> raw \<Rightarrow> 'x outcome" where
  "ShellExec_Execute e s w params =
     (case dec_shell params of
        Inl er \<Rightarrow> Some (w, Inl (invalid_params er))
      | Inr p \<Rightarrow>
          (if sp_Command p = [] then Some (w, Inl (PrimitiveError ''VALIDATION_ERROR'' ''command is required''))
           else if se_allowedCommands s \<noteq> [] then
             (case go_fields (sp_Command p) of
                [] \<Rightarrow> None
              | baseCmd # _ \<Rightarrow>
                  (if baseCmd \<in> set (se_allowedCommands s) then Some (run_shell e s w p)
                   else Some (w, Inl (PrimitiveError ''PERMISSION_DENIED'' (''command not in whitelist: '' @ baseCmd)))))
           else Some (run_shell e s w p)))"

section \<open>verify.test, test.run and verify.command\<close>

definition dec_shell_result :: "raw \<Rightarrow> shell_exec_result decoded" where
  "dec_shell_result r =
     dec_bind (dec_map r) (\<lambda>m.
     dec_bind (field_string m ''stdout'') (\<lambda>out.
     dec_bind (field_string m ''stderr'') (\<lambda>err.
     dec_bind (field_int m ''exit_code'') (\<lambda>code.
     dec_bind (field_int m ''duration_ms'') (\<lambda>ms.
     dec_bind (case jget m ''timed_out'' of None \<Rightarrow> Inr False | Some j \<Rightarrow> dec_bool (Raw j)) (\<lambda>to.
       Inr \<lparr>xs_Stdout = out, xs_Stderr = err, xs_ExitCode = code, xs_DurationMs = ms, xs_TimedOut = to\<rparr>))))))"

definition zero_shell_result :: shell_exec_result where
  "zero_shell_result = \<lparr>xs_Stdout = [], xs_Stderr = [], xs_ExitCode = 0, xs_DurationMs = 0, xs_TimedOut = False\<rparr>"

definition shell_result_of :: "prim_result \<Rightarrow> shell_exec_result" where
  "shell_result_of x = (case dec_shell_result (json_encode (pr_Data x)) of Inl _ \<Rightarrow> zero_shell_result | Inr r \<Rightarrow> r)"

definition last_n :: "nat \<Rightarrow> 'a list \<Rightarrow> 'a list" where
  "last_n n xs = drop (length xs - n) xs"

definition bullet_lines :: "string list \<Rightarrow> string" where
  "bullet_lines ls = concat (map (\<lambda>l. if trim_space l \<noteq> [] then ''  '' @ l @ [newline] else []) ls)"

definition generateTestSummary :: "string \<Rightarrow> string \<Rightarrow> bool \<Rightarrow> string" where
  "generateTestSummary stdout stderr passed =
     (if passed then map char_of [0xE2, 0x9C, 0x85 :: nat] @ '' All tests passed.'' @ [newline]
      else map char_of [0xE2, 0x9D, 0x8C :: nat] @ '' Tests failed.'' @ [newline]) @
     (let lines = split_on newline stdout
      in if length lines > 5 then ''Last output lines:'' @ newline # bullet_lines (last_n 5 lines) else []) @
     (if stderr \<noteq> [] \<and> \<not> passed
      then (let errLines = split_on newline stderr
            in ''Errors:'' @ newline # bullet_lines (if length errLines > 3 then last_n 3 errLines else errLines))
      else [])"

definition dec_command :: "raw \<Rightarrow> (string \<times> int) decoded" where
  "dec_command r =
     dec_bind (dec_map r) (\<lambda>m.
     dec_bind (field_string m ''command'') (\<lambda>c.
     dec_bind (field_int m ''timeout_s'') (\<lambda>t. Inr (c, t))))"

text \<open>What the verifiers make of the result of the shell.\<close>

definition with_shell ::
  "'x host_env \<Rightarrow> shell_exec \<Rightarrow> 'x host_world \<Rightarrow> string \<Rightarrow> int \<Rightarrow> (shell_exec_result \<Rightarrow> prim_result) \<Rightarrow> 'x outcome" where
  "with_shell e s w command timeout f =
     map_option (\<lambda>x. (fst x, map_sum id (\<lambda>r. f (shell_result_of r)) (snd x)))
       (ShellExec_Execute e s w (json_marshal (shell_json command timeout)))"

record verify_test_result =
  vt_Passed :: bool
  vt_Output :: string
  vt_Summary :: string

definition verify_test_of :: "shell_exec_result \<Rightarrow> verify_test_result" where
  "verify_test_of r =
     (let passed = (xs_ExitCode r = 0)
      in \<lparr>vt_Passed = passed, vt_Output = truncateOutput (xs_Stdout r @ newline # xs_Stderr r) 5000,
          vt_Summary = generateTestSummary (xs_Stdout r) (xs_Stderr r) passed\<rparr>)"

definition verify_test_json :: "verify_test_result \<Rightarrow> json" where
  "verify_test_json v = JObj [(''passed'', JBool (vt_Passed v)), (''total'', JNum 0), (''failures'', JNum 0), (''errors'', JNum 0),
     (''output'', JStr (vt_Output v)), (''summary'', JStr (vt_Summary v))]"

definition VerifyTest_Execute :: "'x host_env \<Rightarrow> shell_exec \<Rightarrow> 'x host_world \<Rightarrow> raw \<Rightarrow> 'x outcome" where
  "VerifyTest_Execute e s w params =
     (case (if params = RawNil then Inr ([], 0) else dec_command params) of
        Inl er \<Rightarrow> Some (w, Inl (invalid_params er))
      | Inr (c, t) \<Rightarrow>
          with_shell e s w (if c = [] then ''pytest'' else c) t
            (\<lambda>r. zero_prim_result\<lparr>pr_Data := verify_test_json (verify_test_of r), pr_Duration := xs_DurationMs r\<rparr>))"

definition VerifyCommand_Execute :: "'x host_env \<Rightarrow> shell_exec \<Rightarrow> 'x host_world \<Rightarrow> raw \<Rightarrow> 'x outcome" where
  "VerifyCommand_Execute e s w params =
     (case dec_command params of
        Inl er \<Rightarrow> Some (w, Inl (invalid_params er))
      | Inr (c, t) \<Rightarrow>
          (if c = [] then Some (w, Inl (PrimitiveError ''VALIDATION_ERROR'' ''command is required''))
           else with_shell e s w c t (\<lambda>r.
             let passed = (xs_ExitCode r = 0 \<and> \<not> xs_TimedOut r)
             in zero_prim_result\<lparr>pr_Data := JObj [(''passed'', JBool passed), (''exit_code'', JNum (xs_ExitCode r)),
                  (''timed_out'', JBool (xs_TimedOut r)), (''stdout'', JStr (xs_Stdout r)), (''stderr'', JStr (xs_Stderr r)),
                  (''summary'', JStr (generateTestSummary (xs_Stdout r) (xs_Stderr r) passed))],
                  pr_Duration := xs_DurationMs r\<rparr>)))"

section \<open>Git\<close>

definition run_git :: "'x host_env \<Rightarrow> fpath \<Rightarrow> 'x host_world \<Rightarrow> string list \<Rightarrow> 'x host_world \<times> proc_result" where
  "run_git e dir w args = ho_exec (he_host e) w dir ''git'' args"

definition gitExec :: "'x host_env \<Rightarrow> fpath \<Rightarrow> 'x host_world \<Rightarrow> string list \<Rightarrow> 'x host_world \<times> go_error option" where
  "gitExec e dir w args =
     (let (w', r) = run_git e dir w args
      in (w', map_option (\<lambda>er. GoErr (''git '' @ join_with '' '' args @ '': '' @ error_text er @ '' (output: '' @ pc_out r @ pc_errout r @ '')''))
                (pc_err r)))"

definition gitOutput :: "'x host_env \<Rightarrow> fpath \<Rightarrow> 'x host_world \<Rightarrow> string list \<Rightarrow> 'x host_world \<times> (go_error + string)" where
  "gitOutput e dir w args =
     (let (w', r) = run_git e dir w args
      in (w', case pc_err r of None \<Rightarrow> Inr (pc_out r) | Some er \<Rightarrow> Inl (GoErr (''git '' @ join_with '' '' args @ '': '' @ error_text er))))"

definition git_lines :: "string \<Rightarrow> string list" where
  "git_lines out = filter (\<lambda>l. l \<noteq> []) (map trim_space (split_on newline (trim_space out)))"

definition gitLines :: "'x host_env \<Rightarrow> fpath \<Rightarrow> 'x host_world \<Rightarrow> string list \<Rightarrow> 'x host_world \<times> string list" where
  "gitLines e dir w args =
     (let (w', r) = gitOutput e dir w args in (w', case r of Inl _ \<Rightarrow> [] | Inr out \<Rightarrow> git_lines out))"

definition cleaned_files :: "string \<Rightarrow> string list" where
  "cleaned_files out = map (\<lambda>l. trim_space (drop (length ''Would remove '') l)) (filter (\<lambda>l. has_prefix l ''Would remove '') (git_lines out))"

definition previewCleanedFiles :: "'x host_env \<Rightarrow> fpath \<Rightarrow> 'x host_world \<Rightarrow> 'x host_world \<times> (go_error + string list)" where
  "previewCleanedFiles e dir w =
     (let (w', r) = gitOutput e dir w [''clean'', ''-ndx''] in (w', map_sum id cleaned_files r))"

definition ensureGitRestoreUnlocked :: "fsys \<Rightarrow> fpath \<Rightarrow> go_error option" where
  "ensureGitRestoreUnlocked fs dir =
     (case filter (\<lambda>n. case os_Stat fs (dir @ [''.git'', n]) of Inr _ \<Rightarrow> True | Inl _ \<Rightarrow> False) [''index.lock'', ''HEAD.lock''] of
        [] \<Rightarrow> None
      | n # _ \<Rightarrow> Some (GoErr (''git repository is busy ('' @ n @ '' exists)'')))"

definition gitignore_text :: string where
  "gitignore_text = concat (map (\<lambda>l. l @ [newline]) [''# Auto-generated by PrimitiveBox'', ''node_modules/'', ''__pycache__/'', ''*.pyc'', ''*.pyo'',
     ''.pytest_cache/'', ''*.o'', ''*.so'', ''*.dylib'', ''.DS_Store'', ''*.class'', ''target/'', ''dist/'', ''build/'', ''.env''])"

definition init_repo :: "'x host_env \<Rightarrow> fpath \<Rightarrow> 'x host_world \<Rightarrow> 'x host_world \<times> go_error option" where
  "init_repo e dir w1 =
     (let (w2, ierr) = gitExec e dir w1 [''init'']
      in case ierr of
           Some er \<Rightarrow> (w2, Some er)
         | None \<Rightarrow>
             (let (fs, werr) = os_WriteFile (ho_os (he_host e)) (hw_fs w2) (dir @ [''.gitignore'']) gitignore_text;
                  w3 = w2\<lparr>hw_fs := fs\<rparr>
              in case werr of
                   Some er \<Rightarrow> (w3, Some (GoWrap ''cannot write .gitignore'' (path_error ''open'' (dir @ [''.gitignore'']) er)))
                 | None \<Rightarrow>
                     (let w4 = fst (gitExec e dir w3 [''config'', ''user.email'', ''primitivebox@local'']);
                          w5 = fst (gitExec e dir w4 [''config'', ''user.name'', ''PrimitiveBox'']);
                          (w6, aerr) = gitExec e dir w5 [''add'', ''-A'']
                      in case aerr of
                           Some er \<Rightarrow> (w6, Some er)
                         | None \<Rightarrow> gitExec e dir w6 [''commit'', ''-m'', ''checkpoint: initial'', ''--allow-empty''])))"

definition ensureGitInit :: "'x host_env \<Rightarrow> fpath \<Rightarrow> 'x host_world \<Rightarrow> 'x host_world \<times> go_error option" where
  "ensureGitInit e dir w =
     (if \<not> he_lookpath e ''git'' then (w, Some (GoErr ''git not found in PATH''))
      else
        (let (w1, r) = run_git e dir w [''rev-parse'', ''--is-inside-work-tree'']
         in if pc_err r = None then (w1, None) else init_repo e dir w1))"

definition appendUnique :: "string list \<Rightarrow> string list \<Rightarrow> string list" where
  "appendUnique dst items = add_unique items dst"

section \<open>state.checkpoint, state.restore and state.list\<close>

definition exec_failed :: "string \<Rightarrow> go_error \<Rightarrow> go_error" where
  "exec_failed what er = PrimitiveError ''EXECUTION_ERROR'' (what @ '': '' @ error_text er)"

definition dec_field :: "string \<Rightarrow> raw \<Rightarrow> string decoded" where
  "dec_field k r = dec_bind (dec_map r) (\<lambda>m. field_string m k)"

record checkpoint_result =
  ck_CheckpointID :: string
  ck_Timestamp :: string
  ck_Label :: string

definition checkpoint_json :: "checkpoint_result \<Rightarrow> json" where
  "checkpoint_json c = JObj ([(''checkpoint_id'', JStr (ck_CheckpointID c)), (''timestamp'', JStr (ck_Timestamp c))] @
     (if ck_Label c = [] then [] else [(''label'', JStr (ck_Label c))]))"

definition commit_checkpoint :: "'x host_env \<Rightarrow> fpath \<Rightarrow> 'x host_world \<Rightarrow> string \<Rightarrow> 'x host_world \<times> (go_error + string)" where
  "commit_checkpoint e dir w label =
     (let (w1, ierr) = ensureGitInit e dir w
      in case ierr of
           Some er \<Rightarrow> (w1, Inl (exec_failed ''git init failed'' er))
         | None \<Rightarrow>
             (let (w2, aerr) = gitExec e dir w1 [''add'', ''-A'']
              in case aerr of
                   Some er \<Rightarrow> (w2, Inl (exec_failed ''git add failed'' er))
                 | None \<Rightarrow>
                     (let (w3, cerr) = gitExec e dir w2 [''commit'', ''-m'', ''checkpoint: '' @ label, ''--allow-empty'']
                      in case cerr of
                           Some er \<Rightarrow> (w3, Inl (exec_failed ''git commit failed'' er))
                         | None \<Rightarrow>
                             (let (w4, hash) = gitOutput e dir w3 [''rev-parse'', ''HEAD'']
                              in (w4, case hash of Inl er \<Rightarrow> Inl (exec_failed ''cannot get commit hash'' er) | Inr out \<Rightarrow> Inr (trim_space out))))))"

text \<open>The structured result; the primitive reports its JSON.\<close>

definition checkpoint_run :: "'x host_env \<Rightarrow> fpath \<Rightarrow> 'x host_world \<Rightarrow> raw \<Rightarrow> 'x host_world \<times> (go_error + checkpoint_result)" where
  "checkpoint_run e dir w params =
     (case (if params = RawNil then Inr [] else dec_field ''label'' params) of
        Inl er \<Rightarrow> (w, Inl (invalid_params er))
      | Inr l \<Rightarrow>
          (let label = (if l = [] then ''checkpoint-'' @ itoa (he_now_ms e w) else l);
               (w1, r) = commit_checkpoint e dir w label
           in case r of
                Inl er \<Rightarrow> (w1, Inl er)
              | Inr cid \<Rightarrow>
                  (let c = \<lparr>ck_CheckpointID = cid, ck_Timestamp = he_rfc3339 e w1, ck_Label = label\<rparr>
                   in (host_emit (he_host e) w1 (zero_event\<lparr>ev_Type := ''checkpoint.created'', ev_Source := ''primitive'',
                         ev_Method := ''state.checkpoint'', ev_Message := label, ev_Data := json_marshal (checkpoint_json c)\<rparr>), Inr c))))"

definition StateCheckpoint_Execute :: "'x host_env \<Rightarrow> fpath \<Rightarrow> 'x host_world \<Rightarrow> raw \<Rightarrow> 'x host_world \<times> (go_error + prim_result)" where
  "StateCheckpoint_Execute e dir w params =
     (let (w', r) = checkpoint_run e dir w params in (w', map_sum id (\<lambda>c. ok_result (checkpoint_json c)) r))"

definition restore_json :: "string \<Rightarrow> string list \<Rightarrow> json" where
  "restore_json target files = JObj ([(''restored_to'', JStr target), (''files_changed'', JNum (int (length files)))] @
     (if files = [] then [] else [(''restored_files'', JArr (map JStr files))]))"

definition apply_restore :: "'x host_env \<Rightarrow> fpath \<Rightarrow> 'x host_world \<Rightarrow> string \<Rightarrow> 'x host_world \<times> go_error option" where
  "apply_restore e dir w target =
     (case ensureGitRestoreUnlocked (hw_fs w) dir of
        Some er \<Rightarrow> (w, Some (exec_failed ''restore failed'' er))
      | None \<Rightarrow>
          (let (w1, rerr) = gitExec e dir w [''restore'', ''--source'', target, ''--staged'', ''--worktree'', ''.'']
           in case rerr of
                Some er \<Rightarrow> (w1, Some (exec_failed ''restore failed'' er))
              | None \<Rightarrow>
                  (let (w2, cerr) = gitExec e dir w1 [''clean'', ''-fdx'']
                   in (w2, map_option (exec_failed ''restore failed'') cerr))))"

definition restore_to :: "'x host_env \<Rightarrow> fpath \<Rightarrow> 'x host_world \<Rightarrow> string \<Rightarrow> 'x host_world \<times> (go_error + prim_result)" where
  "restore_to e dir w1 target =
     (let (w2, tracked) = gitLines e dir w1 [''diff'', ''--name-only'', target, ''--'', ''.''];
          (w3, cleaned) = previewCleanedFiles e dir w2
      in case cleaned of
           Inl er \<Rightarrow> (w3, Inl (exec_failed ''restore preview failed'' er))
         | Inr untracked \<Rightarrow>
             (let files = appendUnique (appendUnique [] tracked) untracked;
                  (w4, rerr) = apply_restore e dir w3 target
              in case rerr of
                   Some er \<Rightarrow> (w4, Inl er)
                 | None \<Rightarrow>
                     (host_emit (he_host e) w4 (zero_event\<lparr>ev_Type := ''checkpoint.restored'', ev_Source := ''primitive'',
                        ev_Method := ''state.restore'', ev_Message := target, ev_Data := json_marshal (restore_json target files)\<rparr>),
                      Inr (ok_result (restore_json target files)))))"

definition StateRestore_Execute :: "'x host_env \<Rightarrow> fpath \<Rightarrow> 'x host_world \<Rightarrow> raw \<Rightarrow> 'x host_world \<times> (go_error + prim_result)" where
  "StateRestore_Execute e dir w params =
     (case dec_field ''checkpoint_id'' params of
        Inl er \<Rightarrow> (w, Inl (invalid_params er))
      | Inr cid \<Rightarrow>
          (if cid = [] then (w, Inl (PrimitiveError ''VALIDATION_ERROR'' ''checkpoint_id is required''))
           else
             (let (w1, t) = gitOutput e dir w [''rev-parse'', ''--verify'', if cid = ''latest'' then ''HEAD~1'' else cid]
              in case t of
                   Inl er \<Rightarrow> (w1, Inl (exec_failed ''restore failed'' er))
                 | Inr out \<Rightarrow> restore_to e dir w1 (trim_space out))))"

text \<open>\<open>strings.SplitN(line, "|", 3)\<close> with three parts\<close>

definition log_entry :: "string \<Rightarrow> json option" where
  "log_entry line =
     (case split_on (CHR ''|'') line of
        a # b # rest \<Rightarrow>
          (if rest = [] then None
           else Some (JObj [(''id'', JStr a),
                  (''label'', JStr (if has_prefix b ''checkpoint: '' then drop (length ''checkpoint: '') b else b)),
                  (''timestamp'', JStr (join_with ''|'' rest))]))
      | _ \<Rightarrow> None)"

definition StateList_Execute :: "'x host_env \<Rightarrow> fpath \<Rightarrow> 'x host_world \<Rightarrow> raw \<Rightarrow> 'x host_world \<times> (go_error + prim_result)" where
  "StateList_Execute e dir w params =
     (let (w', out) = gitOutput e dir w [''log'', ''--oneline'', ''--format=%H|%s|%ci'', ''-20'']
      in case out of
           Inl _ \<Rightarrow> (w', Inr (ok_result (JObj [(''checkpoints'', JArr [])])))
         | Inr s \<Rightarrow> (w', Inr (ok_result (JObj [(''checkpoints'', slice_json (List.map_filter log_entry (split_on newline (trim_space s))))]))))"

section \<open>macro.safe\_edit\<close>

record safe_edit_params =
  sep_Path :: string
  sep_Content :: string
  sep_Mode :: string
  sep_Search :: string
  sep_Replace :: string
  sep_TestCommand :: string
  sep_CheckpointLabel :: string

definition dec_safe_edit :: "raw \<Rightarrow> safe_edit_params decoded" where
  "dec_safe_edit r =
     dec_bind (dec_map r) (\<lambda>m.
     dec_bind (field_string m ''path'') (\<lambda>p.
     dec_bind (field_string m ''content'') (\<lambda>c.
     dec_bind (field_string m ''mode'') (\<lambda>md.
     dec_bind (field_string m ''search'') (\<lambda>s.
     dec_bind (field_string m ''replace'') (\<lambda>rp.
     dec_bind (field_string m ''test_command'') (\<lambda>t.
     dec_bind (field_string m ''checkpoint_label'') (\<lambda>l.
       Inr \<lparr>sep_Path = p, sep_Content = c, sep_Mode = md, sep_Search = s, sep_Replace = rp, sep_TestCommand = t, sep_CheckpointLabel = l\<rparr>))))))))"

definition edit_write_params :: "safe_edit_params \<Rightarrow> raw" where
  "edit_write_params p = json_marshal (JObj ([(''path'', JStr (sep_Path p)), (''mode'', JStr (sep_Mode p))] @
     (if sep_Mode p = ''search_replace'' then [(''search'', JStr (sep_Search p)), (''replace'', JStr (sep_Replace p))]
      else [(''content'', JStr (sep_Content p))])))"

definition edit_report :: "bool \<Rightarrow> bool \<Rightarrow> string \<Rightarrow> string \<Rightarrow> jmap \<Rightarrow> prim_result" where
  "edit_report passed rolledBack cid out extra =
     ok_result (JObj ([(''passed'', JBool passed), (''rolled_back'', JBool rolledBack), (''checkpoint_id'', JStr cid), (''test_output'', JStr out)] @ extra))"

definition truncate_text :: "string \<Rightarrow> int \<Rightarrow> string" where
  "truncate_text s n = (if int (length s) \<le> n then s else take (nat n) s @ ''...'')"

text \<open>The verdict of the test run: whether it passed and what to report of it.\<close>

definition test_verdict :: "go_error + prim_result \<Rightarrow> bool \<times> string" where
  "test_verdict v =
     (case v of
        Inl er \<Rightarrow> (False, error_text er)
      | Inr x \<Rightarrow> (case pr_Data x of JObj m \<Rightarrow>
          (case (jget m ''passed'', jget m ''output'') of (Some (JBool b), Some (JStr out)) \<Rightarrow> (b, out) | _ \<Rightarrow> (False, [])) | _ \<Rightarrow> (False, [])))"

definition edit_verify ::
  "'x host_env \<Rightarrow> prim_options \<Rightarrow> fpath \<Rightarrow> 'x host_world \<Rightarrow> string \<Rightarrow> string \<Rightarrow> string \<Rightarrow> 'x outcome" where
  "edit_verify e opts root w cid diff command =
     (case VerifyTest_Execute e (NewShellExec root opts) w (json_marshal (JObj [(''command'', JStr command)])) of
        None \<Rightarrow> None
      | Some (w1, v) \<Rightarrow>
          (let (passed, out) = test_verdict v;
               (w2, rolledBack) = (if \<not> passed \<and> cid \<noteq> [] then
                   (case StateRestore_Execute e root w1 (json_marshal (JObj [(''checkpoint_id'', JStr cid)])) of
                      (w', Inl _) \<Rightarrow> (w', False) | (w', Inr _) \<Rightarrow> (w', True))
                 else (w1, False))
           in Some (w2, Inr (edit_report passed rolledBack cid (truncate_text out 4000) [(''diff'', JStr diff)]))))"

definition MacroSafeEdit_Execute :: "'x host_env \<Rightarrow> prim_options \<Rightarrow> fpath \<Rightarrow> 'x host_world \<Rightarrow> raw \<Rightarrow> 'x outcome" where
  "MacroSafeEdit_Execute e opts root w params =
     (case dec_safe_edit params of
        Inl er \<Rightarrow> Some (w, Inl (invalid_params er))
      | Inr p \<Rightarrow>
          (if sep_Path p = [] then Some (w, Inl (PrimitiveError ''VALIDATION_ERROR'' ''path is required''))
           else if sep_TestCommand p = [] then Some (w, Inl (PrimitiveError ''VALIDATION_ERROR'' ''test_command is required''))
           else
             (let label = (if sep_CheckpointLabel p = [] then ''macro.safe_edit'' else sep_CheckpointLabel p);
                  (w1, cp) = checkpoint_run e root w (json_marshal (JObj [(''label'', JStr label)]))
              in case cp of
                   Inl er \<Rightarrow> Some (w1, Inl (GoWrap ''checkpoint failed'' er))
                 | Inr c \<Rightarrow>
                     (let (w2, wr) = FSWrite_Execute (he_host e) root w1 (edit_write_params p)
                      in case wr of
                           Inl er \<Rightarrow> Some (w2, Inr (edit_report False False (ck_CheckpointID c) [] [(''error'', JStr (error_text er))]))
                         | Inr x \<Rightarrow> edit_verify e opts root w2 (ck_CheckpointID c) (pr_Diff x) (sep_TestCommand p)))))"

section \<open>Shell results\<close>

lemma shell_result_roundtrip:
  "int64_range (xs_ExitCode r) \<Longrightarrow> int64_range (xs_DurationMs r) \<Longrightarrow> dec_shell_result (json_encode (shell_result_json r)) =
    Inr (r\<lparr>xs_Stdout := go_utf8 (xs_Stdout r), xs_Stderr := go_utf8 (xs_Stderr r)\<rparr>)"
  by (cases r) (simp add: dec_shell_result_def shell_result_json_def json_encode_def dec_bind_def field_string_def field_int_def jget_def)

lemma truncateOutput_bound: "0 \<le> n \<Longrightarrow> int (length (truncateOutput s n)) \<le> n + 21"
  by (auto simp: truncateOutput_def Let_def)

text \<open>The integers a run reports are Go's.\<close>

definition run_ok :: "shell_run \<Rightarrow> bool" where
  "run_ok run \<longleftrightarrow> int64_range (sh_ms run) \<and> (case sh_wait run of WaitExit c \<Rightarrow> int64_range c | _ \<Rightarrow> True)"

definition exit_code :: "wait_result \<Rightarrow> int" where
  "exit_code r = (case r of WaitOK \<Rightarrow> 0 | WaitTimeout \<Rightarrow> -1 | WaitExit c \<Rightarrow> c | WaitErr _ \<Rightarrow> 0)"

lemma run_shell_result:
  assumes "run_shell e s w p = (w', Inr x)" and "run_ok (snd (he_shell e w (se_dir s) (sp_Command p) (shell_timeout s (sp_Timeout p)) (sp_Env p)))"
  shows "(\<forall>er. sh_wait (snd (he_shell e w (se_dir s) (sp_Command p) (shell_timeout s (sp_Timeout p)) (sp_Env p))) \<noteq> WaitErr er) \<and>
    xs_ExitCode (shell_result_of x) = exit_code (sh_wait (snd (he_shell e w (se_dir s) (sp_Command p) (shell_timeout s (sp_Timeout p)) (sp_Env p)))) \<and>
    xs_TimedOut (shell_result_of x) = (sh_wait (snd (he_shell e w (se_dir s) (sp_Command p) (shell_timeout s (sp_Timeout p)) (sp_Env p))) = WaitTimeout)"
proof -
  obtain w1 run where run: "he_shell e w (se_dir s) (sp_Command p) (shell_timeout s (sp_Timeout p)) (sp_Env p) = (w1, run)" by fastforce
  with assms(1) obtain w4 out err where f: "finish_shell (he_host e) w4 out err run = (w', Inr x)"
    by (auto simp: run_shell_def Let_def split: option.splits prod.splits if_splits)
  have "int64_range (-1)" "int64_range 0" by (simp_all add: int64_range_def)
  with f assms(2) run show ?thesis
    by (cases "sh_wait run")
       (auto simp: finish_shell_def Let_def shell_result_of_def shell_result_roundtrip run_ok_def exit_code_def)
qed

lemma dec_shell_json: "int64_range t \<Longrightarrow> dec_shell (json_marshal (shell_json c t)) = Inr \<lparr>sp_Command = c, sp_Timeout = t, sp_Env = []\<rparr>"
  by (simp add: dec_shell_def shell_json_def json_marshal_def dec_bind_def field_string_def field_int_def dec_string_map_def jget_def)

lemma with_shell_result:
  assumes "with_shell e s w c t f = Some (w', Inr x)" and "int64_range t"
    and "run_ok (snd (he_shell e w (se_dir s) c (shell_timeout s t) []))"
  shows "\<exists>r. x = f r \<and> (\<forall>er. sh_wait (snd (he_shell e w (se_dir s) c (shell_timeout s t) [])) \<noteq> WaitErr er) \<and>
    xs_ExitCode r = exit_code (sh_wait (snd (he_shell e w (se_dir s) c (shell_timeout s t) []))) \<and>
    xs_TimedOut r = (sh_wait (snd (he_shell e w (se_dir s) c (shell_timeout s t) [])) = WaitTimeout)"
proof -
  let ?p = "\<lparr>sp_Command = c, sp_Timeout = t, sp_Env = []\<rparr>"
  from assms(1) obtain w1 y where y: "ShellExec_Execute e s w (json_marshal (shell_json c t)) = Some (w1, y)"
    "map_sum id (\<lambda>r. f (shell_result_of r)) y = Inr x"
    by (auto simp: with_shell_def)
  then obtain v where v: "ShellExec_Execute e s w (json_marshal (shell_json c t)) = Some (w1, Inr v)" "x = f (shell_result_of v)"
    by (cases y) simp_all
  with dec_shell_json [OF assms(2), of c] have "run_shell e s w ?p = (w1, Inr v)"
    by (auto simp: ShellExec_Execute_def split: if_splits list.splits)
  from run_shell_result [OF this] assms(3) v(2) show ?thesis by auto
qed

text \<open>
  Verifiers report the truth. When \<open>verify.test\<close> or \<open>verify.command\<close> returns a report on a command, its
  \<open>passed\<close> flag is true exactly when the shell ran that command to its end with exit code zero: a timeout
  or another exit code never counts as passed.
\<close>

theorem verifier_verdict:
  assumes "V = VerifyTest_Execute \<or> V = VerifyCommand_Execute" and "V e s w params = Some (w', Inr x)"
    and "params \<noteq> RawNil" and "dec_command params = Inr (c, t)" and "c \<noteq> []" and "int64_range t"
    and "run_ok (snd (he_shell e w (se_dir s) c (shell_timeout s t) []))"
  shows "\<exists>m. pr_Data x = JObj m \<and>
    jget m ''passed'' = Some (JBool (sh_wait (snd (he_shell e w (se_dir s) c (shell_timeout s t) [])) \<in> {WaitOK, WaitExit 0}))"
proof -
  let ?wait = "sh_wait (snd (he_shell e w (se_dir s) c (shell_timeout s t) []))"
  have code: "exit_code ?wait = 0 \<longleftrightarrow> ?wait \<in> {WaitOK, WaitExit 0}" if "\<forall>er. ?wait \<noteq> WaitErr er"
    using that by (auto simp: exit_code_def split: wait_result.splits)
  from assms(1) show ?thesis
  proof
    assume "V = VerifyTest_Execute"
    with assms(2-5) have "with_shell e s w c t (\<lambda>r. zero_prim_result\<lparr>pr_Data := verify_test_json (verify_test_of r), pr_Duration := xs_DurationMs r\<rparr>) = Some (w', Inr x)"
      by (simp add: VerifyTest_Execute_def)
    from with_shell_result [OF this assms(6,7)] code show ?thesis
      by (auto simp: verify_test_json_def verify_test_of_def Let_def jget_def)
  next
    assume "V = VerifyCommand_Execute"
    with assms(2,4,5) obtain f where "with_shell e s w c t f = Some (w', Inr x)"
      "\<And>r. \<exists>m. pr_Data (f r) = JObj m \<and> jget m ''passed'' = Some (JBool (xs_ExitCode r = 0 \<and> \<not> xs_TimedOut r))"
      by (auto simp: VerifyCommand_Execute_def Let_def jget_def)
    with with_shell_result [OF _ assms(6,7)] code show ?thesis by (fastforce simp: exit_code_def)
  qed
qed

lemma fields_aux_Nil: "fields_aux acc s = [] \<longleftrightarrow> acc = [] \<and> list_all is_space s"
  by (induction acc s rule: fields_aux.induct) auto

text \<open>
  The command list. With a list of allowed commands, \<open>shell.exec\<close> starts a shell only when the first word of
  the command is on the list, and otherwise changes nothing; it panics exactly when the command consists of
  blanks alone, which have no first word.
\<close>

theorem shell_allow_list:
  assumes "se_allowedCommands s \<noteq> []" and "dec_shell params = Inr p" and "sp_Command p \<noteq> []"
  shows "(ShellExec_Execute e s w params = None \<longleftrightarrow> list_all is_space (sp_Command p)) \<and>
    (\<forall>w' res. ShellExec_Execute e s w params = Some (w', res) \<longrightarrow>
       (\<exists>b rest. go_fields (sp_Command p) = b # rest \<and>
         (if b \<in> set (se_allowedCommands s) then run_shell e s w p = (w', res)
          else w' = w \<and> res = Inl (PrimitiveError ''PERMISSION_DENIED'' (''command not in whitelist: '' @ b)))))"
  using assms fields_aux_Nil [of "[]" "sp_Command p"]
  by (auto simp: ShellExec_Execute_def go_fields_def split: list.splits)

section \<open>What the code relies on of git\<close>

text \<open>The regular files of the work tree, outside the repository's own directory.\<close>

definition files_in :: "fpath \<Rightarrow> fsys \<Rightarrow> fpath \<rightharpoonup> string" where
  "files_in root fs p =
     (if prefix root p \<and> \<not> prefix (root @ [''.git'']) p
      then (case fs_at fs p of Some (FFile c) \<Rightarrow> Some c | _ \<Rightarrow> None) else None)"

abbreviation work_files :: "fpath \<Rightarrow> 'x host_world \<Rightarrow> fpath \<rightharpoonup> string" where
  "work_files root w \<equiv> files_in root (hw_fs w)"

definition snaps_kept :: "('x \<Rightarrow> string \<rightharpoonup> (fpath \<rightharpoonup> string)) \<Rightarrow> 'x host_world \<Rightarrow> 'x host_world \<Rightarrow> bool" where
  "snaps_kept snap w w' \<longleftrightarrow> (\<forall>i S. snap (hw_ext w) i = Some S \<longrightarrow> snap (hw_ext w') i = Some S)"

definition inert_args :: "string list \<Rightarrow> bool" where
  "inert_args args \<longleftrightarrow> args = [''rev-parse'', ''--is-inside-work-tree''] \<or> args = [''rev-parse'', ''HEAD''] \<or>
     take 2 args = [''rev-parse'', ''--verify''] \<or> take 2 args = [''diff'', ''--name-only''] \<or> args = [''clean'', ''-ndx'']"

text \<open>A path in another repository inside the work tree, which \<open>git clean -fdx\<close> leaves alone.\<close>

definition nested_repo :: "fpath \<Rightarrow> fsys \<Rightarrow> fpath \<Rightarrow> bool" where
  "nested_repo root fs p \<longleftrightarrow>
     (\<exists>k \<in> {length root <..length p}. prefix root p \<and> fs_at fs (take k p @ [''.git'']) \<noteq> None)"

text \<open>
  The documented behaviour of the git commands used, over three parts of its state: the commits \<open>snap\<close> by name, the
  \<open>index\<close>, and the files \<open>ig\<close> that staging leaves out (untracked files that are ignored, and files of nested
  repositories). Queries change neither the work tree nor the commits. \<open>git add -A\<close> makes the index the work tree
  without the files left out. A commit keeps the work tree and the earlier commits, and \<open>HEAD\<close> then names a commit of
  exactly the index. A commit's name resolves to a name of that commit. Restoring from a commit and then removing
  all untracked and ignored files leaves exactly the files of that commit, except inside nested repositories.
  Neither the shell command under test nor the event sink removes commits. The repository has no hooks and no
  filters that rewrite contents, and only regular files are considered.
\<close>

type_synonym 'x commits = "'x \<Rightarrow> string \<rightharpoonup> (fpath \<rightharpoonup> string)"

definition staged :: "fpath \<Rightarrow> ('x host_world \<Rightarrow> fpath set) \<Rightarrow> 'x host_world \<Rightarrow> fpath \<rightharpoonup> string" where
  "staged root ig w p = (if p \<in> ig w then None else work_files root w p)"

definition git_inert :: "'x host_env \<Rightarrow> fpath \<Rightarrow> 'x commits \<Rightarrow> ('x host_world \<Rightarrow> fpath set) \<Rightarrow> bool" where
  "git_inert e root snap ig \<longleftrightarrow>
     (\<forall>w args w' r. inert_args args \<longrightarrow> run_git e root w args = (w', r) \<longrightarrow>
        work_files root w' = work_files root w \<and> ig w' = ig w \<and> snaps_kept snap w w')"

definition git_stages :: "'x host_env \<Rightarrow> fpath \<Rightarrow> ('x \<Rightarrow> fpath \<rightharpoonup> string) \<Rightarrow> ('x host_world \<Rightarrow> fpath set) \<Rightarrow> bool" where
  "git_stages e root index ig \<longleftrightarrow>
     (\<forall>w w' r. run_git e root w [''add'', ''-A''] = (w', r) \<longrightarrow> pc_err r = None \<longrightarrow>
        work_files root w' = work_files root w \<and> index (hw_ext w') = staged root ig w)"

definition git_commits :: "'x host_env \<Rightarrow> fpath \<Rightarrow> 'x commits \<Rightarrow> ('x \<Rightarrow> fpath \<rightharpoonup> string) \<Rightarrow> bool" where
  "git_commits e root snap index \<longleftrightarrow>
     (\<forall>w m w' w'' r r'. run_git e root w [''commit'', ''-m'', m, ''--allow-empty''] = (w', r) \<longrightarrow> pc_err r = None \<longrightarrow>
        run_git e root w' [''rev-parse'', ''HEAD''] = (w'', r') \<longrightarrow> pc_err r' = None \<longrightarrow>
        work_files root w' = work_files root w \<and> trim_space (pc_out r') \<noteq> ''latest'' \<and>
        snap (hw_ext w'') (trim_space (pc_out r')) = Some (index (hw_ext w)))"

definition git_resolves :: "'x host_env \<Rightarrow> fpath \<Rightarrow> 'x commits \<Rightarrow> bool" where
  "git_resolves e root snap \<longleftrightarrow>
     (\<forall>w i S w' r. snap (hw_ext w) i = Some S \<longrightarrow> run_git e root w [''rev-parse'', ''--verify'', i] = (w', r) \<longrightarrow> pc_err r = None \<longrightarrow>
        snap (hw_ext w') (trim_space (pc_out r)) = Some S)"

definition git_restores :: "'x host_env \<Rightarrow> fpath \<Rightarrow> 'x commits \<Rightarrow> bool" where
  "git_restores e root snap \<longleftrightarrow>
     (\<forall>w i S w' r w'' r' p. snap (hw_ext w) i = Some S \<longrightarrow>
        run_git e root w [''restore'', ''--source'', i, ''--staged'', ''--worktree'', ''.''] = (w', r) \<longrightarrow> pc_err r = None \<longrightarrow>
        run_git e root w' [''clean'', ''-fdx''] = (w'', r') \<longrightarrow> pc_err r' = None \<longrightarrow>
        \<not> nested_repo root (hw_fs w'') p \<longrightarrow> work_files root w'' p = S p)"

definition commits_outlive :: "'x host_env \<Rightarrow> 'x commits \<Rightarrow> bool" where
  "commits_outlive e snap \<longleftrightarrow>
     (\<forall>w d c t env w' run. he_shell e w d c t env = (w', run) \<longrightarrow> snaps_kept snap w w') \<and>
     (\<forall>x evt. snap (Emit (ho_sink (he_host e)) x evt) = snap x)"

definition git_contract ::
  "'x host_env \<Rightarrow> fpath \<Rightarrow> 'x commits \<Rightarrow> ('x \<Rightarrow> fpath \<rightharpoonup> string) \<Rightarrow> ('x host_world \<Rightarrow> fpath set) \<Rightarrow> bool" where
  "git_contract e root snap index ig \<longleftrightarrow> git_inert e root snap ig \<and> git_stages e root index ig \<and> git_commits e root snap index \<and>
     git_resolves e root snap \<and> git_restores e root snap \<and> commits_outlive e snap"

lemma snaps_kept_trans: "snaps_kept snap w w1 \<Longrightarrow> snaps_kept snap w1 w2 \<Longrightarrow> snaps_kept snap w w2"
  by (auto simp: snaps_kept_def)

lemma snaps_kept_refl [simp]: "snaps_kept snap w w"
  by (simp add: snaps_kept_def)

lemma snaps_kept_ext: "hw_ext w = hw_ext w' \<Longrightarrow> snaps_kept snap w w'"
  by (simp add: snaps_kept_def)

lemma git_contractD:
  assumes "git_contract e root snap index ig"
  shows "inert_args args \<Longrightarrow> run_git e root w args = (w', r) \<Longrightarrow>
        work_files root w' = work_files root w \<and> ig w' = ig w \<and> snaps_kept snap w w'"
    and "run_git e root w [''add'', ''-A''] = (w', r) \<Longrightarrow> pc_err r = None \<Longrightarrow>
        work_files root w' = work_files root w \<and> index (hw_ext w') = staged root ig w"
    and "run_git e root w [''commit'', ''-m'', m, ''--allow-empty''] = (w', r) \<Longrightarrow> pc_err r = None \<Longrightarrow>
        run_git e root w' [''rev-parse'', ''HEAD''] = (w'', r') \<Longrightarrow> pc_err r' = None \<Longrightarrow>
        work_files root w' = work_files root w \<and> trim_space (pc_out r') \<noteq> ''latest'' \<and>
        snap (hw_ext w'') (trim_space (pc_out r')) = Some (index (hw_ext w))"
    and "snap (hw_ext w) i = Some S \<Longrightarrow> run_git e root w [''rev-parse'', ''--verify'', i] = (w', r) \<Longrightarrow> pc_err r = None \<Longrightarrow>
        snap (hw_ext w') (trim_space (pc_out r)) = Some S"
    and "snap (hw_ext w) i = Some S \<Longrightarrow> run_git e root w [''restore'', ''--source'', i, ''--staged'', ''--worktree'', ''.''] = (w', r) \<Longrightarrow>
        pc_err r = None \<Longrightarrow> run_git e root w' [''clean'', ''-fdx''] = (w'', r') \<Longrightarrow> pc_err r' = None \<Longrightarrow>
        \<not> nested_repo root (hw_fs w'') p \<Longrightarrow> work_files root w'' p = S p"
    and "he_shell e w d c t env = (w', run) \<Longrightarrow> snaps_kept snap w w'"
    and "snap (Emit (ho_sink (he_host e)) x evt) = snap x"
proof -
  have parts: "git_inert e root snap ig" "git_stages e root index ig" "git_commits e root snap index" "git_resolves e root snap"
    "git_restores e root snap" "commits_outlive e snap"
    using assms by (simp_all add: git_contract_def)
  show "inert_args args \<Longrightarrow> run_git e root w args = (w', r) \<Longrightarrow>
        work_files root w' = work_files root w \<and> ig w' = ig w \<and> snaps_kept snap w w'"
    using parts(1) unfolding git_inert_def by blast
  show "run_git e root w [''add'', ''-A''] = (w', r) \<Longrightarrow> pc_err r = None \<Longrightarrow>
        work_files root w' = work_files root w \<and> index (hw_ext w') = staged root ig w"
    using parts(2) unfolding git_stages_def by blast
  show "run_git e root w [''commit'', ''-m'', m, ''--allow-empty''] = (w', r) \<Longrightarrow> pc_err r = None \<Longrightarrow>
        run_git e root w' [''rev-parse'', ''HEAD''] = (w'', r') \<Longrightarrow> pc_err r' = None \<Longrightarrow>
        work_files root w' = work_files root w \<and> trim_space (pc_out r') \<noteq> ''latest'' \<and>
        snap (hw_ext w'') (trim_space (pc_out r')) = Some (index (hw_ext w))"
    using parts(3) unfolding git_commits_def by blast
  show "snap (hw_ext w) i = Some S \<Longrightarrow> run_git e root w [''rev-parse'', ''--verify'', i] = (w', r) \<Longrightarrow> pc_err r = None \<Longrightarrow>
        snap (hw_ext w') (trim_space (pc_out r)) = Some S"
    using parts(4) unfolding git_resolves_def by blast
  show "snap (hw_ext w) i = Some S \<Longrightarrow> run_git e root w [''restore'', ''--source'', i, ''--staged'', ''--worktree'', ''.''] = (w', r) \<Longrightarrow>
        pc_err r = None \<Longrightarrow> run_git e root w' [''clean'', ''-fdx''] = (w'', r') \<Longrightarrow> pc_err r' = None \<Longrightarrow>
        \<not> nested_repo root (hw_fs w'') p \<Longrightarrow> work_files root w'' p = S p"
    using parts(5) unfolding git_restores_def by blast
  show "he_shell e w d c t env = (w', run) \<Longrightarrow> snaps_kept snap w w'" "snap (Emit (ho_sink (he_host e)) x evt) = snap x"
    using parts(6) unfolding commits_outlive_def by blast+
qed

lemma host_emit_frame [simp]: "hw_fs (host_emit h w evt) = hw_fs w" "hw_intent (host_emit h w evt) = hw_intent w"
  by (simp_all add: host_emit_def)

lemma host_emit_snaps: "git_contract e root snap index ig \<Longrightarrow> snaps_kept snap w (host_emit (he_host e) w evt)"
  by (simp add: snaps_kept_def host_emit_def git_contractD(7))

text \<open>A checkpoint: the work tree is as before, and the reported commit holds all its files but those staging leaves out.\<close>

lemma checkpoint_run_sound:
  assumes g: "git_contract e root snap index ig" and "pc_err (snd (run_git e root w [''rev-parse'', ''--is-inside-work-tree''])) = None"
    and "checkpoint_run e root w params = (w', Inr c)"
  shows "work_files root w' = work_files root w \<and> ck_CheckpointID c \<noteq> ''latest'' \<and>
    snap (hw_ext w') (ck_CheckpointID c) = Some (staged root ig w)"
proof -
  from assms(3) obtain label where lab: "(if params = RawNil then Inr [] else dec_field ''label'' params) = Inr label"
    by (auto simp: checkpoint_run_def split: sum.splits)
  let ?label = "if label = [] then ''checkpoint-'' @ itoa (he_now_ms e w) else label"
  obtain w4 res where res: "commit_checkpoint e root w ?label = (w4, res)" by fastforce
  obtain label cid where c: "commit_checkpoint e root w label = (w4, Inr cid)" "ck_CheckpointID c = cid"
    "\<exists>evt. w' = host_emit (he_host e) w4 evt"
    by (cases res) (use assms(3) lab res in \<open>force simp: checkpoint_run_def Let_def\<close>)+
  obtain w1 r1 where r1: "run_git e root w [''rev-parse'', ''--is-inside-work-tree''] = (w1, r1)" by fastforce
  with assms(2) c(1) have e1: "ensureGitInit e root w = (w1, None)"
    by (auto simp: ensureGitInit_def commit_checkpoint_def split: if_splits)
  obtain w2 r2 where r2: "run_git e root w1 [''add'', ''-A''] = (w2, r2)" by fastforce
  obtain w3 r3 where r3: "run_git e root w2 [''commit'', ''-m'', ''checkpoint: '' @ label, ''--allow-empty''] = (w3, r3)" by fastforce
  obtain w5 r4 where r4: "run_git e root w3 [''rev-parse'', ''HEAD''] = (w5, r4)" by fastforce
  from c(1) e1 r2 r3 r4 have ok: "pc_err r2 = None" "pc_err r3 = None" "pc_err r4 = None" "w5 = w4" "cid = trim_space (pc_out r4)"
    by (auto simp: commit_checkpoint_def gitExec_def gitOutput_def Let_def split: option.splits)
  have inert: "inert_args [''rev-parse'', ''--is-inside-work-tree'']" "inert_args [''rev-parse'', ''HEAD'']"
    by (simp_all add: inert_args_def)
  note i1 = git_contractD(1) [OF g inert(1) r1] and add = git_contractD(2) [OF g r2 ok(1)]
    and commit = git_contractD(3) [OF g r3 ok(2) r4 ok(3)] and i4 = git_contractD(1) [OF g inert(2) r4]
  from i1 have "staged root ig w1 = staged root ig w" by (simp add: staged_def fun_eq_iff)
  with i1 add commit i4 ok(4,5) have "work_files root w4 = work_files root w" "snap (hw_ext w4) cid = Some (staged root ig w)" by simp_all
  then show ?thesis using commit ok(5) c(2,3) host_emit_snaps [OF g] by (auto simp: snaps_kept_def)
qed

text \<open>A successful restore leaves the files of the named commit.\<close>

lemma StateRestore_sound:
  assumes g: "git_contract e root snap index ig" and "snap (hw_ext w) i = Some S" and "i \<noteq> []" and "i \<noteq> ''latest''"
    and "StateRestore_Execute e root w (json_marshal (JObj [(''checkpoint_id'', JStr i)])) = (w', Inr x)"
    and "\<not> nested_repo root (hw_fs w') p"
  shows "work_files root w' p = S p"
proof -
  have dec: "dec_field ''checkpoint_id'' (json_marshal (JObj [(''checkpoint_id'', JStr i)])) = Inr i"
    by (simp add: dec_field_def json_marshal_def dec_bind_def field_string_def jget_def)
  obtain w1 r1 where r1: "run_git e root w [''rev-parse'', ''--verify'', i] = (w1, r1)" by fastforce
  with assms(3-5) dec have ok1: "pc_err r1 = None" and rt: "restore_to e root w1 (trim_space (pc_out r1)) = (w', Inr x)"
    by (auto simp: StateRestore_Execute_def gitOutput_def Let_def split: option.splits)
  let ?t = "trim_space (pc_out r1)"
  from git_contractD(4) [OF g assms(2) r1 ok1] have s1: "snap (hw_ext w1) ?t = Some S" .
  obtain w2 r2 where r2: "run_git e root w1 [''diff'', ''--name-only'', ?t, ''--'', ''.''] = (w2, r2)" by fastforce
  obtain w3 r3 where r3: "run_git e root w2 [''clean'', ''-ndx''] = (w3, r3)" by fastforce
  have inert: "inert_args [''diff'', ''--name-only'', ?t, ''--'', ''.'']" "inert_args [''clean'', ''-ndx'']" by (simp_all add: inert_args_def)
  have s3: "snap (hw_ext w3) ?t = Some S"
    using git_contractD(1) [OF g inert(1) r2] git_contractD(1) [OF g inert(2) r3] s1 by (simp add: snaps_kept_def)
  obtain w4 where w4: "apply_restore e root w3 ?t = (w4, None)" "hw_fs w' = hw_fs w4"
    using rt r2 r3 by (auto simp: restore_to_def gitLines_def previewCleanedFiles_def gitOutput_def Let_def split: option.splits sum.splits prod.splits)
  obtain w5 r5 where r5: "run_git e root w3 [''restore'', ''--source'', ?t, ''--staged'', ''--worktree'', ''.''] = (w5, r5)" by fastforce
  obtain w6 r6 where r6: "run_git e root w5 [''clean'', ''-fdx''] = (w6, r6)" by fastforce
  from w4(1) r5 r6 have "pc_err r5 = None" "pc_err r6 = None" "w6 = w4"
    by (auto simp: apply_restore_def gitExec_def Let_def split: option.splits)
  with git_contractD(5) [OF g s3 r5 _ r6] w4(2) assms(6) show ?thesis by simp
qed

lemma fold_emit_snaps:
  assumes "git_contract e root snap index ig"
  shows "snaps_kept snap w (fold (\<lambda>l w. host_emit (he_host e) w (f l)) ls w)"
proof (induction ls arbitrary: w)
  case (Cons l ls)
  have "snaps_kept snap w (host_emit (he_host e) w (f l))" by (rule host_emit_snaps [OF assms])
  with Cons show ?case by (simp add: snaps_kept_trans)
qed simp

lemma streamPipe_snaps:
  assumes "git_contract e root snap index ig" and "streamPipe (he_host e) s text w = (w', r)"
  shows "snaps_kept snap w w'"
  using assms(2) fold_emit_snaps [OF assms(1)] by (auto simp: streamPipe_def Let_def split: prod.splits)

lemma finish_shell_snaps:
  assumes "git_contract e root snap index ig" and "finish_shell (he_host e) w out err run = (w', r)"
  shows "snaps_kept snap w w'"
  using assms(2) host_emit_snaps [OF assms(1)]
  by (cases "sh_wait run") (auto simp: finish_shell_def Let_def)

lemma run_shell_snaps:
  assumes g: "git_contract e root snap index ig" and "run_shell e s w p = (w', r)"
  shows "snaps_kept snap w w'"
proof -
  obtain w1 run where run: "he_shell e w (se_dir s) (sp_Command p) (shell_timeout s (sp_Timeout p)) (sp_Env p) = (w1, run)" by fastforce
  from git_contractD(6) [OF g run] have k1: "snaps_kept snap w w1" .
  show ?thesis
  proof (cases "sh_start_err run")
    case None
    define evt where "evt = zero_event\<lparr>ev_Type := ''shell.started'', ev_Source := ''primitive'', ev_Method := ''shell.exec'',
      ev_Message := sp_Command p, ev_Data := json_marshal (JObj [(''command'', JStr (sp_Command p))])\<rparr>"
    obtain w3 out bad1 where p1: "streamPipe (he_host e) ''stdout'' (sh_out run) (host_emit (he_host e) w1 evt) = (w3, out, bad1)"
      by (metis prod_cases3)
    obtain w4 err bad2 where p2: "streamPipe (he_host e) ''stderr'' (sh_err run) w3 = (w4, err, bad2)" by (metis prod_cases3)
    have k4: "snaps_kept snap w w4"
      using k1 host_emit_snaps [OF g] streamPipe_snaps [OF g p1] streamPipe_snaps [OF g p2] by (meson snaps_kept_trans)
    from assms(2) run None p1 p2 have "w' = w4 \<or> finish_shell (he_host e) w4 out err run = (w', r)"
      by (auto simp: run_shell_def Let_def evt_def split: if_splits)
    with k4 show ?thesis using finish_shell_snaps [OF g] by (blast intro: snaps_kept_trans)
  qed (use assms(2) run k1 in \<open>auto simp: run_shell_def\<close>)
qed

lemma ShellExec_snaps:
  assumes "git_contract e root snap index ig" and "ShellExec_Execute e s w params = Some (w', r)"
  shows "snaps_kept snap w w'"
  using assms(2) run_shell_snaps [OF assms(1)]
  by (auto simp: ShellExec_Execute_def split: sum.splits if_splits list.splits)

lemma VerifyTest_snaps:
  assumes "git_contract e root snap index ig" and "VerifyTest_Execute e s w params = Some (w', r)"
  shows "snaps_kept snap w w'"
  using assms(2) ShellExec_snaps [OF assms(1)]
  by (auto simp: VerifyTest_Execute_def with_shell_def split: sum.splits if_splits)

lemma FSWrite_ext: "FSWrite_Execute h root w params = (w', r) \<Longrightarrow> hw_ext w' = hw_ext w"
  by (auto simp: FSWrite_Execute_def Let_def split: sum.splits option.splits prod.splits)

lemma jget_edit_report:
  assumes "pr_Data (edit_report passed rolledBack cid out extra) = JObj m" and "fst ` set extra \<subseteq> {''diff'', ''error''}"
  shows "jget m ''passed'' = Some (JBool passed)" "jget m ''rolled_back'' = Some (JBool rolledBack)"
    "jget m ''checkpoint_id'' = Some (JStr cid)"
proof -
  have "map_of (rev extra) ''passed'' = None" "map_of (rev extra) ''rolled_back'' = None" "map_of (rev extra) ''checkpoint_id'' = None"
    using assms(2) by (auto simp: map_of_eq_None_iff)
  moreover from assms(1) have "m = [(''passed'', JBool passed), (''rolled_back'', JBool rolledBack), (''checkpoint_id'', JStr cid), (''test_output'', JStr out)] @ extra"
    by (simp add: edit_report_def ok_result_def)
  ultimately show "jget m ''passed'' = Some (JBool passed)" "jget m ''rolled_back'' = Some (JBool rolledBack)" "jget m ''checkpoint_id'' = Some (JStr cid)"
    by (simp_all add: jget_def map_add_def)
qed

lemma edit_verify_rollback:
  assumes g: "git_contract e root snap index ig" and "edit_verify e opts root w cid diff command = Some (w', Inr x)"
    and "pr_Data x = JObj m" and "jget m ''rolled_back'' = Some (JBool True)"
    and "snap (hw_ext w) cid = Some S" and "cid \<noteq> ''latest''"
  shows "jget m ''passed'' = Some (JBool False) \<and> jget m ''checkpoint_id'' = Some (JStr cid) \<and>
    (\<forall>p. \<not> nested_repo root (hw_fs w') p \<longrightarrow> work_files root w' p = S p)"
proof -
  let ?cmd = "json_marshal (JObj [(''command'', JStr command)])" and ?cid = "json_marshal (JObj [(''checkpoint_id'', JStr cid)])"
  from assms(2) obtain w1 v where v: "VerifyTest_Execute e (NewShellExec root opts) w ?cmd = Some (w1, v)"
    by (auto simp: edit_verify_def split: option.splits)
  obtain passed out where tv: "test_verdict v = (passed, out)" by fastforce
  obtain w2 rr where rr: "StateRestore_Execute e root w1 ?cid = (w2, rr)" by fastforce
  from VerifyTest_snaps [OF g v] assms(5) have s1: "snap (hw_ext w1) cid = Some S" by (simp add: snaps_kept_def)
  show ?thesis
  proof (cases "\<not> passed \<and> cid \<noteq> []")
    case True
    with assms(2) v tv rr have x: "x = edit_report False (case rr of Inl _ \<Rightarrow> False | Inr _ \<Rightarrow> True) cid (truncate_text out 4000) [(''diff'', JStr diff)]"
      and w': "w' = w2"
      by (auto simp: edit_verify_def split: sum.splits)
    note rep = jget_edit_report [OF assms(3) [unfolded x], simplified]
    from rep(2) assms(4) obtain y where "rr = Inr y" by (auto split: sum.splits)
    with rr StateRestore_sound [OF g s1 _ assms(6)] True rep w' show ?thesis by simp
  next
    case False
    with assms(2) v tv have "x = edit_report passed False cid (truncate_text out 4000) [(''diff'', JStr diff)]"
      by (auto simp: edit_verify_def)
    with jget_edit_report(2) assms(3,4) show ?thesis by fastforce
  qed
qed

text \<open>
  C9. What a rolled-back edit leaves. Under the documented behaviour of git and in a work tree that has a repository,
  when \<open>macro.safe_edit\<close> reports that it rolled back, the test did not pass, and outside nested repositories the
  files of the work tree are exactly those from before the call, with the same contents, except that the files
  staging leaves out (untracked files git ignores) are gone.
\<close>

theorem safe_edit_rollback:
  assumes "git_contract e root snap index ig" and "pc_err (snd (run_git e root w [''rev-parse'', ''--is-inside-work-tree''])) = None"
    and "MacroSafeEdit_Execute e opts root w params = Some (w', Inr x)"
    and "pr_Data x = JObj m" and "jget m ''rolled_back'' = Some (JBool True)"
  shows "jget m ''passed'' = Some (JBool False) \<and>
    (\<forall>p. \<not> nested_repo root (hw_fs w') p \<longrightarrow> work_files root w' p = (if p \<in> ig w then None else work_files root w p))"
proof -
  from assms(3) obtain p where p: "dec_safe_edit params = Inr p" "sep_Path p \<noteq> []" "sep_TestCommand p \<noteq> []"
    by (auto simp: MacroSafeEdit_Execute_def split: sum.splits if_splits)
  let ?label = "json_marshal (JObj [(''label'', JStr (if sep_CheckpointLabel p = [] then ''macro.safe_edit'' else sep_CheckpointLabel p))])"
  obtain w1 cp where cp: "checkpoint_run e root w ?label = (w1, cp)" by fastforce
  with assms(3) p obtain c where c: "cp = Inr c" by (cases cp) (auto simp: MacroSafeEdit_Execute_def Let_def)
  from checkpoint_run_sound [OF assms(1,2) cp [unfolded c]]
  have S: "ck_CheckpointID c \<noteq> ''latest''" "snap (hw_ext w1) (ck_CheckpointID c) = Some (staged root ig w)" by auto
  obtain w2 wr where wr: "FSWrite_Execute (he_host e) root w1 (edit_write_params p) = (w2, wr)" by fastforce
  from S(2) FSWrite_ext [OF wr] have s2: "snap (hw_ext w2) (ck_CheckpointID c) = Some (staged root ig w)" by simp
  show ?thesis
  proof (cases wr)
    case (Inl er)
    with assms(3) p cp c wr have "x = edit_report False False (ck_CheckpointID c) [] [(''error'', JStr (error_text er))]"
      by (auto simp: MacroSafeEdit_Execute_def Let_def)
    with jget_edit_report(2) assms(4,5) show ?thesis by fastforce
  next
    case (Inr y)
    with assms(3) p cp c wr have "edit_verify e opts root w2 (ck_CheckpointID c) (pr_Diff y) (sep_TestCommand p) = Some (w', Inr x)"
      by (auto simp: MacroSafeEdit_Execute_def Let_def)
    from edit_verify_rollback [OF assms(1) this assms(4,5) s2 S(1)] show ?thesis by (simp add: staged_def)
  qed
qed

section \<open>Examples\<close>

text \<open>
  A git that keeps an index and whole file systems as commits, named by their number in unary; it ignores \<open>.env\<close>
  files, and its restore also removes what the commit does not have.
\<close>

type_synonym git_state = "fsys list \<times> fsys"

definition commit_name :: "nat \<Rightarrow> string" where
  "commit_name n = replicate n (CHR ''a'')"

definition find_commit :: "fsys list \<Rightarrow> string \<Rightarrow> fsys option" where
  "find_commit cs i = (if i \<noteq> [] \<and> length i \<le> length cs \<and> i = commit_name (length i) then Some (cs ! (length i - 1)) else None)"

definition not_ignored :: "fpath \<Rightarrow> bool" where
  "not_ignored p \<longleftrightarrow> last p \<noteq> ''.env''"

definition git_ok :: "string \<Rightarrow> proc_result" where
  "git_ok out = \<lparr>pc_err = None, pc_out = out, pc_errout = []\<rparr>"

definition git_fail :: proc_result where
  "git_fail = \<lparr>pc_err = Some (GoErr ''exit status 128''), pc_out = [], pc_errout = []\<rparr>"

definition demo_git :: "git_state host_world \<Rightarrow> fpath \<Rightarrow> string \<Rightarrow> string list \<Rightarrow> git_state host_world \<times> proc_result" where
  "demo_git w dir prog args =
     (let (cs, ix) = hw_ext w
      in if args = [''add'', ''-A''] then (w\<lparr>hw_ext := (cs, filter (\<lambda>x. not_ignored (fst x)) (hw_fs w))\<rparr>, git_ok [])
         else if take 1 args = [''commit''] then (w\<lparr>hw_ext := (cs @ [ix], ix)\<rparr>, git_ok [])
         else if args = [''rev-parse'', ''HEAD''] then (w, git_ok (commit_name (length cs) @ [newline]))
         else if take 2 args = [''rev-parse'', ''--verify''] then (w, if find_commit cs (concat (drop 2 args)) = None then git_fail else git_ok (concat (drop 2 args)))
         else if take 2 args = [''restore'', ''--source''] then
           (case find_commit cs (hd (drop 2 args)) of None \<Rightarrow> (w, git_fail) | Some fs \<Rightarrow> (w\<lparr>hw_fs := fs, hw_ext := (cs, fs)\<rparr>, git_ok []))
         else (w, git_ok []))"

definition demo_snap :: "fpath \<Rightarrow> git_state commits" where
  "demo_snap root x i = map_option (files_in root) (find_commit (fst x) i)"

definition demo_index :: "fpath \<Rightarrow> git_state \<Rightarrow> fpath \<rightharpoonup> string" where
  "demo_index root x = files_in root (snd x)"

definition demo_left_out :: "git_state host_world \<Rightarrow> fpath set" where
  "demo_left_out w = {p. \<not> not_ignored p}"

definition git_env :: "int \<Rightarrow> git_state host_env" where
  "git_env code =
     \<lparr>he_host = \<lparr>ho_os = \<lparr>oe_cwd = [], oe_read_err = (\<lambda>_. None), oe_write_err = (\<lambda>_. None), oe_partial = (\<lambda>_. None)\<rparr>, ho_dir_size = (\<lambda>_. 4096), ho_sink = None,
        ho_astdiff = (\<lambda>_ _. Inr []), ho_exec = demo_git\<rparr>,
      he_shell = (\<lambda>w dir c t env. (w, \<lparr>sh_start_err = None, sh_out = ''out'', sh_err = [], sh_wait = WaitExit code, sh_ms = 7\<rparr>)),
      he_lookpath = (\<lambda>_. True), he_now_ms = (\<lambda>_. 1), he_rfc3339 = (\<lambda>_. ''2026-01-01T00:00:00Z'')\<rparr>"

definition git_world :: "git_state host_world" where
  "git_world = \<lparr>hw_fs = [([''w''], FDir), ([''w'', ''a''], FFile ''one''), ([''w'', ''.env''], FFile ''KEY=1'')], hw_intent = None, hw_ext = ([], [])\<rparr>"

definition no_limits :: prim_options where
  "no_limits = \<lparr>op_AllowedCommands = [], op_DefaultTimeout = 0\<rparr>"

definition edit_params :: raw where
  "edit_params = Raw (JObj [(''path'', JStr ''a''), (''content'', JStr ''two''), (''mode'', JStr ''overwrite''), (''test_command'', JStr ''make test'')])"

lemma trim_commit_name [simp]: "trim_space (commit_name n) = commit_name n" "trim_space (commit_name n @ [newline]) = commit_name n"
proof -
  have "\<not> is_space (CHR ''a'')" "is_space newline" by code_simp+
  then have drop: "dropWhile is_space (commit_name n) = commit_name n" "dropWhile is_space (newline # commit_name n) = commit_name n"
    by (cases n; simp add: commit_name_def)+
  have "dropWhile is_space (commit_name n @ [newline]) = (if n = 0 then [] else commit_name n @ [newline])"
    using \<open>\<not> is_space (CHR ''a'')\<close> \<open>is_space newline\<close> by (cases n) (simp_all add: commit_name_def)
  with drop show "trim_space (commit_name n) = commit_name n" "trim_space (commit_name n @ [newline]) = commit_name n"
    by (auto simp: trim_space_def trim_left_def commit_name_def)
qed

lemma find_commit_name: "find_commit cs i = Some fs \<Longrightarrow> trim_space i = i"
  by (metis find_commit_def option.distinct(1) trim_commit_name(1))

lemma find_commit_snoc:
  "find_commit cs i = Some fs \<Longrightarrow> find_commit (cs @ [c]) i = Some fs"
  "find_commit (cs @ [c]) (commit_name (Suc (length cs))) = Some c"
proof -
  show "find_commit (cs @ [c]) i = Some fs" if "find_commit cs i = Some fs"
    using that by (cases i) (auto simp: find_commit_def nth_append commit_name_def split: if_splits)
qed (simp add: find_commit_def nth_append commit_name_def)

lemma files_in_filter: "files_in root (filter (\<lambda>x. P (fst x)) fs) p = (if P p then files_in root fs p else None)"
proof -
  have "map_of (filter (\<lambda>x. P (fst x)) fs) p = (if P p then map_of fs p else None)"
    by (induction fs) auto
  then show ?thesis by (auto simp: files_in_def fs_at_def)
qed

lemma run_git_demo [simp]: "run_git (git_env code) root w args = demo_git w root ''git'' args"
  by (simp add: run_git_def git_env_def)

lemma demo_git_contract: "git_contract (git_env code) root (demo_snap root) (demo_index root) demo_left_out"
  unfolding git_contract_def
proof (intro conjI)
  show "git_inert (git_env code) root (demo_snap root) demo_left_out"
  proof -
    have "args \<noteq> [''add'', ''-A''] \<and> take 1 args \<noteq> [''commit''] \<and> take 2 args \<noteq> [''restore'', ''--source'']" if "inert_args args" for args
      using that by (cases args) (auto simp: inert_args_def)
    then show ?thesis by (auto simp: git_inert_def demo_git_def demo_left_out_def case_prod_beta)
  qed
  show "git_stages (git_env code) root (demo_index root) demo_left_out"
    by (auto simp: git_stages_def demo_git_def demo_left_out_def demo_index_def staged_def files_in_filter case_prod_beta fun_eq_iff)
  show "git_commits (git_env code) root (demo_snap root) (demo_index root)"
  proof -
    have "commit_name n \<noteq> ''latest''" for n by (cases n) (simp_all add: commit_name_def)
    then show ?thesis using find_commit_snoc(2)
      by (auto simp: git_commits_def demo_git_def git_ok_def demo_snap_def demo_index_def case_prod_beta)
  qed
  show "git_resolves (git_env code) root (demo_snap root)"
    by (auto simp: git_resolves_def demo_git_def demo_snap_def git_ok_def git_fail_def find_commit_name case_prod_beta split: if_splits)
  show "git_restores (git_env code) root (demo_snap root)"
    by (auto simp: git_restores_def demo_git_def demo_snap_def git_ok_def case_prod_beta)
  show "commits_outlive (git_env code) (demo_snap root)"
    by (auto simp: commits_outlive_def git_env_def Emit_def snaps_kept_def)
qed

theorem safe_edit_rollback_witness:
  "\<exists>w' x m. MacroSafeEdit_Execute (git_env 1) no_limits [''w''] git_world edit_params = Some (w', Inr x) \<and> pr_Data x = JObj m \<and>
     jget m ''passed'' = Some (JBool False) \<and>
     (\<forall>p. \<not> nested_repo [''w''] (hw_fs w') p \<longrightarrow> work_files [''w''] w' p = (if p \<in> demo_left_out git_world then None else work_files [''w''] git_world p)) \<and>
     work_files [''w''] w' [''w'', ''a''] = Some ''one'' \<and> work_files [''w''] w' [''w'', ''.env''] = None \<and>
     work_files [''w''] git_world [''w'', ''.env''] = Some ''KEY=1''"
proof -
  let ?r = "MacroSafeEdit_Execute (git_env 1) no_limits [''w''] git_world edit_params"
  have "case ?r of Some (w', Inr x) \<Rightarrow> (case pr_Data x of JObj m \<Rightarrow> jget m ''rolled_back'' = Some (JBool True) | _ \<Rightarrow> False) \<and>
      work_files [''w''] w' [''w'', ''a''] = Some ''one'' \<and> work_files [''w''] w' [''w'', ''.env''] = None | _ \<Rightarrow> False"
    by code_simp
  then obtain w' x m where r: "?r = Some (w', Inr x)" "pr_Data x = JObj m" "jget m ''rolled_back'' = Some (JBool True)"
    "work_files [''w''] w' [''w'', ''a''] = Some ''one''" "work_files [''w''] w' [''w'', ''.env''] = None"
    by (auto split: option.splits prod.splits sum.splits json.splits)
  have "pc_err (snd (run_git (git_env 1) [''w''] git_world [''rev-parse'', ''--is-inside-work-tree''])) = None"
    "work_files [''w''] git_world [''w'', ''.env''] = Some ''KEY=1''" by code_simp+
  with safe_edit_rollback [OF demo_git_contract _ r(1-3)] r show ?thesis by blast
qed

theorem verifier_verdict_witness:
  "\<exists>x m. VerifyTest_Execute (git_env 3) (NewShellExec [''w''] no_limits) git_world (Raw (JObj [(''command'', JStr ''make test'')])) = Some (git_world, Inr x) \<and>
     pr_Data x = JObj m \<and> jget m ''passed'' = Some (JBool False)"
proof -
  let ?p = "Raw (JObj [(''command'', JStr ''make test'')])"
  let ?s = "NewShellExec [''w''] no_limits"
  have "case VerifyTest_Execute (git_env 3) ?s git_world ?p of Some (w', Inr x) \<Rightarrow> w' = git_world | _ \<Rightarrow> False" by code_simp
  then obtain x where r: "VerifyTest_Execute (git_env 3) ?s git_world ?p = Some (git_world, Inr x)"
    by (auto split: option.splits prod.splits sum.splits)
  have d: "dec_command ?p = Inr (''make test'', 0)" "int64_range 0"
    "run_ok (snd (he_shell (git_env 3) git_world (se_dir ?s) ''make test'' (shell_timeout ?s 0) []))" by code_simp+
  from verifier_verdict [of VerifyTest_Execute, OF _ r _ d(1) _ d(2,3)] r show ?thesis by (auto simp: git_env_def)
qed

theorem shell_allow_list_witness:
  "ShellExec_Execute (git_env 0) \<lparr>se_dir = [''w''], se_defaultTimeout = 30, se_allowedCommands = [''ls'']\<rparr> git_world (Raw (JObj [(''command'', JStr '' '')])) = None"
proof -
  have "dec_shell (Raw (JObj [(''command'', JStr '' '')])) = Inr \<lparr>sp_Command = '' '', sp_Timeout = 0, sp_Env = []\<rparr>"
    "list_all is_space '' ''" by code_simp+
  with shell_allow_list [of "\<lparr>se_dir = [''w''], se_defaultTimeout = 30, se_allowedCommands = [''ls'']\<rparr>", OF _ this(1), THEN conjunct1] show ?thesis by simp
qed

end
