(* ===== verification/GoalStore.thy ===== *)
theory GoalStore
  imports Sql Eventing
begin

text \<open>
  The goal store, \<open>internal/control/goal_store.go\<close>: goals with their steps, verifications,
  bindings and reviews in SQLite tables. Every mutating operation writes first and then publishes
  an event on the bus, which is a parameter acting on a state \<open>'b\<close> (no bus is the nil bus). The
  table \<open>goal_reviews\<close> has, besides its primary key, a unique index on the step of pending reviews.
\<close>

section \<open>Types\<close>

datatype goal_status =
  GoalCreated | GoalExecuting | GoalVerifying | GoalCompleted | GoalFailed | GoalPaused | GoalStatusOther string

datatype goal_step_status =
    GoalStepPending | GoalStepRunning | GoalStepPassed | GoalStepFailed | GoalStepSkipped
  | GoalStepAwaitingReview | GoalStepRolledBack | GoalStepOther string

datatype verification_status =
    GoalVerificationPending | GoalVerificationRunning | GoalVerificationPassed | GoalVerificationFailed
  | GoalVerificationOther string

datatype binding_type =
  GoalBindingServiceEndpoint | GoalBindingNetworkExposure | GoalBindingCredential | GoalBindingTypeOther string

datatype binding_status = GoalBindingPending | GoalBindingResolved | GoalBindingFailed | GoalBindingOther string

datatype review_status = GoalReviewPending | GoalReviewApproved | GoalReviewRejected | GoalReviewOther string

fun goal_status_string :: "goal_status \<Rightarrow> string" where
  "goal_status_string GoalCreated = ''created''"
| "goal_status_string GoalExecuting = ''executing''"
| "goal_status_string GoalVerifying = ''verifying''"
| "goal_status_string GoalCompleted = ''completed''"
| "goal_status_string GoalFailed = ''failed''"
| "goal_status_string GoalPaused = ''paused''"
| "goal_status_string (GoalStatusOther s) = s"

fun goal_step_status_string :: "goal_step_status \<Rightarrow> string" where
  "goal_step_status_string GoalStepPending = ''pending''"
| "goal_step_status_string GoalStepRunning = ''running''"
| "goal_step_status_string GoalStepPassed = ''passed''"
| "goal_step_status_string GoalStepFailed = ''failed''"
| "goal_step_status_string GoalStepSkipped = ''skipped''"
| "goal_step_status_string GoalStepAwaitingReview = ''awaiting_review''"
| "goal_step_status_string GoalStepRolledBack = ''rolled_back''"
| "goal_step_status_string (GoalStepOther s) = s"

fun review_status_string :: "review_status \<Rightarrow> string" where
  "review_status_string GoalReviewPending = ''pending''"
| "review_status_string GoalReviewApproved = ''approved''"
| "review_status_string GoalReviewRejected = ''rejected''"
| "review_status_string (GoalReviewOther s) = s"

record goal =
  gl_ID :: string
  gl_Description :: string
  gl_Status :: goal_status
  gl_Packages :: "string list"
  gl_SandboxIDs :: "string list"
  gl_CreatedAt :: int
  gl_UpdatedAt :: int

record goal_step =
  gp_ID :: string
  gp_GoalID :: string
  gp_Primitive :: string
  gp_Input :: raw
  gp_Output :: raw
  gp_Status :: goal_step_status
  gp_CheckpointID :: string
  gp_RiskLevel :: string
  gp_Reversible :: bool
  gp_Seq :: int
  gp_CreatedAt :: int
  gp_UpdatedAt :: int

record goal_verification =
  gv_ID :: string
  gv_GoalID :: string
  gv_StepID :: string
  gv_Status :: verification_status
  gv_Verdict :: string
  gv_Evidence :: raw
  gv_CheckType :: string
  gv_CheckParams :: raw
  gv_CreatedAt :: int
  gv_UpdatedAt :: int

record goal_binding =
  gb_ID :: string
  gb_GoalID :: string
  gb_BindingType :: binding_type
  gb_SourceRef :: string
  gb_TargetRef :: string
  gb_Status :: binding_status
  gb_ResolvedValue :: string
  gb_FailureReason :: string
  gb_Metadata :: raw
  gb_CreatedAt :: int
  gb_UpdatedAt :: int

record goal_review =
  gr_ID :: string
  gr_GoalID :: string
  gr_StepID :: string
  gr_Status :: review_status
  gr_Primitive :: string
  gr_RiskLevel :: string
  gr_Reversible :: bool
  gr_SideEffect :: string
  gr_DecisionReason :: string
  gr_CreatedAt :: int
  gr_UpdatedAt :: int

record goal_tables =
  gt_goals :: "goal list"
  gt_steps :: "goal_step list"
  gt_verifications :: "goal_verification list"
  gt_bindings :: "goal_binding list"
  gt_reviews :: "goal_review list"

record 'b goal_env =
  ge_sql :: sql_env
  ge_publish :: "('b \<Rightarrow> event \<Rightarrow> 'b) option"

record 'b goal_world =
  gw_db :: "goal_tables sql_db"
  gw_bus :: 'b

definition empty_goal_tables :: goal_tables where
  "empty_goal_tables = \<lparr>gt_goals = [], gt_steps = [], gt_verifications = [], gt_bindings = [], gt_reviews = []\<rparr>"

definition goal_now :: "'b goal_env \<Rightarrow> 'b goal_world \<Rightarrow> int" where
  "goal_now env g = sql_time (ge_sql env) (gw_db g)"

section \<open>Helpers\<close>

definition publishGoalEvent :: "'b goal_env \<Rightarrow> string \<Rightarrow> string \<Rightarrow> json \<Rightarrow> 'b goal_world \<Rightarrow> 'b goal_world" where
  "publishGoalEvent env typ sourceID payload g =
     (case ge_publish env of
        None \<Rightarrow> g
      | Some f \<Rightarrow> g\<lparr>gw_bus := f (gw_bus g) (zero_event\<lparr>ev_Type := typ, ev_Source := ''goal'',
                     ev_Message := sourceID, ev_Data := json_marshal payload\<rparr>)\<rparr>)"

definition default_time :: "int \<Rightarrow> int \<Rightarrow> int" where
  "default_time now t = (if t = 0 then now else t)"

text \<open>The shape of every mutation: one statement, its error wrapped, else one event.\<close>

definition goal_write ::
  "'b goal_env \<Rightarrow> 'b goal_world \<Rightarrow> string \<Rightarrow> (goal_tables \<Rightarrow> go_error + goal_tables)
   \<Rightarrow> ('b goal_world \<Rightarrow> 'b goal_world) \<Rightarrow> 'b goal_world \<times> go_error option" where
  "goal_write env g what f emit =
     (let (d, err) = sql_exec (ge_sql env) (gw_db g) f
      in case err of
           Some e \<Rightarrow> (g\<lparr>gw_db := d\<rparr>, Some (GoWrap what e))
         | None \<Rightarrow> (emit (g\<lparr>gw_db := d\<rparr>), None))"

definition goal_read ::
  "'b goal_env \<Rightarrow> 'b goal_world \<Rightarrow> (go_error \<Rightarrow> go_error) \<Rightarrow> (goal_tables \<Rightarrow> 'a)
   \<Rightarrow> 'b goal_world \<times> (go_error + 'a)" where
  "goal_read env g wrap f =
     (let (d, r) = sql_query (ge_sql env) (gw_db g) f
      in (g\<lparr>gw_db := d\<rparr>, case r of Inl e \<Rightarrow> Inl (wrap e) | Inr x \<Rightarrow> Inr x))"

section \<open>JSON payloads\<close>

definition opt_str :: "string \<Rightarrow> string \<Rightarrow> jmap" where
  "opt_str k v = (if v = [] then [] else [(k, JStr v)])"

fun raw_json :: "raw \<Rightarrow> json" where
  "raw_json RawNil = JNull"
| "raw_json (Raw j) = j"
| "raw_json (RawText s) = JNull"

definition opt_raw :: "string \<Rightarrow> raw \<Rightarrow> jmap" where
  "opt_raw k r = (if raw_len0 r then [] else [(k, raw_json r)])"

definition goal_json :: "goal \<Rightarrow> json" where
  "goal_json g = JObj [(''id'', JStr (gl_ID g)), (''description'', JStr (gl_Description g)),
     (''status'', JStr (goal_status_string (gl_Status g))), (''packages'', JArr (map JStr (gl_Packages g))),
     (''sandbox_ids'', JArr (map JStr (gl_SandboxIDs g))), (''created_at'', JNum (gl_CreatedAt g)),
     (''updated_at'', JNum (gl_UpdatedAt g))]"

definition step_json :: "goal_step \<Rightarrow> json" where
  "step_json s = JObj ([(''id'', JStr (gp_ID s)), (''goal_id'', JStr (gp_GoalID s)),
     (''primitive'', JStr (gp_Primitive s)), (''input'', raw_json (gp_Input s))] @ opt_raw ''output'' (gp_Output s) @
     [(''status'', JStr (goal_step_status_string (gp_Status s)))] @ opt_str ''checkpoint_id'' (gp_CheckpointID s) @
     opt_str ''risk_level'' (gp_RiskLevel s) @
     [(''reversible'', JBool (gp_Reversible s)), (''seq'', JNum (gp_Seq s)),
      (''created_at'', JNum (gp_CreatedAt s)), (''updated_at'', JNum (gp_UpdatedAt s))])"

fun verification_status_string :: "verification_status \<Rightarrow> string" where
  "verification_status_string GoalVerificationPending = ''pending''"
| "verification_status_string GoalVerificationRunning = ''running''"
| "verification_status_string GoalVerificationPassed = ''passed''"
| "verification_status_string GoalVerificationFailed = ''failed''"
| "verification_status_string (GoalVerificationOther s) = s"

definition verification_json :: "goal_verification \<Rightarrow> json" where
  "verification_json v = JObj ([(''id'', JStr (gv_ID v)), (''goal_id'', JStr (gv_GoalID v))] @
     opt_str ''step_id'' (gv_StepID v) @ [(''status'', JStr (verification_status_string (gv_Status v)))] @
     opt_str ''verdict'' (gv_Verdict v) @ opt_raw ''evidence'' (gv_Evidence v) @
     opt_str ''check_type'' (gv_CheckType v) @ opt_raw ''check_params'' (gv_CheckParams v) @
     [(''created_at'', JNum (gv_CreatedAt v)), (''updated_at'', JNum (gv_UpdatedAt v))])"

fun binding_type_string :: "binding_type \<Rightarrow> string" where
  "binding_type_string GoalBindingServiceEndpoint = ''service_endpoint''"
| "binding_type_string GoalBindingNetworkExposure = ''network_exposure''"
| "binding_type_string GoalBindingCredential = ''credential''"
| "binding_type_string (GoalBindingTypeOther s) = s"

fun binding_status_string :: "binding_status \<Rightarrow> string" where
  "binding_status_string GoalBindingPending = ''pending''"
| "binding_status_string GoalBindingResolved = ''resolved''"
| "binding_status_string GoalBindingFailed = ''failed''"
| "binding_status_string (GoalBindingOther s) = s"

definition binding_json :: "goal_binding \<Rightarrow> json" where
  "binding_json b = JObj ([(''id'', JStr (gb_ID b)), (''goal_id'', JStr (gb_GoalID b)),
     (''binding_type'', JStr (binding_type_string (gb_BindingType b))), (''source_ref'', JStr (gb_SourceRef b)),
     (''target_ref'', JStr (gb_TargetRef b)), (''status'', JStr (binding_status_string (gb_Status b)))] @
     opt_str ''resolved_value'' (gb_ResolvedValue b) @ opt_str ''failure_reason'' (gb_FailureReason b) @
     opt_raw ''metadata'' (gb_Metadata b) @
     [(''created_at'', JNum (gb_CreatedAt b)), (''updated_at'', JNum (gb_UpdatedAt b))])"

definition review_json :: "goal_review \<Rightarrow> json" where
  "review_json r = JObj ([(''id'', JStr (gr_ID r)), (''goal_id'', JStr (gr_GoalID r)), (''step_id'', JStr (gr_StepID r)),
     (''status'', JStr (review_status_string (gr_Status r))), (''primitive'', JStr (gr_Primitive r)),
     (''risk_level'', JStr (gr_RiskLevel r)), (''reversible'', JBool (gr_Reversible r))] @
     opt_str ''side_effect'' (gr_SideEffect r) @ opt_str ''decision_reason'' (gr_DecisionReason r) @
     [(''created_at'', JNum (gr_CreatedAt r)), (''updated_at'', JNum (gr_UpdatedAt r))])"

section \<open>Goals\<close>

definition stamped_goal :: "int \<Rightarrow> goal \<Rightarrow> goal" where
  "stamped_goal now g = g\<lparr>gl_CreatedAt := default_time now (gl_CreatedAt g),
     gl_UpdatedAt := default_time now (gl_UpdatedAt g)\<rparr>"

definition CreateGoal :: "'b goal_env \<Rightarrow> 'b goal_world \<Rightarrow> goal \<Rightarrow> 'b goal_world \<times> go_error option" where
  "CreateGoal env w g0 =
     (let g = stamped_goal (goal_now env w) g0
      in goal_write env w ''insert goal''
           (\<lambda>t. map_sum id (\<lambda>rows. t\<lparr>gt_goals := rows\<rparr>) (insert_row ''goals.id'' gl_ID g (gt_goals t)))
           (publishGoalEvent env ''goal.created'' (gl_ID g) (goal_json g)))"

definition stored_step :: "int \<Rightarrow> goal_step \<Rightarrow> goal_step" where
  "stored_step now s = s\<lparr>gp_Input := raw_or_empty (gp_Input s), gp_Output := RawNil,
     gp_CreatedAt := default_time now (gp_CreatedAt s), gp_UpdatedAt := default_time now (gp_UpdatedAt s),
     gp_RiskLevel := (if gp_RiskLevel s = [] then ''low'' else gp_RiskLevel s)\<rparr>"

text \<open>
  \<open>CreateGoalFull\<close>: all statements of the transaction work on its own copy of the tables, which
  the commit installs; each of them, and the begin and the commit, may fail.
\<close>

fun tx_steps ::
  "sql_env \<Rightarrow> nat \<Rightarrow> int \<Rightarrow> nat \<Rightarrow> goal_step list \<Rightarrow> goal_tables \<Rightarrow> nat \<times> (go_error + goal_tables)" where
  "tx_steps env n now i [] t = (n, Inr t)"
| "tx_steps env n now i (s # ss) t =
     (let s' = stored_step now (s\<lparr>gp_Seq := (if gp_Seq s = 0 then int i + 1 else gp_Seq s)\<rparr>);
          fail = (\<lambda>e. GoWrap (''insert goal step '' @ itoa (int i)) e)
      in case sq_fault env n of
           Some e \<Rightarrow> (Suc n, Inl (fail e))
         | None \<Rightarrow> (case insert_row ''goal_steps.id'' gp_ID s' (gt_steps t) of
                      Inl e \<Rightarrow> (Suc n, Inl (fail e))
                    | Inr rows \<Rightarrow> tx_steps env (Suc n) now (Suc i) ss (t\<lparr>gt_steps := rows\<rparr>)))"

definition goal_tx :: "sql_env \<Rightarrow> nat \<Rightarrow> int \<Rightarrow> goal \<Rightarrow> goal_step list \<Rightarrow> goal_tables \<Rightarrow> nat \<times> (go_error + goal_tables)" where
  "goal_tx env n now g steps t =
     (case sq_fault env n of
        Some e \<Rightarrow> (Suc n, Inl (GoWrap ''begin tx'' e))
      | None \<Rightarrow>
          (case sq_fault env (Suc n) of
             Some e \<Rightarrow> (Suc (Suc n), Inl (GoWrap ''insert goal'' e))
           | None \<Rightarrow>
               (case insert_row ''goals.id'' gl_ID g (gt_goals t) of
                  Inl e \<Rightarrow> (Suc (Suc n), Inl (GoWrap ''insert goal'' e))
                | Inr rows \<Rightarrow>
                    (case tx_steps env (Suc (Suc n)) now 0 steps (t\<lparr>gt_goals := rows\<rparr>) of
                       (k, Inl e) \<Rightarrow> (k, Inl e)
                     | (k, Inr t') \<Rightarrow>
                         (case sq_fault env k of
                            Some e \<Rightarrow> (Suc k, Inl (GoWrap ''commit'' e))
                          | None \<Rightarrow> (Suc k, Inr t'))))))"

definition CreateGoalFull ::
  "'b goal_env \<Rightarrow> 'b goal_world \<Rightarrow> goal \<Rightarrow> goal_step list \<Rightarrow> 'b goal_world \<times> go_error option" where
  "CreateGoalFull env w g0 steps =
     (let now = goal_now env w;
          g = stamped_goal now g0;
          (n, r) = goal_tx (ge_sql env) (db_stmts (gw_db w)) now g steps (db_tables (gw_db w));
          d = (gw_db w)\<lparr>db_stmts := n\<rparr>
      in case r of
           Inl e \<Rightarrow> (w\<lparr>gw_db := d\<rparr>, Some e)
         | Inr t \<Rightarrow> (publishGoalEvent env ''goal.created'' (gl_ID g) (goal_json g)
                       (w\<lparr>gw_db := d\<lparr>db_tables := t\<rparr>\<rparr>), None))"

definition GetGoal :: "'b goal_env \<Rightarrow> 'b goal_world \<Rightarrow> string \<Rightarrow> 'b goal_world \<times> (go_error + goal option)" where
  "GetGoal env w k = goal_read env w id (\<lambda>t. select_row gl_ID k (gt_goals t))"

definition ListGoals :: "'b goal_env \<Rightarrow> 'b goal_world \<Rightarrow> 'b goal_world \<times> (go_error + goal list)" where
  "ListGoals env w = goal_read env w (GoWrap ''list goals'') (\<lambda>t. sort_key (\<lambda>g. - gl_CreatedAt g) (gt_goals t))"

definition UpdateGoalStatus ::
  "'b goal_env \<Rightarrow> 'b goal_world \<Rightarrow> string \<Rightarrow> goal_status \<Rightarrow> 'b goal_world \<times> go_error option" where
  "UpdateGoalStatus env w k status =
     (let now = goal_now env w
      in goal_write env w ''update goal status''
           (\<lambda>t. Inr (t\<lparr>gt_goals := update_rows gl_ID k
              (\<lambda>g. g\<lparr>gl_Status := status, gl_UpdatedAt := now\<rparr>) (gt_goals t)\<rparr>))
           (publishGoalEvent env ''goal.status_changed'' k
              (JObj [(''id'', JStr k), (''status'', JStr (goal_status_string status))])))"

section \<open>Steps\<close>

definition AppendGoalStep :: "'b goal_env \<Rightarrow> 'b goal_world \<Rightarrow> goal_step \<Rightarrow> 'b goal_world \<times> go_error option" where
  "AppendGoalStep env w s0 =
     (let now = goal_now env w;
          s = s0\<lparr>gp_CreatedAt := default_time now (gp_CreatedAt s0), gp_UpdatedAt := default_time now (gp_UpdatedAt s0)\<rparr>
      in goal_write env w ''insert goal step''
           (\<lambda>t. map_sum id (\<lambda>rows. t\<lparr>gt_steps := rows\<rparr>)
              (insert_row ''goal_steps.id'' gp_ID (stored_step now s0) (gt_steps t)))
           (publishGoalEvent env ''goal.step_appended'' (gp_GoalID s) (step_json s)))"

definition UpdateGoalStepStatus ::
  "'b goal_env \<Rightarrow> 'b goal_world \<Rightarrow> string \<Rightarrow> goal_step_status \<Rightarrow> raw \<Rightarrow> 'b goal_world \<times> go_error option" where
  "UpdateGoalStepStatus env w k status out =
     (let now = goal_now env w
      in goal_write env w ''update goal step status''
           (\<lambda>t. Inr (t\<lparr>gt_steps := update_rows gp_ID k
              (\<lambda>s. s\<lparr>gp_Status := status, gp_Output := out, gp_UpdatedAt := now\<rparr>) (gt_steps t)\<rparr>))
           (publishGoalEvent env ''goal.step_updated'' k
              (JObj [(''id'', JStr k), (''status'', JStr (goal_step_status_string status))])))"

definition scanGoalStep :: "goal_step \<Rightarrow> goal_step" where
  "scanGoalStep s = s\<lparr>gp_Output := scan_raw (gp_Output s)\<rparr>"

definition ListGoalSteps ::
  "'b goal_env \<Rightarrow> 'b goal_world \<Rightarrow> string \<Rightarrow> 'b goal_world \<times> (go_error + goal_step list)" where
  "ListGoalSteps env w k = goal_read env w (GoWrap ''list goal steps'')
     (\<lambda>t. map scanGoalStep (sort_key gp_Seq (filter (\<lambda>s. gp_GoalID s = k) (gt_steps t))))"

section \<open>Verifications\<close>

definition stamped_verification :: "int \<Rightarrow> goal_verification \<Rightarrow> goal_verification" where
  "stamped_verification now v = v\<lparr>gv_CreatedAt := default_time now (gv_CreatedAt v),
     gv_UpdatedAt := default_time now (gv_UpdatedAt v)\<rparr>"

definition AppendGoalVerification ::
  "'b goal_env \<Rightarrow> 'b goal_world \<Rightarrow> goal_verification \<Rightarrow> 'b goal_world \<times> go_error option" where
  "AppendGoalVerification env w v0 =
     (let v = stamped_verification (goal_now env w) v0;
          row = v\<lparr>gv_Evidence := raw_or_empty (gv_Evidence v), gv_CheckParams := raw_or_empty (gv_CheckParams v)\<rparr>
      in goal_write env w ''insert goal verification''
           (\<lambda>t. map_sum id (\<lambda>rows. t\<lparr>gt_verifications := rows\<rparr>)
              (insert_row ''goal_verifications.id'' gv_ID row (gt_verifications t)))
           (publishGoalEvent env ''goal.verification_appended'' (gv_GoalID v) (verification_json v)))"

definition scanGoalVerification :: "goal_verification \<Rightarrow> goal_verification" where
  "scanGoalVerification v = v\<lparr>gv_CheckParams :=
     (if raw_len0 (gv_CheckParams v) \<or> gv_CheckParams v = Raw (JObj []) then RawNil else gv_CheckParams v)\<rparr>"

fun verification_event :: "verification_status \<Rightarrow> string" where
  "verification_event GoalVerificationRunning = ''goal.verification_started''"
| "verification_event GoalVerificationPassed = ''goal.verification_passed''"
| "verification_event GoalVerificationFailed = ''goal.verification_failed''"
| "verification_event _ = ''goal.verification_updated''"

definition getGoalVerification ::
  "'b goal_env \<Rightarrow> 'b goal_world \<Rightarrow> string \<Rightarrow> 'b goal_world \<times> (go_error + goal_verification option)" where
  "getGoalVerification env w k =
     goal_read env w id (\<lambda>t. map_option scanGoalVerification (select_row gv_ID k (gt_verifications t)))"

definition UpdateGoalVerification ::
  "'b goal_env \<Rightarrow> 'b goal_world \<Rightarrow> string \<Rightarrow> verification_status \<Rightarrow> string \<Rightarrow> raw
   \<Rightarrow> 'b goal_world \<times> go_error option" where
  "UpdateGoalVerification env w k status verdict evidence =
     (let now = goal_now env w;
          (w1, err) = goal_write env w ''update goal verification''
            (\<lambda>t. Inr (t\<lparr>gt_verifications := update_rows gv_ID k
               (\<lambda>v. v\<lparr>gv_Status := status, gv_Verdict := verdict, gv_Evidence := raw_or_empty evidence,
                      gv_UpdatedAt := now\<rparr>) (gt_verifications t)\<rparr>)) id
      in case err of
           Some e \<Rightarrow> (w1, Some e)
         | None \<Rightarrow>
             (let (w2, r) = getGoalVerification env w1 k
              in case r of
                   Inl e \<Rightarrow> (w2, Some (GoWrap (''load goal verification '' @ k) e))
                 | Inr None \<Rightarrow> (w2, Some (GoErr (''goal verification '' @ k @ '' not found'')))
                 | Inr (Some v) \<Rightarrow>
                     (publishGoalEvent env (verification_event status) (gv_GoalID v) (verification_json v) w2, None)))"

definition ListGoalVerifications ::
  "'b goal_env \<Rightarrow> 'b goal_world \<Rightarrow> string \<Rightarrow> 'b goal_world \<times> (go_error + goal_verification list)" where
  "ListGoalVerifications env w k = goal_read env w (GoWrap ''list goal verifications'')
     (\<lambda>t. map scanGoalVerification (sort_key gv_CreatedAt (filter (\<lambda>v. gv_GoalID v = k) (gt_verifications t))))"

section \<open>Bindings\<close>

definition AppendGoalBinding ::
  "'b goal_env \<Rightarrow> 'b goal_world \<Rightarrow> goal_binding \<Rightarrow> 'b goal_world \<times> go_error option" where
  "AppendGoalBinding env w b0 =
     (let now = goal_now env w;
          b = b0\<lparr>gb_CreatedAt := default_time now (gb_CreatedAt b0), gb_UpdatedAt := default_time now (gb_UpdatedAt b0)\<rparr>
      in goal_write env w ''insert goal binding''
           (\<lambda>t. map_sum id (\<lambda>rows. t\<lparr>gt_bindings := rows\<rparr>)
              (insert_row ''goal_bindings.id'' gb_ID (b\<lparr>gb_Metadata := raw_or_empty (gb_Metadata b)\<rparr>) (gt_bindings t)))
           (publishGoalEvent env ''goal.binding_appended'' (gb_GoalID b) (binding_json b)))"

definition ResolveGoalBinding ::
  "'b goal_env \<Rightarrow> 'b goal_world \<Rightarrow> string \<Rightarrow> string \<Rightarrow> 'b goal_world \<times> go_error option" where
  "ResolveGoalBinding env w k resolved =
     (let now = goal_now env w
      in goal_write env w ''resolve goal binding''
           (\<lambda>t. Inr (t\<lparr>gt_bindings := update_rows gb_ID k
              (\<lambda>b. b\<lparr>gb_Status := GoalBindingResolved, gb_ResolvedValue := resolved, gb_UpdatedAt := now\<rparr>)
              (gt_bindings t)\<rparr>))
           (publishGoalEvent env ''goal.binding_resolved'' k
              (JObj [(''id'', JStr k), (''resolved_value'', JStr resolved)])))"

definition FailGoalBinding ::
  "'b goal_env \<Rightarrow> 'b goal_world \<Rightarrow> string \<Rightarrow> string \<Rightarrow> 'b goal_world \<times> go_error option" where
  "FailGoalBinding env w k reason =
     (let now = goal_now env w
      in goal_write env w ''fail goal binding''
           (\<lambda>t. Inr (t\<lparr>gt_bindings := update_rows gb_ID k
              (\<lambda>b. b\<lparr>gb_Status := GoalBindingFailed, gb_FailureReason := reason, gb_UpdatedAt := now\<rparr>)
              (gt_bindings t)\<rparr>))
           (publishGoalEvent env ''goal.binding_failed'' k (JObj [(''id'', JStr k), (''reason'', JStr reason)])))"

definition ListGoalBindings ::
  "'b goal_env \<Rightarrow> 'b goal_world \<Rightarrow> string \<Rightarrow> 'b goal_world \<times> (go_error + goal_binding list)" where
  "ListGoalBindings env w k = goal_read env w (GoWrap ''list goal bindings'')
     (\<lambda>t. sort_key gb_CreatedAt (filter (\<lambda>b. gb_GoalID b = k) (gt_bindings t)))"

definition ReplayGoal :: "'b goal_env \<Rightarrow> 'b goal_world \<Rightarrow> string \<Rightarrow> 'b goal_world \<times> go_error option" where
  "ReplayGoal env w k =
     (let w1 = publishGoalEvent env ''goal.replay_started'' k (JObj [(''goal_id'', JStr k)]) w;
          (w2, r) = ListGoalSteps env w1 k
      in case r of
           Inl e \<Rightarrow> (w2, Some (GoWrap ''replay: list steps'' e))
         | Inr steps \<Rightarrow> (publishGoalEvent env ''goal.replay_completed'' k
              (JObj [(''goal_id'', JStr k), (''step_count'', JNum (int (length steps)))]) w2, None))"

section \<open>Reviews\<close>

definition insert_review :: "goal_review \<Rightarrow> goal_review list \<Rightarrow> go_error + goal_review list" where
  "insert_review r rows =
     (if gr_ID r \<in> gr_ID ` set rows then Inl (unique_violation ''goal_reviews.id'')
      else if gr_Status r = GoalReviewPending \<and>
              (\<exists>x \<in> set rows. gr_StepID x = gr_StepID r \<and> gr_Status x = GoalReviewPending)
      then Inl (unique_violation ''goal_reviews.step_id'')
      else Inr (rows @ [r]))"

definition CreateGoalReview :: "'b goal_env \<Rightarrow> 'b goal_world \<Rightarrow> goal_review \<Rightarrow> 'b goal_world \<times> go_error option" where
  "CreateGoalReview env w r0 =
     (let now = goal_now env w;
          r = r0\<lparr>gr_CreatedAt := default_time now (gr_CreatedAt r0), gr_UpdatedAt := default_time now (gr_UpdatedAt r0)\<rparr>
      in goal_write env w ''insert goal review''
           (\<lambda>t. map_sum id (\<lambda>rows. t\<lparr>gt_reviews := rows\<rparr>) (insert_review r (gt_reviews t)))
           (publishGoalEvent env ''goal.review_requested'' (gr_GoalID r) (review_json r)))"

definition GetGoalReview ::
  "'b goal_env \<Rightarrow> 'b goal_world \<Rightarrow> string \<Rightarrow> 'b goal_world \<times> (go_error + goal_review option)" where
  "GetGoalReview env w k = goal_read env w id (\<lambda>t. select_row gr_ID k (gt_reviews t))"

definition DecideGoalReview ::
  "'b goal_env \<Rightarrow> 'b goal_world \<Rightarrow> string \<Rightarrow> review_status \<Rightarrow> string \<Rightarrow> 'b goal_world \<times> go_error option" where
  "DecideGoalReview env w k status reason =
     (let (w1, r) = GetGoalReview env w k
      in case r of
           Inl e \<Rightarrow> (w1, Some e)
         | Inr None \<Rightarrow> (w1, Some (GoErr (''review '' @ k @ '' not found'')))
         | Inr (Some existing) \<Rightarrow>
             (if gr_Status existing = status then (w1, None)
              else if gr_Status existing \<noteq> GoalReviewPending then (w1, Some ErrReviewConflict)
              else
                (let now = goal_now env w1
                 in goal_write env w1 ''update goal review''
                      (\<lambda>t. Inr (t\<lparr>gt_reviews := update_rows gr_ID k
                         (\<lambda>x. x\<lparr>gr_Status := status, gr_DecisionReason := reason, gr_UpdatedAt := now\<rparr>)
                         (gt_reviews t)\<rparr>))
                      (publishGoalEvent env
                         (if status = GoalReviewRejected then ''goal.review_rejected'' else ''goal.review_approved'')
                         (gr_GoalID existing)
                         (JObj [(''review_id'', JStr k), (''goal_id'', JStr (gr_GoalID existing)),
                            (''step_id'', JStr (gr_StepID existing)), (''status'', JStr (review_status_string status))])))))"

definition ListGoalReviews ::
  "'b goal_env \<Rightarrow> 'b goal_world \<Rightarrow> string \<Rightarrow> 'b goal_world \<times> (go_error + goal_review list)" where
  "ListGoalReviews env w k = goal_read env w (GoWrap ''list goal reviews'')
     (\<lambda>t. sort_key gr_CreatedAt (filter (\<lambda>r. gr_GoalID r = k) (gt_reviews t)))"

section \<open>The operations as steps\<close>

datatype goal_op =
    GCreate goal
  | GCreateFull goal "goal_step list"
  | GStatus string goal_status
  | GStep goal_step
  | GStepStatus string goal_step_status raw
  | GVerification goal_verification
  | GVerify string verification_status string raw
  | GBinding goal_binding
  | GResolve string string
  | GFail string string
  | GReview goal_review
  | GDecide string review_status string

fun goal_op_step :: "'b goal_env \<Rightarrow> 'b goal_world \<Rightarrow> goal_op \<Rightarrow> 'b goal_world \<times> go_error option" where
  "goal_op_step env w (GCreate g) = CreateGoal env w g"
| "goal_op_step env w (GCreateFull g ss) = CreateGoalFull env w g ss"
| "goal_op_step env w (GStatus k s) = UpdateGoalStatus env w k s"
| "goal_op_step env w (GStep s) = AppendGoalStep env w s"
| "goal_op_step env w (GStepStatus k s out) = UpdateGoalStepStatus env w k s out"
| "goal_op_step env w (GVerification v) = AppendGoalVerification env w v"
| "goal_op_step env w (GVerify k s verdict ev) = UpdateGoalVerification env w k s verdict ev"
| "goal_op_step env w (GBinding b) = AppendGoalBinding env w b"
| "goal_op_step env w (GResolve k v) = ResolveGoalBinding env w k v"
| "goal_op_step env w (GFail k r) = FailGoalBinding env w k r"
| "goal_op_step env w (GReview r) = CreateGoalReview env w r"
| "goal_op_step env w (GDecide k s r) = DecideGoalReview env w k s r"

definition goal_run :: "'b goal_env \<Rightarrow> goal_op list \<Rightarrow> 'b goal_world \<Rightarrow> 'b goal_world" where
  "goal_run env ops w = fold (\<lambda>op w. fst (goal_op_step env w op)) ops w"

text \<open>The content of the tables.\<close>

abbreviation tables :: "'b goal_world \<Rightarrow> goal_tables" where
  "tables w \<equiv> db_tables (gw_db w)"

definition goal_inv :: "goal_tables \<Rightarrow> bool" where
  "goal_inv t \<longleftrightarrow> distinct (map gl_ID (gt_goals t)) \<and> distinct (map gp_ID (gt_steps t)) \<and>
     distinct (map gv_ID (gt_verifications t)) \<and> distinct (map gb_ID (gt_bindings t)) \<and>
     distinct (map gr_ID (gt_reviews t)) \<and>
     distinct (map gr_StepID (filter (\<lambda>r. gr_Status r = GoalReviewPending) (gt_reviews t)))"

lemma publish_db [simp]: "gw_db (publishGoalEvent env typ k p w) = gw_db w"
  by (simp add: publishGoalEvent_def split: option.splits)

lemma goal_write_cases:
  assumes "goal_write env w what f emit = (w', err)"
  obtains (failed) e where "err = Some (GoWrap what e)" "db_tables (gw_db w') = tables w" "gw_bus w' = gw_bus w"
  | (ok) w1 t where "err = None" "f (tables w) = Inr t" "db_tables (gw_db w1) = t" "gw_bus w1 = gw_bus w" "w' = emit w1"
proof -
  obtain d e where x: "sql_exec (ge_sql env) (gw_db w) f = (d, e)" by fastforce
  then show ?thesis
  proof (cases rule: sql_exec_cases)
    case (failed er)
    with assms x show ?thesis by (intro that(1)) (auto simp: goal_write_def)
  next
    case (ok t)
    with assms x show ?thesis by (intro that(2) [of t "w\<lparr>gw_db := d\<rparr>"]) (auto simp: goal_write_def)
  qed
qed

lemma goal_read_tables [simp]:
  "tables (fst (goal_read env w wrap f)) = tables w" "gw_bus (fst (goal_read env w wrap f)) = gw_bus w"
  by (simp_all add: goal_read_def Let_def case_prod_beta)

lemma goal_read_Inr: "snd (goal_read env w wrap f) = Inr x \<Longrightarrow> x = f (tables w)"
  by (auto simp: goal_read_def Let_def case_prod_beta sql_query_Inr split: sum.splits)

lemma pending_update:
  assumes "distinct (map gr_StepID (filter (\<lambda>r. gr_Status r = GoalReviewPending) rows))" and "s \<noteq> GoalReviewPending"
  shows "distinct (map gr_StepID (filter (\<lambda>r. gr_Status r = GoalReviewPending)
     (update_rows gr_ID k (\<lambda>x. x\<lparr>gr_Status := s, gr_DecisionReason := reason, gr_UpdatedAt := now\<rparr>) rows)))"
proof -
  have "filter (\<lambda>r. gr_Status r = GoalReviewPending)
      (update_rows gr_ID k (\<lambda>x. x\<lparr>gr_Status := s, gr_DecisionReason := reason, gr_UpdatedAt := now\<rparr>) rows) =
    filter (\<lambda>r. gr_ID r \<noteq> k) (filter (\<lambda>r. gr_Status r = GoalReviewPending) rows)"
    using assms(2) by (induction rows) (auto simp: update_rows_def)
  with distinct_map_filter [OF assms(1)] show ?thesis by simp
qed

lemma insert_review_inv:
  assumes "insert_review r rows = Inr rows'" and "distinct (map gr_ID rows)"
    and "distinct (map gr_StepID (filter (\<lambda>r. gr_Status r = GoalReviewPending) rows))"
  shows "distinct (map gr_ID rows') \<and> distinct (map gr_StepID (filter (\<lambda>r. gr_Status r = GoalReviewPending) rows'))"
  using assms by (auto simp: insert_review_def split: if_splits)

text \<open>The rows a transaction inserts for the given steps; missing sequence numbers count from one.\<close>

fun tx_rows :: "int \<Rightarrow> nat \<Rightarrow> goal_step list \<Rightarrow> goal_step list" where
  "tx_rows now i [] = []"
| "tx_rows now i (s # ss) =
     stored_step now (s\<lparr>gp_Seq := (if gp_Seq s = 0 then int i + 1 else gp_Seq s)\<rparr>) # tx_rows now (Suc i) ss"

lemma tx_rows_IDs [simp]: "map gp_ID (tx_rows now i ss) = map gp_ID ss"
  by (induction ss arbitrary: i) (simp_all add: stored_step_def)

lemma tx_steps_Inr:
  assumes "tx_steps env n now i ss t = (k, Inr t')"
  shows "t' = t\<lparr>gt_steps := gt_steps t @ tx_rows now i ss\<rparr>"
    and "distinct (map gp_ID (gt_steps t)) \<Longrightarrow> distinct (map gp_ID (gt_steps t @ tx_rows now i ss))"
proof -
  have "t' = t\<lparr>gt_steps := gt_steps t @ tx_rows now i ss\<rparr> \<and>
    (distinct (map gp_ID (gt_steps t)) \<longrightarrow> distinct (map gp_ID (gt_steps t @ tx_rows now i ss)))"
    using assms
  proof (induction ss arbitrary: n i t)
    case Nil
    then show ?case by simp
  next
    case (Cons s ss)
    define s1 where "s1 = stored_step now (s\<lparr>gp_Seq := (if gp_Seq s = 0 then int i + 1 else gp_Seq s)\<rparr>)"
    from Cons.prems have ins: "insert_row ''goal_steps.id'' gp_ID s1 (gt_steps t) = Inr (gt_steps t @ [s1])"
      and rec: "tx_steps env (Suc n) now (Suc i) ss (t\<lparr>gt_steps := gt_steps t @ [s1]\<rparr>) = (k, Inr t')"
      by (auto simp: Let_def insert_row_def s1_def [symmetric] split: option.splits if_splits)
    from Cons.IH [OF rec] insert_row_distinct [OF ins] show ?case
      unfolding tx_rows.simps s1_def [symmetric] by simp
  qed
  then show "t' = t\<lparr>gt_steps := gt_steps t @ tx_rows now i ss\<rparr>"
    "distinct (map gp_ID (gt_steps t)) \<Longrightarrow> distinct (map gp_ID (gt_steps t @ tx_rows now i ss))" by blast+
qed

lemma goal_tx_Inr:
  assumes "goal_tx env n now g ss t = (k, Inr t')"
  shows "t' = t\<lparr>gt_goals := gt_goals t @ [g], gt_steps := gt_steps t @ tx_rows now 0 ss\<rparr>"
    and "gl_ID g \<notin> gl_ID ` set (gt_goals t)"
    and "distinct (map gp_ID (gt_steps t)) \<Longrightarrow> distinct (map gp_ID (gt_steps t @ tx_rows now 0 ss))"
proof -
  from assms show new: "gl_ID g \<notin> gl_ID ` set (gt_goals t)"
    by (auto simp: goal_tx_def insert_row_def split: option.splits if_splits)
  with assms obtain k0 where tx: "tx_steps env (Suc (Suc n)) now 0 ss (t\<lparr>gt_goals := gt_goals t @ [g]\<rparr>) = (k0, Inr t')"
    by (auto simp: goal_tx_def insert_row_def split: option.splits sum.splits prod.splits)
  from tx_steps_Inr [OF tx] show "t' = t\<lparr>gt_goals := gt_goals t @ [g], gt_steps := gt_steps t @ tx_rows now 0 ss\<rparr>"
    "distinct (map gp_ID (gt_steps t)) \<Longrightarrow> distinct (map gp_ID (gt_steps t @ tx_rows now 0 ss))" by simp_all
qed

lemma stamped_goal_ID [simp]: "gl_ID (stamped_goal now g) = gl_ID g"
  by (simp add: stamped_goal_def)

lemma CreateGoalFull_cases:
  assumes "CreateGoalFull env w g ss = (w', err)"
  obtains (failed) e where "err = Some e" "tables w' = tables w" "gw_bus w' = gw_bus w"
  | (ok) w1 where "err = None"
      "w' = publishGoalEvent env ''goal.created'' (gl_ID g) (goal_json (stamped_goal (goal_now env w) g)) w1"
      "gw_bus w1 = gw_bus w" "gl_ID g \<notin> gl_ID ` set (gt_goals (tables w))"
      "tables w1 = (tables w)\<lparr>gt_goals := gt_goals (tables w) @ [stamped_goal (goal_now env w) g],
         gt_steps := gt_steps (tables w) @ tx_rows (goal_now env w) 0 ss\<rparr>"
      "distinct (map gp_ID (gt_steps (tables w))) \<longrightarrow>
         distinct (map gp_ID (gt_steps (tables w) @ tx_rows (goal_now env w) 0 ss))"
proof -
  let ?g = "stamped_goal (goal_now env w) g"
  obtain k r where tx: "goal_tx (ge_sql env) (db_stmts (gw_db w)) (goal_now env w) ?g ss (tables w) = (k, r)" by fastforce
  show ?thesis
  proof (cases r)
    case (Inl e)
    with assms tx show ?thesis by (intro failed) (auto simp: CreateGoalFull_def Let_def)
  next
    case (Inr t)
    let ?w1 = "w\<lparr>gw_db := (gw_db w)\<lparr>db_stmts := k, db_tables := t\<rparr>\<rparr>"
    from assms tx Inr have "err = None" "w' = publishGoalEvent env ''goal.created'' (gl_ID g) (goal_json ?g) ?w1"
      by (simp_all add: CreateGoalFull_def Let_def)
    moreover note G = goal_tx_Inr [OF tx [unfolded Inr]]
    ultimately show ?thesis by (intro ok [of ?w1]) simp_all
  qed
qed


lemma goal_write_tables:
  assumes "goal_write env w what f emit = (w', err)" and "\<And>x. gw_db (emit x) = gw_db x"
    and "\<And>t. f (tables w) = Inr t \<Longrightarrow> P t" and "P (tables w)"
  shows "P (tables w')"
  using assms(1)
proof (cases rule: goal_write_cases)
  case (failed e)
  with assms(4) show ?thesis by simp
next
  case (ok w1 t)
  with assms(2,3) show ?thesis by simp
qed

lemma update_rows_distinct:
  "distinct (map key rows) \<Longrightarrow> (\<And>r. key (f r) = key r) \<Longrightarrow> distinct (map key (update_rows key k f rows))"
  by (simp add: update_rows_keys)

lemma UpdateGoalVerification_tables:
  assumes "UpdateGoalVerification env w k s verdict ev = (w', err)"
  shows "tables w' = tables w \<or> (\<exists>now. tables w' = (tables w)\<lparr>gt_verifications := update_rows gv_ID k
     (\<lambda>v. v\<lparr>gv_Status := s, gv_Verdict := verdict, gv_Evidence := raw_or_empty ev, gv_UpdatedAt := now\<rparr>)
     (gt_verifications (tables w))\<rparr>)"
proof -
  let ?f = "\<lambda>t. Inr (t\<lparr>gt_verifications := update_rows gv_ID k
     (\<lambda>v. v\<lparr>gv_Status := s, gv_Verdict := verdict, gv_Evidence := raw_or_empty ev, gv_UpdatedAt := goal_now env w\<rparr>)
     (gt_verifications t)\<rparr>) :: go_error + goal_tables"
  obtain w1 e where wr: "goal_write env w ''update goal verification'' ?f id = (w1, e)" by fastforce
  then have w1: "tables w1 \<in> {tables w, projr (?f (tables w))}"
    by (cases rule: goal_write_cases) auto
  have "tables w' = tables w1"
    using assms wr goal_read_tables(1) [of env w1 id]
    by (auto simp: UpdateGoalVerification_def Let_def getGoalVerification_def case_prod_beta split: option.splits sum.splits)
  with w1 show ?thesis by auto
qed

lemma DecideGoalReview_write:
  assumes "DecideGoalReview env w k s reason = (w', err)"
  obtains (refused) "tables w' = tables w" "gw_bus w' = gw_bus w"
  | (written) w1 x kind p where "tables w1 = tables w" "gw_bus w1 = gw_bus w"
      "select_row gr_ID k (gt_reviews (tables w)) = Some x" "gr_Status x = GoalReviewPending" "s \<noteq> GoalReviewPending"
      "goal_write env w1 ''update goal review'' (\<lambda>t. Inr (t\<lparr>gt_reviews := update_rows gr_ID k
         (\<lambda>x. x\<lparr>gr_Status := s, gr_DecisionReason := reason, gr_UpdatedAt := goal_now env w1\<rparr>) (gt_reviews t)\<rparr>))
         (publishGoalEvent env kind (gr_GoalID x) p) = (w', err)"
proof -
  obtain w1 r where g: "GetGoalReview env w k = (w1, r)" by fastforce
  have w1: "tables w1 = tables w" "gw_bus w1 = gw_bus w"
    using goal_read_tables g unfolding GetGoalReview_def by (metis fst_conv)+
  show ?thesis
  proof (cases "\<exists>x. r = Inr (Some x) \<and> gr_Status x \<noteq> s \<and> gr_Status x = GoalReviewPending")
    case False
    with assms g w1 show ?thesis
      by (intro refused) (auto simp: DecideGoalReview_def split: sum.splits option.splits if_splits)
  next
    case True
    then obtain x where x: "r = Inr (Some x)" "gr_Status x \<noteq> s" "gr_Status x = GoalReviewPending" by blast
    have sel: "select_row gr_ID k (gt_reviews (tables w)) = Some x"
      using goal_read_Inr g x(1) unfolding GetGoalReview_def by (metis snd_conv)
    from assms g x w1 sel show ?thesis by (intro written) (auto simp: DecideGoalReview_def Let_def)
  qed
qed

lemma DecideGoalReview_tables:
  assumes "DecideGoalReview env w k s reason = (w', err)"
  obtains (same) "tables w' = tables w"
  | (decided) x now where "select_row gr_ID k (gt_reviews (tables w)) = Some x" "gr_Status x = GoalReviewPending"
      "s \<noteq> GoalReviewPending" "err = None"
      "tables w' = (tables w)\<lparr>gt_reviews := update_rows gr_ID k
         (\<lambda>x. x\<lparr>gr_Status := s, gr_DecisionReason := reason, gr_UpdatedAt := now\<rparr>) (gt_reviews (tables w))\<rparr>"
  using assms
proof (cases rule: DecideGoalReview_write)
  case (written w1 x kind p)
  from written(6) show ?thesis
  proof (cases rule: goal_write_cases)
    case failed
    with written(1) show ?thesis by (intro same) simp
  next
    case (ok w2 t)
    with written show ?thesis by (intro decided [of x "goal_now env w1"]) auto
  qed
qed

lemma goal_inv_step:
  assumes "goal_inv (tables w)"
  shows "goal_inv (tables (fst (goal_op_step env w op)))"
proof -
  obtain w' err where st: "goal_op_step env w op = (w', err)" by fastforce
  have "goal_inv (tables w')"
  proof (cases op)
    case (GCreate g)
    with st have wr: "CreateGoal env w g = (w', err)" by simp
    show ?thesis
      by (rule goal_write_tables [OF wr [unfolded CreateGoal_def Let_def], where P = goal_inv])
         (use assms in \<open>auto simp: goal_inv_def insert_row_def split: if_splits\<close>)
  next
    case (GCreateFull g ss)
    with st have "CreateGoalFull env w g ss = (w', err)" by simp
    then show ?thesis
      by (cases rule: CreateGoalFull_cases) (use assms in \<open>auto simp: goal_inv_def\<close>)
  next
    case (GStatus k s)
    with st have wr: "UpdateGoalStatus env w k s = (w', err)" by simp
    show ?thesis
      by (rule goal_write_tables [OF wr [unfolded UpdateGoalStatus_def Let_def], where P = goal_inv])
         (use assms in \<open>auto simp: goal_inv_def update_rows_keys\<close>)
  next
    case (GStep s)
    with st have wr: "AppendGoalStep env w s = (w', err)" by simp
    show ?thesis
      by (rule goal_write_tables [OF wr [unfolded AppendGoalStep_def Let_def], where P = goal_inv])
         (use assms in \<open>auto simp: goal_inv_def insert_row_def split: if_splits\<close>)
  next
    case (GStepStatus k s out)
    with st have wr: "UpdateGoalStepStatus env w k s out = (w', err)" by simp
    show ?thesis
      by (rule goal_write_tables [OF wr [unfolded UpdateGoalStepStatus_def Let_def], where P = goal_inv])
         (use assms in \<open>auto simp: goal_inv_def update_rows_keys\<close>)
  next
    case (GVerification v)
    with st have wr: "AppendGoalVerification env w v = (w', err)" by simp
    show ?thesis
      by (rule goal_write_tables [OF wr [unfolded AppendGoalVerification_def Let_def], where P = goal_inv])
         (use assms in \<open>auto simp: goal_inv_def insert_row_def split: if_splits\<close>)
  next
    case (GVerify k s verdict ev)
    with st have "UpdateGoalVerification env w k s verdict ev = (w', err)" by simp
    from UpdateGoalVerification_tables [OF this] assms show ?thesis by (auto simp: goal_inv_def update_rows_keys)
  next
    case (GBinding b)
    with st have wr: "AppendGoalBinding env w b = (w', err)" by simp
    show ?thesis
      by (rule goal_write_tables [OF wr [unfolded AppendGoalBinding_def Let_def], where P = goal_inv])
         (use assms in \<open>auto simp: goal_inv_def insert_row_def split: if_splits\<close>)
  next
    case (GResolve k v)
    with st have wr: "ResolveGoalBinding env w k v = (w', err)" by simp
    show ?thesis
      by (rule goal_write_tables [OF wr [unfolded ResolveGoalBinding_def Let_def], where P = goal_inv])
         (use assms in \<open>auto simp: goal_inv_def update_rows_keys\<close>)
  next
    case (GFail k r)
    with st have wr: "FailGoalBinding env w k r = (w', err)" by simp
    show ?thesis
      by (rule goal_write_tables [OF wr [unfolded FailGoalBinding_def Let_def], where P = goal_inv])
         (use assms in \<open>auto simp: goal_inv_def update_rows_keys\<close>)
  next
    case (GReview r)
    with st have wr: "CreateGoalReview env w r = (w', err)" by simp
    show ?thesis
    proof (rule goal_write_tables [OF wr [unfolded CreateGoalReview_def Let_def], where P = goal_inv])
      fix t
      let ?r = "r\<lparr>gr_CreatedAt := default_time (goal_now env w) (gr_CreatedAt r),
        gr_UpdatedAt := default_time (goal_now env w) (gr_UpdatedAt r)\<rparr>"
      assume ins: "map_sum id (\<lambda>rows. (tables w)\<lparr>gt_reviews := rows\<rparr>) (insert_review ?r (gt_reviews (tables w))) = Inr t"
      then obtain rows' where rows': "insert_review ?r (gt_reviews (tables w)) = Inr rows'"
        by (cases "insert_review ?r (gt_reviews (tables w))") simp_all
      with ins have "t = (tables w)\<lparr>gt_reviews := rows'\<rparr>" by simp
      with insert_review_inv [OF rows'] assms show "goal_inv t" by (simp add: goal_inv_def)
    qed (use assms in simp_all)
  next
    case (GDecide k s reason)
    with st have "DecideGoalReview env w k s reason = (w', err)" by simp
    then show ?thesis
      by (cases rule: DecideGoalReview_tables)
         (use assms in \<open>auto simp: goal_inv_def update_rows_keys pending_update\<close>)
  qed
  with st show ?thesis by simp
qed

section \<open>Reviews under operations\<close>

lemma map_sum_InrE: "map_sum f g x = Inr y \<Longrightarrow> (\<And>z. x = Inr z \<Longrightarrow> y = g z \<Longrightarrow> P) \<Longrightarrow> P"
  by (cases x) auto

lemma goal_write_reviews:
  assumes "goal_write env w what f emit = (w', err)" and "\<And>x. gw_db (emit x) = gw_db x"
    and "\<And>t. f (tables w) = Inr t \<Longrightarrow> gt_reviews t = gt_reviews (tables w)"
  shows "gt_reviews (tables w') = gt_reviews (tables w)"
  using goal_write_tables [OF assms(1), where P = "\<lambda>t. gt_reviews t = gt_reviews (tables w)"] assms(2,3) by simp

lemmas goal_write_ops = CreateGoal_def UpdateGoalStatus_def AppendGoalStep_def UpdateGoalStepStatus_def
  AppendGoalVerification_def AppendGoalBinding_def ResolveGoalBinding_def FailGoalBinding_def CreateGoalReview_def

lemma goal_op_reviews:
  assumes "goal_op_step env w op = (w', err)"
    and "\<And>r. op \<noteq> GReview r" and "\<And>k s reason. op \<noteq> GDecide k s reason"
  shows "gt_reviews (tables w') = gt_reviews (tables w)"
proof (cases op)
  case (GCreateFull g ss)
  with assms(1) have "CreateGoalFull env w g ss = (w', err)" by simp
  then show ?thesis by (cases rule: CreateGoalFull_cases) auto
next
  case (GVerify k s verdict ev)
  with assms(1) have "UpdateGoalVerification env w k s verdict ev = (w', err)" by simp
  from UpdateGoalVerification_tables [OF this] show ?thesis by auto
qed (use assms in \<open>auto simp: goal_write_ops Let_def elim!: goal_write_reviews map_sum_InrE\<close>)

lemma select_append: "select_row key k rows = Some x \<Longrightarrow> select_row key k (rows @ ys) = Some x"
  by (induction rows) (auto simp: select_row_def split: if_splits)

lemma decided_review_step:
  assumes row: "select_row gr_ID k (gt_reviews (tables w)) = Some x" and decided: "gr_Status x \<noteq> GoalReviewPending"
  shows "select_row gr_ID k (gt_reviews (tables (fst (goal_op_step env w op)))) = Some x"
proof -
  obtain w' err where st: "goal_op_step env w op = (w', err)" by fastforce
  have "select_row gr_ID k (gt_reviews (tables w')) = Some x"
  proof (cases op)
    case (GReview r)
    with st have wr: "CreateGoalReview env w r = (w', err)" by simp
    show ?thesis
      by (rule goal_write_tables [OF wr [unfolded CreateGoalReview_def Let_def],
            where P = "\<lambda>t. select_row gr_ID k (gt_reviews t) = Some x"])
         (use row in \<open>auto simp: insert_review_def select_append split: if_splits elim!: map_sum_InrE\<close>)
  next
    case (GDecide j s reason)
    with st have "DecideGoalReview env w j s reason = (w', err)" by simp
    then show ?thesis
    proof (cases rule: DecideGoalReview_tables)
      case same
      with row show ?thesis by simp
    next
      case (decided y now)
      with row \<open>gr_Status x \<noteq> GoalReviewPending\<close> have "j \<noteq> k" by auto
      with decided row show ?thesis by (simp add: select_update)
    qed
  qed (use goal_op_reviews [OF st] row in simp_all)
  with st show ?thesis by simp
qed

text \<open>What an operation publishes: nothing, or one event whose source is the goal store.\<close>

definition one_event :: "'b goal_env \<Rightarrow> 'b goal_world \<Rightarrow> 'b goal_world \<Rightarrow> bool" where
  "one_event env w w' \<longleftrightarrow> (case ge_publish env of
     None \<Rightarrow> gw_bus w' = gw_bus w
   | Some f \<Rightarrow> \<exists>ev. ev_Source ev = ''goal'' \<and> gw_bus w' = f (gw_bus w) ev)"

lemma one_event_publish:
  assumes "gw_bus w1 = gw_bus w"
  shows "one_event env w (publishGoalEvent env typ k p w1)"
proof (cases "ge_publish env")
  case None
  with assms show ?thesis by (simp add: one_event_def publishGoalEvent_def)
next
  case (Some f)
  let ?ev = "zero_event\<lparr>ev_Type := typ, ev_Source := ''goal'', ev_Message := k, ev_Data := json_marshal p\<rparr>"
  have "ev_Source ?ev = ''goal'' \<and> gw_bus (publishGoalEvent env typ k p w1) = f (gw_bus w) ?ev"
    using assms Some by (simp add: publishGoalEvent_def)
  then show ?thesis unfolding one_event_def Some option.case by (rule exI)
qed

lemma goal_write_events:
  assumes "goal_write env w what f emit = (w', err)" and "\<And>v. gw_bus v = gw_bus w \<Longrightarrow> one_event env w (emit v)"
  shows "(err = None \<longrightarrow> one_event env w w') \<and> (err \<noteq> None \<longrightarrow> gw_bus w' = gw_bus w)"
  using assms(1) by (cases rule: goal_write_cases) (auto intro: assms(2))

lemma UpdateGoalVerification_events:
  assumes "UpdateGoalVerification env w k s verdict ev = (w', err)"
  shows "(err = None \<longrightarrow> one_event env w w') \<and> (err \<noteq> None \<longrightarrow> gw_bus w' = gw_bus w)"
proof -
  let ?f = "\<lambda>t. Inr (t\<lparr>gt_verifications := update_rows gv_ID k
     (\<lambda>v. v\<lparr>gv_Status := s, gv_Verdict := verdict, gv_Evidence := raw_or_empty ev, gv_UpdatedAt := goal_now env w\<rparr>)
     (gt_verifications t)\<rparr>) :: go_error + goal_tables"
  obtain w1 e where wr: "goal_write env w ''update goal verification'' ?f id = (w1, e)" by fastforce
  then have w1: "gw_bus w1 = gw_bus w" by (cases rule: goal_write_cases) auto
  obtain w2 r where g: "getGoalVerification env w1 k = (w2, r)" by fastforce
  have "gw_bus w2 = gw_bus w" using goal_read_tables(2) g w1 unfolding getGoalVerification_def by (metis fst_conv)
  with assms wr g w1 show ?thesis
    by (auto simp: UpdateGoalVerification_def Let_def one_event_publish split: option.splits sum.splits)
qed

lemma DecideGoalReview_events:
  assumes "DecideGoalReview env w k s reason = (w', err)"
  shows "(err = None \<longrightarrow> gw_bus w' = gw_bus w \<or> one_event env w w') \<and> (err \<noteq> None \<longrightarrow> gw_bus w' = gw_bus w)"
proof -
  from assms show ?thesis
  proof (cases rule: DecideGoalReview_write)
    case (written w1 x kind p)
    from written(2) have "one_event env w1 w' = one_event env w w'" by (simp add: one_event_def cong: option.case_cong)
    with goal_write_events [OF written(6) one_event_publish] written(2) show ?thesis by simp
  qed simp
qed

lemma goal_op_step_events:
  assumes "goal_op_step env w op = (w', err)"
  shows "(err = None \<longrightarrow> gw_bus w' = gw_bus w \<or> one_event env w w') \<and> (err \<noteq> None \<longrightarrow> gw_bus w' = gw_bus w)"
proof (cases op)
  case (GCreateFull g ss)
  with assms have "CreateGoalFull env w g ss = (w', err)" by simp
  then show ?thesis by (cases rule: CreateGoalFull_cases) (auto intro: one_event_publish)
next
  case (GVerify k s verdict ev)
  with assms have "UpdateGoalVerification env w k s verdict ev = (w', err)" by simp
  from UpdateGoalVerification_events [OF this] show ?thesis by auto
next
  case (GDecide k s reason)
  with assms have "DecideGoalReview env w k s reason = (w', err)" by simp
  from DecideGoalReview_events [OF this] show ?thesis .
qed (use assms in \<open>auto simp: goal_write_ops Let_def dest!: goal_write_events [OF _ one_event_publish]\<close>)

section \<open>Atomic creation\<close>

lemma tx_steps_ok:
  assumes "\<And>k. sq_fault env k = None" and "distinct (map gp_ID ss)"
    and "gp_ID ` set ss \<inter> gp_ID ` set (gt_steps t) = {}"
  shows "\<exists>k t'. tx_steps env n now i ss t = (k, Inr t')"
  using assms(2,3)
proof (induction ss arbitrary: n i t)
  case Nil
  then show ?case by simp
next
  case (Cons s ss)
  let ?s = "stored_step now (s\<lparr>gp_Seq := (if gp_Seq s = 0 then int i + 1 else gp_Seq s)\<rparr>)"
  have ID: "gp_ID ?s = gp_ID s" by (simp add: stored_step_def)
  with Cons.prems have "insert_row ''goal_steps.id'' gp_ID ?s (gt_steps t) = Inr (gt_steps t @ [?s])"
    by (simp add: insert_row_def)
  moreover have "\<exists>k t'. tx_steps env (Suc n) now (Suc i) ss (t\<lparr>gt_steps := gt_steps t @ [?s]\<rparr>) = (k, Inr t')"
    using Cons.prems ID by (intro Cons.IH) auto
  ultimately show ?case by (simp add: assms(1) Let_def)
qed

lemma CreateGoalFull_ok:
  assumes "\<And>k. sq_fault (ge_sql env) k = None" and "gl_ID g \<notin> gl_ID ` set (gt_goals (tables w))"
    and "distinct (map gp_ID ss)" and "gp_ID ` set ss \<inter> gp_ID ` set (gt_steps (tables w)) = {}"
  shows "snd (CreateGoalFull env w g ss) = None"
proof -
  let ?g = "stamped_goal (goal_now env w) g"
  let ?t = "(tables w)\<lparr>gt_goals := gt_goals (tables w) @ [?g]\<rparr>"
  obtain k t' where "tx_steps (ge_sql env) (Suc (Suc (db_stmts (gw_db w)))) (goal_now env w) 0 ss ?t = (k, Inr t')"
    using tx_steps_ok [OF assms(1,3), where t = ?t] assms(4) by fastforce
  with assms(1,2) show ?thesis by (simp add: CreateGoalFull_def goal_tx_def insert_row_def Let_def)
qed

section \<open>Properties\<close>

definition demo_goal_env :: "event list goal_env" where
  "demo_goal_env = \<lparr>ge_sql = \<lparr>sq_fault = (\<lambda>_. None), sq_now = (\<lambda>n. 100 + int n)\<rparr>, ge_publish = Some (\<lambda>evs e. evs @ [e])\<rparr>"

definition demo_goal_world :: "event list goal_world" where
  "demo_goal_world = \<lparr>gw_db = \<lparr>db_tables = empty_goal_tables, db_stmts = 0\<rparr>, gw_bus = []\<rparr>"

definition demo_goal :: goal where
  "demo_goal = \<lparr>gl_ID = ''g1'', gl_Description = ''d'', gl_Status = GoalCreated, gl_Packages = [], gl_SandboxIDs = [],
     gl_CreatedAt = 0, gl_UpdatedAt = 0\<rparr>"

definition demo_goal_step :: goal_step where
  "demo_goal_step = \<lparr>gp_ID = ''s1'', gp_GoalID = ''g1'', gp_Primitive = ''fs.write'', gp_Input = RawNil, gp_Output = RawNil,
     gp_Status = GoalStepPending, gp_CheckpointID = [], gp_RiskLevel = ''high'', gp_Reversible = False, gp_Seq = 0,
     gp_CreatedAt = 0, gp_UpdatedAt = 0\<rparr>"

definition demo_review :: goal_review where
  "demo_review = \<lparr>gr_ID = ''r1'', gr_GoalID = ''g1'', gr_StepID = ''s1'', gr_Status = GoalReviewPending,
     gr_Primitive = ''fs.write'', gr_RiskLevel = ''high'', gr_Reversible = False, gr_SideEffect = [],
     gr_DecisionReason = [], gr_CreatedAt = 0, gr_UpdatedAt = 0\<rparr>"

lemmas demo_goal_defs = demo_goal_env_def demo_goal_world_def demo_goal_def demo_goal_step_def demo_review_def
  empty_goal_tables_def

text \<open>
  C28. From an empty store, whatever sequence of operations runs and whichever of their statements
  fail, the identifiers of goals, steps, verifications, bindings and reviews stay unique and no
  step has two pending reviews.
\<close>

theorem goal_store_inv:
  assumes "tables w = empty_goal_tables"
  shows "goal_inv (tables (goal_run env ops w))"
proof -
  have "goal_inv (tables v) \<Longrightarrow> goal_inv (tables (goal_run env ops v))" for v
    by (induction ops arbitrary: v) (simp_all add: goal_run_def goal_inv_step)
  with assms show ?thesis by (simp add: goal_inv_def empty_goal_tables_def)
qed

theorem goal_store_inv_witness:
  "goal_inv (tables (goal_run demo_goal_env [GCreateFull demo_goal [demo_goal_step], GReview demo_review, GReview demo_review,
     GDecide ''r1'' GoalReviewApproved ''ok'', GReview (demo_review\<lparr>gr_ID := ''r2''\<rparr>)] demo_goal_world))"
  by (rule goal_store_inv) (simp add: demo_goal_defs)

text \<open>
  C29. \<open>CreateGoalFull\<close> is atomic: when it returns an error the tables are as before and nothing is
  published; otherwise the goal and all its steps, numbered from one where they have no sequence
  number, are in the tables and exactly one event was published. It does succeed when no statement
  fails and the identifiers are new.
\<close>

theorem create_goal_full_atomic:
  assumes "CreateGoalFull env w g ss = (w', err)"
  shows "(err \<noteq> None \<longrightarrow> tables w' = tables w \<and> gw_bus w' = gw_bus w) \<and>
    (err = None \<longrightarrow> one_event env w w' \<and>
      tables w' = (tables w)\<lparr>gt_goals := gt_goals (tables w) @ [stamped_goal (goal_now env w) g],
        gt_steps := gt_steps (tables w) @ tx_rows (goal_now env w) 0 ss\<rparr>) \<and>
    ((\<forall>k. sq_fault (ge_sql env) k = None) \<and> gl_ID g \<notin> gl_ID ` set (gt_goals (tables w)) \<and>
      distinct (map gp_ID ss) \<and> gp_ID ` set ss \<inter> gp_ID ` set (gt_steps (tables w)) = {} \<longrightarrow> err = None)"
proof (intro conjI)
  from assms show "err \<noteq> None \<longrightarrow> tables w' = tables w \<and> gw_bus w' = gw_bus w"
    by (cases rule: CreateGoalFull_cases) auto
  from assms show "err = None \<longrightarrow> one_event env w w' \<and>
      tables w' = (tables w)\<lparr>gt_goals := gt_goals (tables w) @ [stamped_goal (goal_now env w) g],
        gt_steps := gt_steps (tables w) @ tx_rows (goal_now env w) 0 ss\<rparr>"
    by (cases rule: CreateGoalFull_cases) (auto intro: one_event_publish)
  from CreateGoalFull_ok [of env g w ss] assms
  show "(\<forall>k. sq_fault (ge_sql env) k = None) \<and> gl_ID g \<notin> gl_ID ` set (gt_goals (tables w)) \<and>
      distinct (map gp_ID ss) \<and> gp_ID ` set ss \<inter> gp_ID ` set (gt_steps (tables w)) = {} \<longrightarrow> err = None"
    by auto
qed

theorem create_goal_full_atomic_witness:
  "\<exists>w'. CreateGoalFull demo_goal_env demo_goal_world demo_goal [demo_goal_step] = (w', None) \<and>
     map gp_Seq (gt_steps (tables w')) = [1]"
proof -
  obtain w' err where run: "CreateGoalFull demo_goal_env demo_goal_world demo_goal [demo_goal_step] = (w', err)" by fastforce
  have "err = None" using create_goal_full_atomic [OF run] by (simp add: demo_goal_defs)
  with create_goal_full_atomic [OF run] run show ?thesis by (simp add: demo_goal_defs stored_step_def)
qed

text \<open>
  C26. A review decision is final: once a review is approved or rejected, its row stays as it is under
  any sequence of store operations, and a further decision is an idempotent success if it repeats the
  recorded one and a conflict if it contradicts it, in both cases without an event.
\<close>

theorem review_decision_final:
  assumes "select_row gr_ID k (gt_reviews (tables w)) = Some x" and "gr_Status x \<noteq> GoalReviewPending"
  shows "select_row gr_ID k (gt_reviews (tables (goal_run env ops w))) = Some x \<and>
    (sq_fault (ge_sql env) (db_stmts (gw_db w)) = None \<longrightarrow>
      (\<exists>w'. DecideGoalReview env w k s reason = (w', if s = gr_Status x then None else Some ErrReviewConflict) \<and>
         tables w' = tables w \<and> gw_bus w' = gw_bus w))"
proof
  show "select_row gr_ID k (gt_reviews (tables (goal_run env ops w))) = Some x"
    using assms by (induction ops arbitrary: w) (simp_all add: goal_run_def decided_review_step)
  show "sq_fault (ge_sql env) (db_stmts (gw_db w)) = None \<longrightarrow>
      (\<exists>w'. DecideGoalReview env w k s reason = (w', if s = gr_Status x then None else Some ErrReviewConflict) \<and>
         tables w' = tables w \<and> gw_bus w' = gw_bus w)"
    using assms by (auto simp: DecideGoalReview_def GetGoalReview_def goal_read_def sql_query_def Let_def)
qed

theorem review_decision_final_witness:
  "let w = goal_run demo_goal_env [GReview demo_review, GDecide ''r1'' GoalReviewRejected ''no''] demo_goal_world
   in \<exists>x. gr_Status x = GoalReviewRejected \<and>
     select_row gr_ID ''r1'' (gt_reviews (tables (goal_run demo_goal_env [GDecide ''r1'' GoalReviewApproved ''yes''] w))) = Some x"
proof -
  let ?w = "goal_run demo_goal_env [GReview demo_review, GDecide ''r1'' GoalReviewRejected ''no''] demo_goal_world"
  have "map_option gr_Status (select_row gr_ID ''r1'' (gt_reviews (tables ?w))) = Some GoalReviewRejected"
    by code_simp
  then obtain x where x: "select_row gr_ID ''r1'' (gt_reviews (tables ?w)) = Some x" "gr_Status x = GoalReviewRejected"
    by auto
  with review_decision_final [OF x(1), of demo_goal_env "[GDecide ''r1'' GoalReviewApproved ''yes'']"] show ?thesis
    by (auto simp: Let_def)
qed

text \<open>
  Operations of the goal store write first and publish afterwards: an operation that fails
  publishes nothing, and one that succeeds publishes one event of the goal store, or none at all.
\<close>

theorem goal_write_then_publish:
  assumes "goal_op_step env w op = (w', err)"
  shows "(err \<noteq> None \<longrightarrow> gw_bus w' = gw_bus w) \<and> (gw_bus w' = gw_bus w \<or> one_event env w w')"
  using goal_op_step_events [OF assms] by auto

theorem goal_write_then_publish_witness:
  "gw_bus (fst (goal_op_step demo_goal_env (goal_run demo_goal_env [GCreate demo_goal] demo_goal_world) (GCreate demo_goal))) =
   gw_bus (goal_run demo_goal_env [GCreate demo_goal] demo_goal_world)"
proof -
  let ?w = "goal_run demo_goal_env [GCreate demo_goal] demo_goal_world"
  obtain w' err where run: "goal_op_step demo_goal_env ?w (GCreate demo_goal) = (w', err)" by fastforce
  have "snd (goal_op_step demo_goal_env ?w (GCreate demo_goal)) \<noteq> None" by code_simp
  with run have "err \<noteq> None" by simp
  with goal_write_then_publish [OF run] run show ?thesis by simp
qed

end
