(* ===== verification/Runtime.thy ===== *)
theory Runtime
  imports HostPrims GoalStore "HOL-Library.AList"
begin

text \<open>
  The runtime host, \<open>internal/runtime/runtime.go\<close> and \<open>adapter.go\<close>: it registers the built-in primitives and the
  primitives of adapter processes, and executes a call with a checkpoint before it, a verifier after it and
  a restore when it failed. Starting a process, HTTP, the clock, the expiry of the deadline of a call and random
  identifiers are parameters. The trace file is the list of the records written to it; it is taken to lie
  outside the workspace.
\<close>

section \<open>Adapters\<close>

record adapter_manifest =
  ad_Name :: string
  ad_Version :: string
  ad_Transport :: string
  ad_Command :: string
  ad_Args :: "string list"
  ad_Primitives :: "prim_schema list"

record adapter_registration =
  ar_Adapter :: string
  ar_Version :: string
  ar_Transport :: string
  ar_Endpoint :: string
  ar_Socket :: string
  ar_Pid :: int

record adapter_process =
  ap_manifest :: adapter_manifest
  ap_registration :: adapter_registration

definition dec_intent_metadata :: "raw \<Rightarrow> intent_metadata decoded" where
  "dec_intent_metadata r =
     dec_bind (dec_map r) (\<lambda>m.
     dec_bind (field_string m ''category'') (\<lambda>c.
     dec_bind (field_string m ''side_effect'') (\<lambda>s.
     dec_bind (field_bool m ''reversible'') (\<lambda>v.
     dec_bind (field_string m ''risk_level'') (\<lambda>k.
       Inr \<lparr>im_Category = category_of c, im_SideEffect = s, im_Reversible = v, im_RiskLevel = risk_of k\<rparr>)))))"

definition dec_prim_schema :: "json \<Rightarrow> prim_schema decoded" where
  "dec_prim_schema j =
     dec_bind (dec_map (Raw j)) (\<lambda>m.
     dec_bind (field_string m ''name'') (\<lambda>name.
     dec_bind (field_string m ''namespace'') (\<lambda>ns.
     dec_bind (field_string m ''description'') (\<lambda>d.
     dec_bind (field_string m ''side_effect'') (\<lambda>se.
     dec_bind (field_bool m ''checkpoint_required'') (\<lambda>cr.
     dec_bind (field_int m ''timeout_ms'') (\<lambda>t.
     dec_bind (field_string m ''scope'') (\<lambda>sc.
     dec_bind (field_string m ''verifier_hint'') (\<lambda>vh.
     dec_bind (field_string m ''ui_layout_hint'') (\<lambda>ui.
     dec_bind (field_string m ''source'') (\<lambda>src.
     dec_bind (field_string m ''adapter'') (\<lambda>ad.
     dec_bind (field_string m ''status'') (\<lambda>st.
     dec_bind (case jget m ''intent'' of None \<Rightarrow> Inr zero_intent_metadata | Some i \<Rightarrow> dec_intent_metadata (Raw i)) (\<lambda>i.
       Inr \<lparr>ps_Name = name, ps_Namespace = ns, ps_Description = d, ps_Input = field_raw m ''input'', ps_Output = field_raw m ''output'',
            ps_InputSchema = field_raw m ''input_schema'', ps_OutputSchema = field_raw m ''output_schema'', ps_SideEffect = se,
            ps_CheckpointRequired = cr, ps_TimeoutMs = t, ps_Scope = sc, ps_VerifierHint = vh, ps_UILayoutHint = ui,
            ps_Source = src, ps_Adapter = ad, ps_Status = st, ps_Intent = i\<rparr>))))))))))))))"

definition dec_adapter_manifest :: "raw \<Rightarrow> adapter_manifest decoded" where
  "dec_adapter_manifest r =
     dec_bind (dec_map r) (\<lambda>m.
     dec_bind (field_string m ''name'') (\<lambda>name.
     dec_bind (field_string m ''version'') (\<lambda>v.
     dec_bind (field_string m ''transport'') (\<lambda>t.
     dec_bind (field_string m ''command'') (\<lambda>c.
     dec_bind (field_strings m ''args'') (\<lambda>a.
     dec_bind (field_list dec_prim_schema m ''primitives'') (\<lambda>ps.
       Inr \<lparr>ad_Name = name, ad_Version = v, ad_Transport = t, ad_Command = c, ad_Args = a, ad_Primitives = ps\<rparr>)))))))"

definition dec_registration :: "raw \<Rightarrow> adapter_registration decoded" where
  "dec_registration r =
     dec_bind (dec_map r) (\<lambda>m.
     dec_bind (field_string m ''adapter'') (\<lambda>a.
     dec_bind (field_string m ''version'') (\<lambda>v.
     dec_bind (field_string m ''transport'') (\<lambda>t.
     dec_bind (field_string m ''endpoint'') (\<lambda>e.
     dec_bind (field_string m ''socket'') (\<lambda>s.
     dec_bind (field_int m ''pid'') (\<lambda>p.
       Inr \<lparr>ar_Adapter = a, ar_Version = v, ar_Transport = t, ar_Endpoint = e, ar_Socket = s, ar_Pid = p\<rparr>)))))))"

text \<open>
  The manifests below the directory of the apps, given by its entries and which of them are
  directories, then the embedded ones that none of those replaces by name. A file that cannot be read
  is skipped, one that does not decode is an error.
\<close>

definition manifest_path :: "string \<times> bool \<Rightarrow> fpath option" where
  "manifest_path e = (if snd e then Some [fst e, ''manifest.json''] else if has_suffix (fst e) ''.json'' then Some [fst e] else None)"

fun read_manifests :: "(fpath \<Rightarrow> raw option) \<Rightarrow> (string \<times> bool) list \<Rightarrow> go_error + adapter_manifest list" where
  "read_manifests rd [] = Inr []"
| "read_manifests rd (e # es) =
     (case Option.bind (manifest_path e) rd of
        None \<Rightarrow> read_manifests rd es
      | Some data \<Rightarrow> dec_bind (dec_adapter_manifest data) (\<lambda>m. dec_bind (read_manifests rd es) (\<lambda>ms. Inr (m # ms))))"

fun embedded_manifests :: "string set \<Rightarrow> raw list \<Rightarrow> go_error + adapter_manifest list" where
  "embedded_manifests seen [] = Inr []"
| "embedded_manifests seen (data # ds) =
     dec_bind (dec_adapter_manifest data) (\<lambda>m.
     dec_bind (embedded_manifests seen ds) (\<lambda>ms. Inr (if ad_Name m \<in> seen then ms else m # ms)))"

definition loadManifests :: "(fpath \<Rightarrow> raw option) \<Rightarrow> (string \<times> bool) list \<Rightarrow> raw list \<Rightarrow> go_error + adapter_manifest list" where
  "loadManifests rd entries embedded =
     dec_bind (read_manifests rd entries) (\<lambda>ms.
     dec_bind (embedded_manifests (ad_Name ` set ms) embedded) (\<lambda>es. Inr (ms @ es)))"

text \<open>How a process that was started reports itself: its first line, decoded, and its process number.\<close>

datatype adapter_start =
    AdapterNoStart go_error
  | AdapterLine raw int
  | AdapterReadErr go_error string
  | AdapterSilent

record 'x adapter_os =
  ae_lookpath :: "string \<Rightarrow> string option"
  ae_executable :: "go_error + string"
  ae_exists :: "string \<Rightarrow> bool"
  ae_start :: "'x host_world \<Rightarrow> string \<Rightarrow> string list \<Rightarrow> 'x host_world \<times> adapter_start"
  ae_kill :: "'x host_world \<Rightarrow> int \<Rightarrow> 'x host_world \<times> go_error option"
  ae_http :: "'x host_world \<Rightarrow> adapter_registration \<Rightarrow> string \<Rightarrow> json \<Rightarrow> 'x host_world \<times> (go_error + (go_error + raw))"

definition resolveAdapterCommand :: "'x adapter_os \<Rightarrow> string \<Rightarrow> go_error + string" where
  "resolveAdapterCommand ae command =
     (case ae_lookpath ae command of
        Some p \<Rightarrow> Inr p
      | None \<Rightarrow>
          (case ae_executable ae of
             Inl e \<Rightarrow> Inl (GoWrap (''resolve adapter command '' @ command) e)
           | Inr dir \<Rightarrow>
               (let candidate = dir @ ''/'' @ command
                in if ae_exists ae candidate then Inr candidate
                   else Inl (GoErr (''adapter command not found: '' @ command)))))"

definition startAdapterProcess ::
  "'x adapter_os \<Rightarrow> string \<Rightarrow> 'x host_world \<Rightarrow> adapter_manifest \<Rightarrow> 'x host_world \<times> (go_error + adapter_process)" where
  "startAdapterProcess ae workspace w m =
     (case resolveAdapterCommand ae (ad_Command m) of
        Inl e \<Rightarrow> (w, Inl e)
      | Inr command \<Rightarrow>
          (let (w1, s) = ae_start ae w command (map (\<lambda>a. replace_all a ''{{workspace}}'' workspace) (ad_Args m))
           in (w1, case s of
                 AdapterNoStart e \<Rightarrow> Inl e
               | AdapterLine line pid \<Rightarrow>
                   (case dec_registration line of
                      Inl e \<Rightarrow> Inl (GoWrap (''invalid adapter registration for '' @ ad_Name m) e)
                    | Inr reg \<Rightarrow> Inr \<lparr>ap_manifest = m, ap_registration = reg\<lparr>ar_Pid := pid\<rparr>\<rparr>)
               | AdapterReadErr e err \<Rightarrow>
                   Inl (GoErr (''adapter '' @ ad_Name m @ '' failed to register: '' @ error_text e @ '' ('' @ err @ '')''))
               | AdapterSilent \<Rightarrow> Inl (GoErr (''adapter '' @ ad_Name m @ '' registration timed out'')))))"

definition adapter_Close :: "'x adapter_os \<Rightarrow> 'x host_world \<Rightarrow> adapter_process \<Rightarrow> 'x host_world \<times> go_error option" where
  "adapter_Close ae w p =
     (let (w1, err) = ae_kill ae w (ar_Pid (ap_registration p))
      in (w1, case err of
                None \<Rightarrow> None
              | Some e \<Rightarrow> (if contains_str (error_text e) ''finished'' then None else Some e)))"

definition dec_remote_result :: "raw \<Rightarrow> (go_error + prim_result) decoded" where
  "dec_remote_result r =
     dec_bind (dec_map r) (\<lambda>m.
     dec_bind (case jget m ''result'' of
                 None \<Rightarrow> Inr zero_prim_result
               | Some j \<Rightarrow>
                   dec_bind (dec_map (Raw j)) (\<lambda>x.
                   dec_bind (field_int x ''duration_ms'') (\<lambda>d.
                   dec_bind (field_string x ''diff'') (\<lambda>df.
                   dec_bind (field_string x ''warning'') (\<lambda>wn.
                     Inr \<lparr>pr_Data = field_any x ''data'', pr_Duration = d, pr_Diff = df, pr_Warning = wn\<rparr>))))) (\<lambda>res.
     dec_bind (case jget m ''error'' of
                 None \<Rightarrow> Inr None
               | Some JNull \<Rightarrow> Inr None
               | Some j \<Rightarrow>
                   dec_bind (dec_map (Raw j)) (\<lambda>x.
                   dec_bind (field_int x ''code'') (\<lambda>_.
                   dec_bind (field_string x ''message'') (\<lambda>msg. Inr (Some msg))))) (\<lambda>err.
       Inr (case err of Some msg \<Rightarrow> Inl (PrimitiveError ''EXECUTION_ERROR'' msg) | None \<Rightarrow> Inr res))))"

text \<open>The POST of one JSON-RPC request; the inner error is one of reading the body of the response.\<close>

definition remote_Call ::
  "'x adapter_os \<Rightarrow> adapter_registration \<Rightarrow> string \<Rightarrow> 'x host_world \<Rightarrow> raw \<Rightarrow> 'x host_world \<times> (go_error + prim_result)" where
  "remote_Call ae reg method w params =
     (let body = JObj [(''id'', JStr ''adapter-call''), (''jsonrpc'', JStr ''2.0''), (''method'', JStr method), (''params'', raw_json params)];
          url = (if ar_Transport reg = ''unix'' then ''http://unix/rpc'' else ar_Endpoint reg @ ''/rpc'');
          (w1, r) = ae_http ae w reg url body
      in (w1, case r of
                Inl e \<Rightarrow> Inl (GoWrap (''adapter '' @ ar_Adapter reg @ '' unavailable'') e)
              | Inr (Inl e) \<Rightarrow> Inl e
              | Inr (Inr resp) \<Rightarrow> (case dec_remote_result resp of Inl e \<Rightarrow> Inl e | Inr x \<Rightarrow> x)))"

definition remotePrimitive :: "'x adapter_os \<Rightarrow> adapter_registration \<Rightarrow> prim_schema \<Rightarrow> 'x host_world prim" where
  "remotePrimitive ae reg s =
     \<lparr>pm_Name = ps_Name s, pm_Category = ps_Namespace s, pm_Schema = EnrichSchema s, pm_Execute = remote_Call ae reg (ps_Name s)\<rparr>"

section \<open>The runtime\<close>

record 'x runtime =
  rt_env :: "'x host_env"
  rt_adapters_env :: "'x adapter_os"
  rt_dir :: fpath
  rt_workspace :: string
  rt_sandbox :: string
  rt_raw :: "(string \<times> 'x host_world prim) list"
  rt_schemas :: "(string \<times> prim_schema) list"
  rt_registry :: "string list"
  rt_adapters :: "adapter_process list"
  rt_expired :: "'x host_world \<Rightarrow> bool"
  rt_uuid :: "nat \<Rightarrow> string"
  rt_clock :: "'x host_world \<Rightarrow> int"
  rt_log_ok :: "'x host_world \<Rightarrow> bool"

text \<open>The world of the runtime: the host, the records in the trace file, the last record of the caller's recorder, and how
  many identifiers were drawn.\<close>

record 'x rt_world =
  rw_host :: "'x host_world"
  rw_trace :: "trace_record list"
  rw_recorder :: "trace_record option"
  rw_ids :: nat

text \<open>The maps keep one entry per name; the registry refuses a second registration, after the maps were updated.\<close>

definition registerRawPrimitive :: "'x runtime \<Rightarrow> 'x host_world prim \<Rightarrow> prim_schema \<Rightarrow> 'x runtime \<times> go_error option" where
  "registerRawPrimitive rt p s =
     (let n = pm_Name p;
          rt1 = rt\<lparr>rt_raw := AList.update n p (rt_raw rt), rt_schemas := AList.update n s (rt_schemas rt)\<rparr>
      in if n \<in> set (rt_registry rt) then (rt1, Some (GoErr (''primitive already registered: '' @ n)))
         else (rt1\<lparr>rt_registry := rt_registry rt @ [n]\<rparr>, None))"

fun register_all :: "'x runtime \<Rightarrow> ('x host_world prim \<times> prim_schema) list \<Rightarrow> 'x runtime \<times> go_error option" where
  "register_all rt [] = (rt, None)"
| "register_all rt ((p, s) # ps) =
     (let (rt1, err) = registerRawPrimitive rt p s
      in case err of Some e \<Rightarrow> (rt1, Some e) | None \<Rightarrow> register_all rt1 ps)"

text \<open>\<open>None\<close>: the registration of the built-in primitives panics.\<close>

definition registerSystemPrimitives :: "(string \<Rightarrow> 'x host_world prim) \<Rightarrow> 'x runtime \<Rightarrow> ('x runtime \<times> go_error option) option" where
  "registerSystemPrimitives mk rt =
     (case Option.bind (RegisterDefaults mk NewRegistry) (RegisterSandboxExtras mk) of
        None \<Rightarrow> None
      | Some reg \<Rightarrow> Some (register_all rt (map (\<lambda>p. (p, EnrichSchema (pm_Schema p))) (Registered reg))))"

definition adapter_primitives :: "'x adapter_os \<Rightarrow> adapter_process \<Rightarrow> ('x host_world prim \<times> prim_schema) list" where
  "adapter_primitives ae p =
     map (\<lambda>s. let raw = (EnrichSchema s)\<lparr>ps_Source := ''app'', ps_Adapter := ad_Name (ap_manifest p)\<rparr>
              in (remotePrimitive ae (ap_registration p) raw, raw)) (ad_Primitives (ap_manifest p))"

fun load_all :: "'x host_world \<Rightarrow> 'x runtime \<Rightarrow> adapter_manifest list \<Rightarrow> 'x host_world \<times> 'x runtime \<times> go_error option" where
  "load_all w rt [] = (w, rt, None)"
| "load_all w rt (m # ms) =
     (let (w1, r) = startAdapterProcess (rt_adapters_env rt) (rt_workspace rt) w m
      in case r of
           Inl e \<Rightarrow> (w1, rt, Some e)
         | Inr p \<Rightarrow>
             (let (rt1, err) = register_all (rt\<lparr>rt_adapters := rt_adapters rt @ [p]\<rparr>) (adapter_primitives (rt_adapters_env rt) p)
              in case err of Some e \<Rightarrow> (w1, rt1, Some e) | None \<Rightarrow> load_all w1 rt1 ms))"

definition loadAdapters ::
  "'x host_world \<Rightarrow> 'x runtime \<Rightarrow> (fpath \<Rightarrow> raw option) \<Rightarrow> (string \<times> bool) list \<Rightarrow> raw list
   \<Rightarrow> 'x host_world \<times> 'x runtime \<times> go_error option" where
  "loadAdapters w rt rd entries embedded =
     (case loadManifests rd entries embedded of Inl e \<Rightarrow> (w, rt, Some e) | Inr ms \<Rightarrow> load_all w rt ms)"

text \<open>\<open>New\<close>, on a runtime with empty tables. A failure returns only the error: processes already started run on.\<close>

definition NewRuntime ::
  "(string \<Rightarrow> 'x host_world prim) \<Rightarrow> (fpath \<Rightarrow> raw option) \<Rightarrow> (string \<times> bool) list \<Rightarrow> raw list \<Rightarrow> 'x host_world \<Rightarrow> 'x runtime
   \<Rightarrow> ('x host_world \<times> (go_error + 'x runtime)) option" where
  "NewRuntime mk rd entries embedded w rt0 =
     (let rt = rt0\<lparr>rt_raw := [], rt_schemas := [], rt_registry := [], rt_adapters := []\<rparr>
      in case registerSystemPrimitives mk rt of
           None \<Rightarrow> None
         | Some (rt1, Some e) \<Rightarrow> Some (w, Inl e)
         | Some (rt1, None) \<Rightarrow>
             (let (w1, rt2, err) = loadAdapters w rt1 rd entries embedded
              in Some (w1, case err of Some e \<Rightarrow> Inl e | None \<Rightarrow> Inr rt2)))"

fun close_all :: "'x adapter_os \<Rightarrow> 'x host_world \<Rightarrow> adapter_process list \<Rightarrow> 'x host_world \<times> go_error option" where
  "close_all ae w [] = (w, None)"
| "close_all ae w (p # ps) =
     (let (w1, e1) = adapter_Close ae w p; (w2, e2) = close_all ae w1 ps
      in (w2, case e1 of Some e \<Rightarrow> Some e | None \<Rightarrow> e2))"

definition runtime_Close :: "'x runtime \<Rightarrow> 'x host_world \<Rightarrow> 'x host_world \<times> go_error option" where
  "runtime_Close rt w = close_all (rt_adapters_env rt) w (rt_adapters rt)"

section \<open>Failures\<close>

definition extractPassed :: "prim_result \<Rightarrow> bool" where
  "extractPassed r = (case dec_map (Raw (pr_Data r)) of Inl _ \<Rightarrow> False | Inr m \<Rightarrow> jget m ''passed'' = Some (JBool True))"

definition mentions :: "string \<Rightarrow> string \<Rightarrow> bool" where
  "mentions s word = contains_str (to_lower s) word"

definition classifyFailure :: "string \<Rightarrow> prim_result \<Rightarrow> go_error option \<Rightarrow> bool \<Rightarrow> string" where
  "classifyFailure method result err late =
     (if late then ''timeout''
      else case err of
        None \<Rightarrow> (if method \<in> {''verify.test'', ''test.run'', ''repo.run_tests''} \<and> \<not> extractPassed result then ''test_fail'' else [])
      | Some e \<Rightarrow>
          (let general = (if mentions (error_text e) ''timeout'' then ''timeout''
                          else if mentions (error_text e) ''adapter'' then ''environment'' else ''unknown'')
           in case e of
                PrimitiveError code msg \<Rightarrow>
                  (if code = ''PERMISSION_DENIED'' then ''policy_denied''
                   else if code = ''TIMEOUT'' then ''timeout''
                   else if code = ''VALIDATION_ERROR'' then ''syntax''
                   else if mentions msg ''timeout'' then ''timeout'' else general)
              | _ \<Rightarrow> general))"

definition shouldRestoreAfterFailure :: "prim_schema \<Rightarrow> string \<Rightarrow> go_error option \<Rightarrow> bool" where
  "shouldRestoreAfterFailure s kind err \<longleftrightarrow>
     err \<noteq> None \<and> (ps_SideEffect s = ''write'' \<or> ps_SideEffect s = ''exec'') \<and>
     kind \<in> {''timeout'', ''test_fail'', ''unknown'', ''environment'', ''syntax''}"

section \<open>One call\<close>

definition new_record :: "'x runtime \<Rightarrow> 'x rt_world \<Rightarrow> string \<Rightarrow> trace_record" where
  "new_record rt w method =
     (let n = rw_ids w
      in \<lparr>tr_TaskID = ''task-'' @ take 8 (rt_uuid rt n), tr_TraceID = ''trace-'' @ take 8 (rt_uuid rt (n + 1)),
          tr_SessionID = ''session-'' @ take 8 (rt_uuid rt (n + 2)), tr_AttemptID = ''attempt-1'', tr_SandboxID = rt_sandbox rt,
          tr_StepID = ''step-'' @ take 8 (rt_uuid rt (n + 3)), tr_Primitive = method, tr_CheckpointID = [], tr_IntentSnapshot = RawNil,
          tr_LayerAOutcome = [], tr_StrategyName = [], tr_StrategyOutcome = [], tr_RecoveryPath = [], tr_AffectedScopes = [],
          tr_CVRDepthExceeded = False, tr_VerifyResult = ''not_run'', tr_DurationMs = 0, tr_FailureKind = [],
          tr_Timestamp = rt_clock rt (rw_host w)\<rparr>)"

definition persistTrace :: "'x runtime \<Rightarrow> 'x rt_world \<Rightarrow> trace_record \<Rightarrow> 'x rt_world" where
  "persistTrace rt w record =
     (if tr_Primitive record \<noteq> [] \<and> rt_log_ok rt (rw_host w)
      then w\<lparr>rw_recorder := Some record, rw_trace := rw_trace w @ [record]\<rparr>
      else w\<lparr>rw_recorder := Some record\<rparr>)"

definition dashed :: "string \<Rightarrow> string" where
  "dashed = map (\<lambda>c. if c = CHR ''.'' then CHR ''-'' else c)"

definition needs_checkpoint :: "bool \<Rightarrow> prim_schema \<Rightarrow> string \<Rightarrow> bool" where
  "needs_checkpoint internal s method \<longleftrightarrow>
     \<not> internal \<and> ps_CheckpointRequired s \<and> method \<noteq> ''state.checkpoint'' \<and> method \<noteq> ''state.restore''"

text \<open>The checkpoint before the call: its identifier, empty where none is made.\<close>

definition call_checkpoint ::
  "'x runtime \<Rightarrow> bool \<Rightarrow> prim_schema \<Rightarrow> string \<Rightarrow> 'x host_world \<Rightarrow> 'x host_world \<times> (go_error + string)" where
  "call_checkpoint rt internal s method h =
     (if needs_checkpoint internal s method then
        (let label = dashed method @ ''-'' @ itoa (he_now_ms (rt_env rt) h);
             (h1, r) = checkpoint_run (rt_env rt) (rt_dir rt) h (json_marshal (JObj [(''label'', JStr label)]))
         in (h1, map_sum id ck_CheckpointID r))
      else (h, Inr []))"

text \<open>What is left of a call after the primitive and the verifier: the restore, whose result is ignored, and the record.\<close>

definition rt_restore_params :: "string \<Rightarrow> raw" where
  "rt_restore_params cid = json_marshal (JObj [(''checkpoint_id'', JStr cid)])"

definition call_restore ::
  "'x runtime \<Rightarrow> bool \<Rightarrow> prim_schema \<Rightarrow> string \<Rightarrow> string \<Rightarrow> go_error option \<Rightarrow> 'x host_world \<Rightarrow> 'x host_world" where
  "call_restore rt internal s cid kind err h =
     (if \<not> internal \<and> cid \<noteq> [] \<and> shouldRestoreAfterFailure s kind err
      then fst (StateRestore_Execute (rt_env rt) (rt_dir rt) h (rt_restore_params cid)) else h)"

record 'x call_state =
  cl_world :: "'x rt_world"
  cl_result :: prim_result
  cl_err :: "go_error option"
  cl_kind :: string
  cl_verify :: string

definition affected_scopes :: "'x host_world \<Rightarrow> string list" where
  "affected_scopes h = (case hw_intent h of None \<Rightarrow> [] | Some i \<Rightarrow> AffectedScopes i)"

definition finish_call ::
  "'x runtime \<Rightarrow> bool \<Rightarrow> prim_schema \<Rightarrow> trace_record \<Rightarrow> string \<Rightarrow> 'x call_state \<Rightarrow> 'x rt_world \<times> prim_result \<times> go_error option" where
  "finish_call rt internal s record cid c =
     (let w1 = (cl_world c)\<lparr>rw_host := call_restore rt internal s cid (cl_kind c) (cl_err c) (rw_host (cl_world c))\<rparr>;
          rec = record\<lparr>tr_CheckpointID := cid, tr_VerifyResult := cl_verify c, tr_AffectedScopes := affected_scopes (rw_host w1),
                 tr_DurationMs := rt_clock rt (rw_host w1) - tr_Timestamp record, tr_FailureKind := cl_kind c\<rparr>
      in (persistTrace rt w1 rec, cl_result c, cl_err c))"

definition run_primitive :: "'x runtime \<Rightarrow> 'x host_world prim \<Rightarrow> string \<Rightarrow> raw \<Rightarrow> 'x rt_world \<Rightarrow> 'x call_state" where
  "run_primitive rt p method params w =
     (let (h, r) = pm_Execute p (rw_host w) params;
          result = (case r of Inl _ \<Rightarrow> zero_prim_result | Inr x \<Rightarrow> x);
          err = (case r of Inl e \<Rightarrow> Some e | Inr _ \<Rightarrow> None)
      in \<lparr>cl_world = w\<lparr>rw_host := h\<rparr>, cl_result = result, cl_err = err, cl_kind = classifyFailure method result err (rt_expired rt h),
          cl_verify = ''not_run''\<rparr>)"

text \<open>The verifier of a call that succeeded: \<open>execute\<close> of the hint, as an internal call.\<close>

definition verify_verdict :: "string \<Rightarrow> 'x call_state \<Rightarrow> 'x rt_world \<times> prim_result \<times> go_error option \<Rightarrow> 'x call_state" where
  "verify_verdict hint c v =
     (let (w, res, verr) = v; c1 = c\<lparr>cl_world := w\<rparr>
      in if verr \<noteq> None \<or> \<not> extractPassed res
         then c1\<lparr>cl_verify := ''failed'', cl_kind := ''test_fail'',
                 cl_err := Some (case verr of Some e \<Rightarrow> e | None \<Rightarrow> PrimitiveError ''EXECUTION_ERROR'' (''verifier failed: '' @ hint))\<rparr>
         else c1\<lparr>cl_verify := ''passed''\<rparr>)"

definition wants_verifier :: "'x runtime \<Rightarrow> bool \<Rightarrow> prim_schema \<Rightarrow> 'x call_state \<Rightarrow> bool" where
  "wants_verifier rt internal s c \<longleftrightarrow>
     \<not> internal \<and> cl_err c = None \<and> ps_VerifierHint s \<noteq> [] \<and> map_of (rt_raw rt) (ps_VerifierHint s) \<noteq> None"

function rt_execute ::
  "'x runtime \<Rightarrow> 'x rt_world \<Rightarrow> string \<Rightarrow> raw \<Rightarrow> bool \<Rightarrow> 'x rt_world \<times> prim_result \<times> go_error option" where
  "rt_execute rt w method params internal =
     (case (map_of (rt_raw rt) method, map_of (rt_schemas rt) method) of
        (Some p, Some s0) \<Rightarrow>
          (let s = EnrichSchema s0;
               record = new_record rt w method;
               (h1, cp) = call_checkpoint rt internal s method (rw_host w);
               w1 = w\<lparr>rw_host := h1, rw_ids := rw_ids w + 4\<rparr>
           in case cp of
                Inl e \<Rightarrow>
                  (persistTrace rt w1 (record\<lparr>tr_FailureKind := ''environment'',
                     tr_DurationMs := rt_clock rt h1 - tr_Timestamp record\<rparr>), zero_prim_result, Some e)
              | Inr cid \<Rightarrow>
                  (let c = run_primitive rt p method params w1
                   in if wants_verifier rt internal s c
                      then finish_call rt internal s record cid
                             (verify_verdict (ps_VerifierHint s) c (rt_execute rt (cl_world c) (ps_VerifierHint s) RawNil True))
                      else finish_call rt internal s record cid c))
      | _ \<Rightarrow> (w, zero_prim_result, Some (PrimitiveError ''NOT_FOUND'' (''primitive not found: '' @ method))))"
  by pat_completeness auto

termination
  by (relation "measure (\<lambda>(_, _, _, _, internal). if internal then 0 else 1)") (auto simp: wants_verifier_def)

declare rt_execute.simps [simp del]

text \<open>
  The serial executor: the caller's context may end before its turn comes or while the call runs; the call
  itself is not stopped, only its result is lost.
\<close>

datatype caller = Waiting | GoneBefore go_error | GoneDuring go_error

definition Execute_runtime :: "'x runtime \<Rightarrow> caller \<Rightarrow> 'x rt_world \<Rightarrow> string \<Rightarrow> raw \<Rightarrow> 'x rt_world \<times> prim_result \<times> go_error option" where
  "Execute_runtime rt who w method params =
     (case who of
        GoneBefore e \<Rightarrow> (w, zero_prim_result, Some e)
      | GoneDuring e \<Rightarrow> (fst (rt_execute rt w method params False), zero_prim_result, Some e)
      | Waiting \<Rightarrow> rt_execute rt w method params False)"

definition managed_schema :: "'x runtime \<Rightarrow> string \<Rightarrow> prim_schema option" where
  "managed_schema rt name = map_option EnrichSchema (map_of (rt_schemas rt) name)"

section \<open>What registration keeps\<close>

definition tables_agree :: "'x runtime \<Rightarrow> bool" where
  "tables_agree rt \<longleftrightarrow> distinct (rt_registry rt) \<and> dom (map_of (rt_raw rt)) = set (rt_registry rt) \<and>
     dom (map_of (rt_schemas rt)) = set (rt_registry rt)"

definition extends_runtime :: "'x runtime \<Rightarrow> 'x runtime \<Rightarrow> bool" where
  "extends_runtime rt rt' \<longleftrightarrow> tables_agree rt' \<and> set (rt_registry rt) \<subseteq> set (rt_registry rt') \<and>
     (\<forall>n \<in> set (rt_registry rt). map_of (rt_raw rt') n = map_of (rt_raw rt) n \<and> map_of (rt_schemas rt') n = map_of (rt_schemas rt) n)"

lemma extends_trans: "extends_runtime a b \<Longrightarrow> extends_runtime b c \<Longrightarrow> extends_runtime a c"
  unfolding extends_runtime_def by (metis subset_iff)

lemma register_one:
  assumes "tables_agree rt" and "registerRawPrimitive rt p s = (rt', None)"
  shows "extends_runtime rt rt'" and "map_of (rt_raw rt') (pm_Name p) = Some p" and "pm_Name p \<in> set (rt_registry rt')"
proof -
  from assms(2) have new: "pm_Name p \<notin> set (rt_registry rt)" and
    rt': "rt' = rt\<lparr>rt_raw := AList.update (pm_Name p) p (rt_raw rt), rt_schemas := AList.update (pm_Name p) s (rt_schemas rt),
      rt_registry := rt_registry rt @ [pm_Name p]\<rparr>"
    by (auto simp: registerRawPrimitive_def Let_def split: if_splits)
  have "tables_agree rt'" using assms(1) new by (simp add: rt' tables_agree_def update_conv')
  with new show "extends_runtime rt rt'" by (auto simp: rt' extends_runtime_def update_conv')
  show "map_of (rt_raw rt') (pm_Name p) = Some p" "pm_Name p \<in> set (rt_registry rt')" by (simp_all add: rt' update_conv')
qed

lemma register_all_extends:
  "tables_agree rt \<Longrightarrow> register_all rt ps = (rt', None) \<Longrightarrow>
   extends_runtime rt rt' \<and> (\<forall>(p, s) \<in> set ps. map_of (rt_raw rt') (pm_Name p) = Some p)"
proof (induction ps arbitrary: rt)
  case Nil
  then show ?case by (simp add: extends_runtime_def)
next
  case (Cons x ps)
  obtain p s where x: "x = (p, s)" by fastforce
  obtain rt1 e where r: "registerRawPrimitive rt p s = (rt1, e)" by fastforce
  with Cons.prems x have ok: "registerRawPrimitive rt p s = (rt1, None)" "register_all rt1 ps = (rt', None)"
    by (auto split: option.splits)
  note one = register_one [OF Cons.prems(1) ok(1)]
  with Cons.IH [OF _ ok(2)] have rest: "extends_runtime rt1 rt'" "\<forall>(p, s) \<in> set ps. map_of (rt_raw rt') (pm_Name p) = Some p"
    by (auto simp: extends_runtime_def)
  with one(2,3) have "map_of (rt_raw rt') (pm_Name p) = Some p" by (simp add: extends_runtime_def)
  with extends_trans [OF one(1) rest(1)] rest(2) x show ?case by simp
qed

text \<open>Names that are new are accepted.\<close>

lemma register_all_fresh:
  assumes "distinct (map (pm_Name \<circ> fst) ps)" and "pm_Name ` fst ` set ps \<inter> set (rt_registry rt) = {}"
  shows "\<exists>rt'. register_all rt ps = (rt', None) \<and> rt_registry rt' = rt_registry rt @ map (pm_Name \<circ> fst) ps \<and>
    rt_adapters_env rt' = rt_adapters_env rt"
  using assms
proof (induction ps arbitrary: rt)
  case (Cons x ps)
  obtain p s where x: "x = (p, s)" by fastforce
  obtain rt1 where r: "registerRawPrimitive rt p s = (rt1, None)" "rt_registry rt1 = rt_registry rt @ [pm_Name p]"
    "rt_adapters_env rt1 = rt_adapters_env rt"
    using Cons.prems(2) x by (simp add: registerRawPrimitive_def Let_def)
  with Cons.prems x have "pm_Name ` fst ` set ps \<inter> set (rt_registry rt1) = {}" by force
  with Cons.IH [of rt1] Cons.prems(1) r x show ?case by auto
qed simp

lemma registerSystemPrimitives_ok:
  assumes "\<And>n. pm_Name (mk n) = n" and "rt_registry rt = []"
  shows "\<exists>rt'. registerSystemPrimitives mk rt = Some (rt', None) \<and> rt_registry rt' = default_names @ sandbox_extra_names \<and>
    rt_adapters_env rt' = rt_adapters_env rt"
proof -
  let ?names = "default_names @ sandbox_extra_names"
  obtain reg where reg: "Option.bind (RegisterDefaults mk NewRegistry) (RegisterSandboxExtras mk) = Some reg"
    "reg_List reg = ?names" "\<And>n. n \<in> set ?names \<Longrightarrow> reg_Get reg n = Some (mk n)"
    using builtin_registry [of mk] assms(1) by blast
  have "pm_Name (snd x) = fst x" if "x \<in> set reg" for x
  proof -
    have "fst x \<in> set ?names" unfolding reg(2) [symmetric] using that by (simp add: reg_List_def)
    moreover have "map_of reg (fst x) = Some (snd x)"
      using that reg(2) distinct_builtin_names by (intro map_of_is_SomeI) (simp_all add: reg_List_def)
    ultimately show ?thesis using reg(3) [of "fst x"] assms(1) by (simp add: reg_Get_def)
  qed
  then have "map pm_Name (Registered reg) = ?names"
    using reg(2) by (simp add: Registered_def reg_List_def comp_def cong: map_cong)
  then have ps: "map (pm_Name \<circ> fst) (map (\<lambda>p. (p, EnrichSchema (pm_Schema p))) (Registered reg)) = ?names" by (simp add: comp_def)
  then have "\<exists>rt'. register_all rt (map (\<lambda>p. (p, EnrichSchema (pm_Schema p))) (Registered reg)) = (rt', None) \<and>
      rt_registry rt' = ?names \<and> rt_adapters_env rt' = rt_adapters_env rt"
    using register_all_fresh [of "map (\<lambda>p. (p, EnrichSchema (pm_Schema p))) (Registered reg)" rt] distinct_builtin_names assms(2)
    unfolding ps by simp
  with reg(1) show ?thesis by (simp add: registerSystemPrimitives_def)
qed

lemma load_all_extends: "tables_agree rt \<Longrightarrow> load_all w rt ms = (w', rt', None) \<Longrightarrow> extends_runtime rt rt'"
proof (induction ms arbitrary: w rt)
  case Nil
  then show ?case by (simp add: extends_runtime_def)
next
  case (Cons m ms)
  obtain w1 r where s: "startAdapterProcess (rt_adapters_env rt) (rt_workspace rt) w m = (w1, r)" by fastforce
  with Cons.prems(2) obtain p where p: "r = Inr p" by (cases r) auto
  let ?rt = "rt\<lparr>rt_adapters := rt_adapters rt @ [p]\<rparr>"
  obtain rt1 e where ra: "register_all ?rt (adapter_primitives (rt_adapters_env rt) p) = (rt1, e)" by fastforce
  with Cons.prems(2) s p have ok: "e = None" "load_all w1 rt1 ms = (w', rt', None)" by (auto split: option.splits)
  have t: "tables_agree ?rt" using Cons.prems(1) by (simp add: tables_agree_def)
  from register_all_extends [OF t] ra ok(1) have x: "extends_runtime ?rt rt1" by blast
  then have "extends_runtime rt rt1" by (simp add: extends_runtime_def)
  moreover have "extends_runtime rt1 rt'" using Cons.IH [OF _ ok(2)] x by (simp add: extends_runtime_def)
  ultimately show ?case by (rule extends_trans)
qed

text \<open>
  C32. Adapters cannot replace built-in primitives. When a runtime is made, with whatever manifests and
  adapter processes, the table of primitives, the table of schemas and the registry have the same
  names, each once, and under the name of a built-in primitive the runtime has that primitive.
\<close>

theorem runtime_builtins:
  assumes "NewRuntime mk rd entries embedded w rt0 = Some (w', Inr rt)" and "\<And>n. pm_Name (mk n) = n"
  shows "tables_agree rt \<and> (\<forall>n \<in> set (default_names @ sandbox_extra_names). map_of (rt_raw rt) n = Some (mk n))"
proof -
  let ?rt = "rt0\<lparr>rt_raw := [], rt_schemas := [], rt_registry := [], rt_adapters := []\<rparr>"
  obtain reg where reg: "Option.bind (RegisterDefaults mk NewRegistry) (RegisterSandboxExtras mk) = Some reg"
    and get: "\<And>n. n \<in> set (default_names @ sandbox_extra_names) \<Longrightarrow> reg_Get reg n = Some (mk n)"
    using builtin_registry [of mk] assms(2) by blast
  obtain rt1 e where ra: "register_all ?rt (map (\<lambda>p. (p, EnrichSchema (pm_Schema p))) (Registered reg)) = (rt1, e)" by fastforce
  obtain w1 rt2 e2 where la: "loadAdapters w rt1 rd entries embedded = (w1, rt2, e2)" by (metis prod_cases3)
  from assms(1) reg ra la have ok: "e = None" "e2 = None" "rt2 = rt"
    by (auto simp: NewRuntime_def registerSystemPrimitives_def split: option.splits)
  have "tables_agree ?rt" by (simp add: tables_agree_def)
  note one = register_all_extends [OF this ra [unfolded ok(1)]]
  then have t1: "tables_agree rt1" by (simp add: extends_runtime_def)
  from la ok obtain ms where "load_all w rt1 ms = (w1, rt, None)" by (auto simp: loadAdapters_def split: sum.splits)
  note two = load_all_extends [OF t1 this]
  have "map_of (rt_raw rt) n = Some (mk n)" if "n \<in> set (default_names @ sandbox_extra_names)" for n
  proof -
    have "mk n \<in> set (Registered reg)" using get [OF that] by (force simp: reg_Get_def Registered_def dest: map_of_SomeD)
    with one have "map_of (rt_raw rt1) n = Some (mk n)" using assms(2) by auto
    moreover from this t1 have "n \<in> set (rt_registry rt1)" by (auto simp: tables_agree_def)
    ultimately show ?thesis using two by (simp add: extends_runtime_def)
  qed
  with two show ?thesis by (simp add: extends_runtime_def)
qed

section \<open>Calls\<close>

definition failure_kinds :: "string set" where
  "failure_kinds = {''timeout'', ''test_fail'', ''unknown'', ''environment'', ''syntax'', ''policy_denied''}"

lemma failure_kinds_in [simp]:
  "''timeout'' \<in> failure_kinds" "''test_fail'' \<in> failure_kinds" "''unknown'' \<in> failure_kinds" "''environment'' \<in> failure_kinds"
  "''syntax'' \<in> failure_kinds" "''policy_denied'' \<in> failure_kinds" "[] \<notin> failure_kinds"
  by (simp_all add: failure_kinds_def)

lemma classify_kinds: "classifyFailure m r (Some e) late \<in> failure_kinds"
  by (cases e) (simp_all add: classifyFailure_def Let_def)

lemma run_primitive_kind: "cl_err (run_primitive rt p m params w) = Some e \<Longrightarrow> cl_kind (run_primitive rt p m params w) \<in> failure_kinds"
  by (simp add: run_primitive_def Let_def case_prod_beta classify_kinds split: sum.splits)

text \<open>A call as far as the restore.\<close>

definition attempted :: "'x runtime \<Rightarrow> bool \<Rightarrow> prim_schema \<Rightarrow> 'x host_world prim \<Rightarrow> string \<Rightarrow> raw \<Rightarrow> 'x rt_world \<Rightarrow> 'x call_state" where
  "attempted rt internal s p method params w =
     (let c = run_primitive rt p method params w
      in if wants_verifier rt internal s c
         then verify_verdict (ps_VerifierHint s) c (rt_execute rt (cl_world c) (ps_VerifierHint s) RawNil True) else c)"

lemma rt_execute_attempt:
  assumes "map_of (rt_raw rt) m = Some p" "map_of (rt_schemas rt) m = Some s0"
    and "call_checkpoint rt internal (EnrichSchema s0) m (rw_host w) = (h1, Inr cid)"
  shows "rt_execute rt w m params internal =
    finish_call rt internal (EnrichSchema s0) (new_record rt w m) cid
      (attempted rt internal (EnrichSchema s0) p m params (w\<lparr>rw_host := h1, rw_ids := rw_ids w + 4\<rparr>))"
  unfolding rt_execute.simps [of rt w m] by (simp add: assms attempted_def Let_def)

lemma rt_execute_no_checkpoint:
  assumes "map_of (rt_raw rt) m = Some p" "map_of (rt_schemas rt) m = Some s0"
    and "call_checkpoint rt internal (EnrichSchema s0) m (rw_host w) = (h1, Inl e)"
  shows "rt_execute rt w m params internal =
    (persistTrace rt (w\<lparr>rw_host := h1, rw_ids := rw_ids w + 4\<rparr>) ((new_record rt w m)\<lparr>tr_FailureKind := ''environment'',
       tr_DurationMs := rt_clock rt h1 - tr_Timestamp (new_record rt w m)\<rparr>), zero_prim_result, Some e)"
  unfolding rt_execute.simps [of rt w m] by (simp add: assms Let_def)

lemma attempted_kind:
  "cl_err (attempted rt internal s p m params w) = Some e \<Longrightarrow> cl_kind (attempted rt internal s p m params w) \<in> failure_kinds"
  using run_primitive_kind [of rt p m params w]
  by (auto simp: attempted_def Let_def verify_verdict_def case_prod_beta wants_verifier_def split: if_splits)

section \<open>Rollback and record\<close>

lemma attempted_snaps:
  assumes "\<And>n p h params. map_of (rt_raw rt) n = Some p \<Longrightarrow> snaps_kept snap h (fst (pm_Execute p h params))"
    and "map_of (rt_raw rt) m = Some p"
  shows "snaps_kept snap (rw_host w) (rw_host (cl_world (attempted rt internal s p m params w)))"
proof -
  let ?c = "run_primitive rt p m params w"
  have c: "snaps_kept snap (rw_host w) (rw_host (cl_world ?c))"
    using assms(1) [OF assms(2)] by (simp add: run_primitive_def Let_def case_prod_beta)
  have p: "rw_host (persistTrace rt v r) = rw_host v" for v r by (simp add: persistTrace_def)
  have v: "snaps_kept snap (rw_host v) (rw_host (fst (rt_execute rt v hint params True)))" for v hint params
    unfolding rt_execute.simps [of rt v hint params True]
    using assms(1)
    by (auto simp: call_checkpoint_def needs_checkpoint_def wants_verifier_def finish_call_def call_restore_def Let_def p
        run_primitive_def case_prod_beta split: option.split)
  show ?thesis
    using c snaps_kept_trans [OF c v] by (auto simp: attempted_def Let_def verify_verdict_def case_prod_beta)
qed

text \<open>
  C7. A failed call is rolled back. If a primitive that writes or executes, with the checkpoint its schema asks for,
  fails, by its own error or by its verifier, for any reason but a denied permission, then the error is returned and
  \<open>state.restore\<close> has been run on that checkpoint as the last thing done to the workspace. If that restore succeeds,
  then outside nested repositories the files of the workspace are exactly those from before the call, with the same
  contents, except that the files staging leaves out (untracked files git ignores) are gone. The runtime ignores
  the error of a restore that fails.
\<close>

theorem runtime_rollback:
  assumes "git_contract (rt_env rt) (rt_dir rt) snap index ig"
    and "pc_err (snd (run_git (rt_env rt) (rt_dir rt) (rw_host w) [''rev-parse'', ''--is-inside-work-tree''])) = None"
    and "\<And>n p h params. map_of (rt_raw rt) n = Some p \<Longrightarrow> snaps_kept snap h (fst (pm_Execute p h params))"
    and "map_of (rt_raw rt) m = Some p" and "map_of (rt_schemas rt) m = Some s0"
    and "needs_checkpoint False (EnrichSchema s0) m" and "ps_SideEffect (EnrichSchema s0) \<in> {''write'', ''exec''}"
    and "call_checkpoint rt False (EnrichSchema s0) m (rw_host w) = (h1, Inr cid)" and "cid \<noteq> []"
    and "c = attempted rt False (EnrichSchema s0) p m params (w\<lparr>rw_host := h1, rw_ids := rw_ids w + 4\<rparr>)"
    and "cl_err c = Some e" and "cl_kind c \<noteq> ''policy_denied''"
    and "StateRestore_Execute (rt_env rt) (rt_dir rt) (rw_host (cl_world c)) (rt_restore_params cid) = (h2, rr)"
    and "rt_execute rt w m params False = (w', res, err)"
  shows "err = Some e \<and> rw_host w' = h2 \<and>
    (\<forall>x p. rr = Inr x \<and> \<not> nested_repo (rt_dir rt) (hw_fs h2) p \<longrightarrow>
      work_files (rt_dir rt) (rw_host w') p = (if p \<in> ig (rw_host w) then None else work_files (rt_dir rt) (rw_host w) p))"
proof -
  let ?s = "EnrichSchema s0"
  obtain ck where ck: "checkpoint_run (rt_env rt) (rt_dir rt) (rw_host w)
      (json_marshal (JObj [(''label'', JStr (dashed m @ ''-'' @ itoa (he_now_ms (rt_env rt) (rw_host w))))])) = (h1, Inr ck)"
    and cid: "ck_CheckpointID ck = cid"
    using assms(6,8) by (auto simp: call_checkpoint_def Let_def elim!: map_sum_InrE split: prod.splits)
  let ?S = "staged (rt_dir rt) ig (rw_host w)"
  from checkpoint_run_sound [OF assms(1,2) ck] cid have S: "cid \<noteq> ''latest''" "snap (hw_ext h1) cid = Some ?S" by auto
  have "snaps_kept snap h1 (rw_host (cl_world c))"
    unfolding assms(10) using attempted_snaps [of rt snap m p "w\<lparr>rw_host := h1, rw_ids := rw_ids w + 4\<rparr>"] assms(3,4) by simp
  with S(2) have "snap (hw_ext (rw_host (cl_world c))) cid = Some ?S" by (simp add: snaps_kept_def)
  from StateRestore_sound [OF assms(1) this assms(9) S(1)] assms(13)
  have files: "work_files (rt_dir rt) h2 q = ?S q" if "rr = Inr x" "\<not> nested_repo (rt_dir rt) (hw_fs h2) q" for x q
    using that by (simp add: rt_restore_params_def)
  have "cl_kind c \<in> failure_kinds" using attempted_kind assms(11) unfolding assms(10) by blast
  then have sr: "shouldRestoreAfterFailure ?s (cl_kind c) (cl_err c)"
    using assms(7,11,12) by (auto simp: shouldRestoreAfterFailure_def failure_kinds_def)
  have "rt_execute rt w m params False = finish_call rt False ?s (new_record rt w m) cid c"
    unfolding assms(10) by (rule rt_execute_attempt [OF assms(4,5,8)])
  with assms(9,11,13,14) sr have "rw_host w' = h2" "err = Some e"
    by (auto simp: finish_call_def call_restore_def persistTrace_def Let_def split: if_splits)
  with files show ?thesis by (simp add: staged_def)
qed

text \<open>
  Every call of a registered primitive is recorded, with a kind of failure exactly when there is something to report:
  a call that returns an error has one, and without one the call succeeded and its verifier, if any, passed.
\<close>

theorem runtime_recorded:
  assumes "map_of (rt_raw rt) m = Some p" and "map_of (rt_schemas rt) m = Some s0"
    and "rt_execute rt w m params internal = (w', res, err)"
  shows "\<exists>r. rw_recorder w' = Some r \<and> tr_Primitive r = m \<and> (err \<noteq> None \<longrightarrow> tr_FailureKind r \<in> failure_kinds) \<and>
    (tr_VerifyResult r = ''failed'' \<longrightarrow> err \<noteq> None) \<and> (m \<noteq> [] \<longrightarrow> rt_log_ok rt (rw_host w') \<longrightarrow> r \<in> set (rw_trace w'))"
proof -
  obtain h1 cp where cp: "call_checkpoint rt internal (EnrichSchema s0) m (rw_host w) = (h1, cp)" by fastforce
  have n: "tr_Primitive (new_record rt w m) = m" "tr_VerifyResult (new_record rt w m) = ''not_run''"
    by (simp_all add: new_record_def Let_def)
  show ?thesis
  proof (cases cp)
    case (Inl e)
    with assms rt_execute_no_checkpoint [OF assms(1,2)] cp n show ?thesis by (auto simp: persistTrace_def)
  next
    case (Inr cid)
    let ?c = "attempted rt internal (EnrichSchema s0) p m params (w\<lparr>rw_host := h1, rw_ids := rw_ids w + 4\<rparr>)"
    have "cl_verify ?c = ''failed'' \<Longrightarrow> cl_err ?c \<noteq> None"
      by (auto simp: attempted_def Let_def verify_verdict_def case_prod_beta run_primitive_def split: if_splits)
    moreover have "cl_err ?c \<noteq> None \<Longrightarrow> cl_kind ?c \<in> failure_kinds" using attempted_kind by blast
    ultimately show ?thesis
      using assms(3) rt_execute_attempt [OF assms(1,2)] cp Inr n
      by (auto simp: finish_call_def Let_def persistTrace_def)
  qed
qed

definition demo_adapter_env :: "git_state adapter_os" where
  "demo_adapter_env = \<lparr>ae_lookpath = Some, ae_executable = Inr ''/bin'', ae_exists = (\<lambda>_. False),
     ae_start = (\<lambda>w _ _. (w, AdapterLine (Raw (JObj [(''adapter'', JStr ''repo'')])) 7)), ae_kill = (\<lambda>w _. (w, None)),
     ae_http = (\<lambda>w _ _ _. (w, Inl (GoErr ''down'')))\<rparr>"

text \<open>A primitive that overwrites a file and reports success, and tests that do not pass.\<close>

definition patch_prim :: "git_state host_world prim" where
  "patch_prim = \<lparr>pm_Name = ''repo.patch_symbol'', pm_Category = ''repo'', pm_Schema = demo_schema ''repo.patch_symbol'',
     pm_Execute = (\<lambda>h _. (h\<lparr>hw_fs := map (\<lambda>(p, n). (p, if p = [''w'', ''a''] then FFile ''two'' else n)) (hw_fs h)\<rparr>, Inr zero_prim_result))\<rparr>"

definition failing_tests :: "git_state host_world prim" where
  "failing_tests = \<lparr>pm_Name = ''repo.run_tests'', pm_Category = ''repo'', pm_Schema = demo_schema ''repo.run_tests'',
     pm_Execute = (\<lambda>h _. (h, Inr (ok_result (JObj [(''passed'', JBool False)]))))\<rparr>"

definition demo_runtime :: "git_state runtime" where
  "demo_runtime = \<lparr>rt_env = git_env 0, rt_adapters_env = demo_adapter_env, rt_dir = [''w''], rt_workspace = ''/w'', rt_sandbox = ''sb'',
     rt_raw = [(''repo.patch_symbol'', patch_prim), (''repo.run_tests'', failing_tests)],
     rt_schemas = [(''repo.patch_symbol'', pm_Schema patch_prim), (''repo.run_tests'', pm_Schema failing_tests)],
     rt_registry = [''repo.patch_symbol'', ''repo.run_tests''], rt_adapters = [], rt_expired = (\<lambda>_. False),
     rt_uuid = (\<lambda>n. itoa (int n)), rt_clock = (\<lambda>_. 1), rt_log_ok = (\<lambda>_. True)\<rparr>"

definition demo_rt_world :: "git_state rt_world" where
  "demo_rt_world = \<lparr>rw_host = git_world, rw_trace = [], rw_recorder = None, rw_ids = 0\<rparr>"

theorem runtime_rollback_witness:
  "\<exists>w' res e. rt_execute demo_runtime demo_rt_world ''repo.patch_symbol'' RawNil False = (w', res, Some e) \<and>
     (\<forall>p. \<not> nested_repo [''w''] (hw_fs (rw_host w')) p \<longrightarrow>
        work_files [''w''] (rw_host w') p = (if p \<in> demo_left_out git_world then None else work_files [''w''] git_world p)) \<and>
     work_files [''w''] (rw_host w') [''w'', ''a''] = Some ''one'' \<and>
     error_text e = ''verifier failed: repo.run_tests''"
proof -
  let ?m = "''repo.patch_symbol''" and ?s = "EnrichSchema (pm_Schema patch_prim)"
  let ?cp = "call_checkpoint demo_runtime False ?s ?m (rw_host demo_rt_world)"
  let ?c = "attempted demo_runtime False ?s patch_prim ?m RawNil (demo_rt_world\<lparr>rw_host := fst ?cp, rw_ids := rw_ids demo_rt_world + 4\<rparr>)"
  let ?r = "rt_execute demo_runtime demo_rt_world ?m RawNil False"
  let ?rs = "StateRestore_Execute (rt_env demo_runtime) (rt_dir demo_runtime) (rw_host (cl_world ?c)) (rt_restore_params ''a'')"
  let ?e = "PrimitiveError ''EXECUTION_ERROR'' ''verifier failed: repo.run_tests''"
  have cp: "?cp = (fst ?cp, Inr ''a'')" by (rule prod_eqI) (simp, code_simp)
  have sound: "snaps_kept (demo_snap [''w'']) h (fst (pm_Execute p h params))"
    if "map_of (rt_raw demo_runtime) n = Some p" for n p h params
    using that by (auto simp: demo_runtime_def patch_prim_def failing_tests_def snaps_kept_def split: if_splits)
  have c: "cl_err ?c = Some ?e" "cl_kind ?c \<noteq> ''policy_denied''" by code_simp+
  have r: "?r = (fst ?r, fst (snd ?r), snd (snd ?r))" by simp
  have "\<exists>x. snd ?rs = Inr x" by (rule exI [of _ "projr (snd ?rs)"]) code_simp
  then obtain h2 x where rs: "?rs = (h2, Inr x)" by (metis prod.collapse)
  have s: "needs_checkpoint False ?s ?m" "ps_SideEffect ?s \<in> {''write'', ''exec''}"
    "pc_err (snd (run_git (rt_env demo_runtime) (rt_dir demo_runtime) (rw_host demo_rt_world) [''rev-parse'', ''--is-inside-work-tree''])) = None"
    by code_simp+
  have g: "git_contract (rt_env demo_runtime) (rt_dir demo_runtime) (demo_snap [''w'']) (demo_index [''w'']) demo_left_out"
    by (simp add: demo_runtime_def demo_git_contract)
  have m: "map_of (rt_raw demo_runtime) ?m = Some patch_prim" "map_of (rt_schemas demo_runtime) ?m = Some (pm_Schema patch_prim)"
    by (simp_all add: demo_runtime_def)
  have dirs: "rt_dir demo_runtime = [''w'']" "rw_host demo_rt_world = git_world" by (simp_all add: demo_runtime_def demo_rt_world_def)
  have "snd (snd ?r) = Some ?e \<and> rw_host (fst ?r) = h2 \<and>
    (\<forall>y p. (Inr x :: go_error + prim_result) = Inr y \<and> \<not> nested_repo (rt_dir demo_runtime) (hw_fs h2) p \<longrightarrow>
      work_files (rt_dir demo_runtime) (rw_host (fst ?r)) p =
        (if p \<in> demo_left_out (rw_host demo_rt_world) then None else work_files (rt_dir demo_runtime) (rw_host demo_rt_world) p))"
    by (rule runtime_rollback [OF g s(3) _ m s(1,2) cp _ refl c rs r]) (erule sound, simp)
  then have "snd (snd ?r) = Some ?e \<and> (\<forall>p. \<not> nested_repo [''w''] (hw_fs (rw_host (fst ?r))) p \<longrightarrow>
      work_files [''w''] (rw_host (fst ?r)) p = (if p \<in> demo_left_out git_world then None else work_files [''w''] git_world p))"
    unfolding dirs by (elim conjE) simp
  moreover have "work_files [''w''] (rw_host (fst ?r)) [''w'', ''a''] = Some ''one''" by code_simp
  ultimately show ?thesis using r by (intro exI [of _ "fst ?r"] exI [of _ "fst (snd ?r)"] exI [of _ ?e]) simp
qed

theorem runtime_recorded_witness:
  "\<exists>w' res err r. rt_execute demo_runtime demo_rt_world ''repo.patch_symbol'' RawNil False = (w', res, err) \<and>
     rw_recorder w' = Some r \<and> tr_Primitive r = ''repo.patch_symbol'' \<and> (err \<noteq> None \<longrightarrow> tr_FailureKind r \<in> failure_kinds) \<and>
     (r \<in> set (rw_trace w'))"
proof -
  obtain w' res err where x: "rt_execute demo_runtime demo_rt_world ''repo.patch_symbol'' RawNil False = (w', res, err)"
    by (metis prod_cases3)
  have "map_of (rt_raw demo_runtime) ''repo.patch_symbol'' = Some patch_prim"
    "map_of (rt_schemas demo_runtime) ''repo.patch_symbol'' = Some (pm_Schema patch_prim)" "rt_log_ok demo_runtime (rw_host w')"
    by (simp_all add: demo_runtime_def)
  with runtime_recorded [OF _ _ x] x show ?thesis by fastforce
qed

definition demo_builtin :: "string \<Rightarrow> git_state host_world prim" where
  "demo_builtin n = patch_prim\<lparr>pm_Name := n, pm_Schema := demo_schema n\<rparr>"

definition repo_manifest :: raw where
  "repo_manifest = Raw (JObj [(''name'', JStr ''repo''), (''command'', JStr ''pb-repo-adapter''), (''args'', JArr [JStr ''{{workspace}}'']),
     (''primitives'', JArr [JObj [(''name'', JStr ''repo.search'')]])])"

lemma repo_manifest_loaded: "\<exists>m. loadManifests (\<lambda>_. None) [] [repo_manifest] = Inr [m] \<and> map ps_Name (ad_Primitives m) = [''repo.search'']"
  by (rule exI [of _ "hd (projr (loadManifests (\<lambda>_. None) [] [repo_manifest]))"]) code_simp

lemma demo_start: "\<exists>p. startAdapterProcess demo_adapter_env ws w m = (w, Inr p) \<and> ap_manifest p = m"
  by (simp add: startAdapterProcess_def resolveAdapterCommand_def demo_adapter_env_def dec_registration_def dec_bind_def
      field_string_def field_int_def jget_def)

theorem runtime_builtins_witness:
  "\<exists>w' rt. NewRuntime demo_builtin (\<lambda>_. None) [] [repo_manifest] git_world demo_runtime = Some (w', Inr rt) \<and>
     map_of (rt_raw rt) ''fs.write'' = Some (demo_builtin ''fs.write'') \<and> ''repo.search'' \<in> set (rt_registry rt)"
proof -
  let ?rt = "demo_runtime\<lparr>rt_raw := [], rt_schemas := [], rt_registry := [], rt_adapters := []\<rparr>"
  let ?names = "default_names @ sandbox_extra_names"
  have names: "pm_Name (demo_builtin n) = n" for n by (simp add: demo_builtin_def)
  have "rt_registry ?rt = []" "rt_adapters_env ?rt = demo_adapter_env" by (simp_all add: demo_runtime_def)
  then obtain rt1 where rt1: "registerSystemPrimitives demo_builtin ?rt = Some (rt1, None)" "rt_registry rt1 = ?names"
    "rt_adapters_env rt1 = demo_adapter_env"
    using registerSystemPrimitives_ok [of demo_builtin ?rt] names by auto
  obtain m where m: "loadManifests (\<lambda>_. None) [] [repo_manifest] = Inr [m]" "map ps_Name (ad_Primitives m) = [''repo.search'']"
    using repo_manifest_loaded by (elim exE conjE)
  obtain p where p: "startAdapterProcess demo_adapter_env (rt_workspace rt1) git_world m = (git_world, Inr p)" "ap_manifest p = m"
    using demo_start [of "rt_workspace rt1" git_world m] by (elim exE conjE)
  have fresh: "\<exists>rt'. register_all rt qs = (rt', None) \<and> n \<in> set (rt_registry rt')"
    if "map (pm_Name \<circ> fst) qs = [n]" "n \<notin> set (rt_registry rt)" for qs n and rt :: "git_state runtime"
    using register_all_fresh [of qs rt] that by (auto simp: map_eq_Cons_conv)
  have "map (pm_Name \<circ> fst) (adapter_primitives demo_adapter_env p) = [''repo.search'']"
    using m(2) p(2) by (auto simp: adapter_primitives_def remotePrimitive_def Let_def comp_def enrich_fields)
  moreover have "''repo.search'' \<notin> set ?names" by code_simp
  ultimately obtain rt2 where
    rt2: "register_all (rt1\<lparr>rt_adapters := rt_adapters rt1 @ [p]\<rparr>) (adapter_primitives demo_adapter_env p) = (rt2, None)"
    "''repo.search'' \<in> set (rt_registry rt2)"
    using fresh [of "adapter_primitives demo_adapter_env p" "''repo.search''" "rt1\<lparr>rt_adapters := rt_adapters rt1 @ [p]\<rparr>"] rt1(2) by fastforce
  from rt1 m p rt2 have r: "NewRuntime demo_builtin (\<lambda>_. None) [] [repo_manifest] git_world demo_runtime = Some (git_world, Inr rt2)"
    by (simp add: NewRuntime_def loadAdapters_def)
  have "''fs.write'' \<in> set ?names" by (simp add: default_names_def)
  with runtime_builtins [OF r names] r rt2(2) show ?thesis by blast
qed

end
