(* ===== verification/DbPrims.thy ===== *)
theory DbPrims
  imports HostPrims
begin

text \<open>
  The database primitives, \<open>internal/primitive/db.go\<close>: \<open>db.schema\<close>, \<open>db.query\<close>, \<open>db.query_readonly\<close> and \<open>db.execute\<close>
  on a SQLite file of the workspace or a PostgreSQL server. The drivers, the SQL parser, the
  environment variables and the clock are parameters. A result set is the types of its columns, its rows, each
  with the values it holds, and the error that ends the iteration, if any. The constant queries are written
  on one line.
\<close>

section \<open>Drivers\<close>

text \<open>What the parser says of a text, as far as the type switch tells.\<close>

datatype sql_stmt = StmtSelect | StmtUnion | StmtOther

text \<open>What a driver returns for a column; a value that is neither has its JSON form and its text.\<close>

datatype sql_value =
    SqlNull
  | SqlBytes string
  | SqlText string
  | SqlInt int
  | SqlTime string
  | SqlOther json string

record column_type =
  ct_Name :: string
  ct_Type :: string
  ct_Nullable :: "bool option"

record result_set =
  rs_Columns :: "go_error + column_type list"
  rs_Rows :: "sql_value list list"
  rs_Err :: "go_error option"

record 'x db_env =
  de_host :: "'x host"
  de_parse :: "string \<Rightarrow> sql_stmt option"
  de_ident :: "string \<Rightarrow> string"
  de_getenv :: "string \<Rightarrow> string"
  de_clock :: "'x host_world \<Rightarrow> int"
  de_open :: "'x host_world \<Rightarrow> string \<Rightarrow> string \<Rightarrow> 'x host_world \<times> go_error option"
  de_query :: "'x host_world \<Rightarrow> string \<Rightarrow> string \<Rightarrow> string list \<Rightarrow> 'x host_world \<times> (go_error + result_set)"
  de_exec :: "'x host_world \<Rightarrow> string \<Rightarrow> string \<Rightarrow> 'x host_world \<times> (go_error + int option)"

definition maxReadonlyRows :: int where
  "maxReadonlyRows = 100"

record db_config =
  dc_Dialect :: string
  dc_Path :: string
  dc_DSN :: string
  dc_DSNEnv :: string

definition sql_failed :: "go_error \<Rightarrow> go_error" where
  "sql_failed e = PrimitiveError ''EXECUTION_ERROR'' (error_text e)"

definition invalid :: "string \<Rightarrow> go_error" where
  "invalid msg = PrimitiveError ''VALIDATION_ERROR'' msg"

definition denied :: "string \<Rightarrow> go_error" where
  "denied msg = PrimitiveError ''PERMISSION_DENIED'' msg"

definition dec_connection :: "jmap \<Rightarrow> db_config decoded" where
  "dec_connection m0 =
     (case jget m0 ''connection'' of
        None \<Rightarrow> Inr \<lparr>dc_Dialect = [], dc_Path = [], dc_DSN = [], dc_DSNEnv = []\<rparr>
      | Some j \<Rightarrow>
          dec_bind (dec_map (Raw j)) (\<lambda>m.
          dec_bind (field_string m ''dialect'') (\<lambda>d.
          dec_bind (field_string m ''path'') (\<lambda>p.
          dec_bind (field_string m ''dsn'') (\<lambda>s.
          dec_bind (field_string m ''dsn_env'') (\<lambda>e.
            Inr \<lparr>dc_Dialect = d, dc_Path = p, dc_DSN = s, dc_DSNEnv = e\<rparr>))))))"

definition resolveDBConnectionEnv :: "'x db_env \<Rightarrow> string \<Rightarrow> string" where
  "resolveDBConnectionEnv d explicitKey =
     (let key = trim_space explicitKey
      in if key \<noteq> [] then trim_space (de_getenv d key)
         else case find (\<lambda>v. v \<noteq> []) (map (\<lambda>c. trim_space (de_getenv d c)) [''PB_DB_DSN'', ''DATABASE_URL'', ''DB_DSN'']) of
                None \<Rightarrow> [] | Some v \<Rightarrow> v)"

definition open_ping :: "'x db_env \<Rightarrow> 'x host_world \<Rightarrow> string \<Rightarrow> string \<Rightarrow> 'x host_world \<times> (go_error + string \<times> string)" where
  "open_ping d w driver dsn =
     (let (w1, err) = de_open d w driver dsn
      in (w1, case err of Some e \<Rightarrow> Inl (sql_failed e) | None \<Rightarrow> Inr (dsn, driver)))"

text \<open>The connection, named by its data source, and the dialect.\<close>

definition openDBConnection :: "'x db_env \<Rightarrow> fpath \<Rightarrow> 'x host_world \<Rightarrow> db_config \<Rightarrow> 'x host_world \<times> (go_error + string \<times> string)" where
  "openDBConnection d root w config =
     (let dialect = to_lower (trim_space (dc_Dialect config))
      in if dialect = ''sqlite'' then
           (if trim_space (dc_Path config) = [] then (w, Inl (invalid ''sqlite connection requires path''))
            else case Resolve (hw_fs w) root (dc_Path config) of
              Inl e \<Rightarrow> (w, Inl e)
            | Inr resolved \<Rightarrow> open_ping d w ''sqlite'' (path_string resolved))
         else if dialect = ''postgres'' then
           (let dsn0 = trim_space (dc_DSN config);
                dsn = (if dsn0 = [] then resolveDBConnectionEnv d (dc_DSNEnv config) else dsn0)
            in if dsn = [] then (w, Inl (invalid ''postgres connection requires dsn''))
               else open_ping d w ''postgres'' dsn)
         else (w, Inl (invalid ''dialect must be sqlite or postgres'')))"

section \<open>Which statements\<close>

definition clampReadonlyRows :: "int \<Rightarrow> int" where
  "clampReadonlyRows requested = (if requested \<le> 0 \<or> requested > maxReadonlyRows then maxReadonlyRows else requested)"

definition semicolon :: char where
  "semicolon = CHR '';''"

text \<open>\<open>strings.TrimSuffix(s, ";")\<close>\<close>

definition trim_semicolon :: "string \<Rightarrow> string" where
  "trim_semicolon s = (if s \<noteq> [] \<and> last s = semicolon then butlast s else s)"

text \<open>The text of one statement, without a final semicolon; the common part of the two checks.\<close>

definition single_statement :: "string \<Rightarrow> go_error + string" where
  "single_statement query =
     (let trimmed = trim_space query
      in if trimmed = [] then Inl (invalid ''query is required'')
         else if semicolon \<in> set trimmed then
           (if last trimmed \<noteq> semicolon \<or> semicolon \<in> set (trim_semicolon trimmed)
            then Inl (denied ''multiple SQL statements are not allowed'')
            else Inr (trim_space (trim_semicolon trimmed)))
         else Inr trimmed)"

definition normalizeReadonlyQuery :: "'x db_env \<Rightarrow> string \<Rightarrow> int \<Rightarrow> go_error + int \<times> string" where
  "normalizeReadonlyQuery d query requested =
     (case single_statement query of
        Inl e \<Rightarrow> Inl e
      | Inr trimmed \<Rightarrow>
          (case de_parse d trimmed of
             None \<Rightarrow> Inl (denied ''query must be a single read-only SELECT statement'')
           | Some StmtOther \<Rightarrow> Inl (denied ''query must be a read-only SELECT statement'')
           | Some _ \<Rightarrow> Inr (clampReadonlyRows requested, trimmed)))"

definition normalizeExecuteQuery :: "'x db_env \<Rightarrow> string \<Rightarrow> go_error + string" where
  "normalizeExecuteQuery d query =
     (case single_statement query of
        Inl e \<Rightarrow> Inl e
      | Inr trimmed \<Rightarrow>
          (case de_parse d trimmed of
             None \<Rightarrow> Inl (denied ''query must be a single DDL/DML statement'')
           | Some StmtOther \<Rightarrow> Inr trimmed
           | Some _ \<Rightarrow> Inl (denied ''read-only SELECT queries must use db.query'')))"

section \<open>Reading rows\<close>

record db_result_column =
  rc_Name :: string
  rc_Database :: string
  rc_Nullable :: bool

record db_query_result =
  dq_Dialect :: string
  dq_Columns :: "db_result_column list"
  dq_Rows :: "json list"
  dq_RowCount :: int
  dq_Limited :: bool
  dq_Query :: string

fun normalizeSQLValue :: "sql_value \<Rightarrow> json" where
  "normalizeSQLValue SqlNull = JNull"
| "normalizeSQLValue (SqlBytes s) = JStr s"
| "normalizeSQLValue (SqlText s) = JStr s"
| "normalizeSQLValue (SqlInt i) = JNum i"
| "normalizeSQLValue (SqlTime t) = JStr t"
| "normalizeSQLValue (SqlOther j _) = j"

text \<open>A row as a map by the names of the columns; \<open>Scan\<close> fails on a row of another width.\<close>

definition scanRow :: "column_type list \<Rightarrow> sql_value list \<Rightarrow> go_error + json" where
  "scanRow columns vs =
     (if length vs \<noteq> length columns then Inl (GoErr ''sql: unexpected number of destination arguments in Scan'')
      else Inr (json_canon (JObj (zip (map ct_Name columns) (map normalizeSQLValue vs)))))"

text \<open>The rows read, whether there was one more than asked for, and the error of a row.\<close>

fun read_rows :: "column_type list \<Rightarrow> int \<Rightarrow> json list \<Rightarrow> sql_value list list \<Rightarrow> go_error + json list \<times> bool" where
  "read_rows columns cap acc [] = Inr (acc, False)"
| "read_rows columns cap acc (vs # rows) =
     (case scanRow columns vs of
        Inl e \<Rightarrow> Inl e
      | Inr record \<Rightarrow> (if int (length acc) = cap then Inr (acc, True) else read_rows columns cap (acc @ [record]) rows))"

definition result_column :: "column_type \<Rightarrow> db_result_column" where
  "result_column c = \<lparr>rc_Name = ct_Name c, rc_Database = ct_Type c, rc_Nullable = (ct_Nullable c = Some True)\<rparr>"

definition wrapped :: "string \<Rightarrow> int \<Rightarrow> string" where
  "wrapped q cap = ''SELECT * FROM ('' @ q @ '') AS pb_readonly LIMIT '' @ itoa (cap + 1)"

text \<open>\<open>rows.Err\<close> is set only when the rows were read to the end.\<close>

definition query_result :: "string \<Rightarrow> string \<Rightarrow> int \<Rightarrow> result_set \<Rightarrow> go_error + db_query_result" where
  "query_result dialect q cap rs =
     (case rs_Columns rs of
        Inl e \<Rightarrow> Inl (sql_failed e)
      | Inr columns \<Rightarrow>
          (case read_rows columns cap [] (rs_Rows rs) of
             Inl e \<Rightarrow> Inl (sql_failed e)
           | Inr (rows, limited) \<Rightarrow>
               (case (if limited then None else rs_Err rs) of
                  Some e \<Rightarrow> Inl (sql_failed e)
                | None \<Rightarrow> Inr \<lparr>dq_Dialect = dialect, dq_Columns = map result_column columns, dq_Rows = rows,
                           dq_RowCount = int (length rows), dq_Limited = limited, dq_Query = q\<rparr>)))"

definition executeReadonlyQuery ::
  "'x db_env \<Rightarrow> 'x host_world \<Rightarrow> string \<Rightarrow> string \<Rightarrow> string \<Rightarrow> int \<Rightarrow> 'x host_world \<times> (go_error + db_query_result)" where
  "executeReadonlyQuery d w db dialect query requested =
     (case normalizeReadonlyQuery d query requested of
        Inl e \<Rightarrow> (w, Inl e)
      | Inr (cap, q) \<Rightarrow>
          (let (w1, r) = de_query d w db (wrapped q cap) []
           in (w1, case r of Inl e \<Rightarrow> Inl (sql_failed e) | Inr rs \<Rightarrow> query_result dialect q cap rs)))"

section \<open>The primitives for statements\<close>

definition emitDBProgress :: "'x db_env \<Rightarrow> 'x host_world \<Rightarrow> string \<Rightarrow> string \<Rightarrow> jmap \<Rightarrow> 'x host_world" where
  "emitDBProgress d w method message payload =
     host_emit (de_host d) w (zero_event\<lparr>ev_Type := ''db.progress'', ev_Source := ''primitive'', ev_Method := method,
       ev_Message := message, ev_Data := json_marshal (JObj payload)\<rparr>)"

record db_query_params =
  dqp_Connection :: db_config
  dqp_Query :: string
  dqp_MaxRows :: int

definition dec_db_query :: "raw \<Rightarrow> db_query_params decoded" where
  "dec_db_query r =
     dec_bind (dec_map r) (\<lambda>m.
     dec_bind (dec_connection m) (\<lambda>c.
     dec_bind (field_string m ''query'') (\<lambda>q.
     dec_bind (field_int m ''max_rows'') (\<lambda>n. Inr \<lparr>dqp_Connection = c, dqp_Query = q, dqp_MaxRows = n\<rparr>))))"

text \<open>The two query primitives differ in their name and in what they make of the result.\<close>

definition db_query_as ::
  "string \<Rightarrow> (db_query_result \<Rightarrow> json) \<Rightarrow> 'x db_env \<Rightarrow> fpath \<Rightarrow> 'x host_world \<Rightarrow> raw \<Rightarrow> 'x host_world \<times> (go_error + prim_result)" where
  "db_query_as name f d root w params =
     (case dec_db_query params of
        Inl e \<Rightarrow> (w, Inl (invalid_params e))
      | Inr p \<Rightarrow>
          (if trim_space (dqp_Query p) = [] then (w, Inl (invalid ''query is required''))
           else
             (let (w1, c) = openDBConnection d root w (dqp_Connection p)
              in case c of
                   Inl e \<Rightarrow> (w1, Inl e)
                 | Inr (db, dialect) \<Rightarrow>
                     (let w2 = emitDBProgress d w1 name ''query_started'' [(''dialect'', JStr dialect), (''target'', JStr ''query''),
                                 (''max_rows'', JNum (clampReadonlyRows (dqp_MaxRows p)))];
                          (w3, r) = executeReadonlyQuery d w2 db dialect (dqp_Query p) (dqp_MaxRows p)
                      in case r of
                           Inl e \<Rightarrow> (w3, Inl e)
                         | Inr q \<Rightarrow>
                             (let ms = de_clock d w3 - de_clock d w
                              in (emitDBProgress d w3 name ''query_completed'' [(''dialect'', JStr dialect), (''target'', JStr ''query''),
                                    (''row_count'', JNum (dq_RowCount q)), (''limited'', JBool (dq_Limited q)), (''duration_ms'', JNum ms)],
                                  Inr ((ok_result (f q))\<lparr>pr_Duration := ms\<rparr>)))))))"

definition DBQuery_Execute :: "'x db_env \<Rightarrow> fpath \<Rightarrow> 'x host_world \<Rightarrow> raw \<Rightarrow> 'x host_world \<times> (go_error + prim_result)" where
  "DBQuery_Execute = db_query_as ''db.query'' (\<lambda>q. JArr (dq_Rows q))"

definition column_json :: "db_result_column \<Rightarrow> json" where
  "column_json c = JObj ([(''name'', JStr (rc_Name c))] @
     (if rc_Database c = [] then [] else [(''database_type'', JStr (rc_Database c))]) @ [(''nullable'', JBool (rc_Nullable c))])"

definition query_result_json :: "db_query_result \<Rightarrow> json" where
  "query_result_json q = JObj [(''dialect'', JStr (dq_Dialect q)), (''columns'', JArr (map column_json (dq_Columns q))),
     (''rows'', JArr (dq_Rows q)), (''row_count'', JNum (dq_RowCount q)), (''limited'', JBool (dq_Limited q)), (''query'', JStr (dq_Query q))]"

definition DBQueryReadonly_Execute :: "'x db_env \<Rightarrow> fpath \<Rightarrow> 'x host_world \<Rightarrow> raw \<Rightarrow> 'x host_world \<times> (go_error + prim_result)" where
  "DBQueryReadonly_Execute = db_query_as ''db.query_readonly'' query_result_json"

definition DBExecute_Execute :: "'x db_env \<Rightarrow> fpath \<Rightarrow> 'x host_world \<Rightarrow> raw \<Rightarrow> 'x host_world \<times> (go_error + prim_result)" where
  "DBExecute_Execute d root w params =
     (case dec_bind (dec_map params) (\<lambda>m. dec_bind (dec_connection m) (\<lambda>c. dec_bind (field_string m ''query'') (\<lambda>q. Inr (c, q)))) of
        Inl e \<Rightarrow> (w, Inl (invalid_params e))
      | Inr (config, query) \<Rightarrow>
          (let (w1, c) = openDBConnection d root w config
           in case c of
                Inl e \<Rightarrow> (w1, Inl e)
              | Inr (db, dialect) \<Rightarrow>
                  (case normalizeExecuteQuery d query of
                     Inl e \<Rightarrow> (w1, Inl e)
                   | Inr normalized \<Rightarrow>
                       (let w2 = emitDBProgress d w1 ''db.execute'' ''execute_started'' [(''dialect'', JStr dialect), (''target'', JStr ''execute'')];
                            (w3, r) = de_exec d w2 db normalized
                        in case r of
                             Inl e \<Rightarrow> (w3, Inl (sql_failed e))
                           | Inr affected \<Rightarrow>
                               (let n = (case affected of None \<Rightarrow> 0 | Some k \<Rightarrow> k); ms = de_clock d w3 - de_clock d w
                                in (emitDBProgress d w3 ''db.execute'' ''execute_completed'' [(''dialect'', JStr dialect),
                                      (''target'', JStr ''execute''), (''rows_affected'', JNum n), (''duration_ms'', JNum ms)],
                                    Inr ((ok_result (JObj [(''dialect'', JStr dialect), (''query'', JStr normalized),
                                      (''rows_affected'', JNum n)]))\<lparr>pr_Duration := ms\<rparr>)))))))"

section \<open>The schema of a database\<close>

record db_column_info =
  ci_Name :: string
  ci_Type :: string
  ci_Nullable :: bool
  ci_Default :: string
  ci_PrimaryKey :: bool

record db_table_info =
  ti_Schema :: string
  ti_Name :: string
  ti_DDL :: string
  ti_Columns :: "db_column_info list"

record db_index_info =
  ii_Schema :: string
  ii_Table :: string
  ii_Name :: string
  ii_Columns :: "string list"
  ii_Unique :: bool
  ii_DDL :: string
  ii_Primary :: bool

record db_schema_result =
  sr_Dialect :: string
  sr_Tables :: "db_table_info list"
  sr_Indexes :: "db_index_info list"

text \<open>\<open>Scan\<close> into a string, a nullable string and an integer.\<close>

fun scan_str :: "sql_value \<Rightarrow> go_error + string" where
  "scan_str SqlNull = Inl (GoErr ''converting NULL to string is unsupported'')"
| "scan_str (SqlBytes s) = Inr s"
| "scan_str (SqlText s) = Inr s"
| "scan_str (SqlInt i) = Inr (itoa i)"
| "scan_str (SqlTime t) = Inr t"
| "scan_str (SqlOther _ s) = Inr s"

fun scan_null_str :: "sql_value \<Rightarrow> go_error + string" where
  "scan_null_str SqlNull = Inr []"
| "scan_null_str v = scan_str v"

fun scan_int :: "sql_value \<Rightarrow> go_error + int" where
  "scan_int (SqlInt i) = Inr i"
| "scan_int SqlNull = Inl (GoErr ''converting NULL to int is unsupported'')"
| "scan_int v = dec_bind (scan_str v) (\<lambda>s. case atoi s of None \<Rightarrow> Inl (GoErr ''invalid syntax'') | Some i \<Rightarrow> Inr i)"

definition scan_width :: go_error where
  "scan_width = GoErr ''sql: unexpected number of destination arguments in Scan''"

text \<open>A loop over the rows of a result set, whose body may query again.\<close>

fun for_rows :: "('w \<Rightarrow> 'a \<Rightarrow> sql_value list \<Rightarrow> 'w \<times> (go_error + 'a)) \<Rightarrow> 'w \<Rightarrow> 'a \<Rightarrow> sql_value list list \<Rightarrow> 'w \<times> (go_error + 'a)" where
  "for_rows f w a [] = (w, Inr a)"
| "for_rows f w a (vs # rows) = (let (w1, r) = f w a vs in case r of Inl e \<Rightarrow> (w1, Inl e) | Inr a' \<Rightarrow> for_rows f w1 a' rows)"

definition query_rows ::
  "'x db_env \<Rightarrow> 'x host_world \<Rightarrow> string \<Rightarrow> string \<Rightarrow> string list
   \<Rightarrow> ('x host_world \<Rightarrow> result_set \<Rightarrow> 'x host_world \<times> (go_error + 'a)) \<Rightarrow> 'x host_world \<times> (go_error + 'a)" where
  "query_rows d w db sql args k =
     (let (w1, r) = de_query d w db sql args in case r of Inl e \<Rightarrow> (w1, Inl (sql_failed e)) | Inr rs \<Rightarrow> k w1 rs)"

definition after_rows :: "result_set \<Rightarrow> 'w \<times> (go_error + 'a) \<Rightarrow> 'w \<times> (go_error + 'a)" where
  "after_rows rs x = (fst x, case snd x of Inl e \<Rightarrow> Inl e | Inr a \<Rightarrow> (case rs_Err rs of Some e \<Rightarrow> Inl e | None \<Rightarrow> Inr a))"

subsection \<open>SQLite\<close>

definition sqlite_column :: "sql_value list \<Rightarrow> go_error + db_column_info" where
  "sqlite_column vs =
     (case vs of
        [cid, name, typ', notNull, dflt, pk] \<Rightarrow>
          dec_bind (scan_int cid) (\<lambda>_. dec_bind (scan_str name) (\<lambda>n. dec_bind (scan_str typ') (\<lambda>t.
          dec_bind (scan_int notNull) (\<lambda>nn. dec_bind (scan_null_str dflt) (\<lambda>df. dec_bind (scan_int pk) (\<lambda>k.
            Inr \<lparr>ci_Name = n, ci_Type = t, ci_Nullable = (nn = 0), ci_Default = df, ci_PrimaryKey = (k > 0)\<rparr>))))))
      | _ \<Rightarrow> Inl scan_width)"

definition pure_row :: "(sql_value list \<Rightarrow> go_error + 'a) \<Rightarrow> 'w \<Rightarrow> 'a list \<Rightarrow> sql_value list \<Rightarrow> 'w \<times> (go_error + 'a list)" where
  "pure_row f w acc vs = (w, case f vs of Inl e \<Rightarrow> Inl (sql_failed e) | Inr x \<Rightarrow> Inr (acc @ [x]))"

definition introspectSQLiteColumns :: "'x db_env \<Rightarrow> 'x host_world \<Rightarrow> string \<Rightarrow> string \<Rightarrow> 'x host_world \<times> (go_error + db_column_info list)" where
  "introspectSQLiteColumns d w db table =
     query_rows d w db (''PRAGMA table_info('' @ de_ident d table @ '')'') [] (\<lambda>w1 rs.
       after_rows rs (for_rows (pure_row sqlite_column) w1 [] (rs_Rows rs)))"

definition upper_char :: "char \<Rightarrow> char" where
  "upper_char c = (let n = (of_char c :: nat) in if 97 \<le> n \<and> n \<le> 122 then char_of (n - 32) else c)"

definition to_upper :: "string \<Rightarrow> string" where
  "to_upper s = map upper_char s"

definition index_column :: "sql_value list \<Rightarrow> go_error + string" where
  "index_column vs =
     (case vs of
        [seqno, cid, name] \<Rightarrow> dec_bind (scan_int seqno) (\<lambda>_. dec_bind (scan_int cid) (\<lambda>_. scan_str name))
      | _ \<Rightarrow> Inl scan_width)"

definition introspectSQLiteIndex ::
  "'x db_env \<Rightarrow> 'x host_world \<Rightarrow> string \<Rightarrow> string \<Rightarrow> string \<Rightarrow> string \<Rightarrow> 'x host_world \<times> (go_error + db_index_info)" where
  "introspectSQLiteIndex d w db tableName indexName ddl =
     query_rows d w db (''PRAGMA index_info('' @ de_ident d indexName @ '')'') [] (\<lambda>w1 rs.
       let (w2, r) = after_rows rs (for_rows (pure_row index_column) w1 [] (rs_Rows rs))
       in (w2, map_sum id (\<lambda>cols. \<lparr>ii_Schema = [], ii_Table = tableName, ii_Name = indexName, ii_Columns = cols,
              ii_Unique = contains_str (to_upper ddl) ''UNIQUE'', ii_DDL = ddl, ii_Primary = False\<rparr>) r))"

definition sqlite_objects :: string where
  "sqlite_objects = ''SELECT type, name, tbl_name, sql FROM sqlite_master WHERE type IN ('' @ [CHR 0x27] @ ''table'' @ [CHR 0x27] @ '', '' @
     [CHR 0x27] @ ''index'' @ [CHR 0x27] @ '') AND name NOT LIKE '' @ [CHR 0x27] @ ''sqlite_%'' @ [CHR 0x27] @ '' ORDER BY type, name''"

definition sqlite_object ::
  "'x db_env \<Rightarrow> string \<Rightarrow> 'x host_world \<Rightarrow> db_schema_result \<Rightarrow> sql_value list \<Rightarrow> 'x host_world \<times> (go_error + db_schema_result)" where
  "sqlite_object d db w res vs =
     (case (case vs of
              [k, n, t, s] \<Rightarrow> dec_bind (scan_str k) (\<lambda>kind. dec_bind (scan_str n) (\<lambda>name. dec_bind (scan_str t) (\<lambda>table.
                              dec_bind (scan_str s) (\<lambda>ddl. Inr (kind, name, table, ddl)))))
            | _ \<Rightarrow> Inl scan_width) of
        Inl e \<Rightarrow> (w, Inl (sql_failed e))
      | Inr (kind, name, table, ddl) \<Rightarrow>
          (if kind = ''table'' then
             (let (w1, r) = introspectSQLiteColumns d w db name
              in (w1, map_sum id (\<lambda>cols. res\<lparr>sr_Tables := sr_Tables res @ [\<lparr>ti_Schema = [], ti_Name = name, ti_DDL = ddl, ti_Columns = cols\<rparr>]\<rparr>) r))
           else if kind = ''index'' then
             (let (w1, r) = introspectSQLiteIndex d w db table name ddl
              in (w1, map_sum id (\<lambda>ix. res\<lparr>sr_Indexes := sr_Indexes res @ [ix]\<rparr>) r))
           else (w, Inr res)))"

definition no_schema :: db_schema_result where
  "no_schema = \<lparr>sr_Dialect = [], sr_Tables = [], sr_Indexes = []\<rparr>"

definition introspectSQLiteSchema :: "'x db_env \<Rightarrow> 'x host_world \<Rightarrow> string \<Rightarrow> 'x host_world \<times> (go_error + db_schema_result)" where
  "introspectSQLiteSchema d w db =
     query_rows d w db sqlite_objects [] (\<lambda>w1 rs. after_rows rs (for_rows (sqlite_object d db) w1 no_schema (rs_Rows rs)))"

subsection \<open>PostgreSQL\<close>

definition quoted :: "string \<Rightarrow> string" where
  "quoted s = [CHR 0x27] @ s @ [CHR 0x27]"

definition system_schemas :: string where
  "system_schemas = ''('' @ quoted ''pg_catalog'' @ '', '' @ quoted ''information_schema'' @ '')''"

definition postgres_keys_query :: string where
  "postgres_keys_query = ''SELECT a.attname FROM pg_index i JOIN pg_class c ON c.oid = i.indrelid JOIN pg_namespace n ON n.oid = c.relnamespace JOIN pg_attribute a ON a.attrelid = c.oid AND a.attnum = ANY(i.indkey) WHERE i.indisprimary = TRUE AND n.nspname = $1 AND c.relname = $2''"

definition postgres_columns_query :: string where
  "postgres_columns_query = ''SELECT column_name, data_type, is_nullable, COALESCE(column_default, '' @ quoted [] @ ''), ordinal_position FROM information_schema.columns WHERE table_schema = $1 AND table_name = $2 ORDER BY ordinal_position''"

definition postgres_tables_query :: string where
  "postgres_tables_query = ''SELECT table_schema, table_name FROM information_schema.tables WHERE table_type='' @ quoted ''BASE TABLE'' @ '' AND table_schema NOT IN '' @ system_schemas @ '' ORDER BY table_schema, table_name''"

definition postgres_indexes_query :: string where
  "postgres_indexes_query = ''SELECT schemaname, tablename, indexname, indexdef FROM pg_indexes WHERE schemaname NOT IN '' @ system_schemas @ '' ORDER BY schemaname, tablename, indexname''"

definition one_string :: "sql_value list \<Rightarrow> go_error + string" where
  "one_string vs = (case vs of [v] \<Rightarrow> scan_str v | _ \<Rightarrow> Inl scan_width)"

definition postgresPrimaryKeys :: "'x db_env \<Rightarrow> 'x host_world \<Rightarrow> string \<Rightarrow> string \<Rightarrow> string \<Rightarrow> 'x host_world \<times> (go_error + string list)" where
  "postgresPrimaryKeys d w db schemaName tableName =
     query_rows d w db postgres_keys_query [schemaName, tableName] (\<lambda>w1 rs.
       after_rows rs (for_rows (pure_row one_string) w1 [] (rs_Rows rs)))"

definition postgres_column :: "string list \<Rightarrow> sql_value list \<Rightarrow> go_error + db_column_info" where
  "postgres_column keys vs =
     (case vs of
        [name, dataType, isNullable, dflt, ordinal] \<Rightarrow>
          dec_bind (scan_str name) (\<lambda>n. dec_bind (scan_str dataType) (\<lambda>t. dec_bind (scan_str isNullable) (\<lambda>nn.
          dec_bind (scan_str dflt) (\<lambda>df. dec_bind (scan_int ordinal) (\<lambda>_.
            Inr \<lparr>ci_Name = n, ci_Type = t, ci_Nullable = (nn = ''YES''), ci_Default = df, ci_PrimaryKey = (n \<in> set keys)\<rparr>)))))
      | _ \<Rightarrow> Inl scan_width)"

definition introspectPostgresColumns ::
  "'x db_env \<Rightarrow> 'x host_world \<Rightarrow> string \<Rightarrow> string \<Rightarrow> string \<Rightarrow> 'x host_world \<times> (go_error + db_column_info list)" where
  "introspectPostgresColumns d w db schemaName tableName =
     query_rows d w db postgres_columns_query [schemaName, tableName] (\<lambda>w1 rs.
       let (w2, r) = postgresPrimaryKeys d w1 db schemaName tableName
       in case r of
            Inl e \<Rightarrow> (w2, Inl e)
          | Inr keys \<Rightarrow> after_rows rs (for_rows (pure_row (postgres_column keys)) w2 [] (rs_Rows rs)))"

definition column_def :: "db_column_info \<Rightarrow> string" where
  "column_def c = ci_Name c @ '' '' @ ci_Type c @ (if ci_Nullable c then [] else '' NOT NULL'') @
     (if ci_Default c = [] then [] else '' DEFAULT '' @ ci_Default c)"

definition synthesizePostgresDDL :: "string \<Rightarrow> string \<Rightarrow> db_column_info list \<Rightarrow> string" where
  "synthesizePostgresDDL schemaName tableName columns =
     ''CREATE TABLE '' @ schemaName @ ''.'' @ tableName @ '' ('' @ join_with '', '' (map column_def columns) @ '');''"

definition postgres_table ::
  "'x db_env \<Rightarrow> string \<Rightarrow> 'x host_world \<Rightarrow> db_table_info list \<Rightarrow> sql_value list \<Rightarrow> 'x host_world \<times> (go_error + db_table_info list)" where
  "postgres_table d db w acc vs =
     (case (case vs of [s, t] \<Rightarrow> dec_bind (scan_str s) (\<lambda>sn. dec_bind (scan_str t) (\<lambda>tn. Inr (sn, tn))) | _ \<Rightarrow> Inl scan_width) of
        Inl e \<Rightarrow> (w, Inl (sql_failed e))
      | Inr (sn, tn) \<Rightarrow>
          (let (w1, r) = introspectPostgresColumns d w db sn tn
           in (w1, map_sum id (\<lambda>cols. acc @ [\<lparr>ti_Schema = sn, ti_Name = tn, ti_DDL = synthesizePostgresDDL sn tn cols, ti_Columns = cols\<rparr>]) r)))"

definition postgres_index :: "sql_value list \<Rightarrow> go_error + db_index_info" where
  "postgres_index vs =
     (case vs of
        [s, t, i, def] \<Rightarrow>
          dec_bind (scan_str s) (\<lambda>sn. dec_bind (scan_str t) (\<lambda>tn. dec_bind (scan_str i) (\<lambda>ixn. dec_bind (scan_str def) (\<lambda>ddl.
            Inr \<lparr>ii_Schema = sn, ii_Table = tn, ii_Name = ixn, ii_Columns = [], ii_Unique = contains_str (to_upper ddl) ''UNIQUE'',
                 ii_DDL = ddl, ii_Primary = contains_str (to_upper ddl) ''PRIMARY KEY''\<rparr>))))
      | _ \<Rightarrow> Inl scan_width)"

definition introspectPostgresSchema :: "'x db_env \<Rightarrow> 'x host_world \<Rightarrow> string \<Rightarrow> 'x host_world \<times> (go_error + db_schema_result)" where
  "introspectPostgresSchema d w db =
     query_rows d w db postgres_tables_query [] (\<lambda>w1 rs.
       let (w2, r) = after_rows rs (for_rows (postgres_table d db) w1 [] (rs_Rows rs))
       in case r of
            Inl e \<Rightarrow> (w2, Inl e)
          | Inr tables' \<Rightarrow>
              query_rows d w2 db postgres_indexes_query [] (\<lambda>w3 ixs.
                let (w4, q) = after_rows ixs (for_rows (pure_row postgres_index) w3 [] (rs_Rows ixs))
                in (w4, map_sum id (\<lambda>indexes. no_schema\<lparr>sr_Tables := tables', sr_Indexes := indexes\<rparr>) q)))"

subsection \<open>db.schema\<close>

definition column_info_json :: "db_column_info \<Rightarrow> json" where
  "column_info_json c = JObj ([(''name'', JStr (ci_Name c)), (''type'', JStr (ci_Type c)), (''nullable'', JBool (ci_Nullable c))] @
     (if ci_Default c = [] then [] else [(''default'', JStr (ci_Default c))]) @
     (if ci_PrimaryKey c then [(''primary_key'', JBool True)] else []))"

text \<open>The columns of a table without any are a nil slice.\<close>

definition table_info_json :: "db_table_info \<Rightarrow> json" where
  "table_info_json t = JObj ((if ti_Schema t = [] then [] else [(''schema'', JStr (ti_Schema t))]) @ [(''name'', JStr (ti_Name t))] @
     (if ti_DDL t = [] then [] else [(''ddl'', JStr (ti_DDL t))]) @
     [(''columns'', if ti_Columns t = [] then JNull else JArr (map column_info_json (ti_Columns t)))])"

definition index_info_json :: "db_index_info \<Rightarrow> json" where
  "index_info_json i = JObj ((if ii_Schema i = [] then [] else [(''schema'', JStr (ii_Schema i))]) @
     [(''table'', JStr (ii_Table i)), (''name'', JStr (ii_Name i))] @
     (if ii_Columns i = [] then [] else [(''columns'', JArr (map JStr (ii_Columns i)))]) @ [(''unique'', JBool (ii_Unique i))] @
     (if ii_DDL i = [] then [] else [(''ddl'', JStr (ii_DDL i))]) @ (if ii_Primary i then [(''primary'', JBool True)] else []))"

definition schema_result_json :: "db_schema_result \<Rightarrow> json" where
  "schema_result_json s = JObj [(''dialect'', JStr (sr_Dialect s)), (''tables'', JArr (map table_info_json (sr_Tables s))),
     (''indexes'', JArr (map index_info_json (sr_Indexes s)))]"

definition DBSchema_Execute :: "'x db_env \<Rightarrow> fpath \<Rightarrow> 'x host_world \<Rightarrow> raw \<Rightarrow> 'x host_world \<times> (go_error + prim_result)" where
  "DBSchema_Execute d root w params =
     (case dec_bind (dec_map params) dec_connection of
        Inl e \<Rightarrow> (w, Inl (invalid_params e))
      | Inr config \<Rightarrow>
          (let (w1, c) = openDBConnection d root w config
           in case c of
                Inl e \<Rightarrow> (w1, Inl e)
              | Inr (db, dialect) \<Rightarrow>
                  (let w2 = emitDBProgress d w1 ''db.schema'' ''schema_started'' [(''dialect'', JStr dialect), (''target'', JStr ''schema'')];
                       (w3, r) = (if dialect = ''sqlite'' then introspectSQLiteSchema d w2 db
                                  else if dialect = ''postgres'' then introspectPostgresSchema d w2 db
                                  else (w2, Inl (invalid ''unsupported database dialect'')))
                   in case r of
                        Inl e \<Rightarrow> (w3, Inl e)
                      | Inr s0 \<Rightarrow>
                          (let s = s0\<lparr>sr_Dialect := dialect\<rparr>; ms = de_clock d w3 - de_clock d w
                           in (emitDBProgress d w3 ''db.schema'' ''schema_completed'' [(''dialect'', JStr dialect), (''target'', JStr ''schema''),
                                 (''table_count'', JNum (int (length (sr_Tables s)))), (''index_count'', JNum (int (length (sr_Indexes s)))),
                                 (''duration_ms'', JNum ms)],
                               Inr ((ok_result (schema_result_json s))\<lparr>pr_Duration := ms\<rparr>))))))"

section \<open>Properties\<close>

lemma set_trim_space: "set (trim_space s) \<subseteq> set s"
  by (auto simp: trim_space_def trim_left_def dest!: set_dropWhileD)

lemma single_statement_one: "single_statement q = Inr t \<Longrightarrow> semicolon \<notin> set t"
  using set_trim_space by (auto simp: single_statement_def Let_def split: if_splits)

lemma clamp_bounds: "0 < clampReadonlyRows n" "clampReadonlyRows n \<le> 100"
  by (simp_all add: clampReadonlyRows_def maxReadonlyRows_def)

text \<open>The texts a query may send to the database: one statement that the parser takes for a SELECT or a UNION, as a
  subquery, with a bound on the rows.\<close>

definition readonly_text :: "'x db_env \<Rightarrow> string \<Rightarrow> bool" where
  "readonly_text d sql \<longleftrightarrow> (\<exists>q n. sql = wrapped q n \<and> semicolon \<notin> set q \<and> de_parse d q \<in> {Some StmtSelect, Some StmtUnion} \<and> 0 < n \<and> n \<le> 100)"

lemma normalize_readonly_text: "normalizeReadonlyQuery d q n = Inr (cap, t) \<Longrightarrow> readonly_text d (wrapped t cap)"
  using single_statement_one clamp_bounds unfolding readonly_text_def
  by (intro exI [of _ t] exI [of _ cap]) (auto simp: normalizeReadonlyQuery_def split: sum.splits option.splits sql_stmt.splits)

abbreviation other_driver where
  "other_driver d Q X \<equiv> d\<lparr>de_query := Q, de_exec := X\<rparr>"

lemma other_driver_fields:
  "de_parse (other_driver d Q X) = de_parse d" "de_getenv (other_driver d Q X) = de_getenv d"
  "de_clock (other_driver d Q X) = de_clock d" "de_open (other_driver d Q X) = de_open d" "de_host (other_driver d Q X) = de_host d"
  by simp_all

lemma other_driver_same [simp]:
  "normalizeReadonlyQuery (other_driver d Q X) = normalizeReadonlyQuery d"
  "openDBConnection (other_driver d Q X) = openDBConnection d" "emitDBProgress (other_driver d Q X) = emitDBProgress d"
  unfolding normalizeReadonlyQuery_def [abs_def] openDBConnection_def [abs_def] open_ping_def resolveDBConnectionEnv_def
    emitDBProgress_def [abs_def] other_driver_fields by (rule refl)+

lemma executeReadonlyQuery_gate:
  assumes "\<And>w db sql. readonly_text d sql \<Longrightarrow> Q w db sql [] = de_query d w db sql []"
  shows "executeReadonlyQuery (other_driver d Q X) w db dialect query n = executeReadonlyQuery d w db dialect query n"
  using assms normalize_readonly_text [of d query n]
  by (auto simp: executeReadonlyQuery_def split: sum.split)

text \<open>
  C14. The query primitives only query. Whatever the parameters, what \<open>db.query\<close> and \<open>db.query_readonly\<close> do depends on the
  database only through queries that wrap one statement, which the parser takes for a SELECT or a UNION
  and which has no semicolon, with a bound of at most 101 rows: with another driver that answers those alike, and whatever it
  does for other texts and for statements to execute, the result and the world are the same.
\<close>

theorem db_query_gate:
  assumes "\<And>w db sql. readonly_text d sql \<Longrightarrow> Q w db sql [] = de_query d w db sql []"
  shows "DBQuery_Execute (other_driver d Q X) root w params = DBQuery_Execute d root w params \<and>
    DBQueryReadonly_Execute (other_driver d Q X) root w params = DBQueryReadonly_Execute d root w params"
proof -
  have e: "executeReadonlyQuery (other_driver d Q X) = executeReadonlyQuery d"
    by (intro ext executeReadonlyQuery_gate) (rule assms)
  have "db_query_as name f (other_driver d Q X) root w params = db_query_as name f d root w params" for name f
    unfolding db_query_as_def e other_driver_same other_driver_fields ..
  then show ?thesis by (simp add: DBQuery_Execute_def DBQueryReadonly_Execute_def)
qed

text \<open>
  A statement belongs to at most one of the primitives. A text that is one statement and parses is accepted either for \<open>db.query\<close> or
  for \<open>db.execute\<close>, never for both, and the text that runs is that statement without its final semicolon; any other
  text is refused by both with an error.
\<close>

theorem db_statement_partition:
  "case single_statement q of
     Inr t \<Rightarrow>
       (case de_parse d t of
          None \<Rightarrow> (\<exists>e e'. normalizeReadonlyQuery d q n = Inl e \<and> normalizeExecuteQuery d q = Inl e')
        | Some StmtOther \<Rightarrow> (\<exists>e. normalizeReadonlyQuery d q n = Inl e) \<and> normalizeExecuteQuery d q = Inr t
        | Some _ \<Rightarrow> normalizeReadonlyQuery d q n = Inr (clampReadonlyRows n, t) \<and> (\<exists>e. normalizeExecuteQuery d q = Inl e))
   | Inl e \<Rightarrow> normalizeReadonlyQuery d q n = Inl e \<and> normalizeExecuteQuery d q = Inl e"
  by (simp add: normalizeReadonlyQuery_def normalizeExecuteQuery_def split: sum.split option.split sql_stmt.split)

lemma read_rows_take:
  "read_rows columns cap acc rows = Inr (out, lim) \<Longrightarrow> int (length acc) \<le> cap \<Longrightarrow>
   (\<exists>xs. out = acc @ xs \<and> list_all2 (\<lambda>vs x. scanRow columns vs = Inr x) (take (nat cap - length acc) rows) xs) \<and>
   (lim \<longleftrightarrow> length rows > nat cap - length acc) \<and> int (length out) \<le> cap"
proof (induction columns cap acc rows rule: read_rows.induct)
  case (2 columns cap acc vs rows)
  from 2(2) obtain x where x: "scanRow columns vs = Inr x" by (auto split: sum.splits)
  show ?case
  proof (cases "int (length acc) = cap")
    case True
    with 2(2) x show ?thesis by auto
  next
    case False
    with 2(3) have k: "nat cap - length acc = Suc (nat cap - length (acc @ [x]))" "int (length (acc @ [x])) \<le> cap" by auto
    from 2(1) [OF x False _ k(2)] 2(2) x False k(1) show ?thesis by (auto simp: list_all2_Cons1)
  qed
qed simp

lemma execute_query_rows:
  assumes "executeReadonlyQuery d w db dialect query n = (w', Inr r)"
  shows "\<exists>cap rs columns. de_query d w db (wrapped (dq_Query r) cap) [] = (w', Inr rs) \<and> rs_Columns rs = Inr columns \<and>
    cap = clampReadonlyRows n \<and>
    list_all2 (\<lambda>vs x. scanRow columns vs = Inr x) (take (nat cap) (rs_Rows rs)) (dq_Rows r) \<and>
    dq_RowCount r = int (length (dq_Rows r)) \<and> dq_RowCount r \<le> cap \<and> cap \<le> 100 \<and>
    (dq_Limited r \<longleftrightarrow> int (length (rs_Rows rs)) > cap)"
proof -
  from assms obtain cap t where c: "normalizeReadonlyQuery d query n = Inr (cap, t)"
    by (auto simp: executeReadonlyQuery_def split: sum.splits)
  then have cap: "cap = clampReadonlyRows n"
    by (auto simp: normalizeReadonlyQuery_def split: sum.splits option.splits sql_stmt.splits)
  from c assms obtain rs where rs: "de_query d w db (wrapped t cap) [] = (w', Inr rs)" "query_result dialect t cap rs = Inr r"
    by (auto simp: executeReadonlyQuery_def split: prod.splits sum.splits)
  from rs(2) obtain columns rows lim where q: "rs_Columns rs = Inr columns" "read_rows columns cap [] (rs_Rows rs) = Inr (rows, lim)"
    "dq_Rows r = rows" "dq_Limited r = lim" "dq_Query r = t" "dq_RowCount r = int (length rows)"
    by (fastforce simp: query_result_def split: sum.splits option.splits prod.splits)
  from read_rows_take [OF q(2)] clamp_bounds(1) [of n] cap q rs(1) clamp_bounds(2) [of n] show ?thesis
    by (intro exI [of _ cap] exI [of _ rs] exI [of _ columns]) (auto simp: zless_nat_conj nat_less_iff)
qed

text \<open>
  What the code relies on of a driver, for the rows \<open>table\<close> a query has in a world: asked for at most \<open>n\<close> of the rows of a
  subquery, it gives the first \<open>n\<close> of them, fewer only when the iteration ends in an error.
\<close>

definition honours_limit :: "'x db_env \<Rightarrow> ('x host_world \<Rightarrow> string \<Rightarrow> string \<Rightarrow> sql_value list list) \<Rightarrow> bool" where
  "honours_limit d table \<longleftrightarrow>
     (\<forall>w db q n w' rs. 0 \<le> n \<longrightarrow> de_query d w db (''SELECT * FROM ('' @ q @ '') AS pb_readonly LIMIT '' @ itoa n) [] = (w', Inr rs) \<longrightarrow>
        prefix (rs_Rows rs) (take (nat n) (table w db q)) \<and> (rs_Err rs = None \<longrightarrow> rs_Rows rs = take (nat n) (table w db q)))"

lemma limited_rows:
  assumes "prefix rows (take (Suc c) T)" and "length rows > c \<or> rows = take (Suc c) T"
  shows "take c rows = take c T \<and> (length rows > c \<longleftrightarrow> length T > c)"
proof -
  have "rows = take (Suc c) T"
  proof (cases "length rows > c")
    case True
    from assms(1) obtain zs where "take (Suc c) T = rows @ zs" by (auto simp: prefix_def)
    moreover from this have "length rows + length zs \<le> Suc c" by (metis length_append length_take min.cobounded2)
    ultimately show ?thesis using True by (cases zs) auto
  qed (use assms(2) in simp)
  then show ?thesis by (auto simp: min_def)
qed

lemma db_query_as_rows:
  assumes "honours_limit d table" and "db_query_as name f d root w params = (w', Inr x)" and "dec_db_query params = Inr p"
    and "cap = (if 0 < dqp_MaxRows p \<and> dqp_MaxRows p \<le> 100 then dqp_MaxRows p else 100)"
  obtains w1 db dialect q w2 w3 rs columns r where "openDBConnection d root w (dqp_Connection p) = (w1, Inr (db, dialect))"
    "single_statement (dqp_Query p) = Inr q"
    "w2 = emitDBProgress d w1 name ''query_started'' [(''dialect'', JStr dialect), (''target'', JStr ''query''), (''max_rows'', JNum cap)]"
    "de_query d w2 db (''SELECT * FROM ('' @ q @ '') AS pb_readonly LIMIT '' @ itoa (cap + 1)) [] = (w3, Inr rs)" "rs_Columns rs = Inr columns"
    "list_all2 (\<lambda>vs j. scanRow columns vs = Inr j) (take (nat cap) (table w2 db q)) (dq_Rows r)"
    "dq_RowCount r = int (length (dq_Rows r))" "dq_Limited r \<longleftrightarrow> int (length (table w2 db q)) > cap" "pr_Data x = f r"
proof -
  have cap: "cap = clampReadonlyRows (dqp_MaxRows p)" using assms(4) by (auto simp: clampReadonlyRows_def maxReadonlyRows_def)
  from assms(2,3) obtain w1 db dialect where o: "openDBConnection d root w (dqp_Connection p) = (w1, Inr (db, dialect))"
    by (auto simp: db_query_as_def Let_def split: if_splits prod.splits sum.splits)
  define w2 where "w2 = emitDBProgress d w1 name ''query_started'' [(''dialect'', JStr dialect), (''target'', JStr ''query''), (''max_rows'', JNum cap)]"
  from assms(2,3) o obtain w3 r where e: "executeReadonlyQuery d w2 db dialect (dqp_Query p) (dqp_MaxRows p) = (w3, Inr r)" and x: "pr_Data x = f r"
    by (auto simp: db_query_as_def Let_def w2_def cap ok_result_def split: if_splits prod.splits sum.splits)
  from e obtain q where q: "single_statement (dqp_Query p) = Inr q" "normalizeReadonlyQuery d (dqp_Query p) (dqp_MaxRows p) = Inr (cap, q)"
    by (auto simp: executeReadonlyQuery_def normalizeReadonlyQuery_def cap split: sum.splits option.splits sql_stmt.splits)
  from e q(2) obtain rs where rs: "de_query d w2 db (wrapped q cap) [] = (w3, Inr rs)" "query_result dialect q cap rs = Inr r"
    by (auto simp: executeReadonlyQuery_def split: prod.splits sum.splits)
  from rs(2) obtain columns rows lim where read: "rs_Columns rs = Inr columns" "read_rows columns cap [] (rs_Rows rs) = Inr (rows, lim)"
    "dq_Rows r = rows" "dq_Limited r = lim" "dq_RowCount r = int (length rows)" "lim \<or> rs_Err rs = None"
    by (fastforce simp: query_result_def split: sum.splits option.splits prod.splits if_splits)
  have pos: "0 < cap" using clamp_bounds(1) cap by simp
  from read_rows_take [OF read(2)] pos
  have taken: "list_all2 (\<lambda>vs j. scanRow columns vs = Inr j) (take (nat cap) (rs_Rows rs)) rows" "lim \<longleftrightarrow> length (rs_Rows rs) > nat cap"
    by simp_all
  have "nat (cap + 1) = Suc (nat cap)" using pos by simp
  with assms(1) rs(1) pos have "prefix (rs_Rows rs) (take (Suc (nat cap)) (table w2 db q))"
    "rs_Err rs = None \<longrightarrow> rs_Rows rs = take (Suc (nat cap)) (table w2 db q)"
    unfolding honours_limit_def wrapped_def by (metis add_pos_pos less_imp_le zero_less_one)+
  then have "take (nat cap) (rs_Rows rs) = take (nat cap) (table w2 db q) \<and> (length (rs_Rows rs) > nat cap \<longleftrightarrow> length (table w2 db q) > nat cap)"
    using read(6) taken(2) by (intro limited_rows) auto
  with taken pos have "list_all2 (\<lambda>vs j. scanRow columns vs = Inr j) (take (nat cap) (table w2 db q)) rows"
    "lim \<longleftrightarrow> int (length (table w2 db q)) > cap" by auto
  with o q(1) w2_def rs(1) [unfolded wrapped_def] read x show ?thesis by (intro that) simp_all
qed

text \<open>
  C35. The rows of a query. Let \<open>table\<close> be the rows a query has in the database, with a driver that honours \<open>LIMIT\<close>, and
  \<open>cap\<close> the number of rows asked for, or 100 when none, a negative number or more than 100 were asked for. A
  successful \<open>db.query\<close> or \<open>db.query_readonly\<close> has opened the connection of its parameters, queried it once, and returns the
  first \<open>cap\<close> rows of the statement given, in their order, each with the values of all its columns by name.
  \<open>db.query_readonly\<close> also reports their number, and that the answer is limited exactly when the query has more rows.
\<close>

theorem db_query_rows:
  assumes "honours_limit d table" and "dec_db_query params = Inr p"
    and "cap = (if 0 < dqp_MaxRows p \<and> dqp_MaxRows p \<le> 100 then dqp_MaxRows p else 100)"
    and "E d root w params = (w', Inr x)" and "(E, name) \<in> {(DBQuery_Execute, ''db.query''), (DBQueryReadonly_Execute, ''db.query_readonly'')}"
  shows "\<exists>w1 db dialect q w2 w3 rs columns rows. openDBConnection d root w (dqp_Connection p) = (w1, Inr (db, dialect)) \<and>
    single_statement (dqp_Query p) = Inr q \<and>
    w2 = emitDBProgress d w1 name ''query_started'' [(''dialect'', JStr dialect), (''target'', JStr ''query''), (''max_rows'', JNum cap)] \<and>
    de_query d w2 db (''SELECT * FROM ('' @ q @ '') AS pb_readonly LIMIT '' @ itoa (cap + 1)) [] = (w3, Inr rs) \<and> rs_Columns rs = Inr columns \<and>
    list_all2 (\<lambda>vs j. scanRow columns vs = Inr j) (take (nat cap) (table w2 db q)) rows \<and>
    (if name = ''db.query'' then pr_Data x = JArr rows
     else \<exists>m. pr_Data x = JObj m \<and> jget m ''rows'' = Some (JArr rows) \<and> jget m ''row_count'' = Some (JNum (int (length rows))) \<and>
       jget m ''limited'' = Some (JBool (int (length (table w2 db q)) > cap)))"
  using assms(5)
proof (elim insertE emptyE)
  assume E: "(E, name) = (DBQuery_Execute, ''db.query'')"
  with assms(4) have q: "db_query_as ''db.query'' (\<lambda>q. JArr (dq_Rows q)) d root w params = (w', Inr x)" by (simp add: DBQuery_Execute_def)
  show ?thesis
  proof (rule db_query_as_rows [OF assms(1) q assms(2,3)], goal_cases)
    case (1 w1 db dialect q w2 w3 rs columns r)
    with E show ?thesis
      by (intro exI [of _ w1] exI [of _ db] exI [of _ dialect] exI [of _ q] exI [of _ w2] exI [of _ w3] exI [of _ rs] exI [of _ columns]
          exI [of _ "dq_Rows r"]) simp
  qed
next
  assume E: "(E, name) = (DBQueryReadonly_Execute, ''db.query_readonly'')"
  with assms(4) have q: "db_query_as ''db.query_readonly'' query_result_json d root w params = (w', Inr x)" by (simp add: DBQueryReadonly_Execute_def)
  show ?thesis
  proof (rule db_query_as_rows [OF assms(1) q assms(2,3)], goal_cases)
    case (1 w1 db dialect q w2 w3 rs columns r)
    with E show ?thesis
      by (intro exI [of _ w1] exI [of _ db] exI [of _ dialect] exI [of _ q] exI [of _ w2] exI [of _ w3] exI [of _ rs] exI [of _ columns]
          exI [of _ "dq_Rows r"]) (simp add: query_result_json_def jget_def)
  qed
qed

text \<open>
  SQLite files stay in the workspace. Opening a SQLite connection opens at most one file, at a path below the root of the
  workspace on which there is no symbolic link, whatever path was asked for.
\<close>

theorem db_sqlite_confined:
  assumes "wf_fs (hw_fs w)" and "path_ok root" and "to_lower (trim_space (dc_Dialect config)) = ''sqlite''"
    and "\<And>q. prefix root q \<Longrightarrow> nolink (hw_fs w) q \<Longrightarrow> f w ''sqlite'' (path_string q) = de_open d w ''sqlite'' (path_string q)"
  shows "openDBConnection (d\<lparr>de_open := f\<rparr>) root w config = openDBConnection d root w config"
  using assms(3,4) Resolve_confined [OF assms(1,2)]
  by (auto simp: openDBConnection_def open_ping_def Let_def split: sum.split)

definition demo_db :: "string list db_env" where
  "demo_db = \<lparr>de_host = \<lparr>ho_os = \<lparr>oe_cwd = [], oe_read_err = (\<lambda>_. None), oe_write_err = (\<lambda>_. None), oe_partial = (\<lambda>_. None)\<rparr>, ho_dir_size = (\<lambda>_. 0),
       ho_sink = None, ho_astdiff = (\<lambda>_ _. Inr []), ho_exec = (\<lambda>w _ _ _. (w, \<lparr>pc_err = None, pc_out = [], pc_errout = []\<rparr>))\<rparr>,
     de_parse = (\<lambda>q. if has_prefix q ''SELECT'' then Some StmtSelect else Some StmtOther), de_ident = id, de_getenv = (\<lambda>_. []),
     de_clock = (\<lambda>_. 0), de_open = (\<lambda>w _ dsn. (w\<lparr>hw_ext := hw_ext w @ [dsn]\<rparr>, None)),
     de_query = (\<lambda>w _ sql _. (w\<lparr>hw_ext := hw_ext w @ [sql]\<rparr>, Inr \<lparr>rs_Columns = Inr [\<lparr>ct_Name = ''id'', ct_Type = ''INTEGER'', ct_Nullable = None\<rparr>],
        rs_Rows = [[SqlInt 1], [SqlInt 2]], rs_Err = None\<rparr>)),
     de_exec = (\<lambda>w _ sql. (w\<lparr>hw_ext := hw_ext w @ [sql]\<rparr>, Inr (Some 1)))\<rparr>"

definition demo_db_world :: "string list host_world" where
  "demo_db_world = \<lparr>hw_fs = [([''w''], FDir), ([''w'', ''a.db''], FFile [])], hw_intent = None, hw_ext = []\<rparr>"

definition demo_db_params :: "string \<Rightarrow> raw" where
  "demo_db_params q = Raw (JObj [(''connection'', JObj [(''dialect'', JStr ''SQLite''), (''path'', JStr ''a.db'')]), (''query'', JStr q),
     (''max_rows'', JNum 1)])"

text \<open>A driver that answers only queries that begin as the wrapped ones do.\<close>

theorem db_query_gate_witness:
  "let Q = (\<lambda>w db sql args. if has_prefix sql ''SELECT * FROM ('' then de_query demo_db w db sql args else (w, Inl (GoErr ''no'')));
       X = (\<lambda>w db sql. (w, Inl (GoErr ''no'')))
   in DBQuery_Execute (other_driver demo_db Q X) [''w''] demo_db_world (demo_db_params ''SELECT id FROM t;'') =
      DBQuery_Execute demo_db [''w''] demo_db_world (demo_db_params ''SELECT id FROM t;'') \<and>
      hw_ext (fst (DBQuery_Execute demo_db [''w''] demo_db_world (demo_db_params ''SELECT id FROM t;''))) =
        [''/w/a.db'', ''SELECT * FROM (SELECT id FROM t) AS pb_readonly LIMIT 2'']"
proof -
  let ?Q = "\<lambda>w db sql args. if has_prefix sql ''SELECT * FROM ('' then de_query demo_db w db sql args else (w, Inl (GoErr ''no''))"
  have "has_prefix sql ''SELECT * FROM (''" if "readonly_text demo_db sql" for sql
    using that by (auto simp: readonly_text_def wrapped_def has_prefix_def)
  then have "DBQuery_Execute (other_driver demo_db ?Q (\<lambda>w db sql. (w, Inl (GoErr ''no'')))) [''w''] demo_db_world (demo_db_params ''SELECT id FROM t;'') =
      DBQuery_Execute demo_db [''w''] demo_db_world (demo_db_params ''SELECT id FROM t;'')"
    by (intro db_query_gate [THEN conjunct1]) simp
  moreover have "hw_ext (fst (DBQuery_Execute demo_db [''w''] demo_db_world (demo_db_params ''SELECT id FROM t;''))) =
        [''/w/a.db'', ''SELECT * FROM (SELECT id FROM t) AS pb_readonly LIMIT 2'']" by code_simp
  ultimately show ?thesis by (simp add: Let_def)
qed

text \<open>A driver whose one table has three rows; it reads the limit at the end of the text.\<close>

definition limit_of :: "string \<Rightarrow> nat" where
  "limit_of sql = the (digits_val (rev (takeWhile (\<lambda>c. c \<noteq> CHR '' '') (rev sql))) 0)"

definition limit_column :: column_type where
  "limit_column = \<lparr>ct_Name = ''id'', ct_Type = ''INTEGER'', ct_Nullable = None\<rparr>"

definition limit_rows :: "sql_value list list" where
  "limit_rows = [[SqlInt 1], [SqlInt 2], [SqlInt 3]]"

definition limit_db :: "string list db_env" where
  "limit_db = demo_db\<lparr>de_query := (\<lambda>w _ sql _. (w, Inr \<lparr>rs_Columns = Inr [limit_column], rs_Rows = take (limit_of sql) limit_rows, rs_Err = None\<rparr>))\<rparr>"

lemma limit_db_columns: "de_query limit_db w db sql args = (w', Inr rs) \<Longrightarrow> rs_Columns rs = Inr [limit_column]"
  by (auto simp: limit_db_def)

lemma nat_digits_no_space: "c \<in> set (nat_digits n) \<Longrightarrow> c \<noteq> CHR '' ''"
proof (induction n rule: nat_digits.induct)
  case (1 n)
  have d: "char_of (48 + k :: nat) \<noteq> CHR '' ''" if "k < 10" for k
  proof
    assume "char_of (48 + k :: nat) = CHR '' ''"
    then have "(of_char (char_of (48 + k :: nat) :: char) :: nat) = of_char (CHR '' '')" by simp
    with that show False by simp
  qed
  from 1 d [of n] d [of "n mod 10"] show ?case by (subst (asm) (2) nat_digits.simps) (auto split: if_splits)
qed

lemma limit_of_itoa: "0 \<le> n \<Longrightarrow> limit_of (s @ CHR '' '' # itoa n) = nat n"
proof -
  assume "0 \<le> n"
  then have i: "itoa n = nat_digits (nat n)" by (simp add: itoa_def)
  have "takeWhile (\<lambda>c. c \<noteq> CHR '' '') (rev (nat_digits (nat n)) @ CHR '' '' # rev s) = rev (nat_digits (nat n))"
    using nat_digits_no_space by (subst takeWhile_append2) auto
  then show ?thesis by (simp add: limit_of_def i digits_val_nat_digits)
qed

lemma limit_db_honours: "honours_limit limit_db (\<lambda>_ _ _. limit_rows)"
proof -
  have "limit_of (''SELECT * FROM ('' @ q @ '') AS pb_readonly LIMIT '' @ itoa n) = nat n" if "0 \<le> n" for q n
    using limit_of_itoa [OF that, of "''SELECT * FROM ('' @ q @ '') AS pb_readonly LIMIT''"] by simp
  then show ?thesis by (auto simp: honours_limit_def limit_db_def)
qed

theorem db_query_rows_witness:
  "\<exists>w' x m. DBQueryReadonly_Execute limit_db [''w''] demo_db_world (demo_db_params ''SELECT id FROM t;'') = (w', Inr x) \<and> pr_Data x = JObj m \<and>
     jget m ''rows'' = Some (JArr [JObj [(''id'', JNum 1)]]) \<and> jget m ''row_count'' = Some (JNum 1) \<and> jget m ''limited'' = Some (JBool True)"
proof -
  let ?p = "demo_db_params ''SELECT id FROM t;''"
  let ?r = "DBQueryReadonly_Execute limit_db [''w''] demo_db_world ?p"
  have "case snd ?r of Inr x \<Rightarrow> True | Inl _ \<Rightarrow> False" by code_simp
  then obtain w' x where r: "?r = (w', Inr x)" by (cases ?r) (auto split: sum.splits)
  let ?d = "\<lparr>dqp_Connection = \<lparr>dc_Dialect = ''SQLite'', dc_Path = ''a.db'', dc_DSN = [], dc_DSNEnv = []\<rparr>,
      dqp_Query = ''SELECT id FROM t;'', dqp_MaxRows = 1\<rparr>"
  have d: "dec_db_query ?p = Inr ?d" by code_simp
  have c: "1 = (if 0 < dqp_MaxRows ?d \<and> dqp_MaxRows ?d \<le> 100 then dqp_MaxRows ?d else 100)" by simp
  from db_query_rows [where E = DBQueryReadonly_Execute and name = "''db.query_readonly''", OF limit_db_honours d c r]
  obtain rows m where q: "list_all2 (\<lambda>vs j. scanRow [limit_column] vs = Inr j) (take 1 limit_rows) rows" "pr_Data x = JObj m"
      "jget m ''rows'' = Some (JArr rows)" "jget m ''row_count'' = Some (JNum (int (length rows)))"
      "jget m ''limited'' = Some (JBool (int (length limit_rows) > 1))"
    by (auto dest!: limit_db_columns)
  from q(1) have "rows = [JObj [(''id'', JNum 1)]]"
    by (auto simp: limit_rows_def limit_column_def scanRow_def sort_keys_def list_all2_Cons1)
  with q r show ?thesis by (auto simp: limit_rows_def)
qed

theorem db_sqlite_confined_witness:
  "openDBConnection (demo_db\<lparr>de_open := (\<lambda>w dr dsn. if has_prefix dsn ''/w'' then de_open demo_db w dr dsn else (w, Some (GoErr ''no'')))\<rparr>)
     [''w''] demo_db_world \<lparr>dc_Dialect = ''sqlite'', dc_Path = ''../etc/passwd'', dc_DSN = [], dc_DSNEnv = []\<rparr> =
   openDBConnection demo_db [''w''] demo_db_world \<lparr>dc_Dialect = ''sqlite'', dc_Path = ''../etc/passwd'', dc_DSN = [], dc_DSNEnv = []\<rparr>"
proof (rule db_sqlite_confined)
  show "wf_fs (hw_fs demo_db_world)" by (rule wf_fs_code) code_simp
  show "path_ok [''w'']" by code_simp
  show "to_lower (trim_space (dc_Dialect \<lparr>dc_Dialect = ''sqlite'', dc_Path = ''../etc/passwd'', dc_DSN = [], dc_DSNEnv = []\<rparr>)) = ''sqlite''"
    by code_simp
  fix q :: fpath
  assume "prefix [''w''] q"
  then have "has_prefix (path_string q) ''/w''"
    by (cases q) (auto simp: path_string_def has_prefix_def join_with_Cons)
  then show "(if has_prefix (path_string q) ''/w'' then de_open demo_db demo_db_world ''sqlite'' (path_string q)
      else (demo_db_world, Some (GoErr ''no''))) = de_open demo_db demo_db_world ''sqlite'' (path_string q)" by simp
qed

end
