(* ===== verification/PkgMgr.thy ===== *)
theory PkgMgr
  imports Workspace AppManifest Sql Eventing
begin

text \<open>
  The package manager, \<open>internal/pkgmgr\<close>: package manifests and the built-in registry of packages, Boxfiles, the
  store of installed packages and the installer. Parsing YAML and durations, processes, HTTP, the
  registry of app primitives and the clock are parameters. The processes the installer started and that
  still run are part of the state. A call's context may end while the installer waits; waiting for
  the registration takes a bounded number of ticks of a quarter of a second.
\<close>

section \<open>Manifests\<close>

record adapter_config =
  ac_Type :: string
  ac_BinaryPath :: string
  ac_Args :: "string list"
  ac_SocketPath :: string

record package_intent =
  pi_Category :: string
  pi_SideEffect :: string
  pi_RiskLevel :: string
  pi_Reversible :: bool

record primitive_spec =
  px_Name :: string
  px_Description :: string
  px_Intent :: package_intent

record healthcheck_spec =
  hc_Primitive :: string
  hc_Params :: json
  hc_Timeout :: int

record package_manifest =
  pk_Name :: string
  pk_Version :: string
  pk_Description :: string
  pk_Adapter :: adapter_config
  pk_Primitives :: "primitive_spec list"
  pk_Healthcheck :: "healthcheck_spec option"

definition spec_of :: "string \<Rightarrow> string \<Rightarrow> string \<Rightarrow> string \<Rightarrow> bool \<Rightarrow> primitive_spec" where
  "spec_of name cat se risk reversible = \<lparr>px_Name = name, px_Description = [],
     px_Intent = \<lparr>pi_Category = cat, pi_SideEffect = se, pi_RiskLevel = risk, pi_Reversible = reversible\<rparr>\<rparr>"

definition builtinPackages :: "(string \<times> package_manifest) list" where
  "builtinPackages =
     [(''os'', \<lparr>pk_Name = ''os'', pk_Version = ''0.1.0'', pk_Description = ''OS adapter: process.*, service.*, pkg.* primitives'',
        pk_Adapter = \<lparr>ac_Type = ''binary'', ac_BinaryPath = ''{pb_dir}/pb-os-adapter'', ac_Args = [],
          ac_SocketPath = ''{workspace}/.pb/sockets/os-adapter.sock''\<rparr>,
        pk_Primitives =
          [spec_of ''process.list'' ''query'' ''read'' ''low'' True, spec_of ''process.spawn'' ''mutation'' ''exec'' ''medium'' False,
           spec_of ''process.terminate'' ''mutation'' ''exec'' ''medium'' False, spec_of ''process.kill'' ''mutation'' ''exec'' ''high'' False,
           spec_of ''service.status'' ''query'' ''read'' ''low'' True, spec_of ''service.start'' ''mutation'' ''exec'' ''medium'' True,
           spec_of ''service.stop'' ''mutation'' ''exec'' ''medium'' True, spec_of ''pkg.list'' ''query'' ''read'' ''low'' True,
           spec_of ''pkg.install'' ''mutation'' ''exec'' ''high'' False, spec_of ''pkg.remove'' ''mutation'' ''exec'' ''high'' False,
           spec_of ''pkg.verify'' ''verification'' ''read'' ''low'' True],
        pk_Healthcheck = Some \<lparr>hc_Primitive = ''process.list'', hc_Params = JObj [], hc_Timeout = 5000\<rparr>\<rparr>),
      (''mcp-bridge'', \<lparr>pk_Name = ''mcp-bridge'', pk_Version = ''0.1.0'',
        pk_Description = ''MCP bridge: mirrors any MCP stdio server as PrimitiveBox primitives'',
        pk_Adapter = \<lparr>ac_Type = ''binary'', ac_BinaryPath = ''{pb_dir}/pb-mcp-bridge'', ac_Args = [],
          ac_SocketPath = ''{workspace}/.pb/sockets/mcp-bridge.sock''\<rparr>,
        pk_Primitives = [], pk_Healthcheck = None\<rparr>)]"

definition Lookup_package :: "string \<Rightarrow> go_error + package_manifest" where
  "Lookup_package name = (case map_of builtinPackages name of None \<Rightarrow> Inl (GoErr ''package not found'') | Some p \<Rightarrow> Inr p)"

definition reservedPrefixes :: "string list" where
  "reservedPrefixes = [''fs.'', ''state.'', ''shell.'', ''verify.'', ''macro.'', ''code.'', ''test.'']"

definition reserved_name :: "string \<Rightarrow> bool" where
  "reserved_name name = list_ex (has_prefix name) reservedPrefixes"

text \<open>The first reserved prefix of the first name that has one.\<close>

definition reserved_error :: "string list \<Rightarrow> go_error option" where
  "reserved_error names =
     (case find reserved_name names of
        None \<Rightarrow> None
      | Some n \<Rightarrow>
          Some (GoErr (''package declares primitives in reserved namespace: '' @ n @ '' starts with reserved prefix '' @
            (case find (has_prefix n) reservedPrefixes of None \<Rightarrow> [] | Some p \<Rightarrow> p))))"

section \<open>Boxfiles\<close>

record boxfile_adapter =
  ba_Type :: string
  ba_BinaryPath :: string
  ba_SocketPath :: string
  ba_Args :: "string list"
  ba_MCPCommand :: string

record boxfile_healthcheck =
  bh_Primitive :: string
  bh_Params :: json
  bh_Timeout :: string

record bootstrap_file =
  bs_Src :: string
  bs_Dst :: string

record boxfile =
  bx_Name :: string
  bx_Version :: string
  bx_Description :: string
  bx_Adapter :: boxfile_adapter
  bx_Primitives :: "primitive_spec list"
  bx_Healthcheck :: "boxfile_healthcheck option"
  bx_Bootstrap :: "bootstrap_file list option"

text \<open>The first of the three file names that exists; \<open>rd\<close> reads a file, \<open>Inl None\<close> is a missing one.\<close>

fun load_first :: "(string \<Rightarrow> go_error option + string) \<Rightarrow> (string \<Rightarrow> go_error + boxfile) \<Rightarrow> string list \<Rightarrow> go_error + boxfile \<times> string" where
  "load_first rd parse [] = Inl (GoErr ''Boxfile not found'')"
| "load_first rd parse (n # ns) =
     (case rd n of
        Inl None \<Rightarrow> load_first rd parse ns
      | Inl (Some e) \<Rightarrow> Inl (GoWrap (''read '' @ n) e)
      | Inr data \<Rightarrow> (case parse data of Inl e \<Rightarrow> Inl (GoErr (''invalid Boxfile: '' @ error_text e)) | Inr b \<Rightarrow> Inr (b, n)))"

definition LoadBoxfile :: "(string \<Rightarrow> go_error option + string) \<Rightarrow> (string \<Rightarrow> go_error + boxfile) \<Rightarrow> go_error + boxfile \<times> string" where
  "LoadBoxfile rd parse = load_first rd parse [''Boxfile'', ''boxfile.yaml'', ''boxfile.yml'']"

definition is_lower :: "char \<Rightarrow> bool" where
  "is_lower c = (let n = (of_char c :: nat) in 97 \<le> n \<and> n \<le> 122)"

definition is_digit :: "char \<Rightarrow> bool" where
  "is_digit c = (let n = (of_char c :: nat) in 48 \<le> n \<and> n \<le> 57)"

definition boxfile_name_ok :: "string \<Rightarrow> bool" where
  "boxfile_name_ok s =
     (case s of [] \<Rightarrow> False
      | c # t \<Rightarrow> is_lower c \<and> length t \<le> 62 \<and> list_all (\<lambda>d. is_lower d \<or> is_digit d \<or> d = CHR ''-'') t)"

definition boxfile_invalid :: "string \<Rightarrow> go_error" where
  "boxfile_invalid msg = GoErr (''invalid Boxfile: '' @ msg)"

definition adapter_error :: "boxfile_adapter \<Rightarrow> go_error option" where
  "adapter_error a =
     (if ba_Type a = ''binary'' then
        (if ba_BinaryPath a = [] then Some (boxfile_invalid ''adapter.binary_path is required for type binary'') else None)
      else if ba_Type a = ''mcp'' then
        (if ba_BinaryPath a = [] \<and> ba_MCPCommand a = []
         then Some (boxfile_invalid ''adapter.binary_path or adapter.mcp_command is required for type mcp'') else None)
      else if ba_Type a = [] then Some (boxfile_invalid ''adapter.type is required'')
      else Some (boxfile_invalid (''adapter.type must be binary or mcp, got '' @ ba_Type a)))"

fun primitives_error :: "primitive_spec list \<Rightarrow> go_error option" where
  "primitives_error [] = None"
| "primitives_error (p # ps) =
     (if px_Name p = [] then Some (boxfile_invalid ''primitive name must not be empty'')
      else case reserved_error [px_Name p] of Some e \<Rightarrow> Some e | None \<Rightarrow> primitives_error ps)"

fun bootstrap_error :: "nat \<Rightarrow> bootstrap_file list \<Rightarrow> go_error option" where
  "bootstrap_error i [] = None"
| "bootstrap_error i (f # fs) =
     (let at = ''bootstrap.files['' @ itoa (int i) @ '']''
      in if bs_Src f = [] then Some (boxfile_invalid (at @ ''.src is required''))
         else if bs_Dst f = [] then Some (boxfile_invalid (at @ ''.dst is required''))
         else if contains_str (bs_Dst f) ''..'' then Some (boxfile_invalid (at @ ''.dst '' @ bs_Dst f @ '' contains path traversal''))
         else if is_abs (bs_Dst f) then Some (boxfile_invalid (at @ ''.dst '' @ bs_Dst f @ '' must be relative''))
         else bootstrap_error (Suc i) fs)"

definition ValidateBoxfile :: "boxfile \<Rightarrow> go_error option" where
  "ValidateBoxfile b =
     (if bx_Name b = [] then Some (boxfile_invalid ''name is required'')
      else if \<not> boxfile_name_ok (bx_Name b) then Some (boxfile_invalid (''name '' @ bx_Name b @ '' must match ^[a-z][a-z0-9-]{0,62}$''))
      else if bx_Version b = [] then Some (boxfile_invalid ''version is required'')
      else case adapter_error (bx_Adapter b) of
        Some e \<Rightarrow> Some e
      | None \<Rightarrow>
          (if ba_SocketPath (bx_Adapter b) = [] then Some (boxfile_invalid ''adapter.socket_path is required'')
           else case primitives_error (bx_Primitives b) of
             Some e \<Rightarrow> Some e
           | None \<Rightarrow> (case bx_Bootstrap b of None \<Rightarrow> None | Some fs \<Rightarrow> bootstrap_error 0 fs)))"

text \<open>\<open>baseDir\<close> as an absolute path; \<open>dur\<close> parses a duration, in milliseconds.\<close>

definition manifest_healthcheck :: "(string \<Rightarrow> int option) \<Rightarrow> boxfile_healthcheck option \<Rightarrow> healthcheck_spec option" where
  "manifest_healthcheck dur h =
     (case h of
        None \<Rightarrow> None
      | Some x \<Rightarrow>
          (if bh_Primitive x = [] then None
           else Some \<lparr>hc_Primitive = bh_Primitive x, hc_Params = bh_Params x,
                      hc_Timeout = (if bh_Timeout x = [] then 5000 else case dur (bh_Timeout x) of Some d \<Rightarrow> d | None \<Rightarrow> 5000)\<rparr>))"

definition BoxfileToManifest :: "(string \<Rightarrow> int option) \<Rightarrow> fpath \<Rightarrow> boxfile \<Rightarrow> package_manifest" where
  "BoxfileToManifest dur baseDir b =
     (let a = bx_Adapter b;
          mcp = (ba_Type a = ''mcp'');
          bin0 = (if mcp \<and> ba_BinaryPath a = [] then ''{pb_dir}/pb-mcp-bridge'' else ba_BinaryPath a);
          plain = (\<lambda>p. p \<noteq> [] \<and> CHR ''{'' \<notin> set p \<and> \<not> is_abs p);
          bin = (if plain bin0 then path_string (path_join baseDir bin0) else bin0);
          sock = (if plain (ba_SocketPath a) then ''{workspace}/'' @ ba_SocketPath a else ba_SocketPath a);
          args = (if mcp \<and> ba_MCPCommand a \<noteq> [] then [''--cmd'', ba_MCPCommand a] @ ba_Args a else ba_Args a)
      in \<lparr>pk_Name = bx_Name b, pk_Version = bx_Version b, pk_Description = bx_Description b,
          pk_Adapter = \<lparr>ac_Type = ba_Type a, ac_BinaryPath = bin, ac_Args = args, ac_SocketPath = sock\<rparr>,
          pk_Primitives = bx_Primitives b, pk_Healthcheck = manifest_healthcheck dur (bx_Healthcheck b)\<rparr>)"

section \<open>The store\<close>

record installed_package =
  ip_Name :: string
  ip_Version :: string
  ip_InstalledAt :: int
  ip_SocketPath :: string
  ip_BinaryPath :: string
  ip_Args :: "string list"
  ip_Status :: string

type_synonym package_db = "installed_package list sql_db"

text \<open>One statement in a transaction of its own: \<open>BEGIN\<close>, the statement, \<open>COMMIT\<close>.\<close>

definition sql_tx :: "sql_env \<Rightarrow> string \<Rightarrow> string \<Rightarrow> 't sql_db \<Rightarrow> ('t \<Rightarrow> go_error + 't) \<Rightarrow> 't sql_db \<times> go_error option" where
  "sql_tx env begin_msg what d f =
     (let d0 = d\<lparr>db_stmts := Suc (db_stmts d)\<rparr>
      in case sq_fault env (db_stmts d) of
           Some e \<Rightarrow> (d0, Some (GoWrap begin_msg e))
         | None \<Rightarrow>
             (let (d1, err) = sql_exec env d0 f; d2 = d1\<lparr>db_stmts := Suc (db_stmts d1)\<rparr>
              in case err of
                   Some e \<Rightarrow> (d1, Some (GoWrap what e))
                 | None \<Rightarrow>
                     (case sq_fault env (db_stmts d1) of
                        Some e \<Rightarrow> (d2\<lparr>db_tables := db_tables d\<rparr>, Some e)
                      | None \<Rightarrow> (d2, None))))"

definition upsert_package :: "installed_package \<Rightarrow> installed_package list \<Rightarrow> installed_package list" where
  "upsert_package p rows =
     (if ip_Name p \<in> ip_Name ` set rows then update_rows ip_Name (ip_Name p) (\<lambda>_. p) rows else rows @ [p])"

definition store_Save :: "sql_env \<Rightarrow> package_db \<Rightarrow> installed_package \<Rightarrow> package_db \<times> go_error option" where
  "store_Save env d p = sql_tx env ''begin save tx'' ''upsert installed package'' d (\<lambda>rows. Inr (upsert_package p rows))"

definition store_Remove :: "sql_env \<Rightarrow> package_db \<Rightarrow> string \<Rightarrow> package_db \<times> go_error option" where
  "store_Remove env d name =
     sql_tx env ''begin remove tx'' ''delete installed package'' d (\<lambda>rows. Inr (filter (\<lambda>p. ip_Name p \<noteq> name) rows))"

definition store_Get :: "sql_env \<Rightarrow> package_db \<Rightarrow> string \<Rightarrow> package_db \<times> (go_error + installed_package option)" where
  "store_Get env d name = sql_query env d (select_row ip_Name name)"

definition store_List :: "sql_env \<Rightarrow> package_db \<Rightarrow> package_db \<times> (go_error + installed_package list)" where
  "store_List env d =
     (let (d', r) = sql_query env d (sort_key ip_Name)
      in (d', case r of Inl e \<Rightarrow> Inl (GoWrap ''list installed packages'' e) | Inr x \<Rightarrow> Inr x))"

definition store_SetStatus :: "sql_env \<Rightarrow> package_db \<Rightarrow> string \<Rightarrow> string \<Rightarrow> package_db \<times> go_error option" where
  "store_SetStatus env d name status =
     sql_tx env ''begin status tx'' ''set package status'' d (\<lambda>rows. Inr (update_rows ip_Name name (\<lambda>p. p\<lparr>ip_Status := status\<rparr>) rows))"

section \<open>The installer\<close>

text \<open>
  The world outside: \<open>pe_start\<close> starts a process and gives its number, \<open>pe_wait\<close> is what happens during a tick of
  waiting, \<open>pe_app_list\<close> and \<open>pe_mark\<close> are the operations of the registry of app primitives, if there is one.
\<close>

record 'w pkg_env =
  pe_sql :: sql_env
  pe_stat :: "'w \<Rightarrow> string \<Rightarrow> go_error option"
  pe_mkdir :: "'w \<Rightarrow> string \<Rightarrow> 'w \<times> go_error option"
  pe_start :: "'w \<Rightarrow> string \<Rightarrow> string list \<Rightarrow> 'w \<times> (go_error + int)"
  pe_has_registry :: bool
  pe_app_list :: "'w \<Rightarrow> go_error + app_manifest list"
  pe_mark :: "'w \<Rightarrow> string \<Rightarrow> 'w \<times> go_error option"
  pe_wait :: "'w \<Rightarrow> 'w"
  pe_ticks :: nat
  pe_gone :: "'w \<Rightarrow> go_error option"
  pe_post :: "'w \<Rightarrow> string \<Rightarrow> json \<Rightarrow> int \<Rightarrow> 'w \<times> (go_error + raw)"
  pe_now :: "'w \<Rightarrow> int"
  pe_publish :: "('w \<Rightarrow> event \<Rightarrow> 'w) option"

record installer =
  in_gatewayURL :: string
  in_workspace :: string
  in_pbDir :: string

record 'w pkg_state =
  px_sys :: 'w
  px_db :: package_db
  px_processes :: "string \<rightharpoonup> int"
  px_live :: "int set"

definition resolveTemplate :: "installer \<Rightarrow> string \<Rightarrow> string" where
  "resolveTemplate i s = replace_all (replace_all s ''{pb_dir}'' (in_pbDir i)) ''{workspace}'' (in_workspace i)"

definition safe_path_char :: "char \<Rightarrow> bool" where
  "safe_path_char c =
     (is_lower c \<or> is_lower (lower_char c) \<or> is_digit c \<or> c \<in> {CHR ''/'', CHR ''_'', CHR ''-'', CHR ''.''})"

definition binary_path_error :: "string \<Rightarrow> string \<Rightarrow> go_error option" where
  "binary_path_error what path =
     (if \<not> is_abs path then Some (GoErr (what @ '' binary path '' @ path @ '' is not absolute''))
      else if \<not> (path \<noteq> [] \<and> list_all safe_path_char path) then Some (GoErr (what @ '' binary path '' @ path @ '' contains unsafe characters''))
      else None)"

definition publish_package :: "'w pkg_env \<Rightarrow> 'w pkg_state \<Rightarrow> string \<Rightarrow> string \<Rightarrow> jmap \<Rightarrow> 'w pkg_state" where
  "publish_package e st typ' name data =
     (case pe_publish e of
        None \<Rightarrow> st
      | Some f \<Rightarrow> st\<lparr>px_sys := f (px_sys st) (zero_event\<lparr>ev_Type := typ', ev_Source := ''pkgmgr'', ev_Message := name,
                     ev_Data := json_marshal (JObj data)\<rparr>)\<rparr>)"

subsection \<open>Waiting and checking\<close>

definition declared_registered :: "package_manifest \<Rightarrow> app_manifest list \<Rightarrow> bool" where
  "declared_registered pkg ms \<longleftrightarrow> pk_Primitives pkg = [] \<or> (\<exists>s \<in> set (pk_Primitives pkg). px_Name s \<in> mf_Name ` set ms)"

text \<open>The polling loop, until the time is over.\<close>

fun await_registration :: "'w pkg_env \<Rightarrow> package_manifest \<Rightarrow> nat \<Rightarrow> 'w \<Rightarrow> 'w \<times> bool" where
  "await_registration e pkg 0 w = (w, False)"
| "await_registration e pkg (Suc n) w =
     (let w1 = pe_wait e w
      in case pe_app_list e w1 of
           Inl _ \<Rightarrow> await_registration e pkg n w1
         | Inr ms \<Rightarrow> (if declared_registered pkg ms then (w1, True) else await_registration e pkg n w1))"

definition dec_rpc_error :: "raw \<Rightarrow> (int \<times> string) option decoded" where
  "dec_rpc_error r =
     dec_bind (dec_map r) (\<lambda>m.
       case jget m ''error'' of
         None \<Rightarrow> Inr None
       | Some JNull \<Rightarrow> Inr None
       | Some j \<Rightarrow>
           dec_bind (dec_map (Raw j)) (\<lambda>x.
           dec_bind (field_int x ''code'') (\<lambda>c.
           dec_bind (field_string x ''message'') (\<lambda>msg. Inr (Some (c, msg))))))"

definition runHealthcheck :: "'w pkg_env \<Rightarrow> installer \<Rightarrow> healthcheck_spec \<Rightarrow> 'w \<Rightarrow> 'w \<times> go_error option" where
  "runHealthcheck e i hc w =
     (let body = JObj [(''id'', JNum 1), (''jsonrpc'', JStr ''2.0''), (''method'', JStr (hc_Primitive hc)), (''params'', hc_Params hc)];
          (w1, r) = pe_post e w (in_gatewayURL i @ ''/rpc'') body (hc_Timeout hc)
      in (w1, case r of
                Inl er \<Rightarrow> Some (GoWrap ''healthcheck request'' er)
              | Inr resp \<Rightarrow>
                  (case dec_rpc_error resp of
                     Inl er \<Rightarrow> Some (GoWrap ''decode healthcheck response'' er)
                   | Inr None \<Rightarrow> None
                   | Inr (Some (c, msg)) \<Rightarrow> Some (GoErr (''healthcheck RPC error '' @ itoa c @ '': '' @ msg)))))"

definition wait_registered :: "'w pkg_env \<Rightarrow> package_manifest \<Rightarrow> 'w \<Rightarrow> 'w \<times> go_error option" where
  "wait_registered e pkg w =
     (if pe_has_registry e then
        (let (w1, ok) = await_registration e pkg (pe_ticks e) w
         in (w1, if ok then None else Some (GoErr ''adapter registration timed out'')))
      else (let w1 = pe_wait e w in (w1, pe_gone e w1)))"

definition check_health :: "'w pkg_env \<Rightarrow> installer \<Rightarrow> package_manifest \<Rightarrow> 'w \<Rightarrow> 'w \<times> go_error option" where
  "check_health e i pkg w =
     (case pk_Healthcheck pkg of
        None \<Rightarrow> (w, None)
      | Some hc \<Rightarrow>
          (let (w1, err) = runHealthcheck e i hc w
           in (w1, map_option (\<lambda>er. GoErr (''adapter healthcheck failed: '' @ error_text er)) err)))"

subsection \<open>Install\<close>

definition rollback :: "'w pkg_env \<Rightarrow> 'w pkg_state \<Rightarrow> string \<Rightarrow> int \<Rightarrow> 'w pkg_state" where
  "rollback e st name pid =
     st\<lparr>px_live := px_live st - {pid}, px_processes := (px_processes st)(name := None),
        px_db := fst (store_Remove (pe_sql e) (px_db st) name)\<rparr>"

text \<open>The part after the launch: wait, check, persist.\<close>

definition activate ::
  "'w pkg_env \<Rightarrow> installer \<Rightarrow> 'w pkg_state \<Rightarrow> package_manifest \<Rightarrow> installed_package \<Rightarrow> int \<Rightarrow> 'w pkg_state \<times> go_error option" where
  "activate e i st pkg rec pid =
     (let (w1, werr) = wait_registered e pkg (px_sys st); st1 = st\<lparr>px_sys := w1\<rparr>
      in case werr of
           Some er \<Rightarrow> (rollback e st1 (pk_Name pkg) pid, Some er)
         | None \<Rightarrow>
             (let (w2, herr) = check_health e i pkg w1; st2 = st\<lparr>px_sys := w2\<rparr>
              in case herr of
                   Some er \<Rightarrow> (rollback e st2 (pk_Name pkg) pid, Some er)
                 | None \<Rightarrow>
                     (let (d, serr) = store_Save (pe_sql e) (px_db st2) (rec\<lparr>ip_InstalledAt := pe_now e w2\<rparr>); st3 = st2\<lparr>px_db := d\<rparr>
                      in case serr of
                           Some er \<Rightarrow> (rollback e st3 (pk_Name pkg) pid, Some (GoWrap ''persist install'' er))
                         | None \<Rightarrow>
                             (publish_package e st3 ''package.installed'' (pk_Name pkg)
                                [(''name'', JStr (pk_Name pkg)), (''version'', JStr (pk_Version pkg))], None))))"

definition launch ::
  "'w pkg_env \<Rightarrow> 'w pkg_state \<Rightarrow> string \<Rightarrow> string \<Rightarrow> string \<Rightarrow> string list \<Rightarrow> 'w pkg_state \<times> (go_error + int)" where
  "launch e st name bin sock args =
     (let (w1, merr) = pe_mkdir e (px_sys st) sock
      in case merr of
           Some er \<Rightarrow> (st\<lparr>px_sys := w1\<rparr>, Inl (GoWrap ''create socket dir'' er))
         | None \<Rightarrow>
             (let (w2, r) = pe_start e w1 bin args; st2 = st\<lparr>px_sys := w2\<rparr>
              in case r of
                   Inl er \<Rightarrow> (st2, Inl (GoWrap (''start adapter '' @ name) er))
                 | Inr pid \<Rightarrow> (st2\<lparr>px_processes := (px_processes st2)(name \<mapsto> pid), px_live := insert pid (px_live st2)\<rparr>, Inr pid)))"

definition launch_args :: "installer \<Rightarrow> package_manifest \<Rightarrow> string list \<Rightarrow> string list" where
  "launch_args i pkg extra =
     [''--socket'', resolveTemplate i (ac_SocketPath (pk_Adapter pkg))] @
     (if in_gatewayURL i = [] then [] else [''--rpc-endpoint'', in_gatewayURL i]) @
     map (resolveTemplate i) (ac_Args (pk_Adapter pkg)) @ extra"

definition preflight :: "'w pkg_env \<Rightarrow> installer \<Rightarrow> 'w pkg_state \<Rightarrow> package_manifest \<Rightarrow> go_error option" where
  "preflight e i st pkg =
     (let bin = resolveTemplate i (ac_BinaryPath (pk_Adapter pkg))
      in case binary_path_error ''resolved'' bin of
           Some er \<Rightarrow> Some er
         | None \<Rightarrow>
             (case reserved_error (map px_Name (pk_Primitives pkg)) of
                Some er \<Rightarrow> Some er
              | None \<Rightarrow> map_option (GoWrap (''binary not found at '' @ bin)) (pe_stat e (px_sys st) bin)))"

definition InstallFromManifest ::
  "'w pkg_env \<Rightarrow> installer \<Rightarrow> 'w pkg_state \<Rightarrow> package_manifest \<Rightarrow> string list \<Rightarrow> 'w pkg_state \<times> go_error option" where
  "InstallFromManifest e i st pkg extra =
     (case preflight e i st pkg of
        Some er \<Rightarrow> (st, Some er)
      | None \<Rightarrow>
          (let (d1, ex) = store_Get (pe_sql e) (px_db st) (pk_Name pkg); st1 = st\<lparr>px_db := d1\<rparr>
           in case ex of
                Inl er \<Rightarrow> (st1, Some (GoWrap ''check existing install'' er))
              | Inr existing \<Rightarrow>
                  (if (case existing of None \<Rightarrow> False | Some p \<Rightarrow> ip_Version p = pk_Version pkg) then (st1, None)
                   else
                     (let bin = resolveTemplate i (ac_BinaryPath (pk_Adapter pkg));
                          sock = resolveTemplate i (ac_SocketPath (pk_Adapter pkg));
                          args = launch_args i pkg extra;
                          (st2, r) = launch e st1 (pk_Name pkg) bin sock args
                      in case r of
                           Inl er \<Rightarrow> (st2, Some er)
                         | Inr pid \<Rightarrow>
                             activate e i st2 pkg \<lparr>ip_Name = pk_Name pkg, ip_Version = pk_Version pkg, ip_InstalledAt = 0,
                               ip_SocketPath = sock, ip_BinaryPath = bin, ip_Args = args, ip_Status = ''active''\<rparr> pid))))"

definition Install :: "'w pkg_env \<Rightarrow> installer \<Rightarrow> 'w pkg_state \<Rightarrow> string \<Rightarrow> string list \<Rightarrow> 'w pkg_state \<times> go_error option" where
  "Install e i st name extra =
     (case Lookup_package name of
        Inl er \<Rightarrow> (st, Some (GoWrap (''resolve package '' @ name) er))
      | Inr pkg \<Rightarrow> InstallFromManifest e i st pkg extra)"

subsection \<open>Remove and relaunch\<close>

text \<open>The wait for the socket to go away, whose end makes no difference, is one tick.\<close>

definition stop_process :: "'w pkg_env \<Rightarrow> 'w pkg_state \<Rightarrow> string \<Rightarrow> 'w pkg_state" where
  "stop_process e st name =
     (case px_processes st name of
        None \<Rightarrow> st
      | Some pid \<Rightarrow> st\<lparr>px_sys := pe_wait e (px_sys st), px_live := px_live st - {pid}, px_processes := (px_processes st)(name := None)\<rparr>)"

definition Remove_package :: "'w pkg_env \<Rightarrow> 'w pkg_state \<Rightarrow> string \<Rightarrow> 'w pkg_state \<times> go_error option" where
  "Remove_package e st name =
     (let (d1, ex) = store_Get (pe_sql e) (px_db st) name; st1 = st\<lparr>px_db := d1\<rparr>
      in case ex of
           Inl er \<Rightarrow> (st1, Some (GoWrap ''lookup installed package'' er))
         | Inr None \<Rightarrow> (st1, Some (GoErr (''package not installed: '' @ name)))
         | Inr (Some _) \<Rightarrow>
             (let st2 = (if pe_has_registry e then st1\<lparr>px_sys := fst (pe_mark e (px_sys st1) name)\<rparr> else st1);
                  st3 = stop_process e st2 name;
                  (d2, err) = store_Remove (pe_sql e) (px_db st3) name; st4 = st3\<lparr>px_db := d2\<rparr>
              in case err of
                   Some er \<Rightarrow> (st4, Some (GoWrap ''remove package record'' er))
                 | None \<Rightarrow> (publish_package e st4 ''package.removed'' name [(''name'', JStr name)], None)))"

definition launchFromRecord :: "'w pkg_env \<Rightarrow> 'w pkg_state \<Rightarrow> installed_package \<Rightarrow> 'w pkg_state \<times> go_error option" where
  "launchFromRecord e st p =
     (case binary_path_error ''stored'' (ip_BinaryPath p) of
        Some er \<Rightarrow> (st, Some er)
      | None \<Rightarrow>
          (case pe_stat e (px_sys st) (ip_BinaryPath p) of
             Some er \<Rightarrow> (st, Some (GoWrap (''binary not found at '' @ ip_BinaryPath p) er))
           | None \<Rightarrow>
               (let args = (if ip_Args p = [] then [''--socket'', ip_SocketPath p] else ip_Args p);
                    (st1, r) = launch e st (ip_Name p) (ip_BinaryPath p) (ip_SocketPath p) args
                in case r of
                     Inl er \<Rightarrow> (st1, Some er)
                   | Inr _ \<Rightarrow> (st1\<lparr>px_db := fst (store_SetStatus (pe_sql e) (px_db st1) (ip_Name p) ''active'')\<rparr>, None))))"

definition LaunchInstalled :: "'w pkg_env \<Rightarrow> 'w pkg_state \<Rightarrow> 'w pkg_state \<times> go_error option" where
  "LaunchInstalled e st =
     (let (d, r) = store_List (pe_sql e) (px_db st); st1 = st\<lparr>px_db := d\<rparr>
      in case r of
           Inl er \<Rightarrow> (st1, Some (GoWrap ''list installed packages'' er))
         | Inr ps \<Rightarrow>
             (fold (\<lambda>p s. fst (launchFromRecord e s p)) (filter (\<lambda>p. ip_Status p = ''installed'' \<or> ip_Status p = ''active'') ps) st1, None))"

section \<open>The store\<close>

lemma sql_tx_cases:
  assumes "sql_tx env b what d f = (d', err)"
  obtains (failed) e where "err = Some e" "db_tables d' = db_tables d"
  | (ok) t where "err = None" "f (db_tables d) = Inr t" "db_tables d' = t"
proof (cases err)
  case (Some e)
  with assms show ?thesis
    by (intro failed) (auto simp: sql_tx_def sql_exec_def Let_def split: option.splits sum.splits)
next
  case None
  with assms show ?thesis
    by (intro ok) (auto simp: sql_tx_def sql_exec_def Let_def split: option.splits sum.splits)
qed

lemma select_upsert: "select_row ip_Name n (upsert_package p rows) = (if n = ip_Name p then Some p else select_row ip_Name n rows)"
proof (cases "ip_Name p \<in> ip_Name ` set rows")
  case True
  then have "select_row ip_Name (ip_Name p) rows \<noteq> None" by (auto simp: select_row_def find_None_iff)
  moreover have "select_row ip_Name n (update_rows ip_Name (ip_Name p) (\<lambda>_. p) rows) =
      (if n = ip_Name p then map_option (\<lambda>_. p) (select_row ip_Name n rows) else select_row ip_Name n rows)"
    by (induction rows) (auto simp: select_row_def update_rows_def)
  ultimately show ?thesis using True by (auto simp: upsert_package_def)
next
  case False
  then have "select_row ip_Name n (rows @ [p]) = (if n = ip_Name p then Some p else select_row ip_Name n rows)"
    by (induction rows) (auto simp: select_row_def)
  with False show ?thesis by (simp add: upsert_package_def)
qed

lemma select_filter: "select_row ip_Name n (filter (\<lambda>p. ip_Name p \<noteq> name) rows) = (if n = name then None else select_row ip_Name n rows)"
  by (induction rows) (auto simp: select_row_def)

abbreviation package_row :: "'w pkg_state \<Rightarrow> string \<Rightarrow> installed_package option" where
  "package_row st n \<equiv> select_row ip_Name n (db_tables (px_db st))"

lemma store_Get_tables [simp]: "db_tables (fst (store_Get env d n)) = db_tables d"
  by (simp add: store_Get_def)

lemma publish_package_frame [simp]:
  "px_db (publish_package e st t n m) = px_db st" "px_processes (publish_package e st t n m) = px_processes st"
  "px_live (publish_package e st t n m) = px_live st"
  by (simp_all add: publish_package_def split: option.split)

section \<open>Installation\<close>

lemma rollback_frame:
  "px_live (rollback e st name pid) = px_live st - {pid}" "px_processes (rollback e st name pid) = (px_processes st)(name := None)"
  "n \<noteq> name \<Longrightarrow> package_row (rollback e st name pid) n = package_row st n"
proof -
  obtain d' err where r: "store_Remove (pe_sql e) (px_db st) name = (d', err)" by fastforce
  show "n \<noteq> name \<Longrightarrow> package_row (rollback e st name pid) n = package_row st n"
    using r [unfolded store_Remove_def] by (rule sql_tx_cases) (auto simp: rollback_def r select_filter)
qed (simp_all add: rollback_def)

lemma activate_ok:
  assumes "activate e i st pkg rec pid = (st', None)"
  shows "px_processes st' = px_processes st \<and> px_live st' = px_live st \<and>
    (\<exists>t. \<forall>n. package_row st' n = (if n = ip_Name rec then Some (rec\<lparr>ip_InstalledAt := t\<rparr>) else package_row st n))"
proof -
  obtain w1 e1 where w: "wait_registered e pkg (px_sys st) = (w1, e1)" by fastforce
  obtain w2 e2 where h: "check_health e i pkg w1 = (w2, e2)" by fastforce
  obtain d e3 where s: "store_Save (pe_sql e) (px_db st) (rec\<lparr>ip_InstalledAt := pe_now e w2\<rparr>) = (d, e3)" by fastforce
  from assms w h s have ok: "e1 = None" "e2 = None" "e3 = None"
    "st' = publish_package e (st\<lparr>px_sys := w2, px_db := d\<rparr>) ''package.installed'' (pk_Name pkg)
       [(''name'', JStr (pk_Name pkg)), (''version'', JStr (pk_Version pkg))]"
    by (auto simp: activate_def Let_def split: option.splits)
  from s [unfolded store_Save_def] have "db_tables d = upsert_package (rec\<lparr>ip_InstalledAt := pe_now e w2\<rparr>) (db_tables (px_db st))"
    by (rule sql_tx_cases) (auto simp: ok(3))
  then show ?thesis by (auto simp: ok(4) select_upsert)
qed

lemma activate_failed:
  assumes "activate e i st pkg rec pid = (st', Some er)" and "ip_Name rec = pk_Name pkg"
  shows "px_live st' = px_live st - {pid} \<and> px_processes st' = (px_processes st)(pk_Name pkg := None) \<and>
    (\<forall>n. n \<noteq> pk_Name pkg \<longrightarrow> package_row st' n = package_row st n)"
proof -
  obtain w1 e1 where w: "wait_registered e pkg (px_sys st) = (w1, e1)" by fastforce
  obtain w2 e2 where h: "check_health e i pkg w1 = (w2, e2)" by fastforce
  obtain d e3 where s: "store_Save (pe_sql e) (px_db st) (rec\<lparr>ip_InstalledAt := pe_now e w2\<rparr>) = (d, e3)" by fastforce
  have "db_tables d = db_tables (px_db st) \<or> db_tables d = upsert_package (rec\<lparr>ip_InstalledAt := pe_now e w2\<rparr>) (db_tables (px_db st))"
    using s [unfolded store_Save_def] by (rule sql_tx_cases) auto
  with assms w h s show ?thesis
    by (auto simp: activate_def Let_def rollback_frame select_upsert split: option.splits)
qed

lemma launch_cases:
  assumes "launch e st name bin sock args = (st', r)"
  shows "db_tables (px_db st') = db_tables (px_db st)"
    and "r = Inl er \<Longrightarrow> px_live st' = px_live st \<and> px_processes st' = px_processes st"
    and "r = Inr pid \<Longrightarrow> px_live st' = insert pid (px_live st) \<and> px_processes st' = (px_processes st)(name \<mapsto> pid) \<and>
      (\<exists>w w'. pe_start e w bin args = (w', Inr pid))"
  using assms by (auto simp: launch_def Let_def split: prod.splits option.splits sum.splits)

text \<open>How an installation ends.\<close>

lemma install_cases:
  assumes "InstallFromManifest e i st pkg extra = (st', err)"
  obtains (refused) er where "err = Some er" "px_live st' = px_live st" "px_processes st' = px_processes st"
      "db_tables (px_db st') = db_tables (px_db st)"
  | (present) p where "err = None" "package_row st (pk_Name pkg) = Some p" "ip_Version p = pk_Version pkg" "px_live st' = px_live st"
      "px_processes st' = px_processes st" "db_tables (px_db st') = db_tables (px_db st)"
  | (launched) st2 pid w w' rec where "preflight e i st pkg = None" "activate e i st2 pkg rec pid = (st', err)"
      "rec = \<lparr>ip_Name = pk_Name pkg, ip_Version = pk_Version pkg, ip_InstalledAt = 0,
         ip_SocketPath = resolveTemplate i (ac_SocketPath (pk_Adapter pkg)), ip_BinaryPath = resolveTemplate i (ac_BinaryPath (pk_Adapter pkg)),
         ip_Args = launch_args i pkg extra, ip_Status = ''active''\<rparr>"
      "pe_start e w (resolveTemplate i (ac_BinaryPath (pk_Adapter pkg))) (launch_args i pkg extra) = (w', Inr pid)"
      "px_live st2 = insert pid (px_live st)" "px_processes st2 = (px_processes st)(pk_Name pkg \<mapsto> pid)"
      "db_tables (px_db st2) = db_tables (px_db st)"
proof (cases "preflight e i st pkg")
  case (Some er)
  with assms show ?thesis by (intro refused [of er]) (auto simp: InstallFromManifest_def)
next
  case None
  let ?bin = "resolveTemplate i (ac_BinaryPath (pk_Adapter pkg))" and ?sock = "resolveTemplate i (ac_SocketPath (pk_Adapter pkg))"
  obtain d1 ex where g: "store_Get (pe_sql e) (px_db st) (pk_Name pkg) = (d1, ex)" by fastforce
  then have t: "db_tables d1 = db_tables (px_db st)" by (metis store_Get_tables fst_conv)
  obtain st2 r where l: "launch e (st\<lparr>px_db := d1\<rparr>) (pk_Name pkg) ?bin ?sock (launch_args i pkg extra) = (st2, r)" by fastforce
  note L = launch_cases [OF l]
  show ?thesis
  proof (cases ex)
    case (Inl er)
    with assms None g t show ?thesis by (intro refused) (auto simp: InstallFromManifest_def)
  next
    case (Inr existing)
    with g have row: "existing = package_row st (pk_Name pkg)"
      by (auto simp: store_Get_def sql_query_def split: option.splits)
    show ?thesis
    proof (cases "case existing of None \<Rightarrow> False | Some p \<Rightarrow> ip_Version p = pk_Version pkg")
      case True
      then obtain p where p: "existing = Some p" "ip_Version p = pk_Version pkg" by (cases existing) auto
      from assms None g Inr p have "st' = st\<lparr>px_db := d1\<rparr>" "err = None" by (simp_all add: InstallFromManifest_def Let_def)
      with p row t show ?thesis by (intro present [of p]) simp_all
    next
      case False
      with assms None g Inr l show ?thesis
        using L t by (cases r) (auto simp: InstallFromManifest_def Let_def intro: refused launched)
    qed
  qed
qed

section \<open>Properties\<close>

lemma reserved_error_None: "reserved_error names = None \<longleftrightarrow> (\<forall>n \<in> set names. \<not> reserved_name n)"
  by (auto simp: reserved_error_def find_None_iff find_Some_iff split: option.split)

lemma preflight_ok:
  assumes "preflight e i st pkg = None"
  shows "is_abs (resolveTemplate i (ac_BinaryPath (pk_Adapter pkg)))"
    and "list_all safe_path_char (resolveTemplate i (ac_BinaryPath (pk_Adapter pkg)))"
    and "s \<in> set (pk_Primitives pkg) \<Longrightarrow> \<not> reserved_name (px_Name s)"
  using assms reserved_error_None [of "map px_Name (pk_Primitives pkg)"]
  by (auto simp: preflight_def binary_path_error_def Let_def split: option.splits if_splits)

text \<open>
  What a successful installation has done. Either the same version was installed already and nothing has changed, or the package has been
  started, from an absolute path of harmless characters and without a primitive in a reserved namespace, it runs, the
  installer knows its process, and the store has an active record of the version; the records of all other packages
  are as before.
\<close>

theorem pkg_install:
  assumes "InstallFromManifest e i st pkg extra = (st', None)"
  shows "(\<exists>p. package_row st (pk_Name pkg) = Some p \<and> ip_Version p = pk_Version pkg \<and> px_live st' = px_live st \<and>
       px_processes st' = px_processes st \<and> db_tables (px_db st') = db_tables (px_db st)) \<or>
    (\<exists>pid p. px_processes st' (pk_Name pkg) = Some pid \<and> px_live st' = insert pid (px_live st) \<and>
       package_row st' (pk_Name pkg) = Some p \<and> ip_Version p = pk_Version pkg \<and> ip_Status p = ''active'' \<and>
       is_abs (ip_BinaryPath p) \<and> list_all safe_path_char (ip_BinaryPath p) \<and>
       (\<forall>s \<in> set (pk_Primitives pkg). \<not> reserved_name (px_Name s)) \<and>
       (\<forall>n. n \<noteq> pk_Name pkg \<longrightarrow> package_row st' n = package_row st n \<and> px_processes st' n = px_processes st n))"
  using assms
proof (cases rule: install_cases)
  case (present p)
  then show ?thesis by blast
next
  case (launched st2 pid w w' rec)
  from activate_ok [OF launched(2)] obtain t where a: "px_processes st' = px_processes st2" "px_live st' = px_live st2"
    "\<And>n. package_row st' n = (if n = ip_Name rec then Some (rec\<lparr>ip_InstalledAt := t\<rparr>) else package_row st2 n)" by blast
  note pre = preflight_ok [OF launched(1)]
  show ?thesis
    by (rule disjI2, rule exI [of _ pid], rule exI [of _ "rec\<lparr>ip_InstalledAt := t\<rparr>"])
      (use a launched pre in simp)
qed simp

text \<open>
  C36. A failed installation leaves no process. Whatever step fails, the processes that run are those that ran before, provided the system gives a new
  process a number no running process has, and the records of other packages are as before.
\<close>

theorem pkg_install_failed:
  assumes "InstallFromManifest e i st pkg extra = (st', Some er)"
    and "\<And>w bin args w' pid. pe_start e w bin args = (w', Inr pid) \<Longrightarrow> pid \<notin> px_live st"
  shows "px_live st' = px_live st \<and> (\<forall>n. n \<noteq> pk_Name pkg \<longrightarrow> package_row st' n = package_row st n \<and> px_processes st' n = px_processes st n)"
  using assms(1)
proof (cases rule: install_cases)
  case (launched st2 pid w w' rec)
  from launched(3) have "ip_Name rec = pk_Name pkg" by simp
  from activate_failed [OF launched(2) this] launched(5-7) assms(2) [OF launched(4)] show ?thesis by auto
qed auto

text \<open>
  Removal. When \<open>Remove\<close> returns without error, the package had a record and has none any more, the process the
  installer had for it, if any, is stopped, and the other packages keep their records and processes.
\<close>

theorem pkg_remove:
  assumes "Remove_package e st name = (st', None)"
  shows "package_row st name \<noteq> None \<and> package_row st' name = None \<and> px_processes st' name = None \<and>
    px_live st' = px_live st - set_option (px_processes st name) \<and>
    (\<forall>n. n \<noteq> name \<longrightarrow> package_row st' n = package_row st n \<and> px_processes st' n = px_processes st n)"
proof -
  obtain d1 ex where g: "store_Get (pe_sql e) (px_db st) name = (d1, ex)" by fastforce
  then have t: "db_tables d1 = db_tables (px_db st)" by (metis store_Get_tables fst_conv)
  let ?st1 = "st\<lparr>px_db := d1\<rparr>"
  let ?st2 = "if pe_has_registry e then ?st1\<lparr>px_sys := fst (pe_mark e (px_sys ?st1) name)\<rparr> else ?st1"
  have f: "px_db (stop_process e ?st2 name) = d1" "px_processes (stop_process e ?st2 name) = (px_processes st)(name := None)"
    "px_live (stop_process e ?st2 name) = px_live st - set_option (px_processes st name)"
    by (auto simp: stop_process_def split: option.split)
  obtain d2 err where r: "store_Remove (pe_sql e) d1 name = (d2, err)" by fastforce
  from assms g f r obtain p where ok: "ex = Inr (Some p)" "err = None" "px_db st' = d2" "px_processes st' = (px_processes st)(name := None)"
    "px_live st' = px_live st - set_option (px_processes st name)"
    by (auto simp: Remove_package_def Let_def split: sum.splits option.splits)
  from g ok(1) have "package_row st name = Some p" by (auto simp: store_Get_def sql_query_def split: option.splits)
  moreover from r [unfolded store_Remove_def] have "db_tables d2 = filter (\<lambda>p. ip_Name p \<noteq> name) (db_tables (px_db st))"
    by (rule sql_tx_cases) (auto simp: ok(2) t)
  ultimately show ?thesis using ok by (simp add: select_filter)
qed

subsection \<open>Boxfiles\<close>

lemma split_on_infix: "p \<in> set (split_on c s) \<Longrightarrow> \<exists>u v. s = u @ p @ v"
proof (induction s arbitrary: p)
  case (Cons d s)
  show ?case
  proof (cases "d = c")
    case True
    with Cons show ?thesis by (metis append_Cons append_Nil set_ConsD split_on.simps(2))
  next
    case False
    obtain q qs where q: "split_on c s = q # qs" by (cases "split_on c s") auto
    with False Cons.prems consider "p = d # q" | "p \<in> set qs" by auto
    then show ?thesis
    proof cases
      case 1
      have "\<exists>v. s = q @ v" using q by (induction s arbitrary: q qs) (auto split: if_splits list.splits)
      with 1 show ?thesis by (metis append_Cons append_Nil)
    next
      case 2
      with Cons.IH [of p] q show ?thesis by (metis append_Cons list.set_intros(2))
    qed
  qed
qed simp

lemma fold_clean_extends: "''..'' \<notin> set cs \<Longrightarrow> prefix p (fold clean_step cs p)"
proof (induction cs arbitrary: p)
  case (Cons c cs)
  from Cons.prems have "prefix p (clean_step c p)" by (auto simp: clean_step_def)
  with Cons show ?case by (metis fold_simps(2) list.set_intros(2) prefix_order.trans)
qed simp

lemma bootstrap_error_None: "bootstrap_error i fs = None \<Longrightarrow> f \<in> set fs \<Longrightarrow> bs_Dst f \<noteq> [] \<and> \<not> contains_str (bs_Dst f) ''..'' \<and> \<not> is_abs (bs_Dst f)"
  by (induction i fs rule: bootstrap_error.induct) (auto simp: Let_def split: if_splits)

lemma primitives_error_None: "primitives_error ps = None \<Longrightarrow> p \<in> set ps \<Longrightarrow> px_Name p \<noteq> [] \<and> \<not> reserved_name (px_Name p)"
  by (induction ps rule: primitives_error.induct) (auto simp: reserved_error_None split: if_splits option.splits)

text \<open>
  A valid Boxfile is harmless. The destination of every file it injects lies below the root of the workspace, wherever that is; none of
  its primitives is in a reserved namespace, so its manifest cannot fail that check of the installer; and its socket, unless it is
  absolute or names a template itself, is below the workspace.
\<close>

theorem boxfile_valid:
  assumes "ValidateBoxfile b = None"
  shows "(\<forall>fs f. bx_Bootstrap b = Some fs \<longrightarrow> f \<in> set fs \<longrightarrow> prefix root (path_join root (bs_Dst f))) \<and>
    reserved_error (map px_Name (pk_Primitives (BoxfileToManifest dur base b))) = None \<and>
    (CHR ''{'' \<notin> set (ba_SocketPath (bx_Adapter b)) \<longrightarrow> \<not> is_abs (ba_SocketPath (bx_Adapter b)) \<longrightarrow>
       ac_SocketPath (pk_Adapter (BoxfileToManifest dur base b)) = ''{workspace}/'' @ ba_SocketPath (bx_Adapter b))"
proof -
  from assms have v: "ba_SocketPath (bx_Adapter b) \<noteq> []" "primitives_error (bx_Primitives b) = None"
    "\<And>fs. bx_Bootstrap b = Some fs \<Longrightarrow> bootstrap_error 0 fs = None"
    by (auto simp: ValidateBoxfile_def split: if_splits option.splits)
  have "prefix root (path_join root (bs_Dst f))" if "bx_Bootstrap b = Some fs" "f \<in> set fs" for fs f
  proof -
    from bootstrap_error_None [OF v(3) [OF that(1)] that(2)] have "''..'' \<notin> set (split_on (CHR ''/'') (bs_Dst f))"
      using split_on_infix contains_str_iff by metis
    then show ?thesis unfolding path_join_def by (rule fold_clean_extends)
  qed
  moreover have "reserved_error (map px_Name (bx_Primitives b)) = None"
    using primitives_error_None [OF v(2)] by (auto simp: reserved_error_None)
  ultimately show ?thesis using v(1) by (auto simp: BoxfileToManifest_def Let_def)
qed

subsection \<open>Examples\<close>

text \<open>A world that counts the processes started; the health checks pass or not.\<close>

definition demo_pkg_env :: "bool \<Rightarrow> nat pkg_env" where
  "demo_pkg_env healthy = \<lparr>pe_sql = \<lparr>sq_fault = (\<lambda>_. None), sq_now = int\<rparr>, pe_stat = (\<lambda>_ _. None), pe_mkdir = (\<lambda>w _. (w, None)),
     pe_start = (\<lambda>w _ _. (Suc w, Inr (int w))), pe_has_registry = False, pe_app_list = (\<lambda>_. Inr []), pe_mark = (\<lambda>w _. (w, None)),
     pe_wait = id, pe_ticks = 40, pe_gone = (\<lambda>_. None),
     pe_post = (\<lambda>w _ _ _. (w, if healthy then Inr (Raw (JObj [])) else Inl (GoErr ''connection refused''))), pe_now = int, pe_publish = None\<rparr>"

definition demo_installer :: installer where
  "demo_installer = \<lparr>in_gatewayURL = ''http://g'', in_workspace = ''/w'', in_pbDir = ''/opt/pb''\<rparr>"

definition demo_pkg :: "string \<Rightarrow> package_manifest" where
  "demo_pkg v = \<lparr>pk_Name = ''kv'', pk_Version = v, pk_Description = [],
     pk_Adapter = \<lparr>ac_Type = ''binary'', ac_BinaryPath = ''{pb_dir}/kv'', ac_Args = [''--dir'', ''{workspace}''], ac_SocketPath = ''{workspace}/kv.sock''\<rparr>,
     pk_Primitives = [spec_of ''kv.get'' ''query'' ''read'' ''low'' True],
     pk_Healthcheck = Some \<lparr>hc_Primitive = ''kv.get'', hc_Params = JObj [], hc_Timeout = 5\<rparr>\<rparr>"

definition demo_pkg_state :: "nat pkg_state" where
  "demo_pkg_state = \<lparr>px_sys = 7, px_db = \<lparr>db_tables = [], db_stmts = 0\<rparr>, px_processes = Map.empty, px_live = {}\<rparr>"

definition demo_installed :: "nat pkg_state" where
  "demo_installed = fst (InstallFromManifest (demo_pkg_env True) demo_installer demo_pkg_state (demo_pkg ''1'') [])"

text \<open>
  A failed upgrade loses the installed version. The first version of a package is installed and runs; installing a second version fails its health
  check. The rollback deletes the record of the first version too, and forgets its process without
  stopping it: it still runs, and removing the package is refused as not installed.
\<close>

theorem pkg_upgrade_failure:
  "let st = demo_installed;
       (st', err) = InstallFromManifest (demo_pkg_env False) demo_installer st (demo_pkg ''2'') []
   in map_option ip_Version (package_row st ''kv'') = Some ''1'' \<and> px_processes st ''kv'' = Some 7 \<and> 7 \<in> px_live st \<and>
      err \<noteq> None \<and> package_row st' ''kv'' = None \<and> px_processes st' ''kv'' = None \<and> 7 \<in> px_live st' \<and>
      snd (Remove_package (demo_pkg_env True) st' ''kv'') \<noteq> None"
  by code_simp

theorem pkg_install_witness:
  "\<exists>p. package_row demo_installed ''kv'' = Some p \<and> ip_Version p = ''1'' \<and> px_processes demo_installed ''kv'' \<noteq> None"
proof -
  have "snd (InstallFromManifest (demo_pkg_env True) demo_installer demo_pkg_state (demo_pkg ''1'') []) = None" by code_simp
  then have r: "InstallFromManifest (demo_pkg_env True) demo_installer demo_pkg_state (demo_pkg ''1'') [] = (demo_installed, None)"
    unfolding demo_installed_def by (intro prod_eqI) simp_all
  have n: "pk_Name (demo_pkg ''1'') = ''kv''" "pk_Version (demo_pkg ''1'') = ''1''" "package_row demo_pkg_state ''kv'' = None" by code_simp+
  from pkg_install [OF r] show ?thesis unfolding n by auto
qed

theorem pkg_install_failed_witness:
  "\<exists>st' er. InstallFromManifest (demo_pkg_env False) demo_installer demo_pkg_state (demo_pkg ''1'') [] = (st', Some er) \<and> px_live st' = {}"
proof -
  let ?r = "InstallFromManifest (demo_pkg_env False) demo_installer demo_pkg_state (demo_pkg ''1'') []"
  have "snd ?r \<noteq> None" by code_simp
  then obtain st' er where r: "?r = (st', Some er)" by (cases ?r) auto
  have "px_live demo_pkg_state = {}" by (simp add: demo_pkg_state_def)
  with pkg_install_failed [OF r] r show ?thesis by auto
qed

theorem pkg_remove_witness:
  "\<exists>st'. Remove_package (demo_pkg_env True) demo_installed ''kv'' = (st', None) \<and> package_row st' ''kv'' = None \<and> px_live st' = {}"
proof -
  let ?r = "Remove_package (demo_pkg_env True) demo_installed ''kv''"
  have "snd ?r = None" by code_simp
  then obtain st' where r: "?r = (st', None)" by (cases ?r) auto
  have "px_processes demo_installed ''kv'' = Some 7" "px_live demo_installed = {7}" by code_simp+
  with pkg_remove [OF r] r show ?thesis by auto
qed

definition demo_boxfile :: boxfile where
  "demo_boxfile = \<lparr>bx_Name = ''kv'', bx_Version = ''1'', bx_Description = [],
     bx_Adapter = \<lparr>ba_Type = ''binary'', ba_BinaryPath = ''bin/kv'', ba_SocketPath = ''kv.sock'', ba_Args = [], ba_MCPCommand = []\<rparr>,
     bx_Primitives = [spec_of ''kv.get'' ''query'' ''read'' ''low'' True], bx_Healthcheck = None,
     bx_Bootstrap = Some [\<lparr>bs_Src = ''a.txt'', bs_Dst = ''data/./a.txt''\<rparr>]\<rparr>"

theorem boxfile_valid_witness:
  "ValidateBoxfile demo_boxfile = None \<and> prefix [''w''] (path_join [''w''] ''data/./a.txt'') \<and>
   ac_SocketPath (pk_Adapter (BoxfileToManifest (\<lambda>_. None) [''b''] demo_boxfile)) = ''{workspace}/kv.sock''"
proof -
  have v: "ValidateBoxfile demo_boxfile = None" by code_simp
  from boxfile_valid [OF v, of "[''w'']" "\<lambda>_. None" "[''b'']"] v show ?thesis
    by (auto simp: demo_boxfile_def is_abs_def has_prefix_def)
qed

end
