(* ===== verification/VerificationRunner.thy ===== *)
theory VerificationRunner
  imports GoalStore Sandbox Orchestrator
begin

text \<open>
  Verification of goals, \<open>internal/goal/verification_runner.go\<close>: the checks a goal declares are
  run in the order of their creation, each a primitive call (on the host engine or through the RPC
  endpoint of a sandbox), an HTTP probe, or an assertion about JSON a step or an earlier check
  produced. The HTTP client is a parameter: \<open>vr_request\<close> is the validation of a method and an
  address by \<open>http.NewRequest\<close>, \<open>vr_do\<close> an exchange. A response body is the bytes delivered and
  the error, if any, that ended the stream.

  The runner and the coordinator share one state: the goal store with its bus, and the sandbox
  manager, whose world is also the world of the task engine.
\<close>

record http_request =
  hq_Method :: string
  hq_URL :: string
  hq_Headers :: "(string \<times> string) list"
  hq_Body :: raw

record http_response =
  hr_StatusCode :: int
  hr_Body :: "string \<times> go_error option"

record ('b, 's, 'w) runner =
  vr_env :: "'b goal_env"
  vr_engine :: "'w engine"
  vr_manager :: "('s, 'w) manager option"
  vr_request :: "string \<Rightarrow> string \<Rightarrow> go_error option"
  vr_do :: "'w \<Rightarrow> http_request \<Rightarrow> 'w \<times> (go_error + http_response)"

record ('b, 's, 'w) goal_state =
  cs_goal :: "'b goal_world"
  cs_mgr :: "('s, 'w) mgr_state"

definition cs_world :: "('b, 's, 'w) goal_state \<Rightarrow> 'w" where
  "cs_world st = ms_world (cs_mgr st)"

definition set_world :: "'w \<Rightarrow> ('b, 's, 'w) goal_state \<Rightarrow> ('b, 's, 'w) goal_state" where
  "set_world w st = st\<lparr>cs_mgr := (cs_mgr st)\<lparr>ms_world := w\<rparr>\<rparr>"

definition read_all :: "string \<times> go_error option \<Rightarrow> go_error + string" where
  "read_all body = (case snd body of None \<Rightarrow> Inr (fst body) | Some e \<Rightarrow> Inl e)"

definition read_limited :: "nat \<Rightarrow> string \<times> go_error option \<Rightarrow> go_error + string" where
  "read_limited n body = (if n \<le> length (fst body) then Inr (take n (fst body)) else read_all body)"

section \<open>Verdicts\<close>

type_synonym verdict = "verification_status \<times> string \<times> raw"

definition successResult :: "string \<Rightarrow> jmap \<Rightarrow> verdict" where
  "successResult v evidence = (GoalVerificationPassed, v, json_marshal (JObj evidence))"

definition failureResult :: "string \<Rightarrow> jmap \<Rightarrow> verdict" where
  "failureResult v evidence = (GoalVerificationFailed, v, json_marshal (JObj evidence))"

fun decodeRawJSON :: "raw \<Rightarrow> json" where
  "decodeRawJSON RawNil = JNull"
| "decodeRawJSON (Raw j) = json_canon j"
| "decodeRawJSON (RawText s) = (if s = [] then JNull else JStr s)"

definition resultData :: "step_result option \<Rightarrow> raw" where
  "resultData r = (case r of None \<Rightarrow> RawNil | Some x \<Rightarrow> sr_Data x)"

section \<open>Assertions\<close>

record assert_spec =
  as_Path :: string
  as_Operator :: string
  as_Expected :: json

definition splitPath :: "string \<Rightarrow> string list" where
  "splitPath path =
     filter (\<lambda>p. p \<noteq> []) (split_on (CHR ''.'') (replace_char (CHR '']'') [] (replace_char (CHR ''['') ''.'' path)))"

fun path_step :: "json \<Rightarrow> string \<Rightarrow> json option" where
  "path_step (JObj m) tok = jget m tok"
| "path_step (JArr xs) tok =
     (case atoi tok of
        None \<Rightarrow> None
      | Some i \<Rightarrow> (if i < 0 \<or> int (length xs) \<le> i then None else Some (xs ! nat i)))"
| "path_step _ tok = None"

fun path_walk :: "json \<Rightarrow> string list \<Rightarrow> json option" where
  "path_walk j [] = Some j"
| "path_walk j (t # ts) = (case path_step j t of None \<Rightarrow> None | Some v \<Rightarrow> path_walk v ts)"

definition lookupJSONPath :: "json \<Rightarrow> string \<Rightarrow> json option" where
  "lookupJSONPath source path = (if path = [] \<or> path = ''.'' then Some source else path_walk source (splitPath path))"

fun containsValue :: "json \<Rightarrow> json \<Rightarrow> bool" where
  "containsValue (JStr s) e = contains_str s (go_sprint e)"
| "containsValue (JArr xs) e = list_ex (\<lambda>x. deep_equal x e) xs"
| "containsValue (JObj m) e = (jget m (go_sprint e) \<noteq> None)"
| "containsValue _ e = False"

fun toFloat64 :: "json \<Rightarrow> int option" where
  "toFloat64 (JNum n) = Some n"
| "toFloat64 _ = None"

text \<open>The comparisons, with the message each of them returns in any case.\<close>

definition compare_numbers :: "string \<Rightarrow> string \<Rightarrow> int \<Rightarrow> int \<Rightarrow> bool \<times> string" where
  "compare_numbers op path l r =
     (let msg = (\<lambda>sym. ''expected '' @ go_quote path @ '' '' @ sym @ '' '' @ go_float r)
      in if op = ''gt'' then (r < l, msg ''>'')
         else if op = ''gte'' then (r \<le> l, msg ''>='')
         else if op = ''lt'' then (l < r, msg ''<'')
         else (l \<le> r, msg ''<=''))"

definition compare_values :: "string \<Rightarrow> string \<Rightarrow> json \<Rightarrow> json \<Rightarrow> bool \<times> string" where
  "compare_values op path observed e =
     (let q = go_quote path; v = go_sharp e
      in if op = ''eq'' then
           (if deep_equal observed e then (True, []) else (False, ''expected '' @ q @ '' to equal '' @ v))
         else if op = ''neq'' then
           (if \<not> deep_equal observed e then (True, []) else (False, ''expected '' @ q @ '' to differ from '' @ v))
         else if op = ''contains'' then
           (if containsValue observed e then (True, []) else (False, ''expected '' @ q @ '' to contain '' @ v))
         else if op \<in> {''gt'', ''gte'', ''lt'', ''lte''} then
           (case (toFloat64 observed, toFloat64 e) of
              (Some l, Some r) \<Rightarrow> compare_numbers op path l r
            | _ \<Rightarrow> (False, ''operator '' @ op @ '' requires numeric values''))
         else (False, ''unsupported operator '' @ go_quote op))"

definition evaluateAssertion :: "json \<Rightarrow> assert_spec \<Rightarrow> bool \<times> string \<times> jmap" where
  "evaluateAssertion source spec =
     (let op = (if as_Operator spec = [] then ''eq'' else as_Operator spec);
          found = lookupJSONPath source (as_Path spec);
          missing = ''path '' @ go_quote (as_Path spec) @ '' does not exist'';
          evidence = [(''path'', JStr (as_Path spec)), (''operator'', JStr op), (''expected'', as_Expected spec),
                      (''observed'', case found of None \<Rightarrow> JNull | Some v \<Rightarrow> v), (''exists'', JBool (found \<noteq> None))]
      in if op = ''exists'' then
           (if found \<noteq> None then (True, [], evidence) else (False, missing, evidence))
         else if op = ''not_exists'' then
           (if found = None then (True, [], evidence)
            else (False, ''path '' @ go_quote (as_Path spec) @ '' unexpectedly exists'', evidence))
         else
           (case found of
              None \<Rightarrow> (False, missing, evidence)
            | Some observed \<Rightarrow>
                (let (ok, msg) = compare_values op (as_Path spec) observed (as_Expected spec)
                 in (ok, msg, evidence))))"

section \<open>Decoding check parameters\<close>

definition dec_assert :: "jmap \<Rightarrow> assert_spec decoded" where
  "dec_assert m =
     dec_bind (field_string m ''path'') (\<lambda>p.
     dec_bind (field_string m ''operator'') (\<lambda>opr.
       Inr \<lparr>as_Path = p, as_Operator = opr, as_Expected = field_any m ''expected''\<rparr>))"

text \<open>\<open>Expect *assertSpec\<close>: absent or null is the nil pointer.\<close>

definition dec_expect :: "jmap \<Rightarrow> assert_spec option decoded" where
  "dec_expect m =
     (case jget m ''expect'' of
        None \<Rightarrow> Inr None
      | Some JNull \<Rightarrow> Inr None
      | Some j \<Rightarrow> dec_bind (dec_map (Raw j)) (\<lambda>e. dec_bind (dec_assert e) (\<lambda>a. Inr (Some a))))"

record call_params =
  cp_Method :: string
  cp_Params :: raw
  cp_SandboxID :: string
  cp_Expect :: "assert_spec option"

definition dec_call :: "raw \<Rightarrow> call_params decoded" where
  "dec_call r =
     dec_bind (dec_map r) (\<lambda>m.
     dec_bind (field_string m ''method'') (\<lambda>meth.
     dec_bind (field_string m ''sandbox_id'') (\<lambda>sb.
     dec_bind (dec_expect m) (\<lambda>ex.
       Inr \<lparr>cp_Method = meth, cp_Params = field_raw m ''params'', cp_SandboxID = sb, cp_Expect = ex\<rparr>))))"

record probe_params =
  pp_URL :: string
  pp_Method :: string
  pp_Headers :: "(string \<times> string) list"
  pp_ExpectedStatus :: int
  pp_BodyContains :: string

definition dec_headers :: "jmap \<Rightarrow> (string \<times> string) list decoded" where
  "dec_headers m =
     (case jget m ''headers'' of
        None \<Rightarrow> Inr []
      | Some j \<Rightarrow> dec_bind (dec_map (Raw j)) (\<lambda>h.
          if list_all (\<lambda>x. is_string_or_null (snd x)) h then Inr (map (map_prod id elem_string) (sort_keys h))
          else Inl json_error))"

definition dec_probe :: "raw \<Rightarrow> probe_params decoded" where
  "dec_probe r =
     dec_bind (dec_map r) (\<lambda>m.
     dec_bind (field_string m ''url'') (\<lambda>url.
     dec_bind (field_string m ''method'') (\<lambda>meth.
     dec_bind (dec_headers m) (\<lambda>hs.
     dec_bind (field_int m ''expected_status'') (\<lambda>status.
     dec_bind (field_string m ''body_contains'') (\<lambda>body.
       Inr \<lparr>pp_URL = url, pp_Method = meth, pp_Headers = hs, pp_ExpectedStatus = status, pp_BodyContains = body\<rparr>))))))"

record json_assert_params =
  jp_SourceStepID :: string
  jp_SourceVerificationID :: string
  jp_Spec :: assert_spec

definition dec_json_assert :: "raw \<Rightarrow> json_assert_params decoded" where
  "dec_json_assert r =
     dec_bind (dec_map r) (\<lambda>m.
     dec_bind (field_string m ''source_step_id'') (\<lambda>s.
     dec_bind (field_string m ''source_verification_id'') (\<lambda>v.
     dec_bind (dec_assert m) (\<lambda>a.
       Inr \<lparr>jp_SourceStepID = s, jp_SourceVerificationID = v, jp_Spec = a\<rparr>))))"

section \<open>Checks\<close>

definition rpc_request :: "string \<Rightarrow> string \<Rightarrow> raw \<Rightarrow> http_request" where
  "rpc_request endpoint meth params =
     \<lparr>hq_Method = ''POST'', hq_URL = endpoint @ ''/rpc'', hq_Headers = [(''Content-Type'', ''application/json'')],
      hq_Body = Raw (JObj [(''jsonrpc'', JStr ''2.0''), (''method'', JStr meth),
                           (''params'', case params of Raw j \<Rightarrow> j | _ \<Rightarrow> JNull), (''id'', JStr ''verification'')])\<rparr>"

text \<open>The response: its result, and the code and message of its error object.\<close>

definition dec_rpc :: "string \<Rightarrow> (raw \<times> (int \<times> string) option) decoded" where
  "dec_rpc body =
     dec_bind (dec_map (parse_raw body)) (\<lambda>m.
     dec_bind (field_string m ''jsonrpc'') (\<lambda>_.
       case jget m ''error'' of
         None \<Rightarrow> Inr (field_raw m ''result'', None)
       | Some JNull \<Rightarrow> Inr (field_raw m ''result'', None)
       | Some j \<Rightarrow>
           dec_bind (dec_map (Raw j)) (\<lambda>e.
           dec_bind (field_int e ''code'') (\<lambda>c.
           dec_bind (field_string e ''message'') (\<lambda>msg.
             Inr (field_raw m ''result'', Some (c, msg)))))))"

definition dec_payload :: "raw \<Rightarrow> (raw \<times> int) decoded" where
  "dec_payload r =
     dec_bind (dec_map r) (\<lambda>m.
     dec_bind (field_int m ''duration_ms'') (\<lambda>d. Inr (field_raw m ''data'', d)))"

definition rpc_outcome :: "http_response \<Rightarrow> go_error + step_result" where
  "rpc_outcome resp =
     (case read_all (hr_Body resp) of
        Inl e \<Rightarrow> Inl (GoWrap ''read sandbox rpc response'' e)
      | Inr body \<Rightarrow>
          (if hr_StatusCode resp \<noteq> 200
           then Inl (GoErr (''sandbox rpc status '' @ itoa (hr_StatusCode resp) @ '': '' @ trim_space body))
           else case dec_rpc body of
             Inl e \<Rightarrow> Inl (GoWrap ''decode sandbox rpc response'' e)
           | Inr (_, Some (code, msg)) \<Rightarrow>
               Inr \<lparr>sr_Success = False, sr_Data = RawNil,
                    sr_Error = Some \<lparr>se_Kind = FailureUnknown, se_Code = itoa code, se_Message = msg, se_Summary = msg\<rparr>,
                    sr_Duration = 0\<rparr>
           | Inr (result, None) \<Rightarrow>
               (case dec_payload result of
                  Inl e \<Rightarrow> Inl (GoWrap ''decode sandbox rpc result'' e)
                | Inr (data, dur) \<Rightarrow>
                    Inr \<lparr>sr_Success = True, sr_Data = (if raw_len0 data then Raw JNull else data),
                         sr_Error = None, sr_Duration = dur\<rparr>)))"

definition executeSandboxPrimitive ::
  "('b, 's, 'w) runner \<Rightarrow> ('s, 'w) mgr_state \<Rightarrow> string \<Rightarrow> string \<Rightarrow> raw
   \<Rightarrow> ('s, 'w) mgr_state \<times> (go_error + step_result)" where
  "executeSandboxPrimitive r ms sandboxID meth params =
     (case vr_manager r of
        None \<Rightarrow> (ms, Inl (GoErr (''sandbox manager unavailable for sandbox verification '' @ sandboxID)))
      | Some m \<Rightarrow>
          (let (ms1, ins) = mgr_Inspect m ms sandboxID
           in case ins of
                Inl e \<Rightarrow> (ms1, Inl (GoWrap (''inspect sandbox '' @ sandboxID) e))
              | Inr sb \<Rightarrow>
                  (if sb_RPCEndpoint sb = [] then (ms1, Inl (GoErr (''sandbox '' @ sandboxID @ '' has no rpc endpoint'')))
                   else if (case params of RawText s \<Rightarrow> True | _ \<Rightarrow> False) then (ms1, Inl (GoWrap ''marshal sandbox rpc request'' json_error))
                   else case vr_request r ''POST'' (sb_RPCEndpoint sb @ ''/rpc'') of
                     Some e \<Rightarrow> (ms1, Inl (GoWrap ''build sandbox rpc request'' e))
                   | None \<Rightarrow>
                       (let (w, resp) = vr_do r (ms_world ms1) (rpc_request (sb_RPCEndpoint sb) meth params)
                        in (ms1\<lparr>ms_world := w\<rparr>,
                            case resp of Inl e \<Rightarrow> Inl (GoWrap ''sandbox rpc request failed'' e)
                            | Inr x \<Rightarrow> rpc_outcome x)))))"

text \<open>What a primitive call amounts to once its result is there.\<close>

definition call_verdict :: "goal \<Rightarrow> goal_verification \<Rightarrow> call_params \<Rightarrow> go_error + step_result option \<Rightarrow> verdict" where
  "call_verdict g v p r =
     (let base = [(''verification_id'', JStr (gv_ID v)), (''check_type'', JStr (gv_CheckType v)),
                  (''method'', JStr (cp_Method p)), (''sandbox_id'', JStr (cp_SandboxID p))]
      in case r of
           Inl e \<Rightarrow> failureResult (error_text e) base
         | Inr res \<Rightarrow>
             (if (case res of None \<Rightarrow> True | Some x \<Rightarrow> \<not> sr_Success x) then
                failureResult
                  (case res of
                     Some x \<Rightarrow> (case sr_Error x of
                                  Some er \<Rightarrow> if se_Message er \<noteq> [] then se_Message er else ''primitive_call failed''
                                | None \<Rightarrow> ''primitive_call failed'')
                   | None \<Rightarrow> ''primitive_call failed'')
                  (base @ [(''result'', decodeRawJSON (resultData res))])
              else
                (let observed = decodeRawJSON (resultData res)
                 in case cp_Expect p of
                      Some spec \<Rightarrow>
                        (let (ok, failure, ev) = evaluateAssertion observed spec;
                             evidence = base @ [(''result'', observed), (''assertion'', JObj ev)]
                         in if \<not> ok then failureResult failure evidence
                            else successResult ''primitive_call passed'' evidence)
                    | None \<Rightarrow>
                        successResult ''primitive_call passed''
                          (base @ [(''result'', observed), (''goal_sandbox_ids'', JArr (map JStr (gl_SandboxIDs g)))]))))"

definition executePrimitiveCall ::
  "('b, 's, 'w) runner \<Rightarrow> ('s, 'w) mgr_state \<Rightarrow> goal \<Rightarrow> goal_verification \<Rightarrow> ('s, 'w) mgr_state \<times> verdict" where
  "executePrimitiveCall r ms g v =
     (case dec_call (gv_CheckParams v) of
        Inl e \<Rightarrow> (ms, failureResult ''invalid primitive_call check_params''
                   [(''verification_id'', JStr (gv_ID v)), (''error'', JStr (error_text e))])
      | Inr p \<Rightarrow>
          (if trim_space (cp_Method p) = []
           then (ms, failureResult ''primitive_call requires method'' [(''verification_id'', JStr (gv_ID v))])
           else
             (let params = (if raw_len0 (cp_Params p) then Raw (JObj []) else cp_Params p)
              in if cp_SandboxID p \<noteq> [] then
                   (let (ms1, res) = executeSandboxPrimitive r ms (cp_SandboxID p) (cp_Method p) params
                    in (ms1, call_verdict g v p (map_sum id Some res)))
                 else
                   (let (w, res, err) = ExecutorExecute (vr_engine r) (ms_world ms) (cp_Method p) params
                    in (ms\<lparr>ms_world := w\<rparr>,
                        call_verdict g v p (case err of Some e \<Rightarrow> Inl e | None \<Rightarrow> Inr res))))))"

definition probe_verdict :: "goal_verification \<Rightarrow> probe_params \<Rightarrow> string \<Rightarrow> int \<Rightarrow> http_response \<Rightarrow> verdict" where
  "probe_verdict v p meth expected resp =
     (case read_limited (16 * 1024) (hr_Body resp) of
        Inl e \<Rightarrow> failureResult ''read http_probe response failed''
                   [(''verification_id'', JStr (gv_ID v)), (''url'', JStr (pp_URL p)), (''error'', JStr (error_text e))]
      | Inr body \<Rightarrow>
          (let evidence = [(''verification_id'', JStr (gv_ID v)), (''check_type'', JStr (gv_CheckType v)),
                           (''url'', JStr (pp_URL p)), (''method'', JStr meth), (''expected_status'', JNum expected),
                           (''observed_status'', JNum (hr_StatusCode resp)), (''body'', JStr body)];
               full = (if pp_BodyContains p = [] then evidence
                       else evidence @ [(''body_contains'', JStr (pp_BodyContains p))])
           in if hr_StatusCode resp \<noteq> expected
              then failureResult (''expected HTTP '' @ itoa expected @ '', got '' @ itoa (hr_StatusCode resp)) evidence
              else if pp_BodyContains p \<noteq> [] \<and> \<not> contains_str body (pp_BodyContains p)
              then failureResult (''response body missing '' @ go_quote (pp_BodyContains p)) full
              else successResult ''http_probe passed'' full))"

definition executeHTTPProbe ::
  "('b, 's, 'w) runner \<Rightarrow> ('s, 'w) mgr_state \<Rightarrow> goal_verification \<Rightarrow> ('s, 'w) mgr_state \<times> verdict" where
  "executeHTTPProbe r ms v =
     (case dec_probe (gv_CheckParams v) of
        Inl e \<Rightarrow> (ms, failureResult ''invalid http_probe check_params''
                   [(''verification_id'', JStr (gv_ID v)), (''error'', JStr (error_text e))])
      | Inr p \<Rightarrow>
          (if trim_space (pp_URL p) = []
           then (ms, failureResult ''http_probe requires url'' [(''verification_id'', JStr (gv_ID v))])
           else
             (let meth = (if pp_Method p = [] then ''GET'' else pp_Method p);
                  expected = (if pp_ExpectedStatus p = 0 then 200 else pp_ExpectedStatus p)
              in case vr_request r meth (pp_URL p) of
                   Some e \<Rightarrow> (ms, failureResult ''invalid http_probe request''
                              [(''verification_id'', JStr (gv_ID v)), (''error'', JStr (error_text e))])
                 | None \<Rightarrow>
                     (let (w, resp) = vr_do r (ms_world ms)
                            \<lparr>hq_Method = meth, hq_URL = pp_URL p, hq_Headers = pp_Headers p, hq_Body = RawNil\<rparr>
                      in (ms\<lparr>ms_world := w\<rparr>,
                          case resp of
                            Inl e \<Rightarrow> failureResult (error_text e)
                                       [(''verification_id'', JStr (gv_ID v)), (''url'', JStr (pp_URL p)), (''method'', JStr meth)]
                          | Inr x \<Rightarrow> probe_verdict v p meth expected x)))))"

text \<open>The JSON an assertion reads, with its kind, or why there is none.\<close>

definition assert_source ::
  "(string \<rightharpoonup> goal_step) \<Rightarrow> (string \<rightharpoonup> goal_verification) \<Rightarrow> json_assert_params \<Rightarrow> (string \<times> jmap) + string \<times> json" where
  "assert_source stepByID verByID p =
     (if jp_SourceStepID p \<noteq> [] then
        (case stepByID (jp_SourceStepID p) of
           None \<Rightarrow> Inl (''json_assert source_step_id not found'', [(''source_step_id'', JStr (jp_SourceStepID p))])
         | Some s \<Rightarrow> Inr (''step'', decodeRawJSON (gp_Output s)))
      else if jp_SourceVerificationID p \<noteq> [] then
        (case verByID (jp_SourceVerificationID p) of
           None \<Rightarrow> Inl (''json_assert source_verification_id not found'',
                        [(''source_verification_id'', JStr (jp_SourceVerificationID p))])
         | Some x \<Rightarrow> Inr (''verification'', decodeRawJSON (gv_Evidence x)))
      else Inl (''json_assert requires source_step_id or source_verification_id'', []))"

definition executeJSONAssert ::
  "goal_verification \<Rightarrow> (string \<rightharpoonup> goal_step) \<Rightarrow> (string \<rightharpoonup> goal_verification) \<Rightarrow> verdict" where
  "executeJSONAssert v stepByID verByID =
     (case dec_json_assert (gv_CheckParams v) of
        Inl e \<Rightarrow> failureResult ''invalid json_assert check_params''
                   [(''verification_id'', JStr (gv_ID v)), (''error'', JStr (error_text e))]
      | Inr p \<Rightarrow>
          (case assert_source stepByID verByID p of
             Inl (msg, ev) \<Rightarrow> failureResult msg ((''verification_id'', JStr (gv_ID v)) # ev)
           | Inr (kind, source) \<Rightarrow>
               (let (ok, failure, ev) = evaluateAssertion source (jp_Spec p);
                    evidence = [(''verification_id'', JStr (gv_ID v)), (''check_type'', JStr (gv_CheckType v)),
                                (''source_kind'', JStr kind), (''source_step_id'', JStr (jp_SourceStepID p)),
                                (''source_verification_id'', JStr (jp_SourceVerificationID p)), (''assertion'', JObj ev)]
                in if \<not> ok then failureResult failure evidence else successResult ''json_assert passed'' evidence)))"

definition executeVerification ::
  "('b, 's, 'w) runner \<Rightarrow> ('s, 'w) mgr_state \<Rightarrow> goal \<Rightarrow> goal_verification
   \<Rightarrow> (string \<rightharpoonup> goal_step) \<Rightarrow> (string \<rightharpoonup> goal_verification) \<Rightarrow> ('s, 'w) mgr_state \<times> verdict" where
  "executeVerification r ms g v stepByID verByID =
     (if gv_CheckType v = ''primitive_call'' then executePrimitiveCall r ms g v
      else if gv_CheckType v = ''http_probe'' then executeHTTPProbe r ms v
      else if gv_CheckType v = ''json_assert'' then (ms, executeJSONAssert v stepByID verByID)
      else (ms, failureResult (''unsupported check_type '' @ go_quote (gv_CheckType v))
             [(''verification_id'', JStr (gv_ID v)), (''check_type'', JStr (gv_CheckType v))]))"

section \<open>The run\<close>

record run_result =
  rr_Count :: int
  rr_Failed :: bool

fun run_verifications ::
  "('b, 's, 'w) runner \<Rightarrow> goal \<Rightarrow> (string \<rightharpoonup> goal_step) \<Rightarrow> (string \<rightharpoonup> goal_verification)
   \<Rightarrow> ('b, 's, 'w) goal_state \<Rightarrow> goal_verification list \<Rightarrow> ('b, 's, 'w) goal_state \<times> (go_error + bool)" where
  "run_verifications r g stepByID verByID st [] = (st, Inr False)"
| "run_verifications r g stepByID verByID st (v # vs) =
     (if gv_Status v = GoalVerificationPassed then run_verifications r g stepByID verByID st vs
      else
        (let (w1, e1) = UpdateGoalVerification (vr_env r) (cs_goal st) (gv_ID v) GoalVerificationRunning [] (gv_Evidence v)
         in case e1 of
              Some e \<Rightarrow> (st\<lparr>cs_goal := w1\<rparr>, Inl (GoWrap (''mark verification '' @ gv_ID v @ '' running'') e))
            | None \<Rightarrow>
                (let (ms, status, verdict, evidence) = executeVerification r (cs_mgr st) g v stepByID verByID;
                     (w2, e2) = UpdateGoalVerification (vr_env r) w1 (gv_ID v) status verdict evidence;
                     st2 = st\<lparr>cs_goal := w2, cs_mgr := ms\<rparr>
                 in case e2 of
                      Some e \<Rightarrow> (st2, Inl (GoWrap (''persist verification '' @ gv_ID v) e))
                    | None \<Rightarrow>
                        (let v' = v\<lparr>gv_Status := status, gv_Verdict := verdict, gv_Evidence := evidence\<rparr>
                         in if status = GoalVerificationFailed then (st2, Inr True)
                            else run_verifications r g stepByID (verByID(gv_ID v \<mapsto> v')) st2 vs))))"

definition by_id :: "('a \<Rightarrow> string) \<Rightarrow> 'a list \<Rightarrow> string \<rightharpoonup> 'a" where
  "by_id key xs = map_of (rev (map (\<lambda>x. (key x, x)) xs))"

definition runner_Run ::
  "('b, 's, 'w) runner \<Rightarrow> ('b, 's, 'w) goal_state \<Rightarrow> string \<Rightarrow> ('b, 's, 'w) goal_state \<times> (go_error + run_result)" where
  "runner_Run r st goalID =
     (let (w1, g) = GetGoal (vr_env r) (cs_goal st) goalID
      in case g of
           Inl e \<Rightarrow> (st\<lparr>cs_goal := w1\<rparr>, Inl (GoWrap (''get goal '' @ goalID) e))
         | Inr None \<Rightarrow> (st\<lparr>cs_goal := w1\<rparr>, Inl (GoErr (''goal '' @ goalID @ '' not found'')))
         | Inr (Some goal) \<Rightarrow>
             (let (w2, ss) = ListGoalSteps (vr_env r) w1 goalID
              in case ss of
                   Inl e \<Rightarrow> (st\<lparr>cs_goal := w2\<rparr>, Inl (GoWrap ''list steps'' e))
                 | Inr steps \<Rightarrow>
                     (let (w3, vv) = ListGoalVerifications (vr_env r) w2 goalID
                      in case vv of
                           Inl e \<Rightarrow> (st\<lparr>cs_goal := w3\<rparr>, Inl (GoWrap ''list verifications'' e))
                         | Inr vs \<Rightarrow>
                             (let (st', failed) = run_verifications r goal (by_id gp_ID steps) (by_id gv_ID vs)
                                                    (st\<lparr>cs_goal := w3\<rparr>) vs
                              in (st', map_sum id (\<lambda>f. \<lparr>rr_Count = int (length vs), rr_Failed = f\<rparr>) failed)))))"

section \<open>A run that does not fail\<close>

text \<open>Every check ends in one of two ways.\<close>

lemma call_verdict_status: "fst (call_verdict g v p r) \<in> {GoalVerificationPassed, GoalVerificationFailed}"
  by (simp add: call_verdict_def Let_def failureResult_def successResult_def case_prod_beta split: sum.split option.split)

lemma probe_verdict_status: "fst (probe_verdict v p m e r) \<in> {GoalVerificationPassed, GoalVerificationFailed}"
  by (simp add: probe_verdict_def Let_def failureResult_def successResult_def split: sum.split)

lemma executePrimitiveCall_status:
  "fst (snd (executePrimitiveCall r ms g v)) \<in> {GoalVerificationPassed, GoalVerificationFailed}"
proof (cases "dec_call (gv_CheckParams v)")
  case (Inl e)
  then show ?thesis by (simp add: executePrimitiveCall_def failureResult_def)
next
  case (Inr p)
  then show ?thesis
    using call_verdict_status [of g v p]
    by (simp add: executePrimitiveCall_def Let_def case_prod_beta failureResult_def)
qed

lemma executeHTTPProbe_status:
  "fst (snd (executeHTTPProbe r ms v)) \<in> {GoalVerificationPassed, GoalVerificationFailed}"
proof (cases "dec_probe (gv_CheckParams v)")
  case (Inl e)
  then show ?thesis by (simp add: executeHTTPProbe_def failureResult_def)
next
  case (Inr p)
  then show ?thesis
    using probe_verdict_status [of v p]
    by (simp add: executeHTTPProbe_def Let_def case_prod_beta failureResult_def split: option.split sum.split)
qed

lemma executeVerification_status:
  "fst (snd (executeVerification r ms g v ss vv)) \<in> {GoalVerificationPassed, GoalVerificationFailed}"
  using executePrimitiveCall_status [of r ms g v] executeHTTPProbe_status [of r ms v]
  by (simp add: executeVerification_def executeJSONAssert_def failureResult_def successResult_def Let_def case_prod_beta
      split: sum.split)

abbreviation verifs :: "'b goal_world \<Rightarrow> goal_verification list" where
  "verifs w \<equiv> gt_verifications (tables w)"

lemma UpdateGoalVerification_ok:
  assumes "UpdateGoalVerification env w k s verdict ev = (w', None)"
  shows "\<exists>now. verifs w' = update_rows gv_ID k
     (\<lambda>v. v\<lparr>gv_Status := s, gv_Verdict := verdict, gv_Evidence := raw_or_empty ev, gv_UpdatedAt := now\<rparr>) (verifs w)"
    and "k \<in> gv_ID ` set (verifs w)"
proof -
  let ?f = "\<lambda>t. Inr (t\<lparr>gt_verifications := update_rows gv_ID k
     (\<lambda>v. v\<lparr>gv_Status := s, gv_Verdict := verdict, gv_Evidence := raw_or_empty ev, gv_UpdatedAt := goal_now env w\<rparr>)
     (gt_verifications t)\<rparr>) :: go_error + goal_tables"
  obtain w1 e where wr: "goal_write env w ''update goal verification'' ?f id = (w1, e)" by fastforce
  from assms wr have e: "e = None" by (cases e) (simp_all add: UpdateGoalVerification_def Let_def)
  with wr have w1: "verifs w1 = gt_verifications (projr (?f (tables w)))"
    by (cases rule: goal_write_cases) auto
  obtain w2 r where g: "getGoalVerification env w1 k = (w2, r)" by fastforce
  have w2: "tables w2 = tables w1" using goal_read_tables(1) g unfolding getGoalVerification_def by (metis fst_conv)
  from assms wr e g obtain v where r: "r = Inr (Some v)" and w': "tables w' = tables w2"
    by (auto simp: UpdateGoalVerification_def Let_def split: option.splits sum.splits)
  from w1 w2 w' show "\<exists>now. verifs w' = update_rows gv_ID k
     (\<lambda>v. v\<lparr>gv_Status := s, gv_Verdict := verdict, gv_Evidence := raw_or_empty ev, gv_UpdatedAt := now\<rparr>) (verifs w)"
    by auto
  have "map_option scanGoalVerification (select_row gv_ID k (verifs w1)) = Some v"
    using goal_read_Inr g r unfolding getGoalVerification_def by (metis snd_conv)
  then have "k \<in> gv_ID ` set (verifs w1)" by (auto dest: select_row_Some)
  moreover have "map gv_ID (verifs w1) = map gv_ID (verifs w)"
    unfolding w1 by (simp add: update_rows_keys)
  ultimately show "k \<in> gv_ID ` set (verifs w)" by (metis list.set_map)
qed

lemma update_rows_set: "set (update_rows key k f rows) = (\<lambda>r. if key r = k then f r else r) ` set rows"
  by (auto simp: update_rows_def)

lemma UpdateGoalVerification_row:
  assumes "UpdateGoalVerification env w k s verdict ev = (w', None)" and "x \<in> set (verifs w')"
  shows "\<exists>x0 \<in> set (verifs w). gv_ID x = gv_ID x0 \<and> gv_GoalID x = gv_GoalID x0 \<and>
     gv_Status x = (if gv_ID x0 = k then s else gv_Status x0)"
proof -
  from UpdateGoalVerification_ok(1) [OF assms(1)] assms(2) obtain x0 now where "x0 \<in> set (verifs w)"
    "x = (if gv_ID x0 = k then x0\<lparr>gv_Status := s, gv_Verdict := verdict, gv_Evidence := raw_or_empty ev, gv_UpdatedAt := now\<rparr> else x0)"
    by (auto simp: update_rows_set image_iff)
  then show ?thesis by (intro bexI [of _ x0]) simp_all
qed

text \<open>One check, seen on the rows: the checked ones get the verdict, the others stay.\<close>

lemma check_rows:
  assumes "UpdateGoalVerification env w k s1 verdict1 ev1 = (w1, None)"
    and "UpdateGoalVerification env w1 k s verdict ev = (w2, None)"
    and "x \<in> set (verifs w2)"
  shows "\<exists>x0 \<in> set (verifs w). gv_ID x = gv_ID x0 \<and> gv_GoalID x = gv_GoalID x0 \<and>
     gv_Status x = (if gv_ID x0 = k then s else gv_Status x0)"
proof -
  from UpdateGoalVerification_row [OF assms(2,3)] obtain x1 where x1: "x1 \<in> set (verifs w1)" "gv_ID x = gv_ID x1"
    "gv_GoalID x = gv_GoalID x1" "gv_Status x = (if gv_ID x1 = k then s else gv_Status x1)" by blast
  from UpdateGoalVerification_row [OF assms(1) x1(1)] x1 show ?thesis by auto
qed

lemma run_verifications_step:
  assumes "run_verifications r g sb vb st (v # vs) = (st', Inr failed)" and "gv_Status v \<noteq> GoalVerificationPassed"
  obtains w1 ms status verdict evidence w2
  where "UpdateGoalVerification (vr_env r) (cs_goal st) (gv_ID v) GoalVerificationRunning [] (gv_Evidence v) = (w1, None)"
    "executeVerification r (cs_mgr st) g v sb vb = (ms, status, verdict, evidence)"
    "UpdateGoalVerification (vr_env r) w1 (gv_ID v) status verdict evidence = (w2, None)"
    "if status = GoalVerificationFailed then st' = st\<lparr>cs_goal := w2, cs_mgr := ms\<rparr> \<and> failed
     else run_verifications r g sb (vb(gv_ID v \<mapsto> v\<lparr>gv_Status := status, gv_Verdict := verdict, gv_Evidence := evidence\<rparr>))
            (st\<lparr>cs_goal := w2, cs_mgr := ms\<rparr>) vs = (st', Inr failed)"
proof -
  obtain w1 e1 where u1: "UpdateGoalVerification (vr_env r) (cs_goal st) (gv_ID v) GoalVerificationRunning [] (gv_Evidence v) = (w1, e1)"
    by fastforce
  obtain ms status verdict evidence where ex: "executeVerification r (cs_mgr st) g v sb vb = (ms, status, verdict, evidence)"
    by (metis prod_cases4)
  obtain w2 e2 where u2: "UpdateGoalVerification (vr_env r) w1 (gv_ID v) status verdict evidence = (w2, e2)" by fastforce
  from assms u1 have e1: "e1 = None" by (cases e1) simp_all
  with assms u1 ex u2 have e2: "e2 = None" by (cases e2) simp_all
  show ?thesis
    using assms u1 ex u2 e1 e2
    by (intro that [OF u1 [unfolded e1] ex u2 [unfolded e2]]) (auto simp: Let_def split: if_splits)
qed

lemma run_verifications_passed:
  assumes "run_verifications r g sb vb st vs = (st', Inr False)" and "x \<in> set (verifs (cs_goal st'))"
  shows "\<exists>x0 \<in> set (verifs (cs_goal st)). gv_ID x = gv_ID x0 \<and> gv_GoalID x = gv_GoalID x0 \<and>
     gv_Status x = (if \<exists>v \<in> set vs. gv_ID v = gv_ID x0 \<and> gv_Status v \<noteq> GoalVerificationPassed
                    then GoalVerificationPassed else gv_Status x0)"
  using assms
proof (induction vs arbitrary: vb st)
  case Nil
  then show ?case by auto
next
  case (Cons v vs)
  show ?case
  proof (cases "gv_Status v = GoalVerificationPassed")
    case True
    with Cons show ?thesis by fastforce
  next
    case False
    from Cons.prems(1) False show ?thesis
    proof (rule run_verifications_step)
      fix w1 ms status verdict evidence w2
      assume u: "UpdateGoalVerification (vr_env r) (cs_goal st) (gv_ID v) GoalVerificationRunning [] (gv_Evidence v) = (w1, None)"
          "UpdateGoalVerification (vr_env r) w1 (gv_ID v) status verdict evidence = (w2, None)"
        and ex: "executeVerification r (cs_mgr st) g v sb vb = (ms, status, verdict, evidence)"
        and k: "if status = GoalVerificationFailed then st' = st\<lparr>cs_goal := w2, cs_mgr := ms\<rparr> \<and> False
          else run_verifications r g sb (vb(gv_ID v \<mapsto> v\<lparr>gv_Status := status, gv_Verdict := verdict, gv_Evidence := evidence\<rparr>))
            (st\<lparr>cs_goal := w2, cs_mgr := ms\<rparr>) vs = (st', Inr False)"
      from k executeVerification_status [of r "cs_mgr st" g v sb vb] ex have s: "status = GoalVerificationPassed"
        by (auto split: if_splits)
      with k have "run_verifications r g sb (vb(gv_ID v \<mapsto> v\<lparr>gv_Status := status, gv_Verdict := verdict, gv_Evidence := evidence\<rparr>))
            (st\<lparr>cs_goal := w2, cs_mgr := ms\<rparr>) vs = (st', Inr False)" by simp
      from Cons.IH [OF this Cons.prems(2)] obtain x1 where x1: "x1 \<in> set (verifs w2)" "gv_ID x = gv_ID x1" "gv_GoalID x = gv_GoalID x1"
        "gv_Status x = (if \<exists>v \<in> set vs. gv_ID v = gv_ID x1 \<and> gv_Status v \<noteq> GoalVerificationPassed
                    then GoalVerificationPassed else gv_Status x1)" by auto
      from check_rows [OF u x1(1)] obtain x0 where "x0 \<in> set (verifs (cs_goal st))" "gv_ID x1 = gv_ID x0"
        "gv_GoalID x1 = gv_GoalID x0" "gv_Status x1 = (if gv_ID x0 = gv_ID v then status else gv_Status x0)" by blast
      with x1 s False show ?thesis by (intro bexI [of _ x0]) auto
    qed
  qed
qed

lemma run_verifications_failed:
  assumes "run_verifications r g sb vb st vs = (st', Inr True)"
  shows "\<exists>v \<in> set vs. \<exists>x \<in> set (verifs (cs_goal st')). gv_ID x = gv_ID v \<and> gv_Status x = GoalVerificationFailed"
  using assms
proof (induction vs arbitrary: vb st)
  case Nil
  then show ?case by simp
next
  case (Cons v vs)
  show ?case
  proof (cases "gv_Status v = GoalVerificationPassed")
    case True
    with Cons show ?thesis by fastforce
  next
    case False
    from Cons.prems(1) False show ?thesis
    proof (rule run_verifications_step)
      fix w1 ms status verdict evidence w2
      assume u: "UpdateGoalVerification (vr_env r) w1 (gv_ID v) status verdict evidence = (w2, None)"
        and k: "if status = GoalVerificationFailed then st' = st\<lparr>cs_goal := w2, cs_mgr := ms\<rparr> \<and> True
          else run_verifications r g sb (vb(gv_ID v \<mapsto> v\<lparr>gv_Status := status, gv_Verdict := verdict, gv_Evidence := evidence\<rparr>))
            (st\<lparr>cs_goal := w2, cs_mgr := ms\<rparr>) vs = (st', Inr True)"
      show ?thesis
      proof (cases "status = GoalVerificationFailed")
        case True
        from UpdateGoalVerification_ok [OF u] obtain x now where "x \<in> set (verifs w1)" "gv_ID x = gv_ID v"
          "verifs w2 = update_rows gv_ID (gv_ID v) (\<lambda>v. v\<lparr>gv_Status := status, gv_Verdict := verdict,
             gv_Evidence := raw_or_empty evidence, gv_UpdatedAt := now\<rparr>) (verifs w1)" by auto
        then have "x\<lparr>gv_Status := status, gv_Verdict := verdict, gv_Evidence := raw_or_empty evidence, gv_UpdatedAt := now\<rparr>
            \<in> set (verifs w2)" by (simp add: update_rows_set)
        with True k \<open>gv_ID x = gv_ID v\<close> show ?thesis by (intro bexI [of _ v] bexI) simp_all
      next
        case False
        with k Cons.IH show ?thesis by fastforce
      qed
    qed
  qed
qed

lemma runner_Run_listed:
  assumes "runner_Run r st goalID = (st', Inr res)"
  shows "\<exists>goal steps vs w3. tables w3 = tables (cs_goal st) \<and>
    vs = map scanGoalVerification (sort_key gv_CreatedAt (filter (\<lambda>v. gv_GoalID v = goalID) (verifs (cs_goal st)))) \<and>
    run_verifications r goal (by_id gp_ID steps) (by_id gv_ID vs) (st\<lparr>cs_goal := w3\<rparr>) vs = (st', Inr (rr_Failed res))"
proof -
  obtain w1 g where g: "GetGoal (vr_env r) (cs_goal st) goalID = (w1, g)" by fastforce
  obtain w2 ss where s: "ListGoalSteps (vr_env r) w1 goalID = (w2, ss)" by fastforce
  obtain w3 vv where v: "ListGoalVerifications (vr_env r) w2 goalID = (w3, vv)" by fastforce
  have t: "tables w1 = tables (cs_goal st)" "tables w2 = tables w1" "tables w3 = tables w2"
    using g s v goal_read_tables(1) unfolding GetGoal_def ListGoalSteps_def ListGoalVerifications_def by (metis fst_conv)+
  from assms g s v obtain goal steps where gs: "g = Inr (Some goal)" "ss = Inr steps"
    by (auto simp: runner_Run_def Let_def split: sum.splits option.splits)
  from assms g s v gs obtain vs where vs: "vv = Inr vs"
    by (auto simp: runner_Run_def Let_def split: sum.splits)
  obtain st1 f where run: "run_verifications r goal (by_id gp_ID steps) (by_id gv_ID vs) (st\<lparr>cs_goal := w3\<rparr>) vs = (st1, f)"
    by fastforce
  from assms g s v gs vs run have "st1 = st'" "f = Inr (rr_Failed res)"
    by (auto simp: runner_Run_def Let_def map_sum_def split: sum.splits)
  moreover have "vs = map scanGoalVerification (sort_key gv_CreatedAt (filter (\<lambda>v. gv_GoalID v = goalID) (verifs w2)))"
    using goal_read_Inr v vs unfolding ListGoalVerifications_def by (metis snd_conv)
  ultimately show ?thesis using run t by auto
qed

lemma runner_Run_passed:
  assumes "runner_Run r st goalID = (st', Inr res)" and "\<not> rr_Failed res"
    and "x \<in> set (verifs (cs_goal st'))" and "gv_GoalID x = goalID"
  shows "gv_Status x = GoalVerificationPassed"
proof -
  from runner_Run_listed [OF assms(1)] obtain goal steps vs w3 where
    t: "tables w3 = tables (cs_goal st)"
    and vs: "vs = map scanGoalVerification (sort_key gv_CreatedAt (filter (\<lambda>v. gv_GoalID v = goalID) (verifs (cs_goal st))))"
    and run: "run_verifications r goal (by_id gp_ID steps) (by_id gv_ID vs) (st\<lparr>cs_goal := w3\<rparr>) vs = (st', Inr False)"
    using assms(2) by auto
  from run_verifications_passed [OF run assms(3)] t obtain x0 where
    x0: "x0 \<in> set (verifs (cs_goal st))" "gv_GoalID x = gv_GoalID x0"
    "gv_Status x = (if \<exists>v \<in> set vs. gv_ID v = gv_ID x0 \<and> gv_Status v \<noteq> GoalVerificationPassed
                    then GoalVerificationPassed else gv_Status x0)" by auto
  from x0(1,2) assms(4) have "scanGoalVerification x0 \<in> set vs" by (simp add: vs)
  then have "gv_Status x0 \<noteq> GoalVerificationPassed \<Longrightarrow>
      \<exists>v \<in> set vs. gv_ID v = gv_ID x0 \<and> gv_Status v \<noteq> GoalVerificationPassed"
    by (intro bexI [of _ "scanGoalVerification x0"]) (simp_all add: scanGoalVerification_def)
  with x0(3) show ?thesis by (auto split: if_splits)
qed

section \<open>Paths\<close>

lemma replace_char_append: "replace_char c new (a @ b) = replace_char c new a @ replace_char c new b"
  by (simp add: replace_char_def)

lemma split_on_sep: "split_on c (a @ c # b) = split_on c a @ split_on c b"
  by (induction a) (auto split: list.splits)

lemma splitPath_dot: "splitPath (p @ ''.'' @ q) = splitPath p @ splitPath q"
  by (simp add: splitPath_def replace_char_append split_on_sep) (simp add: replace_char_def split_on_sep)

lemma splitPath_bracket: "splitPath (p @ ''['' @ q @ '']'') = splitPath (p @ ''.'' @ q)"
  by (simp add: splitPath_def replace_char_append) (simp add: replace_char_def)

lemma path_walk_append: "path_walk j (ts @ us) = Option.bind (path_walk j ts) (\<lambda>v. path_walk v us)"
  by (induction ts arbitrary: j) (auto split: option.splits)

lemma lookup_walk: "lookupJSONPath j p = path_walk j (splitPath p)"
  by (auto simp: lookupJSONPath_def splitPath_def replace_char_def)

section \<open>Properties\<close>

definition demo_runner :: "(event list, memory_store, demo_world) runner" where
  "demo_runner = \<lparr>vr_env = demo_goal_env, vr_engine = demo_engine (\<lambda>_. None), vr_manager = None,
     vr_request = (\<lambda>_ _. None), vr_do = (\<lambda>w q. (w, Inr \<lparr>hr_StatusCode = 200, hr_Body = (''ok'', None)\<rparr>))\<rparr>"

definition demo_check :: "string \<Rightarrow> string \<Rightarrow> json \<Rightarrow> goal_verification" where
  "demo_check k kind params = \<lparr>gv_ID = k, gv_GoalID = ''g1'', gv_StepID = [], gv_Status = GoalVerificationPending,
     gv_Verdict = [], gv_Evidence = RawNil, gv_CheckType = kind, gv_CheckParams = Raw params, gv_CreatedAt = 0, gv_UpdatedAt = 0\<rparr>"

text \<open>A probe, then an assertion about the evidence of the probe.\<close>

definition demo_goal_state :: "(event list, memory_store, demo_world) goal_state" where
  "demo_goal_state = \<lparr>cs_goal = goal_run demo_goal_env [GCreate demo_goal,
       GVerification (demo_check ''v1'' ''http_probe'' (JObj [(''url'', JStr ''u'')])),
       GVerification (demo_check ''v2'' ''json_assert'' (JObj [(''source_verification_id'', JStr ''v1''),
         (''path'', JStr ''observed_status''), (''operator'', JStr ''gte''), (''expected'', JNum 200)]))] demo_goal_world,
     cs_mgr = \<lparr>ms_store = NewMemoryStore, ms_world = ([], []), ms_snapshots = []\<rparr>\<rparr>"

text \<open>
  Verification is sound. When a verification run ends without an error and without failure, every
  verification of the goal stands in the store as passed, whatever statements of the store had
  failed before and whatever the checks were; when it reports failure, some verification of the
  goal is recorded as failed.
\<close>

theorem verification_run_sound:
  assumes "runner_Run r st goalID = (st', Inr res)"
  shows "(\<not> rr_Failed res \<longrightarrow>
       (\<forall>v \<in> set (verifs (cs_goal st')). gv_GoalID v = goalID \<longrightarrow> gv_Status v = GoalVerificationPassed)) \<and>
     (rr_Failed res \<longrightarrow> (\<exists>v \<in> set (verifs (cs_goal st)). gv_GoalID v = goalID \<and>
       (\<exists>x \<in> set (verifs (cs_goal st')). gv_ID x = gv_ID v \<and> gv_Status x = GoalVerificationFailed)))"
proof -
  from runner_Run_listed [OF assms] obtain goal steps vs w3 where
    t: "tables w3 = tables (cs_goal st)"
    and vs: "vs = map scanGoalVerification (sort_key gv_CreatedAt (filter (\<lambda>v. gv_GoalID v = goalID) (verifs (cs_goal st))))"
    and run: "run_verifications r goal (by_id gp_ID steps) (by_id gv_ID vs) (st\<lparr>cs_goal := w3\<rparr>) vs = (st', Inr (rr_Failed res))"
    by blast
  show ?thesis
  proof (intro conjI impI ballI)
    fix x
    assume "\<not> rr_Failed res" "x \<in> set (verifs (cs_goal st'))" "gv_GoalID x = goalID"
    then show "gv_Status x = GoalVerificationPassed" by (rule runner_Run_passed [OF assms])
  next
    assume "rr_Failed res"
    with run run_verifications_failed obtain v x where "v \<in> set vs"
      "x \<in> set (verifs (cs_goal st'))" "gv_ID x = gv_ID v" "gv_Status x = GoalVerificationFailed" by fastforce
    moreover from \<open>v \<in> set vs\<close> obtain v0 where "v0 \<in> set (verifs (cs_goal st))" "gv_GoalID v0 = goalID" "gv_ID v = gv_ID v0"
      by (auto simp: vs scanGoalVerification_def)
    ultimately show "\<exists>v \<in> set (verifs (cs_goal st)). gv_GoalID v = goalID \<and>
       (\<exists>x \<in> set (verifs (cs_goal st')). gv_ID x = gv_ID v \<and> gv_Status x = GoalVerificationFailed)"
      by (intro bexI [of _ v0]) auto
  qed
qed

theorem verification_run_sound_witness:
  "\<exists>st' res. runner_Run demo_runner demo_goal_state ''g1'' = (st', Inr res) \<and> rr_Count res = 2 \<and>
     (\<forall>v \<in> set (verifs (cs_goal st')). gv_GoalID v = ''g1'' \<longrightarrow> gv_Status v = GoalVerificationPassed)"
proof -
  obtain st' x where run: "runner_Run demo_runner demo_goal_state ''g1'' = (st', x)" by fastforce
  have "(case snd (runner_Run demo_runner demo_goal_state ''g1'') of Inl e \<Rightarrow> False
         | Inr res \<Rightarrow> \<not> rr_Failed res \<and> rr_Count res = 2)" by code_simp
  with run obtain res where "x = Inr res" "\<not> rr_Failed res" "rr_Count res = 2" by (cases x) auto
  with verification_run_sound [OF run [unfolded \<open>x = Inr res\<close>]] run show ?thesis by blast
qed

text \<open>
  Paths of assertions compose: looking up a dotted path is looking up its first part and then the
  rest in what was found, and an index in brackets means the same as one after a dot.
\<close>

theorem json_path_lookup:
  "lookupJSONPath j (p @ ''.'' @ q) = Option.bind (lookupJSONPath j p) (\<lambda>v. lookupJSONPath v q) \<and>
   lookupJSONPath j (p @ ''['' @ q @ '']'') = lookupJSONPath j (p @ ''.'' @ q)"
  using splitPath_dot [of p q] splitPath_bracket [of p q] by (simp add: lookup_walk path_walk_append)

end
