(* ===== verification/GoalCoordinator.thy ===== *)
theory GoalCoordinator
  imports VerificationRunner
begin

text \<open>
  The goal coordinator, \<open>internal/goal/coordinator.go\<close>: it drives the steps of a goal through the
  task engine, stops at high-risk steps until a human has approved them, resumes paused goals,
  runs the verifications of a goal whose steps are finished, and replays goals from the store.

  The execution of one step is the field \<open>gc_exec\<close>; \<open>NewGoalCoordinator\<close> fills it with
  \<open>ExecuteStepViaCVR\<close> of its engine, with the empty sandbox id the code passes. The random
  suffix of review ids is the field \<open>gc_review_id\<close>, a function of the number of statements the
  store has run. Log lines are not modelled. A call of the coordinator returns an error or none,
  or panics: that is what dereferencing a nil result would do.
\<close>

type_synonym 'w step_exec =
  "'w \<Rightarrow> string \<Rightarrow> string \<Rightarrow> string \<Rightarrow> raw \<Rightarrow> 'w \<times> step_result option \<times> go_error option"

record ('b, 's, 'w) coordinator =
  gc_env :: "'b goal_env"
  gc_exec :: "'w step_exec"
  gc_runner :: "('b, 's, 'w) runner"
  gc_review_id :: "nat \<Rightarrow> string"

datatype call_end = Returns "go_error option" | Panics

definition NewGoalCoordinator ::
  "'b goal_env \<Rightarrow> 'w engine \<Rightarrow> ('s, 'w) manager option \<Rightarrow> (string \<Rightarrow> string \<Rightarrow> go_error option)
   \<Rightarrow> ('w \<Rightarrow> http_request \<Rightarrow> 'w \<times> (go_error + http_response)) \<Rightarrow> (nat \<Rightarrow> string) \<Rightarrow> ('b, 's, 'w) coordinator" where
  "NewGoalCoordinator env e m req dohttp ids =
     \<lparr>gc_env = env, gc_exec = (\<lambda>w g s p i. ExecuteStepViaCVR e w g [] s p i),
      gc_runner = \<lparr>vr_env = env, vr_engine = e, vr_manager = m, vr_request = req, vr_do = dohttp\<rparr>,
      gc_review_id = (\<lambda>n. ''rev-'' @ ids n)\<rparr>"

section \<open>Steps\<close>

definition new_review :: "('b, 's, 'w) coordinator \<Rightarrow> 'b goal_world \<Rightarrow> string \<Rightarrow> goal_step \<Rightarrow> goal_review" where
  "new_review c w goalID s =
     \<lparr>gr_ID = gc_review_id c (db_stmts (gw_db w)), gr_GoalID = goalID, gr_StepID = gp_ID s, gr_Status = GoalReviewPending,
      gr_Primitive = gp_Primitive s, gr_RiskLevel = gp_RiskLevel s, gr_Reversible = gp_Reversible s, gr_SideEffect = [],
      gr_DecisionReason = [], gr_CreatedAt = 0, gr_UpdatedAt = 0\<rparr>"

text \<open>The three writes of a pause; their errors are only logged.\<close>

definition pause_at :: "('b, 's, 'w) coordinator \<Rightarrow> 'b goal_world \<Rightarrow> string \<Rightarrow> goal_step \<Rightarrow> 'b goal_world" where
  "pause_at c w goalID s =
     (let w1 = fst (CreateGoalReview (gc_env c) w (new_review c w goalID s));
          w2 = fst (UpdateGoalStepStatus (gc_env c) w1 (gp_ID s) GoalStepAwaitingReview RawNil)
      in fst (UpdateGoalStatus (gc_env c) w2 goalID GoalPaused))"

definition step_label :: "goal_step \<Rightarrow> string" where
  "step_label s = ''step '' @ gp_ID s @ '' ('' @ gp_Primitive s @ '')''"

fun executeSteps ::
  "('b, 's, 'w) coordinator \<Rightarrow> string \<Rightarrow> string set \<Rightarrow> ('b, 's, 'w) goal_state \<Rightarrow> goal_step list
   \<Rightarrow> ('b, 's, 'w) goal_state \<times> call_end" where
  "executeSteps c goalID approved st [] = (st, Returns None)"
| "executeSteps c goalID approved st (s # ss) =
     (if gp_Status s \<in> {GoalStepPassed, GoalStepSkipped, GoalStepRolledBack} then executeSteps c goalID approved st ss
      else if gp_Status s = GoalStepFailed then (st, Returns (Some (GoErr (step_label s @ '' already failed''))))
      else if gp_RiskLevel s = ''high'' \<and> gp_ID s \<notin> approved then
        (st\<lparr>cs_goal := pause_at c (cs_goal st) goalID s\<rparr>, Returns (Some ErrGoalPaused))
      else
        (let w1 = fst (UpdateGoalStepStatus (gc_env c) (cs_goal st) (gp_ID s) GoalStepRunning RawNil);
             (v, result, err) = gc_exec c (cs_world st) goalID (gp_ID s) (gp_Primitive s) (gp_Input s);
             st1 = set_world v st;
             finish = (\<lambda>status out. st1\<lparr>cs_goal := fst (UpdateGoalStepStatus (gc_env c) w1 (gp_ID s) status out)\<rparr>)
         in case err of
              Some e \<Rightarrow> (finish GoalStepFailed (resultData result), Returns (Some (GoWrap (step_label s) e)))
            | None \<Rightarrow>
                (case result of
                   None \<Rightarrow> (st1\<lparr>cs_goal := w1\<rparr>, Panics)
                 | Some x \<Rightarrow>
                     (if \<not> sr_Success x
                      then (finish GoalStepFailed (sr_Data x), Returns (Some (GoErr (step_label s @ '' failed''))))
                      else executeSteps c goalID approved (finish GoalStepPassed (sr_Data x)) ss))))"

section \<open>Goals\<close>

definition coord_status ::
  "('b, 's, 'w) coordinator \<Rightarrow> ('b, 's, 'w) goal_state \<Rightarrow> string \<Rightarrow> goal_status
   \<Rightarrow> ('b, 's, 'w) goal_state \<times> go_error option" where
  "coord_status c st goalID s =
     (let (w, e) = UpdateGoalStatus (gc_env c) (cs_goal st) goalID s in (st\<lparr>cs_goal := w\<rparr>, e))"

definition set_completed ::
  "('b, 's, 'w) coordinator \<Rightarrow> ('b, 's, 'w) goal_state \<Rightarrow> string \<Rightarrow> ('b, 's, 'w) goal_state \<times> call_end" where
  "set_completed c st goalID =
     (let (st1, e) = coord_status c st goalID GoalCompleted
      in (st1, Returns (map_option (GoWrap ''set goal completed'') e)))"

definition finalizeAfterExecution ::
  "('b, 's, 'w) coordinator \<Rightarrow> ('b, 's, 'w) goal_state \<Rightarrow> string \<Rightarrow> ('b, 's, 'w) goal_state \<times> call_end" where
  "finalizeAfterExecution c st goalID =
     (let (w1, r) = ListGoalVerifications (gc_env c) (cs_goal st) goalID;
          st1 = st\<lparr>cs_goal := w1\<rparr>
      in case r of
           Inl e \<Rightarrow> (st1, Returns (Some (GoWrap ''list verifications'' e)))
         | Inr vs \<Rightarrow>
             (if vs = [] then set_completed c st1 goalID
              else
                (let (st2, e2) = coord_status c st1 goalID GoalVerifying
                 in case e2 of
                      Some e \<Rightarrow> (st2, Returns (Some (GoWrap ''set goal verifying'' e)))
                    | None \<Rightarrow>
                        (let (st3, run) = runner_Run (gc_runner c) st2 goalID
                         in case run of
                              Inl e \<Rightarrow> (fst (coord_status c st3 goalID GoalFailed), Returns (Some e))
                            | Inr res \<Rightarrow>
                                (if rr_Failed res then
                                   (let (st4, e4) = coord_status c st3 goalID GoalFailed
                                    in (st4, Returns (Some (case e4 of
                                          Some e \<Rightarrow> GoWrap ''set goal failed after verification'' e
                                        | None \<Rightarrow> GoErr (''goal '' @ goalID @ '' verification failed'')))))
                                 else set_completed c st3 goalID)))))"

text \<open>The common end of \<open>Execute\<close> and \<open>Resume\<close>: list the steps, run them, finish.\<close>

definition run_listed ::
  "('b, 's, 'w) coordinator \<Rightarrow> ('b, 's, 'w) goal_state \<Rightarrow> string \<Rightarrow> string set \<Rightarrow> ('b, 's, 'w) goal_state \<times> call_end" where
  "run_listed c st goalID approved =
     (let (w1, r) = ListGoalSteps (gc_env c) (cs_goal st) goalID;
          st1 = st\<lparr>cs_goal := w1\<rparr>
      in case r of
           Inl e \<Rightarrow> (st1, Returns (Some (GoWrap (''list steps for goal '' @ goalID) e)))
         | Inr steps \<Rightarrow>
             (let (st2, run) = executeSteps c goalID approved st1 steps
              in case run of
                   Panics \<Rightarrow> (st2, Panics)
                 | Returns err \<Rightarrow>
                     (if err_is err ErrGoalPaused then (st2, Returns None)
                      else case err of
                        Some e \<Rightarrow> (fst (coord_status c st2 goalID GoalFailed), Returns (Some e))
                      | None \<Rightarrow> finalizeAfterExecution c st2 goalID)))"

definition load_goal ::
  "('b, 's, 'w) coordinator \<Rightarrow> ('b, 's, 'w) goal_state \<Rightarrow> string \<Rightarrow> ('b, 's, 'w) goal_state \<times> (go_error + goal)" where
  "load_goal c st goalID =
     (let (w, r) = GetGoal (gc_env c) (cs_goal st) goalID
      in (st\<lparr>cs_goal := w\<rparr>,
          case r of
            Inl e \<Rightarrow> Inl (GoWrap (''get goal '' @ goalID) e)
          | Inr None \<Rightarrow> Inl (GoErr (''goal '' @ goalID @ '' not found''))
          | Inr (Some g) \<Rightarrow> Inr g))"

definition coord_Execute ::
  "('b, 's, 'w) coordinator \<Rightarrow> ('b, 's, 'w) goal_state \<Rightarrow> string \<Rightarrow> ('b, 's, 'w) goal_state \<times> call_end" where
  "coord_Execute c st goalID =
     (let (st1, r) = load_goal c st goalID
      in case r of
           Inl e \<Rightarrow> (st1, Returns (Some e))
         | Inr g \<Rightarrow>
             (if gl_Status g = GoalExecuting then (st1, Returns (Some (GoErr (''goal '' @ goalID @ '' is already executing''))))
              else if gl_Status g = GoalCompleted then (st1, Returns (Some (GoErr (''goal '' @ goalID @ '' is already completed''))))
              else
                (let (st2, e) = coord_status c st1 goalID GoalExecuting
                 in case e of
                      Some er \<Rightarrow> (st2, Returns (Some (GoWrap ''set goal executing'' er)))
                    | None \<Rightarrow> run_listed c st2 goalID {})))"

text \<open>The loop over the reviews stops at the first pending one.\<close>

definition approved_steps :: "goal_review list \<Rightarrow> string set option" where
  "approved_steps rs =
     (if list_ex (\<lambda>r. gr_Status r = GoalReviewPending) rs then None
      else Some (gr_StepID ` set (filter (\<lambda>r. gr_Status r = GoalReviewApproved) rs)))"

definition coord_Resume ::
  "('b, 's, 'w) coordinator \<Rightarrow> ('b, 's, 'w) goal_state \<Rightarrow> string \<Rightarrow> ('b, 's, 'w) goal_state \<times> call_end" where
  "coord_Resume c st goalID =
     (let (st1, r) = load_goal c st goalID
      in case r of
           Inl e \<Rightarrow> (st1, Returns (Some e))
         | Inr g \<Rightarrow>
             (if gl_Status g \<noteq> GoalPaused
              then (st1, Returns (Some (GoErr (''goal '' @ goalID @ '' is not paused (status: '' @
                      goal_status_string (gl_Status g) @ '')''))))
              else
                (let (w2, rr) = ListGoalReviews (gc_env c) (cs_goal st1) goalID;
                     st2 = st1\<lparr>cs_goal := w2\<rparr>
                 in case rr of
                      Inl e \<Rightarrow> (st2, Returns (Some (GoWrap (''list reviews for goal '' @ goalID) e)))
                    | Inr rs \<Rightarrow>
                        (case approved_steps rs of
                           None \<Rightarrow> (st2, Returns (Some (GoErr (''goal '' @ goalID @ '' has a pending review''))))
                         | Some approved \<Rightarrow>
                             (let (st3, e) = coord_status c st2 goalID GoalExecuting
                              in case e of
                                   Some er \<Rightarrow> (st3, Returns (Some (GoWrap ''set goal executing'' er)))
                                 | None \<Rightarrow>
                                     run_listed c
                                       (st3\<lparr>cs_goal := publishGoalEvent (gc_env c) ''goal.resumed'' goalID
                                              (JObj [(''goal_id'', JStr goalID)]) (cs_goal st3)\<rparr>) goalID approved)))))"

section \<open>Replay\<close>

fun orchestratorStepStatusToGoal :: "step_status \<Rightarrow> goal_step_status" where
  "orchestratorStepStatusToGoal StepPassed = GoalStepPassed"
| "orchestratorStepStatusToGoal StepFailed = GoalStepFailed"
| "orchestratorStepStatusToGoal StepSkipped = GoalStepSkipped"
| "orchestratorStepStatusToGoal StepRolledBack = GoalStepRolledBack"
| "orchestratorStepStatusToGoal StepRunning = GoalStepRunning"
| "orchestratorStepStatusToGoal StepPending = GoalStepPending"

fun goalStepStatusToOrchestrator :: "goal_step_status \<Rightarrow> step_status" where
  "goalStepStatusToOrchestrator GoalStepPassed = StepPassed"
| "goalStepStatusToOrchestrator GoalStepFailed = StepFailed"
| "goalStepStatusToOrchestrator GoalStepSkipped = StepSkipped"
| "goalStepStatusToOrchestrator GoalStepRolledBack = StepRolledBack"
| "goalStepStatusToOrchestrator GoalStepRunning = StepRunning"
| "goalStepStatusToOrchestrator _ = StepPending"

record goal_replay_entry =
  ge_Seq :: int
  ge_StepID :: string
  ge_Primitive :: string
  ge_Input :: raw
  ge_Output :: raw
  ge_Status :: string
  ge_CheckpointID :: string
  ge_Skipped :: bool

record goal_replay =
  gy_GoalID :: string
  gy_Mode :: string
  gy_Entries :: "goal_replay_entry list"

fun replay_mode_string :: "replay_mode \<Rightarrow> string" where
  "replay_mode_string ReplayStepByStep = ''step_by_step''"
| "replay_mode_string ReplaySkipPassed = ''skip_passed''"
| "replay_mode_string ReplayFull = ''full''"
| "replay_mode_string (ReplayOther s) = s"

definition replay_step :: "goal_step \<Rightarrow> step" where
  "replay_step s = (new_step (gp_ID s) (gp_Primitive s) (gp_Input s))
     \<lparr>st_CheckpointID := gp_CheckpointID s, st_Status := goalStepStatusToOrchestrator (gp_Status s),
      st_Result := (if raw_len0 (gp_Output s) then None
                    else Some \<lparr>sr_Success = (gp_Status s = GoalStepPassed), sr_Data = gp_Output s, sr_Error = None,
                               sr_Duration = 0\<rparr>)\<rparr>"

definition goal_entry :: "goal_step list \<Rightarrow> replay_entry \<Rightarrow> goal_replay_entry" where
  "goal_entry steps e =
     \<lparr>ge_Seq = re_StepIndex e,
      ge_StepID = (if 0 < re_StepIndex e \<and> re_StepIndex e \<le> int (length steps)
                   then gp_ID (steps ! nat (re_StepIndex e - 1)) else []),
      ge_Primitive = re_Primitive e, ge_Input = re_Input e, ge_Output = re_Output e, ge_Status = re_Status e,
      ge_CheckpointID = re_CheckpointID e, ge_Skipped = re_Skipped e\<rparr>"

definition coord_Replay ::
  "('b, 's, 'w) coordinator \<Rightarrow> ('b, 's, 'w) goal_state \<Rightarrow> string \<Rightarrow> replay_mode
   \<Rightarrow> ('b, 's, 'w) goal_state \<times> (go_error + goal_replay)" where
  "coord_Replay c st goalID mode =
     (let (st1, r) = load_goal c st goalID
      in case r of
           Inl e \<Rightarrow> (st1, Inl e)
         | Inr g \<Rightarrow>
             (let (w2, ss) = ListGoalSteps (gc_env c) (cs_goal st1) goalID;
                  st2 = st1\<lparr>cs_goal := w2\<rparr>
              in case ss of
                   Inl e \<Rightarrow> (st2, Inl (GoWrap (''list steps for goal '' @ goalID) e))
                 | Inr steps \<Rightarrow>
                     (let t = zero_task\<lparr>tk_ID := gl_ID g, tk_Description := gl_Description g,
                                tk_Status := TaskOther (goal_status_string (gl_Status g)), tk_Steps := map replay_step steps\<rparr>
                      in (st2, Inr \<lparr>gy_GoalID = goalID, gy_Mode = replay_mode_string mode,
                                    gy_Entries = map (goal_entry steps) (Replay (Some t) mode)\<rparr>))))"

section \<open>The review gate\<close>

lemma exec_irrelevant [simp]:
  "pause_at (c\<lparr>gc_exec := x\<rparr>) = pause_at c" "coord_status (c\<lparr>gc_exec := x\<rparr>) = coord_status c"
  "load_goal (c\<lparr>gc_exec := x\<rparr>) = load_goal c"
  by (intro ext, simp add: pause_at_def new_review_def coord_status_def load_goal_def)+

lemma set_completed_exec [simp]: "set_completed (c\<lparr>gc_exec := x\<rparr>) = set_completed c"
  by (intro ext) (simp add: set_completed_def)

lemma finalize_exec [simp]: "finalizeAfterExecution (c\<lparr>gc_exec := x\<rparr>) = finalizeAfterExecution c"
proof -
  have "gc_env (c\<lparr>gc_exec := x\<rparr>) = gc_env c" "gc_runner (c\<lparr>gc_exec := x\<rparr>) = gc_runner c" by simp_all
  then show ?thesis by (intro ext) (simp only: finalizeAfterExecution_def exec_irrelevant set_completed_exec)
qed

text \<open>The steps a coordinator may run, given the approved ones.\<close>

definition may_run :: "string set \<Rightarrow> goal_step \<Rightarrow> bool" where
  "may_run approved s \<longleftrightarrow> gp_RiskLevel s \<noteq> ''high'' \<or> gp_ID s \<in> approved"

lemma executeSteps_gate:
  assumes "\<And>w s. s \<in> set ss \<Longrightarrow> may_run approved s \<Longrightarrow>
      x w goalID (gp_ID s) (gp_Primitive s) (gp_Input s) = y w goalID (gp_ID s) (gp_Primitive s) (gp_Input s)"
  shows "executeSteps (c\<lparr>gc_exec := x\<rparr>) goalID approved st ss = executeSteps (c\<lparr>gc_exec := y\<rparr>) goalID approved st ss"
  using assms
proof (induction ss arbitrary: st)
  case Nil
  then show ?case by simp
next
  case (Cons s ss)
  then have IH: "executeSteps (c\<lparr>gc_exec := x\<rparr>) goalID approved st ss = executeSteps (c\<lparr>gc_exec := y\<rparr>) goalID approved st ss" for st
    by simp
  show ?case
  proof (cases "may_run approved s")
    case True
    with Cons.prems have "x w goalID (gp_ID s) (gp_Primitive s) (gp_Input s) = y w goalID (gp_ID s) (gp_Primitive s) (gp_Input s)" for w
      by simp
    moreover obtain v r err where "y (cs_world st) goalID (gp_ID s) (gp_Primitive s) (gp_Input s) = (v, r, err)"
      by (metis prod_cases3)
    ultimately show ?thesis by (simp add: IH Let_def split: option.split)
  next
    case False
    then have "gp_RiskLevel s = ''high'' \<and> gp_ID s \<notin> approved" by (simp add: may_run_def)
    then show ?thesis by (simp add: IH)
  qed
qed

lemma ListGoalSteps_cases:
  assumes "ListGoalSteps env w k = (w', r)"
  shows "tables w' = tables w" "gw_bus w' = gw_bus w"
    and "r = Inr ss \<Longrightarrow> ss = map scanGoalStep (sort_key gp_Seq (filter (\<lambda>s. gp_GoalID s = k) (gt_steps (tables w))))"
  using assms goal_read_tables goal_read_Inr unfolding ListGoalSteps_def by (metis fst_conv, metis fst_conv, metis snd_conv)

lemma ListGoalReviews_cases:
  assumes "ListGoalReviews env w k = (w', r)"
  shows "tables w' = tables w" "gw_bus w' = gw_bus w"
    and "r = Inr rs \<Longrightarrow> rs = sort_key gr_CreatedAt (filter (\<lambda>r. gr_GoalID r = k) (gt_reviews (tables w)))"
  using assms goal_read_tables goal_read_Inr unfolding ListGoalReviews_def by (metis fst_conv, metis fst_conv, metis snd_conv)

lemma ListGoalVerifications_cases:
  assumes "ListGoalVerifications env w k = (w', r)"
  shows "tables w' = tables w"
    and "r = Inr vs \<Longrightarrow> vs = map scanGoalVerification (sort_key gv_CreatedAt (filter (\<lambda>v. gv_GoalID v = k) (verifs w)))"
  using assms goal_read_tables goal_read_Inr unfolding ListGoalVerifications_def by (metis fst_conv, metis snd_conv)

lemma load_goal_cases:
  assumes "load_goal c st k = (st', r)"
  shows "tables (cs_goal st') = tables (cs_goal st)" "gw_bus (cs_goal st') = gw_bus (cs_goal st)" "cs_mgr st' = cs_mgr st"
    and "r = Inr g \<Longrightarrow> select_row gl_ID k (gt_goals (tables (cs_goal st))) = Some g"
proof -
  obtain w q where g: "GetGoal (gc_env c) (cs_goal st) k = (w, q)" by fastforce
  have w: "tables w = tables (cs_goal st)" "gw_bus w = gw_bus (cs_goal st)"
    using g goal_read_tables unfolding GetGoal_def by (metis fst_conv)+
  with assms g show "tables (cs_goal st') = tables (cs_goal st)" "gw_bus (cs_goal st') = gw_bus (cs_goal st)"
    "cs_mgr st' = cs_mgr st" by (auto simp: load_goal_def)
  assume "r = Inr g"
  with assms g have "q = Inr (Some g)" by (auto simp: load_goal_def split: sum.splits option.splits)
  then show "select_row gl_ID k (gt_goals (tables (cs_goal st))) = Some g"
    using g goal_read_Inr unfolding GetGoal_def by (metis snd_conv)
qed

lemma scanGoalStep_fields [simp]:
  "gp_ID (scanGoalStep s) = gp_ID s" "gp_GoalID (scanGoalStep s) = gp_GoalID s" "gp_RiskLevel (scanGoalStep s) = gp_RiskLevel s"
  "gp_Primitive (scanGoalStep s) = gp_Primitive s" "gp_Input (scanGoalStep s) = gp_Input s" "gp_Status (scanGoalStep s) = gp_Status s"
  by (simp_all add: scanGoalStep_def)

lemma run_listed_gate:
  assumes "\<And>w s. s \<in> set (gt_steps (tables (cs_goal st))) \<Longrightarrow> gp_GoalID s = goalID \<Longrightarrow> may_run approved s \<Longrightarrow>
      x w goalID (gp_ID s) (gp_Primitive s) (gp_Input s) = y w goalID (gp_ID s) (gp_Primitive s) (gp_Input s)"
  shows "run_listed (c\<lparr>gc_exec := x\<rparr>) st goalID approved = run_listed (c\<lparr>gc_exec := y\<rparr>) st goalID approved"
proof -
  obtain w1 r where l: "ListGoalSteps (gc_env c) (cs_goal st) goalID = (w1, r)" by fastforce
  have "executeSteps (c\<lparr>gc_exec := x\<rparr>) goalID approved (st\<lparr>cs_goal := w1\<rparr>) ss =
        executeSteps (c\<lparr>gc_exec := y\<rparr>) goalID approved (st\<lparr>cs_goal := w1\<rparr>) ss" if rs: "r = Inr ss" for ss
  proof (rule executeSteps_gate)
    fix w s
    assume s: "s \<in> set ss" "may_run approved s"
    from s(1) obtain s0 where "s0 \<in> set (gt_steps (tables (cs_goal st)))" "gp_GoalID s0 = goalID" "s = scanGoalStep s0"
      unfolding ListGoalSteps_cases(3) [OF l rs] by auto
    with assms [of s0 w] s(2) show "x w goalID (gp_ID s) (gp_Primitive s) (gp_Input s) = y w goalID (gp_ID s) (gp_Primitive s) (gp_Input s)"
      by (simp add: may_run_def)
  qed
  note same = this
  show ?thesis
  proof (cases r)
    case (Inl e)
    with l show ?thesis by (simp add: run_listed_def)
  next
    case (Inr ss)
    obtain st2 run where "executeSteps (c\<lparr>gc_exec := y\<rparr>) goalID approved (st\<lparr>cs_goal := w1\<rparr>) ss = (st2, run)" by fastforce
    with l Inr same [OF Inr] show ?thesis by (cases run) (simp_all add: run_listed_def split: option.split)
  qed
qed

lemma coord_status_tables:
  assumes "coord_status c st k s = (st', e)"
  shows "cs_mgr st' = cs_mgr st" "gt_steps (tables (cs_goal st')) = gt_steps (tables (cs_goal st))"
    "verifs (cs_goal st') = verifs (cs_goal st)" "gt_reviews (tables (cs_goal st')) = gt_reviews (tables (cs_goal st))"
    "(e = None \<and> (\<exists>now. gt_goals (tables (cs_goal st')) =
        update_rows gl_ID k (\<lambda>g. g\<lparr>gl_Status := s, gl_UpdatedAt := now\<rparr>) (gt_goals (tables (cs_goal st))))) \<or>
     (e \<noteq> None \<and> tables (cs_goal st') = tables (cs_goal st))"
proof -
  obtain w err where u: "UpdateGoalStatus (gc_env c) (cs_goal st) k s = (w, err)" by fastforce
  with assms have st': "st' = st\<lparr>cs_goal := w\<rparr>" "e = err" by (simp_all add: coord_status_def)
  then show "cs_mgr st' = cs_mgr st" by simp
  from u [unfolded UpdateGoalStatus_def Let_def]
  have "gt_steps (tables w) = gt_steps (tables (cs_goal st)) \<and> verifs w = verifs (cs_goal st) \<and>
      gt_reviews (tables w) = gt_reviews (tables (cs_goal st)) \<and>
     ((err = None \<and> (\<exists>now. gt_goals (tables w) =
        update_rows gl_ID k (\<lambda>g. g\<lparr>gl_Status := s, gl_UpdatedAt := now\<rparr>) (gt_goals (tables (cs_goal st))))) \<or>
     (err \<noteq> None \<and> tables w = tables (cs_goal st)))"
    by (cases rule: goal_write_cases) auto
  with st' show "gt_steps (tables (cs_goal st')) = gt_steps (tables (cs_goal st))"
    "verifs (cs_goal st') = verifs (cs_goal st)" "gt_reviews (tables (cs_goal st')) = gt_reviews (tables (cs_goal st))"
    "(e = None \<and> (\<exists>now. gt_goals (tables (cs_goal st')) =
        update_rows gl_ID k (\<lambda>g. g\<lparr>gl_Status := s, gl_UpdatedAt := now\<rparr>) (gt_goals (tables (cs_goal st))))) \<or>
     (e \<noteq> None \<and> tables (cs_goal st') = tables (cs_goal st))" by simp_all
qed

lemma coord_status_refused:
  assumes "coord_status c st k s = (st', Some e)"
  shows "tables (cs_goal st') = tables (cs_goal st) \<and> gw_bus (cs_goal st') = gw_bus (cs_goal st) \<and> cs_mgr st' = cs_mgr st"
proof -
  obtain w err where u: "UpdateGoalStatus (gc_env c) (cs_goal st) k s = (w, err)" by fastforce
  with assms have st': "st' = st\<lparr>cs_goal := w\<rparr>" "err = Some e" by (simp_all add: coord_status_def)
  from u [unfolded UpdateGoalStatus_def Let_def] st'(2) have "tables w = tables (cs_goal st) \<and> gw_bus w = gw_bus (cs_goal st)"
    by (cases rule: goal_write_cases) auto
  with st' show ?thesis by simp
qed

lemma approved_steps_Some:
  "approved_steps rs = Some A \<longleftrightarrow> (\<forall>r \<in> set rs. gr_Status r \<noteq> GoalReviewPending) \<and>
     A = gr_StepID ` {r \<in> set rs. gr_Status r = GoalReviewApproved}"
  by (auto simp: approved_steps_def list_ex_iff)

section \<open>Executing without panics\<close>

lemma ExecuteStepViaCVR_cases:
  assumes "ExecuteStepViaCVR e w g sb s p i = (w', r, err)"
  obtains (ok) x where "r = Some x" "sr_Success x" "err = None" | (error) er where "err = Some er" "r = None"
proof -
  let ?t = "zero_task\<lparr>tk_ID := g, tk_SandboxID := sb, tk_Status := TaskExecuting, tk_MaxRetries := 1, tk_Steps := [new_step s p i]\<rparr>"
  obtain w1 s1 r1 e1 where ex: "executeStepWithRecovery e w ?t (new_step s p i) = (w1, s1, r1, e1)" by (metis prod_cases4)
  with assms have "r = r1" "err = e1" by (simp_all add: ExecuteStepViaCVR_def Let_def)
  with ex show ?thesis by (cases rule: executeStepWithRecovery_cases) (auto intro: that)
qed

lemma executeSteps_no_panic:
  assumes "\<And>w g s p i w'. gc_exec c w g s p i \<noteq> (w', None, None)"
  shows "snd (executeSteps c goalID approved st ss) \<noteq> Panics"
proof (induction ss arbitrary: st)
  case Nil
  then show ?case by simp
next
  case (Cons s ss)
  obtain v r err where "gc_exec c (cs_world st) goalID (gp_ID s) (gp_Primitive s) (gp_Input s) = (v, r, err)"
    by (metis prod_cases3)
  with assms Cons show ?case by (auto simp: Let_def split: option.splits)
qed

lemma finalize_no_panic: "snd (finalizeAfterExecution c st goalID) \<noteq> Panics"
  by (simp add: finalizeAfterExecution_def set_completed_def Let_def case_prod_beta split: sum.splits option.splits)

lemma run_listed_no_panic:
  assumes "\<And>w g s p i w'. gc_exec c w g s p i \<noteq> (w', None, None)"
  shows "snd (run_listed c st goalID approved) \<noteq> Panics"
proof -
  obtain w1 r where l: "ListGoalSteps (gc_env c) (cs_goal st) goalID = (w1, r)" by fastforce
  show ?thesis
  proof (cases r)
    case (Inl e)
    with l show ?thesis by (simp add: run_listed_def)
  next
    case (Inr ss)
    obtain st2 run where x: "executeSteps c goalID approved (st\<lparr>cs_goal := w1\<rparr>) ss = (st2, run)" by fastforce
    then have "run \<noteq> Panics" using executeSteps_no_panic [OF assms, of goalID approved "st\<lparr>cs_goal := w1\<rparr>" ss] by simp
    then show ?thesis using l Inr x finalize_no_panic [of c st2 goalID]
      by (cases run) (auto simp: run_listed_def split: option.splits)
  qed
qed

section \<open>Completion\<close>

text \<open>What a finished loop over the steps tells: each step was finished before, or ran and succeeded.\<close>

definition step_finished :: "goal_step \<Rightarrow> bool" where
  "step_finished s \<longleftrightarrow> gp_Status s \<in> {GoalStepPassed, GoalStepSkipped, GoalStepRolledBack}"

definition step_ran :: "('b, 's, 'w) coordinator \<Rightarrow> string \<Rightarrow> goal_step \<Rightarrow> bool" where
  "step_ran c goalID s \<longleftrightarrow>
     (\<exists>w w' x. gc_exec c w goalID (gp_ID s) (gp_Primitive s) (gp_Input s) = (w', Some x, None) \<and> sr_Success x)"

lemma executeSteps_step:
  assumes "executeSteps c goalID approved st (s # ss) = (st', Returns err)" and "\<not> step_finished s"
  obtains (failed) "gp_Status s = GoalStepFailed" "st' = st" "err = Some (GoErr (step_label s @ '' already failed''))"
  | (paused) "st' = st\<lparr>cs_goal := pause_at c (cs_goal st) goalID s\<rparr>" "err = Some ErrGoalPaused"
  | (bad) w1 v out where "st' = (set_world v st)\<lparr>cs_goal := fst (UpdateGoalStepStatus (gc_env c) w1 (gp_ID s) GoalStepFailed out)\<rparr>"
      "w1 = fst (UpdateGoalStepStatus (gc_env c) (cs_goal st) (gp_ID s) GoalStepRunning RawNil)" "err \<noteq> None"
  | (next_step) w1 v x where "may_run approved s"
      "gc_exec c (cs_world st) goalID (gp_ID s) (gp_Primitive s) (gp_Input s) = (v, Some x, None)" "sr_Success x"
      "w1 = fst (UpdateGoalStepStatus (gc_env c) (cs_goal st) (gp_ID s) GoalStepRunning RawNil)"
      "executeSteps c goalID approved
         ((set_world v st)\<lparr>cs_goal := fst (UpdateGoalStepStatus (gc_env c) w1 (gp_ID s) GoalStepPassed (sr_Data x))\<rparr>) ss = (st', Returns err)"
proof -
  consider (f) "gp_Status s = GoalStepFailed" | (p) "gp_Status s \<noteq> GoalStepFailed" "\<not> may_run approved s"
    | (r) "gp_Status s \<noteq> GoalStepFailed" "may_run approved s" by blast
  then show ?thesis
  proof cases
    case f
    with assms show ?thesis by (intro failed) (auto simp: step_finished_def)
  next
    case p
    with assms show ?thesis by (intro paused) (auto simp: step_finished_def may_run_def)
  next
    case r
    define w1 where "w1 = fst (UpdateGoalStepStatus (gc_env c) (cs_goal st) (gp_ID s) GoalStepRunning RawNil)"
    obtain v res er where ex: "gc_exec c (cs_world st) goalID (gp_ID s) (gp_Primitive s) (gp_Input s) = (v, res, er)"
      by (metis prod_cases3)
    show ?thesis
    proof (cases "er = None \<and> (\<exists>x. res = Some x \<and> sr_Success x)")
      case True
      then obtain x where "er = None" "res = Some x" "sr_Success x" by blast
      with assms r ex show ?thesis
        by (intro next_step [of v x w1]) (auto simp: step_finished_def may_run_def w1_def Let_def)
    next
      case False
      with assms r ex have "\<exists>out. st' = (set_world v st)\<lparr>cs_goal := fst (UpdateGoalStepStatus (gc_env c) w1 (gp_ID s) GoalStepFailed out)\<rparr>"
        "err \<noteq> None"
        by (auto simp: step_finished_def may_run_def w1_def Let_def split: option.splits if_splits)
      then show ?thesis using bad w1_def by blast
    qed
  qed
qed

lemma executeSteps_finished: "step_finished s \<Longrightarrow> executeSteps c goalID approved st (s # ss) = executeSteps c goalID approved st ss"
  by (simp add: step_finished_def)

lemma executeSteps_all_ran:
  assumes "executeSteps c goalID approved st ss = (st', Returns None)" and "s \<in> set ss"
  shows "step_finished s \<or> step_ran c goalID s"
  using assms
proof (induction ss arbitrary: st)
  case Nil
  then show ?case by simp
next
  case (Cons t ss)
  show ?case
  proof (cases "step_finished t")
    case True
    with Cons.prems(1) have "executeSteps c goalID approved st ss = (st', Returns None)" by (simp only: executeSteps_finished)
    with Cons.IH Cons.prems(2) True show ?thesis by auto
  next
    case False
    from Cons.prems(1) False show ?thesis
    proof (cases rule: executeSteps_step)
      case (next_step w1 v x)
      with Cons.IH [OF next_step(5)] Cons.prems(2) show ?thesis by (auto simp: step_ran_def)
    qed simp_all
  qed
qed

lemma UpdateGoalStepStatus_other:
  "gt_goals (tables (fst (UpdateGoalStepStatus env w k s out))) = gt_goals (tables w)"
  "verifs (fst (UpdateGoalStepStatus env w k s out)) = verifs w"
proof -
  obtain w' e where u: "UpdateGoalStepStatus env w k s out = (w', e)" by fastforce
  from u [unfolded UpdateGoalStepStatus_def Let_def]
  have "gt_goals (tables w') = gt_goals (tables w) \<and> verifs w' = verifs w" by (cases rule: goal_write_cases) auto
  with u show "gt_goals (tables (fst (UpdateGoalStepStatus env w k s out))) = gt_goals (tables w)"
    "verifs (fst (UpdateGoalStepStatus env w k s out)) = verifs w" by simp_all
qed

lemma CreateGoalReview_other: "gt_goals (tables (fst (CreateGoalReview env w r))) = gt_goals (tables w)"
proof -
  obtain w' e where u: "CreateGoalReview env w r = (w', e)" by fastforce
  from u [unfolded CreateGoalReview_def Let_def]
  have "gt_goals (tables w') = gt_goals (tables w)" by (cases rule: goal_write_cases) (auto elim!: map_sum_InrE)
  with u show ?thesis by simp
qed

text \<open>The status of a goal in the store.\<close>

definition goal_status_of :: "'b goal_world \<Rightarrow> string \<Rightarrow> goal_status option" where
  "goal_status_of w k = map_option gl_Status (select_row gl_ID k (gt_goals (tables w)))"

lemma UpdateGoalStatus_status:
  "goal_status_of (fst (UpdateGoalStatus env w k s)) k \<in> {goal_status_of w k, map_option (\<lambda>_. s) (goal_status_of w k)}"
proof -
  obtain w' e where u: "UpdateGoalStatus env w k s = (w', e)" by fastforce
  from u [unfolded UpdateGoalStatus_def Let_def]
  have "goal_status_of w' k \<in> {goal_status_of w k, map_option (\<lambda>_. s) (goal_status_of w k)}"
    by (cases rule: goal_write_cases) (auto simp: goal_status_of_def select_update option.map_comp comp_def)
  with u show ?thesis by simp
qed

lemma pause_at_status:
  "goal_status_of (pause_at c w goalID s) goalID \<in> {goal_status_of w goalID, map_option (\<lambda>_. GoalPaused) (goal_status_of w goalID)}"
proof -
  let ?w2 = "fst (UpdateGoalStepStatus (gc_env c) (fst (CreateGoalReview (gc_env c) w (new_review c w goalID s))) (gp_ID s)
     GoalStepAwaitingReview RawNil)"
  have "goal_status_of ?w2 goalID = goal_status_of w goalID"
    by (simp add: goal_status_of_def UpdateGoalStepStatus_other CreateGoalReview_other)
  with UpdateGoalStatus_status [of "gc_env c" ?w2 goalID GoalPaused] show ?thesis by (simp add: pause_at_def Let_def)
qed

lemma executeSteps_status:
  assumes "executeSteps c goalID approved st ss = (st', Returns err)" and "goal_status_of (cs_goal st) goalID \<noteq> Some GoalCompleted"
  shows "goal_status_of (cs_goal st') goalID \<noteq> Some GoalCompleted"
  using assms
proof (induction ss arbitrary: st)
  case Nil
  then show ?case by simp
next
  case (Cons s ss)
  show ?case
  proof (cases "step_finished s")
    case True
    with Cons.prems(1) have "executeSteps c goalID approved st ss = (st', Returns err)" by (simp only: executeSteps_finished)
    with Cons.IH Cons.prems(2) show ?thesis by blast
  next
    case False
    from Cons.prems(1) False show ?thesis
    proof (cases rule: executeSteps_step)
      case paused
      with Cons.prems(2) pause_at_status [of c "cs_goal st" goalID s] show ?thesis by auto
    next
      case (next_step w1 v x)
      have "goal_status_of (fst (UpdateGoalStepStatus (gc_env c) w1 (gp_ID s) GoalStepPassed (sr_Data x))) goalID =
          goal_status_of (cs_goal st) goalID"
        by (simp add: goal_status_of_def UpdateGoalStepStatus_other next_step(4))
      with Cons.prems(2) show ?thesis by (intro Cons.IH [OF next_step(5)]) simp
    next
      case failed
      with Cons.prems(2) show ?thesis by simp
    next
      case (bad w1 v out)
      have "goal_status_of (cs_goal st') goalID = goal_status_of (cs_goal st) goalID"
        by (simp add: goal_status_of_def UpdateGoalStepStatus_other bad(1,2))
      with Cons.prems(2) show ?thesis by simp
    qed
  qed
qed

lemma set_completed_verifs:
  assumes "set_completed c st goalID = (st', r)"
  shows "verifs (cs_goal st') = verifs (cs_goal st)"
proof -
  obtain st1 e where s: "coord_status c st goalID GoalCompleted = (st1, e)" by fastforce
  with assms have "st' = st1" by (simp add: set_completed_def)
  with coord_status_tables(3) [OF s] show ?thesis by simp
qed

lemma finalize_verified:
  assumes "finalizeAfterExecution c st goalID = (st', Returns None)"
    and "v \<in> set (verifs (cs_goal st'))" and "gv_GoalID v = goalID"
  shows "gv_Status v = GoalVerificationPassed"
proof -
  obtain w1 r where l: "ListGoalVerifications (gc_env c) (cs_goal st) goalID = (w1, r)" by fastforce
  from assms(1) l obtain vs where r: "r = Inr vs" by (cases r) (auto simp: finalizeAfterExecution_def)
  let ?st1 = "st\<lparr>cs_goal := w1\<rparr>"
  show ?thesis
  proof (cases "vs = []")
    case True
    with assms(1) l r have "set_completed c ?st1 goalID = (st', Returns None)" by (simp add: finalizeAfterExecution_def)
    then have "verifs (cs_goal st') = verifs w1" by (auto dest: set_completed_verifs)
    with ListGoalVerifications_cases [OF l] r True assms(2,3) have "v \<in> set (filter (\<lambda>v. gv_GoalID v = goalID) (verifs (cs_goal st)))"
      by simp
    also from ListGoalVerifications_cases(2) [OF l r] True have "sort_key gv_CreatedAt (filter (\<lambda>v. gv_GoalID v = goalID) (verifs (cs_goal st))) = []"
      by simp
    then have "filter (\<lambda>v. gv_GoalID v = goalID) (verifs (cs_goal st)) = []" by (metis set_empty set_sort)
    finally show ?thesis by simp
  next
    case False
    obtain st2 e2 where s2: "coord_status c ?st1 goalID GoalVerifying = (st2, e2)" by fastforce
    from assms(1) l r False s2 have e2: "e2 = None" by (cases e2) (auto simp: finalizeAfterExecution_def)
    obtain st3 run where run: "runner_Run (gc_runner c) st2 goalID = (st3, run)" by fastforce
    from assms(1) l r False s2 e2 run obtain res where res: "run = Inr res" "\<not> rr_Failed res"
      by (cases run) (auto simp: finalizeAfterExecution_def Let_def case_prod_beta split: if_splits)
    from assms(1) l r False s2 e2 run res have "set_completed c st3 goalID = (st', Returns None)"
      by (simp add: finalizeAfterExecution_def)
    then have "verifs (cs_goal st') = verifs (cs_goal st3)" by (rule set_completed_verifs)
    with runner_Run_passed [OF run [unfolded res(1)] res(2)] assms(2,3) show ?thesis by simp
  qed
qed

lemma run_listed_completed:
  assumes "run_listed c st goalID approved = (st', Returns None)"
    and "goal_status_of (cs_goal st) goalID \<noteq> Some GoalCompleted" and "goal_status_of (cs_goal st') goalID = Some GoalCompleted"
  shows "\<forall>v \<in> set (verifs (cs_goal st')). gv_GoalID v = goalID \<longrightarrow> gv_Status v = GoalVerificationPassed"
    and "\<forall>s \<in> set (gt_steps (tables (cs_goal st))). gp_GoalID s = goalID \<longrightarrow> step_finished s \<or> step_ran c goalID s"
proof -
  obtain w1 r where l: "ListGoalSteps (gc_env c) (cs_goal st) goalID = (w1, r)" by fastforce
  from assms(1) l obtain ss where r: "r = Inr ss" by (cases r) (auto simp: run_listed_def)
  obtain st2 run where x: "executeSteps c goalID approved (st\<lparr>cs_goal := w1\<rparr>) ss = (st2, run)" by fastforce
  from assms(1) l r x obtain err where err: "run = Returns err" by (cases run) (auto simp: run_listed_def)
  have "goal_status_of w1 goalID \<noteq> Some GoalCompleted"
    using assms(2) ListGoalSteps_cases(1) [OF l] by (simp add: goal_status_of_def)
  then have "goal_status_of (cs_goal st2) goalID \<noteq> Some GoalCompleted"
    using executeSteps_status [OF x [unfolded err]] by simp
  with assms(1,3) l r x err have "\<not> err_is err ErrGoalPaused" by (auto simp: run_listed_def)
  with assms(1) l r x err have none: "err = None" and fin: "finalizeAfterExecution c st2 goalID = (st', Returns None)"
    by (auto simp: run_listed_def split: option.splits)
  from finalize_verified [OF fin]
  show "\<forall>v \<in> set (verifs (cs_goal st')). gv_GoalID v = goalID \<longrightarrow> gv_Status v = GoalVerificationPassed" by blast
  have "step_finished s \<or> step_ran c goalID s" if "s \<in> set (gt_steps (tables (cs_goal st)))" "gp_GoalID s = goalID" for s
  proof -
    from that ListGoalSteps_cases(3) [OF l r] have "scanGoalStep s \<in> set ss" by simp
    from executeSteps_all_ran [OF x [unfolded err none] this] show ?thesis
      by (simp add: step_finished_def step_ran_def)
  qed
  then show "\<forall>s \<in> set (gt_steps (tables (cs_goal st))). gp_GoalID s = goalID \<longrightarrow> step_finished s \<or> step_ran c goalID s" by blast
qed

lemma coord_status_executing:
  assumes "coord_status c st goalID GoalExecuting = (st', None)" "goal_status_of (cs_goal st) goalID \<noteq> Some GoalCompleted"
  shows "goal_status_of (cs_goal st') goalID \<noteq> Some GoalCompleted"
proof -
  have "cs_goal st' = fst (UpdateGoalStatus (gc_env c) (cs_goal st) goalID GoalExecuting)"
    using assms(1) by (auto simp: coord_status_def case_prod_beta)
  with UpdateGoalStatus_status [of "gc_env c" "cs_goal st" goalID GoalExecuting] assms(2) show ?thesis by auto
qed

text \<open>The two entries of the coordinator end in a refusal or in the common loop.\<close>

lemma coord_Execute_cases:
  assumes "coord_Execute c st goalID = (st', r)"
  obtains (refused) e where "r = Returns (Some e)" "tables (cs_goal st') = tables (cs_goal st)" "cs_mgr st' = cs_mgr st"
      "gw_bus (cs_goal st') = gw_bus (cs_goal st)"
  | (running) g st2 where "select_row gl_ID goalID (gt_goals (tables (cs_goal st))) = Some g"
      "gl_Status g \<notin> {GoalExecuting, GoalCompleted}" "goal_status_of (cs_goal st2) goalID \<noteq> Some GoalCompleted"
      "gt_steps (tables (cs_goal st2)) = gt_steps (tables (cs_goal st))" "run_listed c st2 goalID {} = (st', r)"
proof -
  obtain st1 q where lg: "load_goal c st goalID = (st1, q)" by fastforce
  note L = load_goal_cases [OF lg]
  show ?thesis
  proof (cases q)
    case (Inl e)
    with assms lg L show ?thesis by (intro refused) (auto simp: coord_Execute_def)
  next
    case (Inr g)
    note row = L(4) [OF Inr]
    show ?thesis
    proof (cases "gl_Status g \<in> {GoalExecuting, GoalCompleted}")
      case True
      with assms lg Inr L show ?thesis by (elim insertE) (auto simp: coord_Execute_def intro: refused)
    next
      case False
      obtain st2 e where s: "coord_status c st1 goalID GoalExecuting = (st2, e)" by fastforce
      show ?thesis
      proof (cases e)
        case None
        have "goal_status_of (cs_goal st1) goalID \<noteq> Some GoalCompleted"
          using row False L(1) by (auto simp: goal_status_of_def)
        with coord_status_executing s None have "goal_status_of (cs_goal st2) goalID \<noteq> Some GoalCompleted" by blast
        with assms lg Inr False s None L coord_status_tables(2) [OF s] row show ?thesis
          by (intro running [of g st2]) (auto simp: coord_Execute_def)
      next
        case (Some er)
        with s have "tables (cs_goal st2) = tables (cs_goal st1)" "gw_bus (cs_goal st2) = gw_bus (cs_goal st1)" "cs_mgr st2 = cs_mgr st1"
          using coord_status_refused by blast+
        with assms lg Inr False s Some L show ?thesis by (intro refused) (auto simp: coord_Execute_def)
      qed
    qed
  qed
qed

lemma coord_Resume_cases:
  assumes "coord_Resume c st goalID = (st', r)"
  obtains (refused) e where "r = Returns (Some e)" "tables (cs_goal st') = tables (cs_goal st)" "cs_mgr st' = cs_mgr st"
      "gw_bus (cs_goal st') = gw_bus (cs_goal st)"
  | (running) g st3 where "select_row gl_ID goalID (gt_goals (tables (cs_goal st))) = Some g" "gl_Status g = GoalPaused"
      "\<forall>x \<in> set (gt_reviews (tables (cs_goal st))). gr_GoalID x = goalID \<longrightarrow> gr_Status x \<noteq> GoalReviewPending"
      "goal_status_of (cs_goal st3) goalID \<noteq> Some GoalCompleted"
      "gt_steps (tables (cs_goal st3)) = gt_steps (tables (cs_goal st))"
      "run_listed c st3 goalID (gr_StepID ` {x \<in> set (gt_reviews (tables (cs_goal st))).
         gr_GoalID x = goalID \<and> gr_Status x = GoalReviewApproved}) = (st', r)"
proof -
  obtain st1 q where lg: "load_goal c st goalID = (st1, q)" by fastforce
  note L = load_goal_cases [OF lg]
  obtain w2 rr where lr: "ListGoalReviews (gc_env c) (cs_goal st1) goalID = (w2, rr)" by fastforce
  note R = ListGoalReviews_cases [OF lr]
  let ?st2 = "st1\<lparr>cs_goal := w2\<rparr>"
  obtain st3 e where s: "coord_status c ?st2 goalID GoalExecuting = (st3, e)" by fastforce
  consider (early) er where "st' \<in> {st1, ?st2}" "r = Returns (Some er)"
    | (late) g rs A where "q = Inr g" "gl_Status g = GoalPaused" "rr = Inr rs" "approved_steps rs = Some A"
    using assms lg lr
    by (cases q; cases rr; cases "approved_steps (projr rr)") (auto simp: coord_Resume_def split: if_splits)
  then show ?thesis
  proof cases
    case early
    with L R show ?thesis by (intro refused) auto
  next
    case (late g rs A)
    note row = L(4) [OF late(1)]
    have rs: "set rs = {x \<in> set (gt_reviews (tables (cs_goal st))). gr_GoalID x = goalID}"
      using R(3) [OF late(3)] L(1) by auto
    with late(4) have pend: "\<forall>x \<in> set (gt_reviews (tables (cs_goal st))). gr_GoalID x = goalID \<longrightarrow> gr_Status x \<noteq> GoalReviewPending"
      and A: "A = gr_StepID ` {x \<in> set (gt_reviews (tables (cs_goal st))). gr_GoalID x = goalID \<and> gr_Status x = GoalReviewApproved}"
      by (auto simp: approved_steps_Some)
    show ?thesis
    proof (cases e)
      case None
      let ?st4 = "st3\<lparr>cs_goal := publishGoalEvent (gc_env c) ''goal.resumed'' goalID (JObj [(''goal_id'', JStr goalID)]) (cs_goal st3)\<rparr>"
      have "goal_status_of (cs_goal ?st2) goalID \<noteq> Some GoalCompleted"
        using row late(2) L(1) R(1) by (simp add: goal_status_of_def)
      with coord_status_executing s None have "goal_status_of (cs_goal st3) goalID \<noteq> Some GoalCompleted" by blast
      moreover have "gt_steps (tables (cs_goal st3)) = gt_steps (tables (cs_goal st))"
        using coord_status_tables(2) [OF s] L(1) R(1) by simp
      moreover have "run_listed c ?st4 goalID A = (st', r)" using assms lg lr late s None by (simp add: coord_Resume_def)
      ultimately show ?thesis using row late(2) pend unfolding A
        by (intro running [of g ?st4]) (simp_all add: goal_status_of_def)
    next
      case (Some er)
      with coord_status_refused s have "tables (cs_goal st3) = tables w2" "gw_bus (cs_goal st3) = gw_bus w2" "cs_mgr st3 = cs_mgr st1"
        by fastforce+
      with assms lg lr late s Some L R show ?thesis by (intro refused) (auto simp: coord_Resume_def)
    qed
  qed
qed

lemma coord_Execute_gate:
  assumes "\<And>w s. s \<in> set (gt_steps (tables (cs_goal st))) \<Longrightarrow> gp_GoalID s = goalID \<Longrightarrow> may_run {} s \<Longrightarrow>
      x w goalID (gp_ID s) (gp_Primitive s) (gp_Input s) = y w goalID (gp_ID s) (gp_Primitive s) (gp_Input s)"
  shows "coord_Execute (c\<lparr>gc_exec := x\<rparr>) st goalID = coord_Execute (c\<lparr>gc_exec := y\<rparr>) st goalID"
proof -
  obtain st1 q where lg: "load_goal c st goalID = (st1, q)" by fastforce
  obtain st2 e where s: "coord_status c st1 goalID GoalExecuting = (st2, e)" by fastforce
  have "gt_steps (tables (cs_goal st2)) = gt_steps (tables (cs_goal st))"
    using load_goal_cases(1) [OF lg] coord_status_tables(2) [OF s] by simp
  with assms have "run_listed (c\<lparr>gc_exec := x\<rparr>) st2 goalID {} = run_listed (c\<lparr>gc_exec := y\<rparr>) st2 goalID {}"
    by (intro run_listed_gate) simp
  with lg s show ?thesis by (cases q) (simp_all add: coord_Execute_def split: option.split)
qed

lemma coord_Resume_gate:
  assumes "\<And>w s. s \<in> set (gt_steps (tables (cs_goal st))) \<Longrightarrow> gp_GoalID s = goalID \<Longrightarrow>
      may_run (gr_StepID ` {r \<in> set (gt_reviews (tables (cs_goal st))). gr_GoalID r = goalID \<and> gr_Status r = GoalReviewApproved}) s \<Longrightarrow>
      x w goalID (gp_ID s) (gp_Primitive s) (gp_Input s) = y w goalID (gp_ID s) (gp_Primitive s) (gp_Input s)"
  shows "coord_Resume (c\<lparr>gc_exec := x\<rparr>) st goalID = coord_Resume (c\<lparr>gc_exec := y\<rparr>) st goalID"
proof -
  obtain st1 q where lg: "load_goal c st goalID = (st1, q)" by fastforce
  note L = load_goal_cases [OF lg]
  obtain w2 rr where lr: "ListGoalReviews (gc_env c) (cs_goal st1) goalID = (w2, rr)" by fastforce
  note R = ListGoalReviews_cases [OF lr]
  obtain st3 e where s: "coord_status c (st1\<lparr>cs_goal := w2\<rparr>) goalID GoalExecuting = (st3, e)" by fastforce
  let ?st4 = "st3\<lparr>cs_goal := publishGoalEvent (gc_env c) ''goal.resumed'' goalID (JObj [(''goal_id'', JStr goalID)]) (cs_goal st3)\<rparr>"
  have steps: "gt_steps (tables (cs_goal ?st4)) = gt_steps (tables (cs_goal st))"
    using coord_status_tables(2) [OF s] L(1) R(1) by simp
  have "run_listed (c\<lparr>gc_exec := x\<rparr>) ?st4 goalID A = run_listed (c\<lparr>gc_exec := y\<rparr>) ?st4 goalID A"
    if rs: "rr = Inr rs" "approved_steps rs = Some A" for rs A
  proof -
    have "A = gr_StepID ` {x \<in> set (gt_reviews (tables (cs_goal st))). gr_GoalID x = goalID \<and> gr_Status x = GoalReviewApproved}"
      using rs R(3) [OF rs(1)] L(1) by (auto simp: approved_steps_Some)
    with assms steps show ?thesis by (intro run_listed_gate) simp
  qed
  note same = this
  show ?thesis
  proof (cases q)
    case (Inl er)
    with lg show ?thesis by (simp add: coord_Resume_def)
  next
    case q: (Inr g)
    show ?thesis
    proof (cases rr)
      case (Inl er)
      with lg lr q show ?thesis by (simp add: coord_Resume_def)
    next
      case (Inr rs)
      with lg lr q s same [OF Inr] show ?thesis
        by (cases "approved_steps rs") (simp_all add: coord_Resume_def split: option.split)
    qed
  qed
qed

section \<open>Properties\<close>

definition demo_coordinator :: "(event list, memory_store, demo_world) coordinator" where
  "demo_coordinator = NewGoalCoordinator demo_goal_env (demo_engine (\<lambda>_. None)) None (\<lambda>_ _. None)
     (\<lambda>w q. (w, Inr \<lparr>hr_StatusCode = 200, hr_Body = (''ok'', None)\<rparr>)) (\<lambda>n. itoa (int n))"

text \<open>A goal with a low-risk step, after the given further operations of the store.\<close>

definition demo_steps_state :: "goal_op list \<Rightarrow> (event list, memory_store, demo_world) goal_state" where
  "demo_steps_state ops = \<lparr>cs_goal = goal_run demo_goal_env ([GCreate demo_goal,
       GStep (demo_goal_step\<lparr>gp_ID := ''s0'', gp_Primitive := ''fs.read'', gp_RiskLevel := [], gp_Seq := 1\<rparr>)] @ ops) demo_goal_world,
     cs_mgr = \<lparr>ms_store = NewMemoryStore, ms_world = ([], []), ms_snapshots = []\<rparr>\<rparr>"

text \<open>
  C2. The review gate. What \<open>Execute\<close> does depends on the execution of a step only for the steps of
  the goal that are not of high risk, and what \<open>Resume\<close> does only for those and for the steps with an
  approved review, each with the primitive and the input the store has for it: two coordinators
  whose executors agree there cannot be told apart. So no other primitive is ever run, and no
  high-risk step without approval, whatever statements of the store fail.
\<close>

theorem review_gate:
  "((\<forall>w s. s \<in> set (gt_steps (tables (cs_goal st))) \<and> gp_GoalID s = goalID \<and> gp_RiskLevel s \<noteq> ''high'' \<longrightarrow>
       x w goalID (gp_ID s) (gp_Primitive s) (gp_Input s) = y w goalID (gp_ID s) (gp_Primitive s) (gp_Input s)) \<longrightarrow>
     coord_Execute (c\<lparr>gc_exec := x\<rparr>) st goalID = coord_Execute (c\<lparr>gc_exec := y\<rparr>) st goalID) \<and>
   ((\<forall>w s. s \<in> set (gt_steps (tables (cs_goal st))) \<and> gp_GoalID s = goalID \<and>
       (gp_RiskLevel s \<noteq> ''high'' \<or> (\<exists>r \<in> set (gt_reviews (tables (cs_goal st))). gr_GoalID r = goalID \<and>
          gr_StepID r = gp_ID s \<and> gr_Status r = GoalReviewApproved)) \<longrightarrow>
       x w goalID (gp_ID s) (gp_Primitive s) (gp_Input s) = y w goalID (gp_ID s) (gp_Primitive s) (gp_Input s)) \<longrightarrow>
     coord_Resume (c\<lparr>gc_exec := x\<rparr>) st goalID = coord_Resume (c\<lparr>gc_exec := y\<rparr>) st goalID)"
proof (intro conjI impI)
  assume H: "\<forall>w s. s \<in> set (gt_steps (tables (cs_goal st))) \<and> gp_GoalID s = goalID \<and> gp_RiskLevel s \<noteq> ''high'' \<longrightarrow>
       x w goalID (gp_ID s) (gp_Primitive s) (gp_Input s) = y w goalID (gp_ID s) (gp_Primitive s) (gp_Input s)"
  show "coord_Execute (c\<lparr>gc_exec := x\<rparr>) st goalID = coord_Execute (c\<lparr>gc_exec := y\<rparr>) st goalID"
    by (rule coord_Execute_gate) (use H in \<open>simp add: may_run_def\<close>)
next
  assume H: "\<forall>w s. s \<in> set (gt_steps (tables (cs_goal st))) \<and> gp_GoalID s = goalID \<and>
       (gp_RiskLevel s \<noteq> ''high'' \<or> (\<exists>r \<in> set (gt_reviews (tables (cs_goal st))). gr_GoalID r = goalID \<and>
          gr_StepID r = gp_ID s \<and> gr_Status r = GoalReviewApproved)) \<longrightarrow>
       x w goalID (gp_ID s) (gp_Primitive s) (gp_Input s) = y w goalID (gp_ID s) (gp_Primitive s) (gp_Input s)"
  have approved: "may_run (gr_StepID ` {r \<in> set (gt_reviews (tables (cs_goal st))). gr_GoalID r = goalID \<and> gr_Status r = GoalReviewApproved}) s \<Longrightarrow>
      gp_RiskLevel s \<noteq> ''high'' \<or> (\<exists>r \<in> set (gt_reviews (tables (cs_goal st))). gr_GoalID r = goalID \<and>
          gr_StepID r = gp_ID s \<and> gr_Status r = GoalReviewApproved)" for s
    by (auto simp: may_run_def)
  show "coord_Resume (c\<lparr>gc_exec := x\<rparr>) st goalID = coord_Resume (c\<lparr>gc_exec := y\<rparr>) st goalID"
    by (rule coord_Resume_gate) (use H approved in blast)
qed

theorem review_gate_witness:
  "let st = demo_steps_state [GStep (demo_goal_step\<lparr>gp_Seq := 2\<rparr>)];
       bad = (\<lambda>w g s p i. if s = ''s1'' then (w, None, None) else gc_exec demo_coordinator w g s p i)
   in coord_Execute demo_coordinator st ''g1'' = coord_Execute (demo_coordinator\<lparr>gc_exec := bad\<rparr>) st ''g1'' \<and>
      goal_status_of (cs_goal (fst (coord_Execute demo_coordinator st ''g1''))) ''g1'' = Some GoalPaused"
proof -
  let ?st = "demo_steps_state [GStep (demo_goal_step\<lparr>gp_Seq := 2\<rparr>)]"
  let ?bad = "\<lambda>w g s p i. if s = ''s1'' then (w, None, None) else gc_exec demo_coordinator w g s p i"
  have steps: "map (\<lambda>s. (gp_ID s, gp_RiskLevel s)) (gt_steps (tables (cs_goal ?st))) = [(''s0'', ''low''), (''s1'', ''high'')]"
    by code_simp
  have "gp_ID s = ''s1'' \<Longrightarrow> gp_RiskLevel s = ''high''" if "s \<in> set (gt_steps (tables (cs_goal ?st)))" for s
  proof -
    from that have "(gp_ID s, gp_RiskLevel s) \<in> set (map (\<lambda>s. (gp_ID s, gp_RiskLevel s)) (gt_steps (tables (cs_goal ?st))))" by simp
    then show "gp_ID s = ''s1'' \<Longrightarrow> gp_RiskLevel s = ''high''" unfolding steps by auto
  qed
  then have "coord_Execute (demo_coordinator\<lparr>gc_exec := gc_exec demo_coordinator\<rparr>) ?st ''g1'' =
      coord_Execute (demo_coordinator\<lparr>gc_exec := ?bad\<rparr>) ?st ''g1''"
    by (intro review_gate [THEN conjunct1, rule_format]) auto
  moreover have "goal_status_of (cs_goal (fst (coord_Execute demo_coordinator ?st ''g1''))) ''g1'' = Some GoalPaused"
    by code_simp
  ultimately show ?thesis by (simp add: Let_def)
qed

text \<open>
  C4. A completed goal is finished and verified. When \<open>Execute\<close> or \<open>Resume\<close> returns without error and
  the goal is completed in the store, every verification of the goal stands as passed and every
  step of the goal was finished already or has been executed with success, in spite of any failed
  statements whose errors are only logged.
\<close>

theorem goal_completion_sound:
  assumes "coord_Execute c st goalID = (st', Returns None) \<or> coord_Resume c st goalID = (st', Returns None)"
    and "goal_status_of (cs_goal st') goalID = Some GoalCompleted"
  shows "(\<forall>v \<in> set (verifs (cs_goal st')). gv_GoalID v = goalID \<longrightarrow> gv_Status v = GoalVerificationPassed) \<and>
    (\<forall>s \<in> set (gt_steps (tables (cs_goal st))). gp_GoalID s = goalID \<longrightarrow> step_finished s \<or> step_ran c goalID s)"
  using assms(1)
proof
  assume "coord_Execute c st goalID = (st', Returns None)"
  then show ?thesis
  proof (cases rule: coord_Execute_cases)
    case (running g st2)
    from run_listed_completed [OF running(5,3) assms(2)] running(4) show ?thesis by simp
  qed simp
next
  assume "coord_Resume c st goalID = (st', Returns None)"
  then show ?thesis
  proof (cases rule: coord_Resume_cases)
    case (running g st3)
    from run_listed_completed [OF running(6,4) assms(2)] running(5) show ?thesis by simp
  qed simp
qed

theorem goal_completion_sound_witness:
  "let st = demo_steps_state []; st' = fst (coord_Execute demo_coordinator st ''g1'')
   in goal_status_of (cs_goal st') ''g1'' = Some GoalCompleted \<and>
      (\<forall>s \<in> set (gt_steps (tables (cs_goal st))). gp_GoalID s = ''g1'' \<longrightarrow> step_finished s \<or> step_ran demo_coordinator ''g1'' s)"
proof -
  let ?st = "demo_steps_state []"
  obtain st' r where run: "coord_Execute demo_coordinator ?st ''g1'' = (st', r)" by fastforce
  have "snd (coord_Execute demo_coordinator ?st ''g1'') = Returns None \<and>
    goal_status_of (cs_goal (fst (coord_Execute demo_coordinator ?st ''g1''))) ''g1'' = Some GoalCompleted" by code_simp
  with run have r: "r = Returns None" "goal_status_of (cs_goal st') ''g1'' = Some GoalCompleted" by simp_all
  from goal_completion_sound [OF disjI1 [OF run [unfolded r(1)]] r(2)] run r(2) show ?thesis by (simp add: Let_def)
qed

text \<open>
  Refused calls change nothing. \<open>Execute\<close> on a goal that is executing or completed, and \<open>Resume\<close>
  on a goal that is not paused or has a pending review, return an error and leave the tables, the
  bus, the sandboxes and the world of the engine as they were.
\<close>

theorem coordinator_guards:
  assumes "goal_status_of (cs_goal st) goalID = Some s"
  shows "(s \<in> {GoalExecuting, GoalCompleted} \<longrightarrow>
      (\<exists>st' e. coord_Execute c st goalID = (st', Returns (Some e)) \<and> tables (cs_goal st') = tables (cs_goal st) \<and>
         gw_bus (cs_goal st') = gw_bus (cs_goal st) \<and> cs_mgr st' = cs_mgr st)) \<and>
    (s \<noteq> GoalPaused \<or> (\<exists>x \<in> set (gt_reviews (tables (cs_goal st))). gr_GoalID x = goalID \<and> gr_Status x = GoalReviewPending) \<longrightarrow>
      (\<exists>st' e. coord_Resume c st goalID = (st', Returns (Some e)) \<and> tables (cs_goal st') = tables (cs_goal st) \<and>
         gw_bus (cs_goal st') = gw_bus (cs_goal st) \<and> cs_mgr st' = cs_mgr st))"
proof (intro conjI impI)
  assume s: "s \<in> {GoalExecuting, GoalCompleted}"
  obtain st' r where run: "coord_Execute c st goalID = (st', r)" by fastforce
  then show "\<exists>st' e. coord_Execute c st goalID = (st', Returns (Some e)) \<and> tables (cs_goal st') = tables (cs_goal st) \<and>
         gw_bus (cs_goal st') = gw_bus (cs_goal st) \<and> cs_mgr st' = cs_mgr st"
  proof (cases rule: coord_Execute_cases)
    case (refused e)
    with run show ?thesis by simp
  next
    case (running g st2)
    with assms s show ?thesis by (auto simp: goal_status_of_def)
  qed
next
  assume s: "s \<noteq> GoalPaused \<or> (\<exists>x \<in> set (gt_reviews (tables (cs_goal st))). gr_GoalID x = goalID \<and> gr_Status x = GoalReviewPending)"
  obtain st' r where run: "coord_Resume c st goalID = (st', r)" by fastforce
  then show "\<exists>st' e. coord_Resume c st goalID = (st', Returns (Some e)) \<and> tables (cs_goal st') = tables (cs_goal st) \<and>
         gw_bus (cs_goal st') = gw_bus (cs_goal st) \<and> cs_mgr st' = cs_mgr st"
  proof (cases rule: coord_Resume_cases)
    case (refused e)
    with run show ?thesis by simp
  next
    case (running g st3)
    with assms s show ?thesis by (auto simp: goal_status_of_def)
  qed
qed

theorem coordinator_guards_witness:
  "\<exists>st' e. coord_Resume demo_coordinator (demo_steps_state []) ''g1'' = (st', Returns (Some e)) \<and>
     tables (cs_goal st') = tables (cs_goal (demo_steps_state []))"
proof -
  have "goal_status_of (cs_goal (demo_steps_state [])) ''g1'' = Some GoalCreated" by code_simp
  from coordinator_guards [OF this, of demo_coordinator] show ?thesis by auto
qed

text \<open>
  The coordinator never panics: it dereferences the result of a step only where the engine has
  returned one, so \<open>Execute\<close> and \<open>Resume\<close> of a coordinator made by \<open>NewGoalCoordinator\<close> always return.
\<close>

theorem coordinator_never_panics:
  "snd (coord_Execute (NewGoalCoordinator env e m req dohttp ids) st goalID) \<noteq> Panics \<and>
   snd (coord_Resume (NewGoalCoordinator env e m req dohttp ids) st goalID) \<noteq> Panics"
proof -
  let ?c = "NewGoalCoordinator env e m req dohttp ids"
  have ex: "gc_exec ?c w g s p i \<noteq> (w', None, None)" for w g s p i w'
    by (auto simp: NewGoalCoordinator_def elim: ExecuteStepViaCVR_cases)
  have x: "r \<noteq> Panics" if "coord_Execute ?c st goalID = (st', r)" for st' r
    using that
  proof (cases rule: coord_Execute_cases)
    case (running g st2)
    with run_listed_no_panic [OF ex, of st2 goalID "{}"] show ?thesis by simp
  qed simp
  have y: "r \<noteq> Panics" if "coord_Resume ?c st goalID = (st', r)" for st' r
    using that
  proof (cases rule: coord_Resume_cases)
    case (running g st3)
    from run_listed_no_panic [OF ex, of st3 goalID] show ?thesis
      unfolding running(6) [THEN arg_cong, of snd, symmetric, unfolded snd_conv] .
  qed simp
  show ?thesis using x [OF surjective_pairing] y [OF surjective_pairing] by simp
qed

end
