(* ===== verification/GoalApi.thy ===== *)
theory GoalApi
  imports GoalCoordinator
begin

text \<open>
  The HTTP interface to goals, \<open>internal/rpc/goal_handlers.go\<close>: creation, listing, detail, replay, execution,
  review decisions and resumption. A request is its method, its path below \<open>/api/v1/\<close> and its decoded body; a
  reply is a status with a JSON or text body, without headers. \<open>Execute\<close> and \<open>Resume\<close> run in
  goroutines of their own: a handler adds a job, and a job runs as one action of the server, at any later
  time. The random part of identifiers is a parameter, a function of how many were made before.
\<close>

datatype reply_body = NoBody | TextBody string | JsonBody json

record reply =
  rp_Status :: int
  rp_Body :: reply_body

datatype job = JobExecute string | JobResume string

record ('b, 's, 'w) goal_server =
  gs_store :: "'b goal_env option"
  gs_coordinator :: "('b, 's, 'w) coordinator option"
  gs_random :: "nat \<Rightarrow> string"

record ('b, 's, 'w) api_state =
  as_goal :: "('b, 's, 'w) goal_state"
  as_jobs :: "job list"
  as_ids :: nat

definition http_error :: "string \<Rightarrow> int \<Rightarrow> reply" where
  "http_error msg code = \<lparr>rp_Status = code, rp_Body = TextBody msg\<rparr>"

definition http_not_found :: reply where
  "http_not_found = http_error ''404 page not found'' 404"

definition writeJSON :: "json \<Rightarrow> reply" where
  "writeJSON j = \<lparr>rp_Status = 200, rp_Body = JsonBody j\<rparr>"

definition method_not_allowed :: reply where
  "method_not_allowed = http_error ''method not allowed'' 405"

definition internal_error :: "go_error \<Rightarrow> reply" where
  "internal_error e = http_error (error_text e) 500"

abbreviation as_world :: "('b, 's, 'w) api_state \<Rightarrow> 'b goal_world" where
  "as_world a \<equiv> cs_goal (as_goal a)"

definition set_goal_world :: "'b goal_world \<Rightarrow> ('b, 's, 'w) api_state \<Rightarrow> ('b, 's, 'w) api_state" where
  "set_goal_world w a = a\<lparr>as_goal := (as_goal a)\<lparr>cs_goal := w\<rparr>\<rparr>"

definition generateID :: "('b, 's, 'w) goal_server \<Rightarrow> string \<Rightarrow> nat \<Rightarrow> string" where
  "generateID g pre n = pre @ ''-'' @ gs_random g n"

section \<open>Creation and listing\<close>

record step_request =
  sq_Primitive :: string
  sq_Input :: raw
  sq_RiskLevel :: string
  sq_Reversible :: bool

record create_request =
  cq_Description :: string
  cq_Packages :: "string list"
  cq_SandboxIDs :: "string list"
  cq_Steps :: "step_request list"

definition dec_step_request :: "json \<Rightarrow> step_request decoded" where
  "dec_step_request j =
     dec_bind (dec_map (Raw j)) (\<lambda>m.
     dec_bind (field_string m ''primitive'') (\<lambda>p.
     dec_bind (field_string m ''risk_level'') (\<lambda>r.
     dec_bind (field_bool m ''reversible'') (\<lambda>v.
       Inr \<lparr>sq_Primitive = p, sq_Input = field_raw m ''input'', sq_RiskLevel = r, sq_Reversible = v\<rparr>))))"

definition dec_create :: "raw \<Rightarrow> create_request decoded" where
  "dec_create r =
     dec_bind (dec_map r) (\<lambda>m.
     dec_bind (field_string m ''description'') (\<lambda>d.
     dec_bind (field_strings m ''packages'') (\<lambda>p.
     dec_bind (field_strings m ''sandbox_ids'') (\<lambda>s.
     dec_bind (field_list dec_step_request m ''steps'') (\<lambda>ss.
       Inr \<lparr>cq_Description = d, cq_Packages = p, cq_SandboxIDs = s, cq_Steps = ss\<rparr>)))))"

definition requested_step :: "('b, 's, 'w) goal_server \<Rightarrow> nat \<Rightarrow> string \<Rightarrow> nat \<Rightarrow> step_request \<Rightarrow> goal_step" where
  "requested_step g n goalID i q =
     \<lparr>gp_ID = generateID g ''step'' (n + i), gp_GoalID = goalID, gp_Primitive = sq_Primitive q,
      gp_Input = (if sq_Input q = RawNil then Raw (JObj []) else sq_Input q), gp_Output = RawNil,
      gp_Status = GoalStepPending, gp_CheckpointID = [],
      gp_RiskLevel = (if sq_RiskLevel q = [] then ''low'' else sq_RiskLevel q),
      gp_Reversible = sq_Reversible q, gp_Seq = int i + 1, gp_CreatedAt = 0, gp_UpdatedAt = 0\<rparr>"

definition requested_goal :: "('b, 's, 'w) goal_server \<Rightarrow> nat \<Rightarrow> create_request \<Rightarrow> goal" where
  "requested_goal g n q =
     \<lparr>gl_ID = generateID g ''goal'' n, gl_Description = cq_Description q, gl_Status = GoalCreated, gl_Packages = cq_Packages q,
      gl_SandboxIDs = cq_SandboxIDs q, gl_CreatedAt = 0, gl_UpdatedAt = 0\<rparr>"

definition requested_steps :: "('b, 's, 'w) goal_server \<Rightarrow> nat \<Rightarrow> create_request \<Rightarrow> goal_step list" where
  "requested_steps g n q =
     map (\<lambda>(i, s). requested_step g (Suc n) (generateID g ''goal'' n) i s) (enumerate 0 (cq_Steps q))"

definition goalDetailResponse ::
  "goal \<Rightarrow> goal_step list \<Rightarrow> goal_verification list \<Rightarrow> goal_binding list \<Rightarrow> goal_review list \<Rightarrow> json" where
  "goalDetailResponse g ss vs bs rs = JObj
     [(''id'', JStr (gl_ID g)), (''description'', JStr (gl_Description g)), (''status'', JStr (goal_status_string (gl_Status g))),
      (''packages'', JArr (map JStr (gl_Packages g))), (''sandbox_ids'', JArr (map JStr (gl_SandboxIDs g))),
      (''steps'', JArr (map step_json ss)), (''verifications'', JArr (map verification_json vs)),
      (''verification_count'', JNum (int (length vs))), (''bindings'', JArr (map binding_json bs)),
      (''reviews'', JArr (map review_json rs)), (''created_at'', JNum (gl_CreatedAt g)), (''updated_at'', JNum (gl_UpdatedAt g))]"

definition create_goal ::
  "('b, 's, 'w) goal_server \<Rightarrow> 'b goal_env \<Rightarrow> ('b, 's, 'w) api_state \<Rightarrow> raw \<Rightarrow> ('b, 's, 'w) api_state \<times> reply" where
  "create_goal g env a body =
     (case dec_create body of
        Inl e \<Rightarrow> (a, http_error (error_text e) 400)
      | Inr q \<Rightarrow>
          (if cq_Description q = [] then (a, http_error ''description is required'' 400)
           else
             (let goal = requested_goal g (as_ids a) q;
                  steps = requested_steps g (as_ids a) q;
                  now = goal_now env (as_world a);
                  (w, err) = CreateGoalFull env (as_world a) goal steps;
                  a' = (set_goal_world w a)\<lparr>as_ids := as_ids a + 1 + length steps\<rparr>
              in case err of
                   Some e \<Rightarrow> (a', internal_error e)
                 | None \<Rightarrow> (a', \<lparr>rp_Status = 201,
                     rp_Body = JsonBody (goalDetailResponse (stamped_goal now goal) (map (stored_step now) steps) [] [] [])\<rparr>))))"

definition handleAPIGoals ::
  "('b, 's, 'w) goal_server \<Rightarrow> ('b, 's, 'w) api_state \<Rightarrow> string \<Rightarrow> raw \<Rightarrow> ('b, 's, 'w) api_state \<times> reply" where
  "handleAPIGoals g a meth body =
     (case gs_store g of
        None \<Rightarrow> (a, http_error ''goal store unavailable'' 501)
      | Some env \<Rightarrow>
          (if meth = ''GET'' then
             (let (w, r) = ListGoals env (as_world a)
              in (set_goal_world w a, case r of Inl e \<Rightarrow> internal_error e | Inr gs \<Rightarrow> writeJSON (JObj [(''goals'', JArr (map goal_json gs))])))
           else if meth = ''POST'' then create_goal g env a body
           else (a, method_not_allowed)))"

section \<open>One goal\<close>

text \<open>A goal that must be there, else an error reply.\<close>

definition with_goal ::
  "'b goal_env \<Rightarrow> ('b, 's, 'w) api_state \<Rightarrow> string \<Rightarrow> (('b, 's, 'w) api_state \<Rightarrow> goal \<Rightarrow> ('b, 's, 'w) api_state \<times> reply)
   \<Rightarrow> ('b, 's, 'w) api_state \<times> reply" where
  "with_goal env a goalID k =
     (let (w, r) = GetGoal env (as_world a) goalID; a' = set_goal_world w a
      in case r of
           Inl e \<Rightarrow> (a', internal_error e)
         | Inr None \<Rightarrow> (a', http_error ''goal not found'' 404)
         | Inr (Some g) \<Rightarrow> k a' g)"

text \<open>A listing that must succeed, else an error reply.\<close>

definition with_list ::
  "('b goal_world \<Rightarrow> 'b goal_world \<times> (go_error + 'a)) \<Rightarrow> ('b, 's, 'w) api_state
   \<Rightarrow> (('b, 's, 'w) api_state \<Rightarrow> 'a \<Rightarrow> ('b, 's, 'w) api_state \<times> reply) \<Rightarrow> ('b, 's, 'w) api_state \<times> reply" where
  "with_list f a k =
     (let (w, r) = f (as_world a); a' = set_goal_world w a
      in case r of Inl e \<Rightarrow> (a', internal_error e) | Inr x \<Rightarrow> k a' x)"

definition goal_detail ::
  "'b goal_env \<Rightarrow> ('b, 's, 'w) api_state \<Rightarrow> string \<Rightarrow> ('b, 's, 'w) api_state \<times> reply" where
  "goal_detail env a goalID =
     with_goal env a goalID (\<lambda>a1 g.
     with_list (\<lambda>w. ListGoalSteps env w goalID) a1 (\<lambda>a2 ss.
     with_list (\<lambda>w. ListGoalVerifications env w goalID) a2 (\<lambda>a3 vs.
     with_list (\<lambda>w. ListGoalBindings env w goalID) a3 (\<lambda>a4 bs.
     with_list (\<lambda>w. ListGoalReviews env w goalID) a4 (\<lambda>a5 rs.
       (a5, writeJSON (goalDetailResponse g ss vs bs rs)))))))"

fun replay_mode_of :: "string \<Rightarrow> replay_mode" where
  "replay_mode_of s =
     (if s = ''step_by_step'' then ReplayStepByStep else if s = ''skip_passed'' then ReplaySkipPassed
      else if s = ''full'' then ReplayFull else ReplayOther s)"

definition replay_entry_json :: "goal_replay_entry \<Rightarrow> json" where
  "replay_entry_json e = JObj ([(''seq'', JNum (ge_Seq e))] @ opt_str ''step_id'' (ge_StepID e) @
     [(''primitive'', JStr (ge_Primitive e))] @ opt_raw ''input'' (ge_Input e) @ opt_raw ''output'' (ge_Output e) @
     [(''status'', JStr (ge_Status e))] @ opt_str ''checkpoint_id'' (ge_CheckpointID e) @
     (if ge_Skipped e then [(''skipped'', JBool True)] else []))"

definition replay_json :: "goal_replay \<Rightarrow> json" where
  "replay_json r = JObj [(''goal_id'', JStr (gy_GoalID r)), (''mode'', JStr (gy_Mode r)), (''entries'', JArr (map replay_entry_json (gy_Entries r)))]"

definition stored_entry :: "goal_step \<Rightarrow> json" where
  "stored_entry s = JObj ([(''seq'', JNum (gp_Seq s)), (''step_id'', JStr (gp_ID s)), (''primitive'', JStr (gp_Primitive s)),
     (''input'', raw_json (gp_Input s)), (''status'', JStr (goal_step_status_string (gp_Status s))),
     (''checkpoint_id'', JStr (gp_CheckpointID s)), (''skipped'', JBool (gp_Status s = GoalStepSkipped))] @
     (if gp_Output s = RawNil then [] else [(''output'', raw_json (gp_Output s))]))"

text \<open>The mode of the request; a body that does not decode counts as none.\<close>

definition replay_request_mode :: "raw \<Rightarrow> string" where
  "replay_request_mode body =
     (let mode = (case dec_bind (dec_map body) (\<lambda>m. field_string m ''mode'') of Inl _ \<Rightarrow> [] | Inr s \<Rightarrow> s)
      in if mode = [] then ''full'' else mode)"

definition handleAPIGoalReplay ::
  "('b, 's, 'w) goal_server \<Rightarrow> 'b goal_env \<Rightarrow> ('b, 's, 'w) api_state \<Rightarrow> string \<Rightarrow> raw \<Rightarrow> string \<Rightarrow> ('b, 's, 'w) api_state \<times> reply" where
  "handleAPIGoalReplay g env a meth body goalID =
     (if meth \<noteq> ''POST'' then (a, method_not_allowed)
      else
        (let mode = replay_request_mode body
         in with_goal env a goalID (\<lambda>a1 _.
              case gs_coordinator g of
                Some c \<Rightarrow>
                  (let (st, r) = coord_Replay c (as_goal a1) goalID (replay_mode_of mode); a2 = a1\<lparr>as_goal := st\<rparr>
                   in (a2, case r of Inl e \<Rightarrow> internal_error e | Inr x \<Rightarrow> writeJSON (replay_json x)))
              | None \<Rightarrow>
                  (let a2 = set_goal_world (fst (ReplayGoal env (as_world a1) goalID)) a1
                   in with_list (\<lambda>w. ListGoalSteps env w goalID) a2 (\<lambda>a3 ss.
                        (a3, writeJSON (JObj [(''goal_id'', JStr goalID), (''mode'', JStr mode), (''entries'', JArr (map stored_entry ss))])))))))"

definition accepted :: "string \<Rightarrow> reply" where
  "accepted goalID = \<lparr>rp_Status = 202, rp_Body = JsonBody (JObj [(''goal_id'', JStr goalID), (''status'', JStr ''executing'')])\<rparr>"

definition handleAPIGoalExecute ::
  "('b, 's, 'w) goal_server \<Rightarrow> 'b goal_env \<Rightarrow> ('b, 's, 'w) api_state \<Rightarrow> string \<Rightarrow> string \<Rightarrow> ('b, 's, 'w) api_state \<times> reply" where
  "handleAPIGoalExecute g env a meth goalID =
     (if meth \<noteq> ''POST'' then (a, method_not_allowed)
      else if gs_coordinator g = None then (a, http_error ''goal coordinator unavailable'' 501)
      else with_goal env a goalID (\<lambda>a1 gl.
        if gl_Status gl = GoalExecuting then (a1, http_error ''goal is already executing'' 409)
        else if gl_Status gl = GoalCompleted then (a1, http_error ''goal is already completed'' 409)
        else (a1\<lparr>as_jobs := as_jobs a1 @ [JobExecute goalID]\<rparr>, accepted goalID)))"

definition handleAPIGoalBindings ::
  "'b goal_env \<Rightarrow> ('b, 's, 'w) api_state \<Rightarrow> string \<Rightarrow> string \<Rightarrow> ('b, 's, 'w) api_state \<times> reply" where
  "handleAPIGoalBindings env a meth goalID =
     (if meth \<noteq> ''GET'' then (a, method_not_allowed)
      else with_goal env a goalID (\<lambda>a1 _.
        with_list (\<lambda>w. ListGoalBindings env w goalID) a1 (\<lambda>a2 bs.
          (a2, writeJSON (JObj [(''goal_id'', JStr goalID), (''bindings'', JArr (map binding_json bs))])))))"

section \<open>Review decisions\<close>

definition dec_decision :: "raw \<Rightarrow> (string \<times> string) decoded" where
  "dec_decision r =
     dec_bind (dec_map r) (\<lambda>m.
     dec_bind (field_string m ''review_id'') (\<lambda>k.
     dec_bind (field_string m ''reason'') (\<lambda>s. Inr (k, s))))"

definition dec_approval :: "raw \<Rightarrow> string decoded" where
  "dec_approval r = dec_bind (dec_map r) (\<lambda>m. field_string m ''review_id'')"

definition decided :: "string \<Rightarrow> string \<Rightarrow> review_status \<Rightarrow> reply" where
  "decided goalID reviewID status =
     writeJSON (JObj [(''goal_id'', JStr goalID), (''review_id'', JStr reviewID), (''status'', JStr (review_status_string status))])"

text \<open>The decision both handlers make, for a review of the goal named in the path.\<close>

definition decide_review ::
  "'b goal_env \<Rightarrow> ('b, 's, 'w) api_state \<Rightarrow> string \<Rightarrow> string \<Rightarrow> review_status \<Rightarrow> string
   \<Rightarrow> (('b, 's, 'w) api_state \<Rightarrow> ('b, 's, 'w) api_state \<times> reply) \<Rightarrow> ('b, 's, 'w) api_state \<times> reply" where
  "decide_review env a goalID reviewID status reason k =
     with_list (\<lambda>w. GetGoalReview env w reviewID) a (\<lambda>a1 review.
       if (case review of None \<Rightarrow> True | Some r \<Rightarrow> gr_GoalID r \<noteq> goalID) then (a1, http_error ''review not found'' 404)
       else
         (let (w, err) = DecideGoalReview env (as_world a1) reviewID status reason; a2 = set_goal_world w a1
          in case err of
               None \<Rightarrow> k a2
             | Some e \<Rightarrow> (a2, if errors_is e ErrReviewConflict then http_error ''conflicting review decision'' 409 else internal_error e)))"

definition handleAPIGoalApprove ::
  "'b goal_env \<Rightarrow> ('b, 's, 'w) api_state \<Rightarrow> string \<Rightarrow> raw \<Rightarrow> string \<Rightarrow> ('b, 's, 'w) api_state \<times> reply" where
  "handleAPIGoalApprove env a meth body goalID =
     (if meth \<noteq> ''POST'' then (a, method_not_allowed)
      else case dec_approval body of
        Inl _ \<Rightarrow> (a, http_error ''review_id is required'' 400)
      | Inr reviewID \<Rightarrow>
          (if reviewID = [] then (a, http_error ''review_id is required'' 400)
           else decide_review env a goalID reviewID GoalReviewApproved [] (\<lambda>a1. (a1, decided goalID reviewID GoalReviewApproved))))"

definition handleAPIGoalReject ::
  "'b goal_env \<Rightarrow> ('b, 's, 'w) api_state \<Rightarrow> string \<Rightarrow> raw \<Rightarrow> string \<Rightarrow> ('b, 's, 'w) api_state \<times> reply" where
  "handleAPIGoalReject env a meth body goalID =
     (if meth \<noteq> ''POST'' then (a, method_not_allowed)
      else case dec_decision body of
        Inl _ \<Rightarrow> (a, http_error ''review_id is required'' 400)
      | Inr (reviewID, reason) \<Rightarrow>
          (if reviewID = [] then (a, http_error ''review_id is required'' 400)
           else decide_review env a goalID reviewID GoalReviewRejected reason (\<lambda>a1.
             let (w, err) = UpdateGoalStatus env (as_world a1) goalID GoalFailed; a2 = set_goal_world w a1
             in (a2, case err of Some e \<Rightarrow> internal_error e | None \<Rightarrow> decided goalID reviewID GoalReviewRejected))))"

definition handleAPIGoalResume ::
  "('b, 's, 'w) goal_server \<Rightarrow> 'b goal_env \<Rightarrow> ('b, 's, 'w) api_state \<Rightarrow> string \<Rightarrow> string \<Rightarrow> ('b, 's, 'w) api_state \<times> reply" where
  "handleAPIGoalResume g env a meth goalID =
     (if meth \<noteq> ''POST'' then (a, method_not_allowed)
      else if gs_coordinator g = None then (a, http_error ''goal coordinator unavailable'' 501)
      else with_goal env a goalID (\<lambda>a1 gl.
        if gl_Status gl \<noteq> GoalPaused
        then (a1, http_error (''goal is not paused (status: '' @ goal_status_string (gl_Status gl) @ '')'') 409)
        else with_list (\<lambda>w. ListGoalReviews env w goalID) a1 (\<lambda>a2 rs.
          if list_ex (\<lambda>r. gr_Status r = GoalReviewPending) rs then (a2, http_error ''goal has a pending review'' 409)
          else (a2\<lparr>as_jobs := as_jobs a2 @ [JobResume goalID]\<rparr>, accepted goalID))))"

text \<open>\<open>strings.SplitN(path, "/", 2)\<close>\<close>

definition split_first :: "string \<Rightarrow> string \<times> string option" where
  "split_first path =
     (case index_byte path (CHR ''/'') of None \<Rightarrow> (path, None) | Some i \<Rightarrow> (take i path, Some (drop (Suc i) path)))"

definition handleAPIGoalDetail ::
  "('b, 's, 'w) goal_server \<Rightarrow> ('b, 's, 'w) api_state \<Rightarrow> string \<Rightarrow> raw \<Rightarrow> string \<Rightarrow> ('b, 's, 'w) api_state \<times> reply" where
  "handleAPIGoalDetail g a meth body path =
     (case gs_store g of
        None \<Rightarrow> (a, http_error ''goal store unavailable'' 501)
      | Some env \<Rightarrow>
          (let (goalID, rest) = split_first path
           in if goalID = [] then (a, http_not_found)
              else case rest of
                Some sub \<Rightarrow>
                  (if sub = ''replay'' then handleAPIGoalReplay g env a meth body goalID
                   else if sub = ''bindings'' then handleAPIGoalBindings env a meth goalID
                   else if sub = ''execute'' then handleAPIGoalExecute g env a meth goalID
                   else if sub = ''approve'' then handleAPIGoalApprove env a meth body goalID
                   else if sub = ''reject'' then handleAPIGoalReject env a meth body goalID
                   else if sub = ''resume'' then handleAPIGoalResume g env a meth goalID
                   else (a, http_not_found))
              | None \<Rightarrow> (if meth \<noteq> ''GET'' then (a, method_not_allowed) else goal_detail env a goalID)))"

section \<open>Runs of the server\<close>

text \<open>A request to the goal API or the run of a waiting job.\<close>

datatype api_action = Request string string raw | RunJob nat

definition run_job :: "('b, 's, 'w) goal_server \<Rightarrow> job \<Rightarrow> ('b, 's, 'w) goal_state \<Rightarrow> ('b, 's, 'w) goal_state" where
  "run_job g j st =
     (case gs_coordinator g of
        None \<Rightarrow> st
      | Some c \<Rightarrow> (case j of JobExecute k \<Rightarrow> fst (coord_Execute c st k) | JobResume k \<Rightarrow> fst (coord_Resume c st k)))"

fun api_step :: "('b, 's, 'w) goal_server \<Rightarrow> api_action \<Rightarrow> ('b, 's, 'w) api_state \<Rightarrow> ('b, 's, 'w) api_state" where
  "api_step g (Request meth path body) a =
     (if path = ''goals'' then fst (handleAPIGoals g a meth body)
      else if has_prefix path ''goals/'' then fst (handleAPIGoalDetail g a meth body (drop 6 path))
      else a)"
| "api_step g (RunJob n) a =
     (if n < length (as_jobs a)
      then a\<lparr>as_goal := run_job g (as_jobs a ! n) (as_goal a), as_jobs := take n (as_jobs a) @ drop (Suc n) (as_jobs a)\<rparr>
      else a)"

definition api_run :: "('b, 's, 'w) goal_server \<Rightarrow> api_action list \<Rightarrow> ('b, 's, 'w) api_state \<Rightarrow> ('b, 's, 'w) api_state" where
  "api_run g acts a = fold (api_step g) acts a"

section \<open>What the coordinator keeps\<close>

lemma goal_reads [simp]:
  "tables (fst (GetGoal env w k)) = tables w" "tables (fst (ListGoals env w)) = tables w"
  "tables (fst (ListGoalSteps env w k)) = tables w" "tables (fst (ListGoalVerifications env w k)) = tables w"
  "tables (fst (getGoalVerification env w k)) = tables w" "tables (fst (ListGoalBindings env w k)) = tables w"
  "tables (fst (ListGoalReviews env w k)) = tables w" "tables (fst (GetGoalReview env w k)) = tables w"
  by (simp_all add: GetGoal_def ListGoals_def ListGoalSteps_def ListGoalVerifications_def getGoalVerification_def
      ListGoalBindings_def ListGoalReviews_def GetGoalReview_def)

lemma goal_write_keeps:
  assumes "P (tables w)" and "\<And>t. f (tables w) = Inr t \<Longrightarrow> P t" and "\<And>x. gw_db (emit x) = gw_db x"
  shows "P (tables (fst (goal_write env w what f emit)))"
  using goal_write_cases [of env w what f emit] assms by (metis prod.collapse)

text \<open>
  A property of the tables that survives the few statements the coordinator and the verification runner
  issue survives their whole runs: updates of goals, steps and verifications that keep identity and risk, and
  new pending reviews.
\<close>

locale coordinator_frame =
  fixes P :: "goal_tables \<Rightarrow> bool"
  assumes goals_update: "P t \<Longrightarrow> (\<And>x. gl_ID (f x) = gl_ID x) \<Longrightarrow> P (t\<lparr>gt_goals := update_rows gl_ID k f (gt_goals t)\<rparr>)"
    and steps_update: "P t \<Longrightarrow> (\<And>s. gp_ID (h s) = gp_ID s) \<Longrightarrow> (\<And>s. gp_GoalID (h s) = gp_GoalID s) \<Longrightarrow>
      (\<And>s. gp_RiskLevel (h s) = gp_RiskLevel s) \<Longrightarrow> P (t\<lparr>gt_steps := update_rows gp_ID k h (gt_steps t)\<rparr>)"
    and verifications_update: "P t \<Longrightarrow> (\<And>v. gv_ID (q v) = gv_ID v) \<Longrightarrow>
      P (t\<lparr>gt_verifications := update_rows gv_ID k q (gt_verifications t)\<rparr>)"
    and reviews_insert: "P t \<Longrightarrow> gr_Status r = GoalReviewPending \<Longrightarrow> insert_review r (gt_reviews t) = Inr rows \<Longrightarrow>
      P (t\<lparr>gt_reviews := rows\<rparr>)"
begin

lemma goal_status: "P (tables w) \<Longrightarrow> P (tables (fst (UpdateGoalStatus env w k s)))"
  unfolding UpdateGoalStatus_def Let_def by (rule goal_write_keeps) (auto intro: goals_update)

lemma step_status: "P (tables w) \<Longrightarrow> P (tables (fst (UpdateGoalStepStatus env w k s out)))"
  unfolding UpdateGoalStepStatus_def Let_def by (rule goal_write_keeps) (auto intro: steps_update)

lemma new_pending: "P (tables w) \<Longrightarrow> gr_Status r = GoalReviewPending \<Longrightarrow> P (tables (fst (CreateGoalReview env w r)))"
  unfolding CreateGoalReview_def Let_def
  by (rule goal_write_keeps) (fastforce elim!: map_sum_InrE intro: reviews_insert [rotated 2])+

lemma verification: "P (tables w) \<Longrightarrow> P (tables (fst (UpdateGoalVerification env w k s verdict ev)))"
  by (auto simp: UpdateGoalVerification_def Let_def case_prod_beta split: option.split sum.split
      intro!: goal_write_keeps [of P] intro: verifications_update)

lemma pause: "P (tables w) \<Longrightarrow> P (tables (pause_at c w goalID s))"
  by (simp add: pause_at_def Let_def goal_status step_status new_pending new_review_def)

lemma steps: "P (tables (cs_goal st)) \<Longrightarrow> P (tables (cs_goal (fst (executeSteps c goalID A st ss))))"
proof (induction ss arbitrary: st)
  case (Cons s ss)
  then show ?case
    by (simp add: Let_def case_prod_beta set_world_def pause step_status split: option.split)
qed simp

lemma verifications: "P (tables (cs_goal st)) \<Longrightarrow> P (tables (cs_goal (fst (run_verifications r g sm vm st vs))))"
proof (induction vs arbitrary: st vm)
  case (Cons v vs)
  then show ?case by (simp add: Let_def case_prod_beta verification split: option.split)
qed simp

lemma runner: "P (tables (cs_goal st)) \<Longrightarrow> P (tables (cs_goal (fst (runner_Run r st goalID))))"
  by (simp add: runner_Run_def Let_def case_prod_beta verifications split: sum.split option.split)

lemma coordinator_status: "P (tables (cs_goal st)) \<Longrightarrow> P (tables (cs_goal (fst (coord_status c st goalID s))))"
  by (simp add: coord_status_def case_prod_beta goal_status)

lemma finalize: "P (tables (cs_goal st)) \<Longrightarrow> P (tables (cs_goal (fst (finalizeAfterExecution c st goalID))))"
  by (simp add: finalizeAfterExecution_def set_completed_def Let_def case_prod_beta coordinator_status runner
      split: sum.split option.split)

lemma listed: "P (tables (cs_goal st)) \<Longrightarrow> P (tables (cs_goal (fst (run_listed c st goalID A))))"
  by (simp add: run_listed_def Let_def case_prod_beta steps coordinator_status finalize
      split: sum.split option.split call_end.split)

lemma execute: "P (tables (cs_goal st)) \<Longrightarrow> P (tables (cs_goal (fst (coord_Execute c st goalID))))"
  by (simp add: coord_Execute_def load_goal_def Let_def case_prod_beta coordinator_status listed
      split: sum.split option.split)

lemma resume: "P (tables (cs_goal st)) \<Longrightarrow> P (tables (cs_goal (fst (coord_Resume c st goalID))))"
  by (simp add: coord_Resume_def load_goal_def Let_def case_prod_beta coordinator_status listed
      split: sum.split option.split)

lemma job: "P (tables (cs_goal st)) \<Longrightarrow> P (tables (cs_goal (run_job g j st)))"
  by (simp add: run_job_def execute resume split: option.split job.split)

end

section \<open>What the server keeps\<close>

text \<open>
  With the two statements only the handlers issue, the insertion of a goal with its steps and the decision
  of a pending review. A decision may be one the property does not survive; \<open>allowed\<close> is the others.
\<close>

lemma index_byte_take: "index_byte s c = Some i \<Longrightarrow> s = take i s @ c # drop (Suc i) s"
  by (induction s arbitrary: i) (auto split: if_splits)

lemma has_prefix_drop: "has_prefix s p \<Longrightarrow> s = p @ drop (length p) s"
  by (metis has_prefix_def append_take_drop_id)

lemma split_first_Some: "split_first path = (k, Some sub) \<Longrightarrow> path = k @ ''/'' @ sub"
  using index_byte_take by (auto simp: split_first_def split: option.splits)

locale goal_frame = coordinator_frame +
  fixes allowed :: "goal_review \<Rightarrow> review_status \<Rightarrow> bool"
  assumes goal_insert: "P t \<Longrightarrow> gl_ID x \<notin> gl_ID ` set (gt_goals t) \<Longrightarrow>
      (distinct (map gp_ID (gt_steps t)) \<longrightarrow> distinct (map gp_ID (gt_steps t @ ss))) \<Longrightarrow>
      P (t\<lparr>gt_goals := gt_goals t @ [x], gt_steps := gt_steps t @ ss\<rparr>)"
    and review_decided: "P t \<Longrightarrow> select_row gr_ID rid (gt_reviews t) = Some r \<Longrightarrow> allowed r s \<Longrightarrow> s \<noteq> GoalReviewPending \<Longrightarrow>
      P (t\<lparr>gt_reviews := update_rows gr_ID rid (\<lambda>x. x\<lparr>gr_Status := s, gr_DecisionReason := reason, gr_UpdatedAt := now\<rparr>) (gt_reviews t)\<rparr>)"
    and rejected: "allowed r GoalReviewRejected"
begin

lemma full: "P (tables w) \<Longrightarrow> P (tables (fst (CreateGoalFull env w x ss)))"
  by (rule CreateGoalFull_cases [OF prod.collapse [symmetric, of "CreateGoalFull env w x ss"]]) (simp_all add: goal_insert)

lemma decide:
  assumes "P (tables w)" and "\<And>r. select_row gr_ID rid (gt_reviews (tables w)) = Some r \<Longrightarrow> allowed r s"
  shows "P (tables (fst (DecideGoalReview env w rid s reason)))"
  by (rule DecideGoalReview_tables [OF prod.collapse [symmetric, of "DecideGoalReview env w rid s reason"]])
    (simp_all add: assms review_decided)

lemma world [simp]: "as_world (set_goal_world w a) = w"
  by (simp add: set_goal_world_def)

lemma goal: "P (tables (as_world a)) \<Longrightarrow> (\<And>a' x. tables (as_world a') = tables (as_world a) \<Longrightarrow> P (tables (as_world (fst (k a' x))))) \<Longrightarrow>
    P (tables (as_world (fst (with_goal env a goalID k))))"
  by (simp add: with_goal_def Let_def case_prod_beta split: sum.split option.split)

lemma list_of:
  assumes "\<And>w. tables (fst (f w)) = tables w" and "P (tables (as_world a))"
    and "\<And>a' x. tables (as_world a') = tables (as_world a) \<Longrightarrow> P (tables (as_world (fst (k a' x))))"
  shows "P (tables (as_world (fst (with_list f a k))))"
  using assms by (simp add: with_list_def Let_def case_prod_beta split: sum.split)

lemma creation: "P (tables (as_world a)) \<Longrightarrow> P (tables (as_world (fst (create_goal g env a body))))"
  by (simp add: create_goal_def Let_def case_prod_beta full split: sum.split option.split)

lemma goals: "P (tables (as_world a)) \<Longrightarrow> P (tables (as_world (fst (handleAPIGoals g a meth body))))"
  by (simp add: handleAPIGoals_def case_prod_beta creation split: option.split)

lemma detail: "P (tables (as_world a)) \<Longrightarrow> P (tables (as_world (fst (goal_detail env a goalID))))"
  unfolding goal_detail_def by (intro goal list_of) simp_all

lemma replay: "P (tables (as_world a)) \<Longrightarrow> P (tables (as_world (fst (handleAPIGoalReplay g env a meth body goalID))))"
  unfolding handleAPIGoalReplay_def Let_def
  by (auto simp: coord_Replay_def load_goal_def case_prod_beta Let_def ReplayGoal_def intro!: goal list_of
      split: option.split sum.split)

lemma bindings: "P (tables (as_world a)) \<Longrightarrow> P (tables (as_world (fst (handleAPIGoalBindings env a meth goalID))))"
  unfolding handleAPIGoalBindings_def by (auto intro!: goal list_of)

lemma executed: "P (tables (as_world a)) \<Longrightarrow> P (tables (as_world (fst (handleAPIGoalExecute g env a meth goalID))))"
  unfolding handleAPIGoalExecute_def by (auto intro!: goal)

lemma resumed: "P (tables (as_world a)) \<Longrightarrow> P (tables (as_world (fst (handleAPIGoalResume g env a meth goalID))))"
  unfolding handleAPIGoalResume_def by (auto intro!: goal list_of)

lemma decision:
  assumes "P (tables (as_world a))"
    and "\<And>r. select_row gr_ID rid (gt_reviews (tables (as_world a))) = Some r \<Longrightarrow> gr_GoalID r = goalID \<Longrightarrow> allowed r s"
    and "\<And>a'. P (tables (as_world a')) \<Longrightarrow> P (tables (as_world (fst (k a'))))"
  shows "P (tables (as_world (fst (decide_review env a goalID rid s reason k))))"
proof -
  have d: "P (tables (fst (DecideGoalReview env w rid s reason)))"
    if "snd (GetGoalReview env (as_world a) rid) = Inr (Some r)" "gr_GoalID r = goalID" "tables w = tables (as_world a)" for w r
    using that goal_read_Inr [OF that(1) [unfolded GetGoalReview_def]] assms(1,2) by (intro decide) auto
  show ?thesis
    using assms(1,3) d
    by (auto simp: decide_review_def with_list_def Let_def case_prod_beta split: sum.split option.split)
qed

lemma reject: "P (tables (as_world a)) \<Longrightarrow> P (tables (as_world (fst (handleAPIGoalReject env a meth body goalID))))"
  by (auto simp: handleAPIGoalReject_def case_prod_beta Let_def rejected goal_status intro!: decision split: sum.split)

lemma approve:
  assumes "P (tables (as_world a))"
    and "\<And>rid r. meth = ''POST'' \<Longrightarrow> dec_approval body = Inr rid \<Longrightarrow> select_row gr_ID rid (gt_reviews (tables (as_world a))) = Some r \<Longrightarrow>
      gr_GoalID r = goalID \<Longrightarrow> allowed r GoalReviewApproved"
  shows "P (tables (as_world (fst (handleAPIGoalApprove env a meth body goalID))))"
  using assms by (auto simp: handleAPIGoalApprove_def intro!: decision split: sum.split)

lemma request:
  assumes "P (tables (as_world a))"
    and "\<And>goalID rid r. meth = ''POST'' \<Longrightarrow> path = goalID @ ''/approve'' \<Longrightarrow> dec_approval body = Inr rid \<Longrightarrow>
      select_row gr_ID rid (gt_reviews (tables (as_world a))) = Some r \<Longrightarrow> gr_GoalID r = goalID \<Longrightarrow> allowed r GoalReviewApproved"
  shows "P (tables (as_world (fst (handleAPIGoalDetail g a meth body path))))"
proof -
  obtain goalID rest where s: "split_first path = (goalID, rest)" by fastforce
  have "rest = Some ''approve'' \<Longrightarrow> path = goalID @ ''/approve''" using split_first_Some [of path goalID "''approve''"] s by simp
  then have "rest = Some ''approve'' \<Longrightarrow> P (tables (as_world (fst (handleAPIGoalApprove env a meth body goalID))))" for env
    using assms by (intro approve) auto
  with assms(1) s show ?thesis
    by (auto simp: handleAPIGoalDetail_def replay bindings executed reject resumed detail split: option.split)
qed

lemma run:
  assumes "P (tables (as_world a))"
    and "\<And>goalID body rid r. act = Request ''POST'' (''goals/'' @ goalID @ ''/approve'') body \<Longrightarrow> dec_approval body = Inr rid \<Longrightarrow>
      select_row gr_ID rid (gt_reviews (tables (as_world a))) = Some r \<Longrightarrow> gr_GoalID r = goalID \<Longrightarrow> allowed r GoalReviewApproved"
  shows "P (tables (as_world (api_step g act a)))"
proof (cases act)
  case (Request meth path body)
  have p: "has_prefix path ''goals/'' \<Longrightarrow> drop 6 path = x \<Longrightarrow> path = ''goals/'' @ x" for x
    using has_prefix_drop [of path "''goals/''"] by (simp add: numeral_eq_Suc)
  show ?thesis
    using assms Request p by (auto simp: goals intro!: request)
next
  case (RunJob n)
  with assms(1) show ?thesis by (simp add: job)
qed

end

interpretation inv: goal_frame goal_inv "\<lambda>_ _. True"
proof
  fix t rid r s reason now
  assume "goal_inv t" "s \<noteq> GoalReviewPending"
  then show "goal_inv (t\<lparr>gt_reviews := update_rows gr_ID rid
      (\<lambda>x. x\<lparr>gr_Status := s, gr_DecisionReason := reason, gr_UpdatedAt := now\<rparr>) (gt_reviews t)\<rparr>)"
    by (simp add: goal_inv_def pending_update update_rows_keys)
qed (auto simp: goal_inv_def insert_review_def update_rows_keys image_iff split: if_splits)

text \<open>A step of high risk that nobody has approved.\<close>

definition step_gated :: "string \<Rightarrow> string \<Rightarrow> goal_tables \<Rightarrow> bool" where
  "step_gated goalID k t \<longleftrightarrow> goal_inv t \<and> k \<in> gp_ID ` set (gt_steps t) \<and>
     (\<forall>s \<in> set (gt_steps t). gp_ID s = k \<longrightarrow> gp_RiskLevel s = ''high'') \<and>
     (\<forall>r \<in> set (gt_reviews t). gr_GoalID r = goalID \<and> gr_StepID r = k \<longrightarrow> gr_Status r \<noteq> GoalReviewApproved)"

definition not_of :: "string \<Rightarrow> string \<Rightarrow> goal_review \<Rightarrow> review_status \<Rightarrow> bool" where
  "not_of goalID k r s \<longleftrightarrow> s = GoalReviewApproved \<longrightarrow> gr_GoalID r = goalID \<longrightarrow> gr_StepID r \<noteq> k"

lemma updated_row_from: "x \<in> set (update_rows key k f rows) \<Longrightarrow> \<exists>y \<in> set rows. x = y \<or> key y = k \<and> x = f y"
  by (auto simp: update_rows_def)

lemma selected_row_unique: "select_row key k rows = Some r \<Longrightarrow> distinct (map key rows) \<Longrightarrow> y \<in> set rows \<Longrightarrow> key y = k \<Longrightarrow> y = r"
  by (drule select_row_Some) (auto simp: distinct_map dest: inj_onD)

interpretation gate: goal_frame "step_gated goalID k" "not_of goalID k" for goalID k
proof
  fix t rid r s reason now
  let ?f = "\<lambda>x. x\<lparr>gr_Status := s, gr_DecisionReason := reason, gr_UpdatedAt := now\<rparr>"
  assume a: "step_gated goalID k t" "select_row gr_ID rid (gt_reviews t) = Some r" "not_of goalID k r s" "s \<noteq> GoalReviewPending"
  then have "gr_Status x \<noteq> GoalReviewApproved"
    if "x \<in> set (update_rows gr_ID rid ?f (gt_reviews t))" "gr_GoalID x = goalID" "gr_StepID x = k" for x
    using updated_row_from [OF that(1)] that(2,3) selected_row_unique [OF a(2)]
    by (auto simp: step_gated_def not_of_def goal_inv_def)
  with a inv.review_decided [OF _ a(2) _ a(4)] show "step_gated goalID k (t\<lparr>gt_reviews := update_rows gr_ID rid ?f (gt_reviews t)\<rparr>)"
    by (simp add: step_gated_def)
next
  fix t and x :: goal and ss
  assume a: "step_gated goalID k t" "gl_ID x \<notin> gl_ID ` set (gt_goals t)"
    "distinct (map gp_ID (gt_steps t)) \<longrightarrow> distinct (map gp_ID (gt_steps t @ ss))"
  then have "k \<notin> gp_ID ` set ss" by (auto simp: step_gated_def goal_inv_def)
  with a inv.goal_insert [OF _ a(2,3)] show "step_gated goalID k (t\<lparr>gt_goals := gt_goals t @ [x], gt_steps := gt_steps t @ ss\<rparr>)"
    unfolding step_gated_def by (simp add: ball_Un) blast
next
  fix t and h :: "goal_step \<Rightarrow> goal_step" and j
  assume a: "step_gated goalID k t" "\<And>s. gp_ID (h s) = gp_ID s" "\<And>s. gp_GoalID (h s) = gp_GoalID s" "\<And>s. gp_RiskLevel (h s) = gp_RiskLevel s"
  then have "gp_ID ` set (update_rows gp_ID j h (gt_steps t)) = gp_ID ` set (gt_steps t)"
    by (metis list.set_map update_rows_keys)
  moreover from a have "gp_RiskLevel s = ''high''" if "s \<in> set (update_rows gp_ID j h (gt_steps t))" "gp_ID s = k" for s
    using updated_row_from [OF that(1)] that(2) by (auto simp: step_gated_def)
  ultimately show "step_gated goalID k (t\<lparr>gt_steps := update_rows gp_ID j h (gt_steps t)\<rparr>)"
    using a inv.steps_update [of t h j] by (simp add: step_gated_def)
qed (auto simp: step_gated_def not_of_def insert_review_def intro: inv.goals_update inv.verifications_update inv.reviews_insert split: if_splits)

text \<open>The request that approves a step of a goal.\<close>

definition approves :: "('b, 's, 'w) api_state \<Rightarrow> api_action \<Rightarrow> string \<Rightarrow> string \<Rightarrow> bool" where
  "approves a act goalID k =
     (case act of
        RunJob _ \<Rightarrow> False
      | Request meth path body \<Rightarrow>
          meth = ''POST'' \<and> path = ''goals/'' @ goalID @ ''/approve'' \<and>
          (case dec_approval body of
             Inl _ \<Rightarrow> False
           | Inr rid \<Rightarrow>
               (case select_row gr_ID rid (gt_reviews (tables (as_world a))) of
                  None \<Rightarrow> False
                | Some r \<Rightarrow> gr_GoalID r = goalID \<and> gr_StepID r = k)))"

fun approved_in :: "('b, 's, 'w) goal_server \<Rightarrow> api_action list \<Rightarrow> ('b, 's, 'w) api_state \<Rightarrow> string \<Rightarrow> string \<Rightarrow> bool" where
  "approved_in g [] a goalID k = False"
| "approved_in g (act # acts) a goalID k \<longleftrightarrow> approves a act goalID k \<or> approved_in g acts (api_step g act a) goalID k"

abbreviation with_exec where
  "with_exec g c x \<equiv> g\<lparr>gs_coordinator := Some (c\<lparr>gc_exec := x\<rparr>)\<rparr>"

lemma step_gated_step:
  assumes "step_gated goalID k (tables (as_world a))" and "\<not> approves a act goalID k"
  shows "step_gated goalID k (tables (as_world (api_step g act a)))"
  using assms by (intro gate.run) (auto simp: not_of_def approves_def)

lemma coord_Replay_exec [simp]: "coord_Replay (c\<lparr>gc_exec := x\<rparr>) = coord_Replay c"
  by (intro ext) (simp add: coord_Replay_def case_prod_beta Let_def split: sum.split)

lemma requested_exec [simp]:
  "requested_goal (g\<lparr>gs_coordinator := oc\<rparr>) = requested_goal g" "requested_steps (g\<lparr>gs_coordinator := oc\<rparr>) = requested_steps g"
  by (intro ext, simp add: requested_goal_def requested_steps_def requested_step_def [abs_def] generateID_def)+

lemma create_exec [simp]: "create_goal (g\<lparr>gs_coordinator := oc\<rparr>) = create_goal g"
  by (intro ext) (simp add: create_goal_def split: sum.split)

lemma request_exec:
  "api_step (with_exec g c x) (Request meth path body) a = api_step (with_exec g c y) (Request meth path body) a"
  by (simp add: handleAPIGoals_def handleAPIGoalDetail_def handleAPIGoalReplay_def handleAPIGoalExecute_def
      handleAPIGoalResume_def case_prod_beta split: option.split)

lemma job_exec:
  assumes "step_gated goalID k (tables (cs_goal st))"
    and "\<And>w g' s p i. g' \<noteq> goalID \<or> s \<noteq> k \<Longrightarrow> x w g' s p i = y w g' s p i"
  shows "run_job (with_exec g c x) j st = run_job (with_exec g c y) j st"
proof -
  have "coord_Execute (c\<lparr>gc_exec := x\<rparr>) st g' = coord_Execute (c\<lparr>gc_exec := y\<rparr>) st g'" for g'
    using assms by (intro coord_Execute_gate) (auto simp: step_gated_def may_run_def)
  moreover have "coord_Resume (c\<lparr>gc_exec := x\<rparr>) st g' = coord_Resume (c\<lparr>gc_exec := y\<rparr>) st g'" for g'
    using assms by (intro coord_Resume_gate) (fastforce simp: step_gated_def may_run_def)
  ultimately show ?thesis by (simp add: run_job_def split: job.split)
qed

text \<open>
  C27. The store stays consistent. Whatever requests arrive and in whatever order the executions they start
  are run, with whatever failures of the database, keys stay unique and a step never has two pending
  reviews.
\<close>

theorem api_goal_inv:
  assumes "goal_inv (tables (as_world a))"
  shows "goal_inv (tables (as_world (api_run g acts a)))"
  using assms
proof (induction acts arbitrary: a)
  case (Cons act acts)
  then have "goal_inv (tables (as_world (api_step g act a)))" by (intro inv.run) simp_all
  with Cons.IH show ?case by (simp add: api_run_def)
qed (simp add: api_run_def)

text \<open>
  C8. A step of high risk runs only after an approval. From a state in which a step is of high risk and has no
  approved review, as long as no request approves one of its reviews, no sequence of requests and of the
  executions they start depends on what executing the step would do: executors that agree on all the other
  steps lead to the same state. Rejections, resumptions, repeated executions and new goals make
  no difference.
\<close>

theorem api_review_gate:
  assumes "step_gated goalID k (tables (as_world a))" and "\<not> approved_in (with_exec g c x) acts a goalID k"
    and "\<And>w g' s p i. g' \<noteq> goalID \<or> s \<noteq> k \<Longrightarrow> x w g' s p i = y w g' s p i"
  shows "api_run (with_exec g c x) acts a = api_run (with_exec g c y) acts a"
  using assms(1,2)
proof (induction acts arbitrary: a)
  case (Cons act acts)
  then have "step_gated goalID k (tables (as_world (api_step (with_exec g c x) act a)))" by (intro step_gated_step) simp_all
  moreover have "api_step (with_exec g c x) act a = api_step (with_exec g c y) act a"
  proof (cases act)
    case (Request meth path body)
    show ?thesis unfolding Request by (rule request_exec)
  next
    case (RunJob n)
    then show ?thesis using job_exec [of goalID k "as_goal a" x y, OF Cons.prems(1) assms(3)] by simp
  qed
  ultimately show ?case using Cons by (simp add: api_run_def)
qed (simp add: api_run_def)

definition demo_server :: "(event list, memory_store, demo_world) goal_server" where
  "demo_server = \<lparr>gs_store = Some demo_goal_env, gs_coordinator = Some demo_coordinator, gs_random = (\<lambda>n. itoa (int n))\<rparr>"

definition demo_api :: "(event list, memory_store, demo_world) api_state" where
  "demo_api = \<lparr>as_goal = demo_steps_state [GStep (demo_goal_step\<lparr>gp_Seq := 2\<rparr>)], as_jobs = [], as_ids = 0\<rparr>"

definition demo_acts :: "api_action list" where
  "demo_acts = [Request ''POST'' ''goals/g1/execute'' RawNil, RunJob 0, Request ''POST'' ''goals/g1/resume'' RawNil]"

lemma demo_gated: "step_gated ''g1'' ''s1'' (tables (as_world demo_api))"
  by code_simp

theorem api_goal_inv_witness: "goal_inv (tables (as_world (api_run demo_server demo_acts demo_api)))"
  using api_goal_inv demo_gated unfolding step_gated_def by blast

theorem api_review_gate_witness:
  "let bad = (\<lambda>w g s p i. if g = ''g1'' \<and> s = ''s1'' then (w, None, None) else gc_exec demo_coordinator w g s p i)
   in api_run demo_server demo_acts demo_api = api_run (with_exec demo_server demo_coordinator bad) demo_acts demo_api \<and>
      goal_status_of (as_world (api_run demo_server demo_acts demo_api)) ''g1'' = Some GoalPaused"
proof -
  let ?bad = "\<lambda>w g s p i. if g = ''g1'' \<and> s = ''s1'' then (w, None, None) else gc_exec demo_coordinator w g s p i"
  have s: "with_exec demo_server demo_coordinator (gc_exec demo_coordinator) = demo_server" by (simp add: demo_server_def)
  have n: "\<not> approved_in (with_exec demo_server demo_coordinator (gc_exec demo_coordinator)) demo_acts demo_api ''g1'' ''s1''"
    unfolding s by code_simp
  have "api_run demo_server demo_acts demo_api = api_run (with_exec demo_server demo_coordinator ?bad) demo_acts demo_api"
    using s by (intro api_review_gate [OF demo_gated n, of ?bad, unfolded s]) auto
  moreover have "goal_status_of (as_world (api_run demo_server demo_acts demo_api)) ''g1'' = Some GoalPaused" by code_simp
  ultimately show ?thesis by (simp add: Let_def)
qed

end
