(* ===== verification/AppRegistry.thy ===== *)
theory AppRegistry
  imports SqliteStore
begin

text \<open>
  The SQLite registry of app primitives, \<open>internal/control/app_registry.go\<close>, and the interface
  \<open>AppPrimitiveRegistry\<close> as a record of operations, which the in-memory registry of
  \<open>app_manifest.go\<close> and the SQLite one both provide. A row of \<open>app_primitives\<close> is the manifest
  its columns spell, with the time of its last change; the JSON columns are decoded values.
  A transaction works on its own copy of the table and installs it at its commit; every statement
  of it, the begin and the commit included, may fail. Both registries fulfil the contract
  \<open>app_registry\<close>, so its consequences hold for both.
\<close>

section \<open>The interface\<close>

record 's app_ops =
  ao_Register :: "'s \<Rightarrow> app_manifest \<Rightarrow> 's \<times> go_error option"
  ao_Unregister :: "'s \<Rightarrow> string \<Rightarrow> string \<Rightarrow> 's \<times> go_error option"
  ao_Get :: "'s \<Rightarrow> string \<Rightarrow> 's \<times> (go_error + app_manifest option)"
  ao_List :: "'s \<Rightarrow> 's \<times> (go_error + app_manifest list)"
  ao_MarkUnavailable :: "'s \<Rightarrow> string \<Rightarrow> 's \<times> go_error option"

definition mem_app_ops :: "app_registry_state app_ops" where
  "mem_app_ops = \<lparr>ao_Register = mem_register, ao_Unregister = mem_unregister, ao_Get = (\<lambda>s k. (s, Inr (mem_get s k))),
     ao_List = (\<lambda>s. (s, Inr (mem_list s))), ao_MarkUnavailable = mem_mark_unavailable\<rparr>"

section \<open>Encoding manifests\<close>

fun availability_string :: "availability \<Rightarrow> string" where
  "availability_string AppPrimitiveActive = ''active''"
| "availability_string AppPrimitiveUnavailable = ''unavailable''"
| "availability_string AppPrimitiveReactivating = ''reactivating''"
| "availability_string (AvailabilityOther s) = s"

definition opt_text :: "string \<Rightarrow> string \<Rightarrow> jmap" where
  "opt_text k v = (if v = [] then [] else [(k, JStr v)])"

definition raw_value :: "raw \<Rightarrow> json" where
  "raw_value r = (case r of Raw j \<Rightarrow> j | _ \<Rightarrow> JNull)"

definition verify_json :: "app_verify \<Rightarrow> json" where
  "verify_json v = JObj ((''strategy'', JStr (av_Strategy v)) # opt_text ''primitive'' (av_Primitive v) @
     opt_text ''command'' (av_Command v))"

definition rollback_json :: "app_rollback \<Rightarrow> json" where
  "rollback_json r = JObj ((''strategy'', JStr (ar_Strategy r)) # opt_text ''primitive'' (ar_Primitive r))"

definition manifest_json :: "app_manifest \<Rightarrow> json" where
  "manifest_json m = JObj ([(''app_id'', JStr (mf_AppID m)), (''name'', JStr (mf_Name m)),
     (''description'', JStr (mf_Description m)), (''input_schema'', raw_value (mf_InputSchema m)),
     (''output_schema'', raw_value (mf_OutputSchema m))] @ opt_text ''ui_layout_hint'' (mf_UILayoutHint m) @
     [(''socket_path'', JStr (mf_SocketPath m))] @ opt_text ''status'' (availability_string (mf_Availability m)) @
     opt_text ''verify_endpoint'' (mf_VerifyEndpoint m) @
     (case mf_Verify m of None \<Rightarrow> [] | Some v \<Rightarrow> [(''verify'', verify_json v)]) @
     opt_text ''rollback_endpoint'' (mf_RollbackEndpoint m) @
     (case mf_Rollback m of None \<Rightarrow> [] | Some r \<Rightarrow> [(''rollback'', rollback_json r)]) @
     [(''intent'', intent_json (mf_Intent m))])"

section \<open>The SQLite registry\<close>

record app_row =
  ap_manifest :: app_manifest
  ap_updated_at :: int

record 'b appreg_env =
  ae_sql :: sql_env
  ae_publish :: "('b \<Rightarrow> event \<Rightarrow> 'b) option"

record 'b appreg_world =
  ax_db :: "app_row list sql_db"
  ax_bus :: 'b

definition row_name :: "app_row \<Rightarrow> string" where
  "row_name r = mf_Name (ap_manifest r)"

definition appreg_publish :: "'b appreg_env \<Rightarrow> string \<Rightarrow> string \<Rightarrow> json \<Rightarrow> 'b appreg_world \<Rightarrow> 'b appreg_world" where
  "appreg_publish env typ appID payload w =
     (case ae_publish env of
        None \<Rightarrow> w
      | Some f \<Rightarrow> w\<lparr>ax_bus := f (ax_bus w) (zero_event\<lparr>ev_Type := typ, ev_Source := ''adapter'',
                     ev_Message := appID, ev_Data := json_marshal payload\<rparr>)\<rparr>)"

text \<open>One statement inside a transaction: its error ends the transaction.\<close>

definition tx_stmt :: "sql_env \<Rightarrow> nat \<Rightarrow> string \<Rightarrow> (nat \<Rightarrow> nat \<times> (go_error + 'a)) \<Rightarrow> nat \<times> (go_error + 'a)" where
  "tx_stmt env n what k =
     (case sq_fault env n of Some e \<Rightarrow> (Suc n, Inl (GoWrap what e)) | None \<Rightarrow> k (Suc n))"

text \<open>\<open>UPDATE app_primitives SET availability, updated_at WHERE app_id\<close>\<close>

definition set_rows :: "string \<Rightarrow> availability \<Rightarrow> int \<Rightarrow> app_row list \<Rightarrow> app_row list" where
  "set_rows app a now rows =
     map (\<lambda>r. if mf_AppID (ap_manifest r) = app
              then r\<lparr>ap_manifest := (ap_manifest r)\<lparr>mf_Availability := a\<rparr>, ap_updated_at := now\<rparr> else r) rows"

definition register_write ::
  "sql_env \<Rightarrow> nat \<Rightarrow> app_manifest \<Rightarrow> app_row list \<Rightarrow> nat \<times> (go_error + app_row list \<times> bool)" where
  "register_write env n2 m rows =
     (let reactivating = list_ex (\<lambda>r. mf_AppID (ap_manifest r) = mf_AppID m \<and>
                           mf_Availability (ap_manifest r) = AppPrimitiveUnavailable) rows;
          rows1 = set_rows (mf_AppID m) AppPrimitiveActive (sq_now env n2) rows;
          row = \<lparr>ap_manifest = m\<lparr>mf_Availability := AppPrimitiveActive\<rparr>, ap_updated_at = sq_now env (Suc n2)\<rparr>
      in tx_stmt env n2 ''reactivate app registrations'' (\<lambda>n3.
         tx_stmt env n3 ''upsert app registration'' (\<lambda>n4.
         tx_stmt env n4 ''commit app registration'' (\<lambda>n5. (n5, Inr (upsert_row row_name row rows1, reactivating))))))"

definition register_tx ::
  "sql_env \<Rightarrow> nat \<Rightarrow> app_manifest \<Rightarrow> app_row list \<Rightarrow> nat \<times> (go_error + app_row list \<times> bool)" where
  "register_tx env n0 m rows =
     tx_stmt env n0 ''begin app registration tx'' (\<lambda>n1.
     tx_stmt env n1 ''query existing app registrations'' (\<lambda>n2.
       case select_row row_name (mf_Name m) rows of
         Some r \<Rightarrow>
           (if mf_AppID (ap_manifest r) \<noteq> mf_AppID m
            then (n2, Inl (app_conflict (mf_Name m) (mf_AppID (ap_manifest r))))
            else register_write env n2 m rows)
       | None \<Rightarrow> register_write env n2 m rows))"

definition sqlreg_Register :: "'b appreg_env \<Rightarrow> 'b appreg_world \<Rightarrow> app_manifest \<Rightarrow> 'b appreg_world \<times> go_error option" where
  "sqlreg_Register env w manifest =
     (case NormalizeAppPrimitiveManifest manifest of
        Inl e \<Rightarrow> (w, Some e)
      | Inr m \<Rightarrow>
          (let (n, r) = register_tx (ae_sql env) (db_stmts (ax_db w)) m (db_tables (ax_db w));
               d = (ax_db w)\<lparr>db_stmts := n\<rparr>
           in case r of
                Inl e \<Rightarrow> (w\<lparr>ax_db := d\<rparr>, Some e)
              | Inr (rows, reactivating) \<Rightarrow>
                  (appreg_publish env (if reactivating then ''adapter.reactivated'' else ''adapter.registered'') (mf_AppID m)
                     (manifest_json (m\<lparr>mf_Availability := AppPrimitiveActive\<rparr>)) (w\<lparr>ax_db := d\<lparr>db_tables := rows\<rparr>\<rparr>), None)))"

definition sqlreg_Unregister :: "'b appreg_env \<Rightarrow> 'b appreg_world \<Rightarrow> string \<Rightarrow> string \<Rightarrow> 'b appreg_world \<times> go_error option" where
  "sqlreg_Unregister env w appID name =
     (let (d, e) = sql_exec (ae_sql env) (ax_db w)
            (\<lambda>rows. Inr (filter (\<lambda>r. \<not> (mf_AppID (ap_manifest r) = appID \<and> row_name r = name)) rows))
      in (w\<lparr>ax_db := d\<rparr>, map_option (GoWrap ''delete app registration'') e))"

definition sqlreg_Get :: "'b appreg_env \<Rightarrow> 'b appreg_world \<Rightarrow> string \<Rightarrow> 'b appreg_world \<times> (go_error + app_manifest option)" where
  "sqlreg_Get env w name =
     (let (d, r) = sql_query (ae_sql env) (ax_db w) (\<lambda>rows. map_option ap_manifest (select_row row_name name rows))
      in (w\<lparr>ax_db := d\<rparr>, r))"

definition sqlreg_List :: "'b appreg_env \<Rightarrow> 'b appreg_world \<Rightarrow> 'b appreg_world \<times> (go_error + app_manifest list)" where
  "sqlreg_List env w =
     (let (d, r) = sql_query (ae_sql env) (ax_db w) (\<lambda>rows. map ap_manifest (sort_key row_name rows))
      in (w\<lparr>ax_db := d\<rparr>, map_sum (GoWrap ''list app registrations'') id r))"

definition mark_tx :: "sql_env \<Rightarrow> nat \<Rightarrow> string \<Rightarrow> app_row list \<Rightarrow> nat \<times> (go_error + app_row list option)" where
  "mark_tx env n0 app rows =
     tx_stmt env n0 ''begin app availability tx'' (\<lambda>n1.
     tx_stmt env n1 ''query app registrations for unavailability'' (\<lambda>n2.
       if list_all (\<lambda>r. mf_AppID (ap_manifest r) = app \<longrightarrow> mf_Availability (ap_manifest r) = AppPrimitiveUnavailable) rows
       then (n2, Inr None)
       else
         tx_stmt env n2 ''update app availability'' (\<lambda>n3.
         tx_stmt env n3 ''commit app availability'' (\<lambda>n4.
           (n4, Inr (Some (set_rows app AppPrimitiveUnavailable (sq_now env n2) rows)))))))"

definition sqlreg_MarkUnavailable :: "'b appreg_env \<Rightarrow> 'b appreg_world \<Rightarrow> string \<Rightarrow> 'b appreg_world \<times> go_error option" where
  "sqlreg_MarkUnavailable env w app =
     (let (n, r) = mark_tx (ae_sql env) (db_stmts (ax_db w)) app (db_tables (ax_db w));
          d = (ax_db w)\<lparr>db_stmts := n\<rparr>
      in case r of
           Inl e \<Rightarrow> (w\<lparr>ax_db := d\<rparr>, Some e)
         | Inr None \<Rightarrow> (w\<lparr>ax_db := d\<rparr>, None)
         | Inr (Some rows) \<Rightarrow>
             (appreg_publish env ''adapter.unavailable'' app
                (JObj [(''app_id'', JStr app), (''status'', JStr ''unavailable''),
                   (''primitives'', JArr (map manifest_json (sort_key mf_Name
                      (map ap_manifest (filter (\<lambda>r. mf_AppID (ap_manifest r) = app) rows)))))])
                (w\<lparr>ax_db := d\<lparr>db_tables := rows\<rparr>\<rparr>), None))"

definition sql_app_ops :: "'b appreg_env \<Rightarrow> 'b appreg_world app_ops" where
  "sql_app_ops env = \<lparr>ao_Register = sqlreg_Register env, ao_Unregister = sqlreg_Unregister env, ao_Get = sqlreg_Get env,
     ao_List = sqlreg_List env, ao_MarkUnavailable = sqlreg_MarkUnavailable env\<rparr>"

section \<open>The contract\<close>

text \<open>What a working lookup finds, and the invariant of the table.\<close>

definition appreg_view :: "'b appreg_world \<Rightarrow> string \<Rightarrow> app_manifest option" where
  "appreg_view w k = map_option ap_manifest (select_row row_name k (db_tables (ax_db w)))"

definition appreg_inv :: "'b appreg_world \<Rightarrow> bool" where
  "appreg_inv w \<longleftrightarrow> distinct (map row_name (db_tables (ax_db w))) \<and>
     (\<forall>r \<in> set (db_tables (ax_db w)). normal_manifest (ap_manifest r))"

lemma appreg_publish_db [simp]: "ax_db (appreg_publish env typ a p w) = ax_db w"
  by (simp add: appreg_publish_def split: option.split)

lemma tx_stmt_Inr: "tx_stmt env n what k = (n', Inr x) \<longleftrightarrow> sq_fault env n = None \<and> k (Suc n) = (n', Inr x)"
  by (simp add: tx_stmt_def split: option.split)

lemma set_rows_select:
  "map_option ap_manifest (select_row row_name k (set_rows app a now rows)) =
   map_option (set_availability app a) (map_option ap_manifest (select_row row_name k rows))"
  by (induction rows) (auto simp: set_rows_def select_row_def row_name_def set_availability_def)

lemma set_rows_names: "map row_name (set_rows app a now rows) = map row_name rows"
  by (induction rows) (auto simp: set_rows_def row_name_def)

lemma set_rows_normal:
  "\<forall>r \<in> set rows. normal_manifest (ap_manifest r) \<Longrightarrow> normalizeAppPrimitiveAvailability a = a \<Longrightarrow>
   r \<in> set (set_rows app a now rows) \<Longrightarrow> normal_manifest (ap_manifest r)"
proof -
  assume H: "\<forall>r \<in> set rows. normal_manifest (ap_manifest r)" "normalizeAppPrimitiveAvailability a = a"
    "r \<in> set (set_rows app a now rows)"
  then obtain x where x: "x \<in> set rows" "ap_manifest r = set_availability app a (ap_manifest x)"
    by (auto simp: set_rows_def set_availability_def)
  with H(1,2) show ?thesis by (simp add: normal_set_availability)
qed

lemma sqlreg_Register_cases:
  assumes "sqlreg_Register env w m = (w', eo)"
  obtains (rejected) e where "eo = Some e" "db_tables (ax_db w') = db_tables (ax_db w)"
  | (accepted) n row now where "eo = None" "NormalizeAppPrimitiveManifest m = Inr n"
      "pred_option (\<lambda>m'. mf_AppID m' = mf_AppID m) (appreg_view w (mf_Name m))"
      "ap_manifest row = n\<lparr>mf_Availability := AppPrimitiveActive\<rparr>"
      "db_tables (ax_db w') = upsert_row row_name row (set_rows (mf_AppID m) AppPrimitiveActive now (db_tables (ax_db w)))"
proof (cases "NormalizeAppPrimitiveManifest m")
  case (Inl e)
  with assms show ?thesis by (intro rejected) (auto simp: sqlreg_Register_def)
next
  case (Inr n)
  note nn = Normalize_normal [OF Inr]
  let ?rows = "db_tables (ax_db w)"
  obtain k r where tx: "register_tx (ae_sql env) (db_stmts (ax_db w)) n ?rows = (k, r)" by fastforce
  show ?thesis
  proof (cases r)
    case (Inl e)
    with assms Inr tx show ?thesis by (intro rejected) (auto simp: sqlreg_Register_def)
  next
    case r: (Inr p)
    then obtain n2 where n2: "register_write (ae_sql env) n2 n ?rows = (k, Inr p)"
      and own: "\<And>x. select_row row_name (mf_Name n) ?rows = Some x \<Longrightarrow> mf_AppID (ap_manifest x) = mf_AppID n"
      using tx by (auto simp: register_tx_def tx_stmt_Inr split: option.splits if_splits)
    let ?row = "\<lparr>ap_manifest = n\<lparr>mf_Availability := AppPrimitiveActive\<rparr>, ap_updated_at = sq_now (ae_sql env) (Suc n2)\<rparr>"
    from n2 have "fst p = upsert_row row_name ?row (set_rows (mf_AppID n) AppPrimitiveActive (sq_now (ae_sql env) n2) ?rows)"
      by (auto simp: register_write_def Let_def tx_stmt_Inr)
    with assms Inr tx r own nn(2,3) show ?thesis
      by (intro accepted [of n ?row "sq_now (ae_sql env) n2"])
         (auto simp: sqlreg_Register_def appreg_view_def option.pred_set split: prod.splits)
  qed
qed

lemma sqlreg_Unregister_cases:
  assumes "sqlreg_Unregister env w a k = (w', eo)"
  obtains (failed) e where "eo = Some e" "db_tables (ax_db w') = db_tables (ax_db w)"
  | (deleted) "eo = None"
      "db_tables (ax_db w') = filter (\<lambda>r. \<not> (mf_AppID (ap_manifest r) = a \<and> row_name r = k)) (db_tables (ax_db w))"
proof -
  obtain d e where x: "sql_exec (ae_sql env) (ax_db w)
      (\<lambda>rows. Inr (filter (\<lambda>r. \<not> (mf_AppID (ap_manifest r) = a \<and> row_name r = k)) rows)) = (d, e)" by fastforce
  then show ?thesis
  proof (cases rule: sql_exec_cases)
    case (failed er)
    with assms x show ?thesis by (intro that(1)) (auto simp: sqlreg_Unregister_def)
  next
    case (ok t)
    with assms x show ?thesis by (intro that(2)) (auto simp: sqlreg_Unregister_def)
  qed
qed

lemma sqlreg_Mark_cases:
  assumes "sqlreg_MarkUnavailable env w a = (w', eo)"
  obtains (failed) e where "eo = Some e" "db_tables (ax_db w') = db_tables (ax_db w)"
  | (idle) "eo = None" "db_tables (ax_db w') = db_tables (ax_db w)"
      "\<forall>r \<in> set (db_tables (ax_db w)). mf_AppID (ap_manifest r) = a \<longrightarrow> mf_Availability (ap_manifest r) = AppPrimitiveUnavailable"
  | (marked) now where "eo = None" "db_tables (ax_db w') = set_rows a AppPrimitiveUnavailable now (db_tables (ax_db w))"
proof -
  obtain n r where tx: "mark_tx (ae_sql env) (db_stmts (ax_db w)) a (db_tables (ax_db w)) = (n, r)" by fastforce
  show ?thesis
  proof (cases r)
    case (Inl e)
    with assms tx show ?thesis by (intro failed) (auto simp: sqlreg_MarkUnavailable_def)
  next
    case (Inr p)
    show ?thesis
    proof (cases p)
      case None
      with tx Inr have "\<forall>r \<in> set (db_tables (ax_db w)). mf_AppID (ap_manifest r) = a \<longrightarrow>
          mf_Availability (ap_manifest r) = AppPrimitiveUnavailable"
        by (auto simp: mark_tx_def tx_stmt_Inr list_all_iff split: if_splits)
      with assms tx Inr None show ?thesis by (intro idle) (auto simp: sqlreg_MarkUnavailable_def)
    next
      case (Some rows)
      with tx Inr obtain now where "rows = set_rows a AppPrimitiveUnavailable now (db_tables (ax_db w))"
        by (auto simp: mark_tx_def tx_stmt_Inr split: if_splits)
      with assms tx Inr Some show ?thesis by (intro marked [of now]) (auto simp: sqlreg_MarkUnavailable_def)
    qed
  qed
qed

lemma upsert_row_set: "x \<in> set (upsert_row key r rows) \<Longrightarrow> x = r \<or> x \<in> set rows"
  by (auto simp: upsert_row_def update_rows_def split: if_splits)

lemma filter_select:
  "distinct (map key rows) \<Longrightarrow> select_row key j (filter P rows) =
     (case select_row key j rows of None \<Rightarrow> None | Some r \<Rightarrow> if P r then Some r else None)"
proof (induction rows)
  case Nil
  then show ?case by (simp add: select_row_def)
next
  case (Cons a rows)
  have "select_row key (key a) rows = None"
  proof (rule ccontr)
    assume "select_row key (key a) rows \<noteq> None"
    then obtain r where "r \<in> set rows" "key r = key a" by (auto dest: select_row_Some)
    then have "key a \<in> key ` set rows" by (metis imageI)
    with Cons.prems show False by simp
  qed
  with Cons show ?case by (auto simp: select_row_def split: option.splits)
qed

interpretation sql_reg: app_registry "sqlreg_Register env" "sqlreg_Unregister env" appreg_view "sqlreg_MarkUnavailable env" appreg_inv
  for env
proof (unfold_locales, goal_cases)
  case (1 s m s' e)
  from 1(2) show ?case by (cases rule: sqlreg_Register_cases) (simp_all add: appreg_view_def [abs_def])
next
  case (2 s m)
  obtain s' eo where r: "sqlreg_Register env s m = (s', eo)" by fastforce
  then have "appreg_inv s'"
  proof (cases rule: sqlreg_Register_cases)
    case rejected
    with 2 show ?thesis by (simp add: appreg_inv_def)
  next
    case (accepted n row now)
    have "normal_manifest (ap_manifest row)"
      using normal_availability_update [OF Normalize_normal(1) [OF accepted(2)]] accepted(4) by simp
    moreover have "distinct (map row_name (db_tables (ax_db s')))"
      unfolding accepted(5) by (rule upsert_row_distinct) (use 2 in \<open>simp add: appreg_inv_def set_rows_names\<close>)
    ultimately show ?thesis
      using 2 accepted(5) upsert_row_set set_rows_normal [of "db_tables (ax_db s)" AppPrimitiveActive _ "mf_AppID m" now]
      by (fastforce simp: appreg_inv_def)
  qed
  with r show ?case by simp
next
  case (3 s m s')
  from 3(2) show ?case
  proof (cases rule: sqlreg_Register_cases)
    case (accepted n row now)
    have "row_name row = mf_Name m" using accepted(4) Normalize_normal(2) [OF accepted(2)] by (simp add: row_name_def)
    with accepted show ?thesis
      by (intro exI [of _ n] exI [of _ AppPrimitiveActive]) (simp add: appreg_view_def upsert_row_select)
  qed simp
next
  case (4 s m s' k)
  from 4(2) show ?case
  proof (cases rule: sqlreg_Register_cases)
    case (accepted n row now)
    have "row_name row = mf_Name m" using accepted(4) Normalize_normal(2) [OF accepted(2)] by (simp add: row_name_def)
    with accepted(5) 4(3) show ?thesis by (simp add: appreg_view_def upsert_row_select set_rows_select)
  qed simp
next
  case (5 s m m')
  obtain s' eo where r: "sqlreg_Register env s m = (s', eo)" by fastforce
  then show ?case by (cases rule: sqlreg_Register_cases) (use 5 r in auto)
next
  case (6 s a k)
  obtain s' eo where r: "sqlreg_Unregister env s a k = (s', eo)" by fastforce
  then have "appreg_inv s'"
    by (cases rule: sqlreg_Unregister_cases) (use 6 in \<open>auto simp: appreg_inv_def distinct_map_filter\<close>)
  with r show ?case by simp
next
  case (7 s a k s' m)
  from 7(2) show ?case
  proof (cases rule: sqlreg_Unregister_cases)
    case deleted
    with 7(1,3,4) show ?thesis
      by (intro ext) (auto simp: appreg_view_def appreg_inv_def filter_select dest: select_row_Some split: option.splits)
  qed simp
next
  case (8 s k' k a)
  obtain s' eo where r: "sqlreg_Unregister env s a k = (s', eo)" by fastforce
  then have "appreg_view s' k' = appreg_view s k'"
    by (cases rule: sqlreg_Unregister_cases)
       (use 8 in \<open>auto simp: appreg_view_def appreg_inv_def filter_select dest: select_row_Some split: option.splits\<close>)
  with r show ?case by simp
next
  case (9 s a k s' e)
  from 9(2) show ?case by (cases rule: sqlreg_Unregister_cases) (simp_all add: appreg_view_def [abs_def])
next
  case (10 s a)
  obtain s' eo where r: "sqlreg_MarkUnavailable env s a = (s', eo)" by fastforce
  then have "appreg_inv s'"
    by (cases rule: sqlreg_Mark_cases)
       (use 10 set_rows_normal [of "db_tables (ax_db s)" AppPrimitiveUnavailable _ a] in \<open>auto simp: appreg_inv_def set_rows_names\<close>)
  with r show ?case by simp
next
  case (11 s a s' k)
  from 11(2) show ?case
  proof (cases rule: sqlreg_Mark_cases)
    case idle
    have "set_availability a AppPrimitiveUnavailable (ap_manifest r) = ap_manifest r"
      if "select_row row_name k (db_tables (ax_db s)) = Some r" for r
      using idle(3) select_row_Some [OF that] by (simp add: set_availability_def)
    with idle(2) show ?thesis by (cases "select_row row_name k (db_tables (ax_db s))") (auto simp: appreg_view_def)
  qed (simp_all add: appreg_view_def set_rows_select)
next
  case (12 s a s' e)
  from 12(2) show ?case by (cases rule: sqlreg_Mark_cases) (simp_all add: appreg_view_def [abs_def])
next
  case (13 s k m)
  then show ?case by (auto simp: appreg_view_def appreg_inv_def row_name_def dest: select_row_Some)
qed

section \<open>Properties\<close>

definition sqlreg_run :: "'b appreg_env \<Rightarrow> reg_op list \<Rightarrow> 'b appreg_world \<Rightarrow> 'b appreg_world" where
  "sqlreg_run env ops w = fold (reg_step (sqlreg_Register env) (sqlreg_Unregister env) (sqlreg_MarkUnavailable env)) ops w"

text \<open>Unlike the in-memory registry, this one removes a name only for its owner.\<close>

lemma sqlreg_unregister_foreign:
  assumes "appreg_inv w" and "appreg_view w k = Some m" and "mf_AppID m \<noteq> a"
  shows "appreg_view (fst (sqlreg_Unregister env w a k)) k = Some m"
proof -
  obtain w' eo where u: "sqlreg_Unregister env w a k = (w', eo)" by fastforce
  then have "appreg_view w' k = Some m"
    by (cases rule: sqlreg_Unregister_cases)
       (use assms in \<open>auto simp: appreg_view_def appreg_inv_def filter_select split: option.splits\<close>)
  with u show ?thesis by simp
qed

lemma sqlreg_step_owner:
  assumes "appreg_inv w" and "appreg_view w k = Some m" and "op \<noteq> OpUnregister (mf_AppID m) k"
  shows "\<exists>m'. appreg_view (reg_step (sqlreg_Register env) (sqlreg_Unregister env) (sqlreg_MarkUnavailable env) op w) k = Some m' \<and>
     mf_AppID m' = mf_AppID m"
proof (cases op)
  case (OpRegister n)
  with sql_reg.register_keeps_owner [OF assms(1,2)] show ?thesis by simp
next
  case (OpUnregister a j)
  show ?thesis
  proof (cases "j = k")
    case True
    with OpUnregister assms sqlreg_unregister_foreign [OF assms(1,2), of a env] show ?thesis by auto
  next
    case False
    with OpUnregister assms(2) sql_reg.unregister_other [OF assms(1), of k j env a] show ?thesis by auto
  qed
next
  case (OpMarkUnavailable a)
  with sql_reg.mark_keeps_owner [OF assms(1,2)] show ?thesis by simp
qed

definition empty_appreg :: "'b \<Rightarrow> 'b appreg_world" where
  "empty_appreg b = \<lparr>ax_db = \<lparr>db_tables = [], db_stmts = 0\<rparr>, ax_bus = b\<rparr>"

lemma empty_appreg_inv: "appreg_inv (empty_appreg b)"
  by (simp add: appreg_inv_def empty_appreg_def)

lemma sqlreg_run_inv: "appreg_inv w \<Longrightarrow> appreg_inv (sqlreg_run env ops w)"
  unfolding sqlreg_run_def by (rule sql_reg.run_inv)

text \<open>
  C30. The SQLite registry protects names. Starting from an empty table, after any history of
  operations and whichever statements fail, no lookup finds a name in a reserved namespace and
  every manifest found is in normal form; and a registered name keeps its owner until that owner
  itself unregisters it: no operation of another application removes or takes over the name.
\<close>

theorem sql_registry_ownership:
  assumes "appreg_view (sqlreg_run env ops (empty_appreg b)) k = Some m"
    and "OpUnregister (mf_AppID m) k \<notin> set later"
  shows "(\<forall>p \<in> set reservedSystemPrimitiveNamespaces. \<not> has_prefix k p) \<and> NormalizeAppPrimitiveManifest m = Inr m \<and>
    (\<exists>m'. appreg_view (sqlreg_run env later (sqlreg_run env ops (empty_appreg b))) k = Some m' \<and> mf_AppID m' = mf_AppID m)"
proof (intro conjI)
  have inv: "appreg_inv (sqlreg_run env ops (empty_appreg b))" by (rule sqlreg_run_inv [OF empty_appreg_inv])
  show "\<forall>p \<in> set reservedSystemPrimitiveNamespaces. \<not> has_prefix k p"
    using sql_reg.reserved_absent [OF inv] assms(1) by fastforce
  show "NormalizeAppPrimitiveManifest m = Inr m"
    using sql_reg.get_normal [OF inv assms(1)] Normalize_fixed by blast
  have "appreg_inv w \<Longrightarrow> appreg_view w k = Some m0 \<Longrightarrow> OpUnregister (mf_AppID m0) k \<notin> set later \<Longrightarrow>
      \<exists>m'. appreg_view (sqlreg_run env later w) k = Some m' \<and> mf_AppID m' = mf_AppID m0" for w m0
  proof (induction later arbitrary: w m0)
    case Nil
    then show ?case by (simp add: sqlreg_run_def)
  next
    case (Cons op later)
    let ?w = "reg_step (sqlreg_Register env) (sqlreg_Unregister env) (sqlreg_MarkUnavailable env) op w"
    from Cons.prems have "op \<noteq> OpUnregister (mf_AppID m0) k" by auto
    from sqlreg_step_owner [OF Cons.prems(1,2) this] obtain m1 where
      m1: "appreg_view ?w k = Some m1" "mf_AppID m1 = mf_AppID m0" by blast
    from Cons.IH [OF sql_reg.step_inv [OF Cons.prems(1)] m1(1)] m1(2) Cons.prems(3) show ?case
      by (simp add: sqlreg_run_def)
  qed
  from this [OF inv assms] show "\<exists>m'. appreg_view (sqlreg_run env later (sqlreg_run env ops (empty_appreg b))) k = Some m' \<and>
    mf_AppID m' = mf_AppID m" .
qed

definition demo_appreg_env :: "event list appreg_env" where
  "demo_appreg_env = \<lparr>ae_sql = \<lparr>sq_fault = (\<lambda>n. if n = 6 then Some (GoErr ''disk'') else None), sq_now = int\<rparr>,
     ae_publish = Some (\<lambda>evs e. evs @ [e])\<rparr>"

theorem sql_registry_ownership_witness:
  "\<exists>m'. appreg_view (sqlreg_run demo_appreg_env [OpUnregister ''evil'' ''kv.set'', OpRegister (demo_manifest\<lparr>mf_AppID := ''evil''\<rparr>),
       OpMarkUnavailable ''kv''] (sqlreg_run demo_appreg_env [OpRegister demo_manifest] (empty_appreg []))) ''kv.set'' = Some m' \<and>
     mf_AppID m' = ''kv''"
proof -
  have "map_option mf_AppID (appreg_view (sqlreg_run demo_appreg_env [OpRegister demo_manifest] (empty_appreg [])) ''kv.set'') = Some ''kv''"
    by code_simp
  then obtain m where m: "appreg_view (sqlreg_run demo_appreg_env [OpRegister demo_manifest] (empty_appreg [])) ''kv.set'' = Some m"
    "mf_AppID m = ''kv''" by blast
  from sql_registry_ownership [OF m(1), of "[OpUnregister ''evil'' ''kv.set'', OpRegister (demo_manifest\<lparr>mf_AppID := ''evil''\<rparr>),
       OpMarkUnavailable ''kv'']"] m(2) show ?thesis by simp
qed

end
