(* ===== verification/Router.thy ===== *)
theory Router
  imports AppRegistry PrimitiveMeta "HOL-Library.Word" "HOL-Library.AList"
begin

text \<open>
  Dispatch of primitive calls: \<open>internal/sandbox/router.go\<close> (the router of primitives and the
  multiplexing runtime driver) and \<open>internal/goal/executor_adapter.go\<close> (the router as the engine's
  executor). A built-in primitive runs on the world \<open>'w\<close>; an app primitive is one or more JSON-RPC
  exchanges over a Unix socket, whose three steps (dial, write a line, read a line) are parameters
  acting on the same world. The registry of app primitives is any provider of the interface
  \<open>app_ops\<close>, on its own state. Request ids are the 64-bit counter of the code. Deadlines are not
  modelled: an exchange that times out is one whose dial, write or read fails.
\<close>

record ('s, 'w) router =
  rt_registry :: "'w registry option"
  rt_apps :: "'s app_ops option"
  rt_dial :: "'w \<Rightarrow> string \<Rightarrow> 'w \<times> go_error option"
  rt_send :: "'w \<Rightarrow> string \<Rightarrow> json \<Rightarrow> 'w \<times> go_error option"
  rt_recv :: "'w \<Rightarrow> string \<Rightarrow> 'w \<times> (go_error + string)"
  rt_now :: "'w \<Rightarrow> int"

record ('s, 'w) router_state =
  rs_apps :: 's
  rs_world :: 'w
  rs_requestID :: "64 word"

definition RegisterAppRegistry :: "('s, 'w) router \<Rightarrow> 's app_ops option \<Rightarrow> ('s, 'w) router" where
  "RegisterAppRegistry r reg = r\<lparr>rt_apps := reg\<rparr>"

section \<open>One exchange\<close>

definition appPrimitiveUnavailableError :: "app_manifest \<Rightarrow> go_error" where
  "appPrimitiveUnavailableError m = PrimitiveError ''EXECUTION_ERROR'' (''adapter '' @ mf_AppID m @ '' is unavailable'')"

definition app_request :: "64 word \<Rightarrow> string \<Rightarrow> json \<Rightarrow> json" where
  "app_request i meth params = JObj [(''id'', JNum (uint i)), (''method'', JStr meth), (''params'', params)]"

text \<open>A \<open>uint64\<close> field: absent or null is zero, a number outside the range is an error.\<close>

definition dec_uint64 :: "jmap \<Rightarrow> string \<Rightarrow> int decoded" where
  "dec_uint64 m k =
     (case jget m k of
        None \<Rightarrow> Inr 0
      | Some JNull \<Rightarrow> Inr 0
      | Some (JNum i) \<Rightarrow> (if 0 \<le> i \<and> i < 2 ^ 64 then Inr i else Inl json_error)
      | _ \<Rightarrow> Inl json_error)"

definition dec_app_response :: "string \<Rightarrow> (raw \<times> string option) decoded" where
  "dec_app_response line =
     dec_bind (dec_map (parse_raw line)) (\<lambda>m.
     dec_bind (dec_uint64 m ''id'') (\<lambda>_.
       case jget m ''error'' of
         None \<Rightarrow> Inr (field_raw m ''result'', None)
       | Some JNull \<Rightarrow> Inr (field_raw m ''result'', None)
       | Some j \<Rightarrow>
           dec_bind (dec_map (Raw j)) (\<lambda>e.
           dec_bind (field_int e ''code'') (\<lambda>_.
           dec_bind (field_string e ''message'') (\<lambda>msg.
             Inr (field_raw m ''result'', Some msg))))))"

definition app_outcome :: "string \<Rightarrow> go_error + prim_result" where
  "app_outcome line =
     (case dec_app_response line of
        Inl e \<Rightarrow> Inl e
      | Inr (_, Some msg) \<Rightarrow> Inl (GoErr (''app_primitive_error: '' @ msg))
      | Inr (result, None) \<Rightarrow>
          (if raw_len0 result \<or> result = Raw JNull then Inr (zero_prim_result\<lparr>pr_Data := JNull\<rparr>)
           else case dec_any result of
                  Inl e \<Rightarrow> Inl e
                | Inr data \<Rightarrow> Inr (zero_prim_result\<lparr>pr_Data := data\<rparr>)))"

definition app_exchange ::
  "('s, 'w) router \<Rightarrow> ('s, 'w) router_state \<Rightarrow> string \<Rightarrow> string \<Rightarrow> raw \<Rightarrow> ('s, 'w) router_state \<times> (go_error + prim_result)" where
  "app_exchange r st socketPath meth params =
     (let i = rs_requestID st + 1;
          st1 = st\<lparr>rs_requestID := i\<rparr>
      in case params of
           Raw j \<Rightarrow>
             (let (w2, werr) = rt_send r (rs_world st1) socketPath (app_request i meth j);
                  st2 = st1\<lparr>rs_world := w2\<rparr>
              in case werr of
                   Some e \<Rightarrow> (st2, Inl e)
                 | None \<Rightarrow>
                     (let (w3, line) = rt_recv r w2 socketPath;
                          st3 = st2\<lparr>rs_world := w3\<rparr>
                      in case line of Inl e \<Rightarrow> (st3, Inl e) | Inr l \<Rightarrow> (st3, app_outcome l)))
         | _ \<Rightarrow> (st1, Inl json_error))"

definition default_params :: "raw \<Rightarrow> raw" where
  "default_params params = (if raw_len0 params then Raw (JObj []) else params)"

definition mark_app :: "('s, 'w) router \<Rightarrow> ('s, 'w) router_state \<Rightarrow> string \<Rightarrow> ('s, 'w) router_state" where
  "mark_app r st appID =
     (case rt_apps r of
        None \<Rightarrow> st
      | Some ops \<Rightarrow> st\<lparr>rs_apps := fst (ao_MarkUnavailable ops (rs_apps st) appID)\<rparr>)"

definition callAppSocket ::
  "('s, 'w) router \<Rightarrow> ('s, 'w) router_state \<Rightarrow> app_manifest \<Rightarrow> string \<Rightarrow> string \<Rightarrow> raw
   \<Rightarrow> ('s, 'w) router_state \<times> (go_error + prim_result)" where
  "callAppSocket r st m socketPath meth params =
     (let (w1, derr) = rt_dial r (rs_world st) socketPath;
          st1 = st\<lparr>rs_world := w1\<rparr>
      in case derr of
           Some e \<Rightarrow> (mark_app r st1 (mf_AppID m), Inl (appPrimitiveUnavailableError m))
         | None \<Rightarrow> app_exchange r st1 socketPath meth (default_params params))"

section \<open>An app primitive\<close>

definition appResultPassed :: "json \<Rightarrow> bool" where
  "appResultPassed data =
     (case data of
        JObj m \<Rightarrow> (case jget m ''passed'' of Some (JBool b) \<Rightarrow> b | _ \<Rightarrow> True)
      | _ \<Rightarrow> True)"

definition buildRollbackParams :: "string \<Rightarrow> raw \<Rightarrow> json \<Rightarrow> json \<Rightarrow> raw" where
  "buildRollbackParams meth params0 resultData verifyData =
     (let params = default_params params0
      in case dec_any params of
           Inl _ \<Rightarrow> params
         | Inr p \<Rightarrow> json_marshal (JObj [(''primitive'', JStr meth), (''params'', p), (''result'', resultData), (''verify'', verifyData)]))"

definition verify_data :: "go_error + prim_result \<Rightarrow> json" where
  "verify_data v = (case v of Inl _ \<Rightarrow> JNull | Inr r \<Rightarrow> pr_Data r)"

definition routeAppPrimitive ::
  "('s, 'w) router \<Rightarrow> ('s, 'w) router_state \<Rightarrow> app_manifest \<Rightarrow> string \<Rightarrow> raw \<Rightarrow> ('s, 'w) router_state \<times> (go_error + prim_result)" where
  "routeAppPrimitive r st m meth params =
     (let start = rt_now r (rs_world st);
          sock = mf_SocketPath m;
          finish = (\<lambda>s res. (s, Inr (res\<lparr>pr_Duration := (rt_now r (rs_world s) - start) div 1000000\<rparr>)));
          (st1, main) = callAppSocket r st m sock meth params
      in case main of
           Inl e \<Rightarrow> (st1, Inl e)
         | Inr result \<Rightarrow>
             (if mf_VerifyEndpoint m = [] then finish st1 result
              else
                (let (st2, v) = callAppSocket r st1 m sock (mf_VerifyEndpoint m) params;
                     passed = (case v of Inl _ \<Rightarrow> False | Inr vr \<Rightarrow> appResultPassed (pr_Data vr))
                 in if passed then finish st2 result
                    else
                      (let rollbackParams = buildRollbackParams meth params (pr_Data result) (verify_data v);
                           st3 = (if mf_RollbackEndpoint m \<noteq> []
                                  then fst (callAppSocket r st2 m sock (mf_RollbackEndpoint m) rollbackParams) else st2)
                       in case v of
                            Inl e \<Rightarrow> (st3, Inl (GoErr (''app_primitive_verify_error: '' @ error_text e)))
                          | Inr _ \<Rightarrow>
                              (st3, Inl (GoErr (if mf_RollbackEndpoint m = []
                                 then ''app_primitive_verify_failed: state.restore alone does not recover app state''
                                 else ''app_primitive_verify_failed: verify failed'')))))))"

definition Route ::
  "('s, 'w) router \<Rightarrow> ('s, 'w) router_state \<Rightarrow> string \<Rightarrow> raw \<Rightarrow> ('s, 'w) router_state \<times> (go_error + prim_result)" where
  "Route r st meth params =
     (case Option.bind (rt_registry r) (\<lambda>reg. reg_Get reg meth) of
        Some p \<Rightarrow> (let (w', res) = pm_Execute p (rs_world st) params in (st\<lparr>rs_world := w'\<rparr>, res))
      | None \<Rightarrow>
          (case rt_apps r of
             None \<Rightarrow> (st, Inl ErrPrimitiveNotFound)
           | Some ops \<Rightarrow>
               (let (s', found) = ao_Get ops (rs_apps st) meth;
                    st1 = st\<lparr>rs_apps := s'\<rparr>
                in case found of
                     Inl e \<Rightarrow> (st1, Inl e)
                   | Inr None \<Rightarrow> (st1, Inl ErrPrimitiveNotFound)
                   | Inr (Some m) \<Rightarrow>
                       (if mf_Availability m = AppPrimitiveUnavailable then (st1, Inl (appPrimitiveUnavailableError m))
                        else routeAppPrimitive r st1 m meth params))))"

section \<open>The router as the engine's executor\<close>

definition truncate :: "string \<Rightarrow> nat \<Rightarrow> string" where
  "truncate s n = (if length s \<le> n then s else take n s @ ''...'')"

definition router_adapter_Execute ::
  "('s, 'w) router \<Rightarrow> ('s, 'w) router_state \<Rightarrow> string \<Rightarrow> raw \<Rightarrow> ('s, 'w) router_state \<times> step_result option \<times> go_error option" where
  "router_adapter_Execute r st meth params =
     (let (st', res) = Route r st meth params
      in case res of
           Inl e \<Rightarrow>
             (st', Some \<lparr>sr_Success = False, sr_Data = RawNil,
                sr_Error = Some \<lparr>se_Kind = FailureEnvironment, se_Code = ''ROUTE_ERROR'', se_Message = error_text e,
                                 se_Summary = truncate (error_text e) 200\<rparr>,
                sr_Duration = 0\<rparr>, Some e)
         | Inr x \<Rightarrow>
             (st', Some \<lparr>sr_Success = True, sr_Data = json_marshal (pr_Data x), sr_Error = None, sr_Duration = pr_Duration x\<rparr>, None))"

definition router_ListPrimitives :: "string list" where
  "router_ListPrimitives = []"

section \<open>The multiplexing runtime driver\<close>

record 'w router_driver =
  rd_resolver :: "('w \<Rightarrow> string \<Rightarrow> string option) option"
  rd_drivers :: "(string \<times> 'w driver) list"

text \<open>The drivers by name, the last of several equal names; a nil driver is skipped.\<close>

definition NewRouterDriver :: "('w \<Rightarrow> string \<Rightarrow> string option) option \<Rightarrow> (string \<times> 'w driver) option list \<Rightarrow> 'w router_driver" where
  "NewRouterDriver resolver drivers =
     \<lparr>rd_resolver = resolver, rd_drivers = fold (\<lambda>(n, d) ds. AList.update n d ds) (List.map_filter id drivers) []\<rparr>"

definition resolveDriver :: "'w router_driver \<Rightarrow> 'w \<Rightarrow> string \<Rightarrow> go_error + 'w driver" where
  "resolveDriver r w sandboxID =
     (case rd_resolver r of
        None \<Rightarrow> Inl (GoErr ''runtime resolver unavailable'')
      | Some f \<Rightarrow>
          (case f w sandboxID of
             None \<Rightarrow> Inl (GoErr (''sandbox not found: '' @ sandboxID))
           | Some name \<Rightarrow>
               (case map_of (rd_drivers r) name of
                  None \<Rightarrow> Inl (GoErr (''runtime driver unavailable: '' @ name))
                | Some d \<Rightarrow> Inr d)))"

definition merge_capabilities :: "runtime_capability list \<Rightarrow> runtime_capability list" where
  "merge_capabilities cs = fold (\<lambda>c acc. if rc_Name c \<in> rc_Name ` set acc then acc else acc @ [c]) cs []"

definition rd_Capabilities :: "'w router_driver \<Rightarrow> runtime_capability list option" where
  "rd_Capabilities r =
     (let cs = merge_capabilities (concat (map (\<lambda>x. case dr_Capabilities (snd x) of None \<Rightarrow> [] | Some l \<Rightarrow> l) (rd_drivers r)))
      in if cs = [] then None else Some cs)"

definition rd_Create :: "'w router_driver \<Rightarrow> 'w \<Rightarrow> sandbox_config \<Rightarrow> 'w \<times> (go_error + sandbox)" where
  "rd_Create r w config =
     (let driverName = (if cf_Driver config = [] then ''docker'' else cf_Driver config)
      in case map_of (rd_drivers r) driverName of
           None \<Rightarrow> (w, Inl (GoErr (''unknown runtime driver: '' @ driverName)))
         | Some d \<Rightarrow>
             (let (w', res) = dr_Create d w config
              in case res of Inl e \<Rightarrow> (w', Inl e) | Inr sb \<Rightarrow> (w', Inr (sb\<lparr>sb_Driver := driverName\<rparr>))))"

definition rd_command :: "('w driver \<Rightarrow> 'w \<Rightarrow> string \<Rightarrow> 'w \<times> go_error option) \<Rightarrow> 'w router_driver \<Rightarrow> 'w \<Rightarrow> string \<Rightarrow> 'w \<times> go_error option" where
  "rd_command op r w sandboxID =
     (case resolveDriver r w sandboxID of Inl e \<Rightarrow> (w, Some e) | Inr d \<Rightarrow> op d w sandboxID)"

definition rd_query :: "('w driver \<Rightarrow> 'w \<Rightarrow> string \<Rightarrow> 'w \<times> (go_error + 'a)) \<Rightarrow> 'w router_driver \<Rightarrow> 'w \<Rightarrow> string \<Rightarrow> 'w \<times> (go_error + 'a)" where
  "rd_query op r w sandboxID =
     (case resolveDriver r w sandboxID of Inl e \<Rightarrow> (w, Inl e) | Inr d \<Rightarrow> op d w sandboxID)"

text \<open>The multiplexer is a runtime driver itself.\<close>

definition router_driver_ops :: "'w router_driver \<Rightarrow> 'w driver" where
  "router_driver_ops r =
     \<lparr>dr_Create = rd_Create r, dr_Start = rd_command dr_Start r, dr_Stop = rd_command dr_Stop r,
      dr_Destroy = rd_command dr_Destroy r,
      dr_Exec = (\<lambda>w i cmd. rd_query (\<lambda>d w' i'. dr_Exec d w' i' cmd) r w i),
      dr_Inspect = rd_query dr_Inspect r, dr_Status = rd_query dr_Status r, dr_Capabilities = rd_Capabilities r\<rparr>"

section \<open>The exchanges of one call\<close>

text \<open>A socket layer that records what is written and what is read.\<close>

datatype socket_event = Sent string json | Received string

definition records :: "('s, 'w \<times> socket_event list) router \<Rightarrow> bool" where
  "records r \<longleftrightarrow>
     (\<forall>w p. snd (fst (rt_dial r w p)) = snd w) \<and>
     (\<forall>w p j. snd (fst (rt_send r w p j)) = snd w @ [Sent p j]) \<and>
     (\<forall>w p. snd (fst (rt_recv r w p)) = snd w @ (case snd (rt_recv r w p) of Inl _ \<Rightarrow> [] | Inr l \<Rightarrow> [Received l]))"

abbreviation wire :: "('s, 'w \<times> socket_event list) router_state \<Rightarrow> socket_event list" where
  "wire st \<equiv> snd (rs_world st)"

lemma mark_app_frame [simp]:
  "rs_world (mark_app r st a) = rs_world st" "rs_requestID (mark_app r st a) = rs_requestID st"
  by (simp_all add: mark_app_def split: option.split)

lemma callAppSocket_cases:
  assumes "records r" and "callAppSocket r st m sock meth params = (st', res)" and "default_params params = Raw j"
  obtains (unreachable) e where "snd (rt_dial r (rs_world st) sock) = Some e" "res = Inl (appPrimitiveUnavailableError m)"
      "wire st' = wire st" "rs_requestID st' = rs_requestID st"
  | (broken) e where "res = Inl e" "wire st' = wire st @ [Sent sock (app_request (rs_requestID st + 1) meth j)]"
      "rs_requestID st' = rs_requestID st + 1"
  | (answered) l where "res = app_outcome l" "rs_requestID st' = rs_requestID st + 1"
      "wire st' = wire st @ [Sent sock (app_request (rs_requestID st + 1) meth j), Received l]"
proof -
  obtain w1 derr where d: "rt_dial r (rs_world st) sock = (w1, derr)" by fastforce
  have w1: "snd w1 = wire st" using assms(1) d by (metis fst_conv records_def)
  show ?thesis
  proof (cases derr)
    case (Some e)
    with assms(2) d w1 show ?thesis by (intro unreachable) (auto simp: callAppSocket_def)
  next
    case None
    let ?q = "app_request (rs_requestID st + 1) meth j"
    obtain w2 serr where s: "rt_send r w1 sock ?q = (w2, serr)" by fastforce
    have w2: "snd w2 = wire st @ [Sent sock ?q]" using assms(1) s w1 by (metis fst_conv records_def)
    obtain w3 line where v: "rt_recv r w2 sock = (w3, line)" by fastforce
    have w3: "snd w3 = snd w2 @ (case line of Inl _ \<Rightarrow> [] | Inr l \<Rightarrow> [Received l])"
      using assms(1) v by (metis fst_conv records_def snd_conv)
    show ?thesis
    proof (cases serr)
      case (Some e)
      with assms(2,3) d None s w2 show ?thesis by (intro broken) (auto simp: callAppSocket_def app_exchange_def)
    next
      case serr: None
      show ?thesis
      proof (cases line)
        case (Inl e)
        with assms(2,3) d None s serr v w2 w3 show ?thesis
          by (intro broken) (auto simp: callAppSocket_def app_exchange_def)
      next
        case (Inr l)
        with assms(2,3) d None s serr v w2 w3 show ?thesis
          by (intro answered [of l]) (auto simp: callAppSocket_def app_exchange_def)
      qed
    qed
  qed
qed

definition rollback_envelope :: "string \<Rightarrow> json \<Rightarrow> json \<Rightarrow> json \<Rightarrow> json" where
  "rollback_envelope meth j d v =
     JObj [(''primitive'', JStr meth), (''params'', json_canon j), (''result'', d), (''verify'', v)]"

lemma buildRollbackParams_Raw:
  "default_params params = Raw j \<Longrightarrow>
   default_params (buildRollbackParams meth params d v) =
     Raw (rollback_envelope meth j d v)"
  by (simp add: buildRollbackParams_def)
     (simp add: default_params_def json_marshal_def rollback_envelope_def)

lemma call_reaches:
  assumes "records r" and "callAppSocket r st m sock meth params = (st', res)" and "default_params params = Raw j"
    and "\<And>w. snd (rt_dial r w sock) = None"
  shows "\<exists>rest. wire st' = wire st @ Sent sock (app_request (rs_requestID st + 1) meth j) # rest \<and>
    rs_requestID st' = rs_requestID st + 1 \<and> (\<forall>x. res = Inr x \<longrightarrow> (\<exists>l. rest = [Received l] \<and> app_outcome l = Inr x))"
  using assms(1-3) by (cases rule: callAppSocket_cases) (use assms(4) in auto)

lemma call_success:
  assumes "records r" and "callAppSocket r st m sock meth params = (st', Inr x)" and "default_params params = Raw j"
  obtains l where "app_outcome l = Inr x" "rs_requestID st' = rs_requestID st + 1"
      "wire st' = wire st @ [Sent sock (app_request (rs_requestID st + 1) meth j), Received l]"
  using assms by (cases rule: callAppSocket_cases) auto

lemma call_socket:
  assumes "records r" and "callAppSocket r st m sock meth params = (st', res)" and "default_params params = Raw j"
  shows "\<exists>evs. wire st' = wire st @ evs \<and> (\<forall>p q. Sent p q \<in> set evs \<longrightarrow> p = sock)"
  using assms by (cases rule: callAppSocket_cases) auto

lemma call_failed:
  assumes "records r" and "callAppSocket r st m sock meth params = (st', Inl e)" and "default_params params = Raw j"
    and "wire st' = wire st @ [Sent sock q, Received l] @ rest"
  shows "app_outcome l \<noteq> Inr x"
  using assms(1-3) by (cases rule: callAppSocket_cases) (use assms(4) in auto)

text \<open>The calls of \<open>routeAppPrimitive\<close>, one case per way out of it.\<close>

lemma routeAppPrimitive_cases:
  assumes "routeAppPrimitive r st m meth params = (st', res)"
  obtains (failed) e where "callAppSocket r st m (mf_SocketPath m) meth params = (st', Inl e)" "res = Inl e"
  | (plain) x d where "callAppSocket r st m (mf_SocketPath m) meth params = (st', Inr x)"
      "mf_VerifyEndpoint m = []" "res = Inr (x\<lparr>pr_Duration := d\<rparr>)"
  | (verified) st1 x v d where "callAppSocket r st m (mf_SocketPath m) meth params = (st1, Inr x)"
      "mf_VerifyEndpoint m \<noteq> []" "callAppSocket r st1 m (mf_SocketPath m) (mf_VerifyEndpoint m) params = (st', Inr v)"
      "appResultPassed (pr_Data v)" "res = Inr (x\<lparr>pr_Duration := d\<rparr>)"
  | (rejected) st1 x st2 v e where "callAppSocket r st m (mf_SocketPath m) meth params = (st1, Inr x)"
      "mf_VerifyEndpoint m \<noteq> []" "callAppSocket r st1 m (mf_SocketPath m) (mf_VerifyEndpoint m) params = (st2, v)" "res = Inl e"
      "st' = (if mf_RollbackEndpoint m \<noteq> [] then fst (callAppSocket r st2 m (mf_SocketPath m) (mf_RollbackEndpoint m)
                (buildRollbackParams meth params (pr_Data x) (verify_data v))) else st2)"
proof -
  obtain st1 main where c1: "callAppSocket r st m (mf_SocketPath m) meth params = (st1, main)" by fastforce
  show ?thesis
  proof (cases main)
    case (Inl e)
    with assms c1 show ?thesis by (intro failed) (auto simp: routeAppPrimitive_def)
  next
    case (Inr x)
    show ?thesis
    proof (cases "mf_VerifyEndpoint m = []")
      case True
      with assms c1 Inr show ?thesis by (intro plain) (auto simp: routeAppPrimitive_def)
    next
      case False
      obtain st2 v where c2: "callAppSocket r st1 m (mf_SocketPath m) (mf_VerifyEndpoint m) params = (st2, v)" by fastforce
      show ?thesis
      proof (cases "\<exists>y. v = Inr y \<and> appResultPassed (pr_Data y)")
        case True
        with assms c1 Inr False c2 show ?thesis by (auto simp: routeAppPrimitive_def intro: verified)
      next
        case no: False
        from assms c1 Inr False c2 no
        have "st' = (if mf_RollbackEndpoint m \<noteq> [] then fst (callAppSocket r st2 m (mf_SocketPath m) (mf_RollbackEndpoint m)
                (buildRollbackParams meth params (pr_Data x) (verify_data v))) else st2)" "\<exists>e. res = Inl e"
          by (auto simp: routeAppPrimitive_def Let_def split: sum.splits)
        with c1 Inr False c2 show ?thesis by (auto intro: rejected)
      qed
    qed
  qed
qed

text \<open>A rejected call has asked the app to roll back, in the third request of the call.\<close>

lemma rejected_rolls_back:
  assumes "records r" and "default_params params = Raw j" and dial: "\<And>w. snd (rt_dial r w (mf_SocketPath m)) = None"
    and "callAppSocket r st m (mf_SocketPath m) meth params = (st1, Inr x)"
    and "callAppSocket r st1 m (mf_SocketPath m) (mf_VerifyEndpoint m) params = (st2, v)"
    and "callAppSocket r st2 m (mf_SocketPath m) (mf_RollbackEndpoint m)
      (buildRollbackParams meth params (pr_Data x) (verify_data v)) = (st3, rr)"
    and "wire st3 = wire st @ [Sent (mf_SocketPath m) (app_request (rs_requestID st + 1) meth j), Received l] @ rest"
  shows "app_outcome l = Inr x \<and> Sent (mf_SocketPath m) (app_request (rs_requestID st + 3) (mf_RollbackEndpoint m)
    (rollback_envelope meth j (pr_Data x) (verify_data v))) \<in> set rest"
proof -
  obtain l1 where l1: "app_outcome l1 = Inr x" "rs_requestID st1 = rs_requestID st + 1"
    "wire st1 = wire st @ [Sent (mf_SocketPath m) (app_request (rs_requestID st + 1) meth j), Received l1]"
    by (rule call_success [OF assms(1,4,2)])
  obtain rest2 where s2: "wire st2 = wire st1 @ Sent (mf_SocketPath m) (app_request (rs_requestID st1 + 1) (mf_VerifyEndpoint m) j) # rest2"
    "rs_requestID st2 = rs_requestID st1 + 1"
    using call_reaches [OF assms(1,5,2) dial] by (elim exE conjE) (rule that)
  obtain rest3 where "wire st3 = wire st2 @ Sent (mf_SocketPath m) (app_request (rs_requestID st2 + 1) (mf_RollbackEndpoint m)
      (rollback_envelope meth j (pr_Data x) (verify_data v))) # rest3"
    using call_reaches [OF assms(1,6) buildRollbackParams_Raw [OF assms(2)] dial] by (elim exE conjE) (rule that)
  with l1 s2 assms(7) show ?thesis by (auto simp: add.commute [of _ 3])
qed

text \<open>
  C12. The protocol of an app call. Every request of a call goes to the socket of the manifest. A call
  succeeds only with the answer of the primitive itself and, when the manifest declares a verify
  endpoint, after a second request to that endpoint whose answer did not fail the check; requests carry
  consecutive ids. And when the primitive has answered but the call fails, then (with a reachable
  socket and a declared rollback endpoint) a third request has asked the app to roll back, carrying the
  call, its parameters and its result.
\<close>

theorem app_call_protocol:
  assumes "records r" and "default_params params = Raw j" and "routeAppPrimitive r st m meth params = (st', res)"
  shows "(\<exists>evs. wire st' = wire st @ evs \<and> (\<forall>p q. Sent p q \<in> set evs \<longrightarrow> p = mf_SocketPath m)) \<and>
    (\<forall>x. res = Inr x \<longrightarrow> (\<exists>l1 r1 check. app_outcome l1 = Inr r1 \<and> pr_Data x = pr_Data r1 \<and>
       wire st' = wire st @ [Sent (mf_SocketPath m) (app_request (rs_requestID st + 1) meth j), Received l1] @ check \<and>
       (if mf_VerifyEndpoint m = [] then check = []
        else \<exists>l2 r2. app_outcome l2 = Inr r2 \<and> appResultPassed (pr_Data r2) \<and>
          check = [Sent (mf_SocketPath m) (app_request (rs_requestID st + 2) (mf_VerifyEndpoint m) j), Received l2]))) \<and>
    (\<forall>e l1 r1 rest. res = Inl e \<and> (\<forall>w. snd (rt_dial r w (mf_SocketPath m)) = None) \<and> mf_RollbackEndpoint m \<noteq> [] \<and>
       app_outcome l1 = Inr r1 \<and>
       wire st' = wire st @ [Sent (mf_SocketPath m) (app_request (rs_requestID st + 1) meth j), Received l1] @ rest \<longrightarrow>
       (\<exists>v. Sent (mf_SocketPath m) (app_request (rs_requestID st + 3) (mf_RollbackEndpoint m)
              (rollback_envelope meth j (pr_Data r1) v)) \<in> set rest))"
  (is "?sockets \<and> ?success \<and> ?failure")
  using assms(3)
proof (cases rule: routeAppPrimitive_cases)
  case (failed e)
  note c = assms(1) failed(1) assms(2)
  have ?failure using call_failed [OF c] by blast
  with call_socket [OF c] failed(2) show ?thesis by simp
next
  case (plain x d)
  obtain l where "app_outcome l = Inr x"
    "wire st' = wire st @ [Sent (mf_SocketPath m) (app_request (rs_requestID st + 1) meth j), Received l]"
    by (rule call_success [OF assms(1) plain(1) assms(2)])
  with plain(2,3) show ?thesis by simp
next
  case (verified st1 x v d)
  obtain l1 where l1: "app_outcome l1 = Inr x" "rs_requestID st1 = rs_requestID st + 1"
    "wire st1 = wire st @ [Sent (mf_SocketPath m) (app_request (rs_requestID st + 1) meth j), Received l1]"
    by (rule call_success [OF assms(1) verified(1) assms(2)])
  obtain l2 where "app_outcome l2 = Inr v"
    "wire st' = wire st1 @ [Sent (mf_SocketPath m) (app_request (rs_requestID st1 + 1) (mf_VerifyEndpoint m) j), Received l2]"
    by (rule call_success [OF assms(1) verified(3) assms(2)])
  moreover have "rs_requestID st + 1 + 1 = rs_requestID st + 2" by simp
  ultimately show ?thesis using l1 verified(2,4,5) by (simp, blast)
next
  case (rejected st1 x st2 v e)
  let ?rb = "buildRollbackParams meth params (pr_Data x) (verify_data v)"
  obtain l1 where l1: "app_outcome l1 = Inr x" "rs_requestID st1 = rs_requestID st + 1"
    "wire st1 = wire st @ [Sent (mf_SocketPath m) (app_request (rs_requestID st + 1) meth j), Received l1]"
    by (rule call_success [OF assms(1) rejected(1) assms(2)])
  obtain ev2 where ev2: "wire st2 = wire st1 @ ev2" "\<forall>p q. Sent p q \<in> set ev2 \<longrightarrow> p = mf_SocketPath m"
    using call_socket [OF assms(1) rejected(3) assms(2)] by blast
  note rbp = buildRollbackParams_Raw [OF assms(2), of meth "pr_Data x" "verify_data v"]
  obtain st3 rr where c3: "callAppSocket r st2 m (mf_SocketPath m) (mf_RollbackEndpoint m) ?rb = (st3, rr)" by fastforce
  have "\<exists>ev3. wire st' = wire st2 @ ev3 \<and> (\<forall>p q. Sent p q \<in> set ev3 \<longrightarrow> p = mf_SocketPath m)"
    using call_socket [OF assms(1) c3 rbp] rejected(5) c3 by auto
  then have ?sockets using l1(3) ev2 by (clarsimp, blast)
  moreover have ?failure
  proof (intro allI impI, elim conjE)
    fix e' l1' r1 rest
    assume dial: "\<forall>w. snd (rt_dial r w (mf_SocketPath m)) = None" and "mf_RollbackEndpoint m \<noteq> []" "app_outcome l1' = Inr r1"
      and "wire st' = wire st @ [Sent (mf_SocketPath m) (app_request (rs_requestID st + 1) meth j), Received l1'] @ rest"
    with rejected_rolls_back [OF assms(1,2) dial [rule_format] rejected(1,3) c3] rejected(5) c3
    show "\<exists>v. Sent (mf_SocketPath m) (app_request (rs_requestID st + 3) (mf_RollbackEndpoint m)
        (rollback_envelope meth j (pr_Data r1) v)) \<in> set rest" by auto
  qed
  ultimately show ?thesis using rejected(4) by simp
qed

text \<open>A socket whose peer answers every request with an empty object and the check with a failure.\<close>

definition demo_rejection :: string where
  "demo_rejection = [CHR 0x7B, CHR 0x22] @ ''result'' @ [CHR 0x22, CHR '':'', CHR 0x7B, CHR 0x22] @ ''passed'' @
     [CHR 0x22, CHR '':''] @ ''false'' @ [CHR 0x7D, CHR 0x7D]"

definition demo_router :: "'s app_ops option \<Rightarrow> ('s, nat \<times> socket_event list) router" where
  "demo_router ops = \<lparr>rt_registry = Some NewRegistry, rt_apps = ops, rt_dial = (\<lambda>w _. (w, None)),
     rt_send = (\<lambda>w p j. ((Suc (fst w), snd w @ [Sent p j]), None)),
     rt_recv = (\<lambda>w _. let a = (if fst w = 2 then demo_rejection else [CHR 0x7B, CHR 0x7D]) in ((fst w, snd w @ [Received a]), Inr a)),
     rt_now = (\<lambda>w. int (fst w))\<rparr>"

lemma demo_router_records: "records (demo_router ops)"
  by (simp add: records_def demo_router_def Let_def)

definition demo_router_state :: "'s \<Rightarrow> ('s, nat \<times> socket_event list) router_state" where
  "demo_router_state s = \<lparr>rs_apps = s, rs_world = (0, []), rs_requestID = 0\<rparr>"

theorem app_call_protocol_witness:
  "\<exists>v. Sent ''/s'' (app_request 3 ''kv.undo'' (rollback_envelope ''kv.set'' (JObj []) JNull v)) \<in>
     set (wire (fst (routeAppPrimitive (demo_router None) (demo_router_state ()) demo_normal ''kv.set'' RawNil)))"
proof -
  let ?r = "demo_router None" and ?st = "demo_router_state ()"
  obtain st' res where r: "routeAppPrimitive ?r ?st demo_normal ''kv.set'' RawNil = (st', res)" by fastforce
  have "(case snd (routeAppPrimitive ?r ?st demo_normal ''kv.set'' RawNil) of Inl _ \<Rightarrow> True | Inr _ \<Rightarrow> False)"
    by code_simp
  with r obtain e where e: "res = Inl e" by (auto split: sum.splits)
  have "take 2 (wire (fst (routeAppPrimitive ?r ?st demo_normal ''kv.set'' RawNil))) =
      [Sent ''/s'' (app_request 1 ''kv.set'' (JObj [])), Received [CHR 0x7B, CHR 0x7D]]" by code_simp
  with r obtain rest where log: "wire st' = [Sent ''/s'' (app_request 1 ''kv.set'' (JObj [])), Received [CHR 0x7B, CHR 0x7D]] @ rest"
    by (metis append_take_drop_id fst_conv)
  have out: "app_outcome [CHR 0x7B, CHR 0x7D] = Inr zero_prim_result" by code_simp
  have p: "default_params RawNil = Raw (JObj [])" by (simp add: default_params_def)
  have "wire ?st = []" "rs_requestID ?st = 0" "mf_SocketPath demo_normal = ''/s''" "mf_RollbackEndpoint demo_normal = ''kv.undo''"
    "\<forall>w. snd (rt_dial ?r w ''/s'') = None"
    by (simp_all add: demo_router_state_def demo_normal_def demo_manifest_def demo_router_def)
  with app_call_protocol [OF demo_router_records p r] e log out
  have "\<exists>v. Sent ''/s'' (app_request 3 ''kv.undo'' (rollback_envelope ''kv.set'' (JObj []) (pr_Data zero_prim_result) v)) \<in> set rest"
    by auto
  with log r show ?thesis by (auto simp: zero_prim_result_def)
qed

section \<open>App registries behind the router\<close>

text \<open>
  What the router needs of its app registry, on top of the contract of registrations: a lookup
  changes nothing a later lookup sees and either fails or returns what is registered.
\<close>

locale routed_apps = app_registry reg_register reg_unregister reg_get reg_mark reg_inv
  for reg_register :: "'s \<Rightarrow> app_manifest \<Rightarrow> 's \<times> go_error option"
    and reg_unregister reg_get reg_mark reg_inv +
  fixes ops :: "'s app_ops"
  assumes ops_get: "reg_inv s \<Longrightarrow> ao_Get ops s k = (s', f) \<Longrightarrow>
      reg_inv s' \<and> reg_get s' = reg_get s \<and> (\<forall>x. f = Inr x \<longrightarrow> x = reg_get s k)"
    and ops_mark: "ao_MarkUnavailable ops = reg_mark"
begin

lemma route_refused:
  assumes "reg_inv (rs_apps st)" and "rt_apps r = Some ops" and "Option.bind (rt_registry r) (\<lambda>reg. reg_Get reg k) = None"
    and "pred_option (\<lambda>m. mf_Availability m = AppPrimitiveUnavailable) (reg_get (rs_apps st) k)"
  shows "rs_world (fst (Route r st k params)) = rs_world st \<and> (\<exists>e. snd (Route r st k params) = Inl e)"
proof -
  obtain s' f where g: "ao_Get ops (rs_apps st) k = (s', f)" by fastforce
  from ops_get [OF assms(1) g] assms show ?thesis
    using g by (auto simp: Route_def Let_def split: sum.split option.split)
qed

lemma reserved_not_routed:
  assumes "reg_inv (rs_apps st)" and "rt_apps r = Some ops" and "Option.bind (rt_registry r) (\<lambda>reg. reg_Get reg k) = None"
    and "p \<in> set reservedSystemPrimitiveNamespaces" and "has_prefix k p"
  shows "rs_world (fst (Route r st k params)) = rs_world st \<and> (\<exists>e. snd (Route r st k params) = Inl e)"
  using assms by (intro route_refused) (simp_all add: reserved_absent [OF assms(1,4,5)])

lemma dial_failure_marks:
  assumes "reg_inv (rs_apps st)" and "rt_apps r = Some ops" and "Option.bind (rt_registry r) (\<lambda>reg. reg_Get reg k) = None"
    and "ao_Get ops (rs_apps st) k = (s', Inr (Some m))" and "mf_Availability m \<noteq> AppPrimitiveUnavailable"
    and "snd (rt_dial r (rs_world st) (mf_SocketPath m)) = Some de" and "snd (reg_mark s' (mf_AppID m)) = None"
  shows "snd (Route r st k params) = Inl (appPrimitiveUnavailableError m) \<and>
    reg_inv (rs_apps (fst (Route r st k params))) \<and>
    reg_get (rs_apps (fst (Route r st k params))) k' =
      map_option (set_availability (mf_AppID m) AppPrimitiveUnavailable) (reg_get (rs_apps st) k')"
proof -
  from ops_get [OF assms(1,4)] have s': "reg_inv s'" "reg_get s' = reg_get s" if "s = rs_apps st" for s using that by auto
  obtain s'' where s'': "reg_mark s' (mf_AppID m) = (s'', None)" using assms(7) by (metis prod.collapse)
  obtain w1 where d: "rt_dial r (rs_world st) (mf_SocketPath m) = (w1, Some de)" using assms(6) by (metis prod.collapse)
  have "callAppSocket r (st\<lparr>rs_apps := s'\<rparr>) m (mf_SocketPath m) k params =
      (st\<lparr>rs_apps := s'', rs_world := w1\<rparr>, Inl (appPrimitiveUnavailableError m))"
    using d s'' by (simp add: callAppSocket_def mark_app_def assms(2) ops_mark)
  then have "Route r st k params = (st\<lparr>rs_apps := s'', rs_world := w1\<rparr>, Inl (appPrimitiveUnavailableError m))"
    using assms(2-5) by (simp add: Route_def routeAppPrimitive_def)
  moreover from mark_get [OF s'(1) s''] s'(2) have "reg_get s'' k' = map_option (set_availability (mf_AppID m) AppPrimitiveUnavailable) (reg_get (rs_apps st) k')"
    by simp
  moreover from mark_inv [OF s'(1), where a = "mf_AppID m"] s'' have "reg_inv s''" by simp
  ultimately show ?thesis by simp
qed

end

interpretation mem_routed: routed_apps mem_register mem_unregister mem_get mem_mark_unavailable mem_inv mem_app_ops
  by unfold_locales (auto simp: mem_app_ops_def)

interpretation sql_routed: routed_apps "sqlreg_Register env" "sqlreg_Unregister env" appreg_view "sqlreg_MarkUnavailable env" appreg_inv
    "sql_app_ops env" for env
proof (unfold_locales, goal_cases)
  case (1 s k s' f)
  then show ?case
    by (auto simp: sql_app_ops_def sqlreg_Get_def sql_query_def appreg_view_def [abs_def] appreg_inv_def split: prod.splits option.splits)
next
  case 2
  show ?case by (simp add: sql_app_ops_def)
qed

text \<open>
  System names stay with the system. Behind a router whose apps are in the SQLite registry, a call
  of a name in a reserved namespace that is not a built-in primitive fails without touching any
  socket, after every history of registrations; a built-in primitive is executed whatever the apps
  have registered.
\<close>

theorem reserved_names_not_dispatched:
  assumes "rt_apps r = Some (sql_app_ops env)" and "rs_apps st = sqlreg_run env ops (empty_appreg b)"
    and "p \<in> set reservedSystemPrimitiveNamespaces" and "has_prefix k p"
  shows "case Option.bind (rt_registry r) (\<lambda>reg. reg_Get reg k) of
      None \<Rightarrow> rs_world (fst (Route r st k params)) = rs_world st \<and> (\<exists>e. snd (Route r st k params) = Inl e)
    | Some pr \<Rightarrow> Route r st k params =
        (st\<lparr>rs_world := fst (pm_Execute pr (rs_world st) params)\<rparr>, snd (pm_Execute pr (rs_world st) params))"
proof -
  have "appreg_inv (rs_apps st)" unfolding assms(2) by (rule sqlreg_run_inv [OF empty_appreg_inv])
  from sql_routed.reserved_not_routed [OF this assms(1) _ assms(3,4)] show ?thesis
    by (auto simp: Route_def case_prod_beta split: option.split)
qed

text \<open>
  An unreachable adapter is taken out of service. When the dial to an app's socket fails and the
  registry records it, the call reports the adapter as unavailable, and from then on every call of any
  primitive of that app fails without another attempt to reach a socket, as long as no operation
  changes the registry.
\<close>

theorem failed_dial_quarantine:
  assumes "rt_apps r = Some (sql_app_ops env)" and "appreg_inv (rs_apps st)"
    and "\<And>n. sq_fault (ae_sql env) n = None"
    and "appreg_view (rs_apps st) k = Some m" and "Option.bind (rt_registry r) (\<lambda>reg. reg_Get reg k) = None"
    and "mf_Availability m \<noteq> AppPrimitiveUnavailable" and "snd (rt_dial r (rs_world st) (mf_SocketPath m)) = Some de"
    and "appreg_view (rs_apps st) k' = Some m'" and "mf_AppID m' = mf_AppID m"
    and "Option.bind (rt_registry r) (\<lambda>reg. reg_Get reg k') = None"
    and "Route r st k params = (st1, res)" and "Route r st1 k' params' = (st2, res')"
  shows "res = Inl (appPrimitiveUnavailableError m) \<and> rs_world st2 = rs_world st1 \<and> (\<exists>e. res' = Inl e)"
proof -
  obtain s' where g: "ao_Get (sql_app_ops env) (rs_apps st) k = (s', Inr (Some m))"
    using assms(3,4) by (simp add: sql_app_ops_def sqlreg_Get_def sql_query_def appreg_view_def)
  have "snd (sqlreg_MarkUnavailable env s' (mf_AppID m)) = None"
    using assms(3) by (simp add: sqlreg_MarkUnavailable_def mark_tx_def tx_stmt_def)
  note marked = sql_routed.dial_failure_marks [OF assms(2,1,5) g assms(6,7) this, where params = params]
  from marked [where k' = k'] assms(8,9,11) have "pred_option (\<lambda>m. mf_Availability m = AppPrimitiveUnavailable) (appreg_view (rs_apps st1) k')"
    by (simp add: set_availability_def)
  moreover from marked assms(11) have "appreg_inv (rs_apps st1)" by simp
  ultimately have "rs_world st2 = rs_world st1 \<and> (\<exists>e. res' = Inl e)"
    using sql_routed.route_refused [where st = st1 and r = r and k = k' and params = params'] assms(1,10,12) by simp
  with marked assms(11) show ?thesis by simp
qed

definition demo_kv_reg :: "event list appreg_world" where
  "demo_kv_reg = sqlreg_run (demo_appreg_env\<lparr>ae_sql := \<lparr>sq_fault = Map.empty, sq_now = int\<rparr>\<rparr>) [OpRegister demo_manifest] (empty_appreg [])"

theorem reserved_names_not_dispatched_witness:
  "\<exists>e. snd (Route (demo_router (Some (sql_app_ops demo_appreg_env))) (demo_router_state (sqlreg_run demo_appreg_env [] (empty_appreg [])))
     ''fs.format'' RawNil) = Inl e"
  using reserved_names_not_dispatched [of "demo_router (Some (sql_app_ops demo_appreg_env))" demo_appreg_env
      "demo_router_state (sqlreg_run demo_appreg_env [] (empty_appreg []))" "[]" "[]" "''fs.''" "''fs.format''" RawNil]
  by (simp add: demo_router_def demo_router_state_def reg_Get_def NewRegistry_def reservedSystemPrimitiveNamespaces_def has_prefix_def)

theorem failed_dial_quarantine_witness:
  "let env = demo_appreg_env\<lparr>ae_sql := \<lparr>sq_fault = Map.empty, sq_now = int\<rparr>\<rparr>;
       r = (demo_router (Some (sql_app_ops env)))\<lparr>rt_dial := (\<lambda>w _. ((Suc (fst w), snd w), Some (GoErr ''refused'')))\<rparr>;
       st1 = fst (Route r (demo_router_state demo_kv_reg) ''kv.set'' RawNil)
   in rs_world (fst (Route r st1 ''kv.set'' RawNil)) = rs_world st1"
proof -
  let ?env = "demo_appreg_env\<lparr>ae_sql := \<lparr>sq_fault = Map.empty, sq_now = int\<rparr>\<rparr>"
  let ?r = "(demo_router (Some (sql_app_ops ?env)))\<lparr>rt_dial := (\<lambda>w _. ((Suc (fst w), snd w), Some (GoErr ''refused'')))\<rparr>"
  let ?st = "demo_router_state demo_kv_reg"
  have 1: "rt_apps ?r = Some (sql_app_ops ?env)" by (simp add: demo_router_def)
  have 2: "appreg_inv (rs_apps ?st)"
    unfolding demo_router_state_def demo_kv_reg_def by (simp add: sqlreg_run_inv [OF empty_appreg_inv])
  have 3: "sq_fault (ae_sql ?env) n = None" for n by simp
  have 4: "appreg_view (rs_apps ?st) ''kv.set'' = Some demo_normal" by code_simp
  have 5: "Option.bind (rt_registry ?r) (\<lambda>reg. reg_Get reg ''kv.set'') = None"
    by (simp add: demo_router_def reg_Get_def NewRegistry_def)
  have 6: "mf_Availability demo_normal \<noteq> AppPrimitiveUnavailable" by (simp add: demo_normal_def)
  have 7: "snd (rt_dial ?r (rs_world ?st) (mf_SocketPath demo_normal)) = Some (GoErr ''refused'')" by simp
  obtain st1 res st2 res' where "Route ?r ?st ''kv.set'' RawNil = (st1, res)" "Route ?r st1 ''kv.set'' RawNil = (st2, res')" by fastforce
  with failed_dial_quarantine [OF 1 2 3 4 5 6 7 4 refl 5] show ?thesis by (simp add: Let_def)
qed

section \<open>The multiplexing driver\<close>

lemma map_of_fold_update:
  "map_of (fold (\<lambda>(n, d) ds. AList.update n d ds) xs acc) = map_of acc ++ map_of (rev xs)"
  by (induction xs arbitrary: acc) (auto simp: update_conv' map_add_def fun_eq_iff split: option.splits)

text \<open>
  A sandbox stays with its driver. A sandbox the multiplexer creates was made by the driver its
  configuration names (docker when it names none) and is stamped with that name; and while the
  resolver reports the stamped name, starting, stopping, destroying, inspecting it and asking for its status
  are exactly the operations of that driver.
\<close>

theorem router_driver_binding:
  assumes "rd_Create (NewRouterDriver (Some f) ds) w cfg = (w', Inr sb)" and "f w2 (sb_ID sb) = Some (sb_Driver sb)"
  shows "\<exists>d sb0. Some (sb_Driver sb, d) \<in> set ds \<and> sb_Driver sb = (if cf_Driver cfg = [] then ''docker'' else cf_Driver cfg) \<and>
    dr_Create d w cfg = (w', Inr sb0) \<and> sb = sb0\<lparr>sb_Driver := sb_Driver sb\<rparr> \<and>
    (let r = router_driver_ops (NewRouterDriver (Some f) ds); i = sb_ID sb
     in dr_Start r w2 i = dr_Start d w2 i \<and> dr_Stop r w2 i = dr_Stop d w2 i \<and> dr_Destroy r w2 i = dr_Destroy d w2 i \<and>
        dr_Inspect r w2 i = dr_Inspect d w2 i \<and> dr_Status r w2 i = dr_Status d w2 i \<and>
        (\<forall>cmd. dr_Exec r w2 i cmd = dr_Exec d w2 i cmd))"
proof -
  let ?n = "if cf_Driver cfg = [] then ''docker'' else cf_Driver cfg"
  let ?R = "NewRouterDriver (Some f) ds"
  from assms(1) obtain d where d: "map_of (rd_drivers ?R) ?n = Some d"
    by (auto simp: rd_Create_def Let_def split: option.splits)
  with assms(1) obtain sb0 where sb0: "dr_Create d w cfg = (w', Inr sb0)" "sb = sb0\<lparr>sb_Driver := ?n\<rparr>"
    by (auto simp: rd_Create_def Let_def split: prod.splits sum.splits)
  have "(?n, d) \<in> set (List.map_filter id ds)"
    using d by (auto simp: NewRouterDriver_def map_of_fold_update dest: map_of_SomeD)
  then have "Some (?n, d) \<in> set ds" by (auto simp: List.map_filter_def)
  moreover have "resolveDriver ?R w2 (sb_ID sb) = Inr d"
    using d assms(2) sb0(2) by (simp add: resolveDriver_def NewRouterDriver_def)
  ultimately show ?thesis using sb0
    by (intro exI [of _ d] exI [of _ sb0]) (simp add: Let_def router_driver_ops_def rd_command_def rd_query_def)
qed

theorem router_driver_binding_witness:
  "let r = NewRouterDriver (Some (\<lambda>_ _. Some ''docker'')) [None, Some (''docker'', demo_driver)]
   in case rd_Create r 0 (demo_config ''a'' 1) of
        (w, Inr sb) \<Rightarrow> dr_Stop (router_driver_ops r) w (sb_ID sb) = dr_Stop demo_driver w (sb_ID sb)
      | _ \<Rightarrow> False"
proof -
  let ?ds = "[None, Some (''docker'', demo_driver)]"
  let ?f = "\<lambda>_ _. Some ''docker''"
  let ?r = "NewRouterDriver (Some ?f) ?ds"
  have "(case snd (rd_Create ?r 0 (demo_config ''a'' 1)) of Inl _ \<Rightarrow> False | Inr sb \<Rightarrow> sb_Driver sb = ''docker'')"
    by code_simp
  then obtain w sb where c: "rd_Create ?r 0 (demo_config ''a'' 1) = (w, Inr sb)" "sb_Driver sb = ''docker''"
    by (cases "rd_Create ?r 0 (demo_config ''a'' 1)") (auto split: sum.splits)
  from router_driver_binding [OF c(1), of w] c(2) obtain d where
    "Some (''docker'', d) \<in> set ?ds" "dr_Stop (router_driver_ops ?r) w (sb_ID sb) = dr_Stop d w (sb_ID sb)"
    by (auto simp: Let_def)
  with c show ?thesis by (simp add: Let_def)
qed

end
