(* ===== verification/RpcServer.thy ===== *)
theory RpcServer
  imports GoalApi Router HostPrims
begin

text \<open>
  The JSON-RPC and HTTP server, \<open>internal/rpc/server.go\<close> and \<open>trace_api.go\<close>, over the router, the sandbox manager,
  the registry of app primitives, the goal API and the audit log (\<open>internal/audit/logger.go\<close>). A request is its
  method, path, query, headers and body; a response is written piece by piece, and its status and headers are
  those at the first piece. A call runs in a context of its own: the sink and the recorder that the
  code puts there are the fields of \<open>rpc_call\<close>, on which the primitives of the router act. The bus, the
  stores of events and traces, the HTTP client, the clock, the encoding of the trace header and whether a call
  panicked are parameters. The assets of the user interface and the network listener are left out.
\<close>

section \<open>HTTP\<close>

type_synonym headers = "(string \<times> string) list"

definition header_get :: "headers \<Rightarrow> string \<Rightarrow> string" where
  "header_get h k = (case find (\<lambda>p. to_lower (fst p) = to_lower k) h of None \<Rightarrow> [] | Some p \<Rightarrow> snd p)"

definition header_set :: "string \<Rightarrow> string \<Rightarrow> headers \<Rightarrow> headers" where
  "header_set k v h = filter (\<lambda>p. to_lower (fst p) \<noteq> to_lower k) h @ [(k, v)]"

record http_req =
  ir_Method :: string
  ir_Path :: string
  ir_Query :: "(string \<times> string) list"
  ir_Header :: headers
  ir_Body :: raw
  ir_Events :: "event list"

text \<open>A piece of a response body; an event of a stream has a name and a payload.\<close>

datatype chunk = JsonChunk json | TextChunk string | EventChunk string json | RawChunk raw

text \<open>\<open>http.ResponseWriter\<close>: \<open>wr_sent\<close> holds the headers as they were when the status was sent.\<close>

record writer =
  wr_flusher :: bool
  wr_header :: headers
  wr_status :: "int option"
  wr_sent :: headers
  wr_chunks :: "chunk list"

definition new_writer :: "bool \<Rightarrow> writer" where
  "new_writer f = \<lparr>wr_flusher = f, wr_header = [], wr_status = None, wr_sent = [], wr_chunks = []\<rparr>"

definition set_header :: "string \<Rightarrow> string \<Rightarrow> writer \<Rightarrow> writer" where
  "set_header k v w = w\<lparr>wr_header := header_set k v (wr_header w)\<rparr>"

definition write_header :: "int \<Rightarrow> writer \<Rightarrow> writer" where
  "write_header code w = (case wr_status w of None \<Rightarrow> w\<lparr>wr_status := Some code, wr_sent := wr_header w\<rparr> | Some _ \<Rightarrow> w)"

definition write_chunk :: "chunk \<Rightarrow> writer \<Rightarrow> writer" where
  "write_chunk c w = (let w1 = write_header 200 w in w1\<lparr>wr_chunks := wr_chunks w1 @ [c]\<rparr>)"

definition http_Error :: "string \<Rightarrow> int \<Rightarrow> writer \<Rightarrow> writer" where
  "http_Error msg code w =
     write_chunk (TextChunk msg) (write_header code
       (set_header ''X-Content-Type-Options'' ''nosniff'' (set_header ''Content-Type'' ''text/plain; charset=utf-8'' w)))"

definition http_NotFound :: "writer \<Rightarrow> writer" where
  "http_NotFound = http_Error ''404 page not found'' 404"

definition not_allowed :: "writer \<Rightarrow> writer" where
  "not_allowed = http_Error ''method not allowed'' 405"

definition write_json :: "json \<Rightarrow> writer \<Rightarrow> writer" where
  "write_json j w = write_chunk (JsonChunk j) (set_header ''Content-Type'' ''application/json'' w)"

text \<open>A reply of the goal API on the wire.\<close>

definition send_reply :: "reply \<Rightarrow> writer \<Rightarrow> writer" where
  "send_reply r w =
     (case rp_Body r of
        NoBody \<Rightarrow> write_header (rp_Status r) w
      | TextBody msg \<Rightarrow> http_Error msg (rp_Status r) w
      | JsonBody j \<Rightarrow> write_chunk (JsonChunk j) (write_header (rp_Status r) (set_header ''Content-Type'' ''application/json'' w)))"

subsection \<open>Event streams\<close>

definition setSSEHeaders :: "writer \<Rightarrow> writer" where
  "setSSEHeaders w =
     set_header ''Connection'' ''keep-alive'' (set_header ''Cache-Control'' ''no-cache'' (set_header ''Content-Type'' ''text/event-stream'' w))"

definition writeSSEEvent :: "string \<Rightarrow> json \<Rightarrow> writer \<Rightarrow> writer" where
  "writeSSEEvent name payload w = write_chunk (EventChunk name payload) w"

definition stream_event_name :: "event \<Rightarrow> string" where
  "stream_event_name e =
     (if ev_Type e = ''shell.started'' then ''started''
      else if ev_Type e = ''shell.output'' then (if ev_Stream e = ''stderr'' then ''stderr'' else ''stdout'')
      else if ev_Type e = ''shell.completed'' \<or> ev_Type e = ''rpc.completed'' then ''completed''
      else if ev_Type e = ''rpc.error'' then ''error''
      else if has_suffix (ev_Type e) ''.started'' then ''started''
      else if has_suffix (ev_Type e) ''.completed'' then ''completed''
      else if has_suffix (ev_Type e) ''.error'' then ''error''
      else ''progress'')"

definition with_method :: "string \<Rightarrow> event \<Rightarrow> event" where
  "with_method meth e = (if ev_Method e = [] then e\<lparr>ev_Method := meth\<rparr> else e)"

text \<open>\<open>streamSink.Emit\<close>: an event whose data is not JSON cannot be encoded and is dropped.\<close>

definition stream_emit :: "string \<Rightarrow> event \<Rightarrow> writer \<Rightarrow> writer" where
  "stream_emit meth e w =
     (let e1 = with_method meth e;
          fields = [(''type'', JStr (ev_Type e1)), (''method'', JStr (ev_Method e1)), (''stream'', JStr (ev_Stream e1)),
                    (''message'', JStr (ev_Message e1)), (''timestamp'', JStr (ev_Timestamp e1))]
      in case ev_Data e1 of
           RawNil \<Rightarrow> writeSSEEvent (stream_event_name e1) (JObj fields) w
         | Raw j \<Rightarrow> writeSSEEvent (stream_event_name e1) (JObj (fields @ [(''data'', j)])) w
         | RawText _ \<Rightarrow> w)"

section \<open>JSON-RPC messages\<close>

record call_request =
  jr_JSONRPC :: string
  jr_Method :: string
  jr_Params :: raw
  jr_ID :: json

definition dec_rpc_request :: "raw \<Rightarrow> call_request decoded" where
  "dec_rpc_request r =
     dec_bind (dec_map r) (\<lambda>m.
     dec_bind (field_string m ''jsonrpc'') (\<lambda>v.
     dec_bind (field_string m ''method'') (\<lambda>meth.
       Inr \<lparr>jr_JSONRPC = v, jr_Method = meth, jr_Params = field_raw m ''params'', jr_ID = field_any m ''id''\<rparr>)))"

definition request_json :: "call_request \<Rightarrow> json" where
  "request_json q = JObj ([(''jsonrpc'', JStr (jr_JSONRPC q)), (''method'', JStr (jr_Method q))] @
     (if raw_len0 (jr_Params q) then [] else [(''params'', raw_value (jr_Params q))]) @ [(''id'', jr_ID q)])"

record rpc_error =
  er_Code :: int
  er_Message :: string
  er_Data :: json

text \<open>An absent result is \<open>JNull\<close>; \<open>omitempty\<close> leaves a nil result, error or data out.\<close>

record rpc_response =
  rsp_Result :: json
  rsp_Error :: "rpc_error option"
  rsp_ID :: json

definition opt_json :: "string \<Rightarrow> json \<Rightarrow> jmap" where
  "opt_json k j = (if j = JNull then [] else [(k, j)])"

definition response_json :: "rpc_response \<Rightarrow> json" where
  "response_json r = JObj ([(''jsonrpc'', JStr ''2.0'')] @ opt_json ''result'' (rsp_Result r) @
     (case rsp_Error r of
        None \<Rightarrow> []
      | Some e \<Rightarrow> [(''error'', JObj ([(''code'', JNum (er_Code e)), (''message'', JStr (er_Message e))] @ opt_json ''data'' (er_Data e)))]) @
     [(''id'', rsp_ID r)])"

definition dec_rpc_response :: "raw \<Rightarrow> rpc_response decoded" where
  "dec_rpc_response r =
     dec_bind (dec_map r) (\<lambda>m.
     dec_bind (field_string m ''jsonrpc'') (\<lambda>_.
     dec_bind (case jget m ''error'' of
                 None \<Rightarrow> Inr None
               | Some JNull \<Rightarrow> Inr None
               | Some j \<Rightarrow>
                   dec_bind (dec_map (Raw j)) (\<lambda>x.
                   dec_bind (field_int x ''code'') (\<lambda>c.
                   dec_bind (field_string x ''message'') (\<lambda>msg.
                     Inr (Some \<lparr>er_Code = c, er_Message = msg, er_Data = field_any x ''data''\<rparr>))))) (\<lambda>err.
       Inr \<lparr>rsp_Result = field_any m ''result'', rsp_Error = err, rsp_ID = field_any m ''id''\<rparr>)))"

definition CodeParseError :: int where
  "CodeParseError = - 32700"

definition CodeInvalidRequest :: int where
  "CodeInvalidRequest = - 32600"

definition CodeMethodNotFound :: int where
  "CodeMethodNotFound = - 32601"

definition CodeInvalidParams :: int where
  "CodeInvalidParams = - 32602"

definition CodeInternalError :: int where
  "CodeInternalError = - 32603"

definition writeResponse :: "rpc_response \<Rightarrow> writer \<Rightarrow> writer" where
  "writeResponse r w = write_json (response_json r) w"

definition write_failure :: "json \<Rightarrow> int \<Rightarrow> string \<Rightarrow> writer \<Rightarrow> writer" where
  "write_failure i code msg w =
     writeResponse \<lparr>rsp_Result = JNull, rsp_Error = Some \<lparr>er_Code = code, er_Message = msg, er_Data = JNull\<rparr>, rsp_ID = i\<rparr> w"

definition write_panic :: "json \<Rightarrow> string \<Rightarrow> writer \<Rightarrow> writer" where
  "write_panic i what w =
     writeResponse \<lparr>rsp_Result = JNull,
       rsp_Error = Some \<lparr>er_Code = CodeInternalError, er_Message = ''internal server error'', er_Data = JStr what\<rparr>, rsp_ID = i\<rparr> w"

definition write_success :: "json \<Rightarrow> json \<Rightarrow> writer \<Rightarrow> writer" where
  "write_success i result w = writeResponse \<lparr>rsp_Result = result, rsp_Error = None, rsp_ID = i\<rparr> w"

definition error_code :: "go_error \<Rightarrow> int" where
  "error_code e =
     (case e of
        PrimitiveError code _ \<Rightarrow>
          (if code \<in> {''NOT_FOUND'', ''PERMISSION_DENIED'', ''VALIDATION_ERROR''} then CodeInvalidParams else CodeInternalError)
      | _ \<Rightarrow> CodeInternalError)"

definition writePrimitiveError :: "json \<Rightarrow> go_error \<Rightarrow> writer \<Rightarrow> writer" where
  "writePrimitiveError i e w = write_failure i (error_code e) (error_text e) w"

definition result_json :: "prim_result \<Rightarrow> json" where
  "result_json r = JObj ([(''data'', pr_Data r), (''duration_ms'', JNum (pr_Duration r))] @
     opt_text ''diff'' (pr_Diff r) @ opt_text ''warning'' (pr_Warning r))"

definition decodeRPCRequest :: "raw \<Rightarrow> call_request option" where
  "decodeRPCRequest body =
     (case dec_rpc_request body of
        Inl _ \<Rightarrow> None
      | Inr q \<Rightarrow> (if jr_JSONRPC q \<noteq> ''2.0'' \<or> jr_Method q = [] then None else Some q))"

section \<open>The server\<close>

record audit_entry =
  au_Timestamp :: int
  au_Method :: string
  au_Input :: raw
  au_Output :: json
  au_Error :: string
  au_Duration :: int
  au_Metadata :: "(string \<times> string) list"

text \<open>The world of one call: the world itself, the events sent to the client's stream, and the recorder.\<close>

record 'w rpc_call =
  cx_world :: 'w
  cx_events :: "event list"
  cx_record :: "trace_record option"

record 'w trace_ops =
  to_RecordTraceStep :: "'w \<Rightarrow> trace_record \<Rightarrow> 'w \<times> go_error option"
  to_ListTraceSteps :: "'w \<Rightarrow> string \<Rightarrow> int \<Rightarrow> 'w \<times> (go_error + trace_record list)"
  to_GetTraceStep :: "'w \<Rightarrow> string \<Rightarrow> string \<Rightarrow> 'w \<times> (go_error + trace_record option)"

record http_call =
  ht_Method :: string
  ht_URL :: string
  ht_Header :: headers
  ht_Body :: raw

text \<open>The body of a response: as one message, the error that ended its reading, and as lines.\<close>

record proxy_response =
  hr_Status :: int
  hr_Header :: headers
  hr_ContentLength :: int
  hr_Body :: raw
  hr_ReadErr :: "go_error option"
  hr_Lines :: "string list"

record ('a, 's, 'w) server =
  sv_router :: "'w rpc_call sink option \<Rightarrow> ('a, 'w rpc_call) router"
  sv_manager :: "('s, 'w) manager option"
  sv_publish :: "('w \<Rightarrow> event \<Rightarrow> 'w) option"
  sv_listEvents :: "('w \<Rightarrow> list_filter \<Rightarrow> 'w \<times> (go_error + event list)) option"
  sv_traces :: "'w trace_ops option"
  sv_audit :: bool
  sv_origins :: "string list"
  sv_http :: "'w \<Rightarrow> http_call \<Rightarrow> 'w \<times> (go_error + proxy_response)"
  sv_resolve :: "string \<Rightarrow> string \<Rightarrow> go_error + string"
  sv_now :: "'w \<Rightarrow> int"
  sv_time :: "int \<Rightarrow> string"
  sv_encode :: "trace_record \<Rightarrow> string"
  sv_decode :: "string \<Rightarrow> trace_record option"
  sv_newRequest :: "string \<Rightarrow> string \<Rightarrow> go_error option"
  sv_panicked :: "'w \<Rightarrow> string option"

record ('a, 's, 'w) rpc_state =
  rp_apps :: 'a
  rp_store :: 's
  rp_snapshots :: "string list"
  rp_world :: 'w
  rp_requestID :: "64 word"
  rp_audit :: "audit_entry list"

text \<open>
  \<open>Do\<close> of a \<open>net/http\<close> client without a redirect policy of its own, over single exchanges \<open>sv_http\<close> and the resolution of a URL
  reference \<open>sv_resolve\<close>: a redirect with a location is followed wherever it leads, after a 301, 302 or 303 with \<open>GET\<close> and no body,
  after a 307 or 308 with the same method and body, and at most ten requests are made. (The \<open>Referer\<close> header is left out.)
\<close>

definition redirect_request :: "(string \<Rightarrow> string \<Rightarrow> go_error + string) \<Rightarrow> http_call \<Rightarrow> proxy_response \<Rightarrow> (go_error + http_call) option" where
  "redirect_request resolve c resp =
     (let loc = header_get (hr_Header resp) ''Location''
      in if hr_Status resp \<in> {301, 302, 303, 307, 308} \<and> loc \<noteq> [] then
           Some (map_sum id (\<lambda>url. if hr_Status resp \<in> {307, 308} then c\<lparr>ht_URL := url\<rparr>
                                 else c\<lparr>ht_Method := (if ht_Method c \<in> {''GET'', ''HEAD''} then ht_Method c else ''GET''),
                                        ht_URL := url, ht_Body := RawNil\<rparr>) (resolve (ht_URL c) loc))
         else None)"

fun follow_redirects :: "nat \<Rightarrow> ('a, 's, 'w) server \<Rightarrow> 'w \<Rightarrow> http_call \<Rightarrow> 'w \<times> (go_error + proxy_response)" where
  "follow_redirects 0 s w c = (w, Inl (GoErr ''stopped after 10 redirects''))"
| "follow_redirects (Suc n) s w c =
     (case sv_http s w c of
        (w', Inl e) \<Rightarrow> (w', Inl e)
      | (w', Inr resp) \<Rightarrow>
          (case redirect_request (sv_resolve s) c resp of
             None \<Rightarrow> (w', Inr resp)
           | Some (Inl e) \<Rightarrow> (w', Inl e)
           | Some (Inr c') \<Rightarrow> follow_redirects n s w' c'))"

definition http_do :: "('a, 's, 'w) server \<Rightarrow> 'w \<Rightarrow> http_call \<Rightarrow> 'w \<times> (go_error + proxy_response)" where
  "http_do = follow_redirects 10"

abbreviation sv_registry :: "('a, 's, 'w) server \<Rightarrow> 'w rpc_call registry option" where
  "sv_registry s \<equiv> rt_registry (sv_router s None)"

abbreviation sv_apps :: "('a, 's, 'w) server \<Rightarrow> 'a app_ops option" where
  "sv_apps s \<equiv> rt_apps (sv_router s None)"

definition set_world :: "'w \<Rightarrow> ('a, 's, 'w) rpc_state \<Rightarrow> ('a, 's, 'w) rpc_state" where
  "set_world w st = st\<lparr>rp_world := w\<rparr>"

definition bus_publish :: "('a, 's, 'w) server \<Rightarrow> event \<Rightarrow> ('a, 's, 'w) rpc_state \<Rightarrow> ('a, 's, 'w) rpc_state" where
  "bus_publish s e st = (case sv_publish s of None \<Rightarrow> st | Some f \<Rightarrow> set_world (f (rp_world st) e) st)"

definition LogCallWithMetadata ::
  "('a, 's, 'w) server \<Rightarrow> string \<Rightarrow> raw \<Rightarrow> json \<Rightarrow> go_error option \<Rightarrow> int \<Rightarrow> (string \<times> string) list
   \<Rightarrow> ('a, 's, 'w) rpc_state \<Rightarrow> ('a, 's, 'w) rpc_state" where
  "LogCallWithMetadata s meth input output err dur meta st =
     (if sv_audit s then
        st\<lparr>rp_audit := rp_audit st @ [\<lparr>au_Timestamp = sv_now s (rp_world st), au_Method = meth, au_Input = input, au_Output = output,
             au_Error = (case err of None \<Rightarrow> [] | Some e \<Rightarrow> error_text e), au_Duration = dur, au_Metadata = meta\<rparr>]\<rparr>
      else st)"

section \<open>Traces\<close>

definition defaultString :: "string \<Rightarrow> string \<Rightarrow> string" where
  "defaultString v fallback = (if v = [] then fallback else v)"

record trace_snapshot =
  ts_Category :: string
  ts_Reversible :: bool
  ts_RiskLevel :: string
  ts_AffectedScopes :: "string list"

record trace_event =
  te_ID :: string
  te_SandboxID :: string
  te_TraceID :: string
  te_PrimitiveID :: string
  te_Timestamp :: string
  te_DurationMs :: int
  te_Attempt :: int
  te_CheckpointID :: string
  te_LayerAOutcome :: string
  te_StrategyName :: string
  te_StrategyOutcome :: string
  te_RecoveryPath :: string
  te_CVRDepthExceeded :: bool
  te_IntentSnapshot :: "trace_snapshot option"
  te_AffectedScopes :: "string list"

definition positive :: "int option \<Rightarrow> bool" where
  "positive v = (case v of None \<Rightarrow> False | Some i \<Rightarrow> 0 < i)"

text \<open>The part after the last dash, if there is a dash.\<close>

definition after_dash :: "string \<Rightarrow> string" where
  "after_dash s = (if CHR ''-'' \<in> set s then rev (takeWhile (\<lambda>c. c \<noteq> CHR ''-'') (rev s)) else [])"

definition inferAttempt :: "string \<Rightarrow> int" where
  "inferAttempt a =
     (if a = [] then 1
      else if positive (atoi a) then the (atoi a)
      else if after_dash a \<noteq> [] \<and> positive (atoi (after_dash a)) then the (atoi (after_dash a))
      else 1)"

definition fallbackTraceEventID :: "('a, 's, 'w) server \<Rightarrow> trace_record \<Rightarrow> string" where
  "fallbackTraceEventID s r =
     (if tr_TraceID r \<noteq> [] then tr_TraceID r @ '':'' @ tr_Primitive r
      else if sv_time s (tr_Timestamp r) \<noteq> [] then tr_Primitive r @ '':'' @ sv_time s (tr_Timestamp r)
      else tr_Primitive r)"

definition dec_intent :: "raw \<Rightarrow> primitive_intent decoded" where
  "dec_intent r =
     dec_bind (dec_map r) (\<lambda>m.
     dec_bind (field_string m ''category'') (\<lambda>c.
     dec_bind (field_bool m ''reversible'') (\<lambda>v.
     dec_bind (field_string m ''risk_level'') (\<lambda>k.
     dec_bind (field_strings m ''affected_scopes'') (\<lambda>a.
       Inr \<lparr>Category = category_of c, Reversible = v, RiskLevel = risk_of k, AffectedScopes = a\<rparr>)))))"

definition parseIntentSnapshot :: "raw \<Rightarrow> trace_snapshot option" where
  "parseIntentSnapshot r =
     (case dec_intent r of
        Inl _ \<Rightarrow> None
      | Inr i \<Rightarrow> Some \<lparr>ts_Category = category_string (Category i), ts_Reversible = Reversible i, ts_RiskLevel = risk_string (RiskLevel i),
                  ts_AffectedScopes = AffectedScopes i\<rparr>)"

definition projectTraceEvent :: "('a, 's, 'w) server \<Rightarrow> trace_record \<Rightarrow> trace_event" where
  "projectTraceEvent s r =
     \<lparr>te_ID = defaultString (tr_StepID r) (fallbackTraceEventID s r), te_SandboxID = tr_SandboxID r, te_TraceID = tr_TraceID r,
      te_PrimitiveID = tr_Primitive r, te_Timestamp = sv_time s (tr_Timestamp r), te_DurationMs = tr_DurationMs r,
      te_Attempt = inferAttempt (tr_AttemptID r), te_CheckpointID = tr_CheckpointID r, te_LayerAOutcome = tr_LayerAOutcome r,
      te_StrategyName = tr_StrategyName r, te_StrategyOutcome = tr_StrategyOutcome r, te_RecoveryPath = tr_RecoveryPath r,
      te_CVRDepthExceeded = tr_CVRDepthExceeded r, te_IntentSnapshot = parseIntentSnapshot (tr_IntentSnapshot r),
      te_AffectedScopes = tr_AffectedScopes r\<rparr>"

text \<open>A copied empty slice is nil, which is encoded as null.\<close>

definition scopes_json :: "string list \<Rightarrow> json" where
  "scopes_json xs = (if xs = [] then JNull else JArr (map JStr xs))"

definition snapshot_json :: "trace_snapshot option \<Rightarrow> json" where
  "snapshot_json t =
     (case t of
        None \<Rightarrow> JNull
      | Some x \<Rightarrow> JObj [(''category'', JStr (ts_Category x)), (''reversible'', JBool (ts_Reversible x)), (''risk_level'', JStr (ts_RiskLevel x)),
                    (''affected_scopes'', scopes_json (ts_AffectedScopes x))])"

definition trace_event_json :: "trace_event \<Rightarrow> json" where
  "trace_event_json t = JObj
     [(''id'', JStr (te_ID t)), (''sandbox_id'', JStr (te_SandboxID t)), (''trace_id'', JStr (te_TraceID t)),
      (''primitive_id'', JStr (te_PrimitiveID t)), (''timestamp'', JStr (te_Timestamp t)), (''duration_ms'', JNum (te_DurationMs t)),
      (''attempt'', JNum (te_Attempt t)), (''checkpoint_id'', JStr (te_CheckpointID t)), (''layer_a_outcome'', JStr (te_LayerAOutcome t)),
      (''strategy_name'', JStr (te_StrategyName t)), (''strategy_outcome'', JStr (te_StrategyOutcome t)), (''recovery_path'', JStr (te_RecoveryPath t)),
      (''cvr_depth_exceeded'', JBool (te_CVRDepthExceeded t)), (''intent_snapshot'', snapshot_json (te_IntentSnapshot t)),
      (''affected_scopes'', scopes_json (te_AffectedScopes t))]"

definition dec_snapshot :: "json option \<Rightarrow> trace_snapshot option decoded" where
  "dec_snapshot j =
     (if j = None \<or> j = Some JNull then Inr None
      else
        dec_bind (dec_map (Raw (the j))) (\<lambda>m.
        dec_bind (field_string m ''category'') (\<lambda>c.
        dec_bind (field_bool m ''reversible'') (\<lambda>v.
        dec_bind (field_string m ''risk_level'') (\<lambda>k.
        dec_bind (field_strings m ''affected_scopes'') (\<lambda>a.
          Inr (Some \<lparr>ts_Category = c, ts_Reversible = v, ts_RiskLevel = k, ts_AffectedScopes = a\<rparr>)))))))"

definition dec_trace_event :: "raw \<Rightarrow> trace_event decoded" where
  "dec_trace_event r =
     dec_bind (dec_map r) (\<lambda>m.
     dec_bind (field_string m ''id'') (\<lambda>i.
     dec_bind (field_string m ''sandbox_id'') (\<lambda>sb.
     dec_bind (field_string m ''trace_id'') (\<lambda>t.
     dec_bind (field_string m ''primitive_id'') (\<lambda>p.
     dec_bind (field_string m ''timestamp'') (\<lambda>tm.
     dec_bind (field_int m ''duration_ms'') (\<lambda>d.
     dec_bind (field_int m ''attempt'') (\<lambda>a.
     dec_bind (field_string m ''checkpoint_id'') (\<lambda>c.
     dec_bind (field_string m ''layer_a_outcome'') (\<lambda>la.
     dec_bind (field_string m ''strategy_name'') (\<lambda>sn.
     dec_bind (field_string m ''strategy_outcome'') (\<lambda>so.
     dec_bind (field_string m ''recovery_path'') (\<lambda>rp.
     dec_bind (field_bool m ''cvr_depth_exceeded'') (\<lambda>cd.
     dec_bind (dec_snapshot (jget m ''intent_snapshot'')) (\<lambda>is'.
     dec_bind (field_strings m ''affected_scopes'') (\<lambda>af.
       Inr \<lparr>te_ID = i, te_SandboxID = sb, te_TraceID = t, te_PrimitiveID = p, te_Timestamp = tm, te_DurationMs = d, te_Attempt = a,
            te_CheckpointID = c, te_LayerAOutcome = la, te_StrategyName = sn, te_StrategyOutcome = so, te_RecoveryPath = rp,
            te_CVRDepthExceeded = cd, te_IntentSnapshot = is', te_AffectedScopes = af\<rparr>))))))))))))))))"

definition trace_step_event :: "('a, 's, 'w) server \<Rightarrow> trace_record \<Rightarrow> event" where
  "trace_step_event s r =
     zero_event\<lparr>ev_Type := ''trace.step'', ev_Source := ''trace'', ev_SandboxID := tr_SandboxID r, ev_Method := tr_Primitive r,
       ev_Message := tr_StepID r, ev_Data := json_marshal (trace_event_json (projectTraceEvent s r))\<rparr>"

definition publishTraceStep :: "('a, 's, 'w) server \<Rightarrow> trace_record \<Rightarrow> ('a, 's, 'w) rpc_state \<Rightarrow> ('a, 's, 'w) rpc_state" where
  "publishTraceStep s r st =
     (let st1 = (case sv_traces s of None \<Rightarrow> st | Some t \<Rightarrow> set_world (fst (to_RecordTraceStep t (rp_world st) r)) st)
      in bus_publish s (trace_step_event s r) st1)"

section \<open>Calls\<close>

definition rpc_event :: "string \<Rightarrow> string \<Rightarrow> jmap \<Rightarrow> event" where
  "rpc_event t meth data =
     zero_event\<lparr>ev_Type := t, ev_Source := ''rpc'', ev_Method := meth, ev_Message := meth, ev_Data := json_marshal (JObj data)\<rparr>"

text \<open>The sink of a call: the bus, if there is one, and the stream of the client.\<close>

definition call_sink :: "('a, 's, 'w) server \<Rightarrow> string \<Rightarrow> bool \<Rightarrow> 'w rpc_call sink option" where
  "call_sink s meth stream = NewMultiSink
     [map_option (\<lambda>f c e. c\<lparr>cx_world := f (cx_world c) (with_method meth e)\<rparr>) (sv_publish s),
      if stream then Some (\<lambda>c e. c\<lparr>cx_events := cx_events c @ [e]\<rparr>) else None]"

definition routePrimitive ::
  "('a, 's, 'w) server \<Rightarrow> ('a, 's, 'w) rpc_state \<Rightarrow> bool \<Rightarrow> string \<Rightarrow> raw
   \<Rightarrow> ('a, 's, 'w) rpc_state \<times> event list \<times> trace_record option \<times> (go_error + prim_result)" where
  "routePrimitive s st stream meth params =
     (let (r, res) = Route (sv_router s (call_sink s meth stream))
            \<lparr>rs_apps = rp_apps st, rs_world = \<lparr>cx_world = rp_world st, cx_events = [], cx_record = None\<rparr>, rs_requestID = rp_requestID st\<rparr>
            meth params
      in (st\<lparr>rp_apps := rs_apps r, rp_world := cx_world (rs_world r), rp_requestID := rs_requestID r\<rparr>,
          cx_events (rs_world r), cx_record (rs_world r), res))"

definition responseResult ::
  "('a, 's, 'w) server \<Rightarrow> ('a, 's, 'w) rpc_state \<Rightarrow> string \<Rightarrow> prim_result \<Rightarrow> ('a, 's, 'w) rpc_state \<times> json" where
  "responseResult s st meth res =
     (if Option.bind (sv_registry s) (\<lambda>reg. reg_Get reg meth) \<noteq> None then (st, result_json res)
      else case sv_apps s of
        None \<Rightarrow> (st, result_json res)
      | Some ops \<Rightarrow>
          (let (a, m) = ao_Get ops (rp_apps st) meth
           in (st\<lparr>rp_apps := a\<rparr>, case m of Inr (Some _) \<Rightarrow> pr_Data res | _ \<Rightarrow> result_json res)))"

text \<open>The trace of a call that left a record: the header of the response and the published step.\<close>

definition attach_trace ::
  "('a, 's, 'w) server \<Rightarrow> trace_record option \<Rightarrow> ('a, 's, 'w) rpc_state \<Rightarrow> writer \<Rightarrow> ('a, 's, 'w) rpc_state \<times> writer" where
  "attach_trace s rec st w =
     (case rec of
        None \<Rightarrow> (st, w)
      | Some r \<Rightarrow> (publishTraceStep s r st, set_header ''X-PrimitiveBox-Trace-Step'' (sv_encode s r) w))"

definition log_outcome ::
  "('a, 's, 'w) server \<Rightarrow> call_request \<Rightarrow> int \<Rightarrow> go_error + prim_result \<Rightarrow> ('a, 's, 'w) rpc_state \<Rightarrow> ('a, 's, 'w) rpc_state" where
  "log_outcome s q dur res st =
     (let err = (case res of Inl e \<Rightarrow> Some e | Inr _ \<Rightarrow> None);
          data = (case res of Inl _ \<Rightarrow> JNull | Inr x \<Rightarrow> pr_Data x)
      in bus_publish s (rpc_event (if err = None then ''rpc.completed'' else ''rpc.error'') (jr_Method q)
           [(''duration_ms'', JNum dur), (''success'', JBool (err = None))])
           (LogCallWithMetadata s (jr_Method q) (jr_Params q) data err dur [] st))"

text \<open>The answer to a call that was routed and did not panic; an error comes without a result.\<close>

definition answer ::
  "('a, 's, 'w) server \<Rightarrow> call_request \<Rightarrow> bool \<Rightarrow> int \<Rightarrow> trace_record option \<Rightarrow> go_error + prim_result
   \<Rightarrow> ('a, 's, 'w) rpc_state \<Rightarrow> writer \<Rightarrow> ('a, 's, 'w) rpc_state \<times> writer" where
  "answer s q stream dur rec res st w =
     (if (case res of Inl e \<Rightarrow> errors_is e ErrPrimitiveNotFound | Inr _ \<Rightarrow> False) then
        (st, if stream then http_Error (''unknown primitive: '' @ jr_Method q) 404 w
             else write_failure (jr_ID q) CodeMethodNotFound (''unknown primitive: '' @ jr_Method q) w)
      else
        (let (st1, w1) = attach_trace s rec (log_outcome s q dur res st) w
         in case res of
              Inl e \<Rightarrow>
                (st1, if stream then writeSSEEvent ''error'' (JObj [(''method'', JStr (jr_Method q)), (''message'', JStr (error_text e))]) w1
                      else writePrimitiveError (jr_ID q) e w1)
            | Inr x \<Rightarrow>
                (if stream then
                   (st1, writeSSEEvent ''completed'' (JObj [(''method'', JStr (jr_Method q)), (''result'', result_json x),
                           (''duration_ms'', JNum dur)]) w1)
                 else
                   (let (st2, j) = responseResult s st1 (jr_Method q) x in (st2, write_success (jr_ID q) j w1)))))"

definition call_primitive ::
  "('a, 's, 'w) server \<Rightarrow> ('a, 's, 'w) rpc_state \<Rightarrow> call_request \<Rightarrow> bool \<Rightarrow> writer \<Rightarrow> ('a, 's, 'w) rpc_state \<times> writer" where
  "call_primitive s st q stream w =
     (if stream \<and> \<not> wr_flusher w then (st, http_Error ''streaming unsupported'' 500 w)
      else
        (let w1 = (if stream then writeSSEEvent ''started'' (JObj [(''method'', JStr (jr_Method q)), (''id'', jr_ID q)]) (setSSEHeaders w) else w);
             st1 = bus_publish s (rpc_event ''rpc.started'' (jr_Method q) [(''id'', jr_ID q)]) st;
             (st2, events, rec, res) = routePrimitive s st1 stream (jr_Method q) (jr_Params q);
             w2 = (if stream then fold (stream_emit (jr_Method q)) events w1 else w1);
             dur = sv_now s (rp_world st2) - sv_now s (rp_world st1);
             what = ''panic while handling '' @ jr_Method q
         in if sv_panicked s (rp_world st2) \<noteq> None
            then (st2, if stream then writeSSEEvent ''error'' (JObj [(''message'', JStr what)]) w2 else write_panic (jr_ID q) what w2)
            else answer s q stream dur rec res st2 w2))"

section \<open>Registration of app primitives\<close>

definition isSandboxRequest :: "http_req \<Rightarrow> bool" where
  "isSandboxRequest r = (to_lower (header_get (ir_Header r) ''X-PB-Origin'') = ''sandbox'')"

fun availability_of :: "string \<Rightarrow> availability" where
  "availability_of s =
     (if s = ''active'' then AppPrimitiveActive else if s = ''unavailable'' then AppPrimitiveUnavailable
      else if s = ''reactivating'' then AppPrimitiveReactivating else AvailabilityOther s)"

definition dec_pointer :: "(jmap \<Rightarrow> 'b decoded) \<Rightarrow> jmap \<Rightarrow> string \<Rightarrow> 'b option decoded" where
  "dec_pointer f m k =
     (case jget m k of
        None \<Rightarrow> Inr None
      | Some JNull \<Rightarrow> Inr None
      | Some j \<Rightarrow> dec_bind (dec_map (Raw j)) (\<lambda>x. dec_bind (f x) (\<lambda>y. Inr (Some y))))"

definition dec_app_manifest :: "raw \<Rightarrow> app_manifest decoded" where
  "dec_app_manifest r =
     dec_bind (dec_map r) (\<lambda>m.
     dec_bind (field_string m ''app_id'') (\<lambda>a.
     dec_bind (field_string m ''name'') (\<lambda>n.
     dec_bind (field_string m ''description'') (\<lambda>d.
     dec_bind (field_string m ''ui_layout_hint'') (\<lambda>u.
     dec_bind (field_string m ''socket_path'') (\<lambda>p.
     dec_bind (field_string m ''status'') (\<lambda>st.
     dec_bind (field_string m ''verify_endpoint'') (\<lambda>ve.
     dec_bind (dec_pointer (\<lambda>x.
        dec_bind (field_string x ''strategy'') (\<lambda>s. dec_bind (field_string x ''primitive'') (\<lambda>q. dec_bind (field_string x ''command'') (\<lambda>c.
          Inr \<lparr>av_Strategy = s, av_Primitive = q, av_Command = c\<rparr>)))) m ''verify'') (\<lambda>v.
     dec_bind (field_string m ''rollback_endpoint'') (\<lambda>re.
     dec_bind (dec_pointer (\<lambda>x.
        dec_bind (field_string x ''strategy'') (\<lambda>s. dec_bind (field_string x ''primitive'') (\<lambda>q.
          Inr \<lparr>ar_Strategy = s, ar_Primitive = q\<rparr>))) m ''rollback'') (\<lambda>rb.
     dec_bind (case jget m ''intent'' of None \<Rightarrow> dec_intent (Raw JNull) | Some j \<Rightarrow> dec_intent (Raw j)) (\<lambda>i.
       Inr \<lparr>mf_AppID = a, mf_Name = n, mf_Description = d, mf_InputSchema = field_raw m ''input_schema'',
            mf_OutputSchema = field_raw m ''output_schema'', mf_UILayoutHint = u, mf_SocketPath = p, mf_Availability = availability_of st,
            mf_VerifyEndpoint = ve, mf_Verify = v, mf_RollbackEndpoint = re, mf_Rollback = rb, mf_Intent = i\<rparr>))))))))))))"

definition handleAppRegister ::
  "('a, 's, 'w) server \<Rightarrow> ('a, 's, 'w) rpc_state \<Rightarrow> http_req \<Rightarrow> call_request \<Rightarrow> bool \<Rightarrow> writer \<Rightarrow> ('a, 's, 'w) rpc_state \<times> writer" where
  "handleAppRegister s st r q stream w =
     (let fail = (\<lambda>code msg. (st, write_failure (jr_ID q) code msg w))
      in if stream then (st, http_Error ''streaming unsupported for app.register'' 400 w)
         else if \<not> isSandboxRequest r \<or> sv_manager s \<noteq> None then fail CodeMethodNotFound ''method not available on host gateway''
         else case sv_apps s of
           None \<Rightarrow> fail CodeInternalError ''app registry unavailable''
         | Some ops \<Rightarrow>
             (case dec_app_manifest (jr_Params q) of
                Inl e \<Rightarrow> fail CodeInvalidRequest (''invalid app manifest: '' @ error_text e)
              | Inr m \<Rightarrow>
                  (if mf_AppID m = [] \<or> mf_Name m = [] \<or> mf_SocketPath m = []
                   then fail CodeInvalidRequest ''app_id, name, and socket_path are required''
                   else case NormalizeAppManifestSchema (mf_InputSchema m) of
                     Inl e \<Rightarrow> fail CodeInvalidRequest (''invalid input_schema: '' @ error_text e)
                   | Inr inp \<Rightarrow>
                       (case NormalizeAppManifestSchema (mf_OutputSchema m) of
                          Inl e \<Rightarrow> fail CodeInvalidRequest (''invalid output_schema: '' @ error_text e)
                        | Inr outp \<Rightarrow>
                            (let (a, err) = ao_Register ops (rp_apps st) (m\<lparr>mf_InputSchema := inp, mf_OutputSchema := outp\<rparr>);
                                 st1 = st\<lparr>rp_apps := a\<rparr>
                             in case err of
                                  Some e \<Rightarrow> (st1, write_failure (jr_ID q) CodeInternalError (error_text e) w)
                                | None \<Rightarrow> (st1, write_success (jr_ID q) (JObj [(''registered'', JBool True), (''name'', JStr (mf_Name m))]) w))))))"

definition version_required :: string where
  "version_required = ''jsonrpc must be '' @ [CHR 0x27] @ ''2.0'' @ [CHR 0x27]"

definition handleRPCRequest ::
  "('a, 's, 'w) server \<Rightarrow> ('a, 's, 'w) rpc_state \<Rightarrow> http_req \<Rightarrow> bool \<Rightarrow> writer \<Rightarrow> ('a, 's, 'w) rpc_state \<times> writer" where
  "handleRPCRequest s st r stream w =
     (if ir_Method r \<noteq> ''POST'' then (st, not_allowed w)
      else case dec_rpc_request (ir_Body r) of
        Inl e \<Rightarrow>
          (st, if stream then http_Error (''invalid JSON: '' @ error_text e) 400 w
               else write_failure JNull CodeParseError (''invalid JSON: '' @ error_text e) w)
      | Inr q \<Rightarrow>
          (if jr_JSONRPC q \<noteq> ''2.0'' then
             (st, if stream then http_Error version_required 400 w
                  else write_failure (jr_ID q) CodeInvalidRequest version_required w)
           else if jr_Method q = ''app.register'' then handleAppRegister s st r q stream w
           else call_primitive s st q stream w))"

section \<open>Sandboxes\<close>

definition lift_mgr ::
  "(('s, 'w) mgr_state \<Rightarrow> ('s, 'w) mgr_state \<times> 'r) \<Rightarrow> ('a, 's, 'w) rpc_state \<Rightarrow> ('a, 's, 'w) rpc_state \<times> 'r" where
  "lift_mgr f st =
     (let (m, r) = f \<lparr>ms_store = rp_store st, ms_world = rp_world st, ms_snapshots = rp_snapshots st\<rparr>
      in (st\<lparr>rp_store := ms_store m, rp_world := ms_world m, rp_snapshots := ms_snapshots m\<rparr>, r))"

fun mode_of :: "string \<Rightarrow> network_mode" where
  "mode_of s =
     (if s = [] then NetworkModeUnset else if s = ''none'' then NetworkModeNone else if s = ''full'' then NetworkModeFull
      else if s = ''policy'' then NetworkModePolicy else NetworkModeOther s)"

definition field_object :: "jmap \<Rightarrow> string \<Rightarrow> jmap decoded" where
  "field_object m k = (case jget m k of None \<Rightarrow> Inr [] | Some j \<Rightarrow> dec_map (Raw j))"

definition dec_policy :: "jmap \<Rightarrow> network_policy decoded" where
  "dec_policy m =
     dec_bind (field_string m ''mode'') (\<lambda>mo.
     dec_bind (field_strings m ''allow_hosts'') (\<lambda>h.
     dec_bind (field_strings m ''allow_cidrs'') (\<lambda>c.
     dec_bind (field_list (\<lambda>j. dec_int (Raw j)) m ''allow_ports'') (\<lambda>p.
       Inr \<lparr>np_Mode = mode_of mo, np_AllowHosts = h, np_AllowCIDRs = c, np_AllowPorts = p\<rparr>))))"

definition dec_sandbox_config :: "raw \<Rightarrow> sandbox_config decoded" where
  "dec_sandbox_config r =
     dec_bind (dec_map r) (\<lambda>m.
     dec_bind (field_string m ''driver'') (\<lambda>d.
     dec_bind (field_string m ''image'') (\<lambda>i.
     dec_bind (field_string m ''mount_source'') (\<lambda>ms.
     dec_bind (field_string m ''mount_target'') (\<lambda>mt.
     dec_bind (field_int m ''cpu_limit'') (\<lambda>cpu.
     dec_bind (field_int m ''memory_limit'') (\<lambda>mem.
     dec_bind (field_int m ''disk_limit'') (\<lambda>disk.
     dec_bind (field_bool m ''network_enabled'') (\<lambda>ne.
     dec_bind (field_strings m ''allowed_hosts'') (\<lambda>ah.
     dec_bind (dec_bind (field_object m ''network_policy'') dec_policy) (\<lambda>np.
     dec_bind (field_string m ''namespace'') (\<lambda>ns.
     dec_bind (dec_bind (field_object m ''lifecycle'') (\<lambda>l. dec_bind (field_int l ''ttl_seconds'') (\<lambda>t. dec_bind (field_int l ''idle_ttl_seconds'') (\<lambda>it.
        Inr \<lparr>lp_TTLSeconds = t, lp_IdleTTLSeconds = it\<rparr>)))) (\<lambda>lc.
     dec_bind (field_string m ''user'') (\<lambda>u.
     dec_bind (dec_string_map m ''env'') (\<lambda>e.
     dec_bind (dec_string_map m ''labels'') (\<lambda>lb.
     dec_bind (field_strings m ''packages'') (\<lambda>pk.
       Inr \<lparr>cf_Driver = d, cf_Image = i, cf_MountSource = ms, cf_MountTarget = mt, cf_CPULimit = cpu, cf_MemoryLimit = mem, cf_DiskLimit = disk,
            cf_NetworkEnabled = ne, cf_AllowedHosts = ah, cf_NetworkPolicy = np, cf_Namespace = ns, cf_Lifecycle = lc, cf_User = u, cf_Env = e,
            cf_Labels = lb, cf_Packages = pk\<rparr>)))))))))))))))))"

definition sandbox_value :: "sandbox \<Rightarrow> json" where
  "sandbox_value sb = raw_value (sandbox_json sb)"

text \<open>The sandbox that is shown after its start; where it is gone again, null.\<close>

definition create_sandbox ::
  "('s, 'w) manager \<Rightarrow> ('a, 's, 'w) rpc_state \<Rightarrow> http_req \<Rightarrow> writer \<Rightarrow> ('a, 's, 'w) rpc_state \<times> writer" where
  "create_sandbox m st r w =
     (case dec_sandbox_config (ir_Body r) of
        Inl e \<Rightarrow> (st, http_Error (error_text e) 400 w)
      | Inr cfg \<Rightarrow>
          (let (st1, c) = lift_mgr (\<lambda>x. mgr_Create m x cfg) st
           in case c of
                Inl e \<Rightarrow> (st1, http_Error (error_text e) 500 w)
              | Inr sb \<Rightarrow>
                  (let (st2, err) = lift_mgr (\<lambda>x. mgr_Start m x (sb_ID sb)) st1
                   in case err of
                        Some e \<Rightarrow> (st2, http_Error (error_text e) 500 w)
                      | None \<Rightarrow>
                          (let (st3, i) = lift_mgr (\<lambda>x. mgr_Inspect m x (sb_ID sb)) st2
                           in (st3, write_json (case i of Inl _ \<Rightarrow> JNull | Inr x \<Rightarrow> sandbox_value x) w)))))"

definition sandbox_collection ::
  "('s, 'w) manager \<Rightarrow> ('a, 's, 'w) rpc_state \<Rightarrow> http_req \<Rightarrow> writer \<Rightarrow> ('a, 's, 'w) rpc_state \<times> writer" where
  "sandbox_collection m st r w =
     (if ir_Method r = ''GET'' then
        (let (st1, x) = lift_mgr (mgr_List m) st
         in (st1, case x of
                    Inl e \<Rightarrow> http_Error (error_text e) 500 w
                  | Inr sbs \<Rightarrow> write_json (JObj [(''sandboxes'', JArr (map sandbox_value sbs))]) w))
      else if ir_Method r = ''POST'' then create_sandbox m st r w
      else (st, not_allowed w))"

definition no_manager :: "writer \<Rightarrow> writer" where
  "no_manager = http_Error ''sandbox manager unavailable'' 501"

definition handleSandboxes ::
  "('a, 's, 'w) server \<Rightarrow> ('a, 's, 'w) rpc_state \<Rightarrow> http_req \<Rightarrow> writer \<Rightarrow> ('a, 's, 'w) rpc_state \<times> writer" where
  "handleSandboxes s st r w =
     (case sv_manager s of
        None \<Rightarrow> (st, no_manager w)
      | Some m \<Rightarrow> (if ir_Path r \<noteq> ''/sandboxes'' then (st, http_NotFound w) else sandbox_collection m st r w))"

definition handleAPISandboxes ::
  "('a, 's, 'w) server \<Rightarrow> ('a, 's, 'w) rpc_state \<Rightarrow> http_req \<Rightarrow> writer \<Rightarrow> ('a, 's, 'w) rpc_state \<times> writer" where
  "handleAPISandboxes s st r w =
     (case sv_manager s of None \<Rightarrow> (st, no_manager w) | Some m \<Rightarrow> sandbox_collection m st r w)"

text \<open>One sandbox: shown, or destroyed.\<close>

definition sandbox_item ::
  "('s, 'w) manager \<Rightarrow> ('a, 's, 'w) rpc_state \<Rightarrow> http_req \<Rightarrow> string \<Rightarrow> writer \<Rightarrow> ('a, 's, 'w) rpc_state \<times> writer" where
  "sandbox_item m st r sandboxID w =
     (if ir_Method r = ''GET'' then
        (let (st1, x) = lift_mgr (\<lambda>x. mgr_Inspect m x sandboxID) st
         in (st1, case x of Inl e \<Rightarrow> http_Error (error_text e) 404 w | Inr sb \<Rightarrow> write_json (sandbox_value sb) w))
      else if ir_Method r = ''DELETE'' then
        (let (st1, err) = lift_mgr (\<lambda>x. mgr_Destroy m x sandboxID) st
         in (st1, case err of Some e \<Rightarrow> http_Error (error_text e) 500 w | None \<Rightarrow> write_header 204 w))
      else (st, not_allowed w))"

section \<open>The proxy to a sandbox\<close>

definition shouldCaptureProxyRPCResponse :: "string \<Rightarrow> proxy_response \<Rightarrow> bool" where
  "shouldCaptureProxyRPCResponse path resp =
     (path = ''/rpc'' \<and> contains_str (to_lower (header_get (hr_Header resp) ''Content-Type'')) ''application/json'' \<and>
      0 \<le> hr_ContentLength resp \<and> hr_ContentLength resp \<le> 2 * 2 ^ 20)"

definition publishProxyRPCResult ::
  "('a, 's, 'w) server \<Rightarrow> string \<Rightarrow> call_request option \<Rightarrow> int \<Rightarrow> int \<Rightarrow> rpc_response option \<Rightarrow> go_error option
   \<Rightarrow> ('a, 's, 'w) rpc_state \<Rightarrow> ('a, 's, 'w) rpc_state" where
  "publishProxyRPCResult s sandboxID req dur status resp transportErr st =
     (case req of
        None \<Rightarrow> st
      | Some q \<Rightarrow>
          (let base = [(''duration_ms'', JNum dur), (''status_code'', JNum status)];
               evt = (case transportErr of
                        Some e \<Rightarrow> (rpc_event ''rpc.error'' (jr_Method q) base)\<lparr>ev_Message := error_text e\<rparr>
                      | None \<Rightarrow>
                          (case Option.bind resp rsp_Error of
                             Some x \<Rightarrow> (rpc_event ''rpc.error'' (jr_Method q) (base @ [(''code'', JNum (er_Code x))]))\<lparr>ev_Message := er_Message x\<rparr>
                           | None \<Rightarrow> rpc_event ''rpc.completed'' (jr_Method q) (base @ [(''success'', JBool (status < 400))])))
           in bus_publish s (evt\<lparr>ev_SandboxID := sandboxID\<rparr>) st))"

text \<open>A sandbox that is there, runs and has an endpoint, else an error.\<close>

definition with_running ::
  "('s, 'w) manager \<Rightarrow> ('a, 's, 'w) rpc_state \<Rightarrow> string \<Rightarrow> writer
   \<Rightarrow> (('a, 's, 'w) rpc_state \<Rightarrow> sandbox \<Rightarrow> ('a, 's, 'w) rpc_state \<times> writer) \<Rightarrow> ('a, 's, 'w) rpc_state \<times> writer" where
  "with_running m st sandboxID w k =
     (let (st1, x) = lift_mgr (\<lambda>x. mgr_Inspect m x sandboxID) st
      in case x of
           Inl e \<Rightarrow> (st1, http_Error (error_text e) 404 w)
         | Inr sb \<Rightarrow>
             (if sb_Status sb \<noteq> StatusRunning then (st1, http_Error (''sandbox '' @ sandboxID @ '' is not running'') 409 w)
              else if sb_RPCEndpoint sb = [] then (st1, http_Error (''sandbox '' @ sandboxID @ '' has no rpc endpoint'') 502 w)
              else k st1 sb))"

definition copyHeaders :: "headers \<Rightarrow> writer \<Rightarrow> writer" where
  "copyHeaders h w = w\<lparr>wr_header := wr_header w @ h\<rparr>"

definition proxy_headers :: "http_req \<Rightarrow> headers" where
  "proxy_headers r =
     (let h = header_set ''Content-Type'' (header_get (ir_Header r) ''Content-Type'') []; v = header_get (ir_Header r) ''X-PB-Origin''
      in if v = [] then h else header_set ''X-PB-Origin'' v h)"

text \<open>The trace step that a sandbox reports in the header of its response, published under the sandbox.\<close>

definition proxied_trace ::
  "('a, 's, 'w) server \<Rightarrow> string \<Rightarrow> proxy_response \<Rightarrow> ('a, 's, 'w) rpc_state \<Rightarrow> ('a, 's, 'w) rpc_state" where
  "proxied_trace s sandboxID resp st =
     (let encoded = header_get (hr_Header resp) ''X-PrimitiveBox-Trace-Step''
      in if encoded = [] then st
         else case sv_decode s encoded of
           None \<Rightarrow> st
         | Some r \<Rightarrow> publishTraceStep s (if tr_SandboxID r = [] then r\<lparr>tr_SandboxID := sandboxID\<rparr> else r) st)"

text \<open>What the client gets of a response of the sandbox.\<close>

definition forward_response ::
  "('a, 's, 'w) server \<Rightarrow> ('s, 'w) manager \<Rightarrow> string \<Rightarrow> string \<Rightarrow> call_request option \<Rightarrow> int \<Rightarrow> proxy_response
   \<Rightarrow> ('a, 's, 'w) rpc_state \<Rightarrow> writer \<Rightarrow> ('a, 's, 'w) rpc_state \<times> writer" where
  "forward_response s m sandboxID path req dur resp st w =
     (let st1 = fst (lift_mgr (\<lambda>x. mgr_Touch m x sandboxID) (proxied_trace s sandboxID resp st));
          w1 = write_header (hr_Status resp) (copyHeaders (hr_Header resp) w);
          pub = publishProxyRPCResult s sandboxID req dur (hr_Status resp)
      in if \<not> shouldCaptureProxyRPCResponse path resp then (pub None None st1, write_chunk (RawChunk (hr_Body resp)) w1)
         else case hr_ReadErr resp of
           Some e \<Rightarrow> (pub None (Some e) st1, http_Error (''sandbox proxy response failed: '' @ error_text e) 502 w1)
         | None \<Rightarrow>
             (pub (case dec_rpc_response (hr_Body resp) of Inl _ \<Rightarrow> None | Inr x \<Rightarrow> Some x) None st1,
              write_chunk (RawChunk (hr_Body resp)) w1))"

definition proxySandboxRequest ::
  "('a, 's, 'w) server \<Rightarrow> ('s, 'w) manager \<Rightarrow> ('a, 's, 'w) rpc_state \<Rightarrow> http_req \<Rightarrow> string \<Rightarrow> string \<Rightarrow> string \<Rightarrow> writer
   \<Rightarrow> ('a, 's, 'w) rpc_state \<times> writer" where
  "proxySandboxRequest s m st r sandboxID path auditMethod w =
     with_running m st sandboxID w (\<lambda>st1 sb.
       let url = sb_RPCEndpoint sb @ path;
           req = decodeRPCRequest (ir_Body r);
           st2 = (case req of
                    None \<Rightarrow> st1
                  | Some q \<Rightarrow> bus_publish s ((rpc_event ''rpc.started'' (jr_Method q) [(''id'', jr_ID q)])\<lparr>ev_SandboxID := sandboxID\<rparr>) st1)
       in case sv_newRequest s (ir_Method r) url of
            Some e \<Rightarrow> (st2, http_Error (error_text e) 502 w)
          | None \<Rightarrow>
              (let (w3, res) = http_do s (rp_world st2)
                     \<lparr>ht_Method = ir_Method r, ht_URL = url, ht_Header = proxy_headers r, ht_Body = ir_Body r\<rparr>;
                   st3 = set_world w3 st2;
                   dur = sv_now s w3 - sv_now s (rp_world st2);
                   err = (case res of Inl e \<Rightarrow> Some e | Inr _ \<Rightarrow> None);
                   st4 = bus_publish s ((rpc_event ''sandbox.proxy'' auditMethod [(''duration_ms'', JNum dur), (''success'', JBool (err = None))])
                            \<lparr>ev_SandboxID := sandboxID, ev_Message := path\<rparr>)
                           (LogCallWithMetadata s auditMethod (cloneJSON (ir_Body r)) JNull err dur
                              [(''sandbox_id'', sandboxID), (''target_rpc'', url)] st3)
               in case sv_panicked s w3 of
                    Some p \<Rightarrow>
                      (st3, if path = ''/rpc''
                            then write_panic (case req of None \<Rightarrow> JNull | Some q \<Rightarrow> jr_ID q) (''panic while proxying sandbox RPC for '' @ sandboxID) w
                            else http_Error (''sandbox proxy panic: '' @ p) 502 w)
                  | None \<Rightarrow>
                      (case res of
                         Inl e \<Rightarrow> (publishProxyRPCResult s sandboxID req dur 0 None (Some e) st4,
                                    http_Error (''sandbox proxy request failed: '' @ error_text e) 502 w)
                       | Inr resp \<Rightarrow> forward_response s m sandboxID path req dur resp st4 w)))"

definition proxySandboxStreamRequest ::
  "('a, 's, 'w) server \<Rightarrow> ('s, 'w) manager \<Rightarrow> ('a, 's, 'w) rpc_state \<Rightarrow> http_req \<Rightarrow> string \<Rightarrow> writer \<Rightarrow> ('a, 's, 'w) rpc_state \<times> writer" where
  "proxySandboxStreamRequest s m st r sandboxID w =
     with_running m st sandboxID w (\<lambda>st1 sb.
       if \<not> wr_flusher w then (st1, http_Error ''streaming unsupported'' 500 w)
       else
         (let url = sb_RPCEndpoint sb @ ''/rpc/stream''
          in case sv_newRequest s ''POST'' url of
               Some e \<Rightarrow> (st1, http_Error (error_text e) 502 w)
             | None \<Rightarrow>
                 (let (w2, res) = http_do s (rp_world st1)
                        \<lparr>ht_Method = ''POST'', ht_URL = url, ht_Header = [(''Content-Type'', ''application/json'')], ht_Body = ir_Body r\<rparr>;
                      st2 = set_world w2 st1
                  in if sv_panicked s w2 \<noteq> None
                     then (st2, writeSSEEvent ''error'' (JObj [(''message'', JStr (''panic while proxying sandbox stream for '' @ sandboxID))]) (setSSEHeaders w))
                     else case res of
                       Inl e \<Rightarrow> (st2, http_Error (''sandbox proxy request failed: '' @ error_text e) 502 w)
                     | Inr resp \<Rightarrow>
                         (fst (lift_mgr (\<lambda>x. mgr_Touch m x sandboxID) st2),
                          fold (\<lambda>line. write_chunk (TextChunk line)) (hr_Lines resp)
                            (write_header (hr_Status resp) (copyHeaders (hr_Header resp) (setSSEHeaders w)))))))"

definition callSandboxPrimitive ::
  "('a, 's, 'w) server \<Rightarrow> ('s, 'w) manager \<Rightarrow> ('a, 's, 'w) rpc_state \<Rightarrow> string \<Rightarrow> string \<Rightarrow> jmap \<Rightarrow> ('a, 's, 'w) rpc_state \<times> (go_error + json)" where
  "callSandboxPrimitive s m st sandboxID meth params =
     (let (st1, x) = lift_mgr (\<lambda>x. mgr_Inspect m x sandboxID) st
      in case x of
           Inl e \<Rightarrow> (st1, Inl e)
         | Inr sb \<Rightarrow>
             (if sb_Status sb \<noteq> StatusRunning then (st1, Inl (GoErr (''sandbox '' @ sandboxID @ '' is not running'')))
              else
                (let url = sb_RPCEndpoint sb @ ''/rpc'';
                     body = json_marshal (request_json \<lparr>jr_JSONRPC = ''2.0'', jr_Method = meth, jr_Params = json_marshal (JObj params), jr_ID = JStr ''inspector''\<rparr>)
                 in case sv_newRequest s ''POST'' url of
                      Some e \<Rightarrow> (st1, Inl e)
                    | None \<Rightarrow>
                        (let (w2, res) = http_do s (rp_world st1)
                               \<lparr>ht_Method = ''POST'', ht_URL = url, ht_Header = [(''Content-Type'', ''application/json'')], ht_Body = body\<rparr>
                         in (set_world w2 st1,
                             case res of
                               Inl e \<Rightarrow> Inl e
                             | Inr resp \<Rightarrow>
                                 (case dec_rpc_response (hr_Body resp) of
                                    Inl e \<Rightarrow> Inl (case hr_ReadErr resp of Some e' \<Rightarrow> e' | None \<Rightarrow> e)
                                  | Inr y \<Rightarrow> (case rsp_Error y of Some e \<Rightarrow> Inl (GoErr (er_Message e)) | None \<Rightarrow> Inr (rsp_Result y))))))))"

definition handleSandboxHealth ::
  "('a, 's, 'w) server \<Rightarrow> ('s, 'w) manager \<Rightarrow> ('a, 's, 'w) rpc_state \<Rightarrow> http_req \<Rightarrow> string \<Rightarrow> writer \<Rightarrow> ('a, 's, 'w) rpc_state \<times> writer" where
  "handleSandboxHealth s m st r sandboxID w =
     (if ir_Method r \<noteq> ''GET'' then (st, not_allowed w) else proxySandboxRequest s m st r sandboxID ''/health'' ''sandbox.health'' w)"

definition handleSandboxRoute ::
  "('a, 's, 'w) server \<Rightarrow> ('a, 's, 'w) rpc_state \<Rightarrow> http_req \<Rightarrow> writer \<Rightarrow> ('a, 's, 'w) rpc_state \<times> writer" where
  "handleSandboxRoute s st r w =
     (case sv_manager s of
        None \<Rightarrow> (st, no_manager w)
      | Some m \<Rightarrow>
          (case split_on (CHR ''/'') (trim_prefix (ir_Path r) ''/sandboxes/'') of
             [] \<Rightarrow> (st, http_NotFound w)
           | sandboxID # rest \<Rightarrow>
               (if sandboxID = [] then (st, http_NotFound w)
                else case rest of
                  [] \<Rightarrow> sandbox_item m st r sandboxID w
                | part # more' \<Rightarrow>
                    (if part = ''health'' then handleSandboxHealth s m st r sandboxID w
                     else if part = ''primitives'' then proxySandboxRequest s m st r sandboxID ''/primitives'' ''sandbox.primitives'' w
                     else if part = ''rpc'' then
                       (if more' \<noteq> [] \<and> hd more' = ''stream'' then proxySandboxStreamRequest s m st r sandboxID w
                        else proxySandboxRequest s m st r sandboxID ''/rpc'' ''sandbox.rpc'' w)
                     else (st, http_NotFound w)))))"

section \<open>Listings\<close>

definition appManifestSideEffect :: "intent_category \<Rightarrow> string" where
  "appManifestSideEffect c =
     (if category_string c = ''query'' then ''read'' else if category_string c = ''verification'' then ''exec''
      else if category_string c = ''rollback'' then ''write'' else ''external'')"

definition app_namespace :: "string \<Rightarrow> string" where
  "app_namespace name = (case index_byte name (CHR ''.'') of None \<Rightarrow> name | Some i \<Rightarrow> if 0 < i then take i name else name)"

definition appManifestSchema :: "app_manifest \<Rightarrow> prim_schema" where
  "appManifestSchema m =
     (let se = appManifestSideEffect (Category (mf_Intent m))
      in \<lparr>ps_Name = mf_Name m, ps_Namespace = app_namespace (mf_Name m), ps_Description = mf_Description m, ps_Input = mf_InputSchema m,
          ps_Output = mf_OutputSchema m, ps_InputSchema = mf_InputSchema m, ps_OutputSchema = mf_OutputSchema m, ps_SideEffect = se,
          ps_CheckpointRequired = False, ps_TimeoutMs = 0, ps_Scope = [], ps_VerifierHint = [], ps_UILayoutHint = mf_UILayoutHint m,
          ps_Source = ''app'', ps_Adapter = mf_AppID m, ps_Status = availability_string (mf_Availability m),
          ps_Intent = \<lparr>im_Category = Category (mf_Intent m), im_SideEffect = se, im_Reversible = Reversible (mf_Intent m),
                       im_RiskLevel = RiskLevel (mf_Intent m)\<rparr>\<rparr>)"

definition listPrimitiveSchemas :: "('a, 's, 'w) server \<Rightarrow> ('a, 's, 'w) rpc_state \<Rightarrow> ('a, 's, 'w) rpc_state \<times> prim_schema list" where
  "listPrimitiveSchemas s st =
     (let built_in = (case sv_registry s of None \<Rightarrow> [] | Some reg \<Rightarrow> Schemas reg)
      in case sv_apps s of
           None \<Rightarrow> (st, built_in)
         | Some ops \<Rightarrow>
             (let (a, x) = ao_List ops (rp_apps st)
              in (st\<lparr>rp_apps := a\<rparr>, case x of Inl _ \<Rightarrow> built_in | Inr ms \<Rightarrow> built_in @ map appManifestSchema ms)))"

definition opt_message :: "string \<Rightarrow> raw \<Rightarrow> jmap" where
  "opt_message k r = (if raw_len0 r then [] else [(k, raw_value r)])"

definition schema_json :: "prim_schema \<Rightarrow> json" where
  "schema_json p = JObj ([(''name'', JStr (ps_Name p))] @ opt_text ''namespace'' (ps_Namespace p) @ [(''description'', JStr (ps_Description p))] @
     opt_message ''input'' (ps_Input p) @ opt_message ''output'' (ps_Output p) @ opt_message ''input_schema'' (ps_InputSchema p) @
     opt_message ''output_schema'' (ps_OutputSchema p) @ opt_text ''side_effect'' (ps_SideEffect p) @
     opt_field (ps_CheckpointRequired p) ''checkpoint_required'' (JBool True) @ opt_field (ps_TimeoutMs p \<noteq> 0) ''timeout_ms'' (JNum (ps_TimeoutMs p)) @
     opt_text ''scope'' (ps_Scope p) @ opt_text ''verifier_hint'' (ps_VerifierHint p) @ opt_text ''ui_layout_hint'' (ps_UILayoutHint p) @
     opt_text ''source'' (ps_Source p) @ opt_text ''adapter'' (ps_Adapter p) @ opt_text ''status'' (ps_Status p) @
     [(''intent'', JObj [(''category'', JStr (category_string (im_Category (ps_Intent p)))), (''side_effect'', JStr (im_SideEffect (ps_Intent p))),
        (''reversible'', JBool (im_Reversible (ps_Intent p))), (''risk_level'', JStr (risk_string (im_RiskLevel (ps_Intent p))))])])"

definition handleListPrimitives ::
  "('a, 's, 'w) server \<Rightarrow> ('a, 's, 'w) rpc_state \<Rightarrow> writer \<Rightarrow> ('a, 's, 'w) rpc_state \<times> writer" where
  "handleListPrimitives s st w =
     (let (st1, ps) = listPrimitiveSchemas s st in (st1, write_json (JObj [(''primitives'', JArr (map schema_json ps))]) w))"

definition handleListAppPrimitives ::
  "('a, 's, 'w) server \<Rightarrow> ('a, 's, 'w) rpc_state \<Rightarrow> http_req \<Rightarrow> writer \<Rightarrow> ('a, 's, 'w) rpc_state \<times> writer" where
  "handleListAppPrimitives s st r w =
     (if ir_Method r \<noteq> ''GET'' then (st, not_allowed w)
      else case sv_apps s of
        None \<Rightarrow> (st, http_Error ''app registry unavailable'' 501 w)
      | Some ops \<Rightarrow>
          (let (a, x) = ao_List ops (rp_apps st)
           in (st\<lparr>rp_apps := a\<rparr>,
               case x of
                 Inl e \<Rightarrow> http_Error (error_text e) 500 w
               | Inr ms \<Rightarrow> write_json (JObj [(''app_primitives'', JArr (map manifest_json ms))]) w)))"

definition handleHealth :: "('a, 's, 'w) server \<Rightarrow> ('a, 's, 'w) rpc_state \<Rightarrow> writer \<Rightarrow> writer" where
  "handleHealth s st w = write_json (JObj [(''status'', JStr ''ok''), (''time'', JStr (sv_time s (sv_now s (rp_world st))))]) w"

section \<open>Events and traces\<close>

definition query_get :: "http_req \<Rightarrow> string \<Rightarrow> string" where
  "query_get r k = (case map_of (ir_Query r) k of None \<Rightarrow> [] | Some v \<Rightarrow> v)"

definition queryInt :: "string \<Rightarrow> int \<Rightarrow> int" where
  "queryInt raw fallback = (case atoi raw of None \<Rightarrow> fallback | Some i \<Rightarrow> i)"

definition queryBool :: "string \<Rightarrow> bool \<Rightarrow> bool" where
  "queryBool raw fallback =
     (if raw \<in> {''1'', ''t'', ''T'', ''TRUE'', ''true'', ''True''} then True
      else if raw \<in> {''0'', ''f'', ''F'', ''FALSE'', ''false'', ''False''} then False else fallback)"

definition event_json :: "event \<Rightarrow> json" where
  "event_json e = JObj (opt_field (ev_ID e \<noteq> 0) ''id'' (JNum (ev_ID e)) @ [(''timestamp'', JStr (ev_Timestamp e)), (''type'', JStr (ev_Type e))] @
     opt_text ''source'' (ev_Source e) @ opt_text ''sandbox_id'' (ev_SandboxID e) @ opt_text ''method'' (ev_Method e) @
     opt_text ''stream'' (ev_Stream e) @ opt_text ''message'' (ev_Message e) @ opt_message ''data'' (ev_Data e) @
     opt_field (ev_Sequence e \<noteq> 0) ''sequence'' (JNum (ev_Sequence e)))"

text \<open>No event is a nil slice, encoded as null.\<close>

definition handleAPIEvents ::
  "('a, 's, 'w) server \<Rightarrow> ('a, 's, 'w) rpc_state \<Rightarrow> http_req \<Rightarrow> writer \<Rightarrow> ('a, 's, 'w) rpc_state \<times> writer" where
  "handleAPIEvents s st r w =
     (case sv_listEvents s of
        None \<Rightarrow> (st, http_Error ''event store unavailable'' 501 w)
      | Some f \<Rightarrow>
          (let (x, es) = f (rp_world st) \<lparr>lf_SandboxID = query_get r ''sandbox_id'', lf_Method = query_get r ''method'', lf_Type = query_get r ''type'',
                 lf_Limit = queryInt (query_get r ''limit'') 100\<rparr>
           in (set_world x st,
               case es of
                 Inl e \<Rightarrow> http_Error (error_text e) 500 w
               | Inr [] \<Rightarrow> write_json (JObj [(''events'', JNull)]) w
               | Inr evs \<Rightarrow> write_json (JObj [(''events'', JArr (map event_json evs))]) w)))"

text \<open>
  A stream of the bus: the events delivered until the client goes, after the headers. An event whose data
  is not JSON cannot be encoded.
\<close>

definition stream_bus :: "('a, 's, 'w) server \<Rightarrow> (event \<Rightarrow> json option) \<Rightarrow> http_req \<Rightarrow> writer \<Rightarrow> writer" where
  "stream_bus s f r w =
     (if sv_publish s = None then http_Error ''event bus unavailable'' 501 w
      else if \<not> wr_flusher w then http_Error ''streaming unsupported'' 500 w
      else fold (\<lambda>e x. case f e of None \<Rightarrow> x | Some j \<Rightarrow> writeSSEEvent (ev_Type e) j x) (ir_Events r) (setSSEHeaders w))"

definition handleAPIEventStream :: "('a, 's, 'w) server \<Rightarrow> http_req \<Rightarrow> writer \<Rightarrow> writer" where
  "handleAPIEventStream s = stream_bus s (\<lambda>e. case ev_Data e of RawText _ \<Rightarrow> None | _ \<Rightarrow> Some (event_json e))"

definition trace_payload :: "string \<Rightarrow> event \<Rightarrow> json option" where
  "trace_payload sandboxID e =
     (if ev_Type e \<noteq> ''trace.step'' \<or> (sandboxID \<noteq> [] \<and> ev_SandboxID e \<noteq> sandboxID) then None
      else case dec_trace_event (ev_Data e) of Inl _ \<Rightarrow> None | Inr t \<Rightarrow> Some (trace_event_json t))"

definition handleAPITraceStream :: "('a, 's, 'w) server \<Rightarrow> http_req \<Rightarrow> string \<Rightarrow> writer \<Rightarrow> writer" where
  "handleAPITraceStream s r sandboxID = stream_bus s (trace_payload sandboxID) r"

definition handleAPITraceList ::
  "('a, 's, 'w) server \<Rightarrow> ('a, 's, 'w) rpc_state \<Rightarrow> http_req \<Rightarrow> string \<Rightarrow> writer \<Rightarrow> ('a, 's, 'w) rpc_state \<times> writer" where
  "handleAPITraceList s st r sandboxID w =
     (if ir_Method r \<noteq> ''GET'' then (st, not_allowed w)
      else case sv_traces s of
        None \<Rightarrow> (st, http_Error ''trace store unavailable'' 501 w)
      | Some t \<Rightarrow>
          (let (x, rs) = to_ListTraceSteps t (rp_world st) sandboxID (queryInt (query_get r ''limit'') 100)
           in (set_world x st,
               case rs of
                 Inl e \<Rightarrow> http_Error (error_text e) 500 w
               | Inr recs \<Rightarrow> write_json (JObj [(''events'', JArr (map (\<lambda>r. trace_event_json (projectTraceEvent s r)) recs))]) w)))"

definition handleAPITraceDetail ::
  "('a, 's, 'w) server \<Rightarrow> ('a, 's, 'w) rpc_state \<Rightarrow> http_req \<Rightarrow> string \<Rightarrow> string \<Rightarrow> writer \<Rightarrow> ('a, 's, 'w) rpc_state \<times> writer" where
  "handleAPITraceDetail s st r sandboxID stepID w =
     (if ir_Method r \<noteq> ''GET'' then (st, not_allowed w)
      else case sv_traces s of
        None \<Rightarrow> (st, http_Error ''trace store unavailable'' 501 w)
      | Some t \<Rightarrow>
          (let (x, rs) = to_GetTraceStep t (rp_world st) sandboxID stepID
           in (set_world x st,
               case rs of
                 Inl e \<Rightarrow> http_Error (error_text e) 500 w
               | Inr None \<Rightarrow> http_NotFound w
               | Inr (Some rec) \<Rightarrow> write_json (trace_event_json (projectTraceEvent s rec)) w)))"

section \<open>Routes\<close>

definition handleAPISandboxDetail ::
  "('a, 's, 'w) server \<Rightarrow> ('a, 's, 'w) rpc_state \<Rightarrow> http_req \<Rightarrow> string \<Rightarrow> writer \<Rightarrow> ('a, 's, 'w) rpc_state \<times> writer" where
  "handleAPISandboxDetail s st r path w =
     (case sv_manager s of
        None \<Rightarrow> (st, no_manager w)
      | Some m \<Rightarrow>
          (let shown = (\<lambda>(st1, x). (st1, case x of Inl e \<Rightarrow> http_Error (error_text e) 502 w | Inr j \<Rightarrow> write_json j w))
           in case split_on (CHR ''/'') path of
                [] \<Rightarrow> (st, http_NotFound w)
              | sandboxID # rest \<Rightarrow>
                  (if sandboxID = [] then (st, http_NotFound w)
                   else case rest of
                     [] \<Rightarrow> sandbox_item m st r sandboxID w
                   | part # more' \<Rightarrow>
                       (if part = ''tree'' then
                          shown (callSandboxPrimitive s m st sandboxID ''fs.list''
                            [(''path'', JStr (defaultString (query_get r ''path'') ''.'')), (''recursive'', JBool (queryBool (query_get r ''recursive'') True))])
                        else if part = ''checkpoints'' then shown (callSandboxPrimitive s m st sandboxID ''state.list'' [])
                        else if part = ''trace'' then
                          (case more' of
                             [] \<Rightarrow> handleAPITraceList s st r sandboxID w
                           | [x] \<Rightarrow> (if x = ''stream'' then (st, handleAPITraceStream s r sandboxID w) else handleAPITraceDetail s st r sandboxID x w)
                           | _ \<Rightarrow> (st, http_NotFound w))
                        else if part = ''app-primitives'' then proxySandboxRequest s m st r sandboxID ''/app-primitives'' ''sandbox.app_primitives'' w
                        else (st, http_NotFound w)))))"

text \<open>The routes below \<open>/api/v1/\<close>; those of the goals are the ones of \<open>GoalApi\<close>, on their own state.\<close>

definition handleAPI ::
  "('a, 's, 'w) server \<Rightarrow> ('b, 't, 'v) goal_server \<Rightarrow> ('a, 's, 'w) rpc_state \<times> ('b, 't, 'v) api_state \<Rightarrow> http_req \<Rightarrow> writer
   \<Rightarrow> (('a, 's, 'w) rpc_state \<times> ('b, 't, 'v) api_state) \<times> writer" where
  "handleAPI s g x r w =
     (let (st, a) = x;
          path = trim_prefix (ir_Path r) ''/api/v1/'';
          plain = (\<lambda>(st1, w1). ((st1, a), w1));
          goals = (\<lambda>(a1, rep). ((st, a1), send_reply rep w))
      in if \<not> has_prefix (ir_Path r) ''/api/v1/'' then (x, http_NotFound w)
         else if path = ''sandboxes'' then plain (handleAPISandboxes s st r w)
         else if path = ''primitives'' then plain (handleListPrimitives s st w)
         else if path = ''events'' then plain (handleAPIEvents s st r w)
         else if path = ''events/stream'' then (x, handleAPIEventStream s r w)
         else if path = ''trace'' then plain (handleAPITraceList s st r [] w)
         else if has_prefix path ''trace/'' then
           (if trim_prefix path ''trace/'' = ''stream'' then (x, handleAPITraceStream s r [] w)
            else plain (handleAPITraceDetail s st r [] (trim_prefix path ''trace/'') w))
         else if path = ''goals'' then goals (handleAPIGoals g a (ir_Method r) (ir_Body r))
         else if has_prefix path ''goals/'' then goals (handleAPIGoalDetail g a (ir_Method r) (ir_Body r) (trim_prefix path ''goals/''))
         else if has_prefix path ''sandboxes/'' then plain (handleAPISandboxDetail s st r (trim_prefix path ''sandboxes/'') w)
         else (x, http_NotFound w))"

definition serve_mux ::
  "('a, 's, 'w) server \<Rightarrow> ('b, 't, 'v) goal_server \<Rightarrow> ('a, 's, 'w) rpc_state \<times> ('b, 't, 'v) api_state \<Rightarrow> http_req \<Rightarrow> writer
   \<Rightarrow> (('a, 's, 'w) rpc_state \<times> ('b, 't, 'v) api_state) \<times> writer" where
  "serve_mux s g x r w =
     (let (st, a) = x; path = ir_Path r; plain = (\<lambda>(st1, w1). ((st1, a), w1))
      in if path = ''/rpc'' then plain (handleRPCRequest s st r False w)
         else if path = ''/rpc/stream'' then plain (handleRPCRequest s st r True w)
         else if path = ''/health'' then (x, handleHealth s st w)
         else if path = ''/primitives'' then plain (handleListPrimitives s st w)
         else if path = ''/app-primitives'' then plain (handleListAppPrimitives s st r w)
         else if path = ''/sandboxes'' then plain (handleSandboxes s st r w)
         else if has_prefix path ''/sandboxes/'' then plain (handleSandboxRoute s st r w)
         else if has_prefix path ''/api/v1/'' then handleAPI s g x r w
         else (x, http_NotFound w))"

definition cors_headers :: "string list \<Rightarrow> http_req \<Rightarrow> writer \<Rightarrow> writer" where
  "cors_headers origins r w =
     (let origin = header_get (ir_Header r) ''Origin''
      in if origin \<in> set origins
         then set_header ''Access-Control-Allow-Headers'' ''Content-Type, X-PB-Origin''
                (set_header ''Access-Control-Allow-Methods'' ''GET, POST, DELETE, OPTIONS'' (set_header ''Access-Control-Allow-Origin'' origin w))
         else w)"

definition Handler ::
  "('a, 's, 'w) server \<Rightarrow> ('b, 't, 'v) goal_server \<Rightarrow> ('a, 's, 'w) rpc_state \<times> ('b, 't, 'v) api_state \<Rightarrow> http_req \<Rightarrow> writer
   \<Rightarrow> (('a, 's, 'w) rpc_state \<times> ('b, 't, 'v) api_state) \<times> writer" where
  "Handler s g x r w =
     (let w1 = cors_headers (sv_origins s) r w
      in if ir_Method r = ''OPTIONS'' then (x, write_header 204 w1) else serve_mux s g x r w1)"

end
