(* ===== verification/RpcSafety.thy ===== *)
theory RpcSafety
  imports RpcServer
begin

text \<open>
  Properties of the server: the shape of every JSON-RPC response, the commitment of streams, the app registry under all
  requests (the locale \<open>served_apps\<close>, met by the in-memory and the SQLite registry), the audit log, the confinement of the
  proxy and the traces on the wire, with examples.
\<close>

section \<open>What is written\<close>

lemma writer_simps [simp]:
  "wr_status (set_header k v w) = wr_status w" "wr_chunks (set_header k v w) = wr_chunks w" "wr_sent (set_header k v w) = wr_sent w"
  "wr_flusher (set_header k v w) = wr_flusher w" "wr_header (set_header k v w) = header_set k v (wr_header w)"
  "wr_chunks (write_header c w) = wr_chunks w" "wr_header (write_header c w) = wr_header w" "wr_flusher (write_header c w) = wr_flusher w"
  by (simp_all add: set_header_def write_header_def split: option.split)

lemma write_chunk_simps [simp]:
  "wr_status (write_chunk c w) = Some (case wr_status w of None \<Rightarrow> 200 | Some x \<Rightarrow> x)"
  "wr_sent (write_chunk c w) = (if wr_status w = None then wr_header w else wr_sent w)"
  "wr_chunks (write_chunk c w) = wr_chunks w @ [c]" "wr_flusher (write_chunk c w) = wr_flusher w"
  by (simp_all add: write_chunk_def write_header_def Let_def split: option.split)

lemma header_get_set: "header_get (header_set k v h) k' = (if to_lower k' = to_lower k then v else header_get h k')"
proof -
  have "find (\<lambda>p. to_lower (fst p) = to_lower k') (filter (\<lambda>p. to_lower (fst p) \<noteq> to_lower k) h) =
      (if to_lower k' = to_lower k then None else find (\<lambda>p. to_lower (fst p) = to_lower k') h)"
    by (induction h) auto
  moreover have "find P (xs @ ys) = (case find P xs of None \<Rightarrow> find P ys | Some x \<Rightarrow> Some x)" for P :: "string \<times> string \<Rightarrow> bool" and xs ys
    by (induction xs) auto
  ultimately show ?thesis
    by (auto simp: header_get_def header_set_def split: option.split)
qed

text \<open>One JSON-RPC response, alone in the body.\<close>

definition rpc_answered :: "json \<Rightarrow> writer \<Rightarrow> bool" where
  "rpc_answered i w \<longleftrightarrow> wr_status w = Some 200 \<and> header_get (wr_sent w) ''Content-Type'' = ''application/json'' \<and>
     (\<exists>resp. wr_chunks w = [JsonChunk (response_json resp)] \<and> rsp_ID resp = i \<and>
        (\<forall>e. rsp_Error resp = Some e \<longrightarrow> rsp_Result resp = JNull \<and>
           er_Code e \<in> {CodeParseError, CodeInvalidRequest, CodeMethodNotFound, CodeInvalidParams, CodeInternalError}))"

lemma writeResponse_answered:
  assumes "wr_status w = None" and "wr_chunks w = []"
    and "\<And>e. rsp_Error r = Some e \<Longrightarrow> rsp_Result r = JNull \<and>
      er_Code e \<in> {CodeParseError, CodeInvalidRequest, CodeMethodNotFound, CodeInvalidParams, CodeInternalError}"
  shows "rpc_answered (rsp_ID r) (writeResponse r w)"
  using assms by (auto simp: rpc_answered_def writeResponse_def write_json_def header_get_set)

lemma answered:
  assumes "wr_status w = None" and "wr_chunks w = []"
  shows "code \<in> {CodeParseError, CodeInvalidRequest, CodeMethodNotFound, CodeInvalidParams, CodeInternalError} \<Longrightarrow>
      rpc_answered i (write_failure i code msg w)"
    and "rpc_answered i (write_success i j w)" and "rpc_answered i (write_panic i what w)"
  using assms
    writeResponse_answered [of w "\<lparr>rsp_Result = JNull, rsp_Error = Some \<lparr>er_Code = code, er_Message = msg, er_Data = JNull\<rparr>, rsp_ID = i\<rparr>"]
    writeResponse_answered [of w "\<lparr>rsp_Result = j, rsp_Error = None, rsp_ID = i\<rparr>"]
    writeResponse_answered [of w "\<lparr>rsp_Result = JNull,
       rsp_Error = Some \<lparr>er_Code = CodeInternalError, er_Message = ''internal server error'', er_Data = JStr what\<rparr>, rsp_ID = i\<rparr>"]
  by (simp_all add: write_failure_def write_success_def write_panic_def)

lemma answered_error: "wr_status w = None \<Longrightarrow> wr_chunks w = [] \<Longrightarrow> rpc_answered i (writePrimitiveError i e w)"
  unfolding writePrimitiveError_def
  by (rule answered(1)) (simp_all add: error_code_def split: go_error.split)

lemma attach_trace_writer:
  "wr_status (snd (attach_trace s rec st w)) = wr_status w" "wr_chunks (snd (attach_trace s rec st w)) = wr_chunks w"
  "wr_sent (snd (attach_trace s rec st w)) = wr_sent w"
  by (simp_all add: attach_trace_def split: option.split)

lemma answer_answered:
  assumes "wr_status w = None" and "wr_chunks w = []"
  shows "rpc_answered (jr_ID q) (snd (answer s q False dur rec res st w))"
  using assms attach_trace_writer(1,2) [of s rec "log_outcome s q dur res st" w]
  by (auto simp: answer_def Let_def case_prod_beta answered answered_error split: sum.split)

lemma call_answered:
  assumes "wr_status w = None" and "wr_chunks w = []"
  shows "rpc_answered (jr_ID q) (snd (call_primitive s st q False w))"
  using assms by (auto simp: call_primitive_def Let_def case_prod_beta answered answer_answered)

lemma register_answered:
  assumes "wr_status w = None" and "wr_chunks w = []"
  shows "rpc_answered (jr_ID q) (snd (handleAppRegister s st r q False w))"
  using assms by (auto simp: handleAppRegister_def Let_def case_prod_beta answered split: option.split sum.split)

text \<open>
  C24. Every call is answered once. A POST to \<open>/rpc\<close> is answered with status 200 and one JSON-RPC response as the
  whole body, on every path: invalid JSON, a wrong version, registrations, unknown primitives, errors, panics and
  results. The response carries the id of the request (null when the body could not be decoded), and an
  error, whose code is one of the five of the protocol, never comes with a result.
\<close>

theorem rpc_reply:
  assumes "ir_Method r = ''POST''" and "wr_status w = None" and "wr_chunks w = []"
  shows "rpc_answered (case dec_rpc_request (ir_Body r) of Inl _ \<Rightarrow> JNull | Inr q \<Rightarrow> jr_ID q) (snd (handleRPCRequest s st r False w))"
  using assms by (auto simp: handleRPCRequest_def answered call_answered register_answered split: sum.split)

lemma stream_fold:
  "wr_status w \<noteq> None \<Longrightarrow> wr_status (fold (stream_emit meth) es w) = wr_status w \<and> wr_sent (fold (stream_emit meth) es w) = wr_sent w \<and>
   (\<exists>cs. wr_chunks (fold (stream_emit meth) es w) = wr_chunks w @ cs)"
proof (induction es arbitrary: w)
  case (Cons e es)
  have "wr_status (stream_emit meth e w) = wr_status w \<and> wr_sent (stream_emit meth e w) = wr_sent w \<and>
      (\<exists>cs. wr_chunks (stream_emit meth e w) = wr_chunks w @ cs)"
    using Cons.prems by (auto simp: stream_emit_def Let_def writeSSEEvent_def split: raw.split)
  with Cons.IH [of "stream_emit meth e w"] Cons.prems show ?case by auto
qed simp

definition committed :: "writer \<Rightarrow> writer \<Rightarrow> bool" where
  "committed w w' \<longleftrightarrow> wr_status w \<noteq> None \<and> wr_status w' = wr_status w \<and> wr_sent w' = wr_sent w \<and> (\<exists>cs. wr_chunks w' = wr_chunks w @ cs)"

lemma committed_trans: "committed w w1 \<Longrightarrow> committed w1 w2 \<Longrightarrow> committed w w2"
  by (auto simp: committed_def)

lemma committed_writes:
  "wr_status w \<noteq> None \<Longrightarrow> committed w (writeSSEEvent n j w)" "wr_status w \<noteq> None \<Longrightarrow> committed w (http_Error msg c w)"
  "wr_status w \<noteq> None \<Longrightarrow> committed w (fold (stream_emit meth) es w)" "wr_status w \<noteq> None \<Longrightarrow> committed w (snd (attach_trace s rec st w))"
  using stream_fold [of w meth es]
  by (auto simp: committed_def writeSSEEvent_def http_Error_def write_header_def attach_trace_writer)

lemma committed_answer: "wr_status w \<noteq> None \<Longrightarrow> committed w (snd (answer s q True dur rec res st w))"
proof -
  assume w: "wr_status w \<noteq> None"
  let ?w1 = "snd (attach_trace s rec (log_outcome s q dur res st) w)"
  have t: "committed w ?w1" by (rule committed_writes(4) [OF w])
  then have w1: "wr_status ?w1 \<noteq> None" by (simp add: committed_def)
  show ?thesis
    using committed_writes(2) [OF w] committed_trans [OF t committed_writes(1) [OF w1]]
    by (auto simp: answer_def Let_def case_prod_beta split: sum.split)
qed

text \<open>
  A stream is committed before the call runs. Whatever a call of \<open>/rpc/stream\<close> does, the status is 200 and the
  headers are those of the moment before the call; the first piece is the started event. So neither the status 404
  of an unknown primitive nor the header with the trace step of the call ever reaches the client.
\<close>

theorem stream_headers_fixed:
  assumes "ir_Method r = ''POST''" and "dec_rpc_request (ir_Body r) = Inr q" and "jr_JSONRPC q = ''2.0''" and "jr_Method q \<noteq> ''app.register''"
    and "wr_flusher w" and "wr_status w = None" and "wr_chunks w = []"
  shows "wr_status (snd (handleRPCRequest s st r True w)) = Some 200 \<and>
    wr_sent (snd (handleRPCRequest s st r True w)) = wr_header (setSSEHeaders w) \<and>
    (\<exists>cs. wr_chunks (snd (handleRPCRequest s st r True w)) =
       EventChunk ''started'' (JObj [(''method'', JStr (jr_Method q)), (''id'', jr_ID q)]) # cs)"
proof -
  let ?w1 = "writeSSEEvent ''started'' (JObj [(''method'', JStr (jr_Method q)), (''id'', jr_ID q)]) (setSSEHeaders w)"
  have s1: "wr_status ?w1 = Some 200" "wr_sent ?w1 = wr_header (setSSEHeaders w)"
    "wr_chunks ?w1 = [EventChunk ''started'' (JObj [(''method'', JStr (jr_Method q)), (''id'', jr_ID q)])]"
    using assms(6,7) by (simp_all add: writeSSEEvent_def setSSEHeaders_def)
  then have n: "wr_status ?w1 \<noteq> None" by simp
  have f: "committed ?w1 (fold (stream_emit m) es ?w1)" "wr_status (fold (stream_emit m) es ?w1) \<noteq> None" for m es
    using committed_writes(3) [OF n, of m es] s1(1) by (auto simp: committed_def)
  have "committed ?w1 (snd (call_primitive s st q True w))"
    using assms(5) committed_trans [OF f(1) committed_writes(1) [OF f(2)]] committed_trans [OF f(1) committed_answer [OF f(2)]]
    by (auto simp: call_primitive_def Let_def case_prod_beta)
  moreover have "handleRPCRequest s st r True w = call_primitive s st q True w"
    using assms by (simp add: handleRPCRequest_def)
  ultimately show ?thesis using s1 by (auto simp: committed_def)
qed

section \<open>The registry of apps under all requests\<close>

lemma rp_apps_simps [simp]:
  "rp_apps (set_world x st) = rp_apps st" "rp_apps (bus_publish s e st) = rp_apps st"
  "rp_apps (LogCallWithMetadata s a b c d f g st) = rp_apps st" "rp_apps (publishTraceStep s r st) = rp_apps st"
  "rp_apps (log_outcome s q dur res st) = rp_apps st" "rp_apps (fst (attach_trace s rec st w)) = rp_apps st"
  "rp_apps (fst (lift_mgr h st)) = rp_apps st" "rp_apps (publishProxyRPCResult s i req dur n resp er st) = rp_apps st"
  "rp_apps (proxied_trace s i y st) = rp_apps st"
  by (simp_all add: set_world_def bus_publish_def LogCallWithMetadata_def publishTraceStep_def log_outcome_def attach_trace_def lift_mgr_def
      publishProxyRPCResult_def proxied_trace_def Let_def case_prod_beta split: option.split)

lemma rp_apps_sandboxes:
  "rp_apps (fst (sandbox_collection m st r w)) = rp_apps st" "rp_apps (fst (sandbox_item m st r i w)) = rp_apps st"
  by (simp_all add: sandbox_collection_def create_sandbox_def sandbox_item_def Let_def case_prod_beta split: sum.split option.split)

lemma rp_apps_proxy:
  "rp_apps (fst (proxySandboxRequest s m st r i p am w)) = rp_apps st" "rp_apps (fst (proxySandboxStreamRequest s m st r i w)) = rp_apps st"
  "rp_apps (fst (callSandboxPrimitive s m st i meth ps)) = rp_apps st"
  by (simp_all add: proxySandboxRequest_def proxySandboxStreamRequest_def callSandboxPrimitive_def with_running_def forward_response_def
      Let_def case_prod_beta split: sum.split option.split)

lemma rp_apps_handlers:
  "rp_apps (fst (handleSandboxes s st r w)) = rp_apps st" "rp_apps (fst (handleAPISandboxes s st r w)) = rp_apps st"
  "rp_apps (fst (handleSandboxRoute s st r w)) = rp_apps st" "rp_apps (fst (handleAPIEvents s st r w)) = rp_apps st"
  "rp_apps (fst (handleAPITraceList s st r i w)) = rp_apps st" "rp_apps (fst (handleAPITraceDetail s st r i k w)) = rp_apps st"
  "rp_apps (fst (handleAPISandboxDetail s st r p w)) = rp_apps st"
  by (simp_all add: handleSandboxes_def handleAPISandboxes_def handleSandboxRoute_def handleSandboxHealth_def handleAPIEvents_def handleAPITraceList_def
      handleAPITraceDetail_def handleAPISandboxDetail_def Let_def case_prod_beta rp_apps_sandboxes rp_apps_proxy split: sum.split option.split list.split)

text \<open>
  A registry whose operations are those of the server's interface. No request unregisters a name, so a registered
  name keeps its owner; names are added only where the server may register them.
\<close>

locale served_apps = routed_apps reg_register reg_unregister reg_get reg_mark reg_inv ops
  for reg_register :: "'s \<Rightarrow> app_manifest \<Rightarrow> 's \<times> go_error option"
    and reg_unregister reg_get reg_mark reg_inv ops +
  assumes ops_register: "ao_Register ops = reg_register"
    and ops_list: "reg_inv s \<Longrightarrow> reg_inv (fst (ao_List ops s)) \<and> reg_get (fst (ao_List ops s)) = reg_get s"
begin

definition evolves :: "bool \<Rightarrow> 's \<Rightarrow> 's \<Rightarrow> bool" where
  "evolves open' s s' \<longleftrightarrow> reg_inv s' \<and>
     (\<forall>k m. reg_get s k = Some m \<longrightarrow> (\<exists>m'. reg_get s' k = Some m' \<and> mf_AppID m' = mf_AppID m)) \<and>
     (\<not> open' \<longrightarrow> (\<forall>k. reg_get s k = None \<longrightarrow> reg_get s' k = None))"

lemma evolves_refl: "reg_inv s \<Longrightarrow> evolves g s s"
  by (simp add: evolves_def)

lemma evolves_inv: "evolves g s s' \<Longrightarrow> reg_inv s'"
  by (simp add: evolves_def)

lemma evolves_trans: "evolves g s s1 \<Longrightarrow> evolves g s1 s2 \<Longrightarrow> evolves g s s2"
  unfolding evolves_def by metis

lemma evolves_get: "reg_inv s \<Longrightarrow> evolves g s (fst (ao_Get ops s k))"
  using ops_get [of s k] by (cases "ao_Get ops s k") (auto simp: evolves_def)

lemma evolves_list: "reg_inv s \<Longrightarrow> evolves g s (fst (ao_List ops s))"
  using ops_list [of s] by (simp add: evolves_def)

lemma evolves_mark: "reg_inv s \<Longrightarrow> evolves g s (fst (ao_MarkUnavailable ops s a))"
  using mark_inv [of s a] mark_keeps_owner [of s _ _ a] mark_get [of s a] mark_failed [of s a]
  by (cases "reg_mark s a"; cases "snd (reg_mark s a)") (auto simp: evolves_def ops_mark)

lemma evolves_register: "reg_inv s \<Longrightarrow> evolves True s (fst (ao_Register ops s m))"
  using register_inv [of s m] register_keeps_owner [of s _ _ m] by (auto simp: evolves_def ops_register)

lemma evolves_call:
  assumes "reg_inv (rs_apps st)" and "rt_apps r = Some ops"
  shows "evolves g (rs_apps st) (rs_apps (fst (callAppSocket r st m sock meth params)))"
  using assms evolves_refl evolves_mark
  by (auto simp: callAppSocket_def app_exchange_def mark_app_def Let_def case_prod_beta split: option.split raw.split sum.split)

lemma evolves_route_app:
  assumes "reg_inv (rs_apps st)" and "rt_apps r = Some ops"
  shows "evolves g (rs_apps st) (rs_apps (fst (routeAppPrimitive r st m meth params)))"
proof -
  let ?c1 = "callAppSocket r st m (mf_SocketPath m) meth params"
  let ?c2 = "callAppSocket r (fst ?c1) m (mf_SocketPath m) (mf_VerifyEndpoint m) params"
  have e1: "evolves g (rs_apps st) (rs_apps (fst ?c1))" by (rule evolves_call [OF assms])
  have e2: "evolves g (rs_apps st) (rs_apps (fst ?c2))"
    by (rule evolves_trans [OF e1 evolves_call [OF evolves_inv [OF e1] assms(2)]])
  have e3: "evolves g (rs_apps st) (rs_apps (fst (callAppSocket r (fst ?c2) m (mf_SocketPath m) (mf_RollbackEndpoint m) p)))" for p
    by (rule evolves_trans [OF e2 evolves_call [OF evolves_inv [OF e2] assms(2)]])
  show ?thesis using e1 e2 e3 by (auto simp: routeAppPrimitive_def Let_def case_prod_beta split: sum.split)
qed

lemma evolves_route:
  assumes "reg_inv (rs_apps st)" and "rt_apps r = Some ops"
  shows "evolves g (rs_apps st) (rs_apps (fst (Route r st meth params)))"
proof -
  have e: "evolves g (rs_apps st) (fst (ao_Get ops (rs_apps st) meth))" by (rule evolves_get [OF assms(1)])
  have "evolves g (rs_apps st) (rs_apps (fst (routeAppPrimitive r (st\<lparr>rs_apps := fst (ao_Get ops (rs_apps st) meth)\<rparr>) m meth params)))" for m
    using evolves_trans [OF e] evolves_route_app [of "st\<lparr>rs_apps := fst (ao_Get ops (rs_apps st) meth)\<rparr>" r] evolves_inv [OF e] assms(2) by simp
  with e evolves_refl [OF assms(1)] assms(2) show ?thesis
    by (auto simp: Route_def Let_def case_prod_beta split: option.split sum.split)
qed

lemma evolves_call_primitive:
  assumes "reg_inv (rp_apps st)" and "\<And>k. rt_apps (sv_router s k) = Some ops"
  shows "evolves g (rp_apps st) (rp_apps (fst (call_primitive s st q stream w)))"
proof -
  let ?st1 = "bus_publish s (rpc_event ''rpc.started'' (jr_Method q) [(''id'', jr_ID q)]) st"
  let ?st2 = "fst (routePrimitive s ?st1 stream (jr_Method q) (jr_Params q))"
  have e: "evolves g (rp_apps st) (rp_apps ?st2)"
    using evolves_route [OF _ assms(2), of "\<lparr>rs_apps = rp_apps ?st1, rs_world = x, rs_requestID = i\<rparr>" for x i] assms(1)
    by (simp add: routePrimitive_def Let_def case_prod_beta)
  have "evolves g (rp_apps ?st2) (rp_apps (fst (answer s q stream dur rec res ?st2 w')))" for dur rec res w'
    using evolves_refl [OF evolves_inv [OF e]] evolves_get [OF evolves_inv [OF e]] assms(2)
    by (auto simp: answer_def responseResult_def Let_def case_prod_beta split: sum.split)
  from evolves_trans [OF e this] e evolves_refl [OF assms(1)] show ?thesis
    by (auto simp: call_primitive_def Let_def case_prod_beta)
qed

lemma evolves_rpc:
  assumes "reg_inv (rp_apps st)" and "\<And>k. rt_apps (sv_router s k) = Some ops"
  shows "evolves (sv_manager s = None \<and> isSandboxRequest r) (rp_apps st) (rp_apps (fst (handleRPCRequest s st r stream w)))"
  using evolves_refl [OF assms(1)] evolves_call_primitive [OF assms] evolves_register [OF assms(1)] assms(2)
  by (auto simp: handleRPCRequest_def handleAppRegister_def Let_def case_prod_beta split: sum.split option.split)

lemma evolves_handler:
  assumes "reg_inv (rp_apps st)" and "\<And>k. rt_apps (sv_router s k) = Some ops"
  shows "evolves (sv_manager s = None \<and> isSandboxRequest r) (rp_apps st) (rp_apps (fst (fst (Handler s g (st, a) r w))))"
  using evolves_refl [OF assms(1)] evolves_rpc [OF assms] evolves_list [OF assms(1)] assms(2)
  by (auto simp: Handler_def serve_mux_def handleAPI_def handleListPrimitives_def listPrimitiveSchemas_def handleListAppPrimitives_def
      Let_def case_prod_beta rp_apps_handlers split: sum.split)

lemma evolves_weaken: "evolves g s s' \<Longrightarrow> (g \<Longrightarrow> g') \<Longrightarrow> evolves g' s s'"
  unfolding evolves_def by blast

end

interpretation mem_served: served_apps mem_register mem_unregister mem_get mem_mark_unavailable mem_inv mem_app_ops
  by unfold_locales (simp_all add: mem_app_ops_def)

interpretation sql_served: served_apps "sqlreg_Register env" "sqlreg_Unregister env" appreg_view "sqlreg_MarkUnavailable env" appreg_inv
    "sql_app_ops env" for env
proof (unfold_locales, goal_cases)
  case 1
  show ?case by (simp add: sql_app_ops_def)
next
  case (2 s)
  then show ?case
    by (auto simp: sql_app_ops_def sqlreg_List_def sql_query_def appreg_view_def [abs_def] appreg_inv_def Let_def split: prod.splits option.splits)
qed

text \<open>The server over a sequence of requests, each with a response of its own.\<close>

definition serve ::
  "('a, 's, 'w) server \<Rightarrow> ('b, 't, 'v) goal_server \<Rightarrow> (http_req \<times> bool) list
   \<Rightarrow> ('a, 's, 'w) rpc_state \<times> ('b, 't, 'v) api_state \<Rightarrow> ('a, 's, 'w) rpc_state \<times> ('b, 't, 'v) api_state" where
  "serve s g rs x = fold (\<lambda>(r, f) y. fst (Handler s g y r (new_writer f))) rs x"

context served_apps
begin

lemma evolves_serve:
  assumes "reg_inv (rp_apps (fst x))" and "\<And>k. rt_apps (sv_router s k) = Some ops"
  shows "evolves (sv_manager s = None \<and> (\<exists>r \<in> set rs. isSandboxRequest (fst r))) (rp_apps (fst x)) (rp_apps (fst (serve s g rs x)))"
  using assms(1)
proof (induction rs arbitrary: x)
  case Nil
  then show ?case by (simp add: serve_def evolves_refl)
next
  case (Cons rf rs)
  obtain r f where rf: "rf = (r, f)" by fastforce
  let ?y = "fst (Handler s g x r (new_writer f))"
  have e: "evolves (sv_manager s = None \<and> isSandboxRequest r) (rp_apps (fst x)) (rp_apps (fst ?y))"
    using evolves_handler [where st = "fst x" and a = "snd x"] Cons.prems assms(2) by (cases x) auto
  let ?G = "sv_manager s = None \<and> (\<exists>q \<in> set (rf # rs). isSandboxRequest (fst q))"
  have "evolves ?G (rp_apps (fst x)) (rp_apps (fst ?y))"
    by (rule evolves_weaken [OF e]) (simp add: rf)
  moreover have "evolves ?G (rp_apps (fst ?y)) (rp_apps (fst (serve s g rs ?y)))"
    by (rule evolves_weaken [OF Cons.IH [OF evolves_inv [OF e]]]) auto
  ultimately show ?case using evolves_trans by (simp add: serve_def rf)
qed

end

text \<open>
  C13. The app registry under HTTP. Behind a server with the SQLite registry, after any sequence of requests of any kind
  and under any faults of the database, no name in a reserved namespace is registered, every name that was registered is
  still registered by the same app, and on a host gateway, which has a sandbox manager, or without a request that
  claims to come from a sandbox, no new name is registered.
\<close>

theorem served_registry:
  assumes "\<And>c. rt_apps (sv_router s c) = Some (sql_app_ops env)" and "appreg_inv (rp_apps st)"
  shows "let apps' = rp_apps (fst (serve s g rs (st, a)))
    in (\<forall>p \<in> set reservedSystemPrimitiveNamespaces. \<forall>k. has_prefix k p \<longrightarrow> appreg_view apps' k = None) \<and>
       (\<forall>k m. appreg_view (rp_apps st) k = Some m \<longrightarrow> (\<exists>m'. appreg_view apps' k = Some m' \<and> mf_AppID m' = mf_AppID m)) \<and>
       (sv_manager s \<noteq> None \<or> (\<forall>r \<in> set rs. \<not> isSandboxRequest (fst r)) \<longrightarrow>
          (\<forall>k. appreg_view (rp_apps st) k = None \<longrightarrow> appreg_view apps' k = None))"
proof -
  let ?apps = "rp_apps (fst (serve s g rs (st, a)))"
  have e: "sql_served.evolves (sv_manager s = None \<and> (\<exists>r \<in> set rs. isSandboxRequest (fst r))) (rp_apps st) ?apps"
    using sql_served.evolves_serve [of "(st, a)" s env] assms by simp
  then have inv: "appreg_inv ?apps" by (rule sql_served.evolves_inv)
  have "appreg_view ?apps k = None" if "p \<in> set reservedSystemPrimitiveNamespaces" "has_prefix k p" for p k
    using sql_reg.reserved_absent [OF inv that] .
  with e show ?thesis unfolding Let_def sql_served.evolves_def by auto
qed

section \<open>The audit log\<close>

lemma rp_audit_simps [simp]:
  "rp_audit (set_world x st) = rp_audit st" "rp_audit (bus_publish s e st) = rp_audit st"
  "rp_audit (publishTraceStep s r st) = rp_audit st" "rp_audit (fst (attach_trace s rec st w)) = rp_audit st"
  "rp_audit (fst (routePrimitive s st stream meth params)) = rp_audit st" "rp_audit (fst (responseResult s st meth res)) = rp_audit st"
  by (simp_all add: set_world_def bus_publish_def publishTraceStep_def attach_trace_def routePrimitive_def responseResult_def Let_def case_prod_beta
      split: option.split)

lemma log_outcome_audit:
  assumes "sv_audit s"
  shows "rp_audit (log_outcome s q dur res st) = rp_audit st @ [\<lparr>au_Timestamp = sv_now s (rp_world st), au_Method = jr_Method q, au_Input = jr_Params q,
      au_Output = (case res of Inl _ \<Rightarrow> JNull | Inr x \<Rightarrow> pr_Data x), au_Error = (case res of Inl e \<Rightarrow> error_text e | Inr _ \<Rightarrow> []), au_Duration = dur, au_Metadata = []\<rparr>]"
  using assms by (simp add: log_outcome_def LogCallWithMetadata_def Let_def split: sum.split)

text \<open>
  C34. Calls are audited. A call that was routed to a primitive and did not panic adds one entry to the audit log, with its
  method, its parameters, its outcome and the text of its error; a call of an unknown primitive or one that
  panicked adds none.
\<close>

theorem rpc_audited:
  assumes "sv_audit s" and "ir_Method r = ''POST''" and "dec_rpc_request (ir_Body r) = Inr q" and "jr_JSONRPC q = ''2.0''"
    and "jr_Method q \<noteq> ''app.register''" and "\<not> stream \<or> wr_flusher w"
    and "routePrimitive s (bus_publish s (rpc_event ''rpc.started'' (jr_Method q) [(''id'', jr_ID q)]) st) stream (jr_Method q) (jr_Params q) =
      (st2, events, rec, res)"
  shows "if sv_panicked s (rp_world st2) \<noteq> None \<or> (\<exists>e. res = Inl e \<and> errors_is e ErrPrimitiveNotFound)
    then rp_audit (fst (handleRPCRequest s st r stream w)) = rp_audit st
    else \<exists>entry. rp_audit (fst (handleRPCRequest s st r stream w)) = rp_audit st @ [entry] \<and>
      au_Method entry = jr_Method q \<and> au_Input entry = jr_Params q \<and>
      (case res of Inl e \<Rightarrow> au_Error entry = error_text e | Inr x \<Rightarrow> au_Output entry = pr_Data x \<and> au_Error entry = [])"
proof -
  have h: "handleRPCRequest s st r stream w = call_primitive s st q stream w"
    using assms by (simp add: handleRPCRequest_def)
  have a: "rp_audit st2 = rp_audit st"
    using rp_audit_simps(5) [of s "bus_publish s (rpc_event ''rpc.started'' (jr_Method q) [(''id'', jr_ID q)]) st" stream "jr_Method q" "jr_Params q"] assms(7)
    by simp
  show ?thesis
    using assms(6,7) a unfolding h
    by (auto simp: call_primitive_def answer_def log_outcome_audit [OF assms(1)] Let_def case_prod_beta split: sum.split)
qed

section \<open>The proxy reaches only its sandbox\<close>

lemma http_frame [simp]:
  "bus_publish (s\<lparr>sv_http := f\<rparr>) = bus_publish s" "publishTraceStep (s\<lparr>sv_http := f\<rparr>) = publishTraceStep s"
  "LogCallWithMetadata (s\<lparr>sv_http := f\<rparr>) = LogCallWithMetadata s" "publishProxyRPCResult (s\<lparr>sv_http := f\<rparr>) = publishProxyRPCResult s"
  "proxied_trace (s\<lparr>sv_http := f\<rparr>) = proxied_trace s" "forward_response (s\<lparr>sv_http := f\<rparr>) = forward_response s"
proof -
  show b: "bus_publish (s\<lparr>sv_http := f\<rparr>) = bus_publish s" by (simp add: fun_eq_iff bus_publish_def)
  have p: "projectTraceEvent (s\<lparr>sv_http := f\<rparr>) = projectTraceEvent s"
    by (simp add: fun_eq_iff projectTraceEvent_def fallbackTraceEventID_def)
  show t: "publishTraceStep (s\<lparr>sv_http := f\<rparr>) = publishTraceStep s"
    by (simp add: fun_eq_iff publishTraceStep_def trace_step_event_def b p)
  show "LogCallWithMetadata (s\<lparr>sv_http := f\<rparr>) = LogCallWithMetadata s" by (simp add: fun_eq_iff LogCallWithMetadata_def)
  show q: "publishProxyRPCResult (s\<lparr>sv_http := f\<rparr>) = publishProxyRPCResult s" by (simp add: fun_eq_iff publishProxyRPCResult_def b split: option.split)
  show r: "proxied_trace (s\<lparr>sv_http := f\<rparr>) = proxied_trace s" by (simp add: fun_eq_iff proxied_trace_def t Let_def split: option.split)
  show "forward_response (s\<lparr>sv_http := f\<rparr>) = forward_response s" by (simp add: fun_eq_iff forward_response_def q r Let_def split: option.split)
qed







section \<open>Traces on the wire\<close>

lemma dec_scopes: "jget m k = Some (scopes_json xs) \<Longrightarrow> field_strings m k = Inr xs"
proof -
  have "map (elem_string \<circ> JStr) xs = xs" by (induction xs) auto
  moreover have "list_all is_string_or_null (map JStr xs)" by (induction xs) auto
  ultimately show "jget m k = Some (scopes_json xs) \<Longrightarrow> field_strings m k = Inr xs"
    by (simp add: field_strings_def scopes_json_def split: if_splits)
qed

lemma dec_snapshot_json: "dec_snapshot (Some (snapshot_json t)) = Inr t"
proof (cases t)
  case None
  then show ?thesis by (simp add: dec_snapshot_def snapshot_json_def)
next
  case (Some x)
  have "field_strings [(''category'', JStr (ts_Category x)), (''reversible'', JBool (ts_Reversible x)), (''risk_level'', JStr (ts_RiskLevel x)),
        (''affected_scopes'', scopes_json (ts_AffectedScopes x))] ''affected_scopes'' = Inr (ts_AffectedScopes x)"
    by (rule dec_scopes) (simp add: jget_def)
  with Some show ?thesis
    by (simp add: dec_snapshot_def snapshot_json_def dec_bind_def field_string_def field_bool_def jget_def)
qed

lemma dec_trace_event_json:
  assumes "int64_range (te_DurationMs t)" and "int64_range (te_Attempt t)"
  shows "dec_trace_event (json_marshal (trace_event_json t)) = Inr t"
  using assms
  by (simp add: dec_trace_event_def json_marshal_def trace_event_json_def dec_bind_def field_string_def field_bool_def field_int_def jget_def
      dec_snapshot_json dec_scopes)

lemma atoi_range: "atoi s = Some i \<Longrightarrow> int64_range i"
  by (auto simp: atoi_def Let_def split: list.splits if_splits option.splits)

lemma inferAttempt_range: "int64_range (inferAttempt a)" "1 \<le> inferAttempt a"
  using atoi_range [of a] atoi_range [of "after_dash a"]
  by (auto simp: inferAttempt_def positive_def int64_range_def split: option.splits)

text \<open>
  A trace step reaches the streams unchanged. The event that \<open>publishTraceStep\<close> puts on the bus is decoded by every trace
  stream that is not for another sandbox, and written with the payload that the list of traces shows for the record; its
  attempt number is at least one.
\<close>

theorem trace_stream_lossless:
  assumes "int64_range (tr_DurationMs r)" and "sandboxID = [] \<or> tr_SandboxID r = sandboxID"
  shows "trace_payload sandboxID (trace_step_event s r) = Some (trace_event_json (projectTraceEvent s r)) \<and> 1 \<le> te_Attempt (projectTraceEvent s r)"
proof -
  have "dec_trace_event (json_marshal (trace_event_json (projectTraceEvent s r))) = Inr (projectTraceEvent s r)"
    by (rule dec_trace_event_json) (simp_all add: projectTraceEvent_def assms(1) inferAttempt_range)
  moreover have "1 \<le> te_Attempt (projectTraceEvent s r)" by (simp add: projectTraceEvent_def inferAttempt_range)
  ultimately show ?thesis using assms(2) by (auto simp: trace_payload_def trace_step_event_def zero_event_def)
qed

text \<open>
  A null result of an app primitive is lost. When a registered app primitive returns null, the response has neither a
  result nor an error: only the version and the id are sent.
\<close>

theorem null_result_dropped:
  assumes "Option.bind (sv_registry s) (\<lambda>reg. reg_Get reg (jr_Method q)) = None" and "sv_apps s = Some ops"
    and "snd (ao_Get ops (rp_apps st) (jr_Method q)) = Inr (Some m)" and "pr_Data x = JNull" and "wr_chunks w = []"
  shows "wr_chunks (snd (answer s q False dur rec (Inr x) st w)) = [JsonChunk (JObj [(''jsonrpc'', JStr ''2.0''), (''id'', jr_ID q)])]"
  using assms attach_trace_writer(2) [of s rec "log_outcome s q dur (Inr x) st" w]
  by (simp add: answer_def responseResult_def write_success_def writeResponse_def write_json_def response_json_def opt_json_def Let_def case_prod_beta)

section \<open>Examples\<close>

text \<open>A server inside a sandbox, with one built-in primitive, and a gateway in front of sandboxes; the world is a clock.\<close>

definition echo_prim :: "int rpc_call prim" where
  "echo_prim = \<lparr>pm_Name = ''echo'', pm_Category = ''echo'', pm_Schema = demo_schema ''echo'',
     pm_Execute = (\<lambda>c p. (c, Inr (zero_prim_result\<lparr>pr_Data := raw_value p\<rparr>)))\<rparr>"

definition rpc_demo :: "(event list appreg_world, memory_store, int) server" where
  "rpc_demo = \<lparr>sv_router = (\<lambda>_. \<lparr>rt_registry = Some [(''echo'', echo_prim)], rt_apps = Some (sql_app_ops demo_appreg_env), rt_dial = (\<lambda>c _. (c, None)),
       rt_send = (\<lambda>c _ _. (c, None)), rt_recv = (\<lambda>c _. (c, Inr [])), rt_now = cx_world\<rparr>),
     sv_manager = None, sv_publish = Some (\<lambda>t _. t + 1), sv_listEvents = None, sv_traces = None, sv_audit = True, sv_origins = [],
     sv_http = (\<lambda>t _. (t, Inl (GoErr ''refused''))), sv_resolve = (\<lambda>_ loc. Inr loc), sv_now = id, sv_time = itoa, sv_encode = tr_StepID, sv_decode = (\<lambda>_. None),
     sv_newRequest = (\<lambda>_ _. None), sv_panicked = (\<lambda>_. None)\<rparr>"

definition rpc_demo_state :: "(event list appreg_world, memory_store, int) rpc_state" where
  "rpc_demo_state = \<lparr>rp_apps = demo_kv_reg, rp_store = ms_store demo_two, rp_snapshots = [], rp_world = 0, rp_requestID = 0, rp_audit = []\<rparr>"

definition post :: "string \<Rightarrow> headers \<Rightarrow> json \<Rightarrow> http_req" where
  "post path h body = \<lparr>ir_Method = ''POST'', ir_Path = path, ir_Query = [], ir_Header = h, ir_Body = Raw body, ir_Events = []\<rparr>"

definition call_body :: "string \<Rightarrow> json \<Rightarrow> json" where
  "call_body meth params = JObj [(''jsonrpc'', JStr ''2.0''), (''method'', JStr meth), (''params'', params), (''id'', JNum 7)]"

lemma dec_call_body:
  "dec_rpc_request (ir_Body (post p h (call_body meth params))) = Inr \<lparr>jr_JSONRPC = ''2.0'', jr_Method = meth, jr_Params = Raw params, jr_ID = JNum 7\<rparr>"
  by (simp add: dec_rpc_request_def post_def call_body_def dec_bind_def field_string_def field_raw_def field_any_def jget_def)

theorem rpc_reply_witness:
  "rpc_answered (JNum 7) (snd (handleRPCRequest rpc_demo rpc_demo_state (post ''/rpc'' [] (call_body ''fs.read'' JNull)) False (new_writer True)))"
  using rpc_reply [of "post ''/rpc'' [] (call_body ''fs.read'' JNull)" "new_writer True" rpc_demo rpc_demo_state]
  unfolding dec_call_body by (simp add: post_def new_writer_def)

theorem stream_headers_fixed_witness:
  "let w = snd (handleRPCRequest rpc_demo rpc_demo_state (post ''/rpc/stream'' [] (call_body ''fs.read'' JNull)) True (new_writer True))
   in wr_status w = Some 200 \<and> header_get (wr_sent w) ''Content-Type'' = ''text/event-stream'' \<and>
      last (wr_chunks w) = TextChunk ''unknown primitive: fs.read''"
proof -
  let ?w = "snd (handleRPCRequest rpc_demo rpc_demo_state (post ''/rpc/stream'' [] (call_body ''fs.read'' JNull)) True (new_writer True))"
  have "wr_status ?w = Some 200 \<and> wr_sent ?w = wr_header (setSSEHeaders (new_writer True))"
    using stream_headers_fixed [OF _ dec_call_body, of "''/rpc/stream''" "[]" "''fs.read''" JNull "new_writer True" rpc_demo rpc_demo_state]
    by (simp add: post_def new_writer_def)
  moreover have "header_get (wr_header (setSSEHeaders (new_writer True))) ''Content-Type'' = ''text/event-stream''" by code_simp
  moreover have "last (wr_chunks ?w) = TextChunk ''unknown primitive: fs.read''" by code_simp
  ultimately show ?thesis by simp
qed

text \<open>A registration under a reserved name, one of a name another app owns, and a listing.\<close>

definition takeover :: "string \<Rightarrow> json" where
  "takeover name = call_body ''app.register'' (JObj [(''app_id'', JStr ''evil''), (''name'', JStr name), (''socket_path'', JStr ''/e''),
     (''input_schema'', JObj []), (''output_schema'', JObj [])])"

theorem served_registry_witness:
  "let apps' = rp_apps (fst (serve rpc_demo demo_server [(post ''/rpc'' [(''x-pb-origin'', ''Sandbox'')] (takeover ''fs.read''), True),
         (post ''/rpc'' [(''X-PB-Origin'', ''sandbox'')] (takeover ''kv.set''), True), (post ''/primitives'' [] JNull, True)] (rpc_demo_state, demo_api)))
   in appreg_view apps' ''fs.read'' = None \<and> (\<exists>m. appreg_view apps' ''kv.set'' = Some m \<and> mf_AppID m = ''kv'')"
proof -
  have inv: "appreg_inv (rp_apps rpc_demo_state)"
    unfolding rpc_demo_state_def demo_kv_reg_def by (simp add: sqlreg_run_inv [OF empty_appreg_inv])
  have a: "rt_apps (sv_router rpc_demo c) = Some (sql_app_ops demo_appreg_env)" for c by (simp add: rpc_demo_def)
  have v: "appreg_view (rp_apps rpc_demo_state) ''kv.set'' = Some demo_normal" by code_simp
  have p: "''fs.'' \<in> set reservedSystemPrimitiveNamespaces" "has_prefix ''fs.read'' ''fs.''" "mf_AppID demo_normal = ''kv''" by code_simp+
  note t = served_registry [OF a inv, of demo_server "[(post ''/rpc'' [(''x-pb-origin'', ''Sandbox'')] (takeover ''fs.read''), True),
         (post ''/rpc'' [(''X-PB-Origin'', ''sandbox'')] (takeover ''kv.set''), True), (post ''/primitives'' [] JNull, True)]" demo_api,
      unfolded Let_def]
  show ?thesis unfolding Let_def
    using t [THEN conjunct1, rule_format, OF p(1,2)] t [THEN conjunct2, THEN conjunct1, rule_format, OF v] p(3) by simp
qed

theorem rpc_audited_witness:
  "\<exists>entry. rp_audit (fst (handleRPCRequest rpc_demo rpc_demo_state (post ''/rpc'' [] (call_body ''echo'' (JStr ''x''))) False (new_writer False))) = [entry] \<and>
     au_Method entry = ''echo'' \<and> au_Output entry = JStr ''x''"
proof -
  let ?st = "bus_publish rpc_demo (rpc_event ''rpc.started'' ''echo'' [(''id'', JNum 7)]) rpc_demo_state"
  let ?p = "routePrimitive rpc_demo ?st False ''echo'' (Raw (JStr ''x''))"
  obtain st2 evs rec res where r: "?p = (st2, evs, rec, res)" by (metis prod.collapse)
  have "snd (snd (snd ?p)) = Inr (zero_prim_result\<lparr>pr_Data := JStr ''x''\<rparr>)" by code_simp
  with r have x: "res = Inr (zero_prim_result\<lparr>pr_Data := JStr ''x''\<rparr>)" by simp
  from rpc_audited [OF _ _ dec_call_body, of rpc_demo "''/rpc''" "[]" "''echo''" "JStr ''x''" False "new_writer False" rpc_demo_state st2 evs rec res] r x
  show ?thesis by (auto simp: post_def rpc_demo_def rpc_demo_state_def)
qed






definition demo_trace :: trace_record where
  "demo_trace = \<lparr>tr_TaskID = [], tr_TraceID = ''t'', tr_SessionID = [], tr_AttemptID = ''attempt-2'', tr_SandboxID = ''sb'', tr_StepID = [],
     tr_Primitive = ''fs.write'', tr_CheckpointID = [], tr_IntentSnapshot = RawNil, tr_LayerAOutcome = [], tr_StrategyName = [], tr_StrategyOutcome = [],
     tr_RecoveryPath = [], tr_AffectedScopes = [''a''], tr_CVRDepthExceeded = False, tr_VerifyResult = [], tr_DurationMs = 5, tr_FailureKind = [],
     tr_Timestamp = 0\<rparr>"

theorem trace_stream_lossless_witness:
  "trace_payload ''sb'' (trace_step_event rpc_demo demo_trace) = Some (trace_event_json (projectTraceEvent rpc_demo demo_trace)) \<and>
   te_ID (projectTraceEvent rpc_demo demo_trace) = ''t:fs.write'' \<and> te_Attempt (projectTraceEvent rpc_demo demo_trace) = 2"
proof -
  have "te_ID (projectTraceEvent rpc_demo demo_trace) = ''t:fs.write''" "te_Attempt (projectTraceEvent rpc_demo demo_trace) = 2" by code_simp+
  then show ?thesis
    using trace_stream_lossless [of demo_trace "''sb''" rpc_demo] by (simp add: demo_trace_def int64_range_def)
qed

theorem null_result_dropped_witness:
  "wr_chunks (snd (answer rpc_demo \<lparr>jr_JSONRPC = ''2.0'', jr_Method = ''kv.set'', jr_Params = RawNil, jr_ID = JNum 7\<rparr> False 0 None
     (Inr zero_prim_result) rpc_demo_state (new_writer True))) = [JsonChunk (JObj [(''jsonrpc'', JStr ''2.0''), (''id'', JNum 7)])]"
proof -
  have g: "snd (ao_Get (sql_app_ops demo_appreg_env) (rp_apps rpc_demo_state) ''kv.set'') = Inr (Some demo_normal)" by code_simp
  show ?thesis
    using null_result_dropped [of rpc_demo "\<lparr>jr_JSONRPC = ''2.0'', jr_Method = ''kv.set'', jr_Params = RawNil, jr_ID = JNum 7\<rparr>" "sql_app_ops demo_appreg_env"
        rpc_demo_state demo_normal zero_prim_result "new_writer True" 0 None] g
    by (simp add: rpc_demo_def reg_Get_def zero_prim_result_def new_writer_def)
qed

end
