(* ===== verification/CodePrims.thy ===== *)
theory CodePrims
  imports HostPrims
begin

text \<open>
  The primitives \<open>code.search\<close> and \<open>code.symbols\<close> of \<open>internal/primitive/code.go\<close>: a search by \<open>rg\<close> or \<open>grep\<close>, programs
  run on the host, and the parsing of what they print; and the outline of a source file by the regular
  expressions of its language, with the fragment of Go's \<open>regexp\<close> they use. Text is a list of bytes; a character class
  takes one byte, which for these patterns gives the matches that one rune would. The lemmas show what a search and
  an outline return.
\<close>

section \<open>code.search\<close>

record code_search_params =
  cs_Query :: string
  cs_Path :: string
  cs_Regex :: bool
  cs_CaseSensitive :: bool
  cs_MaxResults :: int

definition dec_code_search :: "raw \<Rightarrow> code_search_params decoded" where
  "dec_code_search r =
     dec_bind (dec_map r) (\<lambda>m.
     dec_bind (field_string m ''query'') (\<lambda>q.
     dec_bind (field_string m ''path'') (\<lambda>p.
     dec_bind (field_bool m ''regex'') (\<lambda>x.
     dec_bind (field_bool m ''case_sensitive'') (\<lambda>c.
     dec_bind (field_int m ''max_results'') (\<lambda>n.
       Inr \<lparr>cs_Query = q, cs_Path = p, cs_Regex = x, cs_CaseSensitive = c, cs_MaxResults = n\<rparr>))))))"

record code_search_match =
  cm_File :: string
  cm_Line :: int
  cm_Content :: string

definition match_json :: "code_search_match \<Rightarrow> json" where
  "match_json m = JObj [(''file'', JStr (cm_File m)), (''line'', JNum (cm_Line m)), (''content'', JStr (cm_Content m))]"

text \<open>One line of the output, \<open>file:line:content\<close>, after \<open>strings.SplitN(line, ":", 3)\<close>.\<close>

definition grep_line :: "string \<Rightarrow> string \<Rightarrow> code_search_match option" where
  "grep_line baseDir line =
     (case split_on (CHR '':'') line of
        f # n # rest \<Rightarrow>
          (if rest = [] then None
           else map_option (\<lambda>i. \<lparr>cm_File = (if has_prefix f baseDir then trim_prefix f (baseDir @ ''/'') else f), cm_Line = i,
                  cm_Content = trim_space (join_with '':'' rest)\<rparr>) (atoi n))
      | _ \<Rightarrow> None)"

text \<open>The scanner's buffer is the default one of 64 KB: a longer line ends the scan, silently.\<close>

definition max_token :: int where
  "max_token = 64 * 1024"

definition scan_default :: "string \<Rightarrow> string list" where
  "scan_default s =
     (let ls = split_on newline s; good = takeWhile (\<lambda>l. int (length l) < max_token) ls
      in if length good < length ls then map drop_cr good else scan_lines s)"

definition parseGrepOutput :: "string \<Rightarrow> string \<Rightarrow> code_search_match list" where
  "parseGrepOutput output baseDir = List.map_filter (grep_line baseDir) (scan_default output)"

definition rg_args :: "code_search_params \<Rightarrow> fpath \<Rightarrow> string list" where
  "rg_args p dir =
     [''--line-number'', ''--no-heading'', ''--color=never''] @ (if \<not> cs_CaseSensitive p then [''--ignore-case''] else []) @
     (if \<not> cs_Regex p then [''--fixed-strings''] else []) @ [''--max-count='' @ itoa (cs_MaxResults p)] @ [cs_Query p, path_string dir]"

definition grep_args :: "code_search_params \<Rightarrow> fpath \<Rightarrow> string list" where
  "grep_args p dir =
     [''-rn'', ''--color=never''] @ (if \<not> cs_CaseSensitive p then [''-i''] else []) @ (if \<not> cs_Regex p then [''-F''] else []) @
     [cs_Query p, path_string dir]"

text \<open>The command runs in the working directory of the process; its exit status is ignored.\<close>

definition searchWithRipgrep :: "'x host \<Rightarrow> fpath \<Rightarrow> 'x host_world \<Rightarrow> code_search_params \<Rightarrow> fpath \<Rightarrow> 'x host_world \<times> code_search_match list" where
  "searchWithRipgrep h root w p dir =
     (let (w', r) = ho_exec h w (oe_cwd (ho_os h)) ''rg'' (rg_args p dir) in (w', parseGrepOutput (pc_out r) (path_string root)))"

definition searchWithGrep :: "'x host \<Rightarrow> fpath \<Rightarrow> 'x host_world \<Rightarrow> code_search_params \<Rightarrow> fpath \<Rightarrow> 'x host_world \<times> code_search_match list" where
  "searchWithGrep h root w p dir =
     (let (w', r) = ho_exec h w (oe_cwd (ho_os h)) ''grep'' (grep_args p dir) in (w', parseGrepOutput (pc_out r) (path_string root)))"

definition CodeSearch_Execute :: "'x host_env \<Rightarrow> fpath \<Rightarrow> 'x host_world \<Rightarrow> raw \<Rightarrow> 'x host_world \<times> (go_error + prim_result)" where
  "CodeSearch_Execute e root w params =
     (case dec_code_search params of
        Inl er \<Rightarrow> (w, Inl (invalid_params er))
      | Inr p0 \<Rightarrow>
          (if cs_Query p0 = [] then (w, Inl (PrimitiveError ''VALIDATION_ERROR'' ''query is required''))
           else
             (let p = (if cs_MaxResults p0 \<le> 0 then p0\<lparr>cs_MaxResults := 50\<rparr> else p0)
              in case (if cs_Path p \<noteq> [] then Resolve (hw_fs w) root (cs_Path p) else Inr root) of
                   Inl er \<Rightarrow> (w, Inl er)
                 | Inr searchDir \<Rightarrow>
                     (let (w', matches) = (if he_lookpath e ''rg'' then searchWithRipgrep (he_host e) root w p searchDir
                                           else searchWithGrep (he_host e) root w p searchDir);
                          total = int (length matches);
                          shown = (if int (length matches) > cs_MaxResults p then take (nat (cs_MaxResults p)) matches else matches)
                      in (w', Inr (ok_result (JObj [(''matches'', slice_json (map match_json shown)), (''total'', JNum total)])))))))"

section \<open>Regular expressions\<close>

text \<open>
  The fragment of Go's \<open>regexp\<close> the patterns of \<open>code.symbols\<close> use, all anchored at the start of the line: literals,
  character classes repeated greedily at least \<open>n\<close> times, groups in sequence, alternatives, options and one capturing
  group. \<open>re_parse\<close> lists what may be left of the text after a match, with the text the group captured, in the order
  of preference of a leftmost-first match, so that the first is the match Go finds.
\<close>

datatype re_class = ClWord | ClSpace | ClNot char

fun in_class :: "re_class \<Rightarrow> char \<Rightarrow> bool" where
  "in_class ClWord c =
     (let n = (of_char c :: nat) in 48 \<le> n \<and> n \<le> 57 \<or> 65 \<le> n \<and> n \<le> 90 \<or> 97 \<le> n \<and> n \<le> 122 \<or> c = CHR ''_'')"
| "in_class ClSpace c = (c \<in> {CHR 0x09, CHR 0x0A, CHR 0x0C, CHR 0x0D, CHR '' ''})"
| "in_class (ClNot d) c = (c \<noteq> d)"

datatype regex =
  RLit string
| RMany re_class nat
| RSeq "regex list"
| RAlt "regex list"
| ROpt regex
| RGroup regex

fun re_parse :: "regex \<Rightarrow> string \<Rightarrow> (string \<times> string option) list"
  and re_seq :: "regex list \<Rightarrow> string \<Rightarrow> (string \<times> string option) list"
  and re_alt :: "regex list \<Rightarrow> string \<Rightarrow> (string \<times> string option) list" where
  "re_parse (RLit t) s = (if has_prefix s t then [(drop (length t) s, None)] else [])"
| "re_parse (RMany c n) s = map (\<lambda>k. (drop k s, None)) (rev [n..<Suc (length (takeWhile (in_class c) s))])"
| "re_parse (RSeq rs) s = re_seq rs s"
| "re_parse (RAlt rs) s = re_alt rs s"
| "re_parse (ROpt r) s = re_parse r s @ [(s, None)]"
| "re_parse (RGroup r) s = map (\<lambda>(t, _). (t, Some (take (length s - length t) s))) (re_parse r s)"
| "re_seq [] s = [(s, None)]"
| "re_seq (r # rs) s =
     concat (map (\<lambda>(t, c). map (\<lambda>(t', c'). (t', if c' = None then c else c')) (re_seq rs t)) (re_parse r s))"
| "re_alt [] s = []"
| "re_alt (r # rs) s = re_parse r s @ re_alt rs s"

text \<open>\<open>FindStringSubmatch\<close>, reduced to the text of the group.\<close>

definition FindStringSubmatch :: "regex \<Rightarrow> string \<Rightarrow> string option" where
  "FindStringSubmatch r s = (case re_parse r s of [] \<Rightarrow> None | (_, c) # _ \<Rightarrow> Some (case c of None \<Rightarrow> [] | Some n \<Rightarrow> n))"

abbreviation re_ws :: "nat \<Rightarrow> regex" where
  "re_ws n \<equiv> RMany ClSpace n"

abbreviation re_name :: regex where
  "re_name \<equiv> RGroup (RMany ClWord 1)"

definition re_word_opt :: "string \<Rightarrow> regex" where
  "re_word_opt t = ROpt (RSeq [RLit t, re_ws 1])"

section \<open>code.symbols\<close>

record code_symbols_params =
  cy_Path :: string
  cy_Kinds :: "string list"

definition dec_code_symbols :: "raw \<Rightarrow> code_symbols_params decoded" where
  "dec_code_symbols r =
     dec_bind (dec_map r) (\<lambda>m.
     dec_bind (field_string m ''path'') (\<lambda>p.
     dec_bind (field_strings m ''kinds'') (\<lambda>k. Inr \<lparr>cy_Path = p, cy_Kinds = k\<rparr>)))"

record symbol =
  sy_Name :: string
  sy_Kind :: string
  sy_StartLine :: int
  sy_Signature :: string

definition symbol_json :: "symbol \<Rightarrow> json" where
  "symbol_json s = JObj ([(''name'', JStr (sy_Name s)), (''kind'', JStr (sy_Kind s)), (''start_line'', JNum (sy_StartLine s))] @
     (if sy_Signature s = [] then [] else [(''signature'', JStr (sy_Signature s))]))"

record symbol_pattern =
  yp_kind :: string
  yp_pattern :: regex

record lang_pattern =
  lg_name :: string
  lg_patterns :: "symbol_pattern list"

definition js_class_re :: regex where
  "js_class_re = RSeq [re_word_opt ''export'', RLit ''class'', re_ws 1, re_name]"

definition js_function_re :: regex where
  "js_function_re = RSeq [re_word_opt ''export'', re_word_opt ''async'', RLit ''function'', re_ws 1, re_name]"

definition js_method_re :: regex where
  "js_method_re = RSeq [re_ws 2, re_word_opt ''async'', re_name, re_ws 0, RLit ''('']"

definition langPatterns :: "(string \<times> lang_pattern) list" where
  "langPatterns =
    [(''.py'', \<lparr>lg_name = ''python'', lg_patterns =
       [\<lparr>yp_kind = ''class'', yp_pattern = RSeq [RLit ''class'', re_ws 1, re_name]\<rparr>,
        \<lparr>yp_kind = ''method'', yp_pattern = RSeq [re_ws 4, RLit ''def'', re_ws 1, re_name]\<rparr>,
        \<lparr>yp_kind = ''function'', yp_pattern = RSeq [RLit ''def'', re_ws 1, re_name]\<rparr>]\<rparr>),
     (''.go'', \<lparr>lg_name = ''go'', lg_patterns =
       [\<lparr>yp_kind = ''method'', yp_pattern = RSeq [RLit ''func'', re_ws 1, RLit ''('', RMany (ClNot (CHR '')'')) 1, RLit '')'', re_ws 1,
           re_name, re_ws 0, RLit ''('']\<rparr>,
        \<lparr>yp_kind = ''function'', yp_pattern = RSeq [RLit ''func'', re_ws 1, re_name, re_ws 0, RLit ''('']\<rparr>,
        \<lparr>yp_kind = ''class'', yp_pattern = RSeq [RLit ''type'', re_ws 1, re_name, re_ws 1, RLit ''struct'']\<rparr>]\<rparr>),
     (''.js'', \<lparr>lg_name = ''javascript'', lg_patterns =
       [\<lparr>yp_kind = ''class'', yp_pattern = js_class_re\<rparr>,
        \<lparr>yp_kind = ''function'', yp_pattern = js_function_re\<rparr>,
        \<lparr>yp_kind = ''method'', yp_pattern = js_method_re\<rparr>]\<rparr>),
     (''.ts'', \<lparr>lg_name = ''typescript'', lg_patterns =
       [\<lparr>yp_kind = ''class'', yp_pattern = js_class_re\<rparr>,
        \<lparr>yp_kind = ''interface'', yp_pattern = RSeq [re_word_opt ''export'', RLit ''interface'', re_ws 1, re_name]\<rparr>,
        \<lparr>yp_kind = ''function'', yp_pattern = js_function_re\<rparr>,
        \<lparr>yp_kind = ''method'', yp_pattern = js_method_re\<rparr>]\<rparr>),
     (''.rs'', \<lparr>lg_name = ''rust'', lg_patterns =
       [\<lparr>yp_kind = ''trait'', yp_pattern = RSeq [re_word_opt ''pub'', RLit ''trait'', re_ws 1, re_name]\<rparr>,
        \<lparr>yp_kind = ''class'', yp_pattern = RSeq [re_word_opt ''pub'', RLit ''struct'', re_ws 1, re_name]\<rparr>,
        \<lparr>yp_kind = ''method'', yp_pattern = RSeq [re_ws 4, re_word_opt ''pub'', re_word_opt ''async'', RLit ''fn'', re_ws 1, re_name]\<rparr>,
        \<lparr>yp_kind = ''function'', yp_pattern = RSeq [re_word_opt ''pub'', re_word_opt ''async'', RLit ''fn'', re_ws 1, re_name]\<rparr>]\<rparr>),
     (''.java'', \<lparr>lg_name = ''java'', lg_patterns =
       [\<lparr>yp_kind = ''interface'', yp_pattern = RSeq [re_word_opt ''public'', RLit ''interface'', re_ws 1, re_name]\<rparr>,
        \<lparr>yp_kind = ''class'', yp_pattern = RSeq [re_word_opt ''public'', re_word_opt ''abstract'', RLit ''class'', re_ws 1, re_name]\<rparr>,
        \<lparr>yp_kind = ''method'', yp_pattern = RSeq [re_ws 4, ROpt (RAlt [RLit ''public'', RLit ''private'', RLit ''protected'']),
           ROpt (RSeq [re_ws 1, RLit ''static'']), re_ws 1, RMany ClWord 1, re_ws 1, re_name, re_ws 0, RLit ''('']\<rparr>]\<rparr>)]"

text \<open>The first enabled pattern that matches the line, \<open>i\<close> counted from 0.\<close>

definition enabled :: "string list \<Rightarrow> symbol_pattern \<Rightarrow> bool" where
  "enabled kinds sp \<longleftrightarrow> \<not> (kinds \<noteq> [] \<and> yp_kind sp \<notin> set kinds)"

fun line_symbol :: "symbol_pattern list \<Rightarrow> string list \<Rightarrow> nat \<Rightarrow> string \<Rightarrow> symbol option" where
  "line_symbol [] kinds i line = None"
| "line_symbol (sp # sps) kinds i line =
     (if \<not> enabled kinds sp then line_symbol sps kinds i line
      else case FindStringSubmatch (yp_pattern sp) line of
             Some n \<Rightarrow> Some \<lparr>sy_Name = n, sy_Kind = yp_kind sp, sy_StartLine = int i + 1, sy_Signature = trim_space line\<rparr>
           | None \<Rightarrow> line_symbol sps kinds i line)"

definition file_symbols :: "symbol_pattern list \<Rightarrow> string list \<Rightarrow> string list \<Rightarrow> symbol list" where
  "file_symbols sps kinds lines = List.map_filter (\<lambda>(i, l). line_symbol sps kinds i l) (enumerate 0 lines)"

text \<open>\<open>filepath.Ext\<close> of a cleaned absolute path: from the last dot of its last name.\<close>

definition path_ext :: "fpath \<Rightarrow> string" where
  "path_ext p =
     (let n = (if p = [] then [] else last p)
      in if CHR ''.'' \<in> set n then CHR ''.'' # rev (takeWhile (\<lambda>c. c \<noteq> CHR ''.'') (rev n)) else [])"

definition CodeSymbols_Execute :: "'x host \<Rightarrow> fpath \<Rightarrow> 'x host_world \<Rightarrow> raw \<Rightarrow> 'x host_world \<times> (go_error + prim_result)" where
  "CodeSymbols_Execute h root w params =
     (w, case dec_code_symbols params of
           Inl e \<Rightarrow> Inl (invalid_params e)
         | Inr p \<Rightarrow>
             (if cy_Path p = [] then Inl (PrimitiveError ''VALIDATION_ERROR'' ''path is required'')
              else
                case Resolve (hw_fs w) root (cy_Path p) of
                  Inl e \<Rightarrow> Inl e
                | Inr absPath \<Rightarrow>
                    (case os_ReadFile (ho_os h) (hw_fs w) absPath of
                       Inl ENOENT \<Rightarrow> Inl (PrimitiveError ''NOT_FOUND'' (''file not found: '' @ cy_Path p))
                     | Inl e \<Rightarrow> Inl (PrimitiveError ''EXECUTION_ERROR'' (error_text (path_error ''open'' absPath e)))
                     | Inr data \<Rightarrow>
                         (let ext = to_lower (path_ext absPath)
                          in case map_of langPatterns ext of
                               None \<Rightarrow> Inr (ok_result (JObj [(''symbols'', JArr []), (''language'', JStr ''unknown''), (''total'', JNum 0),
                                 (''note'', JStr (''unsupported extension '' @ go_quote ext @ ''; supported: .py .go .js .ts .rs .java''))]))
                             | Some lang \<Rightarrow>
                                 (let symbols = file_symbols (lg_patterns lang) (cy_Kinds p) (split_on newline data)
                                  in Inr (ok_result (JObj [(''symbols'', slice_json (map symbol_json symbols)), (''language'', JStr (lg_name lang)),
                                            (''total'', JNum (int (length symbols)))])))))))"

text \<open>
  The fields of a value, none unless it is an object: of a decoded value as it is, and of a Go value that is
  encoded and decoded again, by which its text becomes valid UTF-8.
\<close>

definition data_fields :: "json \<Rightarrow> jmap" where
  "data_fields j = (case dec_map (json_marshal j) of Inl _ \<Rightarrow> [] | Inr m \<Rightarrow> m)"

definition decoded_fields :: "json \<Rightarrow> jmap" where
  "decoded_fields j = (case dec_map (json_encode j) of Inl _ \<Rightarrow> [] | Inr m \<Rightarrow> m)"

lemma decoded_fields_obj: "decoded_fields (JObj m) = map (map_prod go_utf8 json_utf8) m"
  by (simp add: decoded_fields_def json_encode_def json_utf8_obj del: json_utf8.simps)

section \<open>What a search returns\<close>

lemma join_with_split_on [simp]: "join_with [c] (split_on c s) = s"
proof (induction s)
  case (Cons d s)
  then show ?case by (cases "split_on c s") (auto simp: join_with_Cons)
qed (simp add: join_with_Cons)

lemma split_on_concat_lines:
  "(\<And>l. l \<in> set ls \<Longrightarrow> c \<notin> set l) \<Longrightarrow> split_on c (concat (map (\<lambda>l. l @ [c]) ls)) = ls @ [[]]"
  by (induction ls) (auto simp: split_on_cut)

lemma scan_default_lines:
  assumes "\<And>l. l \<in> set ls \<Longrightarrow> newline \<notin> set l \<and> int (length l) < max_token"
  shows "scan_default (concat (map (\<lambda>l. l @ [newline]) ls)) = map drop_cr ls"
proof -
  have s: "split_on newline (concat (map (\<lambda>l. l @ [newline]) ls)) = ls @ [[]]" using assms by (intro split_on_concat_lines) blast
  have "takeWhile (\<lambda>l. int (length l) < max_token) (ls @ [[]]) = ls @ [[]]"
    using assms by (subst takeWhile_eq_all_conv) (auto simp: max_token_def)
  then show ?thesis by (simp add: scan_default_def scan_lines_def s)
qed

lemma nat_digits_digit: "c \<in> set (nat_digits n) \<Longrightarrow> digit_val c \<noteq> None"
proof (induction n rule: nat_digits.induct)
  case (1 n)
  then show ?case by (cases "n < 10") (auto simp: nat_digits.simps [of n])
qed

lemma itoa_no_colon: "0 \<le> n \<Longrightarrow> CHR '':'' \<notin> set (itoa n)"
  using nat_digits_digit [of "CHR '':''" "nat n"] by (auto simp: itoa_def digit_val_def)

lemma join_with_append: "xs \<noteq> [] \<Longrightarrow> ys \<noteq> [] \<Longrightarrow> join_with sep (xs @ ys) = join_with sep xs @ sep @ join_with sep ys"
  by (induction xs) (auto simp: join_with_Cons)

text \<open>What \<open>rg\<close> and \<open>grep\<close> print: the file, the number of the line and its text.\<close>

type_synonym grep_hit = "fpath \<times> int \<times> string"

definition hit_line :: "fpath \<Rightarrow> grep_hit \<Rightarrow> string" where
  "hit_line root = (\<lambda>(rel, n, c). path_string (root @ rel) @ '':'' @ itoa n @ '':'' @ c)"

definition hit_match :: "grep_hit \<Rightarrow> code_search_match" where
  "hit_match = (\<lambda>(rel, n, c). \<lparr>cm_File = join_with ''/'' rel, cm_Line = n, cm_Content = trim_space c\<rparr>)"

definition hit_ok :: "fpath \<Rightarrow> grep_hit \<Rightarrow> bool" where
  "hit_ok root = (\<lambda>(rel, n, c). rel \<noteq> [] \<and> CHR '':'' \<notin> set (path_string (root @ rel)) \<and> 0 \<le> n \<and> int64_range n \<and>
     newline \<notin> set (hit_line root (rel, n, c)) \<and> int (length (hit_line root (rel, n, c))) < max_token)"

lemma trim_drop_cr [simp]: "trim_space (drop_cr s) = trim_space s"
proof (cases "s \<noteq> [] \<and> last s = CHR 0x0D")
  case True
  then have "s = butlast s @ [CHR 0x0D]" by (metis append_butlast_last_id)
  moreover have "trim_space (t @ [CHR 0x0D]) = trim_space t" for t
    by (induction t) (simp_all add: trim_space_def trim_left_def is_space_def)
  ultimately have "trim_space s = trim_space (butlast s)" by metis
  with True show ?thesis by (simp add: drop_cr_def)
qed (auto simp: drop_cr_def)

lemma drop_cr_append: "drop_cr (s @ '':'' @ t) = s @ '':'' @ drop_cr t"
  by (simp add: drop_cr_def butlast_append)

lemma hit_file: "root \<noteq> [] \<Longrightarrow> rel \<noteq> [] \<Longrightarrow>
  has_prefix (path_string (root @ rel)) (path_string root @ ''/'') \<and>
  drop (length (path_string root @ ''/'')) (path_string (root @ rel)) = join_with ''/'' rel"
  by (simp add: path_string_def join_with_append has_prefix_def)

lemma grep_line_hit:
  assumes "root \<noteq> []" and "hit_ok root x"
  shows "grep_line (path_string root) (drop_cr (hit_line root x)) = Some (hit_match x)"
proof -
  obtain rel n c where x: "x = (rel, n, c)" by (cases x)
  let ?f = "path_string (root @ rel)"
  have l: "drop_cr (hit_line root x) = ?f @ CHR '':'' # itoa n @ CHR '':'' # drop_cr c"
    using drop_cr_append [of "?f @ '':'' @ itoa n" c] by (simp add: hit_line_def x)
  have ok: "rel \<noteq> []" "CHR '':'' \<notin> set ?f" "0 \<le> n" "int64_range n" using assms(2) by (auto simp: hit_ok_def x)
  have "split_on (CHR '':'') (drop_cr (hit_line root x)) = ?f # itoa n # split_on (CHR '':'') (drop_cr c)"
    unfolding l using ok itoa_no_colon [OF ok(3)] by (simp add: split_on_cut)
  moreover have "has_prefix ?f (path_string root)" using hit_file [OF assms(1) ok(1)] by (meson has_prefix_append has_prefix_trans)
  moreover have "join_with '':'' (split_on (CHR '':'') (drop_cr c)) = drop_cr c" by simp
  ultimately show ?thesis using hit_file [OF assms(1) ok(1)] ok(4)
    by (simp add: grep_line_def hit_match_def x trim_prefix_def atoi_itoa)
qed

lemma parse_hits:
  assumes "root \<noteq> []" and "\<And>x. x \<in> set hits \<Longrightarrow> hit_ok root x"
  shows "parseGrepOutput (concat (map (\<lambda>x. hit_line root x @ [newline]) hits)) (path_string root) = map hit_match hits"
proof -
  have "scan_default (concat (map (\<lambda>l. l @ [newline]) (map (hit_line root) hits))) = map drop_cr (map (hit_line root) hits)"
    using assms(2) by (intro scan_default_lines) (auto simp: hit_ok_def)
  then have "parseGrepOutput (concat (map (\<lambda>x. hit_line root x @ [newline]) hits)) (path_string root) =
      List.map_filter (\<lambda>x. grep_line (path_string root) (drop_cr (hit_line root x))) hits"
    by (simp add: parseGrepOutput_def comp_def List.map_filter_def filter_map)
  also have "\<dots> = map hit_match hits"
    using grep_line_hit [OF assms(1)] assms(2) by (induction hits) (auto simp: List.map_filter_def)
  finally show ?thesis .
qed

text \<open>
  Code search. A successful \<open>code.search\<close> has run one program, \<open>rg\<close> or \<open>grep\<close>, on a directory or file that lies
  under the workspace root, the last of its arguments. It returns the matches of the output, at most as many as
  asked for (50 by default), and their total number; and when the output is that of the program for files whose
  names have no colon, with lines shorter than the scanner's buffer, these are all of them, in order, each with
  the path relative to the workspace.
\<close>

theorem code_search:
  assumes "wf_fs (hw_fs w)" and "path_ok root" and "root \<noteq> []" and "CodeSearch_Execute e root w params = (w', Inr x)"
  shows "\<exists>p dir prog args r ms. dec_code_search params = Inr p \<and> cs_Query p \<noteq> [] \<and> prefix root dir \<and>
    (if cs_Path p = [] then dir = root else Resolve (hw_fs w) root (cs_Path p) = Inr dir) \<and> prog \<in> {''rg'', ''grep''} \<and> last args = path_string dir \<and>
    ho_exec (he_host e) w (oe_cwd (ho_os (he_host e))) prog args = (w', r) \<and>
    pr_Data x = JObj [(''matches'', slice_json (map match_json (take (nat (if cs_MaxResults p \<le> 0 then 50 else cs_MaxResults p)) ms))),
      (''total'', JNum (int (length ms)))] \<and>
    (\<forall>hits. pc_out r = concat (map (\<lambda>h. hit_line root h @ [newline]) hits) \<and> (\<forall>h \<in> set hits. hit_ok root h) \<longrightarrow> ms = map hit_match hits)"
proof -
  from assms(4) obtain p where p: "dec_code_search params = Inr p" "cs_Query p \<noteq> []"
    by (auto simp: CodeSearch_Execute_def split: sum.splits if_splits)
  let ?n = "if cs_MaxResults p \<le> 0 then 50 else cs_MaxResults p"
  let ?p = "if cs_MaxResults p \<le> 0 then p\<lparr>cs_MaxResults := 50\<rparr> else p"
  let ?dir = "if cs_Path p \<noteq> [] then Resolve (hw_fs w) root (cs_Path p) else Inr root"
  have sel: "cs_Path ?p = cs_Path p" "cs_MaxResults ?p = ?n" by simp_all
  obtain dir where dir: "?dir = Inr dir"
    using assms(4) p sel by (cases ?dir) (auto simp: CodeSearch_Execute_def Let_def split: if_splits)
  then have conf: "prefix root dir" "if cs_Path p = [] then dir = root else Resolve (hw_fs w) root (cs_Path p) = Inr dir"
    using Resolve_confined [OF assms(1,2)] by (auto split: if_splits)
  define prog args where "prog = (if he_lookpath e ''rg'' then ''rg'' else ''grep'')"
    and "args = (if he_lookpath e ''rg'' then rg_args ?p dir else grep_args ?p dir)"
  obtain w1 r where r: "ho_exec (he_host e) w (oe_cwd (ho_os (he_host e))) prog args = (w1, r)" by fastforce
  define ms where "ms = parseGrepOutput (pc_out r) (path_string root)"
  have "(if int (length ms) > ?n then take (nat ?n) ms else ms) = take (nat ?n) ms" by auto
  moreover have "(if he_lookpath e ''rg'' then searchWithRipgrep (he_host e) root w ?p dir
      else searchWithGrep (he_host e) root w ?p dir) = (w1, ms)"
    using r by (auto simp: prog_def args_def ms_def searchWithRipgrep_def searchWithGrep_def split: if_splits)
  ultimately have "w' = w1" "pr_Data x = JObj [(''matches'', slice_json (map match_json (take (nat ?n) ms))), (''total'', JNum (int (length ms)))]"
    using assms(4) p dir unfolding CodeSearch_Execute_def by (simp_all only: sum.case sel Let_def prod.case if_False if_True) (auto simp: ok_result_def)
  moreover have "last args = path_string dir" by (simp add: args_def rg_args_def grep_args_def)
  moreover have "\<forall>hits. pc_out r = concat (map (\<lambda>h. hit_line root h @ [newline]) hits) \<and> (\<forall>h \<in> set hits. hit_ok root h) \<longrightarrow> ms = map hit_match hits"
    using parse_hits [OF assms(3)] by (auto simp: ms_def)
  moreover have "prog \<in> {''rg'', ''grep''}" by (simp add: prog_def)
  ultimately show ?thesis using p conf r by blast
qed

section \<open>What the outline of a file holds\<close>

text \<open>Every group of a pattern captures a word.\<close>

fun word_groups :: "regex \<Rightarrow> bool" where
  "word_groups (RSeq rs) = list_all word_groups rs"
| "word_groups (RAlt rs) = list_all word_groups rs"
| "word_groups (ROpt r) = word_groups r"
| "word_groups (RGroup r) = (r = RMany ClWord 1)"
| "word_groups _ = True"

definition is_word :: "string \<Rightarrow> bool" where
  "is_word n \<longleftrightarrow> n \<noteq> [] \<and> list_all (in_class ClWord) n"

lemma re_captures_word:
  "word_groups r \<Longrightarrow> (t, Some n) \<in> set (re_parse r s) \<Longrightarrow> is_word n"
  "list_all word_groups rs \<Longrightarrow> (t, Some n) \<in> set (re_seq rs s) \<Longrightarrow> is_word n"
  "list_all word_groups rs \<Longrightarrow> (t, Some n) \<in> set (re_alt rs s) \<Longrightarrow> is_word n"
proof (induction r s and rs s and rs s arbitrary: t n and t n and t n rule: re_parse_re_seq_re_alt.induct)
  case (6 r s)
  then obtain k where k: "n = take (length s - (length s - k)) s" "1 \<le> k" "k \<le> length (takeWhile (in_class ClWord) s)"
    by (auto simp: less_Suc_eq_le simp del: diff_diff_cancel)
  moreover from k have "k \<le> length s" using length_takeWhile_le order_trans by blast
  ultimately have "n = take k (takeWhile (in_class ClWord) s)"
    by (metis diff_diff_cancel takeWhile_eq_take min.absorb1 take_take)
  moreover have "is_word (take k (takeWhile (in_class ClWord) s))"
    using k(2,3) set_takeWhileD unfolding is_word_def list_all_iff by (fastforce dest: in_set_takeD)
  ultimately show ?case by simp
qed (auto split: if_splits)

lemma re_seq_captures: "RGroup r \<in> set rs \<Longrightarrow> (t, c) \<in> set (re_seq rs s) \<Longrightarrow> c \<noteq> None"
proof (induction rs arbitrary: t c s)
  case (Cons a rs)
  then show ?case by (cases "RGroup r \<in> set rs") (auto split: if_splits, fastforce+)
qed simp

fun name_pattern :: "regex \<Rightarrow> bool" where
  "name_pattern (RSeq rs) \<longleftrightarrow> re_name \<in> set rs \<and> list_all word_groups rs"
| "name_pattern _ = False"

lemma submatch_word: "name_pattern r \<Longrightarrow> FindStringSubmatch r s = Some n \<Longrightarrow> is_word n"
proof (cases r)
  case (RSeq rs)
  assume r: "name_pattern r" and n: "FindStringSubmatch r s = Some n"
  then obtain t c where c: "(t, c) \<in> set (re_seq rs s)" "n = (case c of None \<Rightarrow> [] | Some n \<Rightarrow> n)"
    by (fastforce simp: FindStringSubmatch_def RSeq split: list.splits)
  then obtain m where "c = Some m" using re_seq_captures r RSeq by fastforce
  with c r re_captures_word(2) [of rs t m s] show ?thesis by (simp add: RSeq)
qed simp_all

lemma name_patterns: "map_of langPatterns ext = Some lang \<Longrightarrow> sp \<in> set (lg_patterns lang) \<Longrightarrow> name_pattern (yp_pattern sp)"
proof -
  have "list_all (\<lambda>x. list_all (\<lambda>sp. name_pattern (yp_pattern sp)) (lg_patterns (snd x))) langPatterns"
    by (simp add: langPatterns_def re_word_opt_def js_class_re_def js_function_re_def js_method_re_def)
  then show "map_of langPatterns ext = Some lang \<Longrightarrow> sp \<in> set (lg_patterns lang) \<Longrightarrow> name_pattern (yp_pattern sp)"
    by (auto simp: list_all_iff dest: map_of_SomeD)
qed

lemma line_symbol_None: "line_symbol sps kinds i l = None \<longleftrightarrow> (\<forall>sp \<in> set sps. enabled kinds sp \<longrightarrow> FindStringSubmatch (yp_pattern sp) l = None)"
  by (induction sps) (auto split: option.splits)

lemma line_symbol_Some:
  "line_symbol sps kinds i l = Some s \<Longrightarrow> \<exists>a sp b. sps = a @ sp # b \<and> enabled kinds sp \<and> FindStringSubmatch (yp_pattern sp) l = Some (sy_Name s) \<and>
     sy_Kind s = yp_kind sp \<and> sy_StartLine s = int i + 1 \<and> sy_Signature s = trim_space l \<and> line_symbol a kinds i l = None"
proof (induction sps)
  case (Cons q sps)
  show ?case
  proof (cases "enabled kinds q \<and> FindStringSubmatch (yp_pattern q) l \<noteq> None")
    case True
    with Cons.prems show ?thesis by (intro exI [of _ "[]"]) auto
  next
    case False
    then have "line_symbol (q # sps) kinds i l = line_symbol sps kinds i l" by auto
    with Cons obtain a sp b where "sps = a @ sp # b" "enabled kinds sp" "FindStringSubmatch (yp_pattern sp) l = Some (sy_Name s)"
      "sy_Kind s = yp_kind sp" "sy_StartLine s = int i + 1" "sy_Signature s = trim_space l" "line_symbol a kinds i l = None" by auto
    with False show ?thesis by (intro exI [of _ "q # a"] exI [of _ sp] exI [of _ b]) auto
  qed
qed simp

lemma file_symbols_set:
  "s \<in> set (file_symbols sps kinds lines) \<longleftrightarrow> (\<exists>i < length lines. line_symbol sps kinds i (lines ! i) = Some s)"
  by (auto simp: file_symbols_def List.map_filter_def in_set_enumerate_eq image_iff intro: exI [of _ "(i, lines ! i)" for i])

lemma file_symbols_sorted: "sorted_wrt (<) (map sy_StartLine (file_symbols sps kinds lines))"
proof -
  have "sorted_wrt (<) (map sy_StartLine (List.map_filter (\<lambda>(i, l). line_symbol sps kinds i l) (enumerate k lines))) \<and>
    (\<forall>s \<in> set (List.map_filter (\<lambda>(i, l). line_symbol sps kinds i l) (enumerate k lines)). int k < sy_StartLine s)" for k
  proof (induction lines arbitrary: k)
    case (Cons l ls)
    from Cons [of "Suc k"] show ?case
      by (cases "line_symbol sps kinds k l") (fastforce simp: List.map_filter_def dest: line_symbol_Some)+
  qed (simp add: List.map_filter_def)
  then show ?thesis by (simp add: file_symbols_def)
qed

lemma file_symbols_complete:
  "i < length lines \<Longrightarrow> (int i + 1 \<in> sy_StartLine ` set (file_symbols sps kinds lines)) =
     (\<exists>sp \<in> set sps. enabled kinds sp \<and> FindStringSubmatch (yp_pattern sp) (lines ! i) \<noteq> None)"
proof -
  assume i: "i < length lines"
  have "(int i + 1 \<in> sy_StartLine ` set (file_symbols sps kinds lines)) \<longleftrightarrow> line_symbol sps kinds i (lines ! i) \<noteq> None"
  proof
    assume "int i + 1 \<in> sy_StartLine ` set (file_symbols sps kinds lines)"
    then obtain s j where "line_symbol sps kinds j (lines ! j) = Some s" "sy_StartLine s = int i + 1" by (auto simp: file_symbols_set)
    moreover from this have "j = i" using line_symbol_Some [of sps kinds j] by fastforce
    ultimately show "line_symbol sps kinds i (lines ! i) \<noteq> None" by simp
  next
    assume "line_symbol sps kinds i (lines ! i) \<noteq> None"
    then obtain s where "line_symbol sps kinds i (lines ! i) = Some s" by blast
    with i line_symbol_Some [OF this] show "int i + 1 \<in> sy_StartLine ` set (file_symbols sps kinds lines)"
      by (intro image_eqI [of _ _ s]) (auto simp: file_symbols_set)
  qed
  then show ?thesis by (auto simp: line_symbol_None)
qed

lemma file_symbols_sound:
  assumes "map_of langPatterns ext = Some lang"
  shows "\<forall>s \<in> set (file_symbols (lg_patterns lang) kinds lines). \<exists>i a sp b. i < length lines \<and> sy_StartLine s = int i + 1 \<and>
    lg_patterns lang = a @ sp # b \<and> enabled kinds sp \<and> sy_Kind s = yp_kind sp \<and> is_word (sy_Name s) \<and>
    FindStringSubmatch (yp_pattern sp) (lines ! i) = Some (sy_Name s) \<and>
    (\<forall>sp' \<in> set a. enabled kinds sp' \<longrightarrow> FindStringSubmatch (yp_pattern sp') (lines ! i) = None)"
proof
  fix s
  assume "s \<in> set (file_symbols (lg_patterns lang) kinds lines)"
  then obtain i where i: "i < length lines" "line_symbol (lg_patterns lang) kinds i (lines ! i) = Some s" by (auto simp: file_symbols_set)
  from line_symbol_Some [OF i(2)] obtain a sp b where a: "lg_patterns lang = a @ sp # b" "enabled kinds sp"
    "FindStringSubmatch (yp_pattern sp) (lines ! i) = Some (sy_Name s)" "sy_Kind s = yp_kind sp" "sy_StartLine s = int i + 1"
    "line_symbol a kinds i (lines ! i) = None" by blast
  moreover have "is_word (sy_Name s)" by (rule submatch_word [OF name_patterns [OF assms] a(3)]) (simp add: a(1))
  ultimately show "\<exists>i a sp b. i < length lines \<and> sy_StartLine s = int i + 1 \<and> lg_patterns lang = a @ sp # b \<and> enabled kinds sp \<and>
      sy_Kind s = yp_kind sp \<and> is_word (sy_Name s) \<and> FindStringSubmatch (yp_pattern sp) (lines ! i) = Some (sy_Name s) \<and>
      (\<forall>sp' \<in> set a. enabled kinds sp' \<longrightarrow> FindStringSubmatch (yp_pattern sp') (lines ! i) = None)"
    using i(1) by (intro exI [of _ i] exI [of _ a] exI [of _ sp] exI [of _ b]) (simp add: line_symbol_None)
qed

text \<open>
  The outline of a file: the symbols come in the order of their lines, at most one for a line; a line has one exactly
  when some pattern of the language, of a kind asked for, matches it, and then the kind is that of the first such
  pattern and the name is the word the pattern captures there.
\<close>

definition outlines :: "lang_pattern \<Rightarrow> string list \<Rightarrow> string list \<Rightarrow> symbol list \<Rightarrow> bool" where
  "outlines lang kinds lines syms \<longleftrightarrow>
     sorted_wrt (<) (map sy_StartLine syms) \<and>
     (\<forall>i < length lines. (int i + 1 \<in> sy_StartLine ` set syms) =
        (\<exists>sp \<in> set (lg_patterns lang). enabled kinds sp \<and> FindStringSubmatch (yp_pattern sp) (lines ! i) \<noteq> None)) \<and>
     (\<forall>s \<in> set syms. \<exists>i a sp b. i < length lines \<and> sy_StartLine s = int i + 1 \<and> lg_patterns lang = a @ sp # b \<and>
        enabled kinds sp \<and> sy_Kind s = yp_kind sp \<and> is_word (sy_Name s) \<and>
        FindStringSubmatch (yp_pattern sp) (lines ! i) = Some (sy_Name s) \<and>
        (\<forall>sp' \<in> set a. enabled kinds sp' \<longrightarrow> FindStringSubmatch (yp_pattern sp') (lines ! i) = None))"

lemma file_symbols_outlines:
  "map_of langPatterns ext = Some lang \<Longrightarrow> outlines lang kinds lines (file_symbols (lg_patterns lang) kinds lines)"
  unfolding outlines_def by (intro conjI allI impI file_symbols_sorted file_symbols_complete file_symbols_sound)

text \<open>
  Code outlines. A successful \<open>code.symbols\<close> changes nothing and reads one file under the workspace root; when its
  language is known, the result is the outline of the file by the patterns of the language.
\<close>

theorem code_symbols:
  assumes "wf_fs (hw_fs w)" and "path_ok root" and "CodeSymbols_Execute h root w params = (w', Inr x)"
    and "dec_code_symbols params = Inr p"
  shows "w' = w \<and> (\<exists>q c. Resolve (hw_fs w) root (cy_Path p) = Inr q \<and> prefix root q \<and> nolink (hw_fs w) q \<and> fs_at (hw_fs w) q = Some (FFile c) \<and>
    (case map_of langPatterns (to_lower (path_ext q)) of
       None \<Rightarrow> \<exists>note. pr_Data x = JObj [(''symbols'', JArr []), (''language'', JStr ''unknown''), (''total'', JNum 0), (''note'', JStr note)]
     | Some lang \<Rightarrow> \<exists>syms. outlines lang (cy_Kinds p) (split_on newline c) syms \<and>
         pr_Data x = JObj [(''symbols'', slice_json (map symbol_json syms)), (''language'', JStr (lg_name lang)), (''total'', JNum (int (length syms)))]))"
proof -
  from assms(3,4) obtain q where q: "Resolve (hw_fs w) root (cy_Path p) = Inr q"
    by (auto simp: CodeSymbols_Execute_def split: sum.splits if_splits)
  with assms(3,4) obtain c where c: "os_ReadFile (ho_os h) (hw_fs w) q = Inr c"
    by (auto simp: CodeSymbols_Execute_def split: sum.splits if_splits os_error.splits)
  note conf = Resolve_confined [OF assms(1,2) q]
  with ReadFile_confined [OF _ _ c] have f: "fs_at (hw_fs w) q = Some (FFile c)" by blast
  from assms(3) have "w' = w" by (simp add: CodeSymbols_Execute_def)
  show ?thesis
  proof (cases "map_of langPatterns (to_lower (path_ext q))")
    case None
    with assms(3,4) q c have "\<exists>note. pr_Data x = JObj [(''symbols'', JArr []), (''language'', JStr ''unknown''), (''total'', JNum 0), (''note'', JStr note)]"
      by (simp add: CodeSymbols_Execute_def Let_def split: if_splits) (auto simp: ok_result_def)
    with None q conf f \<open>w' = w\<close> show ?thesis by (intro conjI exI [of _ q] exI [of _ c]) simp_all
  next
    case (Some lang)
    let ?syms = "file_symbols (lg_patterns lang) (cy_Kinds p) (split_on newline c)"
    from Some assms(3,4) q c have "pr_Data x = JObj [(''symbols'', slice_json (map symbol_json ?syms)), (''language'', JStr (lg_name lang)),
        (''total'', JNum (int (length ?syms)))]"
      by (simp add: CodeSymbols_Execute_def Let_def split: if_splits) (auto simp: ok_result_def Let_def)
    with Some q conf f \<open>w' = w\<close> file_symbols_outlines [OF Some] show ?thesis
      by (intro conjI exI [of _ q] exI [of _ c]) auto
  qed
qed

lemma dec_path_only: "dec_code_symbols (Raw (JObj [(''path'', JStr p)])) = Inr \<lparr>cy_Path = p, cy_Kinds = []\<rparr>"
  by (simp add: dec_code_symbols_def dec_bind_def field_string_def field_strings_def jget_def)

section \<open>Witnesses\<close>

definition code_fs :: fsys where
  "code_fs = [([''w''], FDir), ([''w'', ''a.py''], FFile (''def f(x):'' @ newline # ''  return x'' @ newline # ''def g():'' @ newline # ''  pass'')),
     ([''w'', ''b.js''], FFile (''if (x) {'' @ newline # ''  if (y) {''))]"

definition code_world :: "unit host_world" where
  "code_world = \<lparr>hw_fs = code_fs, hw_intent = None, hw_ext = ()\<rparr>"

definition code_env :: "unit host_env" where
  "code_env = \<lparr>he_host = demo_host\<lparr>ho_exec := (\<lambda>w _ _ _. (w, \<lparr>pc_err = None, pc_out = ''/w/a.py:2:  return x'' @ [newline], pc_errout = []\<rparr>))\<rparr>,
     he_shell = (\<lambda>w _ _ _ _. (w, \<lparr>sh_start_err = None, sh_out = [], sh_err = [], sh_wait = WaitOK, sh_ms = 1\<rparr>)),
     he_lookpath = (\<lambda>_. True), he_now_ms = (\<lambda>_. 1), he_rfc3339 = (\<lambda>_. [])\<rparr>"

lemma code_world_wf: "wf_fs (hw_fs code_world)" "path_ok [''w'']"
proof -
  have "list_all (\<lambda>x. fst x = [] \<or> fs_at code_fs (butlast (fst x)) = Some FDir) code_fs" by code_simp
  then show "wf_fs (hw_fs code_world)" unfolding code_world_def by (simp add: wf_fs_code)
qed code_simp

theorem code_search_witness:
  "\<exists>x. snd (CodeSearch_Execute code_env [''w''] code_world (Raw (JObj [(''query'', JStr ''return'')]))) = Inr x \<and>
     pr_Data x = JObj [(''matches'', JArr [JObj [(''file'', JStr ''a.py''), (''line'', JNum 2), (''content'', JStr ''return x'')]]), (''total'', JNum 1)]"
proof -
  let ?r = "CodeSearch_Execute code_env [''w''] code_world (Raw (JObj [(''query'', JStr ''return'')]))"
  have "case snd ?r of Inl _ \<Rightarrow> False | Inr _ \<Rightarrow> True" by code_simp
  then obtain w' x where r: "?r = (w', Inr x)" by (cases ?r) (auto split: sum.splits)
  from code_search [OF code_world_wf _ r]
  obtain p prog args pr ms where m: "dec_code_search (Raw (JObj [(''query'', JStr ''return'')])) = Inr p"
    "ho_exec (he_host code_env) code_world (oe_cwd (ho_os (he_host code_env))) prog args = (w', pr)"
    "pr_Data x = JObj [(''matches'', slice_json (map match_json (take (nat (if cs_MaxResults p \<le> 0 then 50 else cs_MaxResults p)) ms))),
      (''total'', JNum (int (length ms)))]"
    "\<And>hits. pc_out pr = concat (map (\<lambda>h. hit_line [''w''] h @ [newline]) hits) \<Longrightarrow> (\<forall>h \<in> set hits. hit_ok [''w''] h) \<Longrightarrow> ms = map hit_match hits"
    by auto
  have h: "hit_line [''w''] ([''a.py''], 2, ''  return x'') = ''/w/a.py:2:  return x''" by code_simp
  have "hit_ok [''w''] ([''a.py''], 2, ''  return x'')"
    by (simp add: hit_ok_def h newline_def max_token_def int64_range_def) code_simp
  with m(2) m(4) [of "[([''a.py''], 2, ''  return x'')]"] h have "ms = [hit_match ([''a.py''], 2, ''  return x'')]"
    by (auto simp: code_env_def)
  moreover have "hit_match ([''a.py''], 2, ''  return x'') = \<lparr>cm_File = ''a.py'', cm_Line = 2, cm_Content = ''return x''\<rparr>" by code_simp
  moreover have "p = \<lparr>cs_Query = ''return'', cs_Path = [], cs_Regex = False, cs_CaseSensitive = False, cs_MaxResults = 0\<rparr>"
    using m(1) by (simp add: dec_code_search_def dec_bind_def field_string_def field_bool_def field_int_def jget_def)
  ultimately show ?thesis using m(3) r by (simp add: slice_json_def match_json_def)
qed

theorem code_symbols_witness:
  "\<exists>c lang syms. fs_at code_fs [''w'', ''a.py''] = Some (FFile c) \<and> outlines lang [] (split_on newline c) syms \<and> length syms = 2 \<and>
     (\<exists>x. snd (CodeSymbols_Execute demo_host [''w''] code_world (Raw (JObj [(''path'', JStr ''a.py'')]))) = Inr x)"
proof -
  let ?r = "CodeSymbols_Execute demo_host [''w''] code_world (Raw (JObj [(''path'', JStr ''a.py'')]))"
  have v: "case snd ?r of Inl _ \<Rightarrow> False | Inr x \<Rightarrow> jget (data_fields (pr_Data x)) ''total'' = Some (JNum 2)" by code_simp
  then obtain w' x where r: "?r = (w', Inr x)" by (cases ?r) (auto split: sum.splits)
  have q: "Resolve (hw_fs code_world) [''w''] ''a.py'' = Inr [''w'', ''a.py'']" by code_simp
  have "map_of langPatterns (to_lower (path_ext [''w'', ''a.py''])) \<noteq> None" by code_simp
  with code_symbols [OF code_world_wf r dec_path_only] q
  obtain c lang syms where "fs_at (hw_fs code_world) [''w'', ''a.py''] = Some (FFile c)" "outlines lang [] (split_on newline c) syms"
    "pr_Data x = JObj [(''symbols'', slice_json (map symbol_json syms)), (''language'', JStr (lg_name lang)), (''total'', JNum (int (length syms)))]"
    by auto
  with v r show ?thesis by (auto simp: code_world_def data_fields_def jget_def json_marshal_def)
qed


text \<open>
  The pattern for JavaScript methods takes an indented control statement for a method.
\<close>

theorem js_statement_as_method:
  "snd (CodeSymbols_Execute demo_host [''w''] code_world (Raw (JObj [(''path'', JStr ''b.js'')]))) =
     Inr (ok_result (JObj [(''symbols'', JArr [JObj [(''name'', JStr ''if''), (''kind'', JStr ''method''), (''start_line'', JNum 2),
       (''signature'', JStr ''if (y) {'')]]), (''language'', JStr ''javascript''), (''total'', JNum 1)]))"
  by code_simp

end
