(* ===== verification/RepoAdapter.thy ===== *)
theory RepoAdapter
  imports CodePrims RpcServer
begin

text \<open>
  The adapter of the \<open>repo.\<close> primitives, \<open>cmd/pb-repo-adapter/main.go\<close>: reading and replacing a symbol of a source file
  on top of \<open>code.symbols\<close>, \<open>fs.read\<close> and \<open>fs.write\<close>, and its JSON-RPC handler. Line numbers go through \<open>float64\<close>,
  which is exact for them. \<open>None\<close> is a panic. What a primitive answers is encoded as JSON and decoded again before it
  is used, so that bytes of a file that are not UTF-8 become replacement characters on the way (\<open>decoded_fields\<close>,
  \<open>go_utf8\<close>). The lemmas show that a patch replaces the lines of the symbol, that writing back what was read
  changes nothing in a file that is UTF-8, and what happens to the rest of a file that is not.
\<close>

definition trim_suffix :: "string \<Rightarrow> string \<Rightarrow> string" where
  "trim_suffix s x = (if has_suffix s x then take (length s - length x) s else s)"

definition remapSearchParams :: "raw \<Rightarrow> raw" where
  "remapSearchParams params = (if raw_len0 params then Raw (JObj []) else params)"

record symbol_params =
  sq_Path :: string
  sq_Symbol :: string

definition dec_symbol_params :: "raw \<Rightarrow> symbol_params decoded" where
  "dec_symbol_params r =
     dec_bind (dec_map r) (\<lambda>m.
     dec_bind (field_string m ''path'') (\<lambda>p.
     dec_bind (field_string m ''symbol'') (\<lambda>s. Inr \<lparr>sq_Path = p, sq_Symbol = s\<rparr>)))"

record patch_symbol_params =
  pq_Path :: string
  pq_Symbol :: string
  pq_Body :: string

definition dec_patch_params :: "raw \<Rightarrow> patch_symbol_params decoded" where
  "dec_patch_params r =
     dec_bind (dec_map r) (\<lambda>m.
     dec_bind (field_string m ''path'') (\<lambda>p.
     dec_bind (field_string m ''symbol'') (\<lambda>s.
     dec_bind (field_string m ''body'') (\<lambda>b. Inr \<lparr>pq_Path = p, pq_Symbol = s, pq_Body = b\<rparr>))))"

text \<open>
  The lines of a symbol among the symbols listed, the end 0 for the last of them: the first of that name, up to the line
  before the next symbol. \<open>None\<close> is the panic of a failed type assertion.
\<close>

definition start_line :: "json \<Rightarrow> int option" where
  "start_line j = (case jget (data_fields j) ''start_line'' of Some (JNum n) \<Rightarrow> Some n | _ \<Rightarrow> None)"

fun find_symbol :: "string \<Rightarrow> json list \<Rightarrow> (int \<times> int \<times> string) option option" where
  "find_symbol name [] = Some None"
| "find_symbol name (x # xs) =
     (if jget (data_fields x) ''name'' = Some (JStr name) then
        (case start_line x of
           None \<Rightarrow> None
         | Some start \<Rightarrow>
             map_option (\<lambda>stop. Some (start, stop, case jget (data_fields x) ''kind'' of Some (JStr k) \<Rightarrow> k | _ \<Rightarrow> []))
               (case xs of [] \<Rightarrow> Some 0 | y # _ \<Rightarrow> map_option (\<lambda>n. n - 1) (start_line y)))
      else find_symbol name xs)"

definition symbol_missing :: "string \<Rightarrow> string \<Rightarrow> go_error" where
  "symbol_missing name path = GoErr (''symbol '' @ name @ '' not found in '' @ path)"

definition locateSymbol :: "'x host \<Rightarrow> fpath \<Rightarrow> 'x host_world \<Rightarrow> string \<Rightarrow> string \<Rightarrow> (go_error + int \<times> int \<times> string) option" where
  "locateSymbol h root w path name =
     (case snd (CodeSymbols_Execute h root w (json_encode (JObj [(''path'', JStr path)]))) of
        Inl e \<Rightarrow> Some (Inl e)
      | Inr x \<Rightarrow>
          map_option (\<lambda>r. case r of None \<Rightarrow> Inl (symbol_missing name path) | Some v \<Rightarrow> Inr v)
            (find_symbol name (case jget (decoded_fields (pr_Data x)) ''symbols'' of Some (JArr xs) \<Rightarrow> xs | _ \<Rightarrow> [])))"

definition readSymbol :: "'x host \<Rightarrow> fpath \<Rightarrow> 'x host_world \<Rightarrow> raw \<Rightarrow> 'x outcome" where
  "readSymbol h root w params =
     (case dec_symbol_params params of
        Inl e \<Rightarrow> Some (w, Inl e)
      | Inr i \<Rightarrow>
          map_option (Pair w)
            (map_option (\<lambda>l. case l of
               Inl e \<Rightarrow> Inl e
             | Inr (start, stop, kind) \<Rightarrow>
                 (case snd (FSRead_Execute h root w (json_encode (JObj [(''path'', JStr (sq_Path i)), (''start_line'', JNum start),
                          (''end_line'', JNum stop)]))) of
                    Inl e \<Rightarrow> Inl e
                  | Inr x \<Rightarrow> Inr (ok_result (JObj [(''path'', JStr (sq_Path i)), (''symbol'', JStr (sq_Symbol i)), (''kind'', JStr kind),
                               (''start_line'', JNum start), (''end_line'', JNum stop),
                               (''content'', field_any (decoded_fields (pr_Data x)) ''content'')]))))
              (locateSymbol h root w (sq_Path i) (sq_Symbol i))))"

text \<open>The file with the lines from \<open>start\<close> to \<open>stop\<close>, counted from 1, replaced by the body.\<close>

definition patched :: "string list \<Rightarrow> int \<Rightarrow> int \<Rightarrow> string \<Rightarrow> string" where
  "patched lines start stop body =
     join_with [newline] (take (nat (start - 1)) lines @ split_on newline (trim_suffix body [newline]) @ drop (nat stop) lines)"

definition write_patch :: "'x host_env \<Rightarrow> fpath \<Rightarrow> 'x host_world \<Rightarrow> patch_symbol_params \<Rightarrow> string \<Rightarrow> 'x host_world \<times> (go_error + prim_result)" where
  "write_patch e root w i newContent =
     (case FSWrite_Execute (he_host e) root w (json_encode (JObj [(''path'', JStr (pq_Path i)), (''content'', JStr newContent),
             (''mode'', JStr ''overwrite'')])) of
        (w', Inl er) \<Rightarrow> (w', Inl er)
      | (w', Inr x) \<Rightarrow>
          (let m = decoded_fields (pr_Data x)
           in (w', Inr (zero_prim_result\<lparr>pr_Data := JObj [(''path'', JStr (pq_Path i)), (''symbol'', JStr (pq_Symbol i)),
                          (''bytes_written'', field_any m ''bytes_written''), (''diff'', field_any m ''diff'')],
                        pr_Diff := pr_Diff x, pr_Duration := he_now_ms e w'\<rparr>))))"

definition patchSymbol :: "'x host_env \<Rightarrow> fpath \<Rightarrow> 'x host_world \<Rightarrow> raw \<Rightarrow> 'x outcome" where
  "patchSymbol e root w params =
     (case dec_patch_params params of
        Inl er \<Rightarrow> Some (w, Inl er)
      | Inr i \<Rightarrow>
          map_option (\<lambda>l. case l of
              Inl er \<Rightarrow> (w, Inl er)
            | Inr (start, stop, _) \<Rightarrow>
                (case snd (FSRead_Execute (he_host e) root w (json_encode (JObj [(''path'', JStr (pq_Path i))]))) of
                   Inl er \<Rightarrow> (w, Inl er)
                 | Inr x \<Rightarrow>
                     (let content = (case jget (decoded_fields (pr_Data x)) ''content'' of Some (JStr s) \<Rightarrow> s | _ \<Rightarrow> []);
                          lines = split_on newline content;
                          total = int (length lines)
                      in if start < 1 \<or> start > total then (w, Inl (symbol_missing (pq_Symbol i) (pq_Path i)))
                         else write_patch e root w i (patched lines start (if stop \<le> 0 \<or> stop > total then total else stop) (pq_Body i)))))
            (locateSymbol (he_host e) root w (pq_Path i) (pq_Symbol i)))"

definition repo_dispatch :: "'x host_env \<Rightarrow> fpath \<Rightarrow> 'x host_world \<Rightarrow> string \<Rightarrow> raw \<Rightarrow> 'x outcome" where
  "repo_dispatch e root w meth params =
     (if meth = ''repo.search'' then Some (CodeSearch_Execute e root w (remapSearchParams params))
      else if meth = ''repo.read_symbol'' then readSymbol (he_host e) root w params
      else if meth = ''repo.patch_symbol'' then patchSymbol e root w params
      else if meth = ''repo.run_tests''
      then VerifyTest_Execute e (NewShellExec root \<lparr>op_AllowedCommands = [], op_DefaultTimeout = 120\<rparr>) w params
      else Some (w, Inl (GoErr (''unknown repo method: '' @ meth))))"

definition repo_error :: "json \<Rightarrow> int \<Rightarrow> string \<Rightarrow> json" where
  "repo_error i code message =
     JObj [(''jsonrpc'', JStr ''2.0''), (''error'', JObj [(''code'', JNum code), (''message'', JStr message)]), (''id'', i)]"

text \<open>The body of the answer; a panic closes the connection without one.\<close>

definition repo_handleRPC :: "'x host_env \<Rightarrow> fpath \<Rightarrow> 'x host_world \<Rightarrow> raw \<Rightarrow> ('x host_world \<times> json) option" where
  "repo_handleRPC e root w body =
     (case dec_rpc_request body of
        Inl er \<Rightarrow> Some (w, repo_error JNull (- 32700) (error_text er))
      | Inr q \<Rightarrow>
          map_option (\<lambda>(w', r). (w', case r of
              Inl er \<Rightarrow> repo_error (jr_ID q) (- 32603) (error_text er)
            | Inr x \<Rightarrow> JObj [(''jsonrpc'', JStr ''2.0''), (''result'', result_json x), (''id'', jr_ID q)]))
            (repo_dispatch e root w (jr_Method q) (jr_Params q)))"

section \<open>Reading and patching a symbol\<close>

lemma split_on_join: "ls \<noteq> [] \<Longrightarrow> (\<And>l. l \<in> set ls \<Longrightarrow> c \<notin> set l) \<Longrightarrow> split_on c (join_with [c] ls) = ls"
proof (induction ls)
  case (Cons l ls)
  from Cons show ?case by (cases ls) (auto simp: join_with_Cons split_on_cut split_on_none)
qed simp

lemma newline_ascii [simp]: "ascii newline"
  by (simp add: newline_def)

lemma join_utf8: "go_utf8 (join_with [newline] ls) = join_with [newline] (map go_utf8 ls)"
proof (induction ls)
  case (Cons l ls)
  then show ?case using go_utf8_stop [OF newline_ascii, of l "join_with [newline] ls"] by (cases ls) (simp_all add: join_with_Cons)
qed (simp add: join_with_def)

lemma lines_utf8: "split_on newline (go_utf8 s) = map go_utf8 (split_on newline s)"
  by (rule split_on_utf8) simp

lemma trim_utf8: "utf8_valid s \<Longrightarrow> utf8_valid (trim_suffix s [newline])"
proof (cases s rule: rev_cases)
  case (snoc a c)
  then show "utf8_valid s \<Longrightarrow> utf8_valid (trim_suffix s [newline])"
    using go_utf8_stop [OF newline_ascii, of a "[]"] by (auto simp: trim_suffix_def has_suffix_def has_prefix_def)
qed (simp add: trim_suffix_def)

lemma symbol_fields [simp]:
  "start_line (json_utf8 (symbol_json s)) = Some (sy_StartLine s)"
  "jget (data_fields (json_utf8 (symbol_json s))) ''name'' = Some (JStr (go_utf8 (sy_Name s)))"
  "jget (data_fields (json_utf8 (symbol_json s))) ''kind'' = Some (JStr (go_utf8 (sy_Kind s)))"
  by (simp_all add: start_line_def data_fields_def symbol_json_def json_marshal_def jget_def)

abbreviation listed_name :: "symbol \<Rightarrow> string" where
  "listed_name s \<equiv> go_utf8 (sy_Name s)"

definition symbol_end :: "symbol list \<Rightarrow> int" where
  "symbol_end b = (case b of [] \<Rightarrow> 0 | t # _ \<Rightarrow> sy_StartLine t - 1)"

lemma find_symbol_listed:
  "find_symbol name (map (json_utf8 \<circ> symbol_json) syms) \<noteq> None"
  "find_symbol name (map (json_utf8 \<circ> symbol_json) syms) = Some (Some (start, stop, kind)) \<Longrightarrow>
   \<exists>a s b. syms = a @ s # b \<and> name \<notin> listed_name ` set a \<and> listed_name s = name \<and> start = sy_StartLine s \<and> stop = symbol_end b \<and>
     kind = go_utf8 (sy_Kind s)"
proof (induction syms)
  case (Cons s syms)
  {
    case 1
    from Cons show ?case by (auto simp: symbol_end_def split: list.splits)
  next
    case 2
    show ?case
    proof (cases "listed_name s = name")
      case True
      with 2 show ?thesis by (intro exI [of _ "[]"]) (auto simp: symbol_end_def split: list.splits)
    next
      case False
      with 2 Cons.IH(2) obtain a s' b where "syms = a @ s' # b" "name \<notin> listed_name ` set a" "listed_name s' = name"
        "start = sy_StartLine s'" "stop = symbol_end b" "kind = go_utf8 (sy_Kind s')" by auto
      with False show ?thesis by (intro exI [of _ "s # a"]) auto
    qed
  }
qed simp_all

lemma symbol_list: "(case jget (decoded_fields (JObj [(''symbols'', slice_json xs), (''language'', l), (''total'', n)])) ''symbols'' of
    Some (JArr ys) \<Rightarrow> ys | _ \<Rightarrow> []) = map json_utf8 xs"
  by (simp add: decoded_fields_obj jget_def slice_json_def)

text \<open>Locating a symbol: the file it is in, the outline of the file and the symbol in it, the first of its name.\<close>

lemma locateSymbol_cases:
  assumes "wf_fs (hw_fs w)" and "path_ok root" and "locateSymbol h root w path name = Some (Inr (start, stop, kind))"
  obtains q c lang syms a s b where "Resolve (hw_fs w) root (go_utf8 path) = Inr q" "os_ReadFile (ho_os h) (hw_fs w) q = Inr c"
    "map_of langPatterns (to_lower (path_ext q)) = Some lang" "outlines lang [] (split_on newline c) syms" "syms = a @ s # b"
    "name \<notin> listed_name ` set a" "listed_name s = name" "start = sy_StartLine s" "stop = symbol_end b" "kind = go_utf8 (sy_Kind s)"
proof -
  let ?r = "CodeSymbols_Execute h root w (json_encode (JObj [(''path'', JStr path)]))"
  from assms(3) obtain x where x: "snd ?r = Inr x"
    "find_symbol name (case jget (decoded_fields (pr_Data x)) ''symbols'' of Some (JArr xs) \<Rightarrow> xs | _ \<Rightarrow> []) = Some (Some (start, stop, kind))"
    by (auto simp: locateSymbol_def split: sum.splits option.splits)
  then have p: "go_utf8 path \<noteq> []" by (auto simp: CodeSymbols_Execute_def json_encode_def dec_path_only)
  with x obtain q where q: "Resolve (hw_fs w) root (go_utf8 path) = Inr q"
    by (auto simp: CodeSymbols_Execute_def json_encode_def dec_path_only split: sum.splits)
  with x p obtain c where c: "os_ReadFile (ho_os h) (hw_fs w) q = Inr c"
    by (auto simp: CodeSymbols_Execute_def json_encode_def dec_path_only split: sum.splits os_error.splits)
  obtain lang where lang: "map_of langPatterns (to_lower (path_ext q)) = Some lang"
  proof (cases "map_of langPatterns (to_lower (path_ext q))")
    case None
    with x(1) p q c have "jget (decoded_fields (pr_Data x)) ''symbols'' = Some (JArr [])"
      by (simp add: CodeSymbols_Execute_def json_encode_def dec_path_only) (auto simp: ok_result_def decoded_fields_obj jget_def)
    with x(2) show ?thesis by simp
  qed
  let ?syms = "file_symbols (lg_patterns lang) [] (split_on newline c)"
  from x(1) p q c lang have "pr_Data x = JObj [(''symbols'', slice_json (map symbol_json ?syms)), (''language'', JStr (lg_name lang)),
      (''total'', JNum (int (length ?syms)))]"
    by (simp add: CodeSymbols_Execute_def json_encode_def dec_path_only) (auto simp: ok_result_def Let_def)
  with x(2) have "find_symbol name (map (json_utf8 \<circ> symbol_json) ?syms) = Some (Some (start, stop, kind))" by (simp only: symbol_list map_map)
  from find_symbol_listed(2) [OF this] file_symbols_outlines [OF lang] q c lang that show ?thesis by blast
qed

lemma read_whole:
  assumes "Resolve (hw_fs w) root (go_utf8 path) = Inr q" and "os_ReadFile (ho_os h) (hw_fs w) q = Inr c"
  shows "\<exists>x. snd (FSRead_Execute h root w (json_encode (JObj [(''path'', JStr path)]))) = Inr x \<and>
    jget (decoded_fields (pr_Data x)) ''content'' = Some (JStr (go_utf8 c))"
proof -
  have "dec_fs_read (Raw (JObj [(''path'', JStr (go_utf8 path))])) = Inr \<lparr>frp_Path = go_utf8 path, frp_StartLine = 0, frp_EndLine = 0\<rparr>"
    by (simp add: dec_fs_read_def dec_bind_def field_string_def field_int_def jget_def)
  with assms show ?thesis
    by (auto simp: FSRead_Execute_def json_encode_def Let_def ok_result_def decoded_fields_obj jget_def)
qed

lemma write_patch_put:
  assumes "wf_fs (hw_fs w)" and "path_ok root" and "Resolve (hw_fs w) root (go_utf8 (pq_Path i)) = Inr q" and "write_patch e root w i new = (w', Inr x)"
  shows "fs_at (hw_fs w') p = (if p = q then Some (FFile (go_utf8 new)) else fs_at (hw_fs w) p)" and "hw_ext w' = hw_ext w"
proof -
  let ?js = "Raw (JObj [(''path'', JStr (go_utf8 (pq_Path i))), (''content'', JStr (go_utf8 new)), (''mode'', JStr ''overwrite'')])"
  have d: "dec_fs_write ?js = Inr \<lparr>fwp_Path = go_utf8 (pq_Path i), fwp_Content = go_utf8 new, fwp_Mode = ''overwrite'', fwp_Search = [],
      fwp_Replace = [], fwp_CreateDirs = False\<rparr>"
    by (simp add: dec_fs_write_def dec_bind_def field_string_def jget_def)
  obtain fs2 err where wr: "os_WriteFile (ho_os (he_host e)) (hw_fs w) q (go_utf8 new) = (fs2, err)" by fastforce
  note conf = Resolve_confined [OF assms(1-3)]
  from assms(4) obtain y where "FSWrite_Execute (he_host e) root w ?js = (w', Inr y)"
    by (auto simp: write_patch_def json_encode_def Let_def split: prod.splits sum.splits)
  with d wr assms(3) have "err = None" "hw_fs w' = fs2" "hw_ext w' = hw_ext w"
    by (auto simp: FSWrite_Execute_def Let_def new_content_def split: option.splits prod.splits)
  with WriteFile_confined [OF assms(1) _ _ wr] conf
  show "fs_at (hw_fs w') p = (if p = q then Some (FFile (go_utf8 new)) else fs_at (hw_fs w) p)" "hw_ext w' = hw_ext w" by (auto simp: fs_at_put)
qed

lemma patched_lines: "split_on newline (patched (split_on newline c) start stop body) =
  take (nat (start - 1)) (split_on newline c) @ split_on newline (trim_suffix body [newline]) @ drop (nat stop) (split_on newline c)"
  unfolding patched_def
  by (rule split_on_join) (auto dest!: in_set_takeD in_set_dropD split_on_no_sep)

lemma symbol_bounds:
  assumes "outlines lang kinds lines (a @ s # b)"
  shows "1 \<le> sy_StartLine s" and "sy_StartLine s \<le> int (length lines)"
    and "symbol_end b = 0 \<or> sy_StartLine s \<le> symbol_end b \<and> symbol_end b \<le> int (length lines)"
proof -
  have r: "1 \<le> sy_StartLine t \<and> sy_StartLine t \<le> int (length lines)" if "t \<in> set (a @ s # b)" for t
    using assms that unfolding outlines_def by fastforce
  then show "1 \<le> sy_StartLine s" "sy_StartLine s \<le> int (length lines)" by simp_all
  show "symbol_end b = 0 \<or> sy_StartLine s \<le> symbol_end b \<and> symbol_end b \<le> int (length lines)"
  proof (cases b)
    case (Cons t b')
    with assms have "sy_StartLine s < sy_StartLine t" by (simp add: outlines_def sorted_wrt_append)
    with r [of t] Cons show ?thesis by (simp add: symbol_end_def)
  qed (simp add: symbol_end_def)
qed

lemma lines_length [simp]: "length (split_on newline (go_utf8 c)) = length (split_on newline c)"
  by (simp add: lines_utf8)

lemma patchSymbol_writes:
  assumes "wf_fs (hw_fs w)" and "path_ok root" and "dec_patch_params params = Inr i" and "patchSymbol e root w params = Some (w', Inr x)"
  obtains q c lang a s b where "Resolve (hw_fs w) root (go_utf8 (pq_Path i)) = Inr q" "os_ReadFile (ho_os (he_host e)) (hw_fs w) q = Inr c"
    "outlines lang [] (split_on newline c) (a @ s # b)" "pq_Symbol i \<notin> listed_name ` set a" "listed_name s = pq_Symbol i"
    "locateSymbol (he_host e) root w (pq_Path i) (pq_Symbol i) = Some (Inr (sy_StartLine s, symbol_end b, go_utf8 (sy_Kind s)))"
    "write_patch e root w i (patched (split_on newline (go_utf8 c)) (sy_StartLine s)
       (if symbol_end b = 0 then int (length (split_on newline c)) else symbol_end b) (pq_Body i)) = (w', Inr x)"
proof -
  from assms(3,4) obtain start stop kind where l: "locateSymbol (he_host e) root w (pq_Path i) (pq_Symbol i) = Some (Inr (start, stop, kind))"
    by (cases "locateSymbol (he_host e) root w (pq_Path i) (pq_Symbol i)") (auto simp: patchSymbol_def split: sum.splits prod.splits)
  from assms(1,2) l obtain q c lang a s b where q: "Resolve (hw_fs w) root (go_utf8 (pq_Path i)) = Inr q"
    and c: "os_ReadFile (ho_os (he_host e)) (hw_fs w) q = Inr c" and o: "outlines lang [] (split_on newline c) (a @ s # b)"
    and s: "pq_Symbol i \<notin> listed_name ` set a" "listed_name s = pq_Symbol i" "start = sy_StartLine s" "stop = symbol_end b"
      "kind = go_utf8 (sy_Kind s)"
    by (rule locateSymbol_cases) blast
  from read_whole [OF q c] obtain y where "snd (FSRead_Execute (he_host e) root w (json_encode (JObj [(''path'', JStr (pq_Path i))]))) = Inr y"
    "jget (decoded_fields (pr_Data y)) ''content'' = Some (JStr (go_utf8 c))" by blast
  then have "write_patch e root w i (patched (split_on newline (go_utf8 c)) start (if stop = 0 then int (length (split_on newline c)) else stop)
      (pq_Body i)) = (w', Inr x)"
    using assms(3,4) l symbol_bounds [OF o] s(3,4) by (auto simp: patchSymbol_def Let_def split: if_splits)
  with that q c o s l show ?thesis by blast
qed

text \<open>
  C15. Patching a symbol replaces the lines of that symbol and nothing else. When \<open>repo.patch_symbol\<close> succeeds, one
  file under the workspace root has changed; the symbol is the first of its name in the outline of that file, and the
  new file has the lines before the symbol, the lines of the body without its final newline, and the lines
  from the next symbol of the outline on, with the bytes in them that are not UTF-8 replaced; so these lines are the old
  ones, byte by byte, when the old file and the body are UTF-8. Every other file, directory and link is as before.
\<close>

theorem repo_patch_symbol:
  assumes "wf_fs (hw_fs w)" and "path_ok root" and "dec_patch_params params = Inr i" and "patchSymbol e root w params = Some (w', Inr x)"
  shows "\<exists>q c c' lang a s b lines. Resolve (hw_fs w) root (go_utf8 (pq_Path i)) = Inr q \<and> prefix root q \<and> nolink (hw_fs w) q \<and>
    fs_at (hw_fs w) q = Some (FFile c) \<and>
    outlines lang [] (split_on newline c) (a @ s # b) \<and> listed_name s = pq_Symbol i \<and> pq_Symbol i \<notin> listed_name ` set a \<and>
    lines = take (nat (sy_StartLine s - 1)) (split_on newline c) @ split_on newline (trim_suffix (pq_Body i) [newline]) @
      (case b of [] \<Rightarrow> [] | t # _ \<Rightarrow> drop (nat (sy_StartLine t - 1)) (split_on newline c)) \<and>
    split_on newline c' = map go_utf8 lines \<and> (utf8_valid c \<and> utf8_valid (pq_Body i) \<longrightarrow> split_on newline c' = lines) \<and>
    (\<forall>p. fs_at (hw_fs w') p = (if p = q then Some (FFile c') else fs_at (hw_fs w) p)) \<and> hw_ext w' = hw_ext w"
proof -
  from assms obtain q c lang a s b where q: "Resolve (hw_fs w) root (go_utf8 (pq_Path i)) = Inr q"
    and c: "os_ReadFile (ho_os (he_host e)) (hw_fs w) q = Inr c" and o: "outlines lang [] (split_on newline c) (a @ s # b)"
    and s: "pq_Symbol i \<notin> listed_name ` set a" "listed_name s = pq_Symbol i"
    and w: "write_patch e root w i (patched (split_on newline (go_utf8 c)) (sy_StartLine s)
       (if symbol_end b = 0 then int (length (split_on newline c)) else symbol_end b) (pq_Body i)) = (w', Inr x)"
    by (rule patchSymbol_writes)
  let ?ls = "split_on newline c" and ?body = "split_on newline (trim_suffix (pq_Body i) [newline])"
  let ?stop = "if symbol_end b = 0 then int (length ?ls) else symbol_end b"
  let ?new = "go_utf8 (patched (split_on newline (go_utf8 c)) (sy_StartLine s) ?stop (pq_Body i))"
  let ?lines = "take (nat (sy_StartLine s - 1)) ?ls @ ?body @ drop (nat ?stop) ?ls"
  have d: "drop (nat ?stop) ?ls = (case b of [] \<Rightarrow> [] | t # _ \<Rightarrow> drop (nat (sy_StartLine t - 1)) ?ls)"
    using o by (cases b) (auto simp: symbol_end_def outlines_def sorted_wrt_append)
  have new: "split_on newline ?new = map go_utf8 ?lines"
    by (simp only: lines_utf8 [of "patched x y z v" for x y z v] patched_lines) (simp add: lines_utf8 take_map drop_map comp_def)
  have "split_on newline ?new = ?lines" if "utf8_valid c" "utf8_valid (pq_Body i)"
    unfolding new using lines_utf8 [of c] lines_utf8 [of "trim_suffix (pq_Body i) [newline]"] that trim_utf8 [OF that(2)]
    by (simp add: take_map [symmetric] drop_map [symmetric])
  then have "utf8_valid c \<and> utf8_valid (pq_Body i) \<longrightarrow> split_on newline ?new = ?lines" by blast
  moreover have "prefix root q" "nolink (hw_fs w) q" using Resolve_confined [OF assms(1,2) q] by simp_all
  moreover from this have "fs_at (hw_fs w) q = Some (FFile c)" using ReadFile_confined [OF _ _ c] q Resolve_confined [OF assms(1,2) q] by simp
  moreover have "\<forall>p. fs_at (hw_fs w') p = (if p = q then Some (FFile ?new) else fs_at (hw_fs w) p)" "hw_ext w' = hw_ext w"
    using write_patch_put [OF assms(1,2) q w] by simp_all
  ultimately show ?thesis using q o s new
    by - (rule exI [of _ q], rule exI [of _ c], rule exI [of _ ?new], rule exI [of _ lang], rule exI [of _ a], rule exI [of _ s],
      rule exI [of _ b], rule exI [of _ ?lines], simp only: d simp_thms)
qed

text \<open>Reading a symbol returns the same lines, as UTF-8.\<close>

lemma read_range:
  assumes "Resolve (hw_fs w) root (go_utf8 path) = Inr q" and "os_ReadFile (ho_os h) (hw_fs w) q = Inr c"
    and "1 \<le> start" "start \<le> int (length (split_on newline c))" "stop = 0 \<or> start \<le> stop \<and> stop \<le> int (length (split_on newline c))"
    and "snd (FSRead_Execute h root w (json_encode (JObj [(''path'', JStr path), (''start_line'', JNum start), (''end_line'', JNum stop)]))) = Inr x"
  shows "jget (decoded_fields (pr_Data x)) ''content'' = Some (JStr (join_with [newline]
      (take (nat (if stop = 0 then int (length (split_on newline c)) else stop) - nat (start - 1))
        (drop (nat (start - 1)) (split_on newline (go_utf8 c))))))"
proof -
  let ?ls = "split_on newline c"
  let ?stop = "if stop = 0 then int (length ?ls) else stop"
  let ?js = "Raw (JObj [(''path'', JStr (go_utf8 path)), (''start_line'', JNum start), (''end_line'', JNum stop)])"
  from assms(6) have "dec_fs_read ?js = Inr \<lparr>frp_Path = go_utf8 path, frp_StartLine = start, frp_EndLine = stop\<rparr>"
    by (cases "dec_fs_read ?js")
      (auto simp: FSRead_Execute_def json_encode_def dec_fs_read_def dec_bind_def field_string_def field_int_def jget_def split: if_splits)
  moreover have "line_range (if c = [] then [] else ?ls) start stop =
      Inr (join_with [newline] (take (nat ?stop - nat (start - 1)) (drop (nat (start - 1)) ?ls)))"
    using assms(3-5) by (cases "c = []") (auto simp: line_range_def Let_def join_with_Cons nat_diff_distrib')
  ultimately show ?thesis using assms(1-3,6)
    by (auto simp: FSRead_Execute_def json_encode_def Let_def ok_result_def decoded_fields_obj jget_def join_utf8 lines_utf8 take_map drop_map)
qed

text \<open>
  C18. Patching a symbol with what was read of it changes nothing, unless the text read ends in an empty line:
  the patch drops the final newline of the body and with it that line, which is the blank line before the next symbol.
  Exactly, the file is written back as UTF-8, so it is the same when it was UTF-8, and no other file,
  directory or link changes.
\<close>

theorem repo_read_then_patch:
  assumes "wf_fs (hw_fs w)" and "path_ok root" and "dec_symbol_params p1 = Inr \<lparr>sq_Path = path, sq_Symbol = name\<rparr>"
    and "readSymbol (he_host e) root w p1 = Some (w1, Inr x)" and "jget (data_fields (pr_Data x)) ''content'' = Some (JStr body)"
    and "dec_patch_params p2 = Inr \<lparr>pq_Path = path, pq_Symbol = name, pq_Body = body\<rparr>" and "\<not> has_suffix body [newline]"
    and "patchSymbol e root w1 p2 = Some (w2, Inr y)"
  shows "w1 = w \<and> (\<exists>q c. Resolve (hw_fs w) root (go_utf8 path) = Inr q \<and> fs_at (hw_fs w) q = Some (FFile c) \<and>
    (\<forall>p. fs_at (hw_fs w2) p = (if p = q then Some (FFile (go_utf8 c)) else fs_at (hw_fs w) p)) \<and>
    (utf8_valid c \<longrightarrow> (\<forall>p. fs_at (hw_fs w2) p = fs_at (hw_fs w) p)))"
proof -
  have w1: "w1 = w" using assms(3,4) by (auto simp: readSymbol_def)
  note patch = patchSymbol_writes [OF assms(1,2,6) assms(8) [unfolded w1], simplified patch_symbol_params.simps]
  obtain q c lang a s b where q: "Resolve (hw_fs w) root (go_utf8 path) = Inr q"
    and c: "os_ReadFile (ho_os (he_host e)) (hw_fs w) q = Inr c" and o: "outlines lang [] (split_on newline c) (a @ s # b)"
    and l: "locateSymbol (he_host e) root w path name = Some (Inr (sy_StartLine s, symbol_end b, go_utf8 (sy_Kind s)))"
    and w: "write_patch e root w \<lparr>pq_Path = path, pq_Symbol = name, pq_Body = body\<rparr> (patched (split_on newline (go_utf8 c)) (sy_StartLine s)
       (if symbol_end b = 0 then int (length (split_on newline c)) else symbol_end b) body) = (w2, Inr y)"
    by (rule patch) (rule that; assumption)
  let ?lines = "split_on newline (go_utf8 c)"
  let ?stop = "if symbol_end b = 0 then int (length (split_on newline c)) else symbol_end b"
  let ?k = "nat (sy_StartLine s - 1)"
  let ?mid = "take (nat ?stop - ?k) (drop ?k ?lines)"
  note bounds = symbol_bounds [OF o]
  from assms(3-5) l obtain z where "snd (FSRead_Execute (he_host e) root w (json_encode (JObj [(''path'', JStr path),
      (''start_line'', JNum (sy_StartLine s)), (''end_line'', JNum (symbol_end b))]))) = Inr z"
      "JStr body = field_any (decoded_fields (pr_Data z)) ''content''"
    by (auto simp: readSymbol_def ok_result_def data_fields_def jget_def json_marshal_def split: sum.splits)
  with read_range [OF q c bounds] have body: "body = join_with [newline] ?mid" by (simp add: field_any_def)
  have le: "?k < nat ?stop" "?k < length ?lines" using bounds by (auto split: if_splits)
  then have "split_on newline body = ?mid" unfolding body by (intro split_on_join) (auto dest!: in_set_takeD in_set_dropD split_on_no_sep)
  moreover have "take ?k ?lines @ ?mid @ drop (nat ?stop) ?lines = ?lines"
    using le by (metis append_take_drop_id append.assoc add_diff_inverse_nat less_imp_le not_less take_add)
  ultimately have "patched ?lines (sy_StartLine s) ?stop body = go_utf8 c" using assms(7) by (simp add: patched_def trim_suffix_def)
  with w have "write_patch e root w \<lparr>pq_Path = path, pq_Symbol = name, pq_Body = body\<rparr> (go_utf8 c) = (w2, Inr y)" by (simp only:)
  from write_patch_put(1) [OF assms(1,2) _ this] q Resolve_confined [OF assms(1,2) q] ReadFile_confined [OF _ _ c] w1
  show ?thesis by (intro conjI exI [of _ q] exI [of _ c]) simp_all
qed

section \<open>Witnesses\<close>

lemma ok_outcome: "(case r of Some (w, Inr x) \<Rightarrow> P w x | _ \<Rightarrow> False) \<Longrightarrow> \<exists>w x. r = Some (w, Inr x) \<and> P w x"
  by (cases r; cases "snd (the r)") auto

definition patch_params :: "string \<Rightarrow> raw" where
  "patch_params body = Raw (JObj [(''path'', JStr ''a.py''), (''symbol'', JStr ''f''), (''body'', JStr body)])"

theorem repo_patch_symbol_witness:
  "\<exists>w' x c'. patchSymbol code_env [''w''] code_world (patch_params (''def f(): pass'' @ [newline])) = Some (w', Inr x) \<and>
     fs_at (hw_fs w') [''w'', ''a.py''] = Some (FFile c') \<and> split_on newline c' = [''def f(): pass'', ''def g():'', ''  pass'']"
proof -
  let ?r = "patchSymbol code_env [''w''] code_world (patch_params (''def f(): pass'' @ [newline]))"
  let ?i = "\<lparr>pq_Path = ''a.py'', pq_Symbol = ''f'', pq_Body = ''def f(): pass'' @ [newline]\<rparr>"
  have v: "case ?r of Some (w', Inr x) \<Rightarrow> fs_at (hw_fs w') [''w'', ''a.py''] = Some (FFile (''def f(): pass'' @ newline # ''def g():'' @ newline # ''  pass'')) | _ \<Rightarrow> False"
    by code_simp
  from ok_outcome [OF v] obtain w' x where r: "?r = Some (w', Inr x)" by blast
  have d: "dec_patch_params (patch_params (''def f(): pass'' @ [newline])) = Inr ?i" by code_simp
  have q: "Resolve (hw_fs code_world) [''w''] ''a.py'' = Inr [''w'', ''a.py'']" by code_simp
  from repo_patch_symbol [OF code_world_wf d r] q obtain c' where "fs_at (hw_fs w') [''w'', ''a.py''] = Some (FFile c')" by auto
  with v r show ?thesis by (auto simp: newline_def)
qed

theorem repo_read_then_patch_witness:
  "\<exists>x w2 y body. readSymbol (he_host code_env) [''w''] code_world (Raw (JObj [(''path'', JStr ''a.py''), (''symbol'', JStr ''f'')])) = Some (code_world, Inr x) \<and>
     body = ''def f(x):'' @ newline # ''  return x'' \<and>
     patchSymbol code_env [''w''] code_world (patch_params body) = Some (w2, Inr y) \<and> (\<forall>p. fs_at (hw_fs w2) p = fs_at (hw_fs code_world) p)"
proof -
  let ?b = "''def f(x):'' @ newline # ''  return x''" and ?p1 = "Raw (JObj [(''path'', JStr ''a.py''), (''symbol'', JStr ''f'')])"
  let ?r1 = "readSymbol (he_host code_env) [''w''] code_world ?p1" and ?r2 = "patchSymbol code_env [''w''] code_world (patch_params ?b)"
  have v: "case ?r1 of Some (w', Inr x) \<Rightarrow> jget (data_fields (pr_Data x)) ''content'' = Some (JStr ?b) | _ \<Rightarrow> False"
    "case ?r2 of Some (w', Inr x) \<Rightarrow> True | _ \<Rightarrow> False" by code_simp+
  from ok_outcome [OF v(1)] ok_outcome [OF v(2)] obtain w1 x w2 y where r: "?r1 = Some (w1, Inr x)" "?r2 = Some (w2, Inr y)" by blast
  have d: "dec_symbol_params ?p1 = Inr \<lparr>sq_Path = ''a.py'', sq_Symbol = ''f''\<rparr>"
    "dec_patch_params (patch_params ?b) = Inr \<lparr>pq_Path = ''a.py'', pq_Symbol = ''f'', pq_Body = ?b\<rparr>" "\<not> has_suffix ?b [newline]" by code_simp+
  have w1: "w1 = code_world" using r(1) by (auto simp: readSymbol_def split: sum.splits)
  have "jget (data_fields (pr_Data x)) ''content'' = Some (JStr ?b)" using v(1) r(1) by simp
  from repo_read_then_patch [OF code_world_wf d(1) r(1) this d(2,3)] r(2) w1
  obtain q c where q: "Resolve (hw_fs code_world) [''w''] (go_utf8 ''a.py'') = Inr q" "fs_at (hw_fs code_world) q = Some (FFile c)"
    "utf8_valid c \<longrightarrow> (\<forall>p. fs_at (hw_fs w2) p = fs_at (hw_fs code_world) p)" by auto
  have "case Resolve (hw_fs code_world) [''w''] (go_utf8 ''a.py'') of Inr q \<Rightarrow>
    (case fs_at (hw_fs code_world) q of Some (FFile c) \<Rightarrow> utf8_valid c | _ \<Rightarrow> False) | _ \<Rightarrow> False" by code_simp
  with q have "\<forall>p. fs_at (hw_fs w2) p = fs_at (hw_fs code_world) p" by simp
  with r w1 show ?thesis by simp
qed

text \<open>A blank line at the end of a symbol is lost when what was read of it is written back.\<close>

theorem blank_line_lost:
  "split_on newline (patched [''def f():'', [], ''def g():''] 1 2 (join_with [newline] [''def f():'', []])) = [''def f():'', ''def g():'']"
  by code_simp

end
