(* ===== verification/OsAdapter.thy ===== *)
theory OsAdapter
  imports Router CodePrims "HOL-Library.Word"
begin

text \<open>
  The adapter of the operating system, \<open>cmd/pb-os-adapter/main.go\<close>: the registry of the processes it has started, the
  \<open>process.\<close>, \<open>service.\<close> and \<open>pkg.\<close> primitives it serves on its socket, the manifests it registers, and the step
  relation of the adapter at work, whose goroutines interleave. Starting, signalling and running programs, the
  environment, the clock and the format of times are parameters. Process identifiers come from a 64-bit counter that wraps.
  A wait holds the identifier of its process where the code holds a pointer; the two agree until the counter wraps.
\<close>

section \<open>Processes\<close>

datatype proc_signal = SIGTERM | SIGKILL | OtherSignal string

definition signalName :: "proc_signal \<Rightarrow> string" where
  "signalName s = (case s of SIGTERM \<Rightarrow> ''SIGTERM'' | SIGKILL \<Rightarrow> ''SIGKILL'' | OtherSignal t \<Rightarrow> t)"

record process_record =
  px_processID :: string
  px_pid :: int
  px_command :: "string list"
  px_workingDir :: string
  px_startedAt :: int
  px_state :: string
  px_exitCode :: "int option"
  px_signal :: string
  px_exitedAt :: "int option"
  px_done :: bool

record process_registry =
  pg_counter :: "64 word"
  pg_processes :: "(string \<times> process_record) list"

datatype signal_outcome = SignalSent | SignalDone | SignalFailed go_error

datatype wait_status = ExitOK | ExitStatus int "proc_signal option" | WaitFailed

text \<open>
  The operating system: starting a program, signalling a process, running a program to its end with its combined
  output, the environment, the clock, the text of a time, and whether it is Linux.
\<close>

record 'w os_host =
  oo_start :: "'w \<Rightarrow> string list \<Rightarrow> string \<Rightarrow> string list option \<Rightarrow> 'w \<times> (go_error + int)"
  oo_signal :: "'w \<Rightarrow> int \<Rightarrow> proc_signal \<Rightarrow> 'w \<times> signal_outcome"
  oo_run :: "'w \<Rightarrow> string list \<Rightarrow> 'w \<times> go_error option \<times> string"
  oo_environ :: "string list"
  oo_now :: "'w \<Rightarrow> int"
  oo_format :: "int \<Rightarrow> string"
  oo_linux :: bool

definition newProcessRegistry :: process_registry where
  "newProcessRegistry = \<lparr>pg_counter = 0, pg_processes = []\<rparr>"

definition env_entry :: "string \<Rightarrow> (string \<times> string) option" where
  "env_entry item = map_option (\<lambda>k. (take k item, drop (Suc k) item)) (index_byte item (CHR ''=''))"

definition mergeEnv :: "string list \<Rightarrow> (string \<times> string) list \<Rightarrow> string list" where
  "mergeEnv base overrides =
     (if overrides = [] then base
      else
        (let values = fold (\<lambda>(k, v) m. AList.update k v m) (List.map_filter env_entry base @ overrides) []
         in map (\<lambda>k. k @ ''='' @ the (map_of values k)) (sort (map fst values))))"

definition process_id :: "64 word \<Rightarrow> string" where
  "process_id n = ''proc-'' @ nat_digits (unat n)"

definition nextProcessID :: "process_registry \<Rightarrow> process_registry \<times> string" where
  "nextProcessID r = (r\<lparr>pg_counter := pg_counter r + 1\<rparr>, process_id (pg_counter r + 1))"

definition spawn_process ::
  "'w os_host \<Rightarrow> process_registry \<Rightarrow> 'w \<Rightarrow> string list \<Rightarrow> string \<Rightarrow> (string \<times> string) list \<Rightarrow> process_registry \<times> 'w \<times> (go_error + process_record)" where
  "spawn_process h r w command cwd env =
     (if command = [] then (r, w, Inl (GoErr ''command is required''))
      else if trim_space (hd command) = [] then (r, w, Inl (GoErr ''command[0] is required''))
      else
        (case oo_start h w command (trim_space cwd) (if env \<noteq> [] then Some (mergeEnv (oo_environ h) env) else None) of
           (w', Inl e) \<Rightarrow> (r, w', Inl e)
         | (w', Inr pid) \<Rightarrow>
             (let (r1, i) = nextProcessID r;
                  record = \<lparr>px_processID = i, px_pid = pid, px_command = command, px_workingDir = trim_space cwd,
                    px_startedAt = oo_now h w', px_state = ''running'', px_exitCode = None, px_signal = [], px_exitedAt = None, px_done = False\<rparr>
              in (r1\<lparr>pg_processes := AList.update i record (pg_processes r1)\<rparr>, w', Inr record))))"

text \<open>What the goroutine of a process does once the process has ended.\<close>

definition reaped :: "int \<Rightarrow> wait_status \<Rightarrow> process_record \<Rightarrow> process_record" where
  "reaped now s p =
     p\<lparr>px_state := ''exited'', px_exitedAt := Some now,
       px_exitCode := Some (case s of ExitOK \<Rightarrow> 0 | ExitStatus c _ \<Rightarrow> c | WaitFailed \<Rightarrow> - 1),
       px_signal := (case s of ExitStatus _ (Some g) \<Rightarrow> signalName g | _ \<Rightarrow> []), px_done := True\<rparr>"

definition get_process :: "process_registry \<Rightarrow> string \<Rightarrow> process_record option" where
  "get_process r i = map_of (pg_processes r) i"

definition isRunning :: "process_record \<Rightarrow> bool" where
  "isRunning p \<longleftrightarrow> px_state p = ''running''"

record process_summary =
  pu_ProcessID :: string
  pu_PID :: int
  pu_Command :: "string list"
  pu_StartedAt :: string
  pu_State :: string
  pu_ExitCode :: "int option"
  pu_Signal :: string
  pu_ExitedAt :: "string option"

definition process_summary_of :: "'w os_host \<Rightarrow> process_record \<Rightarrow> process_summary" where
  "process_summary_of h p =
     \<lparr>pu_ProcessID = px_processID p, pu_PID = px_pid p, pu_Command = px_command p, pu_StartedAt = oo_format h (px_startedAt p),
      pu_State = px_state p, pu_ExitCode = px_exitCode p, pu_Signal = px_signal p, pu_ExitedAt = map_option (oo_format h) (px_exitedAt p)\<rparr>"

definition summary_before :: "process_summary \<Rightarrow> process_summary \<Rightarrow> bool" where
  "summary_before a b =
     (if pu_StartedAt a = pu_StartedAt b then pu_ProcessID a < pu_ProcessID b else pu_StartedAt a < pu_StartedAt b)"

fun insert_summary :: "process_summary \<Rightarrow> process_summary list \<Rightarrow> process_summary list" where
  "insert_summary a [] = [a]"
| "insert_summary a (b # bs) = (if summary_before b a then b # insert_summary a bs else a # b # bs)"

definition list_processes :: "'w os_host \<Rightarrow> process_registry \<Rightarrow> process_summary list" where
  "list_processes h r = foldr insert_summary (map (process_summary_of h \<circ> snd) (pg_processes r)) []"

definition strings_json :: "string list \<Rightarrow> json" where
  "strings_json xs = slice_json (map JStr xs)"

definition process_summary_json :: "process_summary \<Rightarrow> json" where
  "process_summary_json s = JObj ([(''process_id'', JStr (pu_ProcessID s)), (''pid'', JNum (pu_PID s)), (''command'', strings_json (pu_Command s)),
     (''started_at'', JStr (pu_StartedAt s)), (''state'', JStr (pu_State s)), (''exit_code'', case pu_ExitCode s of None \<Rightarrow> JNull | Some c \<Rightarrow> JNum c)] @
     opt_text ''signal'' (pu_Signal s) @ (case pu_ExitedAt s of None \<Rightarrow> [] | Some t \<Rightarrow> [(''exited_at'', JStr t)]))"

definition waitResult :: "'w os_host \<Rightarrow> bool \<Rightarrow> process_record \<Rightarrow> json" where
  "waitResult h timedOut p =
     JObj ([(''process_id'', JStr (px_processID p)), (''pid'', JNum (px_pid p)), (''exited'', JBool (px_state p = ''exited'')),
       (''running'', JBool (px_state p = ''running'')), (''timed_out'', JBool timedOut), (''started_at'', JStr (oo_format h (px_startedAt p)))] @
       (case px_exitCode p of None \<Rightarrow> [] | Some c \<Rightarrow> [(''exit_code'', JNum c)]) @
       (if px_signal p \<noteq> [] then [(''signal'', JStr (px_signal p))] else []) @
       (case px_exitedAt p of None \<Rightarrow> [] | Some t \<Rightarrow> [(''exited_at'', JStr (oo_format h t))]))"

definition sendSignal :: "'w os_host \<Rightarrow> 'w \<Rightarrow> process_record \<Rightarrow> proc_signal \<Rightarrow> 'w \<times> (go_error + bool)" where
  "sendSignal h w p sig =
     (if \<not> isRunning p then (w, Inr False)
      else case oo_signal h w (px_pid p) sig of
             (w', SignalSent) \<Rightarrow> (w', Inr True)
           | (w', SignalDone) \<Rightarrow> (w', Inr False)
           | (w', SignalFailed e) \<Rightarrow> (w', Inl e))"

section \<open>Requests\<close>

record app_rpc_error =
  xe_Code :: int
  xe_Message :: string

type_synonym app_result = "app_rpc_error + json"

definition invalidParams :: "string \<Rightarrow> app_rpc_error" where
  "invalidParams m = \<lparr>xe_Code = - 32602, xe_Message = m\<rparr>"

definition internalErr :: "string \<Rightarrow> app_rpc_error" where
  "internalErr m = \<lparr>xe_Code = - 32603, xe_Message = m\<rparr>"

definition dec_process_id :: "raw \<Rightarrow> string decoded" where
  "dec_process_id r = dec_bind (dec_map r) (\<lambda>m. field_string m ''process_id'')"

definition handleSignalPrimitive ::
  "'w os_host \<Rightarrow> process_registry \<Rightarrow> 'w \<Rightarrow> raw \<Rightarrow> proc_signal \<Rightarrow> string \<Rightarrow> 'w \<times> app_result" where
  "handleSignalPrimitive h r w raw sig resultKey =
     (case dec_process_id raw of
        Inl _ \<Rightarrow> (w, Inl (invalidParams ''process_id is required''))
      | Inr i0 \<Rightarrow>
          (let i = trim_space i0
           in if i = [] then (w, Inl (invalidParams ''process_id is required''))
              else case get_process r i of
                     None \<Rightarrow> (w, Inl (invalidParams (''unknown process_id: '' @ i)))
                   | Some p \<Rightarrow>
                       (case sendSignal h w p sig of
                          (w', Inl e) \<Rightarrow> (w', Inl (internalErr (error_text e)))
                        | (w', Inr sent) \<Rightarrow>
                            (w', Inr (JObj [(''process_id'', JStr (px_processID p)), (''pid'', JNum (px_pid p)), (''already_exited'', JBool (\<not> sent)),
                              (''signal_sent'', JStr (if sent then signalName sig else [])), (resultKey, JBool sent)])))))"

text \<open>Timeouts in nanoseconds; a JSON number is an integer here.\<close>

definition normalizeTimeout :: "int \<Rightarrow> go_error + int" where
  "normalizeTimeout v =
     (if v < 0 then Inl (GoErr ''timeout_s must be >= 0'')
      else if v = 0 then Inr 0
      else if v > 30 then Inl (GoErr ''timeout_s must be <= 30'')
      else Inr (v * 1000000000))"

text \<open>A request is answered at once or waits for the end of a process, with a timer or without.\<close>

datatype request_outcome = Answered app_result | Blocked string "int option"

definition dec_wait :: "raw \<Rightarrow> (string \<times> int) decoded" where
  "dec_wait r = dec_bind (dec_map r) (\<lambda>m. dec_bind (field_string m ''process_id'') (\<lambda>i. dec_bind (field_int m ''timeout_s'') (\<lambda>t. Inr (i, t))))"

definition process_wait :: "'w os_host \<Rightarrow> process_registry \<Rightarrow> raw \<Rightarrow> request_outcome" where
  "process_wait h r raw =
     (case dec_wait raw of
        Inl _ \<Rightarrow> Answered (Inl (invalidParams ''process_id is required''))
      | Inr (i0, t) \<Rightarrow>
          (let i = trim_space i0
           in if i = [] then Answered (Inl (invalidParams ''process_id is required''))
              else case get_process r i of
                     None \<Rightarrow> Answered (Inl (invalidParams (''unknown process_id: '' @ i)))
                   | Some p \<Rightarrow>
                       (if \<not> isRunning p then Answered (Inr (waitResult h False p))
                        else case normalizeTimeout t of
                               Inl e \<Rightarrow> Answered (Inl (invalidParams (error_text e)))
                             | Inr d \<Rightarrow> Blocked i (if d = 0 then None else Some d))))"

definition dec_spawn :: "raw \<Rightarrow> (string list \<times> string \<times> (string \<times> string) list) decoded" where
  "dec_spawn r =
     dec_bind (dec_map r) (\<lambda>m.
     dec_bind (field_strings m ''command'') (\<lambda>c.
     dec_bind (field_string m ''cwd'') (\<lambda>d.
     dec_bind (dec_string_map m ''env'') (\<lambda>e. Inr (c, d, e)))))"

definition process_spawn :: "'w os_host \<Rightarrow> process_registry \<Rightarrow> 'w \<Rightarrow> raw \<Rightarrow> process_registry \<times> 'w \<times> app_result" where
  "process_spawn h r w raw =
     (case dec_spawn raw of
        Inl _ \<Rightarrow> (r, w, Inl (invalidParams ''command is required''))
      | Inr (command, cwd, env) \<Rightarrow>
          (case spawn_process h r w command cwd env of
             (r', w', Inl e) \<Rightarrow> (r', w', Inl (invalidParams (error_text e)))
           | (r', w', Inr p) \<Rightarrow>
               (r', w', Inr (JObj [(''process_id'', JStr (px_processID p)), (''pid'', JNum (px_pid p)), (''command'', strings_json (px_command p)),
                  (''started_at'', JStr (oo_format h (px_startedAt p)))]))))"

definition no_params :: "string \<Rightarrow> raw \<Rightarrow> app_rpc_error option" where
  "no_params meth raw0 =
     (let raw = (if raw_len0 raw0 then Raw (JObj []) else raw0)
      in case dec_map raw of
           Inl _ \<Rightarrow> Some (invalidParams ''invalid request'')
         | Inr m \<Rightarrow> (if m \<noteq> [] then Some (invalidParams (meth @ '' accepts no parameters'')) else None))"

section \<open>Services and packages\<close>

definition status_json :: "string \<Rightarrow> bool \<Rightarrow> string \<Rightarrow> string \<Rightarrow> json" where
  "status_json name running status out =
     JObj [(''name'', JStr name), (''passed'', JBool running), (''running'', JBool running), (''status'', JStr status), (''output'', JStr (trim_space out))]"

fun brew_status :: "string \<Rightarrow> string list \<Rightarrow> string option" where
  "brew_status name [] = None"
| "brew_status name (l # ls) =
     (case go_fields l of f # s # _ \<Rightarrow> (if f = name then Some s else brew_status name ls) | _ \<Rightarrow> brew_status name ls)"

definition handleServiceStatus :: "'w os_host \<Rightarrow> 'w \<Rightarrow> string \<Rightarrow> 'w \<times> bool \<times> json" where
  "handleServiceStatus h w name =
     (if oo_linux h then
        (let (w', err, out) = oo_run h w [''systemctl'', ''is-active'', ''--quiet'', name]; running = (err = None)
         in (w', running, status_json name running (if running then ''active'' else ''stopped'') out))
      else
        (let (w', err, out) = oo_run h w [''brew'', ''services'', ''list''];
             found = (if err = None then brew_status name (split_on newline out) else None);
             running = (found = Some ''started'')
         in (w', running, status_json name running (case found of None \<Rightarrow> ''stopped'' | Some s \<Rightarrow> s) out)))"

definition service_command :: "'w os_host \<Rightarrow> string \<Rightarrow> string \<Rightarrow> string list" where
  "service_command h action name = (if oo_linux h then [''systemctl'', action, name] else [''brew'', ''services'', action, name])"

definition handleServiceAction :: "'w os_host \<Rightarrow> 'w \<Rightarrow> string \<Rightarrow> string \<Rightarrow> 'w \<times> json" where
  "handleServiceAction h w name action =
     (let (w', err, out) = oo_run h w (service_command h action name);
          resultKey = (if action = ''start'' then ''started'' else if action = ''stop'' then ''stopped'' else action @ ''ed'')
      in (w', JObj [(''name'', JStr name), (resultKey, JBool (err = None)), (''output'', JStr (trim_space out))]))"

definition handleServiceRestart :: "'w os_host \<Rightarrow> 'w \<Rightarrow> string \<Rightarrow> 'w \<times> json" where
  "handleServiceRestart h w name =
     (let (w1, _, stopOut) = oo_run h w (service_command h ''stop'' name);
          (w2, startErr, startOut) = oo_run h w1 (service_command h ''start'' name);
          (w3, running, _) = handleServiceStatus h w2 name
      in (w3, JObj [(''name'', JStr name), (''restarted'', JBool (startErr = None)), (''running'', JBool running),
           (''output'', JStr (trim_space (trim_space stopOut @ newline # trim_space startOut)))]))"

definition package_lines :: "bool \<Rightarrow> string \<Rightarrow> string list" where
  "package_lines linux out =
     List.map_filter (\<lambda>l0. let l = trim_space l0
        in if l = [] then None
           else if linux then (case go_fields l of f # s # _ \<Rightarrow> (if s = ''install'' then Some f else None) | _ \<Rightarrow> None)
           else Some l) (split_on newline (trim_space out))"

definition handlePkgList :: "'w os_host \<Rightarrow> 'w \<Rightarrow> 'w \<times> app_result" where
  "handlePkgList h w =
     (let (w', err, out) = oo_run h w (if oo_linux h then [''dpkg'', ''--get-selections''] else [''brew'', ''list'', ''--formula''])
      in case err of
           Some e \<Rightarrow> (w', Inl (internalErr (''pkg.list failed: '' @ error_text e)))
         | None \<Rightarrow> (w', Inr (JObj [(''packages'', JArr (map JStr (package_lines (oo_linux h) out)))])))"

definition handlePkgInstall :: "'w os_host \<Rightarrow> 'w \<Rightarrow> string \<Rightarrow> 'w \<times> json" where
  "handlePkgInstall h w name =
     (let (w', err, out) = oo_run h w (if oo_linux h then [''apt-get'', ''install'', ''-y'', name] else [''brew'', ''install'', name])
      in (w', JObj [(''name'', JStr name), (''installed'', JBool (err = None)), (''output'', JStr (trim_space out))]))"

definition handlePkgRemove :: "'w os_host \<Rightarrow> 'w \<Rightarrow> string \<Rightarrow> 'w \<times> json" where
  "handlePkgRemove h w name =
     (let (w', err, out) = oo_run h w (if oo_linux h then [''apt-get'', ''remove'', ''-y'', name] else [''brew'', ''uninstall'', name])
      in (w', JObj [(''name'', JStr name), (''removed'', JBool (err = None)), (''output'', JStr (trim_space out))]))"

definition handlePkgVerify :: "'w os_host \<Rightarrow> 'w \<Rightarrow> string \<Rightarrow> 'w \<times> json" where
  "handlePkgVerify h w name =
     (let (w', err, out) = oo_run h w (if oo_linux h then [''dpkg'', ''--verify'', name] else [''brew'', ''list'', name])
      in (w', JObj [(''name'', JStr name), (''passed'', JBool (err = None)), (''verified'', JBool (err = None)), (''output'', JStr (trim_space out))]))"

definition with_name :: "'w \<Rightarrow> raw \<Rightarrow> (string \<Rightarrow> 'w \<times> json) \<Rightarrow> 'w \<times> app_result" where
  "with_name w raw f =
     (case dec_bind (dec_map raw) (\<lambda>m. field_string m ''name'') of
        Inl _ \<Rightarrow> (w, Inl (invalidParams ''name is required''))
      | Inr n \<Rightarrow> (if trim_space n = [] then (w, Inl (invalidParams ''name is required'')) else apsnd Inr (f (trim_space n))))"

definition os_dispatch ::
  "'w os_host \<Rightarrow> process_registry \<Rightarrow> 'w \<Rightarrow> string \<Rightarrow> raw \<Rightarrow> process_registry \<times> 'w \<times> request_outcome" where
  "os_dispatch h r w meth raw =
     (let pure = (\<lambda>(w', x). (r, w', Answered x))
      in if meth = ''process.list'' then
           (case no_params meth raw of
              Some e \<Rightarrow> (r, w, Answered (Inl e))
            | None \<Rightarrow> (r, w, Answered (Inr (JObj [(''processes'', JArr (map process_summary_json (list_processes h r)))]))))
         else if meth = ''process.spawn'' then (case process_spawn h r w raw of (r', w', x) \<Rightarrow> (r', w', Answered x))
         else if meth = ''process.wait'' then (r, w, process_wait h r raw)
         else if meth = ''process.terminate'' then pure (handleSignalPrimitive h r w raw SIGTERM ''terminated'')
         else if meth = ''process.kill'' then pure (handleSignalPrimitive h r w raw SIGKILL ''killed'')
         else if meth = ''service.status'' then pure (with_name w raw (\<lambda>n. apsnd snd (handleServiceStatus h w n)))
         else if meth = ''service.start'' then pure (with_name w raw (\<lambda>n. handleServiceAction h w n ''start''))
         else if meth = ''service.stop'' then pure (with_name w raw (\<lambda>n. handleServiceAction h w n ''stop''))
         else if meth = ''service.restart'' then pure (with_name w raw (\<lambda>n. handleServiceRestart h w n))
         else if meth = ''pkg.list'' then
           (case no_params meth raw of Some e \<Rightarrow> (r, w, Answered (Inl e)) | None \<Rightarrow> pure (handlePkgList h w))
         else if meth = ''pkg.install'' then pure (with_name w raw (handlePkgInstall h w))
         else if meth = ''pkg.remove'' then pure (with_name w raw (handlePkgRemove h w))
         else if meth = ''pkg.verify'' then pure (with_name w raw (handlePkgVerify h w))
         else (r, w, Answered (Inl \<lparr>xe_Code = - 32601, xe_Message = ''method not found: '' @ meth\<rparr>)))"

definition app_response_json :: "json \<Rightarrow> app_result \<Rightarrow> json" where
  "app_response_json i x =
     JObj ((''id'', i) # (case x of
        Inl e \<Rightarrow> [(''error'', JObj [(''code'', JNum (xe_Code e)), (''message'', JStr (xe_Message e))])]
      | Inr j \<Rightarrow> [(''result'', j)]))"

definition dec_app_request :: "raw \<Rightarrow> (json \<times> string \<times> raw) decoded" where
  "dec_app_request r =
     dec_bind (dec_map r) (\<lambda>m. dec_bind (field_string m ''method'') (\<lambda>meth. Inr (field_any m ''id'', meth, field_raw m ''params'')))"

text \<open>The first line of a connection, \<open>None\<close> when it cannot be read or is not JSON, and the answer unless the request waits.\<close>

definition invalid_request :: json where
  "invalid_request = app_response_json (JNum 0) (Inl \<lparr>xe_Code = - 32600, xe_Message = ''invalid request''\<rparr>)"

definition os_handleConn ::
  "'w os_host \<Rightarrow> process_registry \<Rightarrow> 'w \<Rightarrow> raw option \<Rightarrow> process_registry \<times> 'w \<times> (json + json \<times> string \<times> int option)" where
  "os_handleConn h r w line =
     (case line of
        None \<Rightarrow> (r, w, Inl invalid_request)
      | Some body \<Rightarrow>
          (case dec_app_request body of
             Inl _ \<Rightarrow> (r, w, Inl invalid_request)
           | Inr (i, meth, params) \<Rightarrow>
               (case os_dispatch h r w meth params of
                  (r', w', Answered x) \<Rightarrow> (r', w', Inl (app_response_json i x))
                | (r', w', Blocked p d) \<Rightarrow> (r', w', Inr (i, p, d)))))"

section \<open>The manifests the adapter registers\<close>

definition os_intent :: "intent_category \<Rightarrow> bool \<Rightarrow> risk_level \<Rightarrow> primitive_intent" where
  "os_intent c reversible risk = \<lparr>Category = c, Reversible = reversible, RiskLevel = risk, AffectedScopes = [''app:os'']\<rparr>"

definition queryIntent :: primitive_intent where
  "queryIntent = os_intent IntentQuery True RiskLow"

definition mutationMedium :: primitive_intent where
  "mutationMedium = os_intent IntentMutation False RiskMedium"

definition mutationHigh :: primitive_intent where
  "mutationHigh = os_intent IntentMutation False RiskHigh"

definition sch :: "string \<Rightarrow> json" where
  "sch t = JObj [(''type'', JStr t)]"

definition sch_time :: json where
  "sch_time = JObj [(''type'', JStr ''string''), (''format'', JStr ''date-time'')]"

definition sch_strings :: json where
  "sch_strings = JObj [(''type'', JStr ''array''), (''items'', sch ''string'')]"

definition sch_object :: "jmap \<Rightarrow> string list \<Rightarrow> json" where
  "sch_object props required =
     JObj [(''type'', JStr ''object''), (''properties'', JObj props), (''required'', JArr (map JStr required)), (''additionalProperties'', JBool False)]"

definition sch_empty :: json where
  "sch_empty = JObj [(''type'', JStr ''object''), (''additionalProperties'', JBool False)]"

definition processSummarySchema :: json where
  "processSummarySchema =
     sch_object [(''process_id'', sch ''string''), (''pid'', sch ''integer''), (''command'', sch_strings), (''started_at'', sch_time),
       (''state'', sch ''string''), (''exit_code'', sch ''integer''), (''signal'', sch ''string''), (''exited_at'', sch_time)]
       [''process_id'', ''pid'', ''command'', ''started_at'', ''state'']"

definition os_manifest :: "string \<Rightarrow> string \<Rightarrow> string \<Rightarrow> string \<Rightarrow> json \<Rightarrow> json \<Rightarrow> primitive_intent \<Rightarrow> string \<Rightarrow> string \<Rightarrow> app_manifest" where
  "os_manifest app sock name descr input output intent verify rollback =
     \<lparr>mf_AppID = app, mf_Name = name, mf_Description = descr, mf_InputSchema = json_marshal input, mf_OutputSchema = json_marshal output,
      mf_UILayoutHint = [], mf_SocketPath = sock, mf_Availability = AvailabilityOther [], mf_VerifyEndpoint = verify, mf_Verify = None,
      mf_RollbackEndpoint = rollback, mf_Rollback = None, mf_Intent = intent\<rparr>"

definition process_manifests :: "string \<Rightarrow> string \<Rightarrow> app_manifest list" where
  "process_manifests app sock =
    [os_manifest app sock ''process.list'' ''List adapter-managed OS processes known to pb-os-adapter.'' sch_empty
       (sch_object [(''processes'', JObj [(''type'', JStr ''array''), (''items'', processSummarySchema)])] [''processes'']) queryIntent [] [],
     os_manifest app sock ''process.spawn'' ''Spawn a new adapter-managed OS process with explicit argv.''
       (sch_object [(''command'', JObj [(''type'', JStr ''array''), (''minItems'', JNum 1), (''items'', sch ''string'')]), (''cwd'', sch ''string''),
          (''env'', JObj [(''type'', JStr ''object''), (''additionalProperties'', sch ''string'')])] [''command''])
       (sch_object [(''process_id'', sch ''string''), (''pid'', sch ''integer''), (''command'', sch_strings), (''started_at'', sch_time)]
          [''process_id'', ''pid'', ''command'', ''started_at'']) mutationMedium [] [],
     os_manifest app sock ''process.wait'' ''Wait for an adapter-managed process to exit or time out.''
       (sch_object [(''process_id'', sch ''string''), (''timeout_s'', JObj [(''type'', JStr ''number''), (''minimum'', JNum 0)])] [''process_id''])
       (sch_object [(''process_id'', sch ''string''), (''pid'', sch ''integer''), (''exited'', sch ''boolean''), (''running'', sch ''boolean''),
          (''exit_code'', sch ''integer''), (''signal'', sch ''string''), (''timed_out'', sch ''boolean''), (''started_at'', sch_time), (''exited_at'', sch_time)]
          [''process_id'', ''pid'', ''exited'', ''running'', ''timed_out'', ''started_at'']) queryIntent [] [],
     os_manifest app sock ''process.terminate'' ''Send SIGTERM to an adapter-managed process.'' (sch_object [(''process_id'', sch ''string'')] [''process_id''])
       (sch_object [(''process_id'', sch ''string''), (''pid'', sch ''integer''), (''terminated'', sch ''boolean''), (''already_exited'', sch ''boolean''),
          (''signal_sent'', sch ''string'')] [''process_id'', ''pid'', ''terminated'', ''already_exited'', ''signal_sent'']) mutationMedium [] [],
     os_manifest app sock ''process.kill'' ''Send SIGKILL to an adapter-managed process.'' (sch_object [(''process_id'', sch ''string'')] [''process_id''])
       (sch_object [(''process_id'', sch ''string''), (''pid'', sch ''integer''), (''killed'', sch ''boolean''), (''already_exited'', sch ''boolean''),
          (''signal_sent'', sch ''string'')] [''process_id'', ''pid'', ''killed'', ''already_exited'', ''signal_sent'']) mutationHigh [] []]"

definition sch_name :: json where
  "sch_name = sch_object [(''name'', sch ''string'')] [''name'']"

definition service_manifests :: "string \<Rightarrow> string \<Rightarrow> app_manifest list" where
  "service_manifests app sock =
    [os_manifest app sock ''service.status'' ''Check whether a named system service is running (systemctl/launchctl).'' sch_name
       (sch_object [(''name'', sch ''string''), (''running'', sch ''boolean''), (''status'', sch ''string''), (''output'', sch ''string'')]
          [''name'', ''running'', ''status'']) queryIntent [] [],
     os_manifest app sock ''service.start'' ''Start a named system service (systemctl/launchctl). Verifies via service.status.'' sch_name
       (sch_object [(''name'', sch ''string''), (''started'', sch ''boolean''), (''output'', sch ''string'')] [''name'', ''started''])
       mutationMedium ''service.status'' [],
     os_manifest app sock ''service.stop'' ''Stop a named system service (systemctl/launchctl). Rollback via service.start.'' sch_name
       (sch_object [(''name'', sch ''string''), (''stopped'', sch ''boolean''), (''output'', sch ''string'')] [''name'', ''stopped''])
       mutationMedium [] ''service.start'',
     os_manifest app sock ''service.restart'' ''Restart a named system service: stop then start with inline status verification.'' sch_name
       (sch_object [(''name'', sch ''string''), (''restarted'', sch ''boolean''), (''running'', sch ''boolean''), (''output'', sch ''string'')]
          [''name'', ''restarted'', ''running'']) mutationMedium [] []]"

definition em_dash :: string where
  "em_dash = map char_of [0xE2, 0x80, 0x94 :: nat]"

definition pkg_manifests :: "string \<Rightarrow> string \<Rightarrow> app_manifest list" where
  "pkg_manifests app sock =
    [os_manifest app sock ''pkg.list'' ''List installed system packages (dpkg/brew list).'' sch_empty
       (sch_object [(''packages'', sch_strings)] [''packages'']) queryIntent [] [],
     os_manifest app sock ''pkg.install'' (''Install a system package (apt-get/brew). Irreversible '' @ em_dash @
         '' CVR auto-checkpoints. Verify via pkg.verify; rollback via pkg.remove.'') sch_name
       (sch_object [(''name'', sch ''string''), (''installed'', sch ''boolean''), (''output'', sch ''string'')] [''name'', ''installed''])
       mutationHigh ''pkg.verify'' ''pkg.remove'',
     os_manifest app sock ''pkg.remove'' (''Remove a system package (apt-get/brew). High risk '' @ em_dash @ '' escalation required.'') sch_name
       (sch_object [(''name'', sch ''string''), (''removed'', sch ''boolean''), (''output'', sch ''string'')] [''name'', ''removed''])
       mutationHigh [] [],
     os_manifest app sock ''pkg.verify'' ''Verify a package is correctly installed (dpkg --verify / brew list <name>).'' sch_name
       (sch_object [(''name'', sch ''string''), (''verified'', sch ''boolean''), (''output'', sch ''string'')] [''name'', ''verified''])
       queryIntent [] []]"

definition buildManifestSet :: "string \<Rightarrow> string \<Rightarrow> app_manifest list" where
  "buildManifestSet app sock = process_manifests app sock @ service_manifests app sock @ pkg_manifests app sock"

text \<open>The registration of one manifest: the gateway is a function from the request to its answer or an error.\<close>

definition register_request :: "app_manifest \<Rightarrow> json" where
  "register_request m = JObj [(''jsonrpc'', JStr ''2.0''), (''method'', JStr ''app.register''), (''params'', manifest_json m),
     (''id'', JStr (''register-'' @ mf_Name m))]"

definition dec_register_response :: "raw \<Rightarrow> string option decoded" where
  "dec_register_response body =
     dec_bind (dec_map body) (\<lambda>b.
     dec_bind (field_string b ''jsonrpc'') (\<lambda>_.
       case jget b ''error'' of
         None \<Rightarrow> Inr None
       | Some JNull \<Rightarrow> Inr None
       | Some e \<Rightarrow> dec_bind (dec_map (Raw e)) (\<lambda>er.
           dec_bind (field_int er ''code'') (\<lambda>_. dec_bind (field_string er ''message'') (\<lambda>t. Inr (Some t))))))"

definition registerPrimitive :: "('g \<Rightarrow> json \<Rightarrow> 'g \<times> (go_error + raw)) \<Rightarrow> 'g \<Rightarrow> app_manifest \<Rightarrow> 'g \<times> go_error option" where
  "registerPrimitive post g m =
     (case post g (register_request m) of
        (g', Inl e) \<Rightarrow> (g', Some e)
      | (g', Inr body) \<Rightarrow>
          (g', case dec_register_response body of
                 Inl e \<Rightarrow> Some (GoWrap ''decode register response'' e)
               | Inr None \<Rightarrow> None
               | Inr (Some t) \<Rightarrow> Some (GoErr t)))"

fun register_all_apps :: "('g \<Rightarrow> json \<Rightarrow> 'g \<times> (go_error + raw)) \<Rightarrow> 'g \<Rightarrow> app_manifest list \<Rightarrow> 'g \<times> go_error option" where
  "register_all_apps post g [] = (g, None)"
| "register_all_apps post g (m # ms) =
     (case registerPrimitive post g m of
        (g', Some e) \<Rightarrow> (g', Some (GoWrap (''register '' @ mf_Name m) e))
      | (g', None) \<Rightarrow> register_all_apps post g' ms)"

section \<open>The adapter at work\<close>

text \<open>
  Connections are served concurrently. A step is a request up to its answer or to the point where it waits, the end of
  a process, the end of a wait (by the end of the process, by the timer or because the adapter stops) or a change of
  the world. A request is numbered by its arrival.
\<close>

record 'w os_state =
  om_reg :: process_registry
  om_world :: 'w
  om_waits :: "(nat \<times> string \<times> bool) list"
  om_answers :: "(nat \<times> app_result) list"
  om_next :: nat

definition os_init :: "'w \<Rightarrow> 'w os_state" where
  "os_init w = \<lparr>om_reg = newProcessRegistry, om_world = w, om_waits = [], om_answers = [], om_next = 0\<rparr>"

definition answer_wait :: "'w os_state \<Rightarrow> nat \<times> string \<times> bool \<Rightarrow> app_result \<Rightarrow> 'w os_state" where
  "answer_wait s k x = s\<lparr>om_waits := remove1 k (om_waits s), om_answers := om_answers s @ [(fst k, x)]\<rparr>"

inductive os_step :: "'w os_host \<Rightarrow> 'w os_state \<Rightarrow> 'w os_state \<Rightarrow> bool" for h where
  request: "os_dispatch h (om_reg s) (om_world s) meth raw = (r', w', Answered x) \<Longrightarrow>
    os_step h s (s\<lparr>om_reg := r', om_world := w', om_answers := om_answers s @ [(om_next s, x)], om_next := Suc (om_next s)\<rparr>)"
| blocks: "os_dispatch h (om_reg s) (om_world s) meth raw = (r', w', Blocked i d) \<Longrightarrow>
    os_step h s (s\<lparr>om_reg := r', om_world := w', om_waits := om_waits s @ [(om_next s, i, d \<noteq> None)], om_next := Suc (om_next s)\<rparr>)"
| reap: "get_process (om_reg s) i = Some p \<Longrightarrow> \<not> px_done p \<Longrightarrow>
    os_step h s (s\<lparr>om_reg := (om_reg s)\<lparr>pg_processes := AList.update i (reaped now st p) (pg_processes (om_reg s))\<rparr>\<rparr>)"
| woken: "(n, i, t) \<in> set (om_waits s) \<Longrightarrow> get_process (om_reg s) i = Some p \<Longrightarrow> px_done p \<Longrightarrow>
    os_step h s (answer_wait s (n, i, t) (Inr (waitResult h False p)))"
| timer: "(n, i, True) \<in> set (om_waits s) \<Longrightarrow> get_process (om_reg s) i = Some p \<Longrightarrow>
    os_step h s (answer_wait s (n, i, True) (Inr (waitResult h True p)))"
| cancelled: "k \<in> set (om_waits s) \<Longrightarrow> os_step h s (answer_wait s k (Inl (internalErr (error_text e))))"
| elsewhere: "os_step h s (s\<lparr>om_world := w'\<rparr>)"

inductive_cases os_stepE: "os_step h s s'"

end
