(* ===== verification/OsSafety.thy ===== *)
theory OsSafety
  imports OsAdapter
begin

text \<open>
  Proofs about \<open>OsAdapter\<close>: the life of a process over any interleaving, what waiting answers, the manifests against the
  registry, the router and the handlers, and the environment of a spawned process.
\<close>

section \<open>The life of a process\<close>

definition record_ok :: "process_record \<Rightarrow> bool" where
  "record_ok p \<longleftrightarrow>
     (if px_done p then px_state p = ''exited'' \<and> px_exitCode p \<noteq> None \<and> px_exitedAt p \<noteq> None
      else px_state p = ''running'' \<and> px_exitCode p = None \<and> px_exitedAt p = None \<and> px_signal p = [])"

definition registry_ok :: "process_registry \<Rightarrow> bool" where
  "registry_ok r \<longleftrightarrow> distinct (map fst (pg_processes r)) \<and>
     (\<forall>(i, p) \<in> set (pg_processes r). px_processID p = i \<and> record_ok p \<and> (\<exists>k. 1 \<le> k \<and> k \<le> unat (pg_counter r) \<and> i = ''proc-'' @ nat_digits k))"

lemma nat_digits_inj: "nat_digits m = nat_digits n \<longleftrightarrow> m = n"
  by (metis digits_val_nat_digits option.inject)

lemma record_ok_reaped [simp]: "record_ok (reaped now st p)"
  by (simp add: record_ok_def reaped_def)

lemma unat_next: "unat (c :: 64 word) < 2 ^ 64 - 1 \<Longrightarrow> unat (c + 1) = Suc (unat c)"
  by (subst unat_add_lem [THEN iffD1]) auto

text \<open>The registry with the record of a process that has just been started.\<close>

definition spawned :: "process_registry \<Rightarrow> process_record \<Rightarrow> process_registry" where
  "spawned r p = r\<lparr>pg_counter := pg_counter r + 1, pg_processes := AList.update (px_processID p) p (pg_processes r)\<rparr>"

definition fresh_record :: "process_registry \<Rightarrow> process_record \<Rightarrow> bool" where
  "fresh_record r p \<longleftrightarrow> px_processID p = process_id (pg_counter r + 1) \<and> record_ok p \<and> \<not> px_done p \<and> px_command p \<noteq> []"

lemma spawn_process_cases:
  assumes "spawn_process h r w command cwd env = (r', w', x)"
  obtains e where "x = Inl e" "r' = r" | p where "x = Inr p" "fresh_record r p" "r' = spawned r p"
proof (cases "command = [] \<or> trim_space (hd command) = []")
  case True
  with assms that(1) show ?thesis by (auto simp: spawn_process_def split: if_splits)
next
  case False
  obtain w1 y where st: "oo_start h w command (trim_space cwd) (if env \<noteq> [] then Some (mergeEnv (oo_environ h) env) else None) = (w1, y)"
    by fastforce
  show ?thesis
  proof (cases y)
    case (Inl e)
    with False st assms that(1) show ?thesis by (auto simp: spawn_process_def)
  next
    case (Inr pid)
    let ?p = "\<lparr>px_processID = process_id (pg_counter r + 1), px_pid = pid, px_command = command, px_workingDir = trim_space cwd,
      px_startedAt = oo_now h w1, px_state = ''running'', px_exitCode = None, px_signal = [], px_exitedAt = None, px_done = False\<rparr>"
    from False st Inr assms have "x = Inr ?p" "r' = spawned r ?p" by (auto simp: spawn_process_def nextProcessID_def spawned_def Let_def)
    with False show ?thesis by (intro that(2) [of ?p]) (simp_all add: fresh_record_def record_ok_def)
  qed
qed

text \<open>A request changes the registry only by adding the record of a process it has started.\<close>

lemma os_dispatch_registry:
  assumes "os_dispatch h r w meth raw = (r', w', x)"
  shows "r' = r \<or> (\<exists>p. fresh_record r p \<and> r' = spawned r p)"
proof (cases "meth = ''process.spawn''")
  case True
  have "fst (process_spawn h r w raw) = r \<or> (\<exists>p. fresh_record r p \<and> fst (process_spawn h r w raw) = spawned r p)"
  proof (cases "dec_spawn raw")
    case (Inr a)
    obtain command cwd env where a: "a = (command, cwd, env)" by (cases a)
    obtain r1 w1 y where sp: "spawn_process h r w command cwd env = (r1, w1, y)" by (cases "spawn_process h r w command cwd env")
    then show ?thesis using Inr a sp by (cases rule: spawn_process_cases) (auto simp: process_spawn_def)
  qed (simp add: process_spawn_def)
  with True assms show ?thesis by (auto simp: os_dispatch_def split: prod.splits)
next
  case False
  then have "fst (os_dispatch h r w meth raw) = r"
    by (simp add: os_dispatch_def Let_def case_prod_beta split: option.split)
  with assms show ?thesis by simp
qed

lemma set_alist_update: "set (AList.update k v m) \<subseteq> insert (k, v) (set m)"
  by (induction m) auto

lemma registry_ok_update:
  assumes "registry_ok r" and "px_processID p = i" and "record_ok p" and "unat (pg_counter r) \<le> unat c"
    and "\<exists>k. 1 \<le> k \<and> k \<le> unat c \<and> i = ''proc-'' @ nat_digits k"
  shows "registry_ok (r\<lparr>pg_counter := c, pg_processes := AList.update i p (pg_processes r)\<rparr>)"
proof -
  have "px_processID q = j \<and> record_ok q \<and> (\<exists>k. 1 \<le> k \<and> k \<le> unat c \<and> j = ''proc-'' @ nat_digits k)"
    if "(j, q) \<in> set (AList.update i p (pg_processes r))" for j q
  proof (cases "(j, q) = (i, p)")
    case True
    with assms(2,3,5) show ?thesis by simp
  next
    case False
    with that set_alist_update have "(j, q) \<in> set (pg_processes r)" by fast
    with assms(1) have "px_processID q = j" "record_ok q" "\<exists>k. 1 \<le> k \<and> k \<le> unat (pg_counter r) \<and> j = ''proc-'' @ nat_digits k"
      by (auto simp: registry_ok_def)
    with assms(4) show ?thesis by (meson order_trans)
  qed
  with assms(1) show ?thesis by (auto simp: registry_ok_def distinct_update)
qed

lemma spawned_ok:
  assumes "registry_ok r" and "unat (pg_counter r) < 2 ^ 64 - 1" and "fresh_record r p"
  shows "registry_ok (spawned r p)" and "get_process r i = Some q \<Longrightarrow> get_process (spawned r p) i = Some q"
    and "unat (pg_counter (spawned r p)) = Suc (unat (pg_counter r))"
proof -
  note n = unat_next [OF assms(2)]
  with assms show "registry_ok (spawned r p)" unfolding spawned_def by (intro registry_ok_update) (auto simp: fresh_record_def process_id_def)
  from n show "unat (pg_counter (spawned r p)) = Suc (unat (pg_counter r))" by (simp add: spawned_def)
  assume q: "get_process r i = Some q"
  with assms(1) obtain k where "i = ''proc-'' @ nat_digits k" "k \<le> unat (pg_counter r)"
    by (fastforce simp: registry_ok_def get_process_def dest: map_of_SomeD)
  with assms(3) n have "px_processID p \<noteq> i" by (auto simp: fresh_record_def process_id_def nat_digits_inj)
  with q show "get_process (spawned r p) i = Some q" by (simp add: spawned_def get_process_def update_conv')
qed

text \<open>
  Runs counted by their steps: an invariant that holds of a state reached in \<open>n\<close> steps, kept by every step below a bound,
  holds along every run that stays below the bound.
\<close>

locale counted_runs =
  fixes step :: "'s \<Rightarrow> 's \<Rightarrow> bool" and inv :: "nat \<Rightarrow> 's \<Rightarrow> bool" and bound :: nat
  assumes keeps: "inv n s \<Longrightarrow> n < bound \<Longrightarrow> step s s' \<Longrightarrow> inv (Suc n) s'"
begin

lemma run_keeps: "(step ^^ m) s s' \<Longrightarrow> inv n s \<Longrightarrow> n + m \<le> bound \<Longrightarrow> inv (n + m) s'"
proof (induction m arbitrary: s')
  case (Suc m)
  then obtain t where "(step ^^ m) s t" "step t s'" by auto
  with Suc show ?case using keeps [of "n + m" t s'] by simp
qed simp

end

definition os_inv :: "nat \<Rightarrow> 'w os_state \<Rightarrow> bool" where
  "os_inv n s \<longleftrightarrow> registry_ok (om_reg s) \<and> unat (pg_counter (om_reg s)) \<le> n \<and>
     (\<forall>(k, i, t) \<in> set (om_waits s). get_process (om_reg s) i \<noteq> None)"

definition os_frozen :: "string \<Rightarrow> process_record \<Rightarrow> nat \<Rightarrow> 'w os_state \<Rightarrow> bool" where
  "os_frozen i p n s \<longleftrightarrow> os_inv n s \<and> get_process (om_reg s) i = Some p"

lemma os_inv_init: "os_inv 0 (os_init w)"
  by (simp add: os_inv_def os_init_def newProcessRegistry_def registry_ok_def)

lemma blocked_registered: "os_dispatch h r w meth raw = (r', w', Blocked i d) \<Longrightarrow> r' = r \<and> get_process r i \<noteq> None"
  by (auto simp: os_dispatch_def process_wait_def Let_def case_prod_beta split: if_splits option.splits sum.splits)

lemma get_process_update: "get_process (r\<lparr>pg_processes := AList.update i p (pg_processes r)\<rparr>) j = (if j = i then Some p else get_process r j)"
  by (simp add: get_process_def update_conv')

text \<open>A dispatched request keeps the registry sound and every record in it.\<close>

lemma dispatch_ok:
  assumes "os_dispatch h r w meth raw = (r', w', x)" and "registry_ok r" and "unat (pg_counter r) \<le> n" and "n < 2 ^ 64 - 1"
  shows "registry_ok r' \<and> unat (pg_counter r') \<le> Suc n \<and> (\<forall>i p. get_process r i = Some p \<longrightarrow> get_process r' i = Some p)"
  using os_dispatch_registry [OF assms(1)]
proof (elim disjE exE conjE)
  fix p
  assume "fresh_record r p" "r' = spawned r p"
  with spawned_ok [OF assms(2) _ this(1)] assms(3,4) show ?thesis by simp
qed (use assms in simp)

lemma reaped_ID [simp]: "px_processID (reaped now st p) = px_processID p"
  by (simp add: reaped_def)

lemma reap_ok:
  assumes "registry_ok r" and "get_process r i = Some p"
  shows "registry_ok (r\<lparr>pg_processes := AList.update i (reaped now st p) (pg_processes r)\<rparr>)"
proof -
  from assms have "px_processID p = i" "\<exists>k. 1 \<le> k \<and> k \<le> unat (pg_counter r) \<and> i = ''proc-'' @ nat_digits k"
    by (auto simp: registry_ok_def get_process_def dest!: map_of_SomeD)
  then have "registry_ok (r\<lparr>pg_counter := pg_counter r, pg_processes := AList.update i (reaped now st p) (pg_processes r)\<rparr>)"
    by (intro registry_ok_update [OF assms(1)]) simp_all
  then show ?thesis by simp
qed

lemma answer_wait_inv: "os_inv n s \<Longrightarrow> os_inv (Suc n) (answer_wait s k x) \<and> om_reg (answer_wait s k x) = om_reg s"
  using set_remove1_subset [of k "om_waits s"] by (fastforce simp: os_inv_def answer_wait_def)

lemma os_step_frame:
  assumes "os_step h s s'" and "os_inv n s" and "n < 2 ^ 64 - 1"
  shows "os_inv (Suc n) s' \<and> (\<forall>i p. get_process (om_reg s) i = Some p \<longrightarrow> px_done p \<longrightarrow> get_process (om_reg s') i = Some p)"
  using assms(1)
proof cases
  case (request meth raw r' w' x)
  from dispatch_ok [OF request(2) _ _ assms(3)] assms(2) show ?thesis by (auto simp: request(1) os_inv_def)
next
  case (blocks meth raw r' w' i d)
  from blocked_registered [OF blocks(2)] assms(2) show ?thesis by (auto simp: blocks(1) os_inv_def)
next
  case (reap i p now st)
  with reap_ok [OF _ reap(2)] assms(2) show ?thesis by (auto simp: os_inv_def get_process_update)
next
  case (woken k i t p)
  with answer_wait_inv [OF assms(2)] show ?thesis by simp
next
  case (timer k i p)
  with answer_wait_inv [OF assms(2)] show ?thesis by simp
next
  case (cancelled k e)
  with answer_wait_inv [OF assms(2)] show ?thesis by simp
next
  case (elsewhere w')
  with assms(2) show ?thesis by (auto simp: os_inv_def)
qed

interpretation sound: counted_runs "os_step h" os_inv "2 ^ 64 - 1" for h
  by unfold_locales (use os_step_frame in blast)

interpretation ended: counted_runs "os_step h" "\<lambda>n s. px_done p \<and> os_frozen i p n s" "2 ^ 64 - 1" for h i p
  by unfold_locales (use os_step_frame in \<open>auto simp: os_frozen_def\<close>)


text \<open>
  A process has one life. In every state the adapter reaches in fewer than \<open>2 ^ 64 - 1\<close> steps, whatever requests, exits,
  timeouts and cancellations they interleave, the identifiers of the registry are distinct and stand at their own
  records, and a record is either running, with no exit code, signal or time of exit, or exited, with an
  exit code and a time of exit.
\<close>

theorem os_process_records:
  assumes "(os_step h ^^ n) (os_init w) s" and "n \<le> 2 ^ 64 - 1"
  shows "distinct (map fst (pg_processes (om_reg s))) \<and>
    (\<forall>i p. get_process (om_reg s) i = Some p \<longrightarrow> px_processID p = i \<and>
       (px_state p = ''running'' \<and> px_exitCode p = None \<and> px_signal p = [] \<and> px_exitedAt p = None \<and> \<not> px_done p \<or>
        px_state p = ''exited'' \<and> px_exitCode p \<noteq> None \<and> px_exitedAt p \<noteq> None \<and> px_done p))"
proof -
  have "registry_ok (om_reg s)" using sound.run_keeps [OF assms(1) os_inv_init] assms(2) by (simp add: os_inv_def)
  then show ?thesis by (auto simp: registry_ok_def get_process_def record_ok_def dest!: map_of_SomeD split: if_splits)
qed

lemma signal_exited:
  assumes "get_process r i = Some p" and "record_ok p" and "px_done p" and "dec_process_id raw = Inr i0" and "trim_space i0 = i" and "i \<noteq> []"
  shows "handleSignalPrimitive h r w raw sig key = (w, Inr (JObj [(''process_id'', JStr (px_processID p)), (''pid'', JNum (px_pid p)),
    (''already_exited'', JBool True), (''signal_sent'', JStr []), (key, JBool False)]))"
  using assms by (auto simp: handleSignalPrimitive_def sendSignal_def isRunning_def record_ok_def Let_def)

text \<open>
  C16. Exited is final. Once a process has exited, its record never changes again, and a later request to terminate or to kill
  it sends no signal: the world is left as it is and the answer says that the process had already exited.
\<close>

theorem os_exit_final:
  assumes "(os_step h ^^ n) (os_init w) s" and "(os_step h ^^ m) s s'" and "n + m \<le> 2 ^ 64 - 1"
    and "get_process (om_reg s) i = Some p" and "px_state p = ''exited''"
    and "dec_process_id raw = Inr i0" and "trim_space i0 = i" and "meth = ''process.terminate'' \<or> meth = ''process.kill''"
  shows "get_process (om_reg s') i = Some p \<and> (\<exists>key. os_dispatch h (om_reg s') (om_world s') meth raw =
    (om_reg s', om_world s', Answered (Inr (JObj [(''process_id'', JStr i), (''pid'', JNum (px_pid p)), (''already_exited'', JBool True),
       (''signal_sent'', JStr []), (key, JBool False)]))))"
proof -
  have n: "os_inv n s" using sound.run_keeps [OF assms(1) os_inv_init] assms(3) by simp
  with assms(4) have p: "px_processID p = i" "record_ok p" "\<exists>k. i = ''proc-'' @ nat_digits k"
    by (auto simp: os_inv_def registry_ok_def get_process_def dest!: map_of_SomeD)
  with assms(5) have d: "px_done p" by (auto simp: record_ok_def split: if_splits)
  then have g: "get_process (om_reg s') i = Some p"
    using ended.run_keeps [OF assms(2), of p i n] n assms(3,4) by (simp add: os_frozen_def)
  have "handleSignalPrimitive h (om_reg s') (om_world s') raw sig key = (om_world s', Inr (JObj [(''process_id'', JStr i), (''pid'', JNum (px_pid p)),
      (''already_exited'', JBool True), (''signal_sent'', JStr []), (key, JBool False)]))" for sig key
    using signal_exited [OF g p(2) d assms(6,7)] p by auto
  with g assms(8) show ?thesis by (elim disjE) (simp_all add: os_dispatch_def)
qed

text \<open>
  Waiting. An answer to a request that has waited for a process without a timeout is an error, when the adapter
  stops, or reports that the process has exited, with its exit code.
\<close>

theorem os_wait_answer:
  assumes "(os_step h ^^ n) (os_init w) s" and "n < 2 ^ 64 - 1" and "os_step h s s'"
    and "om_next s' = om_next s" and "om_answers s' = om_answers s @ [(k, Inr j)]"
  shows "\<exists>i t p. (k, i, t) \<in> set (om_waits s) \<and> get_process (om_reg s) i = Some p \<and>
    (t \<and> j = waitResult h True p \<or>
     px_state p = ''exited'' \<and> (\<exists>c. px_exitCode p = Some c \<and> j = waitResult h False p \<and> jget (data_fields j) ''exit_code'' = Some (JNum c) \<and>
       jget (data_fields j) ''exited'' = Some (JBool True)))"
proof -
  have "registry_ok (om_reg s)" using sound.run_keeps [OF assms(1) os_inv_init] assms(2) by (simp add: os_inv_def)
  then have ok: "record_ok p" if "get_process (om_reg s) i = Some p" for i p
    using that by (auto simp: registry_ok_def get_process_def dest!: map_of_SomeD)
  from assms(3) show ?thesis
  proof cases
    case (woken n' i t p)
    with ok [of i p] obtain c where "px_state p = ''exited''" "px_exitCode p = Some c" by (auto simp: record_ok_def)
    moreover from this have "jget (data_fields (waitResult h False p)) ''exit_code'' = Some (JNum c)"
      "jget (data_fields (waitResult h False p)) ''exited'' = Some (JBool True)"
      by (simp_all add: waitResult_def data_fields_def json_marshal_def jget_def split: option.split)
    ultimately show ?thesis using woken assms(5) by (auto simp: answer_wait_def)
  next
    case (timer n' i p)
    with assms(5) show ?thesis by (auto simp: answer_wait_def)
  qed (use assms(4,5) in \<open>auto simp: answer_wait_def\<close>)
qed

section \<open>Manifests and handlers\<close>

lemmas manifest_lists = buildManifestSet_def process_manifests_def service_manifests_def pkg_manifests_def

definition schema_ok :: "json \<Rightarrow> bool" where
  "schema_ok j \<longleftrightarrow> (\<exists>x. NormalizeAppManifestSchema (json_marshal j) = Inr x)"

lemma schema_ok_simps [simp]:
  "schema_ok (sch_object props req) \<longleftrightarrow> list_all (\<lambda>r. r \<noteq> []) req" "schema_ok sch_empty" "schema_ok sch_name"
  by (auto simp: schema_ok_def sch_name_def sch_object_def sch_empty_def schema_document_def validateManifestSchemaObject_def jget_def
      json_marshal_def list_all_iff)

lemma os_manifest_sel [simp]:
  "mf_Name (os_manifest app sock name descr i out intent v rb) = name"
  "mf_VerifyEndpoint (os_manifest app sock name descr i out intent v rb) = v"
  "mf_RollbackEndpoint (os_manifest app sock name descr i out intent v rb) = rb"
  "mf_OutputSchema (os_manifest app sock name descr i out intent v rb) = Raw out"
  by (simp_all add: os_manifest_def json_marshal_def)

lemma os_manifest_normal:
  assumes "validateAppPrimitiveName name = None" and "schema_ok i" and "schema_ok out"
  shows "\<exists>n. NormalizeAppPrimitiveManifest (os_manifest app sock name descr i out intent v rb) = Inr n \<and> mf_Name n = name \<and> mf_AppID n = app"
  using assms
  by (auto simp: NormalizeAppPrimitiveManifest_def os_manifest_def cloneAppPrimitiveManifest_def cloneJSON_def json_marshal_def schema_ok_def Let_def
      normalizeAppPrimitiveVerify_def normalizeAppPrimitiveRollback_def split: option.split)

text \<open>No handler of a known method answers that the method is unknown.\<close>

definition known_answer :: "app_result \<Rightarrow> bool" where
  "known_answer x \<longleftrightarrow> (case x of Inl e \<Rightarrow> xe_Code e \<noteq> - 32601 | Inr _ \<Rightarrow> True)"

lemma known_answers [simp]:
  "known_answer (Inr j)" "known_answer (Inl (invalidParams t))" "known_answer (Inl (internalErr t))"
  by (simp_all add: known_answer_def invalidParams_def internalErr_def)

lemma handlers_known [simp]:
  "known_answer (snd (with_name w raw f))" "known_answer (snd (handleSignalPrimitive h r w raw sig key))"
  "known_answer (snd (snd (process_spawn h r w raw)))" "known_answer (snd (handlePkgList h w))"
  by (auto simp: with_name_def handleSignalPrimitive_def process_spawn_def handlePkgList_def Let_def case_prod_beta
      split: sum.split option.split prod.split)

lemma process_wait_known: "process_wait h r raw = Answered x \<Longrightarrow> known_answer x"
  by (auto simp: process_wait_def Let_def split: sum.splits option.splits prod.splits if_splits)

lemma no_params_known: "no_params meth raw = Some e \<Longrightarrow> known_answer (Inl e)"
  by (auto simp: no_params_def Let_def split: sum.splits if_splits)

lemma manifest_names: "mf_Name ` set (buildManifestSet app sock) =
  {''process.list'', ''process.spawn'', ''process.wait'', ''process.terminate'', ''process.kill'', ''service.status'', ''service.start'',
   ''service.stop'', ''service.restart'', ''pkg.list'', ''pkg.install'', ''pkg.remove'', ''pkg.verify''}"
  by (auto simp: manifest_lists)

lemma dispatch_known:
  assumes "meth \<in> mf_Name ` set (buildManifestSet app sock)" and "snd (snd (os_dispatch h r w meth raw)) = Answered x"
  shows "known_answer x"
  using assms unfolding manifest_names
  by (elim insertE emptyE) (auto simp: os_dispatch_def Let_def case_prod_beta split: option.splits dest: process_wait_known no_params_known)

text \<open>
  What the adapter declares is what the registry accepts and what the adapter serves. Every manifest is accepted by the
  normalisation of the registry under its own name, the names are distinct, every declared verify and rollback endpoint
  is one of them, and the adapter knows every one of the methods.
\<close>

theorem os_manifests_registrable:
  "distinct (map mf_Name (buildManifestSet app sock)) \<and>
   (\<forall>m \<in> set (buildManifestSet app sock). (\<exists>n. NormalizeAppPrimitiveManifest m = Inr n \<and> mf_Name n = mf_Name m \<and> mf_AppID n = app) \<and>
      {mf_VerifyEndpoint m, mf_RollbackEndpoint m} \<subseteq> insert [] (mf_Name ` set (buildManifestSet app sock)) \<and>
      (\<forall>h r w raw r' w' e. os_dispatch h r w (mf_Name m) raw = (r', w', Answered (Inl e)) \<longrightarrow> xe_Code e \<noteq> - 32601))"
proof (intro conjI ballI allI impI)
  show "distinct (map mf_Name (buildManifestSet app sock))" by (simp add: manifest_lists)
  fix m
  assume m: "m \<in> set (buildManifestSet app sock)"
  from m show "\<exists>n. NormalizeAppPrimitiveManifest m = Inr n \<and> mf_Name n = mf_Name m \<and> mf_AppID n = app"
    by (auto simp: manifest_lists validateAppPrimitiveName_def reservedSystemPrimitiveNamespaces_def has_prefix_def intro!: os_manifest_normal)
  from m show "{mf_VerifyEndpoint m, mf_RollbackEndpoint m} \<subseteq> insert [] (mf_Name ` set (buildManifestSet app sock))" by (auto simp: manifest_lists)
  fix h :: "'a os_host" and r w raw r' w' e
  assume "os_dispatch h r w (mf_Name m) raw = (r', w', Answered (Inl e))"
  with m dispatch_known [of "mf_Name m" app sock h r w raw "Inl e"] show "xe_Code e \<noteq> - 32601" by (simp add: known_answer_def)
qed

text \<open>
  C17. The declared rollbacks cannot work. The router sends the rollback endpoint of a manifest an envelope with the call, its
  parameters, its result and the verdict; the endpoints of this adapter look for a name at the top of their parameters and
  refuse the envelope, whatever the call was, without running any program.
\<close>

theorem os_rollback_refused:
  assumes "m \<in> set (buildManifestSet app sock)" and "mf_RollbackEndpoint m \<noteq> []" and "default_params params = Raw j"
  shows "os_dispatch h r w (mf_RollbackEndpoint m) (default_params (buildRollbackParams meth params d v)) =
    (r, w, Answered (Inl (invalidParams ''name is required'')))"
proof -
  have "with_name w (Raw (rollback_envelope meth j d v)) f = (w, Inl (invalidParams ''name is required''))" for f :: "string \<Rightarrow> 'a \<times> json"
    by (simp add: with_name_def rollback_envelope_def dec_bind_def field_string_def jget_def)
  moreover from assms(1,2) have "mf_RollbackEndpoint m = ''service.start'' \<or> mf_RollbackEndpoint m = ''pkg.remove''"
    by (auto simp: manifest_lists)
  ultimately show ?thesis by (elim disjE) (simp_all add: buildRollbackParams_Raw [OF assms(3)] os_dispatch_def)
qed


text \<open>
  JSON Schema as far as the output schemas use it: the type of a value, the properties of an object, which of them are required
  and whether others are allowed, and the items of an array. A format is an annotation. The first argument bounds
  the depth; the output schemas are at most five deep.
\<close>

definition typed :: "string \<Rightarrow> json \<Rightarrow> bool" where
  "typed t j =
     (case j of JNull \<Rightarrow> t = ''null'' | JBool _ \<Rightarrow> t = ''boolean'' | JNum _ \<Rightarrow> t = ''integer'' \<or> t = ''number'' | JStr _ \<Rightarrow> t = ''string''
      | JArr _ \<Rightarrow> t = ''array'' | JObj _ \<Rightarrow> t = ''object'')"

definition object_at :: "jmap \<Rightarrow> string \<Rightarrow> jmap" where
  "object_at m k = (case jget m k of Some (JObj o') \<Rightarrow> o' | _ \<Rightarrow> [])"

definition strings_at :: "jmap \<Rightarrow> string \<Rightarrow> string list" where
  "strings_at m k = (case jget m k of Some (JArr xs) \<Rightarrow> List.map_filter (\<lambda>x. case x of JStr s \<Rightarrow> Some s | _ \<Rightarrow> None) xs | _ \<Rightarrow> [])"

primrec conforms :: "nat \<Rightarrow> json \<Rightarrow> json \<Rightarrow> bool" where
  "conforms 0 schema j = False"
| "conforms (Suc n) schema j =
     (case schema of
        JObj s \<Rightarrow>
          (case jget s ''type'' of Some (JStr t) \<Rightarrow> typed t j | _ \<Rightarrow> True) \<and>
          (case j of
             JObj m \<Rightarrow>
               list_all (\<lambda>(k, v). case jget (object_at s ''properties'') k of
                   Some p \<Rightarrow> conforms n p v
                 | None \<Rightarrow> jget s ''additionalProperties'' \<noteq> Some (JBool False)) m \<and>
               list_all (\<lambda>k. jget m k \<noteq> None) (strings_at s ''required'')
           | JArr xs \<Rightarrow> (case jget s ''items'' of Some p \<Rightarrow> list_all (conforms n p) xs | None \<Rightarrow> True)
           | _ \<Rightarrow> True)
      | _ \<Rightarrow> True)"

definition as_declared :: "app_manifest \<Rightarrow> json \<Rightarrow> bool" where
  "as_declared m j = (case mf_OutputSchema m of Raw s \<Rightarrow> conforms 5 s j | _ \<Rightarrow> False)"

declare conforms.simps(2) [simp del]

definition undeclared :: "string \<Rightarrow> string list" where
  "undeclared meth = (if meth = ''service.status'' \<or> meth = ''pkg.verify'' then [''passed''] else [])"

definition without :: "string list \<Rightarrow> json \<Rightarrow> json" where
  "without ks j = (case j of JObj m \<Rightarrow> JObj (filter (\<lambda>(k, _). k \<notin> set ks) m) | _ \<Rightarrow> j)"

lemma without_none [simp]: "without [] j = j"
  by (simp add: without_def split: json.split)

lemma strings_required [simp]: "List.map_filter (\<lambda>x. case x of JStr s \<Rightarrow> Some s | _ \<Rightarrow> None) (map JStr ks) = ks"
  by (induction ks) (simp_all add: List.map_filter_def)

lemma conforms_object [simp]:
  "conforms (Suc n) (sch_object props req) (JObj m) \<longleftrightarrow>
     list_all (\<lambda>(k, v). case jget props k of Some p \<Rightarrow> conforms n p v | None \<Rightarrow> False) m \<and> list_all (\<lambda>k. jget m k \<noteq> None) req"
  by (simp add: conforms.simps(2) sch_object_def object_at_def strings_at_def typed_def jget_def cong: option.case_cong)

lemma conforms_array [simp]:
  "conforms (Suc n) (JObj [(''type'', JStr ''array''), (''items'', p)]) (JArr xs) \<longleftrightarrow> list_all (conforms n p) xs"
  by (simp add: conforms.simps(2) typed_def jget_def)

lemma conforms_sch [simp]: "conforms (Suc n) (sch t) j \<longleftrightarrow> typed t j"
  by (auto simp: conforms.simps(2) sch_def jget_def object_at_def strings_at_def list_all_iff split: json.split)

lemma conforms_time [simp]: "conforms (Suc n) sch_time (JStr t)"
  by (simp add: conforms.simps(2) sch_time_def jget_def typed_def)

lemma conforms_strings [simp]:
  "conforms (Suc (Suc n)) sch_strings (JArr (map JStr xs))" "conforms (Suc (Suc n)) sch_strings (strings_json xs) \<longleftrightarrow> xs \<noteq> []"
  by (simp_all add: sch_strings_def strings_json_def slice_json_def typed_def list_all_iff)
    (simp add: conforms.simps(2) typed_def jget_def)

lemmas typed_simps [simp] = typed_def [of _ "JBool b" for b] typed_def [of _ "JNum n" for n] typed_def [of _ "JStr s" for s]
  typed_def [of _ JNull]

lemmas five = numeral_eq_Suc [of "num.Bit1 (num.Bit0 num.One)"]

lemma declared_schema [simp]: "as_declared (os_manifest app sock meth d input out intent v rb) j = conforms 5 out j"
  by (simp add: as_declared_def os_manifest_def json_marshal_def)

text \<open>What the handlers answer.\<close>

lemma with_name_answer: "snd (with_name w raw f) = Inr j \<Longrightarrow> \<exists>n. j = snd (f n)"
  by (auto simp: with_name_def apsnd_def map_prod_def case_prod_beta split: sum.splits if_splits)

lemma signal_answer: "snd (handleSignalPrimitive h r w raw sig key) = Inr j \<Longrightarrow> \<exists>i pid sent name.
  j = JObj [(''process_id'', JStr i), (''pid'', JNum pid), (''already_exited'', JBool (\<not> sent)), (''signal_sent'', JStr name), (key, JBool sent)]"
  by (auto simp: handleSignalPrimitive_def Let_def case_prod_beta split: sum.splits option.splits if_splits)

lemma spawn_command: "snd (snd (spawn_process h r w command cwd env)) = Inr p \<Longrightarrow> px_command p = command \<and> command \<noteq> []"
  by (auto simp: spawn_process_def nextProcessID_def Let_def case_prod_beta split: sum.splits if_splits)

lemma spawn_answer: "snd (snd (process_spawn h r w raw)) = Inr j \<Longrightarrow> \<exists>i pid c t. c \<noteq> [] \<and>
  j = JObj [(''process_id'', JStr i), (''pid'', JNum pid), (''command'', strings_json c), (''started_at'', JStr t)]"
  by (auto simp: process_spawn_def case_prod_beta split: sum.splits prod.splits dest!: spawn_command)

lemma wait_answer: "process_wait h r raw = Answered (Inr j) \<Longrightarrow> \<exists>p. j = waitResult h False p"
  by (auto simp: process_wait_def Let_def split: sum.splits option.splits prod.splits if_splits)

text \<open>The records of the registry have the command they were started with.\<close>

definition commands_given :: "'w os_state \<Rightarrow> bool" where
  "commands_given s \<longleftrightarrow> (\<forall>(i, p) \<in> set (pg_processes (om_reg s)). px_command p \<noteq> [])"

lemma dispatch_commands:
  assumes "os_dispatch h r w meth raw = (r', w', x)" and "\<forall>(i, p) \<in> set (pg_processes r). px_command p \<noteq> []"
  shows "\<forall>(i, p) \<in> set (pg_processes r'). px_command p \<noteq> []"
  using os_dispatch_registry [OF assms(1)]
proof (elim disjE exE conjE)
  fix p
  assume "fresh_record r p" "r' = spawned r p"
  then show ?thesis using set_alist_update [of "px_processID p" p "pg_processes r"] assms(2)
    by (fastforce simp: fresh_record_def spawned_def)
qed (use assms(2) in simp)

lemma reap_command: "get_process r i = Some p \<Longrightarrow> \<forall>(i, p) \<in> set (pg_processes r). px_command p \<noteq> [] \<Longrightarrow>
    \<forall>(i, p) \<in> set (AList.update i (reaped now st p) (pg_processes r)). px_command p \<noteq> []"
  using set_alist_update [of i "reaped now st p" "pg_processes r"]
  by (fastforce simp: get_process_def reaped_def dest: map_of_SomeD)

lemma os_step_commands: "os_step h s s' \<Longrightarrow> commands_given s \<Longrightarrow> commands_given s'"
  by (induction rule: os_step.induct)
    (use dispatch_commands reap_command in \<open>fastforce simp: commands_given_def answer_wait_def\<close>)+

interpretation given: counted_runs "os_step h" "\<lambda>_. commands_given" "2 ^ 64 - 1" for h
  by unfold_locales (rule os_step_commands)

section \<open>Answers and output schemas\<close>

lemma insert_summary_set [simp]: "set (insert_summary a bs) = insert a (set bs)"
  by (induction bs) auto

lemma listed_set: "set (list_processes h r) = process_summary_of h ` snd ` set (pg_processes r)"
proof -
  have "set (foldr insert_summary xs []) = set xs" for xs by (induction xs) simp_all
  then show ?thesis by (simp add: list_processes_def image_comp)
qed

lemma summary_conforms:
  "px_command p \<noteq> [] \<Longrightarrow> conforms (Suc (Suc (Suc n))) processSummarySchema (process_summary_json (process_summary_of h p)) \<longleftrightarrow> px_exitCode p \<noteq> None"
  by (simp add: processSummarySchema_def process_summary_json_def process_summary_of_def opt_text_def jget_def split: option.split)

abbreviation list_schema :: json where
  "list_schema \<equiv> sch_object [(''processes'', JObj [(''type'', JStr ''array''), (''items'', processSummarySchema)])] [''processes'']"

lemma list_conforms:
  assumes "registry_ok r" and "\<forall>(i, p) \<in> set (pg_processes r). px_command p \<noteq> []"
  shows "conforms 5 list_schema (JObj [(''processes'', JArr (map process_summary_json (list_processes h r)))]) \<longleftrightarrow>
    (\<forall>i p. get_process r i = Some p \<longrightarrow> px_state p = ''exited'')"
proof -
  have "conforms 5 list_schema (JObj [(''processes'', JArr (map process_summary_json (list_processes h r)))]) \<longleftrightarrow>
      list_all (\<lambda>q. conforms (Suc (Suc (Suc 0))) processSummarySchema (process_summary_json q)) (list_processes h r)"
    by (simp add: numeral_eq_Suc jget_def list.pred_map comp_def)
  also have "\<dots> \<longleftrightarrow> (\<forall>(i, p) \<in> set (pg_processes r). px_exitCode p \<noteq> None)"
    using assms(2) summary_conforms [of _ 0 h] by (simp add: list_all_iff listed_set split_beta)
  also have "\<dots> \<longleftrightarrow> (\<forall>i p. get_process r i = Some p \<longrightarrow> px_state p = ''exited'')"
    using assms(1) by (fastforce simp: registry_ok_def record_ok_def get_process_def split: if_splits)
  finally show ?thesis .
qed

lemma os_manifest_name [simp]: "mf_Name (os_manifest app sock meth d input out intent v rb) = meth"
  by (simp add: os_manifest_def)

lemmas plain_handlers = handleServiceStatus_def status_json_def handleServiceAction_def handleServiceRestart_def handlePkgList_def handlePkgInstall_def handlePkgRemove_def
  handlePkgVerify_def

lemma wait_conforms:
  "m \<in> set (buildManifestSet app sock) \<Longrightarrow> mf_Name m = ''process.wait'' \<Longrightarrow> as_declared m (waitResult h t p)"
  unfolding manifest_lists set_append list.set
  by (elim UnE insertE emptyE; clarsimp)
    (simp add: numeral_eq_Suc waitResult_def jget_def split: option.split)

text \<open>Every method but \<open>process.list\<close> answers as declared, apart from the field \<open>passed\<close>.\<close>

lemma dispatch_conforms:
  assumes "m \<in> set (buildManifestSet app sock)" and "os_dispatch h r w (mf_Name m) raw = (r', w', Answered (Inr j))"
    and "mf_Name m \<noteq> ''process.list''"
  shows "as_declared m (without (undeclared (mf_Name m)) j) \<and> (undeclared (mf_Name m) \<noteq> [] \<longrightarrow> \<not> as_declared m j)"
proof (cases "mf_Name m = ''process.wait''")
  case True
  with assms(2) have "process_wait h r raw = Answered (Inr j)" by (auto simp: os_dispatch_def)
  with True wait_conforms [OF assms(1) True] show ?thesis by (auto simp: undeclared_def dest!: wait_answer)
next
  case False
  with assms show ?thesis unfolding manifest_lists set_append list.set
    by (elim UnE insertE emptyE; clarsimp simp: os_dispatch_def undeclared_def case_prod_beta plain_handlers Let_def split: option.splits
      dest!: with_name_answer signal_answer spawn_answer) (simp_all add: numeral_eq_Suc jget_def without_def)
qed

text \<open>
  C23. Answers are as declared. In every state the adapter reaches in at most \<open>2 ^ 64 - 1\<close> steps, a method answers, at once or after a wait,
  with an object that conforms to the output schema of its manifest, with every required field, fields of the
  declared types and no others, but for two exceptions. The list of processes conforms if and only if no process in it
  is running, for which the exit code is null and not an integer. And the answers of \<open>service.status\<close> and
  \<open>pkg.verify\<close>, the two methods declared as verify endpoints, conform only without the field \<open>passed\<close>, by which the
  router judges them, and which their schemas, closed to additional properties, do not have.
\<close>

theorem os_output_fields:
  assumes "(os_step h ^^ n) (os_init w) s" and "n \<le> 2 ^ 64 - 1" and "m \<in> set (buildManifestSet app sock)"
  shows "(os_dispatch h (om_reg s) (om_world s) (mf_Name m) raw = (r', w', Answered (Inr j)) \<longrightarrow>
      (as_declared m (without (undeclared (mf_Name m)) j) \<longleftrightarrow>
         (mf_Name m = ''process.list'' \<longrightarrow> (\<forall>i p. get_process (om_reg s) i = Some p \<longrightarrow> px_state p = ''exited''))) \<and>
      (undeclared (mf_Name m) \<noteq> [] \<longrightarrow> \<not> as_declared m j)) \<and>
    (mf_Name m = ''process.wait'' \<and> os_step h s s' \<and> om_next s' = om_next s \<and> om_answers s' = om_answers s @ [(k, Inr j)] \<longrightarrow> as_declared m j)"
proof (intro conjI impI)
  assume d: "os_dispatch h (om_reg s) (om_world s) (mf_Name m) raw = (r', w', Answered (Inr j))"
  have ok: "registry_ok (om_reg s)" "\<forall>(i, p) \<in> set (pg_processes (om_reg s)). px_command p \<noteq> []"
    using sound.run_keeps [OF assms(1) os_inv_init] given.run_keeps [OF assms(1), of 0] assms(2)
    by (simp_all add: os_inv_def commands_given_def os_init_def newProcessRegistry_def)
  have "as_declared m j \<longleftrightarrow> (\<forall>i p. get_process (om_reg s) i = Some p \<longrightarrow> px_state p = ''exited'')" if "mf_Name m = ''process.list''"
    using assms(3) d that list_conforms [OF ok] unfolding manifest_lists set_append list.set
    by (elim UnE insertE emptyE; clarsimp) (auto simp: os_dispatch_def split: option.splits)
  then show "as_declared m (without (undeclared (mf_Name m)) j) \<longleftrightarrow>
      (mf_Name m = ''process.list'' \<longrightarrow> (\<forall>i p. get_process (om_reg s) i = Some p \<longrightarrow> px_state p = ''exited''))"
    using dispatch_conforms [OF assms(3) d] by (cases "mf_Name m = ''process.list''") (simp_all add: undeclared_def)
  assume "undeclared (mf_Name m) \<noteq> []"
  with dispatch_conforms [OF assms(3) d] show "\<not> as_declared m j" by (cases "mf_Name m = ''process.list''") (simp_all add: undeclared_def)
next
  assume "mf_Name m = ''process.wait'' \<and> os_step h s s' \<and> om_next s' = om_next s \<and> om_answers s' = om_answers s @ [(k, Inr j)]"
  then show "as_declared m j" using wait_conforms [OF assms(3)] by (auto elim!: os_stepE simp: answer_wait_def)
qed

section \<open>Environments\<close>

lemma env_entry_assignment: "CHR ''='' \<notin> set k \<Longrightarrow> env_entry (k @ ''='' @ v) = Some (k, v)"
proof -
  assume "CHR ''='' \<notin> set k"
  then have "index_byte (k @ CHR ''='' # v) (CHR ''='') = Some (length k)" by (induction k) auto
  then show ?thesis by (simp add: env_entry_def)
qed

lemma env_entry_key: "env_entry item = Some (k, v) \<Longrightarrow> CHR ''='' \<notin> set k"
  by (induction item arbitrary: k) (auto simp: env_entry_def split: if_splits)

lemma fold_update_map: "map_of (fold (\<lambda>(k, v) m. AList.update k v m) xs m) = map_of m ++ map_of (rev xs)"
  by (induction xs arbitrary: m) (auto simp: update_conv' map_add_def fun_eq_iff split: option.split)

lemma fold_update_distinct: "distinct (map fst m) \<Longrightarrow> distinct (map fst (fold (\<lambda>(k, v) m. AList.update k v m) xs m))"
  by (induction xs arbitrary: m) (auto simp: distinct_update)

lemma fold_update_keys: "fst ` set (fold (\<lambda>(k, v) m. AList.update k v m) xs m) = fst ` set m \<union> fst ` set xs"
  by (induction xs arbitrary: m) (auto simp: dom_update simp flip: dom_map_of_conv_image_fst, (simp_all add: dom_map_of_conv_image_fst update_conv')?)

text \<open>
  The environment of a spawned process. With overrides, every variable has one entry, in the order of the names, and its
  value is that of the override, if there is one, and otherwise the last one in the environment of the adapter.
\<close>

theorem merge_env:
  assumes "overrides \<noteq> []" and "distinct (map fst overrides)" and "\<And>k v. (k, v) \<in> set overrides \<Longrightarrow> CHR ''='' \<notin> set k"
  shows "\<exists>env. mergeEnv base overrides = map (\<lambda>(k, v). k @ ''='' @ v) env \<and> sorted (map fst env) \<and> distinct (map fst env) \<and>
    map_of env = map_of (rev (List.map_filter env_entry base)) ++ map_of overrides \<and>
    List.map_filter env_entry (mergeEnv base overrides) = env"
proof -
  define vals where "vals = fold (\<lambda>(k, v) m. AList.update k v m) (List.map_filter env_entry base @ overrides) []"
  let ?env = "map (\<lambda>k. (k, the (map_of vals k))) (sort (map fst vals))"
  have d: "distinct (map fst vals)" unfolding vals_def by (rule fold_update_distinct) simp
  have m: "map_of vals = map_of (rev (List.map_filter env_entry base)) ++ map_of overrides"
    using assms(2) by (simp add: vals_def fold_update_map map_of_rev_distinct)
  have "map_of ?env = map_of vals"
  proof
    fix k
    have "map_of ?env k = (if k \<in> set (map fst vals) then Some (the (map_of vals k)) else None)"
      by (simp add: map_of_map_restrict restrict_map_def comp_def)
    also have "\<dots> = map_of vals k" using map_of_eq_None_iff [of vals k] by (cases "map_of vals k") auto
    finally show "map_of ?env k = map_of vals k" .
  qed
  moreover have merged: "mergeEnv base overrides = map (\<lambda>(k, v). k @ ''='' @ v) ?env"
    using assms(1) by (simp add: mergeEnv_def vals_def Let_def)
  moreover have "CHR ''='' \<notin> set k" if "k \<in> set (map fst vals)" for k
    using that assms(3) env_entry_key by (fastforce simp: vals_def fold_update_keys List.map_filter_def)
  then have "List.map_filter env_entry (map (\<lambda>(k, v). k @ ''='' @ v) ?env) = ?env"
    by (auto simp: List.map_filter_def env_entry_assignment comp_def simp del: append_Cons intro!: filter_True)
  ultimately show ?thesis using d m by (intro exI [of _ ?env]) (auto simp: comp_def)
qed

section \<open>Witnesses\<close>

text \<open>A Linux host that numbers the processes it starts and on which every program succeeds.\<close>

definition demo_os :: "nat os_host" where
  "demo_os = \<lparr>oo_start = (\<lambda>w _ _ _. (Suc w, Inr (int w))), oo_signal = (\<lambda>w _ _. (w, SignalSent)), oo_run = (\<lambda>w _. (w, None, ''ok'')),
     oo_environ = [''A=1'', ''B=2'', ''A=3''], oo_now = int, oo_format = itoa, oo_linux = True\<rparr>"

definition demo_id :: raw where
  "demo_id = Raw (JObj [(''process_id'', JStr ''proc-1'')])"

definition after_request :: "nat os_state \<Rightarrow> string \<Rightarrow> raw \<Rightarrow> nat os_state" where
  "after_request s meth raw =
     (case os_dispatch demo_os (om_reg s) (om_world s) meth raw of
        (r', w', Answered x) \<Rightarrow> s\<lparr>om_reg := r', om_world := w', om_answers := om_answers s @ [(om_next s, x)], om_next := Suc (om_next s)\<rparr>
      | (r', w', Blocked i d) \<Rightarrow> s\<lparr>om_reg := r', om_world := w', om_waits := om_waits s @ [(om_next s, i, d \<noteq> None)], om_next := Suc (om_next s)\<rparr>)"

lemma after_request_step: "os_step demo_os s (after_request s meth raw)"
proof -
  obtain r' w' x where d: "os_dispatch demo_os (om_reg s) (om_world s) meth raw = (r', w', x)" by (cases "os_dispatch demo_os (om_reg s) (om_world s) meth raw")
  show ?thesis
  proof (cases x)
    case (Answered y)
    with os_step.request [of demo_os s meth raw r' w' y] d show ?thesis by (simp add: after_request_def)
  next
    case (Blocked i t)
    with os_step.blocks [of demo_os s meth raw r' w' i t] d show ?thesis by (simp add: after_request_def)
  qed
qed

definition demo_s1 :: "nat os_state" where
  "demo_s1 = after_request (os_init 7) ''process.spawn'' (Raw (JObj [(''command'', JArr [JStr ''sleep''])]))"

definition demo_s2 :: "nat os_state" where
  "demo_s2 = after_request demo_s1 ''process.wait'' demo_id"

definition demo_p :: process_record where
  "demo_p = \<lparr>px_processID = ''proc-1'', px_pid = 7, px_command = [''sleep''], px_workingDir = [], px_startedAt = 8, px_state = ''running'',
     px_exitCode = None, px_signal = [], px_exitedAt = None, px_done = False\<rparr>"

definition demo_exited :: process_record where
  "demo_exited = reaped 9 (ExitStatus 3 None) demo_p"

definition demo_s3 :: "nat os_state" where
  "demo_s3 = demo_s2\<lparr>om_reg := (om_reg demo_s2)\<lparr>pg_processes := AList.update ''proc-1'' demo_exited (pg_processes (om_reg demo_s2))\<rparr>\<rparr>"

lemma demo_states:
  "om_reg demo_s1 = \<lparr>pg_counter = 1, pg_processes = [(''proc-1'', demo_p)]\<rparr>" "om_waits demo_s1 = []" "om_next demo_s1 = 1"
  "om_reg demo_s2 = \<lparr>pg_counter = 1, pg_processes = [(''proc-1'', demo_p)]\<rparr>" "om_waits demo_s2 = [(1, ''proc-1'', False)]"
  by code_simp+

lemma demo_get [simp]:
  "get_process (om_reg demo_s2) ''proc-1'' = Some demo_p" "get_process (om_reg demo_s3) ''proc-1'' = Some demo_exited"
  "px_state demo_exited = ''exited''" "px_done demo_exited" "\<not> px_done demo_p" "om_waits demo_s3 = [(1, ''proc-1'', False)]"
  by (simp_all add: get_process_def demo_states demo_s3_def demo_p_def demo_exited_def reaped_def)

lemma demo_run: "(os_step demo_os ^^ 3) (os_init 7) demo_s3"
proof -
  have "os_step demo_os demo_s2 demo_s3"
    using os_step.reap [of demo_s2 "''proc-1''" demo_p demo_os 9 "ExitStatus 3 None"] by (simp add: demo_s3_def demo_exited_def)
  moreover have "os_step demo_os (os_init 7) demo_s1" "os_step demo_os demo_s1 demo_s2"
    unfolding demo_s1_def demo_s2_def by (rule after_request_step)+
  ultimately show ?thesis by (auto simp: numeral_3_eq_3)
qed

theorem os_process_records_witness:
  "\<exists>s p. (os_step demo_os ^^ 3) (os_init 7) s \<and> get_process (om_reg s) ''proc-1'' = Some p \<and> px_state p = ''exited'' \<and> px_exitCode p \<noteq> None"
proof -
  have "(3::nat) \<le> 2 ^ 64 - 1" by simp
  with os_process_records [OF demo_run] demo_get(2-4) have "px_exitCode demo_exited \<noteq> None" by blast
  with demo_run show ?thesis by (intro exI [of _ demo_s3] exI [of _ demo_exited]) simp
qed

theorem os_exit_final_witness:
  "\<exists>s' key. (os_step demo_os ^^ 1) demo_s3 s' \<and> get_process (om_reg s') ''proc-1'' = Some demo_exited \<and>
     os_dispatch demo_os (om_reg s') (om_world s') ''process.kill'' demo_id =
       (om_reg s', om_world s', Answered (Inr (JObj [(''process_id'', JStr ''proc-1''), (''pid'', JNum (px_pid demo_exited)),
         (''already_exited'', JBool True), (''signal_sent'', JStr []), (key, JBool False)])))"
proof -
  have d: "dec_process_id demo_id = Inr ''proc-1''" "trim_space ''proc-1'' = ''proc-1''" by code_simp+
  have "(os_step demo_os ^^ 1) demo_s3 (demo_s3\<lparr>om_world := 100\<rparr>)"
    unfolding relpowp_1 by (rule os_step.elsewhere)
  from os_exit_final [OF demo_run this _ demo_get(2,3) d, of "''process.kill''"] this show ?thesis by auto
qed

theorem os_wait_answer_witness:
  "\<exists>s'. os_step demo_os demo_s3 s' \<and> om_answers s' = om_answers demo_s3 @ [(1, Inr (waitResult demo_os False demo_exited))] \<and>
     jget (data_fields (waitResult demo_os False demo_exited)) ''exit_code'' = Some (JNum 3)"
proof -
  let ?j = "waitResult demo_os False demo_exited"
  let ?s = "answer_wait demo_s3 (1, ''proc-1'', False) (Inr ?j)"
  have st: "os_step demo_os demo_s3 ?s" using os_step.woken [of 1 "''proc-1''" False demo_s3 demo_exited demo_os] by simp
  have a: "om_next ?s = om_next demo_s3" "om_answers ?s = om_answers demo_s3 @ [(1, Inr ?j)]" by (simp_all add: answer_wait_def)
  from os_wait_answer [OF demo_run _ st a] obtain c where "px_exitCode demo_exited = Some c" "jget (data_fields ?j) ''exit_code'' = Some (JNum c)"
    by auto
  moreover have "px_exitCode demo_exited = Some 3" by code_simp
  ultimately show ?thesis using st a by auto
qed

theorem os_manifests_registrable_witness:
  "\<exists>m n. m \<in> set (buildManifestSet ''os'' ''/s'') \<and> mf_Name m = ''pkg.install'' \<and> NormalizeAppPrimitiveManifest m = Inr n \<and> mf_Name n = ''pkg.install''"
proof -
  have "''pkg.install'' \<in> mf_Name ` set (buildManifestSet ''os'' ''/s'')" by (simp add: manifest_names)
  then obtain m where "m \<in> set (buildManifestSet ''os'' ''/s'')" "mf_Name m = ''pkg.install''" by auto
  moreover from this os_manifests_registrable [of "''os''" "''/s''"] obtain n where "NormalizeAppPrimitiveManifest m = Inr n" "mf_Name n = mf_Name m" by metis
  ultimately show ?thesis by auto
qed

theorem os_rollback_refused_witness:
  "\<exists>m \<in> set (buildManifestSet ''os'' ''/s''). mf_Name m = ''pkg.install'' \<and>
     snd (snd (os_dispatch demo_os newProcessRegistry 0 (mf_RollbackEndpoint m)
       (default_params (buildRollbackParams ''pkg.install'' (Raw (JObj [(''name'', JStr ''jq'')])) (JObj [(''installed'', JBool True)]) JNull)))) =
     Answered (Inl (invalidParams ''name is required''))"
proof -
  let ?p = "Raw (JObj [(''name'', JStr ''jq'')])"
  have "list_ex (\<lambda>m. mf_Name m = ''pkg.install'' \<and> mf_RollbackEndpoint m \<noteq> []) (buildManifestSet ''os'' ''/s'')" by (simp add: manifest_lists)
  then obtain m where m: "m \<in> set (buildManifestSet ''os'' ''/s'')" "mf_Name m = ''pkg.install''" "mf_RollbackEndpoint m \<noteq> []"
    by (auto simp: list_ex_iff)
  have "default_params ?p = ?p" by (simp add: default_params_def)
  from os_rollback_refused [OF m(1,3) this, where h = demo_os and r = newProcessRegistry and w = 0 and meth = "''pkg.install''"] m
  show ?thesis by (intro bexI [of _ m]) simp_all
qed

theorem os_output_fields_witness:
  "\<exists>m j. m \<in> set (buildManifestSet ''os'' ''/s'') \<and> mf_Name m = ''pkg.verify'' \<and>
     os_dispatch demo_os (om_reg demo_s3) 0 ''pkg.verify'' (Raw (JObj [(''name'', JStr ''jq'')])) = (om_reg demo_s3, 0, Answered (Inr j)) \<and>
     as_declared m (without [''passed''] j) \<and> \<not> as_declared m j"
proof -
  let ?s = "demo_s3\<lparr>om_world := 0\<rparr>"
  let ?d = "os_dispatch demo_os (om_reg ?s) (om_world ?s) ''pkg.verify'' (Raw (JObj [(''name'', JStr ''jq'')]))"
  have "''pkg.verify'' \<in> mf_Name ` set (buildManifestSet ''os'' ''/s'')" by (simp add: manifest_names)
  then obtain m where m: "m \<in> set (buildManifestSet ''os'' ''/s'')" "mf_Name m = ''pkg.verify''" by auto
  have run: "(os_step demo_os ^^ 4) (os_init 7) ?s"
    using relpowp_Suc_I [OF demo_run os_step.elsewhere] by (simp add: numeral_eq_Suc)
  have t: "trim_space ''jq'' = ''jq''" by code_simp
  have "case ?d of (r', w', Answered (Inr j)) \<Rightarrow> w' = 0 \<and> r' = om_reg demo_s3 | _ \<Rightarrow> False"
    by (simp add: os_dispatch_def with_name_def dec_bind_def field_string_def jget_def handlePkgVerify_def demo_os_def Let_def t)
  then obtain j where j: "?d = (om_reg demo_s3, 0, Answered (Inr j))"
    by (cases ?d) (auto split: request_outcome.splits sum.splits)
  have "as_declared m (without [''passed''] j) \<and> \<not> as_declared m j"
    using os_output_fields [OF run _ m(1), of "Raw (JObj [(''name'', JStr ''jq'')])" "om_reg demo_s3" 0 j] j
    unfolding m(2) by (simp add: undeclared_def)
  with m j show ?thesis by auto
qed

theorem merge_env_witness:
  "mergeEnv (oo_environ demo_os) [(''C'', ''x''), (''B'', ''y'')] = [''A=3'', ''B=y'', ''C=x''] \<and>
   (\<exists>env. mergeEnv (oo_environ demo_os) [(''C'', ''x''), (''B'', ''y'')] = map (\<lambda>(k, v). k @ ''='' @ v) env \<and> map_of env ''A'' = Some ''3'')"
proof -
  have "mergeEnv (oo_environ demo_os) [(''C'', ''x''), (''B'', ''y'')] = [''A=3'', ''B=y'', ''C=x'']" by code_simp
  moreover have "List.map_filter env_entry (oo_environ demo_os) = [(''A'', ''1''), (''B'', ''2''), (''A'', ''3'')]" by code_simp
  ultimately show ?thesis using merge_env [of "[(''C'', ''x''), (''B'', ''y'')]" "oo_environ demo_os"] by fastforce
qed

end
