(* ===== verification/KvStore.thy ===== *)
theory KvStore
  imports OsAdapter
begin

text \<open>
  The two stores of the key-value adapter, \<open>examples/kv_adapter/main.go\<close>: the interface \<open>kvStore\<close> as a record of operations,
  the store in memory and the store on SQLite, whose driver may fail at every statement, and the abstract store, a map
  from keys to entries. The locale \<open>kv_store\<close> is the contract of the interface: an operation does what the abstract
  store does, or reports an error of the driver and changes nothing. \<open>kv_exact\<close> adds that it does not fail.
  Labels and tags that are nil and ones that are empty are one value: every use in the code treats them alike. The texts
  matched by \<open>LIKE\<close> are taken as ASCII.
\<close>

section \<open>Entries\<close>

record kv_metadata =
  km_ContentType :: string
  km_Labels :: "(string \<times> string) list"
  km_Tags :: "string list"
  km_Version :: int

record kv_entry =
  ke_Key :: string
  ke_Value :: string
  ke_Metadata :: kv_metadata
  ke_UpdatedAt :: string

text \<open>
  The errors the handlers tell apart: the two sentinels with their key, an error that already is a JSON-RPC error, and
  any other error.
\<close>

datatype kv_error = KeyExists string | DuplicateKey string | RpcFailure app_rpc_error | StoreFailure go_error

definition kv_error_text :: "kv_error \<Rightarrow> string" where
  "kv_error_text e =
     (case e of
        KeyExists k \<Rightarrow> ''key already exists: '' @ k
      | DuplicateKey k \<Rightarrow> ''duplicate key in batch: '' @ k
      | RpcFailure r \<Rightarrow> xe_Message r
      | StoreFailure x \<Rightarrow> error_text x)"

text \<open>
  The interface. \<open>ko_NoEntries\<close> is the JSON of a listing without entries: the store in memory returns an empty slice, the
  one on SQLite a nil slice.
\<close>

record 's kv_ops =
  ko_Get :: "'s \<Rightarrow> string \<Rightarrow> 's \<times> (kv_error + kv_entry option)"
  ko_Upsert :: "'s \<Rightarrow> kv_entry \<Rightarrow> 's \<times> (kv_error + kv_entry option)"
  ko_Create :: "'s \<Rightarrow> kv_entry \<Rightarrow> 's \<times> (kv_error + unit)"
  ko_Delete :: "'s \<Rightarrow> string \<Rightarrow> 's \<times> (kv_error + kv_entry option)"
  ko_List :: "'s \<Rightarrow> string \<Rightarrow> int \<Rightarrow> 's \<times> (kv_error + kv_entry list)"
  ko_BatchUpsert :: "'s \<Rightarrow> kv_entry list \<Rightarrow> string \<Rightarrow> 's \<times> (kv_error + int \<times> int)"
  ko_ReplaceAll :: "'s \<Rightarrow> kv_entry list \<Rightarrow> bool \<Rightarrow> 's \<times> (kv_error + int)"
  ko_NoEntries :: json

text \<open>The keys of a batch, in order: none is blank and none is repeated.\<close>

fun batch_keys :: "string list \<Rightarrow> kv_entry list \<Rightarrow> kv_error + string list" where
  "batch_keys seen [] = Inr seen"
| "batch_keys seen (e # es) =
     (if trim_space (ke_Key e) = [] then Inl (RpcFailure \<lparr>xe_Code = - 32602, xe_Message = ''entry key is required''\<rparr>)
      else if ke_Key e \<in> set seen then Inl (DuplicateKey (ke_Key e))
      else batch_keys (seen @ [ke_Key e]) es)"

definition validateBatchEntries :: "kv_entry list \<Rightarrow> kv_error + string list" where
  "validateBatchEntries es = batch_keys [] es"

definition up_to :: "int \<Rightarrow> 'a list \<Rightarrow> 'a list" where
  "up_to limit xs = (if limit > 0 then take (nat limit) xs else xs)"

section \<open>In memory\<close>

type_synonym kv_memory = "(string \<times> kv_entry) list"

definition memkv_Get :: "kv_memory \<Rightarrow> string \<Rightarrow> kv_memory \<times> (kv_error + kv_entry option)" where
  "memkv_Get m key = (m, Inr (map_of m key))"

definition memkv_Upsert :: "kv_memory \<Rightarrow> kv_entry \<Rightarrow> kv_memory \<times> (kv_error + kv_entry option)" where
  "memkv_Upsert m e = (AList.update (ke_Key e) e m, Inr (map_of m (ke_Key e)))"

definition memkv_Create :: "kv_memory \<Rightarrow> kv_entry \<Rightarrow> kv_memory \<times> (kv_error + unit)" where
  "memkv_Create m e =
     (if map_of m (ke_Key e) \<noteq> None then (m, Inl (KeyExists (ke_Key e))) else (AList.update (ke_Key e) e m, Inr ()))"

definition memkv_Delete :: "kv_memory \<Rightarrow> string \<Rightarrow> kv_memory \<times> (kv_error + kv_entry option)" where
  "memkv_Delete m key = (if map_of m key \<noteq> None then AList.delete key m else m, Inr (map_of m key))"

definition memkv_List :: "kv_memory \<Rightarrow> string \<Rightarrow> int \<Rightarrow> kv_memory \<times> (kv_error + kv_entry list)" where
  "memkv_List m pre limit =
     (let keys = up_to limit (sort (filter (\<lambda>k. pre = [] \<or> has_prefix k pre) (map fst m)))
      in (m, Inr (map (\<lambda>k. the (map_of m k)) keys)))"

fun memkv_created :: "kv_memory \<Rightarrow> string \<Rightarrow> int \<Rightarrow> string list \<Rightarrow> kv_error + int" where
  "memkv_created m mode created [] = Inr created"
| "memkv_created m mode created (k # ks) =
     (if mode = ''create'' \<and> map_of m k \<noteq> None then Inl (KeyExists k)
      else memkv_created m mode (if map_of m k = None then created + 1 else created) ks)"

definition memkv_store_all :: "kv_memory \<Rightarrow> kv_entry list \<Rightarrow> kv_memory" where
  "memkv_store_all m es = fold (\<lambda>e m. AList.update (ke_Key e) e m) es m"

definition memkv_BatchUpsert :: "kv_memory \<Rightarrow> kv_entry list \<Rightarrow> string \<Rightarrow> kv_memory \<times> (kv_error + int \<times> int)" where
  "memkv_BatchUpsert m es mode =
     (case validateBatchEntries es of
        Inl e \<Rightarrow> (m, Inl e)
      | Inr keys \<Rightarrow>
          (case memkv_created m mode 0 keys of
             Inl e \<Rightarrow> (m, Inl e)
           | Inr created \<Rightarrow> (memkv_store_all m es, Inr (int (length es), created))))"

definition memkv_ReplaceAll :: "kv_memory \<Rightarrow> kv_entry list \<Rightarrow> bool \<Rightarrow> kv_memory \<times> (kv_error + int)" where
  "memkv_ReplaceAll m es merge = (memkv_store_all (if merge then m else []) es, Inr (int (length es)))"

definition mem_kv :: "kv_memory kv_ops" where
  "mem_kv = \<lparr>ko_Get = memkv_Get, ko_Upsert = memkv_Upsert, ko_Create = memkv_Create, ko_Delete = memkv_Delete, ko_List = memkv_List,
     ko_BatchUpsert = memkv_BatchUpsert, ko_ReplaceAll = memkv_ReplaceAll, ko_NoEntries = JArr []\<rparr>"

section \<open>On SQLite\<close>

record kv_row =
  kr_key :: string
  kr_value :: string
  kr_metadata_json :: raw
  kr_updated_at :: string

type_synonym kv_db = "kv_row list sql_db"

definition metadata_json :: "kv_metadata \<Rightarrow> json" where
  "metadata_json m = JObj (opt_text ''content_type'' (km_ContentType m) @
     (if km_Labels m = [] then [] else [(''labels'', JObj (map (\<lambda>(k, v). (k, JStr v)) (km_Labels m)))]) @
     (if km_Tags m = [] then [] else [(''tags'', JArr (map JStr (km_Tags m)))]) @
     (if km_Version m = 0 then [] else [(''version'', JNum (km_Version m))]))"

definition encodeMetadata :: "kv_metadata \<Rightarrow> raw" where
  "encodeMetadata m = json_marshal (metadata_json m)"

definition zero_metadata :: kv_metadata where
  "zero_metadata = \<lparr>km_ContentType = [], km_Labels = [], km_Tags = [], km_Version = 0\<rparr>"

text \<open>A decoded map of labels, as the list of its entries in the order of the keys.\<close>

definition label_map :: "(string \<times> string) list \<Rightarrow> (string \<times> string) list" where
  "label_map l = map (\<lambda>k. (k, the (map_of (rev l) k))) (sort (remdups (map fst l)))"

definition dec_metadata :: "raw \<Rightarrow> kv_metadata decoded" where
  "dec_metadata r =
     dec_bind (dec_map r) (\<lambda>m.
     dec_bind (field_string m ''content_type'') (\<lambda>c.
     dec_bind (dec_string_map m ''labels'') (\<lambda>l.
     dec_bind (field_strings m ''tags'') (\<lambda>t.
     dec_bind (field_int m ''version'') (\<lambda>v.
       Inr \<lparr>km_ContentType = c, km_Labels = label_map l, km_Tags = t, km_Version = v\<rparr>)))))"

definition decodeMetadata :: "raw \<Rightarrow> kv_metadata decoded" where
  "decodeMetadata r =
     (case r of
        RawNil \<Rightarrow> Inr zero_metadata
      | RawText s \<Rightarrow> (if trim_space s = [] then Inr zero_metadata else Inl json_error)
      | Raw j \<Rightarrow> dec_metadata r)"

definition kv_row_of :: "kv_entry \<Rightarrow> kv_row" where
  "kv_row_of e = \<lparr>kr_key = ke_Key e, kr_value = ke_Value e, kr_metadata_json = encodeMetadata (ke_Metadata e), kr_updated_at = ke_UpdatedAt e\<rparr>"

definition scan_kv :: "kv_row \<Rightarrow> kv_error + kv_entry" where
  "scan_kv r =
     (case decodeMetadata (kr_metadata_json r) of
        Inl x \<Rightarrow> Inl (StoreFailure x)
      | Inr m \<Rightarrow> Inr \<lparr>ke_Key = kr_key r, ke_Value = kr_value r, ke_Metadata = m, ke_UpdatedAt = kr_updated_at r\<rparr>)"

definition sqlkv_Get :: "sql_env \<Rightarrow> kv_db \<Rightarrow> string \<Rightarrow> kv_db \<times> (kv_error + kv_entry option)" where
  "sqlkv_Get env d key =
     (case sql_query env d (select_row kr_key key) of
        (d1, Inl x) \<Rightarrow> (d1, Inl (StoreFailure x))
      | (d1, Inr None) \<Rightarrow> (d1, Inr None)
      | (d1, Inr (Some r)) \<Rightarrow> (d1, map_sum id Some (scan_kv r)))"

definition sqlkv_Upsert :: "sql_env \<Rightarrow> kv_db \<Rightarrow> kv_entry \<Rightarrow> kv_db \<times> (kv_error + kv_entry option)" where
  "sqlkv_Upsert env d e =
     (case sqlkv_Get env d (ke_Key e) of
        (d1, Inl x) \<Rightarrow> (d1, Inl x)
      | (d1, Inr prev) \<Rightarrow>
          (case sql_exec env d1 (\<lambda>rows. Inr (upsert_row kr_key (kv_row_of e) rows)) of
             (d2, Some x) \<Rightarrow> (d2, Inl (StoreFailure x))
           | (d2, None) \<Rightarrow> (d2, Inr prev)))"

text \<open>\<open>INSERT OR IGNORE\<close>\<close>

definition insert_new :: "kv_row \<Rightarrow> kv_row list \<Rightarrow> kv_row list" where
  "insert_new r rows = (if kr_key r \<in> kr_key ` set rows then rows else rows @ [r])"

definition sqlkv_Create :: "sql_env \<Rightarrow> kv_db \<Rightarrow> kv_entry \<Rightarrow> kv_db \<times> (kv_error + unit)" where
  "sqlkv_Create env d e =
     (case sql_exec env d (\<lambda>rows. Inr (insert_new (kv_row_of e) rows)) of
        (d1, Some x) \<Rightarrow> (d1, Inl (StoreFailure x))
      | (d1, None) \<Rightarrow> (if ke_Key e \<in> kr_key ` set (db_tables d) then (d1, Inl (KeyExists (ke_Key e))) else (d1, Inr ())))"

definition sqlkv_Delete :: "sql_env \<Rightarrow> kv_db \<Rightarrow> string \<Rightarrow> kv_db \<times> (kv_error + kv_entry option)" where
  "sqlkv_Delete env d key =
     (case sqlkv_Get env d key of
        (d1, Inl x) \<Rightarrow> (d1, Inl x)
      | (d1, Inr None) \<Rightarrow> (d1, Inr None)
      | (d1, Inr (Some prev)) \<Rightarrow>
          (case sql_exec env d1 (\<lambda>rows. Inr (filter (\<lambda>r. kr_key r \<noteq> key) rows)) of
             (d2, Some x) \<Rightarrow> (d2, Inl (StoreFailure x))
           | (d2, None) \<Rightarrow> (d2, Inr (Some prev))))"

text \<open>\<open>LIKE\<close>: a percent sign is any text, an underscore any character, and letters are compared without their case.\<close>

fun sql_like :: "string \<Rightarrow> string \<Rightarrow> bool" where
  "sql_like [] s = (s = [])"
| "sql_like (c # p) [] = (c = CHR ''%'' \<and> sql_like p [])"
| "sql_like (c # p) (d # s) =
     (if c = CHR ''%'' then sql_like p (d # s) \<or> sql_like (c # p) s
      else (c = CHR ''_'' \<or> lower_char c = lower_char d) \<and> sql_like p s)"

fun scan_all_kv :: "kv_row list \<Rightarrow> kv_error + kv_entry list" where
  "scan_all_kv [] = Inr []"
| "scan_all_kv (r # rs) =
     (case scan_kv r of Inl x \<Rightarrow> Inl x | Inr e \<Rightarrow> (case scan_all_kv rs of Inl x \<Rightarrow> Inl x | Inr es \<Rightarrow> Inr (e # es)))"

definition sqlkv_List :: "sql_env \<Rightarrow> kv_db \<Rightarrow> string \<Rightarrow> int \<Rightarrow> kv_db \<times> (kv_error + kv_entry list)" where
  "sqlkv_List env d pre limit =
     (case sql_query env d (\<lambda>rows. up_to limit (sort_key kr_key (filter (\<lambda>r. pre = [] \<or> sql_like (pre @ ''%'') (kr_key r)) rows))) of
        (d1, Inl x) \<Rightarrow> (d1, Inl (StoreFailure x))
      | (d1, Inr rows) \<Rightarrow> (d1, scan_all_kv rows))"

text \<open>The statements of a transaction that store entries, from the \<open>n\<close>-th statement on.\<close>

fun tx_entries :: "sql_env \<Rightarrow> bool \<Rightarrow> nat \<Rightarrow> kv_row list \<Rightarrow> kv_entry list \<Rightarrow> nat \<times> (kv_error + kv_row list)" where
  "tx_entries env create n rows [] = (n, Inr rows)"
| "tx_entries env create n rows (e # es) =
     (case sq_fault env n of
        Some x \<Rightarrow> (Suc n, Inl (StoreFailure x))
      | None \<Rightarrow>
          (if create \<and> ke_Key e \<in> kr_key ` set rows then (Suc n, Inl (KeyExists (ke_Key e)))
           else tx_entries env create (Suc n) (upsert_row kr_key (kv_row_of e) rows) es))"

text \<open>The end of a transaction: after an error it is rolled back.\<close>

definition tx_commit :: "sql_env \<Rightarrow> kv_db \<Rightarrow> nat \<times> (kv_error + kv_row list) \<Rightarrow> 'a \<Rightarrow> kv_db \<times> (kv_error + 'a)" where
  "tx_commit env d x a =
     (case x of
        (n, Inl e) \<Rightarrow> (d\<lparr>db_stmts := n\<rparr>, Inl e)
      | (n, Inr rows) \<Rightarrow>
          (case sq_fault env n of
             Some e \<Rightarrow> (d\<lparr>db_stmts := Suc n\<rparr>, Inl (StoreFailure e))
           | None \<Rightarrow> (d\<lparr>db_stmts := Suc n, db_tables := rows\<rparr>, Inr a)))"

definition lookupExistingKeys :: "sql_env \<Rightarrow> nat \<Rightarrow> kv_row list \<Rightarrow> string list \<Rightarrow> nat \<times> (kv_error + string list)" where
  "lookupExistingKeys env n rows keys =
     (if keys = [] then (n, Inr [])
      else case sq_fault env n of
             Some x \<Rightarrow> (Suc n, Inl (StoreFailure x))
           | None \<Rightarrow> (Suc n, Inr (filter (\<lambda>k. k \<in> set keys) (map kr_key rows))))"

definition sqlkv_BatchUpsert :: "sql_env \<Rightarrow> kv_db \<Rightarrow> kv_entry list \<Rightarrow> string \<Rightarrow> kv_db \<times> (kv_error + int \<times> int)" where
  "sqlkv_BatchUpsert env d es mode =
     (case validateBatchEntries es of
        Inl e \<Rightarrow> (d, Inl e)
      | Inr keys \<Rightarrow>
          (let n1 = Suc (db_stmts d)
           in case sq_fault env (db_stmts d) of
                Some x \<Rightarrow> (d\<lparr>db_stmts := n1\<rparr>, Inl (StoreFailure x))
              | None \<Rightarrow>
                  (case lookupExistingKeys env n1 (db_tables d) keys of
                     (n2, Inl x) \<Rightarrow> (d\<lparr>db_stmts := n2\<rparr>, Inl x)
                   | (n2, Inr existing) \<Rightarrow>
                       (case (if mode = ''create'' then find (\<lambda>e. ke_Key e \<in> set existing) es else None) of
                          Some e \<Rightarrow> (d\<lparr>db_stmts := n2\<rparr>, Inl (KeyExists (ke_Key e)))
                        | None \<Rightarrow> tx_commit env d (tx_entries env (mode = ''create'') n2 (db_tables d) es)
                                    (int (length es), int (length es) - int (length existing))))))"

definition sqlkv_ReplaceAll :: "sql_env \<Rightarrow> kv_db \<Rightarrow> kv_entry list \<Rightarrow> bool \<Rightarrow> kv_db \<times> (kv_error + int)" where
  "sqlkv_ReplaceAll env d es merge =
     (let n1 = Suc (db_stmts d)
      in case sq_fault env (db_stmts d) of
           Some x \<Rightarrow> (d\<lparr>db_stmts := n1\<rparr>, Inl (StoreFailure x))
         | None \<Rightarrow>
             (if merge then tx_commit env d (tx_entries env False n1 (db_tables d) es) (int (length es))
              else case sq_fault env n1 of
                     Some x \<Rightarrow> (d\<lparr>db_stmts := Suc n1\<rparr>, Inl (StoreFailure x))
                   | None \<Rightarrow> tx_commit env d (tx_entries env False (Suc n1) [] es) (int (length es))))"

definition sqlite_kv :: "sql_env \<Rightarrow> kv_db kv_ops" where
  "sqlite_kv env = \<lparr>ko_Get = sqlkv_Get env, ko_Upsert = sqlkv_Upsert env, ko_Create = sqlkv_Create env, ko_Delete = sqlkv_Delete env,
     ko_List = sqlkv_List env, ko_BatchUpsert = sqlkv_BatchUpsert env, ko_ReplaceAll = sqlkv_ReplaceAll env, ko_NoEntries = JNull\<rparr>"

section \<open>The abstract store\<close>

type_synonym kv_map = "string \<Rightarrow> kv_entry option"

definition put_all :: "kv_entry list \<Rightarrow> kv_map \<Rightarrow> kv_map" where
  "put_all es m = fold (\<lambda>e m. m(ke_Key e \<mapsto> e)) es m"

definition spec_List :: "kv_map \<Rightarrow> string \<Rightarrow> int \<Rightarrow> kv_entry list" where
  "spec_List m pre limit = map (\<lambda>k. the (m k)) (up_to limit (filter (\<lambda>k. pre = [] \<or> has_prefix k pre) (sorted_list_of_set (dom m))))"

definition spec_BatchUpsert :: "kv_map \<Rightarrow> kv_entry list \<Rightarrow> string \<Rightarrow> kv_map \<times> (kv_error + int \<times> int)" where
  "spec_BatchUpsert m es mode =
     (case validateBatchEntries es of
        Inl e \<Rightarrow> (m, Inl e)
      | Inr keys \<Rightarrow>
          (case (if mode = ''create'' then find (\<lambda>k. k \<in> dom m) keys else None) of
             Some k \<Rightarrow> (m, Inl (KeyExists k))
           | None \<Rightarrow> (put_all es m, Inr (int (length es), int (length (filter (\<lambda>k. k \<notin> dom m) keys))))))"

definition spec_kv :: "kv_map kv_ops" where
  "spec_kv =
     \<lparr>ko_Get = \<lambda>m k. (m, Inr (m k)),
      ko_Upsert = \<lambda>m e. (m(ke_Key e \<mapsto> e), Inr (m (ke_Key e))),
      ko_Create = \<lambda>m e. if ke_Key e \<in> dom m then (m, Inl (KeyExists (ke_Key e))) else (m(ke_Key e \<mapsto> e), Inr ()),
      ko_Delete = \<lambda>m k. (m(k := None), Inr (m k)),
      ko_List = \<lambda>m p n. (m, Inr (spec_List m p n)),
      ko_BatchUpsert = spec_BatchUpsert,
      ko_ReplaceAll = \<lambda>m es merge. (put_all es (if merge then m else Map.empty), Inr (int (length es))),
      ko_NoEntries = JArr []\<rparr>"

section \<open>The contract\<close>

text \<open>The version of an entry is an \<open>int\<close> of 64 bits, and its labels are a map.\<close>

definition metadata_typed :: "kv_metadata \<Rightarrow> bool" where
  "metadata_typed m \<longleftrightarrow> int64_range (km_Version m) \<and> sorted_wrt (<) (map fst (km_Labels m))"

definition kv_typed :: "kv_entry \<Rightarrow> bool" where
  "kv_typed e = metadata_typed (ke_Metadata e)"

text \<open>An outcome: what the abstract store does, or an error of the driver and no change.\<close>

definition kv_meets :: "('s \<Rightarrow> kv_map) \<Rightarrow> ('s \<Rightarrow> bool) \<Rightarrow> kv_map \<Rightarrow> 's \<times> (kv_error + 'a) \<Rightarrow> kv_map \<times> (kv_error + 'a) \<Rightarrow> bool" where
  "kv_meets view ok m x y \<longleftrightarrow>
     ok (fst x) \<and> ((view (fst x), snd x) = y \<or> view (fst x) = m \<and> (\<exists>e. snd x = Inl (StoreFailure e)))"

locale kv_store =
  fixes ops :: "'s kv_ops" and view :: "'s \<Rightarrow> kv_map" and ok :: "'s \<Rightarrow> bool"
  assumes keys: "ok s \<Longrightarrow> finite (dom (view s)) \<and> (\<forall>k e. view s k = Some e \<longrightarrow> ke_Key e = k \<and> kv_typed e)"
    and get: "ok s \<Longrightarrow> kv_meets view ok (view s) (ko_Get ops s k) (ko_Get spec_kv (view s) k)"
    and upsert: "ok s \<Longrightarrow> kv_typed e \<Longrightarrow> kv_meets view ok (view s) (ko_Upsert ops s e) (ko_Upsert spec_kv (view s) e)"
    and create: "ok s \<Longrightarrow> kv_typed e \<Longrightarrow> kv_meets view ok (view s) (ko_Create ops s e) (ko_Create spec_kv (view s) e)"
    and delete: "ok s \<Longrightarrow> kv_meets view ok (view s) (ko_Delete ops s k) (ko_Delete spec_kv (view s) k)"
    and list: "ok s \<Longrightarrow> kv_meets view ok (view s) (ko_List ops s [] n) (ko_List spec_kv (view s) [] n)"
    and listed: "ok s \<Longrightarrow> ok (fst (ko_List ops s p n)) \<and> view (fst (ko_List ops s p n)) = view s"
    and batch: "ok s \<Longrightarrow> list_all kv_typed es \<Longrightarrow> kv_meets view ok (view s) (ko_BatchUpsert ops s es mode) (ko_BatchUpsert spec_kv (view s) es mode)"
    and replace: "ok s \<Longrightarrow> list_all kv_typed es \<Longrightarrow> kv_meets view ok (view s) (ko_ReplaceAll ops s es merge) (ko_ReplaceAll spec_kv (view s) es merge)"

text \<open>A store that does not fail. Its listings by a prefix are those of the abstract store when \<open>exact_prefix\<close> holds.\<close>

locale kv_exact = kv_store +
  fixes exact_prefix :: "string \<Rightarrow> bool"
  assumes get_runs: "ok s \<Longrightarrow> snd (ko_Get ops s k) \<noteq> Inl (StoreFailure x)"
    and upsert_runs: "ok s \<Longrightarrow> kv_typed e \<Longrightarrow> snd (ko_Upsert ops s e) \<noteq> Inl (StoreFailure x)"
    and create_runs: "ok s \<Longrightarrow> kv_typed e \<Longrightarrow> snd (ko_Create ops s e) \<noteq> Inl (StoreFailure x)"
    and delete_runs: "ok s \<Longrightarrow> snd (ko_Delete ops s k) \<noteq> Inl (StoreFailure x)"
    and list_runs: "ok s \<Longrightarrow> exact_prefix p \<Longrightarrow> snd (ko_List ops s p n) = Inr (spec_List (view s) p n)"
    and no_prefix: "exact_prefix []"
    and batch_runs: "ok s \<Longrightarrow> list_all kv_typed es \<Longrightarrow> snd (ko_BatchUpsert ops s es mode) \<noteq> Inl (StoreFailure x)"
    and replace_runs: "ok s \<Longrightarrow> list_all kv_typed es \<Longrightarrow> snd (ko_ReplaceAll ops s es merge) \<noteq> Inl (StoreFailure x)"
begin

lemma exact:
  assumes "kv_meets view ok m x y" and "\<And>e. snd x \<noteq> Inl (StoreFailure e)"
  shows "ok (fst x) \<and> x = (fst x, snd y) \<and> view (fst x) = fst y"
  using assms by (cases x; cases y) (auto simp: kv_meets_def)

lemmas steps = exact [OF get get_runs] exact [OF upsert upsert_runs] exact [OF create create_runs]
  exact [OF delete delete_runs] exact [OF batch batch_runs] exact [OF replace replace_runs]

end

section \<open>The store in memory\<close>

definition mem_kv_inv :: "kv_memory \<Rightarrow> bool" where
  "mem_kv_inv m \<longleftrightarrow> distinct (map fst m) \<and> (\<forall>k e. map_of m k = Some e \<longrightarrow> ke_Key e = k \<and> kv_typed e)"

lemma mem_kv_inv_update: "mem_kv_inv m \<Longrightarrow> kv_typed e \<Longrightarrow> mem_kv_inv (AList.update (ke_Key e) e m)"
  by (auto simp: mem_kv_inv_def distinct_update update_conv')

lemma mem_kv_inv_delete: "mem_kv_inv m \<Longrightarrow> mem_kv_inv (AList.delete k m)"
  by (auto simp: mem_kv_inv_def distinct_delete delete_conv')

lemma memkv_store_all: "mem_kv_inv m \<Longrightarrow> list_all kv_typed es \<Longrightarrow> mem_kv_inv (memkv_store_all m es) \<and> map_of (memkv_store_all m es) = put_all es (map_of m)"
  by (induction es arbitrary: m) (simp_all add: memkv_store_all_def put_all_def mem_kv_inv_update update_conv')

lemma memkv_store_none: "list_all kv_typed es \<Longrightarrow> mem_kv_inv (memkv_store_all [] es) \<and> map_of (memkv_store_all [] es) = put_all es Map.empty"
  using memkv_store_all [of "[]" es] by (simp add: mem_kv_inv_def)

lemma batch_keys_Inr: "batch_keys seen es = Inr keys \<Longrightarrow> keys = seen @ map ke_Key es \<and> (distinct seen \<longrightarrow> distinct keys)"
  by (induction es arbitrary: seen) (fastforce split: if_splits)+

lemma validate_Inr: "validateBatchEntries es = Inr keys \<Longrightarrow> keys = map ke_Key es \<and> distinct keys"
  using batch_keys_Inr [of "[]" es keys] by (auto simp: validateBatchEntries_def)

lemma validate_Inl: "validateBatchEntries es \<noteq> Inl (StoreFailure x)"
proof -
  have "batch_keys seen es \<noteq> Inl (StoreFailure x)" for seen by (induction es arbitrary: seen) auto
  then show ?thesis by (simp add: validateBatchEntries_def)
qed

lemma memkv_created_eq:
  "memkv_created m mode n keys =
     (case (if mode = ''create'' then find (\<lambda>k. k \<in> dom (map_of m)) keys else None) of
        Some k \<Rightarrow> Inl (KeyExists k) | None \<Rightarrow> Inr (n + int (length (filter (\<lambda>k. k \<notin> dom (map_of m)) keys))))"
  by (induction keys arbitrary: n) (auto split: option.splits)

lemma memkv_keys: "mem_kv_inv m \<Longrightarrow> sorted_list_of_set (dom (map_of m)) = sort (map fst m)"
  by (simp add: mem_kv_inv_def dom_map_of_conv_image_fst sorted_list_of_set_sort_remdups distinct_remdups_id flip: set_map)

lemma memkv_List_eq: "mem_kv_inv m \<Longrightarrow> memkv_List m pre n = (m, Inr (spec_List (map_of m) pre n))"
  by (simp add: memkv_List_def spec_List_def memkv_keys filter_sort)

interpretation memory: kv_exact mem_kv map_of mem_kv_inv "\<lambda>_. True"
proof unfold_locales
  fix s
  assume s: "mem_kv_inv s"
  show "finite (dom (map_of s)) \<and> (\<forall>k e. map_of s k = Some e \<longrightarrow> ke_Key e = k \<and> kv_typed e)"
    using s by (auto simp: mem_kv_inv_def finite_dom_map_of)
  show "kv_meets map_of mem_kv_inv (map_of s) (ko_BatchUpsert mem_kv s es mode) (ko_BatchUpsert spec_kv (map_of s) es mode)"
    if "list_all kv_typed es" for es mode
    using s that by (auto simp: kv_meets_def mem_kv_def spec_kv_def memkv_BatchUpsert_def spec_BatchUpsert_def memkv_created_eq memkv_store_all
        split: sum.split option.split)
  show "snd (ko_BatchUpsert mem_kv s es mode) \<noteq> Inl (StoreFailure x)" for es mode x
    by (auto simp: mem_kv_def memkv_BatchUpsert_def memkv_created_eq validate_Inl split: sum.split option.split)
qed (auto simp: kv_meets_def mem_kv_def spec_kv_def memkv_Get_def memkv_Upsert_def memkv_Create_def memkv_Delete_def memkv_ReplaceAll_def memkv_List_eq
      memkv_store_all memkv_store_none mem_kv_inv_update mem_kv_inv_delete update_conv' delete_conv' dom_def)

section \<open>The store on SQLite\<close>

lemma metadata_fields:
  "jget (data_fields (metadata_json m)) ''content_type'' = (if km_ContentType m = [] then None else Some (JStr (km_ContentType m)))"
  "jget (data_fields (metadata_json m)) ''labels'' =
     (if km_Labels m = [] then None else Some (JObj (map (\<lambda>(k, v). (k, JStr v)) (km_Labels m))))"
  "jget (data_fields (metadata_json m)) ''tags'' = (if km_Tags m = [] then None else Some (JArr (map JStr (km_Tags m))))"
  "jget (data_fields (metadata_json m)) ''version'' = (if km_Version m = 0 then None else Some (JNum (km_Version m)))"
  by (simp_all add: metadata_json_def data_fields_def json_marshal_def jget_def opt_text_def)

lemma string_lists:
  "list_all is_string_or_null (map JStr xs)" "map (elem_string \<circ> JStr) xs = xs"
  "list_all (\<lambda>x. is_string_or_null (snd x)) (map (\<lambda>(k :: string, v). (k, JStr v)) ys)"
  "map ((\<lambda>x. (fst x, elem_string (snd x))) \<circ> (\<lambda>(k :: string, v). (k, JStr v))) ys = ys"
  by (induction xs; simp) (induction ys; auto)+

lemma label_map_sorted: "sorted_wrt (<) (map fst (label_map l))"
  by (simp add: label_map_def comp_def strict_sorted_iff)

lemma label_map_id: "sorted_wrt (<) (map fst l) \<Longrightarrow> label_map l = l"
proof -
  assume s: "sorted_wrt (<) (map fst l)"
  then have "distinct (map fst l)" "sort (remdups (map fst l)) = map fst l" by (simp_all add: strict_sorted_iff distinct_remdups_id sorted_sort_id)
  moreover from this(1) have "map_of (rev l) k = map_of l k" for k by (simp add: map_of_rev_distinct)
  ultimately show ?thesis by (auto simp: label_map_def comp_def intro!: map_idI)
qed

lemma dec_metadata_jget:
  assumes "dec_map r = Inr f" and "\<And>k. jget f k = jget (data_fields (metadata_json m)) k" and "metadata_typed m"
  shows "dec_metadata r = Inr m"
proof (cases m)
  fix c l t v
  assume "m = \<lparr>km_ContentType = c, km_Labels = l, km_Tags = t, km_Version = v\<rparr>"
  with assms show ?thesis
    by (simp add: dec_metadata_def dec_bind_def field_string_def dec_string_map_def field_strings_def field_int_def metadata_fields string_lists
        metadata_typed_def label_map_id label_map_id [of "[]", simplified])
qed

lemma metadata_object: "metadata_json m = JObj (data_fields (metadata_json m))"
  by (simp add: metadata_json_def data_fields_def json_marshal_def)

lemma dec_metadata_json: "metadata_typed m \<Longrightarrow> dec_metadata (Raw (metadata_json m)) = Inr m"
  by (rule dec_metadata_jget [OF _ refl]) (metis metadata_object dec_map.simps(1))

lemma dec_metadata_canon: "metadata_typed m \<Longrightarrow> dec_metadata (Raw (json_canon (metadata_json m))) = Inr m"
proof (rule dec_metadata_jget)
  let ?f = "sort_keys (map (map_prod id json_canon) (data_fields (metadata_json m)))"
  show "dec_map (Raw (json_canon (metadata_json m))) = Inr ?f" by (subst metadata_object) simp
  assume m: "metadata_typed m"
  have "sort_keys (map (map_prod id json_canon) (map (\<lambda>(k, v). (k, JStr v)) (km_Labels m))) = map (\<lambda>(k, v). (k, JStr v)) (km_Labels m)"
    using m sort_keys_id [of "map (\<lambda>(k, v). (k, JStr v)) (km_Labels m)"]
    by (simp add: metadata_typed_def map_prod_def case_prod_beta' comp_def)
  then have "\<forall>j. jget (data_fields (metadata_json m)) k = Some j \<longrightarrow> json_canon j = j" for k
    by (auto simp: metadata_json_def data_fields_def json_marshal_def jget_def opt_text_def comp_def split: if_splits)
  then show "jget ?f k = jget (data_fields (metadata_json m)) k" for k
    unfolding jget_sort_keys_canon by (cases "jget (data_fields (metadata_json m)) k") auto
qed

lemma dec_metadata_typed: "dec_metadata r = Inr m \<Longrightarrow> metadata_typed m"
  by (auto simp: dec_metadata_def dec_bind_def field_int_def metadata_typed_def label_map_sorted int64_range_def elim!: dec_int.elims split: sum.splits option.splits if_splits)

lemma scan_row: "kv_typed e \<Longrightarrow> scan_kv (kv_row_of e) = Inr e"
  by (simp add: scan_kv_def kv_row_of_def encodeMetadata_def json_marshal_def decodeMetadata_def dec_metadata_json kv_typed_def)

definition kv_rows_ok :: "kv_row list \<Rightarrow> bool" where
  "kv_rows_ok rows \<longleftrightarrow> distinct (map kr_key rows) \<and> (\<forall>r \<in> set rows. \<exists>e. kv_typed e \<and> r = kv_row_of e)"

definition sqlkv_ok :: "kv_db \<Rightarrow> bool" where
  "sqlkv_ok d = kv_rows_ok (db_tables d)"

definition rows_map :: "kv_row list \<Rightarrow> kv_map" where
  "rows_map rows k = Option.bind (select_row kr_key k rows) (\<lambda>r. case scan_kv r of Inl _ \<Rightarrow> None | Inr e \<Rightarrow> Some e)"

definition sqlkv_view :: "kv_db \<Rightarrow> kv_map" where
  "sqlkv_view d = rows_map (db_tables d)"

lemma kr_key_row [simp]: "kr_key (kv_row_of e) = ke_Key e"
  by (simp add: kv_row_of_def)

lemma rows_selected:
  assumes "kv_rows_ok rows" and "select_row kr_key k rows = Some r"
  shows "\<exists>e. r = kv_row_of e \<and> kv_typed e \<and> scan_kv r = Inr e \<and> ke_Key e = k \<and> rows_map rows k = Some e"
proof -
  from assms(2) have "r \<in> set rows" "kr_key r = k" using select_row_Some by fastforce+
  with assms obtain e where "r = kv_row_of e" "kv_typed e" by (auto simp: kv_rows_ok_def)
  with assms(2) \<open>kr_key r = k\<close> show ?thesis by (auto simp: rows_map_def scan_row)
qed

lemma rows_map_None: "kv_rows_ok rows \<Longrightarrow> rows_map rows k = None \<longleftrightarrow> select_row kr_key k rows = None"
  using rows_selected [of rows k] by (cases "select_row kr_key k rows") (auto simp: rows_map_def)

lemma select_row_key: "select_row key k rows = None \<longleftrightarrow> k \<notin> key ` set rows"
  by (auto simp: select_row_def find_None_iff)

lemma rows_map_dom: "kv_rows_ok rows \<Longrightarrow> dom (rows_map rows) = kr_key ` set rows"
proof -
  assume "kv_rows_ok rows"
  then have "rows_map rows k = None \<longleftrightarrow> k \<notin> kr_key ` set rows" for k by (simp only: rows_map_None select_row_key)
  then show ?thesis by (auto simp: dom_def)
qed

lemma upsert_row_ok: "kv_rows_ok rows \<Longrightarrow> kv_typed e \<Longrightarrow> kv_rows_ok (upsert_row kr_key (kv_row_of e) rows)"
  by (auto simp: kv_rows_ok_def upsert_row_distinct dest!: upsert_row_set)

lemma upsert_row_map: "kv_typed e \<Longrightarrow> rows_map (upsert_row kr_key (kv_row_of e) rows) = (rows_map rows)(ke_Key e \<mapsto> e)"
  by (auto simp: rows_map_def upsert_row_select scan_row)

lemma filter_rows_ok: "kv_rows_ok rows \<Longrightarrow> kv_rows_ok (filter p rows)"
  by (auto simp: kv_rows_ok_def distinct_map_filter)

lemma filter_rows_map: "rows_map (filter (\<lambda>r. kr_key r \<noteq> k) rows) = (rows_map rows)(k := None)"
  by (auto simp: rows_map_def delete_rows_select)

lemma insert_new_eq: "kr_key r \<notin> kr_key ` set rows \<Longrightarrow> insert_new r rows = upsert_row kr_key r rows"
  by (simp add: insert_new_def upsert_row_def)

lemma sqlkv_Get_cases:
  assumes "kv_rows_ok (db_tables d)"
  shows "db_tables (fst (sqlkv_Get env d k)) = db_tables d \<and>
    (snd (sqlkv_Get env d k) = Inr (rows_map (db_tables d) k) \<or> (\<exists>x. sq_fault env (db_stmts d) = Some x \<and> snd (sqlkv_Get env d k) = Inl (StoreFailure x)))"
proof (cases "sq_fault env (db_stmts d)")
  case None
  show ?thesis
  proof (cases "select_row kr_key k (db_tables d)")
    case (Some r)
    from rows_selected [OF assms Some] Some None show ?thesis by (auto simp: sqlkv_Get_def sql_query_def)
  qed (use None in \<open>auto simp: sqlkv_Get_def sql_query_def rows_map_def\<close>)
qed (simp add: sqlkv_Get_def sql_query_def)

lemma upsert_row_keys: "key ` set (upsert_row key r rows) = insert (key r) (key ` set rows)"
  by (auto simp: upsert_row_def update_rows_def image_iff)

lemma tx_entries_rows:
  assumes "tx_entries env create n rows es = (n', r)" and "kv_rows_ok rows" and "list_all kv_typed es"
    and "create \<longrightarrow> distinct (map ke_Key es) \<and> (\<forall>e \<in> set es. ke_Key e \<notin> kr_key ` set rows)"
  shows "(\<exists>rows'. r = Inr rows' \<and> kv_rows_ok rows' \<and> rows_map rows' = put_all es (rows_map rows)) \<or>
    (\<exists>k x. sq_fault env k = Some x \<and> r = Inl (StoreFailure x))"
  using assms
proof (induction es arbitrary: n rows)
  case (Cons e es)
  let ?rows = "upsert_row kr_key (kv_row_of e) rows"
  show ?case
  proof (cases "sq_fault env n")
    case None
    from Cons.prems(4) have c: "create \<longrightarrow> distinct (map ke_Key es) \<and> (\<forall>e \<in> set es. ke_Key e \<notin> kr_key ` set ?rows)"
      unfolding upsert_row_keys by (auto simp: image_iff)
    from Cons.prems None have "tx_entries env create (Suc n) ?rows es = (n', r)" by (auto split: if_splits)
    from Cons.IH [OF this _ _ c] Cons.prems show ?thesis by (simp add: put_all_def upsert_row_ok upsert_row_map)
  qed (use Cons.prems in auto)
qed (auto simp: put_all_def)

lemma tx_commit_meets:
  assumes "kv_rows_ok (db_tables d)"
    and "(\<exists>rows. snd x = Inr rows \<and> kv_rows_ok rows \<and> rows_map rows = m) \<or> (\<exists>k y. sq_fault env k = Some y \<and> snd x = Inl (StoreFailure y))"
  shows "kv_meets sqlkv_view sqlkv_ok (sqlkv_view d) (tx_commit env d x a) (m, Inr a) \<and>
    ((\<forall>k. sq_fault env k = None) \<longrightarrow> snd (tx_commit env d x a) = Inr a)"
  using assms by (cases x) (auto simp: tx_commit_def kv_meets_def sqlkv_view_def sqlkv_ok_def split: sum.split option.split)

lemma sql_exec_meets:
  assumes "sql_exec env d (\<lambda>rows. Inr (f rows)) = (d', r)"
  shows "(r = None \<and> db_tables d' = f (db_tables d)) \<or> (\<exists>x. sq_fault env (db_stmts d) = Some x \<and> r = Some x \<and> db_tables d' = db_tables d)"
  using assms by (auto simp: sql_exec_def Let_def split: option.splits)
lemma upsert_meets:
  assumes "kv_rows_ok (db_tables d)" and "kv_typed e"
  shows "kv_meets sqlkv_view sqlkv_ok (sqlkv_view d) (sqlkv_Upsert env d e) (ko_Upsert spec_kv (sqlkv_view d) e) \<and>
    ((\<forall>k. sq_fault env k = None) \<longrightarrow> snd (sqlkv_Upsert env d e) \<noteq> Inl (StoreFailure x))"
proof -
  obtain d1 r where g: "sqlkv_Get env d (ke_Key e) = (d1, r)" by fastforce
  with sqlkv_Get_cases [OF assms(1), of env "ke_Key e"] have t: "db_tables d1 = db_tables d"
    "r = Inr (rows_map (db_tables d) (ke_Key e)) \<or> (\<exists>x. sq_fault env (db_stmts d) = Some x \<and> r = Inl (StoreFailure x))" by auto
  obtain d2 r2 where x: "sql_exec env d1 (\<lambda>rows. Inr (upsert_row kr_key (kv_row_of e) rows)) = (d2, r2)" by fastforce
  from sql_exec_meets [OF x] t g x assms show ?thesis
    by (auto simp: sqlkv_Upsert_def kv_meets_def spec_kv_def sqlkv_view_def sqlkv_ok_def upsert_row_ok upsert_row_map)
qed

lemma create_meets:
  assumes "kv_rows_ok (db_tables d)" and "kv_typed e"
  shows "kv_meets sqlkv_view sqlkv_ok (sqlkv_view d) (sqlkv_Create env d e) (ko_Create spec_kv (sqlkv_view d) e) \<and>
    ((\<forall>k. sq_fault env k = None) \<longrightarrow> snd (sqlkv_Create env d e) \<noteq> Inl (StoreFailure x))"
proof -
  obtain d1 r where x: "sql_exec env d (\<lambda>rows. Inr (insert_new (kv_row_of e) rows)) = (d1, r)" by fastforce
  show ?thesis
  proof (cases "ke_Key e \<in> kr_key ` set (db_tables d)")
    case True
    then have "insert_new (kv_row_of e) (db_tables d) = db_tables d" by (simp add: insert_new_def)
    with sql_exec_meets [OF x] x True assms show ?thesis
      by (auto simp: sqlkv_Create_def kv_meets_def spec_kv_def sqlkv_view_def sqlkv_ok_def rows_map_dom)
  next
    case False
    with sql_exec_meets [OF x] x assms show ?thesis
      by (auto simp: sqlkv_Create_def kv_meets_def spec_kv_def sqlkv_view_def sqlkv_ok_def rows_map_dom insert_new_eq upsert_row_ok upsert_row_map)
  qed
qed

lemma delete_meets:
  assumes "kv_rows_ok (db_tables d)"
  shows "kv_meets sqlkv_view sqlkv_ok (sqlkv_view d) (sqlkv_Delete env d k) (ko_Delete spec_kv (sqlkv_view d) k) \<and>
    ((\<forall>k. sq_fault env k = None) \<longrightarrow> snd (sqlkv_Delete env d k) \<noteq> Inl (StoreFailure x))"
proof -
  obtain d1 r where g: "sqlkv_Get env d k = (d1, r)" by fastforce
  with sqlkv_Get_cases [OF assms(1), of env k] have t: "db_tables d1 = db_tables d"
    "r = Inr (rows_map (db_tables d) k) \<or> (\<exists>x. sq_fault env (db_stmts d) = Some x \<and> r = Inl (StoreFailure x))" by auto
  obtain d2 r2 where x: "sql_exec env d1 (\<lambda>rows. Inr (filter (\<lambda>r. kr_key r \<noteq> k) rows)) = (d2, r2)" by fastforce
  have "rows_map (db_tables d) k = None \<Longrightarrow> (rows_map (db_tables d))(k := None) = rows_map (db_tables d)" by auto
  with sql_exec_meets [OF x] t g x assms show ?thesis
    by (cases "rows_map (db_tables d) k")
      (auto simp: sqlkv_Delete_def kv_meets_def spec_kv_def sqlkv_view_def sqlkv_ok_def filter_rows_ok filter_rows_map)
qed
lemma batch_meets:
  assumes "kv_rows_ok (db_tables d)" and "list_all kv_typed es"
  shows "kv_meets sqlkv_view sqlkv_ok (sqlkv_view d) (sqlkv_BatchUpsert env d es mode) (ko_BatchUpsert spec_kv (sqlkv_view d) es mode) \<and>
    ((\<forall>k. sq_fault env k = None) \<longrightarrow> snd (sqlkv_BatchUpsert env d es mode) \<noteq> Inl (StoreFailure x))"
proof (cases "validateBatchEntries es")
  case (Inl e)
  with validate_Inl [of es x] assms show ?thesis
    by (auto simp: sqlkv_BatchUpsert_def spec_kv_def spec_BatchUpsert_def kv_meets_def sqlkv_ok_def)
next
  case (Inr keys)
  note keys = validate_Inr [OF this]
  let ?rows = "db_tables d" and ?n1 = "Suc (db_stmts d)" and ?failed = "\<lambda>n y. (d\<lparr>db_stmts := n\<rparr>, Inl (StoreFailure y))"
  have failed: "kv_meets sqlkv_view sqlkv_ok (sqlkv_view d) (d\<lparr>db_stmts := n\<rparr>, Inl (StoreFailure y)) z" for n y and z :: "kv_map \<times> (kv_error + int \<times> int)"
    using assms(1) by (auto simp: kv_meets_def sqlkv_view_def sqlkv_ok_def)
  show ?thesis
  proof (cases "sq_fault env (db_stmts d)")
    case (Some y)
    with Inr show ?thesis by (auto simp: sqlkv_BatchUpsert_def intro: failed)
  next
    case None
    let ?ex = "filter (\<lambda>k. k \<in> set keys) (map kr_key ?rows)"
    have ex: "set ?ex = set keys \<inter> dom (sqlkv_view d)" using assms(1) by (auto simp: sqlkv_view_def rows_map_dom)
    have "distinct ?ex" using assms(1) by (simp add: kv_rows_ok_def)
    then have "length ?ex = card (set keys \<inter> dom (sqlkv_view d))" using ex distinct_card by metis
    moreover have "length (filter (\<lambda>k. k \<notin> dom (sqlkv_view d)) keys) = card (set keys - dom (sqlkv_view d))"
      using distinct_card [OF distinct_filter [OF conjunct2 [OF keys], of "\<lambda>k. k \<notin> dom (sqlkv_view d)"]] by (simp add: set_diff_eq)
    moreover have "card (set keys) = length es" using distinct_card [OF conjunct2 [OF keys]] keys by simp
    ultimately have created: "int (length es) - int (length ?ex) = int (length (filter (\<lambda>k. k \<notin> dom (sqlkv_view d)) keys))"
      using card_Int_Diff [of "set keys" "dom (sqlkv_view d)"] by simp
    have found: "find (\<lambda>k. k \<in> dom (sqlkv_view d)) keys = map_option ke_Key (find (\<lambda>e. ke_Key e \<in> set ?ex) es)"
    proof -
      have "find (\<lambda>k. k \<in> A) (map ke_Key xs) = map_option ke_Key (find (\<lambda>e. ke_Key e \<in> A) xs)" for A xs by (induction xs) auto
      moreover have "find (\<lambda>e. ke_Key e \<in> dom (sqlkv_view d)) es = find (\<lambda>e. ke_Key e \<in> set ?ex) es"
        unfolding ex using keys by (intro find_cong) auto
      ultimately show ?thesis using keys by metis
    qed
    obtain n2 r2 where l: "lookupExistingKeys env ?n1 ?rows keys = (n2, r2)" by fastforce
    have r2: "r2 = Inr ?ex \<or> (\<exists>y. sq_fault env ?n1 = Some y \<and> r2 = Inl (StoreFailure y))"
      using l by (cases "keys = []") (auto simp: lookupExistingKeys_def split: option.splits)
    show ?thesis
    proof (cases r2)
      case (Inl y)
      with r2 l \<open>validateBatchEntries es = Inr keys\<close> None show ?thesis by (auto simp: sqlkv_BatchUpsert_def intro: failed)
    next
      case (Inr e)
      with r2 have e: "r2 = Inr ?ex" by auto
      show ?thesis
      proof (cases "if mode = ''create'' then find (\<lambda>e. ke_Key e \<in> set ?ex) es else None")
        case (Some e)
        with \<open>validateBatchEntries es = Inr keys\<close> None l \<open>r2 = Inr ?ex\<close> found assms(1) show ?thesis
          by (auto simp: sqlkv_BatchUpsert_def spec_kv_def spec_BatchUpsert_def kv_meets_def sqlkv_ok_def sqlkv_view_def split: if_splits)
      next
        case None
        then have fresh: "mode = ''create'' \<longrightarrow> distinct (map ke_Key es) \<and> (\<forall>e \<in> set es. ke_Key e \<notin> kr_key ` set ?rows)"
          using keys by (auto simp: find_None_iff)
        obtain n3 r3 where t: "tx_entries env (mode = ''create'') n2 ?rows es = (n3, r3)" by fastforce
        let ?a = "(int (length es), int (length es) - int (length ?ex))"
        have "kv_meets sqlkv_view sqlkv_ok (sqlkv_view d) (tx_commit env d (n3, r3) ?a) (put_all es (rows_map ?rows), Inr ?a) \<and>
          ((\<forall>k. sq_fault env k = None) \<longrightarrow> snd (tx_commit env d (n3, r3) ?a) = Inr ?a)"
          using tx_entries_rows [OF t assms fresh] by (intro tx_commit_meets [OF assms(1)]) auto
        moreover have "sqlkv_BatchUpsert env d es mode = tx_commit env d (n3, r3) ?a"
          using \<open>validateBatchEntries es = Inr keys\<close> \<open>sq_fault env (db_stmts d) = None\<close> l \<open>r2 = Inr ?ex\<close> None t
          by (simp add: sqlkv_BatchUpsert_def)
        moreover have "ko_BatchUpsert spec_kv (sqlkv_view d) es mode = (put_all es (rows_map ?rows), Inr ?a)"
          using \<open>validateBatchEntries es = Inr keys\<close> None found created
          by (auto simp: spec_kv_def spec_BatchUpsert_def sqlkv_view_def split: if_splits)
        ultimately show ?thesis by simp
      qed
    qed
  qed
qed

lemma replace_meets:
  assumes "kv_rows_ok (db_tables d)" and "list_all kv_typed es"
  shows "kv_meets sqlkv_view sqlkv_ok (sqlkv_view d) (sqlkv_ReplaceAll env d es merge) (ko_ReplaceAll spec_kv (sqlkv_view d) es merge) \<and>
    ((\<forall>k. sq_fault env k = None) \<longrightarrow> snd (sqlkv_ReplaceAll env d es merge) \<noteq> Inl (StoreFailure x))"
proof -
  have failed: "kv_meets sqlkv_view sqlkv_ok (sqlkv_view d) (d\<lparr>db_stmts := n\<rparr>, Inl (StoreFailure y)) z" for n y and z :: "kv_map \<times> (kv_error + int)"
    using assms(1) by (auto simp: kv_meets_def sqlkv_view_def sqlkv_ok_def)
  have run: "kv_meets sqlkv_view sqlkv_ok (sqlkv_view d) (tx_commit env d (tx_entries env False n rows es) a) (put_all es (rows_map rows), Inr a) \<and>
      ((\<forall>k. sq_fault env k = None) \<longrightarrow> snd (tx_commit env d (tx_entries env False n rows es) a) = Inr a)"
    if "kv_rows_ok rows" for n rows and a :: int
  proof -
    obtain n3 r3 where t: "tx_entries env False n rows es = (n3, r3)" by fastforce
    from tx_entries_rows [OF t that assms(2)] t show ?thesis by (intro tx_commit_meets [OF assms(1)]) auto
  qed
  have empty: "kv_rows_ok []" "rows_map [] = Map.empty" by (auto simp: kv_rows_ok_def rows_map_def select_row_def)
  show ?thesis
    using failed run [OF assms(1)] run [OF empty(1)] empty(2)
    by (auto simp: sqlkv_ReplaceAll_def spec_kv_def sqlkv_view_def split: option.split)
qed
subsection \<open>Listings\<close>

lemma sort_rows: "distinct (map kr_key rows) \<Longrightarrow> sort (map kr_key rows) = map kr_key (sort_key kr_key rows)"
  by (rule sorted_distinct_set_unique) (simp_all add: distinct_map)

lemma scan_all_ok:
  assumes "kv_rows_ok rows" and "set rs \<subseteq> set rows"
  shows "scan_all_kv rs = Inr (map (\<lambda>k. the (rows_map rows k)) (map kr_key rs))"
  using assms(2)
proof (induction rs)
  case (Cons r rs)
  have "select_row kr_key (kr_key r) rows = Some r"
    using assms(1) Cons.prems by (intro select_row_unique) (auto simp: kv_rows_ok_def)
  from rows_selected [OF assms(1) this] obtain e where "scan_kv r = Inr e" "rows_map rows (kr_key r) = Some e" by auto
  moreover have "scan_all_kv rs = Inr (map (\<lambda>k. the (rows_map rows k)) (map kr_key rs))" using Cons by simp
  ultimately show ?case by simp
qed simp

lemma list_rows:
  assumes "kv_rows_ok rows"
  shows "scan_all_kv (up_to n (sort_key kr_key (filter (\<lambda>r. p (kr_key r)) rows))) =
    Inr (map (\<lambda>k. the (rows_map rows k)) (up_to n (filter p (sorted_list_of_set (dom (rows_map rows))))))"
proof -
  have "sorted_list_of_set (dom (rows_map rows)) = sort (map kr_key rows)"
    using assms by (simp add: rows_map_dom kv_rows_ok_def sorted_list_of_set_sort_remdups distinct_remdups_id flip: set_map)
  then have "filter p (sorted_list_of_set (dom (rows_map rows))) = map kr_key (sort_key kr_key (filter (\<lambda>r. p (kr_key r)) rows))"
    using assms by (simp add: filter_sort sort_rows filter_map comp_def kv_rows_ok_def)
  moreover have "up_to n (map f xs) = map f (up_to n xs)" for f :: "kv_row \<Rightarrow> string" and xs by (simp add: up_to_def take_map)
  moreover have "set (up_to n (sort_key kr_key (filter (\<lambda>r. p (kr_key r)) rows))) \<subseteq> set rows"
    by (auto simp: up_to_def dest: in_set_takeD)
  ultimately show ?thesis using scan_all_ok [OF assms] by simp
qed

text \<open>A prefix without wildcards and without letters selects in SQLite what it selects in Go.\<close>

definition caseless :: "string \<Rightarrow> bool" where
  "caseless p \<longleftrightarrow> (\<forall>c \<in> set p. c \<noteq> CHR ''%'' \<and> c \<noteq> CHR ''_'' \<and> (\<forall>d. lower_char c = lower_char d \<longrightarrow> c = d))"

lemma like_rest: "sql_like ''%'' s"
  by (induction s) auto

lemma like_prefix: "caseless p \<Longrightarrow> sql_like (p @ ''%'') s = has_prefix s p"
proof (induction p arbitrary: s)
  case Nil
  then show ?case by (simp add: like_rest has_prefix_def)
next
  case (Cons c p)
  then show ?case by (cases s) (auto simp: caseless_def has_prefix_def)
qed

lemma sqlkv_List_eq:
  assumes "kv_rows_ok (db_tables d)" and "caseless p"
  shows "kv_meets sqlkv_view sqlkv_ok (sqlkv_view d) (sqlkv_List env d p n) (sqlkv_view d, Inr (spec_List (sqlkv_view d) p n)) \<and>
    ((\<forall>k. sq_fault env k = None) \<longrightarrow> snd (sqlkv_List env d p n) = Inr (spec_List (sqlkv_view d) p n))"
  using assms list_rows [OF assms(1), of n "\<lambda>k. p = [] \<or> has_prefix k p"]
  by (auto simp: sqlkv_List_def sql_query_def kv_meets_def sqlkv_ok_def sqlkv_view_def spec_List_def like_prefix split: option.split)

interpretation sqlite: kv_store "sqlite_kv env" sqlkv_view sqlkv_ok
proof unfold_locales
  fix d
  assume d: "sqlkv_ok d"
  then have r: "kv_rows_ok (db_tables d)" by (simp add: sqlkv_ok_def)
  show "finite (dom (sqlkv_view d)) \<and> (\<forall>k e. sqlkv_view d k = Some e \<longrightarrow> ke_Key e = k \<and> kv_typed e)"
  proof (intro conjI allI impI)
    show "finite (dom (sqlkv_view d))" by (simp add: sqlkv_view_def rows_map_dom [OF r])
    fix k e
    assume "sqlkv_view d k = Some e"
    moreover from this obtain row where "select_row kr_key k (db_tables d) = Some row"
      using rows_map_None [OF r, of k] by (cases "select_row kr_key k (db_tables d)") (auto simp: sqlkv_view_def)
    ultimately show "ke_Key e = k" "kv_typed e" using rows_selected [OF r, of k row] by (auto simp: sqlkv_view_def)
  qed
  show "kv_meets sqlkv_view sqlkv_ok (sqlkv_view d) (ko_Get (sqlite_kv env) d k) (ko_Get spec_kv (sqlkv_view d) k)" for k
    using sqlkv_Get_cases [OF r, of env k] r by (auto simp: kv_meets_def sqlite_kv_def spec_kv_def sqlkv_view_def sqlkv_ok_def)
  show "sqlkv_ok (fst (ko_List (sqlite_kv env) d p n)) \<and> sqlkv_view (fst (ko_List (sqlite_kv env) d p n)) = sqlkv_view d" for p n
    using d by (auto simp: sqlite_kv_def sqlkv_List_def sqlkv_ok_def sqlkv_view_def sql_query_def split: option.split)
  show "kv_meets sqlkv_view sqlkv_ok (sqlkv_view d) (ko_List (sqlite_kv env) d [] n) (ko_List spec_kv (sqlkv_view d) [] n)" for n
    using sqlkv_List_eq [OF r, of "[]"] by (simp add: sqlite_kv_def spec_kv_def caseless_def)
  show "kv_meets sqlkv_view sqlkv_ok (sqlkv_view d) (ko_Delete (sqlite_kv env) d k) (ko_Delete spec_kv (sqlkv_view d) k)" for k
    using delete_meets [OF r] by (simp add: sqlite_kv_def)
  show "kv_typed e \<Longrightarrow> kv_meets sqlkv_view sqlkv_ok (sqlkv_view d) (ko_Upsert (sqlite_kv env) d e) (ko_Upsert spec_kv (sqlkv_view d) e)" for e
    using upsert_meets [OF r] by (simp add: sqlite_kv_def)
  show "kv_typed e \<Longrightarrow> kv_meets sqlkv_view sqlkv_ok (sqlkv_view d) (ko_Create (sqlite_kv env) d e) (ko_Create spec_kv (sqlkv_view d) e)" for e
    using create_meets [OF r] by (simp add: sqlite_kv_def)
  show "list_all kv_typed es \<Longrightarrow>
    kv_meets sqlkv_view sqlkv_ok (sqlkv_view d) (ko_BatchUpsert (sqlite_kv env) d es mode) (ko_BatchUpsert spec_kv (sqlkv_view d) es mode)" for es mode
    using batch_meets [OF r] by (simp add: sqlite_kv_def)
  show "list_all kv_typed es \<Longrightarrow>
    kv_meets sqlkv_view sqlkv_ok (sqlkv_view d) (ko_ReplaceAll (sqlite_kv env) d es merge) (ko_ReplaceAll spec_kv (sqlkv_view d) es merge)" for es merge
    using replace_meets [OF r] by (simp add: sqlite_kv_def)
qed
text \<open>A driver that never fails.\<close>

definition no_faults :: "sql_env \<Rightarrow> sql_env" where
  "no_faults env = env\<lparr>sq_fault := \<lambda>_. None\<rparr>"

lemma no_faults [simp]: "sq_fault (no_faults env) k = None"
  by (simp add: no_faults_def)

interpretation sqlite_exact: kv_exact "sqlite_kv (no_faults env)" sqlkv_view sqlkv_ok caseless
proof unfold_locales
  fix d
  assume "sqlkv_ok d"
  then have r: "kv_rows_ok (db_tables d)" by (simp add: sqlkv_ok_def)
  show "snd (ko_Get (sqlite_kv (no_faults env)) d k) \<noteq> Inl (StoreFailure x)" for k x
    using sqlkv_Get_cases [OF r, of "no_faults env" k] by (auto simp: sqlite_kv_def)
  show "caseless p \<Longrightarrow> snd (ko_List (sqlite_kv (no_faults env)) d p n) = Inr (spec_List (sqlkv_view d) p n)" for p n
    using sqlkv_List_eq [OF r] by (simp add: sqlite_kv_def)
  show "snd (ko_Delete (sqlite_kv (no_faults env)) d k) \<noteq> Inl (StoreFailure x)" for k x
    using delete_meets [OF r, of "no_faults env"] by (simp add: sqlite_kv_def)
  show "kv_typed e \<Longrightarrow> snd (ko_Upsert (sqlite_kv (no_faults env)) d e) \<noteq> Inl (StoreFailure x)" for e x
    using upsert_meets [OF r, of e "no_faults env"] by (simp add: sqlite_kv_def)
  show "kv_typed e \<Longrightarrow> snd (ko_Create (sqlite_kv (no_faults env)) d e) \<noteq> Inl (StoreFailure x)" for e x
    using create_meets [OF r, of e "no_faults env"] by (simp add: sqlite_kv_def)
  show "list_all kv_typed es \<Longrightarrow> snd (ko_BatchUpsert (sqlite_kv (no_faults env)) d es mode) \<noteq> Inl (StoreFailure x)" for es mode x
    using batch_meets [OF r, of es "no_faults env"] by (simp add: sqlite_kv_def)
  show "list_all kv_typed es \<Longrightarrow> snd (ko_ReplaceAll (sqlite_kv (no_faults env)) d es merge) \<noteq> Inl (StoreFailure x)" for es merge x
    using replace_meets [OF r, of es "no_faults env"] by (simp add: sqlite_kv_def)
qed (simp add: caseless_def)

end
