(* ===== verification/KvAdapter.thy ===== *)
theory KvAdapter
  imports KvStore RpcServer
begin

text \<open>
  The key-value adapter of \<open>examples/kv_adapter/main.go\<close> over any store: the handlers of its primitives, the dispatch, the
  manifests it loads and qualifies with a namespace. The text of the time, the SHA-256 of a text and of the JSON of a
  listing, and the error with which a delay ends when the adapter stops are parameters of a request.
\<close>

section \<open>Requests\<close>

record kv_env =
  kx_now :: string
  kx_stopped :: "string option"
  kx_sha256 :: "string \<Rightarrow> string"
  kx_sha256_json :: "json \<Rightarrow> string"

record test_control =
  tc_DelayMs :: int
  tc_ErrorCode :: int
  tc_ErrorMessage :: string

text \<open>A field that is a struct: absent or null, it is left at zero.\<close>

definition sub_struct :: "jmap \<Rightarrow> string \<Rightarrow> jmap decoded" where
  "sub_struct m k = (case jget m k of None \<Rightarrow> Inr [] | Some j \<Rightarrow> dec_map (Raw j))"

definition dec_control :: "jmap \<Rightarrow> test_control decoded" where
  "dec_control m =
     dec_bind (sub_struct m ''test_control'') (\<lambda>c.
     dec_bind (field_int c ''delay_ms'') (\<lambda>d.
     dec_bind (field_int c ''error_code'') (\<lambda>n.
     dec_bind (field_string c ''error_message'') (\<lambda>t.
       Inr \<lparr>tc_DelayMs = d, tc_ErrorCode = n, tc_ErrorMessage = t\<rparr>))))"

definition dec_verify_control :: "jmap \<Rightarrow> (bool \<times> string) decoded" where
  "dec_verify_control m =
     dec_bind (sub_struct m ''verify_control'') (\<lambda>c.
     dec_bind (field_bool c ''force_fail'') (\<lambda>f. dec_bind (field_string c ''message'') (\<lambda>t. Inr (f, t))))"

definition decodeParams :: "raw \<Rightarrow> (jmap \<Rightarrow> 'a decoded) \<Rightarrow> app_rpc_error + 'a" where
  "decodeParams raw f =
     (let r = (case raw of RawNil \<Rightarrow> Raw (JObj []) | RawText s \<Rightarrow> (if trim_space s = [] then Raw (JObj []) else raw) | _ \<Rightarrow> raw)
      in case dec_bind (dec_map r) f of
           Inl e \<Rightarrow> Inl (invalidParams (''invalid params: '' @ error_text e))
         | Inr x \<Rightarrow> Inr x)"

definition applyTestControl :: "kv_env \<Rightarrow> test_control \<Rightarrow> app_rpc_error option" where
  "applyTestControl env c =
     (case (if tc_DelayMs c > 0 then kx_stopped env else None) of
        Some t \<Rightarrow> Some \<lparr>xe_Code = - 32098, xe_Message = t\<rparr>
      | None \<Rightarrow>
          (if tc_ErrorCode c \<noteq> 0
           then Some \<lparr>xe_Code = tc_ErrorCode c, xe_Message = (if tc_ErrorMessage c = [] then ''simulated adapter error'' else tc_ErrorMessage c)\<rparr>
           else None))"

definition internalRPCError :: "kv_error \<Rightarrow> app_rpc_error" where
  "internalRPCError e = internalErr (kv_error_text e)"

text \<open>The beginning of the handlers: the parameters and what the request's test control does.\<close>

definition with_params :: "kv_env \<Rightarrow> 's \<Rightarrow> raw \<Rightarrow> (jmap \<Rightarrow> 'a decoded) \<Rightarrow> ('a \<Rightarrow> 's \<times> app_result) \<Rightarrow> 's \<times> app_result" where
  "with_params env s raw f k =
     (case decodeParams raw (\<lambda>m. dec_bind (f m) (\<lambda>p. dec_bind (dec_control m) (\<lambda>c. Inr (p, c)))) of
        Inl e \<Rightarrow> (s, Inl e)
      | Inr (p, c) \<Rightarrow> (case applyTestControl env c of Some e \<Rightarrow> (s, Inl e) | None \<Rightarrow> k p))"

definition key_required :: app_rpc_error where
  "key_required = invalidParams ''key is required''"

definition forced_message :: "string \<Rightarrow> string" where
  "forced_message t = (if trim_space t = [] then ''verify_control forced failure'' else trim_space t)"

section \<open>Handlers\<close>

definition dec_get :: "jmap \<Rightarrow> (string \<times> string option \<times> bool \<times> string) decoded" where
  "dec_get m =
     dec_bind (field_string m ''key'') (\<lambda>k.
     dec_bind (case jget m ''default'' of None \<Rightarrow> Inr None | Some JNull \<Rightarrow> Inr None | Some j \<Rightarrow> map_sum id Some (dec_string (Raw j))) (\<lambda>d.
     dec_bind (dec_verify_control m) (\<lambda>(f, t). Inr (k, d, f, t))))"

definition handleGet :: "kv_env \<Rightarrow> 's kv_ops \<Rightarrow> 's \<Rightarrow> raw \<Rightarrow> 's \<times> app_result" where
  "handleGet env ops s raw =
     with_params env s raw dec_get (\<lambda>(key, default, force, message).
       if trim_space key = [] then (s, Inl key_required)
       else if force then (s, Inl \<lparr>xe_Code = 4093, xe_Message = forced_message message\<rparr>)
       else case ko_Get ops s key of
              (s', Inl e) \<Rightarrow> (s', Inl (internalRPCError e))
            | (s', Inr None) \<Rightarrow>
                (s', case default of
                       Some v \<Rightarrow> Inr (JObj [(''found'', JBool False), (''key'', JStr key), (''value'', JStr v)])
                     | None \<Rightarrow> Inl \<lparr>xe_Code = 4041, xe_Message = ''key not found: '' @ key\<rparr>)
            | (s', Inr (Some e)) \<Rightarrow>
                (s', Inr (JObj [(''found'', JBool True), (''key'', JStr (ke_Key e)), (''value'', JStr (ke_Value e)),
                   (''metadata'', metadata_json (ke_Metadata e)), (''updated_at'', JStr (ke_UpdatedAt e))])))"

definition field_metadata :: "jmap \<Rightarrow> string \<Rightarrow> kv_metadata decoded" where
  "field_metadata m k = (case jget m k of None \<Rightarrow> Inr zero_metadata | Some j \<Rightarrow> dec_metadata (Raw j))"

definition dec_set :: "jmap \<Rightarrow> (string \<times> string \<times> string \<times> kv_metadata) decoded" where
  "dec_set m =
     dec_bind (field_string m ''key'') (\<lambda>k.
     dec_bind (field_string m ''value'') (\<lambda>v.
     dec_bind (field_string m ''mode'') (\<lambda>o1.
     dec_bind (field_metadata m ''metadata'') (\<lambda>md. Inr (k, v, o1, md)))))"

definition set_mode :: "string \<Rightarrow> string" where
  "set_mode mode = (if mode = [] then ''upsert'' else mode)"

definition invalid_mode :: app_rpc_error where
  "invalid_mode = invalidParams ''mode must be one of: create, upsert''"

definition entry_at :: "kv_env \<Rightarrow> string \<Rightarrow> string \<Rightarrow> kv_metadata \<Rightarrow> kv_entry" where
  "entry_at env k v md = \<lparr>ke_Key = k, ke_Value = v, ke_Metadata = md, ke_UpdatedAt = kx_now env\<rparr>"

definition created_json :: "kv_env \<Rightarrow> string \<Rightarrow> string \<Rightarrow> json" where
  "created_json env key value =
     JObj [(''stored'', JBool True), (''key'', JStr key), (''previous_exists'', JBool False), (''previous_value'', JStr []),
       (''size_bytes'', JNum (int (length value))), (''value_sha256'', JStr (kx_sha256 env value)), (''updated_at'', JStr (kx_now env))]"

definition stored_json :: "kv_env \<Rightarrow> string \<Rightarrow> string \<Rightarrow> kv_entry option \<Rightarrow> json" where
  "stored_json env key value prev =
     JObj [(''stored'', JBool True), (''key'', JStr key), (''previous_exists'', JBool (prev \<noteq> None)),
       (''previous_value'', JStr (case prev of None \<Rightarrow> [] | Some e \<Rightarrow> ke_Value e)),
       (''previous_metadata'', metadata_json (case prev of None \<Rightarrow> zero_metadata | Some e \<Rightarrow> ke_Metadata e)),
       (''size_bytes'', JNum (int (length value))), (''value_sha256'', JStr (kx_sha256 env value)), (''updated_at'', JStr (kx_now env))]"

definition handleSet :: "kv_env \<Rightarrow> 's kv_ops \<Rightarrow> 's \<Rightarrow> raw \<Rightarrow> 's \<times> app_result" where
  "handleSet env ops s raw =
     with_params env s raw dec_set (\<lambda>(key, value, mode, md).
       if trim_space key = [] then (s, Inl key_required)
       else if set_mode mode \<noteq> ''upsert'' \<and> set_mode mode \<noteq> ''create'' then (s, Inl invalid_mode)
       else if set_mode mode = ''create'' then
         (case ko_Create ops s (entry_at env key value md) of
            (s', Inl e) \<Rightarrow> (s', Inl (case e of KeyExists _ \<Rightarrow> \<lparr>xe_Code = 4091, xe_Message = kv_error_text e\<rparr> | _ \<Rightarrow> internalRPCError e))
          | (s', Inr _) \<Rightarrow> (s', Inr (created_json env key value)))
       else
         (case ko_Upsert ops s (entry_at env key value md) of
            (s', Inl e) \<Rightarrow> (s', Inl (internalRPCError e))
          | (s', Inr prev) \<Rightarrow> (s', Inr (stored_json env key value prev))))"

definition dec_key :: "jmap \<Rightarrow> string decoded" where
  "dec_key m = field_string m ''key''"

definition handleDelete :: "kv_env \<Rightarrow> 's kv_ops \<Rightarrow> 's \<Rightarrow> raw \<Rightarrow> 's \<times> app_result" where
  "handleDelete env ops s raw =
     with_params env s raw dec_key (\<lambda>key.
       if trim_space key = [] then (s, Inl key_required)
       else case ko_Delete ops s key of
              (s', Inl e) \<Rightarrow> (s', Inl (internalRPCError e))
            | (s', Inr prev) \<Rightarrow>
                (s', Inr (JObj [(''deleted'', JBool (prev \<noteq> None)), (''key'', JStr key),
                   (''previous_value'', JStr (case prev of None \<Rightarrow> [] | Some e \<Rightarrow> ke_Value e))])))"

definition dec_list_params :: "jmap \<Rightarrow> (string \<times> int \<times> bool) decoded" where
  "dec_list_params m =
     dec_bind (field_string m ''prefix'') (\<lambda>p. dec_bind (field_int m ''limit'') (\<lambda>l. dec_bind (field_bool m ''include_value'') (\<lambda>v. Inr (p, l, v))))"

definition list_item :: "bool \<Rightarrow> kv_entry \<Rightarrow> json" where
  "list_item v e = JObj ([(''key'', JStr (ke_Key e)), (''metadata'', metadata_json (ke_Metadata e)), (''updated_at'', JStr (ke_UpdatedAt e))] @
     (if v then [(''value'', JStr (ke_Value e))] else []))"

definition handleList :: "kv_env \<Rightarrow> 's kv_ops \<Rightarrow> 's \<Rightarrow> raw \<Rightarrow> 's \<times> app_result" where
  "handleList env ops s raw =
     with_params env s raw dec_list_params (\<lambda>(pre, limit, v).
       case ko_List ops s pre limit of
         (s', Inl e) \<Rightarrow> (s', Inl (internalRPCError e))
       | (s', Inr es) \<Rightarrow> (s', Inr (JObj [(''entries'', JArr (map (list_item v) es)), (''count'', JNum (int (length es)))])))"

definition handleExists :: "kv_env \<Rightarrow> 's kv_ops \<Rightarrow> 's \<Rightarrow> raw \<Rightarrow> 's \<times> app_result" where
  "handleExists env ops s raw =
     with_params env s raw dec_key (\<lambda>key.
       if trim_space key = [] then (s, Inl key_required)
       else case ko_Get ops s key of
              (s', Inl e) \<Rightarrow> (s', Inl (internalRPCError e))
            | (s', Inr e) \<Rightarrow> (s', Inr (JObj [(''key'', JStr key), (''exists'', JBool (e \<noteq> None))])))"

definition dec_item :: "json \<Rightarrow> (string \<times> string \<times> kv_metadata) decoded" where
  "dec_item j =
     dec_bind (dec_map (Raw j)) (\<lambda>m.
     dec_bind (field_string m ''key'') (\<lambda>k.
     dec_bind (field_string m ''value'') (\<lambda>v.
     dec_bind (field_metadata m ''metadata'') (\<lambda>md. Inr (k, v, md)))))"

definition dec_entries :: "jmap \<Rightarrow> ((string \<times> string \<times> kv_metadata) list \<times> string) decoded" where
  "dec_entries m = dec_bind (field_list dec_item m ''entries'') (\<lambda>es. dec_bind (field_string m ''mode'') (\<lambda>o1. Inr (es, o1)))"

definition entries_at :: "kv_env \<Rightarrow> (string \<times> string \<times> kv_metadata) list \<Rightarrow> kv_entry list" where
  "entries_at env items = map (\<lambda>(k, v, md). entry_at env k v md) items"

definition handleBatchSet :: "kv_env \<Rightarrow> 's kv_ops \<Rightarrow> 's \<Rightarrow> raw \<Rightarrow> 's \<times> app_result" where
  "handleBatchSet env ops s raw =
     with_params env s raw dec_entries (\<lambda>(items, mode).
       if set_mode mode \<noteq> ''upsert'' \<and> set_mode mode \<noteq> ''create'' then (s, Inl invalid_mode)
       else case ko_BatchUpsert ops s (entries_at env items) (set_mode mode) of
              (s', Inl e) \<Rightarrow>
                (s', Inl (case e of
                   RpcFailure r \<Rightarrow> r
                 | StoreFailure x \<Rightarrow> internalRPCError e
                 | _ \<Rightarrow> \<lparr>xe_Code = 4092, xe_Message = kv_error_text e\<rparr>))
            | (s', Inr (stored, created)) \<Rightarrow>
                (s', Inr (JObj [(''stored'', JNum stored), (''created'', JNum created), (''entry_count'', JNum (int (length items))),
                   (''completed_at'', JStr (kx_now env))])))"

definition dec_export :: "jmap \<Rightarrow> (string \<times> bool) decoded" where
  "dec_export m = dec_bind (field_string m ''format'') (\<lambda>f. dec_bind (field_bool m ''include_metadata'') (\<lambda>b. Inr (f, b)))"

definition map_item :: "bool \<Rightarrow> kv_entry \<Rightarrow> string \<times> json" where
  "map_item meta e =
     (ke_Key e, if meta then JObj [(''value'', JStr (ke_Value e)), (''metadata'', metadata_json (ke_Metadata e)), (''updated_at'', JStr (ke_UpdatedAt e))]
                else JStr (ke_Value e))"

definition export_item :: "bool \<Rightarrow> kv_entry \<Rightarrow> json" where
  "export_item meta e =
     JObj ([(''key'', JStr (ke_Key e)), (''value'', JStr (ke_Value e))] @
       (if meta then [(''metadata'', metadata_json (ke_Metadata e)), (''updated_at'', JStr (ke_UpdatedAt e))] else []))"

definition handleExport :: "kv_env \<Rightarrow> 's kv_ops \<Rightarrow> 's \<Rightarrow> raw \<Rightarrow> 's \<times> app_result" where
  "handleExport env ops s raw =
     with_params env s raw dec_export (\<lambda>(format, meta).
       case ko_List ops s [] 0 of
         (s', Inl e) \<Rightarrow> (s', Inl (internalRPCError e))
       | (s', Inr es) \<Rightarrow>
           (s', Inr (if format = ''map''
              then JObj [(''format'', JStr ''map''), (''entry_count'', JNum (int (length es))), (''items'', JObj (map (map_item meta) es))]
              else JObj [(''format'', JStr ''entries''), (''entry_count'', JNum (int (length es))), (''entries'', JArr (map (export_item meta) es))])))"

definition handleImport :: "kv_env \<Rightarrow> 's kv_ops \<Rightarrow> 's \<Rightarrow> raw \<Rightarrow> 's \<times> app_result" where
  "handleImport env ops s raw =
     with_params env s raw dec_entries (\<lambda>(items, mode0).
       let mode = (if mode0 = [] then ''replace'' else mode0)
       in if mode \<noteq> ''replace'' \<and> mode \<noteq> ''merge'' then (s, Inl (invalidParams ''mode must be one of: replace, merge''))
          else if list_ex (\<lambda>(k, _). trim_space k = []) items then (s, Inl (invalidParams ''entry key is required''))
          else case ko_ReplaceAll ops s (entries_at env items) (mode = ''merge'') of
                 (s', Inl e) \<Rightarrow> (s', Inl (internalRPCError e))
               | (s', Inr n) \<Rightarrow> (s', Inr (JObj [(''imported'', JNum n), (''mode'', JStr mode), (''completed_at'', JStr (kx_now env))])))"

definition entry_json :: "kv_entry \<Rightarrow> json" where
  "entry_json e = JObj [(''key'', JStr (ke_Key e)), (''value'', JStr (ke_Value e)), (''metadata'', metadata_json (ke_Metadata e)),
     (''updated_at'', JStr (ke_UpdatedAt e))]"

definition digestEntries :: "kv_env \<Rightarrow> json \<Rightarrow> kv_entry list \<Rightarrow> string" where
  "digestEntries env none es = kx_sha256_json env (if es = [] then none else JArr (map entry_json (sort_key ke_Key es)))"

definition dec_verify :: "jmap \<Rightarrow> ((bool \<times> string) \<times> int option) decoded" where
  "dec_verify m =
     dec_bind (dec_verify_control m) (\<lambda>h.
     dec_bind (case jget m ''expected_count'' of None \<Rightarrow> Inr None | Some JNull \<Rightarrow> Inr None | Some j \<Rightarrow> map_sum id Some (dec_int (Raw j))) (\<lambda>n.
       Inr (h, n)))"

definition handleVerify :: "kv_env \<Rightarrow> 's kv_ops \<Rightarrow> 's \<Rightarrow> raw \<Rightarrow> 's \<times> app_result" where
  "handleVerify env ops s raw =
     with_params env s raw dec_verify (\<lambda>((force, message), expected).
       case ko_List ops s [] 0 of
         (s', Inl e) \<Rightarrow> (s', Inl (internalRPCError e))
       | (s', Inr es) \<Rightarrow>
           (let actual = int (length es);
                counted = (case expected of
                   None \<Rightarrow> []
                 | Some n \<Rightarrow> if actual \<noteq> n then [''expected_count='' @ itoa n @ '' actual='' @ itoa actual] else []);
                forced = (if force then [forced_message message] else []);
                consistent = (counted @ forced = [])
            in (s', Inr (JObj [(''passed'', JBool consistent), (''consistent'', JBool consistent), (''entry_count'', JNum actual),
                  (''checksum'', JStr (digestEntries env (ko_NoEntries ops) es)), (''problems'', slice_json (map JStr (counted @ forced)))]))))"

definition metadataEmpty :: "kv_metadata \<Rightarrow> bool" where
  "metadataEmpty m \<longleftrightarrow> km_ContentType m = [] \<and> km_Labels m = [] \<and> km_Tags m = [] \<and> km_Version m = 0"

text \<open>The key, and whether it existed, its value and its metadata before the call.\<close>

definition dec_envelope :: "jmap \<Rightarrow> (string \<times> bool \<times> string \<times> kv_metadata) decoded" where
  "dec_envelope m =
     dec_bind (field_string m ''primitive'') (\<lambda>_.
     dec_bind (field_string m ''checkpoint_id'') (\<lambda>_.
     dec_bind (sub_struct m ''params'') (\<lambda>p.
     dec_bind (field_string p ''key'') (\<lambda>key.
     dec_bind (sub_struct m ''result'') (\<lambda>r.
     dec_bind (field_bool r ''previous_exists'') (\<lambda>x.
     dec_bind (field_string r ''previous_value'') (\<lambda>v.
     dec_bind (field_metadata r ''previous_metadata'') (\<lambda>md.
     dec_bind (sub_struct m ''verify'') (\<lambda>y.
     dec_bind (field_string y ''outcome'') (\<lambda>_.
     dec_bind (field_string y ''message'') (\<lambda>_. Inr (key, x, v, md))))))))))))"

definition rolled_back_json :: "string \<Rightarrow> string \<Rightarrow> json" where
  "rolled_back_json key action = JObj [(''rolled_back'', JBool True), (''key'', JStr key), (''action'', JStr action)]"

definition handleRollbackSet :: "kv_env \<Rightarrow> 's kv_ops \<Rightarrow> 's \<Rightarrow> raw \<Rightarrow> 's \<times> app_result" where
  "handleRollbackSet env ops s raw =
     (case decodeParams raw dec_envelope of
        Inl e \<Rightarrow> (s, Inl e)
      | Inr (key, existed, v, md) \<Rightarrow>
          (if trim_space key = [] then (s, Inl (invalidParams ''rollback params.key is required''))
           else if existed \<or> v \<noteq> [] \<or> \<not> metadataEmpty md then
             (case ko_Upsert ops s (entry_at env key v md) of
                (s', Inl e) \<Rightarrow> (s', Inl (internalRPCError e))
              | (s', Inr _) \<Rightarrow> (s', Inr (rolled_back_json key ''restore_previous_value'')))
           else
             (case ko_Delete ops s key of
                (s', Inl e) \<Rightarrow> (s', Inl (internalRPCError e))
              | (s', Inr _) \<Rightarrow> (s', Inr (rolled_back_json key ''delete_created_value'')))))"

definition kv_dispatch :: "kv_env \<Rightarrow> 's kv_ops \<Rightarrow> 's \<Rightarrow> string \<Rightarrow> raw \<Rightarrow> 's \<times> app_result" where
  "kv_dispatch env ops s meth raw =
     (if meth = ''kv.get'' then handleGet env ops s raw
      else if meth = ''kv.set'' then handleSet env ops s raw
      else if meth = ''kv.delete'' then handleDelete env ops s raw
      else if meth = ''kv.list'' then handleList env ops s raw
      else if meth = ''kv.exists'' then handleExists env ops s raw
      else if meth = ''kv.batch_set'' then handleBatchSet env ops s raw
      else if meth = ''kv.export'' then handleExport env ops s raw
      else if meth = ''kv.import'' then handleImport env ops s raw
      else if meth = ''kv.verify'' then handleVerify env ops s raw
      else if meth = ''kv.rollback_set'' then handleRollbackSet env ops s raw
      else (s, Inl \<lparr>xe_Code = - 32601, xe_Message = ''method not found: '' @ meth\<rparr>))"

definition kv_handleConn :: "kv_env \<Rightarrow> 's kv_ops \<Rightarrow> 's \<Rightarrow> raw option \<Rightarrow> 's \<times> json" where
  "kv_handleConn env ops s line =
     (case line of
        None \<Rightarrow> (s, invalid_request)
      | Some body \<Rightarrow>
          (case dec_app_request body of
             Inl _ \<Rightarrow> (s, invalid_request)
           | Inr (i, meth, params) \<Rightarrow> apsnd (app_response_json i) (kv_dispatch env ops s meth params)))"

text \<open>Requests one after the other, each with its own time.\<close>

fun kv_run :: "'s kv_ops \<Rightarrow> 's \<Rightarrow> (kv_env \<times> string \<times> raw) list \<Rightarrow> 's \<times> app_result list" where
  "kv_run ops s [] = (s, [])"
| "kv_run ops s ((env, meth, raw) # rs) = (let (s', a) = kv_dispatch env ops s meth raw; (s'', as) = kv_run ops s' rs in (s'', a # as))"

section \<open>Manifests\<close>

definition defaultAppID :: string where
  "defaultAppID = ''pb-kv-adapter''"

definition defaultString :: "string \<Rightarrow> string \<Rightarrow> string" where
  "defaultString primary fallback = (if trim_space primary \<noteq> [] then primary else fallback)"

definition shortName :: "string \<Rightarrow> string" where
  "shortName name =
     (let tail = rev (takeWhile (\<lambda>c. c \<noteq> CHR ''.'') (rev name))
      in if CHR ''.'' \<in> set name \<and> tail \<noteq> [] then tail else name)"

definition qualifyName :: "string \<Rightarrow> string \<Rightarrow> string" where
  "qualifyName namespace name0 =
     (let name = trim_space name0
      in if name = [] then name else defaultString (trim_space namespace) ''kv'' @ ''.'' @ shortName name)"

definition qualifyOptionalName :: "string \<Rightarrow> string \<Rightarrow> string" where
  "qualifyOptionalName namespace name0 =
     (let name = trim_space name0
      in if name = [] then [] else if has_prefix name ''state.'' then name else qualifyName namespace name)"

definition qualify_manifest :: "string \<Rightarrow> string \<Rightarrow> string \<Rightarrow> app_manifest \<Rightarrow> app_manifest" where
  "qualify_manifest appID namespace socketPath m =
     m\<lparr>mf_AppID := defaultString (trim_space appID) (defaultString (trim_space (mf_AppID m)) defaultAppID),
       mf_Name := qualifyName namespace (mf_Name m), mf_SocketPath := socketPath,
       mf_VerifyEndpoint := qualifyOptionalName namespace (mf_VerifyEndpoint m),
       mf_Verify := map_option (\<lambda>v. if trim_space (av_Strategy v) = ''primitive'' then v\<lparr>av_Primitive := qualifyOptionalName namespace (av_Primitive v)\<rparr> else v) (mf_Verify m),
       mf_RollbackEndpoint := qualifyOptionalName namespace (mf_RollbackEndpoint m),
       mf_Rollback := map_option (\<lambda>v. if trim_space (ar_Strategy v) = ''primitive'' then v\<lparr>ar_Primitive := qualifyOptionalName namespace (ar_Primitive v)\<rparr> else v) (mf_Rollback m)\<rparr>"

definition loadManifest :: "go_error + raw \<Rightarrow> string \<Rightarrow> string \<Rightarrow> string \<Rightarrow> go_error + app_manifest list" where
  "loadManifest content appID namespace socketPath =
     (case content of
        Inl e \<Rightarrow> Inl e
      | Inr data \<Rightarrow>
          (case (case data of
                   Raw (JArr js) \<Rightarrow> dec_list (\<lambda>j. dec_app_manifest (Raw j)) js
                 | Raw JNull \<Rightarrow> Inr []
                 | _ \<Rightarrow> dec_bind (dec_map data) (\<lambda>m. field_list (\<lambda>j. dec_app_manifest (Raw j)) m ''primitives'')) of
             Inl e \<Rightarrow> Inl (GoWrap ''decode manifest'' e)
           | Inr ms \<Rightarrow>
               (if ms = [] then Inl (GoErr ''manifest contains no primitives'') else Inr (map (qualify_manifest appID namespace socketPath) ms))))"

end
