(* ===== verification/KvSafety.thy ===== *)
theory KvSafety
  imports KvAdapter
begin

text \<open>
  What the key-value adapter promises: requests decode to well-formed entries, the handlers over a store that does not fail
  compute what they compute over the abstract store, an error changes nothing, a rollback restores the key it undoes, and
  an export can be imported.
\<close>

section \<open>What requests decode to\<close>

lemma zero_metadata_typed: "metadata_typed zero_metadata"
  by (simp add: metadata_typed_def zero_metadata_def int64_range_def)

lemma field_metadata_typed: "field_metadata m k = Inr md \<Longrightarrow> metadata_typed md"
  by (auto simp: field_metadata_def zero_metadata_typed dest: dec_metadata_typed split: option.splits)

lemma dec_set_typed: "dec_set m = Inr (k, v, mode, md) \<Longrightarrow> metadata_typed md"
  by (auto simp: dec_set_def dec_bind_def dest: field_metadata_typed split: sum.splits)

lemma dec_item_typed: "dec_item j = Inr (k, v, md) \<Longrightarrow> metadata_typed md"
  by (auto simp: dec_item_def dec_bind_def dest: field_metadata_typed split: sum.splits)

lemma dec_list_all: "dec_list f js = Inr xs \<Longrightarrow> (\<And>j x. f j = Inr x \<Longrightarrow> P x) \<Longrightarrow> list_all P xs"
  by (induction js arbitrary: xs) (auto simp: dec_bind_def split: sum.splits)

lemma dec_entries_typed: "dec_entries m = Inr (items, mode) \<Longrightarrow> list_all kv_typed (entries_at env items)"
proof -
  assume "dec_entries m = Inr (items, mode)"
  then have "field_list dec_item m ''entries'' = Inr items" by (auto simp: dec_entries_def dec_bind_def split: sum.splits)
  then have "list_all (\<lambda>(k, v, md). metadata_typed md) items"
    by (auto simp: field_list_def dest: dec_item_typed elim!: dec_list_all split: option.splits json.splits)
  then show ?thesis by (auto simp: entries_at_def entry_at_def kv_typed_def list_all_iff)
qed

lemma dec_envelope_typed: "dec_envelope m = Inr (k, x, v, md) \<Longrightarrow> metadata_typed md"
  by (auto simp: dec_envelope_def dec_bind_def dest: field_metadata_typed split: sum.splits)

lemma entry_at_sel [simp]: "ke_Key (entry_at env k v md) = k" "ke_Value (entry_at env k v md) = v" "ke_Metadata (entry_at env k v md) = md"
  "ke_UpdatedAt (entry_at env k v md) = kx_now env"
  by (simp_all add: entry_at_def)

lemma entry_at_typed [simp]: "kv_typed (entry_at env k v md) = metadata_typed md"
  by (simp add: kv_typed_def)

lemma decodeParams_Inr: "decodeParams raw f = Inr x \<Longrightarrow> \<exists>m. (dec_map raw = Inr m \<or> m = []) \<and> f m = Inr x"
  by (cases raw) (auto simp: decodeParams_def Let_def dec_bind_def split: sum.splits if_splits)

section \<open>Refinement of the abstract store\<close>

definition kv_sim :: "('s \<Rightarrow> kv_map) \<Rightarrow> ('s \<Rightarrow> bool) \<Rightarrow> 's \<times> 'a \<Rightarrow> kv_map \<times> 'a \<Rightarrow> bool" where
  "kv_sim view ok x y \<longleftrightarrow> ok (fst x) \<and> y = (view (fst x), snd x)"

lemma kv_sim_if: "(c \<Longrightarrow> kv_sim view ok x y) \<Longrightarrow> (\<not> c \<Longrightarrow> kv_sim view ok x' y') \<Longrightarrow> kv_sim view ok (if c then x else x') (if c then y else y')"
  by simp

lemma kv_simE:
  assumes "kv_sim view ok x y"
  obtains s' r where "x = (s', r)" "y = (view s', r)" "ok s'"
  using assms by (cases x) (auto simp: kv_sim_def)

lemma with_params_sim:
  assumes "ok s" and "\<And>m p. dec_map raw = Inr m \<or> m = [] \<Longrightarrow> f m = Inr p \<Longrightarrow> kv_sim view ok (k p) (k' p)"
  shows "kv_sim view ok (with_params env s raw f k) (with_params env (view s) raw f k')"
proof (cases "decodeParams raw (\<lambda>m. dec_bind (f m) (\<lambda>p. dec_bind (dec_control m) (\<lambda>c. Inr (p, c))))")
  case (Inr x)
  moreover from decodeParams_Inr [OF this] obtain m where m: "dec_map raw = Inr m \<or> m = []" "dec_bind (f m) (\<lambda>p. dec_bind (dec_control m) (\<lambda>c. Inr (p, c))) = Inr x" by blast
  from m(2) have "f m = Inr (fst x)" by (cases "f m"; cases "dec_control m") (auto simp: dec_bind_def)
  ultimately show ?thesis using assms(1) assms(2) [OF m(1)] by (cases x) (auto simp: with_params_def kv_sim_def split: option.split)
qed (use assms(1) in \<open>auto simp: with_params_def kv_sim_def\<close>)

text \<open>The prefixes a request asks to list.\<close>

definition lists_only :: "(string \<Rightarrow> bool) \<Rightarrow> string \<Rightarrow> raw \<Rightarrow> bool" where
  "lists_only p meth raw \<longleftrightarrow> (meth = ''kv.list'' \<longrightarrow> (\<forall>m pre n v. dec_map raw = Inr m \<longrightarrow> dec_list_params m = Inr (pre, n, v) \<longrightarrow> p pre))"

context kv_exact
begin

abbreviation "model \<equiv> spec_kv\<lparr>ko_NoEntries := ko_NoEntries ops\<rparr>"

lemma step_eqs:
  assumes "ok s"
  shows "ko_Get spec_kv (view s) k = (view (fst (ko_Get ops s k)), snd (ko_Get ops s k)) \<and> ok (fst (ko_Get ops s k))"
    and "ko_Delete spec_kv (view s) k = (view (fst (ko_Delete ops s k)), snd (ko_Delete ops s k)) \<and> ok (fst (ko_Delete ops s k))"
    and "kv_typed e \<Longrightarrow> ko_Upsert spec_kv (view s) e = (view (fst (ko_Upsert ops s e)), snd (ko_Upsert ops s e)) \<and> ok (fst (ko_Upsert ops s e))"
    and "kv_typed e \<Longrightarrow> ko_Create spec_kv (view s) e = (view (fst (ko_Create ops s e)), snd (ko_Create ops s e)) \<and> ok (fst (ko_Create ops s e))"
    and "exact_prefix p \<Longrightarrow> ko_List spec_kv (view s) p n = (view (fst (ko_List ops s p n)), snd (ko_List ops s p n)) \<and> ok (fst (ko_List ops s p n))"
    and "list_all kv_typed es \<Longrightarrow> ko_BatchUpsert spec_kv (view s) es mode = (view (fst (ko_BatchUpsert ops s es mode)), snd (ko_BatchUpsert ops s es mode)) \<and>
      ok (fst (ko_BatchUpsert ops s es mode))"
    and "list_all kv_typed es \<Longrightarrow> ko_ReplaceAll spec_kv (view s) es merge = (view (fst (ko_ReplaceAll ops s es merge)), snd (ko_ReplaceAll ops s es merge)) \<and>
      ok (fst (ko_ReplaceAll ops s es merge))"
  using assms steps listed list_runs by (simp_all add: prod_eq_iff spec_kv_def)

lemmas handler_rules = with_params_sim [where ok = ok and view = view]

lemma handlers_sim:
  assumes s: "ok s"
  shows "kv_sim view ok (handleGet env ops s raw) (handleGet env model (view s) raw)"
    and "kv_sim view ok (handleSet env ops s raw) (handleSet env model (view s) raw)"
    and "kv_sim view ok (handleDelete env ops s raw) (handleDelete env model (view s) raw)"
    and "kv_sim view ok (handleExists env ops s raw) (handleExists env model (view s) raw)"
    and "kv_sim view ok (handleExport env ops s raw) (handleExport env model (view s) raw)"
    and "kv_sim view ok (handleVerify env ops s raw) (handleVerify env model (view s) raw)"
  unfolding handleGet_def handleSet_def handleDelete_def handleExists_def handleExport_def handleVerify_def
  by (rule handler_rules [where s = s, OF s];
      auto simp: kv_sim_def Let_def case_prod_beta step_eqs [OF s] no_prefix s dest: dec_set_typed split: sum.splits option.splits)+

lemma batch_sim:
  assumes s: "ok s"
  shows "kv_sim view ok (handleBatchSet env ops s raw) (handleBatchSet env model (view s) raw)"
    and "kv_sim view ok (handleImport env ops s raw) (handleImport env model (view s) raw)"
proof -
  have typed: "list_all kv_typed (entries_at env (fst p))" if "dec_entries m = Inr p" for m p
    using dec_entries_typed [of m "fst p" "snd p"] that by simp
  show "kv_sim view ok (handleBatchSet env ops s raw) (handleBatchSet env model (view s) raw)"
    unfolding handleBatchSet_def
  proof (rule handler_rules [where s = s, OF s])
    fix m :: jmap and p
    assume "dec_entries m = Inr p"
    from step_eqs(6) [OF s typed [OF this]] show "kv_sim view ok
      (case p of (items, mode) \<Rightarrow> if set_mode mode \<noteq> ''upsert'' \<and> set_mode mode \<noteq> ''create'' then (s, Inl invalid_mode)
         else case ko_BatchUpsert ops s (entries_at env items) (set_mode mode) of
                (s', Inl e) \<Rightarrow> (s', Inl (case e of RpcFailure r \<Rightarrow> r | StoreFailure x \<Rightarrow> internalRPCError e | _ \<Rightarrow> \<lparr>xe_Code = 4092, xe_Message = kv_error_text e\<rparr>))
              | (s', Inr (stored, created)) \<Rightarrow> (s', Inr (JObj [(''stored'', JNum stored), (''created'', JNum created),
                   (''entry_count'', JNum (int (length items))), (''completed_at'', JStr (kx_now env))])))
      (case p of (items, mode) \<Rightarrow> if set_mode mode \<noteq> ''upsert'' \<and> set_mode mode \<noteq> ''create'' then (view s, Inl invalid_mode)
         else case ko_BatchUpsert model (view s) (entries_at env items) (set_mode mode) of
                (s', Inl e) \<Rightarrow> (s', Inl (case e of RpcFailure r \<Rightarrow> r | StoreFailure x \<Rightarrow> internalRPCError e | _ \<Rightarrow> \<lparr>xe_Code = 4092, xe_Message = kv_error_text e\<rparr>))
              | (s', Inr (stored, created)) \<Rightarrow> (s', Inr (JObj [(''stored'', JNum stored), (''created'', JNum created),
                   (''entry_count'', JNum (int (length items))), (''completed_at'', JStr (kx_now env))])))"
      using s by (simp add: kv_sim_def case_prod_beta split: sum.split)
  qed
  show "kv_sim view ok (handleImport env ops s raw) (handleImport env model (view s) raw)"
    unfolding handleImport_def
    by (rule handler_rules [where s = s, OF s], drule typed)
      (auto simp: kv_sim_def Let_def case_prod_beta step_eqs [OF s] s split: sum.splits)
qed

lemma rollback_sim: "ok s \<Longrightarrow> kv_sim view ok (handleRollbackSet env ops s raw) (handleRollbackSet env model (view s) raw)"
  by (cases "decodeParams raw dec_envelope")
    (auto simp: kv_sim_def handleRollbackSet_def case_prod_beta step_eqs dest!: decodeParams_Inr dest: dec_envelope_typed split: sum.splits)

lemma list_sim:
  assumes s: "ok s" and "lists_only exact_prefix ''kv.list'' raw"
  shows "kv_sim view ok (handleList env ops s raw) (handleList env model (view s) raw)"
  unfolding handleList_def
proof (rule handler_rules [where s = s, OF s])
  fix m :: jmap and p
  assume "dec_map raw = Inr m \<or> m = []" "dec_list_params m = Inr p"
  with assms(2) no_prefix have "exact_prefix (fst p)"
    by (cases p) (auto simp: lists_only_def dec_list_params_def dec_bind_def field_string_def field_int_def field_bool_def)
  from step_eqs(5) [OF s this] show "kv_sim view ok
    (case p of (pre, limit, v) \<Rightarrow> case ko_List ops s pre limit of
         (s', Inl e) \<Rightarrow> (s', Inl (internalRPCError e))
       | (s', Inr es) \<Rightarrow> (s', Inr (JObj [(''entries'', JArr (map (list_item v) es)), (''count'', JNum (int (length es)))])))
    (case p of (pre, limit, v) \<Rightarrow> case ko_List model (view s) pre limit of
         (s', Inl e) \<Rightarrow> (s', Inl (internalRPCError e))
       | (s', Inr es) \<Rightarrow> (s', Inr (JObj [(''entries'', JArr (map (list_item v) es)), (''count'', JNum (int (length es)))])))"
    by (simp add: kv_sim_def case_prod_beta split: sum.split)
qed

lemma dispatch_sim:
  assumes s: "ok s" and "lists_only exact_prefix meth raw"
  shows "kv_sim view ok (kv_dispatch env ops s meth raw) (kv_dispatch env model (view s) meth raw)"
  unfolding kv_dispatch_def
  by (intro kv_sim_if handlers_sim [OF s] batch_sim [OF s] rollback_sim [OF s] list_sim [OF s])
    (use assms in \<open>simp_all add: kv_sim_def\<close>)

lemma run_sim:
  "ok s \<Longrightarrow> list_all (\<lambda>(env, meth, raw). lists_only exact_prefix meth raw) rs \<Longrightarrow> kv_sim view ok (kv_run ops s rs) (kv_run model (view s) rs)"
proof (induction rs arbitrary: s)
  case (Cons r rs)
  obtain env meth raw where r: "r = (env, meth, raw)" by (cases r)
  with Cons.prems have "kv_sim view ok (kv_dispatch env ops s meth raw) (kv_dispatch env model (view s) meth raw)" by (intro dispatch_sim) auto
  then obtain s' a where "kv_dispatch env ops s meth raw = (s', a)" "kv_dispatch env model (view s) meth raw = (view s', a)" "ok s'"
    by (rule kv_simE)
  with Cons.IH [of s'] Cons.prems r show ?case by (auto simp: kv_sim_def Let_def case_prod_beta)
qed (simp add: kv_sim_def)

end

text \<open>The checksum of \<open>kv.verify\<close> tells an empty slice from a nil one; nothing else does.\<close>

definition without_checksum :: "app_result \<Rightarrow> app_result" where
  "without_checksum = map_sum id (\<lambda>j. case j of JObj fs \<Rightarrow> JObj (filter (\<lambda>f. fst f \<noteq> ''checksum'') fs) | _ \<Rightarrow> j)"

lemma no_entries_dispatch:
  "rel_prod (=) (\<lambda>a b. without_checksum a = without_checksum b)
     (kv_dispatch env (spec_kv\<lparr>ko_NoEntries := x\<rparr>) m meth raw) (kv_dispatch env (spec_kv\<lparr>ko_NoEntries := y\<rparr>) m meth raw)"
proof (cases "meth = ''kv.verify''")
  case True
  then show ?thesis
    by (auto simp: kv_dispatch_def handleVerify_def with_params_def without_checksum_def Let_def split: sum.split option.split prod.split)
next
  case False
  then have "kv_dispatch env (spec_kv\<lparr>ko_NoEntries := x\<rparr>) m meth raw = kv_dispatch env (spec_kv\<lparr>ko_NoEntries := y\<rparr>) m meth raw"
    unfolding kv_dispatch_def handleGet_def handleSet_def handleDelete_def handleList_def handleExists_def handleBatchSet_def handleExport_def
      handleImport_def handleRollbackSet_def spec_kv_def kv_ops.simps by simp
  then show ?thesis by (simp add: rel_prod_sel)
qed

lemma no_entries_run:
  "rel_prod (=) (\<lambda>a b. map without_checksum a = map without_checksum b)
     (kv_run (spec_kv\<lparr>ko_NoEntries := x\<rparr>) m rs) (kv_run (spec_kv\<lparr>ko_NoEntries := y\<rparr>) m rs)"
proof (induction rs arbitrary: m)
  case (Cons r rs)
  obtain env meth raw where r: "r = (env, meth, raw)" by (cases r)
  from no_entries_dispatch [of env x m meth raw y] obtain m' a b where
    "kv_dispatch env (spec_kv\<lparr>ko_NoEntries := x\<rparr>) m meth raw = (m', a)" "kv_dispatch env (spec_kv\<lparr>ko_NoEntries := y\<rparr>) m meth raw = (m', b)"
    "without_checksum a = without_checksum b" by (auto elim!: rel_prod.cases)
  with Cons.IH [of m'] r show ?case by (auto simp: Let_def case_prod_beta rel_prod_sel)
qed simp

text \<open>
  C20. The two stores are interchangeable. Started on stores with the same contents, the adapter in memory and the adapter on a
  SQLite that does not fail give the same answers to the same requests and end with the same contents, up to the
  checksums of \<open>kv.verify\<close>, as long as no listing is asked for a prefix with letters or wildcards.
\<close>

theorem kv_backends_agree:
  assumes "mem_kv_inv m" and "sqlkv_ok d" and "map_of m = sqlkv_view d"
    and "list_all (\<lambda>(env, meth, raw). lists_only caseless meth raw) rs"
  shows "map without_checksum (snd (kv_run mem_kv m rs)) = map without_checksum (snd (kv_run (sqlite_kv (no_faults sql)) d rs)) \<and>
    map_of (fst (kv_run mem_kv m rs)) = sqlkv_view (fst (kv_run (sqlite_kv (no_faults sql)) d rs))"
proof -
  have "list_all (\<lambda>(env, meth, raw). lists_only (\<lambda>_. True) meth raw) rs" by (simp add: list_all_iff lists_only_def case_prod_beta)
  from memory.run_sim [OF assms(1) this] sqlite_exact.run_sim [OF assms(2,4), of sql] assms(3)
    no_entries_run [of "ko_NoEntries mem_kv" "map_of m" rs "ko_NoEntries (sqlite_kv (no_faults sql))"]
  show ?thesis by (simp add: kv_sim_def rel_prod_sel)
qed

section \<open>Errors, rollback, export and import\<close>

lemma decodeParams_object:
  assumes "decodeParams raw f = Inr x"
  shows "(\<exists>m. raw = Raw (JObj m) \<and> f m = Inr x) \<or> f [] = Inr x"
  using assms by (cases raw) (auto simp: decodeParams_def Let_def dec_bind_def elim!: dec_map.elims split: sum.splits if_splits)

lemma with_params_Inr:
  assumes "with_params env s raw f k = (s', Inr x)"
  obtains m p where "(\<exists>m. raw = Raw (JObj m) \<and> f m = Inr p) \<or> f [] = Inr p" "k p = (s', Inr x)"
proof (cases "decodeParams raw (\<lambda>m. dec_bind (f m) (\<lambda>p. dec_bind (dec_control m) (\<lambda>c. Inr (p, c))))")
  case (Inr y)
  obtain p c where y: "y = (p, c)" by (cases y)
  have "f m = Inr p" if "dec_bind (f m) (\<lambda>p. dec_bind (dec_control m) (\<lambda>c. Inr (p, c))) = Inr y" for m
    using that y by (cases "f m"; cases "dec_control m") (auto simp: dec_bind_def)
  with decodeParams_object [OF Inr] have "(\<exists>m. raw = Raw (JObj m) \<and> f m = Inr p) \<or> f [] = Inr p" by blast
  moreover from assms Inr y have "k p = (s', Inr x)" by (auto simp: with_params_def split: option.splits)
  ultimately show ?thesis by (rule that)
qed (use assms in \<open>simp add: with_params_def\<close>)

text \<open>What a router sends to the rollback endpoint decodes to what the call found.\<close>

lemma canon_field_string: "field_string (sort_keys (map (map_prod id json_canon) m)) k = field_string m k"
proof -
  have "dec_string (Raw (json_canon j)) = dec_string (Raw j)" for j by (cases j) auto
  then show ?thesis by (simp add: field_string_def jget_sort_keys_canon option.case_eq_if option.map_sel)
qed

lemma canon_field_bool: "field_bool (sort_keys (map (map_prod id json_canon) m)) k = field_bool m k"
proof -
  have "dec_bool (Raw (json_canon j)) = dec_bool (Raw j)" for j by (cases j) auto
  then show ?thesis by (simp add: field_bool_def jget_sort_keys_canon option.case_eq_if option.map_sel)
qed

text \<open>What a call of \<open>kv.set\<close> answers.\<close>

definition set_answer :: "kv_env \<Rightarrow> string \<Rightarrow> string \<Rightarrow> kv_entry option \<Rightarrow> json \<Rightarrow> bool" where
  "set_answer env key value prev j \<longleftrightarrow> (prev = None \<and> j = created_json env key value) \<or> j = stored_json env key value prev"

lemma set_answer_fields:
  assumes "set_answer env key value prev j" and "\<forall>e. prev = Some e \<longrightarrow> kv_typed e"
  shows "\<exists>r. json_canon j = JObj r \<and> field_bool r ''previous_exists'' = Inr (prev \<noteq> None) \<and>
    field_string r ''previous_value'' = Inr (case prev of None \<Rightarrow> [] | Some e \<Rightarrow> ke_Value e) \<and>
    field_metadata r ''previous_metadata'' = Inr (case prev of None \<Rightarrow> zero_metadata | Some e \<Rightarrow> ke_Metadata e)"
proof -
  let ?md = "case prev of None \<Rightarrow> zero_metadata | Some e \<Rightarrow> ke_Metadata e"
  obtain f where f: "j = JObj f" using assms(1) by (auto simp: set_answer_def created_json_def stored_json_def)
  have md: "metadata_typed ?md" using assms(2) by (auto simp: zero_metadata_typed kv_typed_def split: option.split)
  have "field_bool f ''previous_exists'' = Inr (prev \<noteq> None)" "field_string f ''previous_value'' = Inr (case prev of None \<Rightarrow> [] | Some e \<Rightarrow> ke_Value e)"
    "jget f ''previous_metadata'' = None \<and> prev = None \<or> jget f ''previous_metadata'' = Some (metadata_json ?md)"
    using assms(1) f by (auto simp: set_answer_def created_json_def stored_json_def field_bool_def field_string_def jget_def)
  then show ?thesis
    using f dec_metadata_canon [OF md] by (auto simp: canon_field_bool canon_field_string field_metadata_def jget_sort_keys_canon)
qed

text \<open>The verdict a router passes on: nothing after an error, or what \<open>kv.verify\<close> answered.\<close>

definition verdict_ok :: "json \<Rightarrow> bool" where
  "verdict_ok v \<longleftrightarrow> v = JNull \<or>
     (\<exists>b c n t ps. v = json_canon (JObj [(''passed'', JBool b), (''consistent'', JBool c), (''entry_count'', JNum n), (''checksum'', JStr t), (''problems'', ps)]))"

lemma dec_envelope_set:
  assumes "set_answer env key value prev j" and "\<forall>e. prev = Some e \<longrightarrow> kv_typed e" and "dec_set m = Inr (key, value, mode, md)" and "verdict_ok v"
  shows "decodeParams (buildRollbackParams ''kv.set'' (Raw (JObj m)) (json_canon j) v) dec_envelope =
    Inr (key, prev \<noteq> None, case prev of None \<Rightarrow> [] | Some e \<Rightarrow> ke_Value e, case prev of None \<Rightarrow> zero_metadata | Some e \<Rightarrow> ke_Metadata e)"
proof -
  let ?m = "sort_keys (map (map_prod id json_canon) m)"
  obtain r where r: "json_canon j = JObj r" "field_bool r ''previous_exists'' = Inr (prev \<noteq> None)"
    "field_string r ''previous_value'' = Inr (case prev of None \<Rightarrow> [] | Some e \<Rightarrow> ke_Value e)"
    "field_metadata r ''previous_metadata'' = Inr (case prev of None \<Rightarrow> zero_metadata | Some e \<Rightarrow> ke_Metadata e)"
    using set_answer_fields [OF assms(1,2)] by blast
  have "field_string m ''key'' = Inr key" using assms(3) by (auto simp: dec_set_def dec_bind_def split: sum.splits)
  then have k: "field_string ?m ''key'' = Inr key" by (simp only: canon_field_string)
  let ?f = "[(''primitive'', JStr ''kv.set''), (''params'', JObj ?m), (''result'', JObj r), (''verify'', v)]"
  have j: "jget ?f ''primitive'' = Some (JStr ''kv.set'')" "jget ?f ''checkpoint_id'' = None" "jget ?f ''params'' = Some (JObj ?m)"
    "jget ?f ''result'' = Some (JObj r)" "jget ?f ''verify'' = Some v" by (simp_all add: jget_def)
  obtain y where y: "dec_map (Raw v) = Inr y" "field_string y ''outcome'' = Inr []" "field_string y ''message'' = Inr []"
  proof (cases "v = JNull")
    case False
    with assms(4) obtain b c n t ps where "v = json_canon (JObj [(''passed'', JBool b), (''consistent'', JBool c), (''entry_count'', JNum n), (''checksum'', JStr t), (''problems'', ps)])"
      by (auto simp: verdict_ok_def)
    moreover define g where "g = [(''passed'', JBool b), (''consistent'', JBool c), (''entry_count'', JNum n), (''checksum'', JStr t), (''problems'', ps)]"
    ultimately have "dec_map (Raw v) = Inr (sort_keys (map (map_prod id json_canon) g))" by simp
    moreover have "field_string g ''outcome'' = Inr []" "field_string g ''message'' = Inr []" by (simp_all add: g_def field_string_def jget_def)
    ultimately show ?thesis by (intro that [of "sort_keys (map (map_prod id json_canon) g)"]) (simp_all only: canon_field_string)
  qed (use that [of "[]"] in \<open>simp add: field_string_def\<close>)
  have p: "buildRollbackParams ''kv.set'' (Raw (JObj m)) (json_canon j) v = Raw (JObj ?f)"
    by (simp add: buildRollbackParams_def default_params_def json_marshal_def r(1))
  show ?thesis
    unfolding p using r k y by (simp add: decodeParams_def dec_envelope_def dec_bind_def sub_struct_def j field_string_def [of ?f])
qed

context kv_store
begin

lemma meets_fst: "kv_meets view ok (view s) x y \<Longrightarrow> ok (fst x)"
  by (simp add: kv_meets_def)

lemma set_stores:
  assumes "ok s" and "handleSet env ops s raw = (s', Inr j)"
  obtains m key val mo md where "raw = Raw (JObj m)" "dec_set m = Inr (key, val, mo, md)" "trim_space key \<noteq> []" "ok s'"
    "view s' = (view s)(key \<mapsto> entry_at env key val md)" "set_answer env key val (view s key) j"
proof -
  from assms(2) obtain p where raw: "(\<exists>m. raw = Raw (JObj m) \<and> dec_set m = Inr p) \<or> dec_set [] = Inr p"
    and k: "(case p of (key, value, mode, md) \<Rightarrow>
       if trim_space key = [] then (s, Inl key_required)
       else if set_mode mode \<noteq> ''upsert'' \<and> set_mode mode \<noteq> ''create'' then (s, Inl invalid_mode)
       else if set_mode mode = ''create'' then
         (case ko_Create ops s (entry_at env key value md) of
            (s', Inl e) \<Rightarrow> (s', Inl (case e of KeyExists _ \<Rightarrow> \<lparr>xe_Code = 4091, xe_Message = kv_error_text e\<rparr> | _ \<Rightarrow> internalRPCError e))
          | (s', Inr _) \<Rightarrow> (s', Inr (created_json env key value)))
       else
         (case ko_Upsert ops s (entry_at env key value md) of
            (s', Inl e) \<Rightarrow> (s', Inl (internalRPCError e))
          | (s', Inr prev) \<Rightarrow> (s', Inr (stored_json env key value prev)))) = (s', Inr j)"
    unfolding handleSet_def by (rule with_params_Inr)
  obtain key val mo md where p: "p = (key, val, mo, md)" by (cases p)
  have "trim_space key \<noteq> []" using k p by (auto split: if_splits)
  moreover have "dec_set [] = Inr p \<Longrightarrow> key = []" using p by (auto simp: dec_set_def dec_bind_def field_string_def split: sum.splits)
  ultimately obtain m where m: "raw = Raw (JObj m)" "dec_set m = Inr (key, val, mo, md)" using raw p by auto
  have t: "kv_typed (entry_at env key val md)" using dec_set_typed [OF m(2)] by simp
  show ?thesis
    using that [OF m \<open>trim_space key \<noteq> []\<close>] k p upsert [OF assms(1) t] create [OF assms(1) t]
    by (auto simp: kv_meets_def spec_kv_def set_answer_def domIff split: if_splits prod.splits sum.splits)
qed

text \<open>A rollback puts back the key of the call it undoes, whatever has happened since, and nothing else.\<close>

lemma set_rolled_back:
  assumes "ok s" and "handleSet env ops s raw = (s1, Inr j)" and "verdict_ok v" and "ok s2"
    and "handleRollbackSet env' ops s2 (buildRollbackParams ''kv.set'' raw (json_canon j) v) = (s3, Inr x)"
  shows "\<exists>m key rest. raw = Raw (JObj m) \<and> dec_set m = Inr (key, rest) \<and>
    view s3 = (view s2)(key := map_option (\<lambda>e. e\<lparr>ke_UpdatedAt := kx_now env'\<rparr>) (view s key))"
proof -
  from set_stores [OF assms(1,2)] obtain m key val mo md where m: "raw = Raw (JObj m)" "dec_set m = Inr (key, val, mo, md)"
    and k: "trim_space key \<noteq> []" "set_answer env key val (view s key) j" by metis
  have prev: "\<forall>e. view s key = Some e \<longrightarrow> kv_typed e \<and> ke_Key e = key" using keys [OF assms(1)] by auto
  let ?v = "case view s key of None \<Rightarrow> [] | Some e \<Rightarrow> ke_Value e" and ?md = "case view s key of None \<Rightarrow> zero_metadata | Some e \<Rightarrow> ke_Metadata e"
  have d: "decodeParams (buildRollbackParams ''kv.set'' raw (json_canon j) v) dec_envelope = Inr (key, view s key \<noteq> None, ?v, ?md)"
    unfolding m(1) using dec_envelope_set [OF k(2) _ m(2) assms(3)] prev by simp
  have t: "kv_typed (entry_at env' key ?v ?md)" using prev by (auto simp: zero_metadata_typed kv_typed_def split: option.split)
  have e: "entry_at env' key ?v ?md = e\<lparr>ke_UpdatedAt := kx_now env'\<rparr>" if "view s key = Some e" for e
    using that prev by (simp add: entry_at_def)
  have "metadataEmpty zero_metadata" by (simp add: metadataEmpty_def zero_metadata_def)
  then have "view s3 = (view s2)(key := map_option (\<lambda>e. e\<lparr>ke_UpdatedAt := kx_now env'\<rparr>) (view s key))"
    using assms(5) d k(1) upsert [OF assms(4) t] delete [OF assms(4), of key] e
    by (cases "view s key") (auto simp: handleRollbackSet_def kv_meets_def spec_kv_def split: prod.splits sum.splits)
  with m show ?thesis by blast
qed

end

lemma put_all_apply:
  "distinct (map ke_Key es) \<Longrightarrow> put_all es m k = (case find (\<lambda>e. ke_Key e = k) es of None \<Rightarrow> m k | Some e \<Rightarrow> Some e)"
proof (induction es arbitrary: m)
  case (Cons e es)
  then have "find (\<lambda>x. ke_Key x = ke_Key e) es = None" by (simp add: find_None_iff image_iff) metis
  with Cons show ?case by (auto simp: put_all_def split: option.split)
qed (simp add: put_all_def)

lemma put_all_restored:
  assumes "finite (dom m)" and "\<And>k e. m k = Some e \<Longrightarrow> ke_Key e = k" and "\<And>e. ke_Key (f e) = ke_Key e"
  shows "put_all (map f (spec_List m [] 0)) Map.empty k = map_option f (m k)"
proof -
  let ?ks = "sorted_list_of_set (dom m)"
  have l: "spec_List m [] 0 = map (\<lambda>k. the (m k)) ?ks" by (simp add: spec_List_def up_to_def)
  have k: "ke_Key (the (m k)) = k" if "k \<in> dom m" for k using that assms(2) by auto
  from l have l: "map f (spec_List m [] 0) = map (\<lambda>k. f (the (m k))) ?ks" by (simp add: comp_def)
  have "map ke_Key (map (\<lambda>k. f (the (m k))) ?ks) = map (\<lambda>k. ke_Key (the (m k))) ?ks" by (simp add: assms(3))
  also have "\<dots> = ?ks" using assms(1) k by (intro map_idI) simp
  finally have "map ke_Key (map (\<lambda>k. f (the (m k))) ?ks) = ?ks" .
  then have d: "distinct (map ke_Key (map (\<lambda>k. f (the (m k))) ?ks))" by simp
  have "find (\<lambda>e. ke_Key e = k) (map (\<lambda>k. f (the (m k))) ks) = (if k \<in> set ks then Some (f (the (m k))) else None)" if "set ks \<subseteq> dom m" for ks
    using that by (induction ks) (auto simp: assms(3) k)
  from this [of ?ks] assms(1) show ?thesis unfolding l put_all_apply [OF d] by (cases "m k") auto
qed

lemma dec_export_item: "kv_typed e \<Longrightarrow> dec_item (export_item True e) = Inr (ke_Key e, ke_Value e, ke_Metadata e)"
  by (simp add: dec_item_def export_item_def dec_bind_def field_string_def field_metadata_def jget_def dec_metadata_json kv_typed_def)

lemma dec_export_items: "list_all kv_typed es \<Longrightarrow> dec_list dec_item (map (export_item True) es) = Inr (map (\<lambda>e. (ke_Key e, ke_Value e, ke_Metadata e)) es)"
  by (induction es) (auto simp: dec_export_item dec_bind_def)

text \<open>The outcome of a request: the invariant holds, and after an error the contents are what they were.\<close>

definition kv_safe :: "('s \<Rightarrow> kv_map) \<Rightarrow> ('s \<Rightarrow> bool) \<Rightarrow> 's \<Rightarrow> 's \<times> app_result \<Rightarrow> bool" where
  "kv_safe view ok s x \<longleftrightarrow> ok (fst x) \<and> (\<forall>e. snd x = Inl e \<longrightarrow> view (fst x) = view s)"

lemma kv_safe_if: "(c \<Longrightarrow> kv_safe view ok s x) \<Longrightarrow> (\<not> c \<Longrightarrow> kv_safe view ok s y) \<Longrightarrow> kv_safe view ok s (if c then x else y)"
  by simp

context kv_store
begin

lemma op_safe:
  assumes "ok s"
  shows "ok (fst (ko_Get ops s k)) \<and> view (fst (ko_Get ops s k)) = view s"
    and "kv_typed e \<Longrightarrow> ok (fst (ko_Upsert ops s e)) \<and> (snd (ko_Upsert ops s e) = Inl x \<longrightarrow> view (fst (ko_Upsert ops s e)) = view s)"
    and "kv_typed e \<Longrightarrow> ok (fst (ko_Create ops s e)) \<and> (snd (ko_Create ops s e) = Inl x \<longrightarrow> view (fst (ko_Create ops s e)) = view s)"
    and "ok (fst (ko_Delete ops s k)) \<and> (snd (ko_Delete ops s k) = Inl x \<longrightarrow> view (fst (ko_Delete ops s k)) = view s)"
    and "list_all kv_typed es \<Longrightarrow> ok (fst (ko_BatchUpsert ops s es mode)) \<and>
      (snd (ko_BatchUpsert ops s es mode) = Inl x \<longrightarrow> view (fst (ko_BatchUpsert ops s es mode)) = view s)"
    and "list_all kv_typed es \<Longrightarrow> ok (fst (ko_ReplaceAll ops s es merge)) \<and>
      (snd (ko_ReplaceAll ops s es merge) = Inl x \<longrightarrow> view (fst (ko_ReplaceAll ops s es merge)) = view s)"
  using get [OF assms, of k] upsert [OF assms, of e] create [OF assms, of e] delete [OF assms, of k] batch [OF assms, of es mode] replace [OF assms, of es merge]
  by (auto simp: kv_meets_def spec_kv_def spec_BatchUpsert_def split: if_splits sum.splits option.splits)

lemma with_params_safe:
  assumes "ok s" and "\<And>m p. f m = Inr p \<Longrightarrow> kv_safe view ok s (k p)"
  shows "kv_safe view ok s (with_params env s raw f k)"
proof (cases "decodeParams raw (\<lambda>m. dec_bind (f m) (\<lambda>p. dec_bind (dec_control m) (\<lambda>c. Inr (p, c))))")
  case (Inr x)
  from decodeParams_Inr [OF this] obtain m where m: "dec_bind (f m) (\<lambda>p. dec_bind (dec_control m) (\<lambda>c. Inr (p, c))) = Inr x" by blast
  then have "f m = Inr (fst x)" by (cases "f m"; cases "dec_control m") (auto simp: dec_bind_def)
  with Inr assms show ?thesis by (cases x) (auto simp: with_params_def kv_safe_def split: option.split)
qed (use assms(1) in \<open>auto simp: with_params_def kv_safe_def\<close>)

lemma handlers_safe:
  assumes s: "ok s"
  shows "kv_safe view ok s (handleGet env ops s raw)" and "kv_safe view ok s (handleSet env ops s raw)" and "kv_safe view ok s (handleDelete env ops s raw)"
    and "kv_safe view ok s (handleList env ops s raw)" and "kv_safe view ok s (handleExists env ops s raw)" and "kv_safe view ok s (handleExport env ops s raw)"
    and "kv_safe view ok s (handleVerify env ops s raw)"
  unfolding handleGet_def handleSet_def handleDelete_def handleList_def handleExists_def handleExport_def handleVerify_def
  by (rule with_params_safe [where s = s, OF s];
      auto simp: kv_safe_def Let_def case_prod_beta op_safe [OF s] listed [OF s] s dest: dec_set_typed split: sum.splits option.splits)+

lemma batch_safe:
  assumes s: "ok s"
  shows "kv_safe view ok s (handleBatchSet env ops s raw)" and "kv_safe view ok s (handleImport env ops s raw)"
proof -
  have typed: "list_all kv_typed (entries_at env (fst p))" if "dec_entries m = Inr p" for m p
    using dec_entries_typed [of m "fst p" "snd p"] that by simp
  show "kv_safe view ok s (handleBatchSet env ops s raw)" unfolding handleBatchSet_def
    by (rule with_params_safe [where s = s, OF s], drule typed) (auto simp: kv_safe_def case_prod_beta s op_safe [OF s] split: sum.splits)
  show "kv_safe view ok s (handleImport env ops s raw)" unfolding handleImport_def
    by (rule with_params_safe [where s = s, OF s], drule typed) (auto simp: kv_safe_def Let_def case_prod_beta s op_safe [OF s] split: sum.splits)
qed

lemma rollback_safe: "ok s \<Longrightarrow> kv_safe view ok s (handleRollbackSet env ops s raw)"
  by (cases "decodeParams raw dec_envelope")
    (auto simp: kv_safe_def handleRollbackSet_def case_prod_beta op_safe dest!: decodeParams_Inr dest: dec_envelope_typed split: sum.splits)

lemma dispatch_safe: "ok s \<Longrightarrow> kv_safe view ok s (kv_dispatch env ops s meth raw)"
  unfolding kv_dispatch_def by (intro kv_safe_if handlers_safe batch_safe rollback_safe) (auto simp: kv_safe_def)

lemma run_ok: "ok s \<Longrightarrow> ok (fst (kv_run ops s rs))"
proof (induction rs arbitrary: s)
  case (Cons r rs)
  obtain env meth raw where "r = (env, meth, raw)" by (cases r)
  with Cons dispatch_safe [OF Cons.prems, of env meth raw] show ?case by (auto simp: kv_safe_def Let_def case_prod_beta)
qed simp

lemma export_all:
  assumes "ok s" and "handleExport env ops s raw = (s', Inr j)" and "jget (data_fields j) ''entries'' = Some items"
    and "dec_map raw = Inr m" and "dec_export m = Inr (format, True)"
  shows "items = JArr (map (export_item True) (spec_List (view s) [] 0))"
proof -
  have l: "snd (ko_List ops s [] 0) = Inr es \<Longrightarrow> es = spec_List (view s) [] 0" for es
    using list [OF assms(1), of 0] by (auto simp: kv_meets_def spec_kv_def)
  have d: "decodeParams raw f = (case f m of Inl e \<Rightarrow> Inl (invalidParams (''invalid params: '' @ error_text e)) | Inr x \<Rightarrow> Inr x)" for f :: "jmap \<Rightarrow> 'b decoded"
    using assms(4) by (cases raw) (auto simp: decodeParams_def dec_bind_def)
  show ?thesis using assms(2,3,5) l
    by (auto simp: handleExport_def with_params_def d dec_bind_def data_fields_def json_marshal_def jget_def case_prod_beta
        split: sum.splits option.splits if_splits)
qed

lemma import_all:
  assumes "ok s" and "list_all kv_typed es" and "handleImport env ops s (Raw (JObj [(''entries'', JArr (map (export_item True) es))])) = (s', Inr x)"
  shows "view s' = put_all (map (\<lambda>e. e\<lparr>ke_UpdatedAt := kx_now env\<rparr>) es) Map.empty"
proof -
  let ?m = "[(''entries'', JArr (map (export_item True) es))]" and ?items = "map (\<lambda>e. (ke_Key e, ke_Value e, ke_Metadata e)) es"
  have d: "dec_entries ?m = Inr (?items, [])"
    by (simp add: dec_entries_def field_list_def jget_def dec_export_items [OF assms(2)] dec_bind_def field_string_def)
  have e: "entries_at env ?items = map (\<lambda>e. e\<lparr>ke_UpdatedAt := kx_now env\<rparr>) es" by (simp add: entries_at_def entry_at_def)
  have c: "dec_control ?m = Inr \<lparr>tc_DelayMs = 0, tc_ErrorCode = 0, tc_ErrorMessage = []\<rparr>"
    by (simp add: dec_control_def sub_struct_def jget_def dec_bind_def field_int_def field_string_def)
  have "list_all kv_typed (entries_at env ?items)" using dec_entries_typed [OF d] .
  from replace [OF assms(1) this, of False] assms(3) show ?thesis
    by (auto simp: handleImport_def with_params_def decodeParams_def dec_bind_def d c applyTestControl_def kv_meets_def spec_kv_def e Let_def
        split: if_splits prod.splits sum.splits)
qed

end

text \<open>
  C21. On SQLite an error means that nothing happened: whatever statement the driver fails at, and whatever the request, an
  answer with an error leaves the entries as they were, and the store stays well-formed.
\<close>

theorem kv_error_atomic:
  assumes "sqlkv_ok d" and "kv_dispatch env (sqlite_kv sql) d meth raw = (d', Inl e)"
  shows "sqlkv_ok d' \<and> sqlkv_view d' = sqlkv_view d"
  using sqlite.dispatch_safe [OF assms(1), of env sql meth raw] assms(2) by (simp add: kv_safe_def)

text \<open>
  C19. The rollback of \<open>kv.set\<close>. The envelope the router builds from a successful \<open>kv.set\<close> and the verdict of \<open>kv.verify\<close> makes
  \<open>kv.rollback_set\<close> put the key back to the entry it had before that call, with a new time, or remove it when there was
  none, and touch no other key, whatever requests were served in between and at whatever statements the driver failed.
\<close>

theorem kv_set_rollback:
  assumes "sqlkv_ok d" and "handleSet env (sqlite_kv sql) d raw = (d1, Inr j)" and "verdict_ok v"
    and "handleRollbackSet env' (sqlite_kv sql) (fst (kv_run (sqlite_kv sql) d1 rs)) (buildRollbackParams ''kv.set'' raw (json_canon j) v) = (d2, Inr x)"
  shows "\<exists>m key rest. raw = Raw (JObj m) \<and> dec_set m = Inr (key, rest) \<and>
    sqlkv_view d2 = (sqlkv_view (fst (kv_run (sqlite_kv sql) d1 rs)))(key := map_option (\<lambda>e. e\<lparr>ke_UpdatedAt := kx_now env'\<rparr>) (sqlkv_view d key))"
proof -
  have "sqlkv_ok d1" using sqlite.set_stores [OF assms(1,2)] by metis
  then have "sqlkv_ok (fst (kv_run (sqlite_kv sql) d1 rs))" by (rule sqlite.run_ok)
  with sqlite.set_rolled_back [OF assms(1-3)] assms(4) show ?thesis by blast
qed

text \<open>
  C22. Export and import. What \<open>kv.export\<close> with metadata reports of a store in memory, given to \<open>kv.import\<close> of any store on
  SQLite, makes the contents of that store the contents of the exported one, with a new time.
\<close>

theorem kv_export_import:
  assumes "mem_kv_inv m" and "handleExport env mem_kv m raw = (m', Inr j)" and "jget (data_fields j) ''entries'' = Some items"
    and "dec_map raw = Inr o1" and "dec_export o1 = Inr (format, True)"
    and "sqlkv_ok d" and "handleImport env' (sqlite_kv sql) d (Raw (JObj [(''entries'', items)])) = (d', Inr x)"
  shows "sqlkv_view d' k = map_option (\<lambda>e. e\<lparr>ke_UpdatedAt := kx_now env'\<rparr>) (map_of m k)"
proof -
  have items: "items = JArr (map (export_item True) (spec_List (map_of m) [] 0))" by (rule memory.export_all [OF assms(1-5)])
  have keys: "finite (dom (map_of m))" "map_of m k = Some e \<Longrightarrow> ke_Key e = k \<and> kv_typed e" for k e using memory.keys [OF assms(1)] by auto
  have "list_all kv_typed (spec_List (map_of m) [] 0)"
    using keys by (auto simp: spec_List_def up_to_def list_all_iff)
  from sqlite.import_all [OF assms(6) this assms(7) [unfolded items]] put_all_restored [OF keys(1)] keys(2)
  show ?thesis by simp
qed

text \<open>
  A listing by a prefix is different on SQLite: \<open>LIKE\<close> takes an underscore in the prefix for any character, and letters
  without their case.
\<close>

definition plain_entry :: "string \<Rightarrow> kv_entry" where
  "plain_entry k = \<lparr>ke_Key = k, ke_Value = ''v'', ke_Metadata = zero_metadata, ke_UpdatedAt = ''t''\<rparr>"

lemma kv_prefix_differs:
  "map_sum id (map ke_Key) (snd (memkv_List (map (\<lambda>k. (k, plain_entry k)) [''a_b'', ''axc'', ''A_d'']) ''a_'' 0)) = Inr [''a_b'']"
  "map_sum id (map ke_Key) (snd (sqlkv_List \<lparr>sq_fault = \<lambda>_. None, sq_now = \<lambda>_. 0\<rparr> \<lparr>db_tables = map (kv_row_of \<circ> plain_entry) [''a_b'', ''axc'', ''A_d''], db_stmts = 0\<rparr> ''a_'' 0)) =
     Inr [''A_d'', ''a_b'', ''axc'']"
  by code_simp+

section \<open>Witnesses\<close>

definition demo_sql :: sql_env where
  "demo_sql = \<lparr>sq_fault = \<lambda>n. if n = 7 then Some (GoErr ''disk full'') else None, sq_now = \<lambda>_. 0\<rparr>"

definition demo_kv :: kv_env where
  "demo_kv = \<lparr>kx_now = ''now'', kx_stopped = None, kx_sha256 = id, kx_sha256_json = \<lambda>_. ''sum''\<rparr>"

definition demo_store :: "nat \<Rightarrow> kv_db" where
  "demo_store n = \<lparr>db_tables = [kv_row_of (plain_entry ''a'')], db_stmts = n\<rparr>"

lemma demo_store_ok: "sqlkv_ok (demo_store n)"
proof -
  have "kv_typed (plain_entry ''a'')" by (simp add: plain_entry_def kv_typed_def zero_metadata_typed)
  then show ?thesis by (auto simp: sqlkv_ok_def kv_rows_ok_def demo_store_def)
qed

definition demo_set :: "string \<Rightarrow> string \<Rightarrow> raw" where
  "demo_set k v = Raw (JObj [(''key'', JStr k), (''value'', JStr v)])"

lemma answered_case: "case x of (s, Inr a) \<Rightarrow> P s a | _ \<Rightarrow> False \<Longrightarrow> \<exists>s a. x = (s, Inr a) \<and> P s a"
  by (cases x; cases "snd x") auto

theorem kv_error_atomic_witness:
  "\<exists>d' e. kv_dispatch demo_kv (sqlite_kv demo_sql) (demo_store 6) ''kv.set'' (demo_set ''a'' ''w'') = (d', Inl e) \<and> sqlkv_view d' = sqlkv_view (demo_store 6)"
proof -
  have "\<not> isl (snd (kv_dispatch demo_kv (sqlite_kv demo_sql) (demo_store 6) ''kv.set'' (demo_set ''a'' ''w''))) \<Longrightarrow> False" by code_simp
  then obtain d' e where r: "kv_dispatch demo_kv (sqlite_kv demo_sql) (demo_store 6) ''kv.set'' (demo_set ''a'' ''w'') = (d', Inl e)"
    by (metis isl_def prod.collapse)
  from kv_error_atomic [OF demo_store_ok this] r show ?thesis by blast
qed

theorem kv_set_rollback_witness:
  "\<exists>d1 j d2 x. handleSet demo_kv (sqlite_kv demo_sql) (demo_store 0) (demo_set ''a'' ''w'') = (d1, Inr j) \<and>
     handleRollbackSet demo_kv (sqlite_kv demo_sql) (fst (kv_run (sqlite_kv demo_sql) d1 [(demo_kv, ''kv.set'', demo_set ''b'' ''c'')]))
       (buildRollbackParams ''kv.set'' (demo_set ''a'' ''w'') (json_canon j) JNull) = (d2, Inr x) \<and>
     sqlkv_view d2 ''a'' = Some ((plain_entry ''a'')\<lparr>ke_UpdatedAt := ''now''\<rparr>)"
proof -
  let ?set = "handleSet demo_kv (sqlite_kv demo_sql) (demo_store 0) (demo_set ''a'' ''w'')"
  let ?undo = "\<lambda>d1 j. handleRollbackSet demo_kv (sqlite_kv demo_sql) (fst (kv_run (sqlite_kv demo_sql) d1 [(demo_kv, ''kv.set'', demo_set ''b'' ''c'')]))
       (buildRollbackParams ''kv.set'' (demo_set ''a'' ''w'') (json_canon j) JNull)"
  have "case ?set of (d1, Inr j) \<Rightarrow> (case ?undo d1 j of (d2, Inr x) \<Rightarrow> True | _ \<Rightarrow> False) | _ \<Rightarrow> False" by code_simp
  from answered_case [OF this] obtain d1 j where s: "?set = (d1, Inr j)" "case ?undo d1 j of (d2, Inr x) \<Rightarrow> True | _ \<Rightarrow> False"
    by (elim exE conjE) (rule that)
  from s(1) answered_case [OF s(2)] obtain d2 x where r: "?set = (d1, Inr j)" "?undo d1 j = (d2, Inr x)" by blast
  have v: "verdict_ok JNull" by (simp add: verdict_ok_def)
  have a: "sqlkv_view (demo_store 0) ''a'' = Some (plain_entry ''a'')" by code_simp
  from kv_set_rollback [OF demo_store_ok r(1) v r(2)] obtain m key rest where m: "demo_set ''a'' ''w'' = Raw (JObj m)" "dec_set m = Inr (key, rest)"
    "sqlkv_view d2 key = map_option (\<lambda>e. e\<lparr>ke_UpdatedAt := kx_now demo_kv\<rparr>) (sqlkv_view (demo_store 0) key)" by auto
  have "map_sum id fst (dec_set [(''key'', JStr ''a''), (''value'', JStr ''w'')]) = Inr ''a''" by code_simp
  with m(1,2) have "key = ''a''" by (simp add: demo_set_def)
  with m(3) a r show ?thesis by (auto simp: demo_kv_def)
qed

theorem kv_export_import_witness:
  "\<exists>j items d' x. handleExport demo_kv mem_kv [(''b'', plain_entry ''b'')] (Raw (JObj [(''include_metadata'', JBool True)])) = ([(''b'', plain_entry ''b'')], Inr j) \<and>
     jget (data_fields j) ''entries'' = Some items \<and>
     handleImport demo_kv (sqlite_kv demo_sql) (demo_store 0) (Raw (JObj [(''entries'', items)])) = (d', Inr x) \<and>
     sqlkv_view d' ''b'' = Some ((plain_entry ''b'')\<lparr>ke_UpdatedAt := ''now''\<rparr>)"
proof -
  let ?m = "[(''b'', plain_entry ''b'')]" and ?raw = "Raw (JObj [(''include_metadata'', JBool True)])"
  let ?export = "handleExport demo_kv mem_kv ?m ?raw" and ?import = "\<lambda>items. handleImport demo_kv (sqlite_kv demo_sql) (demo_store 0) (Raw (JObj [(''entries'', items)]))"
  have "case ?export of (m', Inr j) \<Rightarrow> (case jget (data_fields j) ''entries'' of Some items \<Rightarrow> (case ?import items of (d', Inr x) \<Rightarrow> m' = ?m | _ \<Rightarrow> False) | _ \<Rightarrow> False)
      | _ \<Rightarrow> False" by code_simp
  from answered_case [OF this] obtain m' j items where s: "?export = (m', Inr j)" "jget (data_fields j) ''entries'' = Some items"
    "case ?import items of (d', Inr x) \<Rightarrow> m' = ?m | _ \<Rightarrow> False" by (auto split: option.splits)
  from s(1,2) answered_case [OF s(3)] obtain d' x where r: "?export = (?m, Inr j)" "jget (data_fields j) ''entries'' = Some items" "?import items = (d', Inr x)" by blast
  have k: "mem_kv_inv ?m" by (simp add: mem_kv_inv_def plain_entry_def kv_typed_def zero_metadata_typed)
  have d: "dec_map ?raw = Inr [(''include_metadata'', JBool True)]" "dec_export [(''include_metadata'', JBool True)] = Inr ([], True)" by code_simp+
  from kv_export_import [OF k r(1,2) d demo_store_ok r(3), of "''b''"] r show ?thesis by (auto simp: demo_kv_def)
qed

theorem kv_backends_agree_witness:
  "\<exists>rs. map without_checksum (snd (kv_run mem_kv [] rs)) = map without_checksum (snd (kv_run (sqlite_kv (no_faults demo_sql)) \<lparr>db_tables = [], db_stmts = 0\<rparr> rs)) \<and>
     length rs = 3 \<and> list_all (\<lambda>a. \<not> isl a) (snd (kv_run mem_kv [] rs))"
proof -
  let ?rs = "[(demo_kv, ''kv.set'', demo_set ''7'' ''v''), (demo_kv, ''kv.verify'', RawNil), (demo_kv, ''kv.list'', Raw (JObj [(''prefix'', JStr ''7'')]))]"
  have e: "mem_kv_inv []" "sqlkv_ok \<lparr>db_tables = [], db_stmts = 0\<rparr>" "map_of [] = sqlkv_view \<lparr>db_tables = [], db_stmts = 0\<rparr>"
    by (simp_all add: mem_kv_inv_def sqlkv_ok_def kv_rows_ok_def sqlkv_view_def rows_map_def select_row_def fun_eq_iff)
  have "d = CHR ''7''" if "lower_char d = CHR ''7''" for d
  proof (cases "65 \<le> (of_char d :: nat) \<and> (of_char d :: nat) \<le> 90")
    case True
    with that have "char_of (of_char d + 32 :: nat) = CHR ''7''" by (simp add: lower_char_def)
    then have "of_char (char_of (of_char d + 32 :: nat)) = (of_char CHR ''7'' :: nat)" by simp
    with True show ?thesis by simp
  qed (use that in \<open>auto simp: lower_char_def Let_def\<close>)
  moreover have "lower_char CHR ''7'' = CHR ''7''" by code_simp
  ultimately have "caseless ''7''" unfolding caseless_def by (simp, metis)
  then have l: "list_all (\<lambda>(env, meth, raw). lists_only caseless meth raw) ?rs"
    by (auto simp: lists_only_def dec_list_params_def dec_bind_def field_string_def jget_def split: sum.splits)
  have "list_all (\<lambda>a. \<not> isl a) (snd (kv_run mem_kv [] ?rs))" by code_simp
  with kv_backends_agree [OF e l, of demo_sql] show ?thesis by (intro exI [of _ ?rs]) simp
qed

end
