(* ===== verification/Spec2Isabelle.thy ===== *)
theory Spec2Isabelle
  imports SqliteStore Runtime DbPrims PkgMgr RpcSafety RepoAdapter OsSafety KvSafety
begin

text \<open>
  PrimitiveBox runs the actions of an agent (\<^emph>\<open>primitives\<close>) inside sandboxes, takes a checkpoint before an
  action that cannot be undone, verifies its outcome and recovers when it failed. This development models
  the Go code under \<open>src/internal\<close> that decides all this. Functions are named as in the source; a method of
  a type carries the type's name where two types share it.

  \<^bold>\<open>Theories, from the bottom up.\<close>

  \<^item> \<open>Prelude\<close>: strings, decimal numbers, Go errors as values (\<open>go_error\<close>), association lists, and the
    shared lemmas. \<open>Json\<close>: \<open>encoding/json\<close> values, \<open>json.RawMessage\<close> as \<open>raw\<close>, decoding into Go
    types, printing and parsing. \<open>Sql\<close>: statements and transactions against a database that may fail at
    any of them.
  \<^item> \<open>Cvr\<close> (\<open>cvr/\<close>): the coordinator of checkpoint, execution and verification (\<open>cvr_execute\<close> with its layers
    \<open>layer_a\<close> and \<open>layer_b\<close>), the recovery tree and the test-suite strategy. No mutation that needs a
    checkpoint runs before it is taken and recorded; a passed result is a verified one.
  \<^item> \<open>AppManifest\<close> (\<open>primitive/app_manifest.go\<close>): the manifests of application primitives, their normalisation
    and the in-memory registry. \<open>AppRegistry\<close> (\<open>control/app_registry.go\<close>): the registry on SQLite. Both
    are instances of one locale of registries, whose lemmas give the ownership and namespace properties.
  \<^item> \<open>Orchestrator\<close> (\<open>orchestrator/\<close>): the task engine, \<open>executeStepWithRecovery\<close> as a loop over
    \<open>run_attempt\<close>, declared rollbacks, workspace restores, tasks, the state tracker and replay. A step
    ends with a verified result or an error, within its attempts, each of which is traced; a failed
    irreversible mutation is restored to its own checkpoint or the step fails terminally.
  \<^item> \<open>Eventing\<close> (\<open>eventing/eventing.go\<close>): the bus, its subscribers' bounded channels, persistence and sinks.
  \<^item> \<open>Sandbox\<close> (\<open>sandbox/manager.go\<close>, \<open>store.go\<close>, \<open>runtime.go\<close>): the life cycle of sandboxes over any store
    and driver, the reaper, deadlines in 64-bit nanoseconds. \<open>SqliteStore\<close> (\<open>control/sqlite_store.go\<close>): the
    store of sandboxes, events, traces and checkpoint manifests. The in-memory and the SQLite store
    interpret the same store locale, so the reaper's safety is proved once.
  \<^item> \<open>GoalStore\<close> (\<open>control/goal_store.go\<close>), \<open>VerificationRunner\<close> and \<open>GoalCoordinator\<close> (\<open>goal/\<close>): goals with their
    steps, reviews and verifications. No high-risk step runs without an approved review, a goal is
    completed only when its verifications passed, decisions on reviews are final, and no fault of the
    database leaves a goal half written.
  \<^item> \<open>PrimitiveMeta\<close> (\<open>primitive/primitive.go\<close>, \<open>registry.go\<close>, \<open>metadata.go\<close>): the registry of built-in
    primitives and the intents it gives them, compared with those the engine infers. \<open>Router\<close>
    (\<open>sandbox/router.go\<close>, \<open>goal/executor_adapter.go\<close>): dispatch of calls to application sockets, with the
    verification and rollback endpoints, and the driver that chooses a driver by configuration.
  \<^item> \<open>FileSystem\<close>: the POSIX file system as Go's \<open>os\<close> and \<open>path/filepath\<close> show it. \<open>Workspace\<close>
    (\<open>primitive/workspace.go\<close>): the resolution of paths inside the workspace. \<open>FsPrims\<close> (\<open>primitive/fs.go\<close>): the
    file primitives; none of them reads or writes outside the workspace, whatever links there are.
    \<open>HostPrims\<close> (\<open>shell.go\<close>, \<open>verify.go\<close>, \<open>verify_command.go\<close>, \<open>state.go\<close>, \<open>macro.go\<close>): shell commands,
    verification, git checkpoints and the compound edit.
  \<^item> \<open>DbPrims\<close> (\<open>primitive/db.go\<close>): the database primitives. A query reaches the driver only as one \<open>SELECT\<close>, wrapped and limited;
    the two checks of statements divide what the parser accepts; a SQLite file is opened only inside the workspace.
  \<^item> \<open>Runtime\<close> (\<open>runtime/runtime.go\<close>, \<open>adapter.go\<close>): adapter processes, the registration of their primitives beside the built-in
    ones, and the call with its checkpoint, verifier, restore and trace record. A failed call that wrote is restored to its own
    checkpoint; adapters never replace a built-in primitive.
  \<^item> \<open>PkgMgr\<close> (\<open>pkgmgr/\<close>): Boxfiles, the store of installed packages and the installer. A failed install leaves no process behind;
    a failed upgrade forgets the old version.
  \<^item> \<open>GoalApi\<close> (\<open>rpc/goal_handlers.go\<close>): the HTTP interface to goals. Requests and background runs in any order keep the invariant
    of the goal store and the review gate. \<open>RpcServer\<close> (\<open>rpc/server.go\<close>, \<open>trace_api.go\<close>, \<open>audit/logger.go\<close>): JSON-RPC calls and
    streams, registration of app primitives, the routes and proxies of sandboxes, events and traces, over the router, the manager and
    the goal API. \<open>RpcSafety\<close>: every call is answered once, routed calls are audited, no sequence of requests
    registers a reserved name or changes an owner, and the proxy reaches only its sandbox.

  \<^bold>\<open>How the parts interact.\<close> The goal coordinator runs each step through an executor: the adapter of
  \<open>Router\<close>, or the engine of \<open>Orchestrator\<close>, which runs every attempt through \<open>Cvr\<close>. The coordinator and the
  engine see primitives through a function from worlds to worlds, which the router and the host
  primitives provide; stores are reached through records of operations, one per Go interface. The server routes calls through \<open>Router\<close>
  inside a sandbox or on the host, and forwards requests for a sandbox that \<open>Sandbox\<close> reports as running.

  \<^bold>\<open>Abstractions.\<close> JSON numbers are integers, and a raw message is its decoded value, absent or malformed.
  Clocks, random identifiers, drivers, sockets, HTTP, processes, the shell, git, SQL drivers and the SQL parser, YAML decoding,
  the encoding of the trace header and the semantic diff of Go sources are parameters; what is assumed of them is stated as a hypothesis (\<open>git_contract\<close>, \<open>records\<close>) and met by an
  example. Every statement of the database may fail. Rows with equal \<open>ORDER BY\<close> keys come in insertion
  order. CPU limits are in thousandths. Error details, logs, mutexes, contexts and cancellation are left
  out: operations run one at a time. Integers are unbounded except for durations, line and count fields
  decoded as Go's \<open>int\<close>, and the deadlines, which wrap at 64 bits. A nil dereference or an index out of range
  is a value of its own (\<open>Panics\<close>, \<open>None\<close>).

  \<^bold>\<open>Loops and fuel.\<close> The retry loop counts the attempts left, \<open>max_retries + 1\<close> at the start; \<open>step_ends\<close> shows that
  more would change nothing. The manifest chain has fuel because the code's loop may not end: a bound
  given by the caller is enough, and without one a cycle exhausts any fuel. The JSON parser has the length
  of its input as fuel. The installer polls for registrations as often as its time allows, a parameter. The walk along a path follows at most the number of links that Linux (40) or
  \<open>filepath.EvalSymlinks\<close> (255) follows.

  \<^bold>\<open>Not modelled.\<close> The Docker and Kubernetes drivers, the browser and code-search primitives, configuration files and the
  command-line programs, bridges and stand-alone adapters: they are mostly calls into external services, processes and sockets. The
  semantic diff rests on the parser of Go's own compiler. Of the server, the listener and the assets of the user interface; of the audit
  log, its file.
\<close>

end
